(* ===== verification/KVS_Prelude.thy ===== *)
theory KVS_Prelude
  imports Main "HOL-Library.Word" "HOL-Library.Monad_Syntax" "HOL-Library.Code_Target_Nat"
begin

text \<open>
  Shared vocabulary of the development: the integer types of the C sources, the status codes that
  every function returns, function pointers, and the generic facts on lists that the components
  use.

  \<^item> A C \<open>UINT32\<close> or \<open>UINT64\<close> is a word of that width where arithmetic on it matters.
  \<^item> A \<open>STATUS\<close> is a datatype: one constructor for each code that the sources compare or return, in
    the order of \<open>cproducer/Include.h\<close>, \<open>common/Include.h\<close> and the platform independent code, and
    \<open>STATUS_OTHER\<close> for every other 32-bit value a callback may return.
  \<^item> A \<open>PCHAR\<close> is a C string or NULL, which is \<open>None\<close>.
  \<^item> A function pointer is \<open>None\<close> for NULL; otherwise it is a function of this library, by its C
    name, or a function of the application.
\<close>

type_synonym UINT32 = "32 word"
type_synonym UINT64 = "64 word"
type_synonym STREAM_HANDLE = "64 word"
type_synonym CLIENT_HANDLE = "64 word"
type_synonym UPLOAD_HANDLE = "64 word"
type_synonym PCHAR = "string option"

datatype (plugins only: code size) STATUS =
    STATUS_SUCCESS
  | STATUS_NULL_ARG
  | STATUS_INVALID_ARG
  | STATUS_INVALID_ARG_LEN
  | STATUS_NOT_ENOUGH_MEMORY
  | STATUS_BUFFER_TOO_SMALL
  | STATUS_INVALID_OPERATION
  | STATUS_INTERNAL_ERROR
  | STATUS_NOT_IMPLEMENTED
  | STATUS_PATH_TOO_LONG
  | STATUS_HASH_KEY_NOT_PRESENT
  | STATUS_INVALID_AUTH_LEN
  | STATUS_INVALID_STORAGE_SIZE
  | STATUS_INVALID_CERT_PATH_LENGTH
  | STATUS_NO_MORE_DATA_AVAILABLE
  | STATUS_AWAITING_PERSISTED_ACK
  | STATUS_UPLOAD_HANDLE_ABORTED
  | STATUS_END_OF_STREAM
  | STATUS_GET_STREAMING_ENDPOINT_CALL_FAILED
  | STATUS_STOP_CALLBACK_CHAIN
  | STATUS_MAX_CALLBACK_CHAIN
  | STATUS_INVALID_PLATFORM_CALLBACKS_VERSION
  | STATUS_INVALID_PRODUCER_CALLBACKS_VERSION
  | STATUS_INVALID_STREAM_CALLBACKS_VERSION
  | STATUS_INVALID_AUTH_CALLBACKS_VERSION
  | STATUS_INVALID_API_CALLBACKS_VERSION
  | STATUS_INVALID_DESCRIBE_STREAM_RETURN_JSON
  | STATUS_MAX_USER_AGENT_NAME_POSTFIX_LEN_EXCEEDED
  | STATUS_MAX_CUSTOM_USER_AGENT_LEN_EXCEEDED
  | STATUS_INVALID_ENDPOINT_CACHING_PERIOD
  | STATUS_DUPLICATE_PRODUCER_CALLBACK_FREE_FUNC
  | STATUS_DUPLICATE_STREAM_CALLBACK_FREE_FUNC
  | STATUS_DUPLICATE_AUTH_CALLBACK_FREE_FUNC
  | STATUS_DUPLICATE_API_CALLBACK_FREE_FUNC
  | STATUS_FILE_LOGGER_INDEX_FILE_TOO_LARGE
  | STATUS_STREAM_BEING_SHUTDOWN
  | STATUS_CLIENT_BEING_SHUTDOWN
  | STATUS_CONTINUOUS_RETRY_RESET_FAILED
  | STATUS_INVALID_AWS_CREDENTIALS_VERSION
  | STATUS_MAX_REQUEST_HEADER_COUNT
  | STATUS_MAX_REQUEST_HEADER_NAME_LEN
  | STATUS_MAX_REQUEST_HEADER_VALUE_LEN
  | STATUS_INVALID_API_CALL_RETURN_JSON
  | STATUS_CURL_INIT_FAILED
  | STATUS_CURL_LIBRARY_INIT_FAILED
  | STATUS_HMAC_GENERATION_ERROR
  | STATUS_IOT_FAILED
  | STATUS_MAX_ROLE_ALIAS_LEN_EXCEEDED
  | STATUS_INVALID_USER_AGENT_LENGTH
  | STATUS_IOT_EXPIRATION_OCCURS_IN_PAST
  | STATUS_IOT_EXPIRATION_PARSING_FAILED
  | STATUS_MAX_IOT_THING_NAME_LENGTH
  | STATUS_IOT_CREATE_LWS_CONTEXT_FAILED
  | STATUS_INVALID_CA_CERT_PATH
  | STATUS_FILE_CREDENTIAL_PROVIDER_OPEN_FILE_FAILED
  | STATUS_FILE_CREDENTIAL_PROVIDER_INVALID_FILE_LENGTH
  | STATUS_FILE_CREDENTIAL_PROVIDER_INVALID_FILE_FORMAT
  | STATUS_CURL_PERFORM_FAILED
  | STATUS_IOT_INVALID_RESPONSE_LENGTH
  | STATUS_IOT_NULL_AWS_CREDS
  | STATUS_IOT_INVALID_URI_LEN
  | STATUS_TIMESTAMP_STRING_UNRECOGNIZED_FORMAT
  | STATUS_DIRECTORY_ENTRY_STAT_ERROR
  | STATUS_FILE_LOGGER_INDEX_FILE_INVALID_SIZE
  | STATUS_OTHER "32 word"

definition STATUS_SUCCEEDED :: "STATUS \<Rightarrow> bool" where
  "STATUS_SUCCEEDED x \<longleftrightarrow> x = STATUS_SUCCESS"

definition STATUS_FAILED :: "STATUS \<Rightarrow> bool" where
  "STATUS_FAILED x \<longleftrightarrow> \<not> STATUS_SUCCEEDED x"

lemma STATUS_FAILED_iff [simp]: "STATUS_FAILED x \<longleftrightarrow> x \<noteq> STATUS_SUCCESS"
  by (simp add: STATUS_FAILED_def STATUS_SUCCEEDED_def)

lemma STATUS_SUCCEEDED_iff [simp]: "STATUS_SUCCEEDED x \<longleftrightarrow> x = STATUS_SUCCESS"
  by (simp add: STATUS_SUCCEEDED_def)

datatype cfun = C_FUN string | USER_FN nat

type_synonym fnptr = "cfun option"

named_theorems provider_defs \<open>definitions of the callbacks provider's operations\<close>
named_theorems aggregate_defs \<open>definitions of the aggregate functions\<close>
named_theorems retry_defs \<open>definitions of the continuous retry state machines\<close>

subsection \<open>Arrays with a fill count\<close>

text \<open>The entries that a loop \<open>for (i = 0; i < n; i++)\<close> reads from an array.\<close>

definition entries :: "'a list \<Rightarrow> nat \<Rightarrow> 'a list" where
  "entries arr n = map (\<lambda>i. arr ! i) [0..<n]"

lemma entries_take: "n \<le> length arr \<Longrightarrow> entries arr n = take n arr"
  by (rule nth_equalityI) (auto simp: entries_def)

lemma entries_0 [simp]: "entries arr 0 = []"
  by (simp add: entries_def)

lemma length_entries [simp]: "length (entries arr n) = n"
  by (simp add: entries_def)

lemma entries_store:
  assumes "n < length arr"
  shows "entries (arr[n := x]) (Suc n) = entries arr n @ [x]"
proof (rule nth_equalityI)
  fix i assume "i < length (entries (arr[n := x]) (Suc n))"
  then show "entries (arr[n := x]) (Suc n) ! i = (entries arr n @ [x]) ! i"
    using assms by (cases "i = n") (auto simp: entries_def nth_append less_Suc_eq simp del: upt_Suc)
qed simp

end
