(* ===== verification/Callbacks.thy ===== *)
theory Callbacks
  imports KVS_Prelude
begin

text \<open>
  The callbacks provider of \<open>src/source/CallbacksProvider.c\<close>: the callback structures of
  \<open>cproducer/Include.h\<close>, the provider object with its four callback chains, the operations that
  install callbacks, the release of the provider, and the aggregate functions that the client
  callbacks dispatch to.

  A callback of the application is a function pointer. Calling it is a parameter of the aggregate,
  a function of the pointer, its custom data, the arguments, and the state \<open>'w\<close> of everything the
  callback may read or change, output arguments included. A chain is an array of
  \<open>callbackChainCount\<close> entries with a fill count, as in the C object.
\<close>

subsection \<open>Callback structures\<close>

record PlatformCallbacks =
  pl_version :: UINT32
  pl_customData :: UINT64
  pl_getCurrentTimeFn :: fnptr
  pl_getRandomNumberFn :: fnptr
  pl_createMutexFn :: fnptr
  pl_lockMutexFn :: fnptr
  pl_unlockMutexFn :: fnptr
  pl_tryLockMutexFn :: fnptr
  pl_freeMutexFn :: fnptr
  pl_createConditionVariableFn :: fnptr
  pl_signalConditionVariableFn :: fnptr
  pl_broadcastConditionVariableFn :: fnptr
  pl_waitConditionVariableFn :: fnptr
  pl_freeConditionVariableFn :: fnptr
  pl_logPrintFn :: fnptr
  pl_freePlatformCallbacksFn :: fnptr

record ProducerCallbacks =
  pr_version :: UINT32
  pr_customData :: UINT64
  pr_storageOverflowPressureFn :: fnptr
  pr_clientReadyFn :: fnptr
  pr_clientShutdownFn :: fnptr
  pr_freeProducerCallbacksFn :: fnptr

record StreamCallbacks =
  st_version :: UINT32
  st_customData :: UINT64
  st_streamUnderflowReportFn :: fnptr
  st_bufferDurationOverflowPressureFn :: fnptr
  st_streamLatencyPressureFn :: fnptr
  st_streamConnectionStaleFn :: fnptr
  st_droppedFrameReportFn :: fnptr
  st_droppedFragmentReportFn :: fnptr
  st_streamErrorReportFn :: fnptr
  st_fragmentAckReceivedFn :: fnptr
  st_streamDataAvailableFn :: fnptr
  st_streamReadyFn :: fnptr
  st_streamClosedFn :: fnptr
  st_streamShutdownFn :: fnptr
  st_freeStreamCallbacksFn :: fnptr

record AuthCallbacks =
  au_version :: UINT32
  au_customData :: UINT64
  au_getSecurityTokenFn :: fnptr
  au_getDeviceCertificateFn :: fnptr
  au_deviceCertToTokenFn :: fnptr
  au_getDeviceFingerprintFn :: fnptr
  au_getStreamingTokenFn :: fnptr
  au_freeAuthCallbacksFn :: fnptr

record ApiCallbacks =
  ap_version :: UINT32
  ap_customData :: UINT64
  ap_createStreamFn :: fnptr
  ap_describeStreamFn :: fnptr
  ap_getStreamingEndpointFn :: fnptr
  ap_putStreamFn :: fnptr
  ap_tagResourceFn :: fnptr
  ap_createDeviceFn :: fnptr
  ap_freeApiCallbacksFn :: fnptr

text \<open>
  The client callbacks are the table that the platform independent code calls. The provider
  object starts with it; the fields are those that \<open>CallbacksProvider.c\<close> sets.
\<close>

record ClientCallbacks =
  cc_version :: UINT32
  cc_customData :: UINT64
  cc_getCurrentTimeFn :: fnptr
  cc_getRandomNumberFn :: fnptr
  cc_createMutexFn :: fnptr
  cc_lockMutexFn :: fnptr
  cc_unlockMutexFn :: fnptr
  cc_tryLockMutexFn :: fnptr
  cc_freeMutexFn :: fnptr
  cc_createConditionVariableFn :: fnptr
  cc_signalConditionVariableFn :: fnptr
  cc_broadcastConditionVariableFn :: fnptr
  cc_waitConditionVariableFn :: fnptr
  cc_freeConditionVariableFn :: fnptr
  cc_logPrintFn :: fnptr
  cc_storageOverflowPressureFn :: fnptr
  cc_clientReadyFn :: fnptr
  cc_clientShutdownFn :: fnptr
  cc_streamUnderflowReportFn :: fnptr
  cc_bufferDurationOverflowPressureFn :: fnptr
  cc_streamLatencyPressureFn :: fnptr
  cc_streamConnectionStaleFn :: fnptr
  cc_droppedFrameReportFn :: fnptr
  cc_droppedFragmentReportFn :: fnptr
  cc_streamErrorReportFn :: fnptr
  cc_fragmentAckReceivedFn :: fnptr
  cc_streamDataAvailableFn :: fnptr
  cc_streamReadyFn :: fnptr
  cc_streamClosedFn :: fnptr
  cc_streamShutdownFn :: fnptr
  cc_getSecurityTokenFn :: fnptr
  cc_getDeviceCertificateFn :: fnptr
  cc_deviceCertToTokenFn :: fnptr
  cc_getDeviceFingerprintFn :: fnptr
  cc_getStreamingTokenFn :: fnptr
  cc_createStreamFn :: fnptr
  cc_describeStreamFn :: fnptr
  cc_getStreamingEndpointFn :: fnptr
  cc_putStreamFn :: fnptr
  cc_tagResourceFn :: fnptr
  cc_createDeviceFn :: fnptr

record CallbacksProvider =
  clientCallbacks :: ClientCallbacks
  callbackChainCount :: nat
  platformCallbacks :: PlatformCallbacks
  pProducerCallbacks :: "ProducerCallbacks list"
  producerCallbacksCount :: nat
  pStreamCallbacks :: "StreamCallbacks list"
  streamCallbacksCount :: nat
  pAuthCallbacks :: "AuthCallbacks list"
  authCallbacksCount :: nat
  pApiCallbacks :: "ApiCallbacks list"
  apiCallbacksCount :: nat

text \<open>The structures as \<open>MEMCALLOC\<close> leaves them.\<close>

definition zero_PlatformCallbacks :: PlatformCallbacks where
  "zero_PlatformCallbacks = PlatformCallbacks.make 0 0 None None None None None None None None None None None None None None"

definition zero_ProducerCallbacks :: ProducerCallbacks where
  "zero_ProducerCallbacks = ProducerCallbacks.make 0 0 None None None None"

definition zero_StreamCallbacks :: StreamCallbacks where
  "zero_StreamCallbacks = StreamCallbacks.make 0 0 None None None None None None None None None None None None None"

definition zero_AuthCallbacks :: AuthCallbacks where
  "zero_AuthCallbacks = AuthCallbacks.make 0 0 None None None None None None"

definition zero_ApiCallbacks :: ApiCallbacks where
  "zero_ApiCallbacks = ApiCallbacks.make 0 0 None None None None None None None"

definition zero_ClientCallbacks :: ClientCallbacks where
  "zero_ClientCallbacks = ClientCallbacks.make 0 0 None None None None None None None None None None None None None None None None None None None None None None None None None None None None None None None None None None None None None None None"

definition MAX_CALLBACK_CHAIN_COUNT :: nat where "MAX_CALLBACK_CHAIN_COUNT = 20"
definition DEFAULT_CALLBACK_CHAIN_COUNT :: nat where "DEFAULT_CALLBACK_CHAIN_COUNT = 5"
definition CALLBACKS_CURRENT_VERSION :: UINT32 where "CALLBACKS_CURRENT_VERSION = 0"
definition PLATFORM_CALLBACKS_CURRENT_VERSION :: UINT32 where "PLATFORM_CALLBACKS_CURRENT_VERSION = 0"
definition PRODUCER_CALLBACKS_CURRENT_VERSION :: UINT32 where "PRODUCER_CALLBACKS_CURRENT_VERSION = 0"
definition STREAM_CALLBACKS_CURRENT_VERSION :: UINT32 where "STREAM_CALLBACKS_CURRENT_VERSION = 0"
definition AUTH_CALLBACKS_CURRENT_VERSION :: UINT32 where "AUTH_CALLBACKS_CURRENT_VERSION = 0"
definition API_CALLBACKS_CURRENT_VERSION :: UINT32 where "API_CALLBACKS_CURRENT_VERSION = 0"

subsection \<open>Installing callbacks\<close>

text \<open>
  A client callback is set to the aggregate of its name when the structure that is being installed
  has a function for it, and is left alone otherwise.
\<close>

definition set_slot :: "fnptr \<Rightarrow> string \<Rightarrow> fnptr \<Rightarrow> fnptr" where
  "set_slot fn agg old = (if fn \<noteq> None then Some (C_FUN agg) else old)"

definition setDefaultPlatformCallbacks :: "CallbacksProvider option \<Rightarrow> STATUS \<times> CallbacksProvider option" where
  "setDefaultPlatformCallbacks pCallbackProvider = (case pCallbackProvider of
     None \<Rightarrow> (STATUS_NULL_ARG, None)
   | Some p \<Rightarrow> (STATUS_SUCCESS, Some (p\<lparr>clientCallbacks := (clientCallbacks p)\<lparr>
       cc_getCurrentTimeFn := Some (C_FUN ''kinesisVideoStreamDefaultGetCurrentTime''),
       cc_getRandomNumberFn := Some (C_FUN ''kinesisVideoStreamDefaultGetRandomNumber''),
       cc_createMutexFn := Some (C_FUN ''kinesisVideoStreamDefaultCreateMutex''),
       cc_lockMutexFn := Some (C_FUN ''kinesisVideoStreamDefaultLockMutex''),
       cc_unlockMutexFn := Some (C_FUN ''kinesisVideoStreamDefaultUnlockMutex''),
       cc_tryLockMutexFn := Some (C_FUN ''kinesisVideoStreamDefaultTryLockMutex''),
       cc_freeMutexFn := Some (C_FUN ''kinesisVideoStreamDefaultFreeMutex''),
       cc_createConditionVariableFn := Some (C_FUN ''kinesisVideoStreamDefaultCreateConditionVariable''),
       cc_signalConditionVariableFn := Some (C_FUN ''kinesisVideoStreamDefaultSignalConditionVariable''),
       cc_broadcastConditionVariableFn := Some (C_FUN ''kinesisVideoStreamDefaultBroadcastConditionVariable''),
       cc_waitConditionVariableFn := Some (C_FUN ''kinesisVideoStreamDefaultWaitConditionVariable''),
       cc_freeConditionVariableFn := Some (C_FUN ''kinesisVideoStreamDefaultFreeConditionVariable''),
       cc_logPrintFn := Some (C_FUN ''defaultLogPrint'')\<rparr>\<rparr>)))"

definition set_platform_aggregates :: "PlatformCallbacks \<Rightarrow> ClientCallbacks \<Rightarrow> ClientCallbacks" where
  "set_platform_aggregates c cc = cc\<lparr>
     cc_getCurrentTimeFn := set_slot (pl_getCurrentTimeFn c) ''getCurrentTimeAggregate'' (cc_getCurrentTimeFn cc),
     cc_getRandomNumberFn := set_slot (pl_getRandomNumberFn c) ''getRandomNumberAggregate'' (cc_getRandomNumberFn cc),
     cc_createMutexFn := set_slot (pl_createMutexFn c) ''createMutexAggregate'' (cc_createMutexFn cc),
     cc_lockMutexFn := set_slot (pl_lockMutexFn c) ''lockMutexAggregate'' (cc_lockMutexFn cc),
     cc_unlockMutexFn := set_slot (pl_unlockMutexFn c) ''unlockMutexAggregate'' (cc_unlockMutexFn cc),
     cc_tryLockMutexFn := set_slot (pl_tryLockMutexFn c) ''tryLockMutexAggregate'' (cc_tryLockMutexFn cc),
     cc_freeMutexFn := set_slot (pl_freeMutexFn c) ''freeMutexAggregate'' (cc_freeMutexFn cc),
     cc_createConditionVariableFn := set_slot (pl_createConditionVariableFn c) ''createConditionVariableAggregate'' (cc_createConditionVariableFn cc),
     cc_signalConditionVariableFn := set_slot (pl_signalConditionVariableFn c) ''signalConditionVariableAggregate'' (cc_signalConditionVariableFn cc),
     cc_broadcastConditionVariableFn := set_slot (pl_broadcastConditionVariableFn c) ''broadcastConditionVariableAggregate'' (cc_broadcastConditionVariableFn cc),
     cc_waitConditionVariableFn := set_slot (pl_waitConditionVariableFn c) ''waitConditionVariableAggregate'' (cc_waitConditionVariableFn cc),
     cc_freeConditionVariableFn := set_slot (pl_freeConditionVariableFn c) ''freeConditionVariableAggregate'' (cc_freeConditionVariableFn cc),
     cc_logPrintFn := (if pl_logPrintFn c \<noteq> None then pl_logPrintFn c else cc_logPrintFn cc)\<rparr>"

definition setPlatformCallbacks ::
    "CallbacksProvider option \<Rightarrow> PlatformCallbacks option \<Rightarrow> STATUS \<times> CallbacksProvider option" where
  "setPlatformCallbacks pCallbackProvider pPlatformCallbacks = (case (pCallbackProvider, pPlatformCallbacks) of
     (Some p, Some c) \<Rightarrow>
       if \<not> pl_version c \<le> PLATFORM_CALLBACKS_CURRENT_VERSION
       then (STATUS_INVALID_PLATFORM_CALLBACKS_VERSION, Some p)
       else (STATUS_SUCCESS, Some (p\<lparr>platformCallbacks := c,
               clientCallbacks := set_platform_aggregates c (clientCallbacks p)\<rparr>))
   | _ \<Rightarrow> (STATUS_NULL_ARG, pCallbackProvider))"

text \<open>
  The guard against a second release: the new structure has a release function and an entry of the
  chain has the same release function and the same custom data.
\<close>

definition dup_entry :: "('c \<Rightarrow> fnptr) \<Rightarrow> ('c \<Rightarrow> UINT64) \<Rightarrow> 'c \<Rightarrow> 'c \<Rightarrow> bool" where
  "dup_entry freeFn customData c e \<longleftrightarrow>
     \<not> (freeFn c = None \<or> customData e \<noteq> customData c \<or> freeFn e \<noteq> freeFn c)"

definition set_producer_aggregates :: "ProducerCallbacks \<Rightarrow> ClientCallbacks \<Rightarrow> ClientCallbacks" where
  "set_producer_aggregates c cc = cc\<lparr>
     cc_storageOverflowPressureFn := set_slot (pr_storageOverflowPressureFn c) ''storageOverflowPressureAggregate'' (cc_storageOverflowPressureFn cc),
     cc_clientReadyFn := set_slot (pr_clientReadyFn c) ''clientReadyAggregate'' (cc_clientReadyFn cc),
     cc_clientShutdownFn := set_slot (pr_clientShutdownFn c) ''clientShutdownAggregate'' (cc_clientShutdownFn cc)\<rparr>"

definition addProducerCallbacks ::
    "CallbacksProvider option \<Rightarrow> ProducerCallbacks option \<Rightarrow> STATUS \<times> CallbacksProvider option" where
  "addProducerCallbacks pCallbackProvider pProducerCallbacks' = (case (pCallbackProvider, pProducerCallbacks') of
     (Some p, Some c) \<Rightarrow>
       let n = producerCallbacksCount p in
       if \<not> pr_version c \<le> PRODUCER_CALLBACKS_CURRENT_VERSION
       then (STATUS_INVALID_PRODUCER_CALLBACKS_VERSION, Some p)
       else if \<not> n < callbackChainCount p
       then (STATUS_MAX_CALLBACK_CHAIN, Some p)
       else if list_ex (dup_entry pr_freeProducerCallbacksFn pr_customData c) (entries (pProducerCallbacks p) n)
       then (STATUS_DUPLICATE_PRODUCER_CALLBACK_FREE_FUNC, Some p)
       else (STATUS_SUCCESS, Some (p\<lparr>
         pProducerCallbacks := (pProducerCallbacks p)[n := c],
         producerCallbacksCount := Suc n,
         clientCallbacks := set_producer_aggregates c (clientCallbacks p)\<rparr>))
   | _ \<Rightarrow> (STATUS_NULL_ARG, pCallbackProvider))"

definition set_stream_aggregates :: "StreamCallbacks \<Rightarrow> ClientCallbacks \<Rightarrow> ClientCallbacks" where
  "set_stream_aggregates c cc = cc\<lparr>
     cc_streamUnderflowReportFn := set_slot (st_streamUnderflowReportFn c) ''streamUnderflowReportAggregate'' (cc_streamUnderflowReportFn cc),
     cc_bufferDurationOverflowPressureFn := set_slot (st_bufferDurationOverflowPressureFn c) ''bufferDurationOverflowPressureAggregate'' (cc_bufferDurationOverflowPressureFn cc),
     cc_streamLatencyPressureFn := set_slot (st_streamLatencyPressureFn c) ''streamLatencyPressureAggregate'' (cc_streamLatencyPressureFn cc),
     cc_streamConnectionStaleFn := set_slot (st_streamConnectionStaleFn c) ''streamConnectionStaleAggregate'' (cc_streamConnectionStaleFn cc),
     cc_droppedFrameReportFn := set_slot (st_droppedFrameReportFn c) ''droppedFrameReportAggregate'' (cc_droppedFrameReportFn cc),
     cc_droppedFragmentReportFn := set_slot (st_droppedFragmentReportFn c) ''droppedFragmentReportAggregate'' (cc_droppedFragmentReportFn cc),
     cc_streamErrorReportFn := set_slot (st_streamErrorReportFn c) ''streamErrorReportAggregate'' (cc_streamErrorReportFn cc),
     cc_fragmentAckReceivedFn := set_slot (st_fragmentAckReceivedFn c) ''fragmentAckReceivedAggregate'' (cc_fragmentAckReceivedFn cc),
     cc_streamDataAvailableFn := set_slot (st_streamDataAvailableFn c) ''streamDataAvailableAggregate'' (cc_streamDataAvailableFn cc),
     cc_streamReadyFn := set_slot (st_streamReadyFn c) ''streamReadyAggregate'' (cc_streamReadyFn cc),
     cc_streamClosedFn := set_slot (st_streamClosedFn c) ''streamClosedAggregate'' (cc_streamClosedFn cc),
     cc_streamShutdownFn := set_slot (st_streamShutdownFn c) ''streamShutdownAggregate'' (cc_streamShutdownFn cc)\<rparr>"

definition addStreamCallbacks ::
    "CallbacksProvider option \<Rightarrow> StreamCallbacks option \<Rightarrow> STATUS \<times> CallbacksProvider option" where
  "addStreamCallbacks pCallbackProvider pStreamCallbacks' = (case (pCallbackProvider, pStreamCallbacks') of
     (Some p, Some c) \<Rightarrow>
       let n = streamCallbacksCount p in
       if \<not> st_version c \<le> STREAM_CALLBACKS_CURRENT_VERSION
       then (STATUS_INVALID_STREAM_CALLBACKS_VERSION, Some p)
       else if \<not> n < callbackChainCount p
       then (STATUS_MAX_CALLBACK_CHAIN, Some p)
       else if list_ex (dup_entry st_freeStreamCallbacksFn st_customData c) (entries (pStreamCallbacks p) n)
       then (STATUS_DUPLICATE_STREAM_CALLBACK_FREE_FUNC, Some p)
       else (STATUS_SUCCESS, Some (p\<lparr>
         pStreamCallbacks := (pStreamCallbacks p)[n := c],
         streamCallbacksCount := Suc n,
         clientCallbacks := set_stream_aggregates c (clientCallbacks p)\<rparr>))
   | _ \<Rightarrow> (STATUS_NULL_ARG, pCallbackProvider))"

definition set_auth_aggregates :: "AuthCallbacks \<Rightarrow> ClientCallbacks \<Rightarrow> ClientCallbacks" where
  "set_auth_aggregates c cc = cc\<lparr>
     cc_getSecurityTokenFn := set_slot (au_getSecurityTokenFn c) ''getSecurityTokenAggregate'' (cc_getSecurityTokenFn cc),
     cc_getDeviceCertificateFn := set_slot (au_getDeviceCertificateFn c) ''getDeviceCertificateAggregate'' (cc_getDeviceCertificateFn cc),
     cc_deviceCertToTokenFn := set_slot (au_deviceCertToTokenFn c) ''deviceCertToTokenAggregate'' (cc_deviceCertToTokenFn cc),
     cc_getDeviceFingerprintFn := set_slot (au_getDeviceFingerprintFn c) ''getDeviceFingerprintAggregate'' (cc_getDeviceFingerprintFn cc),
     cc_getStreamingTokenFn := set_slot (au_getStreamingTokenFn c) ''getStreamingTokenAggregate'' (cc_getStreamingTokenFn cc)\<rparr>"

definition addAuthCallbacks ::
    "CallbacksProvider option \<Rightarrow> AuthCallbacks option \<Rightarrow> STATUS \<times> CallbacksProvider option" where
  "addAuthCallbacks pCallbackProvider pAuthCallbacks' = (case (pCallbackProvider, pAuthCallbacks') of
     (Some p, Some c) \<Rightarrow>
       let n = authCallbacksCount p in
       if \<not> au_version c \<le> AUTH_CALLBACKS_CURRENT_VERSION
       then (STATUS_INVALID_AUTH_CALLBACKS_VERSION, Some p)
       else if \<not> n < callbackChainCount p
       then (STATUS_MAX_CALLBACK_CHAIN, Some p)
       else if list_ex (dup_entry au_freeAuthCallbacksFn au_customData c) (entries (pAuthCallbacks p) n)
       then (STATUS_DUPLICATE_AUTH_CALLBACK_FREE_FUNC, Some p)
       else (STATUS_SUCCESS, Some (p\<lparr>
         pAuthCallbacks := (pAuthCallbacks p)[n := c],
         authCallbacksCount := Suc n,
         clientCallbacks := set_auth_aggregates c (clientCallbacks p)\<rparr>))
   | _ \<Rightarrow> (STATUS_NULL_ARG, pCallbackProvider))"

definition set_api_aggregates :: "ApiCallbacks \<Rightarrow> ClientCallbacks \<Rightarrow> ClientCallbacks" where
  "set_api_aggregates c cc = cc\<lparr>
     cc_createStreamFn := set_slot (ap_createStreamFn c) ''createStreamAggregate'' (cc_createStreamFn cc),
     cc_describeStreamFn := set_slot (ap_describeStreamFn c) ''describeStreamAggregate'' (cc_describeStreamFn cc),
     cc_getStreamingEndpointFn := set_slot (ap_getStreamingEndpointFn c) ''getStreamingEndpointAggregate'' (cc_getStreamingEndpointFn cc),
     cc_putStreamFn := set_slot (ap_putStreamFn c) ''putStreamAggregate'' (cc_putStreamFn cc),
     cc_tagResourceFn := set_slot (ap_tagResourceFn c) ''tagResourceAggregate'' (cc_tagResourceFn cc),
     cc_createDeviceFn := set_slot (ap_createDeviceFn c) ''createDeviceAggregate'' (cc_createDeviceFn cc)\<rparr>"

definition addApiCallbacks ::
    "CallbacksProvider option \<Rightarrow> ApiCallbacks option \<Rightarrow> STATUS \<times> CallbacksProvider option" where
  "addApiCallbacks pCallbackProvider pApiCallbacks' = (case (pCallbackProvider, pApiCallbacks') of
     (Some p, Some c) \<Rightarrow>
       let n = apiCallbacksCount p in
       if \<not> ap_version c \<le> API_CALLBACKS_CURRENT_VERSION
       then (STATUS_INVALID_API_CALLBACKS_VERSION, Some p)
       else if \<not> n < callbackChainCount p
       then (STATUS_MAX_CALLBACK_CHAIN, Some p)
       else if list_ex (dup_entry ap_freeApiCallbacksFn ap_customData c) (entries (pApiCallbacks p) n)
       then (STATUS_DUPLICATE_API_CALLBACK_FREE_FUNC, Some p)
       else (STATUS_SUCCESS, Some (p\<lparr>
         pApiCallbacks := (pApiCallbacks p)[n := c],
         apiCallbacksCount := Suc n,
         clientCallbacks := set_api_aggregates c (clientCallbacks p)\<rparr>))
   | _ \<Rightarrow> (STATUS_NULL_ARG, pCallbackProvider))"

subsection \<open>Releasing the provider\<close>

text \<open>
  The argument is a pointer to the caller's variable: \<open>None\<close> when the pointer is NULL, and
  otherwise the content of the variable. A release function gets the address of the custom data;
  what it does is the parameter \<open>call\<close>.
\<close>

primrec free_chain ::
    "(cfun \<Rightarrow> UINT64 \<Rightarrow> 'w \<Rightarrow> 'w) \<Rightarrow> ('c \<Rightarrow> fnptr) \<Rightarrow> ('c \<Rightarrow> UINT64) \<Rightarrow> 'c list \<Rightarrow> 'w \<Rightarrow> 'w" where
  "free_chain call freeFn customData [] w = w"
| "free_chain call freeFn customData (c # cs) w =
     free_chain call freeFn customData cs
       (case freeFn c of None \<Rightarrow> w | Some f \<Rightarrow> call f (customData c) w)"

definition freeCallbacksProvider ::
    "(cfun \<Rightarrow> UINT64 \<Rightarrow> 'w \<Rightarrow> 'w) \<Rightarrow> CallbacksProvider option option \<Rightarrow> 'w
      \<Rightarrow> STATUS \<times> CallbacksProvider option option \<times> 'w" where
  "freeCallbacksProvider call ppClientCallbacks w = (case ppClientCallbacks of
     None \<Rightarrow> (STATUS_NULL_ARG, None, w)
   | Some None \<Rightarrow> (STATUS_SUCCESS, Some None, w)
   | Some (Some p) \<Rightarrow>
       let w1 = (case pl_freePlatformCallbacksFn (platformCallbacks p) of
                   None \<Rightarrow> w
                 | Some f \<Rightarrow> call f (pl_customData (platformCallbacks p)) w);
           w2 = free_chain call pr_freeProducerCallbacksFn pr_customData
                  (entries (pProducerCallbacks p) (producerCallbacksCount p)) w1;
           w3 = free_chain call st_freeStreamCallbacksFn st_customData
                  (entries (pStreamCallbacks p) (streamCallbacksCount p)) w2;
           w4 = free_chain call au_freeAuthCallbacksFn au_customData
                  (entries (pAuthCallbacks p) (authCallbacksCount p)) w3;
           w5 = free_chain call ap_freeApiCallbacksFn ap_customData
                  (entries (pApiCallbacks p) (apiCallbacksCount p)) w4
       in (STATUS_SUCCESS, Some None, w5))"

subsection \<open>Aggregates\<close>

text \<open>
  The loop that the chain aggregates share. An entry without the function is skipped; a callback
  that returns \<open>STATUS_STOP_CALLBACK_CHAIN\<close> ends the loop with success; one that fails ends it
  with its status.
\<close>

primrec run_chain ::
    "('c \<Rightarrow> fnptr) \<Rightarrow> (cfun \<Rightarrow> 'c \<Rightarrow> 'w \<Rightarrow> STATUS \<times> 'w) \<Rightarrow> 'c list \<Rightarrow> 'w \<Rightarrow> STATUS \<times> 'w" where
  "run_chain fn call [] w = (STATUS_SUCCESS, w)"
| "run_chain fn call (c # cs) w = (case fn c of
     None \<Rightarrow> run_chain fn call cs w
   | Some f \<Rightarrow> (case call f c w of (retStatus, w') \<Rightarrow>
       if retStatus = STATUS_STOP_CALLBACK_CHAIN then (STATUS_SUCCESS, w')
       else if STATUS_FAILED retStatus then (retStatus, w')
       else run_chain fn call cs w'))"

paragraph \<open>Auth callbacks\<close>

definition getDeviceCertificateAggregate ::
    "(cfun \<Rightarrow> UINT64 \<Rightarrow> 'w \<Rightarrow> STATUS \<times> 'w) \<Rightarrow> CallbacksProvider option
      \<Rightarrow> 'w \<Rightarrow> STATUS \<times> 'w" where
  [aggregate_defs]: "getDeviceCertificateAggregate call pCallbacksProvider w = (case pCallbacksProvider of
     None \<Rightarrow> (STATUS_INVALID_ARG, w)
   | Some p \<Rightarrow> run_chain au_getDeviceCertificateFn (\<lambda>f c. call f (au_customData c))
       (entries (pAuthCallbacks p) (authCallbacksCount p)) w)"

definition getSecurityTokenAggregate ::
    "(cfun \<Rightarrow> UINT64 \<Rightarrow> 'w \<Rightarrow> STATUS \<times> 'w) \<Rightarrow> CallbacksProvider option
      \<Rightarrow> 'w \<Rightarrow> STATUS \<times> 'w" where
  [aggregate_defs]: "getSecurityTokenAggregate call pCallbacksProvider w = (case pCallbacksProvider of
     None \<Rightarrow> (STATUS_INVALID_ARG, w)
   | Some p \<Rightarrow> run_chain au_getSecurityTokenFn (\<lambda>f c. call f (au_customData c))
       (entries (pAuthCallbacks p) (authCallbacksCount p)) w)"

definition getDeviceFingerprintAggregate ::
    "(cfun \<Rightarrow> UINT64 \<Rightarrow> 'w \<Rightarrow> STATUS \<times> 'w) \<Rightarrow> CallbacksProvider option
      \<Rightarrow> 'w \<Rightarrow> STATUS \<times> 'w" where
  [aggregate_defs]: "getDeviceFingerprintAggregate call pCallbacksProvider w = (case pCallbacksProvider of
     None \<Rightarrow> (STATUS_INVALID_ARG, w)
   | Some p \<Rightarrow> run_chain au_getDeviceFingerprintFn (\<lambda>f c. call f (au_customData c))
       (entries (pAuthCallbacks p) (authCallbacksCount p)) w)"

definition deviceCertToTokenAggregate ::
    "(cfun \<Rightarrow> UINT64 \<Rightarrow> PCHAR \<Rightarrow> 'ctx \<Rightarrow> 'w \<Rightarrow> STATUS \<times> 'w) \<Rightarrow> CallbacksProvider option
      \<Rightarrow> PCHAR \<Rightarrow> 'ctx \<Rightarrow> 'w \<Rightarrow> STATUS \<times> 'w" where
  [aggregate_defs]: "deviceCertToTokenAggregate call pCallbacksProvider deviceName pServiceCallContext w = (case pCallbacksProvider of
     None \<Rightarrow> (STATUS_INVALID_ARG, w)
   | Some p \<Rightarrow> run_chain au_deviceCertToTokenFn (\<lambda>f c. call f (au_customData c) deviceName pServiceCallContext)
       (entries (pAuthCallbacks p) (authCallbacksCount p)) w)"

definition getStreamingTokenAggregate ::
    "(cfun \<Rightarrow> UINT64 \<Rightarrow> PCHAR \<Rightarrow> nat \<Rightarrow> 'ctx \<Rightarrow> 'w \<Rightarrow> STATUS \<times> 'w) \<Rightarrow> CallbacksProvider option
      \<Rightarrow> PCHAR \<Rightarrow> nat \<Rightarrow> 'ctx \<Rightarrow> 'w \<Rightarrow> STATUS \<times> 'w" where
  [aggregate_defs]: "getStreamingTokenAggregate call pCallbacksProvider streamName accessMode pServiceCallContext w = (case pCallbacksProvider of
     None \<Rightarrow> (STATUS_INVALID_ARG, w)
   | Some p \<Rightarrow> run_chain au_getStreamingTokenFn (\<lambda>f c. call f (au_customData c) streamName accessMode pServiceCallContext)
       (entries (pAuthCallbacks p) (authCallbacksCount p)) w)"

paragraph \<open>Producer callbacks\<close>

definition storageOverflowPressureAggregate ::
    "(cfun \<Rightarrow> UINT64 \<Rightarrow> UINT64 \<Rightarrow> 'w \<Rightarrow> STATUS \<times> 'w) \<Rightarrow> CallbacksProvider option
      \<Rightarrow> UINT64 \<Rightarrow> 'w \<Rightarrow> STATUS \<times> 'w" where
  [aggregate_defs]: "storageOverflowPressureAggregate call pCallbacksProvider remainingBytes w = (case pCallbacksProvider of
     None \<Rightarrow> (STATUS_INVALID_ARG, w)
   | Some p \<Rightarrow> run_chain pr_storageOverflowPressureFn (\<lambda>f c. call f (pr_customData c) remainingBytes)
       (entries (pProducerCallbacks p) (producerCallbacksCount p)) w)"

definition clientReadyAggregate ::
    "(cfun \<Rightarrow> UINT64 \<Rightarrow> CLIENT_HANDLE \<Rightarrow> 'w \<Rightarrow> STATUS \<times> 'w) \<Rightarrow> CallbacksProvider option
      \<Rightarrow> CLIENT_HANDLE \<Rightarrow> 'w \<Rightarrow> STATUS \<times> 'w" where
  [aggregate_defs]: "clientReadyAggregate call pCallbacksProvider clientHandle w = (case pCallbacksProvider of
     None \<Rightarrow> (STATUS_INVALID_ARG, w)
   | Some p \<Rightarrow> run_chain pr_clientReadyFn (\<lambda>f c. call f (pr_customData c) clientHandle)
       (entries (pProducerCallbacks p) (producerCallbacksCount p)) w)"

definition clientShutdownAggregate ::
    "(cfun \<Rightarrow> UINT64 \<Rightarrow> CLIENT_HANDLE \<Rightarrow> 'w \<Rightarrow> STATUS \<times> 'w) \<Rightarrow> CallbacksProvider option
      \<Rightarrow> CLIENT_HANDLE \<Rightarrow> 'w \<Rightarrow> STATUS \<times> 'w" where
  [aggregate_defs]: "clientShutdownAggregate call pCallbacksProvider clientHandle w = (case pCallbacksProvider of
     None \<Rightarrow> (STATUS_INVALID_ARG, w)
   | Some p \<Rightarrow> run_chain pr_clientShutdownFn (\<lambda>f c. call f (pr_customData c) clientHandle)
       (entries (pProducerCallbacks p) (producerCallbacksCount p)) w)"

paragraph \<open>API callbacks\<close>

definition createStreamAggregate ::
    "(cfun \<Rightarrow> UINT64 \<Rightarrow> PCHAR \<Rightarrow> PCHAR \<Rightarrow> PCHAR \<Rightarrow> PCHAR \<Rightarrow> UINT64 \<Rightarrow> 'ctx \<Rightarrow> 'w \<Rightarrow> STATUS \<times> 'w) \<Rightarrow> CallbacksProvider option
      \<Rightarrow> PCHAR \<Rightarrow> PCHAR \<Rightarrow> PCHAR \<Rightarrow> PCHAR \<Rightarrow> UINT64 \<Rightarrow> 'ctx \<Rightarrow> 'w \<Rightarrow> STATUS \<times> 'w" where
  [aggregate_defs]: "createStreamAggregate call pCallbacksProvider deviceName streamName contentType kmsKeyId retentionPeriod pServiceCallContext w = (case pCallbacksProvider of
     None \<Rightarrow> (STATUS_INVALID_ARG, w)
   | Some p \<Rightarrow> run_chain ap_createStreamFn (\<lambda>f c. call f (ap_customData c) deviceName streamName contentType kmsKeyId retentionPeriod pServiceCallContext)
       (entries (pApiCallbacks p) (apiCallbacksCount p)) w)"

definition describeStreamAggregate ::
    "(cfun \<Rightarrow> UINT64 \<Rightarrow> PCHAR \<Rightarrow> 'ctx \<Rightarrow> 'w \<Rightarrow> STATUS \<times> 'w) \<Rightarrow> CallbacksProvider option
      \<Rightarrow> PCHAR \<Rightarrow> 'ctx \<Rightarrow> 'w \<Rightarrow> STATUS \<times> 'w" where
  [aggregate_defs]: "describeStreamAggregate call pCallbacksProvider streamName pServiceCallContext w = (case pCallbacksProvider of
     None \<Rightarrow> (STATUS_INVALID_ARG, w)
   | Some p \<Rightarrow> run_chain ap_describeStreamFn (\<lambda>f c. call f (ap_customData c) streamName pServiceCallContext)
       (entries (pApiCallbacks p) (apiCallbacksCount p)) w)"

definition getStreamingEndpointAggregate ::
    "(cfun \<Rightarrow> UINT64 \<Rightarrow> PCHAR \<Rightarrow> PCHAR \<Rightarrow> 'ctx \<Rightarrow> 'w \<Rightarrow> STATUS \<times> 'w) \<Rightarrow> CallbacksProvider option
      \<Rightarrow> PCHAR \<Rightarrow> PCHAR \<Rightarrow> 'ctx \<Rightarrow> 'w \<Rightarrow> STATUS \<times> 'w" where
  [aggregate_defs]: "getStreamingEndpointAggregate call pCallbacksProvider streamName apiName pServiceCallContext w = (case pCallbacksProvider of
     None \<Rightarrow> (STATUS_INVALID_ARG, w)
   | Some p \<Rightarrow> run_chain ap_getStreamingEndpointFn (\<lambda>f c. call f (ap_customData c) streamName apiName pServiceCallContext)
       (entries (pApiCallbacks p) (apiCallbacksCount p)) w)"

definition putStreamAggregate ::
    "(cfun \<Rightarrow> UINT64 \<Rightarrow> PCHAR \<Rightarrow> PCHAR \<Rightarrow> UINT64 \<Rightarrow> bool \<Rightarrow> bool \<Rightarrow> PCHAR \<Rightarrow> 'ctx \<Rightarrow> 'w \<Rightarrow> STATUS \<times> 'w) \<Rightarrow> CallbacksProvider option
      \<Rightarrow> PCHAR \<Rightarrow> PCHAR \<Rightarrow> UINT64 \<Rightarrow> bool \<Rightarrow> bool \<Rightarrow> PCHAR \<Rightarrow> 'ctx \<Rightarrow> 'w \<Rightarrow> STATUS \<times> 'w" where
  [aggregate_defs]: "putStreamAggregate call pCallbacksProvider streamName containerType streamStart isAbsolute fragmentAcks streamingEndpoint pServiceCallContext w = (case pCallbacksProvider of
     None \<Rightarrow> (STATUS_INVALID_ARG, w)
   | Some p \<Rightarrow> run_chain ap_putStreamFn (\<lambda>f c. call f (ap_customData c) streamName containerType streamStart isAbsolute fragmentAcks streamingEndpoint pServiceCallContext)
       (entries (pApiCallbacks p) (apiCallbacksCount p)) w)"

definition tagResourceAggregate ::
    "(cfun \<Rightarrow> UINT64 \<Rightarrow> PCHAR \<Rightarrow> UINT32 \<Rightarrow> 't \<Rightarrow> 'ctx \<Rightarrow> 'w \<Rightarrow> STATUS \<times> 'w) \<Rightarrow> CallbacksProvider option
      \<Rightarrow> PCHAR \<Rightarrow> UINT32 \<Rightarrow> 't \<Rightarrow> 'ctx \<Rightarrow> 'w \<Rightarrow> STATUS \<times> 'w" where
  [aggregate_defs]: "tagResourceAggregate call pCallbacksProvider resourceArn tagCount tags pServiceCallContext w = (case pCallbacksProvider of
     None \<Rightarrow> (STATUS_INVALID_ARG, w)
   | Some p \<Rightarrow> run_chain ap_tagResourceFn (\<lambda>f c. call f (ap_customData c) resourceArn tagCount tags pServiceCallContext)
       (entries (pApiCallbacks p) (apiCallbacksCount p)) w)"

definition createDeviceAggregate ::
    "(cfun \<Rightarrow> UINT64 \<Rightarrow> PCHAR \<Rightarrow> 'ctx \<Rightarrow> 'w \<Rightarrow> STATUS \<times> 'w) \<Rightarrow> CallbacksProvider option
      \<Rightarrow> PCHAR \<Rightarrow> 'ctx \<Rightarrow> 'w \<Rightarrow> STATUS \<times> 'w" where
  [aggregate_defs]: "createDeviceAggregate call pCallbacksProvider deviceName pServiceCallContext w = (case pCallbacksProvider of
     None \<Rightarrow> (STATUS_INVALID_ARG, w)
   | Some p \<Rightarrow> run_chain ap_createDeviceFn (\<lambda>f c. call f (ap_customData c) deviceName pServiceCallContext)
       (entries (pApiCallbacks p) (apiCallbacksCount p)) w)"

paragraph \<open>Stream callbacks\<close>

definition streamUnderflowReportAggregate ::
    "(cfun \<Rightarrow> UINT64 \<Rightarrow> STREAM_HANDLE \<Rightarrow> 'w \<Rightarrow> STATUS \<times> 'w) \<Rightarrow> CallbacksProvider option
      \<Rightarrow> STREAM_HANDLE \<Rightarrow> 'w \<Rightarrow> STATUS \<times> 'w" where
  [aggregate_defs]: "streamUnderflowReportAggregate call pCallbacksProvider streamHandle w = (case pCallbacksProvider of
     None \<Rightarrow> (STATUS_INVALID_ARG, w)
   | Some p \<Rightarrow> run_chain st_streamUnderflowReportFn (\<lambda>f c. call f (st_customData c) streamHandle)
       (entries (pStreamCallbacks p) (streamCallbacksCount p)) w)"

definition bufferDurationOverflowPressureAggregate ::
    "(cfun \<Rightarrow> UINT64 \<Rightarrow> STREAM_HANDLE \<Rightarrow> UINT64 \<Rightarrow> 'w \<Rightarrow> STATUS \<times> 'w) \<Rightarrow> CallbacksProvider option
      \<Rightarrow> STREAM_HANDLE \<Rightarrow> UINT64 \<Rightarrow> 'w \<Rightarrow> STATUS \<times> 'w" where
  [aggregate_defs]: "bufferDurationOverflowPressureAggregate call pCallbacksProvider streamHandle remainingDuration w = (case pCallbacksProvider of
     None \<Rightarrow> (STATUS_INVALID_ARG, w)
   | Some p \<Rightarrow> run_chain st_bufferDurationOverflowPressureFn (\<lambda>f c. call f (st_customData c) streamHandle remainingDuration)
       (entries (pStreamCallbacks p) (streamCallbacksCount p)) w)"

definition streamLatencyPressureAggregate ::
    "(cfun \<Rightarrow> UINT64 \<Rightarrow> STREAM_HANDLE \<Rightarrow> UINT64 \<Rightarrow> 'w \<Rightarrow> STATUS \<times> 'w) \<Rightarrow> CallbacksProvider option
      \<Rightarrow> STREAM_HANDLE \<Rightarrow> UINT64 \<Rightarrow> 'w \<Rightarrow> STATUS \<times> 'w" where
  [aggregate_defs]: "streamLatencyPressureAggregate call pCallbacksProvider streamHandle bufferDuration w = (case pCallbacksProvider of
     None \<Rightarrow> (STATUS_INVALID_ARG, w)
   | Some p \<Rightarrow> run_chain st_streamLatencyPressureFn (\<lambda>f c. call f (st_customData c) streamHandle bufferDuration)
       (entries (pStreamCallbacks p) (streamCallbacksCount p)) w)"

definition streamConnectionStaleAggregate ::
    "(cfun \<Rightarrow> UINT64 \<Rightarrow> STREAM_HANDLE \<Rightarrow> UINT64 \<Rightarrow> 'w \<Rightarrow> STATUS \<times> 'w) \<Rightarrow> CallbacksProvider option
      \<Rightarrow> STREAM_HANDLE \<Rightarrow> UINT64 \<Rightarrow> 'w \<Rightarrow> STATUS \<times> 'w" where
  [aggregate_defs]: "streamConnectionStaleAggregate call pCallbacksProvider streamHandle stalenessDuration w = (case pCallbacksProvider of
     None \<Rightarrow> (STATUS_INVALID_ARG, w)
   | Some p \<Rightarrow> run_chain st_streamConnectionStaleFn (\<lambda>f c. call f (st_customData c) streamHandle stalenessDuration)
       (entries (pStreamCallbacks p) (streamCallbacksCount p)) w)"

definition droppedFrameReportAggregate ::
    "(cfun \<Rightarrow> UINT64 \<Rightarrow> STREAM_HANDLE \<Rightarrow> UINT64 \<Rightarrow> 'w \<Rightarrow> STATUS \<times> 'w) \<Rightarrow> CallbacksProvider option
      \<Rightarrow> STREAM_HANDLE \<Rightarrow> UINT64 \<Rightarrow> 'w \<Rightarrow> STATUS \<times> 'w" where
  [aggregate_defs]: "droppedFrameReportAggregate call pCallbacksProvider streamHandle frameTimestamp w = (case pCallbacksProvider of
     None \<Rightarrow> (STATUS_INVALID_ARG, w)
   | Some p \<Rightarrow> run_chain st_droppedFrameReportFn (\<lambda>f c. call f (st_customData c) streamHandle frameTimestamp)
       (entries (pStreamCallbacks p) (streamCallbacksCount p)) w)"

definition droppedFragmentReportAggregate ::
    "(cfun \<Rightarrow> UINT64 \<Rightarrow> STREAM_HANDLE \<Rightarrow> UINT64 \<Rightarrow> 'w \<Rightarrow> STATUS \<times> 'w) \<Rightarrow> CallbacksProvider option
      \<Rightarrow> STREAM_HANDLE \<Rightarrow> UINT64 \<Rightarrow> 'w \<Rightarrow> STATUS \<times> 'w" where
  [aggregate_defs]: "droppedFragmentReportAggregate call pCallbacksProvider streamHandle fragmentTimestamp w = (case pCallbacksProvider of
     None \<Rightarrow> (STATUS_INVALID_ARG, w)
   | Some p \<Rightarrow> run_chain st_droppedFragmentReportFn (\<lambda>f c. call f (st_customData c) streamHandle fragmentTimestamp)
       (entries (pStreamCallbacks p) (streamCallbacksCount p)) w)"

definition streamErrorReportAggregate ::
    "(cfun \<Rightarrow> UINT64 \<Rightarrow> STREAM_HANDLE \<Rightarrow> UPLOAD_HANDLE \<Rightarrow> UINT64 \<Rightarrow> STATUS \<Rightarrow> 'w \<Rightarrow> STATUS \<times> 'w) \<Rightarrow> CallbacksProvider option
      \<Rightarrow> STREAM_HANDLE \<Rightarrow> UPLOAD_HANDLE \<Rightarrow> UINT64 \<Rightarrow> STATUS \<Rightarrow> 'w \<Rightarrow> STATUS \<times> 'w" where
  [aggregate_defs]: "streamErrorReportAggregate call pCallbacksProvider streamHandle uploadHandle errorTimestamp errorStatus w = (case pCallbacksProvider of
     None \<Rightarrow> (STATUS_INVALID_ARG, w)
   | Some p \<Rightarrow> run_chain st_streamErrorReportFn (\<lambda>f c. call f (st_customData c) streamHandle uploadHandle errorTimestamp errorStatus)
       (entries (pStreamCallbacks p) (streamCallbacksCount p)) w)"

definition fragmentAckReceivedAggregate ::
    "(cfun \<Rightarrow> UINT64 \<Rightarrow> STREAM_HANDLE \<Rightarrow> UPLOAD_HANDLE \<Rightarrow> 'ack \<Rightarrow> 'w \<Rightarrow> STATUS \<times> 'w) \<Rightarrow> CallbacksProvider option
      \<Rightarrow> STREAM_HANDLE \<Rightarrow> UPLOAD_HANDLE \<Rightarrow> 'ack \<Rightarrow> 'w \<Rightarrow> STATUS \<times> 'w" where
  [aggregate_defs]: "fragmentAckReceivedAggregate call pCallbacksProvider streamHandle uploadHandle pFragmentAck w = (case pCallbacksProvider of
     None \<Rightarrow> (STATUS_INVALID_ARG, w)
   | Some p \<Rightarrow> run_chain st_fragmentAckReceivedFn (\<lambda>f c. call f (st_customData c) streamHandle uploadHandle pFragmentAck)
       (entries (pStreamCallbacks p) (streamCallbacksCount p)) w)"

definition streamDataAvailableAggregate ::
    "(cfun \<Rightarrow> UINT64 \<Rightarrow> STREAM_HANDLE \<Rightarrow> PCHAR \<Rightarrow> UPLOAD_HANDLE \<Rightarrow> UINT64 \<Rightarrow> UINT64 \<Rightarrow> 'w \<Rightarrow> STATUS \<times> 'w) \<Rightarrow> CallbacksProvider option
      \<Rightarrow> STREAM_HANDLE \<Rightarrow> PCHAR \<Rightarrow> UPLOAD_HANDLE \<Rightarrow> UINT64 \<Rightarrow> UINT64 \<Rightarrow> 'w \<Rightarrow> STATUS \<times> 'w" where
  [aggregate_defs]: "streamDataAvailableAggregate call pCallbacksProvider streamHandle streamName uploadHandle availableDuration availableSize w = (case pCallbacksProvider of
     None \<Rightarrow> (STATUS_INVALID_ARG, w)
   | Some p \<Rightarrow> run_chain st_streamDataAvailableFn (\<lambda>f c. call f (st_customData c) streamHandle streamName uploadHandle availableDuration availableSize)
       (entries (pStreamCallbacks p) (streamCallbacksCount p)) w)"

definition streamReadyAggregate ::
    "(cfun \<Rightarrow> UINT64 \<Rightarrow> STREAM_HANDLE \<Rightarrow> 'w \<Rightarrow> STATUS \<times> 'w) \<Rightarrow> CallbacksProvider option
      \<Rightarrow> STREAM_HANDLE \<Rightarrow> 'w \<Rightarrow> STATUS \<times> 'w" where
  [aggregate_defs]: "streamReadyAggregate call pCallbacksProvider streamHandle w = (case pCallbacksProvider of
     None \<Rightarrow> (STATUS_INVALID_ARG, w)
   | Some p \<Rightarrow> run_chain st_streamReadyFn (\<lambda>f c. call f (st_customData c) streamHandle)
       (entries (pStreamCallbacks p) (streamCallbacksCount p)) w)"

definition streamClosedAggregate ::
    "(cfun \<Rightarrow> UINT64 \<Rightarrow> STREAM_HANDLE \<Rightarrow> UPLOAD_HANDLE \<Rightarrow> 'w \<Rightarrow> STATUS \<times> 'w) \<Rightarrow> CallbacksProvider option
      \<Rightarrow> STREAM_HANDLE \<Rightarrow> UPLOAD_HANDLE \<Rightarrow> 'w \<Rightarrow> STATUS \<times> 'w" where
  [aggregate_defs]: "streamClosedAggregate call pCallbacksProvider streamHandle uploadHandle w = (case pCallbacksProvider of
     None \<Rightarrow> (STATUS_INVALID_ARG, w)
   | Some p \<Rightarrow> run_chain st_streamClosedFn (\<lambda>f c. call f (st_customData c) streamHandle uploadHandle)
       (entries (pStreamCallbacks p) (streamCallbacksCount p)) w)"

definition streamShutdownAggregate ::
    "(cfun \<Rightarrow> UINT64 \<Rightarrow> STREAM_HANDLE \<Rightarrow> bool \<Rightarrow> 'w \<Rightarrow> STATUS \<times> 'w) \<Rightarrow> CallbacksProvider option
      \<Rightarrow> STREAM_HANDLE \<Rightarrow> bool \<Rightarrow> 'w \<Rightarrow> STATUS \<times> 'w" where
  [aggregate_defs]: "streamShutdownAggregate call pCallbacksProvider streamHandle resetStream w = (case pCallbacksProvider of
     None \<Rightarrow> (STATUS_INVALID_ARG, w)
   | Some p \<Rightarrow> run_chain st_streamShutdownFn (\<lambda>f c. call f (st_customData c) streamHandle resetStream)
       (entries (pStreamCallbacks p) (streamCallbacksCount p)) w)"

paragraph \<open>Platform callbacks\<close>

text \<open>
  The platform callbacks are not a chain. Their aggregates call \<open>CHECK_EXT\<close>, which ends the
  process when the provider or the function is NULL; that is the value \<open>None\<close>.
\<close>

definition platform_call :: "(PlatformCallbacks \<Rightarrow> fnptr) \<Rightarrow> (cfun \<Rightarrow> UINT64 \<Rightarrow> 'w \<Rightarrow> 'r) \<Rightarrow>
    CallbacksProvider option \<Rightarrow> 'w \<Rightarrow> 'r option" where
  "platform_call fn call pCallbacksProvider w = (case pCallbacksProvider of
     None \<Rightarrow> None
   | Some p \<Rightarrow> (case fn (platformCallbacks p) of
       None \<Rightarrow> None
     | Some f \<Rightarrow> Some (call f (pl_customData (platformCallbacks p)) w)))"

definition getCurrentTimeAggregate ::
    "(cfun \<Rightarrow> UINT64 \<Rightarrow> 'w \<Rightarrow> UINT64 \<times> 'w) \<Rightarrow> CallbacksProvider option \<Rightarrow> 'w \<Rightarrow> (UINT64 \<times> 'w) option" where
  [aggregate_defs]: "getCurrentTimeAggregate call pCallbacksProvider w =
     platform_call pl_getCurrentTimeFn (\<lambda>f customData. call f customData) pCallbacksProvider w"

definition getRandomNumberAggregate ::
    "(cfun \<Rightarrow> UINT64 \<Rightarrow> 'w \<Rightarrow> UINT32 \<times> 'w) \<Rightarrow> CallbacksProvider option \<Rightarrow> 'w \<Rightarrow> (UINT32 \<times> 'w) option" where
  [aggregate_defs]: "getRandomNumberAggregate call pCallbacksProvider w =
     platform_call pl_getRandomNumberFn (\<lambda>f customData. call f customData) pCallbacksProvider w"

definition createMutexAggregate ::
    "(cfun \<Rightarrow> UINT64 \<Rightarrow> bool \<Rightarrow> 'w \<Rightarrow> 'mutex \<times> 'w) \<Rightarrow> CallbacksProvider option \<Rightarrow> bool \<Rightarrow> 'w \<Rightarrow> ('mutex \<times> 'w) option" where
  [aggregate_defs]: "createMutexAggregate call pCallbacksProvider reentrant w =
     platform_call pl_createMutexFn (\<lambda>f customData. call f customData reentrant) pCallbacksProvider w"

definition lockMutexAggregate ::
    "(cfun \<Rightarrow> UINT64 \<Rightarrow> 'mutex \<Rightarrow> 'w \<Rightarrow> 'w) \<Rightarrow> CallbacksProvider option \<Rightarrow> 'mutex \<Rightarrow> 'w \<Rightarrow> 'w option" where
  [aggregate_defs]: "lockMutexAggregate call pCallbacksProvider mutex w =
     platform_call pl_lockMutexFn (\<lambda>f customData. call f customData mutex) pCallbacksProvider w"

definition unlockMutexAggregate ::
    "(cfun \<Rightarrow> UINT64 \<Rightarrow> 'mutex \<Rightarrow> 'w \<Rightarrow> 'w) \<Rightarrow> CallbacksProvider option \<Rightarrow> 'mutex \<Rightarrow> 'w \<Rightarrow> 'w option" where
  [aggregate_defs]: "unlockMutexAggregate call pCallbacksProvider mutex w =
     platform_call pl_unlockMutexFn (\<lambda>f customData. call f customData mutex) pCallbacksProvider w"

definition tryLockMutexAggregate ::
    "(cfun \<Rightarrow> UINT64 \<Rightarrow> 'mutex \<Rightarrow> 'w \<Rightarrow> bool \<times> 'w) \<Rightarrow> CallbacksProvider option \<Rightarrow> 'mutex \<Rightarrow> 'w \<Rightarrow> (bool \<times> 'w) option" where
  [aggregate_defs]: "tryLockMutexAggregate call pCallbacksProvider mutex w =
     platform_call pl_tryLockMutexFn (\<lambda>f customData. call f customData mutex) pCallbacksProvider w"

definition freeMutexAggregate ::
    "(cfun \<Rightarrow> UINT64 \<Rightarrow> 'mutex \<Rightarrow> 'w \<Rightarrow> 'w) \<Rightarrow> CallbacksProvider option \<Rightarrow> 'mutex \<Rightarrow> 'w \<Rightarrow> 'w option" where
  [aggregate_defs]: "freeMutexAggregate call pCallbacksProvider mutex w =
     platform_call pl_freeMutexFn (\<lambda>f customData. call f customData mutex) pCallbacksProvider w"

definition createConditionVariableAggregate ::
    "(cfun \<Rightarrow> UINT64 \<Rightarrow> 'w \<Rightarrow> 'cvar \<times> 'w) \<Rightarrow> CallbacksProvider option \<Rightarrow> 'w \<Rightarrow> ('cvar \<times> 'w) option" where
  [aggregate_defs]: "createConditionVariableAggregate call pCallbacksProvider w =
     platform_call pl_createConditionVariableFn (\<lambda>f customData. call f customData) pCallbacksProvider w"

definition signalConditionVariableAggregate ::
    "(cfun \<Rightarrow> UINT64 \<Rightarrow> 'cvar \<Rightarrow> 'w \<Rightarrow> STATUS \<times> 'w) \<Rightarrow> CallbacksProvider option \<Rightarrow> 'cvar \<Rightarrow> 'w \<Rightarrow> (STATUS \<times> 'w) option" where
  [aggregate_defs]: "signalConditionVariableAggregate call pCallbacksProvider cvar w =
     platform_call pl_signalConditionVariableFn (\<lambda>f customData. call f customData cvar) pCallbacksProvider w"

definition broadcastConditionVariableAggregate ::
    "(cfun \<Rightarrow> UINT64 \<Rightarrow> 'cvar \<Rightarrow> 'w \<Rightarrow> STATUS \<times> 'w) \<Rightarrow> CallbacksProvider option \<Rightarrow> 'cvar \<Rightarrow> 'w \<Rightarrow> (STATUS \<times> 'w) option" where
  [aggregate_defs]: "broadcastConditionVariableAggregate call pCallbacksProvider cvar w =
     platform_call pl_broadcastConditionVariableFn (\<lambda>f customData. call f customData cvar) pCallbacksProvider w"

definition waitConditionVariableAggregate ::
    "(cfun \<Rightarrow> UINT64 \<Rightarrow> 'cvar \<Rightarrow> 'mutex \<Rightarrow> UINT64 \<Rightarrow> 'w \<Rightarrow> STATUS \<times> 'w) \<Rightarrow> CallbacksProvider option \<Rightarrow> 'cvar \<Rightarrow> 'mutex \<Rightarrow> UINT64 \<Rightarrow> 'w \<Rightarrow> (STATUS \<times> 'w) option" where
  [aggregate_defs]: "waitConditionVariableAggregate call pCallbacksProvider cvar mutex timeout w =
     platform_call pl_waitConditionVariableFn (\<lambda>f customData. call f customData cvar mutex timeout) pCallbacksProvider w"

definition freeConditionVariableAggregate ::
    "(cfun \<Rightarrow> UINT64 \<Rightarrow> 'cvar \<Rightarrow> 'w \<Rightarrow> 'w) \<Rightarrow> CallbacksProvider option \<Rightarrow> 'cvar \<Rightarrow> 'w \<Rightarrow> 'w option" where
  [aggregate_defs]: "freeConditionVariableAggregate call pCallbacksProvider cvar w =
     platform_call pl_freeConditionVariableFn (\<lambda>f customData. call f customData cvar) pCallbacksProvider w"

subsection \<open>The provider's invariant\<close>

text \<open>
  Each chain is an array of \<open>callbackChainCount\<close> entries of which the first ones, up to the fill
  count, are installed.
\<close>

abbreviation producer_chain :: "CallbacksProvider \<Rightarrow> ProducerCallbacks list" where
  "producer_chain p \<equiv> entries (pProducerCallbacks p) (producerCallbacksCount p)"

abbreviation stream_chain :: "CallbacksProvider \<Rightarrow> StreamCallbacks list" where
  "stream_chain p \<equiv> entries (pStreamCallbacks p) (streamCallbacksCount p)"

abbreviation auth_chain :: "CallbacksProvider \<Rightarrow> AuthCallbacks list" where
  "auth_chain p \<equiv> entries (pAuthCallbacks p) (authCallbacksCount p)"

abbreviation api_chain :: "CallbacksProvider \<Rightarrow> ApiCallbacks list" where
  "api_chain p \<equiv> entries (pApiCallbacks p) (apiCallbacksCount p)"

definition provider_wf :: "CallbacksProvider \<Rightarrow> bool" where
  "provider_wf p \<longleftrightarrow>
     length (pProducerCallbacks p) = callbackChainCount p \<and> producerCallbacksCount p \<le> callbackChainCount p \<and>
     length (pStreamCallbacks p) = callbackChainCount p \<and> streamCallbacksCount p \<le> callbackChainCount p \<and>
     length (pAuthCallbacks p) = callbackChainCount p \<and> authCallbacksCount p \<le> callbackChainCount p \<and>
     length (pApiCallbacks p) = callbackChainCount p \<and> apiCallbacksCount p \<le> callbackChainCount p"

text \<open>The release calls that \<open>freeCallbacksProvider\<close> makes for a chain.\<close>

primrec free_calls :: "('c \<Rightarrow> fnptr) \<Rightarrow> ('c \<Rightarrow> UINT64) \<Rightarrow> 'c list \<Rightarrow> (cfun \<times> UINT64) list" where
  "free_calls freeFn customData [] = []"
| "free_calls freeFn customData (c # cs) =
     (case freeFn c of None \<Rightarrow> [] | Some f \<Rightarrow> [(f, customData c)]) @ free_calls freeFn customData cs"

lemma free_calls_append [simp]:
  "free_calls g d (xs @ ys) = free_calls g d xs @ free_calls g d ys"
  by (induction xs) auto

lemma free_chain_fold:
  "free_chain call g d cs w = fold (\<lambda>(f, x). call f x) (free_calls g d cs) w"
  by (induction cs arbitrary: w) (auto split: option.splits)

lemma free_calls_set:
  "(f, x) \<in> set (free_calls g d cs) \<longleftrightarrow> (\<exists>c\<in>set cs. g c = Some f \<and> d c = x)"
  by (induction cs) (auto split: option.splits)

lemma free_calls_distinct_snoc:
  assumes "distinct (free_calls g d cs)" and "\<not> list_ex (dup_entry g d c) cs"
  shows "distinct (free_calls g d (cs @ [c]))"
proof (cases "g c")
  case None
  then show ?thesis using assms by simp
next
  case (Some f)
  have "(f, d c) \<notin> set (free_calls g d cs)"
    using assms(2) Some by (auto simp: free_calls_set list_ex_iff dup_entry_def)
  then show ?thesis using assms(1) Some by auto
qed

text \<open>
  Installing a list of structures one after the other, going on after a failure, and the
  structures whose installation succeeded.
\<close>

primrec add_all :: "(CallbacksProvider option \<Rightarrow> 'c option \<Rightarrow> STATUS \<times> CallbacksProvider option) \<Rightarrow>
    'c list \<Rightarrow> CallbacksProvider \<Rightarrow> STATUS list \<times> CallbacksProvider" where
  "add_all add [] p = ([], p)"
| "add_all add (c # cs) p = (case add (Some p) (Some c) of (st, pp) \<Rightarrow>
     (case add_all add cs (case pp of None \<Rightarrow> p | Some p' \<Rightarrow> p') of (sts, q) \<Rightarrow> (st # sts, q)))"

fun installed :: "STATUS list \<Rightarrow> 'c list \<Rightarrow> 'c list" where
  "installed (st # sts) (c # cs) = (if st = STATUS_SUCCESS then [c] else []) @ installed sts cs"
| "installed _ _ = []"

lemma length_installed:
  "length sts = length cs \<Longrightarrow> length (installed sts cs) = length (filter (\<lambda>st. st = STATUS_SUCCESS) sts)"
  by (induction sts cs rule: list_induct2) auto

subsection \<open>The contract of a callback chain\<close>

text \<open>
  What a client of an \<open>add\<close> operation relies on: a failed call changes nothing, a successful one
  appends the structure to the chain, only when there is room, and never one whose release would
  be a repetition. The operation does not change the capacity.
\<close>

locale callback_chain =
  fixes add :: "CallbacksProvider option \<Rightarrow> 'c option \<Rightarrow> STATUS \<times> CallbacksProvider option"
    and chain :: "CallbacksProvider \<Rightarrow> 'c list"
    and freeFn :: "'c \<Rightarrow> fnptr"
    and customData :: "'c \<Rightarrow> UINT64"
  assumes add_null: "pp = None \<or> cc = None \<Longrightarrow> add pp cc = (STATUS_NULL_ARG, pp)"
    and add_failed: "fst (add (Some p) (Some c)) \<noteq> STATUS_SUCCESS \<Longrightarrow> snd (add (Some p) (Some c)) = Some p"
    and add_succeeded: "\<lbrakk>provider_wf p; add (Some p) (Some c) = (STATUS_SUCCESS, pp)\<rbrakk> \<Longrightarrow>
      \<exists>p'. pp = Some p' \<and> provider_wf p' \<and> callbackChainCount p' = callbackChainCount p \<and>
           chain p' = chain p @ [c] \<and> \<not> list_ex (dup_entry freeFn customData c) (chain p)"
    and chain_bound: "provider_wf p \<Longrightarrow> length (chain p) \<le> callbackChainCount p"
    and add_complete: "provider_wf p \<Longrightarrow> length (chain p) = callbackChainCount p \<Longrightarrow>
      fst (add (Some p) (Some c)) \<noteq> STATUS_SUCCESS"
begin

lemma add_cases:
  assumes "provider_wf p"
  obtains (failed) "fst (add (Some p) (Some c)) \<noteq> STATUS_SUCCESS" "snd (add (Some p) (Some c)) = Some p"
  | (added) p' where "add (Some p) (Some c) = (STATUS_SUCCESS, Some p')" "provider_wf p'"
      "callbackChainCount p' = callbackChainCount p" "chain p' = chain p @ [c]"
      "\<not> list_ex (dup_entry freeFn customData c) (chain p)"
proof (cases "fst (add (Some p) (Some c)) = STATUS_SUCCESS")
  case True
  then show ?thesis
    using add_succeeded [OF assms, of c "snd (add (Some p) (Some c))"] added
    by (metis prod.collapse)
next
  case False
  then show ?thesis using add_failed failed by blast
qed

lemma add_keeps_free_once:
  assumes "provider_wf p" and "distinct (free_calls freeFn customData (chain p))"
    and "add (Some p) (Some c) = (st, Some p')"
  shows "distinct (free_calls freeFn customData (chain p'))"
  using assms(1)
proof (cases rule: add_cases [where c = c])
  case failed
  then show ?thesis using assms by simp
next
  case (added q)
  then show ?thesis
    using assms free_calls_distinct_snoc [OF assms(2), of c] by simp
qed

lemma add_all_chain:
  assumes "provider_wf p" and "distinct (free_calls freeFn customData (chain p))"
    and "add_all add cs p = (sts, q)"
  shows "provider_wf q \<and> callbackChainCount q = callbackChainCount p \<and>
    length sts = length cs \<and>
    chain q = chain p @ installed sts cs \<and>
    distinct (free_calls freeFn customData (chain q))"
  using assms
proof (induction cs arbitrary: p sts q)
  case Nil
  then show ?case by simp
next
  case (Cons c cs)
  from Cons.prems(1) show ?case
  proof (cases rule: add_cases [where c = c])
    case failed
    then obtain st where st: "add (Some p) (Some c) = (st, Some p)" "st \<noteq> STATUS_SUCCESS"
      by (metis prod.collapse)
    from Cons.prems(3) st(1) obtain sts' where s: "add_all add cs p = (sts', q)" "sts = st # sts'"
      by (auto split: prod.splits)
    show ?thesis using Cons.IH [OF Cons.prems(1,2) s(1)] st(2) s(2) by (auto simp del: free_calls_append)
  next
    case (added p')
    from Cons.prems(3) added(1) obtain sts' where
      s: "add_all add cs p' = (sts', q)" "sts = STATUS_SUCCESS # sts'"
      by (auto split: prod.splits)
    have "distinct (free_calls freeFn customData (chain p'))"
      by (rule add_keeps_free_once [OF Cons.prems(1,2) added(1)])
    from Cons.IH [OF added(2) this s(1)] show ?thesis using added(3,4) s(2) by (auto simp del: free_calls_append)
  qed
qed

lemma add_all_bound:
  assumes "provider_wf p" and "distinct (free_calls freeFn customData (chain p))"
    and "add_all add cs p = (sts, q)"
  shows "length (chain p) + length (filter (\<lambda>st. st = STATUS_SUCCESS) sts) \<le> callbackChainCount p"
proof -
  note q = add_all_chain [OF assms]
  have "length (chain q) \<le> callbackChainCount p" using q chain_bound by fastforce
  then show ?thesis using q by (simp add: length_installed)
qed

end

subsection \<open>The four chains meet the contract\<close>

lemmas add_defs = addProducerCallbacks_def addStreamCallbacks_def addAuthCallbacks_def addApiCallbacks_def

interpretation producer: callback_chain addProducerCallbacks producer_chain pr_freeProducerCallbacksFn pr_customData
  by unfold_locales
    (auto simp: addProducerCallbacks_def provider_wf_def Let_def entries_store split: option.splits if_splits)

interpretation stream: callback_chain addStreamCallbacks stream_chain st_freeStreamCallbacksFn st_customData
  by unfold_locales
    (auto simp: addStreamCallbacks_def provider_wf_def Let_def entries_store split: option.splits if_splits)

interpretation auth: callback_chain addAuthCallbacks auth_chain au_freeAuthCallbacksFn au_customData
  by unfold_locales
    (auto simp: addAuthCallbacks_def provider_wf_def Let_def entries_store split: option.splits if_splits)

interpretation api: callback_chain addApiCallbacks api_chain ap_freeApiCallbacksFn ap_customData
  by unfold_locales
    (auto simp: addApiCallbacks_def provider_wf_def Let_def entries_store split: option.splits if_splits)

subsection \<open>Every reachable configuration\<close>

text \<open>
  The provider as \<open>createAbstractDefaultCallbacksProvider\<close> allocates and fills it, at the address
  \<open>self\<close>, before it installs the default platform callbacks.
\<close>

definition alloc_provider :: "UINT64 \<Rightarrow> nat \<Rightarrow> CallbacksProvider" where
  "alloc_provider self n = \<lparr>
     clientCallbacks = zero_ClientCallbacks\<lparr>cc_version := CALLBACKS_CURRENT_VERSION, cc_customData := self\<rparr>,
     callbackChainCount = n,
     platformCallbacks = zero_PlatformCallbacks,
     pProducerCallbacks = replicate n zero_ProducerCallbacks, producerCallbacksCount = 0,
     pStreamCallbacks = replicate n zero_StreamCallbacks, streamCallbacksCount = 0,
     pAuthCallbacks = replicate n zero_AuthCallbacks, authCallbacksCount = 0,
     pApiCallbacks = replicate n zero_ApiCallbacks, apiCallbacksCount = 0\<rparr>"

text \<open>The providers that any sequence of the installing operations, failed ones included, leads to.\<close>

inductive configured :: "nat \<Rightarrow> CallbacksProvider \<Rightarrow> bool" where
  created: "\<lbrakk>n < MAX_CALLBACK_CHAIN_COUNT; setDefaultPlatformCallbacks (Some (alloc_provider self n)) = (st, Some p)\<rbrakk>
     \<Longrightarrow> configured n p"
| platform: "\<lbrakk>configured n p; setPlatformCallbacks (Some p) c = (st, Some p')\<rbrakk> \<Longrightarrow> configured n p'"
| producer: "\<lbrakk>configured n p; addProducerCallbacks (Some p) c = (st, Some p')\<rbrakk> \<Longrightarrow> configured n p'"
| stream: "\<lbrakk>configured n p; addStreamCallbacks (Some p) c = (st, Some p')\<rbrakk> \<Longrightarrow> configured n p'"
| auth: "\<lbrakk>configured n p; addAuthCallbacks (Some p) c = (st, Some p')\<rbrakk> \<Longrightarrow> configured n p'"
| api: "\<lbrakk>configured n p; addApiCallbacks (Some p) c = (st, Some p')\<rbrakk> \<Longrightarrow> configured n p'"

text \<open>
  A client callback of a chain is the aggregate of its name when some entry of the chain has a
  function for it, and NULL otherwise. A row of the tables below is a client callback, the function
  of the entries, and the aggregate.
\<close>

definition slot_value :: "('c \<Rightarrow> fnptr) \<Rightarrow> string \<Rightarrow> 'c list \<Rightarrow> fnptr" where
  "slot_value fn agg chain = (if list_ex (\<lambda>c. fn c \<noteq> None) chain then Some (C_FUN agg) else None)"

definition slots_ok ::
    "((ClientCallbacks \<Rightarrow> fnptr) \<times> ('c \<Rightarrow> fnptr) \<times> string) list \<Rightarrow> ClientCallbacks \<Rightarrow> 'c list \<Rightarrow> bool" where
  "slots_ok table cc chain \<longleftrightarrow> list_all (\<lambda>(slot, fn, agg). slot cc = slot_value fn agg chain) table"

definition producer_slots :: "((ClientCallbacks \<Rightarrow> fnptr) \<times> (ProducerCallbacks \<Rightarrow> fnptr) \<times> string) list" where
  "producer_slots =
    [(cc_storageOverflowPressureFn, pr_storageOverflowPressureFn, ''storageOverflowPressureAggregate''),
     (cc_clientReadyFn, pr_clientReadyFn, ''clientReadyAggregate''),
     (cc_clientShutdownFn, pr_clientShutdownFn, ''clientShutdownAggregate'')]"

definition stream_slots :: "((ClientCallbacks \<Rightarrow> fnptr) \<times> (StreamCallbacks \<Rightarrow> fnptr) \<times> string) list" where
  "stream_slots =
    [(cc_streamUnderflowReportFn, st_streamUnderflowReportFn, ''streamUnderflowReportAggregate''),
     (cc_bufferDurationOverflowPressureFn, st_bufferDurationOverflowPressureFn, ''bufferDurationOverflowPressureAggregate''),
     (cc_streamLatencyPressureFn, st_streamLatencyPressureFn, ''streamLatencyPressureAggregate''),
     (cc_streamConnectionStaleFn, st_streamConnectionStaleFn, ''streamConnectionStaleAggregate''),
     (cc_droppedFrameReportFn, st_droppedFrameReportFn, ''droppedFrameReportAggregate''),
     (cc_droppedFragmentReportFn, st_droppedFragmentReportFn, ''droppedFragmentReportAggregate''),
     (cc_streamErrorReportFn, st_streamErrorReportFn, ''streamErrorReportAggregate''),
     (cc_fragmentAckReceivedFn, st_fragmentAckReceivedFn, ''fragmentAckReceivedAggregate''),
     (cc_streamDataAvailableFn, st_streamDataAvailableFn, ''streamDataAvailableAggregate''),
     (cc_streamReadyFn, st_streamReadyFn, ''streamReadyAggregate''),
     (cc_streamClosedFn, st_streamClosedFn, ''streamClosedAggregate''),
     (cc_streamShutdownFn, st_streamShutdownFn, ''streamShutdownAggregate'')]"

definition auth_slots :: "((ClientCallbacks \<Rightarrow> fnptr) \<times> (AuthCallbacks \<Rightarrow> fnptr) \<times> string) list" where
  "auth_slots =
    [(cc_getSecurityTokenFn, au_getSecurityTokenFn, ''getSecurityTokenAggregate''),
     (cc_getDeviceCertificateFn, au_getDeviceCertificateFn, ''getDeviceCertificateAggregate''),
     (cc_deviceCertToTokenFn, au_deviceCertToTokenFn, ''deviceCertToTokenAggregate''),
     (cc_getDeviceFingerprintFn, au_getDeviceFingerprintFn, ''getDeviceFingerprintAggregate''),
     (cc_getStreamingTokenFn, au_getStreamingTokenFn, ''getStreamingTokenAggregate'')]"

definition api_slots :: "((ClientCallbacks \<Rightarrow> fnptr) \<times> (ApiCallbacks \<Rightarrow> fnptr) \<times> string) list" where
  "api_slots =
    [(cc_createStreamFn, ap_createStreamFn, ''createStreamAggregate''),
     (cc_describeStreamFn, ap_describeStreamFn, ''describeStreamAggregate''),
     (cc_getStreamingEndpointFn, ap_getStreamingEndpointFn, ''getStreamingEndpointAggregate''),
     (cc_putStreamFn, ap_putStreamFn, ''putStreamAggregate''),
     (cc_tagResourceFn, ap_tagResourceFn, ''tagResourceAggregate''),
     (cc_createDeviceFn, ap_createDeviceFn, ''createDeviceAggregate'')]"

lemmas slot_tables = producer_slots_def stream_slots_def auth_slots_def api_slots_def

text \<open>Setting the aggregates of one structure extends its own table and leaves the others.\<close>

lemma slot_value_snoc: "slot_value fn agg (cs @ [c]) = set_slot (fn c) agg (slot_value fn agg cs)"
  by (simp add: slot_value_def set_slot_def)

lemma slot_value_Nil [simp]: "slot_value fn agg [] = None"
  by (simp add: slot_value_def)

lemma slots_extend:
  "slots_ok producer_slots cc pcs \<Longrightarrow> slots_ok producer_slots (set_producer_aggregates pc cc) (pcs @ [pc])"
  "slots_ok stream_slots cc scs \<Longrightarrow> slots_ok stream_slots (set_stream_aggregates sc cc) (scs @ [sc])"
  "slots_ok auth_slots cc acs \<Longrightarrow> slots_ok auth_slots (set_auth_aggregates ac cc) (acs @ [ac])"
  "slots_ok api_slots cc ics \<Longrightarrow> slots_ok api_slots (set_api_aggregates ic cc) (ics @ [ic])"
  unfolding slots_ok_def slot_tables set_producer_aggregates_def set_stream_aggregates_def
    set_auth_aggregates_def set_api_aggregates_def
  by (simp_all add: slot_value_snoc)

lemma slots_frame [simp]:
  "slots_ok producer_slots (set_stream_aggregates sc cc) pcs = slots_ok producer_slots cc pcs"
  "slots_ok producer_slots (set_auth_aggregates ac cc) pcs = slots_ok producer_slots cc pcs"
  "slots_ok producer_slots (set_api_aggregates ic cc) pcs = slots_ok producer_slots cc pcs"
  "slots_ok producer_slots (set_platform_aggregates lc cc) pcs = slots_ok producer_slots cc pcs"
  "slots_ok stream_slots (set_producer_aggregates pc cc) scs = slots_ok stream_slots cc scs"
  "slots_ok stream_slots (set_auth_aggregates ac cc) scs = slots_ok stream_slots cc scs"
  "slots_ok stream_slots (set_api_aggregates ic cc) scs = slots_ok stream_slots cc scs"
  "slots_ok stream_slots (set_platform_aggregates lc cc) scs = slots_ok stream_slots cc scs"
  "slots_ok auth_slots (set_producer_aggregates pc cc) acs = slots_ok auth_slots cc acs"
  "slots_ok auth_slots (set_stream_aggregates sc cc) acs = slots_ok auth_slots cc acs"
  "slots_ok auth_slots (set_api_aggregates ic cc) acs = slots_ok auth_slots cc acs"
  "slots_ok auth_slots (set_platform_aggregates lc cc) acs = slots_ok auth_slots cc acs"
  "slots_ok api_slots (set_producer_aggregates pc cc) ics = slots_ok api_slots cc ics"
  "slots_ok api_slots (set_stream_aggregates sc cc) ics = slots_ok api_slots cc ics"
  "slots_ok api_slots (set_auth_aggregates ac cc) ics = slots_ok api_slots cc ics"
  "slots_ok api_slots (set_platform_aggregates lc cc) ics = slots_ok api_slots cc ics"
  unfolding slots_ok_def slot_tables set_producer_aggregates_def set_stream_aggregates_def
    set_auth_aggregates_def set_api_aggregates_def set_platform_aggregates_def
  by simp_all

definition provider_inv :: "nat \<Rightarrow> CallbacksProvider \<Rightarrow> bool" where
  "provider_inv n p \<longleftrightarrow> provider_wf p \<and> callbackChainCount p = n \<and> n < MAX_CALLBACK_CHAIN_COUNT \<and>
     distinct (free_calls pr_freeProducerCallbacksFn pr_customData (producer_chain p)) \<and>
     distinct (free_calls st_freeStreamCallbacksFn st_customData (stream_chain p)) \<and>
     distinct (free_calls au_freeAuthCallbacksFn au_customData (auth_chain p)) \<and>
     distinct (free_calls ap_freeApiCallbacksFn ap_customData (api_chain p)) \<and>
     slots_ok producer_slots (clientCallbacks p) (producer_chain p) \<and>
     slots_ok stream_slots (clientCallbacks p) (stream_chain p) \<and>
     slots_ok auth_slots (clientCallbacks p) (auth_chain p) \<and>
     slots_ok api_slots (clientCallbacks p) (api_chain p)"

lemma created_inv:
  assumes "n < MAX_CALLBACK_CHAIN_COUNT" "setDefaultPlatformCallbacks (Some (alloc_provider self n)) = (st, Some p)"
  shows "provider_inv n p"
proof -
  let ?p = "alloc_provider self n"
  have "provider_inv n (?p\<lparr>clientCallbacks := cc\<rparr>)"
    if "slots_ok producer_slots cc []" "slots_ok stream_slots cc []"
       "slots_ok auth_slots cc []" "slots_ok api_slots cc []" for cc
    using that assms(1) by (simp add: provider_inv_def provider_wf_def alloc_provider_def)
  then show ?thesis
    using assms(2)
    by (auto simp: setDefaultPlatformCallbacks_def slots_ok_def slot_tables alloc_provider_def
        zero_ClientCallbacks_def ClientCallbacks.make_def)
qed

lemma add_inv:
  assumes "provider_inv n p"
  shows "setPlatformCallbacks (Some p) lc = (st, Some p') \<Longrightarrow> provider_inv n p'"
    and "addProducerCallbacks (Some p) pc = (st, Some p') \<Longrightarrow> provider_inv n p'"
    and "addStreamCallbacks (Some p) sc = (st, Some p') \<Longrightarrow> provider_inv n p'"
    and "addAuthCallbacks (Some p) ac = (st, Some p') \<Longrightarrow> provider_inv n p'"
    and "addApiCallbacks (Some p) ic = (st, Some p') \<Longrightarrow> provider_inv n p'"
proof -
  show "setPlatformCallbacks (Some p) lc = (st, Some p') \<Longrightarrow> provider_inv n p'"
    using assms by (auto simp: setPlatformCallbacks_def provider_inv_def provider_wf_def
        split: option.splits if_splits)
  show "addProducerCallbacks (Some p) pc = (st, Some p') \<Longrightarrow> provider_inv n p'"
    using assms free_calls_distinct_snoc
    by (auto simp: addProducerCallbacks_def provider_inv_def provider_wf_def entries_store Let_def slots_extend
        simp del: free_calls_append split: option.splits if_splits)
  show "addStreamCallbacks (Some p) sc = (st, Some p') \<Longrightarrow> provider_inv n p'"
    using assms free_calls_distinct_snoc
    by (auto simp: addStreamCallbacks_def provider_inv_def provider_wf_def entries_store Let_def slots_extend
        simp del: free_calls_append split: option.splits if_splits)
  show "addAuthCallbacks (Some p) ac = (st, Some p') \<Longrightarrow> provider_inv n p'"
    using assms free_calls_distinct_snoc
    by (auto simp: addAuthCallbacks_def provider_inv_def provider_wf_def entries_store Let_def slots_extend
        simp del: free_calls_append split: option.splits if_splits)
  show "addApiCallbacks (Some p) ic = (st, Some p') \<Longrightarrow> provider_inv n p'"
    using assms free_calls_distinct_snoc
    by (auto simp: addApiCallbacks_def provider_inv_def provider_wf_def entries_store Let_def slots_extend
        simp del: free_calls_append split: option.splits if_splits)
qed

lemma configured_inv: "configured n p \<Longrightarrow> provider_inv n p"
  by (induction rule: configured.induct) (auto intro: created_inv add_inv)

subsection \<open>What a chain aggregate does\<close>

text \<open>The state after the functions of a list of entries ran and all of them returned success.\<close>

primrec all_succeed :: "('c \<Rightarrow> fnptr) \<Rightarrow> (cfun \<Rightarrow> 'c \<Rightarrow> 'w \<Rightarrow> STATUS \<times> 'w) \<Rightarrow> 'c list \<Rightarrow> 'w \<Rightarrow> 'w option" where
  "all_succeed fn call [] w = Some w"
| "all_succeed fn call (c # cs) w = (case fn c of
     None \<Rightarrow> all_succeed fn call cs w
   | Some f \<Rightarrow> (case call f c w of (st, w') \<Rightarrow>
       if st = STATUS_SUCCESS then all_succeed fn call cs w' else None))"

text \<open>The entry at which the chain ends early, and what its function returned.\<close>

definition ends_at :: "('c \<Rightarrow> fnptr) \<Rightarrow> (cfun \<Rightarrow> 'c \<Rightarrow> 'w \<Rightarrow> STATUS \<times> 'w) \<Rightarrow> 'c list \<Rightarrow> 'w \<Rightarrow> 'c list \<Rightarrow> STATUS \<Rightarrow> 'w \<Rightarrow> bool" where
  "ends_at fn call cs w pre st w' \<longleftrightarrow> (\<exists>c post f w1. cs = pre @ c # post \<and> fn c = Some f \<and>
     all_succeed fn call pre w = Some w1 \<and> call f c w1 = (st, w') \<and> st \<noteq> STATUS_SUCCESS)"

lemma run_chain_all_succeed:
  "all_succeed fn call cs w = Some w' \<Longrightarrow> run_chain fn call (cs @ ds) w = run_chain fn call ds w'"
  by (induction cs arbitrary: w) (auto split: option.splits prod.splits if_splits)

lemma run_chain_ends_at:
  "ends_at fn call cs w pre st w' \<Longrightarrow>
   run_chain fn call cs w = (if st = STATUS_STOP_CALLBACK_CHAIN then STATUS_SUCCESS else st, w')"
  by (auto simp: ends_at_def run_chain_all_succeed)

lemma ends_at_or_all_succeed:
  "all_succeed fn call cs w = None \<Longrightarrow> \<exists>pre st w'. ends_at fn call cs w pre st w'"
proof (induction cs arbitrary: w)
  case Nil
  then show ?case by simp
next
  case (Cons c cs)
  show ?case
  proof (cases "fn c")
    case None
    with Cons.prems have "all_succeed fn call cs w = None" by simp
    from Cons.IH [OF this] obtain pre st w' where "ends_at fn call cs w pre st w'" by blast
    with None have "ends_at fn call (c # cs) w (c # pre) st w'"
      unfolding ends_at_def by fastforce
    then show ?thesis by blast
  next
    case (Some f)
    obtain st w1 where st: "call f c w = (st, w1)" by fastforce
    show ?thesis
    proof (cases "st = STATUS_SUCCESS")
      case True
      with Cons.prems Some st have "all_succeed fn call cs w1 = None" by simp
      from Cons.IH [OF this] obtain pre st' w' where "ends_at fn call cs w1 pre st' w'" by blast
      with True Some st have "ends_at fn call (c # cs) w (c # pre) st' w'"
        unfolding ends_at_def by fastforce
      then show ?thesis by blast
    next
      case False
      with Some st have "ends_at fn call (c # cs) w [] st w1"
        unfolding ends_at_def by fastforce
      then show ?thesis by blast
    qed
  qed
qed

lemma run_chain_iff:
  "run_chain fn call cs w = (st, w') \<longleftrightarrow>
     (st = STATUS_SUCCESS \<and> all_succeed fn call cs w = Some w') \<or>
     (\<exists>pre st0. ends_at fn call cs w pre st0 w' \<and>
        st = (if st0 = STATUS_STOP_CALLBACK_CHAIN then STATUS_SUCCESS else st0))"
proof (cases "all_succeed fn call cs w")
  case None
  then obtain pre st0 w0 where e: "ends_at fn call cs w pre st0 w0"
    using ends_at_or_all_succeed [OF None] by blast
  then show ?thesis using run_chain_ends_at [OF e] None by (auto dest: run_chain_ends_at)
next
  case (Some w1)
  have "\<not> ends_at fn call cs w pre st0 w0" for pre st0 w0
  proof
    assume "ends_at fn call cs w pre st0 w0"
    then obtain c post f w2 where d: "cs = pre @ c # post" "fn c = Some f"
        "all_succeed fn call pre w = Some w2" "call f c w2 = (st0, w0)" "st0 \<noteq> STATUS_SUCCESS"
      by (auto simp: ends_at_def)
    have "all_succeed fn call (pre @ ds) w = all_succeed fn call ds w2" for ds
      using d(3) by (induction pre arbitrary: w) (auto split: option.splits prod.splits if_splits)
    with d Some show False by simp
  qed
  then show ?thesis using run_chain_all_succeed [OF Some, of "[]"] Some by auto
qed

text \<open>What a chain comes to, stated of its entries and not of the loop.\<close>

definition chain_outcome :: "('c \<Rightarrow> fnptr) \<Rightarrow> (cfun \<Rightarrow> 'c \<Rightarrow> 'w \<Rightarrow> STATUS \<times> 'w) \<Rightarrow> 'c list \<Rightarrow> 'w \<Rightarrow> STATUS \<times> 'w \<Rightarrow> bool" where
  "chain_outcome fn call cs w r \<longleftrightarrow>
     fst r = STATUS_SUCCESS \<and> all_succeed fn call cs w = Some (snd r) \<or>
     (\<exists>pre st. ends_at fn call cs w pre st (snd r) \<and> fst r = (if st = STATUS_STOP_CALLBACK_CHAIN then STATUS_SUCCESS else st))"

lemma run_chain_outcome: "chain_outcome fn call cs w (run_chain fn call cs w)"
  using run_chain_iff [of fn call cs w "fst (run_chain fn call cs w)" "snd (run_chain fn call cs w)"] by (auto simp: chain_outcome_def)

lemma run_chain_not_stop: "fst (run_chain fn call cs w) \<noteq> STATUS_STOP_CALLBACK_CHAIN"
  by (induction cs arbitrary: w) (auto split: option.splits prod.splits)

subsection \<open>Platform callbacks\<close>

text \<open>
  The table of the platform callbacks: a client callback, the function of the platform structure,
  its aggregate, and the default that \<open>setDefaultPlatformCallbacks\<close> installs.
\<close>

definition platform_slots ::
    "((ClientCallbacks \<Rightarrow> fnptr) \<times> (PlatformCallbacks \<Rightarrow> fnptr) \<times> string \<times> string) list" where
  "platform_slots =
    [(cc_getCurrentTimeFn, pl_getCurrentTimeFn, ''getCurrentTimeAggregate'', ''kinesisVideoStreamDefaultGetCurrentTime''),
     (cc_getRandomNumberFn, pl_getRandomNumberFn, ''getRandomNumberAggregate'', ''kinesisVideoStreamDefaultGetRandomNumber''),
     (cc_createMutexFn, pl_createMutexFn, ''createMutexAggregate'', ''kinesisVideoStreamDefaultCreateMutex''),
     (cc_lockMutexFn, pl_lockMutexFn, ''lockMutexAggregate'', ''kinesisVideoStreamDefaultLockMutex''),
     (cc_unlockMutexFn, pl_unlockMutexFn, ''unlockMutexAggregate'', ''kinesisVideoStreamDefaultUnlockMutex''),
     (cc_tryLockMutexFn, pl_tryLockMutexFn, ''tryLockMutexAggregate'', ''kinesisVideoStreamDefaultTryLockMutex''),
     (cc_freeMutexFn, pl_freeMutexFn, ''freeMutexAggregate'', ''kinesisVideoStreamDefaultFreeMutex''),
     (cc_createConditionVariableFn, pl_createConditionVariableFn, ''createConditionVariableAggregate'', ''kinesisVideoStreamDefaultCreateConditionVariable''),
     (cc_signalConditionVariableFn, pl_signalConditionVariableFn, ''signalConditionVariableAggregate'', ''kinesisVideoStreamDefaultSignalConditionVariable''),
     (cc_broadcastConditionVariableFn, pl_broadcastConditionVariableFn, ''broadcastConditionVariableAggregate'', ''kinesisVideoStreamDefaultBroadcastConditionVariable''),
     (cc_waitConditionVariableFn, pl_waitConditionVariableFn, ''waitConditionVariableAggregate'', ''kinesisVideoStreamDefaultWaitConditionVariable''),
     (cc_freeConditionVariableFn, pl_freeConditionVariableFn, ''freeConditionVariableAggregate'', ''kinesisVideoStreamDefaultFreeConditionVariable'')]"

text \<open>
  A client callback of the platform is an aggregate exactly when the platform structure has the
  function the aggregate would call; otherwise it is the default.
\<close>

definition platform_ok :: "CallbacksProvider \<Rightarrow> bool" where
  "platform_ok p \<longleftrightarrow> list_all (\<lambda>(slot, fn, agg, dflt).
     slot (clientCallbacks p) = set_slot (fn (platformCallbacks p)) agg (Some (C_FUN dflt))) platform_slots"

lemma set_slot_None [simp]: "set_slot None agg old = old"
  by (simp add: set_slot_def)

lemma platform_created:
  assumes "setDefaultPlatformCallbacks (Some (alloc_provider self n)) = (st, Some p)"
  shows "platform_ok p \<and> platformCallbacks p = zero_PlatformCallbacks"
proof -
  from assms have "p = the (snd (setDefaultPlatformCallbacks (Some (alloc_provider self n))))" by simp
  then show ?thesis
    by (simp add: setDefaultPlatformCallbacks_def platform_ok_def platform_slots_def alloc_provider_def
      zero_PlatformCallbacks_def PlatformCallbacks.make_def)
qed

lemma platform_set_once:
  assumes "platform_ok p" and "platformCallbacks p = zero_PlatformCallbacks"
    and "setPlatformCallbacks (Some p) (Some c) = (STATUS_SUCCESS, Some p')"
  shows "platform_ok p'"
proof -
  have "p' = p\<lparr>platformCallbacks := c, clientCallbacks := set_platform_aggregates c (clientCallbacks p)\<rparr>"
    using assms(3) by (simp add: setPlatformCallbacks_def split: if_splits)
  then show ?thesis
    using assms(1,2)
    by (simp add: platform_ok_def platform_slots_def set_platform_aggregates_def
      zero_PlatformCallbacks_def PlatformCallbacks.make_def)
qed

lemma platform_ok_aggregates [simp]:
  "platform_ok (p\<lparr>pProducerCallbacks := xs, producerCallbacksCount := n, clientCallbacks := set_producer_aggregates pc (clientCallbacks p)\<rparr>) = platform_ok p"
  "platform_ok (p\<lparr>pStreamCallbacks := ys, streamCallbacksCount := n, clientCallbacks := set_stream_aggregates sc (clientCallbacks p)\<rparr>) = platform_ok p"
  "platform_ok (p\<lparr>pAuthCallbacks := zs, authCallbacksCount := n, clientCallbacks := set_auth_aggregates ac (clientCallbacks p)\<rparr>) = platform_ok p"
  "platform_ok (p\<lparr>pApiCallbacks := us, apiCallbacksCount := n, clientCallbacks := set_api_aggregates ic (clientCallbacks p)\<rparr>) = platform_ok p"
  by (simp_all add: platform_ok_def platform_slots_def set_producer_aggregates_def set_stream_aggregates_def
      set_auth_aggregates_def set_api_aggregates_def)

lemma platform_frame:
  assumes "platform_ok p"
  shows "addProducerCallbacks (Some p) pc = (st, Some p') \<Longrightarrow> platform_ok p'"
    and "addStreamCallbacks (Some p) sc = (st, Some p') \<Longrightarrow> platform_ok p'"
    and "addAuthCallbacks (Some p) ac = (st, Some p') \<Longrightarrow> platform_ok p'"
    and "addApiCallbacks (Some p) ic = (st, Some p') \<Longrightarrow> platform_ok p'"
  using assms
  by (auto simp: add_defs Let_def split: option.splits if_splits)

lemma platform_call_defined:
  "platform_call fn call (Some p) w \<noteq> None \<longleftrightarrow> fn (platformCallbacks p) \<noteq> None"
  by (simp add: platform_call_def split: option.splits)

subsection \<open>Properties\<close>

definition provider_free_calls :: "CallbacksProvider \<Rightarrow> (cfun \<times> UINT64) list" where
  "provider_free_calls p =
     free_calls pl_freePlatformCallbacksFn pl_customData [platformCallbacks p] @
     free_calls pr_freeProducerCallbacksFn pr_customData (producer_chain p) @
     free_calls st_freeStreamCallbacksFn st_customData (stream_chain p) @
     free_calls au_freeAuthCallbacksFn au_customData (auth_chain p) @
     free_calls ap_freeApiCallbacksFn ap_customData (api_chain p)"

lemma freeCallbacksProvider_fold:
  "freeCallbacksProvider call (Some (Some p)) w =
     (STATUS_SUCCESS, Some None, fold (\<lambda>(f, x). call f x) (provider_free_calls p) w)"
  by (simp add: freeCallbacksProvider_def free_chain_fold provider_free_calls_def split: option.splits)

text \<open>A concrete provider with two equal stream structures offered to it, the second refused.\<close>

definition sample_stream :: StreamCallbacks where
  "sample_stream = zero_StreamCallbacks\<lparr>st_customData := 7, st_streamReadyFn := Some (USER_FN 1),
     st_freeStreamCallbacksFn := Some (USER_FN 2)\<rparr>"

definition sample_provider :: CallbacksProvider where
  "sample_provider = snd (add_all addStreamCallbacks [sample_stream, sample_stream]
     (the (snd (setDefaultPlatformCallbacks (Some (alloc_provider 4096 3))))))"

lemma configured_add_all_stream:
  "configured n p \<Longrightarrow> configured n (snd (add_all addStreamCallbacks cs p))"
proof (induction cs arbitrary: p)
  case (Cons c cs)
  obtain st pp where a: "addStreamCallbacks (Some p) (Some c) = (st, pp)" by fastforce
  then obtain p' where "pp = Some p'"
    by (auto simp: addStreamCallbacks_def Let_def split: if_splits)
  with a have "addStreamCallbacks (Some p) (Some c) = (st, Some p')" by simp
  with Cons show ?case by (simp add: configured.stream [of n p "Some c" st] case_prod_unfold)
qed simp

lemma setDefault_Some: "setDefaultPlatformCallbacks (Some p) =
    (STATUS_SUCCESS, Some (the (snd (setDefaultPlatformCallbacks (Some p)))))"
  by (simp add: setDefaultPlatformCallbacks_def)

lemma configured_sample_provider: "configured 3 sample_provider"
  unfolding sample_provider_def
  by (rule configured_add_all_stream, rule configured.created, simp add: MAX_CALLBACK_CHAIN_COUNT_def,
      rule setDefault_Some)

text \<open>
  C5: whatever sequence of installing calls the application makes, successful or not, the provider
  keeps its invariant: no chain is filled beyond the capacity it was created with, no two entries
  of a chain have the same release function with the same custom data, and each client callback of
  a chain is its aggregate exactly when an entry of the chain has the function, and NULL otherwise.
\<close>

theorem provider_configuration_invariant:
  assumes "configured n p"
  shows "provider_inv n p"
  using assms by (rule configured_inv)

theorem provider_configuration_invariant_witness:
  "configured 3 sample_provider \<and> provider_inv 3 sample_provider"
  using provider_configuration_invariant [OF configured_sample_provider] configured_sample_provider by blast

text \<open>
  C13: releasing a provider calls the release functions of the platform structure and then of the
  producer, stream, auth and API chains, in the order of installation, sets the caller's variable
  to NULL, and calls no release function of a chain twice with the same custom data; a second
  release of the same variable does nothing.
\<close>

theorem freeCallbacksProvider_releases_once:
  assumes "configured n p"
  shows "freeCallbacksProvider call (Some (Some p)) w =
      (STATUS_SUCCESS, Some None, fold (\<lambda>(f, x). call f x) (provider_free_calls p) w) \<and>
    distinct (free_calls pr_freeProducerCallbacksFn pr_customData (producer_chain p)) \<and>
    distinct (free_calls st_freeStreamCallbacksFn st_customData (stream_chain p)) \<and>
    distinct (free_calls au_freeAuthCallbacksFn au_customData (auth_chain p)) \<and>
    distinct (free_calls ap_freeApiCallbacksFn ap_customData (api_chain p)) \<and>
    freeCallbacksProvider call (Some None) w' = (STATUS_SUCCESS, Some None, w')"
  using configured_inv [OF assms]
  by (simp add: provider_inv_def freeCallbacksProvider_fold) (simp add: freeCallbacksProvider_def)

theorem freeCallbacksProvider_releases_once_witness:
  "freeCallbacksProvider (\<lambda>f x w. w @ [(f, x)]) (Some (Some sample_provider)) [] =
     (STATUS_SUCCESS, Some None, [(USER_FN 2, 7)])"
  unfolding conjunct1 [OF freeCallbacksProvider_releases_once [OF configured_sample_provider]]
  by code_simp

text \<open>
  C14: Each of the 26 aggregates of the auth, producer, API and stream callbacks refuses a provider that is
  NULL, and otherwise runs its own function of the structures that are installed in the chain of its kind,
  each with the custom data of its structure and the arguments of the call, in the order of installation;
  structures without the function are skipped. It returns success after all of them did; otherwise it ends
  at the first function that did not succeed, without calling a later one, and returns success when that
  function asked to stop the chain and its status when it failed.
\<close>

theorem aggregate_chain_semantics:
  "getDeviceCertificateAggregate call1 None w = (STATUS_INVALID_ARG, w) \<and>
   chain_outcome au_getDeviceCertificateFn (\<lambda>f c. call1 f (au_customData c)) (entries (pAuthCallbacks p) (authCallbacksCount p)) w
     (getDeviceCertificateAggregate call1 (Some p) w) \<and>
   getSecurityTokenAggregate call1 None w = (STATUS_INVALID_ARG, w) \<and>
   chain_outcome au_getSecurityTokenFn (\<lambda>f c. call1 f (au_customData c)) (entries (pAuthCallbacks p) (authCallbacksCount p)) w
     (getSecurityTokenAggregate call1 (Some p) w) \<and>
   getDeviceFingerprintAggregate call1 None w = (STATUS_INVALID_ARG, w) \<and>
   chain_outcome au_getDeviceFingerprintFn (\<lambda>f c. call1 f (au_customData c)) (entries (pAuthCallbacks p) (authCallbacksCount p)) w
     (getDeviceFingerprintAggregate call1 (Some p) w) \<and>
   deviceCertToTokenAggregate call2 None deviceName pServiceCallContext w = (STATUS_INVALID_ARG, w) \<and>
   chain_outcome au_deviceCertToTokenFn (\<lambda>f c. call2 f (au_customData c) deviceName pServiceCallContext) (entries (pAuthCallbacks p) (authCallbacksCount p)) w
     (deviceCertToTokenAggregate call2 (Some p) deviceName pServiceCallContext w) \<and>
   getStreamingTokenAggregate call3 None streamName accessMode pServiceCallContext w = (STATUS_INVALID_ARG, w) \<and>
   chain_outcome au_getStreamingTokenFn (\<lambda>f c. call3 f (au_customData c) streamName accessMode pServiceCallContext) (entries (pAuthCallbacks p) (authCallbacksCount p)) w
     (getStreamingTokenAggregate call3 (Some p) streamName accessMode pServiceCallContext w) \<and>
   storageOverflowPressureAggregate call4 None remainingBytes w = (STATUS_INVALID_ARG, w) \<and>
   chain_outcome pr_storageOverflowPressureFn (\<lambda>f c. call4 f (pr_customData c) remainingBytes) (entries (pProducerCallbacks p) (producerCallbacksCount p)) w
     (storageOverflowPressureAggregate call4 (Some p) remainingBytes w) \<and>
   clientReadyAggregate call5 None clientHandle w = (STATUS_INVALID_ARG, w) \<and>
   chain_outcome pr_clientReadyFn (\<lambda>f c. call5 f (pr_customData c) clientHandle) (entries (pProducerCallbacks p) (producerCallbacksCount p)) w
     (clientReadyAggregate call5 (Some p) clientHandle w) \<and>
   clientShutdownAggregate call5 None clientHandle w = (STATUS_INVALID_ARG, w) \<and>
   chain_outcome pr_clientShutdownFn (\<lambda>f c. call5 f (pr_customData c) clientHandle) (entries (pProducerCallbacks p) (producerCallbacksCount p)) w
     (clientShutdownAggregate call5 (Some p) clientHandle w) \<and>
   createStreamAggregate call6 None deviceName streamName contentType kmsKeyId retentionPeriod pServiceCallContext w = (STATUS_INVALID_ARG, w) \<and>
   chain_outcome ap_createStreamFn (\<lambda>f c. call6 f (ap_customData c) deviceName streamName contentType kmsKeyId retentionPeriod pServiceCallContext) (entries (pApiCallbacks p) (apiCallbacksCount p)) w
     (createStreamAggregate call6 (Some p) deviceName streamName contentType kmsKeyId retentionPeriod pServiceCallContext w) \<and>
   describeStreamAggregate call2 None streamName pServiceCallContext w = (STATUS_INVALID_ARG, w) \<and>
   chain_outcome ap_describeStreamFn (\<lambda>f c. call2 f (ap_customData c) streamName pServiceCallContext) (entries (pApiCallbacks p) (apiCallbacksCount p)) w
     (describeStreamAggregate call2 (Some p) streamName pServiceCallContext w) \<and>
   getStreamingEndpointAggregate call7 None streamName apiName pServiceCallContext w = (STATUS_INVALID_ARG, w) \<and>
   chain_outcome ap_getStreamingEndpointFn (\<lambda>f c. call7 f (ap_customData c) streamName apiName pServiceCallContext) (entries (pApiCallbacks p) (apiCallbacksCount p)) w
     (getStreamingEndpointAggregate call7 (Some p) streamName apiName pServiceCallContext w) \<and>
   putStreamAggregate call8 None streamName containerType streamStart isAbsolute fragmentAcks streamingEndpoint pServiceCallContext w = (STATUS_INVALID_ARG, w) \<and>
   chain_outcome ap_putStreamFn (\<lambda>f c. call8 f (ap_customData c) streamName containerType streamStart isAbsolute fragmentAcks streamingEndpoint pServiceCallContext) (entries (pApiCallbacks p) (apiCallbacksCount p)) w
     (putStreamAggregate call8 (Some p) streamName containerType streamStart isAbsolute fragmentAcks streamingEndpoint pServiceCallContext w) \<and>
   tagResourceAggregate call9 None resourceArn tagCount tags pServiceCallContext w = (STATUS_INVALID_ARG, w) \<and>
   chain_outcome ap_tagResourceFn (\<lambda>f c. call9 f (ap_customData c) resourceArn tagCount tags pServiceCallContext) (entries (pApiCallbacks p) (apiCallbacksCount p)) w
     (tagResourceAggregate call9 (Some p) resourceArn tagCount tags pServiceCallContext w) \<and>
   createDeviceAggregate call2 None deviceName pServiceCallContext w = (STATUS_INVALID_ARG, w) \<and>
   chain_outcome ap_createDeviceFn (\<lambda>f c. call2 f (ap_customData c) deviceName pServiceCallContext) (entries (pApiCallbacks p) (apiCallbacksCount p)) w
     (createDeviceAggregate call2 (Some p) deviceName pServiceCallContext w) \<and>
   streamUnderflowReportAggregate call10 None streamHandle w = (STATUS_INVALID_ARG, w) \<and>
   chain_outcome st_streamUnderflowReportFn (\<lambda>f c. call10 f (st_customData c) streamHandle) (entries (pStreamCallbacks p) (streamCallbacksCount p)) w
     (streamUnderflowReportAggregate call10 (Some p) streamHandle w) \<and>
   bufferDurationOverflowPressureAggregate call11 None streamHandle remainingDuration w = (STATUS_INVALID_ARG, w) \<and>
   chain_outcome st_bufferDurationOverflowPressureFn (\<lambda>f c. call11 f (st_customData c) streamHandle remainingDuration) (entries (pStreamCallbacks p) (streamCallbacksCount p)) w
     (bufferDurationOverflowPressureAggregate call11 (Some p) streamHandle remainingDuration w) \<and>
   streamLatencyPressureAggregate call11 None streamHandle bufferDuration w = (STATUS_INVALID_ARG, w) \<and>
   chain_outcome st_streamLatencyPressureFn (\<lambda>f c. call11 f (st_customData c) streamHandle bufferDuration) (entries (pStreamCallbacks p) (streamCallbacksCount p)) w
     (streamLatencyPressureAggregate call11 (Some p) streamHandle bufferDuration w) \<and>
   streamConnectionStaleAggregate call11 None streamHandle stalenessDuration w = (STATUS_INVALID_ARG, w) \<and>
   chain_outcome st_streamConnectionStaleFn (\<lambda>f c. call11 f (st_customData c) streamHandle stalenessDuration) (entries (pStreamCallbacks p) (streamCallbacksCount p)) w
     (streamConnectionStaleAggregate call11 (Some p) streamHandle stalenessDuration w) \<and>
   droppedFrameReportAggregate call11 None streamHandle frameTimestamp w = (STATUS_INVALID_ARG, w) \<and>
   chain_outcome st_droppedFrameReportFn (\<lambda>f c. call11 f (st_customData c) streamHandle frameTimestamp) (entries (pStreamCallbacks p) (streamCallbacksCount p)) w
     (droppedFrameReportAggregate call11 (Some p) streamHandle frameTimestamp w) \<and>
   droppedFragmentReportAggregate call11 None streamHandle fragmentTimestamp w = (STATUS_INVALID_ARG, w) \<and>
   chain_outcome st_droppedFragmentReportFn (\<lambda>f c. call11 f (st_customData c) streamHandle fragmentTimestamp) (entries (pStreamCallbacks p) (streamCallbacksCount p)) w
     (droppedFragmentReportAggregate call11 (Some p) streamHandle fragmentTimestamp w) \<and>
   streamErrorReportAggregate call12 None streamHandle uploadHandle errorTimestamp errorStatus w = (STATUS_INVALID_ARG, w) \<and>
   chain_outcome st_streamErrorReportFn (\<lambda>f c. call12 f (st_customData c) streamHandle uploadHandle errorTimestamp errorStatus) (entries (pStreamCallbacks p) (streamCallbacksCount p)) w
     (streamErrorReportAggregate call12 (Some p) streamHandle uploadHandle errorTimestamp errorStatus w) \<and>
   fragmentAckReceivedAggregate call13 None streamHandle uploadHandle pFragmentAck w = (STATUS_INVALID_ARG, w) \<and>
   chain_outcome st_fragmentAckReceivedFn (\<lambda>f c. call13 f (st_customData c) streamHandle uploadHandle pFragmentAck) (entries (pStreamCallbacks p) (streamCallbacksCount p)) w
     (fragmentAckReceivedAggregate call13 (Some p) streamHandle uploadHandle pFragmentAck w) \<and>
   streamDataAvailableAggregate call14 None streamHandle streamName uploadHandle availableDuration availableSize w = (STATUS_INVALID_ARG, w) \<and>
   chain_outcome st_streamDataAvailableFn (\<lambda>f c. call14 f (st_customData c) streamHandle streamName uploadHandle availableDuration availableSize) (entries (pStreamCallbacks p) (streamCallbacksCount p)) w
     (streamDataAvailableAggregate call14 (Some p) streamHandle streamName uploadHandle availableDuration availableSize w) \<and>
   streamReadyAggregate call10 None streamHandle w = (STATUS_INVALID_ARG, w) \<and>
   chain_outcome st_streamReadyFn (\<lambda>f c. call10 f (st_customData c) streamHandle) (entries (pStreamCallbacks p) (streamCallbacksCount p)) w
     (streamReadyAggregate call10 (Some p) streamHandle w) \<and>
   streamClosedAggregate call15 None streamHandle uploadHandle w = (STATUS_INVALID_ARG, w) \<and>
   chain_outcome st_streamClosedFn (\<lambda>f c. call15 f (st_customData c) streamHandle uploadHandle) (entries (pStreamCallbacks p) (streamCallbacksCount p)) w
     (streamClosedAggregate call15 (Some p) streamHandle uploadHandle w) \<and>
   streamShutdownAggregate call16 None streamHandle resetStream w = (STATUS_INVALID_ARG, w) \<and>
   chain_outcome st_streamShutdownFn (\<lambda>f c. call16 f (st_customData c) streamHandle resetStream) (entries (pStreamCallbacks p) (streamCallbacksCount p)) w
     (streamShutdownAggregate call16 (Some p) streamHandle resetStream w)"
  by (simp add: aggregate_defs run_chain_outcome)

text \<open>
  The request to stop a chain is internal to the chain. None of the 26 aggregates of the
  producer, stream, auth and API callbacks returns it to the client, whatever its callbacks return.
\<close>

theorem aggregates_hide_stop:
  "fst (getDeviceCertificateAggregate a1 pp w1) \<noteq> STATUS_STOP_CALLBACK_CHAIN \<and>
   fst (getSecurityTokenAggregate a1 pp w1) \<noteq> STATUS_STOP_CALLBACK_CHAIN \<and>
   fst (getDeviceFingerprintAggregate a1 pp w1) \<noteq> STATUS_STOP_CALLBACK_CHAIN \<and>
   fst (deviceCertToTokenAggregate a2 pp s1 ctx w1) \<noteq> STATUS_STOP_CALLBACK_CHAIN \<and>
   fst (getStreamingTokenAggregate a3 pp s1 mode ctx w1) \<noteq> STATUS_STOP_CALLBACK_CHAIN \<and>
   fst (storageOverflowPressureAggregate a4 pp u1 w1) \<noteq> STATUS_STOP_CALLBACK_CHAIN \<and>
   fst (clientReadyAggregate a4 pp u1 w1) \<noteq> STATUS_STOP_CALLBACK_CHAIN \<and>
   fst (clientShutdownAggregate a4 pp u1 w1) \<noteq> STATUS_STOP_CALLBACK_CHAIN \<and>
   fst (createStreamAggregate a5 pp s1 s2 s3 s4 u1 ctx w1) \<noteq> STATUS_STOP_CALLBACK_CHAIN \<and>
   fst (describeStreamAggregate a6 pp s1 ctx w1) \<noteq> STATUS_STOP_CALLBACK_CHAIN \<and>
   fst (getStreamingEndpointAggregate a7 pp s1 s2 ctx w1) \<noteq> STATUS_STOP_CALLBACK_CHAIN \<and>
   fst (putStreamAggregate a8 pp s1 s2 u1 b1 b2 s3 ctx w1) \<noteq> STATUS_STOP_CALLBACK_CHAIN \<and>
   fst (tagResourceAggregate a9 pp s1 cnt tags ctx w1) \<noteq> STATUS_STOP_CALLBACK_CHAIN \<and>
   fst (createDeviceAggregate a6 pp s1 ctx w1) \<noteq> STATUS_STOP_CALLBACK_CHAIN \<and>
   fst (streamUnderflowReportAggregate a4 pp u1 w1) \<noteq> STATUS_STOP_CALLBACK_CHAIN \<and>
   fst (bufferDurationOverflowPressureAggregate a10 pp u1 u2 w1) \<noteq> STATUS_STOP_CALLBACK_CHAIN \<and>
   fst (streamLatencyPressureAggregate a10 pp u1 u2 w1) \<noteq> STATUS_STOP_CALLBACK_CHAIN \<and>
   fst (streamConnectionStaleAggregate a10 pp u1 u2 w1) \<noteq> STATUS_STOP_CALLBACK_CHAIN \<and>
   fst (droppedFrameReportAggregate a10 pp u1 u2 w1) \<noteq> STATUS_STOP_CALLBACK_CHAIN \<and>
   fst (droppedFragmentReportAggregate a10 pp u1 u2 w1) \<noteq> STATUS_STOP_CALLBACK_CHAIN \<and>
   fst (streamErrorReportAggregate a11 pp u1 u2 u3 st w1) \<noteq> STATUS_STOP_CALLBACK_CHAIN \<and>
   fst (fragmentAckReceivedAggregate a12 pp u1 u2 ack w1) \<noteq> STATUS_STOP_CALLBACK_CHAIN \<and>
   fst (streamDataAvailableAggregate a13 pp u1 s1 u2 u3 u4 w1) \<noteq> STATUS_STOP_CALLBACK_CHAIN \<and>
   fst (streamReadyAggregate a4 pp u1 w1) \<noteq> STATUS_STOP_CALLBACK_CHAIN \<and>
   fst (streamShutdownAggregate a14 pp u1 b1 w1) \<noteq> STATUS_STOP_CALLBACK_CHAIN \<and>
   fst (streamClosedAggregate a10 pp u1 u2 w1) \<noteq> STATUS_STOP_CALLBACK_CHAIN"
  by (simp add: aggregate_defs run_chain_not_stop split: option.split)

text \<open>
  Offering a sequence of stream callbacks to a configured provider installs exactly those
  whose call reported success, after the ones already there and in the order offered, and never
  more than the capacity leaves room for.
\<close>

theorem addStreamCallbacks_sequence:
  assumes "configured n p" and "add_all addStreamCallbacks cs p = (sts, q)"
  shows "stream_chain q = stream_chain p @ installed sts cs \<and>
    length (stream_chain p) + length (filter (\<lambda>st. st = STATUS_SUCCESS) sts) \<le> n"
  using configured_inv [OF assms(1)] stream.add_all_chain [OF _ _ assms(2)] stream.add_all_bound [OF _ _ assms(2)]
  by (simp add: provider_inv_def)

theorem addStreamCallbacks_sequence_witness:
  "stream_chain (snd (add_all addStreamCallbacks [sample_stream, zero_StreamCallbacks] sample_provider)) =
     [sample_stream, zero_StreamCallbacks]"
proof -
  let ?r = "add_all addStreamCallbacks [sample_stream, zero_StreamCallbacks] sample_provider"
  have "fst ?r = [STATUS_DUPLICATE_STREAM_CALLBACK_FREE_FUNC, STATUS_SUCCESS]" by code_simp
  moreover have "stream_chain sample_provider = [sample_stream]" by code_simp
  ultimately show ?thesis
    using addStreamCallbacks_sequence [OF configured_sample_provider prod.collapse [symmetric], of "[sample_stream, zero_StreamCallbacks]"]
    by simp
qed

text \<open>
  C15: when the application installs platform callbacks once, every platform client callback is
  either the library's default or the aggregate of a function that is there, so that no aggregate
  the client can reach runs into the check that ends the process.
\<close>

theorem platform_callbacks_set_once:
  assumes "setDefaultPlatformCallbacks (Some (alloc_provider self n)) = (STATUS_SUCCESS, Some p0)"
    and "setPlatformCallbacks (Some p0) (Some c) = (STATUS_SUCCESS, Some p)"
    and "(slot, fn, agg, dflt) \<in> set platform_slots"
  shows "slot (clientCallbacks p) = (if fn c \<noteq> None then Some (C_FUN agg) else Some (C_FUN dflt)) \<and>
    (slot (clientCallbacks p) = Some (C_FUN agg) \<longrightarrow> platform_call fn call (Some p) w \<noteq> None)"
proof -
  have p: "platform_ok p" "platformCallbacks p = c"
    using platform_created [OF assms(1)] platform_set_once [OF _ _ assms(2)] assms(2)
    by (auto simp: setPlatformCallbacks_def split: if_splits)
  have "slot (clientCallbacks p) = set_slot (fn c) agg (Some (C_FUN dflt))"
    using p assms(3) by (auto simp: platform_ok_def list_all_iff)
  moreover have "agg \<noteq> dflt" using assms(3) by (auto simp: platform_slots_def)
  ultimately show ?thesis
    using p(2) by (auto simp: set_slot_def platform_call_def split: option.splits)
qed

definition clock_platform :: PlatformCallbacks where
  "clock_platform = zero_PlatformCallbacks\<lparr>pl_getCurrentTimeFn := Some (USER_FN 5)\<rparr>"

definition log_platform :: PlatformCallbacks where
  "log_platform = zero_PlatformCallbacks\<lparr>pl_logPrintFn := Some (USER_FN 6)\<rparr>"

theorem platform_callbacks_set_once_witness:
  "cc_getCurrentTimeFn (clientCallbacks (the (snd (setPlatformCallbacks
     (snd (setDefaultPlatformCallbacks (Some (alloc_provider 4096 3)))) (Some clock_platform))))) =
   Some (C_FUN ''getCurrentTimeAggregate'')"
proof -
  let ?p0 = "the (snd (setDefaultPlatformCallbacks (Some (alloc_provider 4096 3))))"
  have a: "setDefaultPlatformCallbacks (Some (alloc_provider 4096 3)) = (STATUS_SUCCESS, Some ?p0)"
    by (rule setDefault_Some)
  have b: "setPlatformCallbacks (Some ?p0) (Some clock_platform) =
      (STATUS_SUCCESS, Some (the (snd (setPlatformCallbacks (Some ?p0) (Some clock_platform)))))"
    by (simp add: setPlatformCallbacks_def clock_platform_def zero_PlatformCallbacks_def
        PlatformCallbacks.make_def PLATFORM_CALLBACKS_CURRENT_VERSION_def)
  have "snd (setDefaultPlatformCallbacks (Some (alloc_provider 4096 3))) = Some ?p0"
    by (simp add: setDefaultPlatformCallbacks_def)
  moreover have m: "(cc_getCurrentTimeFn, pl_getCurrentTimeFn, ''getCurrentTimeAggregate'',
      ''kinesisVideoStreamDefaultGetCurrentTime'') \<in> set platform_slots"
    by (simp add: platform_slots_def)
  ultimately show ?thesis
    using conjunct1 [OF platform_callbacks_set_once [OF a b m]] by (simp add: clock_platform_def)
qed

text \<open>
  A second call of \<open>setPlatformCallbacks\<close> replaces the structure but does not reset the client
  callbacks of the first: after platform callbacks with a clock are followed by ones with only a
  log function, the client's clock is still the aggregate, and calling it ends the process.
\<close>

theorem platform_callbacks_set_twice_abort:
  "case setPlatformCallbacks (snd (setPlatformCallbacks
      (snd (setDefaultPlatformCallbacks (Some (alloc_provider 4096 3)))) (Some clock_platform))) (Some log_platform) of
     (st, Some p) \<Rightarrow> st = STATUS_SUCCESS \<and>
       cc_getCurrentTimeFn (clientCallbacks p) = Some (C_FUN ''getCurrentTimeAggregate'') \<and>
       (\<forall>(call :: cfun \<Rightarrow> UINT64 \<Rightarrow> unit \<Rightarrow> UINT64 \<times> unit) w. getCurrentTimeAggregate call (Some p) w = None)
   | (st, None) \<Rightarrow> False"
  by (simp add: setPlatformCallbacks_def setDefaultPlatformCallbacks_def clock_platform_def log_platform_def
      zero_PlatformCallbacks_def PlatformCallbacks.make_def PLATFORM_CALLBACKS_CURRENT_VERSION_def
      set_platform_aggregates_def set_slot_def getCurrentTimeAggregate_def platform_call_def)

end
