(* ===== verification/Retry_StateMachines.thy ===== *)
theory Retry_StateMachines
  imports Callbacks
begin

text \<open>
  The two state machines of the continuous retry callbacks:
  \<open>StreamLatencyStateMachine.c\<close> reacts to latency pressure by resetting the connection, then by
  asking the pipeline to throttle, then by resetting again on every report;
  \<open>ConnectionStaleStateMachine.c\<close> reacts to a stale connection by resetting it.

  Both machines are members of a \<open>CallbackStateMachine\<close>, to which their back pointer leads. An
  operation on a machine is therefore a function on that object, and \<open>None\<close> stands for a NULL
  argument. The clock of the client callbacks, \<open>kinesisVideoStreamResetConnection\<close> and the constant
  \<open>HUNDREDS_OF_NANOS_IN_A_SECOND\<close> belong to the platform independent code and are parameters.
\<close>

subsection \<open>State\<close>

datatype STREAM_CALLBACK_HANDLING_STATE =
    STREAM_CALLBACK_HANDLING_STATE_NORMAL_STATE
  | STREAM_CALLBACK_HANDLING_STATE_RESET_CONNECTION_STATE
  | STREAM_CALLBACK_HANDLING_STATE_RESET_STREAM_STATE
  | STREAM_CALLBACK_HANDLING_STATE_THROTTLE_PIPELINE_STATE
  | STREAM_CALLBACK_HANDLING_STATE_INFINITE_RETRY_STATE

record StreamLatencyStateMachine =
  sl_currentState :: STREAM_CALLBACK_HANDLING_STATE
  sl_currTime :: UINT64
  sl_quietTime :: UINT64
  sl_backToNormalTime :: UINT64

record ConnectionStaleStateMachine =
  cs_currentState :: STREAM_CALLBACK_HANDLING_STATE
  cs_quietTime :: UINT64
  cs_backToNormalTime :: UINT64
  cs_currTime :: UINT64

type_synonym TID = nat

text \<open>The thread of a pending reset is \<open>None\<close> when it is \<open>INVALID_TID_VALUE\<close>.\<close>

record CallbackStateMachine =
  streamReady :: bool
  resetTid :: "TID option"
  sm_streamHandle :: STREAM_HANDLE
  sm_uploadHandle :: UPLOAD_HANDLE
  sm_erroredTimecode :: UINT64
  streamLatencyStateMachine :: StreamLatencyStateMachine
  connectionStaleStateMachine :: ConnectionStaleStateMachine

record 'w retry_env =
  env_getCurrentTime :: "'w \<Rightarrow> UINT64 \<times> 'w"
  env_resetConnection :: "STREAM_HANDLE \<Rightarrow> 'w \<Rightarrow> STATUS \<times> 'w"
  env_hundredsOfNanosInASecond :: UINT64

subsection \<open>Stream latency\<close>

definition GRACE_PERIOD_STREAM_LATENCY_STATE_MACHINE :: "UINT64 \<Rightarrow> UINT64" where
  "GRACE_PERIOD_STREAM_LATENCY_STATE_MACHINE hns = 30 * hns"

definition VERIFICATION_PERIOD_STREAM_LATENCY_STATE_MACHINE :: "UINT64 \<Rightarrow> UINT64" where
  "VERIFICATION_PERIOD_STREAM_LATENCY_STATE_MACHINE hns = 60 * hns"

definition STREAM_LATENCY_STATE_MACHINE_UPDATE_TIMESTAMP ::
    "UINT64 \<Rightarrow> StreamLatencyStateMachine \<Rightarrow> StreamLatencyStateMachine" where
  "STREAM_LATENCY_STATE_MACHINE_UPDATE_TIMESTAMP hns m =
     (let q = sl_currTime m + GRACE_PERIOD_STREAM_LATENCY_STATE_MACHINE hns
      in m\<lparr>sl_quietTime := q, sl_backToNormalTime := q + VERIFICATION_PERIOD_STREAM_LATENCY_STATE_MACHINE hns\<rparr>)"

definition setStreamLatencyStateMachine ::
    "CallbackStateMachine option \<Rightarrow> STREAM_CALLBACK_HANDLING_STATE \<Rightarrow> UINT64 \<Rightarrow> UINT64 \<Rightarrow> UINT64
      \<Rightarrow> STATUS \<times> CallbackStateMachine option" where
  "setStreamLatencyStateMachine psm currState currTime quietTime backToNormalTime = (case psm of
     None \<Rightarrow> (STATUS_NULL_ARG, None)
   | Some sm \<Rightarrow> (STATUS_SUCCESS, Some (sm\<lparr>streamLatencyStateMachine :=
       \<lparr>sl_currentState = currState, sl_currTime = currTime, sl_quietTime = quietTime,
        sl_backToNormalTime = backToNormalTime\<rparr>\<rparr>)))"

definition streamLatencyStateMachineToResetConnectionState ::
    "'w retry_env \<Rightarrow> STREAM_HANDLE \<Rightarrow> CallbackStateMachine option \<Rightarrow> 'w
      \<Rightarrow> STATUS \<times> CallbackStateMachine option \<times> 'w" where
  [retry_defs]: "streamLatencyStateMachineToResetConnectionState env streamHandle psm w = (case psm of
     None \<Rightarrow> (STATUS_NULL_ARG, None, w)
   | Some sm \<Rightarrow>
       let m1 = (streamLatencyStateMachine sm)\<lparr>sl_currentState := STREAM_CALLBACK_HANDLING_STATE_RESET_CONNECTION_STATE\<rparr>;
           m2 = STREAM_LATENCY_STATE_MACHINE_UPDATE_TIMESTAMP (env_hundredsOfNanosInASecond env) m1;
           w1 = (if streamReady sm then snd (env_resetConnection env streamHandle w) else w)
       in (STATUS_SUCCESS, Some (sm\<lparr>streamLatencyStateMachine := m2\<rparr>), w1))"

definition streamLatencyStateMachineSetThrottlePipelineState ::
    "'w retry_env \<Rightarrow> CallbackStateMachine \<Rightarrow> CallbackStateMachine" where
  [retry_defs]: "streamLatencyStateMachineSetThrottlePipelineState env sm = sm\<lparr>streamLatencyStateMachine :=
     STREAM_LATENCY_STATE_MACHINE_UPDATE_TIMESTAMP (env_hundredsOfNanosInASecond env)
       ((streamLatencyStateMachine sm)\<lparr>sl_currentState := STREAM_CALLBACK_HANDLING_STATE_THROTTLE_PIPELINE_STATE\<rparr>)\<rparr>"

definition streamLatencyStateMachineSetInfiniteRetryState :: "CallbackStateMachine \<Rightarrow> CallbackStateMachine" where
  [retry_defs]: "streamLatencyStateMachineSetInfiniteRetryState sm = sm\<lparr>streamLatencyStateMachine :=
     (streamLatencyStateMachine sm)\<lparr>sl_currentState := STREAM_CALLBACK_HANDLING_STATE_INFINITE_RETRY_STATE\<rparr>\<rparr>"

definition streamLatencyStateMachineDoInfiniteRetry ::
    "'w retry_env \<Rightarrow> STREAM_HANDLE \<Rightarrow> CallbackStateMachine \<Rightarrow> 'w \<Rightarrow> STATUS \<times> CallbackStateMachine \<times> 'w" where
  [retry_defs]: "streamLatencyStateMachineDoInfiniteRetry env streamHandle sm w =
     (let sm1 = sm\<lparr>streamLatencyStateMachine :=
            STREAM_LATENCY_STATE_MACHINE_UPDATE_TIMESTAMP (env_hundredsOfNanosInASecond env)
              (streamLatencyStateMachine sm)\<rparr>
      in if streamReady sm
         then (case env_resetConnection env streamHandle w of (retStatus, w1) \<Rightarrow> (retStatus, sm1, w1))
         else (STATUS_SUCCESS, sm1, w))"

definition streamLatencyStateMachineHandleStreamLatency ::
    "'w retry_env \<Rightarrow> STREAM_HANDLE \<Rightarrow> CallbackStateMachine option \<Rightarrow> 'w
      \<Rightarrow> STATUS \<times> CallbackStateMachine option \<times> 'w" where
  "streamLatencyStateMachineHandleStreamLatency env streamHandle psm w = (case psm of
     None \<Rightarrow> (STATUS_NULL_ARG, None, w)
   | Some sm \<Rightarrow> (case env_getCurrentTime env w of (now, w1) \<Rightarrow>
       let m = (streamLatencyStateMachine sm)\<lparr>sl_currTime := now\<rparr>;
           m1 = (if sl_currTime m > sl_backToNormalTime m
                 then m\<lparr>sl_currentState := STREAM_CALLBACK_HANDLING_STATE_NORMAL_STATE\<rparr> else m);
           sm1 = sm\<lparr>streamLatencyStateMachine := m1\<rparr>
       in if sl_currTime m1 > sl_quietTime m1
          then (case sl_currentState m1 of
              STREAM_CALLBACK_HANDLING_STATE_NORMAL_STATE \<Rightarrow>
                streamLatencyStateMachineToResetConnectionState env streamHandle (Some sm1) w1
            | STREAM_CALLBACK_HANDLING_STATE_RESET_CONNECTION_STATE \<Rightarrow>
                (STATUS_SUCCESS, Some (streamLatencyStateMachineSetThrottlePipelineState env sm1), w1)
            | STREAM_CALLBACK_HANDLING_STATE_THROTTLE_PIPELINE_STATE \<Rightarrow>
                (STATUS_SUCCESS, Some (streamLatencyStateMachineSetInfiniteRetryState sm1), w1)
            | STREAM_CALLBACK_HANDLING_STATE_INFINITE_RETRY_STATE \<Rightarrow>
                (case streamLatencyStateMachineDoInfiniteRetry env streamHandle sm1 w1 of
                   (retStatus, sm2, w2) \<Rightarrow> (retStatus, Some sm2, w2))
            | STREAM_CALLBACK_HANDLING_STATE_RESET_STREAM_STATE \<Rightarrow> (STATUS_SUCCESS, Some sm1, w1))
          else (STATUS_SUCCESS, Some sm1, w1)))"

subsection \<open>Connection staleness\<close>

definition GRACE_PERIOD_CONNECTION_STALE_STATE_MACHINE :: "UINT64 \<Rightarrow> UINT64" where
  "GRACE_PERIOD_CONNECTION_STALE_STATE_MACHINE hns = 30 * hns"

definition VERIFICATION_PERIOD_CONNECTION_STALE_STATE_MACHINE :: "UINT64 \<Rightarrow> UINT64" where
  "VERIFICATION_PERIOD_CONNECTION_STALE_STATE_MACHINE hns = 60 * hns"

definition CONNECTION_STALE_STATE_MACHINE_UPDATE_TIMESTAMP ::
    "UINT64 \<Rightarrow> ConnectionStaleStateMachine \<Rightarrow> ConnectionStaleStateMachine" where
  "CONNECTION_STALE_STATE_MACHINE_UPDATE_TIMESTAMP hns m =
     (let q = cs_currTime m + GRACE_PERIOD_CONNECTION_STALE_STATE_MACHINE hns
      in m\<lparr>cs_quietTime := q, cs_backToNormalTime := q + VERIFICATION_PERIOD_CONNECTION_STALE_STATE_MACHINE hns\<rparr>)"

definition setConnectionStaleStateMachine ::
    "CallbackStateMachine option \<Rightarrow> STREAM_CALLBACK_HANDLING_STATE \<Rightarrow> UINT64 \<Rightarrow> UINT64 \<Rightarrow> UINT64
      \<Rightarrow> STATUS \<times> CallbackStateMachine option" where
  "setConnectionStaleStateMachine psm currState currTime quietTime backToNormalTime = (case psm of
     None \<Rightarrow> (STATUS_NULL_ARG, None)
   | Some sm \<Rightarrow> (STATUS_SUCCESS, Some (sm\<lparr>connectionStaleStateMachine :=
       \<lparr>cs_currentState = currState, cs_quietTime = quietTime,
        cs_backToNormalTime = backToNormalTime, cs_currTime = currTime\<rparr>\<rparr>)))"

definition connectionStaleStateMachineSetResetConnectionState ::
    "'w retry_env \<Rightarrow> STREAM_HANDLE \<Rightarrow> CallbackStateMachine \<Rightarrow> 'w \<Rightarrow> STATUS \<times> CallbackStateMachine \<times> 'w" where
  [retry_defs]: "connectionStaleStateMachineSetResetConnectionState env streamHandle sm w =
     (let sm1 = sm\<lparr>connectionStaleStateMachine :=
            CONNECTION_STALE_STATE_MACHINE_UPDATE_TIMESTAMP (env_hundredsOfNanosInASecond env)
              ((connectionStaleStateMachine sm)\<lparr>cs_currentState := STREAM_CALLBACK_HANDLING_STATE_RESET_CONNECTION_STATE\<rparr>)\<rparr>
      in if streamReady sm
         then (case env_resetConnection env streamHandle w of (retStatus, w1) \<Rightarrow> (retStatus, sm1, w1))
         else (STATUS_SUCCESS, sm1, w))"

definition connectionStaleStateMachineHandleConnectionStale ::
    "'w retry_env \<Rightarrow> STREAM_HANDLE \<Rightarrow> CallbackStateMachine option \<Rightarrow> 'w
      \<Rightarrow> STATUS \<times> CallbackStateMachine option \<times> 'w" where
  "connectionStaleStateMachineHandleConnectionStale env streamHandle psm w = (case psm of
     None \<Rightarrow> (STATUS_NULL_ARG, None, w)
   | Some sm \<Rightarrow> (case env_getCurrentTime env w of (now, w1) \<Rightarrow>
       let m = (connectionStaleStateMachine sm)\<lparr>cs_currTime := now\<rparr>;
           sm1 = sm\<lparr>connectionStaleStateMachine := m\<rparr>
       in if cs_quietTime m < cs_currTime m
          then (case cs_currentState m of
              STREAM_CALLBACK_HANDLING_STATE_NORMAL_STATE \<Rightarrow>
                (case connectionStaleStateMachineSetResetConnectionState env streamHandle sm1 w1 of
                   (retStatus, sm2, w2) \<Rightarrow> (retStatus, Some sm2, w2))
            | STREAM_CALLBACK_HANDLING_STATE_RESET_CONNECTION_STATE \<Rightarrow>
                (STATUS_SUCCESS, Some (sm1\<lparr>connectionStaleStateMachine :=
                   CONNECTION_STALE_STATE_MACHINE_UPDATE_TIMESTAMP (env_hundredsOfNanosInASecond env) m\<rparr>), w1)
            | _ \<Rightarrow> (STATUS_SUCCESS, Some sm1, w1))
          else (STATUS_SUCCESS, Some sm1, w1)))"

subsection \<open>Sequences of reports\<close>

text \<open>
  An environment in which the clock stands at \<open>now\<close> and every reset of a connection succeeds and
  is logged. A sequence of reports at given times, each with the readiness of the stream at that
  moment, runs a handler once per report; the result is the times at which a reset was made.
\<close>

definition log_env :: "UINT64 \<Rightarrow> UINT64 \<Rightarrow> UINT64 list retry_env" where
  "log_env hns now = \<lparr>env_getCurrentTime = (\<lambda>w. (now, w)),
     env_resetConnection = (\<lambda>h w. (STATUS_SUCCESS, w @ [now])), env_hundredsOfNanosInASecond = hns\<rparr>"

primrec reports ::
    "(UINT64 list retry_env \<Rightarrow> STREAM_HANDLE \<Rightarrow> CallbackStateMachine option \<Rightarrow> UINT64 list
        \<Rightarrow> STATUS \<times> CallbackStateMachine option \<times> UINT64 list) \<Rightarrow>
     UINT64 \<Rightarrow> STREAM_HANDLE \<Rightarrow> CallbackStateMachine option \<Rightarrow> (UINT64 \<times> bool) list \<Rightarrow> UINT64 list" where
  "reports handler hns h psm [] = []"
| "reports handler hns h psm (r # rs) =
     (case handler (log_env hns (fst r)) h (map_option (\<lambda>sm. sm\<lparr>streamReady := snd r\<rparr>) psm) [] of
        (st, psm', log) \<Rightarrow> log @ reports handler hns h psm' rs)"

abbreviation latency_reports :: "UINT64 \<Rightarrow> STREAM_HANDLE \<Rightarrow> CallbackStateMachine option \<Rightarrow> (UINT64 \<times> bool) list \<Rightarrow> UINT64 list" where
  "latency_reports \<equiv> reports streamLatencyStateMachineHandleStreamLatency"

abbreviation stale_reports :: "UINT64 \<Rightarrow> STREAM_HANDLE \<Rightarrow> CallbackStateMachine option \<Rightarrow> (UINT64 \<times> bool) list \<Rightarrow> UINT64 list" where
  "stale_reports \<equiv> reports connectionStaleStateMachineHandleConnectionStale"

text \<open>Whether a reset at time \<open>t\<close> is at least the grace period after the reset at time \<open>r\<close>.\<close>

definition spaced :: "UINT64 \<Rightarrow> UINT64 \<Rightarrow> UINT64 \<Rightarrow> bool" where
  "spaced hns r t \<longleftrightarrow> unat r + 30 * unat hns < unat t"

fun spaced_list :: "UINT64 \<Rightarrow> UINT64 list \<Rightarrow> bool" where
  "spaced_list hns (r # t # ts) = (spaced hns r t \<and> spaced_list hns (t # ts))"
| "spaced_list hns _ = True"

text \<open>No time stamp that a report at \<open>t\<close> computes wraps around.\<close>

definition no_wrap :: "UINT64 \<Rightarrow> UINT64 \<Rightarrow> bool" where
  "no_wrap hns t \<longleftrightarrow> unat t + 90 * unat hns < 2 ^ 64"

lemma no_wrap_grace: "no_wrap hns t \<Longrightarrow> unat (t + 30 * hns) = unat t + 30 * unat hns"
  unfolding no_wrap_def by (simp add: unat_word_ariths)

lemma no_wrap_verification:
  "no_wrap hns t \<Longrightarrow> unat (t + 30 * hns + 60 * hns) = unat t + 90 * unat hns"
  unfolding no_wrap_def by (simp add: unat_word_ariths mod_simps)

lemmas stamp_defs = STREAM_LATENCY_STATE_MACHINE_UPDATE_TIMESTAMP_def
  GRACE_PERIOD_STREAM_LATENCY_STATE_MACHINE_def VERIFICATION_PERIOD_STREAM_LATENCY_STATE_MACHINE_def
  CONNECTION_STALE_STATE_MACHINE_UPDATE_TIMESTAMP_def
  GRACE_PERIOD_CONNECTION_STALE_STATE_MACHINE_def VERIFICATION_PERIOD_CONNECTION_STALE_STATE_MACHINE_def

lemma latency_step_quiet:
  assumes "streamLatencyStateMachineHandleStreamLatency (log_env hns t) h (Some sm) [] = (st, psm', log)"
  obtains sm' where "psm' = Some sm'" and
    "log = [] \<or> log = [t]" and
    "log = [t] \<Longrightarrow> sl_quietTime (streamLatencyStateMachine sm) < t" and
    "sl_quietTime (streamLatencyStateMachine sm') = sl_quietTime (streamLatencyStateMachine sm) \<and> log = [] \<or>
     sl_quietTime (streamLatencyStateMachine sm') = t + 30 * hns \<and>
     sl_quietTime (streamLatencyStateMachine sm) < t"
  using assms
  by (auto simp: streamLatencyStateMachineHandleStreamLatency_def log_env_def Let_def retry_defs stamp_defs
      split: if_splits STREAM_CALLBACK_HANDLING_STATE.splits)

lemma latency_reports_after:
  assumes "\<forall>(t, ready) \<in> set rs. no_wrap hns t"
    and "unat r + 30 * unat hns \<le> unat (sl_quietTime (streamLatencyStateMachine sm))"
  shows "spaced_list hns (r # latency_reports hns h (Some sm) rs)"
  using assms
proof (induction rs arbitrary: r sm)
  case (Cons x rs)
  obtain t ready where x: "x = (t, ready)" by fastforce
  let ?sm = "sm\<lparr>streamReady := ready\<rparr>"
  obtain st psm' log where
    s: "streamLatencyStateMachineHandleStreamLatency (log_env hns t) h (Some ?sm) [] = (st, psm', log)"
    by (metis prod_cases3)
  obtain sm' where sm': "psm' = Some sm'" "log = [] \<or> log = [t]"
      "log = [t] \<Longrightarrow> sl_quietTime (streamLatencyStateMachine ?sm) < t"
      "sl_quietTime (streamLatencyStateMachine sm') = sl_quietTime (streamLatencyStateMachine ?sm) \<and> log = [] \<or>
       sl_quietTime (streamLatencyStateMachine sm') = t + 30 * hns \<and>
       sl_quietTime (streamLatencyStateMachine ?sm) < t"
    using latency_step_quiet [OF s] by blast
  have nw: "no_wrap hns t" "\<forall>(t, ready) \<in> set rs. no_wrap hns t" using Cons.prems(1) x by auto
  have run: "latency_reports hns h (Some sm) (x # rs) = log @ latency_reports hns h (Some sm') rs"
    using s sm'(1) x by simp
  show ?case
  proof (cases "log = []")
    case True
    have "unat r + 30 * unat hns \<le> unat (sl_quietTime (streamLatencyStateMachine sm'))"
      using sm'(4) Cons.prems(2) no_wrap_grace [OF nw(1)] by (auto simp: word_less_nat_alt)
    from Cons.IH [OF nw(2) this] show ?thesis using run True by simp
  next
    case False
    then have log: "log = [t]" using sm'(2) by simp
    have "spaced hns r t"
      using sm'(3) [OF log] Cons.prems(2) by (simp add: spaced_def word_less_nat_alt)
    moreover have "unat t + 30 * unat hns \<le> unat (sl_quietTime (streamLatencyStateMachine sm'))"
      using sm'(4) log no_wrap_grace [OF nw(1)] by simp
    ultimately show ?thesis using Cons.IH [OF nw(2)] run log by simp
  qed
qed simp

lemma spaced_list_tl: "spaced_list hns (r # ts) \<Longrightarrow> spaced_list hns ts"
  by (cases ts) auto

text \<open>
  The object as \<open>getStreamMapping\<close> initialises it; the invalid handle value is a constant of the
  platform independent code.
\<close>

definition calloc_CallbackStateMachine :: "STREAM_HANDLE \<Rightarrow> CallbackStateMachine" where
  "calloc_CallbackStateMachine INVALID_STREAM_HANDLE_VALUE = \<lparr>streamReady = False, resetTid = None,
     sm_streamHandle = INVALID_STREAM_HANDLE_VALUE, sm_uploadHandle = 0, sm_erroredTimecode = 0,
     streamLatencyStateMachine = \<lparr>sl_currentState = STREAM_CALLBACK_HANDLING_STATE_NORMAL_STATE,
       sl_currTime = 0, sl_quietTime = 0, sl_backToNormalTime = 0\<rparr>,
     connectionStaleStateMachine = \<lparr>cs_currentState = STREAM_CALLBACK_HANDLING_STATE_NORMAL_STATE,
       cs_quietTime = 0, cs_backToNormalTime = 0, cs_currTime = 0\<rparr>\<rparr>"

definition new_CallbackStateMachine :: "STREAM_HANDLE \<Rightarrow> CallbackStateMachine" where
  "new_CallbackStateMachine INVALID_STREAM_HANDLE_VALUE =
     the (snd (setStreamLatencyStateMachine
       (snd (setConnectionStaleStateMachine (Some (calloc_CallbackStateMachine INVALID_STREAM_HANDLE_VALUE))
          STREAM_CALLBACK_HANDLING_STATE_NORMAL_STATE 0 0 0))
       STREAM_CALLBACK_HANDLING_STATE_NORMAL_STATE 0 0 0))"

lemma new_CallbackStateMachine_eq:
  "new_CallbackStateMachine ih = \<lparr>streamReady = False, resetTid = None,
     sm_streamHandle = ih, sm_uploadHandle = 0, sm_erroredTimecode = 0,
     streamLatencyStateMachine = \<lparr>sl_currentState = STREAM_CALLBACK_HANDLING_STATE_NORMAL_STATE,
       sl_currTime = 0, sl_quietTime = 0, sl_backToNormalTime = 0\<rparr>,
     connectionStaleStateMachine = \<lparr>cs_currentState = STREAM_CALLBACK_HANDLING_STATE_NORMAL_STATE,
       cs_quietTime = 0, cs_backToNormalTime = 0, cs_currTime = 0\<rparr>\<rparr>"
  by (simp add: new_CallbackStateMachine_def setStreamLatencyStateMachine_def setConnectionStaleStateMachine_def
      calloc_CallbackStateMachine_def)

lemma latency_reports_spaced:
  assumes "\<forall>(t, ready) \<in> set rs. no_wrap hns t"
  shows "spaced_list hns (latency_reports hns h (Some sm) rs)"
  using assms
proof (induction rs arbitrary: sm)
  case (Cons x rs)
  obtain t ready where x: "x = (t, ready)" by fastforce
  let ?sm = "sm\<lparr>streamReady := ready\<rparr>"
  obtain st psm' log where
    s: "streamLatencyStateMachineHandleStreamLatency (log_env hns t) h (Some ?sm) [] = (st, psm', log)"
    by (metis prod_cases3)
  have nw: "no_wrap hns t" "\<forall>(t, ready) \<in> set rs. no_wrap hns t" using Cons.prems(1) x by auto
  from s show ?case
  proof (rule latency_step_quiet)
    fix sm'
    assume sm': "psm' = Some sm'" "log = [] \<or> log = [t]"
      "sl_quietTime (streamLatencyStateMachine sm') = sl_quietTime (streamLatencyStateMachine ?sm) \<and> log = [] \<or>
       sl_quietTime (streamLatencyStateMachine sm') = t + 30 * hns \<and>
       sl_quietTime (streamLatencyStateMachine ?sm) < t"
    have "spaced_list hns (t # latency_reports hns h (Some sm') rs)" if "log = [t]"
      using latency_reports_after [OF nw(2), of t sm' h] sm'(3) that no_wrap_grace [OF nw(1)] by auto
    then show ?thesis using Cons.IH [OF nw(2), of sm'] sm'(1,2) s x by auto
  qed
qed simp

text \<open>Under persistent latency, each report comes after the quiet time of the one before.\<close>

fun persistent :: "UINT64 \<Rightarrow> UINT64 list \<Rightarrow> bool" where
  "persistent hns (s # t # ts) =
     (no_wrap hns s \<and> unat s + 30 * unat hns < unat t \<and> unat t \<le> unat s + 45 * unat hns \<and> persistent hns (t # ts))"
| "persistent hns [t] = no_wrap hns t"
| "persistent hns [] = True"

lemma persistent_no_wrap: "persistent hns ts \<Longrightarrow> t \<in> set ts \<Longrightarrow> no_wrap hns t"
  by (induction hns ts rule: persistent.induct) auto

definition in_infinite_retry :: "UINT64 \<Rightarrow> UINT64 \<Rightarrow> CallbackStateMachine \<Rightarrow> bool" where
  "in_infinite_retry hns r sm \<longleftrightarrow>
     sl_currentState (streamLatencyStateMachine sm) = STREAM_CALLBACK_HANDLING_STATE_INFINITE_RETRY_STATE \<and>
     sl_quietTime (streamLatencyStateMachine sm) = r + 30 * hns \<and>
     sl_backToNormalTime (streamLatencyStateMachine sm) = r + 30 * hns + 60 * hns"

lemma infinite_retry_step:
  assumes "in_infinite_retry hns r sm" and "streamReady sm" and "no_wrap hns r"
    and "unat r + 30 * unat hns < unat t" and "unat t \<le> unat r + 90 * unat hns"
  shows "\<exists>sm'. streamLatencyStateMachineHandleStreamLatency (log_env hns t) h (Some sm) [] =
      (STATUS_SUCCESS, Some sm', [t]) \<and> in_infinite_retry hns t sm'"
proof -
  have "r + 30 * hns < t" "\<not> r + 30 * hns + 60 * hns < t"
    using assms(3-5) no_wrap_verification [of hns r]
    by (simp_all add: word_less_nat_alt no_wrap_grace)
  then show ?thesis
    using assms(1,2)
    by (simp add: streamLatencyStateMachineHandleStreamLatency_def log_env_def Let_def retry_defs stamp_defs
        in_infinite_retry_def)
qed

lemma infinite_retry_reports:
  assumes "in_infinite_retry hns r sm" and "no_wrap hns r" and "persistent hns ts"
    and "ts \<noteq> [] \<Longrightarrow> unat r + 30 * unat hns < unat (hd ts) \<and> unat (hd ts) \<le> unat r + 90 * unat hns"
  shows "latency_reports hns h (Some sm) (map (\<lambda>t. (t, True)) ts) = ts"
  using assms
proof (induction ts arbitrary: r sm)
  case (Cons t ts)
  let ?sm = "sm\<lparr>streamReady := True\<rparr>"
  have "in_infinite_retry hns r ?sm" using Cons.prems(1) by (simp add: in_infinite_retry_def)
  from infinite_retry_step [OF this _ Cons.prems(2)] Cons.prems(4) obtain sm' where
    s: "streamLatencyStateMachineHandleStreamLatency (log_env hns t) h (Some ?sm) [] = (STATUS_SUCCESS, Some sm', [t])"
       "in_infinite_retry hns t sm'"
    by auto
  have "persistent hns ts" using Cons.prems(3) by (cases ts) auto
  moreover have "unat t + 30 * unat hns < unat (hd ts) \<and> unat (hd ts) \<le> unat t + 90 * unat hns" if "ts \<noteq> []"
    using Cons.prems(3) that by (cases ts) auto
  ultimately have "latency_reports hns h (Some sm') (map (\<lambda>t. (t, True)) ts) = ts"
    using Cons.IH [OF s(2)] persistent_no_wrap [OF Cons.prems(3), of t] by simp
  then show ?case using s(1) by simp
qed simp

lemma escalation_prefix:
  assumes "persistent hns (t1 # t2 # t3 # ts)" and "t1 \<noteq> 0"
  shows "\<exists>sm'. in_infinite_retry hns t2 sm' \<and>
    latency_reports hns h (Some (new_CallbackStateMachine ih)) (map (\<lambda>t. (t, True)) (t1 # t2 # t3 # ts)) =
      t1 # latency_reports hns h (Some sm') (map (\<lambda>t. (t, True)) ts)"
proof -
  have "t1 + 30 * hns < t2" "\<not> t1 + 30 * hns + 60 * hns < t2"
       "t2 + 30 * hns < t3" "\<not> t2 + 30 * hns + 60 * hns < t3" "0 < t1"
    using assms persistent_no_wrap [OF assms(1)] no_wrap_verification [of hns t1] no_wrap_verification [of hns t2]
    by (auto simp: word_less_nat_alt no_wrap_grace unat_gt_0)
  then show ?thesis
    by (intro exI [of _ "(new_CallbackStateMachine ih)\<lparr>streamReady := True, streamLatencyStateMachine :=
        \<lparr>sl_currentState = STREAM_CALLBACK_HANDLING_STATE_INFINITE_RETRY_STATE, sl_currTime = t3,
         sl_quietTime = t2 + 30 * hns, sl_backToNormalTime = t2 + 30 * hns + 60 * hns\<rparr>\<rparr>"])
      (simp add: streamLatencyStateMachineHandleStreamLatency_def log_env_def Let_def retry_defs stamp_defs
        in_infinite_retry_def new_CallbackStateMachine_eq)
qed

lemma stale_after_reset:
  assumes "cs_currentState (connectionStaleStateMachine sm) = STREAM_CALLBACK_HANDLING_STATE_RESET_CONNECTION_STATE"
  shows "stale_reports hns h (Some sm) rs = []"
  using assms
proof (induction rs arbitrary: sm)
  case (Cons x rs)
  let ?sm = "sm\<lparr>streamReady := snd x\<rparr>"
  have "\<exists>sm'. connectionStaleStateMachineHandleConnectionStale (log_env hns (fst x)) h (Some ?sm) [] =
      (STATUS_SUCCESS, Some sm', []) \<and>
    cs_currentState (connectionStaleStateMachine sm') = STREAM_CALLBACK_HANDLING_STATE_RESET_CONNECTION_STATE"
    using Cons.prems
    by (simp add: connectionStaleStateMachineHandleConnectionStale_def log_env_def Let_def retry_defs stamp_defs)
  then show ?case using Cons.IH by auto
qed simp

lemma stale_reports_once:
  assumes "cs_currentState (connectionStaleStateMachine sm) = STREAM_CALLBACK_HANDLING_STATE_NORMAL_STATE"
  shows "length (stale_reports hns h (Some sm) rs) \<le> 1"
  using assms
proof (induction rs arbitrary: sm)
  case (Cons x rs)
  let ?sm = "sm\<lparr>streamReady := snd x\<rparr>"
  have "\<exists>sm' log. connectionStaleStateMachineHandleConnectionStale (log_env hns (fst x)) h (Some ?sm) [] =
      (STATUS_SUCCESS, Some sm', log) \<and> length log \<le> 1 \<and>
    (cs_currentState (connectionStaleStateMachine sm') = STREAM_CALLBACK_HANDLING_STATE_RESET_CONNECTION_STATE \<or>
     log = [] \<and> cs_currentState (connectionStaleStateMachine sm') = STREAM_CALLBACK_HANDLING_STATE_NORMAL_STATE)"
    using Cons.prems
    by (simp add: connectionStaleStateMachineHandleConnectionStale_def log_env_def Let_def retry_defs stamp_defs)
  then obtain sm' log where
    s: "connectionStaleStateMachineHandleConnectionStale (log_env hns (fst x)) h (Some ?sm) [] =
      (STATUS_SUCCESS, Some sm', log)" and l: "length log \<le> 1" and
    c: "cs_currentState (connectionStaleStateMachine sm') = STREAM_CALLBACK_HANDLING_STATE_RESET_CONNECTION_STATE \<or>
     log = [] \<and> cs_currentState (connectionStaleStateMachine sm') = STREAM_CALLBACK_HANDLING_STATE_NORMAL_STATE"
    by blast
  show ?case
    using c
  proof
    assume "cs_currentState (connectionStaleStateMachine sm') = STREAM_CALLBACK_HANDLING_STATE_RESET_CONNECTION_STATE"
    then show ?thesis using s l stale_after_reset by simp
  next
    assume "log = [] \<and> cs_currentState (connectionStaleStateMachine sm') = STREAM_CALLBACK_HANDLING_STATE_NORMAL_STATE"
    then show ?thesis using s Cons.IH by simp
  qed
qed simp

subsection \<open>Properties\<close>

text \<open>
  C16: the latency machine never resets a connection more often than once in a grace period of 30
  seconds: for any sequence of latency reports, at any times that leave room for the time stamps in
  64 bits, whether the stream is ready or not and whatever the machine's state, two successive
  resets are more than the grace period apart.
\<close>

theorem latency_reset_spacing:
  assumes "\<forall>(t, ready) \<in> set rs. no_wrap hns t"
  shows "spaced_list hns (latency_reports hns h (Some sm) rs)"
  using assms by (rule latency_reports_spaced)

theorem latency_reset_spacing_witness:
  "spaced_list 1 (latency_reports 1 7 (Some (new_CallbackStateMachine 0)) [(5, True), (20, True), (40, True), (200, True)]) \<and>
   latency_reports 1 7 (Some (new_CallbackStateMachine 0)) [(5, True), (20, True), (40, True), (200, True)] = [5, 200]"
  using latency_reset_spacing [of "[(5, True), (20, True), (40, True), (200, True)]" 1 7 "new_CallbackStateMachine 0"]
  by (simp add: no_wrap_def streamLatencyStateMachineHandleStreamLatency_def log_env_def retry_defs stamp_defs
      new_CallbackStateMachine_eq)

text \<open>
  C17: under persistent latency, with a report between 30 and 45 seconds after the one before, the
  machine of a stream that is ready escalates and then keeps trying: it resets the connection on
  the first report, throttles on the second, moves to infinite retry on the third, and resets the
  connection on every later report.
\<close>

theorem latency_escalation:
  assumes "persistent hns (t1 # t2 # t3 # ts)" and "t1 \<noteq> 0"
  shows "latency_reports hns h (Some (new_CallbackStateMachine ih)) (map (\<lambda>t. (t, True)) (t1 # t2 # t3 # ts)) = t1 # ts"
proof -
  obtain sm' where sm': "in_infinite_retry hns t2 sm'"
    "latency_reports hns h (Some (new_CallbackStateMachine ih)) (map (\<lambda>t. (t, True)) (t1 # t2 # t3 # ts)) =
      t1 # latency_reports hns h (Some sm') (map (\<lambda>t. (t, True)) ts)"
    using escalation_prefix [OF assms] by blast
  have "persistent hns ts" using assms(1) by (cases ts) auto
  moreover have "unat t2 + 30 * unat hns < unat (hd ts) \<and> unat (hd ts) \<le> unat t2 + 90 * unat hns" if "ts \<noteq> []"
    using assms(1) that by (cases ts) auto
  ultimately have "latency_reports hns h (Some sm') (map (\<lambda>t. (t, True)) ts) = ts"
    using infinite_retry_reports [OF sm'(1)] persistent_no_wrap [OF assms(1), of t2] by simp
  then show ?thesis using sm'(2) by simp
qed

theorem latency_escalation_witness:
  "latency_reports 1 7 (Some (new_CallbackStateMachine 0)) [(40, True), (80, True), (120, True), (160, True), (200, True)] =
     [40, 160, 200]"
  using latency_escalation [of 1 40 80 120 "[160, 200]" 7 0] by (simp add: no_wrap_def)

text \<open>
  A report acts on the connection only when the quiet time is over and the stream is ready.
  Outside these conditions neither machine calls anything but the clock, and the status is
  success.
\<close>

theorem reset_only_when_ready_and_not_quiet:
  assumes "env_getCurrentTime env w = (now, w1)"
    and "\<not> streamReady sm \<or> now \<le> sl_quietTime (streamLatencyStateMachine sm)"
    and "\<not> streamReady sm \<or> now \<le> cs_quietTime (connectionStaleStateMachine sm)"
  shows "\<exists>sm1 sm2.
    streamLatencyStateMachineHandleStreamLatency env h (Some sm) w = (STATUS_SUCCESS, Some sm1, w1) \<and>
    connectionStaleStateMachineHandleConnectionStale env h (Some sm) w = (STATUS_SUCCESS, Some sm2, w1)"
  using assms
  by (auto simp: streamLatencyStateMachineHandleStreamLatency_def connectionStaleStateMachineHandleConnectionStale_def
      Let_def retry_defs split: STREAM_CALLBACK_HANDLING_STATE.split)

theorem reset_only_when_ready_and_not_quiet_witness:
  "\<exists>sm1 sm2.
    streamLatencyStateMachineHandleStreamLatency (log_env 1 40) 7 (Some (new_CallbackStateMachine 0)) [] = (STATUS_SUCCESS, Some sm1, []) \<and>
    connectionStaleStateMachineHandleConnectionStale (log_env 1 40) 7 (Some (new_CallbackStateMachine 0)) [] = (STATUS_SUCCESS, Some sm2, [])"
  by (rule reset_only_when_ready_and_not_quiet [where now = 40])
    (simp_all add: log_env_def new_CallbackStateMachine_eq)

text \<open>
  The staleness machine of a stream resets the connection at most once, however long the
  connection stays stale afterwards and whatever the times of the reports: it has no way back from
  the reset state to the normal one.
\<close>

theorem connection_stale_resets_at_most_once:
  "length (stale_reports hns h (Some (new_CallbackStateMachine ih)) rs) \<le> 1"
  by (rule stale_reports_once) (simp add: new_CallbackStateMachine_eq)

end
