(* ===== verification/Continuous_Retry.thy ===== *)
theory Continuous_Retry
  imports Retry_StateMachines "HOL-Library.AList"
begin

text \<open>
  The continuous retry stream callbacks of \<open>ContinuousRetryStreamCallbacks.c\<close>: a table from stream
  handles to \<open>CallbackStateMachine\<close> objects, the handlers that the stream chain calls, and the thread
  that resets a stream after an error.

  The state of the component is the table, the heap of the objects that are allocated, the depth at
  which the (reentrant) \<open>syncLock\<close> is held, and the threads that were joined. A pointer is a 64-bit
  address, 0 for NULL. The hash table belongs to the platform independent code: its operations are a
  parameter, and the locale \<open>hash_table\<close> states the behaviour its header documents.
\<close>

subsection \<open>The hash table and the allocator\<close>

record 'h hash_ops =
  hashTableGet :: "'h \<Rightarrow> UINT64 \<Rightarrow> STATUS \<times> UINT64"
  hashTablePut :: "'h \<Rightarrow> UINT64 \<Rightarrow> UINT64 \<Rightarrow> STATUS \<times> 'h"
  hashTableRemove :: "'h \<Rightarrow> UINT64 \<Rightarrow> STATUS \<times> 'h"
  hashTableEntries :: "'h \<Rightarrow> (UINT64 \<times> UINT64) list"

type_synonym heap = "UINT64 \<Rightarrow> CallbackStateMachine option"

record 'h ContinuousRetryStreamCallbacks =
  cr_pCallbacksProvider :: UINT64
  cr_syncLock :: nat
  cr_pStreamMapping :: 'h
  cr_heap :: heap
  cr_joined :: "TID list"

definition lockMutex :: "'h ContinuousRetryStreamCallbacks \<Rightarrow> 'h ContinuousRetryStreamCallbacks" where
  "lockMutex s = s\<lparr>cr_syncLock := Suc (cr_syncLock s)\<rparr>"

definition unlockMutex :: "'h ContinuousRetryStreamCallbacks \<Rightarrow> 'h ContinuousRetryStreamCallbacks" where
  "unlockMutex s = s\<lparr>cr_syncLock := cr_syncLock s - 1\<rparr>"

subsection \<open>The mapping of streams to their state machines\<close>

text \<open>
  \<open>calloc\<close> gives the address of a fresh object, or \<open>None\<close> when there is no memory. The result has the
  address of the object on success.
\<close>

definition getStreamMapping ::
    "'h hash_ops \<Rightarrow> (heap \<Rightarrow> UINT64 option) \<Rightarrow> STREAM_HANDLE \<Rightarrow>
     'h ContinuousRetryStreamCallbacks option \<Rightarrow> STREAM_HANDLE
      \<Rightarrow> STATUS \<times> UINT64 \<times> 'h ContinuousRetryStreamCallbacks option" where
  "getStreamMapping ops calloc invalidHandle pcr streamHandle = (case pcr of
     None \<Rightarrow> (STATUS_INVALID_ARG, 0, None)
   | Some s0 \<Rightarrow>
       if cr_pCallbacksProvider s0 = 0 then (STATUS_INVALID_ARG, 0, Some s0)
       else let s = lockMutex s0 in
       (case hashTableGet ops (cr_pStreamMapping s) streamHandle of (retStatus, val) \<Rightarrow>
          if \<not> (retStatus = STATUS_HASH_KEY_NOT_PRESENT \<or> retStatus = STATUS_SUCCESS)
          then (retStatus, 0, Some (unlockMutex s))
          else if STATUS_SUCCEEDED retStatus then (retStatus, val, Some (unlockMutex s))
          else (case calloc (cr_heap s) of
              None \<Rightarrow> (STATUS_NOT_ENOUGH_MEMORY, 0, Some (unlockMutex s))
            | Some ptr \<Rightarrow>
                let s1 = s\<lparr>cr_heap := (cr_heap s)(ptr \<mapsto> new_CallbackStateMachine invalidHandle)\<rparr> in
                (case hashTablePut ops (cr_pStreamMapping s1) streamHandle ptr of (putStatus, table) \<Rightarrow>
                   if STATUS_FAILED putStatus
                   then (putStatus, 0, Some ((unlockMutex s1)\<lparr>cr_pStreamMapping := table,
                           cr_heap := (cr_heap s1)(ptr := None)\<rparr>))
                   else (STATUS_SUCCESS, ptr, Some (unlockMutex (s1\<lparr>cr_pStreamMapping := table\<rparr>)))))))"

definition freeStreamMapping ::
    "'h hash_ops \<Rightarrow> 'h ContinuousRetryStreamCallbacks option \<Rightarrow> STREAM_HANDLE \<Rightarrow> bool
      \<Rightarrow> STATUS \<times> 'h ContinuousRetryStreamCallbacks option" where
  "freeStreamMapping ops pcr streamHandle removeFromTable = (case pcr of
     None \<Rightarrow> (STATUS_INVALID_ARG, None)
   | Some s0 \<Rightarrow>
       if cr_pCallbacksProvider s0 = 0 then (STATUS_INVALID_ARG, Some s0)
       else let s = lockMutex s0 in
       (case hashTableGet ops (cr_pStreamMapping s) streamHandle of (retStatus, val) \<Rightarrow>
          if \<not> (retStatus = STATUS_HASH_KEY_NOT_PRESENT \<or> retStatus = STATUS_SUCCESS)
          then (retStatus, Some (unlockMutex s))
          else if retStatus = STATUS_HASH_KEY_NOT_PRESENT then (STATUS_SUCCESS, Some (unlockMutex s))
          else (case (if removeFromTable then hashTableRemove ops (cr_pStreamMapping s) streamHandle
                      else (STATUS_SUCCESS, cr_pStreamMapping s)) of (removeStatus, table) \<Rightarrow>
             if STATUS_FAILED removeStatus then (removeStatus, Some ((unlockMutex s)\<lparr>cr_pStreamMapping := table\<rparr>))
             else let s1 = s\<lparr>cr_pStreamMapping := table\<rparr>;
                      s2 = (case resetTid (the (cr_heap s1 val)) of
                              None \<Rightarrow> s1
                            | Some tid \<Rightarrow> s1\<lparr>cr_joined := cr_joined s1 @ [tid]\<rparr>)
                  in (STATUS_SUCCESS, Some (unlockMutex (s2\<lparr>cr_heap := (cr_heap s2)(val := None)\<rparr>))))))"

definition removeMappingEntryCallback ::
    "'h hash_ops \<Rightarrow> 'h ContinuousRetryStreamCallbacks option \<Rightarrow> (UINT64 \<times> UINT64) option
      \<Rightarrow> STATUS \<times> 'h ContinuousRetryStreamCallbacks option" where
  "removeMappingEntryCallback ops customData pHashEntry = (case (customData, pHashEntry) of
     (Some s, Some e) \<Rightarrow> freeStreamMapping ops (Some s) (fst e) False
   | _ \<Rightarrow> (STATUS_INVALID_ARG, customData))"

text \<open>
  \<open>hashTableIterateEntries\<close> calls a function on every entry and stops at the first failure.
\<close>

primrec iterate_entries ::
    "('s \<Rightarrow> (UINT64 \<times> UINT64) \<Rightarrow> STATUS \<times> 's) \<Rightarrow> (UINT64 \<times> UINT64) list \<Rightarrow> 's \<Rightarrow> STATUS \<times> 's" where
  "iterate_entries f [] s = (STATUS_SUCCESS, s)"
| "iterate_entries f (e # es) s = (case f s e of (st, s') \<Rightarrow>
     if STATUS_FAILED st then (st, s') else iterate_entries f es s')"

text \<open>
  The release of the whole component. The argument is a pointer to the caller's variable, as for
  the provider; the last component of the result is the heap and the joined threads that are left,
  when the object itself was released.
\<close>

definition freeContinuousRetryStreamCallbacks ::
    "'h hash_ops \<Rightarrow> 'h ContinuousRetryStreamCallbacks option option
      \<Rightarrow> STATUS \<times> 'h ContinuousRetryStreamCallbacks option option \<times> (heap \<times> TID list) option" where
  "freeContinuousRetryStreamCallbacks ops ppStreamCallbacks = (case ppStreamCallbacks of
     None \<Rightarrow> (STATUS_NULL_ARG, None, None)
   | Some None \<Rightarrow> (STATUS_SUCCESS, Some None, None)
   | Some (Some s) \<Rightarrow>
       (case iterate_entries (\<lambda>pcr e. removeMappingEntryCallback ops pcr (Some e))
               (hashTableEntries ops (cr_pStreamMapping s)) (Some s) of (st, pcr) \<Rightarrow>
          if STATUS_FAILED st then (st, Some pcr, None)
          else (STATUS_SUCCESS, Some None, map_option (\<lambda>s'. (cr_heap s', cr_joined s')) pcr)))"

definition continuousRetryStreamFreeHandler ::
    "'h hash_ops \<Rightarrow> 'h ContinuousRetryStreamCallbacks option option
      \<Rightarrow> STATUS \<times> (heap \<times> TID list) option" where
  "continuousRetryStreamFreeHandler ops customData = (case customData of
     None \<Rightarrow> (STATUS_NULL_ARG, None)
   | Some pcr \<Rightarrow> (case freeContinuousRetryStreamCallbacks ops (Some pcr) of (st, _, rest) \<Rightarrow> (st, rest)))"

subsection \<open>Handlers\<close>

type_synonym ('h, 'w) cr_world = "'h ContinuousRetryStreamCallbacks option \<times> 'w"

text \<open>
  Parameters of the handlers: the hash table, the allocator, the clock and reset of the state
  machines, the classification of errors by the platform independent code, and the creation of a
  thread. Creating the reset thread may let it run, and so may change the component before it
  returns.
\<close>

record ('h, 'w) cr_env =
  ce_hash :: "'h hash_ops"
  ce_calloc :: "heap \<Rightarrow> UINT64 option"
  ce_invalidHandle :: STREAM_HANDLE
  ce_retry :: "'w retry_env"
  ce_isRecoverable :: "STATUS \<Rightarrow> bool"
  ce_isRetriable :: "STATUS \<Rightarrow> bool"
  ce_threadCreate :: "UINT64 \<Rightarrow> ('h, 'w) cr_world \<Rightarrow> (STATUS \<times> TID) \<times> ('h, 'w) cr_world"
  ce_getStreamInfo :: "STREAM_HANDLE \<Rightarrow> 'w \<Rightarrow> (STATUS \<times> bool) \<times> 'w"
  ce_resetStream :: "STREAM_HANDLE \<Rightarrow> 'w \<Rightarrow> STATUS \<times> 'w"
  ce_streamErrorReport :: "STREAM_HANDLE \<Rightarrow> UPLOAD_HANDLE \<Rightarrow> UINT64 \<Rightarrow> STATUS \<Rightarrow> 'w \<Rightarrow> 'w"

definition IS_RETRIABLE_PRODUCER_ERROR :: "STATUS \<Rightarrow> bool" where
  "IS_RETRIABLE_PRODUCER_ERROR err \<longleftrightarrow> err = STATUS_INVALID_DESCRIBE_STREAM_RETURN_JSON \<or>
     err = STATUS_STREAM_BEING_SHUTDOWN \<or> err = STATUS_CLIENT_BEING_SHUTDOWN"

definition IS_RETRIABLE_COMMON_LIB_ERROR :: "STATUS \<Rightarrow> bool" where
  "IS_RETRIABLE_COMMON_LIB_ERROR err \<longleftrightarrow>
     err = STATUS_INVALID_API_CALL_RETURN_JSON \<or> err = STATUS_CURL_INIT_FAILED \<or> err = STATUS_CURL_LIBRARY_INIT_FAILED \<or>
     err = STATUS_HMAC_GENERATION_ERROR \<or> err = STATUS_CURL_PERFORM_FAILED \<or> err = STATUS_IOT_INVALID_RESPONSE_LENGTH \<or>
     err = STATUS_IOT_NULL_AWS_CREDS \<or> err = STATUS_IOT_INVALID_URI_LEN \<or> err = STATUS_IOT_EXPIRATION_OCCURS_IN_PAST \<or>
     err = STATUS_IOT_EXPIRATION_PARSING_FAILED \<or> err = STATUS_IOT_CREATE_LWS_CONTEXT_FAILED \<or>
     err = STATUS_FILE_CREDENTIAL_PROVIDER_OPEN_FILE_FAILED \<or> err = STATUS_FILE_CREDENTIAL_PROVIDER_INVALID_FILE_LENGTH \<or>
     err = STATUS_FILE_CREDENTIAL_PROVIDER_INVALID_FILE_FORMAT"

definition put_object :: "UINT64 \<Rightarrow> CallbackStateMachine \<Rightarrow>
    'h ContinuousRetryStreamCallbacks option \<Rightarrow> 'h ContinuousRetryStreamCallbacks option" where
  "put_object ptr sm pcr = map_option (\<lambda>s. s\<lparr>cr_heap := (cr_heap s)(ptr \<mapsto> sm)\<rparr>) pcr"

definition get_object :: "UINT64 \<Rightarrow> 'h ContinuousRetryStreamCallbacks option \<Rightarrow> CallbackStateMachine option" where
  "get_object ptr pcr = (case pcr of None \<Rightarrow> None | Some s \<Rightarrow> cr_heap s ptr)"

text \<open>
  The two state machine handlers have the same shape: find the object of the stream and run the
  machine on it.
\<close>

definition on_stream_mapping ::
    "('h, 'w) cr_env \<Rightarrow>
     ('w retry_env \<Rightarrow> STREAM_HANDLE \<Rightarrow> CallbackStateMachine option \<Rightarrow> 'w \<Rightarrow> STATUS \<times> CallbackStateMachine option \<times> 'w)
      \<Rightarrow> STREAM_HANDLE \<Rightarrow> ('h, 'w) cr_world \<Rightarrow> STATUS \<times> ('h, 'w) cr_world" where
  "on_stream_mapping env machine streamHandle cw = (case cw of (pcr, w) \<Rightarrow>
     (case getStreamMapping (ce_hash env) (ce_calloc env) (ce_invalidHandle env) pcr streamHandle of (st, ptr, pcr1) \<Rightarrow>
        if STATUS_FAILED st then (st, (pcr1, w))
        else (case machine (ce_retry env) streamHandle (get_object ptr pcr1) w of (st2, psm, w2) \<Rightarrow>
          (st2, (case psm of None \<Rightarrow> pcr1 | Some sm \<Rightarrow> put_object ptr sm pcr1, w2)))))"

definition continuousRetryStreamConnectionStaleHandler ::
    "('h, 'w) cr_env \<Rightarrow> STREAM_HANDLE \<Rightarrow> UINT64 \<Rightarrow> ('h, 'w) cr_world \<Rightarrow> STATUS \<times> ('h, 'w) cr_world" where
  "continuousRetryStreamConnectionStaleHandler env streamHandle lastBufferingAck cw =
     on_stream_mapping env connectionStaleStateMachineHandleConnectionStale streamHandle cw"

definition continuousRetryStreamLatencyPressureHandler ::
    "('h, 'w) cr_env \<Rightarrow> STREAM_HANDLE \<Rightarrow> UINT64 \<Rightarrow> ('h, 'w) cr_world \<Rightarrow> STATUS \<times> ('h, 'w) cr_world" where
  "continuousRetryStreamLatencyPressureHandler env streamHandle currentBufferDuration cw =
     on_stream_mapping env streamLatencyStateMachineHandleStreamLatency streamHandle cw"

definition continuousRetryStreamReadyHandler ::
    "('h, 'w) cr_env \<Rightarrow> STREAM_HANDLE \<Rightarrow> ('h, 'w) cr_world \<Rightarrow> STATUS \<times> ('h, 'w) cr_world" where
  "continuousRetryStreamReadyHandler env streamHandle cw =
     on_stream_mapping env (\<lambda>_ _ psm w. (STATUS_SUCCESS, map_option (\<lambda>sm. sm\<lparr>streamReady := True\<rparr>) psm, w)) streamHandle cw"

definition continuousRetryStreamShutdownHandler ::
    "('h, 'w) cr_env \<Rightarrow> STREAM_HANDLE \<Rightarrow> bool \<Rightarrow> ('h, 'w) cr_world \<Rightarrow> STATUS \<times> ('h, 'w) cr_world" where
  "continuousRetryStreamShutdownHandler env streamHandle restart cw =
     (if \<not> restart
      then (case freeStreamMapping (ce_hash env) (fst cw) streamHandle True of (st, pcr) \<Rightarrow> (st, (pcr, snd cw)))
      else (STATUS_SUCCESS, cw))"

definition continuousRetryStreamClosedHandler ::
    "('h, 'w) cr_env \<Rightarrow> STREAM_HANDLE \<Rightarrow> UPLOAD_HANDLE \<Rightarrow> ('h, 'w) cr_world \<Rightarrow> STATUS \<times> ('h, 'w) cr_world" where
  "continuousRetryStreamClosedHandler env streamHandle uploadHandle cw =
     (case freeStreamMapping (ce_hash env) (fst cw) streamHandle True of (st, pcr) \<Rightarrow> (st, (pcr, snd cw)))"

definition continuousRetryStreamErrorReportHandler ::
    "('h, 'w) cr_env \<Rightarrow> STREAM_HANDLE \<Rightarrow> UPLOAD_HANDLE \<Rightarrow> UINT64 \<Rightarrow> STATUS \<Rightarrow> ('h, 'w) cr_world
      \<Rightarrow> STATUS \<times> ('h, 'w) cr_world" where
  "continuousRetryStreamErrorReportHandler env streamHandle uploadHandle erroredTimecode statusCode cw =
     (if statusCode = STATUS_CONTINUOUS_RETRY_RESET_FAILED then (STATUS_SUCCESS, cw)
      else case cw of (None, w) \<Rightarrow> (STATUS_NULL_ARG, cw)
      | (Some s0, w) \<Rightarrow>
        if cr_pCallbacksProvider s0 = 0 then (STATUS_NULL_ARG, cw)
        else if \<not> (IS_RETRIABLE_PRODUCER_ERROR statusCode \<or> IS_RETRIABLE_COMMON_LIB_ERROR statusCode) \<and>
                (ce_isRecoverable env statusCode \<or> \<not> ce_isRetriable env statusCode)
        then (STATUS_SUCCESS, cw)
        else (case getStreamMapping (ce_hash env) (ce_calloc env) (ce_invalidHandle env) (Some s0) streamHandle of
            (st, ptr, pcr1) \<Rightarrow>
          if STATUS_FAILED st then (st, (pcr1, w))
          else let pcr2 = map_option lockMutex pcr1; sm = the (get_object ptr pcr2) in
          if resetTid sm \<noteq> None then (STATUS_SUCCESS, (map_option unlockMutex pcr2, w))
          else let pcr3 = put_object ptr (sm\<lparr>sm_streamHandle := streamHandle, sm_uploadHandle := uploadHandle,
                                            sm_erroredTimecode := erroredTimecode\<rparr>) pcr2 in
          (case ce_threadCreate env ptr (pcr3, w) of ((createStatus, tid), (pcr4, w4)) \<Rightarrow>
             if STATUS_FAILED createStatus then (createStatus, (map_option unlockMutex pcr4, w4))
             else (STATUS_SUCCESS, (map_option unlockMutex
                     (put_object ptr ((the (get_object ptr pcr4))\<lparr>resetTid := Some tid\<rparr>) pcr4), w4)))))"

text \<open>
  The body of the reset thread, on the object at \<open>ptr\<close>.
\<close>

definition continuousRetryStreamRestartHandler ::
    "('h, 'w) cr_env \<Rightarrow> UINT64 \<Rightarrow> ('h, 'w) cr_world \<Rightarrow> STATUS \<times> ('h, 'w) cr_world" where
  "continuousRetryStreamRestartHandler env ptr cw = (case cw of
     (None, w) \<Rightarrow> (STATUS_NULL_ARG, cw)
   | (Some s, w) \<Rightarrow>
     if ptr = 0 \<or> cr_pCallbacksProvider s = 0 then (STATUS_NULL_ARG, cw)
     else let sm = the (cr_heap s ptr); streamHandle = sm_streamHandle sm in
     (case (case ce_getStreamInfo env streamHandle w of ((infoStatus, offline), w1) \<Rightarrow>
             if STATUS_FAILED infoStatus then (infoStatus, w1)
             else if offline then (STATUS_SUCCESS, w1)
             else ce_resetStream env streamHandle w1) of (retStatus, w2) \<Rightarrow>
       let w3 = (if STATUS_FAILED retStatus
                 then ce_streamErrorReport env (sm_streamHandle sm) (sm_uploadHandle sm) (sm_erroredTimecode sm)
                        STATUS_CONTINUOUS_RETRY_RESET_FAILED w2
                 else w2)
       in (retStatus, (put_object ptr (sm\<lparr>resetTid := None\<rparr>) (Some s), w3))))"

subsection \<open>Creation\<close>

text \<open>
  The stream callbacks that the component installs; \<open>self\<close> is the address of the object. Creating
  the object takes the address that \<open>MEMCALLOC\<close> returns and the result of
  \<open>hashTableCreateWithParams\<close>; \<open>provider\<close> is the address of the callbacks provider.
\<close>

definition continuousRetry_streamCallbacks :: "UINT64 \<Rightarrow> StreamCallbacks" where
  "continuousRetry_streamCallbacks self = zero_StreamCallbacks\<lparr>
     st_version := STREAM_CALLBACKS_CURRENT_VERSION, st_customData := self,
     st_streamConnectionStaleFn := Some (C_FUN ''continuousRetryStreamConnectionStaleHandler''),
     st_streamErrorReportFn := Some (C_FUN ''continuousRetryStreamErrorReportHandler''),
     st_streamLatencyPressureFn := Some (C_FUN ''continuousRetryStreamLatencyPressureHandler''),
     st_streamReadyFn := Some (C_FUN ''continuousRetryStreamReadyHandler''),
     st_streamShutdownFn := Some (C_FUN ''continuousRetryStreamShutdownHandler''),
     st_streamClosedFn := Some (C_FUN ''continuousRetryStreamClosedHandler''),
     st_freeStreamCallbacksFn := Some (C_FUN ''continuousRetryStreamFreeHandler'')\<rparr>"

definition createContinuousRetryStreamCallbacks ::
    "UINT64 option \<Rightarrow> STATUS \<times> 'h \<Rightarrow> UINT64 \<Rightarrow> CallbacksProvider option
      \<Rightarrow> STATUS \<times> CallbacksProvider option \<times> 'h ContinuousRetryStreamCallbacks option" where
  "createContinuousRetryStreamCallbacks alloc hashCreate provider pCallbacksProvider = (case pCallbacksProvider of
     None \<Rightarrow> (STATUS_NULL_ARG, None, None)
   | Some p \<Rightarrow> (case alloc of
       None \<Rightarrow> (STATUS_NOT_ENOUGH_MEMORY, Some p, None)
     | Some self \<Rightarrow>
         if STATUS_FAILED (fst hashCreate) then (fst hashCreate, Some p, None)
         else (case addStreamCallbacks (Some p) (Some (continuousRetry_streamCallbacks self)) of (st, pp) \<Rightarrow>
           if STATUS_FAILED st then (st, pp, None)
           else (STATUS_SUCCESS, pp, Some \<lparr>cr_pCallbacksProvider = provider, cr_syncLock = 0,
                   cr_pStreamMapping = snd hashCreate, cr_heap = (\<lambda>_. None), cr_joined = []\<rparr>))))"

subsection \<open>The contract of the hash table and the allocator\<close>

text \<open>
  What the component relies on: a lookup finds what was put and not removed, and reports a missing
  key with its own status; putting a new key extends the table or fails without a change; removing
  a key that is present succeeds; the iteration meets every entry once. An allocated address is not
  NULL and not in use.
\<close>

locale hash_table =
  fixes ops :: "'h hash_ops"
    and lookup :: "'h \<Rightarrow> UINT64 \<rightharpoonup> UINT64"
    and calloc :: "heap \<Rightarrow> UINT64 option"
  assumes get_present: "lookup t k = Some v \<Longrightarrow> hashTableGet ops t k = (STATUS_SUCCESS, v)"
    and get_absent: "lookup t k = None \<Longrightarrow> fst (hashTableGet ops t k) = STATUS_HASH_KEY_NOT_PRESENT"
    and put_new: "\<lbrakk>lookup t k = None; hashTablePut ops t k v = (STATUS_SUCCESS, t')\<rbrakk> \<Longrightarrow> lookup t' = (lookup t)(k \<mapsto> v)"
    and put_failed: "\<lbrakk>hashTablePut ops t k v = (st, t'); st \<noteq> STATUS_SUCCESS\<rbrakk> \<Longrightarrow> t' = t"
    and remove_present: "lookup t k = Some v \<Longrightarrow> \<exists>t'. hashTableRemove ops t k = (STATUS_SUCCESS, t') \<and> lookup t' = (lookup t)(k := None)"
    and entries_lookup: "map_of (hashTableEntries ops t) = lookup t"
    and entries_distinct: "distinct (map fst (hashTableEntries ops t))"
    and calloc_fresh: "calloc h = Some p \<Longrightarrow> h p = None \<and> p \<noteq> 0"

text \<open>
  The invariant of the component: the table's values are exactly the objects that are allocated,
  and no object belongs to two streams.
\<close>

definition cr_inv :: "('h \<Rightarrow> UINT64 \<rightharpoonup> UINT64) \<Rightarrow> 'h ContinuousRetryStreamCallbacks \<Rightarrow> bool" where
  "cr_inv lookup s \<longleftrightarrow> cr_pCallbacksProvider s \<noteq> 0 \<and>
     inj_on (lookup (cr_pStreamMapping s)) (dom (lookup (cr_pStreamMapping s))) \<and>
     ran (lookup (cr_pStreamMapping s)) = dom (cr_heap s)"

lemma ran_remove:
  "inj_on m (dom m) \<Longrightarrow> m k = Some v \<Longrightarrow> ran (m(k := None)) = ran m - {v}"
  by (force simp: ran_def inj_on_def dom_def)

lemma unlock_lock [simp]: "unlockMutex (lockMutex s) = s"
  by (simp add: unlockMutex_def lockMutex_def)

lemma lock_frame [simp]:
  "cr_pStreamMapping (lockMutex s) = cr_pStreamMapping s" "cr_heap (lockMutex s) = cr_heap s"
  "cr_pCallbacksProvider (lockMutex s) = cr_pCallbacksProvider s" "cr_joined (lockMutex s) = cr_joined s"
  "cr_syncLock (lockMutex s) = Suc (cr_syncLock s)"
  "cr_pStreamMapping (unlockMutex s) = cr_pStreamMapping s" "cr_heap (unlockMutex s) = cr_heap s"
  "cr_pCallbacksProvider (unlockMutex s) = cr_pCallbacksProvider s" "cr_joined (unlockMutex s) = cr_joined s"
  "cr_syncLock (unlockMutex s) = cr_syncLock s - 1"
  by (simp_all add: lockMutex_def unlockMutex_def)

context hash_table
begin

lemma get_cases:
  obtains (present) v where "lookup t k = Some v" "hashTableGet ops t k = (STATUS_SUCCESS, v)"
  | (absent) v where "lookup t k = None" "hashTableGet ops t k = (STATUS_HASH_KEY_NOT_PRESENT, v)"
  using get_present get_absent by (metis not_None_eq prod.collapse)

lemma getStreamMapping_spec:
  assumes "cr_inv lookup s" and "getStreamMapping ops calloc ih (Some s) k = (st, ptr, pcr)"
  obtains (found) "st = STATUS_SUCCESS" "lookup (cr_pStreamMapping s) k = Some ptr" "pcr = Some s"
  | (failed) "st \<noteq> STATUS_SUCCESS" "lookup (cr_pStreamMapping s) k = None" "pcr = Some s"
  | (created) s' where "st = STATUS_SUCCESS" "lookup (cr_pStreamMapping s) k = None" "pcr = Some s'"
      "cr_heap s ptr = None" "ptr \<noteq> 0"
      "lookup (cr_pStreamMapping s') = (lookup (cr_pStreamMapping s))(k \<mapsto> ptr)"
      "cr_heap s' = (cr_heap s)(ptr \<mapsto> new_CallbackStateMachine ih)"
      "cr_syncLock s' = cr_syncLock s" "cr_joined s' = cr_joined s"
      "cr_pCallbacksProvider s' = cr_pCallbacksProvider s"
proof (cases rule: get_cases [of "cr_pStreamMapping s" k])
  case (present v)
  then show ?thesis using assms found by (simp add: getStreamMapping_def cr_inv_def Let_def)
next
  case (absent v)
  show ?thesis
  proof (cases "calloc (cr_heap s)")
    case None
    then show ?thesis using assms absent failed by (simp add: getStreamMapping_def cr_inv_def Let_def)
  next
    case (Some p)
    obtain ps t where put: "hashTablePut ops (cr_pStreamMapping s) k p = (ps, t)" by fastforce
    note fresh = calloc_fresh [OF Some]
    show ?thesis
    proof (cases "ps = STATUS_SUCCESS")
      case True
      then have r: "st = STATUS_SUCCESS" "ptr = p"
        "pcr = Some (unlockMutex ((lockMutex s)\<lparr>cr_heap := (cr_heap s)(p \<mapsto> new_CallbackStateMachine ih), cr_pStreamMapping := t\<rparr>))"
        using assms absent Some put by (auto simp: getStreamMapping_def cr_inv_def Let_def)
      show ?thesis
        using r created [OF r(1) absent(1) r(3)] fresh put_new [OF absent(1), of p t] put True
        by (simp add: lockMutex_def unlockMutex_def)
    next
      case False
      then have "t = cr_pStreamMapping s" using put_failed [OF put] by simp
      moreover have "(cr_heap s)(p := None) = cr_heap s" using fresh by (auto simp: fun_eq_iff)
      ultimately show ?thesis
        using assms absent Some put False failed
        by (simp add: getStreamMapping_def cr_inv_def Let_def lockMutex_def unlockMutex_def)
    qed
  qed
qed

lemma getStreamMapping_inv:
  assumes "cr_inv lookup s" and "getStreamMapping ops calloc ih (Some s) k = (st, ptr, pcr)"
  shows "\<exists>s'. pcr = Some s' \<and> cr_inv lookup s' \<and> cr_syncLock s' = cr_syncLock s \<and>
    (st = STATUS_SUCCESS \<longrightarrow> lookup (cr_pStreamMapping s') k = Some ptr \<and> ptr \<in> dom (cr_heap s'))"
  using assms
proof (cases rule: getStreamMapping_spec)
  case found
  then show ?thesis using assms(1) by (auto simp: cr_inv_def ran_def)
next
  case failed
  then show ?thesis using assms(1) by simp
next
  case (created s')
  have "ptr \<notin> ran (lookup (cr_pStreamMapping s))"
    using assms(1) created(4) by (auto simp: cr_inv_def)
  then have "inj_on (lookup (cr_pStreamMapping s')) (dom (lookup (cr_pStreamMapping s')))"
    using assms(1) created(6) by (auto simp: cr_inv_def inj_on_def ran_def dom_def)
  then show ?thesis using assms(1) created by (auto simp: cr_inv_def ran_map_upd)
qed

lemma freeStreamMapping_spec:
  assumes "cr_inv lookup s"
  shows "\<exists>s'. freeStreamMapping ops (Some s) k True = (STATUS_SUCCESS, Some s') \<and> cr_inv lookup s' \<and>
    cr_syncLock s' = cr_syncLock s \<and> lookup (cr_pStreamMapping s') = (lookup (cr_pStreamMapping s))(k := None) \<and>
    (\<forall>ptr. lookup (cr_pStreamMapping s) k = Some ptr \<longrightarrow> cr_heap s' = (cr_heap s)(ptr := None))"
proof (cases rule: get_cases [of "cr_pStreamMapping s" k])
  case (present v)
  obtain t where t: "hashTableRemove ops (cr_pStreamMapping s) k = (STATUS_SUCCESS, t)"
      "lookup t = (lookup (cr_pStreamMapping s))(k := None)"
    using remove_present [OF present(1)] by blast
  have "inj_on ((lookup (cr_pStreamMapping s))(k := None)) (dom ((lookup (cr_pStreamMapping s))(k := None)))"
    using assms by (auto simp: cr_inv_def inj_on_def dom_def)
  moreover have "ran ((lookup (cr_pStreamMapping s))(k := None)) = dom ((cr_heap s)(v := None))"
    using assms ran_remove [of "lookup (cr_pStreamMapping s)" k v] present(1) by (auto simp: cr_inv_def)
  ultimately show ?thesis
    using assms present t
    by (cases "resetTid (the (cr_heap s v))")
      (simp_all add: freeStreamMapping_def cr_inv_def lockMutex_def unlockMutex_def Let_def)
next
  case (absent v)
  then show ?thesis using assms
    by (simp add: freeStreamMapping_def cr_inv_def Let_def fun_upd_idem)
qed

text \<open>The release of the component: the objects of the entries that the iteration has passed are gone.\<close>

lemma free_entry:
  assumes "lookup (cr_pStreamMapping s) k = Some v" and "cr_pCallbacksProvider s \<noteq> 0"
  shows "\<exists>s'. removeMappingEntryCallback ops (Some s) (Some (k, v)) = (STATUS_SUCCESS, Some s') \<and>
    cr_pStreamMapping s' = cr_pStreamMapping s \<and> cr_pCallbacksProvider s' = cr_pCallbacksProvider s \<and>
    cr_heap s' = (cr_heap s)(v := None) \<and>
    cr_joined s' = cr_joined s @ (case resetTid (the (cr_heap s v)) of None \<Rightarrow> [] | Some tid \<Rightarrow> [tid])"
  using assms get_present [OF assms(1)]
  by (simp add: removeMappingEntryCallback_def freeStreamMapping_def lockMutex_def unlockMutex_def Let_def
      split: option.split)

lemma iterate_free:
  assumes "\<forall>(k, v) \<in> set es. lookup (cr_pStreamMapping s) k = Some v" and "cr_pCallbacksProvider s \<noteq> 0"
  shows "\<exists>s'. iterate_entries (\<lambda>pcr e. removeMappingEntryCallback ops pcr (Some e)) es (Some s) = (STATUS_SUCCESS, Some s') \<and>
    cr_heap s' = (\<lambda>a. if a \<in> snd ` set es then None else cr_heap s a)"
  using assms
proof (induction es arbitrary: s)
  case Nil
  then show ?case by simp
next
  case (Cons e es)
  obtain k v where e: "e = (k, v)" by fastforce
  from free_entry [of s k v] Cons.prems e obtain s1 where s1:
    "removeMappingEntryCallback ops (Some s) (Some e) = (STATUS_SUCCESS, Some s1)"
    "cr_pStreamMapping s1 = cr_pStreamMapping s" "cr_pCallbacksProvider s1 = cr_pCallbacksProvider s"
    "cr_heap s1 = (cr_heap s)(v := None)"
    by auto
  with Cons.IH [of s1] Cons.prems obtain s2 where
    "iterate_entries (\<lambda>pcr e. removeMappingEntryCallback ops pcr (Some e)) es (Some s1) = (STATUS_SUCCESS, Some s2)"
    "cr_heap s2 = (\<lambda>a. if a \<in> snd ` set es then None else cr_heap s1 a)"
    by auto
  then show ?case using s1 e by auto
qed

lemma free_releases_all:
  assumes "cr_inv lookup s"
  shows "\<exists>tids. freeContinuousRetryStreamCallbacks ops (Some (Some s)) =
    (STATUS_SUCCESS, Some None, Some (\<lambda>_. None, tids))"
proof -
  let ?es = "hashTableEntries ops (cr_pStreamMapping s)"
  have "lookup (cr_pStreamMapping s) k = Some v" if "(k, v) \<in> set ?es" for k v
    using map_of_is_SomeI [OF entries_distinct that] by (simp add: entries_lookup)
  then have "\<forall>(k, v) \<in> set ?es. lookup (cr_pStreamMapping s) k = Some v" by auto
  from iterate_free [OF this] assms obtain s' where s':
    "iterate_entries (\<lambda>pcr e. removeMappingEntryCallback ops pcr (Some e)) ?es (Some s) = (STATUS_SUCCESS, Some s')"
    "cr_heap s' = (\<lambda>a. if a \<in> snd ` set ?es then None else cr_heap s a)"
    by (auto simp: cr_inv_def)
  have "cr_heap s a = None" if "a \<notin> snd ` set ?es" for a
  proof -
    have "a \<notin> ran (lookup (cr_pStreamMapping s))"
      using that by (fastforce simp: ran_def image_iff simp flip: entries_lookup dest: map_of_SomeD)
    then show ?thesis using assms by (auto simp: cr_inv_def)
  qed
  then have "cr_heap s' = (\<lambda>_. None)" using s'(2) by auto
  then show ?thesis using s'(1) by (simp add: freeContinuousRetryStreamCallbacks_def)
qed

end

subsection \<open>Every reachable state of the component\<close>

text \<open>
  What the component relies on of the thread library: while the reset thread runs it may change its
  own object and nothing else of the component.
\<close>

definition thread_local :: "('h, 'w) cr_env \<Rightarrow> bool" where
  "thread_local env \<longleftrightarrow> (\<forall>ptr s w st tid pcr' w'.
     ptr \<in> dom (cr_heap s) \<longrightarrow> ce_threadCreate env ptr (Some s, w) = ((st, tid), (pcr', w')) \<longrightarrow>
       (\<exists>sm. pcr' = put_object ptr sm (Some s)))"

text \<open>
  A state machine handler returns an object when it is given one.
\<close>

lemma machine_returns_object:
  "\<exists>st sm' w'. streamLatencyStateMachineHandleStreamLatency env h (Some sm) w = (st, Some sm', w')"
  "\<exists>st sm' w'. connectionStaleStateMachineHandleConnectionStale env h (Some sm) w = (st, Some sm', w')"
  by (auto simp: streamLatencyStateMachineHandleStreamLatency_def connectionStaleStateMachineHandleConnectionStale_def
      Let_def retry_defs split: prod.splits STREAM_CALLBACK_HANDLING_STATE.split)

inductive cr_step :: "('h, 'w) cr_env \<Rightarrow> ('h, 'w) cr_world \<Rightarrow> ('h, 'w) cr_world \<Rightarrow> bool" for env where
  stale: "continuousRetryStreamConnectionStaleHandler env h ack cw = (st, cw') \<Longrightarrow> cr_step env cw cw'"
| latency: "continuousRetryStreamLatencyPressureHandler env h d cw = (st, cw') \<Longrightarrow> cr_step env cw cw'"
| ready: "continuousRetryStreamReadyHandler env h cw = (st, cw') \<Longrightarrow> cr_step env cw cw'"
| shutdown: "continuousRetryStreamShutdownHandler env h restart cw = (st, cw') \<Longrightarrow> cr_step env cw cw'"
| closed: "continuousRetryStreamClosedHandler env h u cw = (st, cw') \<Longrightarrow> cr_step env cw cw'"
| error: "continuousRetryStreamErrorReportHandler env h u t e cw = (st, cw') \<Longrightarrow> cr_step env cw cw'"

definition cr_ok :: "('h \<Rightarrow> UINT64 \<rightharpoonup> UINT64) \<Rightarrow> ('h, 'w) cr_world \<Rightarrow> bool" where
  "cr_ok lookup cw \<longleftrightarrow> (\<exists>s. fst cw = Some s \<and> cr_inv lookup s \<and> cr_syncLock s = 0)"

lemma put_object_ok:
  assumes "cr_inv lookup s" and "ptr \<in> dom (cr_heap s)"
  shows "\<exists>s'. put_object ptr sm (Some s) = Some s' \<and> cr_inv lookup s' \<and> cr_syncLock s' = cr_syncLock s \<and>
    dom (cr_heap s') = dom (cr_heap s)"
  using assms by (auto simp: put_object_def cr_inv_def)

lemma lock_inv [simp]: "cr_inv lookup (lockMutex s) = cr_inv lookup s" "cr_inv lookup (unlockMutex s) = cr_inv lookup s"
  by (simp_all add: cr_inv_def)

context hash_table
begin

lemma on_stream_mapping_ok:
  assumes env: "ce_hash env = ops" "ce_calloc env = calloc"
    and "cr_ok lookup cw" and "on_stream_mapping env machine h cw = (st, cw')"
    and machine: "\<And>sm w. \<exists>st sm' w'. machine (ce_retry env) h (Some sm) w = (st, Some sm', w')"
  shows "cr_ok lookup cw'"
proof -
  obtain s w where cw: "cw = (Some s, w)" "cr_inv lookup s" "cr_syncLock s = 0"
    using assms(3) by (cases cw) (auto simp: cr_ok_def)
  obtain st1 ptr pcr1 where g: "getStreamMapping ops calloc (ce_invalidHandle env) (Some s) h = (st1, ptr, pcr1)"
    by (metis prod_cases3)
  obtain s1 where s1: "pcr1 = Some s1" "cr_inv lookup s1" "cr_syncLock s1 = 0"
      "st1 = STATUS_SUCCESS \<Longrightarrow> ptr \<in> dom (cr_heap s1)"
    using getStreamMapping_inv [OF cw(2) g] cw(3) by auto
  show ?thesis
  proof (cases "st1 = STATUS_SUCCESS")
    case False
    then show ?thesis using assms(4) g cw(1) s1 env by (auto simp: on_stream_mapping_def cr_ok_def)
  next
    case True
    obtain sm where sm: "cr_heap s1 ptr = Some sm" using s1(4) [OF True] by auto
    obtain st2 sm' w2 where m: "machine (ce_retry env) h (Some sm) w = (st2, Some sm', w2)"
      using machine by blast
    have "cw' = (put_object ptr sm' (Some s1), w2)"
      using assms(4) g cw(1) s1(1) env True sm m by (simp add: on_stream_mapping_def get_object_def)
    then show ?thesis using put_object_ok [OF s1(2) s1(4) [OF True], of sm'] s1(3) by (auto simp: cr_ok_def)
  qed
qed

lemma free_ok:
  assumes "ce_hash env = ops" and "cr_ok lookup cw"
    and "freeStreamMapping (ce_hash env) (fst cw) h True = (st, pcr)"
  shows "cr_ok lookup (pcr, w)"
proof -
  obtain s where s: "fst cw = Some s" "cr_inv lookup s" "cr_syncLock s = 0" using assms(2) by (auto simp: cr_ok_def)
  show ?thesis using freeStreamMapping_spec [OF s(2), of h] assms(1,3) s by (auto simp: cr_ok_def)
qed

lemma error_report_ok:
  assumes env: "ce_hash env = ops" "ce_calloc env = calloc" "thread_local env"
    and "cr_ok lookup cw" and "continuousRetryStreamErrorReportHandler env h u t e cw = (st, cw')"
  shows "cr_ok lookup cw'"
proof -
  obtain s w where cw: "cw = (Some s, w)" "cr_inv lookup s" "cr_syncLock s = 0"
    using assms(4) by (cases cw) (auto simp: cr_ok_def)
  obtain st1 ptr pcr1 where g: "getStreamMapping ops calloc (ce_invalidHandle env) (Some s) h = (st1, ptr, pcr1)"
    by (metis prod_cases3)
  obtain s1 where s1: "pcr1 = Some s1" "cr_inv lookup s1" "cr_syncLock s1 = 0"
      "st1 = STATUS_SUCCESS \<Longrightarrow> ptr \<in> dom (cr_heap s1)"
    using getStreamMapping_inv [OF cw(2) g] cw(3) by auto
  show ?thesis
  proof (cases "cw' = cw \<or> cw' = (Some s1, w)")
    case True
    then show ?thesis using assms(4) s1 by (auto simp: cr_ok_def)
  next
    case False
    let ?sm = "the (cr_heap s1 ptr)"
    let ?sm1 = "?sm\<lparr>sm_streamHandle := h, sm_uploadHandle := u, sm_erroredTimecode := t\<rparr>"
    let ?pcr3 = "put_object ptr ?sm1 (Some (lockMutex s1))"
    obtain cs tid pcr4 w4 where c: "ce_threadCreate env ptr (?pcr3, w) = ((cs, tid), (pcr4, w4))"
      by (metis surj_pair)
    have st1: "st1 = STATUS_SUCCESS" and r: "fst cw' = map_option unlockMutex (if STATUS_FAILED cs then pcr4 else
            put_object ptr ((the (get_object ptr pcr4))\<lparr>resetTid := Some tid\<rparr>) pcr4)"
      using False assms(5) g cw(1) s1(1) env(1,2) c
      by (auto simp: continuousRetryStreamErrorReportHandler_def Let_def get_object_def split: if_splits)
    have dom1: "ptr \<in> dom (cr_heap (lockMutex s1))" using s1(4) [OF st1] by simp
    obtain s3 where s3: "?pcr3 = Some s3" "cr_inv lookup s3" "cr_syncLock s3 = 1" "ptr \<in> dom (cr_heap s3)"
      using put_object_ok [of lookup "lockMutex s1" ptr ?sm1] s1(2,3) dom1 by auto
    obtain sm4 where "pcr4 = put_object ptr sm4 (Some s3)"
      using env(3) s3(1,4) c unfolding thread_local_def by metis
    then obtain s4 where s4: "pcr4 = Some s4" "cr_inv lookup s4" "cr_syncLock s4 = 1" "ptr \<in> dom (cr_heap s4)"
      using put_object_ok [OF s3(2,4), of sm4] s3(3,4) by auto
    show ?thesis
      using r s4 put_object_ok [OF s4(2,4), of "(the (get_object ptr (Some s4)))\<lparr>resetTid := Some tid\<rparr>"]
      by (auto simp: cr_ok_def split: if_splits)
  qed
qed

lemma cr_step_ok:
  assumes env: "ce_hash env = ops" "ce_calloc env = calloc" "thread_local env"
    and "cr_step env cw cw'" and "cr_ok lookup cw"
  shows "cr_ok lookup cw'"
  using assms(4)
proof cases
  case (stale h ack st)
  note run = stale [unfolded continuousRetryStreamConnectionStaleHandler_def]
  show ?thesis by (rule on_stream_mapping_ok [OF env(1,2) assms(5) run machine_returns_object(2)])
next
  case (latency h d st)
  note run = latency [unfolded continuousRetryStreamLatencyPressureHandler_def]
  show ?thesis by (rule on_stream_mapping_ok [OF env(1,2) assms(5) run machine_returns_object(1)])
next
  case (ready h st)
  note run = ready [unfolded continuousRetryStreamReadyHandler_def]
  show ?thesis by (rule on_stream_mapping_ok [OF env(1,2) assms(5) run]) simp
next
  case (shutdown h restart st)
  then show ?thesis
    using free_ok [OF env(1) assms(5)] assms(5)
    by (auto simp: continuousRetryStreamShutdownHandler_def split: if_splits prod.splits)
next
  case (closed h u st)
  then show ?thesis
    using free_ok [OF env(1) assms(5)]
    by (auto simp: continuousRetryStreamClosedHandler_def split: prod.splits)
next
  case (error h u t e st)
  then show ?thesis using error_report_ok [OF env assms(5)] by blast
qed

lemma reachable_ok:
  assumes "ce_hash env = ops" "ce_calloc env = calloc" "thread_local env"
    and "(cr_step env)\<^sup>*\<^sup>* cw cw'" and "cr_ok lookup cw"
  shows "cr_ok lookup cw'"
  using assms(4,5) by (induction rule: rtranclp_induct) (auto intro: cr_step_ok [OF assms(1-3)])

end

subsection \<open>Streams do not interfere\<close>

definition stream_object :: "('h \<Rightarrow> UINT64 \<rightharpoonup> UINT64) \<Rightarrow> ('h, 'w) cr_world \<Rightarrow> STREAM_HANDLE \<Rightarrow> CallbackStateMachine option" where
  "stream_object lookup cw h = (case fst cw of None \<Rightarrow> None
     | Some s \<Rightarrow> (case lookup (cr_pStreamMapping s) h of None \<Rightarrow> None | Some ptr \<Rightarrow> cr_heap s ptr))"

lemma cr_inv_inj:
  "\<lbrakk>cr_inv lookup s; lookup (cr_pStreamMapping s) h = Some v; lookup (cr_pStreamMapping s) h' = Some v\<rbrakk> \<Longrightarrow> h = h'"
  unfolding cr_inv_def by (metis domI inj_onD)

context hash_table
begin

lemma getStreamMapping_frame:
  assumes "cr_inv lookup s" and "getStreamMapping ops calloc ih (Some s) h = (st, ptr, Some s1)" and "h' \<noteq> h"
  shows "lookup (cr_pStreamMapping s1) h' = lookup (cr_pStreamMapping s) h'"
    and "lookup (cr_pStreamMapping s) h' = Some p \<Longrightarrow> cr_heap s1 p = cr_heap s p"
    and "st = STATUS_SUCCESS \<Longrightarrow> lookup (cr_pStreamMapping s) h' \<noteq> Some ptr"
proof -
  note inv = assms(1) [unfolded cr_inv_def]
  have used: "p \<in> dom (cr_heap s)" if "lookup (cr_pStreamMapping s) h' = Some p" for p
    using that inv by (auto simp: ran_def)
  show "lookup (cr_pStreamMapping s1) h' = lookup (cr_pStreamMapping s) h'"
    using assms(1,2) by (cases rule: getStreamMapping_spec) (use assms(3) in auto)
  show "cr_heap s1 p = cr_heap s p" if "lookup (cr_pStreamMapping s) h' = Some p"
    using assms(1,2) by (cases rule: getStreamMapping_spec) (use used [OF that] in auto)
  show "lookup (cr_pStreamMapping s) h' \<noteq> Some ptr" if "st = STATUS_SUCCESS"
    using assms(1,2)
  proof (cases rule: getStreamMapping_spec)
    case found
    then show ?thesis using assms(3) cr_inv_inj [OF assms(1)] by blast
  qed (use used that in auto)
qed

lemma on_stream_mapping_frame:
  assumes "ce_hash env = ops" "ce_calloc env = calloc" "cr_ok lookup cw"
    and "on_stream_mapping env machine h cw = (st, cw')" and "h' \<noteq> h"
  shows "stream_object lookup cw' h' = stream_object lookup cw h'"
proof -
  obtain s w where cw: "cw = (Some s, w)" "cr_inv lookup s" using assms(3) by (cases cw) (auto simp: cr_ok_def)
  obtain st1 ptr pcr1 where g: "getStreamMapping ops calloc (ce_invalidHandle env) (Some s) h = (st1, ptr, pcr1)"
    by (metis prod_cases3)
  then obtain s1 where s1: "pcr1 = Some s1" using getStreamMapping_inv [OF cw(2)] by blast
  note fr = getStreamMapping_frame [OF cw(2) g [unfolded s1] assms(5)]
  have same: "stream_object lookup (Some s1, w') h' = stream_object lookup cw h'" for w'
    using fr(1,2) cw(1) by (auto simp: stream_object_def split: option.splits)
  obtain st2 psm w2 where m: "machine (ce_retry env) h (get_object ptr (Some s1)) w = (st2, psm, w2)"
    by (metis prod_cases3)
  show ?thesis
  proof (cases "st1 = STATUS_SUCCESS")
    case True
    have "cw' = (case psm of None \<Rightarrow> Some s1 | Some sm \<Rightarrow> put_object ptr sm (Some s1), w2)"
      using assms(1,2,4) g cw(1) s1 m True by (simp add: on_stream_mapping_def)
    then show ?thesis
      using same [of w2] fr(1) fr(3) [OF True]
      by (auto simp: stream_object_def put_object_def split: option.splits)
  next
    case False
    then show ?thesis using assms(1,2,4) g cw(1) s1 same by (auto simp: on_stream_mapping_def)
  qed
qed

lemma freeStreamMapping_frame:
  assumes "cr_inv lookup s" and "freeStreamMapping ops (Some s) h True = (st, pcr)" and "h' \<noteq> h"
  shows "stream_object lookup (pcr, w') h' = stream_object lookup (Some s, w) h'"
proof -
  obtain s' where s': "freeStreamMapping ops (Some s) h True = (STATUS_SUCCESS, Some s')"
      "lookup (cr_pStreamMapping s') = (lookup (cr_pStreamMapping s))(h := None)"
      "\<forall>ptr. lookup (cr_pStreamMapping s) h = Some ptr \<longrightarrow> cr_heap s' = (cr_heap s)(ptr := None)"
    using freeStreamMapping_spec [OF assms(1), of h] by blast
  show ?thesis
  proof (cases rule: get_cases [of "cr_pStreamMapping s" h])
    case (present v)
    then have "lookup (cr_pStreamMapping s) h' \<noteq> Some v"
      using assms(3) cr_inv_inj [OF assms(1)] by blast
    then show ?thesis
      using assms(2,3) s' present by (auto simp: stream_object_def split: option.splits)
  next
    case (absent v)
    then have "s' = s" using s'(1) assms(1) by (simp add: freeStreamMapping_def cr_inv_def Let_def)
    then show ?thesis using assms(2) s'(1) by (simp add: stream_object_def)
  qed
qed

end

subsection \<open>A concrete table\<close>

text \<open>
  An association list meets the contract of the hash table, and taking the first unused of a hundred
  addresses meets that of the allocator.
\<close>

definition alist_ops :: "(UINT64 \<times> UINT64) list hash_ops" where
  "alist_ops = \<lparr>hashTableGet = (\<lambda>t k. case map_of t k of None \<Rightarrow> (STATUS_HASH_KEY_NOT_PRESENT, 0) | Some v \<Rightarrow> (STATUS_SUCCESS, v)),
     hashTablePut = (\<lambda>t k v. (STATUS_SUCCESS, AList.update k v t)),
     hashTableRemove = (\<lambda>t k. (STATUS_SUCCESS, AList.delete k t)),
     hashTableEntries = AList.clearjunk\<rparr>"

definition first_free :: "heap \<Rightarrow> UINT64 option" where
  "first_free h = List.find (\<lambda>p. h p = None) (map of_nat [1..<101])"

lemma first_free_fresh: "first_free h = Some p \<Longrightarrow> h p = None \<and> p \<noteq> 0"
proof -
  assume a: "first_free h = Some p"
  then obtain i where "i < length (map (of_nat :: nat \<Rightarrow> UINT64) [1..<101])" "p = map of_nat [1..<101] ! i" "h p = None"
    unfolding first_free_def by (auto simp: find_Some_iff)
  then have "p = of_nat (Suc i)" "Suc i < 101" "h p = None" by auto
  then show "h p = None \<and> p \<noteq> 0" by (auto simp: word_of_nat_eq_0_iff dest: dvd_imp_le simp del: of_nat_Suc)
qed

interpretation alist_table: hash_table alist_ops map_of first_free
  by unfold_locales
    (auto simp: alist_ops_def update_conv delete_conv map_of_clearjunk distinct_clearjunk fun_eq_iff
      dest: first_free_fresh)

definition idle_env :: "((UINT64 \<times> UINT64) list, nat) cr_env" where
  "idle_env = \<lparr>ce_hash = alist_ops, ce_calloc = first_free, ce_invalidHandle = 0,
     ce_retry = \<lparr>env_getCurrentTime = (\<lambda>w. (0, w)), env_resetConnection = (\<lambda>h w. (STATUS_SUCCESS, w)),
       env_hundredsOfNanosInASecond = 1\<rparr>,
     ce_isRecoverable = (\<lambda>_. False), ce_isRetriable = (\<lambda>_. True),
     ce_threadCreate = (\<lambda>ptr (pcr, w). ((STATUS_SUCCESS, 1), (pcr, w))),
     ce_getStreamInfo = (\<lambda>h w. ((STATUS_SUCCESS, False), w)), ce_resetStream = (\<lambda>h w. (STATUS_SUCCESS, Suc w)),
     ce_streamErrorReport = (\<lambda>h u t e w. w)\<rparr>"

definition sample_retry :: "(UINT64 \<times> UINT64) list ContinuousRetryStreamCallbacks" where
  "sample_retry = \<lparr>cr_pCallbacksProvider = 4096, cr_syncLock = 0, cr_pStreamMapping = [],
     cr_heap = (\<lambda>_. None), cr_joined = []\<rparr>"

lemma sample_create:
  "createContinuousRetryStreamCallbacks (Some 9) (STATUS_SUCCESS, []) 4096
     (Some sample_provider) =
   (STATUS_SUCCESS, snd (addStreamCallbacks (Some sample_provider) (Some (continuousRetry_streamCallbacks 9))), Some sample_retry)"
  by code_simp

lemma idle_env_simps [simp]: "ce_hash idle_env = alist_ops" "ce_calloc idle_env = first_free"
  by (simp_all add: idle_env_def)

lemma idle_thread: "\<exists>tid w'. ce_threadCreate idle_env ptr (pcr, w) = ((STATUS_SUCCESS, tid), (pcr, w'))"
  by (simp add: idle_env_def)

lemma idle_thread_local: "thread_local idle_env"
proof -
  have "\<exists>sm. Some s = put_object ptr sm (Some s)" if "cr_heap s ptr = Some y"
    for ptr y and s :: "(UINT64 \<times> UINT64) list ContinuousRetryStreamCallbacks"
    using that by (intro exI [of _ y]) (simp add: put_object_def fun_upd_idem)
  then show ?thesis unfolding thread_local_def idle_env_def by auto
qed

subsection \<open>Properties\<close>

context hash_table
begin

lemma error_report_ignored:
  assumes "ce_hash env = ops" "ce_calloc env = calloc" "cr_inv lookup s"
    and "lookup (cr_pStreamMapping s) h = Some ptr" "cr_heap s ptr = Some sm" "resetTid sm \<noteq> None"
  shows "continuousRetryStreamErrorReportHandler env h u t e (Some s, w) = (STATUS_SUCCESS, (Some s, w))"
proof -
  have "getStreamMapping ops calloc (ce_invalidHandle env) (Some s) h = (STATUS_SUCCESS, ptr, Some s)"
    using get_present [OF assms(4)] assms(3) by (simp add: getStreamMapping_def cr_inv_def Let_def)
  then show ?thesis
    using assms by (simp add: continuousRetryStreamErrorReportHandler_def cr_inv_def Let_def get_object_def)
qed

lemma error_report_starts:
  assumes env: "ce_hash env = ops" "ce_calloc env = calloc" and "cr_ok lookup cw"
    and retriable: "IS_RETRIABLE_PRODUCER_ERROR e \<or> IS_RETRIABLE_COMMON_LIB_ERROR e"
    and thread: "\<And>ptr pcr w. \<exists>tid w'. ce_threadCreate env ptr (pcr, w) = ((STATUS_SUCCESS, tid), (pcr, w'))"
    and run: "continuousRetryStreamErrorReportHandler env h u t e cw = (STATUS_SUCCESS, cw1)"
  obtains s1 w1 ptr sm where "cw1 = (Some s1, w1)" "cr_inv lookup s1" "lookup (cr_pStreamMapping s1) h = Some ptr"
    "cr_heap s1 ptr = Some sm" "resetTid sm \<noteq> None"
proof -
  obtain s w where cw: "cw = (Some s, w)" "cr_inv lookup s" using assms(3) by (cases cw) (auto simp: cr_ok_def)
  obtain st1 ptr pcr1 where g: "getStreamMapping ops calloc (ce_invalidHandle env) (Some s) h = (st1, ptr, pcr1)"
    by (metis prod_cases3)
  have e: "e \<noteq> STATUS_CONTINUOUS_RETRY_RESET_FAILED"
    using retriable by (auto simp: IS_RETRIABLE_PRODUCER_ERROR_def IS_RETRIABLE_COMMON_LIB_ERROR_def)
  have st1: "st1 = STATUS_SUCCESS"
    using run g cw env e retriable by (auto simp: continuousRetryStreamErrorReportHandler_def cr_inv_def split: if_splits)
  then obtain s1 sm where s1: "pcr1 = Some s1" "cr_inv lookup s1"
      "lookup (cr_pStreamMapping s1) h = Some ptr" "cr_heap s1 ptr = Some sm"
    using getStreamMapping_inv [OF cw(2) g] by auto
  let ?sm = "sm\<lparr>sm_streamHandle := h, sm_uploadHandle := u, sm_erroredTimecode := t\<rparr>"
  let ?s3 = "(lockMutex s1)\<lparr>cr_heap := (cr_heap s1)(ptr \<mapsto> ?sm)\<rparr>"
  obtain tid w' where c: "ce_threadCreate env ptr (Some ?s3, w) = ((STATUS_SUCCESS, tid), (Some ?s3, w'))"
    using thread by blast
  show ?thesis
  proof (cases "resetTid sm")
    case None
    have c1: "cw1 = (Some (unlockMutex (?s3\<lparr>cr_heap := (cr_heap s1)(ptr \<mapsto> ?sm\<lparr>resetTid := Some tid\<rparr>)\<rparr>)), w')"
      using run g cw env e retriable st1 s1(1,4) None c
      by (simp add: continuousRetryStreamErrorReportHandler_def cr_inv_def Let_def get_object_def put_object_def)
    show ?thesis by (rule that [OF c1]) (use s1(2,3,4) in \<open>auto simp: cr_inv_def\<close>)
  next
    case (Some tid0)
    have "cw1 = (Some s1, w)"
      using run g cw env e retriable st1 s1(1,4) Some
      by (auto simp: continuousRetryStreamErrorReportHandler_def cr_inv_def Let_def get_object_def)
    then show ?thesis using s1 Some that by simp
  qed
qed

end

lemma created_ok:
  assumes "createContinuousRetryStreamCallbacks alloc (STATUS_SUCCESS, t) provider pp = (STATUS_SUCCESS, pp', Some s)"
    and "provider \<noteq> 0" and "lookup t = Map.empty"
  shows "cr_ok lookup (Some s, w)"
  using assms
  by (auto simp: createContinuousRetryStreamCallbacks_def cr_ok_def cr_inv_def split: option.splits prod.splits if_splits)

text \<open>
  C6: after the component was created, in every state that any sequence of stream callbacks leads
  to, the table's values are exactly the objects that are allocated, each for one stream, the lock
  is not held, and releasing the component succeeds, frees every object and sets the pointer to
  NULL. The hash table and the allocator are assumed to behave as documented, and the reset thread
  to change no object but its own.
\<close>

theorem continuous_retry_reachable:
  assumes "hash_table (ce_hash env) lookup (ce_calloc env)" and "thread_local env"
    and "createContinuousRetryStreamCallbacks alloc (STATUS_SUCCESS, t) provider pp = (STATUS_SUCCESS, pp', Some s)"
    and "provider \<noteq> 0" and "lookup t = Map.empty"
    and "(cr_step env)\<^sup>*\<^sup>* (Some s, w) (pcr', w')"
  shows "\<exists>s' tids. pcr' = Some s' \<and> cr_inv lookup s' \<and> cr_syncLock s' = 0 \<and>
    freeContinuousRetryStreamCallbacks (ce_hash env) (Some pcr') = (STATUS_SUCCESS, Some None, Some (\<lambda>_. None, tids))"
proof -
  have "cr_ok lookup (pcr', w')"
    by (rule hash_table.reachable_ok [OF assms(1) refl refl assms(2,6) created_ok [of alloc t provider pp pp' s lookup, OF assms(3-5)]])
  then show ?thesis using hash_table.free_releases_all [OF assms(1)] by (auto simp: cr_ok_def)
qed

theorem continuous_retry_reachable_witness:
  "\<exists>s' tids. fst (snd (continuousRetryStreamReadyHandler idle_env 5 (Some sample_retry, 0))) = Some s' \<and>
    cr_inv map_of s' \<and> cr_syncLock s' = 0 \<and>
    freeContinuousRetryStreamCallbacks alist_ops (Some (fst (snd (continuousRetryStreamReadyHandler idle_env 5 (Some sample_retry, 0))))) =
      (STATUS_SUCCESS, Some None, Some (\<lambda>_. None, tids))"
proof -
  let ?r = "continuousRetryStreamReadyHandler idle_env 5 (Some sample_retry, 0)"
  have "cr_step idle_env (Some sample_retry, 0) (fst (snd ?r), snd (snd ?r))"
    by (rule cr_step.ready [where h = 5 and st = "fst ?r"]) simp
  then have "(cr_step idle_env)\<^sup>*\<^sup>* (Some sample_retry, 0) (fst (snd ?r), snd (snd ?r))" by blast
  from continuous_retry_reachable [OF _ idle_thread_local sample_create _ _ this, of map_of] show ?thesis
    using alist_table.hash_table_axioms by simp
qed

text \<open>
  C18: the callbacks of one stream do not touch another: a staleness, latency, ready or closed
  callback leaves the state machines of every other stream as they were.
\<close>

theorem continuous_retry_streams_independent:
  assumes "hash_table (ce_hash env) lookup (ce_calloc env)" and "cr_ok lookup cw" and "h' \<noteq> h"
  shows "stream_object lookup (snd (continuousRetryStreamConnectionStaleHandler env h ack cw)) h' = stream_object lookup cw h' \<and>
    stream_object lookup (snd (continuousRetryStreamLatencyPressureHandler env h d cw)) h' = stream_object lookup cw h' \<and>
    stream_object lookup (snd (continuousRetryStreamReadyHandler env h cw)) h' = stream_object lookup cw h' \<and>
    stream_object lookup (snd (continuousRetryStreamClosedHandler env h u cw)) h' = stream_object lookup cw h'"
proof -
  have m: "stream_object lookup (snd (on_stream_mapping env machine h cw)) h' = stream_object lookup cw h'" for machine
    by (rule hash_table.on_stream_mapping_frame [OF assms(1) refl refl assms(2) prod.collapse [symmetric] assms(3)])
  obtain s w where cw: "cw = (Some s, w)" "cr_inv lookup s" using assms(2) by (cases cw) (auto simp: cr_ok_def)
  obtain st pcr where f: "freeStreamMapping (ce_hash env) (Some s) h True = (st, pcr)" by fastforce
  have "stream_object lookup (pcr, w) h' = stream_object lookup (Some s, w) h'"
    by (rule hash_table.freeStreamMapping_frame [OF assms(1) cw(2) f assms(3)])
  then show ?thesis
    using m f cw(1)
    by (simp add: continuousRetryStreamConnectionStaleHandler_def continuousRetryStreamLatencyPressureHandler_def
        continuousRetryStreamReadyHandler_def continuousRetryStreamClosedHandler_def)
qed

lemma sample_retry_ok: "cr_ok map_of (Some sample_retry, w)"
  by (simp add: cr_ok_def cr_inv_def sample_retry_def)

theorem continuous_retry_streams_independent_witness:
  "stream_object map_of (snd (continuousRetryStreamReadyHandler idle_env 5 (Some sample_retry, 0))) 6 = None"
proof -
  have "stream_object map_of (snd (continuousRetryStreamReadyHandler idle_env 5 (Some sample_retry, 0))) 6 =
      stream_object map_of (Some sample_retry, 0 :: nat) 6"
    using continuous_retry_streams_independent [where env = idle_env and h' = 6 and h = 5, OF _ sample_retry_ok]
      alist_table.hash_table_axioms by simp
  then show ?thesis by (simp add: stream_object_def sample_retry_def)
qed

text \<open>
  C19: as long as the reset thread has not run, a stream has at most one: after an error report that
  the component retries, every further error report for the stream succeeds without starting a
  thread or changing anything.
\<close>

theorem error_report_single_reset:
  assumes "hash_table (ce_hash env) lookup (ce_calloc env)" and "cr_ok lookup cw"
    and "IS_RETRIABLE_PRODUCER_ERROR e \<or> IS_RETRIABLE_COMMON_LIB_ERROR e"
    and "\<And>ptr pcr w. \<exists>tid w'. ce_threadCreate env ptr (pcr, w) = ((STATUS_SUCCESS, tid), (pcr, w'))"
    and "continuousRetryStreamErrorReportHandler env h u t e cw = (STATUS_SUCCESS, cw1)"
  shows "continuousRetryStreamErrorReportHandler env h u2 t2 e2 cw1 = (STATUS_SUCCESS, cw1)"
proof -
  obtain s1 w1 ptr sm where "cw1 = (Some s1, w1)" "cr_inv lookup s1" "lookup (cr_pStreamMapping s1) h = Some ptr"
      "cr_heap s1 ptr = Some sm" "resetTid sm \<noteq> None"
    by (rule hash_table.error_report_starts [OF assms(1) refl refl assms(2-5)]) blast
  then show ?thesis using hash_table.error_report_ignored [OF assms(1) refl refl] by simp
qed

lemma sample_error_report:
  "continuousRetryStreamErrorReportHandler idle_env 5 0 0 STATUS_CURL_INIT_FAILED (Some sample_retry, 0) =
     (STATUS_SUCCESS, snd (continuousRetryStreamErrorReportHandler idle_env 5 0 0 STATUS_CURL_INIT_FAILED (Some sample_retry, 0)))"
proof (rule prod_eqI)
  show "fst (continuousRetryStreamErrorReportHandler idle_env 5 0 0 STATUS_CURL_INIT_FAILED (Some sample_retry, 0)) =
    fst (STATUS_SUCCESS, snd (continuousRetryStreamErrorReportHandler idle_env 5 0 0 STATUS_CURL_INIT_FAILED (Some sample_retry, 0)))"
    by code_simp
qed simp

theorem error_report_single_reset_witness:
  "let cw1 = snd (continuousRetryStreamErrorReportHandler idle_env 5 0 0 STATUS_CURL_INIT_FAILED (Some sample_retry, 0)) in
   continuousRetryStreamErrorReportHandler idle_env 5 0 0 STATUS_CURL_INIT_FAILED cw1 = (STATUS_SUCCESS, cw1)"
  using error_report_single_reset [where lookup = map_of and env = idle_env, OF _ sample_retry_ok _ idle_thread sample_error_report]
    alist_table.hash_table_axioms
  by (simp add: IS_RETRIABLE_COMMON_LIB_ERROR_def)

definition eager_env :: "((UINT64 \<times> UINT64) list, nat) cr_env" where
  "eager_env = idle_env\<lparr>ce_threadCreate := (\<lambda>ptr cw.
     ((STATUS_SUCCESS, 1), snd (continuousRetryStreamRestartHandler idle_env ptr cw)))\<rparr>"

text \<open>
  The reset thread clears \<open>resetTid\<close> when it ends, but the thread that started it stores the new
  thread's id only after \<open>THREAD_CREATE\<close> has returned. On the schedule where the new thread runs to
  its end first, the id of the ended thread stays in the object, and in this run the next error report
  for the stream resets nothing: one reset for two errors.
\<close>

lemma reset_thread_race:
  "case continuousRetryStreamErrorReportHandler eager_env 5 0 0 STATUS_CURL_INIT_FAILED (Some sample_retry, 0) of
     (st1, cw1) \<Rightarrow> (case continuousRetryStreamErrorReportHandler eager_env 5 0 0 STATUS_CURL_INIT_FAILED cw1 of
       (st2, cw2) \<Rightarrow> st1 = STATUS_SUCCESS \<and> snd cw1 = 1 \<and>
         map_option resetTid (stream_object map_of cw1 5) = Some (Some 1) \<and>
         st2 = STATUS_SUCCESS \<and> snd cw2 = 1)"
  by code_simp

end
