(* ===== verification/C_Strings.thy ===== *)
theory C_Strings
  imports KVS_Prelude "HOL-Library.List_Lexorder"
begin

text \<open>
  The C string functions the sources use. A C string is the list of its characters up to the
  terminator; a pointer into a string is an index. \<open>STRCMP\<close> and \<open>STRCMPI\<close> are the comparisons of the
  C library, of which only the sign is specified: characters compare as unsigned bytes, a proper
  prefix is smaller, and letters fold as in the C locale.
\<close>

definition code :: "char \<Rightarrow> nat" where
  "code c = of_char c"

lemma code_inj [simp]: "code a = code b \<longleftrightarrow> a = b"
  by (simp add: code_def)

lemma code_bound: "code c < 256"
  by (simp add: code_def)

definition tolower :: "char \<Rightarrow> char" where
  "tolower c = (if 65 \<le> code c \<and> code c \<le> 90 then char_of (code c + 32) else c)"

lemma tolower_idem [simp]: "tolower (tolower c) = tolower c"
  by (auto simp: tolower_def code_def)

fun STRCMP :: "string \<Rightarrow> string \<Rightarrow> int" where
  "STRCMP [] [] = 0"
| "STRCMP [] (b # bs) = - (int (code b) + 1)"
| "STRCMP (a # as) [] = int (code a) + 1"
| "STRCMP (a # as) (b # bs) = (if a = b then STRCMP as bs else int (code a) - int (code b))"

definition STRCMPI :: "string \<Rightarrow> string \<Rightarrow> int" where
  "STRCMPI a b = STRCMP (map tolower a) (map tolower b)"

lemma STRCMP_eq: "STRCMP a b = 0 \<longleftrightarrow> a = b"
  by (induction a b rule: STRCMP.induct) auto

lemma STRCMP_le: "STRCMP a b \<le> 0 \<longleftrightarrow> map code a \<le> map code b"
  by (induction a b rule: STRCMP.induct) (auto simp: less_le)

lemma STRCMP_less: "STRCMP a b < 0 \<longleftrightarrow> map code a < map code b"
  by (induction a b rule: STRCMP.induct) auto

lemma STRCMP_refl [simp]: "STRCMP a a = 0"
  by (simp add: STRCMP_eq)

text \<open>The key by which two header names compare without case.\<close>

definition fold_key :: "string \<Rightarrow> nat list" where
  "fold_key s = map (code \<circ> tolower) s"

lemma STRCMPI_le: "STRCMPI a b \<le> 0 \<longleftrightarrow> fold_key a \<le> fold_key b"
  by (simp add: STRCMPI_def STRCMP_le fold_key_def)

lemma STRCMPI_gt: "STRCMPI a b > 0 \<longleftrightarrow> fold_key b < fold_key a"
  using STRCMPI_le [of a b] by (auto simp: not_le [symmetric])

lemma STRCMPI_eq: "STRCMPI a b = 0 \<longleftrightarrow> fold_key a = fold_key b"
proof -
  have "map tolower a = map tolower b \<longleftrightarrow> map code (map tolower a) = map code (map tolower b)"
    by (metis code_inj list.inj_map_strong)
  then show ?thesis by (simp add: STRCMPI_def STRCMP_eq fold_key_def)
qed

text \<open>\<open>STRSTR\<close>: the first index at which the second string occurs in the first.\<close>

fun STRSTR :: "string \<Rightarrow> string \<Rightarrow> nat option" where
  "STRSTR [] t = (if t = [] then Some 0 else None)"
| "STRSTR (c # s) t = (if take (length t) (c # s) = t then Some 0 else map_option Suc (STRSTR s t))"

lemma STRSTR_Some:
  "STRSTR s t = Some i \<Longrightarrow> i + length t \<le> length s \<and> take (length t) (drop i s) = t"
proof (induction s t arbitrary: i rule: STRSTR.induct)
  case (2 c s t)
  show ?case
  proof (cases "take (length t) (c # s) = t")
    case True
    have "length (take (length t) (c # s)) = length t" by (simp only: True)
    then have "length t \<le> length (c # s)" by (metis length_take min.absorb_iff2)
    with 2(2) True show ?thesis by auto
  next
    case False
    with 2 show ?thesis by auto
  qed
qed (auto split: if_splits)

text \<open>\<open>STRNCPY\<close> into a zeroed buffer that is one character longer than the limit.\<close>

definition STRNCPY :: "string \<Rightarrow> nat \<Rightarrow> string" where
  "STRNCPY src n = take n src"

text \<open>\<open>STRNCMPI\<close>: equality of the first characters without case.\<close>

definition STRNCMPI :: "string \<Rightarrow> string \<Rightarrow> nat \<Rightarrow> int" where
  "STRNCMPI a b n = STRCMPI (take n a) (take n b)"

end
