(* ===== verification/Timestamps.thy ===== *)
theory Timestamps
  imports C_Strings
begin

text \<open>
  The helpers of \<open>Common/Util.c\<close>: the conversion of an expiration timestamp to the producer's time,
  the comparison of a JSON token with a string, and the names of certificate types.

  The calendar functions of the C library are modelled: \<open>gmtime\<close> splits seconds since the epoch,
  \<open>mktime\<close> is its inverse up to the offset of the local time zone, which is a parameter.
  \<open>STRTOUI32\<close> is a function of the platform independent code and a parameter. Undefined behaviour
  (the conversion of too large a \<open>double\<close>, a time that \<open>gmtime\<close> cannot split) is the result \<open>None\<close>.
\<close>

definition HUNDREDS_OF_NANOS_IN_A_SECOND :: UINT64 where
  "HUNDREDS_OF_NANOS_IN_A_SECOND = 10000000"

record tm =
  tm_sec :: int
  tm_min :: int
  tm_hour :: int
  tm_mday :: int
  tm_mon :: int
  tm_year :: int

subsection \<open>The calendar\<close>

definition leap :: "int \<Rightarrow> bool" where
  "leap y \<longleftrightarrow> y mod 4 = 0 \<and> (y mod 100 \<noteq> 0 \<or> y mod 400 = 0)"

definition year_days :: "int \<Rightarrow> int" where
  "year_days y = (if leap y then 366 else 365)"

definition month_days :: "int \<Rightarrow> nat \<Rightarrow> int" where
  "month_days y m = (if m = 1 then (if leap y then 29 else 28) else if m \<in> {3, 5, 8, 10} then 30 else 31)"

text \<open>Days from 1 January 1970 to the first day of a year, also for the years before.\<close>

definition leaps_through :: "int \<Rightarrow> int" where
  "leaps_through y = y div 4 - y div 100 + y div 400"

definition days_before_year :: "int \<Rightarrow> int" where
  "days_before_year y = 365 * (y - 1970) + (leaps_through (y - 1) - leaps_through 1969)"

primrec days_before_month :: "int \<Rightarrow> nat \<Rightarrow> int" where
  "days_before_month y 0 = 0"
| "days_before_month y (Suc m) = days_before_month y m + month_days y m"

definition utc_seconds :: "tm \<Rightarrow> int" where
  "utc_seconds t = 86400 * (days_before_year (tm_year t + 1900) + days_before_month (tm_year t + 1900) (nat (tm_mon t)) + (tm_mday t - 1))
     + 3600 * tm_hour t + 60 * tm_min t + tm_sec t"

definition mktime :: "int \<Rightarrow> tm \<Rightarrow> int" where
  "mktime tz t = utc_seconds t - tz"

function civil_year :: "int \<Rightarrow> int \<Rightarrow> int \<times> int" where
  "civil_year y d = (if d < year_days y then (y, d) else civil_year (y + 1) (d - year_days y))"
  by auto
termination by (relation "measure (\<lambda>(y, d). nat d)") (auto simp: year_days_def split: if_splits)

function civil_month :: "int \<Rightarrow> nat \<Rightarrow> int \<Rightarrow> nat \<times> int" where
  "civil_month y m d = (if 11 \<le> m \<or> d < month_days y m then (m, d) else civil_month y (Suc m) (d - month_days y m))"
  by auto
termination by (relation "measure (\<lambda>(y, m, d). 11 - m)") auto

definition gmtime :: "int \<Rightarrow> tm" where
  "gmtime t = (case civil_year 1970 (t div 86400) of (y, d) \<Rightarrow> case civil_month y 0 d of (m, d') \<Rightarrow>
     \<lparr>tm_sec = t mod 60, tm_min = t div 60 mod 60, tm_hour = t div 3600 mod 24,
      tm_mday = d' + 1, tm_mon = int m, tm_year = y - 1900\<rparr>)"

text \<open>The last second that \<open>gmtime\<close> can split, for times from the epoch on: its year has to be an \<open>int\<close>.\<close>

definition gmtime_max :: int where "gmtime_max = 67768036191676799"

lemma leaps_through_step: "leaps_through y = leaps_through (y - 1) + (if leap y then 1 else 0)"
proof -
  have step: "y div k = (y - 1) div k + (if y mod k = 0 then 1 else 0)" if "0 < k" for k :: int
  proof -
    define q r where "q = y div k" and "r = y mod k"
    have y: "y = k * q + r" and r: "0 \<le> r" "r < k" using that by (simp_all add: q_def r_def)
    show ?thesis
    proof (cases "r = 0")
      case True
      have e: "y - 1 = (k - 1) + k * (q - 1)" by (simp add: y True algebra_simps)
      have "(y - 1) div k = q - 1" unfolding e using that by simp
      then show ?thesis using True by (simp add: q_def r_def)
    next
      case False
      have e: "y - 1 = (r - 1) + k * q" by (simp add: y)
      have "(y - 1) div k = q" unfolding e using that r False by simp
      then show ?thesis using False by (simp add: q_def r_def)
    qed
  qed
  have m: "y mod 100 = 0 \<Longrightarrow> y mod 4 = 0" "y mod 400 = 0 \<Longrightarrow> y mod 100 = 0"
    using dvd_trans [of 4 100 y] dvd_trans [of 100 400 y] by (simp_all add: mod_eq_0_iff_dvd)
  have e: "y div 4 = (y - 1) div 4 + (if y mod 4 = 0 then 1 else 0)"
    "y div 100 = (y - 1) div 100 + (if y mod 100 = 0 then 1 else 0)"
    "y div 400 = (y - 1) div 400 + (if y mod 400 = 0 then 1 else 0)"
    by (rule step, simp)+
  have "a + (if P then 1 else 0) - (b + (if Q then 1 else 0)) + (c + (if R then 1 else 0)) =
      a - b + c + (if P \<and> (\<not> Q \<or> R) then 1 else (0::int))" if "Q \<Longrightarrow> P" "R \<Longrightarrow> Q" for a b c P Q R
    using that by (cases P; cases Q; cases R) simp_all
  from this [OF m] show ?thesis unfolding leaps_through_def leap_def by (simp only: e)
qed

lemma days_before_year_step: "days_before_year (y + 1) = days_before_year y + year_days y"
  using leaps_through_step [of y] by (simp add: days_before_year_def year_days_def)

lemma civil_year_days:
  "\<lbrakk>civil_year y d = (y', d'); 0 \<le> d\<rbrakk> \<Longrightarrow>
   days_before_year y' + d' = days_before_year y + d \<and> 0 \<le> d' \<and> d' < year_days y' \<and> y \<le> y'"
proof (induction y d arbitrary: y' d' rule: civil_year.induct)
  case (1 y d)
  show ?case
  proof (cases "d < year_days y")
    case True
    then show ?thesis using 1(2,3) by simp
  next
    case False
    then have "civil_year (y + 1) (d - year_days y) = (y', d')" using 1(2) by simp
    from 1(1) [OF False this] show ?thesis using False days_before_year_step [of y] by simp
  qed
qed

lemma civil_month_days:
  "\<lbrakk>civil_month y m d = (m', d'); m \<le> 11; 0 \<le> d\<rbrakk> \<Longrightarrow>
   days_before_month y m' + d' = days_before_month y m + d \<and> 0 \<le> d' \<and> m' \<le> 11 \<and> (m' < 11 \<longrightarrow> d' < month_days y m')"
proof (induction y m d arbitrary: m' d' rule: civil_month.induct)
  case (1 y m d)
  show ?case
  proof (cases "11 \<le> m \<or> d < month_days y m")
    case True
    then show ?thesis using 1(2-4) by auto
  next
    case False
    then have "civil_month y (Suc m) (d - month_days y m) = (m', d')" using 1(2) by simp
    from 1(1) [OF False this] show ?thesis using False by auto
  qed
qed

lemma days_in_year: "days_before_month y 11 + 31 = year_days y"
  by (simp add: eval_nat_numeral month_days_def year_days_def)

lemma gmtime_ranges:
  assumes "0 \<le> t"
  shows "0 \<le> tm_mon (gmtime t)" "tm_mon (gmtime t) \<le> 11" "1 \<le> tm_mday (gmtime t)" "tm_mday (gmtime t) \<le> 31"
    "0 \<le> tm_hour (gmtime t)" "tm_hour (gmtime t) \<le> 23" "0 \<le> tm_min (gmtime t)" "tm_min (gmtime t) \<le> 59"
    "0 \<le> tm_sec (gmtime t)" "tm_sec (gmtime t) \<le> 59" "70 \<le> tm_year (gmtime t)"
proof -
  obtain y d where yd: "civil_year 1970 (t div 86400) = (y, d)" by fastforce
  obtain m d' where md: "civil_month y 0 d = (m, d')" by fastforce
  have Y: "0 \<le> d \<and> d < year_days y \<and> 1970 \<le> y" using civil_year_days [OF yd] assms by simp
  have M: "days_before_month y m + d' = d \<and> 0 \<le> d' \<and> m \<le> 11 \<and> (m < 11 \<longrightarrow> d' < month_days y m)"
    using civil_month_days [OF md] Y by simp
  have "d' \<le> 30"
  proof (cases "m < 11")
    case True
    then show ?thesis using M by (auto simp: month_days_def split: if_splits)
  next
    case False
    then have "m = 11" using M by simp
    then show ?thesis using M Y days_in_year [of y] by simp
  qed
  moreover have "0 \<le> d'" "m \<le> 11" using M by simp_all
  moreover have "t div 60 mod 60 < 60" "t mod 60 < 60" "t div 3600 mod 24 < 24"
    "0 \<le> t div 60 mod 60" "0 \<le> t mod 60" "0 \<le> t div 3600 mod 24" by simp_all
  moreover have "1970 \<le> y" using Y by simp
  ultimately show "0 \<le> tm_mon (gmtime t)" "tm_mon (gmtime t) \<le> 11" "1 \<le> tm_mday (gmtime t)" "tm_mday (gmtime t) \<le> 31"
    "0 \<le> tm_hour (gmtime t)" "tm_hour (gmtime t) \<le> 23" "0 \<le> tm_min (gmtime t)" "tm_min (gmtime t) \<le> 59"
    "0 \<le> tm_sec (gmtime t)" "tm_sec (gmtime t) \<le> 59" "70 \<le> tm_year (gmtime t)"
    using yd md by (simp_all add: gmtime_def)
qed

lemma seconds_split: "86400 * (t div 86400) + 3600 * (t div 3600 mod 24) + 60 * (t div 60 mod 60) + t mod 60 = (t::int)"
proof -
  have "t div 3600 = t div 60 div 60" "t div 86400 = t div 3600 div 24" by (simp_all flip: zdiv_zmult2_eq)
  then show ?thesis
    using div_mult_mod_eq [of t 60] div_mult_mod_eq [of "t div 60" 60] div_mult_mod_eq [of "t div 3600" 24] by linarith
qed

lemma utc_seconds_gmtime:
  assumes "0 \<le> t"
  shows "utc_seconds (gmtime t) = t"
proof -
  obtain y d where yd: "civil_year 1970 (t div 86400) = (y, d)" by fastforce
  obtain m d' where md: "civil_month y 0 d = (m, d')" by fastforce
  have "0 \<le> d" "days_before_year y + d = t div 86400"
    using civil_year_days [OF yd] assms by (simp_all add: days_before_year_def leaps_through_def)
  then have "days_before_year y + days_before_month y m + d' = t div 86400" using civil_month_days [OF md] by simp
  moreover have "utc_seconds (gmtime t) = 86400 * (days_before_year y + days_before_month y m + d')
      + 3600 * (t div 3600 mod 24) + 60 * (t div 60 mod 60) + t mod 60"
    by (simp only: utc_seconds_def gmtime_def yd md prod.case tm.simps) simp
  ultimately show ?thesis using seconds_split [of t] by (simp only:)
qed

subsection \<open>Floating point\<close>

text \<open>
  A number that is not negative as a \<open>DOUBLE\<close>: 53 significant bits, rounded to nearest, ties to even. Sums of such
  numbers are rounded in the same way.
\<close>

function double_exponent :: "int \<Rightarrow> nat" where
  "double_exponent n = (if n < 2 ^ 53 then 0 else Suc (double_exponent (n div 2)))"
  by auto
termination by (relation "measure nat") auto

definition double_of :: "int \<Rightarrow> int" where
  "double_of n = (if n < 2 ^ 53 then n
     else let e = double_exponent n; q = n div 2 ^ e; r = n mod 2 ^ e; half = 2 ^ (e - 1)
          in (if half < r \<or> r = half \<and> odd q then q + 1 else q) * 2 ^ e)"

definition double_to_UINT64 :: "int \<Rightarrow> UINT64 option" where
  "double_to_UINT64 d = (if d < 2 ^ 64 then Some (of_int d) else None)"

lemma double_of_exact [simp]: "n < 2 ^ 53 \<Longrightarrow> double_of n = n"
  by (simp add: double_of_def)

subsection \<open>\<open>convertTimestampToEpoch\<close>\<close>

text \<open>The parts of a string between two positions, as \<open>STRTOUI32\<close> is given them.\<close>

definition substring :: "string \<Rightarrow> nat \<Rightarrow> nat \<Rightarrow> string" where
  "substring s i j = take (j - i) (drop i s)"

definition IOT_EXPIRATION_TIMESTAMP_STR :: string where
  "IOT_EXPIRATION_TIMESTAMP_STR = ''YYYY-MM-DDTHH:mm:SSZ''"

definition IOT_EXPIRATION_PARSE_CONVERSION_BASE :: nat where
  "IOT_EXPIRATION_PARSE_CONVERSION_BASE = 10"

type_synonym strtoui32_fun = "string \<Rightarrow> nat \<Rightarrow> STATUS \<times> UINT32"

text \<open>The six fields of the timestamp, in the order in which they are read.\<close>

definition parse_field :: "strtoui32_fun \<Rightarrow> string \<Rightarrow> nat \<Rightarrow> nat \<Rightarrow> STATUS + int" where
  "parse_field strtoui32 s i j = (case strtoui32 (substring s i j) IOT_EXPIRATION_PARSE_CONVERSION_BASE of
     (st, v) \<Rightarrow> if STATUS_FAILED st then Inl st else Inr (sint v))"

definition bind_sum :: "'e + 'a \<Rightarrow> ('a \<Rightarrow> 'e + 'b) \<Rightarrow> 'e + 'b" where
  "bind_sum r f = (case r of Inl e \<Rightarrow> Inl e | Inr x \<Rightarrow> f x)"

definition parse_timestamp :: "strtoui32_fun \<Rightarrow> string \<Rightarrow> STATUS + tm" where
  "parse_timestamp strtoui32 s =
     bind_sum (parse_field strtoui32 s 0 4) (\<lambda>year.
     bind_sum (parse_field strtoui32 s 5 7) (\<lambda>mon.
     bind_sum (parse_field strtoui32 s 8 10) (\<lambda>mday.
     bind_sum (parse_field strtoui32 s 11 13) (\<lambda>hour.
     bind_sum (parse_field strtoui32 s 14 16) (\<lambda>min.
     bind_sum (parse_field strtoui32 s 17 19) (\<lambda>sec.
       Inr \<lparr>tm_sec = sec, tm_min = min, tm_hour = hour, tm_mday = mday, tm_mon = mon - 1, tm_year = year - 1900\<rparr>))))))"

definition tm_in_range :: "tm \<Rightarrow> bool" where
  "tm_in_range t \<longleftrightarrow> tm_mon t < 12 \<and> tm_mon t \<ge> 0 \<and> tm_mday t < 32 \<and> tm_mday t \<ge> 1 \<and>
     tm_hour t < 24 \<and> tm_hour t \<ge> 0 \<and> tm_min t < 60 \<and> tm_min t \<ge> 0 \<and> tm_sec t < 61 \<and> tm_sec t \<ge> 0"

text \<open>
  The second component of the result is the value stored through \<open>pExpiration\<close>, \<open>None\<close> when nothing is
  stored; the last argument says whether that pointer is not NULL.
\<close>

definition convertTimestampToEpoch ::
    "strtoui32_fun \<Rightarrow> int \<Rightarrow> PCHAR \<Rightarrow> UINT64 \<Rightarrow> bool \<Rightarrow> (STATUS \<times> UINT64 option) option" where
  "convertTimestampToEpoch strtoui32 tz expirationTimestampStr nowTime pExpiration =
     (if gmtime_max < uint nowTime then None
      else let currentTimeInEpoch = of_int (mktime tz (gmtime (uint nowTime))) :: UINT64 in
      case expirationTimestampStr of
        None \<Rightarrow> Some (STATUS_NULL_ARG, None)
      | Some s \<Rightarrow>
          if \<not> pExpiration then Some (STATUS_NULL_ARG, None)
          else if length s \<noteq> length IOT_EXPIRATION_TIMESTAMP_STR then Some (STATUS_TIMESTAMP_STRING_UNRECOGNIZED_FORMAT, None)
          else (case parse_timestamp strtoui32 s of
              Inl st \<Rightarrow> Some (st, None)
            | Inr t \<Rightarrow>
                if \<not> tm_in_range t then Some (STATUS_IOT_EXPIRATION_PARSING_FAILED, None)
                else let iotExpirationInEpoch = of_int (mktime tz t) :: UINT64 in
                  if \<not> currentTimeInEpoch \<le> iotExpirationInEpoch then Some (STATUS_IOT_EXPIRATION_OCCURS_IN_PAST, None)
                  else let diff = iotExpirationInEpoch - currentTimeInEpoch in
                    map_option (\<lambda>sum. (STATUS_SUCCESS, Some (sum * HUNDREDS_OF_NANOS_IN_A_SECOND)))
                      (double_to_UINT64 (double_of (double_of (uint nowTime) + double_of (uint diff))))))"

subsection \<open>JSON tokens and certificate types\<close>

datatype jsmntype_t = JSMN_UNDEFINED | JSMN_OBJECT | JSMN_ARRAY | JSMN_STRING | JSMN_PRIMITIVE

record jsmntok_t =
  tok_type :: jsmntype_t
  tok_start :: int
  tok_end :: int
  tok_size :: int

definition STRNCMP :: "string \<Rightarrow> string \<Rightarrow> nat \<Rightarrow> int" where
  "STRNCMP a b n = STRCMP (take n a) (take n b)"

definition compareJsonString :: "string \<Rightarrow> jsmntok_t \<Rightarrow> jsmntype_t \<Rightarrow> string \<Rightarrow> bool" where
  "compareJsonString pJsonStr pToken jsmnType pStr \<longleftrightarrow>
     tok_type pToken = jsmnType \<and> int (length pStr) = tok_end pToken - tok_start pToken \<and>
     STRNCMP (drop (nat (tok_start pToken)) pJsonStr) pStr (nat (tok_end pToken - tok_start pToken)) = 0"

text \<open>The text of a token that lies in its string.\<close>

definition token_text :: "string \<Rightarrow> jsmntok_t \<Rightarrow> string" where
  "token_text json t = substring json (nat (tok_start t)) (nat (tok_end t))"

lemma compareJsonString_iff:
  assumes "0 \<le> tok_start t" "tok_start t \<le> tok_end t" "tok_end t \<le> int (length json)"
  shows "compareJsonString json t ty s \<longleftrightarrow> tok_type t = ty \<and> token_text json t = s"
proof -
  have n: "nat (tok_end t) - nat (tok_start t) = nat (tok_end t - tok_start t)" using assms by linarith
  have l: "length (token_text json t) = nat (tok_end t - tok_start t)"
    using assms by (simp add: token_text_def substring_def n)
  show ?thesis
  proof (cases "int (length s) = tok_end t - tok_start t")
    case True
    then have "take (nat (tok_end t - tok_start t)) s = s" by simp
    then show ?thesis using True by (auto simp: compareJsonString_def STRNCMP_def STRCMP_eq token_text_def substring_def n)
  next
    case False
    then have "token_text json t \<noteq> s" using l assms by auto
    then show ?thesis using False by (simp add: compareJsonString_def)
  qed
qed

datatype SSL_CERTIFICATE_TYPE = SSL_CERTIFICATE_TYPE_NOT_SPECIFIED | SSL_CERTIFICATE_TYPE_DER | SSL_CERTIFICATE_TYPE_PEM
  | SSL_CERTIFICATE_TYPE_ENG

definition getSslCertNameFromType :: "SSL_CERTIFICATE_TYPE \<Rightarrow> string" where
  "getSslCertNameFromType sslCertificateType = (case sslCertificateType of
     SSL_CERTIFICATE_TYPE_PEM \<Rightarrow> ''PEM''
   | SSL_CERTIFICATE_TYPE_DER \<Rightarrow> ''DER''
   | SSL_CERTIFICATE_TYPE_ENG \<Rightarrow> ''ENG''
   | _ \<Rightarrow> ''Unknown'')"

subsection \<open>What the conversion computes\<close>

text \<open>A number in decimal, with a given number of digits.\<close>

primrec dec :: "nat \<Rightarrow> nat \<Rightarrow> string" where
  "dec 0 n = ''''"
| "dec (Suc w) n = dec w (n div 10) @ [char_of (48 + n mod 10)]"

lemma length_dec [simp]: "length (dec w n) = w"
  by (induction w arbitrary: n) auto

text \<open>What the documentation of \<open>STRTOUI32\<close> promises for decimal numbers that cannot overflow.\<close>

locale decimal_reader =
  fixes strtoui32 :: strtoui32_fun
  assumes reads: "\<lbrakk>0 < w; w \<le> 9; n < 10 ^ w\<rbrakk> \<Longrightarrow> strtoui32 (dec w n) 10 = (STATUS_SUCCESS, of_nat n)"
begin

lemma parse_field_dec:
  assumes "substring s i j = dec w n" "0 < w" "w \<le> 9" "n < 10 ^ w"
  shows "parse_field strtoui32 s i j = Inr (int n)"
proof -
  have "(10::nat) ^ w \<le> 10 ^ 9" using assms(3) by (intro power_increasing) simp_all
  then have n: "n < 2 ^ 31" using assms(4) by simp
  then have "sint (of_nat n :: UINT32) = int n"
    by (simp add: signed_of_nat signed_take_bit_int_eq_self)
  then show ?thesis using reads [of w n] assms by (simp add: parse_field_def IOT_EXPIRATION_PARSE_CONVERSION_BASE_def)
qed

end

definition timestamp_string :: "tm \<Rightarrow> string" where
  "timestamp_string t = dec 4 (nat (tm_year t + 1900)) @ ''-'' @ dec 2 (nat (tm_mon t + 1)) @ ''-'' @ dec 2 (nat (tm_mday t)) @ ''T''
     @ dec 2 (nat (tm_hour t)) @ '':'' @ dec 2 (nat (tm_min t)) @ '':'' @ dec 2 (nat (tm_sec t)) @ ''Z''"

lemma substring_skip: "substring (x @ y) (length x) (length x + n) = take n y"
  by (simp add: substring_def)

lemma timestamp_fields:
  "length (timestamp_string t) = 20"
  "substring (timestamp_string t) 0 4 = dec 4 (nat (tm_year t + 1900))"
  "substring (timestamp_string t) 5 7 = dec 2 (nat (tm_mon t + 1))"
  "substring (timestamp_string t) 8 10 = dec 2 (nat (tm_mday t))"
  "substring (timestamp_string t) 11 13 = dec 2 (nat (tm_hour t))"
  "substring (timestamp_string t) 14 16 = dec 2 (nat (tm_min t))"
  "substring (timestamp_string t) 17 19 = dec 2 (nat (tm_sec t))"
  by (simp_all add: timestamp_string_def substring_def)

context decimal_reader
begin

lemma parse_timestamp_string:
  assumes "tm_in_range t" and "0 \<le> tm_year t + 1900" "tm_year t + 1900 < 10000"
  shows "parse_timestamp strtoui32 (timestamp_string t) = Inr t"
proof -
  let ?p = "parse_field strtoui32 (timestamp_string t)"
  have "?p 0 4 = Inr (int (nat (tm_year t + 1900)))"
    by (rule parse_field_dec [OF timestamp_fields(2)]) (use assms in \<open>simp_all add: tm_in_range_def nat_less_iff\<close>)
  moreover have "?p 5 7 = Inr (int (nat (tm_mon t + 1)))"
    by (rule parse_field_dec [OF timestamp_fields(3)]) (use assms in \<open>simp_all add: tm_in_range_def nat_less_iff\<close>)
  moreover have "?p 8 10 = Inr (int (nat (tm_mday t)))"
    by (rule parse_field_dec [OF timestamp_fields(4)]) (use assms in \<open>simp_all add: tm_in_range_def nat_less_iff\<close>)
  moreover have "?p 11 13 = Inr (int (nat (tm_hour t)))"
    by (rule parse_field_dec [OF timestamp_fields(5)]) (use assms in \<open>simp_all add: tm_in_range_def nat_less_iff\<close>)
  moreover have "?p 14 16 = Inr (int (nat (tm_min t)))"
    by (rule parse_field_dec [OF timestamp_fields(6)]) (use assms in \<open>simp_all add: tm_in_range_def nat_less_iff\<close>)
  moreover have "?p 17 19 = Inr (int (nat (tm_sec t)))"
    by (rule parse_field_dec [OF timestamp_fields(7)]) (use assms in \<open>simp_all add: tm_in_range_def nat_less_iff\<close>)
  ultimately show ?thesis using assms by (simp add: parse_timestamp_def bind_sum_def tm_in_range_def)
qed

end

text \<open>A reader of decimal numbers that meets the contract.\<close>

definition plain_strtoui32 :: strtoui32_fun where
  "plain_strtoui32 s base = (if s \<noteq> [] \<and> list_all (\<lambda>c. 48 \<le> code c \<and> code c < 48 + base) s
     then (STATUS_SUCCESS, of_nat (foldl (\<lambda>a c. a * base + (code c - 48)) 0 s))
     else (STATUS_INVALID_ARG, 0))"

lemma code_digit: "code (char_of (48 + n mod 10)) = 48 + n mod 10"
proof -
  have "48 + n mod 10 < 256" using mod_less_divisor [of 10 n] by linarith
  then show ?thesis by (simp add: code_def)
qed

lemma dec_digits: "list_all (\<lambda>c. 48 \<le> code c \<and> code c < 48 + 10) (dec w n)"
  by (induction w arbitrary: n) (auto simp: code_digit)

lemma dec_value: "n < 10 ^ w \<Longrightarrow> foldl (\<lambda>a c. a * 10 + (code c - 48)) 0 (dec w n) = n"
proof (induction w arbitrary: n)
  case (Suc w)
  then have "n div 10 < 10 ^ w" by (simp add: less_mult_imp_div_less)
  then show ?case using Suc(1) by (simp add: code_digit)
qed simp

interpretation plain_reader: decimal_reader plain_strtoui32
proof
  fix w n :: nat
  assume "0 < w" "w \<le> 9" "n < 10 ^ w"
  moreover have "dec w n \<noteq> []" using \<open>0 < w\<close> length_dec [of w n] by (metis length_greater_0_conv)
  ultimately show "plain_strtoui32 (dec w n) 10 = (STATUS_SUCCESS, of_nat n)"
    using dec_digits [of w n] dec_value [of n w] by (simp add: plain_strtoui32_def)
qed

text \<open>The first second of the year 10000, the first that the format cannot express.\<close>

definition format_end :: int where "format_end = 253402300800"

lemma days_before_year_mono: "y \<le> y' \<Longrightarrow> days_before_year y \<le> days_before_year y'"
proof (induction "nat (y' - y)" arbitrary: y)
  case (Suc n)
  then have "days_before_year (y + 1) \<le> days_before_year y'" by simp
  then show ?case using days_before_year_step [of y] by (simp add: year_days_def split: if_splits)
qed simp

lemma gmtime_year_bound:
  assumes "0 \<le> t" "t < format_end"
  shows "tm_year (gmtime t) + 1900 < 10000"
proof (rule ccontr)
  obtain y d where yd: "civil_year 1970 (t div 86400) = (y, d)" by fastforce
  assume "\<not> ?thesis"
  then have "10000 \<le> y" using yd by (simp add: gmtime_def split: prod.splits)
  then have "days_before_year 10000 \<le> days_before_year y" by (rule days_before_year_mono)
  moreover have "0 \<le> t div 86400" using assms(1) by simp
  then have "days_before_year y \<le> t div 86400"
    using civil_year_days [OF yd] by (simp add: days_before_year_def leaps_through_def)
  moreover have "days_before_year 10000 = 2932897" by (simp add: days_before_year_def leaps_through_def)
  moreover have "t div 86400 < 2932897" using assms(2) by (simp add: format_end_def)
  ultimately show False by simp
qed

lemma gmtime_in_range: "0 \<le> t \<Longrightarrow> tm_in_range (gmtime t)"
  using gmtime_ranges [of t] by (simp add: tm_in_range_def)

text \<open>
  C20: a timestamp in the format of the service that stands for second \<open>t\<close> is converted to exactly
  \<open>t\<close> seconds in units of 100 ns when it is not in the past, and refused with
  \<open>STATUS_IOT_EXPIRATION_OCCURS_IN_PAST\<close> otherwise, in every time zone, for all years up to 9999 and
  all times from two days after the epoch on.
\<close>

theorem timestamp_conversion:
  assumes "decimal_reader strtoui32"
    and "\<bar>tz\<bar> \<le> 86400" and "172800 \<le> t" "t < format_end" and "172800 \<le> now" "now < format_end"
  shows "convertTimestampToEpoch strtoui32 tz (Some (timestamp_string (gmtime t))) (of_int now) True =
    Some (if t < now then (STATUS_IOT_EXPIRATION_OCCURS_IN_PAST, None)
          else (STATUS_SUCCESS, Some (of_int (t * 10000000))))"
proof -
  have un: "uint (of_int now :: UINT64) = now" using assms(5,6) by (simp add: unsigned_of_int take_bit_int_eq_self format_end_def)
  have t0: "0 \<le> t" "0 \<le> now" using assms(3,5) by simp_all
  have parse: "parse_timestamp strtoui32 (timestamp_string (gmtime t)) = Inr (gmtime t)"
    using decimal_reader.parse_timestamp_string [OF assms(1) gmtime_in_range [OF t0(1)]] gmtime_ranges(11) [OF t0(1)]
      gmtime_year_bound [OF t0(1) assms(4)] by simp
  have rng: "0 \<le> t - tz" "0 \<le> now - tz" "t - tz < 2 ^ 53" "now - tz < 2 ^ 53"
    using assms(2-6) by (simp_all add: format_end_def)
  then have le: "(of_int (now - tz) :: UINT64) \<le> of_int (t - tz) \<longleftrightarrow> now \<le> t"
    by (simp add: word_le_def unsigned_of_int take_bit_int_eq_self del: of_int_diff)
  have diff: "uint (of_int (t - tz) - of_int (now - tz) :: UINT64) = t - now" if "now \<le> t"
  proof -
    have "of_int (t - tz) - of_int (now - tz) = (of_int (t - now) :: UINT64)" by (simp flip: of_int_diff)
    then show ?thesis using that assms(4-6) by (simp add: unsigned_of_int take_bit_int_eq_self format_end_def del: of_int_diff)
  qed
  have sum: "double_of (double_of now + double_of (t - now)) = t"
    using assms(3-6) by (simp add: format_end_def)
  have "of_int t * HUNDREDS_OF_NANOS_IN_A_SECOND = of_int (t * 10000000)"
    by (simp add: HUNDREDS_OF_NANOS_IN_A_SECOND_def)
  then show ?thesis
    using assms(4,6) le diff sum
    by (simp add: convertTimestampToEpoch_def un gmtime_max_def format_end_def timestamp_fields(1) parse
        gmtime_in_range t0 mktime_def utc_seconds_gmtime IOT_EXPIRATION_TIMESTAMP_STR_def Let_def double_to_UINT64_def
        del: of_int_diff of_int_mult)
qed

theorem timestamp_conversion_witness:
  "convertTimestampToEpoch plain_strtoui32 3600 (Some (timestamp_string (gmtime 1600003600))) (of_int 1600000000) True =
     Some (STATUS_SUCCESS, Some (of_int (1600003600 * 10000000)))"
  using timestamp_conversion [OF plain_reader.decimal_reader_axioms, of 3600 1600003600 1600000000]
  by (simp add: format_end_def)

lemma timestamp_string_sample: "timestamp_string (gmtime 1600003600) = ''2020-09-13T13:26:40Z''"
  by code_simp

text \<open>
  A timestamp before the epoch is not recognised as being in the past: its negative time, taken as an
  unsigned number, is larger than the current time.
\<close>

lemma timestamp_before_epoch_accepted:
  "convertTimestampToEpoch plain_strtoui32 0 (Some ''1960-01-01T00:00:00Z'') 1600000000 True =
     Some (STATUS_SUCCESS, Some 18443587880429551616)"
  by code_simp

end
