(* ===== verification/Aws_Credentials.thy ===== *)
theory Aws_Credentials
  imports Timestamps
begin

text \<open>
  The AWS credentials object of \<open>Common/Auth.c\<close>: a structure with its three strings behind it in one
  allocation. The bytes behind the structure are \<open>ac_data\<close>; a string pointer of the structure is an
  offset into them, or \<open>None\<close> for NULL, and may point anywhere once the object was copied to another
  address. Where the strings go is computed by \<open>build_AwsCredentials\<close>; \<open>createAwsCredentials\<close> puts the
  object on the heap.

  The heap of this and of the credential provider components maps the addresses of live objects to
  the objects. \<open>None\<close> as the result of an operation is undefined behaviour: a copy that reads beyond a
  string or writes beyond the allocation, an access to an object that is not live or has another
  type, the release of such an object. The sizes and limits of the platform independent code are
  parameters.
\<close>

abbreviation NUL :: char where "NUL \<equiv> char_of (0::nat)"

record AwsCredentials =
  ac_version :: UINT32
  ac_size :: UINT32
  ac_accessKeyId :: "nat option"
  ac_accessKeyIdLen :: UINT32
  ac_secretKey :: "nat option"
  ac_secretKeyLen :: UINT32
  ac_sessionToken :: "nat option"
  ac_sessionTokenLen :: UINT32
  ac_expiration :: UINT64
  ac_data :: string

record auth_consts =
  SIZEOF_AwsCredentials :: nat
  MAX_AUTH_LEN :: nat
  MAX_PATH_LEN :: nat
  MIN_STREAMING_TOKEN_EXPIRATION_DURATION :: UINT64
  STREAMING_TOKEN_EXPIRATION_GRACE_PERIOD :: UINT64
  MAX_ENFORCED_TOKEN_EXPIRATION_DURATION :: UINT64

definition AWS_CREDENTIALS_CURRENT_VERSION :: UINT32 where "AWS_CREDENTIALS_CURRENT_VERSION = 0"

text \<open>The bytes that \<open>MEMCPY\<close> reads from a string, its terminator included.\<close>

definition mem_read :: "string \<Rightarrow> nat \<Rightarrow> string option" where
  "mem_read s n = (if n \<le> length s + 1 then Some (take n (s @ [NUL])) else None)"

definition STRNLEN :: "string \<Rightarrow> nat \<Rightarrow> nat" where
  "STRNLEN s n = min (length s) n"

text \<open>A length argument of 0 stands for the length of the string.\<close>

definition given_len :: "auth_consts \<Rightarrow> string \<Rightarrow> UINT32 \<Rightarrow> UINT32" where
  "given_len K s len = (if len = 0 then of_nat (STRNLEN s (MAX_AUTH_LEN K)) else len)"

definition build_AwsCredentials ::
    "auth_consts \<Rightarrow> bool \<Rightarrow> PCHAR \<Rightarrow> UINT32 \<Rightarrow> PCHAR \<Rightarrow> UINT32 \<Rightarrow> PCHAR \<Rightarrow> UINT32 \<Rightarrow> UINT64
      \<Rightarrow> (STATUS \<times> AwsCredentials option) option" where
  "build_AwsCredentials K memory accessKeyId accessKeyIdLen0 secretKey secretKeyLen0 sessionToken sessionTokenLen0 expiration =
     (case (accessKeyId, secretKey) of
        (Some a, Some k) \<Rightarrow>
          if sessionToken = None \<and> sessionTokenLen0 \<noteq> 0 then Some (STATUS_NULL_ARG, None)
          else if a = [] \<or> k = [] then Some (STATUS_INVALID_ARG, None)
          else if sessionToken = Some [] then Some (STATUS_INVALID_ARG, None)
          else
            let aLen = given_len K a accessKeyIdLen0;
                kLen = given_len K k secretKeyLen0;
                tLen = (case sessionToken of None \<Rightarrow> sessionTokenLen0 | Some t \<Rightarrow> given_len K t sessionTokenLen0);
                size0 = of_nat (SIZEOF_AwsCredentials K) + (aLen + 1 + kLen + 1);
                size = (case sessionToken of None \<Rightarrow> size0 | Some t \<Rightarrow> size0 + (tLen + 1))
            in if \<not> unat size < MAX_AUTH_LEN K then Some (STATUS_INVALID_AUTH_LEN, None)
               else if \<not> memory then Some (STATUS_NOT_ENOUGH_MEMORY, None)
               else do {
                 aBytes \<leftarrow> mem_read a (unat aLen);
                 kBytes \<leftarrow> mem_read k (unat kLen);
                 tBytes \<leftarrow> (case sessionToken of None \<Rightarrow> Some []
                           | Some t \<Rightarrow> map_option (\<lambda>b. b @ [NUL]) (mem_read t (unat tLen)));
                 let bytes = aBytes @ [NUL] @ kBytes @ [NUL] @ tBytes;
                 if SIZEOF_AwsCredentials K + length bytes > unat size then None
                 else if SIZEOF_AwsCredentials K + length bytes \<noteq> unat size then Some (STATUS_INTERNAL_ERROR, None)
                 else Some (STATUS_SUCCESS, Some \<lparr>
                   ac_version = AWS_CREDENTIALS_CURRENT_VERSION, ac_size = size,
                   ac_accessKeyId = Some 0, ac_accessKeyIdLen = aLen,
                   ac_secretKey = Some (unat aLen + 1), ac_secretKeyLen = kLen,
                   ac_sessionToken = (case sessionToken of None \<Rightarrow> None | Some t \<Rightarrow> Some (unat aLen + 1 + unat kLen + 1)),
                   ac_sessionTokenLen = tLen,
                   ac_expiration = expiration, ac_data = bytes\<rparr>)
               }
      | _ \<Rightarrow> Some (STATUS_NULL_ARG, None))"

definition deserializeAwsCredentials :: "AwsCredentials option \<Rightarrow> STATUS \<times> AwsCredentials option" where
  "deserializeAwsCredentials token = (case token of
     None \<Rightarrow> (STATUS_NULL_ARG, None)
   | Some c \<Rightarrow>
       if \<not> (ac_accessKeyId c \<noteq> None \<and> ac_secretKey c \<noteq> None \<and> (ac_sessionToken c \<noteq> None \<or> ac_sessionTokenLen c = 0))
       then (STATUS_INVALID_ARG, Some c)
       else let sk = 0 + unat (ac_accessKeyIdLen c) + 1 in
         (STATUS_SUCCESS, Some (c\<lparr>ac_accessKeyId := Some 0, ac_secretKey := Some sk,
            ac_sessionToken := (if ac_sessionToken c \<noteq> None then Some (sk + unat (ac_secretKeyLen c) + 1)
                                else ac_sessionToken c)\<rparr>)))"

subsection \<open>The objects of the heap\<close>

record StaticCredentialProvider =
  sp_getCredentialsFn :: fnptr
  sp_pAwsCredentials :: UINT64

record FileCredentialProvider =
  fp_getCredentialsFn :: fnptr
  fp_getCurrentTimeFn :: fnptr
  fp_customData :: UINT64
  fp_pAwsCredentials :: UINT64
  fp_credentialsFilepath :: string

record IotCredentialProvider =
  ip_getCredentialsFn :: fnptr
  ip_getCurrentTimeFn :: fnptr
  ip_customData :: UINT64
  ip_iotGetCredentialEndpoint :: string
  ip_certPath :: string
  ip_privateKeyPath :: string
  ip_caCertPath :: string
  ip_roleAlias :: string
  ip_thingName :: string
  ip_connectionTimeout :: UINT64
  ip_completionTimeout :: UINT64
  ip_pAwsCredentials :: UINT64
  ip_serviceCallFn :: fnptr

text \<open>
  \<open>OProvider\<close> is a credential provider of another implementation, of which only the function pointer
  of the abstract provider is known.
\<close>

datatype cred_object =
    OCredentials AwsCredentials
  | OStatic StaticCredentialProvider
  | OFile FileCredentialProvider
  | OIot IotCredentialProvider
  | OProvider fnptr

type_synonym cheap = "UINT64 \<Rightarrow> cred_object option"

definition get_credentials :: "cheap \<Rightarrow> UINT64 \<Rightarrow> AwsCredentials option" where
  "get_credentials h p = (case h p of Some (OCredentials c) \<Rightarrow> Some c | _ \<Rightarrow> None)"

definition get_static :: "cheap \<Rightarrow> UINT64 \<Rightarrow> StaticCredentialProvider option" where
  "get_static h p = (case h p of Some (OStatic c) \<Rightarrow> Some c | _ \<Rightarrow> None)"

definition get_file :: "cheap \<Rightarrow> UINT64 \<Rightarrow> FileCredentialProvider option" where
  "get_file h p = (case h p of Some (OFile c) \<Rightarrow> Some c | _ \<Rightarrow> None)"

definition get_iot :: "cheap \<Rightarrow> UINT64 \<Rightarrow> IotCredentialProvider option" where
  "get_iot h p = (case h p of Some (OIot c) \<Rightarrow> Some c | _ \<Rightarrow> None)"

lemma get_object_iff [simp]:
  "get_credentials h p = Some c \<longleftrightarrow> h p = Some (OCredentials c)"
  "get_static h p = Some s \<longleftrightarrow> h p = Some (OStatic s)"
  "get_file h p = Some f \<longleftrightarrow> h p = Some (OFile f)"
  "get_iot h p = Some i \<longleftrightarrow> h p = Some (OIot i)"
  by (auto simp: get_credentials_def get_static_def get_file_def get_iot_def split: option.splits cred_object.splits)

lemma get_object_simps [simp]:
  "h p = Some (OCredentials c) \<Longrightarrow> get_credentials h p = Some c"
  "h p = Some (OStatic s) \<Longrightarrow> get_static h p = Some s"
  "h p = Some (OFile f) \<Longrightarrow> get_file h p = Some f"
  "h p = Some (OIot i) \<Longrightarrow> get_iot h p = Some i"
  by simp_all

text \<open>What \<open>MEMCALLOC\<close> promises: a new address that is not NULL, or NULL, which is \<open>None\<close> here.\<close>

definition fresh_calloc :: "(cheap \<Rightarrow> UINT64 option) \<Rightarrow> bool" where
  "fresh_calloc calloc \<longleftrightarrow> (\<forall>h p. calloc h = Some p \<longrightarrow> h p = None \<and> p \<noteq> 0)"

text \<open>The last argument says whether the pointer for the result is not NULL.\<close>

definition createAwsCredentials ::
    "auth_consts \<Rightarrow> (cheap \<Rightarrow> UINT64 option) \<Rightarrow> cheap \<Rightarrow> PCHAR \<Rightarrow> UINT32 \<Rightarrow> PCHAR \<Rightarrow> UINT32 \<Rightarrow> PCHAR \<Rightarrow> UINT32 \<Rightarrow> UINT64
      \<Rightarrow> bool \<Rightarrow> (STATUS \<times> UINT64 \<times> cheap) option" where
  "createAwsCredentials K calloc h accessKeyId accessKeyIdLen secretKey secretKeyLen sessionToken sessionTokenLen expiration
      ppAwsCredentials =
     (if \<not> ppAwsCredentials then Some (STATUS_NULL_ARG, 0, h)
      else case build_AwsCredentials K (calloc h \<noteq> None) accessKeyId accessKeyIdLen secretKey secretKeyLen sessionToken
                  sessionTokenLen expiration of
        None \<Rightarrow> None
      | Some (st, None) \<Rightarrow> Some (st, 0, h)
      | Some (st, Some c) \<Rightarrow> (case calloc h of
            None \<Rightarrow> Some (STATUS_NOT_ENOUGH_MEMORY, 0, h)
          | Some p \<Rightarrow> Some (st, p, h(p \<mapsto> OCredentials c))))"

text \<open>The argument is a pointer to the caller's variable; the second result is its new content.\<close>

definition freeAwsCredentials :: "cheap \<Rightarrow> UINT64 option \<Rightarrow> (STATUS \<times> UINT64 option \<times> cheap) option" where
  "freeAwsCredentials h ppAwsCredentials = (case ppAwsCredentials of
     None \<Rightarrow> Some (STATUS_NULL_ARG, None, h)
   | Some p \<Rightarrow>
       if p = 0 then Some (STATUS_SUCCESS, Some p, h)
       else (case get_credentials h p of
           None \<Rightarrow> None
         | Some c \<Rightarrow> Some (STATUS_SUCCESS, Some 0, h(p := None))))"

subsection \<open>Reading the strings\<close>

text \<open>The C string at an offset of the object.\<close>

definition cstring_at :: "AwsCredentials \<Rightarrow> nat option \<Rightarrow> PCHAR" where
  "cstring_at c ptr = map_option (\<lambda>off. takeWhile (\<lambda>x. x \<noteq> NUL) (drop off (ac_data c))) ptr"

text \<open>Length arguments that fit their strings and the limit, and strings that are C strings.\<close>

definition fits :: "auth_consts \<Rightarrow> string \<Rightarrow> UINT32 \<Rightarrow> bool" where
  "fits K s len \<longleftrightarrow> s \<noteq> [] \<and> NUL \<notin> set s \<and> length s < 2 ^ 32 \<and> unat len \<le> length s \<and> unat len \<le> MAX_AUTH_LEN K"

lemma given_len_fits:
  assumes "fits K s len" and "MAX_AUTH_LEN K < 2 ^ 31"
  shows "unat (given_len K s len) \<le> length s" and "unat (given_len K s len) \<le> MAX_AUTH_LEN K"
    and "mem_read s (unat (given_len K s len)) = Some (take (unat (given_len K s len)) s)"
proof -
  have "unat (of_nat (min (length s) (MAX_AUTH_LEN K)) :: UINT32) = min (length s) (MAX_AUTH_LEN K)"
    using assms by (simp add: fits_def unat_of_nat take_bit_nat_eq_self)
  then show le: "unat (given_len K s len) \<le> length s" and "unat (given_len K s len) \<le> MAX_AUTH_LEN K"
    using assms by (auto simp: given_len_def fits_def STRNLEN_def)
  show "mem_read s (unat (given_len K s len)) = Some (take (unat (given_len K s len)) s)"
    using le by (simp add: mem_read_def)
qed

subsection \<open>Creating and restoring the object\<close>

definition total_size :: "auth_consts \<Rightarrow> nat \<Rightarrow> nat \<Rightarrow> nat option \<Rightarrow> nat" where
  "total_size K a k t = SIZEOF_AwsCredentials K + (a + 1) + (k + 1) + (case t of None \<Rightarrow> 0 | Some n \<Rightarrow> n + 1)"

text \<open>The credentials object that the arguments describe.\<close>

definition credentials_of :: "auth_consts \<Rightarrow> string \<Rightarrow> string \<Rightarrow> PCHAR \<Rightarrow> UINT64 \<Rightarrow> AwsCredentials" where
  "credentials_of K a k t expiration = \<lparr>
     ac_version = AWS_CREDENTIALS_CURRENT_VERSION,
     ac_size = of_nat (total_size K (length a) (length k) (map_option length t)),
     ac_accessKeyId = Some 0, ac_accessKeyIdLen = of_nat (length a),
     ac_secretKey = Some (length a + 1), ac_secretKeyLen = of_nat (length k),
     ac_sessionToken = map_option (\<lambda>_. length a + 1 + length k + 1) t,
     ac_sessionTokenLen = (case t of None \<Rightarrow> 0 | Some s \<Rightarrow> of_nat (length s)),
     ac_expiration = expiration,
     ac_data = a @ [NUL] @ k @ [NUL] @ (case t of None \<Rightarrow> [] | Some s \<Rightarrow> s @ [NUL])\<rparr>"

definition arg_string :: "auth_consts \<Rightarrow> string \<Rightarrow> UINT32 \<Rightarrow> string" where
  "arg_string K s len = take (unat (given_len K s len)) s"

lemma length_arg_string:
  "\<lbrakk>fits K s len; MAX_AUTH_LEN K < 2 ^ 29\<rbrakk> \<Longrightarrow> length (arg_string K s len) = unat (given_len K s len)"
  using given_len_fits(1) [of K s len] by (simp add: arg_string_def)

lemma of_nat_unat_sum:
  fixes a k :: UINT32
  assumes "c < 2 ^ 29" "unat a < 2 ^ 29" "unat k < 2 ^ 29"
  shows "unat (of_nat c + (a + 1 + k + 1) :: UINT32) = c + (unat a + 1) + (unat k + 1)"
proof -
  have "of_nat c + (a + 1 + k + 1) = (of_nat (c + (unat a + 1) + (unat k + 1)) :: UINT32)" by simp
  also have "unat \<dots> = c + (unat a + 1) + (unat k + 1)"
    using assms by (simp only: unat_of_nat) (simp add: take_bit_nat_eq_self)
  finally show ?thesis .
qed

lemma build_AwsCredentials_result:
  assumes "MAX_AUTH_LEN K < 2 ^ 29" and "SIZEOF_AwsCredentials K < 2 ^ 29"
    and "fits K a aLen" "fits K k kLen"
    and "case t of None \<Rightarrow> tLen = 0 | Some s \<Rightarrow> fits K s tLen"
  shows "build_AwsCredentials K memory (Some a) aLen (Some k) kLen t tLen expiration =
    (let a' = arg_string K a aLen; k' = arg_string K k kLen; t' = map_option (\<lambda>s. arg_string K s tLen) t in
     if \<not> total_size K (length a') (length k') (map_option length t') < MAX_AUTH_LEN K then Some (STATUS_INVALID_AUTH_LEN, None)
     else if \<not> memory then Some (STATUS_NOT_ENOUGH_MEMORY, None)
     else Some (STATUS_SUCCESS, Some (credentials_of K a' k' t' expiration)))"
proof -
  have m: "MAX_AUTH_LEN K < 2 ^ 31" using assms(1) by simp
  note A = given_len_fits [OF assms(3) m] and B = given_len_fits [OF assms(4) m]
  note la = length_arg_string [OF assms(3,1)] and lk = length_arg_string [OF assms(4,1)]
  have ne: "a \<noteq> []" "k \<noteq> []" using assms(3,4) by (auto simp: fits_def)
  have sz: "unat (of_nat (SIZEOF_AwsCredentials K) + (given_len K a aLen + 1 + given_len K k kLen + 1)) =
      SIZEOF_AwsCredentials K + (unat (given_len K a aLen) + 1) + (unat (given_len K k kLen) + 1)"
    using of_nat_unat_sum assms(1,2) A(2) B(2) by simp
  show ?thesis
  proof (cases t)
    case None
    then show ?thesis
      using assms(5) ne sz A(3) B(3) la lk
      by (simp add: build_AwsCredentials_def Let_def total_size_def credentials_of_def arg_string_def ac_simps)
  next
    case (Some s)
    then have fs: "fits K s tLen" using assms(5) by simp
    note T = given_len_fits [OF fs m] and lt = length_arg_string [OF fs assms(1)]
    let ?s0 = "of_nat (SIZEOF_AwsCredentials K) + (given_len K a aLen + 1 + given_len K k kLen + 1)"
    have eq: "?s0 + (given_len K s tLen + 1) =
        of_nat (SIZEOF_AwsCredentials K + (unat (given_len K a aLen) + 1) + (unat (given_len K k kLen) + 1) +
          (unat (given_len K s tLen) + 1))" by simp
    have szt: "unat (?s0 + (given_len K s tLen + 1)) =
        SIZEOF_AwsCredentials K + (unat (given_len K a aLen) + 1) + (unat (given_len K k kLen) + 1) +
          (unat (given_len K s tLen) + 1)"
      unfolding eq using assms(1,2) A(2) B(2) T(2) by (simp only: unat_of_nat) (simp add: take_bit_nat_eq_self)
    have "s \<noteq> []" using fs by (simp add: fits_def)
    then show ?thesis
      using Some ne szt A(3) B(3) T(3) la lk lt
      by (simp add: build_AwsCredentials_def Let_def total_size_def credentials_of_def arg_string_def
          word_unat_eq_iff)
  qed
qed

lemma NUL_char: "NUL = CHR 0x00"
  by code_simp

text \<open>A copy of an object at another address: its string pointers are stale, but as NULL as before.\<close>

definition relocated :: "AwsCredentials \<Rightarrow> AwsCredentials \<Rightarrow> bool" where
  "relocated c c' \<longleftrightarrow> (\<exists>p q r. p \<noteq> None \<and> q \<noteq> None \<and> (r = None \<longleftrightarrow> ac_sessionToken c = None) \<and>
     c' = c\<lparr>ac_accessKeyId := p, ac_secretKey := q, ac_sessionToken := r\<rparr>)"

lemma take_until_NUL: "NUL \<notin> set s \<Longrightarrow> takeWhile (\<lambda>x. x \<noteq> NUL) (s @ NUL # r) = s"
  by (induction s) auto

lemma credentials_strings:
  assumes "NUL \<notin> set a" "NUL \<notin> set k" "case t of None \<Rightarrow> True | Some s \<Rightarrow> NUL \<notin> set s"
  shows "cstring_at (credentials_of K a k t e) (ac_accessKeyId (credentials_of K a k t e)) = Some a"
    and "cstring_at (credentials_of K a k t e) (ac_secretKey (credentials_of K a k t e)) = Some k"
    and "cstring_at (credentials_of K a k t e) (ac_sessionToken (credentials_of K a k t e)) = t"
  using assms take_until_NUL [of a] take_until_NUL [of k] take_until_NUL [of "case t of None \<Rightarrow> [] | Some s \<Rightarrow> s" "[]"]
  by (auto simp: cstring_at_def credentials_of_def split: option.splits)

lemma deserialize_relocated:
  assumes "relocated (credentials_of K a k t e) c'"
    and "length a < 2 ^ 32" "length k < 2 ^ 32"
  shows "deserializeAwsCredentials (Some c') = (STATUS_SUCCESS, Some (credentials_of K a k t e))"
  using assms
  by (auto simp: relocated_def deserializeAwsCredentials_def credentials_of_def Let_def unat_of_nat take_bit_nat_eq_self
      split: option.splits)

text \<open>
  C21: with length arguments that fit their strings, creating credentials never reads or writes out of
  bounds. It fails only when the object would not be smaller than the maximum or there is no memory;
  otherwise the object holds the three strings, NUL terminated, behind the structure, and its size
  field is the size of the allocation. A copy of the object at another address, with all its
  pointers stale, is turned back into it by \<open>deserializeAwsCredentials\<close>.
\<close>

theorem credentials_roundtrip:
  assumes "MAX_AUTH_LEN K < 2 ^ 29" and "SIZEOF_AwsCredentials K < 2 ^ 29" and "fresh_calloc calloc"
    and "fits K a aLen" "fits K k kLen" and "case t of None \<Rightarrow> tLen = 0 | Some s \<Rightarrow> fits K s tLen"
    and "createAwsCredentials K calloc h (Some a) aLen (Some k) kLen t tLen expiration True = r"
  shows "r = Some (STATUS_INVALID_AUTH_LEN, 0, h) \<or> r = Some (STATUS_NOT_ENOUGH_MEMORY, 0, h) \<and> calloc h = None \<or>
    (\<exists>p c. r = Some (STATUS_SUCCESS, p, h(p \<mapsto> OCredentials c)) \<and> p \<noteq> 0 \<and> h p = None \<and>
       cstring_at c (ac_accessKeyId c) = Some (arg_string K a aLen) \<and>
       cstring_at c (ac_secretKey c) = Some (arg_string K k kLen) \<and>
       cstring_at c (ac_sessionToken c) = map_option (\<lambda>s. arg_string K s tLen) t \<and> ac_expiration c = expiration \<and>
       unat (ac_size c) = SIZEOF_AwsCredentials K + length (ac_data c) \<and> unat (ac_size c) < MAX_AUTH_LEN K \<and>
       (\<forall>c'. relocated c c' \<longrightarrow> deserializeAwsCredentials (Some c') = (STATUS_SUCCESS, Some c)))"
proof -
  define a' k' t' where "a' = arg_string K a aLen" and "k' = arg_string K k kLen" and "t' = map_option (\<lambda>s. arg_string K s tLen) t"
  note defs = this
  let ?c = "credentials_of K a' k' t' expiration"
  have nn: "NUL \<notin> set a'" "NUL \<notin> set k'" "case t' of None \<Rightarrow> True | Some s \<Rightarrow> NUL \<notin> set s"
    using assms(4-6) by (auto simp: defs arg_string_def fits_def dest: in_set_takeD split: option.splits)
  have len: "length a' < 2 ^ 32" "length k' < 2 ^ 32"
    using length_arg_string [OF assms(4,1)] length_arg_string [OF assms(5,1)]
      given_len_fits(2) [OF assms(4)] given_len_fits(2) [OF assms(5)] assms(1) by (simp_all add: defs)
  note res = build_AwsCredentials_result [OF assms(1,2,4-6), of "calloc h \<noteq> None" expiration, folded defs, unfolded Let_def]
  show ?thesis
  proof (cases "total_size K (length a') (length k') (map_option length t') < MAX_AUTH_LEN K \<and> calloc h \<noteq> None")
    case True
    then obtain p where p: "calloc h = Some p" "p \<noteq> 0" "h p = None" using assms(3) by (auto simp: fresh_calloc_def)
    have sz: "unat (ac_size ?c) = total_size K (length a') (length k') (map_option length t')"
      using True assms(1) by (simp add: credentials_of_def unat_of_nat take_bit_nat_eq_self)
    have tot: "total_size K (length a') (length k') (map_option length t') = SIZEOF_AwsCredentials K + length (ac_data ?c)"
      by (simp add: total_size_def credentials_of_def split: option.splits)
    have "r = Some (STATUS_SUCCESS, p, h(p \<mapsto> OCredentials ?c))"
      using res True p assms(7) by (auto simp: defs createAwsCredentials_def)
    moreover have "ac_expiration ?c = expiration" by (simp add: credentials_of_def)
    ultimately show ?thesis
      using credentials_strings [OF nn] deserialize_relocated [OF _ len] sz tot True p by (auto simp: defs)
  next
    case False
    then have "r = Some (STATUS_INVALID_AUTH_LEN, 0, h) \<or> r = Some (STATUS_NOT_ENOUGH_MEMORY, 0, h) \<and> calloc h = None"
      unfolding assms(7) [symmetric] createAwsCredentials_def res by simp
    then show ?thesis by blast
  qed
qed

text \<open>An allocator with a few addresses, and constants of the size they have in the library.\<close>

definition small_calloc :: "('a \<Rightarrow> 'b option) \<Rightarrow> 'a list \<Rightarrow> 'a option" where
  "small_calloc h ps = find (\<lambda>p. h p = None) ps"

definition sample_calloc :: "cheap \<Rightarrow> UINT64 option" where
  "sample_calloc h = small_calloc h [8, 16, 24, 32, 40, 48]"

lemma sample_calloc_fresh: "fresh_calloc sample_calloc"
  by (auto simp: fresh_calloc_def sample_calloc_def small_calloc_def split: if_splits)

definition sample_consts :: auth_consts where
  "sample_consts = \<lparr>SIZEOF_AwsCredentials = 64, MAX_AUTH_LEN = 10000, MAX_PATH_LEN = 4096,
     MIN_STREAMING_TOKEN_EXPIRATION_DURATION = 300000000, STREAMING_TOKEN_EXPIRATION_GRACE_PERIOD = 300000000,
     MAX_ENFORCED_TOKEN_EXPIRATION_DURATION = 24000000000\<rparr>"

theorem credentials_roundtrip_witness:
  "\<exists>p c. createAwsCredentials sample_consts sample_calloc (\<lambda>_. None) (Some ''key'') 0 (Some ''secret'') 3 (Some ''token'') 0 9 True =
       Some (STATUS_SUCCESS, p, [p \<mapsto> OCredentials c]) \<and>
     cstring_at c (ac_secretKey c) = Some ''sec'' \<and> cstring_at c (ac_sessionToken c) = Some ''token''"
proof -
  let ?r = "createAwsCredentials sample_consts sample_calloc (\<lambda>_. None) (Some ''key'') 0 (Some ''secret'') 3 (Some ''token'') 0 9 True"
  have "fst (the ?r) = STATUS_SUCCESS" by code_simp
  moreover note credentials_roundtrip [where K = sample_consts and calloc = sample_calloc and h = "\<lambda>_. None" and a = "''key''"
      and aLen = 0 and k = "''secret''" and kLen = 3 and t = "Some ''token''" and tLen = 0 and expiration = 9 and r = ?r]
  moreover have "arg_string sample_consts ''secret'' 3 = ''sec''" "arg_string sample_consts ''token'' 0 = ''token''"
    by code_simp+
  ultimately show ?thesis by (auto simp: sample_calloc_fresh sample_consts_def fits_def NUL_char)
qed

end
