(* ===== verification/Credential_Providers.thy ===== *)
theory Credential_Providers
  imports Aws_Credentials
begin

text \<open>
  The static credential provider (\<open>Common/StaticCredentialProvider.c\<close>), which keeps one credentials
  object, and the file credential provider (\<open>Common/FileCredentialProvider.c\<close>), which reads one from a
  file and reads it again when it is about to expire. Both own the credentials they hand out.

  The file system is the function \<open>pe_fopen\<close> from paths to contents, the functions that tell the time
  are \<open>pe_time\<close>, by function and custom data; both are parameters, with the allocator, the time zone
  and \<open>STRTOUI32\<close>. Pointers for results that may be NULL are boolean arguments.
\<close>

record cred_env =
  pe_consts :: auth_consts
  pe_calloc :: "cheap \<Rightarrow> UINT64 option"
  pe_fopen :: "string \<Rightarrow> string option"
  pe_time :: "cfun \<Rightarrow> UINT64 \<Rightarrow> UINT64"
  pe_tz :: int
  pe_strtoui32 :: strtoui32_fun

subsection \<open>The static credential provider\<close>

definition freeStaticCredentialProvider :: "cheap \<Rightarrow> UINT64 option \<Rightarrow> (STATUS \<times> UINT64 option \<times> cheap) option" where
  "freeStaticCredentialProvider h ppCredentialProvider = (case ppCredentialProvider of
     None \<Rightarrow> Some (STATUS_NULL_ARG, None, h)
   | Some p \<Rightarrow>
       if p = 0 then Some (STATUS_SUCCESS, Some p, h)
       else do {
         sp \<leftarrow> get_static h p;
         (_, _, h1) \<leftarrow> freeAwsCredentials h (Some (sp_pAwsCredentials sp));
         Some (STATUS_SUCCESS, Some 0, h1(p := None))
       })"

definition createStaticCredentialProvider ::
    "cred_env \<Rightarrow> cheap \<Rightarrow> PCHAR \<Rightarrow> UINT32 \<Rightarrow> PCHAR \<Rightarrow> UINT32 \<Rightarrow> PCHAR \<Rightarrow> UINT32 \<Rightarrow> UINT64 \<Rightarrow> bool
      \<Rightarrow> (STATUS \<times> UINT64 \<times> cheap) option" where
  "createStaticCredentialProvider E h accessKeyId accessKeyIdLen secretKey secretKeyLen sessionToken sessionTokenLen expiration
      ppCredentialProvider =
     (if \<not> ppCredentialProvider then Some (STATUS_NULL_ARG, 0, h)
      else do {
        (st, pAwsCredentials, h1) \<leftarrow> createAwsCredentials (pe_consts E) (pe_calloc E) h accessKeyId accessKeyIdLen secretKey
          secretKeyLen sessionToken sessionTokenLen expiration True;
        if STATUS_FAILED st then Some (st, 0, h1)
        else (case pe_calloc E h1 of
            None \<Rightarrow> Some (STATUS_NOT_ENOUGH_MEMORY, 0, h1)
          | Some p \<Rightarrow> Some (STATUS_SUCCESS, p, h1(p \<mapsto> OStatic \<lparr>
              sp_getCredentialsFn = Some (C_FUN ''getStaticCredentials''), sp_pAwsCredentials = pAwsCredentials\<rparr>)))
      })"

definition getStaticCredentials :: "cheap \<Rightarrow> UINT64 \<Rightarrow> bool \<Rightarrow> (STATUS \<times> UINT64 option) option" where
  "getStaticCredentials h pCredentialProvider ppAwsCredentials =
     (if \<not> (pCredentialProvider \<noteq> 0 \<and> ppAwsCredentials) then Some (STATUS_NULL_ARG, None)
      else do {
        sp \<leftarrow> get_static h pCredentialProvider;
        Some (STATUS_SUCCESS, Some (sp_pAwsCredentials sp))
      })"

subsection \<open>Reading the credentials file\<close>

definition isspace :: "char \<Rightarrow> bool" where
  "isspace c \<longleftrightarrow> code c \<in> {9, 10, 11, 12, 13, 32}"

text \<open>
  The conversions \<open>%<n>s\<close> of \<open>FSCANF\<close>, one for each width: white space is skipped, then up to the
  width of other characters are stored; the result is the list of the strings that were stored.
\<close>

fun scan_strings :: "nat list \<Rightarrow> string \<Rightarrow> string list" where
  "scan_strings [] s = []"
| "scan_strings (w # ws) s = (case dropWhile isspace s of
     [] \<Rightarrow> []
   | c # s' \<Rightarrow>
       let t = take w (takeWhile (\<lambda>x. \<not> isspace x) (c # s'))
       in takeWhile (\<lambda>x. x \<noteq> NUL) t # scan_strings ws (drop (length t) (c # s')))"

definition MAX_ACCESS_KEY_LEN :: nat where "MAX_ACCESS_KEY_LEN = 128"
definition MAX_SECRET_KEY_LEN :: nat where "MAX_SECRET_KEY_LEN = 128"
definition MAX_SESSION_TOKEN_LEN :: nat where "MAX_SESSION_TOKEN_LEN = 2048"
definition MAX_EXPIRATION_LEN :: nat where "MAX_EXPIRATION_LEN = 128"

definition MAX_CREDENTIAL_FILE_LEN :: "auth_consts \<Rightarrow> nat" where
  "MAX_CREDENTIAL_FILE_LEN K = MAX_AUTH_LEN K"

definition CREDENTIAL_FILE_READ_GRACE_PERIOD :: "auth_consts \<Rightarrow> UINT64" where
  "CREDENTIAL_FILE_READ_GRACE_PERIOD K = 5 * HUNDREDS_OF_NANOS_IN_A_SECOND + MIN_STREAMING_TOKEN_EXPIRATION_DURATION K
     + STREAMING_TOKEN_EXPIRATION_GRACE_PERIOD K"

definition credential_tokens :: "string \<Rightarrow> string list" where
  "credential_tokens content = scan_strings [11, MAX_ACCESS_KEY_LEN, MAX_EXPIRATION_LEN, MAX_SECRET_KEY_LEN, MAX_SESSION_TOKEN_LEN] content"

text \<open>A token buffer: empty when the file had no such token.\<close>

definition token :: "string list \<Rightarrow> nat \<Rightarrow> string" where
  "token ts i = (if i < length ts then ts ! i else '''')"

text \<open>
  What the tokens mean: the secret key, and the expiration and the session token when there are at
  least four tokens.
\<close>

definition secret_of :: "string list \<Rightarrow> string" where
  "secret_of ts = (if token ts 3 = '''' then token ts 2 else token ts 3)"

definition expirationStr_of :: "string list \<Rightarrow> PCHAR" where
  "expirationStr_of ts = (if token ts 3 = '''' then None else Some (token ts 2))"

definition sessionToken_of :: "string list \<Rightarrow> PCHAR" where
  "sessionToken_of ts = (if token ts 3 = '''' then None else Some (token ts 4))"

text \<open>The expiration that is read, before it is cut to the maximum; \<open>Inl\<close> is the status of a failure.\<close>

definition read_expiration :: "cred_env \<Rightarrow> UINT64 \<Rightarrow> string list \<Rightarrow> (STATUS + UINT64) option" where
  "read_expiration E currentTime ts = (case expirationStr_of ts of
     None \<Rightarrow> Some (Inr (currentTime + MAX_ENFORCED_TOKEN_EXPIRATION_DURATION (pe_consts E)))
   | Some s \<Rightarrow> do {
       (st, e) \<leftarrow> convertTimestampToEpoch (pe_strtoui32 E) (pe_tz E) (Some s) (currentTime div HUNDREDS_OF_NANOS_IN_A_SECOND) True;
       Some (case e of None \<Rightarrow> Inl st | Some v \<Rightarrow> if STATUS_FAILED st then Inl st else Inr v)
     })"

text \<open>
  The part of \<open>readFileCredentials\<close> after the file was opened. The first token goes to a buffer that is
  not initialised: when the file has none, comparing it is undefined.
\<close>

definition replace_credentials ::
    "cred_env \<Rightarrow> cheap \<Rightarrow> UINT64 \<Rightarrow> FileCredentialProvider \<Rightarrow> string list \<Rightarrow> UINT64 \<Rightarrow> (STATUS \<times> cheap) option" where
  "replace_credentials E h pFileCredentialProvider f ts expiration = (
     let accessKeyId = token ts 1; secretKey = secret_of ts; sessionToken = sessionToken_of ts;
         accessKeyIdLen = of_nat (STRNLEN accessKeyId MAX_ACCESS_KEY_LEN);
         secretKeyLen = of_nat (STRNLEN secretKey MAX_SECRET_KEY_LEN);
         sessionTokenLen = (case sessionToken of None \<Rightarrow> 0 | Some s \<Rightarrow> of_nat (STRNLEN s MAX_SESSION_TOKEN_LEN))
     in if \<not> (accessKeyIdLen \<noteq> 0 \<and> secretKeyLen \<noteq> 0) then Some (STATUS_INVALID_AUTH_LEN, h)
        else do {
          h1 \<leftarrow> (if fp_pAwsCredentials f \<noteq> 0
                then map_option (\<lambda>(_, _, h'). h') (freeAwsCredentials h (Some (fp_pAwsCredentials f)))
                else Some h);
          let h2 = h1(pFileCredentialProvider \<mapsto> OFile (f\<lparr>fp_pAwsCredentials := 0\<rparr>));
          (st, p, h3) \<leftarrow> createAwsCredentials (pe_consts E) (pe_calloc E) h2 (Some accessKeyId) accessKeyIdLen (Some secretKey)
            secretKeyLen sessionToken sessionTokenLen expiration True;
          Some (st, h3(pFileCredentialProvider \<mapsto> OFile (f\<lparr>fp_pAwsCredentials := p\<rparr>)))
        })"

definition load_credentials ::
    "cred_env \<Rightarrow> cheap \<Rightarrow> UINT64 \<Rightarrow> FileCredentialProvider \<Rightarrow> UINT64 \<Rightarrow> string \<Rightarrow> (STATUS \<times> cheap) option" where
  "load_credentials E h pFileCredentialProvider f currentTime content = (
     let K = pe_consts E; ts = credential_tokens content in
     if \<not> length content < MAX_CREDENTIAL_FILE_LEN K
     then Some (STATUS_FILE_CREDENTIAL_PROVIDER_INVALID_FILE_LENGTH, h)
     else if ts = [] then None
     else if STRCMP (ts ! 0) ''CREDENTIALS'' \<noteq> 0 then Some (STATUS_FILE_CREDENTIAL_PROVIDER_INVALID_FILE_FORMAT, h)
     else do {
       e \<leftarrow> read_expiration E currentTime ts;
       case e of
         Inl st \<Rightarrow> Some (st, h)
       | Inr expiration \<Rightarrow> replace_credentials E h pFileCredentialProvider f ts
           (min expiration (currentTime + MAX_ENFORCED_TOKEN_EXPIRATION_DURATION K))
     })"

definition readFileCredentials :: "cred_env \<Rightarrow> cheap \<Rightarrow> UINT64 \<Rightarrow> (STATUS \<times> cheap) option" where
  "readFileCredentials E h pFileCredentialProvider =
     (if pFileCredentialProvider = 0 then Some (STATUS_NULL_ARG, h)
      else do {
        f \<leftarrow> get_file h pFileCredentialProvider;
        timeFn \<leftarrow> fp_getCurrentTimeFn f;
        let currentTime = pe_time E timeFn (fp_customData f);
        refresh \<leftarrow> (if fp_pAwsCredentials f = 0 then Some True
                   else map_option (\<lambda>c. currentTime + CREDENTIAL_FILE_READ_GRACE_PERIOD (pe_consts E) > ac_expiration c)
                          (get_credentials h (fp_pAwsCredentials f)));
        if \<not> refresh then Some (STATUS_SUCCESS, h)
        else (case pe_fopen E (fp_credentialsFilepath f) of
            None \<Rightarrow> Some (STATUS_FILE_CREDENTIAL_PROVIDER_OPEN_FILE_FAILED, h)
          | Some content \<Rightarrow> load_credentials E h pFileCredentialProvider f currentTime content)
      })"

subsection \<open>The file credential provider\<close>

definition freeFileCredentialProvider :: "cheap \<Rightarrow> UINT64 option \<Rightarrow> (STATUS \<times> UINT64 option \<times> cheap) option" where
  "freeFileCredentialProvider h ppCredentialProvider = (case ppCredentialProvider of
     None \<Rightarrow> Some (STATUS_NULL_ARG, None, h)
   | Some p \<Rightarrow>
       if p = 0 then Some (STATUS_SUCCESS, Some p, h)
       else do {
         f \<leftarrow> get_file h p;
         (_, _, h1) \<leftarrow> freeAwsCredentials h (Some (fp_pAwsCredentials f));
         Some (STATUS_SUCCESS, Some 0, h1(p := None))
       })"

definition createFileCredentialProviderWithTime ::
    "cred_env \<Rightarrow> cheap \<Rightarrow> PCHAR \<Rightarrow> fnptr \<Rightarrow> UINT64 \<Rightarrow> bool \<Rightarrow> (STATUS \<times> UINT64 \<times> cheap) option" where
  "createFileCredentialProviderWithTime E h pCredentialsFilepath getCurrentTimeFn customData ppCredentialProvider =
     (if \<not> ppCredentialProvider then Some (STATUS_NULL_ARG, 0, h)
      else case pCredentialsFilepath of
        None \<Rightarrow> Some (STATUS_INVALID_ARG, 0, h)
      | Some path \<Rightarrow>
          if path = '''' then Some (STATUS_INVALID_ARG, 0, h)
          else if \<not> unat (of_nat (length path) :: UINT32) \<le> MAX_PATH_LEN (pe_consts E) then Some (STATUS_INVALID_ARG, 0, h)
          else (case pe_calloc E h of
              None \<Rightarrow> Some (STATUS_NOT_ENOUGH_MEMORY, 0, h)
            | Some p \<Rightarrow> do {
                let h1 = h(p \<mapsto> OFile \<lparr>fp_getCredentialsFn = Some (C_FUN ''getFileCredentials''),
                  fp_getCurrentTimeFn = (if getCurrentTimeFn = None then Some (C_FUN ''commonDefaultGetCurrentTimeFunc'') else getCurrentTimeFn),
                  fp_customData = customData, fp_pAwsCredentials = 0, fp_credentialsFilepath = path\<rparr>);
                (st, h2) \<leftarrow> readFileCredentials E h1 p;
                if STATUS_FAILED st
                then map_option (\<lambda>(_, _, h3). (st, 0, h3)) (freeFileCredentialProvider h2 (Some p))
                else Some (STATUS_SUCCESS, p, h2)
              }))"

definition createFileCredentialProvider ::
    "cred_env \<Rightarrow> cheap \<Rightarrow> PCHAR \<Rightarrow> bool \<Rightarrow> (STATUS \<times> UINT64 \<times> cheap) option" where
  "createFileCredentialProvider E h pCredentialsFilepath ppCredentialProvider =
     createFileCredentialProviderWithTime E h pCredentialsFilepath (Some (C_FUN ''commonDefaultGetCurrentTimeFunc'')) 0 ppCredentialProvider"

definition getFileCredentials :: "cred_env \<Rightarrow> cheap \<Rightarrow> UINT64 \<Rightarrow> bool \<Rightarrow> (STATUS \<times> UINT64 option \<times> cheap) option" where
  "getFileCredentials E h pCredentialProvider ppAwsCredentials =
     (if \<not> (pCredentialProvider \<noteq> 0 \<and> ppAwsCredentials) then Some (STATUS_NULL_ARG, None, h)
      else do {
        (st, h1) \<leftarrow> readFileCredentials E h pCredentialProvider;
        if STATUS_FAILED st then Some (st, None, h1)
        else do {
          f \<leftarrow> get_file h1 pCredentialProvider;
          Some (STATUS_SUCCESS, Some (fp_pAwsCredentials f), h1)
        }
      })"

subsection \<open>Tokens and new credentials\<close>

lemma scan_strings_length: "length (scan_strings ws s) \<le> length ws"
  by (induction ws s rule: scan_strings.induct) (auto simp: Let_def split: list.splits)

lemma scan_strings_nth:
  "i < length (scan_strings ws s) \<Longrightarrow> length (scan_strings ws s ! i) \<le> ws ! i \<and> NUL \<notin> set (scan_strings ws s ! i)"
proof (induction ws s arbitrary: i rule: scan_strings.induct)
  case (2 w ws s)
  show ?case
  proof (cases "dropWhile isspace s")
    case Nil
    have "scan_strings (w # ws) s = []" by (simp only: scan_strings.simps Nil list.case)
    then show ?thesis using 2(2) by (simp only: list.size)
  next
    case (Cons c s')
    define t where "t = take w (takeWhile (\<lambda>x. \<not> isspace x) (c # s'))"
    have eq: "scan_strings (w # ws) s = takeWhile (\<lambda>x. x \<noteq> NUL) t # scan_strings ws (drop (length t) (c # s'))"
      using Cons by (simp add: t_def Let_def)
    have t: "length (takeWhile (\<lambda>x. x \<noteq> NUL) t) \<le> w" "NUL \<notin> set (takeWhile (\<lambda>x. x \<noteq> NUL) t)"
      using length_takeWhile_le [of _ t] by (auto simp: t_def dest: set_takeWhileD intro: order_trans)
    show ?thesis
    proof (cases i)
      case 0
      then show ?thesis using t by (simp only: eq nth_Cons_0) simp
    next
      case (Suc j)
      then show ?thesis using 2(1) [OF Cons t_def, of j] 2(2) by (simp only: eq) simp
    qed
  qed
qed simp

lemma token_scan: "i < length ws \<Longrightarrow> length (token (scan_strings ws s) i) \<le> ws ! i"
  using scan_strings_nth [of i ws s] by (simp add: token_def)

lemma token_props:
  "length (token (credential_tokens content) 1) \<le> 128" "length (token (credential_tokens content) 2) \<le> 128"
  "length (token (credential_tokens content) 3) \<le> 128" "length (token (credential_tokens content) 4) \<le> 2048"
  "NUL \<notin> set (token (credential_tokens content) i)"
proof -
  let ?ws = "[11, 128, 128, 128, 2048] :: nat list"
  have ts: "credential_tokens content = scan_strings ?ws content"
    by (simp only: credential_tokens_def MAX_ACCESS_KEY_LEN_def MAX_SECRET_KEY_LEN_def MAX_SESSION_TOKEN_LEN_def MAX_EXPIRATION_LEN_def)
  show "NUL \<notin> set (token (credential_tokens content) i)"
    unfolding ts token_def using scan_strings_nth [of i ?ws content] by (cases "i < length (scan_strings ?ws content)") simp_all
  have "length (token (scan_strings ?ws content) i) \<le> ?ws ! i" if "i < 5" for i by (rule token_scan) (use that in \<open>simp add: numeral_eq_Suc\<close>)
  from this [of 1] this [of 2] this [of 3] this [of 4]
  show "length (token (credential_tokens content) 1) \<le> 128" "length (token (credential_tokens content) 2) \<le> 128"
    "length (token (credential_tokens content) 3) \<le> 128" "length (token (credential_tokens content) 4) \<le> 2048"
    unfolding ts by (simp_all only: nth_Cons_numeral nth_Cons_0) simp_all
qed

lemma createAwsCredentials_fits:
  fixes e :: UINT64
  assumes "MAX_AUTH_LEN K < 2 ^ 29" and "SIZEOF_AwsCredentials K < 2 ^ 29"
    and "fits K a aLen" "fits K k kLen" and "case t of None \<Rightarrow> tLen = 0 | Some s \<Rightarrow> fits K s tLen"
  defines "c \<equiv> credentials_of K (arg_string K a aLen) (arg_string K k kLen) (map_option (\<lambda>s. arg_string K s tLen) t) e"
  shows "createAwsCredentials K calloc h (Some a) aLen (Some k) kLen t tLen e True =
    (if \<not> SIZEOF_AwsCredentials K + length (ac_data c) < MAX_AUTH_LEN K then Some (STATUS_INVALID_AUTH_LEN, 0, h)
     else case calloc h of None \<Rightarrow> Some (STATUS_NOT_ENOUGH_MEMORY, 0, h) | Some p \<Rightarrow> Some (STATUS_SUCCESS, p, h(p \<mapsto> OCredentials c)))"
proof -
  have "total_size K (length (arg_string K a aLen)) (length (arg_string K k kLen))
      (map_option length (map_option (\<lambda>s. arg_string K s tLen) t)) = SIZEOF_AwsCredentials K + length (ac_data c)"
    by (simp add: total_size_def c_def credentials_of_def split: option.splits)
  then show ?thesis
    using build_AwsCredentials_result [OF assms(1-5), of "calloc h \<noteq> None" e]
    by (auto simp: createAwsCredentials_def Let_def c_def split: option.splits)
qed

lemma arg_string_full:
  assumes "fits K s (of_nat (length s))" "MAX_AUTH_LEN K < 2 ^ 29"
  shows "arg_string K s (of_nat (length s)) = s"
proof -
  have "length s < 2 ^ 32" using assms by (simp add: fits_def)
  then have "unat (of_nat (length s) :: UINT32) = length s" by (simp add: unat_of_nat take_bit_nat_eq_self)
  moreover have "(of_nat (length s) :: UINT32) \<noteq> 0" using assms calculation by (metis fits_def length_0_conv unat_0)
  ultimately show ?thesis by (simp add: arg_string_def given_len_def)
qed

subsection \<open>The file provider's invariant\<close>

definition file_owned :: "cheap \<Rightarrow> UINT64 \<Rightarrow> UINT64 set" where
  "file_owned h p = (case get_file h p of None \<Rightarrow> {}
     | Some f \<Rightarrow> {p} \<union> (if fp_pAwsCredentials f = 0 then {} else {fp_pAwsCredentials f}))"

definition file_inv :: "cheap \<Rightarrow> UINT64 \<Rightarrow> bool" where
  "file_inv h p \<longleftrightarrow> p \<noteq> 0 \<and> (\<exists>f. h p = Some (OFile f) \<and> fp_getCurrentTimeFn f \<noteq> None \<and>
     (fp_pAwsCredentials f \<noteq> 0 \<longrightarrow> (\<exists>c. h (fp_pAwsCredentials f) = Some (OCredentials c))))"

text \<open>
  An operation on a provider changes only the objects the provider owns: what it no longer owns is
  released, what it newly owns was not allocated before.
\<close>

definition owner_step :: "(cheap \<Rightarrow> UINT64 \<Rightarrow> UINT64 set) \<Rightarrow> UINT64 \<Rightarrow> cheap \<Rightarrow> cheap \<Rightarrow> bool" where
  "owner_step owned p h h' \<longleftrightarrow>
     (\<forall>q. q \<notin> owned h p \<union> owned h' p \<longrightarrow> h' q = h q) \<and>
     (\<forall>q. q \<in> owned h p - owned h' p \<longrightarrow> h' q = None) \<and> (\<forall>q. q \<in> owned h' p - owned h p \<longrightarrow> h q = None)"

lemma owner_step_refl [simp]: "owner_step owned p h h"
  by (simp add: owner_step_def)

text \<open>What the provider relies on: the allocator, the sizes, and files that have a token and whose expiration can be converted.\<close>

definition consts_ok :: "auth_consts \<Rightarrow> bool" where
  "consts_ok K \<longleftrightarrow> MAX_AUTH_LEN K < 2 ^ 29 \<and> 2048 < MAX_AUTH_LEN K \<and> SIZEOF_AwsCredentials K < 2 ^ 29"

definition cred_env_ok :: "cred_env \<Rightarrow> bool" where
  "cred_env_ok E \<longleftrightarrow> fresh_calloc (pe_calloc E) \<and> consts_ok (pe_consts E) \<and>
     (\<forall>path content currentTime. pe_fopen E path = Some content \<longrightarrow> credential_tokens content \<noteq> [] \<and>
        read_expiration E currentTime (credential_tokens content) \<noteq> None)"

text \<open>The credentials that a list of tokens describes.\<close>

definition token_credentials :: "auth_consts \<Rightarrow> string list \<Rightarrow> UINT64 \<Rightarrow> AwsCredentials" where
  "token_credentials K ts e = credentials_of K (token ts 1) (secret_of ts) (sessionToken_of ts) e"

lemma fits_token:
  assumes "consts_ok K" "s \<noteq> ''''" "NUL \<notin> set s" "length s \<le> 2048"
  shows "fits K s (of_nat (length s))"
  using assms by (simp add: fits_def consts_ok_def unat_of_nat take_bit_nat_eq_self)

lemma of_nat_length_0: "length (s :: string) \<le> 2048 \<Longrightarrow> (of_nat (length s) :: UINT32) = 0 \<longleftrightarrow> s = ''''"
  by (simp add: word_unat_eq_iff unat_of_nat take_bit_nat_eq_self)

text \<open>The heap without the credentials of a provider.\<close>

definition dropped :: "cheap \<Rightarrow> UINT64 \<Rightarrow> FileCredentialProvider \<Rightarrow> cheap" where
  "dropped h p f = (if fp_pAwsCredentials f = 0 then h else h(fp_pAwsCredentials f := None))(p \<mapsto> OFile (f\<lparr>fp_pAwsCredentials := 0\<rparr>))"

lemma replace_credentials_cases:
  assumes "consts_ok (pe_consts E)" and "file_inv h p" "h p = Some (OFile f)" and "ts = credential_tokens content"
  shows "replace_credentials E h p f ts e = Some (
    if token ts 1 = '''' \<or> secret_of ts = '''' then (STATUS_INVALID_AUTH_LEN, h)
    else if sessionToken_of ts = Some '''' then (STATUS_INVALID_ARG, dropped h p f)
    else if \<not> SIZEOF_AwsCredentials (pe_consts E) + length (ac_data (token_credentials (pe_consts E) ts e)) < MAX_AUTH_LEN (pe_consts E)
    then (STATUS_INVALID_AUTH_LEN, dropped h p f)
    else case pe_calloc E (dropped h p f) of
        None \<Rightarrow> (STATUS_NOT_ENOUGH_MEMORY, dropped h p f)
      | Some q \<Rightarrow> (STATUS_SUCCESS, (dropped h p f)(q \<mapsto> OCredentials (token_credentials (pe_consts E) ts e),
                      p \<mapsto> OFile (f\<lparr>fp_pAwsCredentials := q\<rparr>))))"
proof -
  let ?K = "pe_consts E"
  have len: "length (token ts 1) \<le> 128" "length (secret_of ts) \<le> 128" "length (token ts 4) \<le> 2048"
    and nul: "NUL \<notin> set (token ts 1)" "NUL \<notin> set (secret_of ts)" "NUL \<notin> set (token ts 4)"
    using token_props [of content] assms(4) by (auto simp: secret_of_def)
  have sn: "STRNLEN (token ts 1) MAX_ACCESS_KEY_LEN = length (token ts 1)" "STRNLEN (secret_of ts) MAX_SECRET_KEY_LEN = length (secret_of ts)"
    "STRNLEN (token ts 4) MAX_SESSION_TOKEN_LEN = length (token ts 4)"
    using len by (simp_all add: STRNLEN_def MAX_ACCESS_KEY_LEN_def MAX_SECRET_KEY_LEN_def MAX_SESSION_TOKEN_LEN_def)
  have ac: "MAX_AUTH_LEN ?K < 2 ^ 29" "SIZEOF_AwsCredentials ?K < 2 ^ 29" using assms(1) by (simp_all add: consts_ok_def)
  have z: "(of_nat (length (token ts 1)) :: UINT32) = 0 \<longleftrightarrow> token ts 1 = ''''" "(of_nat (length (secret_of ts)) :: UINT32) = 0 \<longleftrightarrow> secret_of ts = ''''"
    using of_nat_length_0 len by simp_all
  have fr: "(if fp_pAwsCredentials f \<noteq> 0 then map_option (\<lambda>(_, _, h'). h') (freeAwsCredentials h (Some (fp_pAwsCredentials f))) else Some h) =
      Some (if fp_pAwsCredentials f = 0 then h else h(fp_pAwsCredentials f := None))"
    using assms(2,3) by (auto simp: file_inv_def freeAwsCredentials_def)
  have pd: "(dropped h p f)(p \<mapsto> OFile (f\<lparr>fp_pAwsCredentials := 0\<rparr>)) = dropped h p f" by (simp add: dropped_def)
  define tLen :: UINT32 where "tLen = (case sessionToken_of ts of None \<Rightarrow> 0 | Some s \<Rightarrow> of_nat (length s))"
  have tl: "(case sessionToken_of ts of None \<Rightarrow> 0 | Some s \<Rightarrow> of_nat (STRNLEN s MAX_SESSION_TOKEN_LEN)) = tLen"
    using sn(3) by (auto simp: sessionToken_of_def tLen_def)
  show ?thesis
  proof (cases "token ts 1 = '''' \<or> secret_of ts = ''''")
    case True
    then show ?thesis unfolding replace_credentials_def Let_def sn z by simp
  next
    case ne: False
    let ?c = "createAwsCredentials ?K (pe_calloc E) (dropped h p f) (Some (token ts 1)) (of_nat (length (token ts 1))) (Some (secret_of ts))
            (of_nat (length (secret_of ts))) (sessionToken_of ts) tLen e True"
    have r: "replace_credentials E h p f ts e = map_option (\<lambda>(st, q, h3). (st, h3(p \<mapsto> OFile (f\<lparr>fp_pAwsCredentials := q\<rparr>)))) ?c"
      unfolding replace_credentials_def Let_def fr tl sn z dropped_def using ne
      by (simp del: One_nat_def split: option.splits bind_splits)
    have f1: "fits ?K (token ts 1) (of_nat (length (token ts 1)))" "fits ?K (secret_of ts) (of_nat (length (secret_of ts)))"
      using fits_token [OF assms(1)] ne len nul by simp_all
    show ?thesis
    proof (cases "sessionToken_of ts = Some ''''")
      case True
      then have "?c = Some (STATUS_INVALID_ARG, 0, dropped h p f)"
        using ne by (simp add: createAwsCredentials_def build_AwsCredentials_def)
      then show ?thesis unfolding r using ne True by (simp add: pd)
    next
      case False
      then have f2: "case sessionToken_of ts of None \<Rightarrow> tLen = 0
          | Some s \<Rightarrow> fits ?K s tLen"
        using fits_token [OF assms(1)] len nul by (auto simp: sessionToken_of_def tLen_def)
      have m: "map_option (\<lambda>s. arg_string ?K s tLen) (sessionToken_of ts) = sessionToken_of ts"
        using f2 arg_string_full [OF _ ac(1)] by (cases "sessionToken_of ts") (auto simp: tLen_def)
      show ?thesis
        unfolding r createAwsCredentials_fits [OF ac f1 f2] m arg_string_full [OF f1(1) ac(1)] arg_string_full [OF f1(2) ac(1)]
        using ne False by (simp add: token_credentials_def pd split: option.splits)
    qed
  qed
qed

lemma dropped_inv:
  assumes "file_inv h p" "h p = Some (OFile f)"
  shows "file_inv (dropped h p f) p" "file_owned (dropped h p f) p = {p}" "owner_step file_owned p h (dropped h p f)"
  using assms
  by (auto simp: file_inv_def file_owned_def dropped_def owner_step_def split: if_splits)

lemma filled_inv:
  fixes c :: AwsCredentials
  assumes "file_inv h p" "h p = Some (OFile f)" "dropped h p f q = None" "q \<noteq> 0"
  defines "h' \<equiv> (dropped h p f)(q \<mapsto> OCredentials c, p \<mapsto> OFile (f\<lparr>fp_pAwsCredentials := q\<rparr>))"
  shows "file_inv h' p" "owner_step file_owned p h h'" "h' q = Some (OCredentials c)" "h' p = Some (OFile (f\<lparr>fp_pAwsCredentials := q\<rparr>))"
proof -
  have qp: "q \<noteq> p" using assms(3) by (auto simp: dropped_def)
  then show "h' q = Some (OCredentials c)" "h' p = Some (OFile (f\<lparr>fp_pAwsCredentials := q\<rparr>))" by (simp_all add: h'_def)
  then show "file_inv h' p" using assms(1,2) by (auto simp: file_inv_def)
  have "h q = None \<or> q = fp_pAwsCredentials f" using assms(3) qp by (auto simp: dropped_def split: if_splits)
  then show "owner_step file_owned p h h'"
    using assms(1,2,4) qp by (auto simp: owner_step_def file_owned_def h'_def dropped_def file_inv_def)
qed

text \<open>What a provider's time function says.\<close>

definition file_time :: "cred_env \<Rightarrow> cheap \<Rightarrow> UINT64 \<Rightarrow> UINT64" where
  "file_time E h p = (case get_file h p of Some f \<Rightarrow> (case fp_getCurrentTimeFn f of Some g \<Rightarrow> pe_time E g (fp_customData f) | None \<Rightarrow> 0) | None \<Rightarrow> 0)"

definition file_credentials :: "cheap \<Rightarrow> UINT64 \<Rightarrow> AwsCredentials option" where
  "file_credentials h p = (case get_file h p of None \<Rightarrow> None | Some f \<Rightarrow> get_credentials h (fp_pAwsCredentials f))"

text \<open>Credentials that were read from the file's tokens, with the expiration cut to the maximum.\<close>

definition loaded :: "cred_env \<Rightarrow> cheap \<Rightarrow> UINT64 \<Rightarrow> AwsCredentials \<Rightarrow> bool" where
  "loaded E h p c \<longleftrightarrow> (\<exists>f content e. get_file h p = Some f \<and> pe_fopen E (fp_credentialsFilepath f) = Some content \<and>
     token (credential_tokens content) 0 = ''CREDENTIALS'' \<and>
     read_expiration E (file_time E h p) (credential_tokens content) = Some (Inr e) \<and>
     c = token_credentials (pe_consts E) (credential_tokens content)
           (min e (file_time E h p + MAX_ENFORCED_TOKEN_EXPIRATION_DURATION (pe_consts E))))"

text \<open>The good outcomes of an operation on a file provider.\<close>

definition file_outcome :: "cred_env \<Rightarrow> cheap \<Rightarrow> UINT64 \<Rightarrow> STATUS \<Rightarrow> cheap \<Rightarrow> bool" where
  "file_outcome E h p st h' \<longleftrightarrow> file_inv h' p \<and> owner_step file_owned p h h' \<and>
     (st = STATUS_SUCCESS \<longrightarrow> (\<exists>c. file_credentials h' p = Some c \<and> loaded E h p c))"

lemma replace_credentials_outcome:
  assumes "cred_env_ok E" "file_inv h p" "h p = Some (OFile f)" "ts = credential_tokens content"
  shows "\<exists>st h'. replace_credentials E h p f ts e = Some (st, h') \<and> file_inv h' p \<and> owner_step file_owned p h h' \<and>
    (st = STATUS_SUCCESS \<longrightarrow> file_credentials h' p = Some (token_credentials (pe_consts E) ts e))"
proof -
  have K: "consts_ok (pe_consts E)" and fc: "fresh_calloc (pe_calloc E)" using assms(1) by (simp_all add: cred_env_ok_def)
  note D = dropped_inv [OF assms(2,3)]
  show ?thesis
  proof (cases "pe_calloc E (dropped h p f)")
    case None
    then show ?thesis unfolding replace_credentials_cases [OF K assms(2-4)] using D assms(2) by auto
  next
    case (Some q)
    then have q: "dropped h p f q = None" "q \<noteq> 0" using fc by (auto simp: fresh_calloc_def)
    have "file_credentials ((dropped h p f)(q \<mapsto> OCredentials c, p \<mapsto> OFile (f\<lparr>fp_pAwsCredentials := q\<rparr>))) p = Some c" for c
      using filled_inv(3,4) [OF assms(2,3) q, of c] by (simp add: file_credentials_def)
    then show ?thesis
      unfolding replace_credentials_cases [OF K assms(2-4)] using Some D assms(2) filled_inv(1,2) [OF assms(2,3) q] by auto
  qed
qed

lemma load_credentials_outcome:
  assumes "cred_env_ok E" "file_inv h p" "h p = Some (OFile f)" "pe_fopen E (fp_credentialsFilepath f) = Some content"
    "currentTime = file_time E h p"
  shows "\<exists>st h'. load_credentials E h p f currentTime content = Some (st, h') \<and> file_outcome E h p st h'"
proof -
  let ?ts = "credential_tokens content"
  have ne: "?ts \<noteq> []" "read_expiration E currentTime ?ts \<noteq> None" using assms(1,4) by (auto simp: cred_env_ok_def)
  then have t0: "token ?ts 0 = ?ts ! 0" by (simp add: token_def)
  have same: "file_outcome E h p st h" if "st \<noteq> STATUS_SUCCESS" for st using assms(2) that by (simp add: file_outcome_def)
  consider "\<not> length content < MAX_CREDENTIAL_FILE_LEN (pe_consts E)" | "STRCMP (?ts ! 0) ''CREDENTIALS'' \<noteq> 0"
    | (ok) "length content < MAX_CREDENTIAL_FILE_LEN (pe_consts E)" "?ts ! 0 = ''CREDENTIALS''"
    by (auto simp: STRCMP_eq)
  then show ?thesis
  proof cases
    case ok
    obtain r where r: "read_expiration E currentTime ?ts = Some r" using ne(2) by auto
    show ?thesis
    proof (cases r)
      case (Inl st)
      have "st \<noteq> STATUS_SUCCESS"
        using r Inl by (auto simp: read_expiration_def convertTimestampToEpoch_def Let_def parse_timestamp_def parse_field_def bind_sum_def
            split: option.splits if_splits bind_splits sum.splits prod.splits)
      then show ?thesis using ok ne r Inl same by (simp add: load_credentials_def Let_def)
    next
      case (Inr e)
      have "load_credentials E h p f currentTime content = replace_credentials E h p f ?ts
          (min e (currentTime + MAX_ENFORCED_TOKEN_EXPIRATION_DURATION (pe_consts E)))"
        using ok ne r Inr by (simp add: load_credentials_def Let_def)
      moreover have "loaded E h p (token_credentials (pe_consts E) ?ts (min e (currentTime + MAX_ENFORCED_TOKEN_EXPIRATION_DURATION (pe_consts E))))"
        using ok r Inr assms(3-5) t0 unfolding loaded_def by auto
      ultimately show ?thesis
        using replace_credentials_outcome [OF assms(1-3) refl, of content
            "min e (currentTime + MAX_ENFORCED_TOKEN_EXPIRATION_DURATION (pe_consts E))"] unfolding file_outcome_def by auto
    qed
  qed (use ne same in \<open>auto simp: load_credentials_def Let_def\<close>)
qed

lemma readFileCredentials_outcome:
  assumes "cred_env_ok E" "file_inv h p"
  shows "\<exists>st h'. readFileCredentials E h p = Some (st, h') \<and> (file_outcome E h p st h' \<or>
    st = STATUS_SUCCESS \<and> h' = h \<and> (\<exists>c. file_credentials h p = Some c \<and>
      file_time E h p + CREDENTIAL_FILE_READ_GRACE_PERIOD (pe_consts E) \<le> ac_expiration c))"
proof -
  obtain f g where f: "h p = Some (OFile f)" "fp_getCurrentTimeFn f = Some g" "p \<noteq> 0"
    using assms(2) by (auto simp: file_inv_def)
  define now where "now = pe_time E g (fp_customData f)"
  have t: "file_time E h p = now" using f by (simp add: file_time_def now_def)
  have opened: "\<exists>st h'. (case pe_fopen E (fp_credentialsFilepath f) of
      None \<Rightarrow> Some (STATUS_FILE_CREDENTIAL_PROVIDER_OPEN_FILE_FAILED, h)
    | Some content \<Rightarrow> load_credentials E h p f now content) = Some (st, h') \<and> file_outcome E h p st h'"
    using load_credentials_outcome [OF assms f(1)] t assms(2)
    by (cases "pe_fopen E (fp_credentialsFilepath f)") (auto simp: file_outcome_def)
  show ?thesis
  proof (cases "fp_pAwsCredentials f = 0")
    case True
    then show ?thesis using opened f unfolding now_def by (auto simp: readFileCredentials_def)
  next
    case False
    then obtain c where c: "h (fp_pAwsCredentials f) = Some (OCredentials c)" using assms(2) f by (auto simp: file_inv_def)
    then have "file_credentials h p = Some c" using f by (simp add: file_credentials_def)
    then show ?thesis using opened f c False t unfolding now_def by (auto simp: readFileCredentials_def Let_def not_less)
  qed
qed

subsection \<open>Properties of the file provider\<close>

text \<open>
  C22: reading the credentials file on demand. In an environment that keeps its promises, the operation
  is always defined, keeps the provider's invariant, changes no object of anybody else and neither
  leaks nor reuses an object. On success the provider has credentials, and either it kept the ones it
  had, which stay valid beyond the grace period, or they are what the file says, and they expire at
  the latest after the maximum duration.
\<close>

theorem file_credentials_fresh:
  assumes "cred_env_ok E" and "file_inv h p"
  shows "\<exists>st h'. readFileCredentials E h p = Some (st, h') \<and> file_inv h' p \<and> owner_step file_owned p h h' \<and>
    (st = STATUS_SUCCESS \<longrightarrow> (\<exists>c. file_credentials h' p = Some c \<and>
       (h' = h \<and> file_time E h p + CREDENTIAL_FILE_READ_GRACE_PERIOD (pe_consts E) \<le> ac_expiration c \<or>
        loaded E h p c \<and> ac_expiration c \<le> file_time E h p + MAX_ENFORCED_TOKEN_EXPIRATION_DURATION (pe_consts E))))"
proof -
  have "ac_expiration c \<le> file_time E h p + MAX_ENFORCED_TOKEN_EXPIRATION_DURATION (pe_consts E)" if "loaded E h p c" for c
    using that by (auto simp: loaded_def token_credentials_def credentials_of_def)
  then show ?thesis
    using readFileCredentials_outcome [OF assms] assms(2) unfolding file_outcome_def by (metis owner_step_refl)
qed

lemma file_free:
  assumes "file_inv h p"
  shows "\<exists>h'. freeFileCredentialProvider h (Some p) = Some (STATUS_SUCCESS, Some 0, h') \<and>
    (\<forall>q. h' q = (if q \<in> file_owned h p then None else h q))"
  using assms by (auto simp: file_inv_def freeFileCredentialProvider_def freeAwsCredentials_def file_owned_def)

lemma owner_step_trans: "\<lbrakk>owner_step owned p h h'; owner_step owned p h' h''\<rbrakk> \<Longrightarrow> owner_step owned p h h''"
  unfolding owner_step_def by (metis Diff_iff Un_iff)

lemma createFile_outcome:
  assumes "cred_env_ok E"
    and "createFileCredentialProviderWithTime E h path timeFn customData True = r"
  shows "\<exists>st p h1. r = Some (st, p, h1) \<and>
    (st \<noteq> STATUS_SUCCESS \<longrightarrow> p = 0 \<and> h1 = h) \<and>
    (st = STATUS_SUCCESS \<longrightarrow> path \<noteq> None \<and> path \<noteq> Some '''' \<and> h p = None \<and> file_inv h1 p \<and> file_credentials h1 p \<noteq> None \<and>
       freeFileCredentialProvider h1 (Some p) = Some (STATUS_SUCCESS, Some 0, h) \<and>
       (\<forall>E' st' h2. cred_env_ok E' \<and> readFileCredentials E' h1 p = Some (st', h2) \<longrightarrow>
          freeFileCredentialProvider h2 (Some p) = Some (STATUS_SUCCESS, Some 0, h)))"
proof -
  let ?f = "\<lambda>s. \<lparr>fp_getCredentialsFn = Some (C_FUN ''getFileCredentials''),
     fp_getCurrentTimeFn = (if timeFn = None then Some (C_FUN ''commonDefaultGetCurrentTimeFunc'') else timeFn),
     fp_customData = customData, fp_pAwsCredentials = 0, fp_credentialsFilepath = s\<rparr>"
  have restored: "freeFileCredentialProvider h2 (Some p) = Some (STATUS_SUCCESS, Some 0, h)"
    if inv: "file_inv h2 p" and step: "owner_step file_owned p (h(p \<mapsto> OFile (?f s))) h2" "h p = None" for h2 p s
  proof -
    obtain h' where h': "freeFileCredentialProvider h2 (Some p) = Some (STATUS_SUCCESS, Some 0, h')"
        "\<And>q. h' q = (if q \<in> file_owned h2 p then None else h2 q)"
      using file_free [OF inv] by auto
    define h0 where "h0 = h(p \<mapsto> OFile (?f s))"
    have o: "file_owned h0 p = {p}" "p \<in> file_owned h2 p" using inv by (auto simp: h0_def file_owned_def file_inv_def)
    have "h' q = h q" for q
      using h'(2) [of q] step o unfolding owner_step_def h0_def [symmetric] by (cases "q = p") (auto simp: h0_def)
    then show ?thesis using h'(1) by (simp add: ext)
  qed
  show ?thesis
  proof (cases "path = None \<or> path = Some '''' \<or> \<not> unat (of_nat (length (the path)) :: UINT32) \<le> MAX_PATH_LEN (pe_consts E) \<or> pe_calloc E h = None")
    case True
    then have "\<exists>st. r = Some (st, 0, h) \<and> st \<noteq> STATUS_SUCCESS"
      unfolding assms(2) [symmetric] createFileCredentialProviderWithTime_def by (cases path; cases "pe_calloc E h") auto
    then show ?thesis by blast
  next
    case False
    obtain s p where s0: "path = Some s" "pe_calloc E h = Some p" using False by (cases path; cases "pe_calloc E h") auto
    then have s: "path = Some s" "s \<noteq> ''''" "unat (of_nat (length s) :: UINT32) \<le> MAX_PATH_LEN (pe_consts E)" "pe_calloc E h = Some p"
      using False by simp_all
    then have p: "h p = None" "p \<noteq> 0" using assms(1) by (auto simp: cred_env_ok_def fresh_calloc_def)
    let ?h = "h(p \<mapsto> OFile (?f s))"
    have inv: "file_inv ?h p" using p by (auto simp: file_inv_def)
    obtain st h2 where h2: "readFileCredentials E ?h p = Some (st, h2)"
      and out: "file_outcome E ?h p st h2 \<or> st = STATUS_SUCCESS \<and> h2 = ?h \<and> (\<exists>c. file_credentials ?h p = Some c)"
      using readFileCredentials_outcome [OF assms(1) inv] by blast
    have good: "file_inv h2 p" "owner_step file_owned p ?h h2" "st = STATUS_SUCCESS \<Longrightarrow> file_credentials h2 p \<noteq> None"
      using out inv by (auto simp: file_outcome_def)
    have r: "r = (if STATUS_FAILED st then map_option (\<lambda>(_, _, h3). (st, 0, h3)) (freeFileCredentialProvider h2 (Some p)) else Some (STATUS_SUCCESS, p, h2))"
      using assms(2) s h2 by (simp add: createFileCredentialProviderWithTime_def)
    have later: "freeFileCredentialProvider h3 (Some p) = Some (STATUS_SUCCESS, Some 0, h)"
      if "cred_env_ok E'" "readFileCredentials E' h2 p = Some (st', h3)" for E' st' h3
    proof -
      have "file_inv h3 p" "owner_step file_owned p h2 h3"
        using readFileCredentials_outcome [OF that(1) good(1)] that(2) good(1) by (auto simp: file_outcome_def)
      then show ?thesis using restored [OF _ owner_step_trans [OF good(2)] p(1)] by blast
    qed
    show ?thesis
      using r restored [OF good(1,2) p(1)] good p s later by (cases "st = STATUS_SUCCESS") auto
  qed
qed

text \<open>
  C23: the life of a file provider. Creating one either fails and leaves the heap as it was, or gives a
  provider with credentials from the file. Whatever reading does to the provider later, releasing it
  gives the heap back as it was before it was created: nothing is leaked, released twice or used
  after its release. A path that is NULL, empty or too long is refused.
\<close>

theorem file_provider_lifecycle:
  assumes "cred_env_ok E"
    and "createFileCredentialProviderWithTime E h path timeFn customData True = r"
  shows "\<exists>st p h1. r = Some (st, p, h1) \<and>
    (st \<noteq> STATUS_SUCCESS \<longrightarrow> p = 0 \<and> h1 = h) \<and>
    (st = STATUS_SUCCESS \<longrightarrow> path \<noteq> None \<and> path \<noteq> Some '''' \<and> h p = None \<and> file_inv h1 p \<and> file_credentials h1 p \<noteq> None \<and>
       freeFileCredentialProvider h1 (Some p) = Some (STATUS_SUCCESS, Some 0, h) \<and>
       (\<forall>E' st' h2. cred_env_ok E' \<and> readFileCredentials E' h1 p = Some (st', h2) \<longrightarrow>
          freeFileCredentialProvider h2 (Some p) = Some (STATUS_SUCCESS, Some 0, h)))"
  by (rule createFile_outcome [OF assms])

subsection \<open>Properties of the static provider\<close>

definition static_inv :: "cheap \<Rightarrow> UINT64 \<Rightarrow> bool" where
  "static_inv h p \<longleftrightarrow> p \<noteq> 0 \<and> (\<exists>s c. h p = Some (OStatic s) \<and> h (sp_pAwsCredentials s) = Some (OCredentials c))"

text \<open>
  C24: the life of a static provider. When creating one succeeds, it hands out the credentials object
  that \<open>createAwsCredentials\<close> makes of the arguments, and releasing it gives the heap back as it was.
  A failure leaves the heap as it was, with one exception: when there is memory for the credentials
  but not for the provider, the credentials stay allocated and nobody has a pointer to them.
\<close>

theorem static_provider_lifecycle:
  assumes "fresh_calloc (pe_calloc E)"
    and "createStaticCredentialProvider E h a aLen k kLen t tLen e True = Some (st, p, h2)"
  shows "(st = STATUS_SUCCESS \<longrightarrow> (\<exists>q c h1. createAwsCredentials (pe_consts E) (pe_calloc E) h a aLen k kLen t tLen e True = Some (STATUS_SUCCESS, q, h1) \<and>
       h1 q = Some (OCredentials c) \<and> getStaticCredentials h2 p True = Some (STATUS_SUCCESS, Some q) \<and> h2 q = Some (OCredentials c) \<and>
       static_inv h2 p \<and> freeStaticCredentialProvider h2 (Some p) = Some (STATUS_SUCCESS, Some 0, h))) \<and>
    (st \<noteq> STATUS_SUCCESS \<longrightarrow> p = 0 \<and> (h2 = h \<or> st = STATUS_NOT_ENOUGH_MEMORY \<and>
       (\<exists>q c. h q = None \<and> h2 = h(q \<mapsto> OCredentials c) \<and> pe_calloc E h2 = None)))"
proof -
  obtain st1 q h1 where h1: "createAwsCredentials (pe_consts E) (pe_calloc E) h a aLen k kLen t tLen e True = Some (st1, q, h1)"
    using assms(2) by (auto simp: createStaticCredentialProvider_def split: bind_splits)
  have create: "st1 \<noteq> STATUS_SUCCESS \<and> h1 = h \<or> st1 = STATUS_SUCCESS \<and> (\<exists>c. pe_calloc E h = Some q \<and> h1 = h(q \<mapsto> OCredentials c))"
    using h1 by (auto simp: createAwsCredentials_def build_AwsCredentials_def Let_def split: option.splits if_splits bind_splits)
  show ?thesis
  proof (cases "st1 = STATUS_SUCCESS")
    case False
    then show ?thesis using create assms(2) h1 by (auto simp: createStaticCredentialProvider_def)
  next
    case True
    then obtain c where c: "pe_calloc E h = Some q" "h1 = h(q \<mapsto> OCredentials c)" using create by auto
    then have q: "h q = None" "q \<noteq> 0" using assms(1) by (auto simp: fresh_calloc_def)
    show ?thesis
    proof (cases "pe_calloc E h1")
      case None
      then show ?thesis using assms(2) h1 True c q by (auto simp: createStaticCredentialProvider_def)
    next
      case (Some p')
      then have p: "h1 p' = None" "p' \<noteq> 0" using assms(1) by (auto simp: fresh_calloc_def)
      then have qp: "p' \<noteq> q" using c by auto
      have h2: "st = STATUS_SUCCESS" "p = p'" "h2 = h1(p' \<mapsto> OStatic \<lparr>
          sp_getCredentialsFn = Some (C_FUN ''getStaticCredentials''), sp_pAwsCredentials = q\<rparr>)"
        using assms(2) h1 True Some by (auto simp: createStaticCredentialProvider_def)
      have "freeStaticCredentialProvider h2 (Some p) = Some (STATUS_SUCCESS, Some 0, h2(q := None, p := None))"
        using h2 c q p qp by (simp add: freeStaticCredentialProvider_def freeAwsCredentials_def)
      moreover have "h2(q := None, p := None) = h" using h2 c q p qp by auto
      ultimately show ?thesis
        using h1 True h2 c q p qp by (auto simp: getStaticCredentials_def static_inv_def)
    qed
  qed
qed

subsection \<open>The contract of a credential provider\<close>

text \<open>
  What the authentication callbacks rely on: in its states the provider is defined, stays in its
  states, and hands out a live credentials object when it succeeds.
\<close>

locale credential_provider =
  fixes inv :: "cheap \<Rightarrow> bool"
    and getCredentialsFn :: "cheap \<Rightarrow> (STATUS \<times> UINT64 option \<times> cheap) option"
  assumes get_ok: "inv h \<Longrightarrow> \<exists>st r h'. getCredentialsFn h = Some (st, r, h') \<and> inv h' \<and>
    (st = STATUS_SUCCESS \<longrightarrow> (\<exists>q c. r = Some q \<and> h' q = Some (OCredentials c)))"

interpretation static_provider: credential_provider "\<lambda>h. static_inv h p"
    "\<lambda>h. map_option (\<lambda>(st, r). (st, r, h)) (getStaticCredentials h p True)"
  by unfold_locales (auto simp: static_inv_def getStaticCredentials_def)

lemma getFileCredentials_ok:
  assumes "cred_env_ok E" "file_inv h p"
  shows "\<exists>st r h'. getFileCredentials E h p True = Some (st, r, h') \<and> file_inv h' p \<and>
    (st = STATUS_SUCCESS \<longrightarrow> (\<exists>q c. r = Some q \<and> h' q = Some (OCredentials c)))"
proof -
  obtain st h' where h': "readFileCredentials E h p = Some (st, h')" "file_inv h' p"
      "st = STATUS_SUCCESS \<Longrightarrow> file_credentials h' p \<noteq> None"
    using readFileCredentials_outcome [OF assms] assms(2) by (auto simp: file_outcome_def)
  obtain f where f: "h' p = Some (OFile f)" "p \<noteq> 0" using h'(2) by (auto simp: file_inv_def)
  show ?thesis
    using h' f by (cases "st = STATUS_SUCCESS") (auto simp: getFileCredentials_def file_credentials_def)
qed

interpretation file_provider: credential_provider "\<lambda>h. cred_env_ok E \<and> file_inv h p" "\<lambda>h. getFileCredentials E h p True"
  by unfold_locales (use getFileCredentials_ok in blast)

subsection \<open>Witnesses\<close>

definition sample_env :: cred_env where
  "sample_env = \<lparr>pe_consts = sample_consts, pe_calloc = sample_calloc,
     pe_fopen = (\<lambda>path. if path = ''creds'' then Some ''CREDENTIALS AKID secret'' else None),
     pe_time = (\<lambda>_ _. 100), pe_tz = 0, pe_strtoui32 = plain_strtoui32\<rparr>"

lemma sample_tokens: "credential_tokens ''CREDENTIALS AKID secret'' = [''CREDENTIALS'', ''AKID'', ''secret'']"
  by code_simp

lemma sample_env_ok: "cred_env_ok sample_env"
  using sample_calloc_fresh
  by (simp add: cred_env_ok_def sample_env_def consts_ok_def sample_consts_def sample_tokens read_expiration_def expirationStr_of_def token_def)

definition sample_file_heap :: cheap where
  "sample_file_heap = [56 \<mapsto> OFile \<lparr>fp_getCredentialsFn = Some (C_FUN ''getFileCredentials''),
     fp_getCurrentTimeFn = Some (C_FUN ''commonDefaultGetCurrentTimeFunc''), fp_customData = 0, fp_pAwsCredentials = 0,
     fp_credentialsFilepath = ''creds''\<rparr>]"

theorem file_credentials_fresh_witness:
  "\<exists>h' c. readFileCredentials sample_env sample_file_heap 56 = Some (STATUS_SUCCESS, h') \<and> file_credentials h' 56 = Some c \<and>
     ac_expiration c \<le> 100 + 24000000000 \<and> file_inv h' 56"
proof -
  have inv: "file_inv sample_file_heap 56" by (simp add: file_inv_def sample_file_heap_def)
  have t: "file_time sample_env sample_file_heap 56 = 100" by (simp add: file_time_def sample_file_heap_def sample_env_def)
  have "file_credentials sample_file_heap 56 = None"
    by (simp add: file_credentials_def sample_file_heap_def get_credentials_def)
  moreover have "fst (the (readFileCredentials sample_env sample_file_heap 56)) = STATUS_SUCCESS" by code_simp
  moreover have "MAX_ENFORCED_TOKEN_EXPIRATION_DURATION (pe_consts sample_env) = 24000000000" by (simp add: sample_env_def sample_consts_def)
  ultimately show ?thesis
    using file_credentials_fresh [OF sample_env_ok inv] unfolding t by auto
qed

theorem file_provider_lifecycle_witness:
  "\<exists>p h1. createFileCredentialProviderWithTime sample_env (\<lambda>_. None) (Some ''creds'') None 0 True = Some (STATUS_SUCCESS, p, h1) \<and>
     freeFileCredentialProvider h1 (Some p) = Some (STATUS_SUCCESS, Some 0, \<lambda>_. None)"
proof -
  have "fst (the (createFileCredentialProviderWithTime sample_env (\<lambda>_. None) (Some ''creds'') None 0 True)) = STATUS_SUCCESS" by code_simp
  then show ?thesis
    using file_provider_lifecycle [OF sample_env_ok refl, of "\<lambda>_. None" "Some ''creds''" None 0] by auto
qed

theorem static_provider_lifecycle_witness:
  "\<exists>p h2 q. createStaticCredentialProvider sample_env (\<lambda>_. None) (Some ''AKID'') 0 (Some ''secret'') 0 None 0 9 True = Some (STATUS_SUCCESS, p, h2) \<and>
     getStaticCredentials h2 p True = Some (STATUS_SUCCESS, Some q) \<and>
     freeStaticCredentialProvider h2 (Some p) = Some (STATUS_SUCCESS, Some 0, \<lambda>_. None)"
proof -
  let ?r = "createStaticCredentialProvider sample_env (\<lambda>_. None) (Some ''AKID'') 0 (Some ''secret'') 0 None 0 9 True"
  have "map_option fst ?r = Some STATUS_SUCCESS" by code_simp
  then obtain p h2 where r: "?r = Some (STATUS_SUCCESS, p, h2)" by auto
  have "fresh_calloc (pe_calloc sample_env)" by (simp add: sample_env_def sample_calloc_fresh)
  then show ?thesis using static_provider_lifecycle [OF _ r] r by auto
qed

text \<open>The leak of the static provider, with an allocator that has memory for one object.\<close>

definition one_object_calloc :: "cheap \<Rightarrow> UINT64 option" where
  "one_object_calloc h = small_calloc h [8]"

lemma static_provider_leaks:
  "\<exists>c. createStaticCredentialProvider (sample_env\<lparr>pe_calloc := one_object_calloc\<rparr>) (\<lambda>_. None)
     (Some ''AKID'') 0 (Some ''secret'') 0 None 0 9 True = Some (STATUS_NOT_ENOUGH_MEMORY, 0, [8 \<mapsto> OCredentials c])"
proof -
  have "fits sample_consts ''AKID'' 0" "fits sample_consts ''secret'' 0" by (simp_all add: fits_def sample_consts_def NUL_char)
  then have "createAwsCredentials sample_consts one_object_calloc (\<lambda>_. None) (Some ''AKID'') 0 (Some ''secret'') 0 None 0 9 True =
      Some (STATUS_SUCCESS, 8, [8 \<mapsto> OCredentials (credentials_of sample_consts (arg_string sample_consts ''AKID'' 0)
        (arg_string sample_consts ''secret'' 0) None 9)])"
    by (subst createAwsCredentials_fits)
      (simp_all add: sample_consts_def one_object_calloc_def small_calloc_def credentials_of_def arg_string_def min_def)
  then show ?thesis
    by (simp add: createStaticCredentialProvider_def sample_env_def one_object_calloc_def small_calloc_def) blast
qed

text \<open>An empty file: the marker that is compared was never written.\<close>

lemma empty_file_undefined:
  "readFileCredentials (sample_env\<lparr>pe_fopen := \<lambda>_. Some ''''\<rparr>) sample_file_heap 56 = None"
  by code_simp

end
