(* ===== verification/Service_Calls.thy ===== *)
theory Service_Calls
  imports KVS_Prelude
begin

text \<open>
  The results of service calls. The values of the enumeration \<open>SERVICE_CALL_RESULT\<close> belong to the
  platform independent code and are parameters.
\<close>

type_synonym SERVICE_CALL_RESULT = UINT32

record service_call_consts =
  SERVICE_CALL_RESULT_OK :: SERVICE_CALL_RESULT
  SERVICE_CALL_INVALID_ARG :: SERVICE_CALL_RESULT
  SERVICE_CALL_RESOURCE_NOT_FOUND :: SERVICE_CALL_RESULT
  SERVICE_CALL_FORBIDDEN :: SERVICE_CALL_RESULT
  SERVICE_CALL_RESOURCE_DELETED :: SERVICE_CALL_RESULT
  SERVICE_CALL_NOT_AUTHORIZED :: SERVICE_CALL_RESULT
  SERVICE_CALL_NOT_IMPLEMENTED :: SERVICE_CALL_RESULT
  SERVICE_CALL_INTERNAL_ERROR :: SERVICE_CALL_RESULT
  SERVICE_CALL_REQUEST_TIMEOUT :: SERVICE_CALL_RESULT
  SERVICE_CALL_GATEWAY_TIMEOUT :: SERVICE_CALL_RESULT
  SERVICE_CALL_NETWORK_READ_TIMEOUT :: SERVICE_CALL_RESULT
  SERVICE_CALL_NETWORK_CONNECTION_TIMEOUT :: SERVICE_CALL_RESULT
  SERVICE_CALL_UNKNOWN :: SERVICE_CALL_RESULT

definition getServiceCallResultFromHttpStatus :: "service_call_consts \<Rightarrow> UINT32 \<Rightarrow> SERVICE_CALL_RESULT" where
  "getServiceCallResultFromHttpStatus C httpStatus =
     (if httpStatus \<in> {SERVICE_CALL_RESULT_OK C, SERVICE_CALL_INVALID_ARG C, SERVICE_CALL_RESOURCE_NOT_FOUND C,
          SERVICE_CALL_FORBIDDEN C, SERVICE_CALL_RESOURCE_DELETED C, SERVICE_CALL_NOT_AUTHORIZED C,
          SERVICE_CALL_NOT_IMPLEMENTED C, SERVICE_CALL_INTERNAL_ERROR C, SERVICE_CALL_REQUEST_TIMEOUT C,
          SERVICE_CALL_GATEWAY_TIMEOUT C, SERVICE_CALL_NETWORK_READ_TIMEOUT C, SERVICE_CALL_NETWORK_CONNECTION_TIMEOUT C}
      then httpStatus
      else SERVICE_CALL_UNKNOWN C)"

text \<open>
  A result that is not the unknown one is the HTTP status itself, and a success is never made up.
\<close>

lemma getServiceCallResult_sound:
  "getServiceCallResultFromHttpStatus C s \<noteq> SERVICE_CALL_UNKNOWN C \<Longrightarrow> getServiceCallResultFromHttpStatus C s = s"
  by (auto simp: getServiceCallResultFromHttpStatus_def split: if_splits)

lemma getServiceCallResult_OK:
  "SERVICE_CALL_UNKNOWN C \<noteq> SERVICE_CALL_RESULT_OK C \<Longrightarrow>
   getServiceCallResultFromHttpStatus C s = SERVICE_CALL_RESULT_OK C \<longleftrightarrow> s = SERVICE_CALL_RESULT_OK C"
  by (auto simp: getServiceCallResultFromHttpStatus_def)

end
