(* ===== verification/Auth_Callbacks.thy ===== *)
theory Auth_Callbacks
  imports Callbacks Credential_Providers Service_Calls
begin

text \<open>
  The authentication callbacks of \<open>StaticAuthCallbacks.c\<close>, \<open>FileAuthCallbacks.c\<close> and
  \<open>CredentialProviderAuthCallbacks.c\<close>: objects that begin with an \<open>AuthCallbacks\<close> structure, refer to a
  credential provider and add themselves to the chain of the callbacks provider. The three structures
  have the same fields; \<open>ao_kind\<close> says which of them an object is, and an access to an object of
  another kind is undefined, as is an access to an object that is not live.

  The state has the callbacks provider (or \<open>None\<close> for NULL), the heap of credentials and providers, the
  live callback objects, and the state of the platform independent code and the application, of which
  nothing is assumed. The event that gives the token to the platform independent code and the call of
  the stream error callback are parameters.
\<close>

datatype auth_kind = StaticAuth | FileAuth | IotAuth | CredentialProviderAuth

record AuthObject =
  ao_kind :: auth_kind
  ao_authCallbacks :: AuthCallbacks
  ao_pCredentialProvider :: UINT64
  ao_pCallbacksProvider :: UINT64

type_synonym aheap = "UINT64 \<Rightarrow> AuthObject option"

record 'w auth_state =
  as_provider :: "CallbacksProvider option"
  as_heap :: cheap
  as_objects :: aheap
  as_world :: 'w

record 'w auth_env =
  ae_cred :: cred_env
  ae_calloc :: "aheap \<Rightarrow> UINT64 option"
  ae_getCredentials :: "cfun \<Rightarrow> cheap \<Rightarrow> UINT64 \<Rightarrow> 'w \<Rightarrow> (STATUS \<times> UINT64 option \<times> cheap \<times> 'w) option"
  ae_results :: service_call_consts
  ae_resultEvent :: "UINT64 \<Rightarrow> SERVICE_CALL_RESULT \<Rightarrow> UINT64 \<Rightarrow> UINT32 \<Rightarrow> UINT64 \<Rightarrow> 'w \<Rightarrow> STATUS \<times> 'w"
  ae_streamErrorReport :: "cfun \<Rightarrow> UINT64 \<Rightarrow> STREAM_HANDLE \<Rightarrow> UPLOAD_HANDLE \<Rightarrow> UINT64 \<Rightarrow> STATUS \<Rightarrow> 'w \<Rightarrow> STATUS \<times> 'w"
  ae_invalidUploadHandle :: UPLOAD_HANDLE

definition get_auth :: "auth_kind \<Rightarrow> aheap \<Rightarrow> UINT64 \<Rightarrow> AuthObject option" where
  "get_auth k objs p = (case objs p of None \<Rightarrow> None | Some obj \<Rightarrow> if ao_kind obj = k then Some obj else None)"

lemma get_auth_iff [simp]: "get_auth k objs p = Some obj \<longleftrightarrow> objs p = Some obj \<and> ao_kind obj = k"
  by (auto simp: get_auth_def split: option.splits)

lemma get_auth_live [simp]: "\<lbrakk>objs p = Some obj; ao_kind obj = k\<rbrakk> \<Longrightarrow> get_auth k objs p = Some obj"
  by simp

subsection \<open>Telling the application\<close>

text \<open>\<open>notifyCallResult\<close> of \<open>CurlApiCallbacks.c\<close>.\<close>

definition notifyCallResult ::
    "'w auth_env \<Rightarrow> CallbacksProvider option \<Rightarrow> STATUS \<Rightarrow> STREAM_HANDLE \<Rightarrow> 'w \<Rightarrow> STATUS \<times> 'w" where
  "notifyCallResult E pCallbacksProvider status streamHandle w = (case pCallbacksProvider of
     None \<Rightarrow> (STATUS_INVALID_ARG, w)
   | Some p \<Rightarrow>
       if \<not> (status \<noteq> STATUS_SUCCESS \<and> status \<noteq> STATUS_NULL_ARG) then (STATUS_SUCCESS, w)
       else (case cc_streamErrorReportFn (clientCallbacks p) of
           None \<Rightarrow> (STATUS_SUCCESS, w)
         | Some f \<Rightarrow> ae_streamErrorReport E f (cc_customData (clientCallbacks p)) streamHandle (ae_invalidUploadHandle E) 0 status w))"

subsection \<open>The call of a credential provider\<close>

text \<open>
  The first member of every provider is its function; a call dispatches on it. The static and the file
  provider do not reach beyond the heap; any other one may change the world.
\<close>

definition provider_function :: "cheap \<Rightarrow> UINT64 \<Rightarrow> fnptr" where
  "provider_function h p = (case h p of
     Some (OStatic sp) \<Rightarrow> sp_getCredentialsFn sp
   | Some (OFile fp) \<Rightarrow> fp_getCredentialsFn fp
   | Some (OIot ip) \<Rightarrow> ip_getCredentialsFn ip
   | Some (OProvider f) \<Rightarrow> f
   | _ \<Rightarrow> None)"

definition getCredentialsFn :: "'w auth_env \<Rightarrow> cheap \<Rightarrow> UINT64 \<Rightarrow> 'w \<Rightarrow> (STATUS \<times> UINT64 option \<times> cheap \<times> 'w) option" where
  "getCredentialsFn E h p w = (case provider_function h p of
     None \<Rightarrow> None
   | Some f \<Rightarrow>
       if f = C_FUN ''getStaticCredentials'' then map_option (\<lambda>(st, r). (st, r, h, w)) (getStaticCredentials h p True)
       else if f = C_FUN ''getFileCredentials'' then map_option (\<lambda>(st, r, h'). (st, r, h', w)) (getFileCredentials (ae_cred E) h p True)
       else ae_getCredentials E f h p w)"

subsection \<open>Releasing the objects\<close>

text \<open>
  What the release functions share: the release of the credential provider is a parameter. The
  argument is a pointer to the caller's variable; the second result is its new content.
\<close>

definition free_auth_object ::
    "auth_kind \<Rightarrow> (cheap \<Rightarrow> UINT64 option \<Rightarrow> (STATUS \<times> UINT64 option \<times> cheap) option) \<Rightarrow> 'w auth_state \<Rightarrow> UINT64 option
      \<Rightarrow> (STATUS \<times> UINT64 option \<times> 'w auth_state) option" where
  "free_auth_object k freeProvider s pp = (case pp of
     None \<Rightarrow> Some (STATUS_NULL_ARG, None, s)
   | Some p \<Rightarrow>
       if p = 0 then Some (STATUS_SUCCESS, Some p, s)
       else do {
         obj \<leftarrow> get_auth k (as_objects s) p;
         (_, _, h1) \<leftarrow> freeProvider (as_heap s) (Some (ao_pCredentialProvider obj));
         Some (STATUS_SUCCESS, Some 0, s\<lparr>as_heap := h1, as_objects := (as_objects s)(p := None)\<rparr>)
       })"

definition freeStaticAuthCallbacks :: "'w auth_state \<Rightarrow> UINT64 option \<Rightarrow> (STATUS \<times> UINT64 option \<times> 'w auth_state) option" where
  "freeStaticAuthCallbacks = free_auth_object StaticAuth freeStaticCredentialProvider"

definition freeFileAuthCallbacks :: "'w auth_state \<Rightarrow> UINT64 option \<Rightarrow> (STATUS \<times> UINT64 option \<times> 'w auth_state) option" where
  "freeFileAuthCallbacks = free_auth_object FileAuth freeFileCredentialProvider"

text \<open>The credential provider of the third kind belongs to the application and is not released.\<close>

definition freeCredentialProviderAuthCallbacks :: "'w auth_state \<Rightarrow> UINT64 option \<Rightarrow> (STATUS \<times> UINT64 option \<times> 'w auth_state) option" where
  "freeCredentialProviderAuthCallbacks = free_auth_object CredentialProviderAuth (\<lambda>h p. Some (STATUS_SUCCESS, p, h))"

text \<open>The release functions in the chain get the address of the custom data, \<open>None\<close> for NULL.\<close>

definition free_auth_func ::
    "('w auth_state \<Rightarrow> UINT64 option \<Rightarrow> (STATUS \<times> UINT64 option \<times> 'w auth_state) option) \<Rightarrow> 'w auth_state \<Rightarrow> UINT64 option
      \<Rightarrow> (STATUS \<times> 'w auth_state) option" where
  "free_auth_func free s customData = (case customData of
     None \<Rightarrow> Some (STATUS_NULL_ARG, s)
   | Some p \<Rightarrow> map_option (\<lambda>(st, _, s'). (st, s')) (free s (Some p)))"

definition freeStaticAuthCallbacksFunc :: "'w auth_state \<Rightarrow> UINT64 option \<Rightarrow> (STATUS \<times> 'w auth_state) option" where
  "freeStaticAuthCallbacksFunc = free_auth_func freeStaticAuthCallbacks"

definition freeFileAuthCallbacksFunc :: "'w auth_state \<Rightarrow> UINT64 option \<Rightarrow> (STATUS \<times> 'w auth_state) option" where
  "freeFileAuthCallbacksFunc = free_auth_func freeFileAuthCallbacks"

definition freeCredentialProviderAuthCallbacksFunc :: "'w auth_state \<Rightarrow> UINT64 option \<Rightarrow> (STATUS \<times> 'w auth_state) option" where
  "freeCredentialProviderAuthCallbacksFunc = free_auth_func freeCredentialProviderAuthCallbacks"

subsection \<open>Creating the objects\<close>

text \<open>The structure at the head of an object, with the functions of its kind; the other functions are NULL.\<close>

definition auth_callbacks :: "string \<Rightarrow> string \<Rightarrow> string \<Rightarrow> UINT64 \<Rightarrow> AuthCallbacks" where
  "auth_callbacks getStreamingToken getSecurityToken freeFn self = zero_AuthCallbacks\<lparr>
     au_version := AUTH_CALLBACKS_CURRENT_VERSION, au_customData := self,
     au_getStreamingTokenFn := Some (C_FUN getStreamingToken), au_getSecurityTokenFn := Some (C_FUN getSecurityToken),
     au_freeAuthCallbacksFn := Some (C_FUN freeFn), au_getDeviceCertificateFn := None, au_deviceCertToTokenFn := None,
     au_getDeviceFingerprintFn := None\<rparr>"

text \<open>
  The last steps: the object gets its credential provider and is added to the chain; when that fails,
  it is released. The back pointer is the address of the callbacks provider, which its own custom
  data holds.
\<close>

definition install_auth_object ::
    "('w auth_state \<Rightarrow> UINT64 option \<Rightarrow> (STATUS \<times> UINT64 option \<times> 'w auth_state) option) \<Rightarrow> 'w auth_state \<Rightarrow> UINT64
      \<Rightarrow> AuthObject \<Rightarrow> (STATUS \<times> UINT64 \<times> 'w auth_state) option" where
  "install_auth_object free s p obj = (
     let s1 = s\<lparr>as_objects := (as_objects s)(p \<mapsto> obj)\<rparr> in
     case addAuthCallbacks (as_provider s1) (Some (ao_authCallbacks obj)) of (st, provider) \<Rightarrow>
       let s2 = s1\<lparr>as_provider := provider\<rparr> in
       if STATUS_FAILED st then map_option (\<lambda>(_, _, s3). (st, 0, s3)) (free s2 (Some p))
       else Some (STATUS_SUCCESS, p, s2))"

definition createStaticAuthCallbacks ::
    "'w auth_env \<Rightarrow> 'w auth_state \<Rightarrow> PCHAR \<Rightarrow> PCHAR \<Rightarrow> PCHAR \<Rightarrow> UINT64 \<Rightarrow> bool \<Rightarrow> (STATUS \<times> UINT64 \<times> 'w auth_state) option" where
  "createStaticAuthCallbacks E s accessKeyId secretKey sessionToken expiration ppStaticAuthCallbacks =
     (case as_provider s of
        None \<Rightarrow> Some (STATUS_NULL_ARG, 0, s)
      | Some provider \<Rightarrow>
          if \<not> ppStaticAuthCallbacks then Some (STATUS_NULL_ARG, 0, s)
          else (case ae_calloc E (as_objects s) of
              None \<Rightarrow> Some (STATUS_NOT_ENOUGH_MEMORY, 0, s)
            | Some p \<Rightarrow> do {
                let obj = \<lparr>ao_kind = StaticAuth,
                  ao_authCallbacks = auth_callbacks ''getStreamingTokenStaticFunc'' ''getSecurityTokenStaticFunc'' ''freeStaticAuthCallbacksFunc'' p,
                  ao_pCredentialProvider = 0, ao_pCallbacksProvider = cc_customData (clientCallbacks provider)\<rparr>;
                (st, cp, h1) \<leftarrow> createStaticCredentialProvider (ae_cred E) (as_heap s) accessKeyId 0 secretKey 0 sessionToken 0 expiration True;
                let s1 = s\<lparr>as_heap := h1\<rparr>;
                if STATUS_FAILED st
                then map_option (\<lambda>(_, _, s2). (st, 0, s2)) (freeStaticAuthCallbacks (s1\<lparr>as_objects := (as_objects s)(p \<mapsto> obj)\<rparr>) (Some p))
                else install_auth_object freeStaticAuthCallbacks s1 p (obj\<lparr>ao_pCredentialProvider := cp\<rparr>)
              }))"

definition createFileAuthCallbacks ::
    "'w auth_env \<Rightarrow> 'w auth_state \<Rightarrow> PCHAR \<Rightarrow> bool \<Rightarrow> (STATUS \<times> UINT64 \<times> 'w auth_state) option" where
  "createFileAuthCallbacks E s pCredentialsFilepath ppFileAuthCallbacks =
     (case as_provider s of
        None \<Rightarrow> Some (STATUS_NULL_ARG, 0, s)
      | Some provider \<Rightarrow>
          if \<not> ppFileAuthCallbacks then Some (STATUS_NULL_ARG, 0, s)
          else (case ae_calloc E (as_objects s) of
              None \<Rightarrow> Some (STATUS_NOT_ENOUGH_MEMORY, 0, s)
            | Some p \<Rightarrow> do {
                let obj = \<lparr>ao_kind = FileAuth,
                  ao_authCallbacks = auth_callbacks ''getStreamingTokenFileFunc'' ''getSecurityTokenFileFunc'' ''freeFileAuthCallbacksFunc'' p,
                  ao_pCredentialProvider = 0, ao_pCallbacksProvider = cc_customData (clientCallbacks provider)\<rparr>;
                (st, cp, h1) \<leftarrow> createFileCredentialProviderWithTime (ae_cred E) (as_heap s) pCredentialsFilepath
                  (cc_getCurrentTimeFn (clientCallbacks provider)) (cc_customData (clientCallbacks provider)) True;
                let s1 = s\<lparr>as_heap := h1\<rparr>;
                if STATUS_FAILED st
                then map_option (\<lambda>(_, _, s2). (st, 0, s2))
                       (freeFileAuthCallbacks (s1\<lparr>as_objects := (as_objects s)(p \<mapsto> obj\<lparr>ao_pCredentialProvider := cp\<rparr>)\<rparr>) (Some p))
                else install_auth_object freeFileAuthCallbacks s1 p (obj\<lparr>ao_pCredentialProvider := cp\<rparr>)
              }))"

definition createCredentialProviderAuthCallbacks ::
    "'w auth_env \<Rightarrow> 'w auth_state \<Rightarrow> UINT64 \<Rightarrow> bool \<Rightarrow> (STATUS \<times> UINT64 \<times> 'w auth_state) option" where
  "createCredentialProviderAuthCallbacks E s pCredentialProvider ppCredentialProviderAuthCallbacks =
     (case as_provider s of
        None \<Rightarrow> Some (STATUS_NULL_ARG, 0, s)
      | Some provider \<Rightarrow>
          if \<not> (pCredentialProvider \<noteq> 0 \<and> ppCredentialProviderAuthCallbacks) then Some (STATUS_NULL_ARG, 0, s)
          else (case ae_calloc E (as_objects s) of
              None \<Rightarrow> Some (STATUS_NOT_ENOUGH_MEMORY, 0, s)
            | Some p \<Rightarrow> install_auth_object freeCredentialProviderAuthCallbacks s p \<lparr>ao_kind = CredentialProviderAuth,
                ao_authCallbacks = auth_callbacks ''getStreamingTokenCredentialProviderFunc'' ''getSecurityTokenCredentialProviderFunc''
                  ''freeCredentialProviderAuthCallbacksFunc'' p,
                ao_pCredentialProvider = pCredentialProvider, ao_pCallbacksProvider = cc_customData (clientCallbacks provider)\<rparr>))"

subsection \<open>The token callbacks\<close>

text \<open>
  The streaming token of the static and of the general kind. The service call context is its custom
  data, \<open>None\<close> when the pointer is NULL, which these two do not check. The error report gets the custom
  data of the callback, the address of the object, as the handle of the stream.
\<close>

definition streaming_token_unchecked ::
    "auth_kind \<Rightarrow> 'w auth_env \<Rightarrow> UINT64 \<Rightarrow> UINT64 option \<Rightarrow> 'w auth_state \<Rightarrow> (STATUS \<times> 'w auth_state) option" where
  "streaming_token_unchecked k E customData pServiceCallContext s =
     (if customData = 0 then Some (STATUS_NULL_ARG, s)
      else do {
        obj \<leftarrow> get_auth k (as_objects s) customData;
        (st, r, h1, w) \<leftarrow> getCredentialsFn E (as_heap s) (ao_pCredentialProvider obj) (as_world s);
        let s1 = s\<lparr>as_heap := h1, as_world := w\<rparr>;
        if STATUS_FAILED st then Some (st, s1)
        else do {
          q \<leftarrow> r;
          c \<leftarrow> get_credentials h1 q;
          ctx \<leftarrow> pServiceCallContext;
          (case ae_resultEvent E ctx (SERVICE_CALL_RESULT_OK (ae_results E)) q (ac_size c) (ac_expiration c) w of
             (retStatus, w1) \<Rightarrow>
               Some (retStatus, s1\<lparr>as_world := snd (notifyCallResult E (as_provider s) retStatus customData w1)\<rparr>))
        }
      })"

definition getStreamingTokenStaticFunc :: "'w auth_env \<Rightarrow> UINT64 \<Rightarrow> UINT64 option \<Rightarrow> 'w auth_state \<Rightarrow> (STATUS \<times> 'w auth_state) option" where
  "getStreamingTokenStaticFunc = streaming_token_unchecked StaticAuth"

definition getStreamingTokenCredentialProviderFunc :: "'w auth_env \<Rightarrow> UINT64 \<Rightarrow> UINT64 option \<Rightarrow> 'w auth_state \<Rightarrow> (STATUS \<times> 'w auth_state) option" where
  "getStreamingTokenCredentialProviderFunc = streaming_token_unchecked CredentialProviderAuth"

text \<open>The failure of the file and the IoT kind: the platform independent code and then the application are told.\<close>

definition streaming_token_failed ::
    "'w auth_env \<Rightarrow> CallbacksProvider option \<Rightarrow> STATUS \<Rightarrow> UINT64 option \<Rightarrow> 'w \<Rightarrow> 'w" where
  "streaming_token_failed E provider retStatus pServiceCallContext w = (case pServiceCallContext of
     None \<Rightarrow> w
   | Some ctx \<Rightarrow>
       let w1 = snd (ae_resultEvent E ctx (SERVICE_CALL_UNKNOWN (ae_results E)) 0 0 0 w)
       in snd (notifyCallResult E provider retStatus ctx w1))"

text \<open>The streaming token of the file and of the IoT kind, whose functions have the same body.\<close>

definition streaming_token_checked ::
    "auth_kind \<Rightarrow> 'w auth_env \<Rightarrow> UINT64 \<Rightarrow> UINT64 option \<Rightarrow> 'w auth_state \<Rightarrow> (STATUS \<times> 'w auth_state) option" where
  "streaming_token_checked k E customData pServiceCallContext s =
     (if \<not> (customData \<noteq> 0 \<and> pServiceCallContext \<noteq> None)
      then Some (STATUS_NULL_ARG, s\<lparr>as_world := streaming_token_failed E None STATUS_NULL_ARG pServiceCallContext (as_world s)\<rparr>)
      else do {
        obj \<leftarrow> get_auth k (as_objects s) customData;
        (st, r, h1, w) \<leftarrow> getCredentialsFn E (as_heap s) (ao_pCredentialProvider obj) (as_world s);
        let s1 = s\<lparr>as_heap := h1\<rparr>;
        if STATUS_FAILED st
        then Some (st, s1\<lparr>as_world := streaming_token_failed E (as_provider s) st pServiceCallContext w\<rparr>)
        else do {
          q \<leftarrow> r;
          c \<leftarrow> get_credentials h1 q;
          (case ae_resultEvent E (the pServiceCallContext) (SERVICE_CALL_RESULT_OK (ae_results E)) q (ac_size c) (ac_expiration c) w of
             (retStatus, w1) \<Rightarrow>
               if STATUS_FAILED retStatus
               then Some (retStatus, s1\<lparr>as_world := streaming_token_failed E (as_provider s) retStatus pServiceCallContext w1\<rparr>)
               else Some (STATUS_SUCCESS, s1\<lparr>as_world := w1\<rparr>))
        }
      })"

definition getStreamingTokenFileFunc :: "'w auth_env \<Rightarrow> UINT64 \<Rightarrow> UINT64 option \<Rightarrow> 'w auth_state \<Rightarrow> (STATUS \<times> 'w auth_state) option" where
  "getStreamingTokenFileFunc = streaming_token_checked FileAuth"

text \<open>
  The security token: the results are the buffer, its size and its expiration, \<open>None\<close> when they are
  not set. The three pointers for them are one boolean argument.
\<close>

definition security_token ::
    "auth_kind \<Rightarrow> 'w auth_env \<Rightarrow> UINT64 \<Rightarrow> bool \<Rightarrow> 'w auth_state \<Rightarrow> (STATUS \<times> (UINT64 \<times> UINT32 \<times> UINT64) option \<times> 'w auth_state) option" where
  "security_token k E customData outputs s =
     (if \<not> (customData \<noteq> 0 \<and> outputs) then Some (STATUS_NULL_ARG, None, s)
      else do {
        obj \<leftarrow> get_auth k (as_objects s) customData;
        (st, r, h1, w) \<leftarrow> getCredentialsFn E (as_heap s) (ao_pCredentialProvider obj) (as_world s);
        let s1 = s\<lparr>as_heap := h1, as_world := w\<rparr>;
        if STATUS_FAILED st then Some (st, None, s1)
        else do {
          q \<leftarrow> r;
          c \<leftarrow> get_credentials h1 q;
          Some (STATUS_SUCCESS, Some (q, ac_size c, ac_expiration c), s1)
        }
      })"

definition getSecurityTokenStaticFunc ::
    "'w auth_env \<Rightarrow> UINT64 \<Rightarrow> bool \<Rightarrow> 'w auth_state \<Rightarrow> (STATUS \<times> (UINT64 \<times> UINT32 \<times> UINT64) option \<times> 'w auth_state) option" where
  "getSecurityTokenStaticFunc = security_token StaticAuth"

definition getSecurityTokenFileFunc ::
    "'w auth_env \<Rightarrow> UINT64 \<Rightarrow> bool \<Rightarrow> 'w auth_state \<Rightarrow> (STATUS \<times> (UINT64 \<times> UINT32 \<times> UINT64) option \<times> 'w auth_state) option" where
  "getSecurityTokenFileFunc = security_token FileAuth"

definition getSecurityTokenCredentialProviderFunc ::
    "'w auth_env \<Rightarrow> UINT64 \<Rightarrow> bool \<Rightarrow> 'w auth_state \<Rightarrow> (STATUS \<times> (UINT64 \<times> UINT32 \<times> UINT64) option \<times> 'w auth_state) option" where
  "getSecurityTokenCredentialProviderFunc = security_token CredentialProviderAuth"

subsection \<open>The life of the objects\<close>

definition fresh_auth_calloc :: "(aheap \<Rightarrow> UINT64 option) \<Rightarrow> bool" where
  "fresh_auth_calloc calloc \<longleftrightarrow> (\<forall>h p. calloc h = Some p \<longrightarrow> h p = None \<and> p \<noteq> 0)"

text \<open>
  The outcome of creating an object when its credential provider was created on the heap \<open>h1\<close>: on
  failure the chain is as before and the object is gone; on success the chain has one more entry whose
  release function and custom data release exactly what was created.
\<close>

lemma install_auth_object_outcome:
  assumes "as_provider s = Some provider" and "as_objects s p = None" "p \<noteq> 0"
    and "free = free_auth_object k freeProvider" "ao_kind obj = k"
    and "freeProvider (as_heap s) (Some (ao_pCredentialProvider obj)) = Some (st0, r0, h0)"
  shows "\<exists>st q s'. install_auth_object free s p obj = Some (st, q, s') \<and> (st \<noteq> STATUS_SUCCESS \<longrightarrow> q = 0 \<and> s' = s\<lparr>as_heap := h0\<rparr>) \<and>
    (st = STATUS_SUCCESS \<longrightarrow> q = p \<and> addAuthCallbacks (Some provider) (Some (ao_authCallbacks obj)) = (STATUS_SUCCESS, as_provider s') \<and>
       as_objects s' p = Some obj \<and> as_heap s' = as_heap s \<and>
       free s' (Some p) = Some (STATUS_SUCCESS, Some 0, s'\<lparr>as_heap := h0, as_objects := as_objects s\<rparr>))"
proof -
  obtain st1 pr1 where add: "addAuthCallbacks (Some provider) (Some (ao_authCallbacks obj)) = (st1, pr1)" by fastforce
  have same: "pr1 = Some provider" if "st1 \<noteq> STATUS_SUCCESS"
    using add that by (auto simp: addAuthCallbacks_def Let_def split: if_splits)
  have obj: "(as_objects s)(p := None) = as_objects s" using assms(2) by (simp add: fun_upd_idem)
  let ?s2 = "s\<lparr>as_objects := (as_objects s)(p \<mapsto> obj), as_provider := pr1\<rparr>"
  have f: "free ?s2 (Some p) = Some (STATUS_SUCCESS, Some 0, ?s2\<lparr>as_heap := h0, as_objects := as_objects s\<rparr>)"
    using assms(3-6) by (simp add: free_auth_object_def obj)
  show ?thesis
  proof (cases "st1 = STATUS_SUCCESS")
    case True
    then have "install_auth_object free s p obj = Some (STATUS_SUCCESS, p, ?s2)"
      using assms(1) add by (simp add: install_auth_object_def Let_def)
    then show ?thesis using True f add by simp
  next
    case False
    have "?s2\<lparr>as_heap := h0, as_objects := as_objects s\<rparr> = s\<lparr>as_heap := h0\<rparr>" using same [OF False] assms(1) by simp
    then have "install_auth_object free s p obj = Some (st1, 0, s\<lparr>as_heap := h0\<rparr>)"
      using False assms(1) add f by (simp add: install_auth_object_def Let_def)
    then show ?thesis using False by simp
  qed
qed

text \<open>
  C25: the life of file authentication callbacks. When creating them fails, the state is as before. When
  it succeeds, the chain of the callbacks provider has a new entry whose custom data is the new
  object, the object refers to a file provider that has credentials, and the release function of the
  entry, called with that custom data as the callbacks provider does, gives the heap and the objects
  back as they were.
\<close>

theorem file_auth_lifecycle:
  assumes "cred_env_ok (ae_cred E)" "fresh_auth_calloc (ae_calloc E)"
    and "createFileAuthCallbacks E s path True = r"
  shows "\<exists>st p s'. r = Some (st, p, s') \<and>
    (st \<noteq> STATUS_SUCCESS \<longrightarrow> p = 0 \<and> s' = s) \<and>
    (st = STATUS_SUCCESS \<longrightarrow> (\<exists>provider obj. as_provider s = Some provider \<and> as_objects s' p = Some obj \<and>
       au_customData (ao_authCallbacks obj) = p \<and> au_freeAuthCallbacksFn (ao_authCallbacks obj) = Some (C_FUN ''freeFileAuthCallbacksFunc'') \<and>
       addAuthCallbacks (Some provider) (Some (ao_authCallbacks obj)) = (STATUS_SUCCESS, as_provider s') \<and>
       file_credentials (as_heap s') (ao_pCredentialProvider obj) \<noteq> None \<and>
       freeFileAuthCallbacksFunc s' (Some p) = Some (STATUS_SUCCESS, s'\<lparr>as_heap := as_heap s, as_objects := as_objects s\<rparr>)))"
proof (cases "as_provider s = None \<or> ae_calloc E (as_objects s) = None")
  case True
  then show ?thesis using assms(3) unfolding createFileAuthCallbacks_def by (cases "as_provider s") auto
next
  case False
  then obtain provider p where pr: "as_provider s = Some provider" and p: "ae_calloc E (as_objects s) = Some p" by auto
  have fp: "as_objects s p = None" "p \<noteq> 0" using assms(2) p by (auto simp: fresh_auth_calloc_def)
  define obj where "obj = \<lparr>ao_kind = FileAuth,
     ao_authCallbacks = auth_callbacks ''getStreamingTokenFileFunc'' ''getSecurityTokenFileFunc'' ''freeFileAuthCallbacksFunc'' p,
     ao_pCredentialProvider = 0, ao_pCallbacksProvider = cc_customData (clientCallbacks provider)\<rparr>"
  obtain st cp h1 where c: "createFileCredentialProviderWithTime (ae_cred E) (as_heap s) path
      (cc_getCurrentTimeFn (clientCallbacks provider)) (cc_customData (clientCallbacks provider)) True = Some (st, cp, h1)"
    and bad: "st \<noteq> STATUS_SUCCESS \<Longrightarrow> cp = 0 \<and> h1 = as_heap s"
    and good: "st = STATUS_SUCCESS \<Longrightarrow> file_credentials h1 cp \<noteq> None \<and>
      freeFileCredentialProvider h1 (Some cp) = Some (STATUS_SUCCESS, Some 0, as_heap s)"
    using createFile_outcome [OF assms(1) refl, of "as_heap s" path "cc_getCurrentTimeFn (clientCallbacks provider)" "cc_customData (clientCallbacks provider)"]
    by blast
  have r: "r = (if STATUS_FAILED st
     then map_option (\<lambda>(_, _, s2). (st, 0, s2)) (freeFileAuthCallbacks (s\<lparr>as_heap := h1, as_objects := (as_objects s)(p \<mapsto> obj\<lparr>ao_pCredentialProvider := cp\<rparr>)\<rparr>) (Some p))
     else install_auth_object freeFileAuthCallbacks (s\<lparr>as_heap := h1\<rparr>) p (obj\<lparr>ao_pCredentialProvider := cp\<rparr>))"
    unfolding assms(3) [symmetric] createFileAuthCallbacks_def obj_def Let_def using pr p c by simp
  show ?thesis
  proof (cases "st = STATUS_SUCCESS")
    case False
    then have "r = Some (st, 0, s\<lparr>as_heap := as_heap s, as_objects := (as_objects s)(p := None)\<rparr>)"
      using r bad fp by (simp add: freeFileAuthCallbacks_def free_auth_object_def obj_def freeFileCredentialProvider_def Let_def)
    moreover have "(as_objects s)(p := None) = as_objects s" using fp(1) by (simp add: fun_upd_idem)
    ultimately show ?thesis using False by auto
  next
    case True
    let ?o = "obj\<lparr>ao_pCredentialProvider := cp\<rparr>"
    have "\<exists>st' q s'. install_auth_object freeFileAuthCallbacks (s\<lparr>as_heap := h1\<rparr>) p ?o = Some (st', q, s') \<and>
        (st' \<noteq> STATUS_SUCCESS \<longrightarrow> q = 0 \<and> s' = s\<lparr>as_heap := h1, as_heap := as_heap s\<rparr>) \<and>
        (st' = STATUS_SUCCESS \<longrightarrow> q = p \<and> addAuthCallbacks (Some provider) (Some (ao_authCallbacks ?o)) = (STATUS_SUCCESS, as_provider s') \<and>
           as_objects s' p = Some ?o \<and> as_heap s' = as_heap (s\<lparr>as_heap := h1\<rparr>) \<and>
           freeFileAuthCallbacks s' (Some p) = Some (STATUS_SUCCESS, Some 0, s'\<lparr>as_heap := as_heap s, as_objects := as_objects (s\<lparr>as_heap := h1\<rparr>)\<rparr>))"
      by (rule install_auth_object_outcome [where k = FileAuth and freeProvider = freeFileCredentialProvider])
        (use pr fp good [OF True] in \<open>simp_all add: freeFileAuthCallbacks_def obj_def\<close>)
    moreover have "au_customData (ao_authCallbacks ?o) = p" "au_freeAuthCallbacksFn (ao_authCallbacks ?o) = Some (C_FUN ''freeFileAuthCallbacksFunc'')"
      "ao_pCredentialProvider ?o = cp" by (simp_all add: obj_def auth_callbacks_def)
    ultimately show ?thesis
      using r True good [OF True] pr by (auto simp: freeFileAuthCallbacksFunc_def free_auth_func_def)
  qed
qed

subsection \<open>The token callbacks on a provider that meets its contract\<close>

text \<open>
  A credential provider behind the function pointer of the object at address \<open>p\<close>: in its states a call
  through the pointer is defined and keeps its invariant, moves the world only in a known way, and
  gives live credentials when it succeeds.
\<close>

locale called_provider =
  fixes inv :: "cheap \<Rightarrow> bool" and moves :: "'w \<Rightarrow> 'w \<Rightarrow> bool" and E :: "'w auth_env" and p :: UINT64
  assumes call_ok: "inv h \<Longrightarrow> \<exists>st r h' w'. getCredentialsFn E h p w = Some (st, r, h', w') \<and> inv h' \<and> moves w w' \<and>
    (st = STATUS_SUCCESS \<longrightarrow> (\<exists>q c. r = Some q \<and> h' q = Some (OCredentials c)))"
begin

lemma security_token_ok:
  assumes "inv (as_heap s)" and "as_objects s a = Some obj" "ao_kind obj = k" "ao_pCredentialProvider obj = p" "a \<noteq> 0"
  shows "\<exists>st out s'. security_token k E a True s = Some (st, out, s') \<and> inv (as_heap s') \<and> as_objects s' = as_objects s \<and>
    moves (as_world s) (as_world s') \<and> (st \<noteq> STATUS_SUCCESS \<longrightarrow> out = None) \<and>
    (st = STATUS_SUCCESS \<longrightarrow> (\<exists>q c. as_heap s' q = Some (OCredentials c) \<and> out = Some (q, ac_size c, ac_expiration c)))"
proof -
  obtain st r h' w' where "getCredentialsFn E (as_heap s) p (as_world s) = Some (st, r, h', w')" "inv h'" "moves (as_world s) w'"
      "st = STATUS_SUCCESS \<Longrightarrow> \<exists>q c. r = Some q \<and> h' q = Some (OCredentials c)"
    using call_ok [OF assms(1)] by blast
  then show ?thesis using assms(2-) by (cases "st = STATUS_SUCCESS") (auto simp: security_token_def Let_def)
qed

lemma streaming_token_unchecked_ok:
  assumes "inv (as_heap s)" and "as_objects s a = Some obj" "ao_kind obj = k" "ao_pCredentialProvider obj = p" "a \<noteq> 0"
  shows "\<exists>st s' w0. streaming_token_unchecked k E a (Some ctx) s = Some (st, s') \<and> inv (as_heap s') \<and> moves (as_world s) w0 \<and>
    (as_world s' = w0 \<and> st \<noteq> STATUS_SUCCESS \<or>
     (\<exists>q c w. as_heap s' q = Some (OCredentials c) \<and>
        ae_resultEvent E ctx (SERVICE_CALL_RESULT_OK (ae_results E)) q (ac_size c) (ac_expiration c) w0 = (st, w) \<and>
        as_world s' = snd (notifyCallResult E (as_provider s) st a w)))"
proof -
  obtain st r h' w0 where c: "getCredentialsFn E (as_heap s) p (as_world s) = Some (st, r, h', w0)" "inv h'" "moves (as_world s) w0"
      "st = STATUS_SUCCESS \<Longrightarrow> \<exists>q c. r = Some q \<and> h' q = Some (OCredentials c)"
    using call_ok [OF assms(1)] by blast
  show ?thesis
  proof (cases "st = STATUS_SUCCESS")
    case True
    then obtain q d where q: "r = Some q" "h' q = Some (OCredentials d)" using c(4) by auto
    obtain st1 w where e: "ae_resultEvent E ctx (SERVICE_CALL_RESULT_OK (ae_results E)) q (ac_size d) (ac_expiration d) w0 = (st1, w)"
      by fastforce
    have "streaming_token_unchecked k E a (Some ctx) s = Some (st1, s\<lparr>as_heap := h', as_world := snd (notifyCallResult E (as_provider s) st1 a w)\<rparr>)"
      using assms(2-) c(1) True q e by (simp add: streaming_token_unchecked_def)
    then show ?thesis using c(2,3) q(2) e by fastforce
  next
    case False
    then show ?thesis using assms(2-) c(1-3) by (auto simp: streaming_token_unchecked_def Let_def)
  qed
qed

text \<open>
  The streaming token of the file and the IoT kind: the platform independent code is given the
  credentials, or told that there are none, and then the application is told with the handle of the
  stream.
\<close>

lemma streaming_token_checked_ok:
  assumes "inv (as_heap s)" and "as_objects s a = Some obj" "ao_kind obj = k" "ao_pCredentialProvider obj = p" "a \<noteq> 0"
  shows "\<exists>st s' w0. streaming_token_checked k E a (Some ctx) s = Some (st, s') \<and> inv (as_heap s') \<and> moves (as_world s) w0 \<and>
    (if st = STATUS_SUCCESS
     then \<exists>q c. as_heap s' q = Some (OCredentials c) \<and>
       ae_resultEvent E ctx (SERVICE_CALL_RESULT_OK (ae_results E)) q (ac_size c) (ac_expiration c) w0 = (STATUS_SUCCESS, as_world s')
     else \<exists>w. as_world s' = streaming_token_failed E (as_provider s) st (Some ctx) w \<and>
       (w = w0 \<or> (\<exists>q c. as_heap s' q = Some (OCredentials c) \<and>
          ae_resultEvent E ctx (SERVICE_CALL_RESULT_OK (ae_results E)) q (ac_size c) (ac_expiration c) w0 = (st, w))))"
proof -
  obtain st r h' w0 where c: "getCredentialsFn E (as_heap s) p (as_world s) = Some (st, r, h', w0)" "inv h'" "moves (as_world s) w0"
      "st = STATUS_SUCCESS \<Longrightarrow> \<exists>q c. r = Some q \<and> h' q = Some (OCredentials c)"
    using call_ok [OF assms(1)] by blast
  show ?thesis
  proof (cases "st = STATUS_SUCCESS")
    case True
    then obtain q d where q: "r = Some q" "h' q = Some (OCredentials d)" using c(4) by auto
    obtain st1 w where e: "ae_resultEvent E ctx (SERVICE_CALL_RESULT_OK (ae_results E)) q (ac_size d) (ac_expiration d) w0 = (st1, w)"
      by fastforce
    have "streaming_token_checked k E a (Some ctx) s = Some (st1, s\<lparr>as_heap := h',
        as_world := if st1 = STATUS_SUCCESS then w else streaming_token_failed E (as_provider s) st1 (Some ctx) w\<rparr>)"
      using assms(2-) c(1) True q e by (simp add: streaming_token_checked_def)
    then show ?thesis using c(2,3) q(2) e by (cases "st1 = STATUS_SUCCESS") fastforce+
  next
    case False
    then have "streaming_token_checked k E a (Some ctx) s = Some (st, s\<lparr>as_heap := h', as_world := streaming_token_failed E (as_provider s) st (Some ctx) w0\<rparr>)"
      using assms(2-) c(1) by (simp add: streaming_token_checked_def)
    then show ?thesis using c(2,3) False by fastforce
  qed
qed

end

text \<open>A provider that meets the contract of the credential providers and leaves the world alone.\<close>

locale local_provider = credential_provider inv get
  for inv :: "cheap \<Rightarrow> bool" and get :: "cheap \<Rightarrow> (STATUS \<times> UINT64 option \<times> cheap) option" +
  fixes E :: "'w auth_env" and p :: UINT64
  assumes calls: "inv h \<Longrightarrow> getCredentialsFn E h p w = map_option (\<lambda>(st, r, h'). (st, r, h', w)) (get h)"

sublocale local_provider \<subseteq> called_provider inv "(=)" E p
proof
  fix h w
  assume "inv h"
  then show "\<exists>st r h' w'. getCredentialsFn E h p w = Some (st, r, h', w') \<and> inv h' \<and> w = w' \<and>
      (st = STATUS_SUCCESS \<longrightarrow> (\<exists>q c. r = Some q \<and> h' q = Some (OCredentials c)))"
    using get_ok [of h] calls [of h w] by auto
qed

text \<open>The two providers of this library, called through their function pointers.\<close>

definition static_ready :: "UINT64 \<Rightarrow> cheap \<Rightarrow> bool" where
  "static_ready p h \<longleftrightarrow> static_inv h p \<and> provider_function h p = Some (C_FUN ''getStaticCredentials'')"

definition file_ready :: "'w auth_env \<Rightarrow> UINT64 \<Rightarrow> cheap \<Rightarrow> bool" where
  "file_ready E p h \<longleftrightarrow> cred_env_ok (ae_cred E) \<and> file_inv h p \<and> provider_function h p = Some (C_FUN ''getFileCredentials'')"

lemma file_fn_kept:
  assumes "cred_env_ok E" "file_inv h p" "getFileCredentials E h p True = Some (st, r, h')"
  shows "provider_function h' p = provider_function h p"
proof -
  obtain f where f: "h p = Some (OFile f)" "p \<noteq> 0" using assms(2) by (auto simp: file_inv_def)
  have K: "consts_ok (pe_consts E)" and fc: "\<And>h p. pe_calloc E h = Some p \<Longrightarrow> h p = None"
    using assms(1) by (simp_all add: cred_env_ok_def fresh_calloc_def)
  have rep: "provider_function h2 p = provider_function h p"
    if "replace_credentials E h p f (credential_tokens content) e = Some (st2, h2)" for content e st2 h2
    using that f fc [of "dropped h p f"] unfolding replace_credentials_cases [OF K assms(2) f(1) refl]
    by (auto simp: provider_function_def dropped_def split: if_splits option.splits)
  obtain st1 where read: "readFileCredentials E h p = Some (st1, h')"
    using assms(3) f by (auto simp: getFileCredentials_def split: bind_splits if_splits)
  then show ?thesis
    using f rep by (auto simp: readFileCredentials_def load_credentials_def Let_def split: bind_splits if_splits option.splits sum.splits)
qed

interpretation static_called: local_provider "static_ready p"
    "\<lambda>h. map_option (\<lambda>(st, r). (st, r, h)) (getStaticCredentials h p True)" E p
  by unfold_locales (auto simp: static_ready_def static_inv_def getStaticCredentials_def getCredentialsFn_def)

interpretation file_called: local_provider "file_ready E p" "\<lambda>h. getFileCredentials (ae_cred E) h p True" E p
proof
  fix h
  assume "file_ready E p h"
  then show "\<exists>st r h'. getFileCredentials (ae_cred E) h p True = Some (st, r, h') \<and> file_ready E p h' \<and>
      (st = STATUS_SUCCESS \<longrightarrow> (\<exists>q c. r = Some q \<and> h' q = Some (OCredentials c)))"
    using getFileCredentials_ok [of "ae_cred E" h p] file_fn_kept [of "ae_cred E" h p] by (auto simp: file_ready_def)
qed (simp add: file_ready_def getCredentialsFn_def)

subsection \<open>Properties\<close>

text \<open>
  The security token of the file callbacks. With a live object whose file provider satisfies its
  invariant, the callback is defined, tells nobody anything, and leaves the provider in order. It
  either fails and sets no result, or gives the address, the size and the expiration of a credentials
  object that is live.
\<close>

lemma security_token_file:
  assumes "file_ready E p (as_heap s)"
    and "as_objects s a = Some obj" "ao_kind obj = FileAuth" "ao_pCredentialProvider obj = p" "a \<noteq> 0"
  shows "\<exists>st out s'. getSecurityTokenFileFunc E a True s = Some (st, out, s') \<and> file_ready E p (as_heap s') \<and>
    as_objects s' = as_objects s \<and> as_world s' = as_world s \<and>
    (st \<noteq> STATUS_SUCCESS \<longrightarrow> out = None) \<and>
    (st = STATUS_SUCCESS \<longrightarrow> (\<exists>q c. as_heap s' q = Some (OCredentials c) \<and> out = Some (q, ac_size c, ac_expiration c)))"
  unfolding getSecurityTokenFileFunc_def using file_called.security_token_ok [OF assms] by auto

text \<open>
  C26: the streaming token of the file callbacks, for every platform independent code. On success it was
  given a live credentials object with its size and expiration. On failure it was told that there is
  no token, after which the application was told about the failure with the handle of the stream.
\<close>

theorem streaming_token_file:
  assumes "file_ready E p (as_heap s)"
    and "as_objects s a = Some obj" "ao_kind obj = FileAuth" "ao_pCredentialProvider obj = p" "a \<noteq> 0"
  shows "\<exists>st s'. getStreamingTokenFileFunc E a (Some streamHandle) s = Some (st, s') \<and> file_ready E p (as_heap s') \<and>
    (if st = STATUS_SUCCESS
     then \<exists>q c. as_heap s' q = Some (OCredentials c) \<and>
       ae_resultEvent E streamHandle (SERVICE_CALL_RESULT_OK (ae_results E)) q (ac_size c) (ac_expiration c) (as_world s) =
         (STATUS_SUCCESS, as_world s')
     else \<exists>w st1 w1. (w = as_world s \<or> (\<exists>q c. as_heap s' q = Some (OCredentials c) \<and>
          ae_resultEvent E streamHandle (SERVICE_CALL_RESULT_OK (ae_results E)) q (ac_size c) (ac_expiration c) (as_world s) = (st, w))) \<and>
       ae_resultEvent E streamHandle (SERVICE_CALL_UNKNOWN (ae_results E)) 0 0 0 w = (st1, w1) \<and>
       as_world s' = snd (notifyCallResult E (as_provider s) st streamHandle w1))"
proof -
  obtain st s' where r: "getStreamingTokenFileFunc E a (Some streamHandle) s = Some (st, s')" "file_ready E p (as_heap s')"
    and out: "if st = STATUS_SUCCESS
     then \<exists>q c. as_heap s' q = Some (OCredentials c) \<and>
       ae_resultEvent E streamHandle (SERVICE_CALL_RESULT_OK (ae_results E)) q (ac_size c) (ac_expiration c) (as_world s) = (STATUS_SUCCESS, as_world s')
     else \<exists>w. as_world s' = streaming_token_failed E (as_provider s) st (Some streamHandle) w \<and>
       (w = as_world s \<or> (\<exists>q c. as_heap s' q = Some (OCredentials c) \<and>
          ae_resultEvent E streamHandle (SERVICE_CALL_RESULT_OK (ae_results E)) q (ac_size c) (ac_expiration c) (as_world s) = (st, w)))"
    using file_called.streaming_token_checked_ok [OF assms, of streamHandle] unfolding getStreamingTokenFileFunc_def by blast
  have failed: "as_world s' = streaming_token_failed E (as_provider s) st (Some streamHandle) w \<Longrightarrow>
      \<exists>st1 w1. ae_resultEvent E streamHandle (SERVICE_CALL_UNKNOWN (ae_results E)) 0 0 0 w = (st1, w1) \<and>
        as_world s' = snd (notifyCallResult E (as_provider s) st streamHandle w1)" for w
    by (cases "ae_resultEvent E streamHandle (SERVICE_CALL_UNKNOWN (ae_results E)) 0 0 0 w") (auto simp: streaming_token_failed_def)
  show ?thesis
  proof (cases "st = STATUS_SUCCESS")
    case True
    then show ?thesis using r out by simp
  next
    case False
    then obtain w where w: "as_world s' = streaming_token_failed E (as_provider s) st (Some streamHandle) w"
      "w = as_world s \<or> (\<exists>q c. as_heap s' q = Some (OCredentials c) \<and>
          ae_resultEvent E streamHandle (SERVICE_CALL_RESULT_OK (ae_results E)) q (ac_size c) (ac_expiration c) (as_world s) = (st, w))"
      using out by auto
    show ?thesis
      using r False w(2) failed [OF w(1)] by (intro exI [of _ st] exI [of _ s'] conjI) (simp_all, blast)
  qed
qed

subsection \<open>Witnesses\<close>

text \<open>An environment that logs the events and the error reports.\<close>

datatype auth_event = ResultEvent UINT64 SERVICE_CALL_RESULT UINT64 UINT32 UINT64 | ErrorReport STREAM_HANDLE STATUS

definition sample_results :: service_call_consts where
  "sample_results = service_call_consts.make 200 400 404 403 400 401 501 500 408 504 598 599 0"

definition log_env :: "STATUS \<Rightarrow> auth_event list auth_env" where
  "log_env answer = \<lparr>ae_cred = sample_env, ae_calloc = (\<lambda>h. small_calloc h [8, 16]), ae_getCredentials = (\<lambda>_ _ _ _. None),
     ae_results = sample_results,
     ae_resultEvent = (\<lambda>ctx r q size e w. (answer, w @ [ResultEvent ctx r q size e])),
     ae_streamErrorReport = (\<lambda>f cd h u t st w. (STATUS_SUCCESS, w @ [ErrorReport h st])), ae_invalidUploadHandle = -1\<rparr>"

lemma log_env_simps:
  "ae_resultEvent (log_env answer) ctx r q n e w = (answer, w @ [ResultEvent ctx r q n e])"
  "SERVICE_CALL_RESULT_OK (ae_results (log_env answer)) = 200"
  by (simp_all add: log_env_def sample_results_def service_call_consts.defs)

lemma log_env_ok: "cred_env_ok (ae_cred (log_env answer))" "fresh_auth_calloc (ae_calloc (log_env answer))"
  by (auto simp: log_env_def sample_env_ok fresh_auth_calloc_def small_calloc_def split: if_splits)

definition sample_callbacks_provider :: CallbacksProvider where
  "sample_callbacks_provider = (let p = alloc_provider 4096 5 in p\<lparr>clientCallbacks := (clientCallbacks p)\<lparr>
     cc_streamErrorReportFn := Some (C_FUN ''streamErrorReportAggregate'')\<rparr>\<rparr>)"

definition file_object :: AuthObject where
  "file_object = \<lparr>ao_kind = FileAuth,
     ao_authCallbacks = auth_callbacks ''getStreamingTokenFileFunc'' ''getSecurityTokenFileFunc'' ''freeFileAuthCallbacksFunc'' 8,
     ao_pCredentialProvider = 56, ao_pCallbacksProvider = 4096\<rparr>"

definition sample_auth_state :: "auth_event list auth_state" where
  "sample_auth_state = \<lparr>as_provider = Some sample_callbacks_provider, as_heap = sample_file_heap, as_objects = [8 \<mapsto> file_object], as_world = []\<rparr>"

lemma sample_auth_ready:
  "file_ready (log_env answer) 56 (as_heap sample_auth_state)" "as_objects sample_auth_state 8 = Some file_object"
  "ao_kind file_object = FileAuth" "ao_pCredentialProvider file_object = 56"
  by (simp_all add: file_ready_def log_env_ok file_inv_def sample_auth_state_def sample_file_heap_def provider_function_def file_object_def)

theorem file_auth_lifecycle_witness:
  "\<exists>p s'. createFileAuthCallbacks (log_env STATUS_SUCCESS) (sample_auth_state\<lparr>as_heap := \<lambda>_. None\<rparr>) (Some ''creds'') True = Some (STATUS_SUCCESS, p, s') \<and>
     (\<exists>s''. freeFileAuthCallbacksFunc s' (Some p) = Some (STATUS_SUCCESS, s'') \<and> as_heap s'' = (\<lambda>_. None))"
proof -
  let ?r = "createFileAuthCallbacks (log_env STATUS_SUCCESS) (sample_auth_state\<lparr>as_heap := \<lambda>_. None\<rparr>) (Some ''creds'') True"
  have "map_option fst ?r = Some STATUS_SUCCESS" by code_simp
  then show ?thesis using file_auth_lifecycle [OF log_env_ok, of STATUS_SUCCESS "sample_auth_state\<lparr>as_heap := \<lambda>_. None\<rparr>" "Some ''creds''" ?r] by auto
qed

lemma security_token_file_witness:
  "\<exists>q size e s'. getSecurityTokenFileFunc (log_env STATUS_SUCCESS) 8 True sample_auth_state = Some (STATUS_SUCCESS, Some (q, size, e), s')"
proof -
  have "map_option fst (getSecurityTokenFileFunc (log_env STATUS_SUCCESS) 8 True sample_auth_state) = Some STATUS_SUCCESS" by code_simp
  then show ?thesis using security_token_file [OF sample_auth_ready, of STATUS_SUCCESS] by auto
qed

theorem streaming_token_file_witness:
  "\<exists>s' q size e. getStreamingTokenFileFunc (log_env STATUS_SUCCESS) 8 (Some 77) sample_auth_state = Some (STATUS_SUCCESS, s') \<and>
     as_world s' = [ResultEvent 77 200 q size e]"
proof -
  have "map_option fst (getStreamingTokenFileFunc (log_env STATUS_SUCCESS) 8 (Some 77) sample_auth_state) = Some STATUS_SUCCESS" by code_simp
  then obtain s' where s': "getStreamingTokenFileFunc (log_env STATUS_SUCCESS) 8 (Some 77) sample_auth_state = Some (STATUS_SUCCESS, s')" by auto
  have "\<exists>q (c :: AwsCredentials). ae_resultEvent (log_env STATUS_SUCCESS) 77 (SERVICE_CALL_RESULT_OK (ae_results (log_env STATUS_SUCCESS))) q (ac_size c) (ac_expiration c)
      (as_world sample_auth_state) = (STATUS_SUCCESS, as_world s')"
    using streaming_token_file [OF sample_auth_ready, of STATUS_SUCCESS 77] s' by auto
  then obtain q and c :: AwsCredentials where "ae_resultEvent (log_env STATUS_SUCCESS) 77 (SERVICE_CALL_RESULT_OK (ae_results (log_env STATUS_SUCCESS))) q
      (ac_size c) (ac_expiration c) (as_world sample_auth_state) = (STATUS_SUCCESS, as_world s')"
    by blast
  then have "as_world s' = [ResultEvent 77 200 q (ac_size c) (ac_expiration c)]" by (simp add: log_env_simps sample_auth_state_def)
  then show ?thesis using s' by blast
qed

text \<open>
  The static callbacks report a failure with the address of the callbacks object in place of the
  handle of the stream.
\<close>

definition static_object :: AuthObject where
  "static_object = file_object\<lparr>ao_kind := StaticAuth, ao_pCredentialProvider := 24\<rparr>"

definition static_auth_state :: "auth_event list auth_state" where
  "static_auth_state = sample_auth_state\<lparr>as_objects := [8 \<mapsto> static_object],
     as_heap := [24 \<mapsto> OStatic \<lparr>sp_getCredentialsFn = Some (C_FUN ''getStaticCredentials''), sp_pAwsCredentials = 32\<rparr>,
                 32 \<mapsto> OCredentials (credentials_of sample_consts ''k'' ''s'' None 9)]\<rparr>"

lemma static_error_report_handle:
  "map_option (\<lambda>(st, s'). (st, as_world s')) (getStreamingTokenStaticFunc (log_env STATUS_INVALID_OPERATION) 8 (Some 77) static_auth_state) =
     Some (STATUS_INVALID_OPERATION, [ResultEvent 77 200 32 68 9, ErrorReport 8 STATUS_INVALID_OPERATION])"
  by code_simp

end
