(* ===== verification/Single_List.thy ===== *)
theory Single_List
  imports KVS_Prelude
begin

text \<open>
  The singly linked list of the platform independent code, on which the request headers and the
  query parameters are kept. Its operations are a parameter of the components that use it; the
  locale \<open>single_list\<close> states what its header documents. A loop over the nodes of a list is
  \<open>list_walk\<close>, a partial function: \<open>None\<close> would be a loop that does not end. That it ends is proved in
  the locale.
\<close>

record ('l, 'n) single_list_ops =
  singleListGetNodeCount :: "'l \<Rightarrow> STATUS \<times> nat"
  singleListGetHeadNode :: "'l \<Rightarrow> STATUS \<times> 'n option"
  singleListGetNodeData :: "'l \<Rightarrow> 'n \<Rightarrow> STATUS \<times> UINT64"
  singleListGetNextNode :: "'l \<Rightarrow> 'n \<Rightarrow> STATUS \<times> 'n option"
  singleListInsertItemHead :: "'l \<Rightarrow> UINT64 \<Rightarrow> STATUS \<times> 'l"
  singleListInsertItemAfter :: "'l \<Rightarrow> 'n \<Rightarrow> UINT64 \<Rightarrow> STATUS \<times> 'l"
  singleListInsertItemTail :: "'l \<Rightarrow> UINT64 \<Rightarrow> STATUS \<times> 'l"
  singleListDeleteNode :: "'l \<Rightarrow> 'n \<Rightarrow> STATUS \<times> 'l"
  singleListDeleteHead :: "'l \<Rightarrow> STATUS \<times> 'l"

text \<open>
  The shape of the loops over a list: while the node is not NULL, read its item, run the body, and go
  to the next node. The body ends the loop with a result (\<open>Inl\<close>) or goes on with a new state (\<open>Inr\<close>).
\<close>

partial_function (option) list_walk ::
    "('l, 'n) single_list_ops \<Rightarrow> 'l \<Rightarrow> ('n \<Rightarrow> UINT64 \<Rightarrow> 's \<Rightarrow> (STATUS \<times> 's) + 's) \<Rightarrow> 'n option \<Rightarrow> 's
      \<Rightarrow> (STATUS \<times> 's) option" where
  [code]: "list_walk ops l body pCurNode s = (case pCurNode of
     None \<Rightarrow> Some (STATUS_SUCCESS, s)
   | Some n \<Rightarrow> (case singleListGetNodeData ops l n of (st, item) \<Rightarrow>
       if STATUS_FAILED st then Some (st, s)
       else (case body n item s of
           Inl r \<Rightarrow> Some r
         | Inr s' \<Rightarrow> (case singleListGetNextNode ops l n of (st', pNext) \<Rightarrow>
             if STATUS_FAILED st' then Some (st', s')
             else list_walk ops l body pNext s'))))"

text \<open>The same loop over the list of the items, with the position in place of the node.\<close>

primrec items_walk :: "(nat \<Rightarrow> UINT64 \<Rightarrow> 's \<Rightarrow> (STATUS \<times> 's) + 's) \<Rightarrow> nat \<Rightarrow> UINT64 list \<Rightarrow> 's \<Rightarrow> STATUS \<times> 's" where
  "items_walk body i [] s = (STATUS_SUCCESS, s)"
| "items_walk body i (x # xs) s = (case body i x s of Inl r \<Rightarrow> r | Inr s' \<Rightarrow> items_walk body (Suc i) xs s')"

locale single_list =
  fixes ops :: "('l, 'n) single_list_ops"
    and items :: "'l \<Rightarrow> UINT64 list"
    and node_at :: "'l \<Rightarrow> 'n \<Rightarrow> nat \<Rightarrow> bool"
  assumes count: "singleListGetNodeCount ops l = (STATUS_SUCCESS, length (items l))"
    and head_empty: "items l = [] \<Longrightarrow> singleListGetHeadNode ops l = (STATUS_SUCCESS, None)"
    and head_node: "items l \<noteq> [] \<Longrightarrow> \<exists>n. singleListGetHeadNode ops l = (STATUS_SUCCESS, Some n) \<and> node_at l n 0"
    and node_data: "node_at l n i \<Longrightarrow> i < length (items l) \<and> singleListGetNodeData ops l n = (STATUS_SUCCESS, items l ! i)"
    and next_node: "\<lbrakk>node_at l n i; Suc i < length (items l)\<rbrakk> \<Longrightarrow>
      \<exists>n'. singleListGetNextNode ops l n = (STATUS_SUCCESS, Some n') \<and> node_at l n' (Suc i)"
    and last_node: "\<lbrakk>node_at l n i; Suc i = length (items l)\<rbrakk> \<Longrightarrow> singleListGetNextNode ops l n = (STATUS_SUCCESS, None)"
    and insert_failed: "singleListInsertItemHead ops l x = (st, l') \<and> st \<noteq> STATUS_SUCCESS \<Longrightarrow> l' = l"
      "singleListInsertItemAfter ops l n x = (st, l') \<and> st \<noteq> STATUS_SUCCESS \<Longrightarrow> l' = l"
      "singleListInsertItemTail ops l x = (st, l') \<and> st \<noteq> STATUS_SUCCESS \<Longrightarrow> l' = l"
    and insert_head: "singleListInsertItemHead ops l x = (STATUS_SUCCESS, l') \<Longrightarrow> items l' = x # items l"
    and insert_after: "\<lbrakk>singleListInsertItemAfter ops l n x = (STATUS_SUCCESS, l'); node_at l n i\<rbrakk> \<Longrightarrow>
      items l' = take (Suc i) (items l) @ x # drop (Suc i) (items l)"
    and insert_tail: "singleListInsertItemTail ops l x = (STATUS_SUCCESS, l') \<Longrightarrow> items l' = items l @ [x]"
    and delete_node: "node_at l n i \<Longrightarrow> \<exists>l'. singleListDeleteNode ops l n = (STATUS_SUCCESS, l') \<and>
      items l' = take i (items l) @ drop (Suc i) (items l)"
    and delete_head: "items l \<noteq> [] \<Longrightarrow> \<exists>l'. singleListDeleteHead ops l = (STATUS_SUCCESS, l') \<and> items l' = tl (items l)"
begin

text \<open>
  A walk over the nodes ends, and does what the walk over the items does, when the body does on
  corresponding states and results the same thing with a node and with its position.
\<close>

lemma walk_from:
  assumes rel: "\<And>n i s t. \<lbrakk>node_at l n i; R i s t\<rbrakk> \<Longrightarrow>
      (case (body n (items l ! i) s, ibody i (items l ! i) t) of
         (Inl (st, s'), Inl (st', t')) \<Rightarrow> st = st' \<and> Q s' t'
       | (Inr s', Inr t') \<Rightarrow> R (Suc i) s' t'
       | _ \<Rightarrow> False)"
    and fin: "\<And>s t. R (length (items l)) s t \<Longrightarrow> Q s t"
    and "i \<le> length (items l)" "R i s t"
    and "case pn of None \<Rightarrow> i = length (items l) | Some n \<Rightarrow> node_at l n i"
  shows "\<exists>st s' t'. list_walk ops l body pn s = Some (st, s') \<and>
    items_walk ibody i (drop i (items l)) t = (st, t') \<and> Q s' t'"
  using assms(3-5)
proof (induction "length (items l) - i" arbitrary: i s t pn)
  case 0
  then have i: "i = length (items l)" by simp
  then have "pn = None" using 0(4) node_data by (cases pn) fastforce+
  then show ?case using i fin 0(3) by (auto simp: list_walk.simps)
next
  case (Suc k)
  then have lt: "i < length (items l)" by simp
  then obtain n where pn: "pn = Some n" "node_at l n i" using Suc(5) by (cases pn) auto
  have d: "drop i (items l) = items l ! i # drop (Suc i) (items l)" using lt by (simp add: Cons_nth_drop_Suc)
  note data = node_data [OF pn(2), THEN conjunct2]
  note r = rel [OF pn(2) Suc(4)]
  show ?case
  proof (cases "body n (items l ! i) s")
    case (Inl res)
    then show ?thesis
      using r pn(1) d data by (cases "ibody i (items l ! i) t") (auto simp: list_walk.simps split: prod.splits)
  next
    case (Inr s1)
    then obtain t1 where t1: "ibody i (items l ! i) t = Inr t1" "R (Suc i) s1 t1"
      using r by (cases "ibody i (items l ! i) t") auto
    obtain pn' where nx: "singleListGetNextNode ops l n = (STATUS_SUCCESS, pn')"
        "case pn' of None \<Rightarrow> Suc i = length (items l) | Some n' \<Rightarrow> node_at l n' (Suc i)"
      using next_node [OF pn(2)] last_node [OF pn(2)] lt by (cases "Suc i = length (items l)") fastforce+
    have "\<exists>st s' t'. list_walk ops l body pn' s1 = Some (st, s') \<and>
        items_walk ibody (Suc i) (drop (Suc i) (items l)) t1 = (st, t') \<and> Q s' t'"
      by (rule Suc(1)) (use Suc(2) lt t1(2) nx(2) in auto)
    moreover have "list_walk ops l body pn s = list_walk ops l body pn' s1"
      using pn(1) data Inr nx(1) by (subst list_walk.simps) simp
    moreover have "items_walk ibody i (drop i (items l)) t = items_walk ibody (Suc i) (drop (Suc i) (items l)) t1"
      using d t1(1) by simp
    ultimately show ?thesis by simp
  qed
qed

lemma walk_list:
  assumes "singleListGetHeadNode ops l = (st0, pn)"
    and rel: "\<And>n i s t. \<lbrakk>node_at l n i; R i s t\<rbrakk> \<Longrightarrow>
      (case (body n (items l ! i) s, ibody i (items l ! i) t) of
         (Inl (st, s'), Inl (st', t')) \<Rightarrow> st = st' \<and> Q s' t'
       | (Inr s', Inr t') \<Rightarrow> R (Suc i) s' t'
       | _ \<Rightarrow> False)"
    and fin: "\<And>s t. R (length (items l)) s t \<Longrightarrow> Q s t"
    and "R 0 s t"
  shows "st0 = STATUS_SUCCESS \<and> (\<exists>st s' t'. list_walk ops l body pn s = Some (st, s') \<and>
    items_walk ibody 0 (items l) t = (st, t') \<and> Q s' t')"
proof -
  have h: "st0 = STATUS_SUCCESS" "case pn of None \<Rightarrow> 0 = length (items l) | Some n \<Rightarrow> node_at l n 0"
    using assms(1) head_empty [of l] head_node [of l] by (cases "items l = []"; fastforce)+
  have "\<exists>st s' t'. list_walk ops l body pn s = Some (st, s') \<and>
      items_walk ibody 0 (drop 0 (items l)) t = (st, t') \<and> Q s' t'"
    by (rule walk_from [where R = R and Q = Q and l = l and body = body and ibody = ibody, OF rel fin])
      (use h(2) assms(4) in auto)
  then show ?thesis using h(1) by simp
qed

text \<open>For a body that does not look at the node, the two walks are the same.\<close>

lemma walk_items:
  assumes "singleListGetHeadNode ops l = (st0, pn)"
  shows "st0 = STATUS_SUCCESS \<and> list_walk ops l (\<lambda>_. body) pn s = Some (items_walk (\<lambda>_. body) 0 (items l) s)"
proof -
  have "st0 = STATUS_SUCCESS \<and> (\<exists>st s' t'. list_walk ops l (\<lambda>_. body) pn s = Some (st, s') \<and>
      items_walk (\<lambda>_. body) 0 (items l) s = (st, t') \<and> s' = t')"
    by (rule walk_list [where R = "\<lambda>_. (=)" and Q = "(=)" and l = l and body = "\<lambda>_. body" and ibody = "\<lambda>_. body", OF assms])
      (auto split: sum.split)
  then show ?thesis by auto
qed

end

subsection \<open>Lists as lists\<close>

text \<open>HOL lists with positions as nodes meet the contract.\<close>

definition plain_list_ops :: "(UINT64 list, nat) single_list_ops" where
  "plain_list_ops = \<lparr>
     singleListGetNodeCount = (\<lambda>l. (STATUS_SUCCESS, length l)),
     singleListGetHeadNode = (\<lambda>l. (STATUS_SUCCESS, if l = [] then None else Some 0)),
     singleListGetNodeData = (\<lambda>l i. (STATUS_SUCCESS, l ! i)),
     singleListGetNextNode = (\<lambda>l i. (STATUS_SUCCESS, if Suc i < length l then Some (Suc i) else None)),
     singleListInsertItemHead = (\<lambda>l x. (STATUS_SUCCESS, x # l)),
     singleListInsertItemAfter = (\<lambda>l i x. (STATUS_SUCCESS, take (Suc i) l @ x # drop (Suc i) l)),
     singleListInsertItemTail = (\<lambda>l x. (STATUS_SUCCESS, l @ [x])),
     singleListDeleteNode = (\<lambda>l i. (STATUS_SUCCESS, take i l @ drop (Suc i) l)),
     singleListDeleteHead = (\<lambda>l. (STATUS_SUCCESS, tl l))\<rparr>"

interpretation plain_list: single_list plain_list_ops "\<lambda>l. l" "\<lambda>l n i. n = i \<and> i < length l"
  by unfold_locales (auto simp: plain_list_ops_def)

end
