(* ===== verification/Request_Info.thy ===== *)
theory Request_Info
  imports Single_List Aws_Credentials
begin

text \<open>
  Requests and their headers (\<open>Common/RequestInfo.c\<close>). The headers are kept in a list of the platform
  independent code, as addresses of header objects, in the order of their names without case. The
  state of the operations is the request and the heap of the header objects that are live.

  \<open>None\<close> as a result is undefined behaviour (an object that is not live, a copy beyond a string, a
  variable that was not initialised) or a loop that does not end. The limits that belong to the
  platform independent code are parameters; a pointer for a result that may be NULL is a boolean.
\<close>

definition MAX_REQUEST_HEADER_NAME_LEN :: nat where "MAX_REQUEST_HEADER_NAME_LEN = 128"
definition MAX_REQUEST_HEADER_VALUE_LEN :: nat where "MAX_REQUEST_HEADER_VALUE_LEN = 2048"
definition MAX_REQUEST_HEADER_COUNT :: nat where "MAX_REQUEST_HEADER_COUNT = 200"
definition MAX_REGION_NAME_LEN :: nat where "MAX_REGION_NAME_LEN = 128"

datatype HTTP_REQUEST_VERB = HTTP_REQUEST_VERB_GET | HTTP_REQUEST_VERB_POST | HTTP_REQUEST_VERB_PUT

record RequestHeader =
  rh_pName :: string
  rh_nameLen :: UINT32
  rh_pValue :: string
  rh_valueLen :: UINT32

type_synonym hheap = "UINT64 \<Rightarrow> RequestHeader option"

record 'l RequestInfo =
  ri_terminating :: bool
  ri_verb :: HTTP_REQUEST_VERB
  ri_body :: PCHAR
  ri_bodySize :: UINT32
  ri_url :: string
  ri_certPath :: string
  ri_sslCertPath :: string
  ri_sslPrivateKeyPath :: string
  ri_certType :: SSL_CERTIFICATE_TYPE
  ri_region :: string
  ri_currentTime :: UINT64
  ri_completionTimeout :: UINT64
  ri_connectionTimeout :: UINT64
  ri_callAfter :: UINT64
  ri_lowSpeedLimit :: UINT64
  ri_lowSpeedTimeLimit :: UINT64
  ri_pAwsCredentials :: UINT64
  ri_pRequestHeaders :: "'l option"

record ('l, 'n) request_env =
  re_list :: "('l, 'n) single_list_ops"
  re_listCreate :: "STATUS \<times> 'l option"
  re_malloc :: "hheap \<Rightarrow> UINT64 option"
  re_requestMemory :: bool
  re_time :: UINT64
  re_maxUri :: nat
  re_maxPath :: nat

subsection \<open>Headers\<close>

text \<open>A string of at least that many characters, its terminator counted, as the C string that is copied.\<close>

definition copy_string :: "string \<Rightarrow> UINT32 \<Rightarrow> string option" where
  "copy_string s n = map_option (takeWhile (\<lambda>x. x \<noteq> NUL)) (mem_read s (unat n))"

definition createRequestHeader ::
    "(hheap \<Rightarrow> UINT64 option) \<Rightarrow> hheap \<Rightarrow> PCHAR \<Rightarrow> UINT32 \<Rightarrow> PCHAR \<Rightarrow> UINT32 \<Rightarrow> bool \<Rightarrow> (STATUS \<times> UINT64 \<times> hheap) option" where
  "createRequestHeader malloc hh headerName headerNameLen headerValue headerValueLen ppHeader =
     (case (headerName, headerValue) of
        (Some name, Some val) \<Rightarrow>
          if \<not> ppHeader then Some (STATUS_NULL_ARG, 0, hh)
          else
            let nLen = (if headerNameLen = 0 then of_nat (length name) else headerNameLen);
                vLen = (if headerValueLen = 0 then of_nat (length val) else headerValueLen)
            in if \<not> (nLen > 0 \<and> vLen > 0) then Some (STATUS_INVALID_ARG, 0, hh)
               else if \<not> unat nLen < MAX_REQUEST_HEADER_NAME_LEN then Some (STATUS_MAX_REQUEST_HEADER_NAME_LEN, 0, hh)
               else if \<not> unat vLen < MAX_REQUEST_HEADER_VALUE_LEN then Some (STATUS_MAX_REQUEST_HEADER_VALUE_LEN, 0, hh)
               else (case malloc hh of
                   None \<Rightarrow> Some (STATUS_NOT_ENOUGH_MEMORY, 0, hh)
                 | Some p \<Rightarrow> do {
                     n \<leftarrow> copy_string name nLen;
                     v \<leftarrow> copy_string val vLen;
                     Some (STATUS_SUCCESS, p, hh(p \<mapsto> \<lparr>rh_pName = n, rh_nameLen = nLen, rh_pValue = v, rh_valueLen = vLen\<rparr>))
                   })
      | _ \<Rightarrow> Some (STATUS_NULL_ARG, 0, hh))"

text \<open>
  The loop of \<open>setRequestHeader\<close> looks for the first header whose name is greater; where the code
  inserts and leaves the loop, the body ends with \<open>ss_found\<close>, and the insertion follows the loop.
\<close>

record 'n set_state =
  ss_prev :: "'n option"
  ss_found :: bool
  ss_undefined :: bool

definition set_step :: "hheap \<Rightarrow> string \<Rightarrow> 'n \<Rightarrow> UINT64 \<Rightarrow> 'n set_state \<Rightarrow> (STATUS \<times> 'n set_state) + 'n set_state" where
  "set_step hh name n item s = (case hh item of
     None \<Rightarrow> Inl (STATUS_SUCCESS, s\<lparr>ss_undefined := True\<rparr>)
   | Some h \<Rightarrow>
       if STRCMPI (rh_pName h) name > 0 then Inl (STATUS_SUCCESS, s\<lparr>ss_found := True\<rparr>)
       else Inr (s\<lparr>ss_prev := Some n\<rparr>))"

definition insert_header :: "('l, 'n) single_list_ops \<Rightarrow> 'l \<Rightarrow> 'n set_state \<Rightarrow> UINT64 \<Rightarrow> STATUS \<times> 'l" where
  "insert_header ops l s p =
     (if ss_found s
      then (case ss_prev s of None \<Rightarrow> singleListInsertItemHead ops l p | Some n \<Rightarrow> singleListInsertItemAfter ops l n p)
      else singleListInsertItemTail ops l p)"

definition setRequestHeader ::
    "('l, 'n) request_env \<Rightarrow> 'l RequestInfo option \<Rightarrow> PCHAR \<Rightarrow> UINT32 \<Rightarrow> PCHAR \<Rightarrow> UINT32 \<Rightarrow> hheap
      \<Rightarrow> (STATUS \<times> 'l RequestInfo option \<times> hheap) option" where
  "setRequestHeader E pRequestInfo headerName headerNameLen headerValue headerValueLen hh =
     (if pRequestInfo = None \<or> headerName = None \<or> headerValue = None then Some (STATUS_NULL_ARG, pRequestInfo, hh)
      else do {
        r \<leftarrow> pRequestInfo;
        l \<leftarrow> ri_pRequestHeaders r;
        (case singleListGetNodeCount (re_list E) l of (st0, count) \<Rightarrow>
          if STATUS_FAILED st0 then Some (st0, pRequestInfo, hh)
          else if \<not> count < MAX_REQUEST_HEADER_COUNT then Some (STATUS_MAX_REQUEST_HEADER_COUNT, pRequestInfo, hh)
          else do {
            (st1, p, hh1) \<leftarrow> createRequestHeader (re_malloc E) hh headerName headerNameLen headerValue headerValueLen True;
            if STATUS_FAILED st1 then Some (st1, pRequestInfo, hh1)
            else (case singleListGetHeadNode (re_list E) l of (st2, pCurNode) \<Rightarrow>
              if STATUS_FAILED st2 then Some (st2, pRequestInfo, hh1(p := None))
              else do {
                h \<leftarrow> hh1 p;
                (st3, s) \<leftarrow> list_walk (re_list E) l (set_step hh1 (rh_pName h)) pCurNode \<lparr>ss_prev = None, ss_found = False, ss_undefined = False\<rparr>;
                if ss_undefined s then None
                else if STATUS_FAILED st3 then Some (st3, pRequestInfo, hh1(p := None))
                else (case insert_header (re_list E) l s p of (st4, l') \<Rightarrow>
                  Some (st4, Some (r\<lparr>ri_pRequestHeaders := Some l'\<rparr>), if STATUS_FAILED st4 then hh1(p := None) else hh1))
              })
          })
      })"

text \<open>
  The loop of \<open>removeRequestHeader\<close>: \<open>rs_current\<close> is the last header that was looked at, 0 for NULL,
  which is released at the end whether or not it was the one to remove.
\<close>

record 'n remove_state =
  rs_current :: UINT64
  rs_found :: "'n option"
  rs_undefined :: bool

definition remove_step :: "hheap \<Rightarrow> string \<Rightarrow> 'n \<Rightarrow> UINT64 \<Rightarrow> 'n remove_state \<Rightarrow> (STATUS \<times> 'n remove_state) + 'n remove_state" where
  "remove_step hh headerName n item s = (case hh item of
     None \<Rightarrow> Inl (STATUS_SUCCESS, s\<lparr>rs_undefined := True\<rparr>)
   | Some h \<Rightarrow>
       if STRCMPI (rh_pName h) headerName = 0 then Inl (STATUS_SUCCESS, s\<lparr>rs_current := item, rs_found := Some n\<rparr>)
       else Inr (s\<lparr>rs_current := item\<rparr>))"

definition SAFE_MEMFREE :: "hheap \<Rightarrow> UINT64 \<Rightarrow> hheap option" where
  "SAFE_MEMFREE hh p = (if p = 0 then Some hh else if hh p = None then None else Some (hh(p := None)))"

definition removeRequestHeader ::
    "('l, 'n) request_env \<Rightarrow> 'l RequestInfo option \<Rightarrow> PCHAR \<Rightarrow> hheap \<Rightarrow> (STATUS \<times> 'l RequestInfo option \<times> hheap) option" where
  "removeRequestHeader E pRequestInfo headerName hh =
     (if pRequestInfo = None \<or> headerName = None then Some (STATUS_NULL_ARG, pRequestInfo, hh)
      else do {
        r \<leftarrow> pRequestInfo;
        l \<leftarrow> ri_pRequestHeaders r;
        name \<leftarrow> headerName;
        (case singleListGetHeadNode (re_list E) l of (st1, pCurNode) \<Rightarrow>
          if STATUS_FAILED st1 then Some (st1, pRequestInfo, hh)
          else do {
            (st2, s) \<leftarrow> list_walk (re_list E) l (remove_step hh name) pCurNode \<lparr>rs_current = 0, rs_found = None, rs_undefined = False\<rparr>;
            if rs_undefined s then None
            else (case (case rs_found s of
                 None \<Rightarrow> (st2, l)
               | Some n \<Rightarrow> singleListDeleteNode (re_list E) l n) of (st3, l') \<Rightarrow>
              map_option (\<lambda>hh'. (st3, Some (r\<lparr>ri_pRequestHeaders := Some l'\<rparr>), hh')) (SAFE_MEMFREE hh (rs_current s)))
          })
      })"

text \<open>
  The loop of \<open>removeRequestHeaders\<close>, as many times as the list has items; the list or the node being
  NULL makes it undefined, the list because the count is then not initialised.
\<close>

fun remove_all :: "('l, 'n) single_list_ops \<Rightarrow> nat \<Rightarrow> 'l \<Rightarrow> hheap \<Rightarrow> ('l \<times> hheap) option" where
  "remove_all ops 0 l hh = Some (l, hh)"
| "remove_all ops (Suc itemCount) l hh = do {
     pNode \<leftarrow> snd (singleListGetHeadNode ops l);
     let pRequestHeader = snd (singleListGetNodeData ops l pNode);
     hh1 \<leftarrow> SAFE_MEMFREE hh pRequestHeader;
     remove_all ops itemCount (snd (singleListDeleteHead ops l)) hh1
   }"

definition removeRequestHeaders ::
    "('l, 'n) request_env \<Rightarrow> 'l RequestInfo option \<Rightarrow> hheap \<Rightarrow> (STATUS \<times> 'l RequestInfo option \<times> hheap) option" where
  "removeRequestHeaders E pRequestInfo hh = (case pRequestInfo of
     None \<Rightarrow> Some (STATUS_NULL_ARG, None, hh)
   | Some r \<Rightarrow> do {
       l \<leftarrow> ri_pRequestHeaders r;
       (l', hh') \<leftarrow> remove_all (re_list E) (snd (singleListGetNodeCount (re_list E) l)) l hh;
       Some (STATUS_SUCCESS, Some (r\<lparr>ri_pRequestHeaders := Some l'\<rparr>), hh')
     })"

subsection \<open>Requests\<close>

definition freeRequestInfo ::
    "('l, 'n) request_env \<Rightarrow> 'l RequestInfo option option \<Rightarrow> hheap \<Rightarrow> (STATUS \<times> 'l RequestInfo option option \<times> hheap) option" where
  "freeRequestInfo E ppRequestInfo hh = (case ppRequestInfo of
     None \<Rightarrow> Some (STATUS_NULL_ARG, None, hh)
   | Some None \<Rightarrow> Some (STATUS_SUCCESS, Some None, hh)
   | Some (Some r) \<Rightarrow> map_option (\<lambda>(_, _, hh'). (STATUS_SUCCESS, Some None, hh')) (removeRequestHeaders E (Some r) hh))"

definition optional_path :: "nat \<Rightarrow> PCHAR \<Rightarrow> string" where
  "optional_path n path = (case path of None \<Rightarrow> '''' | Some s \<Rightarrow> STRNCPY s n)"

definition createRequestInfo ::
    "('l, 'n) request_env \<Rightarrow> PCHAR \<Rightarrow> PCHAR \<Rightarrow> PCHAR \<Rightarrow> PCHAR \<Rightarrow> PCHAR \<Rightarrow> PCHAR \<Rightarrow> SSL_CERTIFICATE_TYPE \<Rightarrow> PCHAR \<Rightarrow> UINT64 \<Rightarrow> UINT64
      \<Rightarrow> UINT64 \<Rightarrow> UINT64 \<Rightarrow> UINT64 \<Rightarrow> bool \<Rightarrow> hheap \<Rightarrow> (STATUS \<times> 'l RequestInfo option \<times> hheap) option" where
  "createRequestInfo E url body region certPath sslCertPath sslPrivateKeyPath certType userAgent connectionTimeout completionTimeout
      lowSpeedLimit lowSpeedTimeLimit pAwsCredentials ppRequestInfo hh =
     (case (region, url) of
        (Some reg, Some u) \<Rightarrow>
          if \<not> ppRequestInfo then Some (STATUS_NULL_ARG, None, hh)
          else if \<not> re_requestMemory E then Some (STATUS_NOT_ENOUGH_MEMORY, None, hh)
          else do {
            let r = \<lparr>ri_terminating = False, ri_verb = HTTP_REQUEST_VERB_POST, ri_body = body,
              ri_bodySize = (case body of None \<Rightarrow> 0 | Some b \<Rightarrow> of_nat (length b)),
              ri_url = STRNCPY u (re_maxUri E), ri_certPath = optional_path (re_maxPath E) certPath,
              ri_sslCertPath = optional_path (re_maxPath E) sslCertPath, ri_sslPrivateKeyPath = optional_path (re_maxPath E) sslPrivateKeyPath,
              ri_certType = certType, ri_region = STRNCPY reg MAX_REGION_NAME_LEN, ri_currentTime = re_time E,
              ri_completionTimeout = completionTimeout, ri_connectionTimeout = connectionTimeout, ri_callAfter = re_time E,
              ri_lowSpeedLimit = lowSpeedLimit, ri_lowSpeedTimeLimit = lowSpeedTimeLimit, ri_pAwsCredentials = pAwsCredentials,
              ri_pRequestHeaders = snd (re_listCreate E)\<rparr>;
            (st, pr, hh1) \<leftarrow> (if STATUS_FAILED (fst (re_listCreate E)) then Some (fst (re_listCreate E), Some r, hh)
                             else setRequestHeader E (Some r) (Some ''user-agent'') 0 userAgent 0 hh);
            if STATUS_FAILED st
            then map_option (\<lambda>(_, _, hh2). (st, None, hh2)) (freeRequestInfo E (Some pr) hh1)
            else Some (STATUS_SUCCESS, pr, hh1)
          }
      | _ \<Rightarrow> Some (STATUS_NULL_ARG, None, hh))"

definition HTTPS_SCHEME_NAME :: string where "HTTPS_SCHEME_NAME = ''https''"
definition WSS_SCHEME_NAME :: string where "WSS_SCHEME_NAME = ''wss''"

definition requestRequiresSecureConnection :: "PCHAR \<Rightarrow> bool \<Rightarrow> STATUS \<times> bool option" where
  "requestRequiresSecureConnection pUrl pSecure = (case pUrl of
     None \<Rightarrow> (STATUS_NULL_ARG, None)
   | Some u \<Rightarrow>
       if \<not> pSecure then (STATUS_NULL_ARG, None)
       else (STATUS_SUCCESS, Some (STRNCMPI u HTTPS_SCHEME_NAME (length HTTPS_SCHEME_NAME) = 0 \<or>
                                   STRNCMPI u WSS_SCHEME_NAME (length WSS_SCHEME_NAME) = 0)))"

subsection \<open>The headers of a request\<close>

definition header_key :: "hheap \<Rightarrow> UINT64 \<Rightarrow> nat list" where
  "header_key hh p = fold_key (rh_pName (the (hh p)))"

text \<open>
  The invariant of a request: its headers are different live objects, in the order of their names
  without case, and not more than the maximum.
\<close>

definition request_inv :: "('l \<Rightarrow> UINT64 list) \<Rightarrow> 'l RequestInfo \<Rightarrow> hheap \<Rightarrow> bool" where
  "request_inv items r hh \<longleftrightarrow> (\<exists>l. ri_pRequestHeaders r = Some l \<and> distinct (items l) \<and>
     (\<forall>x\<in>set (items l). x \<noteq> 0 \<and> hh x \<noteq> None) \<and> sorted (map (header_key hh) (items l)) \<and> length (items l) \<le> MAX_REQUEST_HEADER_COUNT)"

definition header_list :: "('l \<Rightarrow> UINT64 list) \<Rightarrow> 'l RequestInfo \<Rightarrow> UINT64 list" where
  "header_list items r = (case ri_pRequestHeaders r of None \<Rightarrow> [] | Some l \<Rightarrow> items l)"

text \<open>The position at which a name belongs: behind all names that are not greater.\<close>

definition header_pos :: "hheap \<Rightarrow> nat list \<Rightarrow> UINT64 list \<Rightarrow> nat" where
  "header_pos hh key xs = length (takeWhile (\<lambda>x. header_key hh x \<le> key) xs)"

lemma header_pos_le: "header_pos hh key xs \<le> length xs"
  by (simp add: header_pos_def length_takeWhile_le)

lemma sorted_insert_at:
  fixes f :: "'a \<Rightarrow> 'b::linorder"
  assumes "sorted (map f xs)"
  shows "sorted (map f (takeWhile (\<lambda>x. f x \<le> f y) xs @ y # drop (length (takeWhile (\<lambda>x. f x \<le> f y) xs)) xs))"
proof -
  let ?t = "takeWhile (\<lambda>x. f x \<le> f y) xs" and ?d = "dropWhile (\<lambda>x. f x \<le> f y) xs"
  have d: "drop (length ?t) xs = ?d" by (simp add: dropWhile_eq_drop)
  have s: "sorted (map f ?t @ map f ?d)" using assms by (simp flip: map_append)
  have b: "f y \<le> f z" if "z \<in> set ?d" for z
  proof -
    have "\<exists>u us. ds = u # us" if "z \<in> set ds" for ds using that by (cases ds) auto
    from this [OF that] obtain u us where u: "?d = u # us" by blast
    then have "\<not> f u \<le> f y" using hd_dropWhile [of "\<lambda>x. f x \<le> f y" xs] by (simp del: hd_dropWhile)
    moreover have "sorted (map f (u # us))" "z \<in> set (u # us)" using s that unfolding u by (simp_all only: sorted_append)
    ultimately show ?thesis by auto
  qed
  have a: "f z \<le> f y" if "z \<in> set ?t" for z using that by (auto dest: set_takeWhileD)
  have gen: "sorted (ts @ k # ds)" if "sorted (ts @ ds)" "\<And>z. z \<in> set ts \<Longrightarrow> z \<le> k" "\<And>z. z \<in> set ds \<Longrightarrow> k \<le> z" for ts ds and k :: 'b
    using that by (simp add: sorted_append)
  have "sorted (map f ?t @ f y # map f ?d)" by (rule gen [OF s]) (use a b in \<open>auto simp only: set_map\<close>)
  then show ?thesis by (simp only: d map_append list.map)
qed

text \<open>The walk over the items that looks for the position of a name.\<close>

definition set_istep :: "hheap \<Rightarrow> nat list \<Rightarrow> nat \<Rightarrow> UINT64 \<Rightarrow> nat \<times> bool \<Rightarrow> (STATUS \<times> nat \<times> bool) + (nat \<times> bool)" where
  "set_istep hh key i x t = (if header_key hh x > key then Inl (STATUS_SUCCESS, (i, True)) else Inr (Suc i, False))"

lemma set_iwalk:
  "items_walk (set_istep hh key) i xs (i, False) =
     (STATUS_SUCCESS, (i + header_pos hh key xs, header_pos hh key xs < length xs))"
proof (induction xs arbitrary: i)
  case (Cons x xs)
  then show ?case using Cons [of "Suc i"] by (auto simp: set_istep_def header_pos_def not_le)
qed (simp add: header_pos_def)

definition remove_istep :: "hheap \<Rightarrow> nat list \<Rightarrow> nat \<Rightarrow> UINT64 \<Rightarrow> UINT64 \<times> nat option \<Rightarrow> (STATUS \<times> UINT64 \<times> nat option) + (UINT64 \<times> nat option)" where
  "remove_istep hh key i x t = (if header_key hh x = key then Inl (STATUS_SUCCESS, (x, Some i)) else Inr (x, None))"

text \<open>The result of looking for a header to remove: the last one looked at, and where it was found.\<close>

definition remove_pos :: "hheap \<Rightarrow> nat list \<Rightarrow> UINT64 list \<Rightarrow> nat" where
  "remove_pos hh key xs = length (takeWhile (\<lambda>x. header_key hh x \<noteq> key) xs)"

lemma remove_iwalk:
  "items_walk (remove_istep hh key) i xs (c, None) =
     (STATUS_SUCCESS, let j = remove_pos hh key xs in
        if j < length xs then (xs ! j, Some (i + j)) else (if xs = [] then c else last xs, None))"
proof (induction xs arbitrary: i c)
  case (Cons x xs)
  then show ?case using Cons [of "Suc i" x] by (auto simp: remove_istep_def remove_pos_def Let_def)
qed (simp add: remove_pos_def)

locale request_list = single_list ops items node_at
  for ops :: "('l, 'n) single_list_ops" and items :: "'l \<Rightarrow> UINT64 list" and node_at :: "'l \<Rightarrow> 'n \<Rightarrow> nat \<Rightarrow> bool" +
  fixes E :: "('l, 'n) request_env"
  assumes list_ops: "re_list E = ops"
    and list_create: "re_listCreate E = (st, pl) \<Longrightarrow>
      (if st = STATUS_SUCCESS then \<exists>l. pl = Some l \<and> items l = [] else pl = None)"
    and malloc_fresh: "re_malloc E hh = Some p \<Longrightarrow> hh p = None \<and> p \<noteq> 0"
begin

lemma set_walk:
  assumes "singleListGetHeadNode ops l = (st0, pn)" and "\<forall>x\<in>set (items l). hh x \<noteq> None"
  shows "st0 = STATUS_SUCCESS \<and> (\<exists>s. list_walk ops l (set_step hh name) pn \<lparr>ss_prev = None, ss_found = False, ss_undefined = False\<rparr> =
      Some (STATUS_SUCCESS, s) \<and> \<not> ss_undefined s \<and> ss_found s = (header_pos hh (fold_key name) (items l) < length (items l)) \<and>
      (case ss_prev s of None \<Rightarrow> header_pos hh (fold_key name) (items l) = 0
       | Some n \<Rightarrow> \<exists>i. node_at l n i \<and> header_pos hh (fold_key name) (items l) = Suc i))"
proof -
  define R :: "nat \<Rightarrow> 'n set_state \<Rightarrow> nat \<times> bool \<Rightarrow> bool" where
    "R = (\<lambda>i s t. \<not> ss_undefined s \<and> \<not> ss_found s \<and> t = (i, False) \<and>
       (case ss_prev s of None \<Rightarrow> i = 0 | Some n \<Rightarrow> \<exists>k. node_at l n k \<and> i = Suc k))"
  define Q :: "'n set_state \<Rightarrow> nat \<times> bool \<Rightarrow> bool" where
    "Q = (\<lambda>s t. \<not> ss_undefined s \<and> ss_found s = snd t \<and>
       (case ss_prev s of None \<Rightarrow> fst t = 0 | Some n \<Rightarrow> \<exists>k. node_at l n k \<and> fst t = Suc k))"
  have "st0 = STATUS_SUCCESS \<and> (\<exists>st s' t'. list_walk ops l (set_step hh name) pn \<lparr>ss_prev = None, ss_found = False, ss_undefined = False\<rparr> = Some (st, s') \<and>
      items_walk (set_istep hh (fold_key name)) 0 (items l) (0, False) = (st, t') \<and> Q s' t')"
  proof (rule walk_list [where R = R and l = l, OF assms(1)])
    fix n i s t
    assume n: "node_at l n i" and r: "R i s t"
    have "hh (items l ! i) \<noteq> None" using assms(2) node_data [OF n] by simp
    then obtain h where h: "hh (items l ! i) = Some h" by auto
    have gt: "STRCMPI (rh_pName h) name > 0 \<longleftrightarrow> header_key hh (items l ! i) > fold_key name" by (simp add: STRCMPI_gt header_key_def h)
    show "case (set_step hh name n (items l ! i) s, set_istep hh (fold_key name) i (items l ! i) t) of
        (Inl (st, s'), Inl (st', t')) \<Rightarrow> st = st' \<and> Q s' t' | (Inr s', Inr t') \<Rightarrow> R (Suc i) s' t' | _ \<Rightarrow> False"
      using r n h gt by (auto simp: set_step_def set_istep_def R_def Q_def split: option.splits)
  qed (simp_all add: R_def Q_def split: option.splits)
  then show ?thesis by (auto simp: set_iwalk Q_def split: option.splits)
qed

lemma remove_walk:
  fixes name :: string
  assumes "singleListGetHeadNode ops l = (st0, pn)" and "\<forall>x\<in>set (items l). hh x \<noteq> None"
  defines "j \<equiv> remove_pos hh (fold_key name) (items l)"
  shows "st0 = STATUS_SUCCESS \<and> (\<exists>s. list_walk ops l (remove_step hh name) pn \<lparr>rs_current = 0, rs_found = None, rs_undefined = False\<rparr> =
      Some (STATUS_SUCCESS, s) \<and> \<not> rs_undefined s \<and>
      (if j < length (items l) then rs_current s = items l ! j \<and> (\<exists>n. rs_found s = Some n \<and> node_at l n j)
       else rs_current s = (if items l = [] then 0 else last (items l)) \<and> rs_found s = None))"
proof -
  define R :: "nat \<Rightarrow> 'n remove_state \<Rightarrow> UINT64 \<times> nat option \<Rightarrow> bool" where
    "R = (\<lambda>i s t. \<not> rs_undefined s \<and> rs_found s = None \<and> t = (rs_current s, None))"
  define Q :: "'n remove_state \<Rightarrow> UINT64 \<times> nat option \<Rightarrow> bool" where
    "Q = (\<lambda>s t. \<not> rs_undefined s \<and> rs_current s = fst t \<and>
       (case snd t of None \<Rightarrow> rs_found s = None | Some i \<Rightarrow> \<exists>n. rs_found s = Some n \<and> node_at l n i))"
  have "st0 = STATUS_SUCCESS \<and> (\<exists>st s' t'. list_walk ops l (remove_step hh name) pn \<lparr>rs_current = 0, rs_found = None, rs_undefined = False\<rparr> = Some (st, s') \<and>
      items_walk (remove_istep hh (fold_key name)) 0 (items l) (0, None) = (st, t') \<and> Q s' t')"
  proof (rule walk_list [where R = R and l = l, OF assms(1)])
    fix n i s t
    assume n: "node_at l n i" and r: "R i s t"
    have "hh (items l ! i) \<noteq> None" using assms(2) node_data [OF n] by simp
    then obtain h where h: "hh (items l ! i) = Some h" by auto
    have eq: "STRCMPI (rh_pName h) name = 0 \<longleftrightarrow> header_key hh (items l ! i) = fold_key name" by (simp add: STRCMPI_eq header_key_def h)
    show "case (remove_step hh name n (items l ! i) s, remove_istep hh (fold_key name) i (items l ! i) t) of
        (Inl (st, s'), Inl (st', t')) \<Rightarrow> st = st' \<and> Q s' t' | (Inr s', Inr t') \<Rightarrow> R (Suc i) s' t' | _ \<Rightarrow> False"
      using r n h eq by (auto simp: remove_step_def remove_istep_def R_def Q_def)
  qed (simp_all add: R_def Q_def)
  then show ?thesis by (auto simp: remove_iwalk Q_def j_def Let_def split: if_splits)
qed

end

subsection \<open>What the operations do to the headers\<close>

text \<open>A header that \<open>createRequestHeader\<close> makes of its arguments, when their lengths fit.\<close>

lemma createRequestHeader_cases:
  assumes "createRequestHeader malloc hh name nLen val vLen True = Some (st, p, hh')"
  shows "st \<noteq> STATUS_SUCCESS \<and> p = 0 \<and> hh' = hh \<or>
    st = STATUS_SUCCESS \<and> malloc hh = Some p \<and> (\<exists>h. hh' = hh(p \<mapsto> h))"
  using assms by (auto simp: createRequestHeader_def Let_def split: option.splits if_splits bind_splits)

lemma insert_at_props:
  "set (take j xs @ p # drop j xs) = insert p (set xs)" "length (take j xs @ p # drop j xs) = Suc (length xs)"
  "\<lbrakk>distinct xs; p \<notin> set xs\<rbrakk> \<Longrightarrow> distinct (take j xs @ p # drop j xs)"
proof -
  define a b where "a = take j xs" and "b = drop j xs"
  have xs: "xs = a @ b" by (simp add: a_def b_def)
  show "set (take j xs @ p # drop j xs) = insert p (set xs)" "length (take j xs @ p # drop j xs) = Suc (length xs)"
    "\<lbrakk>distinct xs; p \<notin> set xs\<rbrakk> \<Longrightarrow> distinct (take j xs @ p # drop j xs)"
    unfolding a_def [symmetric] b_def [symmetric] by (auto simp: xs)
qed

context request_list
begin

lemma setRequestHeader_outcome:
  assumes "request_inv items r hh"
    and "createRequestHeader (re_malloc E) hh (Some name) nLen (Some val) vLen True = Some (st1, p, hh1)"
  shows "\<exists>st r' hh'. setRequestHeader E (Some r) (Some name) nLen (Some val) vLen hh = Some (st, Some r', hh') \<and> request_inv items r' hh' \<and>
    (st \<noteq> STATUS_SUCCESS \<longrightarrow> hh' = hh \<and> header_list items r' = header_list items r) \<and>
    (st = STATUS_SUCCESS \<longrightarrow> hh p = None \<and> hh' = hh1 \<and> (\<exists>h. hh1 = hh(p \<mapsto> h) \<and>
       header_list items r' = take (header_pos hh (fold_key (rh_pName h)) (header_list items r)) (header_list items r) @ p #
         drop (header_pos hh (fold_key (rh_pName h)) (header_list items r)) (header_list items r)))"
proof -
  obtain l where l: "ri_pRequestHeaders r = Some l" "distinct (items l)" "\<forall>x\<in>set (items l). x \<noteq> 0 \<and> hh x \<noteq> None"
      "sorted (map (header_key hh) (items l))" "length (items l) \<le> MAX_REQUEST_HEADER_COUNT"
    using assms(1) by (auto simp: request_inv_def)
  have hl: "header_list items r = items l" using l(1) by (simp add: header_list_def)
  show ?thesis
  proof (cases "length (items l) < MAX_REQUEST_HEADER_COUNT \<and> st1 = STATUS_SUCCESS")
    case False
    then have "\<exists>st. setRequestHeader E (Some r) (Some name) nLen (Some val) vLen hh = Some (st, Some r, hh) \<and> st \<noteq> STATUS_SUCCESS"
      using l(1) assms(2) createRequestHeader_cases [OF assms(2)] by (auto simp: setRequestHeader_def list_ops count)
    then show ?thesis using assms(1) by auto
  next
    case True
    then obtain h where h: "re_malloc E hh = Some p" "hh1 = hh(p \<mapsto> h)" using createRequestHeader_cases [OF assms(2)] by auto
    have p: "hh p = None" "p \<noteq> 0" using malloc_fresh [OF h(1)] by simp_all
    then have pn: "p \<notin> set (items l)" using l(3) by auto
    have live: "\<forall>x\<in>set (items l). hh1 x \<noteq> None" using l(3) h(2) by auto
    have keys: "header_key hh1 x = header_key hh x" if "x \<in> set (items l)" for x using that pn h(2) by (auto simp: header_key_def)
    have kp: "header_key hh1 p = fold_key (rh_pName h)" using h(2) by (simp add: header_key_def)
    let ?key = "fold_key (rh_pName h)"
    define j where "j = header_pos hh ?key (items l)"
    have j1: "header_pos hh1 ?key (items l) = j" unfolding j_def header_pos_def using keys by (metis (mono_tags, lifting) takeWhile_cong)
    obtain pn0 where hd: "singleListGetHeadNode ops l = (STATUS_SUCCESS, pn0)"
      using set_walk [OF _ live, of _ _ "rh_pName h"] by (metis surj_pair)
    obtain s where s: "list_walk ops l (set_step hh1 (rh_pName h)) pn0 \<lparr>ss_prev = None, ss_found = False, ss_undefined = False\<rparr> = Some (STATUS_SUCCESS, s)"
        "\<not> ss_undefined s" "ss_found s = (j < length (items l))" "case ss_prev s of None \<Rightarrow> j = 0 | Some n \<Rightarrow> \<exists>i. node_at l n i \<and> j = Suc i"
      using set_walk [OF hd live, of "rh_pName h"] unfolding j1 by blast
    obtain st4 l' where i: "insert_header ops l s p = (st4, l')" by fastforce
    have res: "setRequestHeader E (Some r) (Some name) nLen (Some val) vLen hh =
        Some (st4, Some (r\<lparr>ri_pRequestHeaders := Some l'\<rparr>), if st4 \<noteq> STATUS_SUCCESS then hh1(p := None) else hh1)"
      using True l(1) assms(2) hd s i h(2) by (simp add: setRequestHeader_def list_ops count)
    have fail: "st4 \<noteq> STATUS_SUCCESS \<Longrightarrow> l' = l"
      using i insert_failed(1,3) [of l p st4 l'] insert_failed(2) [of l _ p st4 l'] by (auto simp: insert_header_def split: if_splits option.splits)
    have jl: "j \<le> length (items l)" unfolding j_def by (rule header_pos_le)
    have ok: "items l' = take j (items l) @ p # drop j (items l)" if "st4 = STATUS_SUCCESS"
      using i that s(3,4) jl insert_head [of l p l'] insert_after [of l _ p l'] insert_tail [of l p l']
      by (auto simp: insert_header_def split: if_splits option.splits)
    show ?thesis
    proof (cases "st4 = STATUS_SUCCESS")
      case st: True
      have ms: "set (items l') = insert p (set (items l))" "distinct (items l')" "length (items l') = Suc (length (items l))"
        using insert_at_props(1,2) [of j "items l" p] insert_at_props(3) [OF l(2) pn, of j] by (simp_all only: ok [OF st])
      have tw: "take j (items l) = takeWhile (\<lambda>x. header_key hh1 x \<le> header_key hh1 p) (items l)"
        "j = length (takeWhile (\<lambda>x. header_key hh1 x \<le> header_key hh1 p) (items l))"
        unfolding kp j1 [symmetric] header_pos_def by (simp_all add: takeWhile_eq_take [symmetric])
      have "sorted (map (header_key hh1) (items l))" using l(4) keys by (metis (mono_tags, lifting) map_cong)
      then have "sorted (map (header_key hh1) (items l'))" unfolding ok [OF st] tw(1) using sorted_insert_at tw(2) by metis
      then have "request_inv items (r\<lparr>ri_pRequestHeaders := Some l'\<rparr>) hh1"
        using ms live p h(2) l(3) True by (auto simp: request_inv_def)
      then show ?thesis using res st ok [OF st] h p hl by (auto simp: header_list_def j_def)
    next
      case False
      have "r\<lparr>ri_pRequestHeaders := Some l'\<rparr> = r" using fail [OF False] l(1) by simp
      moreover have "hh1(p := None) = hh" using h(2) p(1) by (simp add: fun_upd_idem)
      ultimately show ?thesis using res False assms(1) by auto
    qed
  qed
qed

end

lemma remove_at_props:
  assumes "j < length xs"
  shows "distinct xs \<Longrightarrow> distinct (take j xs @ drop (Suc j) xs)" "distinct xs \<Longrightarrow> set (take j xs @ drop (Suc j) xs) = set xs - {xs ! j}"
    "length (take j xs @ drop (Suc j) xs) \<le> length xs" "sorted (map f xs) \<Longrightarrow> sorted (map f (take j xs @ drop (Suc j) xs))"
proof -
  define a x b where "a = take j xs" and "x = xs ! j" and "b = drop (Suc j) xs"
  have xs: "xs = a @ x # b" using id_take_nth_drop [OF assms] by (simp add: a_def x_def b_def)
  show "distinct xs \<Longrightarrow> distinct (take j xs @ drop (Suc j) xs)" "distinct xs \<Longrightarrow> set (take j xs @ drop (Suc j) xs) = set xs - {xs ! j}"
    "length (take j xs @ drop (Suc j) xs) \<le> length xs" "sorted (map f xs) \<Longrightarrow> sorted (map f (take j xs @ drop (Suc j) xs))"
    unfolding a_def [symmetric] b_def [symmetric] x_def [symmetric] by (auto simp: xs sorted_append)
qed

lemma remove_pos_less: "remove_pos hh key xs < length xs \<longleftrightarrow> (\<exists>x\<in>set xs. header_key hh x = key)"
proof
  assume "remove_pos hh key xs < length xs"
  then show "\<exists>x\<in>set xs. header_key hh x = key"
    using nth_length_takeWhile [of "\<lambda>x. header_key hh x \<noteq> key" xs] nth_mem unfolding remove_pos_def by fastforce
next
  assume "\<exists>x\<in>set xs. header_key hh x = key"
  then have "takeWhile (\<lambda>x. header_key hh x \<noteq> key) xs \<noteq> xs" by (auto simp: takeWhile_eq_all_conv)
  then show "remove_pos hh key xs < length xs"
    unfolding remove_pos_def using length_takeWhile_le [of "\<lambda>x. header_key hh x \<noteq> key" xs]
    by (metis le_neq_implies_less take_all_iff order_refl takeWhile_eq_take)
qed

text \<open>The heap without a set of objects.\<close>

definition released :: "UINT64 set \<Rightarrow> hheap \<Rightarrow> hheap" where
  "released S hh = (\<lambda>x. if x \<in> S then None else hh x)"

lemma released_insert: "x \<notin> S \<Longrightarrow> released S (hh(x := None)) = released (insert x S) hh"
  by (auto simp: released_def)

lemma request_inv_remove:
  assumes "request_inv items r hh" "ri_pRequestHeaders r = Some l" "j < length (items l)" "items l' = take j (items l) @ drop (Suc j) (items l)"
  shows "request_inv items (r\<lparr>ri_pRequestHeaders := Some l'\<rparr>) (hh(items l ! j := None))"
proof -
  have inv: "distinct (items l)" "\<forall>x\<in>set (items l). x \<noteq> 0 \<and> hh x \<noteq> None" "sorted (map (header_key hh) (items l))"
      "length (items l) \<le> MAX_REQUEST_HEADER_COUNT"
    using assms(1,2) by (simp_all add: request_inv_def)
  note P = remove_at_props [OF assms(3)]
  have k: "header_key (hh(items l ! j := None)) x = header_key hh x" if "x \<in> set (items l')" for x
    using that P(2) [OF inv(1)] assms(4) by (auto simp: header_key_def)
  have "sorted (map (header_key hh) (items l'))" using P(4) [OF inv(3)] assms(4) by simp
  moreover have e: "map (header_key (hh(items l ! j := None))) (items l') = map (header_key hh) (items l')" using k by simp
  ultimately have "sorted (map (header_key (hh(items l ! j := None))) (items l'))" by (simp only: e)
  then show ?thesis
    using inv P(1,2) [OF inv(1)] P(3) assms(4) by (auto simp: request_inv_def)
qed

context request_list
begin

lemma removeRequestHeader_outcome:
  assumes "request_inv items r hh" "ri_pRequestHeaders r = Some l"
  shows "let j = remove_pos hh (fold_key name) (items l) in
    if j < length (items l)
    then \<exists>l'. removeRequestHeader E (Some r) (Some name) hh = Some (STATUS_SUCCESS, Some (r\<lparr>ri_pRequestHeaders := Some l'\<rparr>), hh(items l ! j := None)) \<and>
      items l' = take j (items l) @ drop (Suc j) (items l)
    else removeRequestHeader E (Some r) (Some name) hh =
      Some (STATUS_SUCCESS, Some r, if items l = [] then hh else hh(last (items l) := None))"
proof -
  have live: "\<forall>x\<in>set (items l). hh x \<noteq> None" and nz: "\<forall>x\<in>set (items l). x \<noteq> 0"
    using assms by (auto simp: request_inv_def)
  define j where "j = remove_pos hh (fold_key name) (items l)"
  obtain pn where hd: "singleListGetHeadNode ops l = (STATUS_SUCCESS, pn)"
    using remove_walk [OF _ live, of _ _ name] by (metis surj_pair)
  obtain s where s: "list_walk ops l (remove_step hh name) pn \<lparr>rs_current = 0, rs_found = None, rs_undefined = False\<rparr> = Some (STATUS_SUCCESS, s)"
      "\<not> rs_undefined s"
      "if j < length (items l) then rs_current s = items l ! j \<and> (\<exists>n. rs_found s = Some n \<and> node_at l n j)
       else rs_current s = (if items l = [] then 0 else last (items l)) \<and> rs_found s = None"
    using remove_walk [OF hd live, of name] unfolding j_def by blast
  note step = assms(2) hd s(1,2) list_ops removeRequestHeader_def
  have "r\<lparr>ri_pRequestHeaders := Some l\<rparr> = r" using assms(2) by simp
  show ?thesis
  proof (cases "j < length (items l)")
    case True
    then obtain n where n: "rs_current s = items l ! j" "rs_found s = Some n" "node_at l n j" using s(3) by auto
    obtain l' where l': "singleListDeleteNode ops l n = (STATUS_SUCCESS, l')" "items l' = take j (items l) @ drop (Suc j) (items l)"
      using delete_node [OF n(3)] by blast
    have "SAFE_MEMFREE hh (items l ! j) = Some (hh(items l ! j := None))" using True live nz by (simp add: SAFE_MEMFREE_def)
    then show ?thesis using True n l' unfolding j_def [symmetric] Let_def by (auto simp: step)
  next
    case False
    have "SAFE_MEMFREE hh (if items l = [] then 0 else last (items l)) = Some (if items l = [] then hh else hh(last (items l) := None))"
      using live nz last_in_set by (auto simp: SAFE_MEMFREE_def)
    then show ?thesis using False s(3) assms(2) unfolding j_def [symmetric] Let_def by (simp add: step split: if_splits)
  qed
qed

lemma remove_all_items:
  "\<lbrakk>distinct (items l); \<forall>x\<in>set (items l). x \<noteq> 0 \<and> hh x \<noteq> None\<rbrakk> \<Longrightarrow>
   \<exists>l'. remove_all ops (length (items l)) l hh = Some (l', released (set (items l)) hh) \<and> items l' = []"
proof (induction "length (items l)" arbitrary: l hh)
  case 0
  then show ?case by (auto simp: released_def)
next
  case (Suc n)
  then obtain x xs where x: "items l = x # xs" by (cases "items l") auto
  obtain nd where nd: "singleListGetHeadNode ops l = (STATUS_SUCCESS, Some nd)" "node_at l nd 0" using head_node [of l] x by auto
  obtain l1 where l1: "singleListDeleteHead ops l = (STATUS_SUCCESS, l1)" "items l1 = xs" using delete_head [of l] x by auto
  have "\<exists>l'. remove_all ops (length (items l1)) l1 (hh(x := None)) = Some (l', released (set (items l1)) (hh(x := None))) \<and> items l' = []"
    by (rule Suc(1)) (use Suc(2-4) x l1 in auto)
  then show ?case
    using nd l1 node_data [OF nd(2)] Suc(3,4) x released_insert [of x "set xs" hh] by (auto simp: SAFE_MEMFREE_def)
qed

lemma freeRequestInfo_outcome:
  assumes "request_inv items r hh"
  shows "freeRequestInfo E (Some (Some r)) hh = Some (STATUS_SUCCESS, Some None, released (set (header_list items r)) hh)"
proof -
  obtain l where l: "ri_pRequestHeaders r = Some l" "distinct (items l)" "\<forall>x\<in>set (items l). x \<noteq> 0 \<and> hh x \<noteq> None"
    using assms by (auto simp: request_inv_def)
  obtain l' where "remove_all ops (length (items l)) l hh = Some (l', released (set (items l)) hh)"
    using remove_all_items [OF l(2,3)] by blast
  then show ?thesis using l(1) by (simp add: freeRequestInfo_def removeRequestHeaders_def list_ops count header_list_def)
qed

end

text \<open>A string argument with a length, which stands for the whole string when it is 0.\<close>

definition header_arg :: "string \<Rightarrow> UINT32 \<Rightarrow> string" where
  "header_arg s n = (if n = 0 then s else take (unat n) s)"

definition arg_ok :: "string \<Rightarrow> UINT32 \<Rightarrow> bool" where
  "arg_ok s n \<longleftrightarrow> NUL \<notin> set s \<and> length s < 2 ^ 32 \<and> unat n \<le> length s"

lemma copy_header_arg:
  assumes "arg_ok s n"
  shows "copy_string s (if n = 0 then of_nat (length s) else n) = Some (header_arg s n)"
    and "unat (if n = 0 then of_nat (length s) else n) = length (header_arg s n)"
proof -
  have len: "unat (of_nat (length s) :: UINT32) = length s" using assms by (simp add: arg_ok_def unat_of_nat take_bit_nat_eq_self)
  have tw: "takeWhile (\<lambda>x. x \<noteq> NUL) (take k s) = take k s" for k
    using assms by (auto simp: arg_ok_def takeWhile_eq_all_conv dest: in_set_takeD)
  from tw [of "length s"] have "takeWhile (\<lambda>x. x \<noteq> NUL) s = s" by simp
  then show "copy_string s (if n = 0 then of_nat (length s) else n) = Some (header_arg s n)"
    using assms len tw by (auto simp: copy_string_def mem_read_def header_arg_def arg_ok_def)
  show "unat (if n = 0 then of_nat (length s) else n) = length (header_arg s n)"
    using assms len by (auto simp: header_arg_def arg_ok_def)
qed

definition header_of :: "string \<Rightarrow> UINT32 \<Rightarrow> string \<Rightarrow> UINT32 \<Rightarrow> RequestHeader" where
  "header_of name nLen val vLen = \<lparr>rh_pName = header_arg name nLen, rh_nameLen = (if nLen = 0 then of_nat (length name) else nLen),
     rh_pValue = header_arg val vLen, rh_valueLen = (if vLen = 0 then of_nat (length val) else vLen)\<rparr>"

text \<open>The statuses of the arguments that are refused.\<close>

definition header_args_status :: "string \<Rightarrow> string \<Rightarrow> STATUS" where
  "header_args_status n v =
     (if n = '''' \<or> v = '''' then STATUS_INVALID_ARG
      else if \<not> length n < MAX_REQUEST_HEADER_NAME_LEN then STATUS_MAX_REQUEST_HEADER_NAME_LEN
      else if \<not> length v < MAX_REQUEST_HEADER_VALUE_LEN then STATUS_MAX_REQUEST_HEADER_VALUE_LEN
      else STATUS_SUCCESS)"

lemma createRequestHeader_args:
  assumes "arg_ok name nLen" "arg_ok val vLen"
  shows "createRequestHeader malloc hh (Some name) nLen (Some val) vLen True =
    (let st = header_args_status (header_arg name nLen) (header_arg val vLen) in
     if st \<noteq> STATUS_SUCCESS then Some (st, 0, hh)
     else case malloc hh of None \<Rightarrow> Some (STATUS_NOT_ENOUGH_MEMORY, 0, hh)
       | Some p \<Rightarrow> Some (STATUS_SUCCESS, p, hh(p \<mapsto> header_of name nLen val vLen)))"
proof -
  note N = copy_header_arg [OF assms(1)] and V = copy_header_arg [OF assms(2)]
  have z: "0 < (if nLen = 0 then of_nat (length name) else nLen) \<longleftrightarrow> header_arg name nLen \<noteq> ''''"
    "0 < (if vLen = 0 then of_nat (length val) else vLen) \<longleftrightarrow> header_arg val vLen \<noteq> ''''"
    unfolding word_less_nat_alt N(2) V(2) by simp_all
  show ?thesis
    unfolding createRequestHeader_def prod.case option.case Let_def z N V header_args_status_def header_of_def
    by (simp split: option.split)
qed

context request_list
begin

lemma set_header_args:
  assumes "request_inv items r hh" and "arg_ok name nLen" "arg_ok val vLen"
  defines "h \<equiv> header_of name nLen val vLen"
    and "n \<equiv> header_pos hh (fold_key (header_arg name nLen)) (header_list items r)"
  shows "\<exists>st r' hh'. setRequestHeader E (Some r) (Some name) nLen (Some val) vLen hh = Some (st, Some r', hh') \<and> request_inv items r' hh' \<and>
    (st \<noteq> STATUS_SUCCESS \<longrightarrow> hh' = hh \<and> header_list items r' = header_list items r) \<and>
    (st = STATUS_SUCCESS \<longrightarrow> (\<exists>p. hh p = None \<and> hh' = hh(p \<mapsto> h) \<and>
       header_list items r' = take n (header_list items r) @ p # drop n (header_list items r)))"
proof -
  have "\<exists>st1 p hh1. createRequestHeader (re_malloc E) hh (Some name) nLen (Some val) vLen True = Some (st1, p, hh1) \<and>
      (st1 = STATUS_SUCCESS \<longrightarrow> hh1 = hh(p \<mapsto> h))"
    unfolding createRequestHeader_args [OF assms(2,3)] h_def Let_def by (simp split: option.split)
  then obtain st1 p hh1 where c: "createRequestHeader (re_malloc E) hh (Some name) nLen (Some val) vLen True = Some (st1, p, hh1)"
      "st1 = STATUS_SUCCESS \<Longrightarrow> hh1 = hh(p \<mapsto> h)" by blast
  obtain st r' hh' where o: "setRequestHeader E (Some r) (Some name) nLen (Some val) vLen hh = Some (st, Some r', hh')" "request_inv items r' hh'"
      "st \<noteq> STATUS_SUCCESS \<Longrightarrow> hh' = hh \<and> header_list items r' = header_list items r"
      "st = STATUS_SUCCESS \<Longrightarrow> hh p = None \<and> hh' = hh1 \<and> (\<exists>g. hh1 = hh(p \<mapsto> g) \<and>
         header_list items r' = take (header_pos hh (fold_key (rh_pName g)) (header_list items r)) (header_list items r) @ p #
           drop (header_pos hh (fold_key (rh_pName g)) (header_list items r)) (header_list items r))"
    using setRequestHeader_outcome [OF assms(1) c(1)] by blast
  have st1: "st1 = STATUS_SUCCESS" if "st = STATUS_SUCCESS"
  proof (rule ccontr)
    assume "st1 \<noteq> STATUS_SUCCESS"
    then have "hh1 = hh" using createRequestHeader_cases [OF c(1)] by simp
    then show False using o(4) [OF that] by (metis fun_upd_same option.distinct(1))
  qed
  have "g = h" if "st = STATUS_SUCCESS" "hh1 = hh(p \<mapsto> g)" for g
    using c(2) [OF st1 [OF that(1)]] that(2) by (metis fun_upd_same option.inject)
  moreover have "rh_pName h = header_arg name nLen" by (simp add: h_def header_of_def)
  ultimately show ?thesis using o c(2) st1 unfolding n_def by (cases "st = STATUS_SUCCESS") auto
qed

end

text \<open>
  C27: setting a header. The arguments that are refused, the full list, and the lack of memory leave the
  headers as they are. Otherwise there is one new header object with the name and the value; it
  stands behind all headers whose name is not greater without case, so that the names stay sorted and
  headers with equal names keep the order in which they were set. The loop over the list ends.
\<close>

theorem setRequestHeader_sorted:
  assumes "request_list ops items node_at E" and "request_inv items r hh" and "arg_ok name nLen" "arg_ok val vLen"
  defines "h \<equiv> header_of name nLen val vLen"
    and "n \<equiv> header_pos hh (fold_key (header_arg name nLen)) (header_list items r)"
  shows "\<exists>st r' hh'. setRequestHeader E (Some r) (Some name) nLen (Some val) vLen hh = Some (st, Some r', hh') \<and> request_inv items r' hh' \<and>
    (st \<noteq> STATUS_SUCCESS \<longrightarrow> hh' = hh \<and> header_list items r' = header_list items r) \<and>
    (st = STATUS_SUCCESS \<longrightarrow> (\<exists>p. hh p = None \<and> hh' = hh(p \<mapsto> h) \<and>
       header_list items r' = take n (header_list items r) @ p # drop n (header_list items r)))"
  unfolding h_def n_def by (rule request_list.set_header_args [OF assms(1-4)])

text \<open>
  Removing a header that is there removes the first one with that name without case, from the list
  and from the heap, and nothing else. The loop over the list ends.
\<close>

theorem removeRequestHeader_present:
  assumes "request_list ops items node_at E" and "request_inv items r hh"
    and "x \<in> set (header_list items r)" "header_key hh x = fold_key name"
  defines "j \<equiv> remove_pos hh (fold_key name) (header_list items r)"
  shows "\<exists>r'. removeRequestHeader E (Some r) (Some name) hh = Some (STATUS_SUCCESS, Some r', hh(header_list items r ! j := None)) \<and>
    request_inv items r' (hh(header_list items r ! j := None)) \<and> j < length (header_list items r) \<and>
    header_list items r' = take j (header_list items r) @ drop (Suc j) (header_list items r)"
proof -
  obtain l where l: "ri_pRequestHeaders r = Some l" using assms(2) by (auto simp: request_inv_def)
  have hl: "header_list items r = items l" using l by (simp add: header_list_def)
  have j: "j < length (items l)" using remove_pos_less [of hh "fold_key name" "items l"] assms(3,4) by (auto simp: hl j_def)
  obtain l' where l': "removeRequestHeader E (Some r) (Some name) hh = Some (STATUS_SUCCESS, Some (r\<lparr>ri_pRequestHeaders := Some l'\<rparr>), hh(items l ! j := None))"
      "items l' = take j (items l) @ drop (Suc j) (items l)"
    using request_list.removeRequestHeader_outcome [OF assms(1,2) l, of name] j unfolding j_def hl Let_def by auto
  then show ?thesis
    using request_inv_remove [OF assms(2) l j l'(2)] j unfolding hl by (auto simp: header_list_def)
qed

text \<open>
  Removing a header that is not there reports success, keeps the list and releases the object of its
  last header, so that the request has a header that is not live: the invariant is lost.
\<close>

theorem removeRequestHeader_absent:
  assumes "request_list ops items node_at E" and "request_inv items r hh"
    and "\<forall>x\<in>set (header_list items r). header_key hh x \<noteq> fold_key name" "header_list items r \<noteq> []"
  defines "hh' \<equiv> hh(last (header_list items r) := None)"
  shows "removeRequestHeader E (Some r) (Some name) hh = Some (STATUS_SUCCESS, Some r, hh') \<and> \<not> request_inv items r hh'"
proof -
  obtain l where l: "ri_pRequestHeaders r = Some l" using assms(2) by (auto simp: request_inv_def)
  have hl: "header_list items r = items l" using l by (simp add: header_list_def)
  have "\<not> remove_pos hh (fold_key name) (items l) < length (items l)" using remove_pos_less [of hh "fold_key name" "items l"] assms(3) by (auto simp: hl)
  then have "removeRequestHeader E (Some r) (Some name) hh = Some (STATUS_SUCCESS, Some r, hh')"
    using request_list.removeRequestHeader_outcome [OF assms(1,2) l, of name] assms(4) by (simp add: hl hh'_def Let_def)
  moreover have "last (items l) \<in> set (items l)" using assms(4) by (simp add: hl)
  ultimately show ?thesis using l by (auto simp: request_inv_def hh'_def hl)
qed

context request_list
begin

lemma set_user_agent:
  assumes "request_inv items r hh" "arg_ok name 0" "arg_ok val 0" "header_list items r = []"
  shows "\<exists>st r' hh'. setRequestHeader E (Some r) (Some name) 0 (Some val) 0 hh = Some (st, Some r', hh') \<and> request_inv items r' hh' \<and>
    (st \<noteq> STATUS_SUCCESS \<longrightarrow> hh' = hh \<and> header_list items r' = []) \<and>
    (st = STATUS_SUCCESS \<longrightarrow> (\<exists>p. hh p = None \<and> hh' = hh(p \<mapsto> header_of name 0 val 0) \<and> header_list items r' = [p]))"
  using set_header_args [OF assms(1-3)] assms(4) by simp

lemma setRequestHeader_keeps:
  assumes "setRequestHeader E (Some r) name nLen val vLen hh = Some (st, Some r', hh')"
  shows "\<exists>l. r' = r\<lparr>ri_pRequestHeaders := l\<rparr>"
proof -
  have "\<exists>l. r = r\<lparr>ri_pRequestHeaders := l\<rparr>" by (rule exI [of _ "ri_pRequestHeaders r"]) simp
  then show ?thesis using assms by (auto simp: setRequestHeader_def split: if_splits bind_splits prod.splits)
qed

lemma createRequestInfo_outcome:
  assumes "re_listCreate E = (STATUS_SUCCESS, pl)" and "userAgent \<noteq> None \<longrightarrow> arg_ok (the userAgent) 0"
  shows "\<exists>st pr hh'. createRequestInfo E (Some url) body (Some region) certPath sslCertPath sslPrivateKeyPath certType userAgent
      connectionTimeout completionTimeout lowSpeedLimit lowSpeedTimeLimit pAwsCredentials True hh = Some (st, pr, hh') \<and>
    (st \<noteq> STATUS_SUCCESS \<longrightarrow> pr = None \<and> hh' = hh) \<and>
    (st = STATUS_SUCCESS \<longrightarrow> (\<exists>r p ua. pr = Some r \<and> userAgent = Some ua \<and> request_inv items r hh' \<and> hh p = None \<and>
       hh' = hh(p \<mapsto> header_of ''user-agent'' 0 ua 0) \<and> header_list items r = [p] \<and>
       ri_verb r = HTTP_REQUEST_VERB_POST \<and> ri_url r = take (re_maxUri E) url \<and> ri_region r = take MAX_REGION_NAME_LEN region \<and> ri_body r = body \<and>
       freeRequestInfo E (Some (Some r)) hh' = Some (STATUS_SUCCESS, Some None, hh)))"
proof (cases "re_requestMemory E")
  case False
  then show ?thesis by (simp add: createRequestInfo_def)
next
  case mem: True
  obtain l0 where l0: "pl = Some l0" "items l0 = []" using list_create [OF assms(1)] by auto
  define r :: "'l RequestInfo" where "r = \<lparr>ri_terminating = False, ri_verb = HTTP_REQUEST_VERB_POST, ri_body = body,
     ri_bodySize = (case body of None \<Rightarrow> 0 | Some b \<Rightarrow> of_nat (length b)),
     ri_url = STRNCPY url (re_maxUri E), ri_certPath = optional_path (re_maxPath E) certPath,
     ri_sslCertPath = optional_path (re_maxPath E) sslCertPath, ri_sslPrivateKeyPath = optional_path (re_maxPath E) sslPrivateKeyPath,
     ri_certType = certType, ri_region = STRNCPY region MAX_REGION_NAME_LEN, ri_currentTime = re_time E,
     ri_completionTimeout = completionTimeout, ri_connectionTimeout = connectionTimeout, ri_callAfter = re_time E,
     ri_lowSpeedLimit = lowSpeedLimit, ri_lowSpeedTimeLimit = lowSpeedTimeLimit, ri_pAwsCredentials = pAwsCredentials,
     ri_pRequestHeaders = Some l0\<rparr>"
  let ?c = "createRequestInfo E (Some url) body (Some region) certPath sslCertPath sslPrivateKeyPath certType userAgent
      connectionTimeout completionTimeout lowSpeedLimit lowSpeedTimeLimit pAwsCredentials True hh"
  have c: "?c = Option.bind (setRequestHeader E (Some r) (Some ''user-agent'') 0 userAgent 0 hh) (\<lambda>(st, pr, hh1).
      if STATUS_FAILED st then map_option (\<lambda>(_, _, hh2). (st, None, hh2)) (freeRequestInfo E (Some pr) hh1) else Some (STATUS_SUCCESS, pr, hh1))"
    unfolding createRequestInfo_def r_def Let_def using mem assms(1) l0(1) by simp
  have inv: "request_inv items r hh" and hl: "header_list items r = []" using l0(2) by (simp_all add: request_inv_def header_list_def r_def)
  have rel: "released {} h = h" for h by (simp add: released_def)
  show ?thesis
  proof (cases userAgent)
    case None
    have "setRequestHeader E (Some r) (Some ''user-agent'') 0 userAgent 0 hh = Some (STATUS_NULL_ARG, Some r, hh)"
      by (simp add: setRequestHeader_def None)
    then show ?thesis unfolding c using freeRequestInfo_outcome [OF inv] by (simp add: hl rel)
  next
    case (Some ua)
    have ok: "arg_ok ''user-agent'' 0" "arg_ok ua 0" using assms(2) Some by (simp_all add: arg_ok_def NUL_char)
    obtain st r' hh' where o: "setRequestHeader E (Some r) (Some ''user-agent'') 0 (Some ua) 0 hh = Some (st, Some r', hh')" "request_inv items r' hh'"
        "st \<noteq> STATUS_SUCCESS \<Longrightarrow> hh' = hh \<and> header_list items r' = []"
        "st = STATUS_SUCCESS \<Longrightarrow> \<exists>p. hh p = None \<and> hh' = hh(p \<mapsto> header_of ''user-agent'' 0 ua 0) \<and> header_list items r' = [p]"
      using set_user_agent [OF inv ok hl] by blast
    have keep: "ri_verb r' = ri_verb r" "ri_url r' = ri_url r" "ri_region r' = ri_region r" "ri_body r' = ri_body r"
      using setRequestHeader_keeps [OF o(1)] by auto
    note fr = freeRequestInfo_outcome [OF o(2)]
    show ?thesis
    proof (cases "st = STATUS_SUCCESS")
      case True
      then obtain p where p: "hh p = None" "hh' = hh(p \<mapsto> header_of ''user-agent'' 0 ua 0)" "header_list items r' = [p]" using o(4) by blast
      have "released {p} hh' = hh" using p by (auto simp: released_def)
      then have "freeRequestInfo E (Some (Some r')) hh' = Some (STATUS_SUCCESS, Some None, hh)" using fr p(3) by simp
      moreover have "?c = Some (STATUS_SUCCESS, Some r', hh')" using c o(1) True Some by simp
      moreover have "ri_verb r = HTTP_REQUEST_VERB_POST" "ri_url r = take (re_maxUri E) url" "ri_region r = take MAX_REGION_NAME_LEN region"
        "ri_body r = body" by (simp_all add: r_def STRNCPY_def)
      ultimately show ?thesis using Some o(2) p keep by auto
    next
      case False
      then have "?c = Some (st, None, hh)" using c o(1,3) fr Some by (simp add: rel)
      then show ?thesis using False by auto
    qed
  qed
qed

end

text \<open>
  C28: the life of a request. With a list that could be created, creating a request fails and leaves the
  heap as it was, or gives a request with the URL and the region cut to their buffers and one header,
  the user agent; releasing it gives the heap back as it was. When the list could not be created, the
  clean-up reads a count that was never set.
\<close>

theorem request_lifecycle:
  fixes E :: "('l, 'n) request_env" and hh :: hheap and url region :: string and body certPath sslCertPath sslPrivateKeyPath userAgent :: PCHAR
    and certType :: SSL_CERTIFICATE_TYPE and connectionTimeout completionTimeout lowSpeedLimit lowSpeedTimeLimit pAwsCredentials :: UINT64
  assumes "request_list ops items node_at E" and "userAgent \<noteq> None \<longrightarrow> arg_ok (the userAgent) 0"
  defines "c \<equiv> createRequestInfo E (Some url) body (Some region) certPath sslCertPath sslPrivateKeyPath certType userAgent
      connectionTimeout completionTimeout lowSpeedLimit lowSpeedTimeLimit pAwsCredentials True hh"
  shows "(fst (re_listCreate E) = STATUS_SUCCESS \<longrightarrow> (\<exists>st pr hh'. c = Some (st, pr, hh') \<and>
      (st \<noteq> STATUS_SUCCESS \<longrightarrow> pr = None \<and> hh' = hh) \<and>
      (st = STATUS_SUCCESS \<longrightarrow> (\<exists>r p ua. pr = Some r \<and> userAgent = Some ua \<and> request_inv items r hh' \<and> hh p = None \<and>
         hh' = hh(p \<mapsto> header_of ''user-agent'' 0 ua 0) \<and> header_list items r = [p] \<and>
         ri_verb r = HTTP_REQUEST_VERB_POST \<and> ri_url r = take (re_maxUri E) url \<and> ri_region r = take MAX_REGION_NAME_LEN region \<and> ri_body r = body \<and>
         freeRequestInfo E (Some (Some r)) hh' = Some (STATUS_SUCCESS, Some None, hh))))) \<and>
    (fst (re_listCreate E) \<noteq> STATUS_SUCCESS \<and> re_requestMemory E \<longrightarrow> c = None)"
proof (intro conjI impI)
  assume "fst (re_listCreate E) = STATUS_SUCCESS"
  then obtain pl where pl: "re_listCreate E = (STATUS_SUCCESS, pl)" by (metis prod.collapse)
  from request_list.createRequestInfo_outcome [OF assms(1) pl assms(2)]
  show "\<exists>st pr hh'. c = Some (st, pr, hh') \<and> (st \<noteq> STATUS_SUCCESS \<longrightarrow> pr = None \<and> hh' = hh) \<and>
      (st = STATUS_SUCCESS \<longrightarrow> (\<exists>r p ua. pr = Some r \<and> userAgent = Some ua \<and> request_inv items r hh' \<and> hh p = None \<and>
         hh' = hh(p \<mapsto> header_of ''user-agent'' 0 ua 0) \<and> header_list items r = [p] \<and>
         ri_verb r = HTTP_REQUEST_VERB_POST \<and> ri_url r = take (re_maxUri E) url \<and> ri_region r = take MAX_REGION_NAME_LEN region \<and> ri_body r = body \<and>
         freeRequestInfo E (Some (Some r)) hh' = Some (STATUS_SUCCESS, Some None, hh)))"
    unfolding c_def .
next
  assume "fst (re_listCreate E) \<noteq> STATUS_SUCCESS \<and> re_requestMemory E"
  moreover have "snd (re_listCreate E) = None"
    using request_list.list_create [OF assms(1), of "fst (re_listCreate E)" "snd (re_listCreate E)"] calculation by simp
  ultimately show "c = None"
    unfolding c_def createRequestInfo_def by (simp add: Let_def freeRequestInfo_def removeRequestHeaders_def)
qed

subsection \<open>Comparing schemes\<close>

lemma requestRequiresSecureConnection_iff:
  "requestRequiresSecureConnection (Some u) True = (STATUS_SUCCESS, Some
     (fold_key (take 5 u) = fold_key ''https'' \<or> fold_key (take 3 u) = fold_key ''wss''))"
  by (simp add: requestRequiresSecureConnection_def STRNCMPI_def STRCMPI_eq HTTPS_SCHEME_NAME_def WSS_SCHEME_NAME_def eval_nat_numeral)

subsection \<open>Witnesses\<close>

definition sample_request_env :: "(UINT64 list, nat) request_env" where
  "sample_request_env = \<lparr>re_list = plain_list_ops, re_listCreate = (STATUS_SUCCESS, Some []), re_malloc = (\<lambda>h. small_calloc h [8, 16, 24]),
     re_requestMemory = True, re_time = 5, re_maxUri = 10000, re_maxPath = 4096\<rparr>"

interpretation sample_request: request_list plain_list_ops "\<lambda>l. l" "\<lambda>l n i. n = i \<and> i < length l" sample_request_env
  by unfold_locales (auto simp: sample_request_env_def small_calloc_def split: if_splits)

definition sample_request_heap :: hheap where
  "sample_request_heap = [40 \<mapsto> header_of ''host'' 0 ''h'' 0, 48 \<mapsto> header_of ''X-Amz'' 0 ''v'' 0]"

definition sample_request_info :: "UINT64 list RequestInfo" where
  "sample_request_info = \<lparr>ri_terminating = False, ri_verb = HTTP_REQUEST_VERB_POST, ri_body = None, ri_bodySize = 0, ri_url = ''https://h/'',
     ri_certPath = '''', ri_sslCertPath = '''', ri_sslPrivateKeyPath = '''', ri_certType = SSL_CERTIFICATE_TYPE_NOT_SPECIFIED, ri_region = ''r'',
     ri_currentTime = 0, ri_completionTimeout = 0, ri_connectionTimeout = 0, ri_callAfter = 0, ri_lowSpeedLimit = 0, ri_lowSpeedTimeLimit = 0,
     ri_pAwsCredentials = 0, ri_pRequestHeaders = Some [40, 48]\<rparr>"

lemma sample_keys: "header_key sample_request_heap 40 = fold_key ''host''" "header_key sample_request_heap 48 = fold_key ''X-Amz''"
  by (simp_all add: header_key_def sample_request_heap_def header_of_def header_arg_def)

lemma sample_key_order:
  "fold_key ''host'' \<le> fold_key ''X-Amz''" "fold_key ''host'' \<le> fold_key ''Range''" "\<not> fold_key ''X-Amz'' \<le> fold_key ''Range''"
  by code_simp+

lemma sample_request_inv: "request_inv (\<lambda>l. l) sample_request_info sample_request_heap"
  using sample_keys sample_key_order(1)
  by (simp add: request_inv_def sample_request_info_def MAX_REQUEST_HEADER_COUNT_def) (simp add: sample_request_heap_def)

lemma sample_header_list: "header_list (\<lambda>l. l) sample_request_info = [40, 48]"
  by (simp add: header_list_def sample_request_info_def)

lemma sample_pos: "header_pos sample_request_heap (fold_key (header_arg ''Range'' 0)) [40, 48] = 1"
  using sample_keys sample_key_order by (simp add: header_pos_def header_arg_def)

theorem setRequestHeader_sorted_witness:
  "\<exists>p r' hh'. setRequestHeader sample_request_env (Some sample_request_info) (Some ''Range'') 0 (Some ''x'') 0 sample_request_heap =
     Some (STATUS_SUCCESS, Some r', hh') \<and> header_list (\<lambda>l. l) r' = [40, p, 48]"
proof -
  have st: "map_option fst (setRequestHeader sample_request_env (Some sample_request_info) (Some ''Range'') 0 (Some ''x'') 0 sample_request_heap) = Some STATUS_SUCCESS"
    by code_simp
  have ok: "arg_ok ''Range'' 0" "arg_ok ''x'' 0" by (simp_all add: arg_ok_def NUL_char)
  show ?thesis
    using setRequestHeader_sorted [OF sample_request.request_list_axioms sample_request_inv ok] st
    unfolding sample_header_list sample_pos by auto
qed

theorem removeRequestHeader_present_witness:
  "\<exists>r' hh'. removeRequestHeader sample_request_env (Some sample_request_info) (Some ''HOST'') sample_request_heap = Some (STATUS_SUCCESS, Some r', hh') \<and>
     header_list (\<lambda>l. l) r' = [48]"
proof -
  have k: "fold_key ''HOST'' = fold_key ''host''" by code_simp
  have "remove_pos sample_request_heap (fold_key ''HOST'') [40, 48] = 0" using sample_keys k by (simp add: remove_pos_def)
  then show ?thesis
    using removeRequestHeader_present [OF sample_request.request_list_axioms sample_request_inv, of 40 "''HOST''"] sample_keys k
    unfolding sample_header_list by auto
qed

theorem removeRequestHeader_absent_witness:
  "removeRequestHeader sample_request_env (Some sample_request_info) (Some ''Range'') sample_request_heap =
     Some (STATUS_SUCCESS, Some sample_request_info, sample_request_heap(48 := None)) \<and>
   \<not> request_inv (\<lambda>l. l) sample_request_info (sample_request_heap(48 := None))"
proof -
  have "fold_key ''host'' \<noteq> fold_key ''Range''" "fold_key ''X-Amz'' \<noteq> fold_key ''Range''" by code_simp+
  then show ?thesis
    using removeRequestHeader_absent [OF sample_request.request_list_axioms sample_request_inv, of "''Range''"] sample_keys
    unfolding sample_header_list by auto
qed

theorem request_lifecycle_witness:
  "\<exists>r hh'. createRequestInfo sample_request_env (Some ''https://h/'') None (Some ''r'') None None None SSL_CERTIFICATE_TYPE_PEM (Some ''agent'')
      1 2 3 4 0 True (\<lambda>_. None) = Some (STATUS_SUCCESS, Some r, hh') \<and> freeRequestInfo sample_request_env (Some (Some r)) hh' = Some (STATUS_SUCCESS, Some None, \<lambda>_. None)"
proof -
  have "map_option fst (createRequestInfo sample_request_env (Some ''https://h/'') None (Some ''r'') None None None SSL_CERTIFICATE_TYPE_PEM (Some ''agent'')
      1 2 3 4 0 True (\<lambda>_. None)) = Some STATUS_SUCCESS" by code_simp
  moreover have "fst (re_listCreate sample_request_env) = STATUS_SUCCESS" by (simp add: sample_request_env_def)
  moreover have "Some ''agent'' \<noteq> None \<longrightarrow> arg_ok (the (Some ''agent'')) 0" by (simp add: arg_ok_def NUL_char)
  ultimately show ?thesis
    using request_lifecycle [OF sample_request.request_list_axioms, of "Some ''agent''" "''https://h/''" None "''r''" None None None
        SSL_CERTIFICATE_TYPE_PEM 1 2 3 4 0 "\<lambda>_. None"] by auto
qed

end
