(* ===== verification/Platform_Utils.thy ===== *)
theory Platform_Utils
  imports C_Strings Aws_Credentials
begin

text \<open>
  String utilities of the platform independent code that the signer uses. They are not part of this
  repository: a record of functions that the components take as a parameter, and the locale
  \<open>platform_utils\<close> with what their header documents. Bytes are characters; a pointer into a string is an
  index; a function that fills a buffer takes its size and gives what it stores.
\<close>

record pic_utils =
  STRNCHR :: "string \<Rightarrow> UINT32 \<Rightarrow> char \<Rightarrow> nat option"
  TRIMSTRALL :: "string \<Rightarrow> UINT32 \<Rightarrow> STATUS \<times> nat \<times> nat"
  TOLOWERSTR :: "string \<Rightarrow> UINT32 \<Rightarrow> string"
  hexEncodeCase :: "string \<Rightarrow> UINT32 \<Rightarrow> bool \<Rightarrow> STATUS \<times> string"
  hexDecode :: "string \<Rightarrow> UINT32 \<Rightarrow> STATUS \<times> string"
  ULTOSTR :: "UINT64 \<Rightarrow> UINT32 \<Rightarrow> UINT32 \<Rightarrow> STATUS \<times> string"

text \<open>The position of the first occurrence of a character.\<close>

fun first_index :: "'a \<Rightarrow> 'a list \<Rightarrow> nat option" where
  "first_index c [] = None"
| "first_index c (x # xs) = (if x = c then Some 0 else map_option Suc (first_index c xs))"

lemma first_index_None: "first_index c xs = None \<longleftrightarrow> c \<notin> set xs"
  by (induction xs) auto

lemma first_index_Some:
  "first_index c xs = Some i \<Longrightarrow> i < length xs \<and> xs ! i = c \<and> c \<notin> set (take i xs)"
  by (induction xs arbitrary: i) (auto split: if_splits)

lemma first_index_append: "c \<notin> set xs \<Longrightarrow> first_index c (xs @ c # ys) = Some (length xs)"
  by (induction xs) auto

text \<open>The spaces at both ends of a string.\<close>

definition trim :: "(char \<Rightarrow> bool) \<Rightarrow> string \<Rightarrow> string" where
  "trim space s = rev (dropWhile space (rev (dropWhile space s)))"

lemma trim_length: "length (trim space s) \<le> length s"
  unfolding trim_def by (metis length_dropWhile_le length_rev order_trans)

text \<open>Hexadecimal digits.\<close>

definition alpha :: string where "alpha = ''0123456789ABCDEF''"

definition hex_digit :: "bool \<Rightarrow> nat \<Rightarrow> char" where
  "hex_digit upper n = (if upper then alpha ! n else tolower (alpha ! n))"

definition hex_byte :: "bool \<Rightarrow> char \<Rightarrow> string" where
  "hex_byte upper c = [hex_digit upper (code c div 16), hex_digit upper (code c mod 16)]"

definition hex_string :: "bool \<Rightarrow> string \<Rightarrow> string" where
  "hex_string upper bs = concat (map (hex_byte upper) bs)"

lemma length_hex_string [simp]: "length (hex_string u bs) = 2 * length bs"
  by (induction bs) (auto simp: hex_string_def hex_byte_def)

text \<open>Decimal digits.\<close>

fun decimal :: "nat \<Rightarrow> string" where
  "decimal n = (if n < 10 then [char_of (48 + n)] else decimal (n div 10) @ [char_of (48 + n mod 10)])"

declare decimal.simps [simp del]

lemma decimal_digits: "c \<in> set (decimal n) \<Longrightarrow> 48 \<le> code c \<and> code c \<le> 57"
proof (induction n rule: decimal.induct)
  case (1 n)
  have d: "48 \<le> code (char_of (48 + m :: nat)) \<and> code (char_of (48 + m :: nat)) \<le> 57" if "m < 10" for m
    using that by (simp add: code_def)
  show ?case
  proof (cases "n < 10")
    case True
    then show ?thesis using 1(2) d [of n] by (simp add: decimal.simps)
  next
    case False
    then show ?thesis using 1 d [of "n mod 10"] by (subst (asm) (2) decimal.simps) auto
  qed
qed

lemma decimal_NUL: "NUL \<notin> set (decimal n)"
  using decimal_digits [of NUL n] by (auto simp: code_def)

lemma length_decimal_le: "n < 10 ^ Suc k \<Longrightarrow> length (decimal n) \<le> Suc k"
proof (induction k arbitrary: n)
  case (Suc k)
  then show ?case using Suc(1) [of "n div 10"] by (subst decimal.simps) (auto simp: less_mult_imp_div_less)
qed (simp add: decimal.simps)

lemma length_decimal_ge: "10 ^ k \<le> n \<Longrightarrow> Suc k \<le> length (decimal n)"
proof (induction k arbitrary: n)
  case (Suc k)
  have "10 ^ k \<le> n div 10" using Suc(2) by (simp add: less_eq_div_iff_mult_less_eq)
  moreover have "\<not> n < 10" using Suc(2) by (metis One_nat_def Suc_leI le_trans less_numeral_extra(1) mult.right_neutral mult_le_mono2 not_le power_Suc zero_less_numeral zero_less_power)
  ultimately show ?case using Suc(1) [of "n div 10"] by (subst decimal.simps) simp
qed (subst decimal.simps, simp)

locale platform_utils =
  fixes U :: pic_utils and space :: "char \<Rightarrow> bool"
  assumes STRNCHR_first: "STRNCHR U s n c = first_index c (take (unat n) s)"
    and TRIMSTRALL_trim: "\<lbrakk>s \<noteq> []; length s < 2 ^ 32\<rbrakk> \<Longrightarrow>
      \<exists>i j. TRIMSTRALL U s (of_nat (length s)) = (STATUS_SUCCESS, i, j) \<and> i \<le> j \<and> j \<le> length s \<and> take (j - i) (drop i s) = trim space s"
    and TOLOWERSTR_map: "unat n \<le> length s \<Longrightarrow> TOLOWERSTR U s n = map tolower (take (unat n) s)"
    and hexEncode_fits: "2 * length bs < unat n \<Longrightarrow> hexEncodeCase U bs n up = (STATUS_SUCCESS, hex_string up bs)"
    and hexDecode_byte: "0 < n \<Longrightarrow> hexDecode U (hex_byte True c) n = (STATUS_SUCCESS, [c])"
    and ULTOSTR_decimal: "length (decimal (unat v)) < unat n \<Longrightarrow> ULTOSTR U v n 10 = (STATUS_SUCCESS, decimal (unat v))"

subsection \<open>An implementation\<close>

fun hex_value :: "char \<Rightarrow> nat option" where
  "hex_value c = first_index (tolower c) (map tolower alpha)"

fun plain_hexDecode :: "string \<Rightarrow> string option" where
  "plain_hexDecode [] = Some []"
| "plain_hexDecode [_] = None"
| "plain_hexDecode (a # b # s) = do { x \<leftarrow> hex_value a; y \<leftarrow> hex_value b; r \<leftarrow> plain_hexDecode s; Some (char_of (16 * x + y) # r) }"

definition plain_space :: "char \<Rightarrow> bool" where
  "plain_space c \<longleftrightarrow> c \<in> set [CHR 0x20, CHR 0x09, CHR 0x0A, CHR 0x0B, CHR 0x0C, CHR 0x0D]"

definition plain_utils :: pic_utils where
  "plain_utils = \<lparr>
     STRNCHR = (\<lambda>s n c. first_index c (take (unat n) s)),
     TRIMSTRALL = (\<lambda>s n. let s' = take (unat n) s; i = length s' - length (dropWhile plain_space s')
        in (STATUS_SUCCESS, i, i + length (trim plain_space s'))),
     TOLOWERSTR = (\<lambda>s n. map tolower (take (unat n) s)),
     hexEncodeCase = (\<lambda>bs n up. if 2 * length bs < unat n then (STATUS_SUCCESS, hex_string up bs) else (STATUS_BUFFER_TOO_SMALL, [])),
     hexDecode = (\<lambda>s n. case plain_hexDecode s of None \<Rightarrow> (STATUS_INVALID_ARG, [])
        | Some bs \<Rightarrow> if length bs \<le> unat n then (STATUS_SUCCESS, bs) else (STATUS_BUFFER_TOO_SMALL, [])),
     ULTOSTR = (\<lambda>v n base. let s = decimal (unat v) in
        if base \<noteq> 10 then (STATUS_INVALID_ARG, []) else if length s < unat n then (STATUS_SUCCESS, s) else (STATUS_BUFFER_TOO_SMALL, []))\<rparr>"

lemma hex_value_digit: "n < 16 \<Longrightarrow> hex_value (hex_digit True n) = Some n"
proof -
  have "\<forall>k<16::nat. hex_value (hex_digit True k) = Some k" by code_simp
  then show "n < 16 \<Longrightarrow> hex_value (hex_digit True n) = Some n" by blast
qed

lemma plain_hexDecode_byte: "plain_hexDecode (hex_byte True c) = Some [c]"
proof -
  have c: "code c < 256" by (rule code_bound)
  have "char_of (16 * (code c div 16) + code c mod 16) = c" by (simp add: code_def)
  then show ?thesis using c by (simp add: hex_byte_def hex_value_digit del: hex_value.simps)
qed

lemma trim_take:
  fixes s :: string and space :: "char \<Rightarrow> bool"
  defines "i \<equiv> length s - length (dropWhile space s)"
  shows "i + length (trim space s) \<le> length s" "take (length (trim space s)) (drop i s) = trim space s"
proof -
  have d: "drop i s = dropWhile space s"
    unfolding i_def by (metis append_eq_conv_conj length_append add_diff_cancel_right' takeWhile_dropWhile_id)
  have "\<exists>t. dropWhile space s = trim space s @ t"
    unfolding trim_def by (metis rev_append rev_rev_ident takeWhile_dropWhile_id)
  then obtain t where t: "dropWhile space s = trim space s @ t" by blast
  then show "take (length (trim space s)) (drop i s) = trim space s" by (simp add: d)
  have "length (trim space s) \<le> length (drop i s)" using t d by simp
  moreover have "i \<le> length s" by (simp add: i_def)
  ultimately show "i + length (trim space s) \<le> length s" by simp
qed

interpretation plain: platform_utils plain_utils plain_space
proof unfold_locales
  show "\<exists>i j. TRIMSTRALL plain_utils s (of_nat (length s)) = (STATUS_SUCCESS, i, j) \<and> i \<le> j \<and> j \<le> length s \<and>
      take (j - i) (drop i s) = trim plain_space s" if "s \<noteq> []" "length s < 2 ^ 32" for s
    using trim_take [where s = s and space = plain_space] that by (simp add: plain_utils_def Let_def unat_of_nat take_bit_nat_eq_self)
  show "hexDecode plain_utils (hex_byte True c) n = (STATUS_SUCCESS, [c])" if "0 < n" for c n
    using that by (simp add: plain_utils_def plain_hexDecode_byte word_less_nat_alt)
qed (simp_all add: plain_utils_def)

end
