(* ===== verification/Uri_Encoding.thy ===== *)
theory Uri_Encoding
  imports Platform_Utils
begin

text \<open>
  URI encoding and decoding of the signer (\<open>uriEncodeString\<close>, \<open>uriDecodeString\<close> of
  \<open>Common/AwsV4Signer.c\<close>). The source is the C string that starts at the pointer, up to its terminator;
  of the destination only its size matters, given by \<open>pDstLen\<close>. The result is the status, what is
  stored before the terminator and the value left in \<open>pDstLen\<close>. \<open>None\<close> is undefined behaviour: a size
  read through NULL, and an index below the table of digits, which a byte of 128 or more gives where
  \<open>char\<close> is a signed type (the parameter \<open>signed_char\<close>).
\<close>

definition URI_ENCODED_FORWARD_SLASH :: string where "URI_ENCODED_FORWARD_SLASH = ''%2F''"
definition MAX_UINT32 :: UINT32 where "MAX_UINT32 = - 1"

definition unreserved :: "char \<Rightarrow> bool" where
  "unreserved ch \<longleftrightarrow> (code (CHR ''A'') \<le> code ch \<and> code ch \<le> code (CHR ''Z'')) \<or> (code (CHR ''a'') \<le> code ch \<and> code ch \<le> code (CHR ''z'')) \<or>
     (code (CHR ''0'') \<le> code ch \<and> code ch \<le> code (CHR ''9'')) \<or> ch = CHR ''_'' \<or> ch = CHR ''-'' \<or> ch = CHR ''~'' \<or> ch = CHR ''.''"

definition percent_digits :: "bool \<Rightarrow> char \<Rightarrow> string option" where
  "percent_digits signed_char ch = (if signed_char \<and> code ch \<ge> 128 then None
     else Some [CHR ''%'', alpha ! (code ch div 16), alpha ! (code ch mod 16)])"

fun uriEncode_loop ::
    "bool \<Rightarrow> bool \<Rightarrow> UINT32 \<Rightarrow> string \<Rightarrow> UINT32 \<Rightarrow> UINT32 \<Rightarrow> UINT32 \<Rightarrow> string \<Rightarrow> (STATUS \<times> UINT32 \<times> UINT32 \<times> string) option" where
  "uriEncode_loop signed_char pEnc strLen [] pos remaining encodedLen out = Some (STATUS_SUCCESS, remaining, encodedLen, out)"
| "uriEncode_loop signed_char pEnc strLen (ch # s) pos remaining encodedLen out =
     (let encLen = of_nat (length URI_ENCODED_FORWARD_SLASH) in
      if \<not> pos < strLen \<or> ch = NUL then Some (STATUS_SUCCESS, remaining, encodedLen, out)
      else if unreserved ch then
        (if \<not> pEnc then uriEncode_loop signed_char pEnc strLen s (pos + 1) remaining (encodedLen + 1) out
         else if \<not> remaining > 0 then Some (STATUS_NOT_ENOUGH_MEMORY, remaining, encodedLen + 1, out)
         else uriEncode_loop signed_char pEnc strLen s (pos + 1) (remaining - 1) (encodedLen + 1) (out @ [ch]))
      else if ch = CHR ''/'' then
        (if \<not> pEnc then uriEncode_loop signed_char pEnc strLen s (pos + 1) remaining (encodedLen + encLen) out
         else if \<not> remaining > encLen then Some (STATUS_NOT_ENOUGH_MEMORY, remaining, encodedLen + encLen, out)
         else uriEncode_loop signed_char pEnc strLen s (pos + 1) (remaining - encLen) (encodedLen + encLen) (out @ URI_ENCODED_FORWARD_SLASH))
      else
        (if \<not> pEnc then uriEncode_loop signed_char pEnc strLen s (pos + 1) remaining (encodedLen + encLen) out
         else if \<not> remaining > encLen then Some (STATUS_NOT_ENOUGH_MEMORY, remaining, encodedLen + encLen, out)
         else do {
           d \<leftarrow> percent_digits signed_char ch;
           uriEncode_loop signed_char pEnc strLen s (pos + 1) (remaining - encLen) (encodedLen + encLen) (out @ d)
         }))"

definition uriEncodeString :: "bool \<Rightarrow> PCHAR \<Rightarrow> UINT32 \<Rightarrow> bool \<Rightarrow> UINT32 option \<Rightarrow> (STATUS \<times> string \<times> UINT32 option) option" where
  "uriEncodeString signed_char pSrc srcLen pDst pDstLen = do {
     let strLen = (if srcLen = 0 then MAX_UINT32 else srcLen);
     remaining \<leftarrow> (if \<not> pDst then Some MAX_UINT32 else pDstLen);
     case (pSrc, pDstLen) of
       (Some src, Some _) \<Rightarrow> do {
         (st, remaining1, encodedLen, out) \<leftarrow> uriEncode_loop signed_char pDst strLen src 0 remaining 0 '''';
         if STATUS_FAILED st then Some (st, out, Some encodedLen)
         else if pDst \<and> \<not> remaining1 > 0 then Some (STATUS_NOT_ENOUGH_MEMORY, out, Some (encodedLen + 1))
         else Some (STATUS_SUCCESS, out, Some (encodedLen + 1))
       }
     | _ \<Rightarrow> Some (STATUS_NULL_ARG, '''', map_option (\<lambda>_. 0) pDstLen)
   }"

text \<open>
  The decoder keeps what it has stored in \<open>out\<close>; \<open>hexDecode\<close> is given the two characters behind the
  percent sign and the room that is left.
\<close>

function (sequential) uriDecode_loop ::
    "pic_utils \<Rightarrow> bool \<Rightarrow> UINT32 \<Rightarrow> string \<Rightarrow> UINT32 \<Rightarrow> UINT32 \<Rightarrow> UINT32 \<Rightarrow> string \<Rightarrow> STATUS \<times> UINT32 \<times> UINT32 \<times> string" where
  "uriDecode_loop U pDec strLen [] pos remaining decodedLen out = (STATUS_SUCCESS, remaining, decodedLen, out)"
| "uriDecode_loop U pDec strLen (ch # s) pos remaining decodedLen out =
     (let decLen = of_nat (length URI_ENCODED_FORWARD_SLASH) in
      if \<not> pos < strLen \<or> ch = NUL then (STATUS_SUCCESS, remaining, decodedLen, out)
      else if ch = CHR ''%'' then
        (if \<not> (pos + decLen \<le> strLen \<and> length s \<ge> 2 \<and> s ! 0 \<noteq> NUL \<and> s ! 1 \<noteq> NUL) then (STATUS_INVALID_ARG, remaining, decodedLen, out)
         else if \<not> pDec then uriDecode_loop U pDec strLen (drop 2 s) (pos + decLen) (remaining - 1) (decodedLen + 1) out
         else (case hexDecode U (take 2 s) remaining of (st, bs) \<Rightarrow>
           if STATUS_FAILED st then (st, remaining, decodedLen, out)
           else if length bs \<noteq> 1 then (STATUS_INVALID_ARG, remaining, decodedLen, out)
           else uriDecode_loop U pDec strLen (drop 2 s) (pos + decLen) (remaining - 1) (decodedLen + 1) (out @ bs)))
      else
        (if \<not> pDec then uriDecode_loop U pDec strLen s (pos + 1) (remaining - 1) (decodedLen + 1) out
         else if \<not> remaining > 0 then (STATUS_NOT_ENOUGH_MEMORY, remaining, decodedLen, out)
         else uriDecode_loop U pDec strLen s (pos + 1) (remaining - 1) (decodedLen + 1) (out @ [ch])))"
  by pat_completeness auto
termination by (relation "measure (\<lambda>(_, _, _, s, _). length s)") auto

definition uriDecodeString :: "pic_utils \<Rightarrow> PCHAR \<Rightarrow> UINT32 \<Rightarrow> bool \<Rightarrow> UINT32 option \<Rightarrow> (STATUS \<times> string \<times> UINT32 option) option" where
  "uriDecodeString U pSrc srcLen pDst pDstLen = do {
     let strLen = (if srcLen = 0 then MAX_UINT32 else srcLen);
     remaining \<leftarrow> (if \<not> pDst then Some MAX_UINT32 else pDstLen);
     case (pSrc, pDstLen) of
       (Some src, Some _) \<Rightarrow>
         (case uriDecode_loop U pDst strLen src 0 remaining 0 '''' of (st, remaining1, decodedLen, out) \<Rightarrow>
           if STATUS_FAILED st then Some (st, out, Some decodedLen)
           else if pDst \<and> \<not> remaining1 > 0 then Some (STATUS_NOT_ENOUGH_MEMORY, out, Some (decodedLen + 1))
           else Some (STATUS_SUCCESS, out, Some (decodedLen + 1)))
     | _ \<Rightarrow> Some (STATUS_NULL_ARG, '''', map_option (\<lambda>_. 0) pDstLen)
   }"

subsection \<open>Percent encoding\<close>

text \<open>The encoding as RFC 3986 has it: unreserved characters stand for themselves, all others are escaped.\<close>

definition uri_escape :: "char \<Rightarrow> string" where
  "uri_escape c = (if unreserved c then [c] else CHR ''%'' # hex_byte True c)"

definition uri_encode :: "string \<Rightarrow> string" where
  "uri_encode s = concat (map uri_escape s)"

lemma uri_encode_simps [simp]: "uri_encode [] = []" "uri_encode (c # s) = uri_escape c @ uri_encode s"
  by (simp_all add: uri_encode_def)

lemma length_uri_escape: "length (uri_escape c) \<le> 3" "Suc 0 \<le> length (uri_escape c)"
  by (simp_all add: uri_escape_def hex_byte_def)

lemma length_uri_encode: "length (uri_encode s) \<le> 3 * length s" "length s \<le> length (uri_encode s)"
proof (induction s)
  case (Cons c s)
  { case 1 show ?case using Cons(1) length_uri_escape(1) [of c] by simp }
  { case 2 show ?case using Cons(2) length_uri_escape(2) [of c] by simp }
qed simp_all

text \<open>The characters the code can encode.\<close>

definition encodable :: "bool \<Rightarrow> string \<Rightarrow> bool" where
  "encodable signed_char s \<longleftrightarrow> (\<forall>c\<in>set s. c \<noteq> NUL \<and> \<not> (signed_char \<and> code c \<ge> 128))"

lemma percent_digits_hex:
  "\<not> (g \<and> code c \<ge> 128) \<Longrightarrow> percent_digits g c = Some (CHR ''%'' # hex_byte True c)"
  by (simp add: percent_digits_def hex_byte_def hex_digit_def)

lemma slash_escape: "URI_ENCODED_FORWARD_SLASH = uri_escape (CHR ''/'')"
  by code_simp

text \<open>One step of the loop, for a character that is encodable.\<close>

lemma uriEncode_loop_step:
  assumes "encodable g [ch]" "pos < strLen"
  defines "e \<equiv> uri_escape ch"
  defines "n \<equiv> of_nat (length e) :: UINT32"
  shows "uriEncode_loop g pEnc strLen (ch # s) pos remaining encodedLen out =
    (if \<not> pEnc then uriEncode_loop g pEnc strLen s (pos + 1) remaining (encodedLen + n) out
     else if \<not> (if length e = 1 then remaining > 0 else remaining > n) then Some (STATUS_NOT_ENOUGH_MEMORY, remaining, encodedLen + n, out)
     else uriEncode_loop g pEnc strLen s (pos + 1) (remaining - n) (encodedLen + n) (out @ e))"
proof (cases "unreserved ch")
  case True
  then show ?thesis using assms(1,2) by (simp add: e_def n_def uri_escape_def encodable_def)
next
  case False
  then have e: "e = CHR ''%'' # hex_byte True ch" "length e = 3" by (simp_all add: e_def uri_escape_def hex_byte_def)
  have l: "length URI_ENCODED_FORWARD_SLASH = 3" by (simp add: URI_ENCODED_FORWARD_SLASH_def)
  have n: "n = 3" unfolding n_def e(2) by simp
  have pd: "percent_digits g ch = Some e" using assms(1) by (simp add: e encodable_def percent_digits_hex)
  have sl: "ch = CHR ''/'' \<Longrightarrow> URI_ENCODED_FORWARD_SLASH = e" by (simp add: e_def slash_escape)
  show ?thesis using False assms(1,2) pd sl l n e(2) by (simp add: encodable_def Let_def)
qed

lemma unat_bound: "unat (w :: UINT32) < 2 ^ 32"
  by (rule order_less_le_trans [OF unsigned_less]) simp

lemma pos_next:
  fixes pos strLen :: UINT32
  assumes "pos < strLen"
  shows "unat (pos + 1) = Suc (unat pos)" "unat strLen - unat (pos + 1) = unat strLen - unat pos - 1"
proof -
  have "unat pos + 1 < 2 ^ 32" using assms unat_bound [of strLen] by (simp add: word_less_nat_alt)
  then show "unat (pos + 1) = Suc (unat pos)" by (simp add: unat_word_ariths)
  then show "unat strLen - unat (pos + 1) = unat strLen - unat pos - 1" by simp
qed

text \<open>The loop looks at no more than the given number of characters.\<close>

lemma uriEncode_loop_take:
  assumes "pos \<le> strLen"
  shows "uriEncode_loop g pEnc strLen s pos remaining encodedLen out =
    uriEncode_loop g pEnc strLen (take (unat strLen - unat pos) s) pos remaining encodedLen out"
  using assms
proof (induction s arbitrary: pos remaining encodedLen out)
  case (Cons ch s)
  show ?case
  proof (cases "pos < strLen")
    case True
    have k: "unat strLen - unat pos = Suc (unat strLen - unat (pos + 1))" and le: "pos + 1 \<le> strLen"
      using pos_next [OF True] True by (simp_all add: word_less_nat_alt word_le_nat_alt)
    show ?thesis unfolding k take_Suc_Cons uriEncode_loop.simps(2) by (subst (1 2 3 4 5 6) Cons.IH [OF le]) simp
  next
    case False
    then have "unat strLen - unat pos = 0" by (simp add: word_less_nat_alt)
    then show ?thesis using False by simp
  qed
qed simp

lemma uriEncode_loop_size:
  assumes "encodable g s" "length s \<le> unat strLen - unat pos"
  shows "uriEncode_loop g False strLen s pos remaining encodedLen out =
    Some (STATUS_SUCCESS, remaining, encodedLen + of_nat (length (uri_encode s)), out)"
  using assms
proof (induction s arbitrary: pos encodedLen)
  case (Cons ch s)
  have pos: "pos < strLen" using Cons(3) by (simp add: word_less_nat_alt)
  have "encodable g [ch]" "encodable g s" using Cons(2) by (simp_all add: encodable_def)
  then show ?case
    using uriEncode_loop_step [of g ch pos strLen False] Cons(1) [of "pos + 1"] Cons(3) pos pos_next [OF pos]
    by (simp add: add.assoc)
qed simp

lemma room_less:
  fixes remaining :: UINT32
  assumes "k \<le> unat remaining"
  shows "unat (remaining - of_nat k) = unat remaining - k"
proof -
  have "k < 2 ^ 32" using assms unat_bound [of remaining] by (simp add: order_le_less_trans)
  then have k: "unat (of_nat k :: UINT32) = k" by (simp add: unat_of_nat take_bit_nat_eq_self)
  then have "of_nat k \<le> remaining" using assms by (simp add: word_le_nat_alt)
  then show ?thesis using k by (simp add: unat_sub)
qed

lemma uriEncode_loop_fits:
  assumes "encodable g s" "length s \<le> unat strLen - unat pos" "length (uri_encode s) < unat remaining"
  shows "uriEncode_loop g True strLen s pos remaining encodedLen out =
    Some (STATUS_SUCCESS, remaining - of_nat (length (uri_encode s)), encodedLen + of_nat (length (uri_encode s)), out @ uri_encode s)"
  using assms
proof (induction s arbitrary: pos remaining encodedLen out)
  case (Cons ch s)
  have pos: "pos < strLen" using Cons(3) by (simp add: word_less_nat_alt)
  have enc: "encodable g [ch]" "encodable g s" using Cons(2) by (simp_all add: encodable_def)
  let ?n = "length (uri_escape ch)"
  have lt: "?n < unat remaining" and r: "unat (remaining - of_nat ?n) = unat remaining - ?n" using Cons(4) by (simp_all add: room_less)
  have "unat (of_nat ?n :: UINT32) = ?n" using length_uri_escape(1) [of ch] by (simp add: unat_of_nat take_bit_nat_eq_self)
  then have room: "if ?n = 1 then remaining > 0 else remaining > of_nat ?n" using lt by (simp add: word_less_nat_alt)
  show ?case
    unfolding uriEncode_loop_step [OF enc(1) pos] using room r lt Cons(1) [OF enc(2), of "pos + 1"] Cons(3,4) pos_next [OF pos]
    by (simp add: algebra_simps)
qed simp

lemma uriEncode_loop_full:
  assumes "encodable g s" "length s \<le> unat strLen - unat pos" "unat remaining \<le> length (uri_encode s)"
  shows "\<exists>st remaining' encodedLen' w. uriEncode_loop g True strLen s pos remaining encodedLen out = Some (st, remaining', encodedLen', out @ w) \<and>
    (st = STATUS_NOT_ENOUGH_MEMORY \<or> st = STATUS_SUCCESS \<and> remaining' = 0) \<and> take (length w) (uri_encode s) = w \<and> length w \<le> unat remaining"
  using assms
proof (induction s arbitrary: pos remaining encodedLen out)
  case (Cons ch s)
  have pos: "pos < strLen" using Cons(3) by (simp add: word_less_nat_alt)
  have enc: "encodable g [ch]" "encodable g s" using Cons(2) by (simp_all add: encodable_def)
  let ?n = "length (uri_escape ch)"
  note step = uriEncode_loop_step [OF enc(1) pos, of True s remaining encodedLen out]
  show ?case
  proof (cases "if ?n = 1 then remaining > 0 else remaining > of_nat ?n")
    case True
    have "unat (of_nat ?n :: UINT32) = ?n" using length_uri_escape(1) [of ch] by (simp add: unat_of_nat take_bit_nat_eq_self)
    then have "?n \<le> unat remaining" using True by (auto simp: word_less_nat_alt split: if_splits)
    then have r: "unat (remaining - of_nat ?n) = unat remaining - ?n" by (rule room_less)
    have "\<exists>st remaining' encodedLen' w. uriEncode_loop g True strLen s (pos + 1) (remaining - of_nat ?n) (encodedLen + of_nat ?n) (out @ uri_escape ch) =
        Some (st, remaining', encodedLen', (out @ uri_escape ch) @ w) \<and>
        (st = STATUS_NOT_ENOUGH_MEMORY \<or> st = STATUS_SUCCESS \<and> remaining' = 0) \<and> take (length w) (uri_encode s) = w \<and> length w \<le> unat (remaining - of_nat ?n)"
      by (rule Cons(1)) (use enc Cons(3,4) r pos_next [OF pos] in auto)
    then obtain st remaining' encodedLen' w where "uriEncode_loop g True strLen s (pos + 1) (remaining - of_nat ?n) (encodedLen + of_nat ?n) (out @ uri_escape ch) =
        Some (st, remaining', encodedLen', out @ (uri_escape ch @ w))"
        "st = STATUS_NOT_ENOUGH_MEMORY \<or> st = STATUS_SUCCESS \<and> remaining' = 0" "take (length w) (uri_encode s) = w" "length w \<le> unat (remaining - of_nat ?n)" by auto
    moreover have "length (uri_escape ch @ w) \<le> unat remaining" using calculation(4) r \<open>?n \<le> unat remaining\<close> by simp
    moreover have "take (length (uri_escape ch @ w)) (uri_encode (ch # s)) = uri_escape ch @ w" using calculation(3) by simp
    moreover have "uriEncode_loop g True strLen (ch # s) pos remaining encodedLen out = Some (st, remaining', encodedLen', out @ (uri_escape ch @ w))"
      unfolding step using True calculation(1) by simp
    ultimately show ?thesis by blast
  next
    case False
    then show ?thesis unfolding step by simp
  qed
qed (simp add: unat_eq_zero)

subsection \<open>What the encoder and the decoder do\<close>

text \<open>The part of the source that is looked at: a length of 0 stands for the whole string.\<close>

definition uri_source :: "string \<Rightarrow> UINT32 \<Rightarrow> string" where
  "uri_source s srcLen = (if srcLen = 0 then s else take (unat srcLen) s)"

lemma unat_MAX_UINT32: "unat MAX_UINT32 = 2 ^ 32 - 1"
  by (simp add: MAX_UINT32_def unsigned_minus_1_eq_mask mask_eq_exp_minus_1)

lemma uriEncodeString_size_and_store:
  assumes "encodable signed_char (uri_source s srcLen)" "length s < 2 ^ 32 - 1"
  defines "e \<equiv> uri_encode (uri_source s srcLen)"
  shows "uriEncodeString signed_char (Some s) srcLen False (Some n) = Some (STATUS_SUCCESS, '''', Some (of_nat (length e + 1))) \<and>
    (if length e < unat n
     then uriEncodeString signed_char (Some s) srcLen True (Some n) = Some (STATUS_SUCCESS, e, Some (of_nat (length e + 1)))
     else \<exists>k len. uriEncodeString signed_char (Some s) srcLen True (Some n) = Some (STATUS_NOT_ENOUGH_MEMORY, take k e, Some len) \<and> k \<le> unat n)"
proof -
  define m where "m = (if srcLen = 0 then MAX_UINT32 else srcLen)"
  define t where "t = uri_source s srcLen"
  have t: "t = take (unat m - unat (0 :: UINT32)) s" using assms(2) unat_MAX_UINT32 by (auto simp: t_def uri_source_def m_def)
  have len: "length t \<le> unat m - unat (0 :: UINT32)" by (simp add: t)
  have loop: "uriEncode_loop signed_char pEnc m s 0 r l out = uriEncode_loop signed_char pEnc m t 0 r l out" for pEnc r l out
    unfolding t by (rule uriEncode_loop_take) simp
  have enc: "encodable signed_char t" using assms(1) by (simp add: t_def)
  have e: "e = uri_encode t" by (simp add: e_def t_def)
  have "uriEncodeString signed_char (Some s) srcLen False (Some n) = Some (STATUS_SUCCESS, '''', Some (of_nat (length e + 1)))"
    unfolding uriEncodeString_def Let_def m_def [symmetric] by (simp add: loop uriEncode_loop_size [OF enc len] e)
  moreover have "uriEncodeString signed_char (Some s) srcLen True (Some n) = Some (STATUS_SUCCESS, e, Some (of_nat (length e + 1)))"
    if "length e < unat n"
  proof -
    have "unat (n - of_nat (length e)) = unat n - length e" using that by (intro room_less) simp
    then have "n - of_nat (length e) > 0" using that by (simp add: word_less_nat_alt)
    then show ?thesis
      using uriEncode_loop_fits [OF enc len, of n 0 "''''"] that unfolding uriEncodeString_def Let_def m_def [symmetric]
      by (simp add: loop e)
  qed
  moreover have "\<exists>k len. uriEncodeString signed_char (Some s) srcLen True (Some n) = Some (STATUS_NOT_ENOUGH_MEMORY, take k e, Some len) \<and> k \<le> unat n"
    if "\<not> length e < unat n"
  proof -
    have full: "unat n \<le> length (uri_encode t)" using that e by simp
    obtain st r' l' w where "uriEncode_loop signed_char True m t 0 n 0 '''' = Some (st, r', l', w)"
        "st = STATUS_NOT_ENOUGH_MEMORY \<or> st = STATUS_SUCCESS \<and> r' = 0" "take (length w) e = w" "length w \<le> unat n"
      using uriEncode_loop_full [OF enc len full, of 0 "''''"] unfolding e append_Nil by blast
    then show ?thesis
      unfolding uriEncodeString_def Let_def m_def [symmetric] by (intro exI [of _ "length w"]) (auto simp: loop)
  qed
  ultimately show ?thesis by simp
qed

text \<open>
  C33: the encoder computes the percent encoding. Without a destination it gives the size that the
  encoding needs, its terminator counted; with a destination of at least that size it stores the
  encoding, and into a smaller one it stores a prefix of it that fits and fails.
\<close>

theorem uriEncodeString_encodes:
  assumes "encodable signed_char (uri_source s srcLen)" "length s < 2 ^ 32 - 1"
  defines "e \<equiv> uri_encode (uri_source s srcLen)"
  shows "uriEncodeString signed_char (Some s) srcLen False (Some n) = Some (STATUS_SUCCESS, '''', Some (of_nat (length e + 1))) \<and>
    (if length e < unat n
     then uriEncodeString signed_char (Some s) srcLen True (Some n) = Some (STATUS_SUCCESS, e, Some (of_nat (length e + 1)))
     else \<exists>k len. uriEncodeString signed_char (Some s) srcLen True (Some n) = Some (STATUS_NOT_ENOUGH_MEMORY, take k e, Some len) \<and> k \<le> unat n)"
  unfolding e_def by (rule uriEncodeString_size_and_store [OF assms(1,2)])

text \<open>One step of the decoder, on the encoding of a character.\<close>

lemma unreserved_not_special: "unreserved c \<Longrightarrow> c \<noteq> CHR ''%'' \<and> c \<noteq> NUL"
  by (auto simp: unreserved_def code_def NUL_char)

lemma hex_digit_not_NUL: "n < 16 \<Longrightarrow> hex_digit u n \<noteq> NUL"
proof -
  have "\<forall>k<16::nat. hex_digit True k \<noteq> NUL \<and> hex_digit False k \<noteq> NUL" by code_simp
  then show "n < 16 \<Longrightarrow> hex_digit u n \<noteq> NUL" by (cases u) auto
qed

context platform_utils
begin

lemma uriDecode_loop_escape:
  assumes "pos < strLen" "length (uri_escape c @ s) \<le> unat strLen - unat pos" "0 < remaining" "c \<noteq> NUL"
  shows "uriDecode_loop U True strLen (uri_escape c @ s) pos remaining decodedLen out =
    uriDecode_loop U True strLen s (pos + of_nat (length (uri_escape c))) (remaining - 1) (decodedLen + 1) (out @ [c])"
proof (cases "unreserved c")
  case True
  then show ?thesis using assms(1,3) unreserved_not_special [OF True] by (simp add: uri_escape_def)
next
  case False
  have u: "uri_escape c = CHR ''%'' # hex_byte True c" "length (uri_escape c) = 3" using False by (simp_all add: uri_escape_def hex_byte_def)
  have l: "length URI_ENCODED_FORWARD_SLASH = 3" by (simp add: URI_ENCODED_FORWARD_SLASH_def)
  have "unat pos + 3 \<le> unat strLen" using assms(1,2) u(2) by (simp add: word_less_nat_alt)
  moreover have "unat (pos + 3) = unat pos + 3" using calculation unat_bound [of strLen] by (simp add: unat_word_ariths)
  ultimately have le: "pos + 3 \<le> strLen" by (simp add: word_le_nat_alt)
  have nn: "hex_byte True c ! 0 \<noteq> NUL" "hex_byte True c ! 1 \<noteq> NUL" using code_bound [of c] by (simp_all add: hex_byte_def hex_digit_not_NUL del: One_nat_def)
  have t: "take 2 (hex_byte True c @ s) = hex_byte True c" "drop 2 (hex_byte True c @ s) = s" "2 \<le> length (hex_byte True c @ s)"
     "(hex_byte True c @ s) ! 0 = hex_byte True c ! 0" "(hex_byte True c @ s) ! 1 = hex_byte True c ! 1"
    by (simp_all add: hex_byte_def)
  have "CHR ''%'' \<noteq> NUL" by (simp add: NUL_char)
  then show ?thesis
    unfolding u(2) unfolding u(1) append_Cons uriDecode_loop.simps(2) Let_def l t using assms(1) le nn t(3) hexDecode_byte [OF assms(3), of c]
    by simp
qed

lemma uriDecode_loop_decodes:
  assumes "length (uri_encode s) \<le> unat strLen - unat pos" "length s \<le> unat remaining" "NUL \<notin> set s"
  shows "uriDecode_loop U True strLen (uri_encode s) pos remaining decodedLen out =
    (STATUS_SUCCESS, remaining - of_nat (length s), decodedLen + of_nat (length s), out @ s)"
  using assms
proof (induction s arbitrary: pos remaining decodedLen out)
  case (Cons c s)
  let ?n = "length (uri_escape c)"
  have pos: "pos < strLen" and rem: "0 < remaining" using Cons(2,3) length_uri_escape(2) [of c] by (auto simp: word_less_nat_alt)
  have "?n < 2 ^ 32" using length_uri_escape(1) [of c] by simp
  then have n: "unat (of_nat ?n :: UINT32) = ?n" by (simp add: unat_of_nat take_bit_nat_eq_self)
  have "unat pos + ?n \<le> unat strLen" using Cons(2) pos by (simp add: word_less_nat_alt)
  then have p: "unat (pos + of_nat ?n) = unat pos + ?n" using n unat_bound [of strLen] by (simp add: unat_word_ariths)
  have r: "unat (remaining - 1) = unat remaining - 1" using room_less [of 1 remaining] rem by (simp add: word_less_nat_alt)
  have "uriDecode_loop U True strLen (uri_encode s) (pos + of_nat ?n) (remaining - 1) (decodedLen + 1) (out @ [c]) =
      (STATUS_SUCCESS, remaining - 1 - of_nat (length s), decodedLen + 1 + of_nat (length s), (out @ [c]) @ s)"
    by (rule Cons(1)) (use Cons(2-4) p r in simp_all)
  moreover have "c \<noteq> NUL" using Cons(4) by auto
  ultimately show ?case using uriDecode_loop_escape [OF pos _ rem, of c "uri_encode s" decodedLen out] Cons(2) by (simp add: algebra_simps)
qed simp

lemma uriDecodeString_inverts:
  assumes "length (uri_encode s) < 2 ^ 32 - 1" "length s < unat n" "NUL \<notin> set s"
  shows "uriDecodeString U (Some (uri_encode s)) 0 True (Some n) = Some (STATUS_SUCCESS, s, Some (of_nat (length s + 1)))"
proof -
  have "unat (n - of_nat (length s)) = unat n - length s" using assms(2) by (intro room_less) simp
  then have "n - of_nat (length s) > 0" using assms(2) by (simp add: word_less_nat_alt)
  then show ?thesis
    using uriDecode_loop_decodes [of s MAX_UINT32 0 n 0 "''''"] assms unat_MAX_UINT32 by (simp add: uriDecodeString_def Let_def)
qed

end

text \<open>
  C34: decoding what was encoded gives the string back: the size that the encoder reports without a
  destination is enough, the encoding that is stored has that size, and decoding it into a buffer of
  the size of the source stores the source.
\<close>

theorem uri_roundtrip:
  assumes "platform_utils U space" "encodable signed_char s" "3 * length s < 2 ^ 32 - 1"
  shows "\<exists>n e. uriEncodeString signed_char (Some s) 0 False (Some 0) = Some (STATUS_SUCCESS, '''', Some n) \<and>
    uriEncodeString signed_char (Some s) 0 True (Some n) = Some (STATUS_SUCCESS, e, Some n) \<and> unat n = length e + 1 \<and>
    uriDecodeString U (Some e) 0 True (Some (of_nat (length s + 1))) = Some (STATUS_SUCCESS, s, Some (of_nat (length s + 1)))"
proof -
  let ?e = "uri_encode s"
  have l: "length ?e < 2 ^ 32 - 1" using length_uri_encode(1) [of s] assms(3) by simp
  have src: "uri_source s 0 = s" by (simp add: uri_source_def)
  have n: "unat (of_nat (length ?e + 1) :: UINT32) = length ?e + 1" unfolding unat_of_nat using l by (simp add: take_bit_nat_eq_self)
  have m: "unat (of_nat (length s + 1) :: UINT32) = length s + 1" unfolding unat_of_nat using assms(3) by (simp add: take_bit_nat_eq_self)
  have E: "encodable signed_char (uri_source s 0)" "length s < 2 ^ 32 - 1" using assms(2,3) by (simp_all add: src)
  have nul: "NUL \<notin> set s" using assms(2) by (auto simp: encodable_def)
  have lt: "length s < unat (of_nat (length s + 1) :: UINT32)" unfolding m by simp
  note enc = uriEncodeString_size_and_store [OF E, unfolded src]
  have "uriEncodeString signed_char (Some s) 0 True (Some (of_nat (length ?e + 1))) = Some (STATUS_SUCCESS, ?e, Some (of_nat (length ?e + 1)))"
    using enc [of "of_nat (length ?e + 1)"] unfolding n by simp
  then show ?thesis
    using enc [of 0, THEN conjunct1] n platform_utils.uriDecodeString_inverts [OF assms(1) l lt nul] by blast
qed

theorem uriEncodeString_encodes_witness:
  "uriEncodeString True (Some ''a b/c?d'') 5 True (Some 10) = Some (STATUS_SUCCESS, ''a%20b%2Fc'', Some 10)"
proof -
  have "encodable True (uri_source ''a b/c?d'' 5)" "length ''a b/c?d'' < 2 ^ 32 - 1" "uri_encode (uri_source ''a b/c?d'' 5) = ''a%20b%2Fc''"
    by code_simp+
  then show ?thesis using uriEncodeString_encodes [of True "''a b/c?d''" 5 10] by simp
qed

theorem uri_roundtrip_witness:
  "\<exists>n e. uriEncodeString False (Some ''k=v &'') 0 True (Some n) = Some (STATUS_SUCCESS, e, Some n) \<and>
     uriDecodeString plain_utils (Some e) 0 True (Some 6) = Some (STATUS_SUCCESS, ''k=v &'', Some 6)"
proof -
  have "encodable False ''k=v &''" "3 * length ''k=v &'' < 2 ^ 32 - 1" by code_simp+
  then show ?thesis using uri_roundtrip [OF plain.platform_utils_axioms, of False "''k=v &''"] by auto
qed

text \<open>
  A byte of 128 or more that is written through a signed character type is looked up below the start
  of the table of digits; a destination without a size is read through NULL before it is checked.
\<close>

lemma uriEncodeString_signed_undefined:
  assumes "code c \<ge> 128" "unat n > 3"
  shows "uriEncodeString True (Some (c # s)) 0 True (Some n) = None"
proof -
  have "c \<noteq> NUL" "\<not> unreserved c" "c \<noteq> CHR ''/''" using assms(1) by (auto simp: unreserved_def code_def)
  moreover have "(0 :: UINT32) < MAX_UINT32" "3 < n" using assms(2) unat_MAX_UINT32 by (simp_all add: word_less_nat_alt)
  ultimately show ?thesis using assms(1) by (simp add: uriEncodeString_def Let_def percent_digits_def URI_ENCODED_FORWARD_SLASH_def)
qed

lemma uriEncodeString_null_size: "uriEncodeString g pSrc srcLen True None = None"
  by (simp add: uriEncodeString_def Let_def)

end
