(* ===== verification/Request_Urls.thy ===== *)
theory Request_Urls
  imports Request_Info Uri_Encoding "HOL-Library.Multiset"
begin

text \<open>
  The parts of a request URL that are signed (\<open>Common/AwsV4Signer.c\<close>): the host, the canonical URI and the
  canonical query. A pointer into the URL is an index; \<open>uri_start\<close> says whether the start of the
  canonical URI is NULL, the static default path, or a position of the URL.

  The parameters of the query are strings on a heap of their own while the list of them is built;
  \<open>Unterminated\<close> is a string that was copied without a terminator, which no later operation may read.
  \<open>None\<close> as a result is undefined behaviour (a write beyond a buffer, a read of an object that is not
  live or not terminated) or a loop that does not end.
\<close>

definition SCHEMA_DELIMITER_STRING :: string where "SCHEMA_DELIMITER_STRING = ''://''"
definition DEFAULT_CANONICAL_URI_STRING :: string where "DEFAULT_CANONICAL_URI_STRING = ''/''"

subsection \<open>Host and path\<close>

fun host_end :: "string \<Rightarrow> nat \<Rightarrow> nat \<Rightarrow> nat" where
  "host_end [] pCurPtr pEnd = pEnd"
| "host_end (c # s) pCurPtr pEnd =
     (if c = CHR ''/'' \<or> c = CHR '':'' \<or> c = CHR ''?'' then pCurPtr else host_end s (pCurPtr + 1) pEnd)"

definition getRequestHost :: "PCHAR \<Rightarrow> bool \<Rightarrow> STATUS \<times> nat option \<times> nat option" where
  "getRequestHost pUrl outputs = (case pUrl of
     None \<Rightarrow> (STATUS_NULL_ARG, None, None)
   | Some url \<Rightarrow>
       if \<not> outputs then (STATUS_NULL_ARG, None, None)
       else (case STRSTR url SCHEMA_DELIMITER_STRING of
           None \<Rightarrow> (STATUS_INVALID_ARG, None, None)
         | Some i \<Rightarrow>
             let pStart = i + length SCHEMA_DELIMITER_STRING in
             if \<not> length url > pStart then (STATUS_INVALID_ARG, Some pStart, None)
             else (STATUS_SUCCESS, Some pStart, Some (host_end (drop pStart url) pStart (length url)))))"

datatype uri_start = URI_NULL | URI_DEFAULT | URI_AT nat

fun uri_loop :: "pic_utils \<Rightarrow> nat \<Rightarrow> string \<Rightarrow> nat \<Rightarrow> nat \<Rightarrow> uri_start \<times> nat option \<times> bool" where
  "uri_loop U urlLen [] pCur pEnd = (URI_NULL, Some pEnd, False)"
| "uri_loop U urlLen (c # s) pCur pEnd =
     (if \<not> pCur < pEnd \<or> c = NUL then (URI_NULL, Some pEnd, False)
      else if c = CHR ''?'' then (URI_DEFAULT, Some pCur, True)
      else if c = CHR ''/'' then (URI_AT pCur, map_option (\<lambda>i. pCur + i) (STRNCHR U (c # s) (of_nat (urlLen - pCur)) (CHR ''?'')), False)
      else uri_loop U urlLen s (pCur + 1) pEnd)"

definition getCanonicalUri :: "pic_utils \<Rightarrow> PCHAR \<Rightarrow> UINT32 \<Rightarrow> bool \<Rightarrow> STATUS \<times> uri_start \<times> nat option \<times> bool" where
  "getCanonicalUri U pUrl len outputs = (case pUrl of
     None \<Rightarrow> (STATUS_NULL_ARG, URI_NULL, None, False)
   | Some url \<Rightarrow>
       if \<not> outputs then (STATUS_NULL_ARG, URI_NULL, None, False)
       else let urlLen = (if len \<noteq> 0 then unat len else length url) in
         (case STRSTR url SCHEMA_DELIMITER_STRING of
            None \<Rightarrow> (STATUS_INVALID_ARG, URI_NULL, None, False)
          | Some i \<Rightarrow>
              let pCur = i + length SCHEMA_DELIMITER_STRING; pEnd = urlLen in
              if \<not> pEnd > pCur then (STATUS_INVALID_ARG, URI_NULL, Some pEnd, False)
              else (case uri_loop U urlLen (drop pCur url) pCur pEnd of (pStart, pEnd', defaultPath) \<Rightarrow>
                (STATUS_SUCCESS, pStart, Some (case pEnd' of None \<Rightarrow> urlLen | Some e \<Rightarrow> e), defaultPath))))"

subsection \<open>The canonical query\<close>

datatype param_text = Terminated string | Unterminated string

type_synonym sheap = "UINT64 \<Rightarrow> param_text option"

definition param_string :: "sheap \<Rightarrow> UINT64 \<Rightarrow> string option" where
  "param_string h p = (case h p of Some (Terminated s) \<Rightarrow> Some s | _ \<Rightarrow> None)"

record ('l, 'n) query_env =
  qe_list :: "('l, 'n) single_list_ops"
  qe_listCreate :: "STATUS \<times> 'l option"
  qe_listClear :: "'l \<Rightarrow> UINT64 list"
  qe_malloc :: "sheap \<Rightarrow> UINT64 option"
  qe_queryMemory :: bool
  qe_maxUri :: nat
  qe_signedChar :: bool
  qe_utils :: pic_utils

text \<open>
  The new parameter: its name, the equals sign and its encoded value, in a buffer of its own. The
  address is 0 when there is none; the object stays live when the encoding fails.
\<close>

definition make_param ::
    "('l, 'n) query_env \<Rightarrow> string \<Rightarrow> nat \<Rightarrow> nat \<Rightarrow> bool \<Rightarrow> sheap \<Rightarrow> (STATUS \<times> UINT64 \<times> sheap) option" where
  "make_param E url pQueryParamStart pQueryParamEnd uriEncode h =
     (case STRNCHR (qe_utils E) (drop pQueryParamStart url) (of_nat (pQueryParamEnd - pQueryParamStart)) (CHR ''='') of
        None \<Rightarrow> Some (STATUS_INVALID_ARG, 0, h)
      | Some i \<Rightarrow>
          let nameLen = of_nat i :: UINT32;
              pParamValue = pQueryParamStart + i + 1;
              valueLen = of_nat (pQueryParamEnd - pParamValue) :: UINT32;
              maxLen = min (of_nat (qe_maxUri E)) (nameLen + 1 + valueLen * 3 + 1)
          in (case qe_malloc E h of
                None \<Rightarrow> Some (STATUS_NOT_ENOUGH_MEMORY, 0, h)
              | Some p \<Rightarrow>
                  if unat maxLen < i + 1 then None
                  else
                    let prefix = take i (drop pQueryParamStart url) @ [CHR ''=''];
                        remaining = maxLen - nameLen - 1 - 1
                    in if uriEncode
                       then do {
                         (st, out, _) \<leftarrow> uriEncodeString (qe_signedChar E) (Some (drop pParamValue url)) valueLen True (Some remaining);
                         if unat maxLen < length (prefix @ out) + (if STATUS_FAILED st then 0 else 1) then None
                         else Some (st, p, h(p \<mapsto> (if STATUS_FAILED st then Unterminated else Terminated) (prefix @ out)))
                       }
                       else if unat maxLen < i + 1 + unat valueLen then None
                       else Some (STATUS_SUCCESS, p, h(p \<mapsto> Unterminated (prefix @ take (unat valueLen) (drop pParamValue url))))))"

record 'n param_state =
  ps_prev :: "'n option"
  ps_cur :: "'n option"
  ps_undefined :: bool

definition param_step :: "sheap \<Rightarrow> UINT64 \<Rightarrow> 'n \<Rightarrow> UINT64 \<Rightarrow> 'n param_state \<Rightarrow> (STATUS \<times> 'n param_state) + 'n param_state" where
  "param_step h pNewParam n item s = (case (param_string h pNewParam, param_string h item) of
     (Some new, Some param) \<Rightarrow>
       if STRCMP new param \<le> 0 then Inl (STATUS_SUCCESS, s\<lparr>ps_cur := Some n\<rparr>) else Inr (s\<lparr>ps_prev := Some n\<rparr>)
   | _ \<Rightarrow> Inl (STATUS_SUCCESS, s\<lparr>ps_undefined := True\<rparr>))"

definition insert_param :: "('l, 'n) single_list_ops \<Rightarrow> 'l \<Rightarrow> sheap \<Rightarrow> UINT64 \<Rightarrow> (STATUS \<times> 'l) option" where
  "insert_param ops l h pNewParam = (case singleListGetHeadNode ops l of (st0, pCurNode) \<Rightarrow>
     if STATUS_FAILED st0 then Some (st0, l)
     else do {
       (st1, s) \<leftarrow> list_walk ops l (param_step h pNewParam) pCurNode \<lparr>ps_prev = None, ps_cur = None, ps_undefined = False\<rparr>;
       if ps_undefined s then None
       else if STATUS_FAILED st1 then Some (st1, l)
       else (case ps_cur s of
           None \<Rightarrow> Some (singleListInsertItemTail ops l pNewParam)
         | Some cur \<Rightarrow>
             (case (case ps_prev s of None \<Rightarrow> singleListInsertItemHead ops l pNewParam
                    | Some n \<Rightarrow> singleListInsertItemAfter ops l n pNewParam) of (st2, l') \<Rightarrow>
               if STATUS_FAILED st2 then Some (st2, l')
               else Some (fst (singleListGetNextNode ops l' cur), l')))
     })"

partial_function (option) params_loop ::
    "('l, 'n) query_env \<Rightarrow> string \<Rightarrow> nat \<Rightarrow> bool \<Rightarrow> nat \<Rightarrow> 'l \<Rightarrow> sheap \<Rightarrow> (STATUS \<times> 'l \<times> sheap) option" where
  [code]: "params_loop E url pEndPtr uriEncode pQueryParamStart l h =
     (let amp = STRNCHR (qe_utils E) (drop pQueryParamStart url) (of_nat (pEndPtr - pQueryParamStart)) (CHR ''&'');
          pQueryParamEnd = (case amp of None \<Rightarrow> pEndPtr | Some i \<Rightarrow> pQueryParamStart + i)
      in do {
        (st, pNewParam, h1) \<leftarrow> make_param E url pQueryParamStart pQueryParamEnd uriEncode h;
        if STATUS_FAILED st then Some (st, l, h1)
        else do {
          (st2, l') \<leftarrow> insert_param (qe_list E) l h1 pNewParam;
          if STATUS_FAILED st2 then Some (st2, l', h1)
          else if amp = None then Some (STATUS_SUCCESS, l', h1)
          else params_loop E url pEndPtr uriEncode (pQueryParamEnd + 1) l' h1
        }
      })"

record join_state =
  js_out :: string
  js_first :: bool
  js_undefined :: bool

definition join_step :: "nat \<Rightarrow> sheap \<Rightarrow> UINT64 \<Rightarrow> join_state \<Rightarrow> (STATUS \<times> join_state) + join_state" where
  "join_step maxUri h item s = (case param_string h item of
     None \<Rightarrow> Inl (STATUS_SUCCESS, s\<lparr>js_undefined := True\<rparr>)
   | Some param \<Rightarrow>
       if \<not> length param + 1 < maxUri then Inl (STATUS_INVALID_ARG, s)
       else let out = js_out s @ (if js_first s then [] else [CHR ''&'']) @ param in
         if length out > maxUri + 1 then Inl (STATUS_SUCCESS, s\<lparr>js_undefined := True\<rparr>)
         else Inr (s\<lparr>js_out := out, js_first := False\<rparr>))"

definition join_params :: "('l, 'n) query_env \<Rightarrow> 'l \<Rightarrow> sheap \<Rightarrow> (STATUS \<times> PCHAR \<times> UINT32) option" where
  "join_params E l h =
     (if \<not> qe_queryMemory E then Some (STATUS_NOT_ENOUGH_MEMORY, None, 0)
      else (case singleListGetHeadNode (qe_list E) l of (st0, pCurNode) \<Rightarrow>
        if STATUS_FAILED st0 then Some (st0, Some '''', 0)
        else do {
          (st1, s) \<leftarrow> list_walk (qe_list E) l (\<lambda>_. join_step (qe_maxUri E) h) pCurNode \<lparr>js_out = '''', js_first = True, js_undefined = False\<rparr>;
          if js_undefined s then None
          else if STATUS_FAILED st1 then Some (st1, Some (js_out s), 0)
          else if length (js_out s) > qe_maxUri E then None
          else Some (STATUS_SUCCESS, Some (js_out s), of_nat (length (js_out s)))
        }))"

text \<open>\<open>singleListClear\<close> with the flag that it releases the data of the list.\<close>

definition free_params :: "UINT64 list \<Rightarrow> sheap \<Rightarrow> sheap" where
  "free_params ps h = (\<lambda>q. if q \<in> set ps then None else h q)"

definition getCanonicalQueryParams ::
    "('l, 'n) query_env \<Rightarrow> PCHAR \<Rightarrow> UINT32 \<Rightarrow> bool \<Rightarrow> bool \<Rightarrow> sheap \<Rightarrow> (STATUS \<times> PCHAR \<times> UINT32 \<times> sheap) option" where
  "getCanonicalQueryParams E pUrl urlLen0 uriEncode outputs h = (case pUrl of
     None \<Rightarrow> Some (STATUS_NULL_ARG, None, 0, h)
   | Some url \<Rightarrow>
       if \<not> outputs then Some (STATUS_NULL_ARG, None, 0, h)
       else let urlLen = (if urlLen0 = 0 then of_nat (min (length url) (qe_maxUri E)) else urlLen0); pEndPtr = unat urlLen in
         (case getCanonicalUri (qe_utils E) pUrl urlLen True of (st, _, pQueryParamStart, _) \<Rightarrow>
           if STATUS_FAILED st then Some (st, None, 0, h)
           else do {
             q \<leftarrow> pQueryParamStart;
             c \<leftarrow> (if q \<le> length url then Some ((url @ [NUL]) ! q) else None);
             if c \<noteq> CHR ''?'' then Some (STATUS_SUCCESS, None, 0, h)
             else (case qe_listCreate E of (st1, pl) \<Rightarrow>
               if STATUS_FAILED st1 then Some (st1, None, 0, h)
               else do {
                 l \<leftarrow> pl;
                 (st2, l', h1) \<leftarrow> params_loop E url pEndPtr uriEncode (q + 1) l h;
                 (st3, query, queryLen) \<leftarrow> (if STATUS_FAILED st2 then Some (st2, None, 0) else join_params E l' h1);
                 Some (st3, query, queryLen, free_params (qe_listClear E l') h1)
               })
           }))"

subsection \<open>The parts of a URL\<close>

lemma unat_of_nat_small: "n < 2 ^ 32 \<Longrightarrow> unat (of_nat n :: UINT32) = n"
  unfolding unat_of_nat by (simp add: take_bit_nat_eq_self)

lemma STRSTR_skip:
  assumes "t \<noteq> []" "hd t \<notin> set a"
  shows "STRSTR (a @ t @ b) t = Some (length a)"
  using assms
proof (induction a)
  case Nil
  then show ?case by (cases t) auto
next
  case (Cons c a)
  have "take (length t) ((c # a) @ t @ b) \<noteq> t"
  proof
    assume "take (length t) ((c # a) @ t @ b) = t"
    then have "hd t = c" using Cons(2) by (cases t) auto
    then show False using Cons(3) by simp
  qed
  then show ?case using Cons by simp
qed

lemma scheme_delimiter:
  assumes "CHR '':'' \<notin> set scheme"
  shows "STRSTR (scheme @ ''://'' @ rest) SCHEMA_DELIMITER_STRING = Some (length scheme)"
  using STRSTR_skip [of "''://''" scheme rest] assms by (simp add: SCHEMA_DELIMITER_STRING_def)

lemma host_end_host:
  assumes "\<forall>c\<in>set host. c \<notin> {CHR ''/'', CHR '':'', CHR ''?''}"
    and "rest = [] \<or> hd rest \<in> {CHR ''/'', CHR '':'', CHR ''?''}"
  shows "host_end (host @ rest) k (k + length (host @ rest)) = k + length host"
  using assms
proof (induction host arbitrary: k)
  case Nil
  then show ?case by (cases rest) auto
next
  case (Cons c host)
  have "c \<noteq> CHR ''/'' \<and> c \<noteq> CHR '':'' \<and> c \<noteq> CHR ''?''" using Cons(2) by simp
  then show ?case using Cons(1) [of "Suc k"] Cons(2,3) by simp
qed

text \<open>
  The host that is signed. Of a URL it is what stands behind the scheme up to the first slash,
  colon or question mark.
\<close>

theorem getRequestHost_host:
  assumes "CHR '':'' \<notin> set scheme" and "\<forall>c\<in>set host. c \<notin> {CHR ''/'', CHR '':'', CHR ''?''}"
    and "rest = [] \<or> hd rest \<in> {CHR ''/'', CHR '':'', CHR ''?''}" and "host @ rest \<noteq> []"
  shows "\<exists>i j. getRequestHost (Some (scheme @ ''://'' @ host @ rest)) True = (STATUS_SUCCESS, Some i, Some j) \<and> i \<le> j \<and>
    take (j - i) (drop i (scheme @ ''://'' @ host @ rest)) = host"
proof -
  define u where "u = scheme @ ''://'' @ host @ rest"
  have d: "drop (length scheme + 3) u = host @ rest" "length u = length scheme + 3 + length (host @ rest)" by (simp_all add: u_def)
  have l3: "length SCHEMA_DELIMITER_STRING = 3" by (simp add: SCHEMA_DELIMITER_STRING_def)
  have "STRSTR u SCHEMA_DELIMITER_STRING = Some (length scheme)" unfolding u_def by (rule scheme_delimiter [OF assms(1)])
  then have "getRequestHost (Some u) True = (STATUS_SUCCESS, Some (length scheme + 3), Some (length scheme + 3 + length host))"
    unfolding getRequestHost_def by (simp add: l3 d Let_def) (use host_end_host [OF assms(2,3), of "length scheme + 3"] assms(4) in simp)
  moreover have "take (length scheme + 3 + length host - (length scheme + 3)) (drop (length scheme + 3) u) = host" unfolding d by simp
  ultimately show ?thesis unfolding u_def [symmetric] by (metis le_add1)
qed

text \<open>A URL by its parts, as the signer sees it: the path starts with a slash, the query with a question mark.\<close>

definition url_of :: "string \<Rightarrow> string \<Rightarrow> string \<Rightarrow> string \<Rightarrow> string" where
  "url_of scheme host path query = scheme @ ''://'' @ host @ path @ query"

definition url_parts :: "string \<Rightarrow> string \<Rightarrow> string \<Rightarrow> string \<Rightarrow> bool" where
  "url_parts scheme host path query \<longleftrightarrow> CHR '':'' \<notin> set scheme \<and> host \<noteq> [] \<and> CHR ''/'' \<notin> set host \<and> CHR ''?'' \<notin> set host \<and>
     (path = [] \<or> hd path = CHR ''/'') \<and> CHR ''?'' \<notin> set path \<and> (query = [] \<or> hd query = CHR ''?'') \<and>
     NUL \<notin> set (url_of scheme host path query) \<and> length (url_of scheme host path query) < 2 ^ 32"

context platform_utils
begin

lemma uri_loop_skip:
  assumes "CHR ''/'' \<notin> set host" "CHR ''?'' \<notin> set host" "NUL \<notin> set host" "k + length host \<le> e"
  shows "uri_loop U n (host @ rest) k e = uri_loop U n rest (k + length host) e"
  using assms
proof (induction host arbitrary: k)
  case (Cons c host)
  have "c \<noteq> CHR ''/''" "c \<noteq> CHR ''?''" "c \<noteq> NUL" "k < e" using Cons(2-5) by auto
  then show ?case using Cons(1) [of "Suc k"] Cons(2-5) by simp
qed simp

lemma getCanonicalUri_parts:
  assumes "url_parts scheme host path query" "len = 0 \<or> unat len = length (url_of scheme host path query)"
  defines "i \<equiv> length (scheme @ ''://'' @ host)" and "u \<equiv> url_of scheme host path query"
  shows "getCanonicalUri U (Some u) len True =
    (if path \<noteq> [] then (STATUS_SUCCESS, URI_AT i, Some (i + length path), False)
     else if query \<noteq> [] then (STATUS_SUCCESS, URI_DEFAULT, Some i, True)
     else (STATUS_SUCCESS, URI_NULL, Some i, False))"
proof -
  note p = assms(1) [unfolded url_parts_def]
  have n: "(if len \<noteq> 0 then unat len else length u) = length u" using assms(2) by (auto simp: u_def)
  have d: "drop (length scheme + 3) u = host @ path @ query" by (simp add: u_def url_of_def)
  have lu: "length u = i + length path + length query" by (simp add: u_def url_of_def i_def)
  have i: "i = length scheme + 3 + length host" by (simp add: i_def)
  have ss: "STRSTR u SCHEMA_DELIMITER_STRING = Some (length scheme)" unfolding u_def url_of_def by (rule scheme_delimiter) (use p in simp)
  have l3: "length SCHEMA_DELIMITER_STRING = 3" by (simp add: SCHEMA_DELIMITER_STRING_def)
  have gt: "length scheme + 3 < length u" using p lu i by (cases host) auto
  have "NUL \<notin> set host" using p by (simp add: url_of_def)
  then have lp: "uri_loop U (length u) (host @ path @ query) (length scheme + 3) (length u) = uri_loop U (length u) (path @ query) i (length u)"
    using uri_loop_skip [of host "length scheme + 3" "length u" "length u"] p lu i by simp
  have g: "getCanonicalUri U (Some u) len True = (case uri_loop U (length u) (path @ query) i (length u) of (pStart, pEnd', defaultPath) \<Rightarrow>
      (STATUS_SUCCESS, pStart, Some (case pEnd' of None \<Rightarrow> length u | Some e \<Rightarrow> e), defaultPath))"
    unfolding getCanonicalUri_def option.case n Let_def ss l3 d lp using gt by simp
  show ?thesis
  proof (cases path)
    case Nil
    then show ?thesis using g p lu by (cases query) (auto simp: NUL_char)
  next
    case (Cons c path')
    have c: "c = CHR ''/''" using p Cons by simp
    have pn: "c \<noteq> NUL" by (simp add: c NUL_char)
    have b: "length (path @ query) < 2 ^ 32" using p by (simp add: url_of_def)
    have q: "first_index (CHR ''?'') (path @ query) = (if query = [] then None else Some (length path))"
      using p first_index_append [of "CHR ''?''" path "tl query"] by (cases query) (auto simp: first_index_None)
    have "length u - i = length (path @ query)" using lu by simp
    then have "unat (of_nat (length u - i) :: UINT32) = length (path @ query)" using unat_of_nat_small [OF b] by (simp only:)
    then have s: "STRNCHR U (path @ query) (of_nat (length u - i)) (CHR ''?'') = (if query = [] then None else Some (length path))"
      by (simp add: STRNCHR_first q)
    have "uri_loop U (length u) (path @ query) i (length u) =
        (URI_AT i, map_option (\<lambda>j. i + j) (STRNCHR U (path @ query) (of_nat (length u - i)) (CHR ''?'')), False)"
      using Cons c pn lu by simp
    then show ?thesis using g s lu Cons by simp
  qed
qed

end

text \<open>
  The canonical URI. It is the path of the URL up to its query, or the default path when there is
  only a query. When there is neither, the call reports success with a start that is NULL.
\<close>

theorem getCanonicalUri_path:
  assumes "platform_utils U space" "url_parts scheme host path query" "len = 0 \<or> unat len = length (url_of scheme host path query)"
  defines "i \<equiv> length (scheme @ ''://'' @ host)"
  shows "getCanonicalUri U (Some (url_of scheme host path query)) len True =
    (if path \<noteq> [] then (STATUS_SUCCESS, URI_AT i, Some (i + length path), False)
     else if query \<noteq> [] then (STATUS_SUCCESS, URI_DEFAULT, Some i, True)
     else (STATUS_SUCCESS, URI_NULL, Some i, False))"
  unfolding i_def by (rule platform_utils.getCanonicalUri_parts [OF assms(1-3)])

subsection \<open>Sorting the parameters\<close>

fun join_amp :: "string list \<Rightarrow> string" where
  "join_amp [] = []"
| "join_amp [x] = x"
| "join_amp (x # y # xs) = x @ CHR ''&'' # join_amp (y # xs)"

definition raw_param :: "string \<times> string \<Rightarrow> string" where
  "raw_param p = fst p @ CHR ''='' # snd p"

definition canonical_param :: "string \<times> string \<Rightarrow> string" where
  "canonical_param p = fst p @ CHR ''='' # uri_encode (snd p)"

text \<open>
  The parameters that the code can encode: the buffer has no room for the terminator when every
  character of the value is escaped, in particular when the value is empty.
\<close>

definition param_ok :: "('l, 'n) query_env \<Rightarrow> string \<times> string \<Rightarrow> bool" where
  "param_ok E p \<longleftrightarrow> CHR ''='' \<notin> set (fst p) \<and> CHR ''&'' \<notin> set (fst p) \<and> CHR ''&'' \<notin> set (snd p) \<and> NUL \<notin> set (fst p) \<and>
     encodable (qe_signedChar E) (snd p) \<and> length (uri_encode (snd p)) < 3 * length (snd p) \<and>
     length (fst p) + 3 * length (snd p) + 3 < qe_maxUri E"

definition param_pos :: "sheap \<Rightarrow> string \<Rightarrow> UINT64 list \<Rightarrow> nat" where
  "param_pos h new xs = length (takeWhile (\<lambda>x. \<not> map code new \<le> map code (the (param_string h x))) xs)"

definition param_istep :: "sheap \<Rightarrow> string \<Rightarrow> nat \<Rightarrow> UINT64 \<Rightarrow> nat \<times> bool \<Rightarrow> (STATUS \<times> nat \<times> bool) + (nat \<times> bool)" where
  "param_istep h new i x t = (if map code new \<le> map code (the (param_string h x)) then Inl (STATUS_SUCCESS, (i, True)) else Inr (Suc i, False))"

lemma param_iwalk:
  "items_walk (param_istep h new) i xs (i, False) = (STATUS_SUCCESS, (i + param_pos h new xs, param_pos h new xs < length xs))"
proof (induction xs arbitrary: i)
  case (Cons x xs)
  then show ?case using Cons [of "Suc i"] by (auto simp: param_istep_def param_pos_def)
qed (simp add: param_pos_def)

locale query_list = single_list ops items node_at + platform_utils U space
  for ops :: "('l, 'n) single_list_ops" and items :: "'l \<Rightarrow> UINT64 list" and node_at :: "'l \<Rightarrow> 'n \<Rightarrow> nat \<Rightarrow> bool"
    and U :: pic_utils and space :: "char \<Rightarrow> bool" +
  fixes E :: "('l, 'n) query_env"
  assumes list_ops: "qe_list E = ops" and utils: "qe_utils E = U"
    and list_create: "qe_listCreate E = (st, pl) \<Longrightarrow> (if st = STATUS_SUCCESS then \<exists>l. pl = Some l \<and> items l = [] else pl = None)"
    and list_clear: "qe_listClear E l = items l"
    and malloc_fresh: "qe_malloc E h = Some p \<Longrightarrow> h p = None"
    and next_succeeds: "fst (singleListGetNextNode ops l n) = STATUS_SUCCESS"
    and max_uri: "qe_maxUri E < 2 ^ 32 - 1"
begin

lemma make_param_parts:
  assumes "CHR ''='' \<notin> set name" "length name + 3 * length val + 3 < qe_maxUri E"
    and d: "drop k url = name @ CHR ''='' # val @ rest"
  shows "make_param E url k (k + length name + 1 + length val) True h = (case qe_malloc E h of
      None \<Rightarrow> Some (STATUS_NOT_ENOUGH_MEMORY, 0, h)
    | Some p \<Rightarrow> do {
        (st, out, _) \<leftarrow> uriEncodeString (qe_signedChar E) (Some (val @ rest)) (of_nat (length val)) True (Some (of_nat (3 * length val)));
        if 3 * length val + 1 < length out + (if STATUS_FAILED st then 0 else 1) then None
        else Some (st, p, h(p \<mapsto> (if STATUS_FAILED st then Unterminated else Terminated) (name @ CHR ''='' # out)))
      })"
proof -
  let ?n = "length name" and ?v = "length val"
  have small: "?n + 3 * ?v + 3 < 2 ^ 32" using assms(2) max_uri by simp
  have "k + ?n + 1 + ?v - k = ?n + 1 + ?v" by simp
  then have w: "unat (of_nat (k + ?n + 1 + ?v - k) :: UINT32) = ?n + 1 + ?v" using unat_of_nat_small [of "?n + 1 + ?v"] small by (simp only:)
  have "take (?n + 1 + ?v) (drop k url) = name @ CHR ''='' # val" unfolding d by simp
  then have eq: "STRNCHR (qe_utils E) (drop k url) (of_nat (k + ?n + 1 + ?v - k)) (CHR ''='') = Some ?n"
    unfolding utils STRNCHR_first w using first_index_append [of "CHR ''=''" name val] assms(1) by simp
  have vl: "k + ?n + 1 + ?v - (k + ?n + 1) = ?v" by simp
  have m: "(of_nat ?n :: UINT32) + 1 + of_nat ?v * 3 + 1 = of_nat (?n + 3 * ?v + 2)" by simp
  have um: "unat (of_nat (?n + 3 * ?v + 2) :: UINT32) = ?n + 3 * ?v + 2" by (rule unat_of_nat_small) (use small in simp)
  have "unat (of_nat (qe_maxUri E) :: UINT32) = qe_maxUri E" by (rule unat_of_nat_small) (use max_uri in simp)
  then have "(of_nat (?n + 3 * ?v + 2) :: UINT32) \<le> of_nat (qe_maxUri E)" using assms(2) um by (simp only: word_le_nat_alt)
  then have mx: "min (of_nat (qe_maxUri E)) (of_nat (?n + 3 * ?v + 2)) = (of_nat (?n + 3 * ?v + 2) :: UINT32)" by (rule min_absorb2)
  have rm: "(of_nat (?n + 3 * ?v + 2) :: UINT32) - of_nat ?n - 1 - 1 = of_nat (3 * ?v)" by simp
  have "drop (k + ?n + 1) url = drop (?n + 1) (drop k url)" by (simp add: add.commute add.left_commute)
  then have dv: "drop (k + ?n + 1) url = val @ rest" unfolding d by simp
  have tk: "take ?n (drop k url) = name" unfolding d by simp
  have rel: "(?n + 3 * ?v + 2 < length ((name @ [CHR ''='']) @ out) + x) = (3 * ?v + 1 < length out + x)"
    "(name @ [CHR ''='']) @ out = name @ CHR ''='' # out" for out :: string and x by auto
  show ?thesis
    unfolding make_param_def eq option.case Let_def vl m mx rm um dv tk if_True unfolding rel by (simp split: option.split)
qed

lemma value_length:
  assumes "drop k url = name @ CHR ''='' # val @ rest" "length url < 2 ^ 32 - 1"
  shows "length (val @ rest) < 2 ^ 32 - 1"
proof -
  have "length (drop k url) \<le> length url" by simp
  then show ?thesis using assms by simp
qed

lemma make_param_ok:
  assumes "param_ok E (name, val)" and d: "drop k url = name @ CHR ''='' # val @ rest" and len: "length url < 2 ^ 32 - 1"
  shows "make_param E url k (k + length name + 1 + length val) True h = (case qe_malloc E h of
      None \<Rightarrow> Some (STATUS_NOT_ENOUGH_MEMORY, 0, h)
    | Some p \<Rightarrow> Some (STATUS_SUCCESS, p, h(p \<mapsto> Terminated (canonical_param (name, val)))))"
proof -
  note ok = assms(1) [unfolded param_ok_def fst_conv snd_conv]
  have ur: "unat (of_nat (3 * length val) :: UINT32) = 3 * length val" and uv: "unat (of_nat (length val) :: UINT32) = length val"
    by (rule unat_of_nat_small; use ok max_uri in simp)+
  have src: "uri_source (val @ rest) (of_nat (length val)) = val" using uv ok by (auto simp: uri_source_def)
  have enc: "uriEncodeString (qe_signedChar E) (Some (val @ rest)) (of_nat (length val)) True (Some (of_nat (3 * length val))) =
      Some (STATUS_SUCCESS, uri_encode val, Some (of_nat (length (uri_encode val) + 1)))"
    using uriEncodeString_size_and_store [OF _ value_length [OF d len], of "qe_signedChar E" "of_nat (length val)" "of_nat (3 * length val)"] ok
    unfolding src ur by simp
  have "CHR ''='' \<notin> set name" "length name + 3 * length val + 3 < qe_maxUri E" using ok by simp_all
  from make_param_parts [OF this d] show ?thesis unfolding enc using ok by (simp add: canonical_param_def split: option.split)
qed

lemma make_param_full:
  assumes "CHR ''='' \<notin> set name" "length name + 3 * length val + 3 < qe_maxUri E"
    and "length (uri_encode val) = 3 * length val" "encodable (qe_signedChar E) (val @ rest)"
    and d: "drop k url = name @ CHR ''='' # val @ rest" and len: "length url < 2 ^ 32 - 1" and p: "qe_malloc E h = Some p"
  shows "\<exists>w. make_param E url k (k + length name + 1 + length val) True h =
    Some (STATUS_NOT_ENOUGH_MEMORY, p, h(p \<mapsto> Unterminated w))"
proof -
  have ur: "unat (of_nat (3 * length val) :: UINT32) = 3 * length val" and uv: "unat (of_nat (length val) :: UINT32) = length val"
    by (rule unat_of_nat_small; use assms(2) max_uri in simp)+
  define src where "src = uri_source (val @ rest) (of_nat (length val))"
  have src: "src = (if val = [] then rest else val)" using uv by (auto simp: src_def uri_source_def)
  have "\<not> length (uri_encode src) < 3 * length val" using assms(3) by (simp add: src)
  moreover have "encodable (qe_signedChar E) src" using assms(4) by (auto simp: src encodable_def)
  ultimately obtain j n where enc: "uriEncodeString (qe_signedChar E) (Some (val @ rest)) (of_nat (length val)) True (Some (of_nat (3 * length val))) =
      Some (STATUS_NOT_ENOUGH_MEMORY, take j (uri_encode src), Some n)" and j: "j \<le> 3 * length val"
    using uriEncodeString_size_and_store [OF _ value_length [OF d len], of "qe_signedChar E" "of_nat (length val)" "of_nat (3 * length val)"]
    unfolding src_def ur by auto
  show ?thesis unfolding make_param_parts [OF assms(1,2) d] enc p using j
    by (intro exI [of _ "name @ CHR ''='' # take j (uri_encode src)"]) simp
qed

lemma param_walk:
  assumes "singleListGetHeadNode ops l = (st0, pn)" and "param_string h p = Some new" and "\<forall>x\<in>set (items l). param_string h x \<noteq> None"
  shows "st0 = STATUS_SUCCESS \<and> (\<exists>s. list_walk ops l (param_step h p) pn \<lparr>ps_prev = None, ps_cur = None, ps_undefined = False\<rparr> =
      Some (STATUS_SUCCESS, s) \<and> \<not> ps_undefined s \<and> (ps_cur s \<noteq> None) = (param_pos h new (items l) < length (items l)) \<and>
      (case ps_prev s of None \<Rightarrow> param_pos h new (items l) = 0
       | Some n \<Rightarrow> \<exists>i. node_at l n i \<and> param_pos h new (items l) = Suc i))"
proof -
  define R :: "nat \<Rightarrow> 'n param_state \<Rightarrow> nat \<times> bool \<Rightarrow> bool" where
    "R = (\<lambda>i s t. \<not> ps_undefined s \<and> ps_cur s = None \<and> t = (i, False) \<and>
       (case ps_prev s of None \<Rightarrow> i = 0 | Some n \<Rightarrow> \<exists>k. node_at l n k \<and> i = Suc k))"
  define Q :: "'n param_state \<Rightarrow> nat \<times> bool \<Rightarrow> bool" where
    "Q = (\<lambda>s t. \<not> ps_undefined s \<and> (ps_cur s \<noteq> None) = snd t \<and>
       (case ps_prev s of None \<Rightarrow> fst t = 0 | Some n \<Rightarrow> \<exists>k. node_at l n k \<and> fst t = Suc k))"
  have "st0 = STATUS_SUCCESS \<and> (\<exists>st s' t'. list_walk ops l (param_step h p) pn \<lparr>ps_prev = None, ps_cur = None, ps_undefined = False\<rparr> = Some (st, s') \<and>
      items_walk (param_istep h new) 0 (items l) (0, False) = (st, t') \<and> Q s' t')"
  proof (rule walk_list [where R = R and l = l, OF assms(1)])
    fix n i s t
    assume n: "node_at l n i" and r: "R i s t"
    have "param_string h (items l ! i) \<noteq> None" using assms(3) node_data [OF n] by simp
    then obtain w where w: "param_string h (items l ! i) = Some w" by auto
    show "case (param_step h p n (items l ! i) s, param_istep h new i (items l ! i) t) of
        (Inl (st, s'), Inl (st', t')) \<Rightarrow> st = st' \<and> Q s' t' | (Inr s', Inr t') \<Rightarrow> R (Suc i) s' t' | _ \<Rightarrow> False"
      using r n w assms(2) by (auto simp: param_step_def param_istep_def R_def Q_def STRCMP_le split: option.splits)
  qed (simp_all add: R_def Q_def split: option.splits)
  then show ?thesis by (auto simp: param_iwalk Q_def split: option.splits)
qed

end

lemma join_amp_Cons: "join_amp (x # xs) = x @ concat (map (\<lambda>y. CHR ''&'' # y) xs)"
  by (induction xs arbitrary: x) auto

lemma insort_key_takeWhile:
  "insort_key f x ys = takeWhile (\<lambda>y. \<not> f x \<le> f y) ys @ x # dropWhile (\<lambda>y. \<not> f x \<le> f y) ys"
  by (induction ys) auto

text \<open>
  The invariant of the list of parameters: different live strings, sorted by their bytes, and released
  they leave the heap as it was before.
\<close>

definition params_inv :: "('l \<Rightarrow> UINT64 list) \<Rightarrow> sheap \<Rightarrow> 'l \<Rightarrow> sheap \<Rightarrow> string list \<Rightarrow> bool" where
  "params_inv items h0 l h ss \<longleftrightarrow> distinct (items l) \<and> map (param_string h) (items l) = map Some ss \<and>
     sorted (map (map code) ss) \<and> free_params (items l) h = h0 \<and> (\<forall>x\<in>set (items l). h0 x = None)"

definition memory_suffices :: "('l, 'n) query_env \<Rightarrow> nat \<Rightarrow> bool" where
  "memory_suffices E m \<longleftrightarrow> (\<forall>h. card (dom h) < m \<longrightarrow> qe_malloc E h \<noteq> None) \<and> qe_queryMemory E \<and> fst (qe_listCreate E) = STATUS_SUCCESS \<and>
     (\<forall>l x. fst (singleListInsertItemHead (qe_list E) l x) = STATUS_SUCCESS) \<and>
     (\<forall>l n x. fst (singleListInsertItemAfter (qe_list E) l n x) = STATUS_SUCCESS) \<and>
     (\<forall>l x. fst (singleListInsertItemTail (qe_list E) l x) = STATUS_SUCCESS)"

context query_list
begin

lemma insert_param_outcome:
  assumes inv: "params_inv items h0 l h ss" and p: "h p = None"
  shows "\<exists>st l'. insert_param ops l (h(p \<mapsto> Terminated new)) p = Some (st, l') \<and>
    (st = STATUS_SUCCESS \<longrightarrow> params_inv items h0 l' (h(p \<mapsto> Terminated new)) (insort_key (map code) new ss)) \<and>
    (memory_suffices E m \<longrightarrow> st = STATUS_SUCCESS)"
proof -
  define h1 where "h1 = h(p \<mapsto> Terminated new)"
  note I = inv [unfolded params_inv_def]
  have pn: "p \<notin> set (items l)"
  proof
    assume "p \<in> set (items l)"
    then have "param_string h p \<in> set (map Some ss)" using I by (metis (no_types) image_eqI list.set_map)
    then show False using p by (auto simp: param_string_def)
  qed
  have new: "param_string h1 p = Some new" by (simp add: h1_def param_string_def)
  have keep: "param_string h1 x = param_string h x" if "x \<noteq> p" for x using that by (simp add: h1_def param_string_def)
  have ss: "map (param_string h1) (items l) = map Some ss" using I keep pn by (metis (mono_tags, lifting) map_cong)
  have live: "\<forall>x\<in>set (items l). param_string h1 x \<noteq> None"
    using ss by (metis (no_types) image_iff list.set_map option.distinct(1))
  define j where "j = param_pos h1 new (items l)"
  have the_ss: "map (the \<circ> param_string h1) (items l) = ss"
    using arg_cong [OF ss, of "map the"] by (simp add: comp_def)
  have tw: "takeWhile (\<lambda>y. \<not> map code new \<le> map code y) ss = take j ss" "dropWhile (\<lambda>y. \<not> map code new \<le> map code y) ss = drop j ss"
    unfolding the_ss [symmetric] takeWhile_map dropWhile_map take_map drop_map
    by (simp_all add: j_def param_pos_def comp_def takeWhile_eq_take [symmetric] dropWhile_eq_drop [symmetric])
  obtain st0 pn0 where hd0: "singleListGetHeadNode ops l = (st0, pn0)" by fastforce
  obtain s where s: "st0 = STATUS_SUCCESS" "list_walk ops l (param_step h1 p) pn0 \<lparr>ps_prev = None, ps_cur = None, ps_undefined = False\<rparr> = Some (STATUS_SUCCESS, s)"
      "\<not> ps_undefined s" "(ps_cur s \<noteq> None) = (j < length (items l))" "case ps_prev s of None \<Rightarrow> j = 0 | Some n \<Rightarrow> \<exists>i. node_at l n i \<and> j = Suc i"
    using param_walk [OF hd0 new live] unfolding j_def by blast
  have jl: "j \<le> length (items l)" unfolding j_def param_pos_def by (rule length_takeWhile_le)
  have "\<exists>st l'. insert_param ops l h1 p = Some (st, l') \<and> (st = STATUS_SUCCESS \<longrightarrow> items l' = take j (items l) @ p # drop j (items l)) \<and>
      (memory_suffices E m \<longrightarrow> st = STATUS_SUCCESS)"
  proof (cases "ps_cur s")
    case None
    obtain st l' where i: "singleListInsertItemTail ops l p = (st, l')" by fastforce
    have "insert_param ops l h1 p = Some (st, l')" using hd0 s i None by (simp add: insert_param_def)
    moreover have "j = length (items l)" using s(4) None jl by simp
    moreover have "memory_suffices E m \<longrightarrow> st = STATUS_SUCCESS" using i by (metis fst_conv list_ops memory_suffices_def)
    ultimately show ?thesis using insert_tail [of l p l'] i by auto
  next
    case (Some cur)
    define ins where "ins = (case ps_prev s of None \<Rightarrow> singleListInsertItemHead ops l p | Some n \<Rightarrow> singleListInsertItemAfter ops l n p)"
    obtain st l' where i: "ins = (st, l')" by fastforce
    have "insert_param ops l h1 p = Some (st, l')"
      using hd0 s Some i next_succeeds by (simp add: insert_param_def ins_def [symmetric])
    moreover have "items l' = take j (items l) @ p # drop j (items l)" if "st = STATUS_SUCCESS"
      using i that s(5) insert_head [of l p l'] insert_after [of l _ p l'] by (auto simp: ins_def split: option.splits)
    moreover have "memory_suffices E m \<longrightarrow> st = STATUS_SUCCESS"
      using i by (auto simp: ins_def memory_suffices_def list_ops split: option.splits) (metis fst_conv)+
    ultimately show ?thesis by blast
  qed
  then obtain st l' where r: "insert_param ops l h1 p = Some (st, l')" "st = STATUS_SUCCESS \<Longrightarrow> items l' = take j (items l) @ p # drop j (items l)"
      "memory_suffices E m \<Longrightarrow> st = STATUS_SUCCESS" by blast
  have "params_inv items h0 l' h1 (insort_key (map code) new ss)" if st: "st = STATUS_SUCCESS"
  proof -
    have it: "items l' = take j (items l) @ p # drop j (items l)" by (rule r(2) [OF st])
    have a: "distinct (items l')" "set (items l') = insert p (set (items l))"
      using insert_at_props(1) [of j "items l" p] insert_at_props(3) [OF _ pn, of j] I by (simp_all only: it)
    have b: "map (param_string h1) (items l') = map Some (insort_key (map code) new ss)"
      unfolding it insort_key_takeWhile tw using new ss by (simp add: take_map [symmetric] drop_map [symmetric])
    have h0: "h0 x = (if x \<in> set (items l) then None else h x)" for x using I by (auto simp: free_params_def)
    then have "h0 p = None" using pn p by simp
    moreover have "free_params (items l') h1 x = h0 x" for x using h0 [of x] pn p by (simp add: free_params_def a(2) h1_def)
    then have "free_params (items l') h1 = h0" by (rule ext)
    ultimately show ?thesis using a b I by (simp add: params_inv_def sorted_insort_key)
  qed
  then show ?thesis using r(1,3) unfolding h1_def [symmetric] by blast
qed

end

text \<open>The parameters one after the other, as they stand in the URL.\<close>

lemma raw_param_amp: "param_ok E p \<Longrightarrow> CHR ''&'' \<notin> set (raw_param p)"
  by (simp add: param_ok_def raw_param_def)

lemma length_raw_param: "length (raw_param p) = length (fst p) + 1 + length (snd p)"
  by (simp add: raw_param_def)

context query_list
begin

lemma params_loop_outcome:
  assumes "ps \<noteq> []" and "\<forall>p\<in>set ps. param_ok E p" and "drop k url = join_amp (map raw_param ps)" and len: "length url < 2 ^ 32 - 1"
    and "params_inv items h0 l h ss"
  shows "\<exists>st l' h'. params_loop E url (length url) True k l h = Some (st, l', h') \<and>
    (st = STATUS_SUCCESS \<longrightarrow> (\<exists>ss'. params_inv items h0 l' h' ss' \<and> mset ss' = mset ss + mset (map canonical_param ps))) \<and>
    (memory_suffices E m \<and> card (dom h) + length ps \<le> m \<longrightarrow> st = STATUS_SUCCESS)"
  using assms(1-3,5)
proof (induction ps arbitrary: k l h ss)
  case (Cons p ps)
  obtain name val where p: "p = (name, val)" by fastforce
  have ok: "param_ok E (name, val)" using Cons(3) p by simp
  define rest where "rest = concat (map (\<lambda>y. CHR ''&'' # y) (map raw_param ps))"
  have d: "drop k url = raw_param p @ rest" using Cons(4) by (simp add: join_amp_Cons rest_def)
  have dn: "drop k url = name @ CHR ''='' # val @ rest" by (simp add: d p raw_param_def)
  have "length (drop k url) < 2 ^ 32" using len by simp
  then have w: "unat (of_nat (length url - k) :: UINT32) = length (drop k url)" using unat_of_nat_small by simp
  have fi: "first_index (CHR ''&'') (drop k url) = (if ps = [] then None else Some (length (raw_param p)))"
  proof (cases ps)
    case Nil
    then show ?thesis using raw_param_amp [of E p] ok p by (simp add: d rest_def first_index_None)
  next
    case (Cons q qs)
    then have "rest = CHR ''&'' # tl rest" by (simp add: rest_def)
    then show ?thesis using first_index_append [OF raw_param_amp [of E p], of "tl rest"] ok p Cons d by simp
  qed
  have amp: "STRNCHR (qe_utils E) (drop k url) (of_nat (length url - k)) (CHR ''&'') = (if ps = [] then None else Some (length (raw_param p)))"
    unfolding utils STRNCHR_first w by (simp add: fi)
  have e: "(case if ps = [] then None else Some (length (raw_param p)) of None \<Rightarrow> length url | Some i \<Rightarrow> k + i) = k + length name + 1 + length val"
  proof (cases "ps = []")
    case True
    then have "length (drop k url) = length name + 1 + length val" by (simp add: dn rest_def)
    then have "length url = k + length name + 1 + length val" by simp
    then show ?thesis using True by simp
  qed (simp add: p raw_param_def)
  note mk = make_param_ok [OF ok dn len, of h]
  have step: "params_loop E url (length url) True k l h = do {
      (st, pNewParam, h1) \<leftarrow> (case qe_malloc E h of None \<Rightarrow> Some (STATUS_NOT_ENOUGH_MEMORY, 0, h)
        | Some p \<Rightarrow> Some (STATUS_SUCCESS, p, h(p \<mapsto> Terminated (canonical_param (name, val)))));
      if STATUS_FAILED st then Some (st, l, h1)
      else do {
        (st2, l') \<leftarrow> insert_param ops l h1 pNewParam;
        if STATUS_FAILED st2 then Some (st2, l', h1)
        else if (if ps = [] then None else Some (length (raw_param p))) = None then Some (STATUS_SUCCESS, l', h1)
        else params_loop E url (length url) True (k + length name + 1 + length val + 1) l' h1
      } }"
    by (subst params_loop.simps) (simp only: Let_def amp e mk list_ops)
  show ?case
  proof (cases "qe_malloc E h")
    case None
    then have "params_loop E url (length url) True k l h = Some (STATUS_NOT_ENOUGH_MEMORY, l, h)" by (simp add: step)
    moreover have "\<not> (memory_suffices E m \<and> card (dom h) + length (p # ps) \<le> m)"
    proof
      assume a: "memory_suffices E m \<and> card (dom h) + length (p # ps) \<le> m"
      then have "card (dom h) < m" by simp
      then show False using a None unfolding memory_suffices_def by blast
    qed
    ultimately show ?thesis by auto
  next
    case (Some q)
    define h1 where "h1 = h(q \<mapsto> Terminated (canonical_param p))"
    have hq: "h q = None" by (rule malloc_fresh [OF Some])
    have card: "card (dom h1) = Suc (card (dom h))" using hq by (simp add: h1_def domIff)
    obtain st2 l2 where i: "insert_param ops l h1 q = Some (st2, l2)"
        "st2 = STATUS_SUCCESS \<Longrightarrow> params_inv items h0 l2 h1 (insort_key (map code) (canonical_param p) ss)" "memory_suffices E m \<Longrightarrow> st2 = STATUS_SUCCESS"
      using insert_param_outcome [OF Cons(5) hq, of "canonical_param p" m] unfolding h1_def by blast
    have pl: "params_loop E url (length url) True k l h = (if st2 \<noteq> STATUS_SUCCESS then Some (st2, l2, h1)
        else if ps = [] then Some (STATUS_SUCCESS, l2, h1) else params_loop E url (length url) True (k + length name + 1 + length val + 1) l2 h1)"
      using Some i(1) p by (simp add: step h1_def)
    show ?thesis
    proof (cases "st2 = STATUS_SUCCESS \<and> ps \<noteq> []")
      case True
      then obtain q' qs where qs: "ps = q' # qs" by (cases ps) auto
      have r: "drop (length name + 1 + length val + 1) (name @ CHR ''='' # val @ rest) = join_amp (map raw_param ps)"
        unfolding rest_def qs by (simp add: join_amp_Cons)
      have "drop (k + length name + 1 + length val + 1) url = drop (length name + 1 + length val + 1) (drop k url)"
        by (simp add: add.commute add.left_commute)
      then have d2: "drop (k + length name + 1 + length val + 1) url = join_amp (map raw_param ps)" unfolding dn r .
      obtain st l' h' where o: "params_loop E url (length url) True (k + length name + 1 + length val + 1) l2 h1 = Some (st, l', h')"
          "st = STATUS_SUCCESS \<Longrightarrow> \<exists>ss'. params_inv items h0 l' h' ss' \<and> mset ss' = mset (insort_key (map code) (canonical_param p) ss) + mset (map canonical_param ps)"
          "memory_suffices E m \<and> card (dom h1) + length ps \<le> m \<Longrightarrow> st = STATUS_SUCCESS"
        using Cons(1) [OF _ _ d2 i(2)] True Cons(3) by (metis list.set_intros(2))
      have "params_loop E url (length url) True k l h = Some (st, l', h')" using pl o(1) True by simp
      then show ?thesis using o(2,3) card by auto
    next
      case False
      have "params_loop E url (length url) True k l h = Some (st2, l2, h1)" using pl False by auto
      moreover have "params_inv items h0 l2 h1 (insort_key (map code) (canonical_param p) ss) \<and> ps = []" if "st2 = STATUS_SUCCESS" using i(2) False that by simp
      moreover have "mset (insort_key (map code) (canonical_param p) ss) = mset ss + {#canonical_param p#}" by simp
      ultimately show ?thesis using i(3) by fastforce
    qed
  qed
qed simp

end

definition joined :: "bool \<Rightarrow> string list \<Rightarrow> string" where
  "joined first ss = (if first then join_amp ss else concat (map (\<lambda>y. CHR ''&'' # y) ss))"

lemma joined_Cons: "joined f (x # xs) = (if f then [] else [CHR ''&'']) @ x @ joined False xs"
  by (simp add: joined_def join_amp_Cons)

lemma join_iwalk:
  assumes "map (param_string h) xs = map Some ss" "\<forall>s\<in>set ss. length s + 1 < mx" "length (js_out s @ joined (js_first s) ss) \<le> mx"
  shows "items_walk (\<lambda>_. join_step mx h) i xs s =
    (STATUS_SUCCESS, s\<lparr>js_out := js_out s @ joined (js_first s) ss, js_first := (js_first s \<and> ss = [])\<rparr>)"
  using assms
proof (induction xs arbitrary: i s ss)
  case Nil
  then show ?case by (simp add: joined_def)
next
  case (Cons x xs)
  obtain w ws where ss: "ss = w # ws" "param_string h x = Some w" "map (param_string h) xs = map Some ws" using Cons(2) by (cases ss) auto
  define s1 where "s1 = s\<lparr>js_out := js_out s @ (if js_first s then [] else [CHR ''&'']) @ w, js_first := False\<rparr>"
  have len: "length (js_out s1 @ joined (js_first s1) ws) \<le> mx" using Cons(4) by (simp add: s1_def ss(1) joined_Cons)
  have "join_step mx h x s = Inr s1" using ss(2) Cons(3) len by (simp add: join_step_def ss(1) Let_def s1_def)
  then have "items_walk (\<lambda>_. join_step mx h) i (x # xs) s = items_walk (\<lambda>_. join_step mx h) (Suc i) xs s1" by simp
  also have "\<dots> = (STATUS_SUCCESS, s1\<lparr>js_out := js_out s1 @ joined (js_first s1) ws, js_first := (js_first s1 \<and> ws = [])\<rparr>)"
    by (rule Cons(1)) (use ss(3) Cons(3) ss(1) len in auto)
  finally show ?case by (simp add: s1_def ss(1) joined_Cons)
qed

lemma join_amp_length_sum: "length (join_amp ss) = sum_list (map length ss) + (length ss - 1)"
proof (cases ss)
  case (Cons x xs)
  have "length (concat (map (\<lambda>y. CHR ''&'' # y) xs)) = sum_list (map length xs) + length xs" by (induction xs) auto
  then show ?thesis by (simp add: Cons join_amp_Cons)
qed simp

lemma join_amp_length:
  assumes "mset ss = mset xs"
  shows "length (join_amp ss) = length (join_amp xs)"
proof -
  have "sum_list (map length ss) = sum_list (map length xs)" using assms by (metis mset_map sum_mset_sum_list)
  moreover have "length ss = length xs" using assms by (metis size_mset)
  ultimately show ?thesis by (simp add: join_amp_length_sum)
qed

lemma sort_by_code:
  assumes "sorted (map (map code) ss)" "mset ss = mset xs"
  shows "ss = sort_key (map code) xs"
proof -
  have inj: "inj (map code)" by (simp add: inj_def inj_map_eq_map injI)
  have "map (map code) ss = sort (map (map code) ss)" using assms(1) by (simp add: sorted_sort_id)
  also have "\<dots> = sort (map (map code) (sort_key (map code) xs))"
    by (rule properties_for_sort [symmetric]) (use assms(2) in simp_all)
  also have "\<dots> = map (map code) (sort_key (map code) xs)" by (simp add: sorted_sort_id)
  finally show ?thesis using inj by (simp add: inj_map_eq_map)
qed

context query_list
begin

lemma join_params_outcome:
  assumes "params_inv items h0 l h ss" "\<forall>s\<in>set ss. length s + 1 < qe_maxUri E" "length (join_amp ss) \<le> qe_maxUri E" "qe_queryMemory E"
  shows "join_params E l h = Some (STATUS_SUCCESS, Some (join_amp ss), of_nat (length (join_amp ss)))"
proof -
  obtain st0 pn where hd0: "singleListGetHeadNode ops l = (st0, pn)" by fastforce
  have "map (param_string h) (items l) = map Some ss" using assms(1) by (simp add: params_inv_def)
  then have "items_walk (\<lambda>_. join_step (qe_maxUri E) h) 0 (items l) \<lparr>js_out = '''', js_first = True, js_undefined = False\<rparr> =
      (STATUS_SUCCESS, \<lparr>js_out = join_amp ss, js_first = (ss = []), js_undefined = False\<rparr>)"
    using join_iwalk [of h "items l" ss "qe_maxUri E" "\<lparr>js_out = '''', js_first = True, js_undefined = False\<rparr>" 0] assms(2,3) by (simp add: joined_def)
  moreover note walk_items [OF hd0, of "join_step (qe_maxUri E) h" "\<lparr>js_out = '''', js_first = True, js_undefined = False\<rparr>"]
  ultimately show ?thesis using hd0 assms(3,4) by (simp add: join_params_def list_ops)
qed

lemma query_run:
  assumes parts: "url_parts scheme host path (CHR ''?'' # q)" and len: "length (url_of scheme host path (CHR ''?'' # q)) \<le> qe_maxUri E"
    and len0: "len0 = 0 \<or> unat len0 = length (url_of scheme host path (CHR ''?'' # q))"
    and lc: "qe_listCreate E = (st1, pl)"
  defines "url \<equiv> url_of scheme host path (CHR ''?'' # q)" and "i \<equiv> length (scheme @ ''://'' @ host @ path)"
  shows "getCanonicalQueryParams E (Some url) len0 True True h = (if STATUS_FAILED st1 then Some (st1, None, 0, h)
      else do {
        l \<leftarrow> pl;
        (st2, l', h1) \<leftarrow> params_loop E url (length url) True (i + 1) l h;
        (st3, query, queryLen) \<leftarrow> (if STATUS_FAILED st2 then Some (st2, None, 0) else join_params E l' h1);
        Some (st3, query, queryLen, free_params (items l') h1)
      })" "drop (i + 1) url = q" "length url < 2 ^ 32 - 1"
proof -
  show lu: "length url < 2 ^ 32 - 1" using len max_uri unfolding url_def by simp
  define n where "n = (if len0 = 0 then of_nat (min (length url) (qe_maxUri E)) else len0)"
  have un: "unat n = length url"
    using len lu len0 unat_of_nat_small [of "length url"] by (auto simp: n_def url_def [symmetric] min_absorb1)
  have uri: "\<exists>ps d. getCanonicalUri U (Some url) n True = (STATUS_SUCCESS, ps, Some i, d)"
    using getCanonicalUri_parts [OF parts, of n] un unfolding url_def i_def by auto
  define base where "base = scheme @ ''://'' @ host @ path"
  have u: "url = base @ CHR ''?'' # q" by (simp add: url_def url_of_def base_def)
  have i: "i = length base" by (simp add: i_def base_def)
  have q: "i \<le> length url" "(url @ [NUL]) ! i = CHR ''?''" by (simp_all add: u i)
  show "drop (i + 1) url = q" by (simp add: u i)
  show "getCanonicalQueryParams E (Some url) len0 True True h = (if STATUS_FAILED st1 then Some (st1, None, 0, h)
      else do {
        l \<leftarrow> pl;
        (st2, l', h1) \<leftarrow> params_loop E url (length url) True (i + 1) l h;
        (st3, query, queryLen) \<leftarrow> (if STATUS_FAILED st2 then Some (st2, None, 0) else join_params E l' h1);
        Some (st3, query, queryLen, free_params (items l') h1)
      })"
    using uri q lc un by (auto simp: getCanonicalQueryParams_def Let_def utils n_def [symmetric] list_clear)
qed

lemma canonical_query:
  assumes parts: "url_parts scheme host path (CHR ''?'' # join_amp (map raw_param ps))"
    and ps: "ps \<noteq> []" "\<forall>p\<in>set ps. param_ok E p" and fit: "length (join_amp (map canonical_param ps)) \<le> qe_maxUri E"
    and len: "length (url_of scheme host path (CHR ''?'' # join_amp (map raw_param ps))) \<le> qe_maxUri E"
    and len0: "len0 = 0 \<or> unat len0 = length (url_of scheme host path (CHR ''?'' # join_amp (map raw_param ps)))"
  defines "url \<equiv> url_of scheme host path (CHR ''?'' # join_amp (map raw_param ps))"
    and "query \<equiv> join_amp (sort_key (map code) (map canonical_param ps))"
  shows "\<exists>st q n h'. getCanonicalQueryParams E (Some url) len0 True True h = Some (st, q, n, h') \<and>
    (st = STATUS_SUCCESS \<longrightarrow> q = Some query \<and> n = of_nat (length query) \<and> h' = h) \<and>
    (memory_suffices E (card (dom h) + length ps) \<longrightarrow> st = STATUS_SUCCESS)"
proof -
  let ?m = "card (dom h) + length ps"
  obtain st1 pl where lc: "qe_listCreate E = (st1, pl)" by fastforce
  define k where "k = length (scheme @ ''://'' @ host @ path) + 1"
  note run = query_run [OF parts len len0 lc, folded url_def k_def]
  show ?thesis
  proof (cases "st1 = STATUS_SUCCESS")
    case False
    then have "\<not> memory_suffices E ?m" by (simp add: memory_suffices_def lc)
    then show ?thesis using run(1) False by simp
  next
    case True
    then obtain l where l: "pl = Some l" "items l = []" using list_create [OF lc] by auto
    have "params_inv items h l h []" using l(2) by (simp add: params_inv_def free_params_def)
    then obtain st2 l' h' where o: "params_loop E url (length url) True k l h = Some (st2, l', h')"
        "st2 = STATUS_SUCCESS \<Longrightarrow> \<exists>ss'. params_inv items h l' h' ss' \<and> mset ss' = mset [] + mset (map canonical_param ps)"
        "memory_suffices E ?m \<and> ?m \<le> ?m \<Longrightarrow> st2 = STATUS_SUCCESS"
      using params_loop_outcome [OF ps run(2,3), of h l h "[]" ?m] by blast
    have main: "getCanonicalQueryParams E (Some url) len0 True True h = do {
        (st3, query, queryLen) \<leftarrow> (if STATUS_FAILED st2 then Some (st2, None, 0) else join_params E l' h');
        Some (st3, query, queryLen, free_params (items l') h') }"
      unfolding run(1) l(1) using True o(1) by simp
    show ?thesis
    proof (cases "st2 = STATUS_SUCCESS \<and> qe_queryMemory E")
      case True
      then obtain ss where ss: "params_inv items h l' h' ss" "mset ss = mset (map canonical_param ps)" using o(2) by auto
      have ssq: "ss = sort_key (map code) (map canonical_param ps)" by (rule sort_by_code) (use ss in \<open>simp_all add: params_inv_def\<close>)
      have "length (canonical_param p) + 1 < qe_maxUri E" if "p \<in> set ps" for p
        using ps(2) that by (fastforce simp: param_ok_def canonical_param_def)
      then have each: "\<forall>s\<in>set ss. length s + 1 < qe_maxUri E" using ssq by auto
      have "length (join_amp ss) = length (join_amp (map canonical_param ps))" using ss(2) by (rule join_amp_length)
      then have "join_params E l' h' = Some (STATUS_SUCCESS, Some (join_amp ss), of_nat (length (join_amp ss)))"
        using join_params_outcome [OF ss(1) each] fit True by simp
      moreover have "free_params (items l') h' = h" using ss(1) by (simp add: params_inv_def)
      ultimately show ?thesis using main True ssq by (simp add: query_def)
    next
      case False
      have "\<exists>st q n. getCanonicalQueryParams E (Some url) len0 True True h = Some (st, q, n, free_params (items l') h') \<and> st \<noteq> STATUS_SUCCESS"
        using main False by (cases "st2 = STATUS_SUCCESS") (auto simp: join_params_def)
      moreover have "memory_suffices E ?m \<Longrightarrow> qe_queryMemory E" by (simp add: memory_suffices_def)
      then have "\<not> memory_suffices E ?m" using False o(3) by blast
      ultimately show ?thesis by blast
    qed
  qed
qed

lemma escaped_value:
  assumes parts: "url_parts scheme host path (CHR ''?'' # raw_param (name, val))"
    and name: "CHR ''='' \<notin> set name" "CHR ''&'' \<notin> set (name @ val)" "length name + 3 * length val + 3 < qe_maxUri E"
    and val: "length (uri_encode val) = 3 * length val" "encodable (qe_signedChar E) val"
    and len: "length (url_of scheme host path (CHR ''?'' # raw_param (name, val))) \<le> qe_maxUri E"
    and lc: "fst (qe_listCreate E) = STATUS_SUCCESS" and p: "qe_malloc E h = Some p"
  shows "\<exists>w. getCanonicalQueryParams E (Some (url_of scheme host path (CHR ''?'' # raw_param (name, val)))) 0 True True h =
    Some (STATUS_NOT_ENOUGH_MEMORY, None, 0, h(p \<mapsto> Unterminated w))"
proof -
  define url where "url = url_of scheme host path (CHR ''?'' # raw_param (name, val))"
  define k where "k = length (scheme @ ''://'' @ host @ path) + 1"
  obtain pl where lc': "qe_listCreate E = (STATUS_SUCCESS, pl)" using lc by (metis prod.collapse)
  then obtain l where l: "pl = Some l" "items l = []" using list_create by fastforce
  have run: "getCanonicalQueryParams E (Some url) 0 True True h = do {
        (st2, l', h1) \<leftarrow> params_loop E url (length url) True k l h;
        (st3, query, queryLen) \<leftarrow> (if STATUS_FAILED st2 then Some (st2, None, 0) else join_params E l' h1);
        Some (st3, query, queryLen, free_params (items l') h1)
      }" and d: "drop k url = name @ CHR ''='' # val @ []" and lu: "length url < 2 ^ 32 - 1"
    using query_run(1) [OF parts len _ lc', of 0 h, folded url_def k_def] query_run(2,3) [OF parts len _ lc', of 0, folded url_def k_def] l(1)
    by (simp_all add: raw_param_def)
  obtain w where mk: "make_param E url k (k + length name + 1 + length val) True h = Some (STATUS_NOT_ENOUGH_MEMORY, p, h(p \<mapsto> Unterminated w))"
    using make_param_full [OF name(1,3) val(1) _ d lu p] val(2) by auto
  have "length (drop k url) < 2 ^ 32" using lu by simp
  then have "unat (of_nat (length url - k) :: UINT32) = length (drop k url)" using unat_of_nat_small by simp
  moreover have "first_index (CHR ''&'') (drop k url) = None" unfolding d first_index_None using name(2) by simp
  ultimately have amp: "STRNCHR (qe_utils E) (drop k url) (of_nat (length url - k)) (CHR ''&'') = None" by (simp add: utils STRNCHR_first)
  have "length (drop k url) = length name + 1 + length val" unfolding d by simp
  then have e: "length url = k + length name + 1 + length val" by simp
  have "params_loop E url (length url) True k l h = Some (STATUS_NOT_ENOUGH_MEMORY, l, h(p \<mapsto> Unterminated w))"
    by (subst params_loop.simps) (simp only: Let_def amp option.case mk [folded e] bind.bind_lunit prod.case STATUS_FAILED_iff STATUS.distinct simp_thms if_True)
  then show ?thesis unfolding url_def [symmetric] run using l(2) by (auto simp: free_params_def)
qed

end

text \<open>
  C32: the canonical query of a URL. It is the list of the parameters, each with its value encoded, sorted
  by their bytes and joined. The strings that are made on the way are released again; with enough
  memory the call succeeds.
\<close>

theorem getCanonicalQueryParams_sorts:
  fixes E :: "('l, 'n) query_env" and h :: sheap
  assumes "query_list ops items node_at U space E"
    and "url_parts scheme host path (CHR ''?'' # join_amp (map raw_param ps))"
    and "ps \<noteq> []" "\<forall>p\<in>set ps. param_ok E p" and "length (join_amp (map canonical_param ps)) \<le> qe_maxUri E"
    and "length (url_of scheme host path (CHR ''?'' # join_amp (map raw_param ps))) \<le> qe_maxUri E"
    and "len0 = 0 \<or> unat len0 = length (url_of scheme host path (CHR ''?'' # join_amp (map raw_param ps)))"
  defines "query \<equiv> join_amp (sort_key (map code) (map canonical_param ps))"
  shows "\<exists>st q n h'. getCanonicalQueryParams E (Some (url_of scheme host path (CHR ''?'' # join_amp (map raw_param ps)))) len0 True True h =
      Some (st, q, n, h') \<and>
    (st = STATUS_SUCCESS \<longrightarrow> q = Some query \<and> n = of_nat (length query) \<and> h' = h) \<and>
    (memory_suffices E (card (dom h) + length ps) \<longrightarrow> st = STATUS_SUCCESS)"
  unfolding query_def by (rule query_list.canonical_query [OF assms(1-7)])

text \<open>
  A parameter whose value is empty, or has only characters that are escaped, is refused: the buffer
  for it has no room for the terminator. The buffer itself is not released.
\<close>

theorem escaped_value_refused:
  fixes E :: "('l, 'n) query_env" and h :: sheap
  assumes "query_list ops items node_at U space E"
    and "url_parts scheme host path (CHR ''?'' # raw_param (name, val))"
    and "CHR ''='' \<notin> set name" "CHR ''&'' \<notin> set (name @ val)" "length name + 3 * length val + 3 < qe_maxUri E"
    and "length (uri_encode val) = 3 * length val" "encodable (qe_signedChar E) val"
    and "length (url_of scheme host path (CHR ''?'' # raw_param (name, val))) \<le> qe_maxUri E"
    and "fst (qe_listCreate E) = STATUS_SUCCESS" "qe_malloc E h = Some p"
  shows "\<exists>w. getCanonicalQueryParams E (Some (url_of scheme host path (CHR ''?'' # raw_param (name, val)))) 0 True True h =
    Some (STATUS_NOT_ENOUGH_MEMORY, None, 0, h(p \<mapsto> Unterminated w))"
  by (rule query_list.escaped_value [OF assms])

subsection \<open>Witnesses\<close>

definition sample_query_env :: "(UINT64 list, nat) query_env" where
  "sample_query_env = \<lparr>qe_list = plain_list_ops, qe_listCreate = (STATUS_SUCCESS, Some []), qe_listClear = (\<lambda>l. l),
     qe_malloc = (\<lambda>h. small_calloc h [8, 16, 24]), qe_queryMemory = True, qe_maxUri = 10000, qe_signedChar = True, qe_utils = plain_utils\<rparr>"

interpretation sample_query: query_list plain_list_ops "\<lambda>l. l" "\<lambda>l n i. n = i \<and> i < length l" plain_utils plain_space sample_query_env
  by unfold_locales (auto simp: sample_query_env_def small_calloc_def plain_list_ops_def split: if_splits)

lemma small_calloc_room:
  assumes "card (dom h) < 3"
  shows "small_calloc h [8, 16, 24 :: UINT64] \<noteq> None"
proof
  assume "small_calloc h [8, 16, 24 :: UINT64] = None"
  then have "{8, 16, 24} \<subseteq> dom h" by (auto simp: small_calloc_def split: if_splits)
  then have "card {8, 16, 24 :: UINT64} \<le> card (dom h)" by (intro card_mono) auto
  then show False using assms by simp
qed

lemma sample_memory: "memory_suffices sample_query_env 3"
  using small_calloc_room by (auto simp: memory_suffices_def sample_query_env_def plain_list_ops_def)

theorem getCanonicalQueryParams_sorts_witness:
  "\<exists>h'. getCanonicalQueryParams sample_query_env (Some ''https://h/p?b=x y&a=1'') 0 True True (\<lambda>_. None) =
     Some (STATUS_SUCCESS, Some ''a=1&b=x%20y'', 11, h') \<and> h' = (\<lambda>_. None)"
proof -
  let ?ps = "[(''b'', ''x y''), (''a'', ''1'')]"
  have parts: "url_parts ''https'' ''h'' ''/p'' (CHR ''?'' # join_amp (map raw_param ?ps))" by code_simp
  have ok: "\<forall>p\<in>set ?ps. param_ok sample_query_env p" by code_simp
  have q: "join_amp (sort_key (map code) (map canonical_param ?ps)) = ''a=1&b=x%20y''" by code_simp
  have u: "url_of ''https'' ''h'' ''/p'' (CHR ''?'' # join_amp (map raw_param ?ps)) = ''https://h/p?b=x y&a=1''" by code_simp
  have fit: "length (join_amp (map canonical_param ?ps)) \<le> qe_maxUri sample_query_env"
    "length (url_of ''https'' ''h'' ''/p'' (CHR ''?'' # join_amp (map raw_param ?ps))) \<le> qe_maxUri sample_query_env" by code_simp+
  have m: "memory_suffices sample_query_env (card (dom (\<lambda>_. None)) + length ?ps)"
    using sample_memory unfolding memory_suffices_def by simp
  show ?thesis
    using getCanonicalQueryParams_sorts [OF sample_query.query_list_axioms parts _ ok fit, of 0 "\<lambda>_. None"] m
    unfolding q u by auto
qed

theorem escaped_value_refused_witness:
  "\<exists>w. getCanonicalQueryParams sample_query_env (Some ''https://h/p?a='') 0 True True (\<lambda>_. None) =
     Some (STATUS_NOT_ENOUGH_MEMORY, None, 0, [8 \<mapsto> Unterminated w])"
proof -
  have parts: "url_parts ''https'' ''h'' ''/p'' (CHR ''?'' # raw_param (''a'', ''''))" by code_simp
  have u: "url_of ''https'' ''h'' ''/p'' (CHR ''?'' # raw_param (''a'', '''')) = ''https://h/p?a=''" by code_simp
  have "length (url_of ''https'' ''h'' ''/p'' (CHR ''?'' # raw_param (''a'', ''''))) \<le> qe_maxUri sample_query_env" by code_simp
  moreover have "fst (qe_listCreate sample_query_env) = STATUS_SUCCESS" "qe_malloc sample_query_env (\<lambda>_. None) = Some 8"
    "length ''a'' + 3 * length '''' + 3 < qe_maxUri sample_query_env"
    by (simp_all add: sample_query_env_def small_calloc_def)
  moreover have "encodable (qe_signedChar sample_query_env) ''''" "length (uri_encode '''') = 3 * length ''''" by (simp_all add: encodable_def)
  ultimately show ?thesis
    using escaped_value_refused [OF sample_query.query_list_axioms parts, where p = 8 and h = "\<lambda>_. None"] unfolding u by auto
qed

theorem getRequestHost_host_witness:
  "\<exists>i j. getRequestHost (Some ''https://h.a:443/p'') True = (STATUS_SUCCESS, Some i, Some j) \<and> take (j - i) (drop i ''https://h.a:443/p'') = ''h.a''"
  using getRequestHost_host [of "''https''" "''h.a''" "'':443/p''"] by auto

theorem getCanonicalUri_path_witness:
  "getCanonicalUri plain_utils (Some ''https://h'') 0 True = (STATUS_SUCCESS, URI_NULL, Some 9, False)"
proof -
  have parts: "url_parts ''https'' ''h'' '''' ''''" by code_simp
  have u: "url_of ''https'' ''h'' '''' '''' = ''https://h''" by code_simp
  show ?thesis using getCanonicalUri_path [OF plain.platform_utils_axioms parts, of 0] unfolding u by simp
qed

subsection \<open>Queries that are too long\<close>

text \<open>
  The room that is left is compared with every single parameter but never reduced: parameters that are
  together longer than the buffer are written beyond its end.
\<close>

lemma join_iwalk_overflow:
  assumes "map (param_string h) xs = map Some ss" "\<forall>s\<in>set ss. length s + 1 < mx" "length (js_out s @ joined (js_first s) ss) > mx"
  shows "\<exists>s'. items_walk (\<lambda>_. join_step mx h) i xs s = (STATUS_SUCCESS, s') \<and> (js_undefined s' \<or> length (js_out s') > mx)"
  using assms
proof (induction xs arbitrary: i s ss)
  case Nil
  then show ?case by (auto simp: joined_def split: if_splits)
next
  case (Cons x xs)
  obtain w ws where ss: "ss = w # ws" "param_string h x = Some w" "map (param_string h) xs = map Some ws" using Cons(2) by (cases ss) auto
  define s1 where "s1 = s\<lparr>js_out := js_out s @ (if js_first s then [] else [CHR ''&'']) @ w, js_first := False\<rparr>"
  have w: "length w + 1 < mx" using Cons(3) ss(1) by simp
  show ?case
  proof (cases "length (js_out s1) > mx + 1")
    case True
    then have "join_step mx h x s = Inl (STATUS_SUCCESS, s\<lparr>js_undefined := True\<rparr>)" using ss(2) w by (simp add: join_step_def Let_def s1_def)
    then show ?thesis by simp
  next
    case False
    then have "join_step mx h x s = Inr s1" using ss(2) w by (simp add: join_step_def Let_def s1_def)
    moreover have "\<exists>s'. items_walk (\<lambda>_. join_step mx h) (Suc i) xs s1 = (STATUS_SUCCESS, s') \<and> (js_undefined s' \<or> length (js_out s') > mx)"
      by (rule Cons(1)) (use ss Cons(3,4) in \<open>auto simp: s1_def joined_Cons\<close>)
    ultimately show ?thesis by simp
  qed
qed

context query_list
begin

lemma join_params_overflow:
  assumes "params_inv items h0 l h ss" "\<forall>s\<in>set ss. length s + 1 < qe_maxUri E" "length (join_amp ss) > qe_maxUri E" "qe_queryMemory E"
  shows "join_params E l h = None"
proof -
  obtain st0 pn where hd0: "singleListGetHeadNode ops l = (st0, pn)" by fastforce
  have "map (param_string h) (items l) = map Some ss" using assms(1) by (simp add: params_inv_def)
  then obtain s' where "items_walk (\<lambda>_. join_step (qe_maxUri E) h) 0 (items l) \<lparr>js_out = '''', js_first = True, js_undefined = False\<rparr> = (STATUS_SUCCESS, s')"
      "js_undefined s' \<or> length (js_out s') > qe_maxUri E"
    using join_iwalk_overflow [of h "items l" ss "qe_maxUri E" "\<lparr>js_out = '''', js_first = True, js_undefined = False\<rparr>" 0] assms(2,3)
    by (auto simp: joined_def)
  moreover note walk_items [OF hd0, of "join_step (qe_maxUri E) h" "\<lparr>js_out = '''', js_first = True, js_undefined = False\<rparr>"]
  ultimately show ?thesis using hd0 assms(4) by (auto simp: join_params_def list_ops)
qed

end

lemma query_overflow:
  assumes "query_list ops items node_at U space E" and "params_inv items h0 l h ss" "\<forall>s\<in>set ss. length s + 1 < qe_maxUri E"
    and "length (join_amp ss) > qe_maxUri E" "qe_queryMemory E"
  shows "join_params E l h = None"
  by (rule query_list.join_params_overflow [OF assms])

end
