(* ===== verification/Aws_V4_Signer.thy ===== *)
theory Aws_V4_Signer
  imports Request_Urls Credential_Providers
begin

text \<open>
  The AWS signature of a request (\<open>Common/AwsV4Signer.c\<close>): the canonical form of the request, the string
  to sign, the chain of keyed hashes, and the header or query parameter that carries the signature.

  A function that fills a buffer of its caller takes whether there is a buffer and the variable with
  its size, and gives the status, what it stores and the new content of the variable. The
  cryptographic library is a parameter: \<open>se_HMAC\<close>, which may fail, and \<open>se_SHA256\<close>; whether the
  allocations of the working buffers succeed is a parameter, too. \<open>None\<close> as a result is undefined
  behaviour.
\<close>

definition AWS_SIG_V4_HEADER_AMZ_DATE :: string where "AWS_SIG_V4_HEADER_AMZ_DATE = ''X-Amz-Date''"
definition AWS_SIG_V4_HEADER_AMZ_SECURITY_TOKEN :: string where "AWS_SIG_V4_HEADER_AMZ_SECURITY_TOKEN = ''x-amz-security-token''"
definition AWS_SIG_V4_HEADER_AUTH :: string where "AWS_SIG_V4_HEADER_AUTH = ''Authorization''"
definition AWS_SIG_V4_HEADER_HOST :: string where "AWS_SIG_V4_HEADER_HOST = ''host''"
definition AWS_SIG_V4_ALGORITHM :: string where "AWS_SIG_V4_ALGORITHM = ''AWS4-HMAC-SHA256''"
definition AWS_SIG_V4_SIGNATURE_END :: string where "AWS_SIG_V4_SIGNATURE_END = ''aws4_request''"
definition AWS_SIG_V4_SIGNATURE_START :: string where "AWS_SIG_V4_SIGNATURE_START = ''AWS4''"
definition AWS_SIG_V4_CONTENT_TYPE_NAME :: string where "AWS_SIG_V4_CONTENT_TYPE_NAME = ''content-type''"
definition AWS_SIG_V4_CONTENT_LENGTH_NAME :: string where "AWS_SIG_V4_CONTENT_LENGTH_NAME = ''content-length''"
definition AWS_SIG_V4_CONTENT_TYPE_VALUE :: string where "AWS_SIG_V4_CONTENT_TYPE_VALUE = ''application/json''"
definition KINESIS_VIDEO_SERVICE_NAME :: string where "KINESIS_VIDEO_SERVICE_NAME = ''kinesisvideo''"
definition SIGNATURE_DATE_TIME_STRING_LEN :: UINT32 where "SIGNATURE_DATE_TIME_STRING_LEN = 17"
definition SIGNATURE_DATE_STRING_LEN :: nat where "SIGNATURE_DATE_STRING_LEN = 8"
definition SCRATCH_BUFFER_EXTRA :: UINT32 where "SCRATCH_BUFFER_EXTRA = 10000"
definition MAX_REQUEST_VERB_STRING_LEN :: UINT32 where "MAX_REQUEST_VERB_STRING_LEN = 4"
definition SHA256_DIGEST_LENGTH :: UINT32 where "SHA256_DIGEST_LENGTH = 32"
definition KVS_MAX_HMAC_SIZE :: UINT32 where "KVS_MAX_HMAC_SIZE = 64"

record ('l, 'n) signer_env =
  se_request :: "('l, 'n) request_env"
  se_query :: "('l, 'n) query_env"
  se_HMAC :: "string \<Rightarrow> string \<Rightarrow> string option"
  se_SHA256 :: "string \<Rightarrow> string"
  se_maxAuth :: UINT32
  se_scratchMemory :: bool
  se_scopeMemory :: bool
  se_signedHeadersMemory :: bool
  se_signedStrMemory :: bool
  se_credsMemory :: bool

abbreviation se_utils :: "('l, 'n) signer_env \<Rightarrow> pic_utils" where "se_utils E \<equiv> qe_utils (se_query E)"

text \<open>\<open>SNPRINTF\<close>: the length of the whole text, and the part of it that is stored.\<close>

definition SNPRINTF :: "UINT32 \<Rightarrow> string \<Rightarrow> UINT32 \<times> string" where
  "SNPRINTF n s = (of_nat (length s), take (unat n - 1) s)"

text \<open>The conversion \<open>%.*s\<close>.\<close>

definition precision :: "nat \<Rightarrow> string \<Rightarrow> string" where
  "precision n s = take n s"

abbreviation newline :: char where "newline \<equiv> CHR 0x0A"

definition getRequestVerbString :: "HTTP_REQUEST_VERB \<Rightarrow> PCHAR" where
  "getRequestVerbString verb = (case verb of
     HTTP_REQUEST_VERB_PUT \<Rightarrow> Some ''PUT''
   | HTTP_REQUEST_VERB_GET \<Rightarrow> Some ''GET''
   | HTTP_REQUEST_VERB_POST \<Rightarrow> Some ''POST'')"

subsection \<open>Headers\<close>

definition IS_CANONICAL_HEADER_NAME :: "string \<Rightarrow> bool" where
  "IS_CANONICAL_HEADER_NAME h \<longleftrightarrow> 0 \<noteq> STRCMP h AWS_SIG_V4_HEADER_AMZ_SECURITY_TOKEN \<and> 0 \<noteq> STRCMP h AWS_SIG_V4_CONTENT_TYPE_NAME \<and>
     0 \<noteq> STRCMP h AWS_SIG_V4_CONTENT_LENGTH_NAME \<and> 0 \<noteq> STRCMP h AWS_SIG_V4_HEADER_AUTH"

record pack_state =
  pk_overallLen :: UINT32
  pk_out :: string
  pk_appended :: bool
  pk_undefined :: bool

definition canonical_step :: "pic_utils \<Rightarrow> hheap \<Rightarrow> bool \<Rightarrow> UINT32 \<Rightarrow> UINT64 \<Rightarrow> pack_state \<Rightarrow> (STATUS \<times> pack_state) + pack_state" where
  "canonical_step U hh pCanonicalHeaders specifiedLen item s = (case hh item of
     None \<Rightarrow> Inl (STATUS_SUCCESS, s\<lparr>pk_undefined := True\<rparr>)
   | Some h \<Rightarrow>
       if \<not> IS_CANONICAL_HEADER_NAME (rh_pName h) then Inr s
       else (case TRIMSTRALL U (rh_pValue h) (rh_valueLen h) of (st, pStart, pEnd) \<Rightarrow>
         if STATUS_FAILED st then Inl (st, s)
         else
           let valueLen = of_nat (pEnd - pStart);
               overallLen = pk_overallLen s + (rh_nameLen h + 1 + valueLen + 1);
               s1 = s\<lparr>pk_overallLen := overallLen\<rparr>
           in if \<not> pCanonicalHeaders then Inr s1
              else if \<not> overallLen \<le> specifiedLen then Inl (STATUS_BUFFER_TOO_SMALL, s1)
              else Inr (s1\<lparr>pk_out := pk_out s @ TOLOWERSTR U (rh_pName h) (rh_nameLen h) @ '':'' @
                take (unat valueLen) (drop pStart (rh_pValue h)) @ [newline]\<rparr>)))"

definition signed_step :: "pic_utils \<Rightarrow> hheap \<Rightarrow> bool \<Rightarrow> UINT32 \<Rightarrow> UINT64 \<Rightarrow> pack_state \<Rightarrow> (STATUS \<times> pack_state) + pack_state" where
  "signed_step U hh pSignedHeaders specifiedLen item s = (case hh item of
     None \<Rightarrow> Inl (STATUS_SUCCESS, s\<lparr>pk_undefined := True\<rparr>)
   | Some h \<Rightarrow>
       if \<not> IS_CANONICAL_HEADER_NAME (rh_pName h) then Inr s
       else
         let overallLen = pk_overallLen s + rh_nameLen h + (if pk_appended s then 1 else 0);
             s1 = s\<lparr>pk_overallLen := overallLen\<rparr>
         in if \<not> pSignedHeaders then Inr (s1\<lparr>pk_appended := True\<rparr>)
            else if \<not> overallLen \<le> specifiedLen then Inl (STATUS_BUFFER_TOO_SMALL, s1)
            else Inr (s1\<lparr>pk_out := pk_out s @ (if pk_appended s then '';'' else '''') @ TOLOWERSTR U (rh_pName h) (rh_nameLen h),
                         pk_appended := True\<rparr>))"

text \<open>The two functions that go through the headers differ in what they do with one header.\<close>

definition pack_headers ::
    "('l, 'n) signer_env \<Rightarrow> (UINT32 \<Rightarrow> UINT64 \<Rightarrow> pack_state \<Rightarrow> (STATUS \<times> pack_state) + pack_state) \<Rightarrow> 'l RequestInfo option
      \<Rightarrow> UINT32 option \<Rightarrow> (STATUS \<times> string \<times> UINT32 option) option" where
  "pack_headers E step pRequestInfo pLen = (case (pRequestInfo, pLen) of
     (Some r, Some specifiedLen) \<Rightarrow> do {
       l \<leftarrow> ri_pRequestHeaders r;
       (case singleListGetHeadNode (re_list (se_request E)) l of (st0, pCurNode) \<Rightarrow>
         if STATUS_FAILED st0 then Some (st0, '''', Some 0)
         else do {
           (st1, s) \<leftarrow> list_walk (re_list (se_request E)) l (\<lambda>_. step specifiedLen) pCurNode
             \<lparr>pk_overallLen = 0, pk_out = '''', pk_appended = False, pk_undefined = False\<rparr>;
           if pk_undefined s then None else Some (st1, pk_out s, Some (pk_overallLen s))
         })
     }
   | _ \<Rightarrow> Some (STATUS_NULL_ARG, '''', map_option (\<lambda>_. 0) pLen))"

definition generateCanonicalHeaders ::
    "('l, 'n) signer_env \<Rightarrow> hheap \<Rightarrow> 'l RequestInfo option \<Rightarrow> bool \<Rightarrow> UINT32 option \<Rightarrow> (STATUS \<times> string \<times> UINT32 option) option" where
  "generateCanonicalHeaders E hh pRequestInfo pCanonicalHeaders pCanonicalHeadersLen =
     pack_headers E (canonical_step (se_utils E) hh pCanonicalHeaders) pRequestInfo pCanonicalHeadersLen"

definition generateSignedHeaders ::
    "('l, 'n) signer_env \<Rightarrow> hheap \<Rightarrow> 'l RequestInfo option \<Rightarrow> bool \<Rightarrow> UINT32 option \<Rightarrow> (STATUS \<times> string \<times> UINT32 option) option" where
  "generateSignedHeaders E hh pRequestInfo pSignedHeaders pSignedHeadersLen =
     pack_headers E (signed_step (se_utils E) hh pSignedHeaders) pRequestInfo pSignedHeadersLen"

subsection \<open>Date, scope and hashes\<close>

definition two_digits :: "int \<Rightarrow> string" where
  "two_digits n = [char_of (48 + nat n div 10), char_of (48 + nat n mod 10)]"

text \<open>\<open>STRFTIME\<close> with the format \<open>%Y%m%dT%H%M%SZ\<close>; a text that does not fit the buffer gives the size 0.\<close>

definition signature_date_time :: "tm \<Rightarrow> string" where
  "signature_date_time t = decimal (nat (tm_year t + 1900)) @ two_digits (tm_mon t + 1) @ two_digits (tm_mday t) @ ''T'' @
     two_digits (tm_hour t) @ two_digits (tm_min t) @ two_digits (tm_sec t) @ ''Z''"

definition generateSignatureDateTime :: "UINT64 \<Rightarrow> bool \<Rightarrow> STATUS \<times> PCHAR" where
  "generateSignatureDateTime currentTime pDateTimeStr =
     (if \<not> pDateTimeStr then (STATUS_NULL_ARG, None)
      else
        let timeT = uint (currentTime div HUNDREDS_OF_NANOS_IN_A_SECOND);
            str = signature_date_time (gmtime timeT);
            retSize = (if length str < unat SIGNATURE_DATE_TIME_STRING_LEN then length str else 0)
        in if \<not> retSize > 0 then (STATUS_BUFFER_TOO_SMALL, None) else (STATUS_SUCCESS, Some str))"

definition scope_string :: "string \<Rightarrow> string \<Rightarrow> string" where
  "scope_string dateTimeStr region = precision SIGNATURE_DATE_STRING_LEN dateTimeStr @ ''/'' @ region @ ''/'' @
     KINESIS_VIDEO_SERVICE_NAME @ ''/'' @ AWS_SIG_V4_SIGNATURE_END"

definition generateCredentialScope ::
    "'l RequestInfo option \<Rightarrow> PCHAR \<Rightarrow> bool \<Rightarrow> UINT32 option \<Rightarrow> STATUS \<times> string \<times> UINT32 option" where
  "generateCredentialScope pRequestInfo dateTimeStr pScope pScopeLen = (case (pRequestInfo, dateTimeStr, pScopeLen) of
     (Some r, Some date, Some len) \<Rightarrow>
       let scopeLen = SIGNATURE_DATE_TIME_STRING_LEN + 1 + of_nat MAX_REGION_NAME_LEN + 1 + of_nat (length KINESIS_VIDEO_SERVICE_NAME) + 1 +
             of_nat (length AWS_SIG_V4_SIGNATURE_END) + 1
       in if \<not> pScope then (STATUS_SUCCESS, '''', Some scopeLen)
          else (case SNPRINTF len (scope_string date (ri_region r)) of (scopeLen, out) \<Rightarrow>
            if \<not> (scopeLen > 0 \<and> scopeLen \<le> len) then (STATUS_BUFFER_TOO_SMALL, out, Some scopeLen)
            else (STATUS_SUCCESS, out, Some scopeLen))
   | _ \<Rightarrow> (STATUS_NULL_ARG, '''', map_option (\<lambda>_. 0) pScopeLen))"

definition generateEncodedCredentials ::
    "cheap \<Rightarrow> 'l RequestInfo option \<Rightarrow> PCHAR \<Rightarrow> bool \<Rightarrow> UINT32 option \<Rightarrow> (STATUS \<times> string \<times> UINT32 option) option" where
  "generateEncodedCredentials ch pRequestInfo dateTimeStr pCreds pCredsLen = (case (pRequestInfo, dateTimeStr, pCredsLen) of
     (Some r, Some date, Some len) \<Rightarrow>
       let credsLen = of_nat MAX_ACCESS_KEY_LEN + 1 + SIGNATURE_DATE_TIME_STRING_LEN + 1 + of_nat MAX_REGION_NAME_LEN + 1 +
             of_nat (length KINESIS_VIDEO_SERVICE_NAME) + 1 + of_nat (length AWS_SIG_V4_SIGNATURE_END) + 1
       in if \<not> pCreds then Some (STATUS_SUCCESS, '''', Some credsLen)
          else do {
            c \<leftarrow> get_credentials ch (ri_pAwsCredentials r);
            accessKeyId \<leftarrow> cstring_at c (ac_accessKeyId c);
            (case SNPRINTF len (precision (unat (ac_accessKeyIdLen c)) accessKeyId @ ''/'' @ scope_string date (ri_region r)) of (credsLen, out) \<Rightarrow>
              if \<not> (credsLen > 0 \<and> credsLen \<le> len) then Some (STATUS_BUFFER_TOO_SMALL, out, Some credsLen)
              else Some (STATUS_SUCCESS, out, Some credsLen))
          }
   | _ \<Rightarrow> Some (STATUS_NULL_ARG, '''', map_option (\<lambda>_. 0) pCredsLen))"

definition generateRequestHmac :: "('l, 'n) signer_env \<Rightarrow> string \<Rightarrow> string \<Rightarrow> bool \<Rightarrow> STATUS \<times> string" where
  "generateRequestHmac E key message pHmacLen =
     (if \<not> pHmacLen then (STATUS_NULL_ARG, '''')
      else (case se_HMAC E key message of None \<Rightarrow> (STATUS_HMAC_GENERATION_ERROR, '''') | Some hmac \<Rightarrow> (STATUS_SUCCESS, hmac)))"

definition hexEncodedSha256 :: "('l, 'n) signer_env \<Rightarrow> PCHAR \<Rightarrow> bool \<Rightarrow> STATUS \<times> string" where
  "hexEncodedSha256 E pMessage pEncodedHash = (case pMessage of
     None \<Rightarrow> (STATUS_NULL_ARG, '''')
   | Some message \<Rightarrow>
       if \<not> pEncodedHash then (STATUS_NULL_ARG, '''')
       else hexEncodeCase (se_utils E) (se_SHA256 E message) (SHA256_DIGEST_LENGTH * 2 + 1) False)"

subsection \<open>The canonical request\<close>

text \<open>
  One piece of the canonical request: the check that it fits with its line end, and the copy. The
  state is the text so far, whose length is \<open>curLen\<close>.
\<close>

definition pack_line :: "UINT32 \<Rightarrow> UINT32 \<Rightarrow> string \<Rightarrow> string \<Rightarrow> STATUS + UINT32 \<times> string" where
  "pack_line requestLen curLen line out =
     (let len = of_nat (length line) in
      if \<not> curLen + len + 1 \<le> requestLen then Inl STATUS_BUFFER_TOO_SMALL
      else Inr (curLen + (len + 1), out @ line @ [newline]))"

definition canonical_request_size :: "('l, 'n) signer_env \<Rightarrow> UINT32 \<Rightarrow> UINT32" where
  "canonical_request_size E itemCount = MAX_REQUEST_VERB_STRING_LEN + 1 + of_nat (qe_maxUri (se_query E)) + 1 + of_nat (qe_maxUri (se_query E)) + 1 +
     itemCount * (of_nat MAX_REQUEST_HEADER_NAME_LEN + 1 + of_nat MAX_REQUEST_HEADER_VALUE_LEN + 1) + itemCount * (of_nat MAX_REQUEST_HEADER_NAME_LEN + 1) +
     SHA256_DIGEST_LENGTH * 2 + 1"

text \<open>
  The canonical URI that is copied: a start that is NULL makes the length of the copy, and the copy,
  undefined.
\<close>

definition uri_text :: "string \<Rightarrow> uri_start \<Rightarrow> nat \<Rightarrow> string option" where
  "uri_text url pUriStart pUriEnd = (case pUriStart of
     URI_NULL \<Rightarrow> None
   | URI_DEFAULT \<Rightarrow> Some DEFAULT_CANONICAL_URI_STRING
   | URI_AT i \<Rightarrow> Some (take (pUriEnd - i) (drop i url)))"

text \<open>
  The first three lines: the verb, the URI and the query. The result of a piece is its status, or the
  length so far and the text.
\<close>

definition request_lines :: "('l, 'n) signer_env \<Rightarrow> 'l RequestInfo \<Rightarrow> UINT32 \<Rightarrow> (STATUS + UINT32 \<times> string) option" where
  "request_lines E r requestLen = (case getRequestVerbString (ri_verb r) of
     None \<Rightarrow> Some (Inl STATUS_INVALID_ARG)
   | Some verb \<Rightarrow> (case pack_line requestLen 0 verb '''' of
       Inl st \<Rightarrow> Some (Inl st)
     | Inr (curLen1, out1) \<Rightarrow>
         (case getCanonicalUri (se_utils E) (Some (ri_url r)) (of_nat (length (ri_url r))) True of (st, pUriStart, pEnd, _) \<Rightarrow>
           if STATUS_FAILED st then Some (Inl st)
           else do {
             pUriEnd \<leftarrow> pEnd;
             uri \<leftarrow> uri_text (ri_url r) pUriStart pUriEnd;
             (case pack_line requestLen curLen1 uri out1 of
                Inl st \<Rightarrow> Some (Inl st)
              | Inr (curLen2, out2) \<Rightarrow>
                  let pQueryStart = (if pUriEnd = length (ri_url r) then pUriEnd else pUriEnd + 1) in
                  Some (pack_line requestLen curLen2 (drop pQueryStart (ri_url r)) out2))
           })))"

text \<open>A piece that another function stores behind the text so far, with its line end.\<close>

definition append_headers :: "UINT32 \<Rightarrow> UINT32 \<times> string \<Rightarrow> (UINT32 \<Rightarrow> (STATUS \<times> string \<times> UINT32 option) option) \<Rightarrow> (STATUS + UINT32 \<times> string) option" where
  "append_headers requestLen cur generate = (case cur of (curLen, out) \<Rightarrow> do {
     (st, headers, pLen) \<leftarrow> generate (requestLen - curLen);
     if STATUS_FAILED st then Some (Inl st)
     else do {
       len \<leftarrow> pLen;
       if \<not> curLen + len + 1 \<le> requestLen then Some (Inl STATUS_BUFFER_TOO_SMALL)
       else Some (Inr (curLen + (len + 1), out @ headers @ [newline]))
     }
   })"

definition generateCanonicalRequestString ::
    "('l, 'n) signer_env \<Rightarrow> hheap \<Rightarrow> 'l RequestInfo option \<Rightarrow> bool \<Rightarrow> UINT32 option \<Rightarrow> (STATUS \<times> string \<times> UINT32 option) option" where
  "generateCanonicalRequestString E hh pRequestInfo pRequestStr pRequestLen = (case (pRequestInfo, pRequestLen) of
     (Some r, Some requestLen) \<Rightarrow> do {
       l \<leftarrow> ri_pRequestHeaders r;
       (case singleListGetNodeCount (re_list (se_request E)) l of (st0, itemCount) \<Rightarrow>
         if STATUS_FAILED st0 then Some (st0, '''', Some 0)
         else if \<not> pRequestStr then Some (STATUS_SUCCESS, '''', Some (canonical_request_size E (of_nat itemCount)))
         else do {
           lines \<leftarrow> request_lines E r requestLen;
           case lines of Inl st \<Rightarrow> Some (st, '''', Some requestLen) | Inr cur1 \<Rightarrow> do {
           headers \<leftarrow> append_headers requestLen cur1 (\<lambda>len. generateCanonicalHeaders E hh pRequestInfo True (Some len));
           case headers of Inl st \<Rightarrow> Some (st, '''', Some requestLen) | Inr cur2 \<Rightarrow> do {
           signed \<leftarrow> append_headers requestLen cur2 (\<lambda>len. generateSignedHeaders E hh pRequestInfo True (Some len));
           case signed of Inl st \<Rightarrow> Some (st, '''', Some requestLen) | Inr (curLen, out) \<Rightarrow>
             let len = SHA256_DIGEST_LENGTH * 2 in
             if \<not> curLen + len \<le> requestLen then Some (STATUS_BUFFER_TOO_SMALL, out, Some requestLen)
             else (case hexEncodedSha256 E (Some (case ri_body r of None \<Rightarrow> '''' | Some body \<Rightarrow> body)) True of (st, hash) \<Rightarrow>
               if STATUS_FAILED st then Some (st, out, Some requestLen)
               else Some (STATUS_SUCCESS, out @ hash, Some (curLen + len)))
           }}})
     }
   | _ \<Rightarrow> Some (STATUS_NULL_ARG, '''', map_option (\<lambda>_. 0) pRequestLen))"

subsection \<open>The signature\<close>

text \<open>The chain of keyed hashes; it ends with the first that fails.\<close>

fun hmac_chain :: "('l, 'n) signer_env \<Rightarrow> string \<Rightarrow> string list \<Rightarrow> STATUS \<times> string" where
  "hmac_chain E key [] = (STATUS_SUCCESS, key)"
| "hmac_chain E key (message # messages) = (case generateRequestHmac E key message True of (st, hmac) \<Rightarrow>
     if STATUS_FAILED st then (st, '''') else hmac_chain E hmac messages)"

text \<open>The bytes that \<open>MEMCPY\<close> reads at a string pointer of the credentials.\<close>

definition cred_bytes :: "AwsCredentials \<Rightarrow> nat option \<Rightarrow> nat \<Rightarrow> string option" where
  "cred_bytes c ptr n = (case ptr of None \<Rightarrow> None
     | Some off \<Rightarrow> if off + n \<le> length (ac_data c) then Some (take n (drop off (ac_data c))) else None)"

definition signed_string :: "string \<Rightarrow> string \<Rightarrow> string \<Rightarrow> string" where
  "signed_string date scope requestHexSha256 = AWS_SIG_V4_ALGORITHM @ [newline] @ date @ [newline] @ scope @ [newline] @ requestHexSha256"

definition auth_header :: "string \<Rightarrow> string \<Rightarrow> string \<Rightarrow> string \<Rightarrow> string" where
  "auth_header accessKeyId scope signedHeaders signature = AWS_SIG_V4_ALGORITHM @ '' Credential='' @ accessKeyId @ ''/'' @ scope @
     '', SignedHeaders='' @ signedHeaders @ '', Signature='' @ signature"

definition signature_param :: "string \<Rightarrow> string" where
  "signature_param signature = ''&X-Amz-Signature='' @ signature"

text \<open>
  The part behind the canonical request: its hash, the string to sign, the chain, and the text that
  carries the signature in a scratch buffer of the given size.
\<close>

definition sign_request ::
    "('l, 'n) signer_env \<Rightarrow> AwsCredentials \<Rightarrow> 'l RequestInfo \<Rightarrow> string \<Rightarrow> bool \<Rightarrow> UINT32 \<Rightarrow> string \<Rightarrow> string \<Rightarrow> UINT32 \<Rightarrow> string \<Rightarrow> UINT32
      \<Rightarrow> (STATUS \<times> PCHAR \<times> UINT32) option" where
  "sign_request E c r date authHeaders scratchLen requestHexSha256 scope scopeLen signedHeaders signedHeadersLen =
     (let signedStrLen = of_nat (length AWS_SIG_V4_ALGORITHM) + 1 + SIGNATURE_DATE_TIME_STRING_LEN + 1 + scopeLen + 1 +
            (2 * SHA256_DIGEST_LENGTH + 1) + 1
      in if \<not> se_signedStrMemory E then Some (STATUS_NOT_ENOUGH_MEMORY, None, 0)
         else (case SNPRINTF signedStrLen (signed_string date scope requestHexSha256) of (curSize, signedStr) \<Rightarrow>
           if \<not> (curSize > 0 \<and> curSize < signedStrLen) then Some (STATUS_BUFFER_TOO_SMALL, None, 0)
           else if unat scratchLen < length AWS_SIG_V4_SIGNATURE_START + unat (ac_secretKeyLen c) then None
           else do {
             secret \<leftarrow> cred_bytes c (ac_secretKey c) (unat (ac_secretKeyLen c));
             (case hmac_chain E (AWS_SIG_V4_SIGNATURE_START @ secret)
                 [take SIGNATURE_DATE_STRING_LEN date, ri_region r, KINESIS_VIDEO_SERVICE_NAME, AWS_SIG_V4_SIGNATURE_END, signedStr] of (st, hmac) \<Rightarrow>
               if STATUS_FAILED st then Some (st, None, 0)
               else (case hexEncodeCase (se_utils E) hmac (KVS_MAX_HMAC_SIZE * 2 + 1) False of (st, hexHmac) \<Rightarrow>
                 if STATUS_FAILED st then Some (st, None, 0)
                 else do {
                   accessKeyId \<leftarrow> cstring_at c (ac_accessKeyId c);
                   (case SNPRINTF scratchLen (if authHeaders
                        then auth_header (precision (unat (ac_accessKeyIdLen c)) accessKeyId) scope (precision (unat signedHeadersLen) signedHeaders) hexHmac
                        else signature_param hexHmac) of (curSize, out) \<Rightarrow>
                     if \<not> (curSize > 0 \<and> curSize < scratchLen) then Some (STATUS_BUFFER_TOO_SMALL, None, 0)
                     else Some (STATUS_SUCCESS, Some out, curSize))
                 }))
           }))"

definition generateAwsSigV4Signature ::
    "('l, 'n) signer_env \<Rightarrow> cheap \<Rightarrow> hheap \<Rightarrow> 'l RequestInfo option \<Rightarrow> PCHAR \<Rightarrow> bool \<Rightarrow> bool \<Rightarrow> (STATUS \<times> PCHAR \<times> UINT32) option" where
  "generateAwsSigV4Signature E ch hh pRequestInfo dateTimeStr authHeaders outputs = (case pRequestInfo of
     None \<Rightarrow> Some (STATUS_NULL_ARG, None, 0)
   | Some r \<Rightarrow>
       if ri_pAwsCredentials r = 0 \<or> \<not> outputs then Some (STATUS_NULL_ARG, None, 0)
       else do {
         c \<leftarrow> get_credentials ch (ri_pAwsCredentials r);
         (st1, _, pRequestLen) \<leftarrow> generateCanonicalRequestString E hh pRequestInfo False (Some 0);
         if STATUS_FAILED st1 then Some (st1, None, 0) else do {
         requestLen \<leftarrow> pRequestLen;
         (case generateCredentialScope pRequestInfo dateTimeStr False (Some 0) of (st2, _, pScopeLen) \<Rightarrow>
         if STATUS_FAILED st2 then Some (st2, None, 0) else do {
         scopeLen \<leftarrow> pScopeLen;
         (st3, _, pSignedHeadersLen) \<leftarrow> generateSignedHeaders E hh pRequestInfo False (Some 0);
         if STATUS_FAILED st3 then Some (st3, None, 0) else do {
         signedHeadersLen \<leftarrow> pSignedHeadersLen;
         let scratchLen = max requestLen scopeLen + se_maxAuth E + SCRATCH_BUFFER_EXTRA;
         if \<not> se_scratchMemory E then Some (STATUS_NOT_ENOUGH_MEMORY, None, 0) else do {
         (st4, request, pRequestLen') \<leftarrow> generateCanonicalRequestString E hh pRequestInfo True (Some requestLen);
         if STATUS_FAILED st4 then Some (st4, None, 0) else
         (case hexEncodedSha256 E (Some request) True of (st5, requestHexSha256) \<Rightarrow>
         if STATUS_FAILED st5 then Some (st5, None, 0)
         else if \<not> se_scopeMemory E then Some (STATUS_NOT_ENOUGH_MEMORY, None, 0) else
         (case generateCredentialScope pRequestInfo dateTimeStr True (Some scopeLen) of (st6, scope, pScopeLen') \<Rightarrow>
         if STATUS_FAILED st6 then Some (st6, None, 0)
         else if \<not> se_signedHeadersMemory E then Some (STATUS_NOT_ENOUGH_MEMORY, None, 0) else do {
         (st7, signedHeaders, pSignedHeadersLen') \<leftarrow> generateSignedHeaders E hh pRequestInfo True (Some signedHeadersLen);
         if STATUS_FAILED st7 then Some (st7, None, 0) else do {
         scopeLen' \<leftarrow> pScopeLen';
         signedHeadersLen' \<leftarrow> pSignedHeadersLen';
         date \<leftarrow> dateTimeStr;
         sign_request E c r date authHeaders scratchLen requestHexSha256 scope scopeLen' signedHeaders signedHeadersLen'
         }}))}}})}})"

subsection \<open>Signing a request\<close>

text \<open>Several headers, one after the other, until one cannot be set.\<close>

fun set_headers ::
    "('l, 'n) signer_env \<Rightarrow> 'l RequestInfo option \<Rightarrow> hheap \<Rightarrow> (string \<times> PCHAR \<times> UINT32) list \<Rightarrow> (STATUS \<times> 'l RequestInfo option \<times> hheap) option" where
  "set_headers E pr hh [] = Some (STATUS_SUCCESS, pr, hh)"
| "set_headers E pr hh ((name, val, len) # hs) = do {
     (st, pr1, hh1) \<leftarrow> setRequestHeader (se_request E) pr (Some name) 0 val len hh;
     if STATUS_FAILED st then Some (st, pr1, hh1) else set_headers E pr1 hh1 hs
   }"

text \<open>The headers that are set before the signature is computed.\<close>

definition set_request_headers ::
    "('l, 'n) signer_env \<Rightarrow> 'l RequestInfo \<Rightarrow> PCHAR \<Rightarrow> nat \<Rightarrow> nat \<Rightarrow> hheap \<Rightarrow> (STATUS \<times> 'l RequestInfo option \<times> hheap) option" where
  "set_request_headers E r dateTimeStr hostStart hostEnd hh = do {
     (st1, pr1, hh1) \<leftarrow> set_headers E (Some r) hh
       [(AWS_SIG_V4_HEADER_HOST, Some (drop hostStart (ri_url r)), of_nat (hostEnd - hostStart)),
        (AWS_SIG_V4_HEADER_AMZ_DATE, dateTimeStr, 0),
        (AWS_SIG_V4_CONTENT_TYPE_NAME, Some AWS_SIG_V4_CONTENT_TYPE_VALUE, 0)];
     if STATUS_FAILED st1 then Some (st1, pr1, hh1) else
     (case ri_body r of
        None \<Rightarrow> Some (STATUS_SUCCESS, pr1, hh1)
      | Some _ \<Rightarrow> (case ULTOSTR (se_utils E) (ucast (ri_bodySize r)) 16 10 of (st2, contentLenBuf) \<Rightarrow>
          if STATUS_FAILED st2 then Some (st2, pr1, hh1)
          else set_headers E pr1 hh1 [(''content-length'', Some contentLenBuf, 0)]))
   }"

definition signAwsRequestInfo ::
    "('l, 'n) signer_env \<Rightarrow> cheap \<Rightarrow> 'l RequestInfo option \<Rightarrow> hheap \<Rightarrow> (STATUS \<times> 'l RequestInfo option \<times> hheap) option" where
  "signAwsRequestInfo E ch pRequestInfo hh = (case pRequestInfo of
     None \<Rightarrow> Some (STATUS_NULL_ARG, pRequestInfo, hh)
   | Some r \<Rightarrow>
       if ri_pAwsCredentials r = 0 then Some (STATUS_NULL_ARG, pRequestInfo, hh)
       else do {
         c \<leftarrow> get_credentials ch (ri_pAwsCredentials r);
         (case generateSignatureDateTime (ri_currentTime r) True of (st1, dateTimeStr) \<Rightarrow>
         if STATUS_FAILED st1 then Some (st1, pRequestInfo, hh) else
         (case getRequestHost (Some (ri_url r)) True of (st2, pHostStart, pHostEnd) \<Rightarrow>
         if STATUS_FAILED st2 then Some (st2, pRequestInfo, hh) else do {
         hostStart \<leftarrow> pHostStart;
         hostEnd \<leftarrow> pHostEnd;
         (st3, pr1, hh1) \<leftarrow> set_request_headers E r dateTimeStr hostStart hostEnd hh;
         if STATUS_FAILED st3 then Some (st3, pr1, hh1) else do {
         (st4, pSignatureInfo, len) \<leftarrow> generateAwsSigV4Signature E ch hh1 pr1 dateTimeStr True True;
         if STATUS_FAILED st4 then Some (st4, pr1, hh1)
         else set_headers E pr1 hh1
           ((AWS_SIG_V4_HEADER_AUTH, pSignatureInfo, len) #
            (if ac_sessionTokenLen c \<noteq> 0
             then [(AWS_SIG_V4_HEADER_AMZ_SECURITY_TOKEN, cstring_at c (ac_sessionToken c), ac_sessionTokenLen c)] else []))
         }}))
       })"

subsection \<open>Signing a URL\<close>

definition MAX_AWS_SIGV4_CREDENTIALS_EXPIRATION_IN_SECONDS :: UINT32 where "MAX_AWS_SIGV4_CREDENTIALS_EXPIRATION_IN_SECONDS = 604800"
definition MIN_AWS_SIGV4_CREDENTIALS_EXPIRATION_IN_SECONDS :: UINT32 where "MIN_AWS_SIGV4_CREDENTIALS_EXPIRATION_IN_SECONDS = 1"

definition auth_query :: "string \<Rightarrow> string \<Rightarrow> UINT32 \<Rightarrow> string \<Rightarrow> PCHAR \<Rightarrow> string" where
  "auth_query encodedCreds date expirationInSeconds signedHeaders sessionToken =
     ''&X-Amz-Algorithm='' @ AWS_SIG_V4_ALGORITHM @ ''&X-Amz-Credential='' @ encodedCreds @ ''&X-Amz-Date='' @ date @
     ''&X-Amz-Expires='' @ decimal (unat expirationInSeconds) @ ''&X-Amz-SignedHeaders='' @ signedHeaders @
     (case sessionToken of None \<Rightarrow> '''' | Some t \<Rightarrow> ''&X-Amz-Security-Token='' @ t)"

definition signature_expiration :: "UINT64 \<Rightarrow> UINT64 \<Rightarrow> UINT32" where
  "signature_expiration expiration currentTime =
     max MIN_AWS_SIGV4_CREDENTIALS_EXPIRATION_IN_SECONDS
       (min MAX_AWS_SIGV4_CREDENTIALS_EXPIRATION_IN_SECONDS (ucast ((expiration - currentTime) div HUNDREDS_OF_NANOS_IN_A_SECOND)))"

text \<open>
  \<open>STRNCPY\<close> into the URL at an index: when the new text is not shorter than the limit it is cut without
  a terminator, and the old characters behind it stay. \<open>STRNCAT\<close> appends at most the given number of
  characters; beyond the end of the buffer it is undefined.
\<close>

definition url_overwrite :: "string \<Rightarrow> nat \<Rightarrow> string \<Rightarrow> nat \<Rightarrow> string" where
  "url_overwrite url i new n = take i url @ (if length new < n then new else take n new @ drop (i + n) url)"

definition url_append :: "nat \<Rightarrow> string \<Rightarrow> string \<Rightarrow> nat \<Rightarrow> string option" where
  "url_append maxUri url new n = (let s = url @ take n new in if length s > maxUri then None else Some s)"

text \<open>
  The part behind the authentication parameters: they are appended to the URL, the query is replaced by
  the canonical one, and the signature is appended.
\<close>

definition sign_url ::
    "('l, 'n) signer_env \<Rightarrow> cheap \<Rightarrow> 'l RequestInfo \<Rightarrow> hheap \<Rightarrow> sheap \<Rightarrow> PCHAR \<Rightarrow> string
      \<Rightarrow> (STATUS \<times> 'l RequestInfo option \<times> hheap \<times> sheap) option" where
  "sign_url E ch r hh h dateTimeStr authQuery =
     (let urlLen = of_nat (length (ri_url r)) :: UINT32;
          remaining = of_nat (qe_maxUri (se_query E)) - urlLen;
          (len, stored) = SNPRINTF remaining authQuery;
          url1 = ri_url r @ stored; urlLen1 = urlLen + len; remaining1 = remaining - len;
          r1 = r\<lparr>ri_url := url1\<rparr>
      in if \<not> (len > 0 \<and> len < remaining) then Some (STATUS_BUFFER_TOO_SMALL, Some r1, hh, h) else do {
         (st1, pQueryParams, queryLen, h1) \<leftarrow> getCanonicalQueryParams (se_query E) (Some url1) urlLen1 True True h;
         if STATUS_FAILED st1 then Some (st1, Some r1, hh, h1) else
         (case getCanonicalUri (se_utils E) (Some url1) urlLen1 True of (st2, _, pQuery, _) \<Rightarrow>
         if STATUS_FAILED st2 then Some (st2, Some r1, hh, h1) else do {
         q \<leftarrow> pQuery;
         if (url1 @ [NUL]) ! q \<noteq> CHR ''?'' then Some (STATUS_INTERNAL_ERROR, Some r1, hh, h1) else do {
         params \<leftarrow> pQueryParams;
         let remaining2 = remaining1 - 1;
         let r2 = r1\<lparr>ri_url := url_overwrite url1 (q + 1) params (unat remaining2)\<rparr>;
         (st3, pSignatureInfo, _) \<leftarrow> generateAwsSigV4Signature E ch hh (Some r2) dateTimeStr False True;
         if STATUS_FAILED st3 then Some (st3, Some r2, hh, h1) else do {
         signature \<leftarrow> pSignatureInfo;
         url3 \<leftarrow> url_append (qe_maxUri (se_query E)) (ri_url r2) signature (unat (remaining2 - queryLen));
         Some (STATUS_SUCCESS, Some (r2\<lparr>ri_url := url3\<rparr>), hh, h1)
         }}})})"

definition signAwsRequestInfoQueryParam ::
    "('l, 'n) signer_env \<Rightarrow> cheap \<Rightarrow> 'l RequestInfo option \<Rightarrow> hheap \<Rightarrow> sheap \<Rightarrow> (STATUS \<times> 'l RequestInfo option \<times> hheap \<times> sheap) option" where
  "signAwsRequestInfoQueryParam E ch pRequestInfo hh h = (case pRequestInfo of
     None \<Rightarrow> Some (STATUS_NULL_ARG, pRequestInfo, hh, h)
   | Some r \<Rightarrow>
       if ri_pAwsCredentials r = 0 then Some (STATUS_NULL_ARG, pRequestInfo, hh, h)
       else do {
         c \<leftarrow> get_credentials ch (ri_pAwsCredentials r);
         (case generateSignatureDateTime (ri_currentTime r) True of (st1, dateTimeStr) \<Rightarrow>
         if STATUS_FAILED st1 then Some (st1, pRequestInfo, hh, h) else
         (case getRequestHost (Some (ri_url r)) True of (st2, pHostStart, pHostEnd) \<Rightarrow>
         if STATUS_FAILED st2 then Some (st2, pRequestInfo, hh, h) else do {
         hostStart \<leftarrow> pHostStart;
         hostEnd \<leftarrow> pHostEnd;
         (st3, pr1, hh1) \<leftarrow> set_headers E pRequestInfo hh [(AWS_SIG_V4_HEADER_HOST, Some (drop hostStart (ri_url r)), of_nat (hostEnd - hostStart))];
         if STATUS_FAILED st3 then Some (st3, pr1, hh1, h) else do {
         (st4, _, pCredsLen) \<leftarrow> generateEncodedCredentials ch pr1 dateTimeStr False (Some 0);
         if STATUS_FAILED st4 then Some (st4, pr1, hh1, h)
         else if \<not> se_credsMemory E then Some (STATUS_NOT_ENOUGH_MEMORY, pr1, hh1, h) else do {
         (st5, encodedCreds, _) \<leftarrow> generateEncodedCredentials ch pr1 dateTimeStr True pCredsLen;
         if STATUS_FAILED st5 then Some (st5, pr1, hh1, h) else do {
         (st6, _, pSignedHeadersLen) \<leftarrow> generateSignedHeaders E hh1 pr1 False (Some 0);
         if STATUS_FAILED st6 then Some (st6, pr1, hh1, h)
         else if \<not> se_signedHeadersMemory E then Some (STATUS_NOT_ENOUGH_MEMORY, pr1, hh1, h) else do {
         (st7, signedHeaders, pSignedHeadersLen') \<leftarrow> generateSignedHeaders E hh1 pr1 True pSignedHeadersLen;
         if STATUS_FAILED st7 then Some (st7, pr1, hh1, h) else do {
         r1 \<leftarrow> pr1;
         date \<leftarrow> dateTimeStr;
         signedHeadersLen \<leftarrow> pSignedHeadersLen';
         sign_url E ch r1 hh1 h dateTimeStr
           (auth_query encodedCreds date (signature_expiration (ac_expiration c) (ri_currentTime r1))
             (precision (unat signedHeadersLen) signedHeaders)
             (if ac_sessionToken c = None \<or> ac_sessionTokenLen c = 0 then None else cstring_at c (ac_sessionToken c)))
         }}}}}}))
       })"

end
