(* ===== verification/Signature_V4.thy ===== *)
theory Signature_V4
  imports Aws_V4_Signer
begin

text \<open>
  What the signer computes, against the signature scheme: the canonical request, the scope, the key
  derivation and the signature are written out as the scheme defines them, over the request's parts
  instead of buffers and lengths, and the code of \<open>Common/AwsV4Signer.c\<close> is shown to store exactly
  these texts, in buffers of the sizes that it computes itself. The locale \<open>signer\<close> has what is
  assumed of the cryptographic library (digests of 32 bytes), the list, the string utilities and the
  limits.
\<close>

subsection \<open>The canonical form as the signature scheme defines it\<close>

type_synonym header = "string \<times> string"

definition header_pair :: "hheap \<Rightarrow> UINT64 \<Rightarrow> header" where
  "header_pair hh x = (case hh x of None \<Rightarrow> ('''', '''') | Some h \<Rightarrow> (rh_pName h, rh_pValue h))"

definition signed_pairs :: "header list \<Rightarrow> header list" where
  "signed_pairs hs = filter (\<lambda>p. IS_CANONICAL_HEADER_NAME (fst p)) hs"

definition sigv4_headers :: "(char \<Rightarrow> bool) \<Rightarrow> header list \<Rightarrow> string" where
  "sigv4_headers space hs = concat (map (\<lambda>p. map tolower (fst p) @ '':'' @ trim space (snd p) @ [newline]) (signed_pairs hs))"

fun join_semi :: "string list \<Rightarrow> string" where
  "join_semi [] = []"
| "join_semi [x] = x"
| "join_semi (x # y # xs) = x @ CHR '';'' # join_semi (y # xs)"

lemma join_semi_Cons: "join_semi (x # xs) = x @ concat (map (\<lambda>y. CHR '';'' # y) xs)"
  by (induction xs arbitrary: x) auto

definition sigv4_signed :: "header list \<Rightarrow> string" where
  "sigv4_signed hs = join_semi (map (map tolower \<circ> fst) (signed_pairs hs))"

text \<open>The headers as \<open>createRequestHeader\<close> makes them.\<close>

definition header_ok :: "RequestHeader \<Rightarrow> bool" where
  "header_ok h \<longleftrightarrow> rh_pName h \<noteq> [] \<and> rh_pValue h \<noteq> [] \<and> rh_nameLen h = of_nat (length (rh_pName h)) \<and> rh_valueLen h = of_nat (length (rh_pValue h)) \<and>
     length (rh_pName h) < MAX_REQUEST_HEADER_NAME_LEN \<and> length (rh_pValue h) < MAX_REQUEST_HEADER_VALUE_LEN \<and>
     NUL \<notin> set (rh_pName h) \<and> NUL \<notin> set (rh_pValue h)"

definition headers_ok :: "hheap \<Rightarrow> UINT64 list \<Rightarrow> bool" where
  "headers_ok hh xs \<longleftrightarrow> (\<forall>x\<in>set xs. \<exists>h. hh x = Some h \<and> header_ok h)"

lemma header_lens:
  assumes "header_ok h"
  shows "unat (rh_nameLen h) = length (rh_pName h)" "unat (rh_valueLen h) = length (rh_pValue h)"
    "length (rh_pName h) < 128" "length (rh_pValue h) < 2048"
proof -
  show b: "length (rh_pName h) < 128" "length (rh_pValue h) < 2048"
    using assms by (simp_all add: header_ok_def MAX_REQUEST_HEADER_NAME_LEN_def MAX_REQUEST_HEADER_VALUE_LEN_def)
  show "unat (rh_nameLen h) = length (rh_pName h)" "unat (rh_valueLen h) = length (rh_pValue h)"
    using assms b unat_of_nat_small [of "length (rh_pName h)"] unat_of_nat_small [of "length (rh_pValue h)"] by (simp_all add: header_ok_def)
qed

lemma unat_add_nat:
  fixes a :: UINT32
  assumes "unat a + n < 2 ^ 32"
  shows "unat (a + of_nat n) = unat a + n"
proof -
  have "a + of_nat n = of_nat (unat a + n)" by simp
  then show ?thesis using unat_of_nat_small [OF assms] by simp
qed

text \<open>The names that are still to come, each behind a semicolon when there is one before it.\<close>

definition signed_text :: "bool \<Rightarrow> header list \<Rightarrow> string" where
  "signed_text appended hs = (if appended then concat (map (\<lambda>p. '';'' @ map tolower (fst p)) (signed_pairs hs)) else sigv4_signed hs)"

lemma signed_text_Cons:
  "signed_text a (p # hs) = (if IS_CANONICAL_HEADER_NAME (fst p) then (if a then '';'' else '''') @ map tolower (fst p) @ signed_text True hs else signed_text a hs)"
  by (simp add: signed_text_def sigv4_signed_def signed_pairs_def join_semi_Cons comp_def)

context platform_utils
begin

lemma canonical_step_ok:
  assumes "hh x = Some h" "header_ok h" "IS_CANONICAL_HEADER_NAME (rh_pName h)"
  defines "line \<equiv> sigv4_headers space [header_pair hh x]"
  assumes "unat (pk_overallLen s) + length line < 2 ^ 32"
  shows "canonical_step U hh dst n x s =
    (let s1 = s\<lparr>pk_overallLen := pk_overallLen s + of_nat (length line)\<rparr> in
     if \<not> dst then Inr s1
     else if \<not> unat (pk_overallLen s) + length line \<le> unat n then Inl (STATUS_BUFFER_TOO_SMALL, s1)
     else Inr (s1\<lparr>pk_out := pk_out s @ line\<rparr>))"
proof -
  note L = header_lens [OF assms(2)]
  have ne: "rh_pValue h \<noteq> []" and vl: "rh_valueLen h = of_nat (length (rh_pValue h))" and nl: "rh_nameLen h = of_nat (length (rh_pName h))"
    using assms(2) by (simp_all add: header_ok_def)
  obtain i j where t: "TRIMSTRALL U (rh_pValue h) (rh_valueLen h) = (STATUS_SUCCESS, i, j)" "i \<le> j" "j \<le> length (rh_pValue h)"
      "take (j - i) (drop i (rh_pValue h)) = trim space (rh_pValue h)"
    using TRIMSTRALL_trim [OF ne] L(4) unfolding vl by auto
  have lw: "TOLOWERSTR U (rh_pName h) (rh_nameLen h) = map tolower (rh_pName h)" using TOLOWERSTR_map [of "rh_nameLen h" "rh_pName h"] L(1) by simp
  have line: "line = map tolower (rh_pName h) @ '':'' @ trim space (rh_pValue h) @ [newline]"
    using assms(3) by (simp add: line_def sigv4_headers_def signed_pairs_def header_pair_def assms(1))
  have tl: "length (trim space (rh_pValue h)) = j - i" unfolding t(4) [symmetric] using t(2,3) by simp
  have ov: "pk_overallLen s + (rh_nameLen h + 1 + of_nat (j - i) + 1) = pk_overallLen s + of_nat (length line)"
    by (simp add: line nl tl algebra_simps)
  have un: "unat (pk_overallLen s + of_nat (length line)) = unat (pk_overallLen s) + length line"
    by (rule unat_add_nat [OF assms(5)])
  have uv: "unat (of_nat (j - i) :: UINT32) = j - i" by (rule unat_of_nat_small) (use t(3) L(4) in simp)
  show ?thesis
    unfolding canonical_step_def assms(1) option.case t(1) prod.case Let_def ov uv t(4) lw
    using assms(3) un by (simp add: line word_le_nat_alt)
qed

lemma canonical_iwalk:
  assumes "headers_ok hh xs" "unat (pk_overallLen s) + length (sigv4_headers space (map (header_pair hh) xs)) < 2 ^ 32"
    and "dst \<Longrightarrow> unat (pk_overallLen s) + length (sigv4_headers space (map (header_pair hh) xs)) \<le> unat n"
  shows "items_walk (\<lambda>_. canonical_step U hh dst n) i xs s =
    (STATUS_SUCCESS, s\<lparr>pk_overallLen := pk_overallLen s + of_nat (length (sigv4_headers space (map (header_pair hh) xs))),
       pk_out := pk_out s @ (if dst then sigv4_headers space (map (header_pair hh) xs) else '''')\<rparr>)"
  using assms
proof (induction xs arbitrary: i s)
  case (Cons x xs)
  obtain h where h: "hh x = Some h" "header_ok h" using Cons(2) by (auto simp: headers_ok_def)
  have ok: "headers_ok hh xs" using Cons(2) by (simp add: headers_ok_def)
  let ?L = "sigv4_headers space [header_pair hh x]" and ?R = "sigv4_headers space (map (header_pair hh) xs)"
  have split: "sigv4_headers space (map (header_pair hh) (x # xs)) = ?L @ ?R" by (simp add: sigv4_headers_def signed_pairs_def)
  show ?case
  proof (cases "IS_CANONICAL_HEADER_NAME (rh_pName h)")
    case True
    have b: "unat (pk_overallLen s) + length ?L < 2 ^ 32" using Cons(3) split by simp
    define s1 where "s1 = s\<lparr>pk_overallLen := pk_overallLen s + of_nat (length ?L), pk_out := pk_out s @ (if dst then ?L else '''')\<rparr>"
    have "unat (pk_overallLen s) + length ?L \<le> unat n" if dst using Cons(4) [OF that] split by simp
    then have "canonical_step U hh dst n x s = Inr s1" using canonical_step_ok [OF h True b, of dst n] by (cases dst) (simp_all add: s1_def Let_def)
    moreover have "unat (pk_overallLen s1) = unat (pk_overallLen s) + length ?L" using unat_add_nat [OF b] by (simp add: s1_def)
    ultimately show ?thesis using Cons(1) [OF ok, of s1 "Suc i"] Cons(3,4) split by (simp add: s1_def algebra_simps)
  next
    case False
    then have "canonical_step U hh dst n x s = Inr s" "?L = []"
      by (simp_all add: canonical_step_def h(1) sigv4_headers_def signed_pairs_def header_pair_def)
    then show ?thesis using Cons(1) [OF ok] Cons(3,4) split by simp
  qed
qed (simp add: sigv4_headers_def signed_pairs_def)

lemma signed_iwalk:
  assumes "headers_ok hh xs" "unat (pk_overallLen s) + length (signed_text (pk_appended s) (map (header_pair hh) xs)) < 2 ^ 32"
    and "dst \<Longrightarrow> unat (pk_overallLen s) + length (signed_text (pk_appended s) (map (header_pair hh) xs)) \<le> unat n"
  shows "\<exists>a. items_walk (\<lambda>_. signed_step U hh dst n) i xs s =
    (STATUS_SUCCESS, s\<lparr>pk_overallLen := pk_overallLen s + of_nat (length (signed_text (pk_appended s) (map (header_pair hh) xs))),
       pk_out := pk_out s @ (if dst then signed_text (pk_appended s) (map (header_pair hh) xs) else ''''), pk_appended := a\<rparr>)"
  using assms
proof (induction xs arbitrary: i s)
  case Nil
  have "s = s\<lparr>pk_appended := pk_appended s\<rparr>" by simp
  then show ?case by (intro exI [of _ "pk_appended s"]) (simp add: signed_text_def sigv4_signed_def signed_pairs_def)
next
  case (Cons x xs)
  obtain h where h: "hh x = Some h" "header_ok h" using Cons(2) by (auto simp: headers_ok_def)
  have ok: "headers_ok hh xs" using Cons(2) by (simp add: headers_ok_def)
  have hp: "fst (header_pair hh x) = rh_pName h" by (simp add: header_pair_def h(1))
  note L = header_lens [OF h(2)]
  have lw: "TOLOWERSTR U (rh_pName h) (rh_nameLen h) = map tolower (rh_pName h)" using TOLOWERSTR_map [of "rh_nameLen h" "rh_pName h"] L(1) by simp
  show ?case
  proof (cases "IS_CANONICAL_HEADER_NAME (rh_pName h)")
    case True
    define line where "line = (if pk_appended s then '';'' else '''') @ map tolower (rh_pName h)"
    have split: "signed_text (pk_appended s) (map (header_pair hh) (x # xs)) = line @ signed_text True (map (header_pair hh) xs)"
      using True by (simp add: signed_text_Cons hp line_def)
    have b: "unat (pk_overallLen s) + length line < 2 ^ 32" using Cons(3) split by simp
    have nl: "rh_nameLen h = of_nat (length (rh_pName h))" using h(2) by (simp add: header_ok_def)
    have ov: "pk_overallLen s + rh_nameLen h + (if pk_appended s then 1 else 0) = pk_overallLen s + of_nat (length line)"
      by (simp add: line_def nl algebra_simps)
    define s1 where "s1 = s\<lparr>pk_overallLen := pk_overallLen s + of_nat (length line), pk_out := pk_out s @ (if dst then line else ''''), pk_appended := True\<rparr>"
    have u: "unat (pk_overallLen s1) = unat (pk_overallLen s) + length line" using unat_add_nat [OF b] by (simp add: s1_def)
    have "unat (pk_overallLen s) + length line \<le> unat n" if dst using Cons(4) [OF that] split by simp
    then have "pk_overallLen s + of_nat (length line) \<le> n" if dst using that unat_add_nat [OF b] by (simp add: word_le_nat_alt)
    then have "signed_step U hh dst n x s = Inr s1"
      unfolding signed_step_def h(1) option.case Let_def ov lw using True by (cases dst) (simp_all add: s1_def line_def)
    moreover have "\<exists>a. items_walk (\<lambda>_. signed_step U hh dst n) (Suc i) xs s1 = (STATUS_SUCCESS,
        s1\<lparr>pk_overallLen := pk_overallLen s1 + of_nat (length (signed_text (pk_appended s1) (map (header_pair hh) xs))),
          pk_out := pk_out s1 @ (if dst then signed_text (pk_appended s1) (map (header_pair hh) xs) else ''''), pk_appended := a\<rparr>)"
      by (rule Cons(1)) (use ok Cons(3,4) split u in \<open>auto simp: s1_def\<close>)
    ultimately show ?thesis using split by (cases dst) (simp_all add: s1_def algebra_simps)
  next
    case False
    then have "signed_step U hh dst n x s = Inr s" "signed_text (pk_appended s) (map (header_pair hh) (x # xs)) = signed_text (pk_appended s) (map (header_pair hh) xs)"
      by (simp_all add: signed_step_def h(1) signed_text_Cons hp)
    then show ?thesis using Cons(1) [OF ok, of s "Suc i"] Cons(3,4) by (cases dst) simp_all
  qed
qed

end

locale signer = rq: request_list ops items node_at "se_request E" + qu: query_list ops items node_at U space "se_query E"
  for ops :: "('l, 'n) single_list_ops" and items :: "'l \<Rightarrow> UINT64 list" and node_at :: "'l \<Rightarrow> 'n \<Rightarrow> nat \<Rightarrow> bool"
    and U :: pic_utils and space :: "char \<Rightarrow> bool" and E :: "('l, 'n) signer_env" +
  assumes sha_length: "length (se_SHA256 E m) = 32"
    and hmac_length: "se_HMAC E k m = Some d \<Longrightarrow> length d = 32"
    and uri_bound: "qe_maxUri (se_query E) < 2 ^ 30"
    and auth_bound: "unat (se_maxAuth E) < 2 ^ 30"
begin

lemma pack_headers_walk:
  assumes "ri_pRequestHeaders r = Some l"
  shows "pack_headers E step (Some r) (Some n) =
    (case items_walk (\<lambda>_. step n) 0 (items l) \<lparr>pk_overallLen = 0, pk_out = '''', pk_appended = False, pk_undefined = False\<rparr> of (st, s) \<Rightarrow>
      if pk_undefined s then None else Some (st, pk_out s, Some (pk_overallLen s)))"
proof -
  obtain st0 pn where hd0: "singleListGetHeadNode ops l = (st0, pn)" by fastforce
  have "st0 = STATUS_SUCCESS \<and> list_walk ops l (\<lambda>_. step n) pn \<lparr>pk_overallLen = 0, pk_out = '''', pk_appended = False, pk_undefined = False\<rparr> =
      Some (items_walk (\<lambda>_. step n) 0 (items l) \<lparr>pk_overallLen = 0, pk_out = '''', pk_appended = False, pk_undefined = False\<rparr>)"
    by (rule rq.walk_items [OF hd0])
  then show ?thesis using hd0 assms by (simp add: pack_headers_def rq.list_ops)
qed

lemma canonical_headers:
  assumes "ri_pRequestHeaders r = Some l" "headers_ok hh (items l)"
  defines "t \<equiv> sigv4_headers space (map (header_pair hh) (items l))"
  assumes "length t < 2 ^ 32" "dst \<Longrightarrow> length t \<le> unat n"
  shows "generateCanonicalHeaders E hh (Some r) dst (Some n) = Some (STATUS_SUCCESS, if dst then t else '''', Some (of_nat (length t)))"
  using qu.canonical_iwalk [OF assms(2), of "\<lparr>pk_overallLen = 0, pk_out = '''', pk_appended = False, pk_undefined = False\<rparr>" dst n 0] assms(4,5)
  unfolding generateCanonicalHeaders_def pack_headers_walk [OF assms(1)] qu.utils by (simp add: t_def)

lemma signed_headers:
  assumes "ri_pRequestHeaders r = Some l" "headers_ok hh (items l)"
  defines "t \<equiv> sigv4_signed (map (header_pair hh) (items l))"
  assumes "length t < 2 ^ 32" "dst \<Longrightarrow> length t \<le> unat n"
  shows "generateSignedHeaders E hh (Some r) dst (Some n) = Some (STATUS_SUCCESS, if dst then t else '''', Some (of_nat (length t)))"
proof -
  have t: "signed_text False (map (header_pair hh) (items l)) = t" by (simp add: signed_text_def t_def)
  show ?thesis
    using qu.signed_iwalk [OF assms(2), of "\<lparr>pk_overallLen = 0, pk_out = '''', pk_appended = False, pk_undefined = False\<rparr>" dst n 0] assms(4,5)
    unfolding generateSignedHeaders_def pack_headers_walk [OF assms(1)] qu.utils by (auto simp: t)
qed

end

subsection \<open>The canonical request\<close>

text \<open>
  The canonical request of the signature scheme, and the bound on its length that the code uses.
\<close>

definition sigv4_request :: "(char \<Rightarrow> bool) \<Rightarrow> (string \<Rightarrow> string) \<Rightarrow> string \<Rightarrow> string \<Rightarrow> string \<Rightarrow> header list \<Rightarrow> string \<Rightarrow> string" where
  "sigv4_request space sha verb uri query hs payload =
     verb @ [newline] @ uri @ [newline] @ query @ [newline] @ sigv4_headers space hs @ [newline] @ sigv4_signed hs @ [newline] @ hex_string False (sha payload)"

lemma sigv4_headers_length:
  assumes "headers_ok hh xs"
  shows "length (sigv4_headers space (map (header_pair hh) xs)) \<le> length xs * 2177"
  using assms
proof (induction xs)
  case (Cons x xs)
  obtain h where h: "hh x = Some h" "header_ok h" "headers_ok hh xs" using Cons(2) by (auto simp: headers_ok_def)
  have "length (sigv4_headers space [header_pair hh x]) \<le> 2177"
    using header_lens(3,4) [OF h(2)] trim_length [of space "rh_pValue h"] by (simp add: sigv4_headers_def signed_pairs_def header_pair_def h(1))
  moreover have "sigv4_headers space (map (header_pair hh) (x # xs)) = sigv4_headers space [header_pair hh x] @ sigv4_headers space (map (header_pair hh) xs)"
    by (simp add: sigv4_headers_def signed_pairs_def)
  ultimately show ?case using Cons(1) [OF h(3)] by simp
qed (simp add: sigv4_headers_def signed_pairs_def)

lemma signed_text_length:
  assumes "headers_ok hh xs"
  shows "length (signed_text a (map (header_pair hh) xs)) \<le> length xs * 128"
  using assms
proof (induction xs arbitrary: a)
  case (Cons x xs)
  obtain h where h: "hh x = Some h" "header_ok h" "headers_ok hh xs" using Cons(2) by (auto simp: headers_ok_def)
  then show ?case
    using header_lens(3) [OF h(2)] Cons(1) [OF h(3), of True] Cons(1) [OF h(3), of a] by (simp add: signed_text_Cons header_pair_def)
qed (simp add: signed_text_def sigv4_signed_def signed_pairs_def)

lemma sigv4_signed_length: "headers_ok hh xs \<Longrightarrow> length (sigv4_signed (map (header_pair hh) xs)) \<le> length xs * 128"
  using signed_text_length [of hh xs False] by (simp add: signed_text_def)

lemma pack_line_fits:
  assumes "length (out @ line @ [newline]) \<le> unat n"
  shows "pack_line n (of_nat (length out)) line out = Inr (of_nat (length (out @ line @ [newline])), out @ line @ [newline])"
proof -
  let ?k = "length (out @ line @ [newline])"
  have "(of_nat (length out) :: UINT32) + of_nat (length line) + 1 = of_nat ?k" by simp
  moreover have "unat (of_nat ?k :: UINT32) = ?k" by (rule unat_of_nat_small) (use assms unat_bound [of n] in linarith)
  ultimately have "(of_nat (length out) :: UINT32) + of_nat (length line) + 1 \<le> n" using assms by (simp only: word_le_nat_alt)
  then show ?thesis by (simp add: pack_line_def Let_def)
qed

lemma append_headers_fits:
  assumes "length (out @ t @ [newline]) \<le> unat n" and "generate (n - of_nat (length out)) = Some (STATUS_SUCCESS, t, Some (of_nat (length t)))"
  shows "append_headers n (of_nat (length out), out) generate = Some (Inr (of_nat (length (out @ t @ [newline])), out @ t @ [newline]))"
proof -
  let ?k = "length (out @ t @ [newline])"
  have "(of_nat (length out) :: UINT32) + of_nat (length t) + 1 = of_nat ?k" by simp
  moreover have "unat (of_nat ?k :: UINT32) = ?k" by (rule unat_of_nat_small) (use assms(1) unat_bound [of n] in linarith)
  ultimately have "(of_nat (length out) :: UINT32) + of_nat (length t) + 1 \<le> n" using assms(1) by (simp only: word_le_nat_alt)
  then show ?thesis using assms(2) by (simp add: append_headers_def)
qed

text \<open>The path and the query of a URL as they are signed.\<close>

definition signed_uri :: "string \<Rightarrow> string" where
  "signed_uri path = (if path = [] then DEFAULT_CANONICAL_URI_STRING else path)"

definition signed_query :: "string \<Rightarrow> string" where
  "signed_query query = drop 1 query"

definition verb_string :: "HTTP_REQUEST_VERB \<Rightarrow> string" where
  "verb_string v = the (getRequestVerbString v)"

lemma verb_string_Some: "getRequestVerbString v = Some (verb_string v)" "length (verb_string v) \<le> 4"
  by (cases v; simp add: verb_string_def getRequestVerbString_def)+

text \<open>The canonical request of a request object.\<close>

definition sigv4_text ::
    "(char \<Rightarrow> bool) \<Rightarrow> ('l, 'n) signer_env \<Rightarrow> ('l \<Rightarrow> UINT64 list) \<Rightarrow> hheap \<Rightarrow> 'l RequestInfo \<Rightarrow> string \<Rightarrow> string \<Rightarrow> string" where
  "sigv4_text space E items hh r path query = sigv4_request space (se_SHA256 E) (verb_string (ri_verb r)) (signed_uri path) (signed_query query)
     (map (header_pair hh) (header_list items r)) (case ri_body r of None \<Rightarrow> '''' | Some b \<Rightarrow> b)"

context signer
begin

lemma request_lines_fit:
  assumes parts: "url_parts scheme host path query" and pq: "path \<noteq> [] \<or> query \<noteq> []" and url: "ri_url r = url_of scheme host path query"
  defines "o1 \<equiv> verb_string (ri_verb r) @ [newline]"
  defines "o2 \<equiv> o1 @ signed_uri path @ [newline]"
  defines "o3 \<equiv> o2 @ signed_query query @ [newline]"
  assumes fit: "length o3 \<le> unat n"
  shows "request_lines E r n = Some (Inr (of_nat (length o3), o3))"
proof -
  define i where "i = length (scheme @ ''://'' @ host)"
  have len: "unat (of_nat (length (ri_url r)) :: UINT32) = length (url_of scheme host path query)"
    unfolding url by (rule unat_of_nat_small) (use parts in \<open>simp add: url_parts_def\<close>)
  have lu: "length (ri_url r) = i + length path + length query" by (simp add: url url_of_def i_def)
  define base where "base = scheme @ ''://'' @ host"
  have ub: "ri_url r = base @ path @ query" "i = length base" by (simp_all add: url url_of_def base_def i_def)
  note uri = qu.getCanonicalUri_parts [OF parts disjI2 [OF len], folded i_def url]
  obtain st d where g: "getCanonicalUri U (Some (ri_url r)) (of_nat (length (ri_url r))) True = (STATUS_SUCCESS, st, Some (i + length path), d)"
      "uri_text (ri_url r) st (i + length path) = Some (signed_uri path)"
  proof (cases "path = []")
    case True
    then show ?thesis using uri pq that [of URI_DEFAULT True] by (simp add: uri_text_def signed_uri_def)
  next
    case False
    have "take (i + length path - i) (drop i (ri_url r)) = path" by (simp add: ub)
    then show ?thesis using uri False that [of "URI_AT i" False] by (simp add: uri_text_def signed_uri_def)
  qed
  have q: "drop (if i + length path = length (ri_url r) then i + length path else i + length path + 1) (ri_url r) = signed_query query"
  proof -
    have "drop (i + length path) (ri_url r) = query" by (simp add: ub)
    moreover have "drop (i + length path + 1) (ri_url r) = drop 1 (drop (i + length path) (ri_url r))" by (simp only: drop_drop add.commute)
    ultimately show ?thesis using lu by (simp add: signed_query_def)
  qed
  have f1: "length ([] @ verb_string (ri_verb r) @ [newline]) \<le> unat n" and f2: "length (o1 @ signed_uri path @ [newline]) \<le> unat n"
      and f3: "length (o2 @ signed_query query @ [newline]) \<le> unat n"
    using fit by (simp_all add: o3_def o2_def o1_def)
  have p1: "pack_line n 0 (verb_string (ri_verb r)) [] = Inr (of_nat (length o1), o1)"
    using pack_line_fits [OF f1] by (simp add: o1_def)
  note p2 = pack_line_fits [OF f2, folded o2_def] and p3 = pack_line_fits [OF f3, folded o3_def]
  show ?thesis
    unfolding request_lines_def verb_string_Some(1) option.case p1 sum.case prod.case qu.utils g(1) using g(2) p2 p3 q by simp
qed

lemma hexEncodedSha256_fits: "hexEncodedSha256 E (Some m) True = (STATUS_SUCCESS, hex_string False (se_SHA256 E m))"
proof -
  have "unat (SHA256_DIGEST_LENGTH * 2 + 1) = 65" by (simp add: SHA256_DIGEST_LENGTH_def)
  then show ?thesis
    using qu.hexEncode_fits [of "se_SHA256 E m" "SHA256_DIGEST_LENGTH * 2 + 1" False] sha_length [of m] by (simp add: hexEncodedSha256_def qu.utils)
qed

lemma canonical_request_fits:
  assumes parts: "url_parts scheme host path query" and pq: "path \<noteq> [] \<or> query \<noteq> []" and url: "ri_url r = url_of scheme host path query"
    and l: "ri_pRequestHeaders r = Some l" "headers_ok hh (items l)" and fit: "length (sigv4_text space E items hh r path query) \<le> unat n"
  shows "generateCanonicalRequestString E hh (Some r) True (Some n) =
    Some (STATUS_SUCCESS, sigv4_text space E items hh r path query, Some (of_nat (length (sigv4_text space E items hh r path query))))"
proof -
  let ?hs = "map (header_pair hh) (items l)"
  define o3 where "o3 = ((verb_string (ri_verb r) @ [newline]) @ signed_uri path @ [newline]) @ signed_query query @ [newline]"
  define o4 where "o4 = o3 @ sigv4_headers space ?hs @ [newline]"
  define o5 where "o5 = o4 @ sigv4_signed ?hs @ [newline]"
  define hash where "hash = hex_string False (se_SHA256 E (case ri_body r of None \<Rightarrow> '''' | Some b \<Rightarrow> b))"
  have R: "sigv4_text space E items hh r path query = o5 @ hash"
    using l(1) by (simp add: sigv4_text_def sigv4_request_def o5_def o4_def o3_def hash_def header_list_def)
  have hl: "length hash = 64" by (simp add: hash_def sha_length)
  have f3: "length o3 \<le> unat n" and f4: "length (o3 @ sigv4_headers space ?hs @ [newline]) \<le> unat n"
    and f5: "length (o4 @ sigv4_signed ?hs @ [newline]) \<le> unat n" and f6: "length o5 + 64 \<le> unat n"
    using fit hl unfolding R by (simp_all add: o5_def o4_def)
  have room: "unat (n - of_nat (length o3)) = unat n - length o3" "unat (n - of_nat (length o4)) = unat n - length o4"
    by (rule room_less; use f4 f5 in \<open>simp add: o4_def\<close>)+
  have small: "length (sigv4_headers space ?hs) < 2 ^ 32" "length (sigv4_signed ?hs) < 2 ^ 32"
    using f4 f5 unat_bound [of n] by simp_all
  have h4: "append_headers n (of_nat (length o3), o3) (\<lambda>len. generateCanonicalHeaders E hh (Some r) True (Some len)) = Some (Inr (of_nat (length o4), o4))"
    unfolding o4_def by (rule append_headers_fits [OF f4]) (use canonical_headers [OF l small(1), of True] f4 room(1) in simp)
  have h5: "append_headers n (of_nat (length o4), o4) (\<lambda>len. generateSignedHeaders E hh (Some r) True (Some len)) = Some (Inr (of_nat (length o5), o5))"
    unfolding o5_def by (rule append_headers_fits [OF f5]) (use signed_headers [OF l small(2), of True] f5 room(2) in simp)
  have sz: "SHA256_DIGEST_LENGTH * 2 = of_nat 64" by (simp add: SHA256_DIGEST_LENGTH_def)
  have "unat (of_nat (length o5 + 64) :: UINT32) = length o5 + 64" by (rule unat_of_nat_small) (use f6 unat_bound [of n] in linarith)
  then have le: "(of_nat (length o5) :: UINT32) + of_nat 64 \<le> n" using f6 by (simp only: word_le_nat_alt of_nat_add [symmetric])
  have tot: "(of_nat (length o5) :: UINT32) + of_nat 64 = of_nat (length (sigv4_text space E items hh r path query))" unfolding R length_append hl by simp
  show ?thesis
    unfolding generateCanonicalRequestString_def prod.case option.case l(1) bind.bind_lunit rq.list_ops rq.count
      request_lines_fit [OF parts pq url f3 [unfolded o3_def], folded o3_def] h4 h5 sum.case Let_def sz hexEncodedSha256_fits hash_def [symmetric]
    using le tot R by simp
qed

lemma request_size:
  assumes "c \<le> MAX_REQUEST_HEADER_COUNT"
  shows "unat (canonical_request_size E (of_nat c)) = 2 * qe_maxUri (se_query E) + c * 2307 + 72"
proof -
  have "canonical_request_size E (of_nat c) = of_nat (2 * qe_maxUri (se_query E) + c * 2307 + 72)"
    by (simp add: canonical_request_size_def MAX_REQUEST_VERB_STRING_LEN_def MAX_REQUEST_HEADER_NAME_LEN_def MAX_REQUEST_HEADER_VALUE_LEN_def
        SHA256_DIGEST_LENGTH_def algebra_simps)
  moreover have "2 * qe_maxUri (se_query E) + c * 2307 + 72 < 2 ^ 32" using assms uri_bound by (simp add: MAX_REQUEST_HEADER_COUNT_def)
  ultimately show ?thesis by (simp only: unat_of_nat_small)
qed

lemma request_text_bound:
  assumes parts: "url_parts scheme host path query" and url: "ri_url r = url_of scheme host path query" "length (ri_url r) \<le> qe_maxUri (se_query E)"
    and l: "ri_pRequestHeaders r = Some l" "headers_ok hh (items l)"
  shows "length (sigv4_text space E items hh r path query) \<le> 2 * qe_maxUri (se_query E) + length (items l) * 2307 + 72"
proof -
  have "length (sigv4_headers space (map (header_pair hh) (items l))) \<le> length (items l) * 2177"
    "length (sigv4_signed (map (header_pair hh) (items l))) \<le> length (items l) * 128"
    by (rule sigv4_headers_length [OF l(2)] sigv4_signed_length [OF l(2)])+
  moreover have "length (signed_uri path) + length (signed_query query) + 3 \<le> qe_maxUri (se_query E)"
  proof -
    have h: "1 \<le> length host" using parts by (cases host) (auto simp: url_parts_def)
    have u: "length (ri_url r) = length scheme + 3 + length host + length path + length query" by (simp add: url(1) url_of_def)
    show ?thesis using h u url(2) by (cases "path = []") (simp_all add: signed_uri_def signed_query_def DEFAULT_CANONICAL_URI_STRING_def)
  qed
  moreover have "length (verb_string (ri_verb r)) \<le> 4" by (rule verb_string_Some(2))
  ultimately show ?thesis using l(1) by (simp add: sigv4_text_def sigv4_request_def header_list_def sha_length)
qed

end

subsection \<open>The signature as the scheme defines it\<close>

definition sigv4_key :: "(string \<Rightarrow> string \<Rightarrow> string option) \<Rightarrow> string \<Rightarrow> string \<Rightarrow> string \<Rightarrow> string option" where
  "sigv4_key hmac secret date region = do {
     kDate \<leftarrow> hmac (''AWS4'' @ secret) (take 8 date);
     kRegion \<leftarrow> hmac kDate region;
     kService \<leftarrow> hmac kRegion ''kinesisvideo'';
     hmac kService ''aws4_request''
   }"

definition sigv4_scope :: "string \<Rightarrow> string \<Rightarrow> string" where
  "sigv4_scope date region = take 8 date @ ''/'' @ region @ ''/kinesisvideo/aws4_request''"

definition sigv4_to_sign :: "(string \<Rightarrow> string) \<Rightarrow> string \<Rightarrow> string \<Rightarrow> string \<Rightarrow> string" where
  "sigv4_to_sign sha date region request = ''AWS4-HMAC-SHA256'' @ [newline] @ date @ [newline] @ sigv4_scope date region @ [newline] @ hex_string False (sha request)"

definition sigv4_signature ::
    "(string \<Rightarrow> string \<Rightarrow> string option) \<Rightarrow> (string \<Rightarrow> string) \<Rightarrow> string \<Rightarrow> string \<Rightarrow> string \<Rightarrow> string \<Rightarrow> string option" where
  "sigv4_signature hmac sha secret date region request = do {
     key \<leftarrow> sigv4_key hmac secret date region;
     signature \<leftarrow> hmac key (sigv4_to_sign sha date region request);
     Some (hex_string False signature)
   }"

text \<open>The text that carries the signature.\<close>

definition sigv4_info :: "bool \<Rightarrow> string \<Rightarrow> string \<Rightarrow> string \<Rightarrow> header list \<Rightarrow> string \<Rightarrow> string" where
  "sigv4_info authHeaders accessKeyId date region hs signature =
     (if authHeaders
      then ''AWS4-HMAC-SHA256 Credential='' @ accessKeyId @ ''/'' @ sigv4_scope date region @ '', SignedHeaders='' @ sigv4_signed hs @ '', Signature='' @ signature
      else ''&X-Amz-Signature='' @ signature)"

text \<open>Credentials whose pointers and lengths describe an access key and a secret.\<close>

definition credentials_view :: "nat \<Rightarrow> AwsCredentials \<Rightarrow> string \<Rightarrow> string \<Rightarrow> bool" where
  "credentials_view maxAuth c accessKeyId secret \<longleftrightarrow>
     cstring_at c (ac_accessKeyId c) = Some accessKeyId \<and> unat (ac_accessKeyIdLen c) = length accessKeyId \<and>
     cred_bytes c (ac_secretKey c) (unat (ac_secretKeyLen c)) = Some secret \<and> unat (ac_secretKeyLen c) = length secret \<and>
     length accessKeyId + length secret < maxAuth"

lemma scope_string_eq: "scope_string date region = sigv4_scope date region"
  by (simp add: scope_string_def sigv4_scope_def precision_def SIGNATURE_DATE_STRING_LEN_def KINESIS_VIDEO_SERVICE_NAME_def AWS_SIG_V4_SIGNATURE_END_def)

lemma length_sigv4_scope: "length (sigv4_scope date region) \<le> length region + 35"
  by (simp add: sigv4_scope_def)

lemma SNPRINTF_fits:
  assumes "length s < unat n"
  shows "SNPRINTF n s = (of_nat (length s), s)" "unat (of_nat (length s) :: UINT32) = length s"
  using assms unat_bound [of n] unat_of_nat_small [of "length s"] by (simp_all add: SNPRINTF_def)

lemma hmac_chain_bind:
  "hmac_chain E key [m1, m2, m3, m4, m5] = (case do { k1 \<leftarrow> se_HMAC E key m1; k2 \<leftarrow> se_HMAC E k1 m2; k3 \<leftarrow> se_HMAC E k2 m3; k4 \<leftarrow> se_HMAC E k3 m4; se_HMAC E k4 m5 } of
     None \<Rightarrow> (STATUS_HMAC_GENERATION_ERROR, '''') | Some h \<Rightarrow> (STATUS_SUCCESS, h))"
  by (auto simp: generateRequestHmac_def split: option.splits bind_split)

lemma scope_sizes:
  assumes "length region \<le> MAX_REGION_NAME_LEN" "ri_region r = region"
  shows "generateCredentialScope (Some r) (Some date) False (Some n) = (STATUS_SUCCESS, '''', Some 173)"
    "generateCredentialScope (Some r) (Some date) True (Some 173) = (STATUS_SUCCESS, sigv4_scope date region, Some (of_nat (length (sigv4_scope date region))))"
proof -
  show "generateCredentialScope (Some r) (Some date) False (Some n) = (STATUS_SUCCESS, '''', Some 173)"
    by (simp add: generateCredentialScope_def Let_def SIGNATURE_DATE_TIME_STRING_LEN_def MAX_REGION_NAME_LEN_def KINESIS_VIDEO_SERVICE_NAME_def AWS_SIG_V4_SIGNATURE_END_def)
  have lt: "length (sigv4_scope date region) < unat (173 :: UINT32)"
    using length_sigv4_scope [of date region] assms(1) by (simp add: MAX_REGION_NAME_LEN_def)
  note S = SNPRINTF_fits [OF lt]
  have "0 < length (sigv4_scope date region)" by (simp add: sigv4_scope_def)
  then have "(0 :: UINT32) < of_nat (length (sigv4_scope date region))" "of_nat (length (sigv4_scope date region)) \<le> (173 :: UINT32)"
    using lt S(2) by (simp_all add: word_less_nat_alt word_le_nat_alt)
  then show "generateCredentialScope (Some r) (Some date) True (Some 173) = (STATUS_SUCCESS, sigv4_scope date region, Some (of_nat (length (sigv4_scope date region))))"
    unfolding generateCredentialScope_def prod.case option.case Let_def scope_string_eq assms(2) S(1) by simp
qed

context signer
begin

lemma sign_request_result:
  assumes view: "credentials_view (unat (se_maxAuth E)) c accessKeyId secret"
    and region: "length (ri_region r) \<le> MAX_REGION_NAME_LEN" and date: "length date = 16"
    and mem: "se_signedStrMemory E"
    and scratch: "unat n = k + unat (se_maxAuth E) + 10000" "length signedHeaders \<le> k" "unat m = length signedHeaders"
    and hs: "signedHeaders = sigv4_signed hs"
  defines "scope \<equiv> sigv4_scope date (ri_region r)"
  shows "sign_request E c r date auth n (hex_string False (se_SHA256 E request)) scope (of_nat (length scope)) signedHeaders m =
    (case sigv4_signature (se_HMAC E) (se_SHA256 E) secret date (ri_region r) request of
       None \<Rightarrow> Some (STATUS_HMAC_GENERATION_ERROR, None, 0)
     | Some s \<Rightarrow> let info = sigv4_info auth accessKeyId date (ri_region r) hs s in Some (STATUS_SUCCESS, Some info, of_nat (length info)))"
proof -
  note V = view [unfolded credentials_view_def]
  have cb: "cred_bytes c (ac_secretKey c) (unat (ac_secretKeyLen c)) = Some secret" "cstring_at c (ac_accessKeyId c) = Some accessKeyId" using V by blast+
  let ?hash = "hex_string False (se_SHA256 E request)"
  define str where "str = signed_string date scope ?hash"
  have str: "str = sigv4_to_sign (se_SHA256 E) date (ri_region r) request"
    by (simp add: str_def signed_string_def sigv4_to_sign_def scope_def AWS_SIG_V4_ALGORITHM_def)
  have sl: "length scope \<le> 163" using length_sigv4_scope [of date "ri_region r"] region by (simp add: scope_def MAX_REGION_NAME_LEN_def)
  have ls: "length str = length scope + 99" by (simp add: str_def signed_string_def AWS_SIG_V4_ALGORITHM_def date sha_length)
  have cap: "of_nat (length AWS_SIG_V4_ALGORITHM) + 1 + SIGNATURE_DATE_TIME_STRING_LEN + 1 + of_nat (length scope) + 1 + (2 * SHA256_DIGEST_LENGTH + 1) + 1 =
      (of_nat (length scope + 102) :: UINT32)"
    by (simp add: AWS_SIG_V4_ALGORITHM_def SIGNATURE_DATE_TIME_STRING_LEN_def SHA256_DIGEST_LENGTH_def)
  have uc: "unat (of_nat (length scope + 102) :: UINT32) = length scope + 102" by (rule unat_of_nat_small) (use sl in simp)
  have lt: "length str < unat (of_nat (length scope + 102) :: UINT32)" unfolding uc ls by simp
  note S = SNPRINTF_fits [OF lt]
  have ok1: "(0 :: UINT32) < of_nat (length str)" "(of_nat (length str) :: UINT32) < of_nat (length scope + 102)"
    using lt S(2) ls by (simp_all only: word_less_nat_alt) simp
  have start: "\<not> unat n < length AWS_SIG_V4_SIGNATURE_START + unat (ac_secretKeyLen c)"
    using V scratch(1) by (simp add: AWS_SIG_V4_SIGNATURE_START_def)
  have chain: "hmac_chain E (AWS_SIG_V4_SIGNATURE_START @ secret)
      [take SIGNATURE_DATE_STRING_LEN date, ri_region r, KINESIS_VIDEO_SERVICE_NAME, AWS_SIG_V4_SIGNATURE_END, str] =
    (case do { key \<leftarrow> sigv4_key (se_HMAC E) secret date (ri_region r); se_HMAC E key str } of
       None \<Rightarrow> (STATUS_HMAC_GENERATION_ERROR, '''') | Some h \<Rightarrow> (STATUS_SUCCESS, h))"
    unfolding hmac_chain_bind sigv4_key_def SIGNATURE_DATE_STRING_LEN_def KINESIS_VIDEO_SERVICE_NAME_def AWS_SIG_V4_SIGNATURE_END_def AWS_SIG_V4_SIGNATURE_START_def
    by (simp add: bind_assoc)
  define info where "info h = (if auth then auth_header (precision (unat (ac_accessKeyIdLen c)) accessKeyId) scope (precision (unat m) signedHeaders) (hex_string False h)
      else signature_param (hex_string False h))" for h
  have info: "info h = sigv4_info auth accessKeyId date (ri_region r) hs (hex_string False h)" for h
    using V scratch(3) by (simp add: info_def sigv4_info_def auth_header_def signature_param_def precision_def scope_def hs AWS_SIG_V4_ALGORITHM_def)
  have hx: "hexEncodeCase (se_utils E) h (KVS_MAX_HMAC_SIZE * 2 + 1) False = (STATUS_SUCCESS, hex_string False h)" if "length h = 32" for h
    using qu.hexEncode_fits [of h "KVS_MAX_HMAC_SIZE * 2 + 1" False] that by (simp add: qu.utils KVS_MAX_HMAC_SIZE_def)
  have fin: "SNPRINTF n (info h) = (of_nat (length (info h)), info h)" "of_nat (length (info h)) > (0 :: UINT32)" "of_nat (length (info h)) < n" if "length h = 32" for h
  proof -
    have "length (info h) \<le> length accessKeyId + 163 + length signedHeaders + 200"
      unfolding info using that sl by (simp add: sigv4_info_def hs scope_def)
    then have lt: "length (info h) < unat n" using V scratch(1,2) by simp
    note T = SNPRINTF_fits [OF lt]
    have "0 < length (info h)" by (simp add: info sigv4_info_def)
    then show "SNPRINTF n (info h) = (of_nat (length (info h)), info h)" "of_nat (length (info h)) > (0 :: UINT32)" "of_nat (length (info h)) < n"
      using T lt by (simp_all only: word_less_nat_alt) simp
  qed
  show ?thesis
  proof (cases "do { key \<leftarrow> sigv4_key (se_HMAC E) secret date (ri_region r); se_HMAC E key str }")
    case None
    then have sg: "sigv4_signature (se_HMAC E) (se_SHA256 E) secret date (ri_region r) request = None"
      by (auto simp: sigv4_signature_def str split: bind_splits)
    show ?thesis
      unfolding sign_request_def Let_def cap str_def [symmetric] S(1) sg cb prod.case bind.bind_lunit chain None using ok1 mem start by simp
  next
    case (Some h)
    then obtain key where key: "sigv4_key (se_HMAC E) secret date (ri_region r) = Some key" "se_HMAC E key str = Some h"
      by (auto split: bind_splits)
    have hl: "length h = 32" by (rule hmac_length [OF key(2)])
    have sg: "sigv4_signature (se_HMAC E) (se_SHA256 E) secret date (ri_region r) request = Some (hex_string False h)"
      using key by (simp add: sigv4_signature_def str)
    show ?thesis
      unfolding sign_request_def Let_def cap str_def [symmetric] S(1) sg cb prod.case bind.bind_lunit chain Some option.case info [symmetric]
      using ok1 mem start hx [OF hl] fin [OF hl] by (simp add: info_def [symmetric])
  qed
qed

end

text \<open>All buffers of the signer can be allocated.\<close>

definition signer_memory :: "('l, 'n) signer_env \<Rightarrow> bool" where
  "signer_memory E \<longleftrightarrow> se_scratchMemory E \<and> se_scopeMemory E \<and> se_signedHeadersMemory E \<and> se_signedStrMemory E \<and> se_credsMemory E"

text \<open>A request that can be signed: its URL has a path or a query, and everything fits its buffer.\<close>

definition signable ::
    "('l \<Rightarrow> UINT64 list) \<Rightarrow> ('l, 'n) signer_env \<Rightarrow> hheap \<Rightarrow> 'l RequestInfo \<Rightarrow> string \<Rightarrow> string \<Rightarrow> string \<Rightarrow> string \<Rightarrow> bool" where
  "signable items E hh r scheme host path query \<longleftrightarrow> url_parts scheme host path query \<and> (path \<noteq> [] \<or> query \<noteq> []) \<and>
     ri_url r = url_of scheme host path query \<and> length (ri_url r) \<le> qe_maxUri (se_query E) \<and> request_inv items r hh \<and>
     headers_ok hh (header_list items r) \<and> length (ri_region r) \<le> MAX_REGION_NAME_LEN"

context signer
begin

lemma request_and_size:
  assumes sg: "signable items E hh r scheme host path query"
  shows "\<exists>n. generateCanonicalRequestString E hh (Some r) False (Some 0) = Some (STATUS_SUCCESS, '''', Some n) \<and>
    generateCanonicalRequestString E hh (Some r) True (Some n) =
      Some (STATUS_SUCCESS, sigv4_text space E items hh r path query, Some (of_nat (length (sigv4_text space E items hh r path query)))) \<and>
    length (sigv4_text space E items hh r path query) \<le> unat n"
proof -
  note G = sg [unfolded signable_def]
  obtain l where l: "ri_pRequestHeaders r = Some l" "length (items l) \<le> MAX_REQUEST_HEADER_COUNT" using G by (auto simp: request_inv_def)
  have ok: "headers_ok hh (items l)" using G l(1) by (simp add: header_list_def)
  define n where "n = canonical_request_size E (of_nat (length (items l)))"
  have fit: "length (sigv4_text space E items hh r path query) \<le> unat n"
    unfolding n_def request_size [OF l(2)] by (rule request_text_bound [OF _ _ _ l(1) ok]) (use G in auto)
  have "generateCanonicalRequestString E hh (Some r) False (Some 0) = Some (STATUS_SUCCESS, '''', Some n)"
    using l(1) by (simp add: generateCanonicalRequestString_def rq.list_ops rq.count n_def)
  moreover have "generateCanonicalRequestString E hh (Some r) True (Some n) =
      Some (STATUS_SUCCESS, sigv4_text space E items hh r path query, Some (of_nat (length (sigv4_text space E items hh r path query))))"
    by (rule canonical_request_fits [OF _ _ _ l(1) ok fit]) (use G in auto)
  ultimately show ?thesis using fit by blast
qed

lemma signature_result:
  assumes sg: "signable items E hh r scheme host path query" and mem: "signer_memory E"
    and creds: "ri_pAwsCredentials r \<noteq> 0" "get_credentials ch (ri_pAwsCredentials r) = Some c"
      "credentials_view (unat (se_maxAuth E)) c accessKeyId secret" and date: "length date = 16"
  shows "generateAwsSigV4Signature E ch hh (Some r) (Some date) auth True =
    (case sigv4_signature (se_HMAC E) (se_SHA256 E) secret date (ri_region r) (sigv4_text space E items hh r path query) of
       None \<Rightarrow> Some (STATUS_HMAC_GENERATION_ERROR, None, 0)
     | Some s \<Rightarrow> let info = sigv4_info auth accessKeyId date (ri_region r) (map (header_pair hh) (header_list items r)) s in
         Some (STATUS_SUCCESS, Some info, of_nat (length info)))"
proof -
  note G = sg [unfolded signable_def] and M = mem [unfolded signer_memory_def]
  obtain l where l: "ri_pRequestHeaders r = Some l" "length (items l) \<le> MAX_REQUEST_HEADER_COUNT" using G by (auto simp: request_inv_def)
  have hl: "header_list items r = items l" using l(1) by (simp add: header_list_def)
  have ok: "headers_ok hh (items l)" using G hl by simp
  let ?R = "sigv4_text space E items hh r path query" and ?S = "sigv4_signed (map (header_pair hh) (items l))"
  define n where "n = canonical_request_size E (of_nat (length (items l)))"
  have un: "unat n = 2 * qe_maxUri (se_query E) + length (items l) * 2307 + 72" unfolding n_def by (rule request_size [OF l(2)])
  have fit: "length ?R \<le> unat n" unfolding un by (rule request_text_bound [OF _ _ _ l(1) ok]) (use G in auto)
  have size: "generateCanonicalRequestString E hh (Some r) False (Some 0) = Some (STATUS_SUCCESS, '''', Some n)"
    using l(1) by (simp add: generateCanonicalRequestString_def rq.list_ops rq.count n_def)
  have str: "generateCanonicalRequestString E hh (Some r) True (Some n) = Some (STATUS_SUCCESS, ?R, Some (of_nat (length ?R)))"
    by (rule canonical_request_fits [OF _ _ _ l(1) ok fit]) (use G in auto)
  have sb: "length ?S \<le> length (items l) * 128" by (rule sigv4_signed_length [OF ok])
  then have ss: "length ?S < 2 ^ 32" using l(2) by (simp add: MAX_REQUEST_HEADER_COUNT_def)
  have us: "unat (of_nat (length ?S) :: UINT32) = length ?S" by (rule unat_of_nat_small [OF ss])
  have s1: "generateSignedHeaders E hh (Some r) False (Some 0) = Some (STATUS_SUCCESS, '''', Some (of_nat (length ?S)))"
    using signed_headers [OF l(1) ok ss, of False 0] by simp
  have s2: "generateSignedHeaders E hh (Some r) True (Some (of_nat (length ?S))) = Some (STATUS_SUCCESS, ?S, Some (of_nat (length ?S)))"
    using signed_headers [OF l(1) ok ss, of True "of_nat (length ?S)"] us by simp
  note sc = scope_sizes [OF conjunct2 [OF conjunct2 [OF conjunct2 [OF conjunct2 [OF conjunct2 [OF conjunct2 [OF G]]]]]] refl]
  define k where "k = max (unat n) 173"
  have kb: "k < 2 ^ 31 + 2 ^ 20" using un l(2) uri_bound by (simp add: k_def MAX_REQUEST_HEADER_COUNT_def)
  have "unat (max n 173) = k" by (simp add: k_def max_def word_le_nat_alt)
  then have scratch: "unat (max n 173 + se_maxAuth E + SCRATCH_BUFFER_EXTRA) = k + unat (se_maxAuth E) + 10000"
    using kb auth_bound by (simp add: SCRATCH_BUFFER_EXTRA_def unat_word_ariths)
  have sk: "length ?S \<le> k" using sb un by (simp add: k_def)
  have "length (ri_region r) \<le> MAX_REGION_NAME_LEN" using G by simp
  note sr = sign_request_result [OF creds(3) this date _ scratch sk us refl, of auth ?R]
  show ?thesis
    unfolding generateAwsSigV4Signature_def option.case size str s1 s2 sc prod.case bind.bind_lunit Let_def hexEncodedSha256_fits
    using creds(1,2) M sr hl by (simp add: s2 sc str hexEncodedSha256_fits Let_def cong: option.case_cong)
qed

end

text \<open>
  C4: the signature. For a request that can be signed, with enough memory, the code computes exactly the
  signature version 4 of the canonical request: the buffers it sizes for itself are large enough, and the
  only failure is one of the keyed hash. The text it returns is the authorization header or the query
  parameter with that signature.
\<close>

theorem generateAwsSigV4Signature_refines:
  assumes "signer ops items node_at U space E" and "signable items E hh r scheme host path query" and "signer_memory E"
    and "ri_pAwsCredentials r \<noteq> 0" "get_credentials ch (ri_pAwsCredentials r) = Some c"
    and "credentials_view (unat (se_maxAuth E)) c accessKeyId secret" and "length date = 16"
  shows "generateAwsSigV4Signature E ch hh (Some r) (Some date) auth True =
    (case sigv4_signature (se_HMAC E) (se_SHA256 E) secret date (ri_region r) (sigv4_text space E items hh r path query) of
       None \<Rightarrow> Some (STATUS_HMAC_GENERATION_ERROR, None, 0)
     | Some s \<Rightarrow> let info = sigv4_info auth accessKeyId date (ri_region r) (map (header_pair hh) (header_list items r)) s in
         Some (STATUS_SUCCESS, Some info, of_nat (length info)))"
  by (rule signer.signature_result [OF assms])

text \<open>
  C31: the canonical request. The size that is reported without a buffer is enough for every request whose
  URL, headers and header count are within their limits, and the text that is stored is the
  canonical request of the signature scheme.
\<close>

theorem canonical_request_fits_its_size:
  assumes "signer ops items node_at U space E" and "signable items E hh r scheme host path query"
  shows "\<exists>n. generateCanonicalRequestString E hh (Some r) False (Some 0) = Some (STATUS_SUCCESS, '''', Some n) \<and>
    generateCanonicalRequestString E hh (Some r) True (Some n) =
      Some (STATUS_SUCCESS, sigv4_text space E items hh r path query, Some (of_nat (length (sigv4_text space E items hh r path query)))) \<and>
    length (sigv4_text space E items hh r path query) \<le> unat n"
  by (rule signer.request_and_size [OF assms])

context signer
begin

lemma signature_param_size:
  assumes "sigv4_signature (se_HMAC E) (se_SHA256 E) secret date region req = Some s"
  shows "length (signature_param s) = 81"
proof -
  obtain k where "s = hex_string False k" "length k = 32" using assms hmac_length by (auto simp: sigv4_signature_def split: bind_splits)
  then show ?thesis by (simp add: signature_param_def)
qed

end

subsection \<open>Witnesses\<close>

definition sample_digest :: "string \<Rightarrow> string" where
  "sample_digest m = take 32 (m @ replicate 32 (CHR ''0''))"

definition sample_signer_env :: "(UINT64 list, nat) signer_env" where
  "sample_signer_env = \<lparr>se_request = sample_request_env\<lparr>re_malloc := (\<lambda>h. small_calloc h [8, 16, 24, 32])\<rparr>, se_query = sample_query_env\<lparr>qe_malloc := (\<lambda>h. small_calloc h [8, 16, 24, 32, 40, 48, 56, 64])\<rparr>,
     se_HMAC = (\<lambda>k m. Some (sample_digest (m @ k))), se_SHA256 = sample_digest, se_maxAuth = 10000, se_scratchMemory = True, se_scopeMemory = True,
     se_signedHeadersMemory = True, se_signedStrMemory = True, se_credsMemory = True\<rparr>"

interpretation sample_signer: signer plain_list_ops "\<lambda>l. l" "\<lambda>l n i. n = i \<and> i < length l" plain_utils plain_space sample_signer_env
  by unfold_locales
    (auto simp: sample_signer_env_def sample_request_env_def sample_query_env_def small_calloc_def plain_list_ops_def sample_digest_def split: if_splits)

definition sample_credentials :: AwsCredentials where
  "sample_credentials = \<lparr>ac_version = 0, ac_size = 74, ac_accessKeyId = Some 0, ac_accessKeyIdLen = 3, ac_secretKey = Some 4, ac_secretKeyLen = 3,
     ac_sessionToken = None, ac_sessionTokenLen = 0, ac_expiration = 36000000000, ac_data = ''key'' @ [NUL] @ ''sec'' @ [NUL]\<rparr>"

abbreviation sample_credentials_heap :: cheap where "sample_credentials_heap \<equiv> [96 \<mapsto> OCredentials sample_credentials]"

definition sample_signed_request :: "UINT64 list RequestInfo" where
  "sample_signed_request = sample_request_info\<lparr>ri_url := ''https://h/p?a=1'', ri_pAwsCredentials := 96, ri_pRequestHeaders := Some []\<rparr>"

lemma sample_credentials_view: "credentials_view (unat (se_maxAuth sample_signer_env)) sample_credentials ''key'' ''sec''"
  by code_simp

lemma sample_signable: "signable (\<lambda>l. l) sample_signer_env (\<lambda>_. None) sample_signed_request ''https'' ''h'' ''/p'' ''?a=1''"
proof -
  have "url_parts ''https'' ''h'' ''/p'' ''?a=1''" "length (ri_url sample_signed_request) \<le> qe_maxUri (se_query sample_signer_env)"
    "ri_url sample_signed_request = url_of ''https'' ''h'' ''/p'' ''?a=1''" "length (ri_region sample_signed_request) \<le> MAX_REGION_NAME_LEN" by code_simp+
  then show ?thesis by (simp add: signable_def) (simp add: sample_signed_request_def request_inv_def header_list_def headers_ok_def)
qed

lemma sample_signer_memory: "signer_memory sample_signer_env" by code_simp

lemma sample_found: "ri_pAwsCredentials sample_signed_request = 96" "ri_region sample_signed_request = ''r''" "ri_currentTime sample_signed_request = 0"
  "get_credentials sample_credentials_heap 96 = Some sample_credentials"
  by (simp_all add: sample_signed_request_def sample_request_info_def get_credentials_def)

theorem generateAwsSigV4Signature_refines_witness:
  "\<exists>s. generateAwsSigV4Signature sample_signer_env sample_credentials_heap (\<lambda>_. None) (Some sample_signed_request) (Some ''20200102T030405Z'') False True =
     Some (STATUS_SUCCESS, Some (''&X-Amz-Signature='' @ s), 81)"
proof -
  let ?t = "sigv4_text plain_space sample_signer_env (\<lambda>l. l) (\<lambda>_. None) sample_signed_request ''/p'' ''?a=1''"
  obtain s where s: "sigv4_signature (se_HMAC sample_signer_env) (se_SHA256 sample_signer_env) ''sec'' ''20200102T030405Z'' ''r'' ?t = Some s"
    by (simp add: sample_signer_env_def sigv4_signature_def sigv4_key_def)
  then have "length (signature_param s) = 81" by (rule sample_signer.signature_param_size)
  then show ?thesis
    using generateAwsSigV4Signature_refines [OF sample_signer.signer_axioms sample_signable sample_signer_memory _ _ sample_credentials_view, unfolded sample_found,
        OF _ sample_found(4), of "''20200102T030405Z''" False] s
    by (simp add: sigv4_info_def signature_param_def)
qed

theorem canonical_request_fits_its_size_witness:
  "\<exists>n m. generateCanonicalRequestString sample_signer_env (\<lambda>_. None) (Some sample_signed_request) False (Some 0) = Some (STATUS_SUCCESS, '''', Some n) \<and>
     generateCanonicalRequestString sample_signer_env (\<lambda>_. None) (Some sample_signed_request) True (Some n) =
       Some (STATUS_SUCCESS, ''POST'' @ [newline] @ ''/p'' @ [newline] @ ''a=1'' @ [newline] @ [newline] @ [newline] @ hex_string False (sample_digest ''''), m)"
proof -
  have "sigv4_text plain_space sample_signer_env (\<lambda>l. l) (\<lambda>_. None) sample_signed_request ''/p'' ''?a=1'' =
      ''POST'' @ [newline] @ ''/p'' @ [newline] @ ''a=1'' @ [newline] @ [newline] @ [newline] @ hex_string False (sample_digest '''')" by code_simp
  then show ?thesis using canonical_request_fits_its_size [OF sample_signer.signer_axioms sample_signable] by auto
qed

end
