(* ===== verification/Request_Signing.thy ===== *)
theory Request_Signing
  imports Signature_V4
begin

text \<open>
  The two ways to sign a request: \<open>signAwsRequestInfo\<close> adds headers, \<open>signAwsRequestInfoQueryParam\<close>
  rewrites the query of the URL. What is signed is the request as it is sent.
\<close>

subsection \<open>Signing a request\<close>

definition header_pairs :: "('l \<Rightarrow> UINT64 list) \<Rightarrow> 'l RequestInfo \<Rightarrow> hheap \<Rightarrow> header list" where
  "header_pairs items r hh = map (header_pair hh) (header_list items r)"

lemma header_of_ok:
  assumes "arg_ok name nLen" "arg_ok val vLen" "header_args_status (header_arg name nLen) (header_arg val vLen) = STATUS_SUCCESS"
  shows "header_ok (header_of name nLen val vLen)"
proof -
  have len: "(if n = 0 then of_nat (length s) else n) = of_nat (length (header_arg s n))" if "arg_ok s n" for s and n :: UINT32
    using that by (auto simp: header_arg_def arg_ok_def)
  have nul: "NUL \<notin> set (header_arg s n)" if "arg_ok s n" for s and n :: UINT32
    using that by (auto simp: header_arg_def arg_ok_def dest: in_set_takeD)
  show ?thesis
    using assms(3) len [OF assms(1)] len [OF assms(2)] nul [OF assms(1)] nul [OF assms(2)]
    by (auto simp: header_ok_def header_of_def header_args_status_def split: if_splits)
qed

context request_list
begin

lemma set_header_success:
  assumes "request_inv items r hh" "arg_ok name nLen" "arg_ok val vLen"
    and "setRequestHeader E (Some r) (Some name) nLen (Some val) vLen hh = Some (STATUS_SUCCESS, pr, hh')"
  shows "header_ok (header_of name nLen val vLen)"
proof -
  obtain l where l: "ri_pRequestHeaders r = Some l" using assms(1) by (auto simp: request_inv_def)
  have "header_args_status (header_arg name nLen) (header_arg val vLen) = STATUS_SUCCESS"
  proof (rule ccontr)
    assume "header_args_status (header_arg name nLen) (header_arg val vLen) \<noteq> STATUS_SUCCESS"
    then have "createRequestHeader (re_malloc E) hh (Some name) nLen (Some val) vLen True =
        Some (header_args_status (header_arg name nLen) (header_arg val vLen), 0, hh)"
      unfolding createRequestHeader_args [OF assms(2,3)] by (simp add: Let_def)
    then show False
      using assms(4) l \<open>header_args_status (header_arg name nLen) (header_arg val vLen) \<noteq> STATUS_SUCCESS\<close>
      by (auto simp: setRequestHeader_def list_ops count split: if_splits)
  qed
  then show ?thesis by (rule header_of_ok [OF assms(2,3)])
qed

lemma set_header_pairs:
  assumes inv: "request_inv items r hh" and ok: "headers_ok hh (header_list items r)" and arg: "arg_ok name nLen" "arg_ok val vLen"
  shows "\<exists>st r' hh' k. setRequestHeader E (Some r) (Some name) nLen (Some val) vLen hh = Some (st, Some r', hh') \<and> request_inv items r' hh' \<and>
    headers_ok hh' (header_list items r') \<and> (\<exists>l. r' = r\<lparr>ri_pRequestHeaders := l\<rparr>) \<and>
    header_pairs items r' hh' = (if st = STATUS_SUCCESS
      then take k (header_pairs items r hh) @ (header_arg name nLen, header_arg val vLen) # drop k (header_pairs items r hh) else header_pairs items r hh)"
proof -
  let ?h = "header_of name nLen val vLen"
  define k where "k = header_pos hh (fold_key (header_arg name nLen)) (header_list items r)"
  obtain st r' hh' where o: "setRequestHeader E (Some r) (Some name) nLen (Some val) vLen hh = Some (st, Some r', hh')" "request_inv items r' hh'"
      "st \<noteq> STATUS_SUCCESS \<Longrightarrow> hh' = hh \<and> header_list items r' = header_list items r"
      "st = STATUS_SUCCESS \<Longrightarrow> \<exists>p. hh p = None \<and> hh' = hh(p \<mapsto> ?h) \<and> header_list items r' = take k (header_list items r) @ p # drop k (header_list items r)"
    using set_header_args [OF inv arg] unfolding k_def by blast
  have keep: "\<exists>l. r' = r\<lparr>ri_pRequestHeaders := l\<rparr>" by (rule setRequestHeader_keeps [OF o(1)])
  show ?thesis
  proof (cases "st = STATUS_SUCCESS")
    case True
    then obtain p where p: "hh p = None" "hh' = hh(p \<mapsto> ?h)" "header_list items r' = take k (header_list items r) @ p # drop k (header_list items r)"
      using o(4) by blast
    have hok: "header_ok ?h" using set_header_success [OF inv arg] o(1) True by blast
    have other: "x \<noteq> p" if "x \<in> set (header_list items r)" for x using ok that p(1) by (auto simp: headers_ok_def)
    have s: "set (header_list items r') = insert p (set (header_list items r))" unfolding p(3) by (rule insert_at_props(1))
    have "headers_ok hh' (header_list items r')" unfolding headers_ok_def s using ok hok by (auto simp: headers_ok_def p(2))
    moreover have "map (header_pair hh') (take k (header_list items r)) = map (header_pair hh) (take k (header_list items r))"
      "map (header_pair hh') (drop k (header_list items r)) = map (header_pair hh) (drop k (header_list items r))"
      using other by (auto simp: header_pair_def p(2) dest: in_set_takeD in_set_dropD)
    then have "header_pairs items r' hh' = take k (header_pairs items r hh) @ (header_arg name nLen, header_arg val vLen) # drop k (header_pairs items r hh)"
      unfolding header_pairs_def p(3) by (simp add: take_map drop_map) (simp add: header_pair_def p(2) header_of_def)
    ultimately show ?thesis using o(1,2) keep True by (intro exI [of _ st] exI [of _ r'] exI [of _ hh'] exI [of _ k]) simp
  next
    case False
    then show ?thesis using o keep ok by (intro exI [of _ st] exI [of _ r'] exI [of _ hh'] exI [of _ k]) (simp add: header_pairs_def)
  qed
qed

end

definition args_ok :: "(string \<times> PCHAR \<times> UINT32) list \<Rightarrow> bool" where
  "args_ok hs \<longleftrightarrow> (\<forall>(name, val, len)\<in>set hs. arg_ok name 0 \<and> (\<exists>s. val = Some s \<and> arg_ok s len))"

lemma signed_pairs_insert:
  "\<not> IS_CANONICAL_HEADER_NAME n \<Longrightarrow> signed_pairs (take k xs @ (n, v) # drop k xs) = signed_pairs xs"
proof -
  assume "\<not> IS_CANONICAL_HEADER_NAME n"
  moreover have "signed_pairs xs = signed_pairs (take k xs @ drop k xs)" by (simp only: append_take_drop_id)
  ultimately show ?thesis by (simp only: signed_pairs_def filter_append filter.simps fst_conv if_False)
qed

context signer
begin

lemma set_headers_outcome:
  assumes "request_inv items r hh" "headers_ok hh (header_list items r)" "args_ok hs"
  shows "\<exists>st r' hh'. set_headers E (Some r) hh hs = Some (st, Some r', hh') \<and> request_inv items r' hh' \<and> headers_ok hh' (header_list items r') \<and>
    (\<exists>l. r' = r\<lparr>ri_pRequestHeaders := l\<rparr>) \<and> set (header_pairs items r hh) \<subseteq> set (header_pairs items r' hh') \<and>
    (st = STATUS_SUCCESS \<longrightarrow> (\<forall>(name, val, len)\<in>set hs. (name, header_arg (the val) len) \<in> set (header_pairs items r' hh'))) \<and>
    ((\<forall>(name, val, len)\<in>set hs. \<not> IS_CANONICAL_HEADER_NAME name) \<longrightarrow> signed_pairs (header_pairs items r' hh') = signed_pairs (header_pairs items r hh))"
  using assms
proof (induction hs arbitrary: r hh)
  case Nil
  then show ?case by (intro exI [of _ STATUS_SUCCESS] exI [of _ r] exI [of _ hh]) (auto intro: exI [of _ "ri_pRequestHeaders r"])
next
  case (Cons a hs)
  obtain name val len where a: "a = (name, val, len)" by (cases a) auto
  obtain s where s: "val = Some s" "arg_ok name 0" "arg_ok s len" "args_ok hs" using Cons(4) a by (auto simp: args_ok_def)
  have n0: "header_arg name 0 = name" by (simp add: header_arg_def)
  obtain st r1 hh1 k where o: "setRequestHeader (se_request E) (Some r) (Some name) 0 (Some s) len hh = Some (st, Some r1, hh1)" "request_inv items r1 hh1"
      "headers_ok hh1 (header_list items r1)" "\<exists>l. r1 = r\<lparr>ri_pRequestHeaders := l\<rparr>"
      "header_pairs items r1 hh1 = (if st = STATUS_SUCCESS
        then take k (header_pairs items r hh) @ (name, header_arg s len) # drop k (header_pairs items r hh) else header_pairs items r hh)"
    using rq.set_header_pairs [OF Cons(2,3) s(2,3)] unfolding n0 by blast
  have sub: "set (header_pairs items r hh) \<subseteq> set (header_pairs items r1 hh1)"
    unfolding o(5) using insert_at_props(1) [of k "header_pairs items r hh"] by auto
  have sp: "\<not> IS_CANONICAL_HEADER_NAME name \<Longrightarrow> signed_pairs (header_pairs items r1 hh1) = signed_pairs (header_pairs items r hh)"
    unfolding o(5) by (simp add: signed_pairs_insert)
  show ?case
  proof (cases "st = STATUS_SUCCESS")
    case True
    have inn: "(name, header_arg s len) \<in> set (header_pairs items r1 hh1)" unfolding o(5) using True by simp
    from Cons(1) [OF o(2,3) s(4)] obtain st' r' hh' where i: "set_headers E (Some r1) hh1 hs = Some (st', Some r', hh')" "request_inv items r' hh'"
        "headers_ok hh' (header_list items r')" "\<exists>l. r' = r1\<lparr>ri_pRequestHeaders := l\<rparr>" "set (header_pairs items r1 hh1) \<subseteq> set (header_pairs items r' hh')"
        "st' = STATUS_SUCCESS \<longrightarrow> (\<forall>(name, val, len)\<in>set hs. (name, header_arg (the val) len) \<in> set (header_pairs items r' hh'))"
        "(\<forall>(name, val, len)\<in>set hs. \<not> IS_CANONICAL_HEADER_NAME name) \<longrightarrow> signed_pairs (header_pairs items r' hh') = signed_pairs (header_pairs items r1 hh1)"
      by blast
    have "set_headers E (Some r) hh (a # hs) = Some (st', Some r', hh')" using o(1) i(1) True by (simp add: a s(1))
    moreover have "\<exists>l. r' = r\<lparr>ri_pRequestHeaders := l\<rparr>" using o(4) i(4) by auto
    moreover have "st' = STATUS_SUCCESS \<longrightarrow> (\<forall>(name, val, len)\<in>set (a # hs). (name, header_arg (the val) len) \<in> set (header_pairs items r' hh'))"
      using i(5,6) inn by (auto simp: a s(1))
    moreover have "(\<forall>(name, val, len)\<in>set (a # hs). \<not> IS_CANONICAL_HEADER_NAME name) \<longrightarrow> signed_pairs (header_pairs items r' hh') = signed_pairs (header_pairs items r hh)"
      using i(7) sp by (auto simp: a)
    ultimately show ?thesis using i(2,3,5) sub by blast
  next
    case False
    have "set_headers E (Some r) hh (a # hs) = Some (st, Some r1, hh1)" using o(1) False by (simp add: a s(1))
    then show ?thesis using o(2-4) sub sp False by (intro exI [of _ st] exI [of _ r1] exI [of _ hh1]) (auto simp: a)
  qed
qed

end

lemma two_digits_ok:
  assumes "0 \<le> n" "n \<le> 99"
  shows "length (two_digits n) = 2" "NUL \<notin> set (two_digits n)"
proof -
  show "length (two_digits n) = 2" by (simp add: two_digits_def)
  have "48 + nat n div 10 < 256" "48 + nat n mod 10 < 256" using assms by auto
  then show "NUL \<notin> set (two_digits n)" by (simp add: two_digits_def char_of_eq_iff take_bit_nat_eq_self [of _ 8])
qed

lemma signature_date:
  assumes "generateSignatureDateTime t True = (st, d)"
  shows "st = STATUS_SUCCESS \<and> (\<exists>s. d = Some s \<and> length s = 16 \<and> NUL \<notin> set s) \<or> st = STATUS_BUFFER_TOO_SMALL \<and> d = None"
proof -
  define g where "g = gmtime (uint (t div HUNDREDS_OF_NANOS_IN_A_SECOND))"
  define s where "s = signature_date_time g"
  note R = gmtime_ranges [of "uint (t div HUNDREDS_OF_NANOS_IN_A_SECOND)", folded g_def]
  have two: "length (two_digits n) = 2 \<and> NUL \<notin> set (two_digits n)" if "0 \<le> n" "n \<le> 99" for n using two_digits_ok that by blast
  have y: "4 \<le> length (decimal (nat (tm_year g + 1900)))" using length_decimal_ge [of 3 "nat (tm_year g + 1900)"] R by simp
  have parts: "length (two_digits (tm_mon g + 1)) = 2 \<and> NUL \<notin> set (two_digits (tm_mon g + 1))"
    "length (two_digits (tm_mday g)) = 2 \<and> NUL \<notin> set (two_digits (tm_mday g))" "length (two_digits (tm_hour g)) = 2 \<and> NUL \<notin> set (two_digits (tm_hour g))"
    "length (two_digits (tm_min g)) = 2 \<and> NUL \<notin> set (two_digits (tm_min g))" "length (two_digits (tm_sec g)) = 2 \<and> NUL \<notin> set (two_digits (tm_sec g))"
    by (rule two; use R in simp)+
  have len: "length s = length (decimal (nat (tm_year g + 1900))) + 12" using parts by (simp add: s_def signature_date_time_def)
  have nul: "NUL \<notin> set s" using parts decimal_NUL by (simp add: s_def signature_date_time_def NUL_char)
  show ?thesis
    using assms y len nul by (auto simp: generateSignatureDateTime_def Let_def g_def [symmetric] s_def [symmetric] SIGNATURE_DATE_TIME_STRING_LEN_def split: if_splits)
qed

lemma tolower_NUL: "tolower c = NUL \<longleftrightarrow> c = NUL"
  by (auto simp: tolower_def code_def char_of_eq_iff take_bit_nat_eq_self [of _ 8])

lemma hex_string_NUL: "NUL \<notin> set (hex_string u bs)"
proof -
  have "NUL \<notin> set (hex_byte u c)" for c
  proof -
    have "code c div 16 < 16" "code c mod 16 < 16" using code_bound [of c] by simp_all
    then have "hex_digit u (code c div 16) \<noteq> NUL" "hex_digit u (code c mod 16) \<noteq> NUL" by (simp_all only: hex_digit_not_NUL not_False_eq_True)
    then show ?thesis unfolding hex_byte_def list.set by (metis empty_iff insert_iff)
  qed
  then show ?thesis by (auto simp: hex_string_def)
qed

lemma signed_text_NUL:
  assumes "headers_ok hh xs"
  shows "NUL \<notin> set (signed_text a (map (header_pair hh) xs))"
  using assms
proof (induction xs arbitrary: a)
  case Nil
  then show ?case by (simp add: signed_text_def sigv4_signed_def signed_pairs_def)
next
  case (Cons x xs)
  obtain h where h: "hh x = Some h" "header_ok h" "headers_ok hh xs" using Cons(2) by (auto simp: headers_ok_def)
  have "NUL \<notin> set (rh_pName h)" using h(2) by (simp add: header_ok_def)
  then have "NUL \<notin> tolower ` set (rh_pName h)" using tolower_NUL by (metis imageE)
  then show ?case using Cons(1) [OF h(3)] by (simp add: signed_text_Cons header_pair_def h(1) NUL_char)
qed

lemma not_canonical:
  "\<not> IS_CANONICAL_HEADER_NAME AWS_SIG_V4_HEADER_AUTH" "\<not> IS_CANONICAL_HEADER_NAME AWS_SIG_V4_HEADER_AMZ_SECURITY_TOKEN"
  by (simp_all add: IS_CANONICAL_HEADER_NAME_def)

lemma names_ok:
  "arg_ok AWS_SIG_V4_HEADER_AUTH 0" "arg_ok AWS_SIG_V4_HEADER_AMZ_SECURITY_TOKEN 0" "arg_ok AWS_SIG_V4_HEADER_HOST 0" "arg_ok AWS_SIG_V4_HEADER_AMZ_DATE 0"
  "arg_ok AWS_SIG_V4_CONTENT_TYPE_NAME 0" "arg_ok AWS_SIG_V4_CONTENT_TYPE_VALUE 0" "arg_ok ''content-length'' 0"
  by (simp_all add: arg_ok_def NUL_char AWS_SIG_V4_HEADER_AUTH_def AWS_SIG_V4_HEADER_AMZ_SECURITY_TOKEN_def AWS_SIG_V4_HEADER_HOST_def
      AWS_SIG_V4_HEADER_AMZ_DATE_def AWS_SIG_V4_CONTENT_TYPE_NAME_def AWS_SIG_V4_CONTENT_TYPE_VALUE_def)

text \<open>Two requests with the same signed headers have the same canonical form.\<close>

lemma sigv4_text_cong:
  assumes "signed_pairs (header_pairs items r' hh') = signed_pairs (header_pairs items r hh)" "\<exists>l. r' = r\<lparr>ri_pRequestHeaders := l\<rparr>"
  shows "sigv4_text space E items hh' r' path query = sigv4_text space E items hh r path query"
    "sigv4_info auth a date region (header_pairs items r' hh') s = sigv4_info auth a date region (header_pairs items r hh) s"
  using assms by (auto simp: sigv4_text_def sigv4_request_def sigv4_headers_def sigv4_signed_def sigv4_info_def header_pairs_def)

context signer
begin

lemma signature_info_ok:
  assumes "headers_ok hh (header_list items r)" "length (header_list items r) \<le> MAX_REQUEST_HEADER_COUNT" "credentials_view (unat (se_maxAuth E)) c accessKeyId secret"
    "length region \<le> MAX_REGION_NAME_LEN" "NUL \<notin> set region" "length date = 16" "NUL \<notin> set date"
    "sigv4_signature (se_HMAC E) (se_SHA256 E) secret date region request = Some s"
  defines "info \<equiv> sigv4_info True accessKeyId date region (header_pairs items r hh) s"
  shows "arg_ok info (of_nat (length info))" "header_arg info (of_nat (length info)) = info"
proof -
  obtain h where h: "s = hex_string False h" "length h = 32" using assms(8) hmac_length by (auto simp: sigv4_signature_def split: bind_splits)
  have "cstring_at c (ac_accessKeyId c) = Some accessKeyId" "length accessKeyId < 2 ^ 30" using assms(3) auth_bound by (auto simp: credentials_view_def)
  then have ak: "NUL \<notin> set accessKeyId" by (auto simp: cstring_at_def dest: set_takeWhileD)
  have st: "sigv4_signed (header_pairs items r hh) = signed_text False (map (header_pair hh) (header_list items r))"
    by (simp add: signed_text_def header_pairs_def)
  have sn: "NUL \<notin> set (sigv4_signed (header_pairs items r hh))" unfolding st by (rule signed_text_NUL [OF assms(1)])
  have sl: "length (sigv4_signed (header_pairs items r hh)) \<le> 25600"
    using signed_text_length [OF assms(1), of False] assms(2) unfolding st by (simp add: MAX_REQUEST_HEADER_COUNT_def)
  have sc: "NUL \<notin> set (sigv4_scope date region)" using assms(5,7) by (auto simp: sigv4_scope_def NUL_char dest: in_set_takeD)
  have scl: "length (sigv4_scope date region) \<le> 163" using length_sigv4_scope [of date region] assms(4) by (simp add: MAX_REGION_NAME_LEN_def)
  have nul: "NUL \<notin> set info" using ak sn sc hex_string_NUL by (simp add: info_def sigv4_info_def h(1) NUL_char)
  have "length info = length accessKeyId + length (sigv4_scope date region) + length (sigv4_signed (header_pairs items r hh)) + 121"
    by (simp add: info_def sigv4_info_def h)
  then have len: "length info < 2 ^ 32" "info \<noteq> []" using \<open>length accessKeyId < 2 ^ 30\<close> sl scl by auto
  have u: "unat (of_nat (length info) :: UINT32) = length info" by (rule unat_of_nat_small [OF len(1)])
  show "arg_ok info (of_nat (length info))" using nul len u by (simp add: arg_ok_def)
  show "header_arg info (of_nat (length info)) = info" using u by (simp add: header_arg_def)
qed

lemma host_arg:
  assumes "url_parts scheme host path query" "CHR '':'' \<notin> set host" "ri_url r = url_of scheme host path query"
  shows "\<exists>i. i = length scheme + 3 \<and> getRequestHost (Some (ri_url r)) True = (STATUS_SUCCESS, Some i, Some (i + length host)) \<and>
    arg_ok (drop i (ri_url r)) (of_nat (length host)) \<and> header_arg (drop i (ri_url r)) (of_nat (length host)) = host"
proof -
  note p = assms(1) [unfolded url_parts_def]
  define base where "base = scheme @ ''://''"
  define rest where "rest = path @ query"
  have u: "ri_url r = base @ host @ rest" by (simp add: assms(3) url_of_def base_def rest_def)
  have lb: "length base = length scheme + 3" by (simp add: base_def)
  have l3: "length SCHEMA_DELIMITER_STRING = 3" by (simp add: SCHEMA_DELIMITER_STRING_def)
  have ss: "STRSTR (ri_url r) SCHEMA_DELIMITER_STRING = Some (length scheme)"
    unfolding assms(3) url_of_def by (rule scheme_delimiter) (use p in simp)
  have r: "rest = [] \<or> hd rest \<in> {CHR ''/'', CHR '':'', CHR ''?''}" using p by (cases path) (auto simp: rest_def)
  have "\<forall>c\<in>set host. c \<notin> {CHR ''/'', CHR '':'', CHR ''?''}" using p assms(2) by auto
  from host_end_host [OF this r, of "length base"]
  have he: "host_end (drop (length base) (ri_url r)) (length base) (length (ri_url r)) = length base + length host" by (simp add: u)
  have h: "getRequestHost (Some (ri_url r)) True = (STATUS_SUCCESS, Some (length base), Some (length base + length host))"
    unfolding getRequestHost_def option.case ss l3 lb [symmetric] Let_def he using p by (simp add: u)
  have d: "drop (length base) (ri_url r) = host @ rest" by (simp add: u)
  have "NUL \<notin> set (ri_url r)" "length (ri_url r) < 2 ^ 32" using p assms(3) by simp_all
  then have nul: "NUL \<notin> set (host @ rest)" "length (host @ rest) < 2 ^ 32" unfolding u by simp_all
  have un: "unat (of_nat (length host) :: UINT32) = length host" by (rule unat_of_nat_small) (use nul in simp)
  then have nz: "(of_nat (length host) :: UINT32) \<noteq> 0" using p by auto
  show ?thesis
    by (rule exI [of _ "length base"]) (use h nul un nz d in \<open>simp add: lb arg_ok_def header_arg_def\<close>)
qed

lemma content_length:
  "\<exists>s. ULTOSTR (se_utils E) (ucast (n :: UINT32)) 16 10 = (STATUS_SUCCESS, s) \<and> arg_ok s 0"
proof -
  let ?v = "unat (ucast n :: UINT64)"
  have "?v < 10 ^ Suc 9" using unat_bound [of n] by (simp add: unsigned_ucast_eq take_bit_nat_eq_self)
  then have le: "length (decimal ?v) \<le> 10" using length_decimal_le [of ?v 9] by simp
  then have "ULTOSTR U (ucast n) 16 10 = (STATUS_SUCCESS, decimal ?v)" by (intro qu.ULTOSTR_decimal) simp
  then show ?thesis using le decimal_NUL by (simp add: qu.utils arg_ok_def)
qed

lemma request_headers_set:
  assumes inv: "request_inv items r hh" and ok: "headers_ok hh (header_list items r)" and date: "length date = 16" "NUL \<notin> set date"
    and host: "arg_ok (drop i (ri_url r)) (of_nat (length host))" "header_arg (drop i (ri_url r)) (of_nat (length host)) = host"
  shows "\<exists>st r' hh'. set_request_headers E r (Some date) i (i + length host) hh = Some (st, Some r', hh') \<and>
    request_inv items r' hh' \<and> headers_ok hh' (header_list items r') \<and> (\<exists>l. r' = r\<lparr>ri_pRequestHeaders := l\<rparr>) \<and>
    (st = STATUS_SUCCESS \<longrightarrow> {(''X-Amz-Date'', date), (''host'', host)} \<subseteq> set (header_pairs items r' hh'))"
proof -
  define hs where "hs = [(AWS_SIG_V4_HEADER_HOST, Some (drop i (ri_url r)), of_nat (length host)),
          (AWS_SIG_V4_HEADER_AMZ_DATE, Some date, 0), (AWS_SIG_V4_CONTENT_TYPE_NAME, Some AWS_SIG_V4_CONTENT_TYPE_VALUE, 0 :: UINT32)]"
  have "args_ok hs" using names_ok host(1) date by (simp add: args_ok_def hs_def) (simp add: arg_ok_def)
  from set_headers_outcome [OF inv ok this]
  obtain st1 r1 hh1 where o: "set_headers E (Some r) hh hs = Some (st1, Some r1, hh1)" "request_inv items r1 hh1" "headers_ok hh1 (header_list items r1)"
      "\<exists>l. r1 = r\<lparr>ri_pRequestHeaders := l\<rparr>"
      "st1 = STATUS_SUCCESS \<longrightarrow> (\<forall>(name, val, len)\<in>set hs. (name, header_arg (the val) len) \<in> set (header_pairs items r1 hh1))" by blast
  have "header_arg date 0 = date" by (simp add: header_arg_def)
  then have mem: "{(''X-Amz-Date'', date), (''host'', host)} \<subseteq> set (header_pairs items r1 hh1)" if "st1 = STATUS_SUCCESS"
    using o(5) that host(2) by (auto simp: hs_def AWS_SIG_V4_HEADER_AMZ_DATE_def AWS_SIG_V4_HEADER_HOST_def)
  have run: "set_request_headers E r (Some date) i (i + length host) hh = (if st1 \<noteq> STATUS_SUCCESS then Some (st1, Some r1, hh1)
      else (case ri_body r of None \<Rightarrow> Some (STATUS_SUCCESS, Some r1, hh1)
      | Some _ \<Rightarrow> (case ULTOSTR (se_utils E) (ucast (ri_bodySize r)) 16 10 of (st2, contentLenBuf) \<Rightarrow>
          if STATUS_FAILED st2 then Some (st2, Some r1, hh1) else set_headers E (Some r1) hh1 [(''content-length'', Some contentLenBuf, 0)])))"
    unfolding set_request_headers_def add_diff_cancel_left' hs_def [symmetric] o(1) by simp
  show ?thesis
  proof (cases "st1 = STATUS_SUCCESS \<and> ri_body r \<noteq> None")
    case False
    then have "set_request_headers E r (Some date) i (i + length host) hh = Some (st1, Some r1, hh1)" using run by auto
    then show ?thesis using o(2-4) mem by blast
  next
    case True
    obtain s where s: "ULTOSTR (se_utils E) (ucast (ri_bodySize r)) 16 10 = (STATUS_SUCCESS, s)" "arg_ok s 0" using content_length by blast
    have "args_ok [(''content-length'', Some s, 0)]" using names_ok s(2) by (simp add: args_ok_def)
    from set_headers_outcome [OF o(2,3) this]
    obtain st r2 hh2 where o2: "set_headers E (Some r1) hh1 [(''content-length'', Some s, 0)] = Some (st, Some r2, hh2)" "request_inv items r2 hh2"
        "headers_ok hh2 (header_list items r2)" "\<exists>l. r2 = r1\<lparr>ri_pRequestHeaders := l\<rparr>" "set (header_pairs items r1 hh1) \<subseteq> set (header_pairs items r2 hh2)" by blast
    have "set_request_headers E r (Some date) i (i + length host) hh = Some (st, Some r2, hh2)" using run True s o2(1) by auto
    moreover have "\<exists>l. r2 = r\<lparr>ri_pRequestHeaders := l\<rparr>" using o(4) o2(4) by auto
    moreover have "st = STATUS_SUCCESS \<longrightarrow> {(''X-Amz-Date'', date), (''host'', host)} \<subseteq> set (header_pairs items r2 hh2)" using o2(5) mem True by auto
    ultimately show ?thesis using o2(2,3) by (intro exI [of _ st] exI [of _ r2] exI [of _ hh2] conjI)
  qed
qed

text \<open>The headers that are added behind the signature do not change what was signed.\<close>

lemma authorization_set:
  assumes inv: "request_inv items r hh" and ok: "headers_ok hh (header_list items r)"
    and creds: "credentials_view (unat (se_maxAuth E)) c accessKeyId secret"
    and region: "length (ri_region r) \<le> MAX_REGION_NAME_LEN" "NUL \<notin> set (ri_region r)" and date: "length date = 16" "NUL \<notin> set date"
    and tok: "ac_sessionTokenLen c \<noteq> 0 \<longrightarrow> (\<exists>t. cstring_at c (ac_sessionToken c) = Some t \<and> arg_ok t (ac_sessionTokenLen c))"
    and sig: "sigv4_signature (se_HMAC E) (se_SHA256 E) secret date (ri_region r) (sigv4_text space E items hh r path query) = Some s"
  defines "info \<equiv> sigv4_info True accessKeyId date (ri_region r) (header_pairs items r hh) s"
  shows "\<exists>st r' hh'. set_headers E (Some r) hh ((AWS_SIG_V4_HEADER_AUTH, Some info, of_nat (length info)) #
       (if ac_sessionTokenLen c \<noteq> 0 then [(AWS_SIG_V4_HEADER_AMZ_SECURITY_TOKEN, cstring_at c (ac_sessionToken c), ac_sessionTokenLen c)] else [])) =
       Some (st, Some r', hh') \<and> request_inv items r' hh' \<and> set (header_pairs items r hh) \<subseteq> set (header_pairs items r' hh') \<and>
    (st = STATUS_SUCCESS \<longrightarrow>
       sigv4_signature (se_HMAC E) (se_SHA256 E) secret date (ri_region r) (sigv4_text space E items hh' r' path query) = Some s \<and>
       (''Authorization'', sigv4_info True accessKeyId date (ri_region r) (header_pairs items r' hh') s) \<in> set (header_pairs items r' hh'))"
proof -
  define hs where "hs = (AWS_SIG_V4_HEADER_AUTH, Some info, of_nat (length info)) #
       (if ac_sessionTokenLen c \<noteq> 0 then [(AWS_SIG_V4_HEADER_AMZ_SECURITY_TOKEN, cstring_at c (ac_sessionToken c), ac_sessionTokenLen c)] else [])"
  have cnt: "length (header_list items r) \<le> MAX_REQUEST_HEADER_COUNT" using inv by (auto simp: request_inv_def header_list_def)
  note I = signature_info_ok [OF ok cnt creds region date sig, folded info_def]
  have args: "args_ok hs" using names_ok I(1) tok by (auto simp: args_ok_def hs_def)
  have nc: "\<forall>(name, val, len)\<in>set hs. \<not> IS_CANONICAL_HEADER_NAME name" using not_canonical by (simp add: hs_def)
  obtain st r' hh' where o: "set_headers E (Some r) hh hs = Some (st, Some r', hh')" "request_inv items r' hh'"
      "\<exists>l. r' = r\<lparr>ri_pRequestHeaders := l\<rparr>" "set (header_pairs items r hh) \<subseteq> set (header_pairs items r' hh')"
      "st = STATUS_SUCCESS \<longrightarrow> (\<forall>(name, val, len)\<in>set hs. (name, header_arg (the val) len) \<in> set (header_pairs items r' hh'))"
      "signed_pairs (header_pairs items r' hh') = signed_pairs (header_pairs items r hh)"
    using set_headers_outcome [OF inv ok args] nc by blast
  note same = sigv4_text_cong [OF o(6,3)]
  have "(''Authorization'', info) \<in> set (header_pairs items r' hh')" if "st = STATUS_SUCCESS"
    using o(5) that I(2) by (auto simp: hs_def AWS_SIG_V4_HEADER_AUTH_def)
  then show ?thesis unfolding hs_def [symmetric] using o(1,2,4) sig by (simp add: same info_def)
qed

lemma signing:
  assumes sg: "signable items E hh r scheme host path query" "CHR '':'' \<notin> set host" and mem: "signer_memory E"
    and creds: "ri_pAwsCredentials r \<noteq> 0" "get_credentials ch (ri_pAwsCredentials r) = Some c"
      "credentials_view (unat (se_maxAuth E)) c accessKeyId secret" and region: "NUL \<notin> set (ri_region r)"
    and tok: "ac_sessionTokenLen c \<noteq> 0 \<longrightarrow> (\<exists>t. cstring_at c (ac_sessionToken c) = Some t \<and> arg_ok t (ac_sessionTokenLen c))"
  shows "\<exists>st r' hh'. signAwsRequestInfo E ch (Some r) hh = Some (st, Some r', hh') \<and> request_inv items r' hh' \<and>
    (st = STATUS_SUCCESS \<longrightarrow> (\<exists>date s. generateSignatureDateTime (ri_currentTime r) True = (STATUS_SUCCESS, Some date) \<and>
       sigv4_signature (se_HMAC E) (se_SHA256 E) secret date (ri_region r) (sigv4_text space E items hh' r' path query) = Some s \<and>
       {(''Authorization'', sigv4_info True accessKeyId date (ri_region r) (header_pairs items r' hh') s), (''X-Amz-Date'', date), (''host'', host)}
         \<subseteq> set (header_pairs items r' hh')))"
proof -
  note G = sg(1) [unfolded signable_def]
  have inv: "request_inv items r hh" and ok: "headers_ok hh (header_list items r)" using G by simp_all
  obtain st1 d where dt: "generateSignatureDateTime (ri_currentTime r) True = (st1, d)" by fastforce
  show ?thesis
  proof (cases "st1 = STATUS_SUCCESS")
    case False
    then have "signAwsRequestInfo E ch (Some r) hh = Some (st1, Some r, hh)" using creds dt by (simp add: signAwsRequestInfo_def)
    then show ?thesis using False inv by blast
  next
    case True
    then obtain date where date: "d = Some date" "length date = 16" "NUL \<notin> set date" using signature_date [OF dt] by auto
    obtain i where host: "getRequestHost (Some (ri_url r)) True = (STATUS_SUCCESS, Some i, Some (i + length host))"
        "arg_ok (drop i (ri_url r)) (of_nat (length host))" "header_arg (drop i (ri_url r)) (of_nat (length host)) = host"
      using host_arg [OF _ sg(2), of scheme path query r] G by blast
    obtain st3 r2 hh2 where o2: "set_request_headers E r (Some date) i (i + length host) hh = Some (st3, Some r2, hh2)" "request_inv items r2 hh2"
        "headers_ok hh2 (header_list items r2)" "\<exists>l. r2 = r\<lparr>ri_pRequestHeaders := l\<rparr>"
        "st3 = STATUS_SUCCESS \<longrightarrow> {(''X-Amz-Date'', date), (''host'', host)} \<subseteq> set (header_pairs items r2 hh2)"
      using request_headers_set [OF inv ok date(2,3) host(2,3)] by blast
    have sg2: "signable items E hh2 r2 scheme host path query" using G o2(2-4) by (auto simp: signable_def)
    have c2: "ri_pAwsCredentials r2 = ri_pAwsCredentials r" "ri_region r2 = ri_region r" using o2(4) by auto
    have reg: "length (ri_region r2) \<le> MAX_REGION_NAME_LEN" "NUL \<notin> set (ri_region r2)" using G region c2 by simp_all
    define res where "res = sigv4_signature (se_HMAC E) (se_SHA256 E) secret date (ri_region r) (sigv4_text space E items hh2 r2 path query)"
    define info where "info s = sigv4_info True accessKeyId date (ri_region r) (header_pairs items r2 hh2) s" for s
    have gen: "generateAwsSigV4Signature E ch hh2 (Some r2) (Some date) True True = (case res of
        None \<Rightarrow> Some (STATUS_HMAC_GENERATION_ERROR, None, 0) | Some s \<Rightarrow> Some (STATUS_SUCCESS, Some (info s), of_nat (length (info s))))"
      using signature_result [OF sg2 mem, unfolded c2, OF creds date(2), of True] unfolding header_pairs_def res_def info_def Let_def .
    have run: "signAwsRequestInfo E ch (Some r) hh = (if st3 \<noteq> STATUS_SUCCESS then Some (st3, Some r2, hh2)
        else (case res of None \<Rightarrow> Some (STATUS_HMAC_GENERATION_ERROR, Some r2, hh2)
          | Some s \<Rightarrow> set_headers E (Some r2) hh2 ((AWS_SIG_V4_HEADER_AUTH, Some (info s), of_nat (length (info s))) #
              (if ac_sessionTokenLen c \<noteq> 0 then [(AWS_SIG_V4_HEADER_AMZ_SECURITY_TOKEN, cstring_at c (ac_sessionToken c), ac_sessionTokenLen c)] else []))))"
      unfolding signAwsRequestInfo_def option.case dt True date(1) host(1) prod.case bind.bind_lunit o2(1)
      using creds gen by (simp split: option.split)
    show ?thesis
    proof (cases "st3 = STATUS_SUCCESS \<and> res \<noteq> None")
      case False
      then show ?thesis using run o2(2) by (cases "st3 = STATUS_SUCCESS"; cases res) auto
    next
      case ok: True
      then obtain s where s: "res = Some s" by auto
      obtain st5 r3 hh3 where o3: "signAwsRequestInfo E ch (Some r) hh = Some (st5, Some r3, hh3)" "request_inv items r3 hh3"
          "set (header_pairs items r2 hh2) \<subseteq> set (header_pairs items r3 hh3)"
          "st5 = STATUS_SUCCESS \<Longrightarrow> sigv4_signature (se_HMAC E) (se_SHA256 E) secret date (ri_region r) (sigv4_text space E items hh3 r3 path query) = Some s \<and>
             (''Authorization'', sigv4_info True accessKeyId date (ri_region r) (header_pairs items r3 hh3) s) \<in> set (header_pairs items r3 hh3)"
        using authorization_set [OF o2(2,3) creds(3) reg date(2,3) tok, of path query s] ok s run unfolding c2 res_def info_def by auto
      have "st5 = STATUS_SUCCESS \<longrightarrow> (\<exists>date s. generateSignatureDateTime (ri_currentTime r) True = (STATUS_SUCCESS, Some date) \<and>
          sigv4_signature (se_HMAC E) (se_SHA256 E) secret date (ri_region r) (sigv4_text space E items hh3 r3 path query) = Some s \<and>
          {(''Authorization'', sigv4_info True accessKeyId date (ri_region r) (header_pairs items r3 hh3) s), (''X-Amz-Date'', date), (''host'', host)}
            \<subseteq> set (header_pairs items r3 hh3))"
        using o2(5) o3(3,4) ok dt True date(1) by (intro impI exI [of _ date] exI [of _ s]) auto
      then show ?thesis using o3(1,2) by (intro exI [of _ st5] exI [of _ r3] exI [of _ hh3] conjI)
    qed
  qed
qed

end

text \<open>
  C29: signing a request. The call returns with the request's headers in order; when it succeeds, the
  request carries the host, the date and an authorization header whose signature is the signature
  version 4 of the request as it is now: the headers that are added behind it are not among the
  signed ones.
\<close>

theorem signAwsRequestInfo_authorizes:
  assumes "signer ops items node_at U space E" and "signable items E hh r scheme host path query" "CHR '':'' \<notin> set host" and "signer_memory E"
    and "ri_pAwsCredentials r \<noteq> 0" "get_credentials ch (ri_pAwsCredentials r) = Some c"
    and "credentials_view (unat (se_maxAuth E)) c accessKeyId secret" and "NUL \<notin> set (ri_region r)"
    and "ac_sessionTokenLen c \<noteq> 0 \<longrightarrow> (\<exists>t. cstring_at c (ac_sessionToken c) = Some t \<and> arg_ok t (ac_sessionTokenLen c))"
  shows "\<exists>st r' hh'. signAwsRequestInfo E ch (Some r) hh = Some (st, Some r', hh') \<and> request_inv items r' hh' \<and>
    (st = STATUS_SUCCESS \<longrightarrow> (\<exists>date s. generateSignatureDateTime (ri_currentTime r) True = (STATUS_SUCCESS, Some date) \<and>
       sigv4_signature (se_HMAC E) (se_SHA256 E) secret date (ri_region r) (sigv4_text space E items hh' r' path query) = Some s \<and>
       {(''Authorization'', sigv4_info True accessKeyId date (ri_region r) (header_pairs items r' hh') s), (''X-Amz-Date'', date), (''host'', host)}
         \<subseteq> set (header_pairs items r' hh')))"
  by (rule signer.signing [OF assms])

subsection \<open>Signing a URL\<close>

text \<open>The parameters that authenticate a URL.\<close>

definition auth_params :: "string \<Rightarrow> string \<Rightarrow> UINT32 \<Rightarrow> string \<Rightarrow> PCHAR \<Rightarrow> (string \<times> string) list" where
  "auth_params creds date expires signedHeaders sessionToken =
     [(''X-Amz-Algorithm'', AWS_SIG_V4_ALGORITHM), (''X-Amz-Credential'', creds), (''X-Amz-Date'', date),
      (''X-Amz-Expires'', decimal (unat expires)), (''X-Amz-SignedHeaders'', signedHeaders)] @
     (case sessionToken of None \<Rightarrow> [] | Some t \<Rightarrow> [(''X-Amz-Security-Token'', t)])"

lemma auth_query_params:
  "auth_query creds date expires signedHeaders sessionToken =
     concat (map (\<lambda>y. CHR ''&'' # y) (map raw_param (auth_params creds date expires signedHeaders sessionToken)))"
  by (simp add: auth_query_def auth_params_def raw_param_def split: option.split)

lemma join_amp_append: "xs \<noteq> [] \<Longrightarrow> join_amp (xs @ ys) = join_amp xs @ concat (map (\<lambda>y. CHR ''&'' # y) ys)"
  by (cases xs) (simp_all add: join_amp_Cons)

lemma set_join_amp: "set (join_amp xs) \<subseteq> insert (CHR ''&'') (\<Union>x\<in>set xs. set x)"
  by (induction xs rule: join_amp.induct) auto

lemma uri_encode_NUL: "NUL \<notin> set (uri_encode s)"
proof (induction s)
  case (Cons c s)
  have "NUL \<notin> set (uri_escape c)"
    using unreserved_not_special [of c] hex_string_NUL [of True "[c]"] by (auto simp: uri_escape_def hex_string_def NUL_char)
  then show ?case using Cons by simp
qed simp

definition canonical_query_of :: "(string \<times> string) list \<Rightarrow> string" where
  "canonical_query_of ps = join_amp (sort_key (map code) (map canonical_param ps))"

lemma canonical_query_NUL:
  assumes "\<forall>p\<in>set ps. param_ok E p"
  shows "NUL \<notin> set (canonical_query_of ps)"
proof -
  have "NUL \<notin> set (canonical_param p)" if "p \<in> set ps" for p
    using assms that uri_encode_NUL [of "snd p"] by (auto simp: canonical_param_def param_ok_def NUL_char)
  then show ?thesis using set_join_amp [of "sort_key (map code) (map canonical_param ps)"] by (auto simp: canonical_query_of_def NUL_char)
qed

lemma url_parts_query:
  assumes "url_parts scheme host path query" "NUL \<notin> set q" "length (url_of scheme host path (CHR ''?'' # q)) < 2 ^ 32"
  shows "url_parts scheme host path (CHR ''?'' # q)"
  using assms by (auto simp: url_parts_def url_of_def NUL_char)

text \<open>The room left in the URL, which the code counts in 32 bits.\<close>

lemma room_diff:
  fixes M :: nat
  assumes "a + b + 1 + c \<le> M"
  shows "(of_nat M :: UINT32) - of_nat a = of_nat (M - a)"
    and "(of_nat (M - a) :: UINT32) - of_nat b = of_nat (M - a - b)"
    and "(of_nat (M - a - b) :: UINT32) - 1 = of_nat (M - a - b - 1)"
    and "(of_nat (M - a - b - 1) :: UINT32) - of_nat c = of_nat (M - a - b - 1 - c)"
  using assms by (simp_all add: of_nat_diff)

lemma unat_room: "M < 2 ^ 30 \<Longrightarrow> n \<le> M \<Longrightarrow> unat (of_nat n :: UINT32) = n"
  by (rule unat_of_nat_small) simp

lemma url_overwrite_query:
  "length Q < n \<Longrightarrow> url_overwrite (base @ CHR ''?'' # J) (length base + 1) Q n = base @ CHR ''?'' # Q"
  by (simp add: url_overwrite_def)

text \<open>A URL with the authentication parameters behind its query.\<close>

definition auth_text :: "(string \<times> string) list \<Rightarrow> string" where
  "auth_text aps = concat (map (\<lambda>y. CHR ''&'' # y) (map raw_param aps))"

lemma url_with_auth:
  assumes "ps \<noteq> []"
  shows "url_of scheme host path (CHR ''?'' # join_amp (map raw_param ps)) @ auth_text aps =
    url_of scheme host path (CHR ''?'' # join_amp (map raw_param (ps @ aps)))"
  using assms join_amp_append [of "map raw_param ps" "map raw_param aps"] by (simp add: url_of_def auth_text_def)

lemma auth_text_NUL:
  assumes "\<forall>p\<in>set aps. param_ok E p" "\<forall>p\<in>set aps. NUL \<notin> set (snd p)"
  shows "NUL \<notin> set (auth_text aps)"
  using assms by (auto simp: auth_text_def raw_param_def param_ok_def NUL_char)

context signer
begin

lemma canonical_url:
  fixes ps aps :: "(string \<times> string) list" and scheme host path :: string
  defines "Q \<equiv> canonical_query_of (ps @ aps)"
    and "url \<equiv> url_of scheme host path (CHR ''?'' # join_amp (map raw_param (ps @ aps)))"
  assumes parts: "url_parts scheme host path (CHR ''?'' # join_amp (map raw_param (ps @ aps)))"
    and ps: "ps @ aps \<noteq> []" "\<forall>p\<in>set (ps @ aps). param_ok (se_query E) p"
    and fit: "length Q \<le> qe_maxUri (se_query E)" "length url \<le> qe_maxUri (se_query E)"
    and pm: "memory_suffices (se_query E) (card (dom h) + length (ps @ aps))"
  shows "getCanonicalQueryParams (se_query E) (Some url) (of_nat (length url)) True True h = Some (STATUS_SUCCESS, Some Q, of_nat (length Q), h)"
    and "\<exists>st d. getCanonicalUri U (Some url) (of_nat (length url)) True = (STATUS_SUCCESS, st, Some (length (scheme @ ''://'' @ host @ path)), d)"
proof -
  have u: "unat (of_nat (length url) :: UINT32) = length url" by (rule unat_of_nat_small) (use fit(2) uri_bound in simp)
  have P4: "length (join_amp (map canonical_param (ps @ aps))) \<le> qe_maxUri (se_query E)"
    using fit(1) join_amp_length [of "sort_key (map code) (map canonical_param (ps @ aps))" "map canonical_param (ps @ aps)"]
    by (simp add: Q_def canonical_query_of_def)
  show "getCanonicalQueryParams (se_query E) (Some url) (of_nat (length url)) True True h = Some (STATUS_SUCCESS, Some Q, of_nat (length Q), h)"
    using qu.canonical_query [OF parts ps P4 fit(2) [unfolded url_def] disjI2 [OF u [unfolded url_def]], of h] pm
    by (auto simp: url_def Q_def canonical_query_of_def)
  show "\<exists>st d. getCanonicalUri U (Some url) (of_nat (length url)) True = (STATUS_SUCCESS, st, Some (length (scheme @ ''://'' @ host @ path)), d)"
    using qu.getCanonicalUri_parts [OF parts, of "of_nat (length url)"] u unfolding url_def by auto
qed

lemma sign_url_result:
  fixes ps aps :: "(string \<times> string) list"
  defines "Q \<equiv> canonical_query_of (ps @ aps)" and "M \<equiv> qe_maxUri (se_query E)"
  assumes sg: "signable items E hh r scheme host path (CHR ''?'' # join_amp (map raw_param ps))" and mem: "signer_memory E"
    and creds: "ri_pAwsCredentials r \<noteq> 0" "get_credentials ch (ri_pAwsCredentials r) = Some c"
      "credentials_view (unat (se_maxAuth E)) c accessKeyId secret" and date: "length date = 16"
    and ps: "ps \<noteq> []" "aps \<noteq> []" "\<forall>p\<in>set (ps @ aps). param_ok (se_query E) p" and nul: "\<forall>p\<in>set aps. NUL \<notin> set (snd p)"
    and fit: "length (ri_url r) + length (auth_text aps) + 1 + length Q + 81 \<le> M"
    and pm: "memory_suffices (se_query E) (card (dom h) + length (ps @ aps))"
  shows "sign_url E ch r hh h (Some date) (auth_text aps) = (let r' = r\<lparr>ri_url := url_of scheme host path (CHR ''?'' # Q)\<rparr> in
    case sigv4_signature (se_HMAC E) (se_SHA256 E) secret date (ri_region r) (sigv4_text space E items hh r' path (CHR ''?'' # Q)) of
      None \<Rightarrow> Some (STATUS_HMAC_GENERATION_ERROR, Some r', hh, h)
    | Some s \<Rightarrow> Some (STATUS_SUCCESS, Some (r\<lparr>ri_url := url_of scheme host path (CHR ''?'' # Q @ signature_param s)\<rparr>), hh, h))"
proof -
  note G = sg [unfolded signable_def]
  define auth where "auth = auth_text aps"
  define u where "u = ri_url r"
  define base where "base = scheme @ ''://'' @ host @ path"
  define J where "J = join_amp (map raw_param (ps @ aps))"
  define r' where "r' = r\<lparr>ri_url := url_of scheme host path (CHR ''?'' # Q)\<rparr>"
  have M: "M < 2 ^ 30" using uri_bound by (simp add: M_def)
  have url1: "u @ auth = url_of scheme host path (CHR ''?'' # J)" using url_with_auth [OF ps(1)] G by (simp add: u_def auth_def J_def)
  have base: "url_of scheme host path x = base @ x" for x by (simp add: base_def url_of_def)
  have au: "auth \<noteq> []" using ps(2) by (cases aps) (auto simp: auth_def auth_text_def)
  have ul: "length u + length auth + 1 + length Q + 81 \<le> M" using fit by (simp add: u_def auth_def)
  have lb: "length base + 1 + length Q + 81 \<le> M" using ul G by (simp add: u_def base)
  have "length u + length auth + 1 + length Q \<le> M" using ul by simp
  note R = room_diff [OF this]
  have U: "unat (of_nat (M - length u) :: UINT32) = M - length u"
    "unat (of_nat (M - length u - length auth - 1) :: UINT32) = M - length u - length auth - 1"
    "unat (of_nat (M - length u - length auth - 1 - length Q) :: UINT32) = M - length u - length auth - 1 - length Q"
    "unat (of_nat (length auth) :: UINT32) = length auth"
    by (rule unat_room [OF M]; use ul in linarith)+
  have pJ: "url_parts scheme host path (CHR ''?'' # J)"
  proof (rule url_parts_query [of _ _ _ "CHR ''?'' # join_amp (map raw_param ps)"])
    have "NUL \<notin> set (u @ auth)" using G auth_text_NUL [of aps] ps(3) nul by (auto simp: u_def auth_def url_parts_def)
    then show "NUL \<notin> set J" by (simp add: url1 base)
  qed (use G ul M in \<open>simp_all flip: url1\<close>)
  have fits: "length Q \<le> M" "length (u @ auth) \<le> M" and ne: "ps @ aps \<noteq> []" using ul ps(1) by simp_all
  note can = canonical_url [OF pJ [unfolded J_def] ne ps(3), folded J_def Q_def M_def, folded url1, OF fits pm]
  obtain st d where cu: "getCanonicalUri U (Some (u @ auth)) (of_nat (length (u @ auth))) True = (STATUS_SUCCESS, st, Some (length base), d)"
    using can(2) unfolding base_def by blast
  have at: "((u @ auth) @ [NUL]) ! length base \<noteq> CHR ''?'' \<longleftrightarrow> False" unfolding url1 base by simp
  have ow: "url_overwrite (u @ auth) (length base + 1) Q (M - length u - length auth - 1) = url_of scheme host path (CHR ''?'' # Q)"
    unfolding url1 base by (rule url_overwrite_query) (use ul in simp)
  have sg': "signable items E hh r' scheme host path (CHR ''?'' # Q)"
    using G lb M url_parts_query [OF pJ, of Q] canonical_query_NUL [OF ps(3)]
    by (simp add: signable_def r'_def M_def request_inv_def header_list_def base Q_def)
  have gen: "generateAwsSigV4Signature E ch hh (Some r') (Some date) False True = (case sigv4_signature (se_HMAC E) (se_SHA256 E) secret date (ri_region r)
        (sigv4_text space E items hh r' path (CHR ''?'' # Q)) of
      None \<Rightarrow> Some (STATUS_HMAC_GENERATION_ERROR, None, 0)
    | Some s \<Rightarrow> Some (STATUS_SUCCESS, Some (signature_param s), of_nat (length (signature_param s))))"
    using signature_result [OF sg' mem _ _ creds(3) date, of ch False] creds(1,2) by (simp add: r'_def sigv4_info_def signature_param_def Let_def cong: option.case_cong)
  have snp: "SNPRINTF (of_nat (M - length u)) auth = (of_nat (length auth), auth)" using SNPRINTF_fits [of auth "of_nat (M - length u)"] ul U(1) by simp
  have ok: "(\<not> ((0 :: UINT32) < of_nat (length auth) \<and> (of_nat (length auth) :: UINT32) < of_nat (M - length u))) \<longleftrightarrow> False"
    using au ul U(1,4) by (simp add: word_less_nat_alt)
  have rl: "r\<lparr>ri_url := x\<rparr>\<lparr>ri_url := y\<rparr> = r\<lparr>ri_url := y\<rparr>" for x y by simp
  have nf: "STATUS_FAILED STATUS_SUCCESS \<longleftrightarrow> False" by simp
  note steps = u_def [symmetric] M_def [symmetric] auth_def [symmetric] Let_def R U(2,3) snp ok can(1) qu.utils cu ow at rl r'_def [symmetric] gen
    bind.bind_lunit prod.case if_False option.case nf length_append [symmetric] of_nat_add [symmetric]
  show ?thesis
  proof (cases "sigv4_signature (se_HMAC E) (se_SHA256 E) secret date (ri_region r) (sigv4_text space E items hh r' path (CHR ''?'' # Q))")
    case None
    then show ?thesis by (simp only: sign_url_def steps) simp
  next
    case (Some s)
    have "url_append M (url_of scheme host path (CHR ''?'' # Q)) (signature_param s) (M - length u - length auth - 1 - length Q) =
        Some (url_of scheme host path (CHR ''?'' # Q @ signature_param s))"
      using signature_param_size [OF Some] lb ul by (simp add: url_append_def Let_def base)
    with Some show ?thesis by (simp only: sign_url_def steps) (simp add: r'_def)
  qed
qed

end

lemma encoded_credentials:
  fixes date :: string
  assumes "get_credentials ch (ri_pAwsCredentials r) = Some c" "cstring_at c (ac_accessKeyId c) = Some a" "unat (ac_accessKeyIdLen c) = length a"
    and "length a \<le> MAX_ACCESS_KEY_LEN" "length (ri_region r) \<le> MAX_REGION_NAME_LEN"
  defines "creds \<equiv> a @ ''/'' @ sigv4_scope date (ri_region r)"
  shows "generateEncodedCredentials ch (Some r) (Some date) False (Some n) = Some (STATUS_SUCCESS, '''', Some 302)"
    and "generateEncodedCredentials ch (Some r) (Some date) True (Some 302) = Some (STATUS_SUCCESS, creds, Some (of_nat (length creds)))"
proof -
  show "generateEncodedCredentials ch (Some r) (Some date) False (Some n) = Some (STATUS_SUCCESS, '''', Some 302)"
    by (simp add: generateEncodedCredentials_def Let_def SIGNATURE_DATE_TIME_STRING_LEN_def MAX_REGION_NAME_LEN_def MAX_ACCESS_KEY_LEN_def
        KINESIS_VIDEO_SERVICE_NAME_def AWS_SIG_V4_SIGNATURE_END_def)
  have lt: "length creds < unat (302 :: UINT32)"
    using length_sigv4_scope [of date "ri_region r"] assms(4,5) by (simp add: creds_def MAX_REGION_NAME_LEN_def MAX_ACCESS_KEY_LEN_def)
  note S = SNPRINTF_fits [OF lt]
  have "0 < length creds" by (simp add: creds_def)
  then have ok: "(0 :: UINT32) < of_nat (length creds)" "of_nat (length creds) \<le> (302 :: UINT32)"
    using lt S(2) by (simp_all only: word_less_nat_alt word_le_nat_alt) simp_all
  have p: "precision (length a) a @ ''/'' @ scope_string date (ri_region r) = creds" by (simp add: precision_def creds_def scope_string_eq)
  show "generateEncodedCredentials ch (Some r) (Some date) True (Some 302) = Some (STATUS_SUCCESS, creds, Some (of_nat (length creds)))"
    unfolding generateEncodedCredentials_def option.case prod.case assms(1-3) bind.bind_lunit p S(1) Let_def using ok by simp
qed

lemma cstring_at_NUL: "cstring_at c p = Some s \<Longrightarrow> NUL \<notin> set s"
  by (auto simp: cstring_at_def dest: set_takeWhileD)

lemma auth_params_NUL:
  assumes "cstring_at c p = Some a" "NUL \<notin> set date" "NUL \<notin> set region" "NUL \<notin> set signedHeaders"
    and "sessionToken = None \<or> sessionToken = cstring_at c q"
  shows "\<forall>p\<in>set (auth_params (a @ ''/'' @ sigv4_scope date region) date expires signedHeaders sessionToken). NUL \<notin> set (snd p)"
proof -
  have "NUL \<notin> set (take 8 date)" using assms(2) by (meson in_set_takeD)
  then have "NUL \<notin> set (a @ ''/'' @ sigv4_scope date region)" using assms(3) cstring_at_NUL [OF assms(1)] by (simp add: sigv4_scope_def NUL_char)
  moreover have "NUL \<notin> set t" if "sessionToken = Some t" for t using assms(5) that cstring_at_NUL [of c q] by auto
  ultimately show ?thesis using assms(2,4) decimal_NUL
    by (auto simp: auth_params_def AWS_SIG_V4_ALGORITHM_def NUL_char split: option.split)
qed

context signer
begin

lemma url_signing:
  fixes ps :: "(string \<times> string) list" and c :: AwsCredentials
  defines "sessionToken \<equiv> (if ac_sessionToken c = None \<or> ac_sessionTokenLen c = 0 then None else cstring_at c (ac_sessionToken c))"
  assumes sg: "signable items E hh r scheme host path (CHR ''?'' # join_amp (map raw_param ps))" "CHR '':'' \<notin> set host" and mem: "signer_memory E"
    and creds: "ri_pAwsCredentials r \<noteq> 0" "get_credentials ch (ri_pAwsCredentials r) = Some c"
      "credentials_view (unat (se_maxAuth E)) c accessKeyId secret" "length accessKeyId \<le> MAX_ACCESS_KEY_LEN"
    and date: "generateSignatureDateTime (ri_currentTime r) True = (STATUS_SUCCESS, Some date)"
    and set: "set_headers E (Some r) hh [(AWS_SIG_V4_HEADER_HOST, Some (drop (length scheme + 3) (ri_url r)), of_nat (length host))] =
      Some (STATUS_SUCCESS, Some r1, hh1)"
    and aps: "aps = auth_params (accessKeyId @ ''/'' @ sigv4_scope date (ri_region r)) date (signature_expiration (ac_expiration c) (ri_currentTime r))
      (sigv4_signed (header_pairs items r1 hh1)) sessionToken"
    and ps: "ps \<noteq> []" "\<forall>p\<in>set (ps @ aps). param_ok (se_query E) p" and region: "NUL \<notin> set (ri_region r)"
    and fit: "length (ri_url r) + length (auth_text aps) + length (canonical_query_of (ps @ aps)) + 82 \<le> qe_maxUri (se_query E)"
    and pm: "memory_suffices (se_query E) (card (dom h) + length (ps @ aps))"
  shows "signAwsRequestInfoQueryParam E ch (Some r) hh h = (let Q = canonical_query_of (ps @ aps); r' = r1\<lparr>ri_url := url_of scheme host path (CHR ''?'' # Q)\<rparr> in
    case sigv4_signature (se_HMAC E) (se_SHA256 E) secret date (ri_region r) (sigv4_text space E items hh1 r' path (CHR ''?'' # Q)) of
      None \<Rightarrow> Some (STATUS_HMAC_GENERATION_ERROR, Some r', hh1, h)
    | Some s \<Rightarrow> Some (STATUS_SUCCESS, Some (r1\<lparr>ri_url := url_of scheme host path (CHR ''?'' # Q @ signature_param s)\<rparr>), hh1, h))"
proof -
  note G = sg(1) [unfolded signable_def] and V = creds(3) [unfolded credentials_view_def] and M = mem [unfolded signer_memory_def]
  obtain i where host: "getRequestHost (Some (ri_url r)) True = (STATUS_SUCCESS, Some i, Some (i + length host))"
      "arg_ok (drop i (ri_url r)) (of_nat (length host))" "i = length scheme + 3"
    using host_arg [OF _ sg(2), of scheme path "CHR ''?'' # join_amp (map raw_param ps)" r] G by blast
  have d: "length date = 16" "NUL \<notin> set date" using signature_date [OF date] by auto
  have args: "args_ok [(AWS_SIG_V4_HEADER_HOST, Some (drop (length scheme + 3) (ri_url r)), of_nat (length host))]"
    using names_ok host(2,3) by (simp add: args_ok_def)
  have o: "request_inv items r1 hh1" "headers_ok hh1 (header_list items r1)" "\<exists>l. r1 = r\<lparr>ri_pRequestHeaders := l\<rparr>"
    using set_headers_outcome [OF _ _ args, of r hh] set G by auto
  have c1: "ri_pAwsCredentials r1 = ri_pAwsCredentials r" "ri_region r1 = ri_region r" "ri_url r1 = ri_url r" "ri_currentTime r1 = ri_currentTime r"
    using o(3) by auto
  have sg1: "signable items E hh1 r1 scheme host path (CHR ''?'' # join_amp (map raw_param ps))" using G o by (auto simp: signable_def)
  obtain l where l: "ri_pRequestHeaders r1 = Some l" "length (items l) \<le> MAX_REQUEST_HEADER_COUNT" using o(1) by (auto simp: request_inv_def)
  let ?S = "sigv4_signed (map (header_pair hh1) (items l))"
  have ok: "headers_ok hh1 (items l)" "header_pairs items r1 hh1 = map (header_pair hh1) (items l)" using o(2) l(1) by (simp_all add: header_list_def header_pairs_def)
  have ss: "length ?S < 2 ^ 32" using sigv4_signed_length [OF ok(1)] l(2) by (simp add: MAX_REQUEST_HEADER_COUNT_def)
  have us: "unat (of_nat (length ?S) :: UINT32) = length ?S" by (rule unat_of_nat_small [OF ss])
  have sh: "generateSignedHeaders E hh1 (Some r1) False (Some 0) = Some (STATUS_SUCCESS, '''', Some (of_nat (length ?S)))"
    "generateSignedHeaders E hh1 (Some r1) True (Some (of_nat (length ?S))) = Some (STATUS_SUCCESS, ?S, Some (of_nat (length ?S)))"
    using signed_headers [OF l(1) ok(1) ss, of False 0] signed_headers [OF l(1) ok(1) ss, of True "of_nat (length ?S)"] us by simp_all
  have gc: "get_credentials ch (ri_pAwsCredentials r1) = Some c" using creds(2) c1(1) by simp
  have rb: "length (ri_region r1) \<le> MAX_REGION_NAME_LEN" using G c1(2) by simp
  have ec: "generateEncodedCredentials ch (Some r1) (Some date) False (Some 0) = Some (STATUS_SUCCESS, '''', Some 302)"
    "\<exists>n. generateEncodedCredentials ch (Some r1) (Some date) True (Some 302) = Some (STATUS_SUCCESS, accessKeyId @ ''/'' @ sigv4_scope date (ri_region r), n)"
    using encoded_credentials [OF gc _ _ creds(4) rb] V c1(2) by auto
  have aq: "auth_query (accessKeyId @ ''/'' @ sigv4_scope date (ri_region r)) date (signature_expiration (ac_expiration c) (ri_currentTime r)) ?S sessionToken =
      auth_text aps" unfolding aps auth_query_params auth_text_def ok(2) ..
  have nul: "\<forall>p\<in>set aps. NUL \<notin> set (snd p)"
    unfolding aps ok(2) by (rule auth_params_NUL) (use V d(2) region signed_text_NUL [OF ok(1), of False] in \<open>auto simp: sessionToken_def signed_text_def\<close>)
  have ne: "aps \<noteq> []" by (simp add: aps auth_params_def)
  have su: "sign_url E ch r1 hh1 h (Some date) (auth_text aps) = (let Q = canonical_query_of (ps @ aps); r' = r1\<lparr>ri_url := url_of scheme host path (CHR ''?'' # Q)\<rparr> in
      case sigv4_signature (se_HMAC E) (se_SHA256 E) secret date (ri_region r) (sigv4_text space E items hh1 r' path (CHR ''?'' # Q)) of
        None \<Rightarrow> Some (STATUS_HMAC_GENERATION_ERROR, Some r', hh1, h)
      | Some s \<Rightarrow> Some (STATUS_SUCCESS, Some (r1\<lparr>ri_url := url_of scheme host path (CHR ''?'' # Q @ signature_param s)\<rparr>), hh1, h))"
    using sign_url_result [OF sg1 mem _ gc creds(3) d(1) ps(1) ne ps(2) nul _ pm] creds(1) fit unfolding c1 Let_def by simp
  have pr: "precision (length ?S) ?S = ?S" by (simp add: precision_def)
  obtain n where ec2: "generateEncodedCredentials ch (Some r1) (Some date) True (Some 302) = Some (STATUS_SUCCESS, accessKeyId @ ''/'' @ sigv4_scope date (ri_region r), n)"
    using ec(2) by blast
  have nf: "STATUS_FAILED STATUS_SUCCESS \<longleftrightarrow> False" by simp
  have cz: "(ri_pAwsCredentials r = 0) \<longleftrightarrow> False" and mz: "(\<not> se_credsMemory E) \<longleftrightarrow> False" "(\<not> se_signedHeadersMemory E) \<longleftrightarrow> False" using creds(1) M by simp_all
  show ?thesis
    unfolding su [symmetric]
    by (simp only: signAwsRequestInfoQueryParam_def option.case cz if_False creds(2) bind.bind_lunit date prod.case nf host(1) add_diff_cancel_left' host(3)
        set ec(1) mz ec2 sh us pr c1(4) sessionToken_def [symmetric] aq)
qed

end

text \<open>
  C30: signing a URL. When the date and the host header are set, the parameters and all texts fit the URL
  buffer and there is memory for them, the query of the URL becomes the canonical query of the given
  parameters with the authentication parameters, and the signature of the request with exactly that
  query stands at its end. Only the keyed hash can fail, and the parameter list is freed.
\<close>

theorem signAwsRequestInfoQueryParam_signs:
  fixes ps :: "(string \<times> string) list" and c :: AwsCredentials
  defines "sessionToken \<equiv> (if ac_sessionToken c = None \<or> ac_sessionTokenLen c = 0 then None else cstring_at c (ac_sessionToken c))"
  assumes "signer ops items node_at U space E"
    and "signable items E hh r scheme host path (CHR ''?'' # join_amp (map raw_param ps))" "CHR '':'' \<notin> set host" and "signer_memory E"
    and "ri_pAwsCredentials r \<noteq> 0" "get_credentials ch (ri_pAwsCredentials r) = Some c"
      "credentials_view (unat (se_maxAuth E)) c accessKeyId secret" "length accessKeyId \<le> MAX_ACCESS_KEY_LEN"
    and "generateSignatureDateTime (ri_currentTime r) True = (STATUS_SUCCESS, Some date)"
    and "set_headers E (Some r) hh [(AWS_SIG_V4_HEADER_HOST, Some (drop (length scheme + 3) (ri_url r)), of_nat (length host))] =
      Some (STATUS_SUCCESS, Some r1, hh1)"
    and "aps = auth_params (accessKeyId @ ''/'' @ sigv4_scope date (ri_region r)) date (signature_expiration (ac_expiration c) (ri_currentTime r))
      (sigv4_signed (header_pairs items r1 hh1)) sessionToken"
    and "ps \<noteq> []" "\<forall>p\<in>set (ps @ aps). param_ok (se_query E) p" and "NUL \<notin> set (ri_region r)"
    and "length (ri_url r) + length (auth_text aps) + length (canonical_query_of (ps @ aps)) + 82 \<le> qe_maxUri (se_query E)"
    and "memory_suffices (se_query E) (card (dom h) + length (ps @ aps))"
  shows "signAwsRequestInfoQueryParam E ch (Some r) hh h = (let Q = canonical_query_of (ps @ aps); r' = r1\<lparr>ri_url := url_of scheme host path (CHR ''?'' # Q)\<rparr> in
    case sigv4_signature (se_HMAC E) (se_SHA256 E) secret date (ri_region r) (sigv4_text space E items hh1 r' path (CHR ''?'' # Q)) of
      None \<Rightarrow> Some (STATUS_HMAC_GENERATION_ERROR, Some r', hh1, h)
    | Some s \<Rightarrow> Some (STATUS_SUCCESS, Some (r1\<lparr>ri_url := url_of scheme host path (CHR ''?'' # Q @ signature_param s)\<rparr>), hh1, h))"
  by (rule signer.url_signing [OF assms(2-8,9-) [unfolded sessionToken_def], folded sessionToken_def])

subsection \<open>Witnesses\<close>

theorem signAwsRequestInfo_authorizes_witness:
  "\<exists>r hh s. signAwsRequestInfo sample_signer_env sample_credentials_heap (Some sample_signed_request) (\<lambda>_. None) = Some (STATUS_SUCCESS, Some r, hh) \<and>
     {(''Authorization'', s), (''host'', ''h'')} \<subseteq> set (header_pairs (\<lambda>l. l) r hh)"
proof -
  have "map_option fst (signAwsRequestInfo sample_signer_env sample_credentials_heap (Some sample_signed_request) (\<lambda>_. None)) = Some STATUS_SUCCESS"
    by code_simp
  moreover have "NUL \<notin> set (ri_region sample_signed_request)" "ri_pAwsCredentials sample_signed_request \<noteq> 0"
    "ac_sessionTokenLen sample_credentials \<noteq> 0 \<longrightarrow> (\<exists>t. cstring_at sample_credentials (ac_sessionToken sample_credentials) = Some t \<and>
       arg_ok t (ac_sessionTokenLen sample_credentials))" "CHR '':'' \<notin> set ''h''"
    by (simp_all add: sample_found NUL_char) (simp add: sample_credentials_def)
  note ok = this
  have "get_credentials sample_credentials_heap (ri_pAwsCredentials sample_signed_request) = Some sample_credentials" by (simp add: sample_found)
  from signAwsRequestInfo_authorizes [OF sample_signer.signer_axioms sample_signable ok(4) sample_signer_memory ok(2) this sample_credentials_view ok(1,3)]
  show ?thesis using calculation by fastforce
qed

lemma sample_signer_room: "memory_suffices (se_query sample_signer_env) 8"
proof -
  have "small_calloc h [8, 16, 24, 32, 40, 48, 56, 64] \<noteq> None" if "card (dom h) < 8" for h :: sheap
  proof
    assume "small_calloc h [8, 16, 24, 32, 40, 48, 56, 64] = None"
    then have "{8, 16, 24, 32, 40, 48, 56, 64} \<subseteq> dom h" by (auto simp: small_calloc_def split: if_splits)
    then have "card {8, 16, 24, 32, 40, 48, 56, 64 :: UINT64} \<le> card (dom h)" by (intro card_mono) auto
    then show False using that by simp
  qed
  then show ?thesis by (auto simp: memory_suffices_def sample_signer_env_def sample_query_env_def plain_list_ops_def)
qed

theorem signAwsRequestInfoQueryParam_signs_witness:
  "\<exists>r hh s. signAwsRequestInfoQueryParam sample_signer_env sample_credentials_heap (Some sample_signed_request) (\<lambda>_. None) (\<lambda>_. None) =
     Some (STATUS_SUCCESS, Some r, hh, \<lambda>_. None) \<and>
     ri_url r = ''https://h/p?X-Amz-Algorithm=AWS4-HMAC-SHA256&X-Amz-Credential=key%2F19700101%2Fr%2Fkinesisvideo%2Faws4_request&X-Amz-Date=19700101T000000Z&X-Amz-Expires=3600&X-Amz-SignedHeaders=host&a=1&X-Amz-Signature='' @ s"
proof -
  let ?ps = "[(''a'', ''1'')]" and ?d = "''19700101T000000Z''"
  let ?aps = "auth_params (''key'' @ ''/'' @ sigv4_scope ?d ''r'') ?d (signature_expiration (ac_expiration sample_credentials) 0) ''host'' None"
  have q: "join_amp (map raw_param ?ps) = ''a=1''" by code_simp
  have d: "generateSignatureDateTime 0 True = (STATUS_SUCCESS, Some ?d)" by code_simp
  have "map_option (\<lambda>(st, pr, hh). (st, map_option ri_pRequestHeaders pr, map_option (\<lambda>h. (rh_pName h, rh_pValue h)) (hh 8)))
     (set_headers sample_signer_env (Some sample_signed_request) (\<lambda>_. None)
        [(AWS_SIG_V4_HEADER_HOST, Some (drop (length ''https'' + 3) (ri_url sample_signed_request)), of_nat (length ''h''))]) =
     Some (STATUS_SUCCESS, Some (Some [8]), Some (''host'', ''h''))" by code_simp
  then obtain r1 hh1 where s1: "set_headers sample_signer_env (Some sample_signed_request) (\<lambda>_. None)
        [(AWS_SIG_V4_HEADER_HOST, Some (drop (length ''https'' + 3) (ri_url sample_signed_request)), of_nat (length ''h''))] = Some (STATUS_SUCCESS, Some r1, hh1)"
      "ri_pRequestHeaders r1 = Some [8]" "map_option (\<lambda>h. (rh_pName h, rh_pValue h)) (hh1 8) = Some (''host'', ''h'')" by auto
  have hp: "sigv4_signed (header_pairs (\<lambda>l. l) r1 hh1) = ''host''"
  proof -
    have "header_pairs (\<lambda>l. l) r1 hh1 = [(''host'', ''h'')]" using s1(2,3) by (auto simp: header_pairs_def header_list_def header_pair_def)
    moreover have "sigv4_signed [(''host'', ''h'')] = ''host''" by code_simp
    ultimately show ?thesis by simp
  qed
  have tk: "(if ac_sessionToken sample_credentials = None \<or> ac_sessionTokenLen sample_credentials = 0 then None
      else cstring_at sample_credentials (ac_sessionToken sample_credentials)) = None" by code_simp
  have ok: "\<forall>p\<in>set (?ps @ ?aps). param_ok (se_query sample_signer_env) p" by code_simp
  have Q: "canonical_query_of (?ps @ ?aps) =
      ''X-Amz-Algorithm=AWS4-HMAC-SHA256&X-Amz-Credential=key%2F19700101%2Fr%2Fkinesisvideo%2Faws4_request&X-Amz-Date=19700101T000000Z&X-Amz-Expires=3600&X-Amz-SignedHeaders=host&a=1''"
    by code_simp
  have fit: "length (ri_url sample_signed_request) + length (auth_text ?aps) + length (canonical_query_of (?ps @ ?aps)) + 82 \<le> qe_maxUri (se_query sample_signer_env)"
    unfolding Q by code_simp
  have mem: "memory_suffices (se_query sample_signer_env) (card (dom (\<lambda>_. None)) + length (?ps @ ?aps))"
    using sample_signer_room by (simp add: memory_suffices_def auth_params_def)
  have nul: "NUL \<notin> set (ri_region sample_signed_request)" "CHR '':'' \<notin> set ''h''" "length ''key'' \<le> MAX_ACCESS_KEY_LEN" by code_simp+
  have url: "url_of ''https'' ''h'' ''/p'' (CHR ''?'' # x) = ''https://h/p?'' @ x" for x by (simp add: url_of_def)
  have hm: "\<exists>s. sigv4_signature (se_HMAC sample_signer_env) (se_SHA256 sample_signer_env) ''sec'' ?d ''r'' req = Some s" for req
    by (simp add: sample_signer_env_def sigv4_signature_def sigv4_key_def)
  note T = signAwsRequestInfoQueryParam_signs [where h = "\<lambda>_. None" and ps = ?ps and aps = ?aps and date = ?d, OF sample_signer.signer_axioms _ nul(2) sample_signer_memory
      _ _ sample_credentials_view nul(3) _ s1(1) _ _ _ nul(1) fit mem, unfolded q sample_found hp tk Let_def]
  have "(96 :: UINT64) \<noteq> 0" "?ps \<noteq> []" by simp_all
  note run = T [OF sample_signable this(1) sample_found(4) d refl this(2) ok]
  obtain f req where "signAwsRequestInfoQueryParam sample_signer_env sample_credentials_heap (Some sample_signed_request) (\<lambda>_. None) (\<lambda>_. None) =
      (case sigv4_signature (se_HMAC sample_signer_env) (se_SHA256 sample_signer_env) ''sec'' ?d ''r'' req of None \<Rightarrow> f
       | Some s \<Rightarrow> Some (STATUS_SUCCESS, Some (r1\<lparr>ri_url := url_of ''https'' ''h'' ''/p'' (CHR ''?'' # canonical_query_of (?ps @ ?aps) @ signature_param s)\<rparr>), hh1, \<lambda>_. None))"
    by (rule that) (rule run)
  moreover obtain s where "sigv4_signature (se_HMAC sample_signer_env) (se_SHA256 sample_signer_env) ''sec'' ?d ''r'' req = Some s" using hm by blast
  ultimately have s: "signAwsRequestInfoQueryParam sample_signer_env sample_credentials_heap (Some sample_signed_request) (\<lambda>_. None) (\<lambda>_. None) =
      Some (STATUS_SUCCESS, Some (r1\<lparr>ri_url := ''https://h/p?'' @ canonical_query_of (?ps @ ?aps) @ signature_param s\<rparr>), hh1, \<lambda>_. None)"
    by (simp only: option.case url)
  show ?thesis
    unfolding s Q by (rule exI, rule exI, rule exI [of _ s], rule conjI, rule refl) (simp add: signature_param_def)
qed

end
