(* ===== verification/Doubles.thy ===== *)
theory Doubles
  imports Complex_Main "HOL-Library.Log_Nat"
begin

text \<open>
  Double precision arithmetic, as far as the sources use it: positive numbers far from the limits of
  the exponent. A \<open>DOUBLE\<close> is the rational number it stands for; every operation gives the double next
  to the exact result, the one with the even significand when two are equally near. The constant
  \<open>0.85\<close> of a source is the double next to it, too.
\<close>

type_synonym DOUBLE = rat

text \<open>The exponent of the power of two at or below a number.\<close>

definition binade :: "rat \<Rightarrow> int" where
  "binade x = (case quotient_of x of (a, b) \<Rightarrow>
     let d = int (floorlog 2 (nat a)) - int (floorlog 2 (nat b)) in if 2 powi d \<le> x then d else d - 1)"

definition round_even :: "rat \<Rightarrow> int" where
  "round_even y = (let n = \<lfloor>y\<rfloor>; f = y - of_int n in if f < 1 / 2 \<or> f = 1 / 2 \<and> even n then n else n + 1)"

definition to_double :: "rat \<Rightarrow> DOUBLE" where
  "to_double x = (if x \<le> 0 then 0 else let u = 2 powi (binade x - 52) in u * of_int (round_even (x / u)))"

definition dmul :: "DOUBLE \<Rightarrow> DOUBLE \<Rightarrow> DOUBLE" where "dmul x y = to_double (x * y)"
definition ddiv :: "DOUBLE \<Rightarrow> DOUBLE \<Rightarrow> DOUBLE" where "ddiv x y = to_double (x / y)"

text \<open>The conversion to an unsigned integer of 64 bits, undefined when the number does not fit.\<close>

definition double_to_uint64 :: "DOUBLE \<Rightarrow> nat option" where
  "double_to_uint64 x = (if 0 \<le> x \<and> x < 2 ^ 64 then Some (nat \<lfloor>x\<rfloor>) else None)"

lemma binade_bounds:
  assumes "0 < x"
  shows "2 powi (binade x) \<le> x" "x < 2 powi (binade x + 1)"
proof -
  obtain a b where q: "quotient_of x = (a, b)" by fastforce
  have b: "0 < b" and x: "x = of_int a / of_int b" using q quotient_of_denom_pos quotient_of_div by blast+
  have a: "0 < a" using assms b x by (simp add: zero_less_divide_iff)
  define i j where "i = floorlog 2 (nat a)" and "j = floorlog 2 (nat b)"
  have ia: "2 ^ (i - 1) \<le> nat a" "nat a < 2 ^ i" and jb: "2 ^ (j - 1) \<le> nat b" "nat b < 2 ^ j"
    using floorlog_bounds [of "nat a" 2] floorlog_bounds [of "nat b" 2] a b by (simp_all add: i_def j_def)
  have pos: "0 < i" "0 < j" using a b by (simp_all add: i_def j_def floorlog_def)
  have nat: "(2 :: rat) ^ k \<le> of_int c \<longleftrightarrow> 2 ^ k \<le> nat c" "of_int c < (2 :: rat) ^ k \<longleftrightarrow> nat c < 2 ^ k" if "0 < c" for c :: int and k
  proof -
    have "(of_int c :: rat) = of_nat (nat c)" using that by simp
    then show "(2 :: rat) ^ k \<le> of_int c \<longleftrightarrow> 2 ^ k \<le> nat c" "of_int c < (2 :: rat) ^ k \<longleftrightarrow> nat c < 2 ^ k"
      by (metis of_nat_le_iff of_nat_numeral of_nat_power) (metis \<open>of_int c = of_nat (nat c)\<close> of_nat_less_iff of_nat_numeral of_nat_power)
  qed
  have two_ne: "(2 :: rat) \<noteq> 0" by simp
  have A: "(2 :: rat) powi (int i - 1) \<le> of_int a" "of_int a < (2 :: rat) powi (int i)"
    using ia nat [OF a] pos by (simp_all add: power_int_def nat_diff_distrib)
  have B: "(2 :: rat) powi (int j - 1) \<le> of_int b" "of_int b < (2 :: rat) powi (int j)"
    using jb nat [OF b] pos by (simp_all add: power_int_def nat_diff_distrib)
  have "(2 :: rat) powi (int i - int j - 1) * of_int b < 2 powi (int i - int j - 1) * 2 powi (int j)" using B(2) by simp
  also have "\<dots> = 2 powi (int i - 1)" unfolding power_int_add [symmetric, of "2 :: rat", OF disjI1 [OF two_ne]] by simp
  also have "\<dots> \<le> of_int a" by (rule A(1))
  finally have lo: "2 powi (int i - int j - 1) < x" using b by (simp add: x pos_less_divide_eq)
  have "of_int a < (2 :: rat) powi (int i)" by (rule A(2))
  also have "\<dots> = 2 powi (int i - int j + 1) * 2 powi (int j - 1)" unfolding power_int_add [symmetric, of "2 :: rat", OF disjI1 [OF two_ne]] by simp
  also have "\<dots> \<le> 2 powi (int i - int j + 1) * of_int b" using B(1) by simp
  finally have hi: "x < 2 powi (int i - int j + 1)" using b by (simp add: x pos_divide_less_eq)
  have bi: "binade x = (if 2 powi (int i - int j) \<le> x then int i - int j else int i - int j - 1)"
    by (simp add: binade_def q i_def j_def Let_def)
  show "2 powi (binade x) \<le> x" "x < 2 powi (binade x + 1)" using lo hi by (auto simp: bi)
qed

lemma round_even_error: "\<bar>of_int (round_even y) - y\<bar> \<le> 1 / 2"
proof -
  have "of_int \<lfloor>y\<rfloor> \<le> y" "y < of_int \<lfloor>y\<rfloor> + 1" by linarith+
  then show ?thesis by (auto simp: round_even_def Let_def)
qed

lemma round_even_int: "round_even (of_int n) = n"
  by (simp add: round_even_def)

lemma to_double_error:
  assumes "0 \<le> x"
  shows "\<bar>to_double x - x\<bar> \<le> x / 2 ^ 53"
proof (cases "x = 0")
  case False
  then have x: "0 < x" using assms by simp
  define u :: rat where "u = 2 powi (binade x - 52)"
  have u: "0 < u" by (simp add: u_def)
  have "u * 2 ^ 52 = 2 powi (binade x)" by (simp add: u_def power_int_diff)
  then have le: "u * 2 ^ 52 \<le> x" using binade_bounds(1) [OF x] by simp
  have "to_double x - x = u * (of_int (round_even (x / u)) - x / u)" using x u by (simp add: to_double_def u_def [symmetric] Let_def algebra_simps)
  then have "\<bar>to_double x - x\<bar> = u * \<bar>of_int (round_even (x / u)) - x / u\<bar>" using u by (simp add: abs_mult)
  also have "\<dots> \<le> u * (1 / 2)" by (rule mult_left_mono [OF round_even_error]) (use u in simp)
  also have "\<dots> \<le> x / 2 ^ 53" using le by simp
  finally show ?thesis .
qed (simp add: to_double_def)

lemma to_double_exact:
  assumes "0 \<le> m" "m < 2 ^ 53"
  shows "to_double (of_int m * 2 powi e) = of_int m * 2 powi e"
proof (cases "m = 0")
  case False
  define x :: rat where "x = of_int m * 2 powi e"
  have x: "0 < x" using assms False by (simp add: x_def)
  have "x < 2 ^ 53 * 2 powi e" using assms(2) by (simp add: x_def)
  then have "2 powi (binade x) < (2 :: rat) powi (53 + e)" using binade_bounds(1) [OF x] by (simp add: power_int_add)
  then have "binade x < 53 + e" using power_int_increasing [of "53 + e" "binade x" "2 :: rat"] by (cases "binade x < 53 + e") auto
  then obtain k where k: "e - (binade x - 52) = int k" using nonneg_int_cases [of "e - (binade x - 52)"] by auto
  have "x / 2 powi (binade x - 52) = of_int m * 2 powi (e - (binade x - 52))" by (simp add: x_def power_int_diff)
  also have "\<dots> = of_int (m * 2 ^ k)" unfolding k by simp
  finally have "x / 2 powi (binade x - 52) = of_int (m * 2 ^ k)" .
  then have r: "of_int (round_even (x / 2 powi (binade x - 52))) = x / 2 powi (binade x - 52)" by (simp only: round_even_int)
  have "to_double x = x" using x unfolding to_double_def Let_def r by simp
  then show ?thesis unfolding x_def .
qed (simp add: to_double_def)

text \<open>Coarse bounds that linear arithmetic can use, and the integers and halves that are exact.\<close>

lemma to_double_near:
  assumes "0 \<le> x"
  shows "999999 / 1000000 * x \<le> to_double x" "to_double x \<le> 1000001 / 1000000 * x" "0 \<le> to_double x"
proof -
  have "\<bar>to_double x - x\<bar> \<le> x / 1000000"
    by (rule order.trans [OF to_double_error [OF assms]]) (use assms in \<open>simp add: divide_left_mono\<close>)
  then show "999999 / 1000000 * x \<le> to_double x" "to_double x \<le> 1000001 / 1000000 * x" by linarith+
  then show "0 \<le> to_double x" using assms by simp
qed

lemma int_53: "n < 2 ^ 53 \<Longrightarrow> int n < 2 ^ 53"
  by (metis of_nat_less_iff of_nat_numeral of_nat_power)

lemma to_double_nat:
  assumes "n < 2 ^ 53"
  shows "to_double (of_nat n) = of_nat n"
  using to_double_exact [OF of_nat_0_le_iff int_53 [OF assms], of 0] by (simp only: of_int_of_nat_eq power_int_0_right mult_1_right)

lemma to_double_half:
  assumes "n < 2 ^ 53"
  shows "to_double (of_nat n / 2) = of_nat n / 2"
proof -
  have "(of_nat n / 2 :: rat) = of_int (int n) * 2 powi (- 1)" by (simp add: power_int_minus)
  then show ?thesis using to_double_exact [OF of_nat_0_le_iff int_53 [OF assms], of "- 1"] by (simp only:)
qed

lemma to_double_pos: "0 < x \<Longrightarrow> 0 < to_double x"
  using to_double_near(1) [of x] by simp

lemma double_to_uint64_mono:
  "\<lbrakk>double_to_uint64 x = Some m; double_to_uint64 y = Some n; x \<le> y\<rbrakk> \<Longrightarrow> m \<le> n"
  by (auto simp: double_to_uint64_def split: if_splits intro!: nat_mono floor_mono)

lemma double_to_uint64_floor:
  assumes "double_to_uint64 x = Some m"
  shows "of_nat m \<le> x" "x < of_nat m + 1" "m < 2 ^ 64"
proof -
  have x: "0 \<le> x" "x < 2 ^ 64" "m = nat \<lfloor>x\<rfloor>" using assms by (auto simp: double_to_uint64_def split: if_splits)
  then have m: "(of_nat m :: rat) = of_int \<lfloor>x\<rfloor>" by simp
  show "of_nat m \<le> x" "x < of_nat m + 1" unfolding m by linarith+
  then have "(of_nat m :: rat) < of_nat (2 ^ 64)" using x(2) by simp
  then show "m < 2 ^ 64" by (simp only: of_nat_less_iff)
qed

lemma dmul_near:
  assumes "0 \<le> x" "0 \<le> y" "a \<le> x" "x \<le> b"
  shows "999999 / 1000000 * (a * y) \<le> dmul x y" "dmul x y \<le> 1000001 / 1000000 * (b * y)" "0 \<le> dmul x y"
proof -
  have p: "0 \<le> x * y" "a * y \<le> x * y" "x * y \<le> b * y" using assms by (simp_all add: mult_right_mono)
  show "999999 / 1000000 * (a * y) \<le> dmul x y" "dmul x y \<le> 1000001 / 1000000 * (b * y)" "0 \<le> dmul x y"
    using to_double_near [OF p(1)] p by (simp_all add: dmul_def)
qed

lemma ddiv_near:
  assumes "0 \<le> x" "0 < z" "999999 / 1000000 * z \<le> y" "y \<le> 1000001 / 1000000 * z"
  shows "999997 / 1000000 * (x / z) \<le> ddiv x y" "ddiv x y \<le> 1000003 / 1000000 * (x / z)" "0 \<le> ddiv x y"
proof -
  have y: "0 < y" using assms(2,3) by simp
  have q: "0 \<le> x / y" "0 \<le> x / z" using assms(1,2) y by simp_all
  have m: "x / y * (999999 / 1000000 * z) \<le> x / y * y" "x / y * y \<le> x / y * (1000001 / 1000000 * z)"
    by (rule mult_left_mono; use assms(3,4) q in simp)+
  have e: "x / y * y = x / z * z" using y assms(2) by simp
  have "(x / y * (999999 / 1000000)) * z \<le> x / z * z" "x / z * z \<le> (x / y * (1000001 / 1000000)) * z" using m unfolding e by (simp_all only: mult.assoc)
  then have "x / y * (999999 / 1000000) \<le> x / z" "x / z \<le> x / y * (1000001 / 1000000)" using assms(2) by (simp_all only: mult_le_cancel_right_pos)
  moreover define a b where "a = x / y" and "b = x / z"
  ultimately have ab: "a * (999999 / 1000000) \<le> b" "b \<le> a * (1000001 / 1000000)" "0 \<le> a" "0 \<le> b" using q by simp_all
  show "999997 / 1000000 * (x / z) \<le> ddiv x y" "ddiv x y \<le> 1000003 / 1000000 * (x / z)" "0 \<le> ddiv x y"
    using to_double_near [OF ab(3)] ab unfolding ddiv_def a_def [symmetric] b_def [symmetric] by linarith+
qed

lemma dmul_lower:
  assumes "0 \<le> a" "a \<le> x" "0 \<le> b" "b \<le> y"
  shows "999999 / 1000000 * (a * b) \<le> dmul x y" "0 \<le> dmul x y"
proof -
  have "a * b \<le> x * y" "0 \<le> x * y" using assms by (simp_all add: mult_mono)
  then show "999999 / 1000000 * (a * b) \<le> dmul x y" "0 \<le> dmul x y" using to_double_near [of "x * y"] by (simp_all add: dmul_def)
qed

end
