(* ===== verification/Stream_Info.thy ===== *)
theory Stream_Info
  imports Uri_Encoding Timestamps Doubles
begin

text \<open>
  The default descriptions of streams (\<open>StreamInfoProvider.c\<close>).
  The structures belong to the platform independent code: the records here have
  the fields that these files set, and the constants of its headers are a parameter, \<open>media\<close>. A stream
  description and its tracks are one allocated object. \<open>STRCPY\<close> and \<open>STRCAT\<close> beyond the end of their
  buffer are undefined, which is \<open>None\<close>, as is the conversion of a double that does not fit its
  integer type.
\<close>

datatype VIDEO_CODEC_ID = VIDEO_CODEC_ID_H264 | VIDEO_CODEC_ID_H265 | VIDEO_CODEC_ID_OTHER nat
datatype AUDIO_CODEC_ID = AUDIO_CODEC_ID_AAC | AUDIO_CODEC_ID_PCM_ALAW | AUDIO_CODEC_ID_PCM_MULAW | AUDIO_CODEC_ID_OTHER nat
datatype STREAMING_TYPE = STREAMING_TYPE_REALTIME | STREAMING_TYPE_OFFLINE | STREAMING_TYPE_OTHER nat
datatype FRAME_ORDER_MODE = FRAME_ORDER_MODE_UNSET | FRAME_ORDER_MODE_PASS_THROUGH
  | FRAME_ORDERING_MODE_MULTI_TRACK_AV_COMPARE_PTS_ONE_MS_COMPENSATE_EOFR
datatype MKV_TRACK_INFO_TYPE = MKV_TRACK_INFO_TYPE_UNSET | MKV_TRACK_INFO_TYPE_VIDEO | MKV_TRACK_INFO_TYPE_AUDIO

record media =
  MKV_H264_AVC_CODEC_ID :: string
  MKV_H264_CONTENT_TYPE :: string
  MKV_H265_HEVC_CODEC_ID :: string
  MKV_H265_CONTENT_TYPE :: string
  MKV_AAC_CODEC_ID :: string
  MKV_AAC_CONTENT_TYPE :: string
  MKV_PCM_CODEC_ID :: string
  MKV_ALAW_CONTENT_TYPE :: string
  MKV_MULAW_CONTENT_TYPE :: string
  MKV_MAX_CODEC_ID_LEN :: nat
  MKV_MAX_TRACK_NAME_LEN :: nat
  MAX_CONTENT_TYPE_LEN :: nat
  MAX_STREAM_NAME_LEN :: nat
  NAL_ADAPTATION_ANNEXB_CPD_NALS :: UINT32
  NAL_ADAPTATION_ANNEXB_NALS :: UINT32
  STREAM_INFO_CURRENT_VERSION :: UINT32
  CONTENT_STORE_PRESSURE_POLICY_DROP_TAIL_ITEM :: UINT32
  CONTENT_VIEW_OVERFLOW_POLICY_DROP_UNTIL_FRAGMENT_START :: UINT32

record TrackInfo =
  ti_trackId :: UINT64
  ti_codecId :: string
  ti_trackName :: string
  ti_codecPrivateDataSize :: UINT32
  ti_codecPrivateData :: UINT64
  ti_trackType :: MKV_TRACK_INFO_TYPE

record StreamCaps =
  sc_streamingType :: STREAMING_TYPE
  sc_contentType :: string
  sc_adaptive :: bool
  sc_maxLatency :: UINT64
  sc_fragmentDuration :: UINT64
  sc_keyFrameFragmentation :: bool
  sc_frameTimecodes :: bool
  sc_absoluteFragmentTimes :: bool
  sc_fragmentAcks :: bool
  sc_recoverOnError :: bool
  sc_recalculateMetrics :: bool
  sc_nalAdaptationFlags :: UINT32
  sc_avgBandwidthBps :: UINT32
  sc_frameRate :: UINT32
  sc_bufferDuration :: UINT64
  sc_replayDuration :: UINT64
  sc_connectionStalenessDuration :: UINT64
  sc_timecodeScale :: UINT64
  sc_trackInfoCount :: UINT32
  sc_trackInfoList :: "TrackInfo list"
  sc_segmentUuid :: UINT64
  sc_frameOrderingMode :: FRAME_ORDER_MODE
  sc_storePressurePolicy :: UINT32
  sc_viewOverflowPolicy :: UINT32
  sc_allowStreamCreation :: bool

record StreamInfo =
  si_version :: UINT32
  si_name :: string
  si_retention :: UINT64
  si_kmsKeyId :: string
  si_tagCount :: UINT32
  si_tags :: UINT64
  si_streamCaps :: StreamCaps

type_synonym iheap = "UINT64 \<Rightarrow> StreamInfo option"

definition DEFAULT_VIDEO_TRACK_ID :: UINT64 where "DEFAULT_VIDEO_TRACK_ID = 1"
definition DEFAULT_AUDIO_TRACK_ID :: UINT32 where "DEFAULT_AUDIO_TRACK_ID = 2"
definition DEFAULT_AUDIO_ONLY_TRACK_ID :: UINT32 where "DEFAULT_AUDIO_ONLY_TRACK_ID = 1"
definition DEFAULT_VIDEO_TRACK_NAME :: string where "DEFAULT_VIDEO_TRACK_NAME = ''kvs_video_track''"
definition DEFAULT_AUDIO_TRACK_NAME :: string where "DEFAULT_AUDIO_TRACK_NAME = ''kvs_audio_track''"
definition VIDEO_ONLY_TRACK_COUNT :: nat where "VIDEO_ONLY_TRACK_COUNT = 1"
definition VIDEO_WITH_AUDIO_TRACK_COUNT :: nat where "VIDEO_WITH_AUDIO_TRACK_COUNT = 2"
definition AUDIO_ONLY_TRACK_COUNT :: nat where "AUDIO_ONLY_TRACK_COUNT = 1"
definition STREAM_INFO_DEFAULT_CONNECTION_STALE_DURATION :: UINT64 where
  "STREAM_INFO_DEFAULT_CONNECTION_STALE_DURATION = 5 * HUNDREDS_OF_NANOS_IN_A_SECOND"
definition STREAM_INFO_DEFAULT_FRAGMENT_DURATION :: UINT64 where "STREAM_INFO_DEFAULT_FRAGMENT_DURATION = 2 * HUNDREDS_OF_NANOS_IN_A_SECOND"
definition DEFAULT_AVG_BANDWIDTH :: UINT32 where "DEFAULT_AVG_BANDWIDTH = 2 * 1024 * 1024"
definition STREAM_INFO_DEFAULT_TIMESCALE :: UINT64 where "STREAM_INFO_DEFAULT_TIMESCALE = 10000"
definition DEFAULT_VIDEO_AUDIO_FRAME_RATE :: UINT32 where "DEFAULT_VIDEO_AUDIO_FRAME_RATE = 120"
definition REPLAY_DURATION_FACTOR :: DOUBLE where "REPLAY_DURATION_FACTOR = to_double (5 / 10)"
definition LATENCY_PRESSURE_FACTOR :: DOUBLE where "LATENCY_PRESSURE_FACTOR = to_double (85 / 100)"
definition PRODUCER_DEFRAGMENTATION_FACTOR :: DOUBLE where "PRODUCER_DEFRAGMENTATION_FACTOR = to_double (85 / 100)"

text \<open>A string in a buffer of a size, and the memory that \<open>MEMCALLOC\<close> gives.\<close>

definition in_buffer :: "nat \<Rightarrow> string \<Rightarrow> string option" where
  "in_buffer n s = (if length s < n then Some s else None)"

definition zero_track :: TrackInfo where
  "zero_track = \<lparr>ti_trackId = 0, ti_codecId = '''', ti_trackName = '''', ti_codecPrivateDataSize = 0, ti_codecPrivateData = 0,
     ti_trackType = MKV_TRACK_INFO_TYPE_UNSET\<rparr>"

definition zero_caps :: StreamCaps where
  "zero_caps = \<lparr>sc_streamingType = STREAMING_TYPE_REALTIME, sc_contentType = '''', sc_adaptive = False, sc_maxLatency = 0, sc_fragmentDuration = 0,
     sc_keyFrameFragmentation = False, sc_frameTimecodes = False, sc_absoluteFragmentTimes = False, sc_fragmentAcks = False, sc_recoverOnError = False,
     sc_recalculateMetrics = False, sc_nalAdaptationFlags = 0, sc_avgBandwidthBps = 0, sc_frameRate = 0, sc_bufferDuration = 0, sc_replayDuration = 0,
     sc_connectionStalenessDuration = 0, sc_timecodeScale = 0, sc_trackInfoCount = 0, sc_trackInfoList = [], sc_segmentUuid = 0,
     sc_frameOrderingMode = FRAME_ORDER_MODE_UNSET, sc_storePressurePolicy = 0, sc_viewOverflowPolicy = 0, sc_allowStreamCreation = False\<rparr>"

definition zero_stream :: StreamInfo where
  "zero_stream = \<lparr>si_version = 0, si_name = '''', si_retention = 0, si_kmsKeyId = '''', si_tagCount = 0, si_tags = 0, si_streamCaps = zero_caps\<rparr>"

subsection \<open>Tracks\<close>

text \<open>
  The functions write the track before they check that there is one: without a track they are
  undefined. The result is the status, the content type and the track.
\<close>

definition fill_track :: "media \<Rightarrow> string \<Rightarrow> string \<Rightarrow> string \<Rightarrow> string \<Rightarrow> MKV_TRACK_INFO_TYPE \<Rightarrow> TrackInfo \<Rightarrow> (string \<times> TrackInfo) option" where
  "fill_track M content codecId suffix name type t = do {
     codec \<leftarrow> in_buffer (MKV_MAX_CODEC_ID_LEN M + 1) codecId;
     content' \<leftarrow> in_buffer (MAX_CONTENT_TYPE_LEN M + 1) (content @ suffix);
     name' \<leftarrow> in_buffer (MKV_MAX_TRACK_NAME_LEN M + 1) name;
     Some (content', t\<lparr>ti_codecId := codec, ti_trackName := name', ti_trackType := type\<rparr>)
   }"

definition createVideoTrackInfo :: "media \<Rightarrow> VIDEO_CODEC_ID \<Rightarrow> PCHAR \<Rightarrow> TrackInfo option \<Rightarrow> (STATUS \<times> PCHAR \<times> TrackInfo) option" where
  "createVideoTrackInfo M videoCodecId contentType pTrackInfo = do {
     t \<leftarrow> pTrackInfo;
     let t0 = t\<lparr>ti_trackId := DEFAULT_VIDEO_TRACK_ID, ti_codecPrivateData := 0, ti_codecPrivateDataSize := 0\<rparr>;
     (case contentType of
        None \<Rightarrow> Some (STATUS_NULL_ARG, None, t0)
      | Some content \<Rightarrow> do {
          (content', t1) \<leftarrow> (case videoCodecId of
             VIDEO_CODEC_ID_H264 \<Rightarrow> fill_track M content (MKV_H264_AVC_CODEC_ID M) (MKV_H264_CONTENT_TYPE M) DEFAULT_VIDEO_TRACK_NAME MKV_TRACK_INFO_TYPE_VIDEO t0
           | VIDEO_CODEC_ID_H265 \<Rightarrow> fill_track M content (MKV_H265_HEVC_CODEC_ID M) (MKV_H265_CONTENT_TYPE M) DEFAULT_VIDEO_TRACK_NAME MKV_TRACK_INFO_TYPE_VIDEO t0
           | _ \<Rightarrow> fill_track M content (MKV_H264_AVC_CODEC_ID M) (MKV_H265_CONTENT_TYPE M) DEFAULT_VIDEO_TRACK_NAME MKV_TRACK_INFO_TYPE_VIDEO t0);
          Some (STATUS_SUCCESS, Some content', t1)
        })
   }"

definition createAudioTrackInfo :: "media \<Rightarrow> AUDIO_CODEC_ID \<Rightarrow> PCHAR \<Rightarrow> TrackInfo option \<Rightarrow> UINT32 \<Rightarrow> (STATUS \<times> PCHAR \<times> TrackInfo) option" where
  "createAudioTrackInfo M audioCodecId contentType pTrackInfo audioTrackId = do {
     t \<leftarrow> pTrackInfo;
     let t0 = t\<lparr>ti_trackId := ucast audioTrackId, ti_codecPrivateData := 0, ti_codecPrivateDataSize := 0\<rparr>;
     (case contentType of
        None \<Rightarrow> Some (STATUS_NULL_ARG, None, t0)
      | Some content \<Rightarrow> do {
          (content', t1) \<leftarrow> (case audioCodecId of
             AUDIO_CODEC_ID_AAC \<Rightarrow> fill_track M content (MKV_AAC_CODEC_ID M) (MKV_AAC_CONTENT_TYPE M) DEFAULT_AUDIO_TRACK_NAME MKV_TRACK_INFO_TYPE_AUDIO t0
           | AUDIO_CODEC_ID_PCM_ALAW \<Rightarrow> fill_track M content (MKV_PCM_CODEC_ID M) (MKV_ALAW_CONTENT_TYPE M) DEFAULT_AUDIO_TRACK_NAME MKV_TRACK_INFO_TYPE_AUDIO t0
           | AUDIO_CODEC_ID_PCM_MULAW \<Rightarrow> fill_track M content (MKV_PCM_CODEC_ID M) (MKV_MULAW_CONTENT_TYPE M) DEFAULT_AUDIO_TRACK_NAME MKV_TRACK_INFO_TYPE_AUDIO t0
           | _ \<Rightarrow> fill_track M content (MKV_AAC_CODEC_ID M) (MKV_AAC_CONTENT_TYPE M) DEFAULT_AUDIO_TRACK_NAME MKV_TRACK_INFO_TYPE_AUDIO t0);
          Some (STATUS_SUCCESS, Some content', t1)
        })
   }"

subsection \<open>Streams\<close>

text \<open>A fraction of a duration, computed with doubles.\<close>

definition scaled_duration :: "DOUBLE \<Rightarrow> UINT64 \<Rightarrow> UINT64 option" where
  "scaled_duration factor duration = map_option of_nat (double_to_uint64 (dmul factor (to_double (of_nat (unat duration)))))"

definition setStreamInfoDefaults :: "media \<Rightarrow> STREAMING_TYPE \<Rightarrow> UINT64 \<Rightarrow> UINT64 \<Rightarrow> nat \<Rightarrow> StreamInfo \<Rightarrow> TrackInfo list \<Rightarrow> (STATUS \<times> StreamInfo) option" where
  "setStreamInfoDefaults M streamingType retention bufferDuration trackCount s tracks = do {
     latency \<leftarrow> scaled_duration LATENCY_PRESSURE_FACTOR bufferDuration;
     replay \<leftarrow> scaled_duration REPLAY_DURATION_FACTOR bufferDuration;
     Some (STATUS_SUCCESS, s\<lparr>
       si_streamCaps := (si_streamCaps s)\<lparr>
         sc_absoluteFragmentTimes := True, sc_adaptive := True, sc_avgBandwidthBps := DEFAULT_AVG_BANDWIDTH, sc_bufferDuration := bufferDuration,
         sc_connectionStalenessDuration := STREAM_INFO_DEFAULT_CONNECTION_STALE_DURATION, sc_frameRate := DEFAULT_VIDEO_AUDIO_FRAME_RATE,
         sc_fragmentDuration := STREAM_INFO_DEFAULT_FRAGMENT_DURATION, sc_fragmentAcks := True, sc_frameTimecodes := True,
         sc_frameOrderingMode := (if trackCount = 1 then FRAME_ORDER_MODE_PASS_THROUGH
           else FRAME_ORDERING_MODE_MULTI_TRACK_AV_COMPARE_PTS_ONE_MS_COMPENSATE_EOFR),
         sc_keyFrameFragmentation := True, sc_maxLatency := latency,
         sc_nalAdaptationFlags := or (NAL_ADAPTATION_ANNEXB_CPD_NALS M) (NAL_ADAPTATION_ANNEXB_NALS M), sc_recalculateMetrics := True,
         sc_recoverOnError := True, sc_replayDuration := replay, sc_streamingType := streamingType, sc_segmentUuid := 0,
         sc_timecodeScale := STREAM_INFO_DEFAULT_TIMESCALE, sc_trackInfoCount := of_nat trackCount, sc_trackInfoList := tracks,
         sc_allowStreamCreation := True, sc_storePressurePolicy := CONTENT_STORE_PRESSURE_POLICY_DROP_TAIL_ITEM M,
         sc_viewOverflowPolicy := CONTENT_VIEW_OVERFLOW_POLICY_DROP_UNTIL_FRAGMENT_START M\<rparr>,
       si_kmsKeyId := '''', si_retention := retention, si_tagCount := 0, si_tags := 0, si_version := STREAM_INFO_CURRENT_VERSION M\<rparr>)
   }"

definition freeStreamInfoProvider :: "UINT64 option \<Rightarrow> iheap \<Rightarrow> STATUS \<times> UINT64 option \<times> iheap" where
  "freeStreamInfoProvider ppStreamInfo h = (case ppStreamInfo of
     None \<Rightarrow> (STATUS_NULL_ARG, None, h)
   | Some p \<Rightarrow> if p = 0 then (STATUS_SUCCESS, Some p, h) else (STATUS_SUCCESS, Some 0, h(p := None)))"


text \<open>
  What the three functions that create a description share: the checks of the arguments, the
  allocation, which gives zeroed memory, and the clean-up. They differ in the tracks. The result is the
  status, the pointer that is stored, if any, and the heap.
\<close>

definition create_stream ::
    "media \<Rightarrow> (iheap \<Rightarrow> UINT64 option) \<Rightarrow> iheap \<Rightarrow> STREAMING_TYPE \<Rightarrow> nat \<Rightarrow> (STATUS \<times> PCHAR \<times> TrackInfo list) option \<Rightarrow> PCHAR \<Rightarrow> UINT64 \<Rightarrow> UINT64
      \<Rightarrow> bool \<Rightarrow> (STATUS \<times> UINT64 option \<times> iheap) option" where
  "create_stream M calloc h streamingType trackCount tracks streamName retention bufferDuration ppStreamInfo =
     (if \<not> ppStreamInfo \<or> streamName = None then Some (STATUS_NULL_ARG, None, h)
      else if bufferDuration = 0 then Some (STATUS_INVALID_ARG, None, h)
      else if streamingType = STREAMING_TYPE_OFFLINE \<and> retention = 0 then Some (STATUS_INVALID_ARG, None, h)
      else (case calloc h of
        None \<Rightarrow> Some (STATUS_NOT_ENOUGH_MEMORY, None, h)
      | Some p \<Rightarrow> do {
          (st1, content, ts) \<leftarrow> tracks;
          if STATUS_FAILED st1 then Some (st1, None, (h(p \<mapsto> zero_stream))(p := None)) else do {
          src \<leftarrow> streamName;
          name \<leftarrow> in_buffer (MAX_STREAM_NAME_LEN M + 1) src;
          contentType \<leftarrow> content;
          (st2, s) \<leftarrow> setStreamInfoDefaults M streamingType retention bufferDuration trackCount
            (zero_stream\<lparr>si_name := name, si_streamCaps := zero_caps\<lparr>sc_contentType := contentType\<rparr>\<rparr>) ts;
          if STATUS_FAILED st2 then Some (st2, None, (h(p \<mapsto> s))(p := None))
          else Some (STATUS_SUCCESS, Some p, h(p \<mapsto> s))
          }
        }))"

definition createVideoStreamInfo ::
    "media \<Rightarrow> (iheap \<Rightarrow> UINT64 option) \<Rightarrow> iheap \<Rightarrow> STREAMING_TYPE \<Rightarrow> VIDEO_CODEC_ID \<Rightarrow> PCHAR \<Rightarrow> UINT64 \<Rightarrow> UINT64 \<Rightarrow> bool
      \<Rightarrow> (STATUS \<times> UINT64 option \<times> iheap) option" where
  "createVideoStreamInfo M calloc h streamingType videoCodecId streamName retention bufferDuration ppStreamInfo =
     create_stream M calloc h streamingType VIDEO_ONLY_TRACK_COUNT
       (do {
          (st, content, t) \<leftarrow> createVideoTrackInfo M videoCodecId (Some '''') (Some zero_track);
          Some (st, content, [t])
        }) streamName retention bufferDuration ppStreamInfo"

definition createAudioVideoStreamInfo ::
    "media \<Rightarrow> (iheap \<Rightarrow> UINT64 option) \<Rightarrow> iheap \<Rightarrow> STREAMING_TYPE \<Rightarrow> VIDEO_CODEC_ID \<Rightarrow> AUDIO_CODEC_ID \<Rightarrow> PCHAR \<Rightarrow> UINT64 \<Rightarrow> UINT64 \<Rightarrow> bool
      \<Rightarrow> (STATUS \<times> UINT64 option \<times> iheap) option" where
  "createAudioVideoStreamInfo M calloc h streamingType videoCodecId audioCodecId streamName retention bufferDuration ppStreamInfo =
     create_stream M calloc h streamingType VIDEO_WITH_AUDIO_TRACK_COUNT
       (do {
          (st1, content1, t1) \<leftarrow> createVideoTrackInfo M videoCodecId (Some '''') (Some zero_track);
          if STATUS_FAILED st1 then Some (st1, content1, [t1, zero_track]) else do {
          c1 \<leftarrow> content1;
          content2 \<leftarrow> in_buffer (MAX_CONTENT_TYPE_LEN M + 1) (c1 @ '','');
          (st2, content3, t2) \<leftarrow> createAudioTrackInfo M audioCodecId (Some content2) (Some zero_track) DEFAULT_AUDIO_TRACK_ID;
          Some (st2, content3, [t1, t2])
          }
        }) streamName retention bufferDuration ppStreamInfo"

definition createAudioStreamInfo ::
    "media \<Rightarrow> (iheap \<Rightarrow> UINT64 option) \<Rightarrow> iheap \<Rightarrow> STREAMING_TYPE \<Rightarrow> AUDIO_CODEC_ID \<Rightarrow> PCHAR \<Rightarrow> UINT64 \<Rightarrow> UINT64 \<Rightarrow> bool
      \<Rightarrow> (STATUS \<times> UINT64 option \<times> iheap) option" where
  "createAudioStreamInfo M calloc h streamingType audioCodecId streamName retention bufferDuration ppStreamInfo =
     create_stream M calloc h streamingType AUDIO_ONLY_TRACK_COUNT
       (do {
          (st, content, t) \<leftarrow> createAudioTrackInfo M audioCodecId (Some '''') (Some zero_track) DEFAULT_AUDIO_ONLY_TRACK_ID;
          Some (st, content, [t])
        }) streamName retention bufferDuration ppStreamInfo"

text \<open>The functions of the interface.\<close>

definition createRealtimeVideoStreamInfoProvider :: "media \<Rightarrow> (iheap \<Rightarrow> UINT64 option) \<Rightarrow> iheap \<Rightarrow> PCHAR \<Rightarrow> UINT64 \<Rightarrow> UINT64 \<Rightarrow> bool \<Rightarrow> (STATUS \<times> UINT64 option \<times> iheap) option" where
  "createRealtimeVideoStreamInfoProvider M calloc h streamName retention bufferDuration ppStreamInfo =
     createVideoStreamInfo M calloc h STREAMING_TYPE_REALTIME VIDEO_CODEC_ID_H264 streamName retention bufferDuration ppStreamInfo"

definition createOfflineVideoStreamInfoProvider :: "media \<Rightarrow> (iheap \<Rightarrow> UINT64 option) \<Rightarrow> iheap \<Rightarrow> PCHAR \<Rightarrow> UINT64 \<Rightarrow> UINT64 \<Rightarrow> bool \<Rightarrow> (STATUS \<times> UINT64 option \<times> iheap) option" where
  "createOfflineVideoStreamInfoProvider M calloc h streamName retention bufferDuration ppStreamInfo =
     createVideoStreamInfo M calloc h STREAMING_TYPE_OFFLINE VIDEO_CODEC_ID_H264 streamName retention bufferDuration ppStreamInfo"

definition createRealtimeAudioVideoStreamInfoProvider :: "media \<Rightarrow> (iheap \<Rightarrow> UINT64 option) \<Rightarrow> iheap \<Rightarrow> PCHAR \<Rightarrow> UINT64 \<Rightarrow> UINT64 \<Rightarrow> bool \<Rightarrow> (STATUS \<times> UINT64 option \<times> iheap) option" where
  "createRealtimeAudioVideoStreamInfoProvider M calloc h streamName retention bufferDuration ppStreamInfo =
     createAudioVideoStreamInfo M calloc h STREAMING_TYPE_REALTIME VIDEO_CODEC_ID_H264 AUDIO_CODEC_ID_AAC streamName retention bufferDuration ppStreamInfo"

definition createOfflineAudioVideoStreamInfoProvider :: "media \<Rightarrow> (iheap \<Rightarrow> UINT64 option) \<Rightarrow> iheap \<Rightarrow> PCHAR \<Rightarrow> UINT64 \<Rightarrow> UINT64 \<Rightarrow> bool \<Rightarrow> (STATUS \<times> UINT64 option \<times> iheap) option" where
  "createOfflineAudioVideoStreamInfoProvider M calloc h streamName retention bufferDuration ppStreamInfo =
     createAudioVideoStreamInfo M calloc h STREAMING_TYPE_OFFLINE VIDEO_CODEC_ID_H264 AUDIO_CODEC_ID_AAC streamName retention bufferDuration ppStreamInfo"

definition createRealtimeVideoStreamInfoProviderWithCodecs :: "media \<Rightarrow> (iheap \<Rightarrow> UINT64 option) \<Rightarrow> iheap \<Rightarrow> PCHAR \<Rightarrow> UINT64 \<Rightarrow> UINT64 \<Rightarrow> VIDEO_CODEC_ID \<Rightarrow> bool \<Rightarrow> (STATUS \<times> UINT64 option \<times> iheap) option" where
  "createRealtimeVideoStreamInfoProviderWithCodecs M calloc h streamName retention bufferDuration videoCodecId ppStreamInfo =
     createVideoStreamInfo M calloc h STREAMING_TYPE_REALTIME videoCodecId streamName retention bufferDuration ppStreamInfo"

definition createOfflineVideoStreamInfoProviderWithCodecs :: "media \<Rightarrow> (iheap \<Rightarrow> UINT64 option) \<Rightarrow> iheap \<Rightarrow> PCHAR \<Rightarrow> UINT64 \<Rightarrow> UINT64 \<Rightarrow> VIDEO_CODEC_ID \<Rightarrow> bool \<Rightarrow> (STATUS \<times> UINT64 option \<times> iheap) option" where
  "createOfflineVideoStreamInfoProviderWithCodecs M calloc h streamName retention bufferDuration videoCodecId ppStreamInfo =
     createVideoStreamInfo M calloc h STREAMING_TYPE_OFFLINE videoCodecId streamName retention bufferDuration ppStreamInfo"

definition createRealtimeAudioVideoStreamInfoProviderWithCodecs :: "media \<Rightarrow> (iheap \<Rightarrow> UINT64 option) \<Rightarrow> iheap \<Rightarrow> PCHAR \<Rightarrow> UINT64 \<Rightarrow> UINT64 \<Rightarrow> VIDEO_CODEC_ID \<Rightarrow> AUDIO_CODEC_ID \<Rightarrow> bool \<Rightarrow> (STATUS \<times> UINT64 option \<times> iheap) option" where
  "createRealtimeAudioVideoStreamInfoProviderWithCodecs M calloc h streamName retention bufferDuration videoCodecId audioCodecId ppStreamInfo =
     createAudioVideoStreamInfo M calloc h STREAMING_TYPE_REALTIME videoCodecId audioCodecId streamName retention bufferDuration ppStreamInfo"

definition createOfflineAudioVideoStreamInfoProviderWithCodecs :: "media \<Rightarrow> (iheap \<Rightarrow> UINT64 option) \<Rightarrow> iheap \<Rightarrow> PCHAR \<Rightarrow> UINT64 \<Rightarrow> UINT64 \<Rightarrow> VIDEO_CODEC_ID \<Rightarrow> AUDIO_CODEC_ID \<Rightarrow> bool \<Rightarrow> (STATUS \<times> UINT64 option \<times> iheap) option" where
  "createOfflineAudioVideoStreamInfoProviderWithCodecs M calloc h streamName retention bufferDuration videoCodecId audioCodecId ppStreamInfo =
     createAudioVideoStreamInfo M calloc h STREAMING_TYPE_OFFLINE videoCodecId audioCodecId streamName retention bufferDuration ppStreamInfo"

definition createRealtimeAudioStreamInfoProviderWithCodecs :: "media \<Rightarrow> (iheap \<Rightarrow> UINT64 option) \<Rightarrow> iheap \<Rightarrow> PCHAR \<Rightarrow> UINT64 \<Rightarrow> UINT64 \<Rightarrow> AUDIO_CODEC_ID \<Rightarrow> bool \<Rightarrow> (STATUS \<times> UINT64 option \<times> iheap) option" where
  "createRealtimeAudioStreamInfoProviderWithCodecs M calloc h streamName retention bufferDuration audioCodecId ppStreamInfo =
     createAudioStreamInfo M calloc h STREAMING_TYPE_REALTIME audioCodecId streamName retention bufferDuration ppStreamInfo"

definition createOfflineAudioStreamInfoProviderWithCodecs :: "media \<Rightarrow> (iheap \<Rightarrow> UINT64 option) \<Rightarrow> iheap \<Rightarrow> PCHAR \<Rightarrow> UINT64 \<Rightarrow> UINT64 \<Rightarrow> AUDIO_CODEC_ID \<Rightarrow> bool \<Rightarrow> (STATUS \<times> UINT64 option \<times> iheap) option" where
  "createOfflineAudioStreamInfoProviderWithCodecs M calloc h streamName retention bufferDuration audioCodecId ppStreamInfo =
     createAudioStreamInfo M calloc h STREAMING_TYPE_OFFLINE audioCodecId streamName retention bufferDuration ppStreamInfo"

text \<open>
  The durations that a storage of a size can hold. The room is computed with doubles, from the left to
  the right, and cut to whole seconds.
\<close>

definition storage_seconds :: "UINT32 \<Rightarrow> UINT64 \<Rightarrow> UINT32 \<Rightarrow> nat option" where
  "storage_seconds storageSize avgBitrate totalStreamCount = double_to_uint64
     (dmul (ddiv (ddiv (dmul (to_double (of_nat (unat storageSize))) 8) (to_double (of_nat (unat avgBitrate))))
       (to_double (of_nat (unat totalStreamCount)))) PRODUCER_DEFRAGMENTATION_FACTOR)"

definition setStreamInfoBasedOnStorageSize :: "UINT32 \<Rightarrow> UINT64 \<Rightarrow> UINT32 \<Rightarrow> StreamInfo option \<Rightarrow> (STATUS \<times> StreamInfo option) option" where
  "setStreamInfoBasedOnStorageSize storageSize avgBitrate totalStreamCount pStreamInfo = (case pStreamInfo of
     None \<Rightarrow> Some (STATUS_NULL_ARG, None)
   | Some s \<Rightarrow>
       if \<not> (storageSize > 0 \<and> avgBitrate > 0 \<and> totalStreamCount > 0) then Some (STATUS_INVALID_ARG, Some s)
       else do {
         seconds \<leftarrow> storage_seconds storageSize avgBitrate totalStreamCount;
         let bufferDuration = of_nat seconds * HUNDREDS_OF_NANOS_IN_A_SECOND;
         replay \<leftarrow> scaled_duration REPLAY_DURATION_FACTOR bufferDuration;
         latency \<leftarrow> scaled_duration LATENCY_PRESSURE_FACTOR bufferDuration;
         Some (STATUS_SUCCESS, Some (s\<lparr>si_streamCaps := (si_streamCaps s)\<lparr>sc_bufferDuration := bufferDuration, sc_replayDuration := replay,
           sc_maxLatency := latency\<rparr>\<rparr>))
       })"

lemma unat64: "unat (w :: UINT64) < 2 ^ 64"
  using unsigned_less [of w, where ?'a = nat] by simp

subsection \<open>Durations\<close>

lemma factor_bounds:
  "84 / 100 \<le> LATENCY_PRESSURE_FACTOR" "LATENCY_PRESSURE_FACTOR \<le> 86 / 100" "REPLAY_DURATION_FACTOR = 1 / 2"
  "84999 / 100000 \<le> PRODUCER_DEFRAGMENTATION_FACTOR" "PRODUCER_DEFRAGMENTATION_FACTOR \<le> 85001 / 100000"
  using to_double_near(1,2) [of "85 / 100"] to_double_half [of 1]
  by (simp_all add: LATENCY_PRESSURE_FACTOR_def REPLAY_DURATION_FACTOR_def PRODUCER_DEFRAGMENTATION_FACTOR_def)

text \<open>The two fractions of a duration that the code computes.\<close>

lemma scaled_durations:
  fixes d :: UINT64
  shows "\<exists>l r. scaled_duration LATENCY_PRESSURE_FACTOR d = Some l \<and> scaled_duration REPLAY_DURATION_FACTOR d = Some r \<and>
    unat r \<le> unat l \<and> unat l \<le> unat d \<and> 83 * unat d \<le> 100 * (unat l + 1) \<and> (unat d < 2 ^ 53 \<longrightarrow> unat r = unat d div 2)"
proof -
  define n where "n = unat d"
  define x where "x = to_double (of_nat n)"
  have n: "n < 2 ^ 64" using unat64 [of d] by (simp add: n_def)
  then have nr: "(of_nat n :: rat) \<le> 2 ^ 64" by (metis less_imp_le of_nat_le_iff of_nat_numeral of_nat_power)
  have x: "0 \<le> x" "999999 / 1000000 * of_nat n \<le> x" "x \<le> 1000001 / 1000000 * of_nat n" using to_double_near [of "of_nat n"] by (simp_all add: x_def)
  note F = factor_bounds
  have L: "999999 / 1000000 * (84 / 100 * x) \<le> dmul LATENCY_PRESSURE_FACTOR x" "dmul LATENCY_PRESSURE_FACTOR x \<le> 1000001 / 1000000 * (86 / 100 * x)"
      "0 \<le> dmul LATENCY_PRESSURE_FACTOR x"
    using dmul_near [of LATENCY_PRESSURE_FACTOR x "84 / 100" "86 / 100"] F x by simp_all
  have R: "dmul REPLAY_DURATION_FACTOR x \<le> 1000001 / 1000000 * (1 / 2 * x)" "0 \<le> dmul REPLAY_DURATION_FACTOR x"
    using dmul_near [of "1 / 2" x "1 / 2" "1 / 2"] x unfolding F(3) by simp_all
  have Ln: "dmul LATENCY_PRESSURE_FACTOR x \<le> of_nat n" and RL: "dmul REPLAY_DURATION_FACTOR x \<le> dmul LATENCY_PRESSURE_FACTOR x" using L R x by linarith+
  have small: "dmul LATENCY_PRESSURE_FACTOR x < 2 ^ 64" using L(2) x nr by simp
  obtain l where l: "double_to_uint64 (dmul LATENCY_PRESSURE_FACTOR x) = Some l" using small L(3) by (simp add: double_to_uint64_def)
  obtain r where r: "double_to_uint64 (dmul REPLAY_DURATION_FACTOR x) = Some r" using small R(2) RL by (simp add: double_to_uint64_def)
  note fl = double_to_uint64_floor [OF l] and fr = double_to_uint64_floor [OF r]
  have ln: "l \<le> n" using order.trans [OF fl(1) Ln] by simp
  have rl: "r \<le> l" by (rule double_to_uint64_mono [OF r l RL])
  have low: "83 * n \<le> 100 * (l + 1)"
  proof -
    have "(83 * of_nat n :: rat) \<le> 100 * (of_nat l + 1)" using L(1) x(2) fl(2) by simp
    then have "(of_nat (83 * n) :: rat) \<le> of_nat (100 * (l + 1))" by simp
    then show ?thesis by (simp only: of_nat_le_iff)
  qed
  have half: "r = n div 2" if "n < 2 ^ 53"
  proof -
    have h: "dmul REPLAY_DURATION_FACTOR x = of_nat n / 2" using to_double_half [OF that] unfolding x_def dmul_def to_double_nat [OF that] F(3) by simp
    have "\<lfloor>dmul REPLAY_DURATION_FACTOR x\<rfloor> = int (n div 2)" unfolding h using floor_divide_of_nat_eq [where 'a = rat, of n 2] by simp
    then show ?thesis using r by (auto simp: double_to_uint64_def split: if_splits)
  qed
  have u: "unat (of_nat l :: UINT64) = l" "unat (of_nat r :: UINT64) = r" using fl(3) fr(3) by (simp_all add: unat_of_nat take_bit_nat_eq_self)
  have e: "scaled_duration LATENCY_PRESSURE_FACTOR d = Some (of_nat l)" "scaled_duration REPLAY_DURATION_FACTOR d = Some (of_nat r)"
    using l r by (simp_all add: scaled_duration_def x_def n_def)
  show ?thesis
    unfolding e n_def [symmetric] using ln rl low half u by (intro exI conjI refl) auto
qed


subsection \<open>Sizes\<close>

text \<open>The seconds of content that a storage holds, against the exact quotient.\<close>

lemma room_near:
  fixes s n r :: nat
  assumes pos: "0 < s" "0 < r" "0 < n" and sb: "s < 2 ^ 32" "n < 2 ^ 32"
  defines "Z \<equiv> 8 * of_nat s / of_nat r / of_nat n :: rat"
  defines "q \<equiv> dmul (ddiv (ddiv (dmul (to_double (of_nat s)) 8) (to_double (of_nat r))) (to_double (of_nat n))) PRODUCER_DEFRAGMENTATION_FACTOR"
  shows "8498 / 10000 * Z \<le> q" "q \<le> 8502 / 10000 * Z" "0 \<le> q"
proof -
  have S: "dmul (to_double (of_nat s)) 8 = 8 * of_nat s"
    using to_double_nat [of s] to_double_nat [of "8 * s"] sb by (simp add: dmul_def mult.commute)
  have N: "to_double (of_nat n) = of_nat n" using to_double_nat [of n] sb by simp
  define R where "R = to_double (of_nat r)"
  define q1 where "q1 = ddiv (8 * of_nat s) R"
  define q2 where "q2 = ddiv q1 (of_nat n)"
  have q: "q = dmul q2 PRODUCER_DEFRAGMENTATION_FACTOR" by (simp add: q_def S N q1_def q2_def R_def)
  have R: "999999 / 1000000 * of_nat r \<le> R" "R \<le> 1000001 / 1000000 * of_nat r"
    using to_double_near [of "of_nat r"] by (simp_all add: R_def)
  have Q1: "999997 / 1000000 * (8 * of_nat s / of_nat r) \<le> q1" "q1 \<le> 1000003 / 1000000 * (8 * of_nat s / of_nat r)" "0 \<le> q1"
    unfolding q1_def by (rule ddiv_near [OF _ _ R]; use pos in simp)+
  have n0: "(0 :: rat) < of_nat n" using pos by simp
  define y where "y = q1 / of_nat n"
  have Q2: "999997 / 1000000 * y \<le> q2" "q2 \<le> 1000003 / 1000000 * y" "0 \<le> q2"
    unfolding q2_def y_def by (rule ddiv_near [OF Q1(3) n0]; simp)+
  have y: "999997 / 1000000 * Z \<le> y" "y \<le> 1000003 / 1000000 * Z"
    using divide_right_mono [OF Q1(1), of "of_nat n"] divide_right_mono [OF Q1(2), of "of_nat n"] by (simp_all add: Z_def y_def)
  have Z: "0 \<le> Z" by (simp add: Z_def)
  have Q3: "999999 / 1000000 * (84999 / 100000 * q2) \<le> q" "q \<le> 1000001 / 1000000 * (85001 / 100000 * q2)" "0 \<le> q"
    using dmul_near [of PRODUCER_DEFRAGMENTATION_FACTOR q2 "84999 / 100000" "85001 / 100000"] factor_bounds(4,5) Q2(3)
    unfolding q dmul_def by (simp_all add: mult.commute)
  show "8498 / 10000 * Z \<le> q" using Q3(1) Q2(1) y(1) Z by linarith
  show "q \<le> 8502 / 10000 * Z" using Q3(2) Q2(2) y(2) Z by linarith
  show "0 \<le> q" by (rule Q3(3))
qed

lemma storage_seconds_near:
  fixes s n :: UINT32 and r :: UINT64
  assumes "0 < s" "0 < r" "0 < n"
  shows "\<exists>k. storage_seconds s r n = Some k \<and> 10000 * k * unat r * unat n \<le> 8502 * 8 * unat s \<and> 8498 * 8 * unat s < 10000 * (k + 1) * unat r * unat n"
proof -
  define S R N where "S = unat s" and "R = unat r" and "N = unat n"
  have pos: "0 < S" "0 < R" "0 < N" using assms(1-3) by (simp_all add: word_less_nat_alt S_def R_def N_def)
  have sb: "S < 2 ^ 32" "N < 2 ^ 32" using unat_bound by (simp_all only: S_def N_def)
  define Z :: rat where "Z = 8 * of_nat S / of_nat R / of_nat N"
  define q where "q = dmul (ddiv (ddiv (dmul (to_double (of_nat S)) 8) (to_double (of_nat R))) (to_double (of_nat N))) PRODUCER_DEFRAGMENTATION_FACTOR"
  note Q = room_near [OF pos sb, folded Z_def q_def]
  have p: "(0 :: rat) < of_nat R * of_nat N" using pos by simp
  have Z: "Z * (of_nat R * of_nat N) = 8 * of_nat S" using pos by (simp add: Z_def)
  have "(1 :: rat) \<le> of_nat (R * N)" using pos by (metis Suc_leI mult_pos_pos of_nat_1 of_nat_le_iff One_nat_def)
  moreover have "0 \<le> Z" by (simp add: Z_def)
  ultimately have "Z * 1 \<le> Z * of_nat (R * N)" by (intro mult_left_mono)
  then have "Z \<le> 8 * of_nat S" using Z by simp
  moreover have "(of_nat S :: rat) \<le> 2 ^ 32" using sb(1) by (metis less_imp_le of_nat_le_iff of_nat_numeral of_nat_power)
  ultimately have "q < 2 ^ 64" using Q(2) by simp
  then obtain k where k: "double_to_uint64 q = Some k" using Q(3) by (simp add: double_to_uint64_def)
  note fl = double_to_uint64_floor [OF k]
  define P :: rat where "P = of_nat R * of_nat N"
  have ZP: "Z * P = 8 * of_nat S" unfolding P_def by (rule Z)
  have "of_nat k * P \<le> 8502 / 10000 * Z * P" by (rule mult_right_mono) (use fl(1) Q(2) p in \<open>simp_all add: P_def\<close>)
  then have A: "of_nat k * P \<le> 8502 / 10000 * (8 * of_nat S)" unfolding mult.assoc ZP .
  have "8498 / 10000 * Z * P < (of_nat k + 1) * P" by (rule mult_strict_right_mono) (use fl(2) Q(1) p in \<open>simp_all add: P_def\<close>)
  then have B: "8498 / 10000 * (8 * of_nat S) < (of_nat k + 1) * P" unfolding mult.assoc ZP .
  have e: "(of_nat (10000 * k * R * N) :: rat) = 10000 * (of_nat k * P)" "(of_nat (10000 * (k + 1) * R * N) :: rat) = 10000 * ((of_nat k + 1) * P)"
    "(of_nat (8502 * 8 * S) :: rat) = 8502 * 8 * of_nat S" "(of_nat (8498 * 8 * S) :: rat) = 8498 * 8 * of_nat S" by (simp_all add: P_def ac_simps)
  have up: "(of_nat (10000 * k * R * N) :: rat) \<le> of_nat (8502 * 8 * S)" unfolding e using A by linarith
  have lo: "(of_nat (8498 * 8 * S) :: rat) < of_nat (10000 * (k + 1) * R * N)" unfolding e using B by linarith
  have "storage_seconds s r n = Some k" using k by (simp add: storage_seconds_def q_def S_def R_def N_def)
  then show ?thesis using up lo unfolding of_nat_le_iff of_nat_less_iff by (simp add: S_def R_def N_def)
qed

subsection \<open>Creating a description\<close>

text \<open>The constants fit their buffers.\<close>

definition media_ok :: "media \<Rightarrow> bool" where
  "media_ok M \<longleftrightarrow>
     (\<forall>c\<in>set [MKV_H264_AVC_CODEC_ID M, MKV_H265_HEVC_CODEC_ID M, MKV_AAC_CODEC_ID M, MKV_PCM_CODEC_ID M]. length c \<le> MKV_MAX_CODEC_ID_LEN M) \<and>
     (\<forall>v\<in>set [MKV_H264_CONTENT_TYPE M, MKV_H265_CONTENT_TYPE M]. \<forall>a\<in>set [MKV_AAC_CONTENT_TYPE M, MKV_ALAW_CONTENT_TYPE M, MKV_MULAW_CONTENT_TYPE M].
        length v + 1 + length a \<le> MAX_CONTENT_TYPE_LEN M) \<and> 15 \<le> MKV_MAX_TRACK_NAME_LEN M"

text \<open>The tracks of a description, and what the code that is called for them promises.\<close>

datatype stream_kind = Video_Only VIDEO_CODEC_ID | Audio_Video VIDEO_CODEC_ID AUDIO_CODEC_ID | Audio_Only AUDIO_CODEC_ID

definition createStreamInfo ::
    "media \<Rightarrow> (iheap \<Rightarrow> UINT64 option) \<Rightarrow> iheap \<Rightarrow> STREAMING_TYPE \<Rightarrow> stream_kind \<Rightarrow> PCHAR \<Rightarrow> UINT64 \<Rightarrow> UINT64 \<Rightarrow> bool
      \<Rightarrow> (STATUS \<times> UINT64 option \<times> iheap) option" where
  "createStreamInfo M calloc h streamingType kind streamName retention bufferDuration pp = (case kind of
     Video_Only v \<Rightarrow> createVideoStreamInfo M calloc h streamingType v streamName retention bufferDuration pp
   | Audio_Video v a \<Rightarrow> createAudioVideoStreamInfo M calloc h streamingType v a streamName retention bufferDuration pp
   | Audio_Only a \<Rightarrow> createAudioStreamInfo M calloc h streamingType a streamName retention bufferDuration pp)"

fun video_type :: "media \<Rightarrow> VIDEO_CODEC_ID \<Rightarrow> string" where
  "video_type M VIDEO_CODEC_ID_H264 = MKV_H264_CONTENT_TYPE M"
| "video_type M _ = MKV_H265_CONTENT_TYPE M"

fun video_codec :: "media \<Rightarrow> VIDEO_CODEC_ID \<Rightarrow> string" where
  "video_codec M VIDEO_CODEC_ID_H265 = MKV_H265_HEVC_CODEC_ID M"
| "video_codec M _ = MKV_H264_AVC_CODEC_ID M"

fun audio_type :: "media \<Rightarrow> AUDIO_CODEC_ID \<Rightarrow> string" where
  "audio_type M AUDIO_CODEC_ID_PCM_ALAW = MKV_ALAW_CONTENT_TYPE M"
| "audio_type M AUDIO_CODEC_ID_PCM_MULAW = MKV_MULAW_CONTENT_TYPE M"
| "audio_type M _ = MKV_AAC_CONTENT_TYPE M"

fun audio_codec :: "media \<Rightarrow> AUDIO_CODEC_ID \<Rightarrow> string" where
  "audio_codec M AUDIO_CODEC_ID_PCM_ALAW = MKV_PCM_CODEC_ID M"
| "audio_codec M AUDIO_CODEC_ID_PCM_MULAW = MKV_PCM_CODEC_ID M"
| "audio_codec M _ = MKV_AAC_CODEC_ID M"

definition video_track :: "media \<Rightarrow> VIDEO_CODEC_ID \<Rightarrow> TrackInfo" where
  "video_track M v = \<lparr>ti_trackId = 1, ti_codecId = video_codec M v, ti_trackName = ''kvs_video_track'', ti_codecPrivateDataSize = 0, ti_codecPrivateData = 0,
     ti_trackType = MKV_TRACK_INFO_TYPE_VIDEO\<rparr>"

definition audio_track :: "media \<Rightarrow> AUDIO_CODEC_ID \<Rightarrow> UINT64 \<Rightarrow> TrackInfo" where
  "audio_track M a n = \<lparr>ti_trackId = n, ti_codecId = audio_codec M a, ti_trackName = ''kvs_audio_track'', ti_codecPrivateDataSize = 0, ti_codecPrivateData = 0,
     ti_trackType = MKV_TRACK_INFO_TYPE_AUDIO\<rparr>"

fun kind_tracks :: "media \<Rightarrow> stream_kind \<Rightarrow> TrackInfo list" where
  "kind_tracks M (Video_Only v) = [video_track M v]"
| "kind_tracks M (Audio_Video v a) = [video_track M v, audio_track M a 2]"
| "kind_tracks M (Audio_Only a) = [audio_track M a 1]"

fun kind_content :: "media \<Rightarrow> stream_kind \<Rightarrow> string" where
  "kind_content M (Video_Only v) = video_type M v"
| "kind_content M (Audio_Video v a) = video_type M v @ '','' @ audio_type M a"
| "kind_content M (Audio_Only a) = audio_type M a"

text \<open>A description that the platform independent code can work with.\<close>

definition description_ok :: "media \<Rightarrow> stream_kind \<Rightarrow> string \<Rightarrow> UINT64 \<Rightarrow> StreamInfo \<Rightarrow> bool" where
  "description_ok M kind name bufferDuration s \<longleftrightarrow> (let c = si_streamCaps s in
     si_name s = name \<and> sc_trackInfoList c = kind_tracks M kind \<and> unat (sc_trackInfoCount c) = length (sc_trackInfoList c) \<and>
     distinct (map ti_trackId (sc_trackInfoList c)) \<and> sc_contentType c = kind_content M kind \<and>
     sc_bufferDuration c = bufferDuration \<and> unat (sc_replayDuration c) \<le> unat (sc_maxLatency c) \<and> unat (sc_maxLatency c) \<le> unat bufferDuration \<and>
     (sc_frameOrderingMode c = FRAME_ORDER_MODE_PASS_THROUGH \<longleftrightarrow> length (sc_trackInfoList c) = 1))"

lemma track_names:
  "length DEFAULT_VIDEO_TRACK_NAME = 15" "length DEFAULT_AUDIO_TRACK_NAME = 15"
  by (simp_all add: DEFAULT_VIDEO_TRACK_NAME_def DEFAULT_AUDIO_TRACK_NAME_def)

lemma media_lengths:
  assumes "media_ok M"
  shows "length (video_codec M v) \<le> MKV_MAX_CODEC_ID_LEN M" "length (audio_codec M a) \<le> MKV_MAX_CODEC_ID_LEN M"
    "length (video_type M v) + 1 + length (audio_type M a) \<le> MAX_CONTENT_TYPE_LEN M"
  using assms by (cases v; cases a; simp add: media_ok_def)+

lemma video_track_created:
  assumes "media_ok M"
  shows "createVideoTrackInfo M v (Some '''') (Some zero_track) = Some (STATUS_SUCCESS, Some (video_type M v), video_track M v)"
proof -
  have "length (video_type M v) < MAX_CONTENT_TYPE_LEN M + 1" "15 < MKV_MAX_TRACK_NAME_LEN M + 1"
    using media_lengths(3) [OF assms, of v AUDIO_CODEC_ID_AAC] assms by (simp_all add: media_ok_def)
  then show ?thesis
    using media_lengths(1) [OF assms, of v] track_names
    by (cases v) (simp_all add: createVideoTrackInfo_def fill_track_def in_buffer_def video_track_def zero_track_def DEFAULT_VIDEO_TRACK_ID_def
        DEFAULT_VIDEO_TRACK_NAME_def)
qed

lemma audio_track_created:
  assumes "media_ok M" "length content + length (audio_type M a) \<le> MAX_CONTENT_TYPE_LEN M"
  shows "createAudioTrackInfo M a (Some content) (Some zero_track) n = Some (STATUS_SUCCESS, Some (content @ audio_type M a), audio_track M a (ucast n))"
proof -
  have "15 < MKV_MAX_TRACK_NAME_LEN M + 1" using assms by (simp add: media_ok_def)
  then show ?thesis
    using media_lengths(2) [OF assms(1), of a] assms(2) track_names
    by (cases a) (simp_all add: createAudioTrackInfo_def fill_track_def in_buffer_def audio_track_def zero_track_def DEFAULT_AUDIO_TRACK_NAME_def)
qed

text \<open>The statuses of a creation, in the order of the checks.\<close>

definition creation_status :: "STREAMING_TYPE \<Rightarrow> UINT64 \<Rightarrow> UINT64 \<Rightarrow> UINT64 option \<Rightarrow> STATUS" where
  "creation_status streamingType retention bufferDuration p =
     (if bufferDuration = 0 \<or> streamingType = STREAMING_TYPE_OFFLINE \<and> retention = 0 then STATUS_INVALID_ARG
      else if p = None then STATUS_NOT_ENOUGH_MEMORY else STATUS_SUCCESS)"

lemma create_stream_outcome:
  assumes "tracks = Some (STATUS_SUCCESS, Some (kind_content M kind), kind_tracks M kind)" "n = length (kind_tracks M kind)"
    and "length name \<le> MAX_STREAM_NAME_LEN M" "\<And>p. calloc h = Some p \<Longrightarrow> h p = None \<and> p \<noteq> 0"
  shows "\<exists>p h'. create_stream M calloc h streamingType n tracks (Some name) retention bufferDuration True =
      Some (creation_status streamingType retention bufferDuration (calloc h), p, h') \<and>
    (if creation_status streamingType retention bufferDuration (calloc h) = STATUS_SUCCESS
     then \<exists>q s. p = Some q \<and> h q = None \<and> h' = h(q \<mapsto> s) \<and> description_ok M kind name bufferDuration s \<and> freeStreamInfoProvider (Some q) h' = (STATUS_SUCCESS, Some 0, h)
     else p = None \<and> h' = h)"
proof (cases "creation_status streamingType retention bufferDuration (calloc h) = STATUS_SUCCESS")
  case False
  then show ?thesis by (auto simp: create_stream_def creation_status_def split: if_splits)
next
  case True
  then obtain q where q: "calloc h = Some q" "h q = None" "q \<noteq> 0" using assms(4) by (auto simp: creation_status_def split: if_splits)
  obtain l r where lr: "scaled_duration LATENCY_PRESSURE_FACTOR bufferDuration = Some l" "scaled_duration REPLAY_DURATION_FACTOR bufferDuration = Some r"
      "unat r \<le> unat l" "unat l \<le> unat bufferDuration" using scaled_durations [of bufferDuration] by blast
  have len: "length (kind_tracks M kind) \<in> {1, 2}" "distinct (map ti_trackId (kind_tracks M kind))"
    by (cases kind; simp add: video_track_def audio_track_def)+
  have un: "unat (of_nat (length (kind_tracks M kind)) :: UINT32) = length (kind_tracks M kind)" using len(1) by auto
  obtain s where s: "setStreamInfoDefaults M streamingType retention bufferDuration n
      (zero_stream\<lparr>si_name := name, si_streamCaps := zero_caps\<lparr>sc_contentType := kind_content M kind\<rparr>\<rparr>) (kind_tracks M kind) = Some (STATUS_SUCCESS, s)"
      "description_ok M kind name bufferDuration s"
    using lr len un assms(2) by (auto simp: setStreamInfoDefaults_def description_ok_def Let_def)
  have ib: "in_buffer (Suc (MAX_STREAM_NAME_LEN M)) name = Some name" using assms(3) by (simp add: in_buffer_def)
  have "create_stream M calloc h streamingType n tracks (Some name) retention bufferDuration True = Some (STATUS_SUCCESS, Some q, h(q \<mapsto> s))"
    using True unfolding create_stream_def assms(1) q(1) by (simp add: ib s(1) creation_status_def q(1) split: if_splits)
  moreover have "freeStreamInfoProvider (Some q) (h(q \<mapsto> s)) = (STATUS_SUCCESS, Some 0, h)" using q(2,3) by (simp add: freeStreamInfoProvider_def fun_upd_idem)
  ultimately show ?thesis using True q(2) s(2) by (intro exI [of _ "Some q"] exI [of _ "h(q \<mapsto> s)"]) auto
qed

text \<open>
  C35: creating a stream description. With constants and a name that fit, each of the functions returns:
  the status is decided by the arguments and the allocation alone; a failure leaves nothing behind; on
  success there is one new object, its tracks and content type are those of the codecs, in the order
  video, audio, with different identifiers, and releasing it gives the memory back.
\<close>

theorem createStreamInfo_lifecycle:
  assumes "media_ok M" and "length name \<le> MAX_STREAM_NAME_LEN M" and "\<And>p. calloc h = Some p \<Longrightarrow> h p = None \<and> p \<noteq> 0"
  shows "\<exists>p h'. createStreamInfo M calloc h streamingType kind (Some name) retention bufferDuration True =
      Some (creation_status streamingType retention bufferDuration (calloc h), p, h') \<and>
    (if creation_status streamingType retention bufferDuration (calloc h) = STATUS_SUCCESS
     then \<exists>q s. p = Some q \<and> h q = None \<and> h' = h(q \<mapsto> s) \<and> description_ok M kind name bufferDuration s \<and> freeStreamInfoProvider (Some q) h' = (STATUS_SUCCESS, Some 0, h)
     else p = None \<and> h' = h)"
proof (cases kind)
  case (Video_Only v)
  show ?thesis unfolding Video_Only createStreamInfo_def stream_kind.case createVideoStreamInfo_def
    by (rule create_stream_outcome [OF _ _ assms(2,3)]) (simp_all add: video_track_created [OF assms(1)] VIDEO_ONLY_TRACK_COUNT_def)
next
  case (Audio_Video v a)
  have "in_buffer (MAX_CONTENT_TYPE_LEN M + 1) (video_type M v @ '','') = Some (video_type M v @ '','')"
    using media_lengths(3) [OF assms(1), of v a] by (simp add: in_buffer_def)
  then show ?thesis unfolding Audio_Video createStreamInfo_def stream_kind.case createAudioVideoStreamInfo_def
    using media_lengths(3) [OF assms(1), of v a] by (intro create_stream_outcome [OF _ _ assms(2,3)])
      (simp_all add: video_track_created [OF assms(1)] audio_track_created [OF assms(1)] VIDEO_WITH_AUDIO_TRACK_COUNT_def DEFAULT_AUDIO_TRACK_ID_def)
next
  case (Audio_Only a)
  show ?thesis unfolding Audio_Only createStreamInfo_def stream_kind.case createAudioStreamInfo_def
    using media_lengths(3) [OF assms(1), of VIDEO_CODEC_ID_H264 a] by (intro create_stream_outcome [OF _ _ assms(2,3)])
      (simp_all add: audio_track_created [OF assms(1)] AUDIO_ONLY_TRACK_COUNT_def DEFAULT_AUDIO_ONLY_TRACK_ID_def)
qed

subsection \<open>Witnesses\<close>

definition sample_media :: media where
  "sample_media = \<lparr>MKV_H264_AVC_CODEC_ID = ''V_MPEG4/ISO/AVC'', MKV_H264_CONTENT_TYPE = ''video/h264'', MKV_H265_HEVC_CODEC_ID = ''V_MPEGH/ISO/HEVC'',
     MKV_H265_CONTENT_TYPE = ''video/h265'', MKV_AAC_CODEC_ID = ''A_AAC'', MKV_AAC_CONTENT_TYPE = ''audio/aac'', MKV_PCM_CODEC_ID = ''A_MS/ACM'',
     MKV_ALAW_CONTENT_TYPE = ''audio/alaw'', MKV_MULAW_CONTENT_TYPE = ''audio/mulaw'', MKV_MAX_CODEC_ID_LEN = 32, MKV_MAX_TRACK_NAME_LEN = 32,
     MAX_CONTENT_TYPE_LEN = 128, MAX_STREAM_NAME_LEN = 256, NAL_ADAPTATION_ANNEXB_CPD_NALS = 16, NAL_ADAPTATION_ANNEXB_NALS = 8,
     STREAM_INFO_CURRENT_VERSION = 2, CONTENT_STORE_PRESSURE_POLICY_DROP_TAIL_ITEM = 1, CONTENT_VIEW_OVERFLOW_POLICY_DROP_UNTIL_FRAGMENT_START = 1\<rparr>"

theorem createStreamInfo_lifecycle_witness:
  "\<exists>q s. createStreamInfo sample_media (\<lambda>h. small_calloc h [8]) (\<lambda>_. None) STREAMING_TYPE_OFFLINE (Audio_Video VIDEO_CODEC_ID_H265 AUDIO_CODEC_ID_AAC)
      (Some ''camera'') 1 600000000 True = Some (STATUS_SUCCESS, Some q, [q \<mapsto> s]) \<and> sc_contentType (si_streamCaps s) = ''video/h265,audio/aac''"
proof -
  have ok: "media_ok sample_media" "length ''camera'' \<le> MAX_STREAM_NAME_LEN sample_media" by code_simp+
  have st: "creation_status STREAMING_TYPE_OFFLINE 1 600000000 (small_calloc (\<lambda>_. None :: StreamInfo option) [8]) = STATUS_SUCCESS" by code_simp
  have ty: "kind_content sample_media (Audio_Video VIDEO_CODEC_ID_H265 AUDIO_CODEC_ID_AAC) = ''video/h265,audio/aac''" by code_simp
  show ?thesis
    using createStreamInfo_lifecycle [OF ok, of "\<lambda>h. small_calloc h [8]" "\<lambda>_. None" STREAMING_TYPE_OFFLINE
        "Audio_Video VIDEO_CODEC_ID_H265 AUDIO_CODEC_ID_AAC" 1 600000000] st ty
    by (auto simp: small_calloc_def description_ok_def Let_def split: if_splits)
qed

text \<open>The default branch of the video codec names H.264 but appends the content type of H.265.\<close>

lemma other_video_codec_mismatch:
  assumes "media_ok M"
  shows "createVideoTrackInfo M (VIDEO_CODEC_ID_OTHER n) (Some '''') (Some zero_track) =
    Some (STATUS_SUCCESS, Some (MKV_H265_CONTENT_TYPE M), (video_track M VIDEO_CODEC_ID_H264))"
  by (simp add: video_track_created [OF assms] video_track_def)

end
