(* ===== verification/Device_Info.thy ===== *)
theory Device_Info
  imports Stream_Info
begin

text \<open>
  The default description of the device (\<open>DeviceInfoProvider.c\<close>). The constants of the platform
  independent code, the environment variable with the log level and the number reader are a
  parameter.
\<close>

record StorageInfo =
  so_version :: UINT32
  so_storageType :: UINT32
  so_storageSize :: UINT64
  so_spillRatio :: UINT32
  so_rootDirectory :: string

record ClientInfo =
  ci_version :: UINT32
  ci_createClientTimeout :: UINT64
  ci_createStreamTimeout :: UINT64
  ci_stopStreamTimeout :: UINT64
  ci_loggerLogLevel :: UINT32
  ci_logMetric :: bool
  ci_automaticStreamingFlags :: UINT32
  ci_reservedCallbackPeriod :: UINT64

record DeviceInfo =
  di_version :: UINT32
  di_name :: string
  di_clientId :: string
  di_tagCount :: UINT32
  di_tags :: UINT64
  di_storageInfo :: StorageInfo
  di_streamCount :: UINT32
  di_clientInfo :: ClientInfo

record device_env =
  de_calloc :: "(UINT64 \<Rightarrow> DeviceInfo option) \<Rightarrow> UINT64 option"
  de_logLevel :: PCHAR
  de_STRTOUI32 :: strtoui32_fun
  DEVICE_INFO_CURRENT_VERSION :: UINT32
  STORAGE_INFO_CURRENT_VERSION :: UINT32
  CLIENT_INFO_CURRENT_VERSION :: UINT32
  DEVICE_STORAGE_TYPE_IN_MEM :: UINT32
  DEFAULT_LOGGER_LOG_LEVEL :: UINT32
  LOG_LEVEL_VERBOSE :: UINT32
  LOG_LEVEL_SILENT :: UINT32
  AUTOMATIC_STREAMING_INTERMITTENT_PRODUCER :: UINT32
  INTERMITTENT_PRODUCER_PERIOD_SENTINEL_VALUE :: UINT64
  MAX_STORAGE_ALLOCATION_SIZE :: UINT64

type_synonym dheap = "UINT64 \<Rightarrow> DeviceInfo option"

definition STORAGE_ALLOCATION_DEFRAGMENTATION_FACTOR :: DOUBLE where "STORAGE_ALLOCATION_DEFRAGMENTATION_FACTOR = to_double (12 / 10)"
definition DEFAULT_STREAM_COUNT :: UINT32 where "DEFAULT_STREAM_COUNT = 100"
definition DEFAULT_DEVICE_STORAGE_SIZE :: UINT64 where "DEFAULT_DEVICE_STORAGE_SIZE = 128 * 1024 * 1024"

definition log_level :: "device_env \<Rightarrow> UINT32" where
  "log_level E = (case de_logLevel E of
     None \<Rightarrow> DEFAULT_LOGGER_LOG_LEVEL E
   | Some s \<Rightarrow> (case de_STRTOUI32 E s 10 of (st, userLogLevel) \<Rightarrow>
       if STATUS_FAILED st then DEFAULT_LOGGER_LOG_LEVEL E
       else if userLogLevel > LOG_LEVEL_SILENT E then LOG_LEVEL_SILENT E
       else if userLogLevel < LOG_LEVEL_VERBOSE E then LOG_LEVEL_VERBOSE E
       else userLogLevel))"

definition default_device :: "device_env \<Rightarrow> DeviceInfo" where
  "default_device E = \<lparr>di_version = DEVICE_INFO_CURRENT_VERSION E, di_name = '''', di_clientId = '''', di_tagCount = 0, di_tags = 0,
     di_storageInfo = \<lparr>so_version = STORAGE_INFO_CURRENT_VERSION E, so_storageType = DEVICE_STORAGE_TYPE_IN_MEM E,
       so_storageSize = DEFAULT_DEVICE_STORAGE_SIZE, so_spillRatio = 0, so_rootDirectory = ''''\<rparr>,
     di_streamCount = DEFAULT_STREAM_COUNT,
     di_clientInfo = \<lparr>ci_version = CLIENT_INFO_CURRENT_VERSION E, ci_createClientTimeout = 0, ci_createStreamTimeout = 0, ci_stopStreamTimeout = 0,
       ci_loggerLogLevel = log_level E, ci_logMetric = True, ci_automaticStreamingFlags = AUTOMATIC_STREAMING_INTERMITTENT_PRODUCER E,
       ci_reservedCallbackPeriod = INTERMITTENT_PRODUCER_PERIOD_SENTINEL_VALUE E\<rparr>\<rparr>"

definition freeDeviceInfo :: "UINT64 option \<Rightarrow> dheap \<Rightarrow> STATUS \<times> UINT64 option \<times> dheap" where
  "freeDeviceInfo ppDeviceInfo h = (case ppDeviceInfo of
     None \<Rightarrow> (STATUS_NULL_ARG, None, h)
   | Some p \<Rightarrow> if p = 0 then (STATUS_SUCCESS, Some p, h) else (STATUS_SUCCESS, Some 0, h(p := None)))"

text \<open>The result is the status, the pointer that is stored, if any, and the heap.\<close>

definition createDefaultDeviceInfo :: "device_env \<Rightarrow> bool \<Rightarrow> dheap \<Rightarrow> STATUS \<times> UINT64 option \<times> dheap" where
  "createDefaultDeviceInfo E ppDeviceInfo h =
     (if \<not> ppDeviceInfo then (STATUS_NULL_ARG, None, h)
      else (case de_calloc E h of
        None \<Rightarrow> (STATUS_NOT_ENOUGH_MEMORY, None, h)
      | Some p \<Rightarrow> (STATUS_SUCCESS, Some p, h(p \<mapsto> default_device E))))"

definition setDeviceInfoStorageSize :: "device_env \<Rightarrow> DeviceInfo option \<Rightarrow> UINT64 \<Rightarrow> STATUS \<times> DeviceInfo option" where
  "setDeviceInfoStorageSize E pDeviceInfo storageSize = (case pDeviceInfo of
     None \<Rightarrow> (STATUS_NULL_ARG, None)
   | Some d \<Rightarrow>
       if \<not> storageSize \<le> MAX_STORAGE_ALLOCATION_SIZE E then (STATUS_INVALID_STORAGE_SIZE, Some d)
       else (STATUS_SUCCESS, Some (d\<lparr>di_storageInfo := (di_storageInfo d)\<lparr>so_storageSize := storageSize\<rparr>\<rparr>)))"

definition estimated_storage :: "UINT32 \<Rightarrow> UINT64 \<Rightarrow> UINT64 \<Rightarrow> DOUBLE" where
  "estimated_storage streamCount averageBitsPerSecond bufferDuration =
     dmul (dmul (to_double (of_nat (unat streamCount)))
         (dmul (ddiv (to_double (of_nat (unat averageBitsPerSecond))) 8)
               (ddiv (to_double (of_nat (unat bufferDuration))) (to_double (of_nat (unat HUNDREDS_OF_NANOS_IN_A_SECOND))))))
       STORAGE_ALLOCATION_DEFRAGMENTATION_FACTOR"

definition setDeviceInfoStorageSizeBasedOnBitrateAndBufferDuration ::
    "device_env \<Rightarrow> DeviceInfo option \<Rightarrow> UINT64 \<Rightarrow> UINT64 \<Rightarrow> (STATUS \<times> DeviceInfo option) option" where
  "setDeviceInfoStorageSizeBasedOnBitrateAndBufferDuration E pDeviceInfo averageBitsPerSecond bufferDuration = (case pDeviceInfo of
     None \<Rightarrow> Some (STATUS_NULL_ARG, None)
   | Some d \<Rightarrow>
       if \<not> (averageBitsPerSecond > 0 \<and> bufferDuration > 0) then Some (STATUS_INVALID_ARG, Some d)
       else do {
         estimate \<leftarrow> double_to_uint64 (estimated_storage (di_streamCount d) averageBitsPerSecond bufferDuration);
         Some (setDeviceInfoStorageSize E pDeviceInfo (of_nat estimate))
       })"

subsection \<open>Sizing\<close>

text \<open>
  C36: sizing a stream. For a storage, a bit rate and a number of streams that are not zero the durations
  are computed without overflow: the content of all streams for the buffer duration fits the storage,
  the buffer duration is the longest number of whole seconds up to the factor for fragmentation, and
  the replay duration and the latency threshold are ordered below it.
\<close>

theorem setStreamInfoBasedOnStorageSize_fits:
  assumes "0 < storageSize" "0 < avgBitrate" "0 < totalStreamCount"
  shows "\<exists>s' k. setStreamInfoBasedOnStorageSize storageSize avgBitrate totalStreamCount (Some s) = Some (STATUS_SUCCESS, Some s') \<and>
    unat (sc_bufferDuration (si_streamCaps s')) = k * 10000000 \<and>
    k * unat avgBitrate * unat totalStreamCount \<le> 8 * unat storageSize \<and>
    84 * (8 * unat storageSize) < 100 * (k + 1) * unat avgBitrate * unat totalStreamCount \<and>
    unat (sc_replayDuration (si_streamCaps s')) \<le> unat (sc_maxLatency (si_streamCaps s')) \<and>
    unat (sc_maxLatency (si_streamCaps s')) \<le> unat (sc_bufferDuration (si_streamCaps s'))"
proof -
  obtain k where k: "storage_seconds storageSize avgBitrate totalStreamCount = Some k"
      "10000 * k * unat avgBitrate * unat totalStreamCount \<le> 8502 * 8 * unat storageSize"
      "8498 * 8 * unat storageSize < 10000 * (k + 1) * unat avgBitrate * unat totalStreamCount"
    using storage_seconds_near [OF assms] by blast
  have pos: "0 < unat avgBitrate * unat totalStreamCount" using assms by (simp add: word_less_nat_alt)
  have "10000 * k * 1 \<le> 10000 * k * (unat avgBitrate * unat totalStreamCount)" using pos by (intro mult_le_mono2) simp
  also have "\<dots> \<le> 8502 * 8 * unat storageSize" using k(2) by (simp only: mult.assoc)
  finally have "10000 * k \<le> 8502 * 8 * unat storageSize" by simp
  then have "k * 10000000 < 2 ^ 64" using unat_bound [of storageSize] by simp
  then have u: "unat (of_nat k * HUNDREDS_OF_NANOS_IN_A_SECOND :: UINT64) = k * 10000000"
  proof -
    have "(of_nat k * HUNDREDS_OF_NANOS_IN_A_SECOND :: UINT64) = of_nat (k * 10000000)" by (simp add: HUNDREDS_OF_NANOS_IN_A_SECOND_def)
    then show ?thesis using \<open>k * 10000000 < 2 ^ 64\<close> by (simp only: unat_of_nat) (simp add: take_bit_nat_eq_self)
  qed
  obtain l r where lr: "scaled_duration LATENCY_PRESSURE_FACTOR (of_nat k * HUNDREDS_OF_NANOS_IN_A_SECOND) = Some l"
      "scaled_duration REPLAY_DURATION_FACTOR (of_nat k * HUNDREDS_OF_NANOS_IN_A_SECOND) = Some r" "unat r \<le> unat l"
      "unat l \<le> unat (of_nat k * HUNDREDS_OF_NANOS_IN_A_SECOND :: UINT64)"
    using scaled_durations [of "of_nat k * HUNDREDS_OF_NANOS_IN_A_SECOND"] by blast
  have z: "storageSize \<noteq> 0" "avgBitrate \<noteq> 0" "totalStreamCount \<noteq> 0" using assms by auto
  define Q where "Q = k * unat avgBitrate * unat totalStreamCount"
  have q: "10000 * k * unat avgBitrate * unat totalStreamCount = 10000 * Q"
    "10000 * (k + 1) * unat avgBitrate * unat totalStreamCount = 100 * (100 * (k + 1) * unat avgBitrate * unat totalStreamCount)" by (simp_all add: Q_def)
  have "Q \<le> 8 * unat storageSize" "84 * (8 * unat storageSize) < 100 * (k + 1) * unat avgBitrate * unat totalStreamCount"
    using k(2,3) unfolding q by linarith+
  note size = this
  have run: "setStreamInfoBasedOnStorageSize storageSize avgBitrate totalStreamCount (Some s) =
      Some (STATUS_SUCCESS, Some (s\<lparr>si_streamCaps := (si_streamCaps s)\<lparr>sc_bufferDuration := of_nat k * HUNDREDS_OF_NANOS_IN_A_SECOND,
        sc_replayDuration := r, sc_maxLatency := l\<rparr>\<rparr>))"
    unfolding setStreamInfoBasedOnStorageSize_def option.case k(1) bind.bind_lunit Let_def lr using assms by simp
  show ?thesis
    unfolding run
    apply (rule exI, rule exI [of _ k], rule conjI, rule refl)
    using size u lr(3,4) by (simp add: Q_def)
qed

theorem setStreamInfoBasedOnStorageSize_fits_witness:
  "\<exists>s' k. setStreamInfoBasedOnStorageSize 1000000 800000 2 (Some zero_stream) = Some (STATUS_SUCCESS, Some s') \<and>
     unat (sc_bufferDuration (si_streamCaps s')) = k * 10000000 \<and> k \<le> 5 \<and> 3 \<le> k"
proof -
  have "(0 :: UINT32) < 1000000" "(0 :: UINT64) < 800000" "(0 :: UINT32) < 2" by simp_all
  from setStreamInfoBasedOnStorageSize_fits [OF this, of zero_stream] show ?thesis by auto
qed

lemma estimate_lower:
  fixes n r d :: nat
  assumes "n < 2 ^ 32"
  defines "e \<equiv> dmul (dmul (to_double (of_nat n)) (dmul (ddiv (to_double (of_nat r)) 8) (ddiv (to_double (of_nat d)) (to_double (of_nat 10000000)))))
    STORAGE_ALLOCATION_DEFRAGMENTATION_FACTOR"
  shows "11999 * of_nat (n * r * d) \<le> 10000 * 80000000 * e"
proof -
  define R D where "R = to_double (of_nat r)" and "D = to_double (of_nat d)"
  have R: "999999 / 1000000 * of_nat r \<le> R" "0 \<le> R" using to_double_near [of "of_nat r"] by (simp_all add: R_def)
  have D: "999999 / 1000000 * of_nat d \<le> D" "0 \<le> D" using to_double_near [of "of_nat d"] by (simp_all add: D_def)
  have N: "to_double (of_nat n) = of_nat n" using to_double_nat [of n] assms(1) by simp
  have s: "to_double (of_nat 10000000) = 10000000" using to_double_nat [of 10000000] by simp
  have "999997 / 1000000 * (R / 8) \<le> ddiv R 8" "999997 / 1000000 * (D / 10000000) \<le> ddiv D 10000000"
    by (rule ddiv_near(1); use R D in simp)+
  then have rd: "999995 / 1000000 / 8 * of_nat r \<le> ddiv R 8" "999995 / 1000000 / 10000000 * of_nat d \<le> ddiv D 10000000" using R D by linarith+
  define c where "c = dmul (ddiv R 8) (ddiv D 10000000)"
  have c: "999999 / 1000000 * (999995 / 1000000 / 8 * of_nat r * (999995 / 1000000 / 10000000 * of_nat d)) \<le> c" "0 \<le> c"
    unfolding c_def by (rule dmul_lower [OF _ rd(1) _ rd(2)]; simp)+
  define P where "P = (of_nat (r * d) :: rat)"
  have P: "0 \<le> P" "of_nat r * of_nat d = P" by (simp_all add: P_def)
  have cP: "99998 / 100000 / 80000000 * P \<le> c" using c(1) P(1) by (simp add: P(2))
  define m where "m = dmul (of_nat n) c"
  have m: "999999 / 1000000 * (of_nat n * (99998 / 100000 / 80000000 * P)) \<le> m" "0 \<le> m"
    unfolding m_def by (rule dmul_lower [OF _ order_refl _ cP]; simp add: P_def)+
  have f: "119999 / 100000 \<le> STORAGE_ALLOCATION_DEFRAGMENTATION_FACTOR"
    using to_double_near(1) [of "12 / 10"] by (simp add: STORAGE_ALLOCATION_DEFRAGMENTATION_FACTOR_def)
  define X where "X = (of_nat (n * r * d) :: rat)"
  have X: "of_nat n * P = X" "0 \<le> X" by (simp_all add: X_def P_def)
  have mX: "99997 / 100000 / 80000000 * X \<le> m" using m(1) X by (simp add: mult.left_commute [of "of_nat n"])
  have e: "e = dmul m STORAGE_ALLOCATION_DEFRAGMENTATION_FACTOR" unfolding e_def N s m_def c_def R_def D_def ..
  have "999999 / 1000000 * (99997 / 100000 / 80000000 * X * (119999 / 100000)) \<le> e"
    unfolding e by (rule dmul_lower [OF _ mX _ f]) (use X in simp_all)
  then show ?thesis using X(2) unfolding X_def [symmetric] by simp
qed

lemma sizing_arithmetic:
  fixes V T S w :: nat
  assumes "10000000 * V + 20000000 * w \<le> T" "11999 * T \<le> 800000000000 * S + 800000000000" "672 * S < 100 * V + 100 * w"
  shows "w < 8"
  using assms by linarith

text \<open>
  Sizing the device and then a stream. The storage computed for a bit rate, a duration and the
  number of streams of the device, handed to the sizing of a stream with the same bit rate and number
  of streams, gives at least that duration less two seconds: the head room of the first computation covers
  the fragmentation factor of the second and all rounding.
\<close>

theorem storage_sizing_composes:
  assumes "setDeviceInfoStorageSizeBasedOnBitrateAndBufferDuration E (Some d) bitrate duration = Some (STATUS_SUCCESS, Some d')"
    and "8 \<le> unat bitrate" "0 < di_streamCount d"
    and "0 < so_storageSize (di_storageInfo d')" "unat (so_storageSize (di_storageInfo d')) < 2 ^ 32"
  shows "\<exists>s'. setStreamInfoBasedOnStorageSize (ucast (so_storageSize (di_storageInfo d'))) bitrate (di_streamCount d) (Some s) = Some (STATUS_SUCCESS, Some s') \<and>
    unat duration < unat (sc_bufferDuration (si_streamCaps s')) + 20000000"
proof -
  obtain S where S: "double_to_uint64 (estimated_storage (di_streamCount d) bitrate duration) = Some S"
      "setDeviceInfoStorageSize E (Some d) (of_nat S) = (STATUS_SUCCESS, Some d')"
    using assms(1) by (auto simp: setDeviceInfoStorageSizeBasedOnBitrateAndBufferDuration_def split: if_splits bind_splits)
  then have so: "so_storageSize (di_storageInfo d') = of_nat S" by (auto simp: setDeviceInfoStorageSize_def split: if_splits)
  note fl = double_to_uint64_floor [OF S(1)]
  have uS: "unat (of_nat S :: UINT64) = S" using fl(3) by (simp only: unat_of_nat) (simp add: take_bit_nat_eq_self)
  define n r t where "n = unat (di_streamCount d)" and "r = unat bitrate" and "t = unat duration"
  have h: "unat HUNDREDS_OF_NANOS_IN_A_SECOND = 10000000" by (simp add: HUNDREDS_OF_NANOS_IN_A_SECOND_def)
  have "11999 * of_nat (n * r * t) \<le> 10000 * 80000000 * estimated_storage (di_streamCount d) bitrate duration"
    using estimate_lower [of n r t] unat_bound [of "di_streamCount d"] unfolding estimated_storage_def n_def r_def t_def h by simp
  also have "\<dots> \<le> 10000 * 80000000 * (of_nat S + 1)" using fl(2) by simp
  finally have "(of_nat (11999 * (n * r * t)) :: rat) \<le> of_nat (10000 * 80000000 * (S + 1))" by simp
  then have up: "11999 * (n * r * t) \<le> 10000 * 80000000 * (S + 1)" by (simp only: of_nat_le_iff)
  define st :: UINT32 where "st = ucast (so_storageSize (di_storageInfo d'))"
  have ust: "unat st = S" using assms(5) unfolding st_def so by (simp add: unsigned_ucast_eq uS take_bit_nat_eq_self)
  have "0 < S" using assms(4) unfolding so by (cases S) simp_all
  then have pos: "0 < st" "0 < bitrate" using ust assms(2) by (simp_all add: word_less_nat_alt)
  from setStreamInfoBasedOnStorageSize_fits [OF pos assms(3), of s]
  obtain s' k where s': "setStreamInfoBasedOnStorageSize st bitrate (di_streamCount d) (Some s) = Some (STATUS_SUCCESS, Some s')"
      "unat (sc_bufferDuration (si_streamCaps s')) = k * 10000000" "84 * (8 * S) < 100 * (k + 1) * r * n"
    unfolding ust r_def n_def by blast
  define w where "w = n * r"
  have "1 \<le> n" using assms(3) by (simp add: n_def word_less_nat_alt)
  then have "1 * 8 \<le> n * r" using assms(2) unfolding r_def by (rule mult_le_mono)
  then have w: "8 \<le> w" by (simp add: w_def)
  have "t < (k + 2) * 10000000"
  proof (rule ccontr)
    assume "\<not> t < (k + 2) * 10000000"
    then have T: "w * ((k + 2) * 10000000) \<le> w * t" by simp
    have e: "w * ((k + 2) * 10000000) = 10000000 * (w * k) + 20000000 * w" "100 * (k + 1) * r * n = 100 * (w * k) + 100 * w" "n * r * t = w * t"
      "10000 * 80000000 * (S + 1) = 800000000000 * S + 800000000000" "84 * (8 * S) = 672 * S"
      by (simp_all add: w_def algebra_simps)
    note sizing_arithmetic [OF T [unfolded e] up [unfolded e] s'(3) [unfolded e]]
    then show False using w by simp
  qed
  then show ?thesis using s'(1,2) by (auto simp: st_def t_def)
qed

definition sample_device_env :: device_env where
  "sample_device_env = \<lparr>de_calloc = (\<lambda>h. small_calloc h [8]), de_logLevel = Some ''9'', de_STRTOUI32 = plain_strtoui32, DEVICE_INFO_CURRENT_VERSION = 1,
     STORAGE_INFO_CURRENT_VERSION = 0, CLIENT_INFO_CURRENT_VERSION = 2, DEVICE_STORAGE_TYPE_IN_MEM = 0, DEFAULT_LOGGER_LOG_LEVEL = 4, LOG_LEVEL_VERBOSE = 1,
     LOG_LEVEL_SILENT = 7, AUTOMATIC_STREAMING_INTERMITTENT_PRODUCER = 0, INTERMITTENT_PRODUCER_PERIOD_SENTINEL_VALUE = 0,
     MAX_STORAGE_ALLOCATION_SIZE = 10737418240\<rparr>"

theorem storage_sizing_composes_witness:
  "\<exists>s' n. setStreamInfoBasedOnStorageSize n 8000000 2 (Some zero_stream) = Some (STATUS_SUCCESS, Some s') \<and>
     600000000 < unat (sc_bufferDuration (si_streamCaps s')) + 20000000"
proof -
  let ?d = "(default_device sample_device_env)\<lparr>di_streamCount := 2\<rparr>"
  have n: "to_double 2 = 2" "to_double 8000000 = 8000000" "to_double 1000000 = 1000000" "to_double 600000000 = 600000000" "to_double 10000000 = 10000000"
    "to_double 60 = 60" "to_double 60000000 = 60000000" "to_double 120000000 = 120000000"
    using to_double_nat [of 2] to_double_nat [of 8000000] to_double_nat [of 1000000] to_double_nat [of 600000000] to_double_nat [of 10000000]
      to_double_nat [of 60] to_double_nat [of 60000000] to_double_nat [of 120000000] by simp_all
  define e where "e = dmul 120000000 STORAGE_ALLOCATION_DEFRAGMENTATION_FACTOR"
  have e: "estimated_storage 2 8000000 600000000 = e"
    by (simp add: estimated_storage_def HUNDREDS_OF_NANOS_IN_A_SECOND_def n dmul_def ddiv_def e_def)
  have f: "119999 / 100000 \<le> STORAGE_ALLOCATION_DEFRAGMENTATION_FACTOR" "STORAGE_ALLOCATION_DEFRAGMENTATION_FACTOR \<le> 120001 / 100000"
    using to_double_near(1,2) [of "12 / 10"] by (simp_all add: STORAGE_ALLOCATION_DEFRAGMENTATION_FACTOR_def)
  have b: "143 * 10 ^ 6 \<le> e" "e \<le> 145 * 10 ^ 6"
    using dmul_near [of STORAGE_ALLOCATION_DEFRAGMENTATION_FACTOR 120000000, OF _ _ f] f by (simp_all add: e_def dmul_def mult.commute)
  then obtain S where S: "double_to_uint64 e = Some S" by (simp add: double_to_uint64_def)
  note fl = double_to_uint64_floor [OF S]
  have "(of_nat 0 :: rat) < of_nat S" "(of_nat S :: rat) \<le> of_nat 145000000" using fl(1,2) b by simp_all
  then have s: "0 < S" "S \<le> 145000000" by (simp_all only: of_nat_less_iff of_nat_le_iff)
  have uS: "unat (of_nat S :: UINT64) = S" using fl(3) by (simp only: unat_of_nat) (simp add: take_bit_nat_eq_self)
  have le: "(of_nat S :: UINT64) \<le> 10737418240" and z: "(0 :: UINT64) < of_nat S" using s by (simp_all add: word_le_nat_alt word_less_nat_alt uS)
  define d' where "d' = ?d\<lparr>di_storageInfo := (di_storageInfo ?d)\<lparr>so_storageSize := of_nat S\<rparr>\<rparr>"
  have "setDeviceInfoStorageSizeBasedOnBitrateAndBufferDuration sample_device_env (Some ?d) 8000000 600000000 = Some (STATUS_SUCCESS, Some d')"
    using le by (simp add: setDeviceInfoStorageSizeBasedOnBitrateAndBufferDuration_def e S setDeviceInfoStorageSize_def d'_def sample_device_env_def)
  from storage_sizing_composes [OF this, of zero_stream] show ?thesis using z uS s by (auto simp: d'_def)
qed

text \<open>The log level of the environment is kept within its limits.\<close>

lemma log_level_range:
  assumes "LOG_LEVEL_VERBOSE E \<le> LOG_LEVEL_SILENT E" "LOG_LEVEL_VERBOSE E \<le> DEFAULT_LOGGER_LOG_LEVEL E" "DEFAULT_LOGGER_LOG_LEVEL E \<le> LOG_LEVEL_SILENT E"
  shows "LOG_LEVEL_VERBOSE E \<le> log_level E \<and> log_level E \<le> LOG_LEVEL_SILENT E"
proof (cases "de_logLevel E")
  case None
  then show ?thesis using assms(2,3) by (simp only: log_level_def option.case simp_thms)
next
  case (Some s)
  obtain st u where r: "de_STRTOUI32 E s 10 = (st, u)" by fastforce
  have l: "log_level E = (if STATUS_FAILED st then DEFAULT_LOGGER_LOG_LEVEL E else if u > LOG_LEVEL_SILENT E then LOG_LEVEL_SILENT E
      else if u < LOG_LEVEL_VERBOSE E then LOG_LEVEL_VERBOSE E else u)"
    by (simp only: log_level_def Some option.case r prod.case)
  consider "STATUS_FAILED st" | "\<not> STATUS_FAILED st" "u > LOG_LEVEL_SILENT E" | "\<not> STATUS_FAILED st" "\<not> u > LOG_LEVEL_SILENT E" "u < LOG_LEVEL_VERBOSE E"
    | "\<not> STATUS_FAILED st" "\<not> u > LOG_LEVEL_SILENT E" "\<not> u < LOG_LEVEL_VERBOSE E" by blast
  then show ?thesis
  proof cases
    case 1
    then show ?thesis using assms by (simp only: l if_True simp_thms)
  next
    case 2
    then show ?thesis using assms by (simp only: l if_True if_False order_refl simp_thms)
  next
    case 3
    then show ?thesis using assms by (simp only: l if_True if_False order_refl simp_thms)
  next
    case 4
    then have u: "log_level E = u" by (simp only: l if_False)
    show ?thesis unfolding u using 4(2,3) by (simp only: not_less simp_thms)
  qed
qed

text \<open>A device description, too, is released completely.\<close>

lemma device_lifecycle:
  assumes "\<And>p. de_calloc E h = Some p \<Longrightarrow> h p = None \<and> p \<noteq> 0" "createDefaultDeviceInfo E True h = (st, p, h')"
  shows "st = STATUS_SUCCESS \<and> (\<exists>q. p = Some q \<and> h' = h(q \<mapsto> default_device E) \<and> freeDeviceInfo (Some q) h' = (STATUS_SUCCESS, Some 0, h)) \<or>
    st = STATUS_NOT_ENOUGH_MEMORY \<and> p = None \<and> h' = h"
proof (cases "de_calloc E h")
  case None
  then have "createDefaultDeviceInfo E True h = (STATUS_NOT_ENOUGH_MEMORY, None, h)" by (simp only: createDefaultDeviceInfo_def option.case simp_thms if_False)
  then show ?thesis using assms(2) by (simp only: prod.inject simp_thms)
next
  case (Some q)
  then have q: "h q = None" "q \<noteq> 0" using assms(1) by blast+
  have "createDefaultDeviceInfo E True h = (STATUS_SUCCESS, Some q, h(q \<mapsto> default_device E))"
    using Some by (simp only: createDefaultDeviceInfo_def option.case simp_thms if_False)
  then have r: "st = STATUS_SUCCESS" "p = Some q" "h' = h(q \<mapsto> default_device E)" using assms(2) by (simp_all only: prod.inject)
  have "freeDeviceInfo (Some q) h' = (STATUS_SUCCESS, Some 0, h)"
    unfolding r freeDeviceInfo_def option.case if_not_P [OF q(2)] fun_upd_upd using q(1) by (simp only: fun_upd_idem)
  then show ?thesis using r by blast
qed

end
