(* ===== verification/Curl_Response.thy ===== *)
theory Curl_Response
  imports Service_Calls Request_Signing Timestamps
begin

text \<open>
  One call of the service by the curl library: the response object (\<open>Response.c\<close>), the functions that
  curl calls back while it sends a request and receives the answer, the list of headers given to curl
  and the blocking call of the credential providers (\<open>Common/Curl/CurlCall.c\<close>), and the release of what
  a call collected (\<open>releaseCallInfo\<close> of \<open>Common/RequestInfo.c\<close>).

  \<^item> A curl handle is the list of the options that were set on it, in the order of the calls. The
    functions that curl gets are their names; the data it gets with them is always the request.
  \<^item> \<open>curl_easy_perform\<close> is a parameter: a function from the options, the request and the world to a
    code, the status of the answer and the request and the world behind it, so that it may call the
    functions it was given and see what other threads do to the request.
  \<^item> The world holds the number of curl handles that are live, the headers that are live, the sleeps
    that were made, and a state of the platform independent code that is a type parameter.
  \<^item> The response belongs to the request that points to it. The callbacks object, to which the
    request points, is here the callbacks provider it points to, 0 for NULL.
  \<^item> \<open>None\<close> as the result of a function is undefined behaviour.
\<close>

type_synonym SIZE_T = "64 word"

datatype (plugins only: code size) CURLcode =
  CURLE_OK | CURLE_UNSUPPORTED_PROTOCOL | CURLE_OPERATION_TIMEDOUT | CURLE_SSL_CERTPROBLEM | CURLE_SSL_CACERT | CURLE_OTHER nat

datatype (plugins only: code size) curl_option =
    CURLOPT_ERRORBUFFER
  | CURLOPT_URL string
  | CURLOPT_NOSIGNAL nat
  | CURLOPT_LOW_SPEED_TIME UINT64
  | CURLOPT_LOW_SPEED_LIMIT UINT64
  | CURLOPT_CAPATH string
  | CURLOPT_CAINFO string
  | CURLOPT_SSL_VERIFYPEER nat
  | CURLOPT_SSL_VERIFYHOST nat
  | CURLOPT_SSLVERSION_TLSv1_2
  | CURLOPT_SSLCERTTYPE string
  | CURLOPT_SSLCERT string
  | CURLOPT_SSLKEY string
  | CURLOPT_TIMEOUT_MS UINT64
  | CURLOPT_CONNECTTIMEOUT_MS UINT64
  | CURLOPT_TCP_NODELAY nat
  | CURLOPT_HEADERFUNCTION string
  | CURLOPT_READFUNCTION string
  | CURLOPT_WRITEFUNCTION string
  | CURLOPT_HTTPGET
  | CURLOPT_UPLOAD
  | CURLOPT_POST
  | CURLOPT_POSTFIELDSIZE UINT32
  | CURLOPT_POSTFIELDS string
  | CURLOPT_HTTPHEADER "string list"

type_synonym CURL = "curl_option list"

definition HTTP_STATUS_CODE_NOT_SET :: UINT32 where "HTTP_STATUS_CODE_NOT_SET = 0"
definition HTTP_STATUS_CODE_OK :: UINT32 where "HTTP_STATUS_CODE_OK = 200"
definition HTTP_STATUS_CODE_REQUEST_TIMEOUT :: UINT32 where "HTTP_STATUS_CODE_REQUEST_TIMEOUT = 408"
definition HUNDREDS_OF_NANOS_IN_A_MILLISECOND :: UINT64 where "HUNDREDS_OF_NANOS_IN_A_MILLISECOND = 10000"
definition TIMEOUT_AFTER_STREAM_STOPPED :: UINT64 where "TIMEOUT_AFTER_STREAM_STOPPED = 1 * HUNDREDS_OF_NANOS_IN_A_MILLISECOND"
definition CA_CERT_FILE_SUFFIX :: string where "CA_CERT_FILE_SUFFIX = ''.pem''"
definition MAX_GET_DATA_ITER :: nat where "MAX_GET_DATA_ITER = 6"
definition BASE_GET_DATA_SLEEP_TIME :: UINT64 where "BASE_GET_DATA_SLEEP_TIME = 20 * HUNDREDS_OF_NANOS_IN_A_MILLISECOND"
definition MAX_REQUEST_HEADER_STRING_LEN :: nat where "MAX_REQUEST_HEADER_STRING_LEN = MAX_REQUEST_HEADER_NAME_LEN + MAX_REQUEST_HEADER_VALUE_LEN + 3"
definition MAX_REQUEST_HEADER_OUTPUT_DELIMITER :: nat where "MAX_REQUEST_HEADER_OUTPUT_DELIMITER = 5"
definition REQUEST_HEADER_DELIMITER :: string where "REQUEST_HEADER_DELIMITER = '': ''"
definition KVS_REQUEST_ID_HEADER_NAME :: string where "KVS_REQUEST_ID_HEADER_NAME = ''x-amzn-RequestId''"
definition DEFAULT_LOW_SPEED_LIMIT :: UINT64 where "DEFAULT_LOW_SPEED_LIMIT = 30"
definition DEFAULT_LOW_SPEED_TIME_LIMIT :: UINT64 where "DEFAULT_LOW_SPEED_TIME_LIMIT = 30 * HUNDREDS_OF_NANOS_IN_A_SECOND"

record 'q stack_queue_ops =
  stackQueueGetCount :: "'q \<Rightarrow> nat"
  stackQueueEnqueue :: "'q \<Rightarrow> UINT64 \<Rightarrow> STATUS \<times> 'q"
  stackQueueDequeue :: "'q \<Rightarrow> STATUS \<times> UINT64 \<times> 'q"

record 'q CallInfo =
  ci_httpStatus :: UINT32
  ci_callResult :: SERVICE_CALL_RESULT
  ci_pResponseHeaders :: "'q option"
  ci_pRequestId :: UINT64
  ci_responseData :: "string option"
  ci_responseDataLen :: UINT32

record 'q CurlResponse =
  cs_pCurlRequest :: bool
  cs_pCurl :: "CURL option"
  cs_pRequestHeaders :: "string list option"
  cs_callInfo :: "'q CallInfo"
  cs_terminated :: bool
  cs_endOfStream :: bool
  cs_paused :: bool
  cs_debugDumpFile :: bool
  cs_debugDumpFilePath :: string
  cs_lock :: "UINT64 option"

record ('l, 'q) CurlRequest =
  cq_blockedInCurl :: bool
  cq_requestInfo :: "'l RequestInfo"
  cq_streamName :: string
  cq_streaming :: bool
  cq_streamHandle :: STREAM_HANDLE
  cq_pCurlApiCallbacks :: "UINT64 option"
  cq_pCurlResponse :: "'q CurlResponse option"
  cq_startLock :: "UINT64 option"
  cq_threadId :: "nat option"
  cq_uploadHandle :: UPLOAD_HANDLE

record 'x curl_world =
  cw_handles :: nat
  cw_headers :: hheap
  cw_sleeps :: "UINT64 list"
  cw_ext :: 'x

text \<open>
  The parameters. \<open>ku_getData\<close> gives the bytes that \<open>getKinesisVideoStreamData\<close> stores and the size it
  reports; \<open>ku_readHook\<close> may change both and the status. \<open>ku_memory\<close> tells whether an allocation of that
  many bytes succeeds, \<open>ku_stat\<close> whether a path is a directory, if it exists.
\<close>

record ('l, 'n, 'q, 'x) curl_env =
  ku_consts :: service_call_consts
  ku_RESULT_NOT_SET :: SERVICE_CALL_RESULT
  ku_INFINITE_TIMEOUT :: UINT64
  ku_ABORT :: SIZE_T
  ku_PAUSE :: SIZE_T
  ku_INVALID_STREAM :: STREAM_HANDLE
  ku_utils :: pic_utils
  ku_request :: "('l, 'n) request_env"
  ku_queue :: "'q stack_queue_ops"
  ku_queueCreate :: "STATUS \<times> 'q option"
  ku_slistAppend :: "string list \<Rightarrow> string \<Rightarrow> bool"
  ku_easyInit :: bool
  ku_stat :: "string \<Rightarrow> bool option"
  ku_memory :: "nat \<Rightarrow> bool"
  ku_createMutex :: "UINT64 option"
  ku_tryLock :: bool
  ku_dumpDir :: PCHAR
  ku_createFile :: "string \<Rightarrow> STATUS"
  ku_getData :: "'x \<Rightarrow> STREAM_HANDLE \<Rightarrow> UPLOAD_HANDLE \<Rightarrow> UINT32 \<Rightarrow> STATUS \<times> string \<times> UINT32 \<times> 'x"
  ku_readHook :: "('x \<Rightarrow> UPLOAD_HANDLE \<Rightarrow> string \<Rightarrow> UINT32 \<Rightarrow> UINT32 \<Rightarrow> STATUS \<Rightarrow> STATUS \<times> string \<times> UINT32 \<times> 'x) option"
  ku_writeFile :: "string \<Rightarrow> string \<Rightarrow> 'x \<Rightarrow> 'x"
  ku_writeHook :: "('x \<Rightarrow> string \<Rightarrow> UINT32 \<Rightarrow> STATUS \<times> string \<times> UINT64 \<times> 'x) option"
  ku_parseAck :: "'x \<Rightarrow> STREAM_HANDLE \<Rightarrow> UPLOAD_HANDLE \<Rightarrow> string \<Rightarrow> UINT32 \<Rightarrow> STATUS \<times> 'x"

subsection \<open>The options of a curl handle\<close>

definition cert_options :: "(string \<Rightarrow> bool option) \<Rightarrow> nat \<Rightarrow> string \<Rightarrow> STATUS \<times> CURL" where
  "cert_options stat maxPath certPath =
     (if certPath = '''' then (STATUS_SUCCESS, [])
      else (case stat certPath of
          None \<Rightarrow> (STATUS_DIRECTORY_ENTRY_STAT_ERROR, [])
        | Some True \<Rightarrow> (STATUS_SUCCESS, [CURLOPT_CAPATH certPath])
        | Some False \<Rightarrow>
            let n = min (length certPath) maxPath; suffix = length CA_CERT_FILE_SUFFIX + 1 in
            if \<not> n > suffix then (STATUS_INVALID_ARG_LEN, [])
            else if STRCMPI CA_CERT_FILE_SUFFIX (drop (n - suffix + 1) certPath) \<noteq> 0 then (STATUS_INVALID_CA_CERT_PATH, [])
            else (STATUS_SUCCESS, [CURLOPT_CAINFO certPath])))"

definition secure_options :: "(string \<Rightarrow> bool option) \<Rightarrow> nat \<Rightarrow> string \<Rightarrow> string \<Rightarrow> STATUS \<times> CURL" where
  "secure_options stat maxPath url certPath = (case requestRequiresSecureConnection (Some url) True of
     (st, secureConnection) \<Rightarrow>
       if STATUS_FAILED st then (st, [])
       else if secureConnection = Some True
       then (case cert_options stat maxPath certPath of (st1, opts) \<Rightarrow>
         if STATUS_FAILED st1 then (st1, opts)
         else (STATUS_SUCCESS, opts @ [CURLOPT_SSL_VERIFYPEER 1, CURLOPT_SSL_VERIFYHOST 2, CURLOPT_SSLVERSION_TLSv1_2]))
       else (STATUS_SUCCESS, []))"

definition verb_options :: "'l RequestInfo \<Rightarrow> string \<Rightarrow> string \<Rightarrow> string \<Rightarrow> CURL" where
  "verb_options r readFn writeFn responseWriteFn = (case ri_verb r of
     HTTP_REQUEST_VERB_GET \<Rightarrow> [CURLOPT_HTTPGET]
   | HTTP_REQUEST_VERB_PUT \<Rightarrow> [CURLOPT_UPLOAD]
   | HTTP_REQUEST_VERB_POST \<Rightarrow> CURLOPT_POST # (case ri_body r of
         None \<Rightarrow> [CURLOPT_READFUNCTION readFn, CURLOPT_WRITEFUNCTION writeFn]
       | Some body \<Rightarrow> [CURLOPT_POSTFIELDSIZE (ri_bodySize r), CURLOPT_POSTFIELDS body, CURLOPT_WRITEFUNCTION responseWriteFn]))"

text \<open>
  The session of a response. The result has the status, the call information, what \<open>*ppCurl\<close> is set
  to, and the world. Behind \<open>curl_easy_init\<close> a failure leaves the handle live and \<open>*ppCurl\<close> unset.
\<close>

definition initializeCurlSession ::
    "('l, 'n, 'q, 'x) curl_env \<Rightarrow> 'l RequestInfo option \<Rightarrow> 'q CallInfo option \<Rightarrow> bool \<Rightarrow> string \<Rightarrow> string \<Rightarrow> string \<Rightarrow> string
      \<Rightarrow> 'x curl_world \<Rightarrow> STATUS \<times> 'q CallInfo option \<times> CURL option \<times> 'x curl_world" where
  "initializeCurlSession E pRequestInfo pCallInfo ppCurl writeHeaderFn readFn writeFn responseWriteFn w =
     (case (pRequestInfo, pCallInfo) of
        (Some r, Some ci) \<Rightarrow>
          if \<not> ppCurl then (STATUS_NULL_ARG, pCallInfo, None, w)
          else
            let ci1 = ci\<lparr>ci_httpStatus := HTTP_STATUS_CODE_NOT_SET, ci_callResult := ku_RESULT_NOT_SET E\<rparr> in
            if \<not> ku_easyInit E then (STATUS_CURL_INIT_FAILED, Some ci1, None, w)
            else
              let w1 = w\<lparr>cw_handles := cw_handles w + 1\<rparr>;
                  opts1 = [CURLOPT_ERRORBUFFER, CURLOPT_URL (ri_url r), CURLOPT_NOSIGNAL 1,
                    CURLOPT_LOW_SPEED_TIME (DEFAULT_LOW_SPEED_TIME_LIMIT div HUNDREDS_OF_NANOS_IN_A_SECOND),
                    CURLOPT_LOW_SPEED_LIMIT DEFAULT_LOW_SPEED_LIMIT] in
              (case secure_options (ku_stat E) (re_maxPath (ku_request E)) (ri_url r) (ri_certPath r) of (st, opts2) \<Rightarrow>
                if STATUS_FAILED st then (st, Some ci1, None, w1)
                else
                  let opts3 = (if ri_completionTimeout r \<noteq> ku_INFINITE_TIMEOUT E
                               then [CURLOPT_TIMEOUT_MS (ri_completionTimeout r div HUNDREDS_OF_NANOS_IN_A_MILLISECOND)] else []);
                      opts4 = [CURLOPT_CONNECTTIMEOUT_MS (ri_connectionTimeout r div HUNDREDS_OF_NANOS_IN_A_MILLISECOND),
                        CURLOPT_TCP_NODELAY 1, CURLOPT_HEADERFUNCTION writeHeaderFn];
                      opts = opts1 @ opts2 @ opts3 @ opts4 @ verb_options r readFn writeFn responseWriteFn
                  in (case ku_queueCreate E of (st1, q) \<Rightarrow>
                    if STATUS_FAILED st1 then (st1, Some (ci1\<lparr>ci_pResponseHeaders := q\<rparr>), None, w1)
                    else (STATUS_SUCCESS, Some (ci1\<lparr>ci_pResponseHeaders := q\<rparr>), Some opts, w1)))
      | _ \<Rightarrow> (STATUS_NULL_ARG, pCallInfo, None, w))"

subsection \<open>The release of a call\<close>

primrec dequeue_headers :: "'q stack_queue_ops \<Rightarrow> nat \<Rightarrow> 'q \<Rightarrow> hheap \<Rightarrow> hheap option" where
  "dequeue_headers ops 0 q hh = Some hh"
| "dequeue_headers ops (Suc itemCount) q hh = (case stackQueueDequeue ops q of (st, item, q') \<Rightarrow>
     if STATUS_FAILED st then None
     else do { hh1 \<leftarrow> SAFE_MEMFREE hh item; dequeue_headers ops itemCount q' hh1 })"

definition releaseCallInfo ::
    "'q stack_queue_ops \<Rightarrow> 'q CallInfo option \<Rightarrow> hheap \<Rightarrow> (STATUS \<times> 'q CallInfo option \<times> hheap) option" where
  "releaseCallInfo ops pCallInfo hh = (case pCallInfo of
     None \<Rightarrow> Some (STATUS_NULL_ARG, None, hh)
   | Some ci \<Rightarrow>
       let ci1 = (if ci_responseData ci \<noteq> None then ci\<lparr>ci_responseData := None, ci_responseDataLen := 0\<rparr> else ci) in
       (case ci_pResponseHeaders ci1 of
          None \<Rightarrow> Some (STATUS_SUCCESS, Some ci1, hh)
        | Some q \<Rightarrow> do {
            hh1 \<leftarrow> dequeue_headers ops (stackQueueGetCount ops q) q hh;
            Some (STATUS_SUCCESS, Some (ci1\<lparr>ci_pResponseHeaders := None\<rparr>), hh1)
          }))"

definition closeCurlHandles ::
    "('l, 'n, 'q, 'x) curl_env \<Rightarrow> 'q CurlResponse option \<Rightarrow> 'x curl_world \<Rightarrow> (STATUS \<times> 'q CurlResponse option \<times> 'x curl_world) option" where
  "closeCurlHandles E pCurlResponse w = (case pCurlResponse of
     None \<Rightarrow> Some (STATUS_NULL_ARG, None, w)
   | Some r \<Rightarrow>
       let w1 = (if cs_pCurl r \<noteq> None then w\<lparr>cw_handles := cw_handles w - 1\<rparr> else w);
           r1 = r\<lparr>cs_pRequestHeaders := None, cs_pCurl := None\<rparr>
       in do {
         (st, ci, hh) \<leftarrow> releaseCallInfo (ku_queue E) (Some (cs_callInfo r1)) (cw_headers w1);
         c \<leftarrow> ci;
         Some (st, Some (r1\<lparr>cs_callInfo := c\<rparr>), w1\<lparr>cw_headers := hh\<rparr>)
       })"
subsection \<open>The response object\<close>

text \<open>
  The result of \<open>freeCurlResponse\<close> has what \<open>*ppCurlResponse\<close> is set to. When the lock cannot be taken
  another thread is taken to release the response, and nothing is done.
\<close>

definition freeCurlResponse ::
    "('l, 'n, 'q, 'x) curl_env \<Rightarrow> UINT64 option \<Rightarrow> 'q CurlResponse option option \<Rightarrow> 'x curl_world
      \<Rightarrow> (STATUS \<times> 'q CurlResponse option option \<times> 'x curl_world) option" where
  "freeCurlResponse E pCurlApiCallbacks ppCurlResponse w = (case ppCurlResponse of
     None \<Rightarrow> Some (STATUS_NULL_ARG, None, w)
   | Some None \<Rightarrow> Some (STATUS_SUCCESS, Some None, w)
   | Some (Some r) \<Rightarrow>
       let provider = (cs_pCurlRequest r \<and> pCurlApiCallbacks \<noteq> None \<and> pCurlApiCallbacks \<noteq> Some 0) in
       if provider \<and> cs_lock r \<noteq> None \<and> \<not> ku_tryLock E then Some (STATUS_SUCCESS, Some (Some r), w)
       else map_option (\<lambda>(_, _, w'). (STATUS_SUCCESS, Some None, w')) (closeCurlHandles E (Some r) w))"

definition new_CurlResponse :: "'q CurlResponse" where
  "new_CurlResponse = \<lparr>cs_pCurlRequest = False, cs_pCurl = None, cs_pRequestHeaders = None,
     cs_callInfo = \<lparr>ci_httpStatus = 0, ci_callResult = 0, ci_pResponseHeaders = None, ci_pRequestId = 0,
       ci_responseData = None, ci_responseDataLen = 0\<rparr>,
     cs_terminated = False, cs_endOfStream = False, cs_paused = True, cs_debugDumpFile = False,
     cs_debugDumpFilePath = '''', cs_lock = None\<rparr>"

definition dump_file_path :: "string \<Rightarrow> ('l, 'q) CurlRequest \<Rightarrow> string" where
  "dump_file_path dir rq = dir @ ''/'' @ cq_streamName rq @ ''_'' @ decimal (unat (cq_uploadHandle rq)) @ ''.mkv''"

definition open_dump_file ::
    "('l, 'n, 'q, 'x) curl_env \<Rightarrow> ('l, 'q) CurlRequest \<Rightarrow> 'q CurlResponse \<Rightarrow> STATUS \<times> 'q CurlResponse" where
  "open_dump_file E rq r = (case ku_dumpDir E of
     Some dir \<Rightarrow>
       if \<not> cq_streaming rq then (STATUS_SUCCESS, r)
       else let path = dump_file_path dir rq; stored = STRNCPY path (re_maxPath (ku_request E)) in
            if \<not> length path \<le> re_maxPath (ku_request E) then (STATUS_PATH_TOO_LONG, r\<lparr>cs_debugDumpFilePath := stored\<rparr>)
            else (ku_createFile E stored, r\<lparr>cs_debugDumpFile := True, cs_debugDumpFilePath := stored\<rparr>)
   | None \<Rightarrow> (STATUS_SUCCESS, r))"

text \<open>\<open>ppCurlResponse\<close> tells whether there is a place for the response.\<close>

definition createCurlResponse ::
    "('l, 'n, 'q, 'x) curl_env \<Rightarrow> ('l, 'q) CurlRequest option \<Rightarrow> bool \<Rightarrow> 'x curl_world
      \<Rightarrow> (STATUS \<times> 'q CurlResponse option \<times> 'x curl_world) option" where
  "createCurlResponse E pCurlRequest ppCurlResponse w = (case pCurlRequest of
     None \<Rightarrow> Some (STATUS_NULL_ARG, None, w)
   | Some rq \<Rightarrow>
       if \<not> ppCurlResponse \<or> cq_pCurlApiCallbacks rq = None \<or> cq_pCurlApiCallbacks rq = Some 0 then Some (STATUS_NULL_ARG, None, w)
       else if cq_streamHandle rq = ku_INVALID_STREAM E then Some (STATUS_INVALID_ARG, None, w)
       else if \<not> re_requestMemory (ku_request E) then Some (STATUS_NOT_ENOUGH_MEMORY, None, w)
       else
         (case (case open_dump_file E rq new_CurlResponse of (st1, r1) \<Rightarrow>
            if STATUS_FAILED st1 then (st1, r1, w)
            else if ku_createMutex E = None then (STATUS_INVALID_OPERATION, r1, w)
            else
              let r2 = r1\<lparr>cs_lock := ku_createMutex E, cs_pCurlRequest := True\<rparr> in
              (case initializeCurlSession E (Some (cq_requestInfo rq)) (Some (cs_callInfo r2)) True ''writeHeaderCallback''
                 ''postReadCallback'' ''postWriteCallback'' ''postResponseWriteCallback'' w of (st2, ci, curl, w1) \<Rightarrow>
                (st2, r2\<lparr>cs_callInfo := the ci, cs_pCurl := curl\<rparr>, w1))) of (st, r, w1) \<Rightarrow>
            if STATUS_FAILED st
            then map_option (\<lambda>(_, _, w2). (st, None, w2)) (freeCurlResponse E (cq_pCurlApiCallbacks rq) (Some (Some r)) w1)
            else Some (STATUS_SUCCESS, Some r, w1)))"

text \<open>
  The timeout that ends a session is given in units of 100 nanoseconds to an option that takes
  milliseconds.
\<close>

definition terminateCurlSession :: "'q CurlResponse option \<Rightarrow> UINT64 \<Rightarrow> 'x curl_world \<Rightarrow> 'q CurlResponse option \<times> 'x curl_world" where
  "terminateCurlSession pCurlResponse timeout w = (case pCurlResponse of
     None \<Rightarrow> (None, w)
   | Some r \<Rightarrow>
       if cs_terminated r then (Some r, w)
       else (Some (r\<lparr>cs_pCurl := map_option (\<lambda>opts. opts @ [CURLOPT_TIMEOUT_MS TIMEOUT_AFTER_STREAM_STOPPED]) (cs_pCurl r),
                     cs_terminated := True\<rparr>),
             w\<lparr>cw_sleeps := cw_sleeps w @ [timeout, timeout]\<rparr>))"

definition getServiceCallResultFromCurlStatus :: "service_call_consts \<Rightarrow> CURLcode \<Rightarrow> SERVICE_CALL_RESULT" where
  "getServiceCallResultFromCurlStatus C curlStatus = (case curlStatus of
     CURLE_OK \<Rightarrow> SERVICE_CALL_RESULT_OK C
   | CURLE_UNSUPPORTED_PROTOCOL \<Rightarrow> SERVICE_CALL_INVALID_ARG C
   | CURLE_OPERATION_TIMEDOUT \<Rightarrow> SERVICE_CALL_NETWORK_CONNECTION_TIMEOUT C
   | CURLE_SSL_CERTPROBLEM \<Rightarrow> SERVICE_CALL_NOT_AUTHORIZED C
   | CURLE_SSL_CACERT \<Rightarrow> SERVICE_CALL_NOT_AUTHORIZED C
   | CURLE_OTHER _ \<Rightarrow> SERVICE_CALL_UNKNOWN C)"

subsection \<open>The headers for curl\<close>

text \<open>
  The line of a header is put together in a buffer of \<open>MAX_REQUEST_HEADER_STRING_LEN\<close> characters. When
  \<open>curl_slist_append\<close> fails the list is NULL, and the headers so far are lost. The state of the loop
  is \<open>None\<close> when a copy was out of bounds.
\<close>

definition header_line :: "RequestHeader \<Rightarrow> string option" where
  "header_line h = do {
     n \<leftarrow> mem_read (rh_pName h) (unat (rh_nameLen h));
     v \<leftarrow> mem_read (rh_pValue h) (unat (rh_valueLen h));
     let line = n @ REQUEST_HEADER_DELIMITER @ v;
     if length line < MAX_REQUEST_HEADER_STRING_LEN then Some (takeWhile (\<lambda>c. c \<noteq> NUL) line) else None
   }"

definition slist_step ::
    "(string list \<Rightarrow> string \<Rightarrow> bool) \<Rightarrow> hheap \<Rightarrow> UINT64 \<Rightarrow> string list option
      \<Rightarrow> (STATUS \<times> string list option) + string list option" where
  "slist_step app hh item pHeaderList = (case (pHeaderList, hh item) of
     (Some hs, Some h) \<Rightarrow>
       (case header_line h of
          None \<Rightarrow> Inl (STATUS_SUCCESS, None)
        | Some line \<Rightarrow> Inr (Some (if app hs line then hs @ [line] else [])))
   | _ \<Rightarrow> Inl (STATUS_SUCCESS, None))"

definition createCurlHeaderList ::
    "('l, 'n, 'q, 'x) curl_env \<Rightarrow> 'l RequestInfo option \<Rightarrow> bool \<Rightarrow> hheap \<Rightarrow> (STATUS \<times> string list option) option" where
  "createCurlHeaderList E pRequestInfo ppHeaderList hh = (case pRequestInfo of
     None \<Rightarrow> Some (STATUS_NULL_ARG, None)
   | Some r \<Rightarrow>
       if \<not> ppHeaderList then Some (STATUS_NULL_ARG, None)
       else do {
         l \<leftarrow> ri_pRequestHeaders r;
         (case singleListGetHeadNode (re_list (ku_request E)) l of (st, pCurNode) \<Rightarrow>
           if STATUS_FAILED st then Some (st, None)
           else do {
             (st1, pHeaderList) \<leftarrow> list_walk (re_list (ku_request E)) l (\<lambda>_. slist_step (ku_slistAppend E) hh) pCurNode (Some []);
             hs \<leftarrow> pHeaderList;
             if STATUS_FAILED st1 then Some (st1, None)
             else Some (STATUS_SUCCESS, if hs = [] then None else Some hs)
           })
       })"

definition slist_items :: "string list option \<Rightarrow> string list" where
  "slist_items hs = (case hs of None \<Rightarrow> [] | Some xs \<Rightarrow> xs)"

text \<open>
  The text of the headers in the log message of a failed call: a buffer on the stack for the maximum
  number of headers of the maximum length.
\<close>

definition log_headers :: "string list \<Rightarrow> string option" where
  "log_headers hs =
     (let logText = concat (map (\<lambda>h. CHR 0x0A # ''    '' @ h) hs) in
      if length logText < MAX_REQUEST_HEADER_COUNT * (MAX_REQUEST_HEADER_STRING_LEN + MAX_REQUEST_HEADER_OUTPUT_DELIMITER)
      then Some logText else None)"

subsection \<open>Performing a call\<close>

type_synonym ('l, 'q, 'x) perform =
  "CURL \<Rightarrow> ('l, 'q) CurlRequest \<times> 'x curl_world \<Rightarrow> (CURLcode \<times> UINT32 \<times> ('l, 'q) CurlRequest \<times> 'x curl_world) option"

type_synonym ('l, 'q, 'x) perform_hook =
  "(('l, 'q) CurlRequest \<times> 'x curl_world \<Rightarrow> STATUS \<times> ('l, 'q) CurlRequest \<times> 'x curl_world) option"

definition finish_call :: "service_call_consts \<Rightarrow> CURLcode \<Rightarrow> UINT32 \<Rightarrow> 'q CurlResponse \<Rightarrow> 'q CurlResponse" where
  "finish_call C result httpStatus r =
     (if result \<noteq> CURLE_OK \<and> cs_terminated r
      then r\<lparr>cs_callInfo := (cs_callInfo r)\<lparr>ci_httpStatus := HTTP_STATUS_CODE_REQUEST_TIMEOUT, ci_callResult := SERVICE_CALL_REQUEST_TIMEOUT C\<rparr>\<rparr>
      else if result \<noteq> CURLE_OK
      then r\<lparr>cs_callInfo := (cs_callInfo r)\<lparr>ci_callResult := getServiceCallResultFromCurlStatus C result\<rparr>\<rparr>
      else r\<lparr>cs_callInfo := (cs_callInfo r)\<lparr>ci_httpStatus := httpStatus, ci_callResult := getServiceCallResultFromHttpStatus C httpStatus\<rparr>\<rparr>)"

text \<open>
  The hook is a function of the application that may fail; without one it is \<open>None\<close>. The headers are
  put into the options even when the call fails behind them.
\<close>

definition curlCompleteSync ::
    "('l, 'n, 'q, 'x) curl_env \<Rightarrow> ('l, 'q, 'x) perform \<Rightarrow> ('l, 'q, 'x) perform_hook
      \<Rightarrow> ('l, 'q) CurlRequest \<Rightarrow> 'x curl_world \<Rightarrow> (STATUS \<times> ('l, 'q) CurlRequest \<times> 'x curl_world) option" where
  "curlCompleteSync E perform hook rq w = (case cq_pCurlResponse rq of
       None \<Rightarrow> Some (STATUS_NULL_ARG, rq, w)
     | Some r0 \<Rightarrow>
       if cq_pCurlApiCallbacks rq = None \<or> \<not> cs_pCurlRequest r0 then Some (STATUS_NULL_ARG, rq, w)
       else do {
         (st, hs) \<leftarrow> createCurlHeaderList E (Some (cq_requestInfo rq)) True (cw_headers w);
         if STATUS_FAILED st then Some (st, rq, w)
         else do {
           opts0 \<leftarrow> cs_pCurl r0;
           let opts = opts0 @ [CURLOPT_HTTPHEADER (slist_items hs)];
           let rq1 = rq\<lparr>cq_pCurlResponse := Some (r0\<lparr>cs_pRequestHeaders := hs, cs_pCurl := Some opts\<rparr>)\<rparr>;
           (case (case hook of None \<Rightarrow> (STATUS_SUCCESS, rq1, w) | Some f \<Rightarrow> f (rq1, w)) of (st1, rq2, w1) \<Rightarrow>
             if STATUS_FAILED st1 then Some (st1, rq2, w1)
             else if ri_terminating (cq_requestInfo rq2) then Some (STATUS_SUCCESS, rq2, w1)
             else do {
               (result, httpStatus, rq3, w2) \<leftarrow> perform opts (rq2\<lparr>cq_blockedInCurl := True\<rparr>, w1);
               let rq4 = rq3\<lparr>cq_blockedInCurl := False\<rparr>;
               if ri_terminating (cq_requestInfo rq4) then Some (STATUS_SUCCESS, rq4, w2)
               else do {
                 r \<leftarrow> cq_pCurlResponse rq4;
                 let r1 = finish_call (ku_consts E) result httpStatus r;
                 let finished = (STATUS_SUCCESS, rq4\<lparr>cq_pCurlResponse := Some r1\<rparr>, w2);
                 if ci_httpStatus (cs_callInfo r1) \<noteq> HTTP_STATUS_CODE_OK
                 then map_option (\<lambda>_. finished) (log_headers (slist_items (cs_pRequestHeaders r1)))
                 else Some finished
               }
             })
         }
       })"

definition curlCallApi ::
    "('l, 'n, 'q, 'x) curl_env \<Rightarrow> ('l, 'q, 'x) perform \<Rightarrow> ('l, 'q, 'x) perform_hook
      \<Rightarrow> ('l, 'q) CurlRequest option \<Rightarrow> 'x curl_world \<Rightarrow> (STATUS \<times> ('l, 'q) CurlRequest option \<times> 'x curl_world) option" where
  "curlCallApi E perform hook pCurlRequest w = (case pCurlRequest of
     None \<Rightarrow> Some (STATUS_INVALID_ARG, None, w)
   | Some rq \<Rightarrow>
       if cq_pCurlApiCallbacks rq = None \<or> cq_pCurlApiCallbacks rq = Some 0 then Some (STATUS_INVALID_OPERATION, Some rq, w)
       else map_option (\<lambda>(st, rq', w'). (st, Some rq', w')) (curlCompleteSync E perform hook rq w))"

definition notifyDataAvailable ::
    "'q CurlResponse option \<Rightarrow> UINT64 \<Rightarrow> UINT64 \<Rightarrow> 'x curl_world \<Rightarrow> STATUS \<times> 'q CurlResponse option \<times> 'x curl_world" where
  "notifyDataAvailable pCurlResponse durationAvailable sizeAvailable w = (case pCurlResponse of
     None \<Rightarrow> (STATUS_NULL_ARG, None, w)
   | Some r \<Rightarrow>
       if \<not> cs_terminated r \<and> cs_paused r \<and> cs_pCurl r \<noteq> None
       then (STATUS_SUCCESS, Some (r\<lparr>cs_paused := False\<rparr>), w\<lparr>cw_sleeps := cw_sleeps w @ [10 * HUNDREDS_OF_NANOS_IN_A_MILLISECOND]\<rparr>)
       else (STATUS_SUCCESS, Some r, w))"
subsection \<open>The functions that curl calls\<close>

text \<open>
  A header of the answer. The buffer is what the memory at \<open>pBuffer\<close> holds up to the first NUL, which
  curl does not promise to be at the end of the header. The header object is made of what stands in
  front of the colon and of what is left of the rest without the spaces at its ends; a length of 0
  makes \<open>createRequestHeader\<close> look for the end of the string itself.
\<close>

definition writeHeaderCallback ::
    "('l, 'n, 'q, 'x) curl_env \<Rightarrow> string \<Rightarrow> SIZE_T \<Rightarrow> SIZE_T \<Rightarrow> ('l, 'q) CurlRequest option \<Rightarrow> 'x curl_world
      \<Rightarrow> (SIZE_T \<times> ('l, 'q) CurlRequest option \<times> 'x curl_world) option" where
  "writeHeaderCallback E pBuffer csize numItems customData w = (case customData of
     None \<Rightarrow> Some (ku_ABORT E, None, w)
   | Some rq \<Rightarrow> (case cq_pCurlResponse rq of
       None \<Rightarrow> Some (ku_ABORT E, Some rq, w)
     | Some r \<Rightarrow>
       let dataSize = csize * numItems in
       (case STRNCHR (ku_utils E) pBuffer (ucast dataSize) (CHR '':'') of
          None \<Rightarrow> Some (dataSize, Some rq, w)
        | Some nameLen \<Rightarrow>
          let pDelimiter = Suc nameLen; valueLen = dataSize - of_nat nameLen - 1 in
          (case TRIMSTRALL (ku_utils E) (drop pDelimiter pBuffer) (ucast valueLen) of (st, vStart, vEnd) \<Rightarrow>
            if STATUS_FAILED st then None
            else
              let vLen = vEnd - vStart in
              if \<not> (nameLen < MAX_REQUEST_HEADER_NAME_LEN \<and> vLen < MAX_REQUEST_HEADER_VALUE_LEN) then Some (dataSize, Some rq, w)
              else do {
                (st1, p, hh) \<leftarrow> createRequestHeader (re_malloc (ku_request E)) (cw_headers w) (Some pBuffer) (of_nat nameLen)
                   (Some (drop (pDelimiter + vStart) pBuffer)) (of_nat vLen) True;
                if p = 0 then Some (dataSize, Some rq, w\<lparr>cw_headers := hh\<rparr>)
                else do {
                  q \<leftarrow> ci_pResponseHeaders (cs_callInfo r);
                  h \<leftarrow> hh p;
                  let q' = snd (stackQueueEnqueue (ku_queue E) q p);
                  let ci = (cs_callInfo r)\<lparr>ci_pResponseHeaders := Some q'\<rparr>;
                  let ci' = (if STRNCMP KVS_REQUEST_ID_HEADER_NAME (rh_pName h) nameLen = 0 then ci\<lparr>ci_pRequestId := p\<rparr> else ci);
                  Some (dataSize, Some (rq\<lparr>cq_pCurlResponse := Some (r\<lparr>cs_callInfo := ci'\<rparr>)\<rparr>), w\<lparr>cw_headers := hh\<rparr>)
                }
              }))))"

text \<open>
  The next piece of the answer behind what there is: a new buffer with one character more, and the
  terminator at the new length, which is counted in 32 bits.
\<close>

definition append_response :: "(nat \<Rightarrow> bool) \<Rightarrow> string \<Rightarrow> SIZE_T \<Rightarrow> 'q CallInfo \<Rightarrow> 'q CallInfo option option" where
  "append_response memory pBuffer dataSize ci =
     (let len = ci_responseDataLen ci; newSize = ucast len + dataSize + 1 :: SIZE_T in
      if \<not> memory (unat newSize) then Some None
      else do {
        old \<leftarrow> (case ci_responseData ci of None \<Rightarrow> if len = 0 then Some '''' else None
                 | Some s \<Rightarrow> if unat len \<le> length s then Some (take (unat len) s) else None);
        new \<leftarrow> mem_read pBuffer (unat dataSize);
        let len' = len + ucast dataSize;
        if unat newSize = unat len + unat dataSize + 1
        then Some (Some (ci\<lparr>ci_responseData := Some ((old @ new @ [NUL])[unat len' := NUL]), ci_responseDataLen := len'\<rparr>))
        else None
      })"

definition postResponseWriteCallback ::
    "('l, 'n, 'q, 'x) curl_env \<Rightarrow> string \<Rightarrow> SIZE_T \<Rightarrow> SIZE_T \<Rightarrow> ('l, 'q) CurlRequest option \<Rightarrow> 'x curl_world
      \<Rightarrow> (SIZE_T \<times> ('l, 'q) CurlRequest option \<times> 'x curl_world) option" where
  "postResponseWriteCallback E pBuffer csize numItems customData w = (case customData of
     None \<Rightarrow> Some (ku_ABORT E, None, w)
   | Some rq \<Rightarrow> (case cq_pCurlResponse rq of
       None \<Rightarrow> Some (ku_ABORT E, Some rq, w)
     | Some r \<Rightarrow>
       if ri_terminating (cq_requestInfo rq) then Some (ku_ABORT E, Some rq, w)
       else do {
         res \<leftarrow> append_response (ku_memory E) pBuffer (csize * numItems) (cs_callInfo r);
         (case res of
            None \<Rightarrow> Some (ku_ABORT E, Some rq, w)
          | Some ci \<Rightarrow> Some (csize * numItems, Some (rq\<lparr>cq_pCurlResponse := Some (r\<lparr>cs_callInfo := ci\<rparr>)\<rparr>), w))
       }))"

definition writeCurlResponseCallback ::
    "('l, 'n, 'q, 'x) curl_env \<Rightarrow> string \<Rightarrow> SIZE_T \<Rightarrow> SIZE_T \<Rightarrow> 'q CallInfo option \<Rightarrow> (SIZE_T \<times> 'q CallInfo option) option" where
  "writeCurlResponseCallback E pBuffer csize numItems customData = (case customData of
     None \<Rightarrow> Some (ku_ABORT E, None)
   | Some ci \<Rightarrow> do {
       res \<leftarrow> append_response (ku_memory E) pBuffer (csize * numItems) ci;
       (case res of None \<Rightarrow> Some (ku_ABORT E, Some ci) | Some ci' \<Rightarrow> Some (csize * numItems, Some ci'))
     })"

definition postWriteCallback ::
    "('l, 'n, 'q, 'x) curl_env \<Rightarrow> string \<Rightarrow> SIZE_T \<Rightarrow> SIZE_T \<Rightarrow> ('l, 'q) CurlRequest option \<Rightarrow> 'x curl_world \<Rightarrow> SIZE_T \<times> 'x curl_world" where
  "postWriteCallback E pBuffer csize numItems customData w = (case customData of
     None \<Rightarrow> (ku_ABORT E, w)
   | Some rq \<Rightarrow>
       if cq_pCurlResponse rq = None \<or> cq_pCurlApiCallbacks rq = None \<or> ri_terminating (cq_requestInfo rq) then (ku_ABORT E, w)
       else
         let dataSize = csize * numItems in
         (case (case ku_writeHook E of None \<Rightarrow> (STATUS_SUCCESS, pBuffer, dataSize, cw_ext w)
                | Some f \<Rightarrow> f (cw_ext w) pBuffer (ucast dataSize)) of (st, buf, bufferSize, x) \<Rightarrow>
            if STATUS_FAILED st then (dataSize, w\<lparr>cw_ext := x\<rparr>)
            else (case ku_parseAck E x (cq_streamHandle rq) (cq_uploadHandle rq) buf (ucast bufferSize) of (_, x') \<Rightarrow>
              (dataSize, w\<lparr>cw_ext := x'\<rparr>))))"

text \<open>
  Reading the next data of a stream: at most \<open>MAX_GET_DATA_ITER\<close> attempts, the second and the later ones
  behind a sleep that doubles.
\<close>

definition fetch_data ::
    "('l, 'n, 'q, 'x) curl_env \<Rightarrow> ('l, 'q) CurlRequest \<Rightarrow> UINT32 \<Rightarrow> 'x \<Rightarrow> STATUS \<times> string \<times> UINT32 \<times> 'x" where
  "fetch_data E rq bufferSize x =
     (case ku_getData E x (cq_streamHandle rq) (cq_uploadHandle rq) bufferSize of (st, bytes, n, x1) \<Rightarrow>
        (case ku_readHook E of None \<Rightarrow> (st, bytes, n, x1) | Some f \<Rightarrow> f x1 (cq_uploadHandle rq) bytes bufferSize n st))"

function read_loop ::
    "('l, 'n, 'q, 'x) curl_env \<Rightarrow> ('l, 'q) CurlRequest \<Rightarrow> UINT32 \<Rightarrow> nat \<Rightarrow> UINT64 \<Rightarrow> 'x curl_world
      \<Rightarrow> STATUS \<times> string \<times> UINT32 \<times> 'x curl_world" where
  "read_loop E rq bufferSize iter sleepTime w =
     (let w1 = (if iter > 0 then w\<lparr>cw_sleeps := cw_sleeps w @ [sleepTime]\<rparr> else w);
          sleepTime1 = (if iter > 0 then sleepTime * 2 else sleepTime)
      in (case fetch_data E rq bufferSize (cw_ext w1) of (st, bytes, n, x) \<Rightarrow>
            if Suc iter < MAX_GET_DATA_ITER \<and> n = 0 \<and> (st = STATUS_SUCCESS \<or> st = STATUS_NO_MORE_DATA_AVAILABLE)
            then read_loop E rq bufferSize (Suc iter) sleepTime1 (w1\<lparr>cw_ext := x\<rparr>)
            else (st, bytes, n, w1\<lparr>cw_ext := x\<rparr>)))"
  by pat_completeness auto

termination by (relation "measure (\<lambda>(E, rq, bufferSize, iter, sleepTime, w). MAX_GET_DATA_ITER - iter)") auto

declare read_loop.simps [simp del]

text \<open>
  The first part of \<open>postReadCallback\<close> decides what the callback returns, the second part records it in
  the response. Between them another thread may report that there is data.
\<close>

definition read_decide ::
    "('l, 'n, 'q, 'x) curl_env \<Rightarrow> SIZE_T \<Rightarrow> ('l, 'q) CurlRequest \<Rightarrow> 'q CurlResponse \<Rightarrow> 'x curl_world
      \<Rightarrow> SIZE_T \<times> string \<times> 'q CurlResponse \<times> 'x curl_world" where
  "read_decide E bufferSize rq r w =
     (if cs_paused r then (ku_PAUSE E, '''', r, w)
      else if cs_endOfStream r \<or> ri_terminating (cq_requestInfo rq) then (0, '''', r, w)
      else (case read_loop E rq (ucast bufferSize) 0 BASE_GET_DATA_SLEEP_TIME w of (st, bytes, n, w1) \<Rightarrow>
        (case st of
           STATUS_SUCCESS \<Rightarrow> (if n = 0 then ku_PAUSE E else ucast n, bytes, r, w1)
         | STATUS_NO_MORE_DATA_AVAILABLE \<Rightarrow> (if n = 0 then ku_PAUSE E else ucast n, bytes, r, w1)
         | STATUS_END_OF_STREAM \<Rightarrow> (ucast n, bytes, r\<lparr>cs_endOfStream := True\<rparr>, w1)
         | STATUS_AWAITING_PERSISTED_ACK \<Rightarrow> (if n = 0 then ku_PAUSE E else ucast n, bytes, r, w1)
         | STATUS_UPLOAD_HANDLE_ABORTED \<Rightarrow> (ku_ABORT E, bytes, r\<lparr>cs_endOfStream := True\<rparr>, w1)
         | _ \<Rightarrow> (ku_ABORT E, bytes, r, w1))))"

definition read_record ::
    "('l, 'n, 'q, 'x) curl_env \<Rightarrow> SIZE_T \<Rightarrow> string \<Rightarrow> 'q CurlResponse \<Rightarrow> 'x curl_world \<Rightarrow> 'q CurlResponse \<times> 'x curl_world" where
  "read_record E bytesWritten bytes r w =
     (let w1 = (if bytesWritten \<noteq> ku_ABORT E \<and> bytesWritten \<noteq> ku_PAUSE E \<and> bytesWritten \<noteq> 0 \<and> cs_debugDumpFile r
                then w\<lparr>cw_ext := ku_writeFile E (cs_debugDumpFilePath r) (take (unat bytesWritten) bytes) (cw_ext w)\<rparr> else w);
          r1 = (if bytesWritten \<noteq> ku_ABORT E \<and> bytesWritten = ku_PAUSE E then r\<lparr>cs_paused := True\<rparr> else r);
          r2 = (if bytesWritten = ku_ABORT E \<or> bytesWritten = 0 then r1\<lparr>cs_terminated := True\<rparr> else r1)
      in (r2, w1))"

definition postReadCallback ::
    "('l, 'n, 'q, 'x) curl_env \<Rightarrow> SIZE_T \<Rightarrow> SIZE_T \<Rightarrow> ('l, 'q) CurlRequest option \<Rightarrow> 'x curl_world
      \<Rightarrow> SIZE_T \<times> string \<times> ('l, 'q) CurlRequest option \<times> 'x curl_world" where
  "postReadCallback E csize numItems customData w = (case customData of
     None \<Rightarrow> (ku_ABORT E, '''', None, w)
   | Some rq \<Rightarrow> (case cq_pCurlResponse rq of
       None \<Rightarrow> (ku_ABORT E, '''', Some rq, w)
     | Some r \<Rightarrow>
       if cq_pCurlApiCallbacks rq = None then (ku_ABORT E, '''', Some rq, w)
       else (case read_decide E (csize * numItems) rq r w of (bytesWritten, bytes, r1, w1) \<Rightarrow>
         (case read_record E bytesWritten bytes r1 w1 of (r2, w2) \<Rightarrow>
           (bytesWritten, bytes, Some (rq\<lparr>cq_pCurlResponse := Some r2\<rparr>), w2)))))"
subsection \<open>The blocking call of the credential providers\<close>

definition blocking_options ::
    "('l, 'n, 'q, 'x) curl_env \<Rightarrow> 'l RequestInfo \<Rightarrow> string list \<Rightarrow> STATUS \<times> CURL" where
  "blocking_options E r hs =
     (case secure_options (ku_stat E) (re_maxPath (ku_request E)) (ri_url r) (ri_certPath r) of (st, opts) \<Rightarrow>
        if STATUS_FAILED st then (st, opts)
        else (STATUS_SUCCESS, opts @
          [CURLOPT_HTTPHEADER hs, CURLOPT_ERRORBUFFER, CURLOPT_URL (ri_url r), CURLOPT_SSLCERTTYPE (getSslCertNameFromType (ri_certType r)),
           CURLOPT_SSLCERT (ri_sslCertPath r), CURLOPT_SSLKEY (ri_sslPrivateKeyPath r), CURLOPT_WRITEFUNCTION ''writeCurlResponseCallback'',
           CURLOPT_CONNECTTIMEOUT_MS (ri_connectionTimeout r div HUNDREDS_OF_NANOS_IN_A_MILLISECOND)] @
          (if ri_completionTimeout r \<noteq> ku_INFINITE_TIMEOUT E
           then [CURLOPT_TIMEOUT_MS (ri_completionTimeout r div HUNDREDS_OF_NANOS_IN_A_MILLISECOND)] else []) @
          [CURLOPT_LOW_SPEED_TIME (ri_lowSpeedTimeLimit r div HUNDREDS_OF_NANOS_IN_A_SECOND), CURLOPT_LOW_SPEED_LIMIT (ri_lowSpeedLimit r)]))"

text \<open>
  The handle and the list of headers are released before the function returns. \<open>globalInit\<close> tells whether
  the library could be initialised.
\<close>

definition blockingCurlCall ::
    "('l, 'n, 'q, 'x) curl_env \<Rightarrow> bool \<Rightarrow> (CURL \<Rightarrow> 'q CallInfo \<Rightarrow> (CURLcode \<times> UINT32 \<times> 'q CallInfo) option)
      \<Rightarrow> 'l RequestInfo option \<Rightarrow> 'q CallInfo option \<Rightarrow> hheap \<Rightarrow> (STATUS \<times> 'q CallInfo option) option" where
  "blockingCurlCall E globalInit perform pRequestInfo pCallInfo hh = (case (pRequestInfo, pCallInfo) of
     (Some r, Some ci) \<Rightarrow>
       if \<not> globalInit then Some (STATUS_CURL_LIBRARY_INIT_FAILED, Some ci)
       else if \<not> ku_easyInit E then Some (STATUS_CURL_INIT_FAILED, Some ci)
       else do {
         (st, hs) \<leftarrow> createCurlHeaderList E (Some r) True hh;
         if STATUS_FAILED st then Some (st, Some ci)
         else (case blocking_options E r (slist_items hs) of (st1, opts) \<Rightarrow>
           if STATUS_FAILED st1 then Some (st1, Some ci)
           else do {
             (res, httpStatusCode, ci') \<leftarrow> perform opts ci;
             Some (if res = CURLE_OK \<and> httpStatusCode = HTTP_STATUS_CODE_OK then STATUS_SUCCESS else STATUS_CURL_PERFORM_FAILED, Some ci')
           })
       }
   | _ \<Rightarrow> Some (STATUS_NULL_ARG, pCallInfo))"

end
