(* ===== verification/Curl_Session.thy ===== *)
theory Curl_Session
  imports Curl_Response
begin

text \<open>
  Properties of a call by curl: the session of a secure URL verifies the peer, the read callback always
  answers, the headers that are sent are the headers of the request, and the answer that is kept is the
  answer that curl delivers.
\<close>

subsection \<open>Secure sessions\<close>

text \<open>
  What the options of a session to a secure URL must say: the certificate and the name of the peer are
  verified, no option says otherwise, the protocol is at least TLS 1.2, and an authority comes from the
  given path: a directory, or a file whose name has the suffix of a certificate file.
\<close>

definition verifies_peer :: "(string \<Rightarrow> bool option) \<Rightarrow> string \<Rightarrow> CURL \<Rightarrow> bool" where
  "verifies_peer stat certPath opts \<longleftrightarrow>
     {CURLOPT_SSL_VERIFYPEER 1, CURLOPT_SSL_VERIFYHOST 2, CURLOPT_SSLVERSION_TLSv1_2} \<subseteq> set opts \<and>
     (\<forall>n. CURLOPT_SSL_VERIFYPEER n \<in> set opts \<longrightarrow> n = 1) \<and> (\<forall>n. CURLOPT_SSL_VERIFYHOST n \<in> set opts \<longrightarrow> n = 2) \<and>
     (\<forall>p. CURLOPT_CAPATH p \<in> set opts \<longrightarrow> p = certPath \<and> stat p = Some True) \<and>
     (\<forall>p. CURLOPT_CAINFO p \<in> set opts \<longrightarrow> p = certPath \<and> stat p = Some False \<and> STRCMPI CA_CERT_FILE_SUFFIX (drop (length p - 4) p) = 0) \<and>
     (certPath \<noteq> '''' \<longrightarrow> CURLOPT_CAPATH certPath \<in> set opts \<or> CURLOPT_CAINFO certPath \<in> set opts)"

lemma secure_options_verify:
  assumes "secure_options stat maxPath url certPath = (STATUS_SUCCESS, opts)"
    and "requestRequiresSecureConnection (Some url) True = (STATUS_SUCCESS, Some True)" and "length certPath \<le> maxPath"
  shows "verifies_peer stat certPath opts"
proof -
  obtain cert where c: "cert_options stat maxPath certPath = (STATUS_SUCCESS, cert)"
      "opts = cert @ [CURLOPT_SSL_VERIFYPEER 1, CURLOPT_SSL_VERIFYHOST 2, CURLOPT_SSLVERSION_TLSv1_2]"
    using assms(1,2) by (auto simp: secure_options_def split: prod.splits if_splits)
  show ?thesis
  proof (cases "certPath = ''''")
    case True
    then show ?thesis using c by (auto simp: cert_options_def verifies_peer_def)
  next
    case False
    show ?thesis
    proof (cases "stat certPath")
      case None
      then show ?thesis using c(1) False by (simp add: cert_options_def)
    next
      case (Some isDir)
      have suffix: "drop (Suc (n - Suc (Suc (Suc (Suc (Suc 0)))))) s = drop (n - 4) s" if "Suc (Suc (Suc (Suc (Suc 0)))) < n" for n and s :: string
        using that by (simp add: Suc_diff_Suc numeral_eq_Suc)
      from Some show ?thesis
        using c False assms(3)
        by (cases isDir) (auto simp: cert_options_def verifies_peer_def CA_CERT_FILE_SUFFIX_def Let_def min_def suffix split: if_splits)
    qed
  qed
qed

lemma verifies_peer_extend:
  assumes "verifies_peer stat certPath opts"
    and "\<And>x. x \<in> set before \<union> set after \<Longrightarrow>
      (case x of CURLOPT_SSL_VERIFYPEER _ \<Rightarrow> False | CURLOPT_SSL_VERIFYHOST _ \<Rightarrow> False | CURLOPT_CAPATH _ \<Rightarrow> False | CURLOPT_CAINFO _ \<Rightarrow> False | _ \<Rightarrow> True)"
  shows "verifies_peer stat certPath (before @ opts @ after)"
proof -
  have no: "CURLOPT_SSL_VERIFYPEER n \<notin> set before \<union> set after" "CURLOPT_SSL_VERIFYHOST n \<notin> set before \<union> set after"
      "CURLOPT_CAPATH p \<notin> set before \<union> set after" "CURLOPT_CAINFO p \<notin> set before \<union> set after" for n p
    using assms(2) by fastforce+
  then have mem: "CURLOPT_SSL_VERIFYPEER n \<in> set (before @ opts @ after) \<longleftrightarrow> CURLOPT_SSL_VERIFYPEER n \<in> set opts"
      "CURLOPT_SSL_VERIFYHOST n \<in> set (before @ opts @ after) \<longleftrightarrow> CURLOPT_SSL_VERIFYHOST n \<in> set opts"
      "CURLOPT_CAPATH p \<in> set (before @ opts @ after) \<longleftrightarrow> CURLOPT_CAPATH p \<in> set opts"
      "CURLOPT_CAINFO p \<in> set (before @ opts @ after) \<longleftrightarrow> CURLOPT_CAINFO p \<in> set opts" for n p
    by auto
  have tls: "CURLOPT_SSLVERSION_TLSv1_2 \<in> set (before @ opts @ after)" using assms(1) by (simp add: verifies_peer_def)
  show ?thesis using assms(1) tls unfolding verifies_peer_def insert_subset mem by blast
qed

lemma session_verifies:
  assumes "initializeCurlSession E (Some r) (Some ci) True h rd wr rw w = (STATUS_SUCCESS, ci', Some opts, w')"
    and "requestRequiresSecureConnection (Some (ri_url r)) True = (STATUS_SUCCESS, Some True)"
    and "length (ri_certPath r) \<le> re_maxPath (ku_request E)"
  shows "verifies_peer (ku_stat E) (ri_certPath r) opts"
proof -
  obtain opts2 before after where o: "secure_options (ku_stat E) (re_maxPath (ku_request E)) (ri_url r) (ri_certPath r) = (STATUS_SUCCESS, opts2)"
      "opts = before @ opts2 @ after"
      "before = [CURLOPT_ERRORBUFFER, CURLOPT_URL (ri_url r), CURLOPT_NOSIGNAL 1,
         CURLOPT_LOW_SPEED_TIME (DEFAULT_LOW_SPEED_TIME_LIMIT div HUNDREDS_OF_NANOS_IN_A_SECOND), CURLOPT_LOW_SPEED_LIMIT DEFAULT_LOW_SPEED_LIMIT]"
      "after = (if ri_completionTimeout r \<noteq> ku_INFINITE_TIMEOUT E
                then [CURLOPT_TIMEOUT_MS (ri_completionTimeout r div HUNDREDS_OF_NANOS_IN_A_MILLISECOND)] else []) @
         [CURLOPT_CONNECTTIMEOUT_MS (ri_connectionTimeout r div HUNDREDS_OF_NANOS_IN_A_MILLISECOND), CURLOPT_TCP_NODELAY 1, CURLOPT_HEADERFUNCTION h] @
         verb_options r rd wr rw"
    using assms(1) by (auto simp: initializeCurlSession_def Let_def split: prod.splits if_splits)
  show ?thesis
    unfolding o(2)
    by (rule verifies_peer_extend [OF secure_options_verify [OF o(1) assms(2,3)]])
      (auto simp: o(3,4) verb_options_def split: HTTP_REQUEST_VERB.splits option.splits if_splits)
qed

lemma blocking_verifies:
  assumes "blocking_options E r hs = (STATUS_SUCCESS, opts)"
    and "requestRequiresSecureConnection (Some (ri_url r)) True = (STATUS_SUCCESS, Some True)"
    and "length (ri_certPath r) \<le> re_maxPath (ku_request E)"
  shows "verifies_peer (ku_stat E) (ri_certPath r) opts"
proof -
  obtain opts2 after where o: "secure_options (ku_stat E) (re_maxPath (ku_request E)) (ri_url r) (ri_certPath r) = (STATUS_SUCCESS, opts2)"
      "opts = [] @ opts2 @ after"
      "after = [CURLOPT_HTTPHEADER hs, CURLOPT_ERRORBUFFER, CURLOPT_URL (ri_url r), CURLOPT_SSLCERTTYPE (getSslCertNameFromType (ri_certType r)),
           CURLOPT_SSLCERT (ri_sslCertPath r), CURLOPT_SSLKEY (ri_sslPrivateKeyPath r), CURLOPT_WRITEFUNCTION ''writeCurlResponseCallback'',
           CURLOPT_CONNECTTIMEOUT_MS (ri_connectionTimeout r div HUNDREDS_OF_NANOS_IN_A_MILLISECOND)] @
          (if ri_completionTimeout r \<noteq> ku_INFINITE_TIMEOUT E
           then [CURLOPT_TIMEOUT_MS (ri_completionTimeout r div HUNDREDS_OF_NANOS_IN_A_MILLISECOND)] else []) @
          [CURLOPT_LOW_SPEED_TIME (ri_lowSpeedTimeLimit r div HUNDREDS_OF_NANOS_IN_A_SECOND), CURLOPT_LOW_SPEED_LIMIT (ri_lowSpeedLimit r)]"
    using assms(1) by (auto simp: blocking_options_def split: prod.splits if_splits)
  show ?thesis
    unfolding o(2) by (rule verifies_peer_extend [OF secure_options_verify [OF o(1) assms(2,3)]]) (auto simp: o(3) split: if_splits)
qed

text \<open>
  C38: no session to a secure URL is without verification. Whatever the certificate path is, a session
  that is initialised for a URL with a secure scheme verifies the certificate and the host of the
  peer, with an authority from the request's path when it has one, and the blocking call performs with
  no other options: the call is the same when every other performance is undefined.
\<close>

theorem sessions_verify_peer:
  assumes "requestRequiresSecureConnection (Some (ri_url r)) True = (STATUS_SUCCESS, Some True)"
    and "length (ri_certPath r) \<le> re_maxPath (ku_request E)"
  shows "(case initializeCurlSession E (Some r) (Some ci) True h rd wr rw w of
      (st, _, pCurl, _) \<Rightarrow> if st = STATUS_SUCCESS then \<exists>opts. pCurl = Some opts \<and> verifies_peer (ku_stat E) (ri_certPath r) opts else pCurl = None) \<and>
    blockingCurlCall E globalInit perform (Some r) (Some ci) hh =
      blockingCurlCall E globalInit (\<lambda>opts ci. if verifies_peer (ku_stat E) (ri_certPath r) opts then perform opts ci else None) (Some r) (Some ci) hh"
proof
  have "pCurl \<noteq> None \<longleftrightarrow> st = STATUS_SUCCESS" if "initializeCurlSession E (Some r) (Some ci) True h rd wr rw w = (st, ci', pCurl, w')" for st ci' pCurl w'
    using that by (auto simp: initializeCurlSession_def Let_def split: prod.splits if_splits)
  then show "(case initializeCurlSession E (Some r) (Some ci) True h rd wr rw w of
      (st, _, pCurl, _) \<Rightarrow> if st = STATUS_SUCCESS then \<exists>opts. pCurl = Some opts \<and> verifies_peer (ku_stat E) (ri_certPath r) opts else pCurl = None)"
    using session_verifies [OF _ assms, of ci h rd wr rw w] by (fastforce split: prod.splits)
  show "blockingCurlCall E globalInit perform (Some r) (Some ci) hh =
      blockingCurlCall E globalInit (\<lambda>opts ci. if verifies_peer (ku_stat E) (ri_certPath r) opts then perform opts ci else None) (Some r) (Some ci) hh"
    using blocking_verifies [OF _ assms] by (auto simp: blockingCurlCall_def split: prod.splits intro!: Option.bind_cong)
qed

subsection \<open>Reading the data of a stream\<close>

text \<open>The sleeps of the attempts.\<close>

definition read_sleeps :: "nat \<Rightarrow> UINT64 list" where
  "read_sleeps k = map (\<lambda>i. 2 ^ i * BASE_GET_DATA_SLEEP_TIME) [0..<k]"

lemma length_read_sleeps [simp]: "length (read_sleeps k) = k"
  by (simp add: read_sleeps_def)

lemma read_sleeps_drop: "j < k \<Longrightarrow> drop j (read_sleeps k) = 2 ^ j * BASE_GET_DATA_SLEEP_TIME # drop (Suc j) (read_sleeps k)"
  using Cons_nth_drop_Suc [of j "read_sleeps k"] by (simp add: read_sleeps_def)

lemma read_loop_result:
  assumes "read_loop E rq bufferSize iter (2 ^ (iter - 1) * BASE_GET_DATA_SLEEP_TIME) w = (st, bytes, n, w')" "iter < MAX_GET_DATA_ITER"
  shows "\<exists>k x0 x. k < MAX_GET_DATA_ITER \<and> iter \<le> k \<and> fetch_data E rq bufferSize x0 = (st, bytes, n, x) \<and>
    w' = w\<lparr>cw_sleeps := cw_sleeps w @ drop (iter - 1) (read_sleeps k), cw_ext := x\<rparr> \<and>
    (n = 0 \<and> (st = STATUS_SUCCESS \<or> st = STATUS_NO_MORE_DATA_AVAILABLE) \<longrightarrow> Suc k = MAX_GET_DATA_ITER)"
  using assms
proof (induction "MAX_GET_DATA_ITER - iter" arbitrary: iter w)
  case (Suc d)
  define w1 where "w1 = (if iter > 0 then w\<lparr>cw_sleeps := cw_sleeps w @ [2 ^ (iter - 1) * BASE_GET_DATA_SLEEP_TIME]\<rparr> else w)"
  obtain st1 b1 n1 x1 where f: "fetch_data E rq bufferSize (cw_ext w1) = (st1, b1, n1, x1)" by (metis prod_cases4)
  have next_sleep: "(if iter > 0 then 2 ^ (iter - 1) * BASE_GET_DATA_SLEEP_TIME * 2 else 2 ^ (iter - 1) * BASE_GET_DATA_SLEEP_TIME) =
      2 ^ (Suc iter - 1) * BASE_GET_DATA_SLEEP_TIME"
    by (cases iter) (simp_all add: algebra_simps)
  have w1: "w1 = w\<lparr>cw_sleeps := cw_sleeps w @ drop (iter - 1) (read_sleeps iter)\<rparr>"
    by (cases iter) (simp_all add: read_sleeps_def w1_def)
  show ?case
  proof (cases "Suc iter < MAX_GET_DATA_ITER \<and> n1 = 0 \<and> (st1 = STATUS_SUCCESS \<or> st1 = STATUS_NO_MORE_DATA_AVAILABLE)")
    case True
    have r: "read_loop E rq bufferSize (Suc iter) (2 ^ (Suc iter - 1) * BASE_GET_DATA_SLEEP_TIME) (w1\<lparr>cw_ext := x1\<rparr>) = (st, bytes, n, w')"
      using Suc(3) True f next_sleep by (subst (asm) read_loop.simps) (simp add: w1_def [symmetric] Let_def)
    have d: "d = MAX_GET_DATA_ITER - Suc iter" using Suc(2) by simp
    from Suc(1) [OF d r True [THEN conjunct1]] obtain k x0 x where k: "k < MAX_GET_DATA_ITER" "Suc iter \<le> k"
        "fetch_data E rq bufferSize x0 = (st, bytes, n, x)"
        "w' = w1\<lparr>cw_ext := x1, cw_sleeps := cw_sleeps (w1\<lparr>cw_ext := x1\<rparr>) @ drop iter (read_sleeps k), cw_ext := x\<rparr>"
        "n = 0 \<and> (st = STATUS_SUCCESS \<or> st = STATUS_NO_MORE_DATA_AVAILABLE) \<longrightarrow> Suc k = MAX_GET_DATA_ITER"
      unfolding diff_Suc_1 by blast
    have "drop (iter - 1) (read_sleeps iter) @ drop iter (read_sleeps k) = drop (iter - 1) (read_sleeps k)"
    proof (cases iter)
      case (Suc j)
      show ?thesis using k(2) Suc read_sleeps_drop [of j k] read_sleeps_drop [of j iter] by simp
    qed (simp add: read_sleeps_def)
    then have "w' = w\<lparr>cw_sleeps := cw_sleeps w @ drop (iter - 1) (read_sleeps k), cw_ext := x\<rparr>"
      using k(4) by (simp add: w1)
    then show ?thesis using k(1,2,3,5) Suc_leD by blast
  next
    case False
    then have r: "st = st1" "bytes = b1" "n = n1" "w' = w1\<lparr>cw_ext := x1\<rparr>"
      using Suc(3) f by (subst (asm) read_loop.simps, simp add: w1_def [symmetric] Let_def)+
    have "w' = w\<lparr>cw_sleeps := cw_sleeps w @ drop (iter - 1) (read_sleeps iter), cw_ext := x1\<rparr>"
      using r(4) by (simp add: w1)
    moreover have "n = 0 \<and> (st = STATUS_SUCCESS \<or> st = STATUS_NO_MORE_DATA_AVAILABLE) \<longrightarrow> Suc iter = MAX_GET_DATA_ITER"
      using False r(1,3) Suc(4) by auto
    ultimately show ?thesis using f r(1-3) Suc(4) by blast
  qed
qed simp

text \<open>
  What a call of \<open>getKinesisVideoStreamData\<close> promises: it never reports more than the buffer holds, and
  the bytes it stores are as many as it reports.
\<close>

definition reads_within :: "('l, 'n, 'q, 'x) curl_env \<Rightarrow> bool" where
  "reads_within E \<longleftrightarrow> (\<forall>rq size x. case fetch_data E rq size x of (st, bytes, n, x') \<Rightarrow> n \<le> size \<and> length bytes = unat n)"

text \<open>
  C39: the read callback always returns, behind at most five sleeps that double from 20 milliseconds
  (620 in all), and leaves the response in the state that its answer to curl means. A pause is
  recorded, so that the next report of data resumes the session. No data at all means that the stream
  ended or the request is being terminated, and is recorded as the end of the session, as an abort
  is. Any other answer is the number of bytes that were stored.
\<close>

theorem postReadCallback_outcome:
  assumes "postReadCallback E csize numItems (Some rq) w = (n, bytes, Some rq', w')" "reads_within E"
    and "cq_pCurlResponse rq = Some r" "cq_pCurlApiCallbacks rq \<noteq> None"
    and "csize * numItems < ku_ABORT E" "csize * numItems < ku_PAUSE E" "csize * numItems < 2 ^ 32" "ku_ABORT E \<noteq> ku_PAUSE E"
  shows "\<exists>k r'. k < MAX_GET_DATA_ITER \<and> cw_sleeps w' = cw_sleeps w @ read_sleeps k \<and> rq' = rq\<lparr>cq_pCurlResponse := Some r'\<rparr> \<and>
    (if n = ku_PAUSE E then cs_paused r' \<and> cs_terminated r' = cs_terminated r
     else if n = ku_ABORT E then cs_terminated r'
     else n \<le> csize * numItems \<and> length bytes = unat n \<and> \<not> cs_paused r' \<and>
       (n = 0 \<longrightarrow> cs_terminated r' \<and> (cs_endOfStream r' \<or> ri_terminating (cq_requestInfo rq))))"
proof -
  define size where "size = csize * numItems"
  have PA: "ku_PAUSE E \<noteq> 0" "ku_ABORT E \<noteq> 0" "ku_ABORT E \<noteq> ku_PAUSE E" using assms(5,6,8) by (auto simp: word_less_nat_alt)
  obtain n1 b1 r1 w1 where d: "read_decide E size rq r w = (n1, b1, r1, w1)" by (metis prod_cases4)
  obtain r2 w2 where rec: "read_record E n1 b1 r1 w1 = (r2, w2)" by fastforce
  have res: "n = n1" "bytes = b1" "rq' = rq\<lparr>cq_pCurlResponse := Some r2\<rparr>" "w' = w2"
    using assms(1,3,4) d rec by (auto simp: postReadCallback_def size_def)
  have sl: "cw_sleeps w2 = cw_sleeps w1" using rec by (auto simp: read_record_def Let_def split: if_splits)
  have r2: "r2 = (if n1 = ku_PAUSE E then r1\<lparr>cs_paused := True\<rparr> else if n1 = ku_ABORT E \<or> n1 = 0 then r1\<lparr>cs_terminated := True\<rparr> else r1)"
    using rec PA by (auto simp: read_record_def Let_def split: if_splits)
  have flags: "cs_terminated r1 = cs_terminated r" "cs_paused r1 = cs_paused r"
    using d by (auto simp: read_decide_def split: if_splits prod.splits STATUS.splits)
  have "\<exists>k. k < MAX_GET_DATA_ITER \<and> cw_sleeps w1 = cw_sleeps w @ read_sleeps k \<and>
      (n1 = ku_PAUSE E \<or> n1 = ku_ABORT E \<or>
       n1 \<le> size \<and> length b1 = unat n1 \<and> \<not> cs_paused r \<and> (n1 = 0 \<longrightarrow> cs_endOfStream r1 \<or> ri_terminating (cq_requestInfo rq)))"
  proof (cases "cs_paused r \<or> cs_endOfStream r \<or> ri_terminating (cq_requestInfo rq)")
    case True
    then show ?thesis using d by (intro exI [of _ 0]) (auto simp: read_decide_def MAX_GET_DATA_ITER_def read_sleeps_def split: if_splits)
  next
    case False
    obtain st b m w3 where l: "read_loop E rq (ucast size) 0 BASE_GET_DATA_SLEEP_TIME w = (st, b, m, w3)" by (metis prod_cases4)
    obtain k x0 x where k: "k < MAX_GET_DATA_ITER" "fetch_data E rq (ucast size) x0 = (st, b, m, x)"
        "w3 = w\<lparr>cw_sleeps := cw_sleeps w @ read_sleeps k, cw_ext := x\<rparr>"
      using read_loop_result [of E rq "ucast size" 0 w st b m w3] l by (auto simp: MAX_GET_DATA_ITER_def)
    have m: "m \<le> ucast size" "length b = unat m" using assms(2) k(2) unfolding reads_within_def by (metis (mono_tags, lifting) case_prod_conv)+
    have um: "unat (ucast m :: SIZE_T) = unat m" using unat_bound [of m] by (simp add: unsigned_ucast_eq take_bit_nat_eq_self)
    have "unat (ucast size :: UINT32) = unat size"
      using assms(7) by (simp add: size_def unsigned_ucast_eq take_bit_nat_eq_self word_less_nat_alt)
    with um have "ucast m \<le> size" "length b = unat (ucast m :: SIZE_T)" using m by (simp_all add: word_le_nat_alt)
    moreover have "ucast m = (0 :: SIZE_T) \<longleftrightarrow> m = 0" using um by (metis unat_eq_zero)
    moreover have "w1 = w3" "n1 = ku_PAUSE E \<or> n1 = ku_ABORT E \<or> n1 = ucast m \<and> b1 = b \<and> (n1 = 0 \<longrightarrow> cs_endOfStream r1)"
      using d l False calculation(3) by (auto simp: read_decide_def split: STATUS.splits if_splits)
    ultimately show ?thesis using k False by (intro exI [of _ k]) auto
  qed
  then obtain k where k: "k < MAX_GET_DATA_ITER" "cw_sleeps w1 = cw_sleeps w @ read_sleeps k"
      "n1 = ku_PAUSE E \<or> n1 = ku_ABORT E \<or>
       n1 \<le> size \<and> length b1 = unat n1 \<and> \<not> cs_paused r \<and> (n1 = 0 \<longrightarrow> cs_endOfStream r1 \<or> ri_terminating (cq_requestInfo rq))" by blast
  show ?thesis
    using k flags by (intro exI [of _ k] exI [of _ r2]) (auto simp: res sl r2 size_def [symmetric])
qed
text \<open>
  A report of data that comes between the two parts of the read callback is lost: it finds the session
  not paused and does nothing, and then the callback pauses it.
\<close>

lemma postReadCallback_lost_notification:
  assumes "read_decide E bufferSize rq r w = (ku_PAUSE E, bytes, r1, w1)" "\<not> cs_paused r" "ku_PAUSE E \<noteq> ku_ABORT E"
  shows "notifyDataAvailable (Some r1) durationAvailable sizeAvailable w1 = (STATUS_SUCCESS, Some r1, w1) \<and>
    cs_paused (fst (read_record E (ku_PAUSE E) bytes r1 w1))"
proof -
  have "cs_paused r1 = cs_paused r" using assms(1) by (auto simp: read_decide_def split: if_splits prod.splits STATUS.splits)
  then show ?thesis using assms(2,3) by (simp add: notifyDataAvailable_def read_record_def Let_def)
qed

subsection \<open>What a call sends and what it receives\<close>

text \<open>The contract of the queue that takes the headers of an answer.\<close>

locale stack_queue =
  fixes ops :: "'q stack_queue_ops" and queued :: "'q \<Rightarrow> UINT64 list"
  assumes queue_count: "stackQueueGetCount ops q = length (queued q)"
    and enqueue: "stackQueueEnqueue ops q x = (st, q') \<Longrightarrow> queued q' = (if st = STATUS_SUCCESS then queued q @ [x] else queued q)"
    and dequeue: "queued q = x # xs \<Longrightarrow> \<exists>q'. stackQueueDequeue ops q = (STATUS_SUCCESS, x, q') \<and> queued q' = xs"
begin

lemma dequeue_all:
  assumes "distinct (queued q)" "\<forall>x\<in>set (queued q). x \<noteq> 0 \<and> hh x \<noteq> None"
  shows "dequeue_headers ops (length (queued q)) q hh = Some (\<lambda>x. if x \<in> set (queued q) then None else hh x)"
  using assms
proof (induction "queued q" arbitrary: q hh)
  case Nil
  then show ?case by simp
next
  case (Cons x xs)
  obtain q' where q': "stackQueueDequeue ops q = (STATUS_SUCCESS, x, q')" "queued q' = xs" using dequeue [of q x xs] Cons(2) by auto
  have x: "x \<noteq> 0" "hh x \<noteq> None" "x \<notin> set xs" using Cons(3,4) Cons(2) [symmetric] by auto
  have "dequeue_headers ops (length (queued q')) q' (hh(x := None)) = Some (\<lambda>y. if y \<in> set (queued q') then None else (hh(x := None)) y)"
    by (rule Cons(1)) (use Cons(3,4) Cons(2) [symmetric] q'(2) in auto)
  moreover have "(\<lambda>y. if y \<in> set (queued q') then None else (hh(x := None)) y) = (\<lambda>y. if y \<in> set (queued q) then None else hh y)"
    using q'(2) Cons(2) by (auto simp flip: Cons(2))
  ultimately show ?case using q' x by (simp add: SAFE_MEMFREE_def flip: Cons(2))
qed

lemma release_headers:
  assumes "ci_pResponseHeaders ci = Some q" "distinct (queued q)" "\<forall>x\<in>set (queued q). x \<noteq> 0 \<and> hh x \<noteq> None"
  shows "\<exists>ci'. releaseCallInfo ops (Some ci) hh = Some (STATUS_SUCCESS, Some ci', \<lambda>x. if x \<in> set (queued q) then None else hh x) \<and>
    ci_pResponseHeaders ci' = None \<and> ci_responseData ci' = None"
  using dequeue_all [OF assms(2,3)] assms(1) by (auto simp: releaseCallInfo_def Let_def queue_count)

end

text \<open>The line of a header for curl.\<close>

definition header_text :: "header \<Rightarrow> string" where
  "header_text p = fst p @ REQUEST_HEADER_DELIMITER @ snd p"

lemma header_line_ok:
  assumes "header_ok h"
  shows "header_line h = Some (header_text (rh_pName h, rh_pValue h))"
proof -
  note L = header_lens [OF assms]
  have "CHR '':'' \<noteq> NUL \<and> CHR '' '' \<noteq> NUL" by code_simp
  then have "takeWhile (\<lambda>c. c \<noteq> NUL) (header_text (rh_pName h, rh_pValue h)) = header_text (rh_pName h, rh_pValue h)"
    using assms by (auto simp: header_ok_def header_text_def REQUEST_HEADER_DELIMITER_def takeWhile_eq_all_conv)
  then show ?thesis
    using L by (simp add: header_line_def mem_read_def header_text_def REQUEST_HEADER_DELIMITER_def MAX_REQUEST_HEADER_STRING_LEN_def
        MAX_REQUEST_HEADER_NAME_LEN_def MAX_REQUEST_HEADER_VALUE_LEN_def)
qed

lemma header_text_length: "header_ok h \<Longrightarrow> length (header_text (rh_pName h, rh_pValue h)) \<le> 2176"
  using header_lens [of h] by (simp add: header_text_def REQUEST_HEADER_DELIMITER_def)

lemma log_headers_fit:
  assumes "\<forall>t\<in>set ts. length t \<le> 2176" "length ts \<le> MAX_REQUEST_HEADER_COUNT"
  shows "log_headers ts \<noteq> None"
proof -
  have "length (concat (map (\<lambda>h. CHR 0x0A # ''    '' @ h) ts)) \<le> 2181 * length ts" using assms(1) by (induction ts) auto
  moreover have "2181 * length ts \<le> 2181 * MAX_REQUEST_HEADER_COUNT" using assms(2) by simp
  ultimately have "length (concat (map (\<lambda>h. CHR 0x0A # ''    '' @ h) ts)) < MAX_REQUEST_HEADER_COUNT * (MAX_REQUEST_HEADER_STRING_LEN + MAX_REQUEST_HEADER_OUTPUT_DELIMITER)"
    by (simp add: MAX_REQUEST_HEADER_COUNT_def MAX_REQUEST_HEADER_STRING_LEN_def MAX_REQUEST_HEADER_OUTPUT_DELIMITER_def
        MAX_REQUEST_HEADER_NAME_LEN_def MAX_REQUEST_HEADER_VALUE_LEN_def)
  then show ?thesis by (simp add: log_headers_def Let_def)
qed

lemma slist_iwalk:
  assumes "headers_ok hh xs" "\<forall>hs t. app hs t"
  shows "items_walk (\<lambda>_. slist_step app hh) i xs (Some hs) = (STATUS_SUCCESS, Some (hs @ map (header_text \<circ> header_pair hh) xs))"
  using assms(1)
proof (induction xs arbitrary: i hs)
  case (Cons x xs)
  obtain h where h: "hh x = Some h" "header_ok h" using Cons(2) by (auto simp: headers_ok_def)
  have "headers_ok hh xs" using Cons(2) by (simp add: headers_ok_def)
  then show ?case using Cons(1) h header_line_ok [OF h(2)] assms(2) by (simp add: slist_step_def header_pair_def)
qed simp

locale curl_call = rq: request_list ops items node_at "ku_request E" + ut: platform_utils "ku_utils E" space + qu: stack_queue "ku_queue E" queued
  for ops :: "('l, 'n) single_list_ops" and items :: "'l \<Rightarrow> UINT64 list" and node_at :: "'l \<Rightarrow> 'n \<Rightarrow> nat \<Rightarrow> bool"
    and E :: "('l, 'n, 'q, 'x) curl_env" and space :: "char \<Rightarrow> bool" and queued :: "'q \<Rightarrow> UINT64 list"  +
  assumes queue_create: "ku_queueCreate E = (st, pq) \<Longrightarrow> (if st = STATUS_SUCCESS then \<exists>q. pq = Some q \<and> queued q = [] else pq = None)"
begin

lemma header_list_lines:
  assumes "request_inv items r hh" "headers_ok hh (header_list items r)" "\<forall>hs t. ku_slistAppend E hs t"
  shows "\<exists>hs. createCurlHeaderList E (Some r) True hh = Some (STATUS_SUCCESS, hs) \<and> slist_items hs = map header_text (header_pairs items r hh)"
proof -
  obtain l where l: "ri_pRequestHeaders r = Some l" using assms(1) by (auto simp: request_inv_def)
  obtain st pn where h: "singleListGetHeadNode ops l = (st, pn)" by fastforce
  have xs: "headers_ok hh (items l)" using assms(2) l by (simp add: header_list_def)
  have "st = STATUS_SUCCESS \<and> list_walk ops l (\<lambda>_. slist_step (ku_slistAppend E) hh) pn (Some []) =
      Some (STATUS_SUCCESS, Some (map (header_text \<circ> header_pair hh) (items l)))"
    using rq.walk_items [OF h, of "slist_step (ku_slistAppend E) hh" "Some []"] slist_iwalk [OF xs assms(3), of 0 "[]"] by simp
  then show ?thesis using l h by (auto simp: createCurlHeaderList_def rq.list_ops slist_items_def header_pairs_def header_list_def)
qed

end
text \<open>
  A transport that delivers an answer: curl gives the lines of the header and the pieces of the body,
  in order, to the functions of the request, and ends with a write error when one of them does not
  take all that it is given.
\<close>

fun feed ::
    "(string \<Rightarrow> SIZE_T \<Rightarrow> SIZE_T \<Rightarrow> ('l, 'q) CurlRequest option \<Rightarrow> 'x curl_world \<Rightarrow> (SIZE_T \<times> ('l, 'q) CurlRequest option \<times> 'x curl_world) option)
      \<Rightarrow> string list \<Rightarrow> ('l, 'q) CurlRequest \<times> 'x curl_world \<Rightarrow> (bool \<times> ('l, 'q) CurlRequest \<times> 'x curl_world) option" where
  "feed f [] s = Some (True, s)"
| "feed f (b # bs) (rq, w) = (case f b 1 (of_nat (length b)) (Some rq) w of
     Some (n, Some rq', w') \<Rightarrow> if n = of_nat (length b) then feed f bs (rq', w') else Some (False, rq', w')
   | _ \<Rightarrow> None)"

definition deliver ::
    "('l, 'n, 'q, 'x) curl_env \<Rightarrow> string list \<Rightarrow> string list \<Rightarrow> UINT32 \<Rightarrow> ('l, 'q) CurlRequest \<times> 'x curl_world
      \<Rightarrow> (CURLcode \<times> UINT32 \<times> ('l, 'q) CurlRequest \<times> 'x curl_world) option" where
  "deliver E headerLines pieces httpStatus s = do {
     (ok, s1) \<leftarrow> feed (writeHeaderCallback E) headerLines s;
     if \<not> ok then Some (CURLE_OTHER 23, 0, s1)
     else do {
       (ok', s2) \<leftarrow> feed (postResponseWriteCallback E) pieces s1;
       Some (if ok' then CURLE_OK else CURLE_OTHER 23, httpStatus, s2)
     }
   }"

text \<open>The buffer of the answer holds the data so far and a terminator.\<close>

definition holds_answer :: "'q CallInfo \<Rightarrow> string \<Rightarrow> bool" where
  "holds_answer ci answer \<longleftrightarrow> ci_responseDataLen ci = of_nat (length answer) \<and>
     (ci_responseData ci = Some (answer @ [NUL]) \<or> ci_responseData ci = None \<and> answer = [])"

lemma ucast_of_nat_small: "n < 2 ^ 32 \<Longrightarrow> ucast (of_nat n :: 64 word) = (of_nat n :: 32 word)"
  by (simp add: unsigned_of_nat take_bit_nat_eq_self)

lemma ucast_up_of_nat: "n < 2 ^ 32 \<Longrightarrow> ucast (of_nat n :: 32 word) = (of_nat n :: 64 word)"
  by (simp add: unsigned_of_nat take_bit_nat_eq_self)

lemma append_response_holds:
  assumes "holds_answer ci answer" "length answer + length b < 2 ^ 32" "\<forall>n. memory n"
  shows "append_response memory b (of_nat (length b)) ci =
    Some (Some (ci\<lparr>ci_responseData := Some ((answer @ b) @ [NUL]), ci_responseDataLen := of_nat (length (answer @ b))\<rparr>))"
proof -
  have len: "ci_responseDataLen ci = of_nat (length answer)" "unat (ci_responseDataLen ci) = length answer"
    using assms(1,2) by (simp_all add: holds_answer_def unat_of_nat take_bit_nat_eq_self)
  have lb: "unat (of_nat (length b) :: SIZE_T) = length b" using assms(2) by (simp add: unat_of_nat take_bit_nat_eq_self)
  have "ucast (ci_responseDataLen ci) + of_nat (length b) + 1 = (of_nat (length answer + length b + 1) :: SIZE_T)"
    using len(1) assms(2) ucast_up_of_nat [of "length answer"] by simp
  then have size: "unat (ucast (ci_responseDataLen ci) + of_nat (length b) + 1 :: SIZE_T) = length answer + length b + 1"
    using assms(2) by (simp only: unat_of_nat) (simp add: take_bit_nat_eq_self)
  have len': "ci_responseDataLen ci + ucast (of_nat (length b) :: SIZE_T) = of_nat (length (answer @ b))"
    using len(1) assms(2) ucast_of_nat_small [of "length b"] by simp
  have un: "unat (of_nat (length (answer @ b)) :: UINT32) = length (answer @ b)"
    by (rule unat_of_nat_small) (use assms(2) in simp)
  have old: "(case ci_responseData ci of None \<Rightarrow> if ci_responseDataLen ci = 0 then Some '''' else None
       | Some s \<Rightarrow> if unat (ci_responseDataLen ci) \<le> length s then Some (take (unat (ci_responseDataLen ci)) s) else None) = Some answer"
    using assms(1) len(2) by (auto simp: holds_answer_def)
  have m: "mem_read b (length b) = Some b" by (simp add: mem_read_def)
  show ?thesis
    unfolding append_response_def Let_def size old lb m len' un using assms(3) len(2) by (simp add: list_update_append)
qed

lemma feed_body:
  assumes "holds_answer (cs_callInfo r) answer" "length answer + length (concat pieces) < 2 ^ 32" "\<forall>n. ku_memory E n"
    and "cq_pCurlResponse rq = Some r" "\<not> ri_terminating (cq_requestInfo rq)"
  shows "\<exists>ci. feed (postResponseWriteCallback E) pieces (rq, w) = Some (True, rq\<lparr>cq_pCurlResponse := Some (r\<lparr>cs_callInfo := ci\<rparr>)\<rparr>, w) \<and>
    holds_answer ci (answer @ concat pieces) \<and> ci_pResponseHeaders ci = ci_pResponseHeaders (cs_callInfo r)"
  using assms(1,2,4,5)
proof (induction pieces arbitrary: answer rq r)
  case Nil
  then show ?case by (intro exI [of _ "cs_callInfo r"]) simp
next
  case (Cons b bs)
  define ci where "ci = (cs_callInfo r)\<lparr>ci_responseData := Some ((answer @ b) @ [NUL]), ci_responseDataLen := of_nat (length (answer @ b))\<rparr>"
  define r1 where "r1 = r\<lparr>cs_callInfo := ci\<rparr>"
  define rq1 where "rq1 = rq\<lparr>cq_pCurlResponse := Some r1\<rparr>"
  have "append_response (ku_memory E) b (of_nat (length b)) (cs_callInfo r) = Some (Some ci)"
    unfolding ci_def by (rule append_response_holds [OF Cons(2) _ assms(3)]) (use Cons(3) in simp)
  then have step: "postResponseWriteCallback E b 1 (of_nat (length b)) (Some rq) w = Some (of_nat (length b), Some rq1, w)"
    using Cons(4,5) by (simp add: postResponseWriteCallback_def rq1_def r1_def)
  have "holds_answer (cs_callInfo r1) (answer @ b)" by (simp add: holds_answer_def r1_def ci_def)
  moreover have "length (answer @ b) + length (concat bs) < 2 ^ 32" using Cons(3) by simp
  ultimately obtain ci' where ci': "feed (postResponseWriteCallback E) bs (rq1, w) = Some (True, rq1\<lparr>cq_pCurlResponse := Some (r1\<lparr>cs_callInfo := ci'\<rparr>)\<rparr>, w)"
      "holds_answer ci' ((answer @ b) @ concat bs)" "ci_pResponseHeaders ci' = ci_pResponseHeaders (cs_callInfo r1)"
    using Cons(1) [of r1 "answer @ b" rq1] Cons(5) by (auto simp: rq1_def)
  then show ?case using step by (intro exI [of _ ci']) (simp add: rq1_def r1_def ci_def)
qed

text \<open>The header that a line of the answer stands for, and the lines that the callback can take.\<close>

definition answer_header :: "(char \<Rightarrow> bool) \<Rightarrow> string \<Rightarrow> header option" where
  "answer_header space line = map_option (\<lambda>i. (take i line, trim space (drop (Suc i) line))) (first_index (CHR '':'') line)"

definition answer_line_ok :: "(char \<Rightarrow> bool) \<Rightarrow> string \<Rightarrow> bool" where
  "answer_line_ok space line \<longleftrightarrow> length line < 2 ^ 32 \<and> NUL \<notin> set line \<and>
     (case answer_header space line of None \<Rightarrow> True
      | Some p \<Rightarrow> fst p \<noteq> '''' \<and> snd p \<noteq> '''' \<and> length (fst p) < MAX_REQUEST_HEADER_NAME_LEN \<and> length (snd p) < MAX_REQUEST_HEADER_VALUE_LEN)"
context curl_call
begin

text \<open>
  A line of the answer that has a colon adds a header to the queue; every other line is ignored.
\<close>

lemma header_callback:
  assumes "cq_pCurlResponse rq = Some r" "ci_pResponseHeaders (cs_callInfo r) = Some q" "answer_line_ok space line"
    and "re_malloc (ku_request E) (cw_headers w) \<noteq> None" "\<forall>q x. fst (stackQueueEnqueue (ku_queue E) q x) = STATUS_SUCCESS"
  shows "\<exists>ci q' hh'. writeHeaderCallback E line 1 (of_nat (length line)) (Some rq) w =
      Some (of_nat (length line), Some (rq\<lparr>cq_pCurlResponse := Some (r\<lparr>cs_callInfo := ci\<rparr>)\<rparr>), w\<lparr>cw_headers := hh'\<rparr>) \<and>
    ci_pResponseHeaders ci = Some q' \<and> ci_responseData ci = ci_responseData (cs_callInfo r) \<and>
    ci_responseDataLen ci = ci_responseDataLen (cs_callInfo r) \<and>
    (case answer_header space line of None \<Rightarrow> q' = q \<and> hh' = cw_headers w
     | Some p \<Rightarrow> \<exists>x h. queued q' = queued q @ [x] \<and> x \<noteq> 0 \<and> cw_headers w x = None \<and> hh' = (cw_headers w)(x \<mapsto> h) \<and> (rh_pName h, rh_pValue h) = p)"
proof (cases "first_index (CHR '':'') line")
  case None
  have "STRNCHR (ku_utils E) line (ucast (1 * of_nat (length line) :: SIZE_T)) (CHR '':'') = None"
    using assms(3) None ucast_of_nat_small [of "length line"] unat_of_nat_small [of "length line"]
    by (simp add: ut.STRNCHR_first answer_line_ok_def)
  then show ?thesis using assms(1,2) None
    by (intro exI [of _ "cs_callInfo r"] exI [of _ q] exI [of _ "cw_headers w"]) (simp add: writeHeaderCallback_def answer_header_def)
next
  case (Some i)
  define val where "val = drop (Suc i) line"
  have line: "length line < 2 ^ 32" "NUL \<notin> set line" using assms(3) by (simp_all add: answer_line_ok_def)
  have name: "take i line \<noteq> ''''" "i < MAX_REQUEST_HEADER_NAME_LEN" "trim space val \<noteq> ''''" "length (trim space val) < MAX_REQUEST_HEADER_VALUE_LEN"
    using assms(3) Some first_index_Some [OF Some] by (auto simp: answer_line_ok_def answer_header_def val_def)
  have i: "i < length line" using first_index_Some [OF Some] by simp
  have chr: "STRNCHR (ku_utils E) line (ucast (1 * of_nat (length line) :: SIZE_T)) (CHR '':'') = Some i"
    using line Some ucast_of_nat_small [of "length line"] unat_of_nat_small [of "length line"] by (simp add: ut.STRNCHR_first)
  have lv: "length val = length line - i - 1" "length val < 2 ^ 32" using i line by (simp_all add: val_def)
  have "(of_nat (length line) :: SIZE_T) - of_nat i - 1 = of_nat (length val)" using i by (simp add: lv(1) of_nat_diff)
  then have vlen: "ucast (1 * of_nat (length line) - of_nat i - 1 :: SIZE_T) = (of_nat (length val) :: UINT32)"
    using ucast_of_nat_small [OF lv(2)] by simp
  have "val \<noteq> ''''" using name(3) by (auto simp: trim_def)
  then obtain s e where tr: "TRIMSTRALL (ku_utils E) val (of_nat (length val)) = (STATUS_SUCCESS, s, e)" "s \<le> e" "e \<le> length val"
      "take (e - s) (drop s val) = trim space val" using ut.TRIMSTRALL_trim [OF _ lv(2)] by blast
  have es: "length (trim space val) = e - s" unfolding tr(4) [symmetric] using tr(2,3) by simp
  have args: "arg_ok line (of_nat i)" "arg_ok (drop s val) (of_nat (e - s))"
    using line i lv tr(2,3) unat_of_nat_small [of i] unat_of_nat_small [of "e - s"] by (auto simp: arg_ok_def val_def dest: in_set_dropD)
  have nz: "(of_nat i :: UINT32) \<noteq> 0" "(of_nat (e - s) :: UINT32) \<noteq> 0"
    using name(1,3) es i line lv tr(2,3) unat_of_nat_small [of i] unat_of_nat_small [of "e - s"] by (auto simp del: of_nat_diff)
  have ha: "header_arg line (of_nat i) = take i line" "header_arg (drop s val) (of_nat (e - s)) = trim space val"
    using nz unat_of_nat_small [of i] unat_of_nat_small [of "e - s"] i line lv tr(2-4) by (auto simp: header_arg_def simp del: of_nat_diff)
  have "header_args_status (take i line) (trim space val) = STATUS_SUCCESS" using name i by (simp add: header_args_status_def)
  moreover obtain x where x: "re_malloc (ku_request E) (cw_headers w) = Some x" using assms(4) by blast
  moreover define h where "h = header_of line (of_nat i) (drop s val) (of_nat (e - s))"
  ultimately have cr: "createRequestHeader (re_malloc (ku_request E)) (cw_headers w) (Some line) (of_nat i) (Some (drop s val)) (of_nat (e - s)) True =
      Some (STATUS_SUCCESS, x, (cw_headers w)(x \<mapsto> h))"
    unfolding createRequestHeader_args [OF args] ha by simp
  have hp: "(rh_pName h, rh_pValue h) = (take i line, trim space val)" using ha by (simp add: h_def header_of_def)
  have fresh: "x \<noteq> 0" "cw_headers w x = None" using rq.malloc_fresh [OF x] by simp_all
  obtain st q' where q': "stackQueueEnqueue (ku_queue E) q x = (st, q')" by fastforce
  then have "queued q' = queued q @ [x]" using qu.enqueue [OF q'] assms(5) by (metis fst_conv)
  define ci where "ci = (if STRNCMP KVS_REQUEST_ID_HEADER_NAME (rh_pName h) i = 0
      then (cs_callInfo r)\<lparr>ci_pResponseHeaders := Some q', ci_pRequestId := x\<rparr> else (cs_callInfo r)\<lparr>ci_pResponseHeaders := Some q'\<rparr>)"
  have drop: "drop (Suc i + s) line = drop s val" by (simp add: val_def add.commute)
  have "writeHeaderCallback E line 1 (of_nat (length line)) (Some rq) w =
      Some (of_nat (length line), Some (rq\<lparr>cq_pCurlResponse := Some (r\<lparr>cs_callInfo := ci\<rparr>)\<rparr>), w\<lparr>cw_headers := (cw_headers w)(x \<mapsto> h)\<rparr>)"
    using name(2,4) es fresh(1) assms(2) q'
    unfolding writeHeaderCallback_def option.case assms(1) Let_def chr vlen val_def [symmetric] tr(1) prod.case drop cr
    by (simp add: ci_def)
  then show ?thesis
    using \<open>queued q' = queued q @ [x]\<close> fresh hp Some
    by (intro exI [of _ ci] exI [of _ q'] exI [of _ "(cw_headers w)(x \<mapsto> h)"]) (auto simp: ci_def answer_header_def val_def)
qed

end
definition live_queue :: "('q \<Rightarrow> UINT64 list) \<Rightarrow> hheap \<Rightarrow> 'q \<Rightarrow> bool" where
  "live_queue queued hh q \<longleftrightarrow> distinct (queued q) \<and> (\<forall>x\<in>set (queued q). x \<noteq> 0 \<and> hh x \<noteq> None)"

context curl_call
begin

lemma feed_headers:
  assumes "\<forall>line\<in>set headerLines. answer_line_ok space line"
    and "\<forall>hh. card (dom hh) < m \<longrightarrow> re_malloc (ku_request E) hh \<noteq> None" "\<forall>q x. fst (stackQueueEnqueue (ku_queue E) q x) = STATUS_SUCCESS"
    and "cq_pCurlResponse rq = Some r" "ci_pResponseHeaders (cs_callInfo r) = Some q" "live_queue queued (cw_headers w) q"
    and "card (dom (cw_headers w)) + length headerLines \<le> m"
  shows "\<exists>ci q' hh'. feed (writeHeaderCallback E) headerLines (rq, w) =
      Some (True, rq\<lparr>cq_pCurlResponse := Some (r\<lparr>cs_callInfo := ci\<rparr>)\<rparr>, w\<lparr>cw_headers := hh'\<rparr>) \<and>
    ci_pResponseHeaders ci = Some q' \<and> ci_responseData ci = ci_responseData (cs_callInfo r) \<and>
    ci_responseDataLen ci = ci_responseDataLen (cs_callInfo r) \<and> live_queue queued hh' q' \<and>
    map (header_pair hh') (queued q') = map (header_pair (cw_headers w)) (queued q) @ List.map_filter (answer_header space) headerLines \<and>
    set (queued q) \<subseteq> set (queued q') \<and>
    (\<forall>x. if x \<in> set (queued q') \<and> x \<notin> set (queued q) then cw_headers w x = None else hh' x = cw_headers w x)"
  using assms(1,4-7)
proof (induction headerLines arbitrary: rq r q w)
  case Nil
  then show ?case
    by (intro exI [of _ "cs_callInfo r"] exI [of _ q] exI [of _ "cw_headers w"]) (simp add: List.map_filter_simps)
next
  case (Cons line ls)
  define hh where "hh = cw_headers w"
  obtain ci q1 hh1 where s: "writeHeaderCallback E line 1 (of_nat (length line)) (Some rq) w =
      Some (of_nat (length line), Some (rq\<lparr>cq_pCurlResponse := Some (r\<lparr>cs_callInfo := ci\<rparr>)\<rparr>), w\<lparr>cw_headers := hh1\<rparr>)"
      "ci_pResponseHeaders ci = Some q1" "ci_responseData ci = ci_responseData (cs_callInfo r)"
      "ci_responseDataLen ci = ci_responseDataLen (cs_callInfo r)"
      "(case answer_header space line of None \<Rightarrow> q1 = q \<and> hh1 = hh
        | Some p \<Rightarrow> \<exists>x h. queued q1 = queued q @ [x] \<and> x \<noteq> 0 \<and> hh x = None \<and> hh1 = hh(x \<mapsto> h) \<and> (rh_pName h, rh_pValue h) = p)"
    using header_callback [OF Cons(3,4) _ assms(2) [rule_format] assms(3), of line w] Cons(2,6) unfolding hh_def by auto
  have q: "live_queue queued hh q" using Cons(5) by (simp add: hh_def)
  have step: "live_queue queued hh1 q1 \<and>
      map (header_pair hh1) (queued q1) = map (header_pair hh) (queued q) @ List.map_filter (answer_header space) [line] \<and>
      set (queued q) \<subseteq> set (queued q1) \<and>
      (\<forall>x. if x \<in> set (queued q1) \<and> x \<notin> set (queued q) then hh x = None else hh1 x = hh x) \<and> card (dom hh1) \<le> card (dom hh) + 1"
  proof (cases "answer_header space line")
    case None
    then show ?thesis using s(5) q by (simp add: List.map_filter_simps)
  next
    case (Some p)
    then obtain x h where x: "queued q1 = queued q @ [x]" "x \<noteq> 0" "hh x = None" "hh1 = hh(x \<mapsto> h)" "(rh_pName h, rh_pValue h) = p"
      using s(5) by auto
    have "x \<notin> set (queued q)" using q x(3) by (auto simp: live_queue_def)
    moreover from this have "map (header_pair hh1) (queued q) = map (header_pair hh) (queued q)" by (auto simp: header_pair_def x(4))
    moreover have "header_pair hh1 x = p" using x(4,5) by (simp add: header_pair_def)
    moreover have "card (dom hh1) \<le> card (dom hh) + 1" by (simp add: x(4) card_insert_if)
    ultimately show ?thesis using q x Some by (auto simp: live_queue_def List.map_filter_simps)
  qed
  define rq1 where "rq1 = rq\<lparr>cq_pCurlResponse := Some (r\<lparr>cs_callInfo := ci\<rparr>)\<rparr>"
  have ok: "\<forall>line\<in>set ls. answer_line_ok space line" "cq_pCurlResponse rq1 = Some (r\<lparr>cs_callInfo := ci\<rparr>)"
      "ci_pResponseHeaders (cs_callInfo (r\<lparr>cs_callInfo := ci\<rparr>)) = Some q1" "live_queue queued (cw_headers (w\<lparr>cw_headers := hh1\<rparr>)) q1"
      "card (dom (cw_headers (w\<lparr>cw_headers := hh1\<rparr>))) + length ls \<le> m"
    using Cons(2,6) s(2) step by (simp_all add: rq1_def hh_def)
  have "\<exists>ci' q' hh'. feed (writeHeaderCallback E) ls (rq1, w\<lparr>cw_headers := hh1\<rparr>) =
      Some (True, rq\<lparr>cq_pCurlResponse := Some (r\<lparr>cs_callInfo := ci'\<rparr>)\<rparr>, w\<lparr>cw_headers := hh'\<rparr>) \<and>
    ci_pResponseHeaders ci' = Some q' \<and> ci_responseData ci' = ci_responseData ci \<and> ci_responseDataLen ci' = ci_responseDataLen ci \<and>
    live_queue queued hh' q' \<and> map (header_pair hh') (queued q') = map (header_pair hh1) (queued q1) @ List.map_filter (answer_header space) ls \<and>
    set (queued q1) \<subseteq> set (queued q') \<and> (\<forall>x. if x \<in> set (queued q') \<and> x \<notin> set (queued q1) then hh1 x = None else hh' x = hh1 x)"
    using Cons(1) [OF ok] by (simp add: rq1_def cong: if_cong)
  then obtain ci' q' hh' where n: "feed (writeHeaderCallback E) ls (rq1, w\<lparr>cw_headers := hh1\<rparr>) =
      Some (True, rq\<lparr>cq_pCurlResponse := Some (r\<lparr>cs_callInfo := ci'\<rparr>)\<rparr>, w\<lparr>cw_headers := hh'\<rparr>)"
      "ci_pResponseHeaders ci' = Some q'" "ci_responseData ci' = ci_responseData ci" "ci_responseDataLen ci' = ci_responseDataLen ci"
      "live_queue queued hh' q'" "map (header_pair hh') (queued q') = map (header_pair hh1) (queued q1) @ List.map_filter (answer_header space) ls"
      "set (queued q1) \<subseteq> set (queued q')" "\<forall>x. if x \<in> set (queued q') \<and> x \<notin> set (queued q1) then hh1 x = None else hh' x = hh1 x"
    by blast
  have fed: "feed (writeHeaderCallback E) (line # ls) (rq, w) =
      Some (True, rq\<lparr>cq_pCurlResponse := Some (r\<lparr>cs_callInfo := ci'\<rparr>)\<rparr>, w\<lparr>cw_headers := hh'\<rparr>)"
    using s(1) n(1) by (simp add: rq1_def)
  have pairs: "map (header_pair hh') (queued q') = map (header_pair hh) (queued q) @ List.map_filter (answer_header space) (line # ls)"
    unfolding n(6) step [THEN conjunct2, THEN conjunct1] by (simp add: List.map_filter_def)
  have dom: "if x \<in> set (queued q') \<and> x \<notin> set (queued q) then hh x = None else hh' x = hh x" for x
    using n(8) [rule_format, of x] step [THEN conjunct2, THEN conjunct2, THEN conjunct2, THEN conjunct1, rule_format, of x] subsetD [OF n(7), of x]
      subsetD [OF step [THEN conjunct2, THEN conjunct2, THEN conjunct1], of x]
    by (cases "x \<in> set (queued q')"; cases "x \<in> set (queued q1)"; cases "x \<in> set (queued q)") simp_all
  have same: "ci_responseData ci' = ci_responseData (cs_callInfo r)" "ci_responseDataLen ci' = ci_responseDataLen (cs_callInfo r)"
    using n(3,4) s(3,4) by simp_all
  have sub: "set (queued q) \<subseteq> set (queued q')" using n(7) step by blast
  show ?case
    by (rule exI [of _ ci'], rule exI [of _ q'], rule exI [of _ hh'])
      (intro conjI allI fed n(2,5) same sub pairs [unfolded hh_def] dom [unfolded hh_def])
qed

end

text \<open>The options of a call: those of the session, and the lines of the headers of the request.\<close>

definition sent_options :: "('l \<Rightarrow> UINT64 list) \<Rightarrow> CURL \<Rightarrow> 'l RequestInfo \<Rightarrow> hheap \<Rightarrow> CURL" where
  "sent_options items opts r hh = opts @ [CURLOPT_HTTPHEADER (map header_text (header_pairs items r hh))]"

text \<open>A response that has received nothing so far, and a curl environment with memory for a number of headers.\<close>

definition awaits_answer :: "('q \<Rightarrow> UINT64 list) \<Rightarrow> 'q CurlResponse \<Rightarrow> bool" where
  "awaits_answer queued r \<longleftrightarrow> cs_pCurlRequest r \<and> cs_pCurl r \<noteq> None \<and>
     (\<exists>q. ci_pResponseHeaders (cs_callInfo r) = Some q \<and> queued q = []) \<and> holds_answer (cs_callInfo r) []"

definition curl_memory :: "('l, 'n, 'q, 'x) curl_env \<Rightarrow> nat \<Rightarrow> bool" where
  "curl_memory E m \<longleftrightarrow> (\<forall>hs t. ku_slistAppend E hs t) \<and> (\<forall>n. ku_memory E n) \<and>
     (\<forall>hh. card (dom hh) < m \<longrightarrow> re_malloc (ku_request E) hh \<noteq> None) \<and>
     (\<forall>q x. fst (stackQueueEnqueue (ku_queue E) q x) = STATUS_SUCCESS)"

context curl_call
begin

lemma call_answer:
  assumes "curl_memory E m" "card (dom (cw_headers w)) + length headerLines \<le> m" "request_inv items (cq_requestInfo rq) (cw_headers w)" "headers_ok (cw_headers w) (header_list items (cq_requestInfo rq))"
    and "cq_pCurlResponse rq = Some r" "awaits_answer queued r" "cq_pCurlApiCallbacks rq \<noteq> None" "\<not> ri_terminating (cq_requestInfo rq)"
    and "\<forall>line\<in>set headerLines. answer_line_ok space line" "length (concat pieces) < 2 ^ 32"
  defines "sent \<equiv> sent_options items (the (cs_pCurl r)) (cq_requestInfo rq) (cw_headers w)"
  shows "\<exists>rq' w' r' ci' q'.
    curlCompleteSync E (\<lambda>opts s. if opts = sent then deliver E headerLines pieces httpStatus s else None) None rq w = Some (STATUS_SUCCESS, rq', w') \<and>
    cq_pCurlResponse rq' = Some r' \<and> holds_answer (cs_callInfo r') (concat pieces) \<and> ci_httpStatus (cs_callInfo r') = httpStatus \<and>
    ci_callResult (cs_callInfo r') = getServiceCallResultFromHttpStatus (ku_consts E) httpStatus \<and>
    ci_pResponseHeaders (cs_callInfo r') = Some q' \<and>
    map (header_pair (cw_headers w')) (queued q') = List.map_filter (answer_header space) headerLines \<and>
    releaseCallInfo (ku_queue E) (Some (cs_callInfo r')) (cw_headers w') = Some (STATUS_SUCCESS, Some ci', cw_headers w)"
proof -
  note mem = assms(1) [unfolded curl_memory_def]
  obtain opts q where r: "cs_pCurlRequest r" "cs_pCurl r = Some opts" "ci_pResponseHeaders (cs_callInfo r) = Some q" "queued q = []"
      "holds_answer (cs_callInfo r) []"
    using assms(6) by (auto simp: awaits_answer_def)
  define hs where "hs = map header_text (header_pairs items (cq_requestInfo rq) (cw_headers w))"
  have sent: "sent = opts @ [CURLOPT_HTTPHEADER hs]" by (simp add: sent_def sent_options_def hs_def r(2))
  obtain shs where shs: "createCurlHeaderList E (Some (cq_requestInfo rq)) True (cw_headers w) = Some (STATUS_SUCCESS, shs)" "slist_items shs = hs"
    using header_list_lines [OF assms(3,4) mem [THEN conjunct1]] unfolding hs_def by blast
  have log_ok: "log_headers hs \<noteq> None"
  proof (rule log_headers_fit)
    show "length hs \<le> MAX_REQUEST_HEADER_COUNT" using assms(3) by (auto simp: hs_def header_pairs_def header_list_def request_inv_def)
    show "\<forall>t\<in>set hs. length t \<le> 2176"
      using assms(4) header_text_length by (fastforce simp: hs_def header_pairs_def headers_ok_def header_pair_def)
  qed
  define r1 where "r1 = r\<lparr>cs_pRequestHeaders := shs, cs_pCurl := Some sent\<rparr>"
  define rq1 where "rq1 = rq\<lparr>cq_pCurlResponse := Some r1, cq_blockedInCurl := True\<rparr>"
  have r1: "cq_pCurlResponse rq1 = Some r1" "ci_pResponseHeaders (cs_callInfo r1) = Some q" "live_queue queued (cw_headers w) q"
    using r(3,4) by (simp_all add: rq1_def r1_def live_queue_def)
  obtain ci1 q' hh' where h: "feed (writeHeaderCallback E) headerLines (rq1, w) =
        Some (True, rq1\<lparr>cq_pCurlResponse := Some (r1\<lparr>cs_callInfo := ci1\<rparr>)\<rparr>, w\<lparr>cw_headers := hh'\<rparr>)"
      "ci_pResponseHeaders ci1 = Some q'" "ci_responseData ci1 = ci_responseData (cs_callInfo r1)"
      "ci_responseDataLen ci1 = ci_responseDataLen (cs_callInfo r1)" "live_queue queued hh' q'"
      "map (header_pair hh') (queued q') = map (header_pair (cw_headers w)) (queued q) @ List.map_filter (answer_header space) headerLines"
      "\<forall>x. if x \<in> set (queued q') \<and> x \<notin> set (queued q) then cw_headers w x = None else hh' x = cw_headers w x"
    using feed_headers [OF assms(9) mem [THEN conjunct2, THEN conjunct2, THEN conjunct1] mem [THEN conjunct2, THEN conjunct2, THEN conjunct2] r1 assms(2)] by blast
  define r2 where "r2 = r1\<lparr>cs_callInfo := ci1\<rparr>"
  define rq2 where "rq2 = rq1\<lparr>cq_pCurlResponse := Some r2\<rparr>"
  have "holds_answer (cs_callInfo r2) []" using r(5) h(3,4) by (simp add: holds_answer_def r1_def r2_def)
  moreover have "length ([] :: string) + length (concat pieces) < 2 ^ 32" using assms(10) by simp
  moreover have "cq_pCurlResponse rq2 = Some r2" "\<not> ri_terminating (cq_requestInfo rq2)" using assms(8) by (simp_all add: rq2_def rq1_def)
  ultimately obtain ci2 where b: "feed (postResponseWriteCallback E) pieces (rq2, w\<lparr>cw_headers := hh'\<rparr>) =
        Some (True, rq2\<lparr>cq_pCurlResponse := Some (r2\<lparr>cs_callInfo := ci2\<rparr>)\<rparr>, w\<lparr>cw_headers := hh'\<rparr>)"
      "holds_answer ci2 ([] @ concat pieces)" "ci_pResponseHeaders ci2 = ci_pResponseHeaders (cs_callInfo r2)"
    using feed_body [of r2 "[]" pieces E rq2 "w\<lparr>cw_headers := hh'\<rparr>"] mem by blast
  define r3 where "r3 = finish_call (ku_consts E) CURLE_OK httpStatus (r2\<lparr>cs_callInfo := ci2\<rparr>)"
  define rq3 where "rq3 = rq2\<lparr>cq_pCurlResponse := Some (r2\<lparr>cs_callInfo := ci2\<rparr>), cq_blockedInCurl := False, cq_pCurlResponse := Some r3\<rparr>"
  have perf: "deliver E headerLines pieces httpStatus (rq1, w) = Some (CURLE_OK, httpStatus, rq2\<lparr>cq_pCurlResponse := Some (r2\<lparr>cs_callInfo := ci2\<rparr>)\<rparr>, w\<lparr>cw_headers := hh'\<rparr>)"
    using h(1) b(1) by (simp add: deliver_def rq2_def r2_def)
  have pre: "cs_pRequestHeaders r3 = shs" "\<not> ri_terminating (cq_requestInfo rq2)"
    using assms(8) by (simp_all add: r3_def finish_call_def r2_def r1_def rq2_def rq1_def)
  have "curlCompleteSync E (\<lambda>opts s. if opts = sent then deliver E headerLines pieces httpStatus s else None) None rq w =
      Some (STATUS_SUCCESS, rq3, w\<lparr>cw_headers := hh'\<rparr>)"
    using assms(5,7,8) r(1,2) shs log_ok pre perf
    by (auto simp: curlCompleteSync_def sent [symmetric] r3_def [symmetric] rq3_def Let_def rq1_def r1_def)
  moreover have "\<exists>ci'. releaseCallInfo (ku_queue E) (Some (cs_callInfo r3)) hh' = Some (STATUS_SUCCESS, Some ci', cw_headers w)"
  proof -
    have "(\<lambda>x. if x \<in> set (queued q') then None else hh' x) = cw_headers w" using h(7) r(4) by (auto simp: fun_eq_iff split: if_splits)
    then show ?thesis using qu.release_headers [of "cs_callInfo r3" q' hh'] h(2,5) b(3) by (auto simp: live_queue_def r3_def r2_def finish_call_def)
  qed
  moreover have "cq_pCurlResponse rq3 = Some r3" "holds_answer (cs_callInfo r3) (concat pieces)" "ci_httpStatus (cs_callInfo r3) = httpStatus"
      "ci_callResult (cs_callInfo r3) = getServiceCallResultFromHttpStatus (ku_consts E) httpStatus"
      "ci_pResponseHeaders (cs_callInfo r3) = Some q'"
      "map (header_pair (cw_headers (w\<lparr>cw_headers := hh'\<rparr>))) (queued q') = List.map_filter (answer_header space) headerLines"
    using b(2,3) h(2,6) r(4) by (simp_all add: rq3_def r3_def r2_def finish_call_def holds_answer_def)
  ultimately show ?thesis by fastforce
qed

end

text \<open>
  C37: one call, from the headers to the answer. A response that has received nothing, and a request
  that is not being terminated, whose headers are as \<open>createRequestHeader\<close> makes them: curl is given
  exactly the lines of the headers in their order (the transport is undefined for other options), and
  when it delivers the lines of an answer and its body in pieces, the call succeeds, the text of the
  answer is the pieces put together, its headers are those of the lines that have a colon, trimmed, the
  result of the call is the one of the status, the log message fits its buffer, and releasing the call
  leaves the live headers as they were.
\<close>

theorem curl_call_answer:
  assumes "curl_call ops items node_at E space queued"
    and "curl_memory E m" "card (dom (cw_headers w)) + length headerLines \<le> m" "request_inv items (cq_requestInfo rq) (cw_headers w)" "headers_ok (cw_headers w) (header_list items (cq_requestInfo rq))"
    and "cq_pCurlResponse rq = Some r" "awaits_answer queued r" "cq_pCurlApiCallbacks rq \<noteq> None" "\<not> ri_terminating (cq_requestInfo rq)"
    and "\<forall>line\<in>set headerLines. answer_line_ok space line" "length (concat pieces) < 2 ^ 32"
  shows "\<exists>rq' w' r' ci' q'.
    curlCompleteSync E (\<lambda>opts s. if opts = sent_options items (the (cs_pCurl r)) (cq_requestInfo rq) (cw_headers w)
      then deliver E headerLines pieces httpStatus s else None) None rq w = Some (STATUS_SUCCESS, rq', w') \<and>
    cq_pCurlResponse rq' = Some r' \<and> holds_answer (cs_callInfo r') (concat pieces) \<and> ci_httpStatus (cs_callInfo r') = httpStatus \<and>
    ci_callResult (cs_callInfo r') = getServiceCallResultFromHttpStatus (ku_consts E) httpStatus \<and>
    ci_pResponseHeaders (cs_callInfo r') = Some q' \<and>
    map (header_pair (cw_headers w')) (queued q') = List.map_filter (answer_header space) headerLines \<and>
    releaseCallInfo (ku_queue E) (Some (cs_callInfo r')) (cw_headers w') = Some (STATUS_SUCCESS, Some ci', cw_headers w)"
  by (rule curl_call.call_answer [OF assms])
subsection \<open>Witnesses\<close>

definition sample_queue :: "UINT64 list stack_queue_ops" where
  "sample_queue = \<lparr>stackQueueGetCount = length, stackQueueEnqueue = (\<lambda>q x. (STATUS_SUCCESS, q @ [x])),
     stackQueueDequeue = (\<lambda>q. case q of [] \<Rightarrow> (STATUS_INVALID_OPERATION, 0, []) | x # xs \<Rightarrow> (STATUS_SUCCESS, x, xs))\<rparr>"

text \<open>A stream that holds pieces of data, each to be read at once when the buffer is large enough.\<close>

definition sample_getData :: "string list \<Rightarrow> STREAM_HANDLE \<Rightarrow> UPLOAD_HANDLE \<Rightarrow> UINT32 \<Rightarrow> STATUS \<times> string \<times> UINT32 \<times> string list" where
  "sample_getData ds h u n = (case ds of
     [] \<Rightarrow> (STATUS_NO_MORE_DATA_AVAILABLE, '''', 0, [])
   | d # ds' \<Rightarrow> if length d \<le> unat n then (STATUS_SUCCESS, d, of_nat (length d), ds') else (STATUS_NO_MORE_DATA_AVAILABLE, '''', 0, ds))"

definition sample_curl_env :: "(UINT64 list, nat, UINT64 list, string list) curl_env" where
  "sample_curl_env = \<lparr>ku_consts = service_call_consts.make 200 400 404 403 400 401 501 500 408 504 598 599 0, ku_RESULT_NOT_SET = 0,
     ku_INFINITE_TIMEOUT = -1, ku_ABORT = 0x10000000, ku_PAUSE = 0x10000001, ku_INVALID_STREAM = -1, ku_utils = plain_utils,
     ku_request = sample_request_env\<lparr>re_malloc := (\<lambda>h. small_calloc h [8, 16, 24, 32, 56])\<rparr>, ku_queue = sample_queue, ku_queueCreate = (STATUS_SUCCESS, Some []), ku_slistAppend = (\<lambda>_ _. True),
     ku_easyInit = True, ku_stat = (\<lambda>p. if p = ''/ca/cert.PEM'' then Some False else None), ku_memory = (\<lambda>_. True), ku_createMutex = Some 1,
     ku_tryLock = True, ku_dumpDir = None, ku_createFile = (\<lambda>_. STATUS_SUCCESS), ku_getData = sample_getData, ku_readHook = None,
     ku_writeFile = (\<lambda>_ _ x. x), ku_writeHook = None, ku_parseAck = (\<lambda>x _ _ _ _. (STATUS_SUCCESS, x))\<rparr>"

interpretation sample_curl: curl_call plain_list_ops "\<lambda>l. l" "\<lambda>l n i. n = i \<and> i < length l" sample_curl_env plain_space "\<lambda>q. q"
proof -
  let ?R = "sample_request_env\<lparr>re_malloc := (\<lambda>h. small_calloc h [8, 16, 24, 32, 56])\<rparr>"
  have e: "ku_request sample_curl_env = ?R" "ku_utils sample_curl_env = plain_utils" "ku_queue sample_curl_env = sample_queue"
    "ku_queueCreate sample_curl_env = (STATUS_SUCCESS, Some [])" by (simp_all add: sample_curl_env_def)
  have q: "stack_queue sample_queue (\<lambda>q. q)" by unfold_locales (auto simp: sample_queue_def)
  have r: "request_list plain_list_ops (\<lambda>l. l) (\<lambda>l n i. n = i \<and> i < length l) ?R"
    by unfold_locales (auto simp: sample_request_env_def small_calloc_def split: if_splits)
  show "curl_call plain_list_ops (\<lambda>l. l) (\<lambda>l n i. n = i \<and> i < length l) sample_curl_env plain_space (\<lambda>q. q)"
    unfolding curl_call_def curl_call_axioms_def e using r plain.platform_utils_axioms q by auto
qed

definition sample_session :: "(UINT64 list, UINT64 list) CurlRequest" where
  "sample_session = \<lparr>cq_blockedInCurl = False, cq_requestInfo = sample_request_info, cq_streamName = ''s'', cq_streaming = True, cq_streamHandle = 5,
     cq_pCurlApiCallbacks = Some 96, cq_pCurlResponse = Some (new_CurlResponse\<lparr>cs_pCurlRequest := True, cs_pCurl := Some [], cs_paused := False,
       cs_callInfo := (cs_callInfo new_CurlResponse)\<lparr>ci_pResponseHeaders := Some []\<rparr>\<rparr>),
     cq_startLock = Some 2, cq_threadId = None, cq_uploadHandle = 7\<rparr>"

definition sample_world :: "string list \<Rightarrow> string list curl_world" where
  "sample_world ds = \<lparr>cw_handles = 1, cw_headers = sample_request_heap, cw_sleeps = [], cw_ext = ds\<rparr>"

theorem sessions_verify_peer_witness:
  "\<exists>opts. initializeCurlSession sample_curl_env (Some (sample_request_info\<lparr>ri_certPath := ''/ca/cert.PEM''\<rparr>)) (Some (cs_callInfo new_CurlResponse)) True
      ''h'' ''r'' ''w'' ''rw'' (sample_world []) = (STATUS_SUCCESS, Some ((cs_callInfo new_CurlResponse)\<lparr>ci_pResponseHeaders := Some []\<rparr>), Some opts,
      (sample_world [])\<lparr>cw_handles := 2\<rparr>) \<and> CURLOPT_SSL_VERIFYPEER 1 \<in> set opts"
proof -
  let ?r = "sample_request_info\<lparr>ri_certPath := ''/ca/cert.PEM''\<rparr>"
  have "requestRequiresSecureConnection (Some (ri_url ?r)) True = (STATUS_SUCCESS, Some True)"
    "length (ri_certPath ?r) \<le> re_maxPath (ku_request sample_curl_env)" by code_simp+
  note P = sessions_verify_peer [OF this, of "cs_callInfo new_CurlResponse" "''h''" "''r''" "''w''" "''rw''" "sample_world []", THEN conjunct1]
  have s: "(case initializeCurlSession sample_curl_env (Some ?r) (Some (cs_callInfo new_CurlResponse)) True ''h'' ''r'' ''w'' ''rw'' (sample_world []) of
      (st, ci, p, w) \<Rightarrow> (st, ci, cw_handles w)) = (STATUS_SUCCESS, Some ((cs_callInfo new_CurlResponse)\<lparr>ci_pResponseHeaders := Some []\<rparr>), 2)" by code_simp
  have "snd (snd (snd (initializeCurlSession sample_curl_env (Some ?r) (Some (cs_callInfo new_CurlResponse)) True ''h'' ''r'' ''w'' ''rw'' (sample_world [])))) =
      (sample_world [])\<lparr>cw_handles := 2\<rparr>"
    by (simp add: initializeCurlSession_def sample_curl_env_def sample_world_def Let_def split: prod.split)
  then show ?thesis using P s by (auto simp: verifies_peer_def split: prod.splits)
qed

lemma sample_reads: "reads_within sample_curl_env"
proof -
  have "sample_getData x h u size = (st, bytes, n, x') \<Longrightarrow> n \<le> size \<and> length bytes = unat n" for x h u size st bytes n x'
  proof (cases x)
    case (Cons d ds)
    assume g: "sample_getData x h u size = (st, bytes, n, x')"
    show ?thesis
    proof (cases "length d \<le> unat size")
      case True
      then have "unat (of_nat (length d) :: UINT32) = length d" by (intro unat_of_nat_small) (use unat_bound [of size] in simp)
      then show ?thesis using g True Cons by (auto simp: sample_getData_def word_le_nat_alt)
    qed (use g Cons in \<open>auto simp: sample_getData_def\<close>)
  qed (auto simp: sample_getData_def)
  then show ?thesis by (auto simp: reads_within_def fetch_data_def sample_curl_env_def split: prod.split)
qed

theorem postReadCallback_outcome_witness:
  "\<exists>bytes rq' w' r' k. postReadCallback sample_curl_env 1 10 (Some sample_session) (sample_world []) = (ku_PAUSE sample_curl_env, bytes, Some rq', w') \<and>
     cq_pCurlResponse rq' = Some r' \<and> cs_paused r' \<and> k < MAX_GET_DATA_ITER \<and> cw_sleeps w' = read_sleeps k"
proof -
  obtain n bytes prq w' where p: "postReadCallback sample_curl_env 1 10 (Some sample_session) (sample_world []) = (n, bytes, prq, w')" by (metis prod_cases4)
  moreover have "(case postReadCallback sample_curl_env 1 10 (Some sample_session) (sample_world []) of (n, b, prq, w) \<Rightarrow> n = ku_PAUSE sample_curl_env \<and> prq \<noteq> None)"
    by code_simp
  ultimately obtain rq' where n: "n = ku_PAUSE sample_curl_env" "prq = Some rq'" by auto
  have c: "cq_pCurlApiCallbacks sample_session \<noteq> None" "(1 :: SIZE_T) * 10 < ku_ABORT sample_curl_env" "(1 :: SIZE_T) * 10 < ku_PAUSE sample_curl_env"
    "(1 :: SIZE_T) * 10 < 2 ^ 32" "ku_ABORT sample_curl_env \<noteq> ku_PAUSE sample_curl_env" by code_simp+
  obtain r where r: "cq_pCurlResponse sample_session = Some r" by (simp add: sample_session_def)
  show ?thesis
    using postReadCallback_outcome [OF p [unfolded n(2)] sample_reads r c] p n by (auto simp: sample_world_def)
qed

theorem curl_call_answer_witness:
  "\<exists>rq' w' r' q'. curlCompleteSync sample_curl_env (\<lambda>opts s. if opts = [CURLOPT_HTTPHEADER [''host: h'', ''X-Amz: v'']]
      then deliver sample_curl_env [''HTTP/1.1 200 OK'', ''x-a:  b '', ''''] [''{}'', ''x''] 200 s else None) None sample_session (sample_world []) =
      Some (STATUS_SUCCESS, rq', w') \<and> cq_pCurlResponse rq' = Some r' \<and> holds_answer (cs_callInfo r') ''{}x'' \<and>
    ci_pResponseHeaders (cs_callInfo r') = Some q' \<and> map (header_pair (cw_headers w')) q' = [(''x-a'', ''b'')]"
proof -
  let ?ls = "[''HTTP/1.1 200 OK'', ''x-a:  b '', '''']" and ?ps = "[''{}'', ''x'']"
  have "small_calloc h [8, 16, 24, 32, 56] \<noteq> None" if "card (dom h) < 5" for h :: hheap
  proof
    assume "small_calloc h [8, 16, 24, 32, 56] = None"
    then have "{8, 16, 24, 32, 56} \<subseteq> dom h" by (auto simp: small_calloc_def split: if_splits)
    then have "card {8, 16, 24, 32, 56 :: UINT64} \<le> card (dom h)" by (intro card_mono) auto
    then show False using that by simp
  qed
  then have mem: "curl_memory sample_curl_env 5" by (auto simp: curl_memory_def sample_curl_env_def sample_request_env_def sample_queue_def)
  have pairs: "header_pairs (\<lambda>l. l) sample_request_info sample_request_heap = [(''host'', ''h''), (''X-Amz'', ''v'')]" by code_simp
  have inv: "request_inv (\<lambda>l. l) (cq_requestInfo sample_session) (cw_headers (sample_world []))"
    using sample_request_inv by (simp add: sample_session_def sample_world_def)
  have hok: "headers_ok (cw_headers (sample_world [])) (header_list (\<lambda>l. l) (cq_requestInfo sample_session))" 
  proof -
    have "\<forall>x\<in>set [40, 48]. case sample_request_heap x of None \<Rightarrow> False | Some h \<Rightarrow> header_ok h" by code_simp
    then show ?thesis by (auto simp: headers_ok_def sample_session_def sample_world_def sample_header_list split: option.splits)
  qed
  have room: "card (dom (cw_headers (sample_world []))) + length ?ls \<le> 5" by (simp add: sample_world_def sample_request_heap_def)
  obtain r where r: "cq_pCurlResponse sample_session = Some r" "the (cs_pCurl r) = []" "awaits_answer (\<lambda>q. q) r"
    by (simp add: sample_session_def awaits_answer_def holds_answer_def new_CurlResponse_def)
  have more: "cq_pCurlApiCallbacks sample_session \<noteq> None" "\<not> ri_terminating (cq_requestInfo sample_session)"
    "\<forall>line\<in>set ?ls. answer_line_ok plain_space line" "length (concat ?ps) < 2 ^ 32" by code_simp+
  have sent: "sent_options (\<lambda>l. l) (the (cs_pCurl r)) (cq_requestInfo sample_session) (cw_headers (sample_world [])) =
      [CURLOPT_HTTPHEADER [''host: h'', ''X-Amz: v'']]"
    by (simp add: sent_options_def r(2) sample_session_def sample_world_def pairs header_text_def REQUEST_HEADER_DELIMITER_def)
  have "List.map_filter (answer_header plain_space) ?ls = [(''x-a'', ''b'')]" "concat ?ps = ''{}x''" by code_simp+
  then show ?thesis
    using curl_call_answer [OF sample_curl.curl_call_axioms mem room inv hok r(1,3) more, of 200, unfolded sent] by fastforce
qed

end
