(* ===== verification/Jsmn.thy ===== *)
theory Jsmn
  imports Timestamps Aws_Credentials
begin

text \<open>
  The JSON tokenizer that parses the answers of the service (\<open>common/jsmn.h\<close>), as it is compiled here:
  not strict and without parent links. The array of tokens is the list of the tokens that were
  allocated, so that \<open>toknext\<close> is its length; it is \<open>None\<close> for NULL, when the tokens are only counted.
  Positions are numbers: a text of \<open>2 ^ 31\<close> characters or more, whose positions do not fit the fields
  of a token, is undefined. A parse function gives an error or goes on.
\<close>

datatype jsmnerr = JSMN_ERROR_NOMEM | JSMN_ERROR_INVAL | JSMN_ERROR_PART

definition jsmnerr_value :: "jsmnerr \<Rightarrow> int" where
  "jsmnerr_value e = (case e of JSMN_ERROR_NOMEM \<Rightarrow> -1 | JSMN_ERROR_INVAL \<Rightarrow> -2 | JSMN_ERROR_PART \<Rightarrow> -3)"

record jsmn_parser =
  jp_pos :: nat
  jp_toksuper :: int
  jp_tokens :: "jsmntok_t list option"

definition jsmn_init :: "jsmntok_t list option \<Rightarrow> jsmn_parser" where
  "jsmn_init toks = \<lparr>jp_pos = 0, jp_toksuper = -1, jp_tokens = toks\<rparr>"

definition jsmn_alloc_token :: "nat \<Rightarrow> jsmntok_t list \<Rightarrow> jsmntok_t \<Rightarrow> jsmntok_t list option" where
  "jsmn_alloc_token num_tokens tokens tok = (if length tokens \<ge> num_tokens then None else Some (tokens @ [tok]))"

definition jsmn_fill_token :: "jsmntype_t \<Rightarrow> int \<Rightarrow> int \<Rightarrow> jsmntok_t" where
  "jsmn_fill_token ty start end' = \<lparr>tok_type = ty, tok_start = start, tok_end = end', tok_size = 0\<rparr>"

text \<open>\<open>tokens[toksuper].size++\<close>\<close>

definition count_child :: "int \<Rightarrow> jsmntok_t list \<Rightarrow> jsmntok_t list" where
  "count_child toksuper tokens =
     (if toksuper = -1 then tokens
      else tokens[nat toksuper := (tokens ! nat toksuper)\<lparr>tok_size := tok_size (tokens ! nat toksuper) + 1\<rparr>])"

subsection \<open>Primitives\<close>

definition primitive_stops :: string where
  "primitive_stops = [CHR '':'', CHR 0x09, CHR 0x0D, CHR 0x0A, CHR '' '', CHR '','', CHR '']'', CHR ''}'']"

text \<open>The position at which the primitive ends, or an error.\<close>

function primitive_end :: "string \<Rightarrow> nat \<Rightarrow> nat \<Rightarrow> jsmnerr + nat" where
  "primitive_end js len pos =
     (if pos < len \<and> js ! pos \<noteq> NUL
      then if js ! pos \<in> set primitive_stops then Inr pos
           else if code (js ! pos) < 32 \<or> code (js ! pos) \<ge> 127 then Inl JSMN_ERROR_INVAL
           else primitive_end js len (pos + 1)
      else Inr pos)"
  by pat_completeness auto

termination by (relation "measure (\<lambda>(js, len, pos). len - pos)") auto

declare primitive_end.simps [simp del]

definition jsmn_parse_primitive :: "string \<Rightarrow> nat \<Rightarrow> nat \<Rightarrow> jsmn_parser \<Rightarrow> jsmnerr + jsmn_parser" where
  "jsmn_parse_primitive js len num_tokens p = (case primitive_end js len (jp_pos p) of
     Inl e \<Rightarrow> Inl e
   | Inr pos \<Rightarrow> (case jp_tokens p of
       None \<Rightarrow> Inr (p\<lparr>jp_pos := pos - 1\<rparr>)
     | Some ts \<Rightarrow>
         (case jsmn_alloc_token num_tokens ts (jsmn_fill_token JSMN_PRIMITIVE (int (jp_pos p)) (int pos)) of
            None \<Rightarrow> Inl JSMN_ERROR_NOMEM
          | Some ts' \<Rightarrow> Inr (p\<lparr>jp_pos := pos - 1, jp_tokens := Some ts'\<rparr>))))"

subsection \<open>Strings\<close>

definition is_hex :: "char \<Rightarrow> bool" where
  "is_hex c \<longleftrightarrow> 48 \<le> code c \<and> code c \<le> 57 \<or> 65 \<le> code c \<and> code c \<le> 70 \<or> 97 \<le> code c \<and> code c \<le> 102"

fun hex_digits :: "string \<Rightarrow> nat \<Rightarrow> nat \<Rightarrow> nat \<Rightarrow> nat option" where
  "hex_digits js len 0 pos = Some pos"
| "hex_digits js len (Suc i) pos =
     (if pos < len \<and> js ! pos \<noteq> NUL then if is_hex (js ! pos) then hex_digits js len i (pos + 1) else None else Some pos)"

lemma hex_digits_le: "hex_digits js len i pos = Some pos' \<Longrightarrow> pos \<le> pos' \<and> (pos \<le> len \<longrightarrow> pos' \<le> len)"
  by (induction js len i pos rule: hex_digits.induct) (auto split: if_splits)

text \<open>The position of the closing quote, or an error.\<close>

function string_end :: "string \<Rightarrow> nat \<Rightarrow> nat \<Rightarrow> jsmnerr + nat" where
  "string_end js len pos =
     (if pos < len \<and> js ! pos \<noteq> NUL
      then if js ! pos = CHR 0x22 then Inr pos
           else if js ! pos = CHR 0x5C \<and> pos + 1 < len
           then if js ! (pos + 1) \<in> {CHR 0x22, CHR ''/'', CHR 0x5C, CHR ''b'', CHR ''f'', CHR ''r'', CHR ''n'', CHR ''t''}
                then string_end js len (pos + 2)
                else if js ! (pos + 1) = CHR ''u''
                then (case hex_digits js len 4 (pos + 2) of
                        None \<Rightarrow> Inl JSMN_ERROR_INVAL
                      | Some pos' \<Rightarrow> string_end js len pos')
                else Inl JSMN_ERROR_INVAL
           else string_end js len (pos + 1)
      else Inl JSMN_ERROR_PART)"
  by pat_completeness auto

termination
  by (relation "measure (\<lambda>(js, len, pos). len - pos)") (auto dest: hex_digits_le)

declare string_end.simps [simp del]

definition jsmn_parse_string :: "string \<Rightarrow> nat \<Rightarrow> nat \<Rightarrow> jsmn_parser \<Rightarrow> jsmnerr + jsmn_parser" where
  "jsmn_parse_string js len num_tokens p = (case string_end js len (jp_pos p + 1) of
     Inl e \<Rightarrow> Inl e
   | Inr pos \<Rightarrow> (case jp_tokens p of
       None \<Rightarrow> Inr (p\<lparr>jp_pos := pos\<rparr>)
     | Some ts \<Rightarrow>
         (case jsmn_alloc_token num_tokens ts (jsmn_fill_token JSMN_STRING (int (jp_pos p) + 1) (int pos)) of
            None \<Rightarrow> Inl JSMN_ERROR_NOMEM
          | Some ts' \<Rightarrow> Inr (p\<lparr>jp_pos := pos, jp_tokens := Some ts'\<rparr>))))"

subsection \<open>Objects and arrays\<close>

definition is_open :: "jsmntok_t \<Rightarrow> bool" where
  "is_open t \<longleftrightarrow> tok_start t \<noteq> -1 \<and> tok_end t = -1"

text \<open>The last token among the first \<open>i\<close> that satisfies a condition, as the loops from the end find it.\<close>

fun last_token :: "(jsmntok_t \<Rightarrow> bool) \<Rightarrow> jsmntok_t list \<Rightarrow> nat \<Rightarrow> int" where
  "last_token P tokens 0 = -1"
| "last_token P tokens (Suc i) = (if P (tokens ! i) then int i else last_token P tokens i)"

definition open_bracket :: "char \<Rightarrow> nat \<Rightarrow> jsmn_parser \<Rightarrow> jsmnerr + jsmn_parser" where
  "open_bracket c num_tokens p = (case jp_tokens p of
     None \<Rightarrow> Inr p
   | Some ts \<Rightarrow>
       (case jsmn_alloc_token num_tokens ts \<lparr>tok_type = (if c = CHR ''{'' then JSMN_OBJECT else JSMN_ARRAY),
             tok_start = int (jp_pos p), tok_end = -1, tok_size = 0\<rparr> of
          None \<Rightarrow> Inl JSMN_ERROR_NOMEM
        | Some ts' \<Rightarrow> Inr (p\<lparr>jp_tokens := Some (count_child (jp_toksuper p) ts'), jp_toksuper := int (length ts') - 1\<rparr>)))"

definition close_bracket :: "char \<Rightarrow> jsmn_parser \<Rightarrow> jsmnerr + jsmn_parser" where
  "close_bracket c p = (case jp_tokens p of
     None \<Rightarrow> Inr p
   | Some ts \<Rightarrow>
       let i = last_token is_open ts (length ts) in
       if i = -1 then Inl JSMN_ERROR_INVAL
       else if tok_type (ts ! nat i) \<noteq> (if c = CHR ''}'' then JSMN_OBJECT else JSMN_ARRAY) then Inl JSMN_ERROR_INVAL
       else let ts' = ts[nat i := (ts ! nat i)\<lparr>tok_end := int (jp_pos p) + 1\<rparr>]
            in Inr (p\<lparr>jp_tokens := Some ts', jp_toksuper := last_token is_open ts' (nat i + 1)\<rparr>))"

definition is_container :: "jsmntok_t \<Rightarrow> bool" where
  "is_container t \<longleftrightarrow> tok_type t = JSMN_ARRAY \<or> tok_type t = JSMN_OBJECT"

definition next_member :: "jsmn_parser \<Rightarrow> jsmn_parser" where
  "next_member p = (case jp_tokens p of
     None \<Rightarrow> p
   | Some ts \<Rightarrow>
       if jp_toksuper p \<noteq> -1 \<and> \<not> is_container (ts ! nat (jp_toksuper p))
       then let i = last_token (\<lambda>t. is_container t \<and> is_open t) ts (length ts)
            in if i = -1 then p else p\<lparr>jp_toksuper := i\<rparr>
       else p)"

subsection \<open>The parser\<close>

text \<open>
  One turn of the loop of \<open>jsmn_parse\<close>, without the step to the next position: the number of tokens it
  counts, and the parser.
\<close>

definition count_in_super :: "jsmn_parser \<Rightarrow> jsmn_parser" where
  "count_in_super p = p\<lparr>jp_tokens := map_option (count_child (jp_toksuper p)) (jp_tokens p)\<rparr>"

definition tokens_length :: "jsmn_parser \<Rightarrow> int" where
  "tokens_length p = (case jp_tokens p of None \<Rightarrow> 0 | Some ts \<Rightarrow> int (length ts))"

definition jsmn_step :: "string \<Rightarrow> nat \<Rightarrow> nat \<Rightarrow> jsmn_parser \<Rightarrow> jsmnerr + (nat \<times> jsmn_parser)" where
  "jsmn_step js len num_tokens p =
     (let c = js ! jp_pos p in
      if c = CHR ''{'' \<or> c = CHR ''['' then map_sum id (Pair 1) (open_bracket c num_tokens p)
      else if c = CHR ''}'' \<or> c = CHR '']'' then map_sum id (Pair 0) (close_bracket c p)
      else if c = CHR 0x22 then map_sum id (\<lambda>p'. (1, count_in_super p')) (jsmn_parse_string js len num_tokens p)
      else if c \<in> {CHR 0x09, CHR 0x0D, CHR 0x0A, CHR '' ''} then Inr (0, p)
      else if c = CHR '':'' then Inr (0, p\<lparr>jp_toksuper := tokens_length p - 1\<rparr>)
      else if c = CHR '','' then Inr (0, next_member p)
      else map_sum id (\<lambda>p'. (1, count_in_super p')) (jsmn_parse_primitive js len num_tokens p))"

lemma primitive_end_ge: "primitive_end js len pos = Inr pos' \<Longrightarrow> pos \<le> pos' \<and> (pos \<le> len \<longrightarrow> pos' \<le> len)"
proof (induction js len pos rule: primitive_end.induct)
  case (1 js len pos)
  show ?case
    using 1(1) 1(2) [unfolded primitive_end.simps [of js len pos]] by (fastforce split: if_splits)
qed

lemma string_end_ge: "string_end js len pos = Inr pos' \<Longrightarrow> pos \<le> pos' \<and> pos' < len \<and> js ! pos' = CHR 0x22"
proof (induction js len pos rule: string_end.induct)
  case (1 js len pos)
  show ?case
    using 1(1-3) 1(4) [unfolded string_end.simps [of js len pos]] by (fastforce split: if_splits option.splits dest: hex_digits_le)
qed

lemma primitive_end_gt: "\<lbrakk>primitive_end js len pos = Inr pos'; pos < len; js ! pos \<noteq> NUL; js ! pos \<notin> set primitive_stops\<rbrakk> \<Longrightarrow> pos < pos'"
  using primitive_end_ge [of js len "pos + 1" pos'] by (subst (asm) primitive_end.simps) (auto split: if_splits)

lemma map_sum_Inr: "map_sum id f x = Inr y \<longleftrightarrow> (\<exists>z. x = Inr z \<and> y = f z)"
  by (cases x) auto

lemma jsmn_step_pos:
  assumes "jsmn_step js len num_tokens p = Inr (n, p')" "jp_pos p < len" "js ! jp_pos p \<noteq> NUL"
  shows "jp_pos p \<le> jp_pos p'"
proof -
  have "jp_pos p \<le> jp_pos p'" if "jsmn_parse_string js len num_tokens p = Inr p'" for p'
    using that string_end_ge [of js len "jp_pos p + 1"] by (fastforce simp: jsmn_parse_string_def split: sum.splits option.splits)
  moreover have "jp_pos p \<le> jp_pos p'" if "js ! jp_pos p \<notin> set primitive_stops" "jsmn_parse_primitive js len num_tokens p = Inr p'" for p'
    using that primitive_end_gt [OF _ assms(2,3)] by (fastforce simp: jsmn_parse_primitive_def split: sum.splits option.splits)
  ultimately show ?thesis
    using assms(1) unfolding jsmn_step_def Let_def
    by (auto simp: map_sum_Inr primitive_stops_def open_bracket_def close_bracket_def next_member_def count_in_super_def Let_def
        split: if_splits option.splits sum.splits)
qed

text \<open>
  The loop, and the check behind it that no object or array is open. The result is the number of
  tokens or an error, and the parser.
\<close>

function jsmn_loop :: "string \<Rightarrow> nat \<Rightarrow> nat \<Rightarrow> nat \<Rightarrow> jsmn_parser \<Rightarrow> jsmnerr + (nat \<times> jsmn_parser)" where
  "jsmn_loop js len num_tokens count p =
     (if jp_pos p < len \<and> js ! jp_pos p \<noteq> NUL
      then (case jsmn_step js len num_tokens p of
          Inl e \<Rightarrow> Inl e
        | Inr (n, p') \<Rightarrow> jsmn_loop js len num_tokens (count + n) (p'\<lparr>jp_pos := jp_pos p' + 1\<rparr>))
      else Inr (count, p))"
  by pat_completeness auto

termination
  by (relation "measure (\<lambda>(js, len, num_tokens, count, p). len - jp_pos p)") (auto dest: jsmn_step_pos)

declare jsmn_loop.simps [simp del]

definition jsmn_parse :: "jsmn_parser \<Rightarrow> string \<Rightarrow> nat \<Rightarrow> nat \<Rightarrow> (int \<times> jsmntok_t list) option" where
  "jsmn_parse parser js len num_tokens =
     (if len > length js \<or> len \<ge> 2 ^ 31 then None
      else (case jsmn_loop js len num_tokens (nat (tokens_length parser)) parser of
          Inl e \<Rightarrow> Some (jsmnerr_value e, [])
        | Inr (count, p) \<Rightarrow> (case jp_tokens p of
            None \<Rightarrow> Some (int count, [])
          | Some ts \<Rightarrow>
              if last_token is_open ts (length ts) \<noteq> -1 then Some (jsmnerr_value JSMN_ERROR_PART, ts)
              else Some (int count, ts))))"

text \<open>The parser on a whole text, as the sources use it.\<close>

definition jsmn_tokens :: "string \<Rightarrow> nat \<Rightarrow> nat \<Rightarrow> (int \<times> jsmntok_t list) option" where
  "jsmn_tokens js len num_tokens = jsmn_parse (jsmn_init (Some [])) js len num_tokens"

subsection \<open>Every token lies in the text\<close>

definition token_ok :: "nat \<Rightarrow> nat \<Rightarrow> jsmntok_t \<Rightarrow> bool" where
  "token_ok len pos t \<longleftrightarrow> tok_type t \<noteq> JSMN_UNDEFINED \<and> 0 \<le> tok_start t \<and>
     (if tok_end t = -1 then tok_start t < int pos else tok_start t \<le> tok_end t \<and> tok_end t \<le> int len)"

definition parser_ok :: "nat \<Rightarrow> nat \<Rightarrow> nat \<Rightarrow> jsmn_parser \<Rightarrow> bool" where
  "parser_ok len num_tokens count p \<longleftrightarrow> (\<exists>ts. jp_tokens p = Some ts \<and> count = length ts \<and> length ts \<le> num_tokens \<and>
     -1 \<le> jp_toksuper p \<and> jp_toksuper p < int (length ts) \<and> (\<forall>t\<in>set ts. token_ok len (jp_pos p) t))"

lemma last_token_bounds: "-1 \<le> last_token P ts i \<and> last_token P ts i < int i"
  by (induction i) auto

lemma last_token_sat: "last_token P ts i \<noteq> -1 \<Longrightarrow> P (ts ! nat (last_token P ts i)) \<and> nat (last_token P ts i) < i"
  by (induction i) (auto split: if_splits)

lemma last_token_none: "last_token P ts i = -1 \<longleftrightarrow> (\<forall>j<i. \<not> P (ts ! j))"
  by (induction i) (auto simp: less_Suc_eq)

lemma count_child_length [simp]: "length (count_child s ts) = length ts"
  by (simp add: count_child_def)

lemma count_child_ok:
  assumes "\<forall>t\<in>set ts. token_ok len pos t" "-1 \<le> s" "s < int (length ts)"
  shows "\<forall>t\<in>set (count_child s ts). token_ok len pos t"
proof (cases "s = -1")
  case False
  then have "ts ! nat s \<in> set ts" using assms(2,3) by simp
  then have "token_ok len pos ((ts ! nat s)\<lparr>tok_size := tok_size (ts ! nat s) + 1\<rparr>)" using assms(1) by (simp add: token_ok_def)
  then show ?thesis using assms(1) False by (auto simp: count_child_def dest!: set_update_subset_insert [THEN subsetD])
qed (use assms in \<open>simp add: count_child_def\<close>)

lemma token_ok_mono: "\<lbrakk>token_ok len pos t; pos \<le> pos'\<rbrakk> \<Longrightarrow> token_ok len pos' t"
  by (auto simp: token_ok_def split: if_splits)

lemma add_token_ok:
  assumes "parser_ok len num_tokens count p" "jp_tokens p = Some ts" "jsmn_alloc_token num_tokens ts (jsmn_fill_token ty a b) = Some ts'"
    and "ty \<noteq> JSMN_UNDEFINED" "0 \<le> a" "a \<le> b" "b \<le> int len" "jp_pos p \<le> pos"
  shows "parser_ok len num_tokens (count + 1) (count_in_super (p\<lparr>jp_pos := pos, jp_tokens := Some ts'\<rparr>))"
proof -
  have ts': "ts' = ts @ [jsmn_fill_token ty a b]" "length ts < num_tokens" using assms(3) by (auto simp: jsmn_alloc_token_def split: if_splits)
  have "\<forall>t\<in>set ts. token_ok len pos t" using assms(1,2,8) token_ok_mono by (fastforce simp: parser_ok_def)
  then have "\<forall>t\<in>set ts'. token_ok len pos t" using assms(4-7) by (auto simp: ts' token_ok_def jsmn_fill_token_def)
  then have "\<forall>t\<in>set (count_child (jp_toksuper p) ts'). token_ok len pos t"
    by (rule count_child_ok) (use assms(1,2) ts' in \<open>auto simp: parser_ok_def\<close>)
  then show ?thesis using assms(1,2) ts' by (auto simp: parser_ok_def count_in_super_def)
qed

lemma jsmn_step_ok:
  assumes "parser_ok len num_tokens count p" "jsmn_step js len num_tokens p = Inr (n, p')" "jp_pos p < len" "js ! jp_pos p \<noteq> NUL"
  shows "parser_ok len num_tokens (count + n) (p'\<lparr>jp_pos := jp_pos p' + 1\<rparr>)"
proof -
  define c where "c = js ! jp_pos p"
  obtain ts where ts: "jp_tokens p = Some ts" "count = length ts" "length ts \<le> num_tokens" "-1 \<le> jp_toksuper p"
      "jp_toksuper p < int (length ts)" "\<forall>t\<in>set ts. token_ok len (jp_pos p) t"
    using assms(1) by (auto simp: parser_ok_def)
  have ok1: "\<forall>t\<in>set ts. token_ok len (jp_pos p + 1) t" using ts(6) token_ok_mono by fastforce
  have fwd: "parser_ok len num_tokens k (q\<lparr>jp_pos := jp_pos q + 1\<rparr>)" if "parser_ok len num_tokens k q" for k q
    using that token_ok_mono by (fastforce simp: parser_ok_def)
  consider (opens) "c = CHR ''{'' \<or> c = CHR ''[''" | (closes) "c = CHR ''}'' \<or> c = CHR '']''" | (str) "c = CHR 0x22"
    | (skip) "c \<in> {CHR 0x09, CHR 0x0D, CHR 0x0A, CHR '' '', CHR '':'', CHR '',''}"
    | (prim) "c \<notin> set primitive_stops \<union> {CHR ''{'', CHR ''['', CHR 0x22}"
    unfolding primitive_stops_def by auto
  then show ?thesis
  proof cases
    case opens
    define tok where "tok = \<lparr>tok_type = (if c = CHR ''{'' then JSMN_OBJECT else JSMN_ARRAY), tok_start = int (jp_pos p), tok_end = -1, tok_size = 0\<rparr>"
    have "length ts < num_tokens \<and> n = 1 \<and>
        p' = p\<lparr>jp_tokens := Some (count_child (jp_toksuper p) (ts @ [tok])), jp_toksuper := int (length ts)\<rparr>"
      using assms(2) opens ts(1)
      by (auto simp: jsmn_step_def c_def [symmetric] tok_def [symmetric] open_bracket_def jsmn_alloc_token_def Let_def split: if_splits)
    moreover have "\<forall>t\<in>set (count_child (jp_toksuper p) (ts @ [tok])). token_ok len (jp_pos p + 1) t"
      by (rule count_child_ok) (use ok1 ts(4,5) in \<open>auto simp: token_ok_def tok_def\<close>)
    ultimately show ?thesis using ts by (simp add: parser_ok_def)
  next
    case closes
    define i where "i = last_token is_open ts (length ts)"
    have "p' = p\<lparr>jp_tokens := Some (ts[nat i := (ts ! nat i)\<lparr>tok_end := int (jp_pos p) + 1\<rparr>]),
        jp_toksuper := last_token is_open (ts[nat i := (ts ! nat i)\<lparr>tok_end := int (jp_pos p) + 1\<rparr>]) (nat i + 1)\<rparr> \<and> n = 0 \<and> i \<noteq> -1"
      using assms(2) closes ts(1) by (auto simp: jsmn_step_def c_def [symmetric] close_bracket_def i_def [symmetric] Let_def split: if_splits)
    note step = this
    from step have i: "is_open (ts ! nat i)" "nat i < length ts" using last_token_sat [of is_open ts "length ts"] by (auto simp: i_def)
    have "token_ok len (jp_pos p) (ts ! nat i)" using ts(6) nth_mem [OF i(2)] by blast
    then have upd: "token_ok len (jp_pos p + 1) ((ts ! nat i)\<lparr>tok_end := int (jp_pos p) + 1\<rparr>)"
      using assms(3) i(1) by (auto simp: token_ok_def is_open_def split: if_splits)
    define sup where "sup = last_token is_open (ts[nat i := (ts ! nat i)\<lparr>tok_end := int (jp_pos p) + 1\<rparr>]) (nat i + 1)"
    have sup: "-1 \<le> sup" "sup < int (length ts)"
      using i(2) last_token_bounds [of is_open "ts[nat i := (ts ! nat i)\<lparr>tok_end := int (jp_pos p) + 1\<rparr>]" "nat i + 1"] unfolding sup_def by linarith+
    show ?thesis
      using step [folded sup_def] sup upd ok1 ts i(2)
      by (auto simp: parser_ok_def dest!: set_update_subset_insert [THEN subsetD])
  next
    case str
    obtain pos where e: "string_end js len (jp_pos p + 1) = Inr pos"
      using assms(2) str by (auto simp: jsmn_step_def c_def [symmetric] map_sum_Inr jsmn_parse_string_def split: sum.splits)
    obtain ts' where t: "jsmn_alloc_token num_tokens ts (jsmn_fill_token JSMN_STRING (int (jp_pos p) + 1) (int pos)) = Some ts'"
        "n = 1" "p' = count_in_super (p\<lparr>jp_pos := pos, jp_tokens := Some ts'\<rparr>)"
      using assms(2) str e ts(1) by (auto simp: jsmn_step_def c_def [symmetric] map_sum_Inr jsmn_parse_string_def split: option.splits)
    show ?thesis
      unfolding t(2,3) by (rule fwd, rule add_token_ok [OF assms(1) ts(1) t(1)]) (use string_end_ge [OF e] in auto)
  next
    case skip
    have "parser_ok len num_tokens count p'" "n = 0" "jp_pos p' = jp_pos p"
      using assms(1,2) skip ts(1,4,5) last_token_bounds [of "\<lambda>t. is_container t \<and> is_open t" ts "length ts"]
      by (auto simp: jsmn_step_def c_def [symmetric] parser_ok_def next_member_def tokens_length_def Let_def split: if_splits)
    then show ?thesis using fwd [of count p'] by simp
  next
    case prim
    obtain pos where e: "primitive_end js len (jp_pos p) = Inr pos"
      using assms(2) prim by (auto simp: jsmn_step_def c_def [symmetric] primitive_stops_def map_sum_Inr jsmn_parse_primitive_def split: sum.splits)
    then have pos: "jp_pos p < pos" "pos \<le> len"
      using primitive_end_gt [OF e assms(3,4)] primitive_end_ge [OF e] prim assms(3) by (auto simp: c_def)
    obtain ts' where t: "jsmn_alloc_token num_tokens ts (jsmn_fill_token JSMN_PRIMITIVE (int (jp_pos p)) (int pos)) = Some ts'"
        "n = 1" "p' = count_in_super (p\<lparr>jp_pos := pos - 1, jp_tokens := Some ts'\<rparr>)"
      using assms(2) prim e ts(1)
      by (auto simp: jsmn_step_def c_def [symmetric] primitive_stops_def map_sum_Inr jsmn_parse_primitive_def split: option.splits)
    show ?thesis
      unfolding t(2,3) by (rule fwd, rule add_token_ok [OF assms(1) ts(1) t(1)]) (use pos in auto)
  qed
qed

lemma jsmn_loop_ok:
  assumes "jsmn_loop js len num_tokens count p = Inr (n, p')" "parser_ok len num_tokens count p"
  shows "parser_ok len num_tokens n p'"
  using assms
proof (induction js len num_tokens count p rule: jsmn_loop.induct)
  case (1 js len num_tokens count p)
  show ?case
    using 1(1) 1(2) [unfolded jsmn_loop.simps [of js len num_tokens count p]] 1(3) jsmn_step_ok
    by (fastforce split: if_splits sum.splits prod.splits)
qed

text \<open>
  C40: the tokens of a text. When the parser reports a number of tokens, it is the number of tokens it
  stored, which fit the array, and each of them has a type and lies within the text.
\<close>

theorem jsmn_tokens_within:
  assumes "jsmn_tokens js len num_tokens = Some (n, ts)" "n \<ge> 0"
  shows "n = int (length ts) \<and> length ts \<le> num_tokens \<and>
    (\<forall>t\<in>set ts. tok_type t \<noteq> JSMN_UNDEFINED \<and> 0 \<le> tok_start t \<and> tok_start t \<le> tok_end t \<and> tok_end t \<le> int len)"
proof -
  have e: "jsmnerr_value e < 0" for e by (simp add: jsmnerr_value_def split: jsmnerr.split)
  have init: "parser_ok len num_tokens 0 (jsmn_init (Some []))" by (simp add: parser_ok_def jsmn_init_def)
  obtain count p where l: "jsmn_loop js len num_tokens 0 (jsmn_init (Some [])) = Inr (count, p)"
    using assms e by (auto simp: jsmn_tokens_def jsmn_parse_def tokens_length_def jsmn_init_def split: if_splits sum.splits) (metis not_le)
  obtain ts' where p: "jp_tokens p = Some ts'" "count = length ts'" "length ts' \<le> num_tokens" "\<forall>t\<in>set ts'. token_ok len (jp_pos p) t"
    using jsmn_loop_ok [OF l init] by (auto simp: parser_ok_def)
  have closed: "last_token is_open ts' (length ts') = -1" "ts = ts'" "n = int count"
    using assms l p(1) e [of JSMN_ERROR_PART]
    by (auto simp: jsmn_tokens_def jsmn_parse_def tokens_length_def jsmn_init_def split: if_splits)
  have "tok_start t \<le> tok_end t \<and> tok_end t \<le> int len" if "t \<in> set ts'" for t
  proof -
    have ok: "token_ok len (jp_pos p) t" using p(4) that by blast
    then obtain j where "j < length ts'" "ts' ! j = t" using \<open>t \<in> set ts'\<close> unfolding in_set_conv_nth by blast
    then have "\<not> is_open t" using closed(1) last_token_none [of is_open ts' "length ts'"] by auto
    then show ?thesis using ok by (auto simp: token_ok_def is_open_def split: if_splits)
  qed
  then show ?thesis using closed p by (auto simp: token_ok_def)
qed

lemma jsmn_tokens_within_witness:
  "(case jsmn_tokens ''[ 12]'' 5 10 of
      Some (n, ts) \<Rightarrow> n = 2 \<and> n = int (length ts) \<and> length ts \<le> 10 \<and> list_all (\<lambda>t. tok_end t \<le> 5) ts
    | None \<Rightarrow> False)"
proof -
  define ts where "ts = [\<lparr>tok_type = JSMN_ARRAY, tok_start = 0, tok_end = 5, tok_size = 1\<rparr>,
      \<lparr>tok_type = JSMN_PRIMITIVE, tok_start = 2, tok_end = 4, tok_size = 0\<rparr>]"
  have ts: "jsmn_tokens ''[ 12]'' 5 10 = Some (2, ts)" unfolding ts_def by code_simp
  then show ?thesis using jsmn_tokens_within [OF ts] by (simp add: list_all_iff)
qed

end
