(* ===== verification/Json_Tokens.thy ===== *)
theory Json_Tokens
  imports Jsmn
begin

text \<open>
  What the tokenizer promises on a JSON text: a value is printed without spaces, and its tokens are
  those of its parts in the order of the text. The theorem of this theory shows that the tokenizer
  finds exactly them.
\<close>

datatype json = JPrim string | JStr string | JArr "json list" | JObj "(string \<times> json) list"

definition quote :: "string \<Rightarrow> string" where
  "quote s = CHR 0x22 # s @ [CHR 0x22]"

fun print_json :: "json \<Rightarrow> string"
  and print_elems :: "json list \<Rightarrow> string"
  and print_members :: "(string \<times> json) list \<Rightarrow> string" where
  "print_json (JPrim s) = s"
| "print_json (JStr s) = quote s"
| "print_json (JArr vs) = CHR ''['' # print_elems vs @ [CHR '']'']"
| "print_json (JObj ms) = CHR ''{'' # print_members ms @ [CHR ''}'']"
| "print_elems [] = []"
| "print_elems (v # vs) = print_json v @ (if vs = [] then [] else CHR '','' # print_elems vs)"
| "print_members [] = []"
| "print_members ((k, v) # ms) = quote k @ CHR '':'' # print_json v @ (if ms = [] then [] else CHR '','' # print_members ms)"

text \<open>The tokens of a value printed at a position.\<close>

definition string_token :: "nat \<Rightarrow> string \<Rightarrow> nat \<Rightarrow> jsmntok_t" where
  "string_token a s n =
     \<lparr>tok_type = JSMN_STRING, tok_start = int a + 1, tok_end = int (a + 1 + length s), tok_size = int n\<rparr>"

definition container_token :: "jsmntype_t \<Rightarrow> nat \<Rightarrow> string \<Rightarrow> nat \<Rightarrow> jsmntok_t" where
  "container_token ty a s n = \<lparr>tok_type = ty, tok_start = int a, tok_end = int (a + length s), tok_size = int n\<rparr>"

fun json_tokens :: "nat \<Rightarrow> json \<Rightarrow> jsmntok_t list"
  and elem_tokens :: "nat \<Rightarrow> json list \<Rightarrow> jsmntok_t list"
  and member_tokens :: "nat \<Rightarrow> (string \<times> json) list \<Rightarrow> jsmntok_t list" where
  "json_tokens a (JPrim s) = [container_token JSMN_PRIMITIVE a s 0]"
| "json_tokens a (JStr s) = [string_token a s 0]"
| "json_tokens a (JArr vs) = container_token JSMN_ARRAY a (print_json (JArr vs)) (length vs) # elem_tokens (a + 1) vs"
| "json_tokens a (JObj ms) = container_token JSMN_OBJECT a (print_json (JObj ms)) (length ms) # member_tokens (a + 1) ms"
| "elem_tokens a [] = []"
| "elem_tokens a (v # vs) = json_tokens a v @ elem_tokens (a + length (print_json v) + 1) vs"
| "member_tokens a [] = []"
| "member_tokens a ((k, v) # ms) = string_token a k 1 # json_tokens (a + length k + 3) v @
     member_tokens (a + length k + 3 + length (print_json v) + 1) ms"

text \<open>The texts of primitives and strings; the string keeps its escapes as they are written.\<close>

definition prim_ok :: "string \<Rightarrow> bool" where
  "prim_ok s \<longleftrightarrow> s \<noteq> [] \<and> hd s \<notin> {CHR ''{'', CHR ''['', CHR 0x22} \<and>
     (\<forall>c\<in>set s. c \<notin> set primitive_stops \<and> 32 \<le> code c \<and> code c < 127)"

fun string_ok :: "string \<Rightarrow> bool" where
  "string_ok [] \<longleftrightarrow> True"
| "string_ok [c] \<longleftrightarrow> c \<notin> {NUL, CHR 0x22, CHR 0x5C}"
| "string_ok (c # d # cs) \<longleftrightarrow>
     (if c = CHR 0x5C
      then d \<in> {CHR 0x22, CHR ''/'', CHR 0x5C, CHR ''b'', CHR ''f'', CHR ''r'', CHR ''n'', CHR ''t''} \<and> string_ok cs \<or>
           d = CHR ''u'' \<and> 4 \<le> length cs \<and> (\<forall>c\<in>set (take 4 cs). is_hex c) \<and> string_ok (drop 4 cs)
      else c \<notin> {NUL, CHR 0x22} \<and> string_ok (d # cs))"

fun json_ok :: "json \<Rightarrow> bool" where
  "json_ok (JPrim s) \<longleftrightarrow> prim_ok s"
| "json_ok (JStr s) \<longleftrightarrow> string_ok s"
| "json_ok (JArr vs) \<longleftrightarrow> (\<forall>v\<in>set vs. json_ok v)"
| "json_ok (JObj ms) \<longleftrightarrow> (\<forall>m\<in>set ms. string_ok (fst m) \<and> json_ok (snd m))"

subsection \<open>A text at a position\<close>

definition at :: "string \<Rightarrow> nat \<Rightarrow> nat \<Rightarrow> string \<Rightarrow> bool" where
  "at js len a s \<longleftrightarrow> a + length s \<le> len \<and> len \<le> length js \<and> take (length s) (drop a js) = s"

lemma at_Nil [simp]: "at js len a [] \<longleftrightarrow> a \<le> len \<and> len \<le> length js"
  by (auto simp: at_def)

lemma at_Cons: "at js len a (c # s) \<longleftrightarrow> a < len \<and> len \<le> length js \<and> js ! a = c \<and> at js len (a + 1) s"
proof (cases "a < length js")
  case True
  then have "drop a js = js ! a # drop (Suc a) js" by (simp add: Cons_nth_drop_Suc)
  then show ?thesis by (auto simp: at_def)
qed (auto simp: at_def)

lemma at_append: "at js len a (s @ t) \<longleftrightarrow> at js len a s \<and> at js len (a + length s) t"
proof (induction s arbitrary: a)
  case Nil
  then show ?case by (auto simp: at_def)
next
  case (Cons c s)
  show ?case by (simp only: append_Cons at_Cons Cons.IH) (auto simp: add.assoc)
qed

lemma at_nth: "\<lbrakk>at js len a s; i < length s\<rbrakk> \<Longrightarrow> js ! (a + i) = s ! i \<and> a + i < len"
  unfolding at_def by (metis (no_types, lifting) add_leD1 add_less_cancel_left le_trans nth_drop nth_take order_less_le_trans)

subsection \<open>Primitives and strings\<close>

lemma json_chars [simp]:
  "CHR 0x22 \<noteq> NUL" "CHR ''{'' \<noteq> NUL" "CHR ''}'' \<noteq> NUL" "CHR ''['' \<noteq> NUL" "CHR '']'' \<noteq> NUL" "CHR '':'' \<noteq> NUL" "CHR '','' \<noteq> NUL"
  "CHR 0x5C \<noteq> NUL"
  by code_simp+

lemma closing_ends: "c \<in> {CHR '']'', CHR ''}'', CHR '',''} \<Longrightarrow> c \<in> set primitive_stops"
  by (auto simp: primitive_stops_def)

definition ends :: "string \<Rightarrow> nat \<Rightarrow> nat \<Rightarrow> bool" where
  "ends js len a \<longleftrightarrow> \<not> a < len \<or> js ! a = NUL \<or> js ! a \<in> set primitive_stops"

lemma primitive_end_at:
  "\<lbrakk>at js len a s; ends js len (a + length s); \<forall>c\<in>set s. c \<notin> set primitive_stops \<and> 32 \<le> code c \<and> code c < 127\<rbrakk> \<Longrightarrow>
    primitive_end js len a = Inr (a + length s)"
proof (induction s arbitrary: a)
  case Nil
  then show ?case by (subst primitive_end.simps) (auto simp: ends_def)
next
  case (Cons c s)
  have "primitive_end js len (a + 1) = Inr (a + 1 + length s)" using Cons.prems by (intro Cons.IH) (auto simp: at_Cons)
  moreover have "c \<noteq> NUL" using Cons.prems(3) by (auto simp: code_def)
  ultimately show ?case using Cons.prems(1,3) by (subst primitive_end.simps) (auto simp: at_Cons)
qed

lemma hex_digits_at: "\<lbrakk>at js len a s; \<forall>c\<in>set s. is_hex c\<rbrakk> \<Longrightarrow> hex_digits js len (length s) a = Some (a + length s)"
proof (induction s arbitrary: a)
  case (Cons c s)
  have "c \<noteq> NUL" using Cons.prems(2) by (auto simp: is_hex_def code_def)
  then show ?case using Cons by (auto simp: at_Cons)
qed simp

lemma string_end_at: "\<lbrakk>at js len a (s @ [CHR 0x22]); string_ok s\<rbrakk> \<Longrightarrow> string_end js len a = Inr (a + length s)"
proof (induction s arbitrary: a rule: string_ok.induct)
  case 1
  then show ?case by (subst string_end.simps) (auto simp: at_Cons)
next
  case (2 c)
  then show ?case by (subst string_end.simps, subst string_end.simps) (auto simp: at_Cons)
next
  case (3 c d cs)
  have c: "a < len" "js ! a = c" "a + 1 < len" "js ! (a + 1) = d" "at js len (a + 2) (cs @ [CHR 0x22])"
    using "3.prems"(1) by (auto simp: at_Cons)
  consider (plain) "c \<noteq> CHR 0x5C" | (esc) "c = CHR 0x5C" "d \<noteq> CHR ''u''" | (hex) "c = CHR 0x5C" "d = CHR ''u''" by blast
  then show ?case
  proof cases
    case plain
    then have "string_end js len (a + 1) = Inr (a + 1 + length (d # cs))"
      using "3.prems" by (intro "3.IH"(3)) (auto simp: at_Cons)
    then show ?thesis using c plain "3.prems"(2) by (subst string_end.simps) auto
  next
    case esc
    then have "string_end js len (a + 2) = Inr (a + 2 + length cs)"
      using "3.prems" c(5) by (intro "3.IH"(1)) auto
    then show ?thesis using c esc "3.prems"(2) by (subst string_end.simps) auto
  next
    case hex
    have h: "4 \<le> length cs" "\<forall>c\<in>set (take 4 cs). is_hex c" "string_ok (drop 4 cs)" using hex "3.prems"(2) by auto
    have "at js len (a + 2) (take 4 cs @ drop 4 cs @ [CHR 0x22])" using c(5) by (metis append.assoc append_take_drop_id)
    then have r: "at js len (a + 2) (take 4 cs)" "at js len (a + 6) (drop 4 cs @ [CHR 0x22])"
      using h(1) by (auto simp: at_append add.commute)
    have "hex_digits js len (length (take 4 cs)) (a + 2) = Some (a + 2 + length (take 4 cs))" using r(1) h(2) by (rule hex_digits_at)
    then have "hex_digits js len 4 (a + 2) = Some (a + 6)" using h(1) by simp
    moreover have "string_end js len (a + 6) = Inr (a + 6 + length (drop 4 cs))"
      using r(2) h(3) hex by (intro "3.IH"(2)) auto
    ultimately show ?thesis using c hex h(1) by (subst string_end.simps) auto
  qed
qed

subsection \<open>Counted tokens\<close>

definition bump :: "nat \<Rightarrow> nat \<Rightarrow> jsmntok_t list \<Rightarrow> jsmntok_t list" where
  "bump i n ts = ts[i := (ts ! i)\<lparr>tok_size := tok_size (ts ! i) + int n\<rparr>]"

lemma bump_length [simp]: "length (bump i n ts) = length ts"
  by (simp add: bump_def)

lemma bump_0 [simp]: "bump i 0 ts = ts"
  by (simp add: bump_def)

lemma bump_bump: "i < length ts \<Longrightarrow> bump i m (bump i n ts) = bump i (n + m) ts"
  by (simp add: bump_def add.assoc)

lemma bump_append: "i < length ts \<Longrightarrow> bump i n (ts @ us) = bump i n ts @ us"
  by (simp add: bump_def list_update_append nth_append)

lemma bump_last [simp]: "bump (length ts) n (ts @ t # us) = ts @ t\<lparr>tok_size := tok_size t + int n\<rparr> # us"
  by (simp add: bump_def)

lemma count_child_bump: "count_child s ts = (if s = -1 then ts else bump (nat s) 1 ts)"
  by (simp add: count_child_def bump_def)

text \<open>The last open token does not depend on the sizes, and not on closed tokens behind it.\<close>

definition last_open :: "jsmntok_t list \<Rightarrow> int" where
  "last_open ts = last_token is_open ts (length ts)"

lemma last_token_cong: "(\<And>j. j < i \<Longrightarrow> P (ts ! j) = Q (us ! j)) \<Longrightarrow> last_token P ts i = last_token Q us i"
  by (induction i) auto

lemma last_token_append: "last_token P (ts @ us) (length ts) = last_token P ts (length ts)"
  by (rule last_token_cong) (simp add: nth_append)

lemma is_open_bump: "is_open (bump i n ts ! j) = is_open (ts ! j)"
  by (cases "i < length ts") (auto simp: bump_def is_open_def nth_list_update list_update_beyond)

lemma last_open_bump [simp]: "last_open (bump i n ts) = last_open ts"
  unfolding last_open_def using last_token_cong [of "length ts" is_open "bump i n ts" is_open ts] by (simp add: is_open_bump)

lemma last_open_count [simp]: "last_open (count_child s ts) = last_open ts"
  by (simp add: count_child_bump)

lemma last_open_snoc: "last_open (ts @ [t]) = (if is_open t then int (length ts) else last_open ts)"
  by (auto simp: last_open_def nth_append intro: last_token_cong)

lemma last_open_closed: "\<forall>u\<in>set us. \<not> is_open u \<Longrightarrow> last_open (ts @ us) = last_open ts"
proof (induction us rule: rev_induct)
  case (snoc u us)
  then show ?case using last_open_snoc [of "ts @ us" u] by simp
qed simp

lemma last_open_mid: "\<lbrakk>is_open tok; \<forall>u\<in>set us. \<not> is_open u\<rbrakk> \<Longrightarrow> last_open (base @ tok # us) = int (length base)"
  using last_open_closed [of us "base @ [tok]"] by (simp add: last_open_snoc)

lemma json_tokens_closed:
  "\<forall>t\<in>set (json_tokens a v). \<not> is_open t"
  "\<forall>t\<in>set (elem_tokens a vs). \<not> is_open t"
  "\<forall>t\<in>set (member_tokens a ms). \<not> is_open t"
  by (induction a v and a vs and a ms rule: json_tokens_elem_tokens_member_tokens.induct)
    (auto simp: is_open_def container_token_def string_token_def)

subsection \<open>Runs of the parser\<close>

definition parser_at :: "nat \<Rightarrow> int \<Rightarrow> jsmntok_t list \<Rightarrow> jsmn_parser" where
  "parser_at a s ts = \<lparr>jp_pos = a, jp_toksuper = s, jp_tokens = Some ts\<rparr>"

definition runs :: "string \<Rightarrow> nat \<Rightarrow> nat \<Rightarrow> jsmn_parser \<Rightarrow> nat \<Rightarrow> jsmn_parser \<Rightarrow> bool" where
  "runs js len num p n p' \<longleftrightarrow> (\<forall>count. jsmn_loop js len num count p = jsmn_loop js len num (count + n) p')"

lemma runs_refl: "runs js len num p 0 p"
  by (simp add: runs_def)

lemma runs_trans: "\<lbrakk>runs js len num p n p'; runs js len num p' m p''; k = n + m\<rbrakk> \<Longrightarrow> runs js len num p k p''"
  by (simp add: runs_def add.assoc)

lemma runs_step:
  "\<lbrakk>a < len; js ! a \<noteq> NUL; jsmn_step js len num (parser_at a s ts) = Inr (n, parser_at b s' ts')\<rbrakk> \<Longrightarrow>
    runs js len num (parser_at a s ts) n (parser_at (b + 1) s' ts')"
  unfolding runs_def by (subst jsmn_loop.simps) (simp add: parser_at_def)

lemma run_open:
  assumes "a < len" "js ! a = c" "c = CHR ''{'' \<or> c = CHR ''[''" "length ts < num" "s < int (length ts)" "-1 \<le> s"
  shows "runs js len num (parser_at a s ts) 1 (parser_at (a + 1) (int (length ts)) (count_child s ts @
    [\<lparr>tok_type = (if c = CHR ''{'' then JSMN_OBJECT else JSMN_ARRAY), tok_start = int a, tok_end = -1, tok_size = 0\<rparr>]))"
proof (rule runs_step)
  have "nat s < length ts" if "s \<noteq> -1" using assms(5,6) that by linarith
  then show "jsmn_step js len num (parser_at a s ts) = Inr (1, parser_at a (int (length ts)) (count_child s ts @
      [\<lparr>tok_type = (if c = CHR ''{'' then JSMN_OBJECT else JSMN_ARRAY), tok_start = int a, tok_end = -1, tok_size = 0\<rparr>]))"
    using assms by (auto simp: jsmn_step_def parser_at_def open_bracket_def jsmn_alloc_token_def count_child_bump bump_append)
qed (use assms in auto)

lemma run_close:
  assumes "a < len" "js ! a = c" "c = CHR ''}'' \<and> tok_type tok = JSMN_OBJECT \<or> c = CHR '']'' \<and> tok_type tok = JSMN_ARRAY"
    and "is_open tok" "\<forall>u\<in>set us. \<not> is_open u"
  shows "runs js len num (parser_at a s (base @ tok # us)) 0
    (parser_at (a + 1) (last_open base) (base @ tok\<lparr>tok_end := int a + 1\<rparr> # us))"
proof (rule runs_step)
  have "last_open ((base @ [tok]) @ us) = int (length base)"
    using assms(4,5) by (simp only: last_open_closed) (simp add: last_open_snoc)
  then have l: "last_token is_open (base @ tok # us) (Suc (length base + length us)) = int (length base)" by (simp add: last_open_def)
  have "last_open (base @ [tok\<lparr>tok_end := int a + 1\<rparr>]) = last_open base"
    by (rule last_open_closed) (simp add: is_open_def)
  then have "last_token is_open (base @ tok\<lparr>tok_end := int a + 1\<rparr> # us) (Suc (length base)) = last_open base"
    using last_token_cong [of "Suc (length base)" is_open "base @ tok\<lparr>tok_end := int a + 1\<rparr> # us" is_open "base @ [tok\<lparr>tok_end := int a + 1\<rparr>]"]
    by (simp add: last_open_def nth_append)
  then show "jsmn_step js len num (parser_at a s (base @ tok # us)) =
      Inr (0, parser_at a (last_open base) (base @ tok\<lparr>tok_end := int a + 1\<rparr> # us))"
    using assms(2,3) l by (auto simp: jsmn_step_def parser_at_def close_bracket_def Let_def)
qed (use assms in auto)

lemma run_colon: "\<lbrakk>a < len; js ! a = CHR '':''\<rbrakk> \<Longrightarrow>
    runs js len num (parser_at a s ts) 0 (parser_at (a + 1) (int (length ts) - 1) ts)"
  by (rule runs_step) (auto simp: jsmn_step_def parser_at_def tokens_length_def)

lemma run_comma:
  assumes "a < len" "js ! a = CHR '',''" "is_open tok" "is_container tok" "\<forall>u\<in>set us. \<not> is_open u"
    and "s = int (length base) \<or> s \<noteq> -1 \<and> \<not> is_container ((base @ tok # us) ! nat s)"
  shows "runs js len num (parser_at a s (base @ tok # us)) 0 (parser_at (a + 1) (int (length base)) (base @ tok # us))"
proof (rule runs_step)
  have l: "last_token P ((base @ [tok]) @ us) (length ((base @ [tok]) @ us)) = int (length base)"
    if "P = (\<lambda>t. is_container t \<and> is_open t)" for P
    using assms(5)
  proof (induction us rule: rev_induct)
    case Nil
    then show ?case using assms(3,4) that by (simp add: nth_append)
  next
    case (snoc u us)
    show ?case
      using snoc that last_token_append [of P "(base @ [tok]) @ us" "[u]"] nth_append_length [of "(base @ [tok]) @ us" u "[]"]
      by simp
  qed
  then have "last_token (\<lambda>t. is_container t \<and> is_open t) (base @ tok # us) (Suc (length base + length us)) = int (length base)" by simp
  then show "jsmn_step js len num (parser_at a s (base @ tok # us)) = Inr (0, parser_at a (int (length base)) (base @ tok # us))"
    using assms(2,4,6) by (auto simp: jsmn_step_def parser_at_def next_member_def Let_def nth_append)
qed (use assms in auto)

lemma run_string:
  assumes "at js len a (quote k)" "string_ok k" "length ts < num" "s < int (length ts)" "-1 \<le> s"
  shows "runs js len num (parser_at a s ts) 1 (parser_at (a + length k + 2) s (count_child s ts @ [string_token a k 0]))"
proof -
  have a: "a < len" "js ! a = CHR 0x22" "at js len (a + 1) (k @ [CHR 0x22])" using assms(1) by (auto simp: quote_def at_Cons)
  have s: "nat s < length ts" if "s \<noteq> -1" using assms(4,5) that by linarith
  have "jsmn_step js len num (parser_at a s ts) = Inr (1, parser_at (a + length k + 1) s (count_child s ts @ [string_token a k 0]))"
    using a(2) s assms(3) string_end_at [OF a(3) assms(2)]
    by (auto simp: jsmn_step_def parser_at_def jsmn_parse_string_def jsmn_alloc_token_def jsmn_fill_token_def count_in_super_def
        count_child_bump bump_append string_token_def)
  from runs_step [OF a(1) _ this] a(2) show ?thesis by simp
qed

lemma run_prim:
  assumes "at js len a k" "prim_ok k" "ends js len (a + length k)" "length ts < num" "s < int (length ts)" "-1 \<le> s"
  shows "runs js len num (parser_at a s ts) 1 (parser_at (a + length k) s (count_child s ts @ [container_token JSMN_PRIMITIVE a k 0]))"
proof -
  have k: "k \<noteq> []" "hd k \<notin> {CHR ''{'', CHR ''['', CHR 0x22}" "\<forall>c\<in>set k. c \<notin> set primitive_stops \<and> 32 \<le> code c \<and> code c < 127"
    using assms(2) by (auto simp: prim_ok_def)
  then have hd: "hd k \<notin> set primitive_stops" "hd k \<noteq> NUL" by (cases k; auto simp: code_def)+
  have a: "a < len" "js ! a = hd k" using assms(1) k(1) by (cases k; auto simp: at_Cons)+
  have s: "nat s < length ts" if "s \<noteq> -1" using assms(5,6) that by linarith
  have "jsmn_step js len num (parser_at a s ts) =
      Inr (1, parser_at (a + length k - 1) s (count_child s ts @ [container_token JSMN_PRIMITIVE a k 0]))"
    using a(2) k(2) hd(1) s assms(4) primitive_end_at [OF assms(1,3) k(3)]
    by (auto simp: jsmn_step_def parser_at_def jsmn_parse_primitive_def jsmn_alloc_token_def jsmn_fill_token_def count_in_super_def
        count_child_bump bump_append container_token_def primitive_stops_def)
  from runs_step [OF a(1) _ this] a(2) hd(2) k(1) show ?thesis by (simp add: Suc_diff_Suc)
qed

subsection \<open>Values\<close>

lemma ends_at: "\<lbrakk>at js len a (c # s); c \<in> {CHR '','', CHR '']'', CHR ''}''}\<rbrakk> \<Longrightarrow> ends js len a"
  using closing_ends by (auto simp: at_Cons ends_def)

lemma run_container:
  assumes "at js len a (c # body @ [d])"
    and ty: "c = CHR ''{'' \<and> d = CHR ''}'' \<and> ty = JSMN_OBJECT \<or> c = CHR ''['' \<and> d = CHR '']'' \<and> ty = JSMN_ARRAY"
    and body: "\<And>base tok. \<lbrakk>is_open tok; is_container tok; length base + 1 + length toks \<le> num\<rbrakk> \<Longrightarrow>
      \<exists>s'. runs js len num (parser_at (a + 1) (int (length base)) (base @ [tok])) (length toks)
        (parser_at (a + 1 + length body) s' (bump (length base) n (base @ [tok]) @ toks))"
    and "\<forall>u\<in>set toks. \<not> is_open u" "length ts + 1 + length toks \<le> num" "s < int (length ts)" "-1 \<le> s"
  shows "runs js len num (parser_at a s ts) (1 + length toks)
    (parser_at (a + 1 + length body + 1) (last_open ts) (count_child s ts @ container_token ty a (c # body @ [d]) n # toks))"
proof -
  define tok where "tok = \<lparr>tok_type = ty, tok_start = int a, tok_end = -1, tok_size = 0\<rparr>"
  define tok' where "tok' = tok\<lparr>tok_size := int n\<rparr>"
  have a: "a < len" "js ! a = c" "at js len (a + 1 + length body) [d]"
    using assms(1) by (auto simp: at_Cons at_append)
  have t: "is_open tok" "is_container tok" "is_open tok'" using ty by (auto simp: tok_def tok'_def is_open_def is_container_def)
  have 1: "runs js len num (parser_at a s ts) 1 (parser_at (a + 1) (int (length ts)) (count_child s ts @ [tok]))"
    using run_open [OF a(1,2) _ _ assms(6,7)] assms(5) ty by (auto simp: tok_def)
  have b: "bump (length ts) n (count_child s ts @ [tok]) = count_child s ts @ [tok']"
    using bump_last [of "count_child s ts" n tok "[]"] by (simp add: tok'_def tok_def)
  obtain s' where 2: "runs js len num (parser_at (a + 1) (int (length ts)) (count_child s ts @ [tok])) (length toks)
      (parser_at (a + 1 + length body) s' (count_child s ts @ tok' # toks))"
    using body [OF t(1,2), of "count_child s ts"] assms(5) b by auto
  have "runs js len num (parser_at (a + 1 + length body) s' (count_child s ts @ tok' # toks)) 0
      (parser_at (a + 1 + length body + 1) (last_open (count_child s ts)) (count_child s ts @ tok'\<lparr>tok_end := int (a + 1 + length body) + 1\<rparr> # toks))"
    by (rule run_close) (use a(3) ty t(3) assms(4) in \<open>auto simp: at_Cons tok'_def tok_def\<close>)
  then have 3: "runs js len num (parser_at (a + 1 + length body) s' (count_child s ts @ tok' # toks)) 0
      (parser_at (a + 1 + length body + 1) (last_open ts) (count_child s ts @ container_token ty a (c # body @ [d]) n # toks))"
    by (simp add: tok'_def tok_def container_token_def algebra_simps)
  show ?thesis by (rule runs_trans [OF 1 runs_trans [OF 2 3 refl]]) simp
qed

text \<open>
  After a value the tokens of it are behind the others, its parent counts it, and the parent is the
  one before, or the last open token.
\<close>

lemma run_json:
  shows "\<lbrakk>at js len a (print_json v); json_ok v; ends js len (a + length (print_json v));
      length ts + length (json_tokens a v) \<le> num; s < int (length ts); -1 \<le> s\<rbrakk> \<Longrightarrow>
      \<exists>s'\<in>{s, last_open ts}. runs js len num (parser_at a s ts) (length (json_tokens a v))
        (parser_at (a + length (print_json v)) s' (count_child s ts @ json_tokens a v))"
    and "\<lbrakk>at js len a (print_elems vs); \<forall>v\<in>set vs. json_ok v; ends js len (a + length (print_elems vs));
      length base + 1 + length us + length (elem_tokens a vs) \<le> num; is_open tok; is_container tok; \<forall>u\<in>set us. \<not> is_open u\<rbrakk> \<Longrightarrow>
      runs js len num (parser_at a (int (length base)) (base @ tok # us)) (length (elem_tokens a vs))
        (parser_at (a + length (print_elems vs)) (int (length base)) (bump (length base) (length vs) (base @ tok # us) @ elem_tokens a vs))"
    and "\<lbrakk>at js len a (print_members ms); \<forall>m\<in>set ms. string_ok (fst m) \<and> json_ok (snd m); ends js len (a + length (print_members ms));
      length base + 1 + length us + length (member_tokens a ms) \<le> num; is_open tok; is_container tok; \<forall>u\<in>set us. \<not> is_open u\<rbrakk> \<Longrightarrow>
      \<exists>s'. runs js len num (parser_at a (int (length base)) (base @ tok # us)) (length (member_tokens a ms))
        (parser_at (a + length (print_members ms)) s' (bump (length base) (length ms) (base @ tok # us) @ member_tokens a ms))"
proof (induction a v and a vs and a ms arbitrary: s ts and base tok us and base tok us rule: json_tokens_elem_tokens_member_tokens.induct)
  case (1 a k)
  then show ?case using run_prim [of js len a k ts num s] by auto
next
  case (2 a k)
  then show ?case using run_string [of js len a k ts num s] by (auto simp: quote_def)
next
  case (3 a vs)
  have "at js len (a + 1) (print_elems vs)" "ends js len (a + 1 + length (print_elems vs))"
    using "3.prems"(1) by (auto simp: at_Cons at_append ends_def primitive_stops_def)
  note body = "3.IH" [OF this(1) _ this(2), where us = "[]"]
  have "runs js len num (parser_at a s ts) (1 + length (elem_tokens (a + 1) vs))
    (parser_at (a + 1 + length (print_elems vs) + 1) (last_open ts) (count_child s ts @
      container_token JSMN_ARRAY a (CHR ''['' # print_elems vs @ [CHR '']'']) (length vs) # elem_tokens (a + 1) vs))"
    by (rule run_container) (use "3.prems" body json_tokens_closed(2) in auto)
  then show ?case by (intro bexI [of _ "last_open ts"]) auto
next
  case (4 a ms)
  have "at js len (a + 1) (print_members ms)" "ends js len (a + 1 + length (print_members ms))"
    using "4.prems"(1) by (auto simp: at_Cons at_append ends_def primitive_stops_def)
  note body = "4.IH" [OF this(1) _ this(2), where us = "[]"]
  have "runs js len num (parser_at a s ts) (1 + length (member_tokens (a + 1) ms))
    (parser_at (a + 1 + length (print_members ms) + 1) (last_open ts) (count_child s ts @
      container_token JSMN_OBJECT a (CHR ''{'' # print_members ms @ [CHR ''}'']) (length ms) # member_tokens (a + 1) ms))"
    by (rule run_container) (use "4.prems" body json_tokens_closed(3) in auto)
  then show ?case by (intro bexI [of _ "last_open ts"]) auto
next
  case (5 a)
  then show ?case by (simp add: runs_refl)
next
  case (6 a v vs)
  define t1 where "t1 = tok\<lparr>tok_size := tok_size tok + 1\<rparr>"
  define b where "b = a + length (print_json v)"
  have t1: "is_open t1" "is_container t1" using "6.prems"(5,6) by (auto simp: t1_def is_open_def is_container_def)
  have ends: "ends js len b" if "vs = []" using "6.prems"(3) that by (simp add: b_def)
  have comma: "at js len b (CHR '','' # print_elems vs)" if "vs \<noteq> []" using "6.prems"(1) that by (simp add: b_def at_append)
  then have ends: "ends js len b" using ends ends_at [of js len b "CHR '',''" "print_elems vs"] by (cases "vs = []") auto
  obtain s' where "s' \<in> {int (length base), last_open (base @ tok # us)}"
      "runs js len num (parser_at a (int (length base)) (base @ tok # us)) (length (json_tokens a v))
        (parser_at b s' (count_child (int (length base)) (base @ tok # us) @ json_tokens a v))"
    using "6.IH"(1) [of "base @ tok # us" "int (length base)"] "6.prems"(1,2,4) ends by (auto simp: b_def at_append)
  then have r: "runs js len num (parser_at a (int (length base)) (base @ tok # us)) (length (json_tokens a v))
      (parser_at b (int (length base)) (base @ t1 # us @ json_tokens a v))"
    using last_open_mid [OF "6.prems"(5,7)] by (auto simp: count_child_bump t1_def)
  show ?case
  proof (cases "vs = []")
    case True
    then show ?thesis using r by (simp add: b_def t1_def)
  next
    case False
    have closed: "\<forall>u\<in>set (us @ json_tokens a v). \<not> is_open u" using "6.prems"(7) json_tokens_closed(1) by auto
    have c: "runs js len num (parser_at b (int (length base)) (base @ t1 # us @ json_tokens a v)) 0
        (parser_at (b + 1) (int (length base)) (base @ t1 # us @ json_tokens a v))"
      by (rule run_comma) (use comma [OF False] t1 closed in \<open>auto simp: at_Cons\<close>)
    have "runs js len num (parser_at (b + 1) (int (length base)) (base @ t1 # us @ json_tokens a v)) (length (elem_tokens (b + 1) vs))
        (parser_at (b + 1 + length (print_elems vs)) (int (length base))
          (bump (length base) (length vs) (base @ t1 # us @ json_tokens a v) @ elem_tokens (b + 1) vs))"
      using "6.IH"(2) [where base = base and tok = t1 and us = "us @ json_tokens a v"] comma [OF False] "6.prems"(2-4) t1 closed False
      by (auto simp: b_def at_Cons algebra_simps)
    from runs_trans [OF r runs_trans [OF c this refl] refl] show ?thesis
      using False by (simp add: t1_def b_def algebra_simps)
  qed
next
  case (7 a)
  then show ?case by (auto intro!: exI runs_refl)
next
  case (8 a k v ms)
  define t1 where "t1 = tok\<lparr>tok_size := tok_size tok + 1\<rparr>"
  define b where "b = a + length k + 3"
  define e where "e = b + length (print_json v)"
  have t1: "is_open t1" "is_container t1" using "8.prems"(5,6) by (auto simp: t1_def is_open_def is_container_def)
  have at: "at js len a (quote k)" "at js len (a + length k + 2) [CHR '':'']" "at js len b (print_json v)"
    using "8.prems"(1) by (auto simp: at_append at_Cons quote_def b_def numeral_3_eq_3)
  have ends: "ends js len e" if "ms = []" using "8.prems"(3) that by (simp add: b_def e_def quote_def numeral_3_eq_3 add.assoc)
  have comma: "at js len e (CHR '','' # print_members ms)" if "ms \<noteq> []"
    using "8.prems"(1) that by (simp add: b_def e_def at_append at_Cons quote_def numeral_3_eq_3 add.assoc)
  then have ends: "ends js len e" using ends ends_at [of js len e "CHR '',''" "print_members ms"] by (cases "ms = []") auto
  have r1: "runs js len num (parser_at a (int (length base)) (base @ tok # us)) 1
      (parser_at (a + length k + 2) (int (length base)) (base @ t1 # us @ [string_token a k 0]))"
    using run_string [OF at(1), of "base @ tok # us" num "int (length base)"] "8.prems"(2,4) by (simp add: count_child_bump t1_def)
  have r2: "runs js len num (parser_at (a + length k + 2) (int (length base)) (base @ t1 # us @ [string_token a k 0])) 0
      (parser_at b (int (length (base @ t1 # us))) (base @ t1 # us @ [string_token a k 0]))"
    using run_colon [of "a + length k + 2" len js num "int (length base)" "base @ t1 # us @ [string_token a k 0]"] at(2)
    by (simp add: at_Cons b_def numeral_3_eq_3)
  have closed: "\<forall>u\<in>set (us @ string_token a k n # json_tokens b v). \<not> is_open u" for n
    using "8.prems"(7) json_tokens_closed(1) by (auto simp: string_token_def is_open_def)
  have lo: "last_open (base @ t1 # us @ [string_token a k 0]) = int (length base)"
    using last_open_mid [OF t1(1), of "us @ [string_token a k 0]"] closed [of 0] by simp
  have bump: "count_child (int (length (base @ t1 # us))) (base @ t1 # us @ [string_token a k 0]) = base @ t1 # us @ [string_token a k 1]"
    using bump_last [of "base @ t1 # us" 1 "string_token a k 0" "[]"] by (simp add: count_child_bump string_token_def nat_add_distrib)
  obtain s' where s': "s' \<in> {int (length (base @ t1 # us)), int (length base)}"
      "runs js len num (parser_at b (int (length (base @ t1 # us))) (base @ t1 # us @ [string_token a k 0])) (length (json_tokens b v))
        (parser_at e s' (base @ t1 # us @ string_token a k 1 # json_tokens b v))"
    using "8.IH"(1) [of "base @ t1 # us @ [string_token a k 0]" "int (length (base @ t1 # us))"] "8.prems"(2,4) at(3) ends lo bump
    by (auto simp: b_def [symmetric] e_def [symmetric])
  note r = runs_trans [OF r1 runs_trans [OF r2 s'(2) refl] refl]
  show ?case
  proof (cases "ms = []")
    case True
    then show ?thesis using r by (intro exI [of _ s']) (simp add: b_def e_def t1_def quote_def numeral_3_eq_3 add.assoc)
  next
    case False
    have nc: "(base @ t1 # us @ string_token a k 1 # json_tokens b v) ! nat (int (length (base @ t1 # us))) = string_token a k 1"
      unfolding nat_int using nth_append_length [of "base @ t1 # us" "string_token a k 1" "json_tokens b v"] by (simp only: append_Cons append_assoc)
    have c: "runs js len num (parser_at e s' (base @ t1 # us @ string_token a k 1 # json_tokens b v)) 0
        (parser_at (e + 1) (int (length base)) (base @ t1 # us @ string_token a k 1 # json_tokens b v))"
    proof (rule run_comma)
      show "s' = int (length base) \<or> s' \<noteq> -1 \<and> \<not> is_container ((base @ t1 # us @ string_token a k 1 # json_tokens b v) ! nat s')"
        using s'(1) nc by (auto simp: is_container_def string_token_def)
    qed (use comma [OF False] t1 closed [of 1] in \<open>auto simp: at_Cons\<close>)
    have e1: "a + length k + 3 + length (print_json v) + 1 = e + 1" by (simp add: e_def b_def)
    have "\<exists>s''. runs js len num (parser_at (e + 1) (int (length base)) (base @ t1 # us @ string_token a k 1 # json_tokens b v))
        (length (member_tokens (e + 1) ms)) (parser_at (e + 1 + length (print_members ms)) s''
          (bump (length base) (length ms) (base @ t1 # us @ string_token a k 1 # json_tokens b v) @ member_tokens (e + 1) ms))"
    proof (rule "8.IH"(2) [where base = base and tok = t1 and us = "us @ string_token a k 1 # json_tokens b v", unfolded e1])
      show "ends js len (e + 1 + length (print_members ms))"
        using "8.prems"(3) False by (simp add: b_def e_def quote_def numeral_3_eq_3 add.assoc)
    qed (use comma [OF False] "8.prems"(2,4) t1 closed [of 1] in \<open>auto simp: at_Cons e1 b_def [symmetric] e_def [symmetric]\<close>)
    then obtain s'' where "runs js len num (parser_at (e + 1) (int (length base)) (base @ t1 # us @ string_token a k 1 # json_tokens b v))
        (length (member_tokens (e + 1) ms)) (parser_at (e + 1 + length (print_members ms)) s''
          (bump (length base) (length ms) (base @ t1 # us @ string_token a k 1 # json_tokens b v) @ member_tokens (e + 1) ms))" ..
    from runs_trans [OF r runs_trans [OF c this refl] refl] show ?thesis
      using False by (intro exI [of _ s'']) (simp add: t1_def b_def e_def quote_def algebra_simps numeral_3_eq_3)
  qed
qed

text \<open>
  C12: the tokenizer on a JSON text. Of a printed value that fits the array of tokens the parser finds
  exactly the tokens of its parts, with their types, their places in the text and the number of their
  children, and reports how many there are, whatever follows the value at the end of the text's length.
\<close>

theorem jsmn_tokens_of_json:
  assumes "json_ok v" "length (json_tokens 0 v) \<le> num_tokens" "length (print_json v) < 2 ^ 31"
  shows "jsmn_tokens (print_json v @ rest) (length (print_json v)) num_tokens =
    Some (int (length (json_tokens 0 v)), json_tokens 0 v)"
proof -
  define js len where "js = print_json v @ rest" and "len = length (print_json v)"
  have at: "at js len 0 (print_json v)" by (simp add: at_def js_def len_def)
  obtain s' where "runs js len num_tokens (parser_at 0 (-1) []) (length (json_tokens 0 v)) (parser_at len s' (json_tokens 0 v))"
    using run_json(1) [OF at assms(1), of "[]" num_tokens "-1"] assms(2) by (auto simp: ends_def len_def count_child_def)
  then have "jsmn_loop js len num_tokens 0 (parser_at 0 (-1) []) = Inr (length (json_tokens 0 v), parser_at len s' (json_tokens 0 v))"
    unfolding runs_def by (subst (asm) (2) jsmn_loop.simps) (simp add: parser_at_def)
  moreover have "last_open ([] @ json_tokens 0 v) = last_open []" by (rule last_open_closed) (use json_tokens_closed(1) in auto)
  ultimately show ?thesis
    using assms(3) by (simp add: jsmn_tokens_def jsmn_parse_def jsmn_init_def tokens_length_def parser_at_def last_open_def js_def len_def)
qed

definition example_json :: json where
  "example_json = JObj [(''Stream'', JArr [JPrim ''12'', JStr [CHR ''a'', CHR 0x5C, CHR ''n''], JObj []]), (''b'', JPrim ''true'')]"

lemma example_json_ok: "json_ok example_json" "length (json_tokens 0 example_json) = 8" "length (print_json example_json) = 33"
  by code_simp+

lemma jsmn_tokens_of_json_witness:
  "jsmn_tokens (print_json example_json @ ''}'') 33 100 = Some (8, json_tokens 0 example_json) \<and>
    jsmn_tokens (print_json example_json) 33 7 = Some (-1, [])"
proof
  show "jsmn_tokens (print_json example_json @ ''}'') 33 100 = Some (8, json_tokens 0 example_json)"
    using jsmn_tokens_of_json [of example_json 100 "''}''"] by (simp add: example_json_ok)
  show "jsmn_tokens (print_json example_json) 33 7 = Some (-1, [])" by code_simp
qed

end
