(* ===== verification/Default_Callbacks.thy ===== *)
theory Default_Callbacks
  imports Callbacks
begin

text \<open>
  The default stream callbacks (\<open>StreamCallbacksProvider.c\<close>), which only log, and the installation of the
  file logger as the platform's print function (\<open>FileLoggerPlatformCallbackProvider.c\<close>). What is
  logged is not modelled; the file logger itself belongs to the platform independent code.
\<close>

subsection \<open>Stream callbacks that do nothing\<close>

definition defaultStreamUnderflowCallback :: "UINT64 \<Rightarrow> STREAM_HANDLE \<Rightarrow> STATUS" where
  "defaultStreamUnderflowCallback customData streamHandle = STATUS_SUCCESS"

definition defaultBufferDurationOverflowCallback :: "UINT64 \<Rightarrow> STREAM_HANDLE \<Rightarrow> UINT64 \<Rightarrow> STATUS" where
  "defaultBufferDurationOverflowCallback customData streamHandle remainDuration = STATUS_SUCCESS"

definition defaultStreamLatencyPressureCallback :: "UINT64 \<Rightarrow> STREAM_HANDLE \<Rightarrow> UINT64 \<Rightarrow> STATUS" where
  "defaultStreamLatencyPressureCallback customData streamHandle currentBufferDuration = STATUS_SUCCESS"

definition defaultStreamConnectionStaleCallback :: "UINT64 \<Rightarrow> STREAM_HANDLE \<Rightarrow> UINT64 \<Rightarrow> STATUS" where
  "defaultStreamConnectionStaleCallback customData streamHandle timeSinceLastBufferingAck = STATUS_SUCCESS"

definition defaultDroppedFrameReportCallback :: "UINT64 \<Rightarrow> STREAM_HANDLE \<Rightarrow> UINT64 \<Rightarrow> STATUS" where
  "defaultDroppedFrameReportCallback customData streamHandle frameTimecode = STATUS_SUCCESS"

definition defaultDroppedFragmentReportCallback :: "UINT64 \<Rightarrow> STREAM_HANDLE \<Rightarrow> UINT64 \<Rightarrow> STATUS" where
  "defaultDroppedFragmentReportCallback customData streamHandle fragmentTimeCode = STATUS_SUCCESS"

definition defaultStreamErrorReportCallback :: "UINT64 \<Rightarrow> STREAM_HANDLE \<Rightarrow> UPLOAD_HANDLE \<Rightarrow> UINT64 \<Rightarrow> STATUS \<Rightarrow> STATUS" where
  "defaultStreamErrorReportCallback customData streamHandle uploadHandle fragmentTimecode errorStatus = STATUS_SUCCESS"

definition defaultFragmentAckReceivedCallback :: "UINT64 \<Rightarrow> STREAM_HANDLE \<Rightarrow> UPLOAD_HANDLE \<Rightarrow> 'ack \<Rightarrow> STATUS" where
  "defaultFragmentAckReceivedCallback customData streamHandle uploadHandle pFragmentAck = STATUS_SUCCESS"

definition defaultStreamDataAvailableCallback :: "UINT64 \<Rightarrow> STREAM_HANDLE \<Rightarrow> PCHAR \<Rightarrow> UPLOAD_HANDLE \<Rightarrow> UINT64 \<Rightarrow> UINT64 \<Rightarrow> STATUS" where
  "defaultStreamDataAvailableCallback customData streamHandle streamName uploadHandle durationAvailable bytesAvailable = STATUS_SUCCESS"

definition defaultStreamReadyCallback :: "UINT64 \<Rightarrow> STREAM_HANDLE \<Rightarrow> STATUS" where
  "defaultStreamReadyCallback customData streamHandle = STATUS_SUCCESS"

definition defaultStreamClosedCallback :: "UINT64 \<Rightarrow> STREAM_HANDLE \<Rightarrow> UPLOAD_HANDLE \<Rightarrow> STATUS" where
  "defaultStreamClosedCallback customData streamHandle uploadHandle = STATUS_SUCCESS"

definition defaultStreamShutdownCallback :: "UINT64 \<Rightarrow> STREAM_HANDLE \<Rightarrow> bool \<Rightarrow> STATUS" where
  "defaultStreamShutdownCallback customData streamHandle resetStream = STATUS_SUCCESS"

text \<open>The structure that \<open>createStreamCallbacks\<close> fills, at its address.\<close>

definition default_stream_callbacks :: "UINT64 \<Rightarrow> StreamCallbacks" where
  "default_stream_callbacks self = zero_StreamCallbacks\<lparr>st_version := STREAM_CALLBACKS_CURRENT_VERSION, st_customData := self,
     st_streamUnderflowReportFn := Some (C_FUN ''defaultStreamUnderflowCallback''),
     st_bufferDurationOverflowPressureFn := Some (C_FUN ''defaultBufferDurationOverflowCallback''),
     st_streamLatencyPressureFn := Some (C_FUN ''defaultStreamLatencyPressureCallback''),
     st_streamConnectionStaleFn := Some (C_FUN ''defaultStreamConnectionStaleCallback''),
     st_droppedFrameReportFn := Some (C_FUN ''defaultDroppedFrameReportCallback''),
     st_droppedFragmentReportFn := Some (C_FUN ''defaultDroppedFragmentReportCallback''),
     st_streamErrorReportFn := Some (C_FUN ''defaultStreamErrorReportCallback''),
     st_fragmentAckReceivedFn := Some (C_FUN ''defaultFragmentAckReceivedCallback''),
     st_streamDataAvailableFn := Some (C_FUN ''defaultStreamDataAvailableCallback''),
     st_streamReadyFn := Some (C_FUN ''defaultStreamReadyCallback''),
     st_streamClosedFn := Some (C_FUN ''defaultStreamClosedCallback''),
     st_streamShutdownFn := Some (C_FUN ''defaultStreamShutdownCallback''),
     st_freeStreamCallbacksFn := Some (C_FUN ''defaultFreeStreamCallbacksFn'')\<rparr>"

text \<open>
  The heap of these structures. A pointer to the caller's variable is \<open>None\<close> when it is NULL; the result
  has its new content, \<open>None\<close> when it is not written.
\<close>

type_synonym stream_heap = "UINT64 \<Rightarrow> StreamCallbacks option"

definition freeStreamCallbacks :: "stream_heap \<Rightarrow> UINT64 option \<Rightarrow> (STATUS \<times> UINT64 option \<times> stream_heap) option" where
  "freeStreamCallbacks h ppStreamCallbacks = (case ppStreamCallbacks of
     None \<Rightarrow> Some (STATUS_NULL_ARG, None, h)
   | Some p \<Rightarrow>
       if p = 0 then Some (STATUS_SUCCESS, Some 0, h)
       else if h p = None then None
       else Some (STATUS_SUCCESS, Some 0, h(p := None)))"

definition defaultFreeStreamCallbacksFn :: "stream_heap \<Rightarrow> UINT64 option \<Rightarrow> (STATUS \<times> stream_heap) option" where
  "defaultFreeStreamCallbacksFn h customData = (case customData of
     None \<Rightarrow> Some (STATUS_NULL_ARG, h)
   | Some p \<Rightarrow> map_option (\<lambda>(st, _, h'). (st, h')) (freeStreamCallbacks h (Some p)))"

definition createStreamCallbacks ::
    "(stream_heap \<Rightarrow> UINT64 option) \<Rightarrow> stream_heap \<Rightarrow> bool \<Rightarrow> STATUS \<times> UINT64 option \<times> stream_heap" where
  "createStreamCallbacks calloc h ppStreamCallbacks =
     (if \<not> ppStreamCallbacks then (STATUS_NULL_ARG, None, h)
      else (case calloc h of
          None \<Rightarrow> (STATUS_NOT_ENOUGH_MEMORY, None, h)
        | Some p \<Rightarrow> (STATUS_SUCCESS, Some p, h(p \<mapsto> default_stream_callbacks p))))"

subsection \<open>The file logger\<close>

text \<open>
  The file logger is one object of the process. \<open>fl_create\<close> is its creation, which gives the function
  that prints to it, and \<open>fl_free\<close> its release; \<open>'w\<close> is its state.
\<close>

record 'w logger_env =
  fl_create :: "UINT64 \<Rightarrow> UINT64 \<Rightarrow> PCHAR \<Rightarrow> bool \<Rightarrow> bool \<Rightarrow> 'w \<Rightarrow> STATUS \<times> fnptr \<times> 'w"
  fl_createWithLevelFiltering :: "UINT64 \<Rightarrow> UINT64 \<Rightarrow> PCHAR \<Rightarrow> bool \<Rightarrow> bool \<Rightarrow> bool \<Rightarrow> UINT32 \<Rightarrow> 'w \<Rightarrow> STATUS \<times> fnptr \<times> 'w"
  fl_free :: "'w \<Rightarrow> STATUS \<times> 'w"

definition freeFileLoggerPlatformCallbacksFunc :: "'w logger_env \<Rightarrow> UINT64 option \<Rightarrow> 'w \<Rightarrow> STATUS \<times> 'w" where
  "freeFileLoggerPlatformCallbacksFunc L customData w = fl_free L w"

definition file_logger_callbacks :: "fnptr \<Rightarrow> PlatformCallbacks" where
  "file_logger_callbacks logFn = zero_PlatformCallbacks\<lparr>pl_customData := 0, pl_version := PLATFORM_CALLBACKS_CURRENT_VERSION,
     pl_logPrintFn := logFn, pl_freePlatformCallbacksFn := Some (C_FUN ''freeFileLoggerPlatformCallbacksFunc'')\<rparr>"

text \<open>What both functions do with the creation of their logger. Every failure releases the logger.\<close>

definition add_file_logger ::
    "'w logger_env \<Rightarrow> CallbacksProvider option \<Rightarrow> ('w \<Rightarrow> STATUS \<times> fnptr \<times> 'w) \<Rightarrow> 'w \<Rightarrow> STATUS \<times> CallbacksProvider option \<times> 'w" where
  "add_file_logger L pClientCallbacks create w =
     (case (case pClientCallbacks of
         None \<Rightarrow> (STATUS_NULL_ARG, None, w)
       | Some p \<Rightarrow> (case create w of (st, logFn, w1) \<Rightarrow>
           if STATUS_FAILED st then (st, Some p, w1)
           else (case setPlatformCallbacks (Some p) (Some (file_logger_callbacks logFn)) of (st1, p1) \<Rightarrow> (st1, p1, w1)))) of
      (st, p, w2) \<Rightarrow>
        (if st = STATUS_FILE_LOGGER_INDEX_FILE_INVALID_SIZE then STATUS_FILE_LOGGER_INDEX_FILE_TOO_LARGE else st,
         p, if STATUS_SUCCEEDED st then w2 else snd (fl_free L w2)))"

definition addFileLoggerPlatformCallbacksProvider ::
    "'w logger_env \<Rightarrow> CallbacksProvider option \<Rightarrow> UINT64 \<Rightarrow> UINT64 \<Rightarrow> PCHAR \<Rightarrow> bool \<Rightarrow> 'w \<Rightarrow> STATUS \<times> CallbacksProvider option \<times> 'w" where
  "addFileLoggerPlatformCallbacksProvider L pClientCallbacks stringBufferSize maxLogFileCount logFileDir printLog =
     add_file_logger L pClientCallbacks (fl_create L stringBufferSize maxLogFileCount logFileDir printLog False)"

definition addFileLoggerWithFilteringPlatformCallbacksProvider ::
    "'w logger_env \<Rightarrow> CallbacksProvider option \<Rightarrow> UINT64 \<Rightarrow> UINT64 \<Rightarrow> PCHAR \<Rightarrow> bool \<Rightarrow> bool \<Rightarrow> UINT32 \<Rightarrow> 'w
      \<Rightarrow> STATUS \<times> CallbacksProvider option \<times> 'w" where
  "addFileLoggerWithFilteringPlatformCallbacksProvider L pClientCallbacks stringBufferSize maxLogFileCount logFileDir printLog enableAllLevels level =
     add_file_logger L pClientCallbacks
       (fl_createWithLevelFiltering L stringBufferSize maxLogFileCount logFileDir printLog False enableAllLevels level)"

subsection \<open>What they are for\<close>

lemma stream_callbacks_lifecycle:
  assumes "calloc h = Some p" "p \<noteq> 0" "h p = None"
  shows "\<exists>h'. createStreamCallbacks calloc h True = (STATUS_SUCCESS, Some p, h') \<and> h' p = Some (default_stream_callbacks p) \<and>
    defaultFreeStreamCallbacksFn h' (Some (st_customData (default_stream_callbacks p))) = Some (STATUS_SUCCESS, h)"
proof -
  have "(h(p \<mapsto> default_stream_callbacks p))(p := None) = h" using assms(3) by auto
  moreover have "st_customData (default_stream_callbacks p) = p" by (simp add: default_stream_callbacks_def)
  ultimately show ?thesis using assms(1,2) by (simp add: createStreamCallbacks_def defaultFreeStreamCallbacksFn_def freeStreamCallbacks_def)
qed

text \<open>
  A file logger changes the print function of the client callbacks and nothing else of them; when it
  cannot be added the provider is as it was and the logger of the process is released.
\<close>

lemma file_logger_outcome:
  assumes "add_file_logger L (Some p) create w = (st, p', w')"
  shows "(st = STATUS_SUCCESS \<longrightarrow> (\<exists>logFn. create w = (STATUS_SUCCESS, logFn, w') \<and>
      p' = Some (p\<lparr>platformCallbacks := file_logger_callbacks logFn,
        clientCallbacks := (clientCallbacks p)\<lparr>cc_logPrintFn := if logFn = None then cc_logPrintFn (clientCallbacks p) else logFn\<rparr>\<rparr>))) \<and>
    (st \<noteq> STATUS_SUCCESS \<longrightarrow> p' = Some p \<and> (\<exists>w1. w' = snd (fl_free L w1)))"
  using assms
  by (auto simp: add_file_logger_def setPlatformCallbacks_def set_platform_aggregates_def set_slot_def file_logger_callbacks_def
    zero_PlatformCallbacks_def PlatformCallbacks.make_def STATUS_FAILED_iff STATUS_SUCCEEDED_iff split: prod.splits if_splits option.splits)

end
