(* ===== verification/Curl_Requests.thy ===== *)
theory Curl_Requests
  imports Curl_Response Auth_Callbacks Continuous_Retry
begin

text \<open>
  The state of the curl API callbacks (\<open>CurlApiCallbacks.h\<close>) and the objects of the requests that run
  (\<open>Request.c\<close>).

  \<^item> The object, the objects it points to and the threads it starts are one record. Requests and
    endpoint trackers are objects at addresses; a request owns its response and its headers.
  \<^item> \<open>ca_locks\<close> lists the locks that are held. An operation is modelled as it runs while no other thread
    holds a lock that it takes; where it waits for other threads it has a parameter for what they do.
  \<^item> \<open>ca_threads\<close> lists the handler threads that run: id, function, request. \<open>ca_cancelled\<close> lists those
    that were told to end: cancelling only asks a thread to end, and until it does it still has the
    address of its request.
  \<^item> Hash table and doubly linked list belong to the platform independent code, and so do the events
    that report a result to it: these are parameters. \<open>None\<close> as a result is undefined behaviour or an
    abort of the process.
\<close>

record 'h table_ops = "'h hash_ops" +
  hashTableContains :: "'h \<Rightarrow> UINT64 \<Rightarrow> STATUS \<times> bool"
  hashTableIsEmpty :: "'h \<Rightarrow> STATUS \<times> bool"
  hashTableClear :: "'h \<Rightarrow> STATUS \<times> 'h"
  hashTableGetAllEntries :: "'h \<Rightarrow> nat \<Rightarrow> STATUS \<times> (UINT64 \<times> UINT64) list"

record ('d, 'e) double_list_ops =
  doubleListGetHeadNode :: "'d \<Rightarrow> STATUS \<times> 'e option"
  doubleListGetNextNode :: "'d \<Rightarrow> 'e \<Rightarrow> STATUS \<times> 'e option"
  doubleListGetNodeData :: "'d \<Rightarrow> 'e \<Rightarrow> STATUS \<times> UINT64"
  doubleListGetNodeCount :: "'d \<Rightarrow> STATUS \<times> nat"
  doubleListInsertItemTail :: "'d \<Rightarrow> UINT64 \<Rightarrow> STATUS \<times> 'd"
  doubleListDeleteNode :: "'d \<Rightarrow> 'e \<Rightarrow> STATUS \<times> 'd"

datatype API_CALL_CACHE_TYPE = API_CALL_CACHE_TYPE_NONE | API_CALL_CACHE_TYPE_ENDPOINT_ONLY | API_CALL_CACHE_TYPE_ALL

record EndpointTracker =
  et_endpointLastUpdateTime :: UINT64
  et_streamingEndpoint :: string

datatype curl_lock = ActiveUploadsLock | ActiveRequestsLock | CachedEndpointsLock | ShutdownLock | StartLock UINT64

record ('h, 'd, 'l, 'q, 'x) CurlApiCallbacks =
  ca_pCallbacksProvider :: "CallbacksProvider option"
  ca_shutdown :: bool
  ca_region :: string
  ca_userAgent :: string
  ca_controlPlaneUrl :: string
  ca_certPath :: string
  ca_shutdownTimeout :: UINT64
  ca_pActiveUploads :: 'd
  ca_pActiveRequests :: 'h
  ca_pCachedEndpoints :: 'h
  ca_pStreamsShuttingDown :: 'h
  ca_streamingRequestCount :: UINT64
  ca_cacheUpdatePeriod :: UINT64
  ca_cacheType :: API_CALL_CACHE_TYPE
  ca_requests :: "UINT64 \<Rightarrow> ('l, 'q) CurlRequest option"
  ca_trackers :: "UINT64 \<Rightarrow> EndpointTracker option"
  ca_credentials :: cheap
  ca_locks :: "curl_lock list"
  ca_threads :: "(nat \<times> string \<times> UINT64) list"
  ca_cancelled :: "(nat \<times> string \<times> UINT64) list"
  ca_world :: "'x curl_world"

text \<open>
  What a stream description holds. A call that fails early passes an array or a description that was
  never set: \<open>None\<close> as a description, and \<open>ka_stack\<close> as the text of an array.
\<close>

record StreamDescription =
  sd_version :: UINT32
  sd_deviceName :: string
  sd_streamName :: string
  sd_contentType :: string
  sd_updateVersion :: string
  sd_streamArn :: string
  sd_kmsKeyId :: string
  sd_streamStatus :: UINT32
  sd_creationTime :: UINT64
  sd_retention :: UINT64

datatype pic_event =
    CreateDeviceResultEvent UINT64 SERVICE_CALL_RESULT string
  | CreateStreamResultEvent STREAM_HANDLE SERVICE_CALL_RESULT string
  | DescribeStreamResultEvent STREAM_HANDLE SERVICE_CALL_RESULT "StreamDescription option"
  | GetStreamingEndpointResultEvent STREAM_HANDLE SERVICE_CALL_RESULT string
  | TagResourceResultEvent STREAM_HANDLE SERVICE_CALL_RESULT
  | PutStreamResultEvent STREAM_HANDLE SERVICE_CALL_RESULT UPLOAD_HANDLE
  | StreamTerminated STREAM_HANDLE UPLOAD_HANDLE SERVICE_CALL_RESULT

text \<open>The constants of the platform independent code, and what it knows of a stream.\<close>

record api_consts =
  kc_MAX_ARN_LEN :: nat
  kc_MAX_DEVICE_NAME_LEN :: nat
  kc_MAX_CONTENT_TYPE_LEN :: nat
  kc_MAX_STREAM_NAME_LEN :: nat
  kc_MAX_UPDATE_VERSION_LEN :: nat
  kc_MAX_TAG_COUNT :: nat
  kc_MAX_TAG_NAME_LEN :: nat
  kc_MAX_TAG_VALUE_LEN :: nat
  kc_STREAM_DESCRIPTION_CURRENT_VERSION :: UINT32
  kc_STREAM_STATUS_CREATING :: UINT32
  kc_STREAM_STATUS_ACTIVE :: UINT32
  kc_STREAM_STATUS_UPDATING :: UINT32
  kc_STREAM_STATUS_DELETING :: UINT32
  kc_INVALID_UPLOAD_HANDLE_VALUE :: UPLOAD_HANDLE
  kc_HUNDREDS_OF_NANOS_IN_AN_HOUR :: UINT64
  kc_MAX_TIMESTAMP_STR_LEN :: nat

record known_stream =
  ks_name :: string
  ks_contentType :: string
  ks_kmsKeyId :: string
  ks_retention :: UINT64

record ('h, 'd, 'e, 'l, 'n, 'q, 'x) api_env =
  ka_curl :: "('l, 'n, 'q, 'x) curl_env"
  ka_signer :: "('l, 'n) signer_env"
  ka_auth :: "'x auth_env"
  ka_consts :: api_consts
  ka_table :: "'h table_ops"
  ka_list :: "('d, 'e) double_list_ops"
  ka_calloc :: "(UINT64 \<Rightarrow> ('l, 'q) CurlRequest option) \<Rightarrow> UINT64 option"
  ka_malloc :: "(UINT64 \<Rightarrow> EndpointTracker option) \<Rightarrow> UINT64 option"
  ka_streamInfo :: "STREAM_HANDLE \<Rightarrow> STATUS \<times> known_stream"
  ka_getCurrentTime :: "'x \<Rightarrow> UINT64"
  ka_strtoui64 :: "string \<Rightarrow> STATUS \<times> UINT64"
  ka_threadCreate :: "string \<Rightarrow> UINT64 \<Rightarrow> 'x \<Rightarrow> STATUS \<times> nat"
  ka_threadDetach :: "nat \<Rightarrow> 'x \<Rightarrow> STATUS"
  ka_event :: "pic_event \<Rightarrow> 'x \<Rightarrow> STATUS \<times> 'x"
  ka_stack :: string

subsection \<open>Steps of the operations\<close>

text \<open>\<open>CHK_STATUS\<close>: go on only behind success.\<close>

definition chk :: "(STATUS \<times> 's) option \<Rightarrow> ('s \<Rightarrow> (STATUS \<times> 's) option) \<Rightarrow> (STATUS \<times> 's) option" where
  "chk x k = do { (st, s) \<leftarrow> x; if STATUS_FAILED st then Some (st, s) else k s }"

lemma chk_simps [simp]:
  "chk (Some (STATUS_SUCCESS, s)) k = k s" "st \<noteq> STATUS_SUCCESS \<Longrightarrow> chk (Some (st, s)) k = Some (st, s)" "chk None k = None"
  by (auto simp: chk_def)

lemma chk_Some: "chk x k = Some (st, s) \<longleftrightarrow>
    x = Some (st, s) \<and> st \<noteq> STATUS_SUCCESS \<or> (\<exists>s'. x = Some (STATUS_SUCCESS, s') \<and> k s' = Some (st, s))"
  by (cases x) (auto simp: chk_def split: if_splits prod.splits)

definition lock :: "curl_lock \<Rightarrow> ('h, 'd, 'l, 'q, 'x) CurlApiCallbacks \<Rightarrow> ('h, 'd, 'l, 'q, 'x) CurlApiCallbacks" where
  "lock l s = s\<lparr>ca_locks := l # ca_locks s\<rparr>"

definition unlock :: "curl_lock \<Rightarrow> ('h, 'd, 'l, 'q, 'x) CurlApiCallbacks \<Rightarrow> ('h, 'd, 'l, 'q, 'x) CurlApiCallbacks" where
  "unlock l s = s\<lparr>ca_locks := remove1 l (ca_locks s)\<rparr>"

text \<open>A part of an operation that holds a lock and releases it on every path.\<close>

definition with_lock ::
    "curl_lock \<Rightarrow> (('h, 'd, 'l, 'q, 'x) CurlApiCallbacks \<Rightarrow> (STATUS \<times> ('h, 'd, 'l, 'q, 'x) CurlApiCallbacks) option)
      \<Rightarrow> ('h, 'd, 'l, 'q, 'x) CurlApiCallbacks \<Rightarrow> (STATUS \<times> ('h, 'd, 'l, 'q, 'x) CurlApiCallbacks) option" where
  "with_lock l f s = map_option (apsnd (unlock l)) (f (lock l s))"

text \<open>
  The callbacks get the object as a number; NULL and an object without a provider are refused.
\<close>

definition with_callbacks ::
    "STATUS \<Rightarrow> (('h, 'd, 'l, 'q, 'x) CurlApiCallbacks \<Rightarrow> (STATUS \<times> ('h, 'd, 'l, 'q, 'x) CurlApiCallbacks) option)
      \<Rightarrow> ('h, 'd, 'l, 'q, 'x) CurlApiCallbacks option \<Rightarrow> (STATUS \<times> ('h, 'd, 'l, 'q, 'x) CurlApiCallbacks option) option" where
  "with_callbacks st f customData = (case customData of
     None \<Rightarrow> Some (st, None)
   | Some s \<Rightarrow> if ca_pCallbacksProvider s = None then Some (st, Some s) else map_option (apsnd Some) (f s))"

definition sleep :: "UINT64 \<Rightarrow> ('h, 'd, 'l, 'q, 'x) CurlApiCallbacks \<Rightarrow> ('h, 'd, 'l, 'q, 'x) CurlApiCallbacks" where
  "sleep t s = s\<lparr>ca_world := (ca_world s)\<lparr>cw_sleeps := cw_sleeps (ca_world s) @ [t]\<rparr>\<rparr>"

definition post_event ::
    "('h, 'd, 'e, 'l, 'n, 'q, 'x) api_env \<Rightarrow> pic_event \<Rightarrow> ('h, 'd, 'l, 'q, 'x) CurlApiCallbacks
      \<Rightarrow> STATUS \<times> ('h, 'd, 'l, 'q, 'x) CurlApiCallbacks" where
  "post_event E ev s = (case ka_event E ev (cw_ext (ca_world s)) of (st, x) \<Rightarrow> (st, s\<lparr>ca_world := (ca_world s)\<lparr>cw_ext := x\<rparr>\<rparr>))"

definition notify_result ::
    "('h, 'd, 'e, 'l, 'n, 'q, 'x) api_env \<Rightarrow> STATUS \<Rightarrow> STREAM_HANDLE \<Rightarrow> ('h, 'd, 'l, 'q, 'x) CurlApiCallbacks
      \<Rightarrow> ('h, 'd, 'l, 'q, 'x) CurlApiCallbacks" where
  "notify_result E status streamHandle s =
     s\<lparr>ca_world := (ca_world s)\<lparr>cw_ext := snd (notifyCallResult (ka_auth E) (ca_pCallbacksProvider s) status streamHandle (cw_ext (ca_world s)))\<rparr>\<rparr>"

text \<open>
  \<open>THREAD_CANCEL\<close>: the thread is asked to end. It does not end there and then, and it keeps what it has:
  from now on it is one of the cancelled threads.
\<close>

definition cancel_thread :: "nat option \<Rightarrow> ('h, 'd, 'l, 'q, 'x) CurlApiCallbacks \<Rightarrow> ('h, 'd, 'l, 'q, 'x) CurlApiCallbacks" where
  "cancel_thread tid s = s\<lparr>ca_threads := filter (\<lambda>(t, _). Some t \<noteq> tid) (ca_threads s),
     ca_cancelled := ca_cancelled s @ filter (\<lambda>(t, _). Some t = tid) (ca_threads s)\<rparr>"

subsection \<open>Requests\<close>

text \<open>
  The release of a request. When another thread holds the lock of the response, the response stays
  allocated and is lost. A request whose list of headers was not created is undefined, as the count
  of \<open>removeRequestHeaders\<close> is not set then.
\<close>

definition freeCurlRequest ::
    "('h, 'd, 'e, 'l, 'n, 'q, 'x) api_env \<Rightarrow> UINT64 option \<Rightarrow> ('h, 'd, 'l, 'q, 'x) CurlApiCallbacks
      \<Rightarrow> (STATUS \<times> ('h, 'd, 'l, 'q, 'x) CurlApiCallbacks) option" where
  "freeCurlRequest E ppCurlRequest s = (case ppCurlRequest of
     None \<Rightarrow> Some (STATUS_NULL_ARG, s)
   | Some p \<Rightarrow>
       if p = 0 then Some (STATUS_SUCCESS, s)
       else do {
         rq \<leftarrow> ca_requests s p;
         w1 \<leftarrow> (case cq_pCurlResponse rq of
            None \<Rightarrow> Some (ca_world s)
          | Some r \<Rightarrow> map_option (\<lambda>(_, _, w). w) (freeCurlResponse (ka_curl E) (cq_pCurlApiCallbacks rq) (Some (Some r)) (ca_world s)));
         (_, _, hh) \<leftarrow> removeRequestHeaders (ku_request (ka_curl E)) (Some (cq_requestInfo rq)) (cw_headers w1);
         Some (STATUS_SUCCESS, s\<lparr>ca_requests := (ca_requests s)(p := None), ca_world := w1\<lparr>cw_headers := hh\<rparr>\<rparr>)
       })"

definition new_CurlRequest ::
    "('l, 'n) request_env \<Rightarrow> HTTP_REQUEST_VERB \<Rightarrow> string \<Rightarrow> PCHAR \<Rightarrow> STREAM_HANDLE \<Rightarrow> string \<Rightarrow> UINT64 \<Rightarrow> UINT64 \<Rightarrow> UINT64
      \<Rightarrow> UINT64 \<Rightarrow> PCHAR \<Rightarrow> UINT64 \<Rightarrow> UPLOAD_HANDLE \<Rightarrow> ('l, 'q) CurlRequest" where
  "new_CurlRequest E verb url body streamHandle region currentTime connectionTimeout completionTimeout callAfter certPath pAwsCredentials
      uploadHandle =
     \<lparr>cq_blockedInCurl = False,
      cq_requestInfo = \<lparr>ri_terminating = False, ri_verb = verb, ri_body = body,
        ri_bodySize = (case body of None \<Rightarrow> 0 | Some b \<Rightarrow> of_nat (length b)), ri_url = STRNCPY url (re_maxUri E),
        ri_certPath = optional_path (re_maxPath E) certPath, ri_sslCertPath = '''', ri_sslPrivateKeyPath = '''',
        ri_certType = SSL_CERTIFICATE_TYPE_NOT_SPECIFIED, ri_region = STRNCPY region MAX_REGION_NAME_LEN, ri_currentTime = currentTime,
        ri_completionTimeout = completionTimeout, ri_connectionTimeout = connectionTimeout, ri_callAfter = callAfter,
        ri_lowSpeedLimit = 0, ri_lowSpeedTimeLimit = 0, ri_pAwsCredentials = pAwsCredentials, ri_pRequestHeaders = None\<rparr>,
      cq_streamName = '''', cq_streaming = (body = None), cq_streamHandle = streamHandle, cq_pCurlApiCallbacks = Some 1,
      cq_pCurlResponse = None, cq_startLock = None, cq_threadId = None, cq_uploadHandle = (if body = None then uploadHandle else 0)\<rparr>"

text \<open>The parts that can fail, in their order: list of headers, lock, name of the stream, response.\<close>

definition create_request_parts ::
    "('h, 'd, 'e, 'l, 'n, 'q, 'x) api_env \<Rightarrow> ('l, 'q) CurlRequest \<Rightarrow> 'x curl_world \<Rightarrow> (STATUS \<times> ('l, 'q) CurlRequest \<times> 'x curl_world) option" where
  "create_request_parts E rq w = (case re_listCreate (ku_request (ka_curl E)) of (st, l) \<Rightarrow>
     let rq1 = rq\<lparr>cq_requestInfo := (cq_requestInfo rq)\<lparr>ri_pRequestHeaders := l\<rparr>\<rparr> in
     if STATUS_FAILED st then Some (st, rq1, w)
     else if ku_createMutex (ka_curl E) = None then Some (STATUS_INVALID_OPERATION, rq1, w)
     else let rq2 = rq1\<lparr>cq_startLock := ku_createMutex (ka_curl E)\<rparr> in
     (case ka_streamInfo E (cq_streamHandle rq) of (st2, info) \<Rightarrow>
       if STATUS_FAILED st2 then Some (st2, rq2, w)
       else let rq3 = rq2\<lparr>cq_streamName := STRNCPY (ks_name info) (kc_MAX_STREAM_NAME_LEN (ka_consts E))\<rparr> in
       map_option (\<lambda>(st3, r, w'). (st3, rq3\<lparr>cq_pCurlResponse := r\<rparr>, w')) (createCurlResponse (ka_curl E) (Some rq3) True w)))"

text \<open>The result has the address of the request, 0 for NULL.\<close>

definition createCurlRequest ::
    "('h, 'd, 'e, 'l, 'n, 'q, 'x) api_env \<Rightarrow> HTTP_REQUEST_VERB \<Rightarrow> PCHAR \<Rightarrow> PCHAR \<Rightarrow> STREAM_HANDLE \<Rightarrow> string \<Rightarrow> UINT64 \<Rightarrow> UINT64 \<Rightarrow> UINT64
      \<Rightarrow> UINT64 \<Rightarrow> PCHAR \<Rightarrow> UINT64 \<Rightarrow> bool \<Rightarrow> ('h, 'd, 'l, 'q, 'x) CurlApiCallbacks
      \<Rightarrow> (STATUS \<times> UINT64 \<times> ('h, 'd, 'l, 'q, 'x) CurlApiCallbacks) option" where
  "createCurlRequest E verb url body streamHandle region currentTime connectionTimeout completionTimeout callAfter certPath pAwsCredentials
      ppCurlRequest s = (case url of
     None \<Rightarrow> Some (STATUS_NULL_ARG, 0, s)
   | Some u \<Rightarrow>
       if \<not> ppCurlRequest \<or> ca_pCallbacksProvider s = None then Some (STATUS_NULL_ARG, 0, s)
       else (case ka_calloc E (ca_requests s) of
           None \<Rightarrow> Some (STATUS_NOT_ENOUGH_MEMORY, 0, s)
         | Some p \<Rightarrow>
             let rq = new_CurlRequest (ku_request (ka_curl E)) verb u body streamHandle region currentTime connectionTimeout
                   completionTimeout callAfter certPath pAwsCredentials (ca_streamingRequestCount s);
                 s1 = (if body = None then s\<lparr>ca_streamingRequestCount := ca_streamingRequestCount s + 1\<rparr> else s)
             in do {
               (st, rq1, w) \<leftarrow> create_request_parts E rq (ca_world s);
               let s2 = s1\<lparr>ca_requests := (ca_requests s)(p \<mapsto> rq1), ca_world := w\<rparr>;
               if STATUS_FAILED st then map_option (\<lambda>(_, s3). (st, 0, s3)) (freeCurlRequest E (Some p) s2)
               else Some (STATUS_SUCCESS, p, s2)
             }))"

end
