(* ===== verification/Curl_Shutdown.thy ===== *)
theory Curl_Shutdown
  imports Curl_Requests
begin

text \<open>
  How the curl API callbacks end what runs (\<open>CurlApiCallbacks.c\<close>): the requests, the uploads and the
  cached endpoints of a stream or of all streams, the shutdown of a stream and of everything, and the
  functions that find an upload by its handle.
\<close>

definition CURL_API_CALLBACKS_SHUTDOWN_TIMEOUT :: UINT64 where
  "CURL_API_CALLBACKS_SHUTDOWN_TIMEOUT = 50 * HUNDREDS_OF_NANOS_IN_A_MILLISECOND"

definition CURL_API_DEFAULT_SHUTDOWN_POLLING_INTERVAL :: UINT64 where
  "CURL_API_DEFAULT_SHUTDOWN_POLLING_INTERVAL = 200 * HUNDREDS_OF_NANOS_IN_A_MILLISECOND"

definition STREAM_MAPPING_HASH_TABLE_BUCKET_LENGTH :: nat where "STREAM_MAPPING_HASH_TABLE_BUCKET_LENGTH = 2"
definition STREAM_MAPPING_HASH_TABLE_BUCKET_COUNT :: nat where "STREAM_MAPPING_HASH_TABLE_BUCKET_COUNT = 100"

definition IS_VALID_STREAM_HANDLE :: "('h, 'd, 'e, 'l, 'n, 'q, 'x) api_env \<Rightarrow> STREAM_HANDLE \<Rightarrow> bool" where
  "IS_VALID_STREAM_HANDLE E h \<longleftrightarrow> h \<noteq> ku_INVALID_STREAM (ka_curl E)"

definition IS_VALID_UPLOAD_HANDLE :: "('h, 'd, 'e, 'l, 'n, 'q, 'x) api_env \<Rightarrow> UPLOAD_HANDLE \<Rightarrow> bool" where
  "IS_VALID_UPLOAD_HANDLE E h \<longleftrightarrow> h \<noteq> kc_INVALID_UPLOAD_HANDLE_VALUE (ka_consts E)"

abbreviation cq_terminating :: "('l, 'q) CurlRequest \<Rightarrow> bool" where
  "cq_terminating rq \<equiv> ri_terminating (cq_requestInfo rq)"

definition set_terminating :: "('l, 'q) CurlRequest \<Rightarrow> ('l, 'q) CurlRequest" where
  "set_terminating rq = rq\<lparr>cq_requestInfo := (cq_requestInfo rq)\<lparr>ri_terminating := True\<rparr>\<rparr>"

text \<open>
  What happens to one request: its thread is cancelled when it was told to end before and still hangs
  in curl, or it is told to end, or nothing when the thread of the request itself is at its end.
\<close>

definition stop_request ::
    "UINT64 \<Rightarrow> bool \<Rightarrow> bool \<Rightarrow> UINT64 \<Rightarrow> ('h, 'd, 'l, 'q, 'x) CurlApiCallbacks \<Rightarrow> ('h, 'd, 'l, 'q, 'x) CurlApiCallbacks option" where
  "stop_request timeout fromCurlThread killThread p s = do {
     rq \<leftarrow> ca_requests s p;
     if killThread \<and> cq_terminating rq
     then Some (if cq_blockedInCurl rq then cancel_thread (cq_threadId rq) s else s)
     else if \<not> fromCurlThread
     then let rq1 = set_terminating rq in
       if cq_blockedInCurl rq1
       then (case terminateCurlSession (cq_pCurlResponse rq1) timeout (ca_world s) of (r, w) \<Rightarrow>
         Some (s\<lparr>ca_requests := (ca_requests s)(p \<mapsto> rq1\<lparr>cq_pCurlResponse := r\<rparr>), ca_world := w\<rparr>))
       else Some (s\<lparr>ca_requests := (ca_requests s)(p \<mapsto> rq1)\<rparr>)
     else Some s
   }"

text \<open>Whether the request is to be released then.\<close>

definition to_release :: "bool \<Rightarrow> bool \<Rightarrow> UINT64 \<Rightarrow> ('h, 'd, 'l, 'q, 'x) CurlApiCallbacks \<Rightarrow> bool option" where
  "to_release fromCurlThread killThread p s =
     map_option (\<lambda>rq. fromCurlThread \<or> killThread \<and> cq_terminating rq) (ca_requests s p)"

subsection \<open>Active requests\<close>

definition stop_entry ::
    "('h, 'd, 'e, 'l, 'n, 'q, 'x) api_env \<Rightarrow> STREAM_HANDLE \<Rightarrow> UINT64 \<Rightarrow> bool \<Rightarrow> bool \<Rightarrow> UINT64 \<times> UINT64
      \<Rightarrow> ('h, 'd, 'l, 'q, 'x) CurlApiCallbacks \<Rightarrow> (STATUS \<times> ('h, 'd, 'l, 'q, 'x) CurlApiCallbacks) option" where
  "stop_entry E streamHandle timeout fromCurlThread killThread entry s = do {
     s1 \<leftarrow> stop_request timeout fromCurlThread killThread (snd entry) s;
     release \<leftarrow> to_release fromCurlThread killThread (snd entry) s1;
     if \<not> release then Some (STATUS_SUCCESS, s1)
     else (case hashTableRemove (ka_table E) (ca_pActiveRequests s1) streamHandle of (st, t) \<Rightarrow>
       let s2 = s1\<lparr>ca_pActiveRequests := t\<rparr> in
       if STATUS_FAILED st then Some (st, s2) else freeCurlRequest E (Some (snd entry)) s2)
   }"

primrec for_entries ::
    "(UINT64 \<times> UINT64 \<Rightarrow> 's \<Rightarrow> (STATUS \<times> 's) option) \<Rightarrow> (UINT64 \<times> UINT64) list \<Rightarrow> 's \<Rightarrow> (STATUS \<times> 's) option" where
  "for_entries f [] s = Some (STATUS_SUCCESS, s)"
| "for_entries f (e # es) s = chk (f e s) (for_entries f es)"

text \<open>
  The entries to look at: the one of the stream, if there is one, or all of the table. When a release
  of all of them is asked for, the key that is removed is nevertheless the handle of the argument.
\<close>

definition active_entries ::
    "('h, 'd, 'e, 'l, 'n, 'q, 'x) api_env \<Rightarrow> STREAM_HANDLE \<Rightarrow> 'h \<Rightarrow> STATUS \<times> (UINT64 \<times> UINT64) list" where
  "active_entries E streamHandle t =
     (if IS_VALID_STREAM_HANDLE E streamHandle
      then (case hashTableGet (ka_table E) t streamHandle of (st, v) \<Rightarrow>
        if st = STATUS_HASH_KEY_NOT_PRESENT then (STATUS_SUCCESS, [])
        else if STATUS_FAILED st then (st, []) else (STATUS_SUCCESS, [(streamHandle, v)]))
      else hashTableGetAllEntries (ka_table E) t (STREAM_MAPPING_HASH_TABLE_BUCKET_LENGTH * STREAM_MAPPING_HASH_TABLE_BUCKET_COUNT))"

definition shutdownActiveRequests ::
    "('h, 'd, 'e, 'l, 'n, 'q, 'x) api_env \<Rightarrow> STREAM_HANDLE \<Rightarrow> UINT64 \<Rightarrow> bool \<Rightarrow> bool
      \<Rightarrow> ('h, 'd, 'l, 'q, 'x) CurlApiCallbacks \<Rightarrow> (STATUS \<times> ('h, 'd, 'l, 'q, 'x) CurlApiCallbacks) option" where
  "shutdownActiveRequests E streamHandle timeout fromCurlThread killThread = with_lock ActiveRequestsLock (\<lambda>s.
     (case hashTableIsEmpty (ka_table E) (ca_pActiveRequests s) of (st, isEmpty) \<Rightarrow>
       if STATUS_FAILED st \<or> isEmpty then Some (st, s)
       else (case active_entries E streamHandle (ca_pActiveRequests s) of (st1, es) \<Rightarrow>
         if STATUS_FAILED st1 then Some (st1, s)
         else for_entries (stop_entry E streamHandle timeout fromCurlThread killThread) es s)))"

definition curlApiCallbacksShutdownActiveRequests ::
    "('h, 'd, 'e, 'l, 'n, 'q, 'x) api_env \<Rightarrow> ('h, 'd, 'l, 'q, 'x) CurlApiCallbacks option \<Rightarrow> STREAM_HANDLE \<Rightarrow> UINT64 \<Rightarrow> bool \<Rightarrow> bool
      \<Rightarrow> (STATUS \<times> ('h, 'd, 'l, 'q, 'x) CurlApiCallbacks option) option" where
  "curlApiCallbacksShutdownActiveRequests E pCurlApiCallbacks streamHandle timeout fromCurlThread killThread =
     with_callbacks STATUS_INVALID_ARG (shutdownActiveRequests E streamHandle timeout fromCurlThread killThread) pCurlApiCallbacks"

subsection \<open>Cached endpoints\<close>

definition shutdownCachedEndpoints ::
    "('h, 'd, 'e, 'l, 'n, 'q, 'x) api_env \<Rightarrow> STREAM_HANDLE \<Rightarrow> bool
      \<Rightarrow> ('h, 'd, 'l, 'q, 'x) CurlApiCallbacks \<Rightarrow> (STATUS \<times> ('h, 'd, 'l, 'q, 'x) CurlApiCallbacks) option" where
  "shutdownCachedEndpoints E streamHandle removeFromTable = with_lock CachedEndpointsLock (\<lambda>s.
     (case hashTableGet (ka_table E) (ca_pCachedEndpoints s) streamHandle of (st, v) \<Rightarrow>
       if st = STATUS_HASH_KEY_NOT_PRESENT then Some (STATUS_SUCCESS, s)
       else if STATUS_FAILED st then Some (st, s)
       else (case (if removeFromTable then hashTableRemove (ka_table E) (ca_pCachedEndpoints s) streamHandle
                   else (STATUS_SUCCESS, ca_pCachedEndpoints s)) of (st1, t) \<Rightarrow>
         let s1 = s\<lparr>ca_pCachedEndpoints := t\<rparr> in
         if STATUS_FAILED st1 then Some (st1, s1)
         else if v = 0 then Some (STATUS_SUCCESS, s1)
         else if ca_trackers s v = None then None
         else Some (STATUS_SUCCESS, s1\<lparr>ca_trackers := (ca_trackers s)(v := None)\<rparr>))))"

definition curlApiCallbacksShutdownCachedEndpoints ::
    "('h, 'd, 'e, 'l, 'n, 'q, 'x) api_env \<Rightarrow> ('h, 'd, 'l, 'q, 'x) CurlApiCallbacks option \<Rightarrow> STREAM_HANDLE \<Rightarrow> bool
      \<Rightarrow> (STATUS \<times> ('h, 'd, 'l, 'q, 'x) CurlApiCallbacks option) option" where
  "curlApiCallbacksShutdownCachedEndpoints E pCurlApiCallbacks streamHandle removeFromTable =
     with_callbacks STATUS_INVALID_ARG (shutdownCachedEndpoints E streamHandle removeFromTable) pCurlApiCallbacks"

definition curlApiCallbacksCachedEndpointsTableShutdownCallback ::
    "('h, 'd, 'e, 'l, 'n, 'q, 'x) api_env \<Rightarrow> ('h, 'd, 'l, 'q, 'x) CurlApiCallbacks option \<Rightarrow> (UINT64 \<times> UINT64) option
      \<Rightarrow> (STATUS \<times> ('h, 'd, 'l, 'q, 'x) CurlApiCallbacks option) option" where
  "curlApiCallbacksCachedEndpointsTableShutdownCallback E customData pHashEntry = (case pHashEntry of
     None \<Rightarrow> Some (STATUS_INVALID_ARG, customData)
   | Some e \<Rightarrow> with_callbacks STATUS_INVALID_ARG (shutdownCachedEndpoints E (fst e) False) customData)"

definition curlApiCallbacksMarkStreamShuttingdownCallback ::
    "('h, 'd, 'e, 'l, 'n, 'q, 'x) api_env \<Rightarrow> ('h, 'd, 'l, 'q, 'x) CurlApiCallbacks option \<Rightarrow> (UINT64 \<times> UINT64) option
      \<Rightarrow> (STATUS \<times> ('h, 'd, 'l, 'q, 'x) CurlApiCallbacks option) option" where
  "curlApiCallbacksMarkStreamShuttingdownCallback E customData pHashEntry = (case pHashEntry of
     None \<Rightarrow> Some (STATUS_INVALID_ARG, customData)
   | Some e \<Rightarrow> with_callbacks STATUS_INVALID_ARG (\<lambda>s.
       (case hashTablePut (ka_table E) (ca_pStreamsShuttingDown s) (fst e) (fst e) of (st, t) \<Rightarrow>
          Some (st, s\<lparr>ca_pStreamsShuttingDown := t\<rparr>))) customData)"

subsection \<open>Active uploads\<close>

definition upload_matches ::
    "('h, 'd, 'e, 'l, 'n, 'q, 'x) api_env \<Rightarrow> STREAM_HANDLE \<Rightarrow> UPLOAD_HANDLE \<Rightarrow> ('l, 'q) CurlRequest \<Rightarrow> bool" where
  "upload_matches E streamHandle uploadHandle rq \<longleftrightarrow>
     (\<not> IS_VALID_STREAM_HANDLE E streamHandle \<or> cq_streamHandle rq = streamHandle) \<and>
     (\<not> IS_VALID_UPLOAD_HANDLE E uploadHandle \<or> uploadHandle = cq_uploadHandle rq)"

definition stop_upload ::
    "('h, 'd, 'e, 'l, 'n, 'q, 'x) api_env \<Rightarrow> STREAM_HANDLE \<Rightarrow> UPLOAD_HANDLE \<Rightarrow> UINT64 \<Rightarrow> bool \<Rightarrow> bool \<Rightarrow> 'e \<Rightarrow> UINT64
      \<Rightarrow> ('h, 'd, 'l, 'q, 'x) CurlApiCallbacks \<Rightarrow> (STATUS \<times> ('h, 'd, 'l, 'q, 'x) CurlApiCallbacks) option" where
  "stop_upload E streamHandle uploadHandle timeout fromCurlThread killThread node p s = do {
     rq \<leftarrow> ca_requests s p;
     if \<not> upload_matches E streamHandle uploadHandle rq then Some (STATUS_SUCCESS, s)
     else do {
       s1 \<leftarrow> stop_request timeout fromCurlThread killThread p s;
       release \<leftarrow> to_release fromCurlThread killThread p s1;
       if \<not> release then Some (STATUS_SUCCESS, s1)
       else (case doubleListDeleteNode (ka_list E) (ca_pActiveUploads s1) node of (st, d) \<Rightarrow>
         let s2 = s1\<lparr>ca_pActiveUploads := d\<rparr> in
         if STATUS_FAILED st then Some (st, s2) else freeCurlRequest E (Some p) s2)
     }
   }"

partial_function (option) uploads_loop ::
    "('h, 'd, 'e, 'l, 'n, 'q, 'x) api_env \<Rightarrow> STREAM_HANDLE \<Rightarrow> UPLOAD_HANDLE \<Rightarrow> UINT64 \<Rightarrow> bool \<Rightarrow> bool \<Rightarrow> 'e option
      \<Rightarrow> ('h, 'd, 'l, 'q, 'x) CurlApiCallbacks \<Rightarrow> (STATUS \<times> ('h, 'd, 'l, 'q, 'x) CurlApiCallbacks) option" where
  [code]: "uploads_loop E streamHandle uploadHandle timeout fromCurlThread killThread pNode s = (case pNode of
     None \<Rightarrow> Some (STATUS_SUCCESS, s)
   | Some node \<Rightarrow>
       (case doubleListGetNextNode (ka_list E) (ca_pActiveUploads s) node of (st, next) \<Rightarrow>
         if STATUS_FAILED st then Some (st, s)
         else (case stop_upload E streamHandle uploadHandle timeout fromCurlThread killThread node
                 (snd (doubleListGetNodeData (ka_list E) (ca_pActiveUploads s) node)) s of
             None \<Rightarrow> None
           | Some (st1, s1) \<Rightarrow>
               if STATUS_FAILED st1 then Some (st1, s1)
               else uploads_loop E streamHandle uploadHandle timeout fromCurlThread killThread next s1)))"

definition shutdownActiveUploads ::
    "('h, 'd, 'e, 'l, 'n, 'q, 'x) api_env \<Rightarrow> STREAM_HANDLE \<Rightarrow> UPLOAD_HANDLE \<Rightarrow> UINT64 \<Rightarrow> bool \<Rightarrow> bool
      \<Rightarrow> ('h, 'd, 'l, 'q, 'x) CurlApiCallbacks \<Rightarrow> (STATUS \<times> ('h, 'd, 'l, 'q, 'x) CurlApiCallbacks) option" where
  "shutdownActiveUploads E streamHandle uploadHandle timeout fromCurlThread killThread = with_lock ActiveUploadsLock (\<lambda>s.
     (case doubleListGetHeadNode (ka_list E) (ca_pActiveUploads s) of (st, node) \<Rightarrow>
       if STATUS_FAILED st then Some (st, s)
       else uploads_loop E streamHandle uploadHandle timeout fromCurlThread killThread node s))"

definition curlApiCallbacksShutdownActiveUploads ::
    "('h, 'd, 'e, 'l, 'n, 'q, 'x) api_env \<Rightarrow> ('h, 'd, 'l, 'q, 'x) CurlApiCallbacks option \<Rightarrow> STREAM_HANDLE \<Rightarrow> UPLOAD_HANDLE \<Rightarrow> UINT64
      \<Rightarrow> bool \<Rightarrow> bool \<Rightarrow> (STATUS \<times> ('h, 'd, 'l, 'q, 'x) CurlApiCallbacks option) option" where
  "curlApiCallbacksShutdownActiveUploads E pCurlApiCallbacks streamHandle uploadHandle timeout fromCurlThread killThread =
     with_callbacks STATUS_INVALID_ARG (shutdownActiveUploads E streamHandle uploadHandle timeout fromCurlThread killThread) pCurlApiCallbacks"

subsection \<open>Shutting down a stream\<close>

text \<open>
  While a thread sleeps the others run: \<open>others\<close> is what they do to the state. The loops go on until the
  requests of the stream have removed themselves; a loop that never ends is \<open>None\<close>.
\<close>

type_synonym ('h, 'd, 'l, 'q, 'x) others = "('h, 'd, 'l, 'q, 'x) CurlApiCallbacks \<Rightarrow> ('h, 'd, 'l, 'q, 'x) CurlApiCallbacks"

partial_function (option) wait_requests ::
    "('h, 'd, 'e, 'l, 'n, 'q, 'x) api_env \<Rightarrow> ('h, 'd, 'l, 'q, 'x) others \<Rightarrow> STREAM_HANDLE
      \<Rightarrow> ('h, 'd, 'l, 'q, 'x) CurlApiCallbacks \<Rightarrow> (STATUS \<times> ('h, 'd, 'l, 'q, 'x) CurlApiCallbacks) option" where
  [code]: "wait_requests E others streamHandle s =
     (let s1 = sleep CURL_API_DEFAULT_SHUTDOWN_POLLING_INTERVAL (others s) in
      case hashTableContains (ka_table E) (ca_pActiveRequests s1) streamHandle of (st, exists) \<Rightarrow>
        if STATUS_FAILED st then Some (st, s1)
        else if exists then wait_requests E others streamHandle s1 else Some (STATUS_SUCCESS, s1))"

partial_function (option) count_uploads ::
    "('h, 'd, 'e, 'l, 'n, 'q, 'x) api_env \<Rightarrow> STREAM_HANDLE \<Rightarrow> ('h, 'd, 'l, 'q, 'x) CurlApiCallbacks \<Rightarrow> 'e option \<Rightarrow> nat
      \<Rightarrow> (STATUS \<times> nat) option" where
  [code]: "count_uploads E streamHandle s node n = (case node of
     None \<Rightarrow> Some (STATUS_SUCCESS, n)
   | Some e \<Rightarrow>
       (case doubleListGetNodeData (ka_list E) (ca_pActiveUploads s) e of (st, p) \<Rightarrow>
         if STATUS_FAILED st then Some (st, n)
         else (case ca_requests s p of
             None \<Rightarrow> None
           | Some rq \<Rightarrow> count_uploads E streamHandle s (snd (doubleListGetNextNode (ka_list E) (ca_pActiveUploads s) e))
               (if cq_streamHandle rq = streamHandle then Suc n else n))))"

partial_function (option) wait_uploads ::
    "('h, 'd, 'e, 'l, 'n, 'q, 'x) api_env \<Rightarrow> ('h, 'd, 'l, 'q, 'x) others \<Rightarrow> STREAM_HANDLE
      \<Rightarrow> ('h, 'd, 'l, 'q, 'x) CurlApiCallbacks \<Rightarrow> (STATUS \<times> ('h, 'd, 'l, 'q, 'x) CurlApiCallbacks) option" where
  [code]: "wait_uploads E others streamHandle s =
     (let s1 = sleep CURL_API_DEFAULT_SHUTDOWN_POLLING_INTERVAL (others s) in
      case doubleListGetHeadNode (ka_list E) (ca_pActiveUploads s1) of (st, node) \<Rightarrow>
        if STATUS_FAILED st then Some (st, s1)
        else (case count_uploads E streamHandle s1 node 0 of
            None \<Rightarrow> None
          | Some (st1, n) \<Rightarrow>
              if STATUS_FAILED st1 then Some (st1, s1)
              else if n \<noteq> 0 then wait_uploads E others streamHandle s1 else Some (STATUS_SUCCESS, s1)))"

definition mark_stream ::
    "('h, 'd, 'e, 'l, 'n, 'q, 'x) api_env \<Rightarrow> STREAM_HANDLE \<Rightarrow> ('h, 'd, 'l, 'q, 'x) CurlApiCallbacks \<Rightarrow> STATUS \<times> ('h, 'd, 'l, 'q, 'x) CurlApiCallbacks" where
  "mark_stream E streamHandle s = (case hashTablePut (ka_table E) (ca_pStreamsShuttingDown s) streamHandle streamHandle of (st, t) \<Rightarrow>
     (st, s\<lparr>ca_pStreamsShuttingDown := t\<rparr>))"

definition unmark_stream ::
    "('h, 'd, 'e, 'l, 'n, 'q, 'x) api_env \<Rightarrow> STREAM_HANDLE \<Rightarrow> ('h, 'd, 'l, 'q, 'x) CurlApiCallbacks \<Rightarrow> STATUS \<times> ('h, 'd, 'l, 'q, 'x) CurlApiCallbacks" where
  "unmark_stream E streamHandle s = (case hashTableRemove (ka_table E) (ca_pStreamsShuttingDown s) streamHandle of (st, t) \<Rightarrow>
     (st, s\<lparr>ca_pStreamsShuttingDown := t\<rparr>))"

text \<open>What is done before the waiting: the mark, the end of what runs, and the cached endpoint.\<close>

definition stop_stream ::
    "('h, 'd, 'e, 'l, 'n, 'q, 'x) api_env \<Rightarrow> STREAM_HANDLE \<Rightarrow> bool
      \<Rightarrow> ('h, 'd, 'l, 'q, 'x) CurlApiCallbacks \<Rightarrow> (STATUS \<times> ('h, 'd, 'l, 'q, 'x) CurlApiCallbacks) option" where
  "stop_stream E streamHandle resetStream s =
     chk (with_lock ShutdownLock (\<lambda>s. Some (mark_stream E streamHandle s)) s) (\<lambda>s.
     chk (shutdownActiveRequests E streamHandle CURL_API_CALLBACKS_SHUTDOWN_TIMEOUT False False s) (\<lambda>s.
     chk (shutdownActiveUploads E streamHandle (kc_INVALID_UPLOAD_HANDLE_VALUE (ka_consts E)) CURL_API_CALLBACKS_SHUTDOWN_TIMEOUT
            False False s) (\<lambda>s.
     if resetStream then Some (STATUS_SUCCESS, s) else shutdownCachedEndpoints E streamHandle True s)))"

text \<open>
  The check and the mark happen under one hold of the lock. A stream that is being shut down already
  is left to the thread that does it.
\<close>

definition shutdown_stream ::
    "('h, 'd, 'e, 'l, 'n, 'q, 'x) api_env \<Rightarrow> ('h, 'd, 'l, 'q, 'x) others \<Rightarrow> STREAM_HANDLE \<Rightarrow> bool
      \<Rightarrow> ('h, 'd, 'l, 'q, 'x) CurlApiCallbacks \<Rightarrow> (STATUS \<times> ('h, 'd, 'l, 'q, 'x) CurlApiCallbacks) option" where
  "shutdown_stream E others streamHandle resetStream s =
     (case hashTableContains (ka_table E) (ca_pStreamsShuttingDown s) streamHandle of (st, alreadyShutdown) \<Rightarrow>
        if STATUS_FAILED st \<or> alreadyShutdown then Some (st, s)
        else
          chk (stop_stream E streamHandle resetStream s) (\<lambda>s.
          chk (wait_requests E others streamHandle s) (\<lambda>s.
          chk (wait_uploads E others streamHandle s) (
          with_lock ShutdownLock (\<lambda>s. Some (unmark_stream E streamHandle s))))))"

definition shutdownStreamCurl ::
    "('h, 'd, 'e, 'l, 'n, 'q, 'x) api_env \<Rightarrow> ('h, 'd, 'l, 'q, 'x) others \<Rightarrow> ('h, 'd, 'l, 'q, 'x) CurlApiCallbacks option \<Rightarrow> STREAM_HANDLE \<Rightarrow> bool
      \<Rightarrow> (STATUS \<times> ('h, 'd, 'l, 'q, 'x) CurlApiCallbacks option) option" where
  "shutdownStreamCurl E others customData streamHandle resetStream =
     with_callbacks STATUS_INVALID_ARG (shutdown_stream E others streamHandle resetStream) customData"

subsection \<open>Shutting down everything\<close>

text \<open>Here a loop whose check fails keeps the lock it holds.\<close>

partial_function (option) wait_no_requests ::
    "('h, 'd, 'e, 'l, 'n, 'q, 'x) api_env \<Rightarrow> ('h, 'd, 'l, 'q, 'x) others
      \<Rightarrow> ('h, 'd, 'l, 'q, 'x) CurlApiCallbacks \<Rightarrow> (STATUS \<times> ('h, 'd, 'l, 'q, 'x) CurlApiCallbacks) option" where
  [code]: "wait_no_requests E others s =
     (let s1 = sleep CURL_API_DEFAULT_SHUTDOWN_POLLING_INTERVAL (others s) in
      case hashTableIsEmpty (ka_table E) (ca_pActiveRequests s1) of (st, hashTableEmpty) \<Rightarrow>
        if STATUS_FAILED st then Some (st, lock ActiveRequestsLock s1)
        else if hashTableEmpty then Some (STATUS_SUCCESS, s1) else wait_no_requests E others s1)"

partial_function (option) wait_no_uploads ::
    "('h, 'd, 'e, 'l, 'n, 'q, 'x) api_env \<Rightarrow> ('h, 'd, 'l, 'q, 'x) others
      \<Rightarrow> ('h, 'd, 'l, 'q, 'x) CurlApiCallbacks \<Rightarrow> (STATUS \<times> ('h, 'd, 'l, 'q, 'x) CurlApiCallbacks) option" where
  [code]: "wait_no_uploads E others s =
     (let s1 = sleep CURL_API_DEFAULT_SHUTDOWN_POLLING_INTERVAL (others s) in
      case doubleListGetNodeCount (ka_list E) (ca_pActiveUploads s1) of (st, activeUploadCount) \<Rightarrow>
        if STATUS_FAILED st then Some (st, lock ActiveUploadsLock s1)
        else if activeUploadCount = 0 then Some (STATUS_SUCCESS, s1) else wait_no_uploads E others s1)"

definition iterate_table ::
    "(('h, 'd, 'l, 'q, 'x) CurlApiCallbacks option \<Rightarrow> (UINT64 \<times> UINT64) option \<Rightarrow> (STATUS \<times> ('h, 'd, 'l, 'q, 'x) CurlApiCallbacks option) option)
      \<Rightarrow> (UINT64 \<times> UINT64) list \<Rightarrow> ('h, 'd, 'l, 'q, 'x) CurlApiCallbacks \<Rightarrow> (STATUS \<times> ('h, 'd, 'l, 'q, 'x) CurlApiCallbacks) option" where
  "iterate_table f es s = map_option (apsnd the) (for_entries (\<lambda>e pcb. f pcb (Some e)) es (Some s))"

definition clear_endpoints ::
    "('h, 'd, 'e, 'l, 'n, 'q, 'x) api_env \<Rightarrow> ('h, 'd, 'l, 'q, 'x) CurlApiCallbacks \<Rightarrow> (STATUS \<times> ('h, 'd, 'l, 'q, 'x) CurlApiCallbacks) option" where
  "clear_endpoints E s =
     chk (iterate_table (curlApiCallbacksCachedEndpointsTableShutdownCallback E) (hashTableEntries (ka_table E) (ca_pCachedEndpoints s)) s)
       (\<lambda>s. case hashTableClear (ka_table E) (ca_pCachedEndpoints s) of (st, t) \<Rightarrow> Some (st, s\<lparr>ca_pCachedEndpoints := t\<rparr>))"

text \<open>What is done before the waiting.\<close>

definition stop_all ::
    "('h, 'd, 'e, 'l, 'n, 'q, 'x) api_env \<Rightarrow> UINT64
      \<Rightarrow> ('h, 'd, 'l, 'q, 'x) CurlApiCallbacks \<Rightarrow> (STATUS \<times> ('h, 'd, 'l, 'q, 'x) CurlApiCallbacks) option" where
  "stop_all E timeout s =
     chk (with_lock ShutdownLock (\<lambda>s. iterate_table (curlApiCallbacksMarkStreamShuttingdownCallback E)
            (hashTableEntries (ka_table E) (ca_pActiveRequests s)) s) (s\<lparr>ca_shutdown := True, ca_shutdownTimeout := timeout\<rparr>)) (\<lambda>s.
     chk (shutdownActiveRequests E (ku_INVALID_STREAM (ka_curl E)) (ca_shutdownTimeout s) False False s)
         (shutdownActiveUploads E (ku_INVALID_STREAM (ka_curl E)) (kc_INVALID_UPLOAD_HANDLE_VALUE (ka_consts E)) timeout False False))"

definition shutdown_all ::
    "('h, 'd, 'e, 'l, 'n, 'q, 'x) api_env \<Rightarrow> ('h, 'd, 'l, 'q, 'x) others \<Rightarrow> UINT64
      \<Rightarrow> ('h, 'd, 'l, 'q, 'x) CurlApiCallbacks \<Rightarrow> (STATUS \<times> ('h, 'd, 'l, 'q, 'x) CurlApiCallbacks) option" where
  "shutdown_all E others timeout s =
     (if ca_shutdown s then Some (STATUS_SUCCESS, s)
      else
        chk (stop_all E timeout s) (\<lambda>s.
        chk (wait_no_requests E others s) (\<lambda>s.
        chk (wait_no_uploads E others s) (
        with_lock CachedEndpointsLock (clear_endpoints E)))))"

definition curlApiCallbacksShutdown ::
    "('h, 'd, 'e, 'l, 'n, 'q, 'x) api_env \<Rightarrow> ('h, 'd, 'l, 'q, 'x) others \<Rightarrow> ('h, 'd, 'l, 'q, 'x) CurlApiCallbacks option \<Rightarrow> UINT64
      \<Rightarrow> (STATUS \<times> ('h, 'd, 'l, 'q, 'x) CurlApiCallbacks option) option" where
  "curlApiCallbacksShutdown E others pCurlApiCallbacks timeout = with_callbacks STATUS_INVALID_ARG (shutdown_all E others timeout) pCurlApiCallbacks"

definition clientShutdownCurl ::
    "('h, 'd, 'e, 'l, 'n, 'q, 'x) api_env \<Rightarrow> ('h, 'd, 'l, 'q, 'x) others \<Rightarrow> ('h, 'd, 'l, 'q, 'x) CurlApiCallbacks option \<Rightarrow> CLIENT_HANDLE
      \<Rightarrow> (STATUS \<times> ('h, 'd, 'l, 'q, 'x) CurlApiCallbacks option) option" where
  "clientShutdownCurl E others customData clientHandle =
     with_callbacks STATUS_INVALID_ARG (shutdown_all E others CURL_API_CALLBACKS_SHUTDOWN_TIMEOUT) customData"

subsection \<open>Finding an upload\<close>

partial_function (option) find_upload ::
    "('h, 'd, 'e, 'l, 'n, 'q, 'x) api_env \<Rightarrow> UPLOAD_HANDLE \<Rightarrow> ('h, 'd, 'l, 'q, 'x) CurlApiCallbacks \<Rightarrow> 'e option \<Rightarrow> (STATUS \<times> UINT64) option" where
  [code]: "find_upload E uploadHandle s node = (case node of
     None \<Rightarrow> Some (STATUS_SUCCESS, 0)
   | Some e \<Rightarrow>
       (case doubleListGetNextNode (ka_list E) (ca_pActiveUploads s) e of (st, next) \<Rightarrow>
         if STATUS_FAILED st then Some (st, 0)
         else (case ca_requests s (snd (doubleListGetNodeData (ka_list E) (ca_pActiveUploads s) e)) of
             None \<Rightarrow> None
           | Some rq \<Rightarrow>
               if cq_uploadHandle rq = uploadHandle then Some (STATUS_SUCCESS, snd (doubleListGetNodeData (ka_list E) (ca_pActiveUploads s) e))
               else find_upload E uploadHandle s next)))"

text \<open>
  The result has the address of the request, 0 for NULL. Without a place for the result the function
  writes through NULL behind its check.
\<close>

definition findRequestWithUploadHandle ::
    "('h, 'd, 'e, 'l, 'n, 'q, 'x) api_env \<Rightarrow> UPLOAD_HANDLE \<Rightarrow> ('h, 'd, 'l, 'q, 'x) CurlApiCallbacks option \<Rightarrow> bool \<Rightarrow> (STATUS \<times> UINT64) option" where
  "findRequestWithUploadHandle E uploadHandle pCurlApiCallbacks ppCurlRequest =
     (if \<not> ppCurlRequest then None
      else if \<not> IS_VALID_UPLOAD_HANDLE E uploadHandle then Some (STATUS_SUCCESS, 0)
      else (case pCurlApiCallbacks of
          None \<Rightarrow> Some (STATUS_INVALID_ARG, 0)
        | Some s \<Rightarrow>
            if ca_pCallbacksProvider s = None then Some (STATUS_INVALID_ARG, 0)
            else (case doubleListGetHeadNode (ka_list E) (ca_pActiveUploads s) of (st, node) \<Rightarrow>
              if STATUS_FAILED st then Some (st, 0) else find_upload E uploadHandle s node)))"

text \<open>Waking the thread of an upload, unless \<open>skip\<close> tells that it is not to be woken.\<close>

definition wake_upload ::
    "('h, 'd, 'e, 'l, 'n, 'q, 'x) api_env \<Rightarrow> UPLOAD_HANDLE \<Rightarrow> (('l, 'q) CurlRequest \<Rightarrow> bool) \<Rightarrow> UINT64 \<Rightarrow> UINT64
      \<Rightarrow> ('h, 'd, 'l, 'q, 'x) CurlApiCallbacks \<Rightarrow> (STATUS \<times> ('h, 'd, 'l, 'q, 'x) CurlApiCallbacks) option" where
  "wake_upload E uploadHandle skip duration size' = with_lock ActiveUploadsLock (\<lambda>s. do {
     (st, p) \<leftarrow> findRequestWithUploadHandle E uploadHandle (Some s) True;
     if STATUS_FAILED st \<or> p = 0 then Some (st, s)
     else do {
       rq \<leftarrow> ca_requests s p;
       r \<leftarrow> cq_pCurlResponse rq;
       if cs_endOfStream r \<or> skip rq then Some (STATUS_SUCCESS, s)
       else (case notifyDataAvailable (Some r) duration size' (ca_world s) of (st1, r', w) \<Rightarrow>
         Some (st1, s\<lparr>ca_requests := (ca_requests s)(p \<mapsto> rq\<lparr>cq_pCurlResponse := r'\<rparr>), ca_world := w\<rparr>))
     }
   })"

definition dataAvailableCurl ::
    "('h, 'd, 'e, 'l, 'n, 'q, 'x) api_env \<Rightarrow> ('h, 'd, 'l, 'q, 'x) CurlApiCallbacks option \<Rightarrow> STREAM_HANDLE \<Rightarrow> PCHAR \<Rightarrow> UPLOAD_HANDLE
      \<Rightarrow> UINT64 \<Rightarrow> UINT64 \<Rightarrow> (STATUS \<times> ('h, 'd, 'l, 'q, 'x) CurlApiCallbacks option) option" where
  "dataAvailableCurl E customData streamHandle streamName uploadHandle durationAvailable bytesAvailable =
     with_callbacks STATUS_INVALID_ARG (wake_upload E uploadHandle cq_terminating durationAvailable bytesAvailable) customData"

text \<open>The acknowledgement is given by whether it says that a fragment was persisted.\<close>

definition fragmentAckReceivedCurl ::
    "('h, 'd, 'e, 'l, 'n, 'q, 'x) api_env \<Rightarrow> ('h, 'd, 'l, 'q, 'x) CurlApiCallbacks option \<Rightarrow> STREAM_HANDLE \<Rightarrow> UPLOAD_HANDLE \<Rightarrow> bool
      \<Rightarrow> (STATUS \<times> ('h, 'd, 'l, 'q, 'x) CurlApiCallbacks option) option" where
  "fragmentAckReceivedCurl E customData streamHandle uploadHandle persisted =
     with_callbacks STATUS_INVALID_ARG (wake_upload E uploadHandle (\<lambda>_. \<not> persisted) 0 0) customData"

definition streamClosedCurl ::
    "('h, 'd, 'l, 'q, 'x) CurlApiCallbacks option \<Rightarrow> STREAM_HANDLE \<Rightarrow> UPLOAD_HANDLE \<Rightarrow> (STATUS \<times> ('h, 'd, 'l, 'q, 'x) CurlApiCallbacks option) option" where
  "streamClosedCurl customData streamHandle uploadHandle = with_callbacks STATUS_INVALID_ARG (\<lambda>s. Some (STATUS_SUCCESS, s)) customData"

end
