(* ===== verification/Curl_Api.thy ===== *)
theory Curl_Api
  imports Curl_Shutdown Jsmn Aws_V4_Signer
begin

text \<open>
  The API callbacks of \<open>CurlApiCallbacks.c\<close>: the functions that start a call of the service on a thread
  of its own, the functions around them that answer from what is cached, and the functions that run
  on the threads: sign the request, call the service, take the answer apart, release the request and
  report the result.
\<close>

record ServiceCallContext =
  sc_customData :: UINT64
  sc_connectionTimeout :: UINT64
  sc_timeout :: UINT64
  sc_callAfter :: UINT64
  sc_authData :: UINT64
  sc_authSize :: UINT32

definition MAX_JSON_TOKEN_COUNT :: nat where "MAX_JSON_TOKEN_COUNT = 100"
definition MAX_JSON_PARAMETER_STRING_LEN :: nat where "MAX_JSON_PARAMETER_STRING_LEN = 10 * 1024"
definition MAX_DESCRIBE_STREAM_STATUS_LEN :: nat where "MAX_DESCRIBE_STREAM_STATUS_LEN = 32"
definition DUMMY_DEVICE_ARN :: string where "DUMMY_DEVICE_ARN = ''arn:aws:kinesisvideo:us-west-2:11111111111:mediastream/device''"
definition CREATE_API_POSTFIX :: string where "CREATE_API_POSTFIX = ''/createStream''"
definition DESCRIBE_API_POSTFIX :: string where "DESCRIBE_API_POSTFIX = ''/describeStream''"
definition GET_DATA_ENDPOINT_API_POSTFIX :: string where "GET_DATA_ENDPOINT_API_POSTFIX = ''/getDataEndpoint''"
definition TAG_RESOURCE_API_POSTFIX :: string where "TAG_RESOURCE_API_POSTFIX = ''/tagStream''"
definition PUT_MEDIA_API_POSTFIX :: string where "PUT_MEDIA_API_POSTFIX = ''/putMedia''"

subsection \<open>The bodies of the calls\<close>

definition quoted :: "string \<Rightarrow> string" where "quoted s = CHR 0x22 # s @ [CHR 0x22]"
definition new_line :: string where "new_line = [CHR 0x0A, CHR 0x09]"
definition json_field :: "string \<Rightarrow> string \<Rightarrow> string" where "json_field k v = quoted k @ '': '' @ v"

definition KMS_KEY_PARAM_JSON_TEMPLATE :: "string \<Rightarrow> string" where
  "KMS_KEY_PARAM_JSON_TEMPLATE kmsKeyId = json_field ''KmsKeyId'' (quoted kmsKeyId) @ '','' @ new_line"

definition CREATE_STREAM_PARAM_JSON_TEMPLATE :: "string \<Rightarrow> string \<Rightarrow> string \<Rightarrow> string \<Rightarrow> nat \<Rightarrow> string" where
  "CREATE_STREAM_PARAM_JSON_TEMPLATE deviceName streamName contentType kmsKey hours =
     ''{'' @ new_line @ json_field ''DeviceName'' (quoted deviceName) @ '','' @ new_line @
     json_field ''StreamName'' (quoted streamName) @ '','' @ new_line @ json_field ''MediaType'' (quoted contentType) @ '','' @ new_line @
     kmsKey @ json_field ''DataRetentionInHours'' (decimal hours) @ [CHR 0x0A] @ ''}''"

definition DESCRIBE_STREAM_PARAM_JSON_TEMPLATE :: "string \<Rightarrow> string" where
  "DESCRIBE_STREAM_PARAM_JSON_TEMPLATE streamName = ''{'' @ new_line @ json_field ''StreamName'' (quoted streamName) @ [CHR 0x0A] @ ''}''"

definition GET_DATA_ENDPOINT_PARAM_JSON_TEMPLATE :: "string \<Rightarrow> string \<Rightarrow> string" where
  "GET_DATA_ENDPOINT_PARAM_JSON_TEMPLATE streamName apiName =
     ''{'' @ new_line @ json_field ''StreamName'' (quoted streamName) @ '','' @ new_line @ json_field ''APIName'' (quoted apiName) @ [CHR 0x0A] @ ''}''"

definition TAG_PARAM_JSON_TEMPLATE :: "string \<Rightarrow> string \<Rightarrow> string" where
  "TAG_PARAM_JSON_TEMPLATE name value = [CHR 0x0A, CHR 0x09, CHR 0x09] @ json_field name (quoted value) @ '',''"

definition TAG_RESOURCE_PARAM_JSON_TEMPLATE :: "string \<Rightarrow> string \<Rightarrow> string" where
  "TAG_RESOURCE_PARAM_JSON_TEMPLATE streamArn tags =
     ''{'' @ new_line @ json_field ''StreamARN'' (quoted streamArn) @ '','' @ new_line @ json_field ''Tags'' (''{'' @ tags @ new_line @ ''}'') @
     [CHR 0x0A] @ ''}''"

definition MAX_TAGS_JSON_PARAMETER_STRING_LEN :: "api_consts \<Rightarrow> nat" where
  "MAX_TAGS_JSON_PARAMETER_STRING_LEN C = MAX_JSON_PARAMETER_STRING_LEN + kc_MAX_TAG_COUNT C * (kc_MAX_TAG_NAME_LEN C + kc_MAX_TAG_VALUE_LEN C)"

text \<open>The tags one behind the other, as long as they fit the room that is left.\<close>

fun tags_json :: "nat \<Rightarrow> (string \<times> string) list \<Rightarrow> string option" where
  "tags_json room [] = Some ''''"
| "tags_json room ((name, value) # tags) =
     (let t = TAG_PARAM_JSON_TEMPLATE name value in
      if length t < room then map_option (\<lambda>rest. t @ rest) (tags_json (room - length t) tags) else None)"

subsection \<open>Starting a call\<close>

definition validate_credentials ::
    "ServiceCallContext \<Rightarrow> ('h, 'd, 'l, 'q, 'x) CurlApiCallbacks \<Rightarrow> (STATUS \<times> ('h, 'd, 'l, 'q, 'x) CurlApiCallbacks) option" where
  "validate_credentials ctx s =
     (if sc_authData ctx = 0 then Some (STATUS_NULL_ARG, s)
      else do {
        c \<leftarrow> get_credentials (ca_credentials s) (sc_authData ctx);
        (case deserializeAwsCredentials (Some c) of (st, c1) \<Rightarrow>
          if STATUS_FAILED st then Some (st, s)
          else let s1 = s\<lparr>ca_credentials := (ca_credentials s)(sc_authData ctx \<mapsto> OCredentials (the c1))\<rparr> in
            if \<not> ac_version (the c1) \<le> AWS_CREDENTIALS_CURRENT_VERSION then Some (STATUS_INVALID_AWS_CREDENTIALS_VERSION, s1)
            else if ac_size (the c1) \<noteq> sc_authSize ctx then Some (STATUS_INTERNAL_ERROR, s1)
            else Some (STATUS_SUCCESS, s1))
      })"

text \<open>The URL is put together in a buffer of \<open>MAX_PATH_LEN + 1\<close> characters.\<close>

definition api_url :: "('h, 'd, 'e, 'l, 'n, 'q, 'x) api_env \<Rightarrow> string \<Rightarrow> string \<Rightarrow> PCHAR" where
  "api_url E base postfix =
     (if length (base @ postfix) \<le> re_maxPath (ku_request (ka_curl E)) then Some (base @ postfix) else None)"

text \<open>A new request of the context with its headers; its address is 0 when there is none.\<close>

definition prepare_request ::
    "('h, 'd, 'e, 'l, 'n, 'q, 'x) api_env \<Rightarrow> ServiceCallContext \<Rightarrow> string \<Rightarrow> PCHAR \<Rightarrow> (string \<times> PCHAR \<times> UINT32) list
      \<Rightarrow> ('h, 'd, 'l, 'q, 'x) CurlApiCallbacks \<Rightarrow> (STATUS \<times> UINT64 \<times> ('h, 'd, 'l, 'q, 'x) CurlApiCallbacks) option" where
  "prepare_request E ctx url body headers s = do {
     (st, p, s1) \<leftarrow> createCurlRequest E HTTP_REQUEST_VERB_POST (Some url) body (sc_customData ctx) (ca_region s)
        (ka_getCurrentTime E (cw_ext (ca_world s))) (sc_connectionTimeout ctx) (sc_timeout ctx) (sc_callAfter ctx) (Some (ca_certPath s))
        (sc_authData ctx) True s;
     if STATUS_FAILED st then Some (st, 0, s1)
     else do {
       rq \<leftarrow> ca_requests s1 p;
       (st1, ri, hh) \<leftarrow> set_headers (ka_signer E) (Some (cq_requestInfo rq)) (cw_headers (ca_world s1)) headers;
       ri1 \<leftarrow> ri;
       Some (st1, p, s1\<lparr>ca_requests := (ca_requests s1)(p \<mapsto> rq\<lparr>cq_requestInfo := ri1\<rparr>), ca_world := (ca_world s1)\<lparr>cw_headers := hh\<rparr>\<rparr>)
     }
   }"

text \<open>
  The end of a start that failed: the thread, if there is one, is cancelled, and the request is released
  at once. The cancelled thread waits for the lock of the request, which is held, and still has the
  address of the request.
\<close>

definition fail_start ::
    "('h, 'd, 'e, 'l, 'n, 'q, 'x) api_env \<Rightarrow> nat option \<Rightarrow> UINT64 \<Rightarrow> STATUS \<Rightarrow> ('h, 'd, 'l, 'q, 'x) CurlApiCallbacks
      \<Rightarrow> (STATUS \<times> ('h, 'd, 'l, 'q, 'x) CurlApiCallbacks) option" where
  "fail_start E threadId p st s =
     map_option (\<lambda>(_, s'). (st, s')) (freeCurlRequest E (Some p) (case threadId of None \<Rightarrow> s | Some _ \<Rightarrow> cancel_thread threadId s))"

text \<open>Thread, id of the thread and entry of the request, which \<open>register\<close> makes.\<close>

definition start_thread ::
    "('h, 'd, 'e, 'l, 'n, 'q, 'x) api_env \<Rightarrow> string \<Rightarrow> UINT64
      \<Rightarrow> (('h, 'd, 'l, 'q, 'x) CurlApiCallbacks \<Rightarrow> STATUS \<times> ('h, 'd, 'l, 'q, 'x) CurlApiCallbacks)
      \<Rightarrow> ('h, 'd, 'l, 'q, 'x) CurlApiCallbacks \<Rightarrow> (STATUS \<times> ('h, 'd, 'l, 'q, 'x) CurlApiCallbacks) option" where
  "start_thread E handler p register s =
     (case ka_threadCreate E handler p (cw_ext (ca_world s)) of (st, tid) \<Rightarrow>
       if STATUS_FAILED st then fail_start E None p st s
       else let s1 = s\<lparr>ca_threads := ca_threads s @ [(tid, handler, p)]\<rparr>; st1 = ka_threadDetach E tid (cw_ext (ca_world s)) in
         if STATUS_FAILED st1 then fail_start E (Some tid) p st1 s1
         else do {
           rq \<leftarrow> ca_requests s1 p;
           (case register (s1\<lparr>ca_requests := (ca_requests s1)(p \<mapsto> rq\<lparr>cq_threadId := Some tid\<rparr>)\<rparr>) of (st2, s2) \<Rightarrow>
             if STATUS_FAILED st2 then fail_start E (Some tid) p st2 s2 else Some (STATUS_SUCCESS, s2))
         })"

definition check_not_shutting_down ::
    "('h, 'd, 'e, 'l, 'n, 'q, 'x) api_env \<Rightarrow> STREAM_HANDLE \<Rightarrow> ('h, 'd, 'l, 'q, 'x) CurlApiCallbacks \<Rightarrow> STATUS" where
  "check_not_shutting_down E streamHandle s =
     (case hashTableContains (ka_table E) (ca_pStreamsShuttingDown s) streamHandle of (st, streamShuttingDown) \<Rightarrow>
       if STATUS_FAILED st then st else if streamShuttingDown then STATUS_STREAM_BEING_SHUTDOWN else STATUS_SUCCESS)"

definition put_active_request ::
    "('h, 'd, 'e, 'l, 'n, 'q, 'x) api_env \<Rightarrow> STREAM_HANDLE \<Rightarrow> UINT64 \<Rightarrow> ('h, 'd, 'l, 'q, 'x) CurlApiCallbacks
      \<Rightarrow> STATUS \<times> ('h, 'd, 'l, 'q, 'x) CurlApiCallbacks" where
  "put_active_request E streamHandle p s = (case hashTablePut (ka_table E) (ca_pActiveRequests s) streamHandle p of (st, t) \<Rightarrow>
     (st, s\<lparr>ca_pActiveRequests := t\<rparr>))"

text \<open>
  What the four calls with an answer have in common. Two of them take the lock of the request before
  they look whether the stream is being shut down, and release the request while they hold it when it
  is; the lock is released only behind success.
\<close>

definition start_call ::
    "('h, 'd, 'e, 'l, 'n, 'q, 'x) api_env \<Rightarrow> string \<Rightarrow> string \<Rightarrow> string \<Rightarrow> bool \<Rightarrow> ServiceCallContext
      \<Rightarrow> ('h, 'd, 'l, 'q, 'x) CurlApiCallbacks \<Rightarrow> (STATUS \<times> ('h, 'd, 'l, 'q, 'x) CurlApiCallbacks) option" where
  "start_call E handler postfix body lockFirst ctx s = chk (validate_credentials ctx s) (\<lambda>s1. do {
     url \<leftarrow> api_url E (ca_controlPlaneUrl s1) postfix;
     (st, p, s2) \<leftarrow> prepare_request E ctx url (Some body) [(''user-agent'', Some (ca_userAgent s1), 0)] s1;
     if STATUS_FAILED st then fail_start E None p st s2
     else with_lock ActiveRequestsLock (\<lambda>s3.
       let st1 = check_not_shutting_down E (sc_customData ctx) s3 in
       if STATUS_FAILED st1 then fail_start E None p st1 (if lockFirst then lock (StartLock p) s3 else s3)
       else chk (start_thread E handler p (put_active_request E (sc_customData ctx) p) (lock (StartLock p) s3))
              (\<lambda>s4. Some (STATUS_SUCCESS, unlock (StartLock p) s4))) s2
   })"

definition createStreamCurl ::
    "('h, 'd, 'e, 'l, 'n, 'q, 'x) api_env \<Rightarrow> ('h, 'd, 'l, 'q, 'x) CurlApiCallbacks option \<Rightarrow> PCHAR \<Rightarrow> PCHAR \<Rightarrow> PCHAR \<Rightarrow> PCHAR \<Rightarrow> UINT64
      \<Rightarrow> ServiceCallContext option \<Rightarrow> (STATUS \<times> ('h, 'd, 'l, 'q, 'x) CurlApiCallbacks option) option" where
  "createStreamCurl E customData deviceName streamName contentType kmsKeyId retentionPeriod pServiceCallContext = (case pServiceCallContext of
     None \<Rightarrow> Some (STATUS_INVALID_ARG, customData)
   | Some ctx \<Rightarrow> with_callbacks STATUS_INVALID_ARG (\<lambda>s. do {
       device \<leftarrow> deviceName;
       stream \<leftarrow> streamName;
       type \<leftarrow> contentType;
       let kmsKey = (case kmsKeyId of None \<Rightarrow> ''''
          | Some k \<Rightarrow> if k = '''' then '''' else STRNCPY (KMS_KEY_PARAM_JSON_TEMPLATE k) (kc_MAX_ARN_LEN (ka_consts E) + 100 - 1));
       let hours = retentionPeriod div kc_HUNDREDS_OF_NANOS_IN_AN_HOUR (ka_consts E);
       start_call E ''createStreamCurlHandler'' CREATE_API_POSTFIX
         (STRNCPY (CREATE_STREAM_PARAM_JSON_TEMPLATE device stream type kmsKey (unat hours)) (MAX_JSON_PARAMETER_STRING_LEN - 1)) False ctx s
     }) customData)"

definition describeStreamCurl ::
    "('h, 'd, 'e, 'l, 'n, 'q, 'x) api_env \<Rightarrow> ('h, 'd, 'l, 'q, 'x) CurlApiCallbacks option \<Rightarrow> PCHAR
      \<Rightarrow> ServiceCallContext option \<Rightarrow> (STATUS \<times> ('h, 'd, 'l, 'q, 'x) CurlApiCallbacks option) option" where
  "describeStreamCurl E customData streamName pServiceCallContext = (case pServiceCallContext of
     None \<Rightarrow> Some (STATUS_INVALID_ARG, customData)
   | Some ctx \<Rightarrow> with_callbacks STATUS_INVALID_ARG (\<lambda>s. do {
       stream \<leftarrow> streamName;
       start_call E ''describeStreamCurlHandler'' DESCRIBE_API_POSTFIX
         (STRNCPY (DESCRIBE_STREAM_PARAM_JSON_TEMPLATE stream) (MAX_JSON_PARAMETER_STRING_LEN - 1)) False ctx s
     }) customData)"

definition getStreamingEndpointCurl ::
    "('h, 'd, 'e, 'l, 'n, 'q, 'x) api_env \<Rightarrow> ('h, 'd, 'l, 'q, 'x) CurlApiCallbacks option \<Rightarrow> PCHAR \<Rightarrow> PCHAR
      \<Rightarrow> ServiceCallContext option \<Rightarrow> (STATUS \<times> ('h, 'd, 'l, 'q, 'x) CurlApiCallbacks option) option" where
  "getStreamingEndpointCurl E customData streamName apiName pServiceCallContext = (case pServiceCallContext of
     None \<Rightarrow> Some (STATUS_INVALID_ARG, customData)
   | Some ctx \<Rightarrow> with_callbacks STATUS_INVALID_ARG (\<lambda>s. do {
       stream \<leftarrow> streamName;
       api \<leftarrow> apiName;
       start_call E ''getStreamingEndpointCurlHandler'' GET_DATA_ENDPOINT_API_POSTFIX
         (STRNCPY (GET_DATA_ENDPOINT_PARAM_JSON_TEMPLATE stream api) (MAX_JSON_PARAMETER_STRING_LEN - 1)) True ctx s
     }) customData)"

text \<open>\<open>memory\<close> tells whether the two buffers for the body could be allocated; the last comma is removed.\<close>

definition tagResourceCurl ::
    "('h, 'd, 'e, 'l, 'n, 'q, 'x) api_env \<Rightarrow> bool \<Rightarrow> ('h, 'd, 'l, 'q, 'x) CurlApiCallbacks option \<Rightarrow> PCHAR \<Rightarrow> (string \<times> string) list option
      \<Rightarrow> ServiceCallContext option \<Rightarrow> (STATUS \<times> ('h, 'd, 'l, 'q, 'x) CurlApiCallbacks option) option" where
  "tagResourceCurl E memory customData streamArn tags pServiceCallContext = (case pServiceCallContext of
     None \<Rightarrow> Some (STATUS_INVALID_ARG, customData)
   | Some ctx \<Rightarrow> with_callbacks STATUS_INVALID_ARG (\<lambda>s.
       (case tags of
          None \<Rightarrow> Some (STATUS_INTERNAL_ERROR, s)
        | Some ts \<Rightarrow>
            if ts = [] then Some (STATUS_INTERNAL_ERROR, s)
            else if \<not> memory then Some (STATUS_NOT_ENOUGH_MEMORY, s)
            else (case tags_json (MAX_TAGS_JSON_PARAMETER_STRING_LEN (ka_consts E)) ts of
                None \<Rightarrow> Some (STATUS_INTERNAL_ERROR, s)
              | Some tagsJson \<Rightarrow> do {
                  arn \<leftarrow> streamArn;
                  start_call E ''tagResourceCurlHandler'' TAG_RESOURCE_API_POSTFIX
                    (STRNCPY (TAG_RESOURCE_PARAM_JSON_TEMPLATE arn (butlast tagsJson)) (MAX_TAGS_JSON_PARAMETER_STRING_LEN (ka_consts E) - 1))
                    True ctx s
                }))) customData)"

text \<open>
  The start time is printed in seconds and milliseconds, the milliseconds without leading zeros. NULL
  arguments end the process.
\<close>

definition start_timestamp :: "api_consts \<Rightarrow> UINT64 \<Rightarrow> string" where
  "start_timestamp C t = (let ms = unat (t div HUNDREDS_OF_NANOS_IN_A_MILLISECOND) in
     STRNCPY (decimal (ms div 1000) @ ''.'' @ decimal (ms mod 1000)) (kc_MAX_TIMESTAMP_STR_LEN C))"

definition put_stream_headers ::
    "api_consts \<Rightarrow> string \<Rightarrow> PCHAR \<Rightarrow> UINT64 \<Rightarrow> bool \<Rightarrow> bool \<Rightarrow> (string \<times> PCHAR \<times> UINT32) list" where
  "put_stream_headers C userAgent streamName startTimestamp absoluteFragmentTimestamp acksEnabled =
     [(''user-agent'', Some userAgent, 0), (''x-amzn-stream-name'', streamName, 0),
      (''x-amzn-producer-start-timestamp'', Some (start_timestamp C startTimestamp), 0),
      (''x-amzn-fragment-acknowledgment-required'', Some (if acksEnabled then ''1'' else ''0''), 0),
      (''x-amzn-fragment-timecode-type'', Some (if absoluteFragmentTimestamp then ''ABSOLUTE'' else ''RELATIVE''), 0),
      (''transfer-encoding'', Some ''chunked'', 0), (''connection'', Some ''keep-alive'', 0)]"

definition put_active_upload ::
    "('h, 'd, 'e, 'l, 'n, 'q, 'x) api_env \<Rightarrow> UINT64 \<Rightarrow> ('h, 'd, 'l, 'q, 'x) CurlApiCallbacks \<Rightarrow> STATUS \<times> ('h, 'd, 'l, 'q, 'x) CurlApiCallbacks" where
  "put_active_upload E p s = (case doubleListInsertItemTail (ka_list E) (ca_pActiveUploads s) p of (st, d) \<Rightarrow>
     (st, s\<lparr>ca_pActiveUploads := d\<rparr>))"

definition putStreamCurl ::
    "('h, 'd, 'e, 'l, 'n, 'q, 'x) api_env \<Rightarrow> ('h, 'd, 'l, 'q, 'x) CurlApiCallbacks option \<Rightarrow> PCHAR \<Rightarrow> PCHAR \<Rightarrow> UINT64 \<Rightarrow> bool \<Rightarrow> bool \<Rightarrow> PCHAR
      \<Rightarrow> ServiceCallContext option \<Rightarrow> (STATUS \<times> ('h, 'd, 'l, 'q, 'x) CurlApiCallbacks option) option" where
  "putStreamCurl E customData streamName containerType startTimestamp absoluteFragmentTimestamp acksEnabled streamingEndpoint pServiceCallContext = do {
     s0 \<leftarrow> customData;
     ctx \<leftarrow> pServiceCallContext;
     endpoint \<leftarrow> streamingEndpoint;
     if ca_pCallbacksProvider s0 = None then None
     else map_option (apsnd Some) (chk (validate_credentials ctx s0) (\<lambda>s1. do {
       url \<leftarrow> api_url E endpoint PUT_MEDIA_API_POSTFIX;
       with_lock ActiveUploadsLock (\<lambda>s2.
         let st = check_not_shutting_down E (sc_customData ctx) s2 in
         if STATUS_FAILED st then Some (st, s2)
         else do {
           (st1, p, s3) \<leftarrow> prepare_request E ctx url None
              (put_stream_headers (ka_consts E) (ca_userAgent s2) streamName startTimestamp absoluteFragmentTimestamp acksEnabled) s2;
           if STATUS_FAILED st1 then fail_start E None p st1 s3
           else chk (start_thread E ''putStreamCurlHandler'' p (put_active_upload E p) (lock (StartLock p) s3)) (\<lambda>s4. do {
             rq \<leftarrow> ca_requests s4 p;
             (case post_event E (PutStreamResultEvent (cq_streamHandle rq) (SERVICE_CALL_RESULT_OK (ku_consts (ka_curl E))) (cq_uploadHandle rq)) s4
                of (status, s5) \<Rightarrow> Some (STATUS_SUCCESS, unlock (StartLock p) (notify_result E status (sc_customData ctx) s5)))
           })
         }) s1
     }))
   }"

definition createDeviceCurl ::
    "('h, 'd, 'e, 'l, 'n, 'q, 'x) api_env \<Rightarrow> ('h, 'd, 'l, 'q, 'x) CurlApiCallbacks option \<Rightarrow> PCHAR \<Rightarrow> ServiceCallContext option
      \<Rightarrow> (STATUS \<times> ('h, 'd, 'l, 'q, 'x) CurlApiCallbacks option) option" where
  "createDeviceCurl E customData deviceName pServiceCallContext = with_callbacks STATUS_INVALID_ARG (\<lambda>s.
     if ca_shutdown s then Some (STATUS_SUCCESS, s)
     else do {
       ctx \<leftarrow> pServiceCallContext;
       Some (post_event E (CreateDeviceResultEvent (sc_customData ctx) (SERVICE_CALL_RESULT_OK (ku_consts (ka_curl E))) DUMMY_DEVICE_ARN) s)
     }) customData"

subsection \<open>Answers from the cache\<close>

text \<open>
  Whether a cached endpoint is there and young enough; the sum wraps around in 64 bits.
\<close>

definition endpoint_fresh :: "UINT64 \<Rightarrow> UINT64 \<Rightarrow> EndpointTracker \<Rightarrow> bool" where
  "endpoint_fresh period curTime t \<longleftrightarrow> et_streamingEndpoint t \<noteq> [] \<and> \<not> et_endpointLastUpdateTime t + period \<le> curTime"

text \<open>What the table says of a stream: a status, and the tracker that may be used, if any.\<close>

definition cached_endpoint ::
    "('h, 'd, 'e, 'l, 'n, 'q, 'x) api_env \<Rightarrow> STREAM_HANDLE \<Rightarrow> ('h, 'd, 'l, 'q, 'x) CurlApiCallbacks \<Rightarrow> (STATUS \<times> EndpointTracker option) option" where
  "cached_endpoint E streamHandle s = (case hashTableGet (ka_table E) (ca_pCachedEndpoints s) streamHandle of (st, v) \<Rightarrow>
     if st = STATUS_HASH_KEY_NOT_PRESENT then Some (STATUS_SUCCESS, None)
     else if STATUS_FAILED st then Some (st, None)
     else if v = 0 then Some (STATUS_SUCCESS, None)
     else do {
       t \<leftarrow> ca_trackers s v;
       Some (STATUS_SUCCESS, if endpoint_fresh (ca_cacheUpdatePeriod s) (ka_getCurrentTime E (cw_ext (ca_world s))) t then Some t else None)
     })"

text \<open>
  \<open>pEmulateApiCall\<close> tells whether there is a place for the answer; a failure leaves \<open>TRUE\<close> there.
\<close>

definition checkApiCallEmulation ::
    "('h, 'd, 'e, 'l, 'n, 'q, 'x) api_env \<Rightarrow> ('h, 'd, 'l, 'q, 'x) CurlApiCallbacks option \<Rightarrow> STREAM_HANDLE \<Rightarrow> bool \<Rightarrow> (STATUS \<times> bool) option" where
  "checkApiCallEmulation E pCurlApiCallbacks streamHandle pEmulateApiCall = (case pCurlApiCallbacks of
     None \<Rightarrow> Some (STATUS_NULL_ARG, True)
   | Some s \<Rightarrow>
       if ca_pCallbacksProvider s = None \<or> \<not> pEmulateApiCall then Some (STATUS_NULL_ARG, True)
       else (case ca_cacheType s of
           API_CALL_CACHE_TYPE_NONE \<Rightarrow> Some (STATUS_SUCCESS, False)
         | API_CALL_CACHE_TYPE_ENDPOINT_ONLY \<Rightarrow> Some (STATUS_SUCCESS, True)
         | API_CALL_CACHE_TYPE_ALL \<Rightarrow>
             map_option (\<lambda>(st, t). (st, STATUS_FAILED st \<or> t \<noteq> None)) (cached_endpoint E streamHandle s)))"

text \<open>An event and the report of its failure; the status is that of the event.\<close>

definition post_result ::
    "('h, 'd, 'e, 'l, 'n, 'q, 'x) api_env \<Rightarrow> pic_event \<Rightarrow> STREAM_HANDLE \<Rightarrow> ('h, 'd, 'l, 'q, 'x) CurlApiCallbacks
      \<Rightarrow> STATUS \<times> ('h, 'd, 'l, 'q, 'x) CurlApiCallbacks" where
  "post_result E ev streamHandle s = (case post_event E ev s of (st, s1) \<Rightarrow> (st, notify_result E st streamHandle s1))"

text \<open>The call itself, or its emulation, by the cache.\<close>

definition call_or_emulate ::
    "('h, 'd, 'e, 'l, 'n, 'q, 'x) api_env \<Rightarrow> ('h, 'd, 'l, 'q, 'x) CurlApiCallbacks option \<Rightarrow> ServiceCallContext option
      \<Rightarrow> (STATUS \<times> ('h, 'd, 'l, 'q, 'x) CurlApiCallbacks option) option
      \<Rightarrow> (ServiceCallContext \<Rightarrow> ('h, 'd, 'l, 'q, 'x) CurlApiCallbacks \<Rightarrow> (STATUS \<times> ('h, 'd, 'l, 'q, 'x) CurlApiCallbacks) option)
      \<Rightarrow> (STATUS \<times> ('h, 'd, 'l, 'q, 'x) CurlApiCallbacks option) option" where
  "call_or_emulate E customData pServiceCallContext call emulate = (case (customData, pServiceCallContext) of
     (Some s, Some ctx) \<Rightarrow>
       if ca_pCallbacksProvider s = None then Some (STATUS_INVALID_ARG, customData)
       else do {
         (st, emulateApiCall) \<leftarrow> checkApiCallEmulation E customData (sc_customData ctx) True;
         if STATUS_FAILED st then Some (st, customData)
         else if \<not> emulateApiCall then call
         else map_option (apsnd Some) (emulate ctx s)
       }
   | _ \<Rightarrow> Some (STATUS_INVALID_ARG, customData))"

definition createStreamCachingCurl ::
    "('h, 'd, 'e, 'l, 'n, 'q, 'x) api_env \<Rightarrow> ('h, 'd, 'l, 'q, 'x) CurlApiCallbacks option \<Rightarrow> PCHAR \<Rightarrow> PCHAR \<Rightarrow> PCHAR \<Rightarrow> PCHAR \<Rightarrow> UINT64
      \<Rightarrow> ServiceCallContext option \<Rightarrow> (STATUS \<times> ('h, 'd, 'l, 'q, 'x) CurlApiCallbacks option) option" where
  "createStreamCachingCurl E customData deviceName streamName contentType kmsKeyId retentionPeriod pServiceCallContext =
     call_or_emulate E customData pServiceCallContext
       (createStreamCurl E customData deviceName streamName contentType kmsKeyId retentionPeriod pServiceCallContext)
       (\<lambda>ctx s. do {
          name \<leftarrow> streamName;
          Some (post_result E (CreateStreamResultEvent (sc_customData ctx) (SERVICE_CALL_RESULT_OK (ku_consts (ka_curl E))) name) (sc_customData ctx) s)
        })"

text \<open>The description of a stream that is taken to be there, made of what is known of it.\<close>

definition emulated_description :: "api_consts \<Rightarrow> known_stream \<Rightarrow> string \<Rightarrow> UINT64 \<Rightarrow> StreamDescription" where
  "emulated_description C info streamName now =
     \<lparr>sd_version = kc_STREAM_DESCRIPTION_CURRENT_VERSION C, sd_deviceName = ''DEVICE_NAME'',
      sd_streamName = STRNCPY streamName (kc_MAX_STREAM_NAME_LEN C), sd_contentType = ks_contentType info, sd_updateVersion = ''VERSION'',
      sd_streamArn = STRNCPY streamName (kc_MAX_ARN_LEN C), sd_kmsKeyId = ks_kmsKeyId info,
      sd_streamStatus = kc_STREAM_STATUS_ACTIVE C, sd_creationTime = now, sd_retention = ks_retention info\<rparr>"

definition describeStreamCachingCurl ::
    "('h, 'd, 'e, 'l, 'n, 'q, 'x) api_env \<Rightarrow> ('h, 'd, 'l, 'q, 'x) CurlApiCallbacks option \<Rightarrow> PCHAR
      \<Rightarrow> ServiceCallContext option \<Rightarrow> (STATUS \<times> ('h, 'd, 'l, 'q, 'x) CurlApiCallbacks option) option" where
  "describeStreamCachingCurl E customData streamName pServiceCallContext =
     call_or_emulate E customData pServiceCallContext (describeStreamCurl E customData streamName pServiceCallContext)
       (\<lambda>ctx s. (case ka_streamInfo E (sc_customData ctx) of (st, info) \<Rightarrow>
          if STATUS_FAILED st then Some (st, s)
          else do {
            name \<leftarrow> streamName;
            let sd = emulated_description (ka_consts E) info name (ka_getCurrentTime E (cw_ext (ca_world s)));
            Some (post_result E (DescribeStreamResultEvent (sc_customData ctx) (SERVICE_CALL_RESULT_OK (ku_consts (ka_curl E))) (Some sd))
                    (sc_customData ctx) s)
          }))"

definition tagResourceCachingCurl ::
    "('h, 'd, 'e, 'l, 'n, 'q, 'x) api_env \<Rightarrow> bool \<Rightarrow> ('h, 'd, 'l, 'q, 'x) CurlApiCallbacks option \<Rightarrow> PCHAR \<Rightarrow> (string \<times> string) list option
      \<Rightarrow> ServiceCallContext option \<Rightarrow> (STATUS \<times> ('h, 'd, 'l, 'q, 'x) CurlApiCallbacks option) option" where
  "tagResourceCachingCurl E memory customData streamArn tags pServiceCallContext =
     call_or_emulate E customData pServiceCallContext (tagResourceCurl E memory customData streamArn tags pServiceCallContext)
       (\<lambda>ctx s. Some (post_result E (TagResourceResultEvent (sc_customData ctx) (SERVICE_CALL_RESULT_OK (ku_consts (ka_curl E)))) (sc_customData ctx) s))"

text \<open>Here the cache is looked up in both modes that cache, and the event is made while its lock is held.\<close>

definition getStreamingEndpointCachingCurl ::
    "('h, 'd, 'e, 'l, 'n, 'q, 'x) api_env \<Rightarrow> ('h, 'd, 'l, 'q, 'x) CurlApiCallbacks option \<Rightarrow> PCHAR \<Rightarrow> PCHAR
      \<Rightarrow> ServiceCallContext option \<Rightarrow> (STATUS \<times> ('h, 'd, 'l, 'q, 'x) CurlApiCallbacks option) option" where
  "getStreamingEndpointCachingCurl E customData streamName apiName pServiceCallContext = (case (customData, pServiceCallContext) of
     (Some s, Some ctx) \<Rightarrow>
       if ca_pCallbacksProvider s = None then Some (STATUS_INVALID_ARG, customData)
       else do {
         (st, t) \<leftarrow> (if ca_cacheType s = API_CALL_CACHE_TYPE_NONE then Some (STATUS_SUCCESS, None) else cached_endpoint E (sc_customData ctx) s);
         if STATUS_FAILED st then Some (st, customData)
         else (case t of
             None \<Rightarrow> getStreamingEndpointCurl E customData streamName apiName pServiceCallContext
           | Some tracker \<Rightarrow> map_option (apsnd Some) (with_lock CachedEndpointsLock (\<lambda>s1.
               Some (post_result E (GetStreamingEndpointResultEvent (sc_customData ctx) (SERVICE_CALL_RESULT_OK (ku_consts (ka_curl E)))
                       (et_streamingEndpoint tracker)) (sc_customData ctx) s1)) s))
       }
   | _ \<Rightarrow> Some (STATUS_INVALID_ARG, customData))"

subsection \<open>The answers of the service\<close>

text \<open>The tokens of an answer, which must be more than one and start with an object.\<close>

definition answer_tokens :: "string \<Rightarrow> nat \<Rightarrow> (STATUS \<times> jsmntok_t list) option" where
  "answer_tokens js len = do {
     (tokenCount, tokens) \<leftarrow> jsmn_tokens js len MAX_JSON_TOKEN_COUNT;
     if \<not> tokenCount > 1 then Some (STATUS_INVALID_API_CALL_RETURN_JSON, [])
     else if tok_type (tokens ! 0) \<noteq> JSMN_OBJECT then Some (STATUS_INVALID_API_CALL_RETURN_JSON, [])
     else Some (STATUS_SUCCESS, tokens)
   }"

text \<open>The text behind a key: the next token, which must be one of the tokens that were found.\<close>

definition value_at :: "string \<Rightarrow> jsmntok_t list \<Rightarrow> nat \<Rightarrow> PCHAR" where
  "value_at js tokens i = (if i < length tokens then Some (token_text js (tokens ! i)) else None)"

text \<open>The loop that looks for one key from a token on, and takes the text behind it.\<close>

function find_value :: "string \<Rightarrow> jsmntok_t list \<Rightarrow> string \<Rightarrow> nat \<Rightarrow> nat \<Rightarrow> (STATUS \<times> PCHAR) option" where
  "find_value js tokens key maxLen i =
     (if i < length tokens
      then if compareJsonString js (tokens ! i) JSMN_STRING key
           then (case value_at js tokens (i + 1) of
               None \<Rightarrow> None
             | Some v \<Rightarrow> if length v \<le> maxLen then Some (STATUS_SUCCESS, Some v) else Some (STATUS_INVALID_API_CALL_RETURN_JSON, None))
           else find_value js tokens key maxLen (i + 1)
      else Some (STATUS_SUCCESS, None))"
  by pat_completeness auto

termination by (relation "measure (\<lambda>(js, tokens, key, maxLen, i). length tokens - i)") auto

declare find_value.simps [simp del]

definition answer_value :: "PCHAR \<Rightarrow> nat \<Rightarrow> string \<Rightarrow> nat \<Rightarrow> (STATUS \<times> PCHAR) option" where
  "answer_value responseData len key maxLen = do {
     let js = (case responseData of None \<Rightarrow> [] | Some s \<Rightarrow> s);
     (st, tokens) \<leftarrow> answer_tokens js len;
     if STATUS_FAILED st then Some (st, None) else find_value js tokens key maxLen 1
   }"

definition getStreamStatusFromString :: "api_consts \<Rightarrow> string \<Rightarrow> nat \<Rightarrow> UINT32" where
  "getStreamStatusFromString C status len =
     (if STRNCMP ''ACTIVE'' status len = 0 then kc_STREAM_STATUS_ACTIVE C
      else if STRNCMP ''CREATING'' status len = 0 then kc_STREAM_STATUS_CREATING C
      else if STRNCMP ''UPDATING'' status len = 0 then kc_STREAM_STATUS_UPDATING C
      else kc_STREAM_STATUS_DELETING C)"

definition zero_StreamDescription :: StreamDescription where
  "zero_StreamDescription = \<lparr>sd_version = 0, sd_deviceName = [], sd_streamName = [], sd_contentType = [], sd_updateVersion = [],
     sd_streamArn = [], sd_kmsKeyId = [], sd_streamStatus = 0, sd_creationTime = 0, sd_retention = 0\<rparr>"

text \<open>
  \<open>STRNCPY\<close> of exactly the characters of a value over what an array holds: a longer text that was
  there before keeps its end.
\<close>

definition overwrite :: "string \<Rightarrow> string \<Rightarrow> string" where
  "overwrite new old = new @ drop (length new) old"

definition store_text ::
    "nat \<Rightarrow> ((string \<Rightarrow> string) \<Rightarrow> StreamDescription \<Rightarrow> StreamDescription) \<Rightarrow> string \<Rightarrow> StreamDescription \<Rightarrow> STATUS \<times> StreamDescription" where
  "store_text maxLen update v sd =
     (if length v \<le> maxLen then (STATUS_SUCCESS, update (overwrite v) sd) else (STATUS_INVALID_API_CALL_RETURN_JSON, sd))"

text \<open>What the keys of a stream description do with the text of their value.\<close>

definition description_keys :: "string list" where
  "description_keys = [''DeviceName'', ''MediaType'', ''KmsKeyId'', ''StreamARN'', ''StreamName'', ''Version'', ''Status'',
     ''DataRetentionInHours'', ''CreationTime'']"

definition store_member ::
    "api_consts \<Rightarrow> (string \<Rightarrow> STATUS \<times> UINT64) \<Rightarrow> string \<Rightarrow> string \<Rightarrow> StreamDescription \<Rightarrow> STATUS \<times> StreamDescription" where
  "store_member C strtoui64 key v sd =
     (if key = ''DeviceName'' then store_text (kc_MAX_DEVICE_NAME_LEN C) sd_deviceName_update v sd
      else if key = ''MediaType'' then store_text (kc_MAX_CONTENT_TYPE_LEN C) sd_contentType_update v sd
      else if key = ''KmsKeyId'' then store_text (kc_MAX_ARN_LEN C) sd_kmsKeyId_update v sd
      else if key = ''StreamARN'' then store_text (kc_MAX_ARN_LEN C) sd_streamArn_update v sd
      else if key = ''StreamName'' then store_text (kc_MAX_STREAM_NAME_LEN C) sd_streamName_update v sd
      else if key = ''Version'' then store_text (kc_MAX_UPDATE_VERSION_LEN C) sd_updateVersion_update v sd
      else if key = ''Status'' then
        (if length v \<le> MAX_DESCRIBE_STREAM_STATUS_LEN
         then (STATUS_SUCCESS, sd\<lparr>sd_streamStatus := getStreamStatusFromString C v (length v)\<rparr>)
         else (STATUS_INVALID_API_CALL_RETURN_JSON, sd))
      else if key = ''DataRetentionInHours'' then
        (case strtoui64 v of (st, retention) \<Rightarrow>
           if STATUS_FAILED st then (st, sd)
           else (STATUS_SUCCESS, sd\<lparr>sd_retention := retention * kc_HUNDREDS_OF_NANOS_IN_AN_HOUR C\<rparr>))
      else (STATUS_SUCCESS, sd))"

text \<open>
  The loop over the tokens of a description. Its result is undefined when a known key is the last
  token; the value of \<open>CreationTime\<close> is skipped without being read.
\<close>

function describe_loop ::
    "api_consts \<Rightarrow> (string \<Rightarrow> STATUS \<times> UINT64) \<Rightarrow> string \<Rightarrow> jsmntok_t list \<Rightarrow> nat \<Rightarrow> bool \<Rightarrow> StreamDescription
      \<Rightarrow> (STATUS \<times> bool \<times> StreamDescription) option" where
  "describe_loop C strtoui64 js tokens i jsonInStreamDescription sd =
     (if i < length tokens
      then if \<not> jsonInStreamDescription
        then if compareJsonString js (tokens ! i) JSMN_STRING ''StreamInfo''
             then describe_loop C strtoui64 js tokens (i + 2) True (sd\<lparr>sd_version := kc_STREAM_DESCRIPTION_CURRENT_VERSION C\<rparr>)
             else describe_loop C strtoui64 js tokens (i + 1) False sd
        else (case find (compareJsonString js (tokens ! i) JSMN_STRING) description_keys of
            None \<Rightarrow> describe_loop C strtoui64 js tokens (i + 1) True sd
          | Some key \<Rightarrow>
              if key = ''CreationTime'' then describe_loop C strtoui64 js tokens (i + 2) True sd
              else (case value_at js tokens (i + 1) of
                  None \<Rightarrow> None
                | Some v \<Rightarrow> (case store_member C strtoui64 key v sd of (st, sd') \<Rightarrow>
                    if STATUS_FAILED st then Some (st, True, sd')
                    else describe_loop C strtoui64 js tokens (i + 2) True sd')))
      else Some (STATUS_SUCCESS, jsonInStreamDescription, sd))"
  by pat_completeness auto

termination by (relation "measure (\<lambda>(C, strtoui64, js, tokens, i, b, sd). length tokens - i)") auto

declare describe_loop.simps [simp del]

text \<open>
  The description of an answer: whether there is one, and its contents, \<open>None\<close> when nothing was set.
\<close>

definition describe_answer ::
    "api_consts \<Rightarrow> (string \<Rightarrow> STATUS \<times> UINT64) \<Rightarrow> PCHAR \<Rightarrow> nat \<Rightarrow> (STATUS \<times> bool \<times> StreamDescription option) option" where
  "describe_answer C strtoui64 responseData len = (case responseData of
     None \<Rightarrow> Some (STATUS_SUCCESS, False, None)
   | Some js \<Rightarrow>
       if len = 0 then Some (STATUS_SUCCESS, False, None)
       else do {
         (st, tokens) \<leftarrow> answer_tokens js len;
         if STATUS_FAILED st then Some (st, False, None)
         else map_option (\<lambda>(st1, found, sd). (st1, found, Some sd)) (describe_loop C strtoui64 js tokens 1 False zero_StreamDescription)
       })"

end
