(* ===== verification/Curl_Handlers.thy ===== *)
theory Curl_Handlers
  imports Curl_Api
begin

text \<open>
  The functions that run on the threads of the calls (\<open>CurlApiCallbacks.c\<close>). Each is the part up to
  the label \<open>CleanUp\<close>, which signs the request, calls the service and takes the answer apart, followed
  by the part behind it, which takes the request out of the table or the list, releases it, and reports
  the result unless the request was told to end. Other threads may run between the two.
\<close>

subsection \<open>Signing and calling\<close>

text \<open>
  What every handler does first. The lock of the request is taken and released at once: the thread that
  starts the call holds it until the request is registered. A request without its parts aborts.
\<close>

definition call_service ::
    "('h, 'd, 'e, 'l, 'n, 'q, 'x) api_env \<Rightarrow> ('l, 'q, 'x) perform \<Rightarrow> ('l, 'q, 'x) perform_hook \<Rightarrow> UINT64
      \<Rightarrow> ('h, 'd, 'l, 'q, 'x) CurlApiCallbacks \<Rightarrow> (STATUS \<times> ('h, 'd, 'l, 'q, 'x) CurlApiCallbacks) option" where
  "call_service E perform hook p s = do {
     rq \<leftarrow> ca_requests s p;
     if ca_pCallbacksProvider s = None \<or> cq_pCurlResponse rq = None then None
     else do {
       (st, ri, hh) \<leftarrow> signAwsRequestInfo (ka_signer E) (ca_credentials s) (Some (cq_requestInfo rq)) (cw_headers (ca_world s));
       ri1 \<leftarrow> ri;
       let rq1 = rq\<lparr>cq_requestInfo := ri1\<rparr>;
       let s1 = s\<lparr>ca_requests := (ca_requests s)(p \<mapsto> rq1), ca_world := (ca_world s)\<lparr>cw_headers := hh\<rparr>\<rparr>;
       if STATUS_FAILED st then Some (st, s1)
       else do {
         let s2 = (if ri_currentTime ri1 < ri_callAfter ri1 then sleep (ri_callAfter ri1 - ri_currentTime ri1) s1 else s1);
         (st1, rq2, w) \<leftarrow> curlCallApi (ka_curl E) perform hook (Some rq1) (ca_world s2);
         rq3 \<leftarrow> rq2;
         Some (st1, s2\<lparr>ca_requests := (ca_requests s2)(p \<mapsto> rq3), ca_world := w\<rparr>)
       }
     }
   }"

text \<open>
  Behind the call: nothing more when the request was told to end, and a failure when there is no
  result. \<open>k\<close> is what the handler does with the answer, its text and its length; \<open>r\<close> is what its
  variables hold without it.
\<close>

definition with_answer ::
    "('h, 'd, 'e, 'l, 'n, 'q, 'x) api_env \<Rightarrow> UINT64 \<Rightarrow> 'r \<Rightarrow> (SERVICE_CALL_RESULT \<Rightarrow> PCHAR \<Rightarrow> nat \<Rightarrow> (STATUS \<times> 'r) option)
      \<Rightarrow> STATUS \<times> ('h, 'd, 'l, 'q, 'x) CurlApiCallbacks \<Rightarrow> (STATUS \<times> 'r) option" where
  "with_answer E p r k called = (case called of (st, s) \<Rightarrow>
     if STATUS_FAILED st then Some (st, r)
     else do {
       rq \<leftarrow> ca_requests s p;
       if cq_terminating rq then Some (STATUS_SUCCESS, r)
       else do {
         resp \<leftarrow> cq_pCurlResponse rq;
         let ci = cs_callInfo resp;
         if ci_callResult ci = ku_RESULT_NOT_SET (ka_curl E) then Some (STATUS_INVALID_OPERATION, r)
         else k (ci_callResult ci) (ci_responseData ci) (unat (ci_responseDataLen ci))
       }
     })"

text \<open>
  The end of a request that is in the table: what is kept of it, and the state behind its release. The
  result has the result of the call, the stream and whether the request was told to end.
\<close>

definition end_request ::
    "('h, 'd, 'e, 'l, 'n, 'q, 'x) api_env \<Rightarrow> UINT64 \<Rightarrow> ('h, 'd, 'l, 'q, 'x) CurlApiCallbacks
      \<Rightarrow> (SERVICE_CALL_RESULT \<times> STREAM_HANDLE \<times> bool \<times> ('h, 'd, 'l, 'q, 'x) CurlApiCallbacks) option" where
  "end_request E p s = do {
     rq \<leftarrow> ca_requests s p;
     let callResult = (case cq_pCurlResponse rq of None \<Rightarrow> ku_RESULT_NOT_SET (ka_curl E) | Some r \<Rightarrow> ci_callResult (cs_callInfo r));
     let s1 = s\<lparr>ca_requests := (ca_requests s)(p \<mapsto> rq\<lparr>cq_threadId := None\<rparr>)\<rparr>;
     (_, s2) \<leftarrow> shutdownActiveRequests E (cq_streamHandle rq) CURL_API_CALLBACKS_SHUTDOWN_TIMEOUT True False s1;
     Some (callResult, cq_streamHandle rq, cq_terminating rq, s2)
   }"

subsection \<open>CreateStream\<close>

definition createStreamCurlHandler_end ::
    "('h, 'd, 'e, 'l, 'n, 'q, 'x) api_env \<Rightarrow> UINT64 \<Rightarrow> STATUS \<Rightarrow> string \<Rightarrow> ('h, 'd, 'l, 'q, 'x) CurlApiCallbacks
      \<Rightarrow> (STATUS \<times> ('h, 'd, 'l, 'q, 'x) CurlApiCallbacks) option" where
  "createStreamCurlHandler_end E p retStatus streamArn s = do {
     (callResult, streamHandle, requestTerminating, s1) \<leftarrow> end_request E p s;
     if requestTerminating then Some (retStatus, s1)
     else Some (post_result E (CreateStreamResultEvent streamHandle callResult streamArn) streamHandle s1)
   }"

definition create_answer ::
    "api_consts \<Rightarrow> SERVICE_CALL_RESULT \<Rightarrow> PCHAR \<Rightarrow> nat \<Rightarrow> (STATUS \<times> string) option" where
  "create_answer C callResult responseData len =
     map_option (\<lambda>(st, v). (st, case v of None \<Rightarrow> [] | Some arn \<Rightarrow> arn)) (answer_value responseData len ''StreamARN'' (kc_MAX_ARN_LEN C))"

definition createStreamCurlHandler ::
    "('h, 'd, 'e, 'l, 'n, 'q, 'x) api_env \<Rightarrow> ('l, 'q, 'x) perform \<Rightarrow> ('l, 'q, 'x) perform_hook \<Rightarrow> UINT64
      \<Rightarrow> ('h, 'd, 'l, 'q, 'x) CurlApiCallbacks \<Rightarrow> (STATUS \<times> ('h, 'd, 'l, 'q, 'x) CurlApiCallbacks) option" where
  "createStreamCurlHandler E perform hook p s = do {
     (st, s1) \<leftarrow> call_service E perform hook p s;
     (st1, streamArn) \<leftarrow> with_answer E p [] (create_answer (ka_consts E)) (st, s1);
     createStreamCurlHandler_end E p st1 streamArn s1
   }"

subsection \<open>DescribeStream\<close>

text \<open>The answer is only taken apart when the call succeeded and there is one.\<close>

definition describe_call_answer ::
    "('h, 'd, 'e, 'l, 'n, 'q, 'x) api_env \<Rightarrow> SERVICE_CALL_RESULT \<Rightarrow> PCHAR \<Rightarrow> nat \<Rightarrow> (STATUS \<times> bool \<times> StreamDescription option) option" where
  "describe_call_answer E callResult responseData len =
     (if callResult = SERVICE_CALL_RESULT_OK (ku_consts (ka_curl E))
      then describe_answer (ka_consts E) (ka_strtoui64 E) responseData len else Some (STATUS_SUCCESS, False, None))"

definition describeStreamCurlHandler_end ::
    "('h, 'd, 'e, 'l, 'n, 'q, 'x) api_env \<Rightarrow> UINT64 \<Rightarrow> STATUS \<Rightarrow> bool \<times> StreamDescription option \<Rightarrow> ('h, 'd, 'l, 'q, 'x) CurlApiCallbacks
      \<Rightarrow> (STATUS \<times> ('h, 'd, 'l, 'q, 'x) CurlApiCallbacks) option" where
  "describeStreamCurlHandler_end E p retStatus described s = do {
     (callResult, streamHandle, requestTerminating, s1) \<leftarrow> end_request E p s;
     if requestTerminating then Some (retStatus, s1)
     else
       (case (if callResult = SERVICE_CALL_RESULT_OK (ku_consts (ka_curl E)) \<and> \<not> fst described
              then (case post_event E (DescribeStreamResultEvent streamHandle (SERVICE_CALL_INVALID_ARG (ku_consts (ka_curl E))) (snd described)) s1
                      of (_, s2) \<Rightarrow> (STATUS_INVALID_DESCRIBE_STREAM_RETURN_JSON, s2))
              else post_event E (DescribeStreamResultEvent streamHandle callResult (snd described)) s1) of (st, s3) \<Rightarrow>
          Some (st, notify_result E st streamHandle s3))
   }"

definition describeStreamCurlHandler ::
    "('h, 'd, 'e, 'l, 'n, 'q, 'x) api_env \<Rightarrow> ('l, 'q, 'x) perform \<Rightarrow> ('l, 'q, 'x) perform_hook \<Rightarrow> UINT64
      \<Rightarrow> ('h, 'd, 'l, 'q, 'x) CurlApiCallbacks \<Rightarrow> (STATUS \<times> ('h, 'd, 'l, 'q, 'x) CurlApiCallbacks) option" where
  "describeStreamCurlHandler E perform hook p s = do {
     (st, s1) \<leftarrow> call_service E perform hook p s;
     (st1, described) \<leftarrow> with_answer E p (False, None) (describe_call_answer E) (st, s1);
     describeStreamCurlHandler_end E p st1 described s1
   }"

subsection \<open>GetDataEndpoint\<close>

definition endpoint_answer ::
    "nat \<Rightarrow> SERVICE_CALL_RESULT \<Rightarrow> PCHAR \<Rightarrow> nat \<Rightarrow> (STATUS \<times> PCHAR) option" where
  "endpoint_answer maxUri callResult responseData len =
     map_option (\<lambda>(st, v). (if \<not> STATUS_FAILED st \<and> v = None then STATUS_GET_STREAMING_ENDPOINT_CALL_FAILED else st, v))
       (answer_value responseData len ''DataEndpoint'' maxUri)"

text \<open>
  The endpoint is kept in the tracker of the stream, in a new one when there is none. When the new one
  cannot be put into the table it is lost; the table's status is the status then.
\<close>

definition endpoint_tracker ::
    "('h, 'd, 'e, 'l, 'n, 'q, 'x) api_env \<Rightarrow> STREAM_HANDLE \<Rightarrow> ('h, 'd, 'l, 'q, 'x) CurlApiCallbacks
      \<Rightarrow> STATUS \<times> UINT64 \<times> ('h, 'd, 'l, 'q, 'x) CurlApiCallbacks" where
  "endpoint_tracker E streamHandle s = (case hashTableGet (ka_table E) (ca_pCachedEndpoints s) streamHandle of (st, v) \<Rightarrow>
     if STATUS_FAILED st \<or> v = 0
     then (case ka_malloc E (ca_trackers s) of
         None \<Rightarrow> (st, 0, s)
       | Some a \<Rightarrow> (case hashTablePut (ka_table E) (ca_pCachedEndpoints s) streamHandle a of (st1, t) \<Rightarrow>
           (st1, a, s\<lparr>ca_pCachedEndpoints := t,
              ca_trackers := (ca_trackers s)(a \<mapsto> \<lparr>et_endpointLastUpdateTime = 0, et_streamingEndpoint = []\<rparr>)\<rparr>)))
     else (st, v, s))"

definition cache_endpoint ::
    "('h, 'd, 'e, 'l, 'n, 'q, 'x) api_env \<Rightarrow> STREAM_HANDLE \<Rightarrow> string \<Rightarrow> UINT64 \<Rightarrow> ('h, 'd, 'l, 'q, 'x) CurlApiCallbacks
      \<Rightarrow> (STATUS \<times> ('h, 'd, 'l, 'q, 'x) CurlApiCallbacks) option" where
  "cache_endpoint E streamHandle streamingEndpoint currentTime = with_lock CachedEndpointsLock (\<lambda>s.
     (case endpoint_tracker E streamHandle s of (st, a, s1) \<Rightarrow>
       if a = 0 then Some (st, s1)
       else if ca_trackers s1 a = None then None
       else Some (st, s1\<lparr>ca_trackers := (ca_trackers s1)(a \<mapsto> \<lparr>et_endpointLastUpdateTime = currentTime,
              et_streamingEndpoint = STRNCPY streamingEndpoint (re_maxUri (ku_request (ka_curl E)))\<rparr>)\<rparr>)))"

text \<open>Without an endpoint the array holds what was on the stack.\<close>

definition getStreamingEndpointCurlHandler_end ::
    "('h, 'd, 'e, 'l, 'n, 'q, 'x) api_env \<Rightarrow> UINT64 \<Rightarrow> STATUS \<Rightarrow> PCHAR \<Rightarrow> ('h, 'd, 'l, 'q, 'x) CurlApiCallbacks
      \<Rightarrow> (STATUS \<times> ('h, 'd, 'l, 'q, 'x) CurlApiCallbacks) option" where
  "getStreamingEndpointCurlHandler_end E p retStatus endpoint s = do {
     let streamingEndpoint = (case endpoint of None \<Rightarrow> ka_stack E | Some e \<Rightarrow> e);
     rq \<leftarrow> ca_requests s p;
     (retStatus1, s1) \<leftarrow> (if STATUS_FAILED retStatus then Some (retStatus, s)
        else cache_endpoint E (cq_streamHandle rq) streamingEndpoint (ri_currentTime (cq_requestInfo rq)) s);
     (callResult, streamHandle, requestTerminating, s2) \<leftarrow> end_request E p s1;
     if requestTerminating then Some (retStatus1, s2)
     else Some (post_result E (GetStreamingEndpointResultEvent streamHandle callResult streamingEndpoint) streamHandle s2)
   }"

definition getStreamingEndpointCurlHandler ::
    "('h, 'd, 'e, 'l, 'n, 'q, 'x) api_env \<Rightarrow> ('l, 'q, 'x) perform \<Rightarrow> ('l, 'q, 'x) perform_hook \<Rightarrow> UINT64
      \<Rightarrow> ('h, 'd, 'l, 'q, 'x) CurlApiCallbacks \<Rightarrow> (STATUS \<times> ('h, 'd, 'l, 'q, 'x) CurlApiCallbacks) option" where
  "getStreamingEndpointCurlHandler E perform hook p s = do {
     (st, s1) \<leftarrow> call_service E perform hook p s;
     (st1, endpoint) \<leftarrow> with_answer E p None (endpoint_answer (re_maxUri (ku_request (ka_curl E)))) (st, s1);
     getStreamingEndpointCurlHandler_end E p st1 endpoint s1
   }"

subsection \<open>TagStream\<close>

definition tagResourceCurlHandler_end ::
    "('h, 'd, 'e, 'l, 'n, 'q, 'x) api_env \<Rightarrow> UINT64 \<Rightarrow> STATUS \<Rightarrow> ('h, 'd, 'l, 'q, 'x) CurlApiCallbacks
      \<Rightarrow> (STATUS \<times> ('h, 'd, 'l, 'q, 'x) CurlApiCallbacks) option" where
  "tagResourceCurlHandler_end E p retStatus s = do {
     (callResult, streamHandle, requestTerminating, s1) \<leftarrow> end_request E p s;
     if requestTerminating then Some (retStatus, s1)
     else Some (retStatus, snd (post_result E (TagResourceResultEvent streamHandle callResult) streamHandle s1))
   }"

definition tagResourceCurlHandler ::
    "('h, 'd, 'e, 'l, 'n, 'q, 'x) api_env \<Rightarrow> ('l, 'q, 'x) perform \<Rightarrow> ('l, 'q, 'x) perform_hook \<Rightarrow> UINT64
      \<Rightarrow> ('h, 'd, 'l, 'q, 'x) CurlApiCallbacks \<Rightarrow> (STATUS \<times> ('h, 'd, 'l, 'q, 'x) CurlApiCallbacks) option" where
  "tagResourceCurlHandler E perform hook p s = do {
     (st, s1) \<leftarrow> call_service E perform hook p s;
     (st1, _) \<leftarrow> with_answer E p () (\<lambda>_ _ _. Some (STATUS_SUCCESS, ())) (st, s1);
     tagResourceCurlHandler_end E p st1 s1
   }"

subsection \<open>PutMedia\<close>

text \<open>An upload that ends before the end of the stream is reported as terminated.\<close>

definition putStreamCurlHandler_end ::
    "('h, 'd, 'e, 'l, 'n, 'q, 'x) api_env \<Rightarrow> UINT64 \<Rightarrow> STATUS \<Rightarrow> ('h, 'd, 'l, 'q, 'x) CurlApiCallbacks
      \<Rightarrow> (STATUS \<times> ('h, 'd, 'l, 'q, 'x) CurlApiCallbacks) option" where
  "putStreamCurlHandler_end E p retStatus s = do {
     rq \<leftarrow> ca_requests s p;
     let endOfStream = (case cq_pCurlResponse rq of None \<Rightarrow> False | Some r \<Rightarrow> cs_endOfStream r);
     let callResult = (case cq_pCurlResponse rq of None \<Rightarrow> ku_RESULT_NOT_SET (ka_curl E) | Some r \<Rightarrow> ci_callResult (cs_callInfo r));
     let s1 = s\<lparr>ca_requests := (ca_requests s)(p \<mapsto> rq\<lparr>cq_threadId := None\<rparr>)\<rparr>;
     (_, s2) \<leftarrow> shutdownActiveUploads E (cq_streamHandle rq) (cq_uploadHandle rq) CURL_API_CALLBACKS_SHUTDOWN_TIMEOUT True False s1;
     if cq_terminating rq then Some (retStatus, s2)
     else
       let s3 = (if endOfStream then s2 else snd (post_event E (StreamTerminated (cq_streamHandle rq) (cq_uploadHandle rq) callResult) s2))
       in Some (retStatus, notify_result E retStatus (cq_streamHandle rq) s3)
   }"

definition putStreamCurlHandler ::
    "('h, 'd, 'e, 'l, 'n, 'q, 'x) api_env \<Rightarrow> ('l, 'q, 'x) perform \<Rightarrow> ('l, 'q, 'x) perform_hook \<Rightarrow> UINT64
      \<Rightarrow> ('h, 'd, 'l, 'q, 'x) CurlApiCallbacks \<Rightarrow> (STATUS \<times> ('h, 'd, 'l, 'q, 'x) CurlApiCallbacks) option" where
  "putStreamCurlHandler E perform hook p s = do {
     (st, s1) \<leftarrow> call_service E perform hook p s;
     (st1, _) \<leftarrow> with_answer E p () (\<lambda>_ _ _. Some (STATUS_SUCCESS, ())) (st, s1);
     putStreamCurlHandler_end E p st1 s1
   }"

end
