(* ===== verification/Curl_Contract.thy ===== *)
theory Curl_Contract
  imports Curl_Handlers
begin

text \<open>
  What the curl API callbacks rely on and what they keep: the contracts of the hash table and of the
  doubly linked list of the platform independent code, the invariant of the object, and the lemmas by
  which an entry is added, changed and removed.
\<close>

subsection \<open>The tables\<close>

text \<open>
  A lookup finds what was put and not removed; a key that is present is not put again; a failure leaves
  the table as it was.
\<close>

locale hash_map =
  fixes ops :: "'h table_ops"
    and lookup :: "'h \<Rightarrow> UINT64 \<rightharpoonup> UINT64"
  assumes get_present: "lookup t k = Some v \<Longrightarrow> hashTableGet ops t k = (STATUS_SUCCESS, v)"
    and get_absent: "lookup t k = None \<Longrightarrow> fst (hashTableGet ops t k) = STATUS_HASH_KEY_NOT_PRESENT"
    and put_new: "\<lbrakk>lookup t k = None; hashTablePut ops t k v = (STATUS_SUCCESS, t')\<rbrakk> \<Longrightarrow> lookup t' = (lookup t)(k \<mapsto> v)"
    and put_present: "lookup t k = Some w \<Longrightarrow> fst (hashTablePut ops t k v) \<noteq> STATUS_SUCCESS"
    and put_failed: "\<lbrakk>hashTablePut ops t k v = (st, t'); st \<noteq> STATUS_SUCCESS\<rbrakk> \<Longrightarrow> t' = t"
    and remove_present: "lookup t k = Some v \<Longrightarrow> \<exists>t'. hashTableRemove ops t k = (STATUS_SUCCESS, t') \<and> lookup t' = (lookup t)(k := None)"
    and remove_failed: "\<lbrakk>hashTableRemove ops t k = (st, t'); st \<noteq> STATUS_SUCCESS\<rbrakk> \<Longrightarrow> t' = t"
    and contains: "hashTableContains ops t k = (STATUS_SUCCESS, lookup t k \<noteq> None)"
    and is_empty: "hashTableIsEmpty ops t = (STATUS_SUCCESS, lookup t = Map.empty)"
    and clear: "\<exists>t'. hashTableClear ops t = (STATUS_SUCCESS, t') \<and> lookup t' = Map.empty"
    and entries: "set (hashTableEntries ops t) = {(k, v). lookup t k = Some v}"
    and entries_distinct: "distinct (map fst (hashTableEntries ops t))"
    and all_entries: "\<lbrakk>hashTableGetAllEntries ops t n = (STATUS_SUCCESS, es)\<rbrakk> \<Longrightarrow> set es = {(k, v). lookup t k = Some v}"
begin

lemma put_Some:
  assumes "hashTablePut ops t k v = (st, t')"
  shows "st = STATUS_SUCCESS \<and> lookup t k = None \<and> lookup t' = (lookup t)(k \<mapsto> v) \<or> st \<noteq> STATUS_SUCCESS \<and> t' = t"
  using assms put_new [of t k v t'] put_present [of t k _ v] put_failed [OF assms] by (cases "lookup t k") auto

lemma get_Some:
  assumes "hashTableGet ops t k = (st, v)"
  shows "st = STATUS_SUCCESS \<and> lookup t k = Some v \<or> st = STATUS_HASH_KEY_NOT_PRESENT \<and> lookup t k = None"
  using assms get_present [of t k] get_absent [of t k] by (cases "lookup t k") auto

end

definition first_node :: "('e \<times> UINT64) list \<Rightarrow> 'e option" where
  "first_node xs = (case xs of [] \<Rightarrow> None | x # _ \<Rightarrow> Some (fst x))"

lemma first_node_simps [simp]: "first_node [] = None" "first_node (x # xs) = Some (fst x)"
  by (simp_all add: first_node_def)

text \<open>A list is its nodes with their data, in their order.\<close>

locale double_list =
  fixes ops :: "('d, 'e) double_list_ops"
    and nodes :: "'d \<Rightarrow> ('e \<times> UINT64) list"
  assumes head_node: "doubleListGetHeadNode ops d = (STATUS_SUCCESS, first_node (nodes d))"
    and next_node: "nodes d = xs @ (e, v) # ys \<Longrightarrow> doubleListGetNextNode ops d e = (STATUS_SUCCESS, first_node ys)"
    and node_data: "nodes d = xs @ (e, v) # ys \<Longrightarrow> doubleListGetNodeData ops d e = (STATUS_SUCCESS, v)"
    and node_count: "doubleListGetNodeCount ops d = (STATUS_SUCCESS, length (nodes d))"
    and insert_tail: "doubleListInsertItemTail ops d v = (STATUS_SUCCESS, d') \<Longrightarrow> \<exists>e. nodes d' = nodes d @ [(e, v)]"
    and insert_failed: "\<lbrakk>doubleListInsertItemTail ops d v = (st, d'); st \<noteq> STATUS_SUCCESS\<rbrakk> \<Longrightarrow> d' = d"
    and delete_node: "nodes d = xs @ (e, v) # ys \<Longrightarrow> \<exists>d'. doubleListDeleteNode ops d e = (STATUS_SUCCESS, d') \<and> nodes d' = xs @ ys"

text \<open>
  Both, and the allocator: an address that it gives is not in use and not NULL. The handle of no upload
  is the largest number.
\<close>

locale api_tables = tb: hash_map "ka_table E" lookup + dl: double_list "ka_list E" nodes
  for E :: "('h, 'd, 'e, 'l, 'n, 'q, 'x) api_env" and lookup :: "'h \<Rightarrow> UINT64 \<rightharpoonup> UINT64" and nodes :: "'d \<Rightarrow> ('e \<times> UINT64) list" +
  assumes calloc_fresh: "ka_calloc E rs = Some p \<Longrightarrow> rs p = None \<and> p \<noteq> 0"
    and malloc_fresh: "ka_malloc E ts = Some a \<Longrightarrow> ts a = None \<and> a \<noteq> 0"
    and invalid_upload: "kc_INVALID_UPLOAD_HANDLE_VALUE (ka_consts E) = - 1"

subsection \<open>The invariant\<close>

text \<open>
  The live requests are those that the table or the list refers to, each from one place, and the key of
  a request in the table is its stream.
\<close>

definition requests_inv :: "STREAM_HANDLE \<Rightarrow> (UINT64 \<rightharpoonup> UINT64) \<Rightarrow> UINT64 list \<Rightarrow> (UINT64 \<Rightarrow> ('l, 'q) CurlRequest option) \<Rightarrow> bool" where
  "requests_inv invalid act ups rs \<longleftrightarrow>
     inj_on act (dom act) \<and> distinct ups \<and> ran act \<inter> set ups = {} \<and> ran act \<union> set ups = dom rs \<and>
     (\<forall>k p. act k = Some p \<longrightarrow> (\<exists>rq. rs p = Some rq \<and> cq_streamHandle rq = k)) \<and>
     (\<forall>p rq. rs p = Some rq \<longrightarrow> p \<noteq> 0 \<and> cq_pCurlResponse rq \<noteq> None \<and> cq_streamHandle rq \<noteq> invalid)"

text \<open>The uploads have different handles, below the counter that numbers them.\<close>

definition handle_of :: "(UINT64 \<Rightarrow> ('l, 'q) CurlRequest option) \<Rightarrow> UINT64 \<Rightarrow> UPLOAD_HANDLE" where
  "handle_of rs p = cq_uploadHandle (the (rs p))"

definition uploads_inv :: "UINT64 \<Rightarrow> UINT64 list \<Rightarrow> (UINT64 \<Rightarrow> ('l, 'q) CurlRequest option) \<Rightarrow> bool" where
  "uploads_inv n ups rs \<longleftrightarrow> inj_on (handle_of rs) (set ups) \<and> (\<forall>p\<in>set ups. handle_of rs p < n)"

text \<open>Every live request has exactly one thread, and no thread has a request that is not live.\<close>

definition threads_inv :: "UINT64 list \<Rightarrow> (UINT64 \<Rightarrow> ('l, 'q) CurlRequest option) \<Rightarrow> (nat \<times> string \<times> UINT64) list \<Rightarrow> bool" where
  "threads_inv ups rs ths \<longleftrightarrow>
     distinct (map fst ths) \<and> distinct (map (snd \<circ> snd) ths) \<and> set (map (snd \<circ> snd) ths) = dom rs \<and>
     (\<forall>(t, f, p)\<in>set ths. f = ''putStreamCurlHandler'' \<longleftrightarrow> p \<in> set ups)"

text \<open>
  A thread that was cancelled is none of the threads that run, and it was cancelled while it waited for
  the lock that its request was started with: nobody releases that lock any more. Its request may have
  been released.
\<close>

definition cancelled_inv :: "curl_lock list \<Rightarrow> (nat \<times> string \<times> UINT64) list \<Rightarrow> (nat \<times> string \<times> UINT64) list \<Rightarrow> bool" where
  "cancelled_inv ls ths cs \<longleftrightarrow> distinct (map fst (ths @ cs)) \<and> (\<forall>(t, f, p)\<in>set cs. StartLock p \<in> set ls)"

lemma cancelled_inv_filter: "cancelled_inv ls ths cs \<Longrightarrow> cancelled_inv ls (filter P ths) cs"
  by (auto simp: cancelled_inv_def distinct_map_filter)

lemma cancelled_inv_lock: "cancelled_inv ls ths cs \<Longrightarrow> cancelled_inv (l # ls) ths cs"
  by (auto simp: cancelled_inv_def)

lemma cancelled_inv_add:
  "cancelled_inv ls ths cs \<Longrightarrow> tid \<notin> fst ` set ths \<union> fst ` set cs \<Longrightarrow> cancelled_inv ls (ths @ [(tid, f, p)]) cs"
  "cancelled_inv ls ths cs \<Longrightarrow> tid \<notin> fst ` set ths \<union> fst ` set cs \<Longrightarrow> cancelled_inv (StartLock p # ls) ths (cs @ [(tid, f, p)])"
  by (auto simp: cancelled_inv_def)

lemma cancelled_inv_remove: "cancelled_inv ls ths cs \<Longrightarrow> cancelled_inv ls ths (remove1 c cs)"
  by (auto simp: cancelled_inv_def distinct_map inj_on_def dest: notin_set_remove1 in_set_remove1)

text \<open>The trackers that the cache refers to are live, and no two streams share one.\<close>

definition endpoints_inv :: "(UINT64 \<rightharpoonup> UINT64) \<Rightarrow> (UINT64 \<Rightarrow> EndpointTracker option) \<Rightarrow> bool" where
  "endpoints_inv eps ts \<longleftrightarrow> inj_on eps (dom eps) \<and> ran eps \<subseteq> dom ts \<and> 0 \<notin> ran eps"

text \<open>Between two operations no lock of the object is held; the lock of a released request may be.\<close>

definition shared_locks_free :: "curl_lock list \<Rightarrow> bool" where
  "shared_locks_free ls \<longleftrightarrow> (\<forall>l\<in>set ls. case l of StartLock p \<Rightarrow> True | _ \<Rightarrow> False)"

abbreviation active :: "('h \<Rightarrow> UINT64 \<rightharpoonup> UINT64) \<Rightarrow> ('h, 'd, 'l, 'q, 'x) CurlApiCallbacks \<Rightarrow> UINT64 \<rightharpoonup> UINT64" where
  "active lookup s \<equiv> lookup (ca_pActiveRequests s)"

abbreviation uploads :: "('d \<Rightarrow> ('e \<times> UINT64) list) \<Rightarrow> ('h, 'd, 'l, 'q, 'x) CurlApiCallbacks \<Rightarrow> UINT64 list" where
  "uploads nodes s \<equiv> map snd (nodes (ca_pActiveUploads s))"

definition api_inv ::
    "('h, 'd, 'e, 'l, 'n, 'q, 'x) api_env \<Rightarrow> ('h \<Rightarrow> UINT64 \<rightharpoonup> UINT64) \<Rightarrow> ('d \<Rightarrow> ('e \<times> UINT64) list)
      \<Rightarrow> ('h, 'd, 'l, 'q, 'x) CurlApiCallbacks \<Rightarrow> bool" where
  "api_inv E lookup nodes s \<longleftrightarrow>
     ca_pCallbacksProvider s \<noteq> None \<and> shared_locks_free (ca_locks s) \<and>
     requests_inv (ku_INVALID_STREAM (ka_curl E)) (active lookup s) (uploads nodes s) (ca_requests s) \<and>
     uploads_inv (ca_streamingRequestCount s) (uploads nodes s) (ca_requests s) \<and>
     threads_inv (uploads nodes s) (ca_requests s) (ca_threads s) \<and>
     cancelled_inv (ca_locks s) (ca_threads s) (ca_cancelled s) \<and>
     endpoints_inv (lookup (ca_pCachedEndpoints s)) (ca_trackers s)"

subsection \<open>Changing a request\<close>

text \<open>What never changes of a request while it is live.\<close>

definition keeps :: "('l, 'q) CurlRequest \<Rightarrow> ('l, 'q) CurlRequest \<Rightarrow> bool" where
  "keeps rq rq' \<longleftrightarrow> cq_streamHandle rq' = cq_streamHandle rq \<and> cq_uploadHandle rq' = cq_uploadHandle rq \<and>
     (cq_pCurlResponse rq \<noteq> None \<longrightarrow> cq_pCurlResponse rq' \<noteq> None)"

lemma keeps_refl [simp]: "keeps rq rq"
  by (simp add: keeps_def)

lemma keeps_trans: "keeps a b \<Longrightarrow> keeps b c \<Longrightarrow> keeps a c"
  by (auto simp: keeps_def)

definition all_keep :: "(UINT64 \<Rightarrow> ('l, 'q) CurlRequest option) \<Rightarrow> (UINT64 \<Rightarrow> ('l, 'q) CurlRequest option) \<Rightarrow> bool" where
  "all_keep rs rs' \<longleftrightarrow> dom rs' = dom rs \<and> (\<forall>p rq rq'. rs p = Some rq \<longrightarrow> rs' p = Some rq' \<longrightarrow> keeps rq rq')"

lemma all_keep_refl [simp]: "all_keep rs rs"
  by (simp add: all_keep_def)

lemma all_keep_update: "rs p = Some rq \<Longrightarrow> keeps rq rq' \<Longrightarrow> all_keep rs (rs(p \<mapsto> rq'))"
  by (auto simp: all_keep_def)

lemma all_keepD: "all_keep rs rs' \<Longrightarrow> rs p = Some rq \<Longrightarrow> \<exists>rq'. rs' p = Some rq' \<and> keeps rq rq'"
  by (force simp: all_keep_def dom_def)

lemma all_keep_back: "all_keep rs rs' \<Longrightarrow> rs' p = Some rq' \<Longrightarrow> \<exists>rq. rs p = Some rq \<and> keeps rq rq'"
  by (force simp: all_keep_def dom_def)

lemma all_keep_trans:
  assumes "all_keep a b" "all_keep b c"
  shows "all_keep a c"
  unfolding all_keep_def
proof (intro conjI allI impI)
  show "dom c = dom a" using assms by (simp add: all_keep_def)
  fix p x z assume x: "a p = Some x" and z: "c p = Some z"
  obtain y where "b p = Some y" "keeps x y" using all_keepD [OF assms(1) x] by blast
  then have "keeps y z" using assms(2) z by (simp add: all_keep_def)
  with \<open>keeps x y\<close> show "keeps x z" by (rule keeps_trans)
qed

lemma all_keep_handle_of: "all_keep rs rs' \<Longrightarrow> p \<in> dom rs \<Longrightarrow> handle_of rs' p = handle_of rs p"
  using all_keepD [of rs rs' p] by (auto simp: handle_of_def keeps_def)

lemma requests_inv_keep:
  assumes "requests_inv i act ups rs" "all_keep rs rs'"
  shows "requests_inv i act ups rs'"
  unfolding requests_inv_def
proof (intro conjI allI impI)
  show "inj_on act (dom act)" "distinct ups" "ran act \<inter> set ups = {}" "ran act \<union> set ups = dom rs'"
    using assms by (auto simp: requests_inv_def all_keep_def)
  show "\<exists>rq. rs' p = Some rq \<and> cq_streamHandle rq = k" if k: "act k = Some p" for k p
  proof -
    obtain rq where "rs p = Some rq" "cq_streamHandle rq = k" using assms(1) k unfolding requests_inv_def by blast
    then show ?thesis using all_keepD [OF assms(2)] by (fastforce simp: keeps_def)
  qed
  fix p rq' assume "rs' p = Some rq'"
  then obtain rq where "rs p = Some rq" "keeps rq rq'" using all_keep_back [OF assms(2)] by blast
  then show "p \<noteq> 0" "cq_pCurlResponse rq' \<noteq> None" "cq_streamHandle rq' \<noteq> i"
    using assms(1) by (auto simp: requests_inv_def keeps_def)
qed

lemma requests_inv_live: "requests_inv i act ups rs \<Longrightarrow> set ups \<subseteq> dom rs"
  by (auto simp: requests_inv_def)

lemma uploads_inv_keep:
  assumes "uploads_inv n ups rs" "all_keep rs rs'" "set ups \<subseteq> dom rs"
  shows "uploads_inv n ups rs'"
proof -
  have "handle_of rs' p = handle_of rs p" if "p \<in> set ups" for p
    using all_keep_handle_of [OF assms(2)] assms(3) that by blast
  then show ?thesis using assms(1) by (simp add: uploads_inv_def cong: inj_on_cong)
qed

lemma threads_inv_keep: "threads_inv ups rs ths \<Longrightarrow> all_keep rs rs' \<Longrightarrow> threads_inv ups rs' ths"
  by (simp add: threads_inv_def all_keep_def)

lemma api_inv_keep:
  assumes "api_inv E lookup nodes s" "all_keep (ca_requests s) rs"
  shows "api_inv E lookup nodes (s\<lparr>ca_requests := rs, ca_world := w\<rparr>)"
proof -
  note inv = assms(1) [unfolded api_inv_def]
  have "set (uploads nodes s) \<subseteq> dom (ca_requests s)" using inv requests_inv_live by blast
  then show ?thesis
    using inv assms(2) requests_inv_keep [OF _ assms(2)] uploads_inv_keep [OF _ assms(2)] threads_inv_keep [OF _ assms(2)]
    by (simp add: api_inv_def)
qed

lemma api_inv_world [simp]: "api_inv E lookup nodes (s\<lparr>ca_world := w\<rparr>) = api_inv E lookup nodes s"
  by (simp add: api_inv_def)

lemma shared_locks_free_lock:
  "shared_locks_free [] " "shared_locks_free (l # ls) \<longleftrightarrow> (\<exists>p. l = StartLock p) \<and> shared_locks_free ls"
  by (auto simp: shared_locks_free_def split: curl_lock.splits)

lemma curl_unlock_lock [simp]: "unlock l (lock l s) = s"
  by (simp add: lock_def unlock_def)

subsection \<open>Adding and removing a request\<close>

lemma requests_inv_add_active:
  assumes "requests_inv i act ups rs" "act k = None" "rs p = None" "p \<noteq> 0" "cq_streamHandle rq = k" "k \<noteq> i" "cq_pCurlResponse rq \<noteq> None"
  shows "requests_inv i (act(k \<mapsto> p)) ups (rs(p \<mapsto> rq))"
proof -
  have new: "p \<notin> ran act" "p \<notin> set ups" using assms(1,3) by (auto simp: requests_inv_def)
  have "inj_on (act(k \<mapsto> p)) (dom (act(k \<mapsto> p)))"
    using assms(1) new(1) by (auto simp: requests_inv_def inj_on_def ran_def)
  moreover have "act j \<noteq> Some p" for j using new(1) by (auto simp: ran_def)
  ultimately show ?thesis using assms new by (auto simp: requests_inv_def ran_map_upd)
qed

lemma requests_inv_add_upload:
  assumes "requests_inv i act ups rs" "rs p = None" "p \<noteq> 0" "cq_streamHandle rq \<noteq> i" "cq_pCurlResponse rq \<noteq> None"
  shows "requests_inv i act (ups @ [p]) (rs(p \<mapsto> rq))"
proof -
  have new: "p \<notin> ran act" "p \<notin> set ups" using assms(1,2) by (auto simp: requests_inv_def)
  moreover have "act k \<noteq> Some p" for k using new(1) by (auto simp: ran_def)
  ultimately show ?thesis using assms by (auto simp: requests_inv_def)
qed

lemma requests_inv_remove_active:
  assumes "requests_inv i act ups rs" "act k = Some p"
  shows "requests_inv i (act(k := None)) ups (rs(p := None))"
proof -
  have ran: "ran (act(k := None)) = ran act - {p}" using assms by (intro ran_remove) (auto simp: requests_inv_def)
  have "p \<in> ran act" using assms(2) by (auto simp: ran_def)
  then have "p \<notin> set ups" using assms(1) by (auto simp: requests_inv_def)
  moreover have "act j \<noteq> Some p" if "j \<noteq> k" for j using assms that by (auto simp: requests_inv_def inj_on_def dom_def)
  ultimately show ?thesis using assms unfolding requests_inv_def ran by (auto simp: inj_on_def)
qed

lemma requests_inv_remove_upload:
  assumes "requests_inv i act (xs @ p # ys) rs"
  shows "requests_inv i act (xs @ ys) (rs(p := None))"
proof -
  have "p \<notin> ran act" using assms by (auto simp: requests_inv_def)
  then have "act j \<noteq> Some p" for j by (auto simp: ran_def)
  then show ?thesis using assms by (auto simp: requests_inv_def)
qed

lemma handle_of_other: "q \<noteq> p \<Longrightarrow> handle_of (rs(p := x)) q = handle_of rs q"
  by (simp add: handle_of_def)

lemma uploads_inv_other:
  assumes "uploads_inv n ups rs" "p \<notin> set ups"
  shows "uploads_inv n ups (rs(p := x))"
proof -
  have "handle_of (rs(p := x)) q = handle_of rs q" if "q \<in> set ups" for q using that assms(2) handle_of_other by metis
  then show ?thesis using assms(1) by (simp add: uploads_inv_def cong: inj_on_cong)
qed

lemma uploads_inv_add:
  assumes "uploads_inv n ups rs" "p \<notin> set ups" "cq_uploadHandle rq = n" "n \<noteq> - 1"
  shows "uploads_inv (n + 1) (ups @ [p]) (rs(p \<mapsto> rq))"
proof -
  have "1 + n \<noteq> 0" using assms(4) by (simp add: add_eq_0_iff)
  then have lt: "n < n + 1" using unatSuc [of n] by (simp add: word_less_nat_alt add.commute)
  have other: "handle_of (rs(p \<mapsto> rq)) q = handle_of rs q \<and> handle_of rs q < n" if "q \<in> set ups" for q
    using that assms(1,2) handle_of_other [of q p rs] by (auto simp: uploads_inv_def)
  have new: "handle_of (rs(p \<mapsto> rq)) p = n" by (simp add: handle_of_def assms(3))
  have "inj_on (handle_of (rs(p \<mapsto> rq))) (set ups)"
    using other assms(1) by (simp add: uploads_inv_def cong: inj_on_cong)
  moreover have "n \<notin> handle_of (rs(p \<mapsto> rq)) ` set ups" using other by auto
  moreover have "set ups - {p} = set ups" using assms(2) by simp
  ultimately have "inj_on (handle_of (rs(p \<mapsto> rq))) (set (ups @ [p]))" by (simp add: new)
  moreover have "handle_of (rs(p \<mapsto> rq)) q < n + 1" if "q \<in> set (ups @ [p])" for q
    using that other [of q] new lt by (auto intro: less_trans)
  ultimately show ?thesis by (simp only: uploads_inv_def) blast
qed

lemma uploads_inv_remove: "uploads_inv n (xs @ p # ys) rs \<Longrightarrow> distinct (xs @ p # ys) \<Longrightarrow> uploads_inv n (xs @ ys) (rs(p := None))"
  by (rule uploads_inv_other) (auto simp: uploads_inv_def inj_on_def)

lemma threads_inv_add:
  assumes "threads_inv ups rs ths" "rs p = None" "t \<notin> fst ` set ths"
    and "set ups' - {p} = set ups - {p}" "f = ''putStreamCurlHandler'' \<longleftrightarrow> p \<in> set ups'"
  shows "threads_inv ups' (rs(p \<mapsto> rq)) (ths @ [(t, f, p)])"
proof -
  have p: "q \<noteq> p" if "(t', g, q) \<in> set ths" for t' g q
    using assms(1,2) that by (force simp: threads_inv_def)
  have ups: "q \<in> set ups' \<longleftrightarrow> q \<in> set ups" if "q \<noteq> p" for q
    using assms(4) that by blast
  have "\<forall>(t', g, q)\<in>set ths. g = ''putStreamCurlHandler'' \<longleftrightarrow> q \<in> set ups'"
    using assms(1) p ups unfolding threads_inv_def by (simp add: split_beta) (metis prod.collapse)
  moreover have "p \<notin> set (map (snd \<circ> snd) ths)" using assms(1,2) by (auto simp: threads_inv_def)
  ultimately show ?thesis using assms(1,3,5) by (simp add: threads_inv_def)
qed

lemma threads_inv_remove:
  assumes "threads_inv ups rs ths" "(t, f, p) \<in> set ths" "set ups' = set ups - {p}"
  shows "threads_inv ups' (rs(p := None)) (filter (\<lambda>(t', _). t' \<noteq> t) ths)"
proof -
  have d: "distinct (map fst ths)" "distinct (map (snd \<circ> snd) ths)" using assms(1) by (auto simp: threads_inv_def)
  have same: "t' = t \<longleftrightarrow> q = p" if "(t', g, q) \<in> set ths" for t' g q
  proof
    assume "t' = t"
    then have "(g, q) = (f, p)" using eq_key_imp_eq_value [OF d(1)] assms(2) that by blast
    then show "q = p" by simp
  next
    assume "q = p"
    then show "t' = t" using d(2) assms(2) that by (force simp: distinct_map inj_on_def)
  qed
  have "set (map (snd \<circ> snd) (filter (\<lambda>(t', _). t' \<noteq> t) ths)) = set (map (snd \<circ> snd) ths) - {p}"
    using same by force
  moreover have "f' = ''putStreamCurlHandler'' \<longleftrightarrow> q \<in> set ups'" if "(t', f', q) \<in> set ths" "t' \<noteq> t" for t' f' q
    using assms(1,3) that same [OF that(1)] by (fastforce simp: threads_inv_def)
  ultimately show ?thesis using assms(1) d by (auto simp: threads_inv_def distinct_map_filter)
qed

end
