(* ===== verification/Curl_Invariant.thy ===== *)
theory Curl_Invariant
  imports Curl_Contract
begin

text \<open>
  The operations of the curl API callbacks and the invariant: what each of them changes, on every path
  that returns, and that it keeps the invariant.
\<close>

subsection \<open>Operations that only change requests\<close>

definition only_requests :: "('h, 'd, 'l, 'q, 'x) CurlApiCallbacks \<Rightarrow> ('h, 'd, 'l, 'q, 'x) CurlApiCallbacks \<Rightarrow> bool" where
  "only_requests s s' \<longleftrightarrow> (\<exists>rs w. s' = s\<lparr>ca_requests := rs, ca_world := w\<rparr> \<and> all_keep (ca_requests s) rs)"

lemma only_requests_refl [simp]: "only_requests s s"
  unfolding only_requests_def by (rule exI [of _ "ca_requests s"], rule exI [of _ "ca_world s"]) simp

lemma only_requests_trans:
  assumes "only_requests a b" "only_requests b c"
  shows "only_requests a c"
proof -
  obtain rs w where b: "b = a\<lparr>ca_requests := rs, ca_world := w\<rparr>" "all_keep (ca_requests a) rs"
    using assms(1) by (auto simp: only_requests_def)
  obtain rs' w' where c: "c = b\<lparr>ca_requests := rs', ca_world := w'\<rparr>" "all_keep (ca_requests b) rs'"
    using assms(2) by (auto simp: only_requests_def)
  have "c = a\<lparr>ca_requests := rs', ca_world := w'\<rparr>" using b(1) c(1) by simp
  moreover have "all_keep (ca_requests a) rs'" using b c(2) all_keep_trans [OF b(2)] by simp
  ultimately show ?thesis unfolding only_requests_def by blast
qed

lemma only_requests_world [intro]: "only_requests s (s\<lparr>ca_world := w\<rparr>)"
  unfolding only_requests_def by (rule exI [of _ "ca_requests s"], rule exI [of _ w]) simp

lemma only_requests_update:
  assumes "ca_requests s p = Some rq" "keeps rq rq'"
  shows "only_requests s (s\<lparr>ca_requests := (ca_requests s)(p \<mapsto> rq'), ca_world := w\<rparr>)"
    and "only_requests s (s\<lparr>ca_requests := (ca_requests s)(p \<mapsto> rq')\<rparr>)"
proof -
  show "only_requests s (s\<lparr>ca_requests := (ca_requests s)(p \<mapsto> rq'), ca_world := w\<rparr>)" for w
    using all_keep_update [of "ca_requests s", OF assms] unfolding only_requests_def by blast
  from this [of "ca_world s"] show "only_requests s (s\<lparr>ca_requests := (ca_requests s)(p \<mapsto> rq')\<rparr>)" by simp
qed

lemma only_requests_lock:
  assumes "only_requests (lock l s) s'"
  shows "only_requests s (unlock l s')"
proof -
  obtain rs w where "s' = (lock l s)\<lparr>ca_requests := rs, ca_world := w\<rparr>" "all_keep (ca_requests s) rs"
    using assms by (auto simp: only_requests_def lock_def)
  then have "unlock l s' = s\<lparr>ca_requests := rs, ca_world := w\<rparr>" by (simp add: lock_def unlock_def)
  then show ?thesis using \<open>all_keep (ca_requests s) rs\<close> unfolding only_requests_def by blast
qed

lemma only_requests_with_lock:
  assumes "with_lock l f s = Some (st, s')" "\<And>s1. f (lock l s) = Some (st, s1) \<Longrightarrow> only_requests (lock l s) s1"
  shows "only_requests s s'"
  using assms by (auto simp: with_lock_def intro: only_requests_lock)

lemma only_requests_inv: "only_requests s s' \<Longrightarrow> api_inv E lookup nodes s \<Longrightarrow> api_inv E lookup nodes s'"
  by (auto simp: only_requests_def intro: api_inv_keep)

lemma only_requests_frame:
  assumes "only_requests s s'"
  shows "ca_pActiveUploads s' = ca_pActiveUploads s" "ca_pActiveRequests s' = ca_pActiveRequests s" "ca_threads s' = ca_threads s"
    "ca_pCallbacksProvider s' = ca_pCallbacksProvider s" "ca_locks s' = ca_locks s" "ca_streamingRequestCount s' = ca_streamingRequestCount s"
    "ca_pStreamsShuttingDown s' = ca_pStreamsShuttingDown s" "ca_pCachedEndpoints s' = ca_pCachedEndpoints s" "ca_trackers s' = ca_trackers s"
    "all_keep (ca_requests s) (ca_requests s')"
  using assms by (auto simp: only_requests_def)

text \<open>Telling a request to end.\<close>

lemma stop_request_only:
  assumes "stop_request timeout fromCurlThread False p s = Some s'"
  shows "only_requests s s' \<and> (fromCurlThread \<longrightarrow> s' = s)"
proof -
  obtain rq where rq: "ca_requests s p = Some rq" using assms by (cases "ca_requests s p") (auto simp: stop_request_def)
  have k: "keeps rq ((set_terminating rq)\<lparr>cq_pCurlResponse := fst (terminateCurlSession (cq_pCurlResponse (set_terminating rq)) timeout w)\<rparr>)"
    "keeps rq (set_terminating rq)" for w :: "'e curl_world"
    by (auto simp: keeps_def set_terminating_def terminateCurlSession_def split: option.splits)
  show ?thesis
    using assms rq only_requests_update [OF rq k(2)] only_requests_update(1) [OF rq k(1)]
    by (auto simp: stop_request_def Let_def split_beta split: if_splits)
qed

lemma for_entries_only:
  assumes "for_entries f es s = Some (st, s')"
    and step: "\<And>e s st s'. f e s = Some (st, s') \<Longrightarrow> only_requests s s'"
  shows "only_requests s s'"
  using assms(1)
proof (induction es arbitrary: s)
  case (Cons e es)
  then show ?case by (auto simp: chk_Some dest: step intro: only_requests_trans step)
qed simp

lemma shutdownActiveRequests_only:
  assumes "shutdownActiveRequests E streamHandle timeout False False s = Some (st, s')"
  shows "only_requests s s'"
proof -
  have step: "only_requests s s'" if "stop_entry E streamHandle timeout False False e s = Some (st, s')" for e s st s'
    using that by (auto simp: stop_entry_def to_release_def bind_eq_Some_conv dest: stop_request_only)
  show ?thesis
    using assms unfolding shutdownActiveRequests_def
    by (rule only_requests_with_lock)
      (auto split: prod.splits if_splits intro: for_entries_only step)
qed

lemma stop_upload_only:
  assumes "stop_upload E streamHandle uploadHandle timeout False False node p s = Some (st, s')"
  shows "only_requests s s' \<and> st = STATUS_SUCCESS"
  using assms by (auto simp: stop_upload_def to_release_def bind_eq_Some_conv split: if_splits dest: stop_request_only)

lemma uploads_loop_only:
  assumes "uploads_loop E streamHandle uploadHandle timeout False False node s = Some (st, s')"
  shows "only_requests s s'"
proof -
  have "\<not> fromCurlThread \<longrightarrow> \<not> killThread \<longrightarrow> only_requests s (snd r)"
    if "uploads_loop E streamHandle uploadHandle timeout fromCurlThread killThread node s = Some r" for fromCurlThread killThread r
  proof (rule uploads_loop.raw_induct [OF _ that], goal_cases)
    case (1 loop E streamHandle uploadHandle timeout fromCurlThread killThread node s r)
    show ?case
    proof (intro impI)
      assume f: "\<not> fromCurlThread" "\<not> killThread"
      show "only_requests s (snd r)"
      proof (cases node)
        case None
        then show ?thesis using 1(2) by auto
      next
        case (Some n)
        obtain st nxt where nxt: "doubleListGetNextNode (ka_list E) (ca_pActiveUploads s) n = (st, nxt)" by fastforce
        show ?thesis
        proof (cases "st = STATUS_SUCCESS \<and> stop_upload E streamHandle uploadHandle timeout fromCurlThread killThread n
            (snd (doubleListGetNodeData (ka_list E) (ca_pActiveUploads s) n)) s \<noteq> None")
          case False
          then show ?thesis using 1(2) Some nxt by (auto split: if_splits option.splits)
        next
          case True
          then obtain st1 s1 where s1: "stop_upload E streamHandle uploadHandle timeout fromCurlThread killThread n
            (snd (doubleListGetNodeData (ka_list E) (ca_pActiveUploads s) n)) s = Some (st1, s1)" by auto
          then have o: "only_requests s s1" "st1 = STATUS_SUCCESS" using f by (auto dest: stop_upload_only)
          then have "loop E streamHandle uploadHandle timeout fromCurlThread killThread nxt s1 = Some r"
            using 1(2) Some nxt s1 True by simp
          from 1(1) [OF this] f have "only_requests s1 (snd r)" by simp
          with o(1) show ?thesis by (rule only_requests_trans)
        qed
      qed
    qed
  qed
  from this [OF assms] show ?thesis by simp
qed

lemma shutdownActiveUploads_only:
  assumes "shutdownActiveUploads E streamHandle uploadHandle timeout False False s = Some (st, s')"
  shows "only_requests s s'"
  using assms unfolding shutdownActiveUploads_def
  by (rule only_requests_with_lock) (auto split: prod.splits if_splits dest: uploads_loop_only)

lemma wake_upload_only:
  assumes "wake_upload E uploadHandle skip duration size' s = Some (st, s')"
  shows "only_requests s s'"
  using assms unfolding wake_upload_def
proof (rule only_requests_with_lock)
  let ?s = "lock ActiveUploadsLock s"
  fix s1
  assume a: "do {
     (st, p) \<leftarrow> findRequestWithUploadHandle E uploadHandle (Some ?s) True;
     if STATUS_FAILED st \<or> p = 0 then Some (st, ?s)
     else do {
       rq \<leftarrow> ca_requests ?s p;
       r \<leftarrow> cq_pCurlResponse rq;
       if cs_endOfStream r \<or> skip rq then Some (STATUS_SUCCESS, ?s)
       else (case notifyDataAvailable (Some r) duration size' (ca_world ?s) of (st1, r', w) \<Rightarrow>
         Some (st1, ?s\<lparr>ca_requests := (ca_requests ?s)(p \<mapsto> rq\<lparr>cq_pCurlResponse := r'\<rparr>), ca_world := w\<rparr>))
     }
   } = Some (st, s1)"
  then obtain st0 p where f: "findRequestWithUploadHandle E uploadHandle (Some ?s) True = Some (st0, p)"
    by (cases "findRequestWithUploadHandle E uploadHandle (Some ?s) True") auto
  show "only_requests ?s s1"
  proof (cases "st0 \<noteq> STATUS_SUCCESS \<or> p = 0")
    case True
    then show ?thesis using a f by auto
  next
    case False
    then obtain rq r where r: "ca_requests ?s p = Some rq" "cq_pCurlResponse rq = Some r"
      using a f by (cases "ca_requests ?s p"; cases "cq_pCurlResponse (the (ca_requests ?s p))") auto
    obtain st1 r' w where n: "notifyDataAvailable (Some r) duration size' (ca_world ?s) = (st1, r', w)" by (metis prod_cases3)
    have "r' \<noteq> None" using n by (auto simp: notifyDataAvailable_def split: if_splits)
    then have "keeps rq (rq\<lparr>cq_pCurlResponse := r'\<rparr>)" by (simp add: keeps_def)
    note only_requests_update(1) [of ?s, OF r(1) this, of w]
    then show ?thesis using a f False r n by (auto split: if_splits)
  qed
qed

text \<open>
  Signing and calling. Curl, the functions it calls back and the hook may change everything of a request
  but its stream and its handle, and keep its response.
\<close>

definition curl_keeps :: "('l, 'q, 'x) perform \<Rightarrow> ('l, 'q, 'x) perform_hook \<Rightarrow> bool" where
  "curl_keeps perform hook \<longleftrightarrow>
     (\<forall>opts rq w result httpStatus rq' w'. perform opts (rq, w) = Some (result, httpStatus, rq', w') \<longrightarrow> keeps rq rq') \<and>
     (\<forall>f rq w st rq' w'. hook = Some f \<longrightarrow> f (rq, w) = (st, rq', w') \<longrightarrow> keeps rq rq')"

lemma keeps_simps:
  "keeps rq (rq'\<lparr>cq_blockedInCurl := b\<rparr>) = keeps rq rq'" "keeps (rq\<lparr>cq_blockedInCurl := b\<rparr>) rq' = keeps rq rq'"
  "keeps rq (rq'\<lparr>cq_requestInfo := ri\<rparr>) = keeps rq rq'" "keeps (rq\<lparr>cq_requestInfo := ri\<rparr>) rq' = keeps rq rq'"
  "keeps rq rq' \<Longrightarrow> keeps rq (rq'\<lparr>cq_pCurlResponse := Some r\<rparr>)" "keeps rq (rq'\<lparr>cq_threadId := t\<rparr>) = keeps rq rq'"
  by (auto simp: keeps_def)

lemma curlCompleteSync_keeps:
  assumes "curlCompleteSync C perform hook rq w = Some (st, rq', w')" "curl_keeps perform hook"
  shows "keeps rq rq'"
proof (cases "cq_pCurlResponse rq")
  case None
  then show ?thesis using assms(1) by (simp add: curlCompleteSync_def)
next
  case (Some r0)
  show ?thesis
  proof (cases "cq_pCurlApiCallbacks rq = None \<or> \<not> cs_pCurlRequest r0")
    case True
    then show ?thesis using assms(1) Some by (auto simp: curlCompleteSync_def)
  next
    case False
    then obtain cb where guard: "cq_pCurlApiCallbacks rq = Some cb" "cs_pCurlRequest r0" by auto
    obtain st0 hs where h: "createCurlHeaderList C (Some (cq_requestInfo rq)) True (cw_headers w) = Some (st0, hs)"
      using assms(1) Some False by (cases "createCurlHeaderList C (Some (cq_requestInfo rq)) True (cw_headers w)") (auto simp: curlCompleteSync_def)
    show ?thesis
    proof (cases "st0 = STATUS_SUCCESS \<and> cs_pCurl r0 \<noteq> None")
      case False
      then show ?thesis using assms(1) Some h \<open>\<not> (cq_pCurlApiCallbacks rq = None \<or> \<not> cs_pCurlRequest r0)\<close>
        by (auto simp: curlCompleteSync_def split: if_splits)
    next
      case True
      then obtain opts0 where opts0: "cs_pCurl r0 = Some opts0" and st0: "st0 = STATUS_SUCCESS" by auto
      define opts where "opts = opts0 @ [CURLOPT_HTTPHEADER (slist_items hs)]"
      define rq1 where "rq1 = rq\<lparr>cq_pCurlResponse := Some (r0\<lparr>cs_pRequestHeaders := hs, cs_pCurl := Some opts\<rparr>)\<rparr>"
      obtain st1 rq2 w1 where hk: "(case hook of None \<Rightarrow> (STATUS_SUCCESS, rq1, w) | Some f \<Rightarrow> f (rq1, w)) = (st1, rq2, w1)"
        by (metis prod_cases3)
      have k1: "keeps rq rq1" unfolding rq1_def by (rule keeps_simps(5)) simp
      have "keeps rq1 rq2"
      proof (cases hook)
        case None
        then show ?thesis using hk by simp
      next
        case (Some f)
        then show ?thesis using hk assms(2) unfolding curl_keeps_def by simp blast
      qed
      with k1 have k2: "keeps rq rq2" by (rule keeps_trans)
      have perf: "keeps rq rq3" if "perform opts (rq2\<lparr>cq_blockedInCurl := True\<rparr>, w1) = Some (a, b, rq3, w2)" for a b rq3 w2
      proof -
        have "keeps (rq2\<lparr>cq_blockedInCurl := True\<rparr>) rq3" using that assms(2) unfolding curl_keeps_def by blast
        then show ?thesis using keeps_trans [OF k2] by (simp add: keeps_simps)
      qed
      have e: "curlCompleteSync C perform hook rq w =
        (if STATUS_FAILED st1 then Some (st1, rq2, w1)
             else if ri_terminating (cq_requestInfo rq2) then Some (STATUS_SUCCESS, rq2, w1)
             else do {
               (result, httpStatus, rq3, w2) \<leftarrow> perform opts (rq2\<lparr>cq_blockedInCurl := True\<rparr>, w1);
               let rq4 = rq3\<lparr>cq_blockedInCurl := False\<rparr>;
               if ri_terminating (cq_requestInfo rq4) then Some (STATUS_SUCCESS, rq4, w2)
               else do {
                 r \<leftarrow> cq_pCurlResponse rq4;
                 let r1 = finish_call (ku_consts C) result httpStatus r;
                 let finished = (STATUS_SUCCESS, rq4\<lparr>cq_pCurlResponse := Some r1\<rparr>, w2);
                 if ci_httpStatus (cs_callInfo r1) \<noteq> HTTP_STATUS_CODE_OK
                 then map_option (\<lambda>_. finished) (log_headers (slist_items (cs_pRequestHeaders r1)))
                 else Some finished
               }
             })"
        using Some guard h st0 opts0 hk unfolding opts_def rq1_def by (simp add: curlCompleteSync_def)
      show ?thesis
      proof (cases "st1 \<noteq> STATUS_SUCCESS \<or> ri_terminating (cq_requestInfo rq2)")
        case True
        then show ?thesis using assms(1) k2 unfolding e by (auto split: if_splits)
      next
        case False
        then obtain a b rq3 w2 where p: "perform opts (rq2\<lparr>cq_blockedInCurl := True\<rparr>, w1) = Some (a, b, rq3, w2)"
          using assms(1) unfolding e by (cases "perform opts (rq2\<lparr>cq_blockedInCurl := True\<rparr>, w1)") auto
        show ?thesis using assms(1) False p perf [OF p] unfolding e
          by (cases "cq_pCurlResponse rq3") (auto simp: Let_def keeps_simps split: if_splits)
      qed
    qed
  qed
qed

lemma call_service_only:
  assumes "call_service E perform hook p s = Some (st, s')" "curl_keeps perform hook"
  shows "only_requests s s'"
proof -
  obtain rq where rq: "ca_requests s p = Some rq" using assms(1) by (cases "ca_requests s p") (auto simp: call_service_def)
  obtain st0 ri hh where sg: "signAwsRequestInfo (ka_signer E) (ca_credentials s) (Some (cq_requestInfo rq)) (cw_headers (ca_world s)) = Some (st0, ri, hh)"
    using assms(1) rq by (auto simp: call_service_def bind_eq_Some_conv split: if_splits)
  obtain ri1 where ri: "ri = Some ri1" using assms(1) rq sg by (cases ri) (auto simp: call_service_def split: if_splits)
  define rq1 s1 where "rq1 = rq\<lparr>cq_requestInfo := ri1\<rparr>"
    and "s1 = s\<lparr>ca_requests := (ca_requests s)(p \<mapsto> rq1), ca_world := (ca_world s)\<lparr>cw_headers := hh\<rparr>\<rparr>"
  define s2 where "s2 = (if ri_currentTime ri1 < ri_callAfter ri1 then sleep (ri_callAfter ri1 - ri_currentTime ri1) s1 else s1)"
  have o1: "only_requests s s1" unfolding s1_def by (rule only_requests_update [OF rq]) (simp add: rq1_def keeps_simps)
  have o2: "only_requests s s2" unfolding s2_def sleep_def by (auto intro: o1 only_requests_trans [OF o1])
  have rq1: "ca_requests s2 p = Some rq1" by (simp add: s2_def s1_def sleep_def)
  have e: "call_service E perform hook p s =
    (if STATUS_FAILED st0 then Some (st0, s1) else do {
         (st1, rq2, w) \<leftarrow> curlCallApi (ka_curl E) perform hook (Some rq1) (ca_world s2);
         rq3 \<leftarrow> rq2;
         Some (st1, s2\<lparr>ca_requests := (ca_requests s2)(p \<mapsto> rq3), ca_world := w\<rparr>)})"
    using assms(1) rq sg ri by (auto simp: call_service_def s2_def s1_def rq1_def Let_def split: if_splits)
  show ?thesis
  proof (cases "st0 = STATUS_SUCCESS")
    case False
    then show ?thesis using assms(1) o1 unfolding e by simp
  next
    case True
    then obtain st1 rq3 w where c: "curlCallApi (ka_curl E) perform hook (Some rq1) (ca_world s2) = Some (st1, Some rq3, w)"
      and s': "s' = s2\<lparr>ca_requests := (ca_requests s2)(p \<mapsto> rq3), ca_world := w\<rparr>"
      using assms(1) unfolding e by (auto simp: bind_eq_Some_conv)
    have "keeps rq1 rq3"
      using c curlCompleteSync_keeps [OF _ assms(2)] by (auto simp: curlCallApi_def split: if_splits)
    then have "only_requests s2 s'" unfolding s' by (rule only_requests_update(1) [OF rq1])
    with o2 show ?thesis by (rule only_requests_trans)
  qed
qed

end
