(* ===== verification/Curl_Ends.thy ===== *)
theory Curl_Ends
  imports Curl_Invariant
begin

text \<open>
  The ends of the handler threads: each takes exactly its own request out of the table or the list and
  releases it.
\<close>

lemma with_lock_Some: "with_lock l f s = Some (st, s') \<longleftrightarrow> (\<exists>s1. f (lock l s) = Some (st, s1) \<and> s' = unlock l s1)"
  by (auto simp: with_lock_def)

lemma freeCurlRequest_Some:
  assumes "freeCurlRequest E (Some p) s = Some (st, s')" "p \<noteq> 0"
  shows "st = STATUS_SUCCESS \<and> (\<exists>w. s' = s\<lparr>ca_requests := (ca_requests s)(p := None), ca_world := w\<rparr>)"
  using assms by (auto simp: freeCurlRequest_def bind_eq_Some_conv Let_def)

text \<open>The thread of a handler that has returned.\<close>

definition exit_thread :: "nat \<Rightarrow> ('h, 'd, 'l, 'q, 'x) CurlApiCallbacks \<Rightarrow> ('h, 'd, 'l, 'q, 'x) CurlApiCallbacks" where
  "exit_thread tid s = s\<lparr>ca_threads := filter (\<lambda>(t, _). t \<noteq> tid) (ca_threads s)\<rparr>"

lemma stop_request_own: "ca_requests s p = Some rq \<Longrightarrow> stop_request timeout True False p s = Some s"
  by (simp add: stop_request_def)

lemma to_release_own: "ca_requests s p = Some rq \<Longrightarrow> to_release True killThread p s = Some True"
  by (simp add: to_release_def)

context api_tables
begin

lemma shutdownActiveRequests_own:
  assumes act: "active lookup s k = Some p" and rq: "ca_requests s p = Some rq" and "p \<noteq> 0" "k \<noteq> ku_INVALID_STREAM (ka_curl E)"
    and run: "shutdownActiveRequests E k timeout True False s = Some (st, s')"
  shows "st = STATUS_SUCCESS \<and> (\<exists>t w. lookup t = (active lookup s)(k := None) \<and>
    s' = s\<lparr>ca_pActiveRequests := t, ca_requests := (ca_requests s)(p := None), ca_world := w\<rparr>)"
proof -
  let ?s = "lock ActiveRequestsLock s"
  obtain t where t: "hashTableRemove (ka_table E) (ca_pActiveRequests s) k = (STATUS_SUCCESS, t)" "lookup t = (active lookup s)(k := None)"
    using tb.remove_present [OF act] by blast
  have "lookup (ca_pActiveRequests s) \<noteq> Map.empty" using act by auto
  then obtain s1 where s1: "stop_entry E k timeout True False (k, p) ?s = Some (st, s1)" and s': "s' = unlock ActiveRequestsLock s1"
    using run tb.is_empty [of "ca_pActiveRequests s"] tb.get_present [OF act] assms(4)
    by (auto simp: shutdownActiveRequests_def with_lock_Some active_entries_def IS_VALID_STREAM_HANDLE_def lock_def chk_Some)
  let ?s2 = "?s\<lparr>ca_pActiveRequests := t\<rparr>"
  have "freeCurlRequest E (Some p) ?s2 = Some (st, s1)"
    using s1 stop_request_own [of ?s p rq] to_release_own [of ?s p rq] rq t(1) by (simp add: stop_entry_def lock_def)
  from freeCurlRequest_Some [OF this assms(3)] obtain w
    where "st = STATUS_SUCCESS" "s1 = ?s2\<lparr>ca_requests := (ca_requests s)(p := None), ca_world := w\<rparr>" by (auto simp: lock_def)
  then show ?thesis using t(2) s' by (auto simp: lock_def unlock_def)
qed

lemma end_request_spec:
  assumes run: "end_request E p s = Some (callResult, streamHandle, requestTerminating, s')"
    and inv: "api_inv E lookup nodes s" and act: "active lookup s k = Some p"
  shows "\<exists>rq t w. ca_requests s p = Some rq \<and> streamHandle = k \<and> requestTerminating = cq_terminating rq \<and>
    lookup t = (active lookup s)(k := None) \<and>
    s' = s\<lparr>ca_pActiveRequests := t, ca_requests := (ca_requests s)(p := None), ca_world := w\<rparr>"
proof -
  have r: "requests_inv (ku_INVALID_STREAM (ka_curl E)) (active lookup s) (uploads nodes s) (ca_requests s)"
    using inv by (simp add: api_inv_def)
  obtain rq where rq: "ca_requests s p = Some rq" "cq_streamHandle rq = k" using r act unfolding requests_inv_def by blast
  have valid: "p \<noteq> 0" "k \<noteq> ku_INVALID_STREAM (ka_curl E)" using r rq unfolding requests_inv_def by blast+
  let ?s1 = "s\<lparr>ca_requests := (ca_requests s)(p \<mapsto> rq\<lparr>cq_threadId := None\<rparr>)\<rparr>"
  obtain st where st: "shutdownActiveRequests E k CURL_API_CALLBACKS_SHUTDOWN_TIMEOUT True False ?s1 = Some (st, s')"
    and eqs: "streamHandle = k" "requestTerminating = cq_terminating rq"
    using run rq by (cases "shutdownActiveRequests E k CURL_API_CALLBACKS_SHUTDOWN_TIMEOUT True False ?s1") (auto simp: end_request_def)
  have "active lookup ?s1 k = Some p" "ca_requests ?s1 p = Some (rq\<lparr>cq_threadId := None\<rparr>)" using act by simp_all
  from shutdownActiveRequests_own [OF this valid st] obtain t w where t: "lookup t = (active lookup ?s1)(k := None)"
    and s': "s' = ?s1\<lparr>ca_pActiveRequests := t, ca_requests := (ca_requests ?s1)(p := None), ca_world := w\<rparr>"
    by blast
  have t': "lookup t = (active lookup s)(k := None)" using t by simp
  have s'': "s' = s\<lparr>ca_pActiveRequests := t, ca_requests := (ca_requests s)(p := None), ca_world := w\<rparr>" unfolding s' by simp
  show ?thesis by (intro exI conjI) (fact rq(1), fact eqs(1), fact eqs(2), fact t', fact s'')
qed

lemma release_active_inv:
  assumes inv: "api_inv E lookup nodes s" and th: "(tid, f, p) \<in> set (ca_threads s)" and act: "active lookup s k = Some p"
    and t: "lookup t = (active lookup s)(k := None)"
  shows "api_inv E lookup nodes (exit_thread tid (s\<lparr>ca_pActiveRequests := t, ca_requests := (ca_requests s)(p := None), ca_world := w\<rparr>))"
proof -
  note i = inv [unfolded api_inv_def]
  have r: "requests_inv (ku_INVALID_STREAM (ka_curl E)) (active lookup s) (uploads nodes s) (ca_requests s)" using i by blast
  have p: "p \<notin> set (uploads nodes s)" using r act by (auto simp: requests_inv_def ran_def)
  have "set (uploads nodes s) = set (uploads nodes s) - {p}" using p by blast
  then have "threads_inv (uploads nodes s) ((ca_requests s)(p := None)) (filter (\<lambda>(t, _). t \<noteq> tid) (ca_threads s))"
    using threads_inv_remove [of "uploads nodes s" "ca_requests s", OF _ th] i by blast
  moreover have "uploads_inv (ca_streamingRequestCount s) (uploads nodes s) ((ca_requests s)(p := None))"
    by (rule uploads_inv_other [OF _ p]) (use i in blast)
  ultimately show ?thesis
    using i requests_inv_remove_active [OF r act] t by (simp add: api_inv_def exit_thread_def cancelled_inv_filter)
qed

text \<open>The loop over the uploads, from a node on.\<close>

lemma uploads_loop_node:
  assumes "nodes (ca_pActiveUploads s) = xs @ (e, p) # ys"
  shows "uploads_loop E streamHandle uploadHandle timeout fromCurlThread killThread (Some e) s =
    chk (stop_upload E streamHandle uploadHandle timeout fromCurlThread killThread e p s)
      (uploads_loop E streamHandle uploadHandle timeout fromCurlThread killThread (first_node ys))"
  using dl.next_node [OF assms] dl.node_data [OF assms]
  by (subst uploads_loop.simps) (auto simp: chk_def split: option.splits)

lemma uploads_loop_skip:
  assumes "nodes (ca_pActiveUploads s) = xs @ ys"
    and "\<And>e p. (e, p) \<in> set ys \<Longrightarrow> \<exists>rq. ca_requests s p = Some rq \<and> \<not> upload_matches E streamHandle uploadHandle rq"
  shows "uploads_loop E streamHandle uploadHandle timeout fromCurlThread killThread (first_node ys) s = Some (STATUS_SUCCESS, s)"
  using assms
proof (induction ys arbitrary: xs)
  case Nil
  then show ?case by (simp add: uploads_loop.simps)
next
  case (Cons y ys)
  obtain e p where y: "y = (e, p)" by fastforce
  then obtain rq where "ca_requests s p = Some rq" "\<not> upload_matches E streamHandle uploadHandle rq" using Cons.prems(2) by force
  then have "stop_upload E streamHandle uploadHandle timeout fromCurlThread killThread e p s = Some (STATUS_SUCCESS, s)"
    by (simp add: stop_upload_def)
  moreover have "nodes (ca_pActiveUploads s) = xs @ (e, p) # ys" "nodes (ca_pActiveUploads s) = (xs @ [y]) @ ys"
    using Cons.prems(1) y by simp_all
  moreover have "uploads_loop E streamHandle uploadHandle timeout fromCurlThread killThread (first_node ys) s = Some (STATUS_SUCCESS, s)"
    by (rule Cons.IH [of "xs @ [y]"]) (use Cons.prems in auto)
  ultimately show ?case using y by (simp add: uploads_loop_node)
qed

lemma uploads_loop_own:
  assumes "nodes (ca_pActiveUploads s) = xs @ zs @ (e, p) # us"
    and skip: "\<And>q. q \<in> snd ` set (zs @ us) \<Longrightarrow> q \<noteq> p \<and> (\<exists>rq. ca_requests s q = Some rq \<and> \<not> upload_matches E streamHandle uploadHandle rq)"
    and rq: "ca_requests s p = Some rq" "upload_matches E streamHandle uploadHandle rq" "p \<noteq> 0"
    and run: "uploads_loop E streamHandle uploadHandle timeout True False (first_node (zs @ (e, p) # us)) s = Some (st, s')"
  shows "st = STATUS_SUCCESS \<and> (\<exists>d w. nodes d = xs @ zs @ us \<and>
    s' = s\<lparr>ca_pActiveUploads := d, ca_requests := (ca_requests s)(p := None), ca_world := w\<rparr>)"
  using assms(1,2,6)
proof (induction zs arbitrary: xs)
  case Nil
  then have n: "nodes (ca_pActiveUploads s) = xs @ (e, p) # us" by simp
  obtain d where d: "doubleListDeleteNode (ka_list E) (ca_pActiveUploads s) e = (STATUS_SUCCESS, d)" "nodes d = xs @ us"
    using dl.delete_node [OF n] by blast
  let ?s2 = "s\<lparr>ca_pActiveUploads := d\<rparr>"
  have stop: "stop_upload E streamHandle uploadHandle timeout True False e p s = freeCurlRequest E (Some p) ?s2"
    using rq d(1) by (simp add: stop_upload_def stop_request_own to_release_own)
  obtain st1 s3 where f: "freeCurlRequest E (Some p) ?s2 = Some (st1, s3)"
    using Nil.prems(3) uploads_loop_node [OF n] stop by (cases "freeCurlRequest E (Some p) ?s2") auto
  then obtain w where s3: "st1 = STATUS_SUCCESS" "s3 = ?s2\<lparr>ca_requests := (ca_requests s)(p := None), ca_world := w\<rparr>"
    using freeCurlRequest_Some [OF _ rq(3)] by fastforce
  have n3: "nodes (ca_pActiveUploads s3) = xs @ us" using s3(2) d(2) by simp
  have "uploads_loop E streamHandle uploadHandle timeout True False (first_node us) s3 = Some (STATUS_SUCCESS, s3)"
  proof (rule uploads_loop_skip [OF n3])
    fix e' q assume "(e', q) \<in> set us"
    then have "q \<in> snd ` set ([] @ us)" by force
    from Nil.prems(2) [OF this] show "\<exists>rq. ca_requests s3 q = Some rq \<and> \<not> upload_matches E streamHandle uploadHandle rq" using s3(2) by simp
  qed
  then have "uploads_loop E streamHandle uploadHandle timeout True False (Some e) s = Some (STATUS_SUCCESS, s3)"
    using uploads_loop_node [OF n, of streamHandle uploadHandle timeout True False] stop f s3(1) by simp
  then have st: "st = STATUS_SUCCESS" "s' = s3" using Nil.prems(3) by simp_all
  have n: "nodes d = xs @ [] @ us" using d(2) by simp
  have s': "s' = s\<lparr>ca_pActiveUploads := d, ca_requests := (ca_requests s)(p := None), ca_world := w\<rparr>"
    unfolding st(2) by (fact s3(2))
  show ?case by (intro conjI exI) (fact st(1), fact n, fact s')
next
  case (Cons z zs)
  obtain f q where z: "z = (f, q)" by fastforce
  then obtain rz where "ca_requests s q = Some rz" "\<not> upload_matches E streamHandle uploadHandle rz" using Cons.prems(2) by force
  then have "stop_upload E streamHandle uploadHandle timeout True False f q s = Some (STATUS_SUCCESS, s)"
    by (simp add: stop_upload_def)
  moreover have "nodes (ca_pActiveUploads s) = xs @ (f, q) # (zs @ (e, p) # us)" "nodes (ca_pActiveUploads s) = (xs @ [z]) @ zs @ (e, p) # us"
    using Cons.prems(1) z by simp_all
  ultimately have "uploads_loop E streamHandle uploadHandle timeout True False (first_node (zs @ (e, p) # us)) s = Some (st, s')"
    using Cons.prems(3) z by (simp add: uploads_loop_node)
  note loop = this
  have n: "nodes (ca_pActiveUploads s) = (xs @ [z]) @ zs @ (e, p) # us" using Cons.prems(1) by simp
  have skip: "q \<noteq> p \<and> (\<exists>rq. ca_requests s q = Some rq \<and> \<not> upload_matches E streamHandle uploadHandle rq)"
    if "q \<in> snd ` set (zs @ us)" for q
    by (rule Cons.prems(2)) (use that in auto)
  have "xs @ (z # zs) @ us = (xs @ [z]) @ zs @ us" by simp
  then show ?case using Cons.IH [OF n skip loop] by (simp only:)
qed

lemma shutdownActiveUploads_own:
  assumes inv: "api_inv E lookup nodes s" and p: "p \<in> set (uploads nodes s)" and rq: "ca_requests s p = Some rq"
    and run: "shutdownActiveUploads E (cq_streamHandle rq) (cq_uploadHandle rq) timeout True False s = Some (st, s')"
  shows "\<exists>xs e ys d w. nodes (ca_pActiveUploads s) = xs @ (e, p) # ys \<and> nodes d = xs @ ys \<and>
    s' = s\<lparr>ca_pActiveUploads := d, ca_requests := (ca_requests s)(p := None), ca_world := w\<rparr>"
proof -
  note i = inv [unfolded api_inv_def]
  have r: "requests_inv (ku_INVALID_STREAM (ka_curl E)) (active lookup s) (uploads nodes s) (ca_requests s)" using i by blast
  have u: "uploads_inv (ca_streamingRequestCount s) (uploads nodes s) (ca_requests s)" using i by blast
  obtain xs e ys where n: "nodes (ca_pActiveUploads s) = xs @ (e, p) # ys" using p by (auto dest: split_list)
  let ?s = "lock ActiveUploadsLock s"
  have live: "p \<noteq> 0" "cq_streamHandle rq \<noteq> ku_INVALID_STREAM (ka_curl E)" using r rq by (auto simp: requests_inv_def)
  have "cq_uploadHandle rq < ca_streamingRequestCount s" using u p rq by (auto simp: uploads_inv_def handle_of_def)
  then have "cq_uploadHandle rq \<noteq> - 1" by (metis word_n1_ge not_le)
  then have valid: "IS_VALID_UPLOAD_HANDLE E (cq_uploadHandle rq)" by (simp add: IS_VALID_UPLOAD_HANDLE_def invalid_upload)
  have skip: "q \<noteq> p \<and> (\<exists>rq'. ca_requests ?s q = Some rq' \<and> \<not> upload_matches E (cq_streamHandle rq) (cq_uploadHandle rq) rq')"
    if q: "q \<in> snd ` set (xs @ ys)" for q
  proof -
    obtain f where that: "(f, q) \<in> set (xs @ ys)" using q by force
    have "distinct (uploads nodes s)" using r by (auto simp: requests_inv_def)
    then have ne: "q \<noteq> p" using n that by force
    have q: "q \<in> set (uploads nodes s)" using n that by force
    then obtain rq' where rq': "ca_requests s q = Some rq'" using requests_inv_live [OF r] by auto
    have "handle_of (ca_requests s) q \<noteq> handle_of (ca_requests s) p" using u ne p q by (auto simp: uploads_inv_def inj_on_def)
    then show ?thesis using ne rq' rq valid by (simp add: handle_of_def upload_matches_def lock_def)
  qed
  obtain s1 where s1: "uploads_loop E (cq_streamHandle rq) (cq_uploadHandle rq) timeout True False (first_node (xs @ (e, p) # ys)) ?s = Some (st, s1)"
    and s': "s' = unlock ActiveUploadsLock s1"
    using run dl.head_node [of "ca_pActiveUploads s"] n by (auto simp: shutdownActiveUploads_def with_lock_Some lock_def)
  obtain d w where "nodes d = xs @ ys" "s1 = ?s\<lparr>ca_pActiveUploads := d, ca_requests := (ca_requests s)(p := None), ca_world := w\<rparr>"
  proof -
    have "nodes (ca_pActiveUploads ?s) = [] @ xs @ (e, p) # ys" "ca_requests ?s p = Some rq"
      "upload_matches E (cq_streamHandle rq) (cq_uploadHandle rq) rq"
      using n rq by (simp_all add: lock_def upload_matches_def)
    from uploads_loop_own [OF this(1) skip this(2,3) live(1) s1] that show thesis by (auto simp: lock_def)
  qed
  moreover from this have "s' = s\<lparr>ca_pActiveUploads := d, ca_requests := (ca_requests s)(p := None), ca_world := w\<rparr>"
    using s' by (simp add: lock_def unlock_def)
  ultimately show ?thesis using n by blast
qed

lemma release_upload_inv:
  assumes inv: "api_inv E lookup nodes s" and th: "(tid, f, p) \<in> set (ca_threads s)"
    and n: "nodes (ca_pActiveUploads s) = xs @ (e, p) # ys" "nodes d = xs @ ys"
  shows "api_inv E lookup nodes (exit_thread tid (s\<lparr>ca_pActiveUploads := d, ca_requests := (ca_requests s)(p := None), ca_world := w\<rparr>))"
proof -
  note i = inv [unfolded api_inv_def]
  have ups: "uploads nodes s = map snd xs @ p # map snd ys" "map snd (nodes d) = map snd xs @ map snd ys" using n by simp_all
  have r: "requests_inv (ku_INVALID_STREAM (ka_curl E)) (active lookup s) (map snd xs @ p # map snd ys) (ca_requests s)" using i ups by simp
  have dist: "distinct (map snd xs @ p # map snd ys)" using r by (simp only: requests_inv_def)
  then have "set (map snd (nodes d)) = set (uploads nodes s) - {p}" using ups by auto
  then have "threads_inv (map snd (nodes d)) ((ca_requests s)(p := None)) (filter (\<lambda>(t, _). t \<noteq> tid) (ca_threads s))"
    using threads_inv_remove [of "uploads nodes s" "ca_requests s", OF _ th] i by blast
  moreover have "uploads_inv (ca_streamingRequestCount s) (map snd xs @ map snd ys) ((ca_requests s)(p := None))"
    by (rule uploads_inv_remove [OF _ dist]) (use i ups in simp)
  ultimately show ?thesis
    using i requests_inv_remove_upload [OF r] ups by (simp add: api_inv_def exit_thread_def cancelled_inv_filter)
qed

end

end
