(* ===== verification/Curl_Starts.thy ===== *)
theory Curl_Starts
  imports Curl_Ends
begin

text \<open>
  The starts of the calls: each either registers one new request with its thread, or fails and leaves
  requests, tables and running threads as they were. A start that fails behind the creation of its
  thread leaves a cancelled thread that waits for the lock of a request that was released.
\<close>

text \<open>The ids that the system gives to new threads are not those of the threads that have not ended yet.\<close>

definition thread_ids_fresh :: "('h, 'd, 'e, 'l, 'n, 'q, 'x) api_env \<Rightarrow> ('h, 'd, 'l, 'q, 'x) CurlApiCallbacks \<Rightarrow> bool" where
  "thread_ids_fresh E s \<longleftrightarrow> (\<forall>handler p x tid. ca_requests s p = None \<longrightarrow> ka_threadCreate E handler p x = (STATUS_SUCCESS, tid) \<longrightarrow>
     tid \<notin> fst ` set (ca_threads s) \<union> fst ` set (ca_cancelled s))"

text \<open>
  The thread of a start that failed with \<open>st\<close>: there is none when it could not be created, and it is
  cancelled when it could not be detached or its request could not be registered (\<open>refused\<close>).
\<close>

definition failed_thread ::
    "('h, 'd, 'e, 'l, 'n, 'q, 'x) api_env \<Rightarrow> string \<Rightarrow> bool \<Rightarrow> UINT64 \<Rightarrow> STATUS \<Rightarrow> (nat \<times> string \<times> UINT64) list \<Rightarrow> bool" where
  "failed_thread E handler refused p st cs \<longleftrightarrow>
     cs = [] \<and> (\<exists>x tid. ka_threadCreate E handler p x = (st, tid)) \<or>
     (\<exists>x tid. cs = [(tid, handler, p)] \<and> ka_threadCreate E handler p x = (STATUS_SUCCESS, tid) \<and> (ka_threadDetach E tid x = st \<or> refused))"

text \<open>
  What a start that failed leaves: nothing, or the lock of the request, which is held although the
  request was released, and the cancelled thread.
\<close>

definition left_behind ::
    "('h, 'd, 'e, 'l, 'n, 'q, 'x) api_env \<Rightarrow> string \<Rightarrow> bool \<Rightarrow> (UINT64 \<Rightarrow> bool) \<Rightarrow> ('h, 'd, 'l, 'q, 'x) CurlApiCallbacks \<Rightarrow> STATUS
      \<Rightarrow> curl_lock list \<Rightarrow> (nat \<times> string \<times> UINT64) list \<Rightarrow> bool" where
  "left_behind E handler stopped refused s st ls cs \<longleftrightarrow>
     ls = ca_locks s \<and> cs = [] \<or>
     (\<exists>p. p \<noteq> 0 \<and> ca_requests s p = None \<and> ls = StartLock p # ca_locks s \<and> (cs = [] \<and> stopped \<or> failed_thread E handler (refused p) p st cs))"

lemma left_behind_cancelled:
  assumes "left_behind E handler stopped refused s st ls cs" "thread_ids_fresh E s" "cancelled_inv (ca_locks s) (ca_threads s) (ca_cancelled s)"
  shows "cancelled_inv ls (ca_threads s) (ca_cancelled s @ cs)"
proof -
  have ids: "tid \<notin> fst ` set (ca_threads s) \<union> fst ` set (ca_cancelled s)"
    if "ca_requests s p = None" "ka_threadCreate E handler p x = (STATUS_SUCCESS, tid)" for p x tid
    using assms(2) that unfolding thread_ids_fresh_def by blast
  consider "ls = ca_locks s" "cs = []" | p where "ls = StartLock p # ca_locks s" "cs = []"
    | p tid where "ls = StartLock p # ca_locks s" "cs = [(tid, handler, p)]" "tid \<notin> fst ` set (ca_threads s) \<union> fst ` set (ca_cancelled s)"
    using assms(1) ids unfolding left_behind_def failed_thread_def by blast
  then show ?thesis by cases (use assms(3) in \<open>auto intro: cancelled_inv_lock cancelled_inv_add(2)\<close>)
qed

lemma left_behind_locks: "left_behind E handler stopped refused s st ls cs \<Longrightarrow> shared_locks_free (ca_locks s) \<Longrightarrow> shared_locks_free ls"
  by (auto simp: left_behind_def shared_locks_free_lock)

lemma validate_credentials_Some:
  assumes "validate_credentials ctx s = Some (st, s')"
  shows "\<exists>ch. s' = s\<lparr>ca_credentials := ch\<rparr>"
proof (cases "sc_authData ctx = 0")
  case True
  then have "s' = s\<lparr>ca_credentials := ca_credentials s\<rparr>" using assms by (simp add: validate_credentials_def)
  then show ?thesis by blast
next
  case False
  then obtain c where c: "get_credentials (ca_credentials s) (sc_authData ctx) = Some c"
    using assms by (cases "get_credentials (ca_credentials s) (sc_authData ctx)") (auto simp: validate_credentials_def)
  obtain st1 c1 where d: "deserializeAwsCredentials (Some c) = (st1, c1)" by fastforce
  have "s' = s\<lparr>ca_credentials := ca_credentials s\<rparr> \<or> s' = s\<lparr>ca_credentials := (ca_credentials s)(sc_authData ctx \<mapsto> OCredentials (the c1))\<rparr>"
    using assms False c d by (simp add: validate_credentials_def Let_def split: if_splits)
  then show ?thesis by blast
qed

definition request_ok :: "STREAM_HANDLE \<Rightarrow> STREAM_HANDLE \<Rightarrow> UPLOAD_HANDLE \<Rightarrow> ('l, 'q) CurlRequest \<Rightarrow> bool" where
  "request_ok invalid k u rq \<longleftrightarrow> cq_streamHandle rq = k \<and> k \<noteq> invalid \<and> cq_uploadHandle rq = u \<and> cq_pCurlResponse rq \<noteq> None"

lemma createCurlResponse_ok:
  assumes "createCurlResponse C (Some rq) True w = Some (STATUS_SUCCESS, r, w')"
  shows "r \<noteq> None \<and> cq_streamHandle rq \<noteq> ku_INVALID_STREAM C"
  using assms by (auto simp: createCurlResponse_def split: if_splits prod.splits)

lemma create_request_parts_ok:
  assumes "create_request_parts E rq w = Some (STATUS_SUCCESS, rq', w')"
  shows "request_ok (ku_INVALID_STREAM (ka_curl E)) (cq_streamHandle rq) (cq_uploadHandle rq) rq'"
proof -
  obtain st l where l: "re_listCreate (ku_request (ka_curl E)) = (st, l)" by fastforce
  obtain st2 info where i: "ka_streamInfo E (cq_streamHandle rq) = (st2, info)" by fastforce
  define rq2 where "rq2 = rq\<lparr>cq_requestInfo := (cq_requestInfo rq)\<lparr>ri_pRequestHeaders := l\<rparr>, cq_startLock := ku_createMutex (ka_curl E)\<rparr>"
  define rq3 where "rq3 = rq2\<lparr>cq_streamName := STRNCPY (ks_name info) (kc_MAX_STREAM_NAME_LEN (ka_consts E))\<rparr>"
  have "st = STATUS_SUCCESS" "ku_createMutex (ka_curl E) \<noteq> None" "st2 = STATUS_SUCCESS"
    using assms l i by (auto simp: create_request_parts_def Let_def split: if_splits)
  then obtain r where "createCurlResponse (ka_curl E) (Some rq3) True w = Some (STATUS_SUCCESS, r, w')" "rq' = rq3\<lparr>cq_pCurlResponse := r\<rparr>"
    using assms l i by (auto simp: create_request_parts_def Let_def rq3_def rq2_def)
  then show ?thesis using createCurlResponse_ok [of "ka_curl E" rq3 w r w'] by (simp add: request_ok_def rq3_def rq2_def)
qed

lemma new_CurlRequest_frame:
  "cq_streamHandle (new_CurlRequest R verb url body k region t a b c cert cred u) = k"
  "cq_uploadHandle (new_CurlRequest R verb url body k region t a b c cert cred u) = (if body = None then u else 0)"
  by (simp_all add: new_CurlRequest_def)

definition next_count :: "PCHAR \<Rightarrow> UINT64 \<Rightarrow> UINT64" where
  "next_count body n = (if body = None then n + 1 else n)"

context api_tables
begin

lemma createCurlRequest_spec:
  assumes run: "createCurlRequest E verb (Some url) body k region t a b c cert cred True s = Some (st, p, s')"
  obtains (failed) n w where "p = 0" "st \<noteq> STATUS_SUCCESS" "n = ca_streamingRequestCount s \<or> n = next_count body (ca_streamingRequestCount s)"
      "s' = s\<lparr>ca_streamingRequestCount := n, ca_world := w\<rparr>"
  | (created) rq w where "p \<noteq> 0" "st = STATUS_SUCCESS" "ca_requests s p = None"
      "request_ok (ku_INVALID_STREAM (ka_curl E)) k (if body = None then ca_streamingRequestCount s else 0) rq"
      "s' = s\<lparr>ca_streamingRequestCount := next_count body (ca_streamingRequestCount s), ca_requests := (ca_requests s)(p \<mapsto> rq), ca_world := w\<rparr>"
proof (cases "ca_pCallbacksProvider s = None \<or> ka_calloc E (ca_requests s) = None")
  case True
  then have "p = 0" "st \<noteq> STATUS_SUCCESS" "s' = s" using run by (auto simp: createCurlRequest_def split: if_splits)
  moreover have "s = s\<lparr>ca_streamingRequestCount := ca_streamingRequestCount s, ca_world := ca_world s\<rparr>" by simp
  ultimately show ?thesis using failed [of "ca_streamingRequestCount s" "ca_world s"] by simp
next
  case False
  then obtain q pr where q: "ka_calloc E (ca_requests s) = Some q" and pr: "ca_pCallbacksProvider s = Some pr" by auto
  note fresh = calloc_fresh [OF q]
  define rq :: "('l, 'q) CurlRequest" where "rq = new_CurlRequest (ku_request (ka_curl E)) verb url body k region t a b c cert cred (ca_streamingRequestCount s)"
  define s1 where "s1 = (if body = None then s\<lparr>ca_streamingRequestCount := ca_streamingRequestCount s + 1\<rparr> else s)"
  have s1: "s1 = s\<lparr>ca_streamingRequestCount := next_count body (ca_streamingRequestCount s)\<rparr>" by (simp add: s1_def next_count_def)
  obtain st1 rq1 w where parts: "create_request_parts E rq (ca_world s) = Some (st1, rq1, w)"
    using run False q by (cases "create_request_parts E rq (ca_world s)") (auto simp: createCurlRequest_def rq_def)
  define s2 where "s2 = s1\<lparr>ca_requests := (ca_requests s)(q \<mapsto> rq1), ca_world := w\<rparr>"
  have e: "(if STATUS_FAILED st1 then map_option (\<lambda>(_, s3). (st1, 0, s3)) (freeCurlRequest E (Some q) s2) else Some (STATUS_SUCCESS, q, s2)) =
      Some (st, p, s')"
    using run pr q parts unfolding s2_def by (simp add: createCurlRequest_def rq_def [symmetric] s1_def [symmetric] Let_def)
  show ?thesis
  proof (cases "st1 = STATUS_SUCCESS")
    case True
    have "request_ok (ku_INVALID_STREAM (ka_curl E)) k (if body = None then ca_streamingRequestCount s else 0) rq1"
      using create_request_parts_ok [of E rq] parts True by (simp add: rq_def new_CurlRequest_frame)
    then show ?thesis using e True fresh created [of rq1 w] by (auto simp: s2_def s1)
  next
    case False
    then obtain st4 where "freeCurlRequest E (Some q) s2 = Some (st4, s')" "st = st1" "p = 0" using e by auto
    moreover from freeCurlRequest_Some [OF this(1)] fresh obtain w' where w': "s' = s2\<lparr>ca_requests := (ca_requests s2)(q := None), ca_world := w'\<rparr>" by blast
    moreover have "(ca_requests s2)(q := None) = ca_requests s" using fresh by (auto simp: s2_def)
    ultimately have "s' = s\<lparr>ca_streamingRequestCount := next_count body (ca_streamingRequestCount s), ca_world := w'\<rparr>"
      by (simp add: s2_def s1)
    then show ?thesis using failed [of "next_count body (ca_streamingRequestCount s)" w'] False \<open>st = st1\<close> \<open>p = 0\<close> by blast
  qed
qed

lemma prepare_request_spec:
  assumes run: "prepare_request E ctx url body headers s = Some (st, p, s')"
  obtains (failed) n w where "p = 0" "st \<noteq> STATUS_SUCCESS" "n = ca_streamingRequestCount s \<or> n = next_count body (ca_streamingRequestCount s)"
      "s' = s\<lparr>ca_streamingRequestCount := n, ca_world := w\<rparr>"
  | (created) rq w where "p \<noteq> 0" "ca_requests s p = None"
      "request_ok (ku_INVALID_STREAM (ka_curl E)) (sc_customData ctx) (if body = None then ca_streamingRequestCount s else 0) rq"
      "s' = s\<lparr>ca_streamingRequestCount := next_count body (ca_streamingRequestCount s), ca_requests := (ca_requests s)(p \<mapsto> rq), ca_world := w\<rparr>"
proof -
  obtain st1 q s1 where c: "createCurlRequest E HTTP_REQUEST_VERB_POST (Some url) body (sc_customData ctx) (ca_region s)
        (ka_getCurrentTime E (cw_ext (ca_world s))) (sc_connectionTimeout ctx) (sc_timeout ctx) (sc_callAfter ctx) (Some (ca_certPath s))
        (sc_authData ctx) True s = Some (st1, q, s1)"
    using run by (auto simp: prepare_request_def bind_eq_Some_conv)
  from c show ?thesis
  proof (cases rule: createCurlRequest_spec)
    case (failed n w)
    then show ?thesis using run c that(1) [of n w] by (simp add: prepare_request_def)
  next
    case (created rq w)
    then obtain hh ri where h: "p = q" "s' = s1\<lparr>ca_requests := (ca_requests s1)(q \<mapsto> rq\<lparr>cq_requestInfo := ri\<rparr>), ca_world := (ca_world s1)\<lparr>cw_headers := hh\<rparr>\<rparr>"
      using run c by (auto simp: prepare_request_def bind_eq_Some_conv)
    have "request_ok (ku_INVALID_STREAM (ka_curl E)) (sc_customData ctx) (if body = None then ca_streamingRequestCount s else 0) (rq\<lparr>cq_requestInfo := ri\<rparr>)"
      using created(4) by (simp add: request_ok_def)
    then show ?thesis
      using that(2) [of "rq\<lparr>cq_requestInfo := ri\<rparr>" "(ca_world s1)\<lparr>cw_headers := hh\<rparr>"] created h by simp
  qed
qed

lemma fail_start_Some:
  assumes "fail_start E tid p st s = Some (st', s')" "p \<noteq> 0"
  shows "st' = st \<and> (\<exists>w. s' = s\<lparr>ca_threads := (case tid of None \<Rightarrow> ca_threads s | Some t \<Rightarrow> filter (\<lambda>(t', _). t' \<noteq> t) (ca_threads s)),
    ca_cancelled := (case tid of None \<Rightarrow> ca_cancelled s | Some t \<Rightarrow> ca_cancelled s @ filter (\<lambda>(t', _). t' = t) (ca_threads s)),
    ca_requests := (ca_requests s)(p := None), ca_world := w\<rparr>)"
proof -
  let ?s = "case tid of None \<Rightarrow> s | Some _ \<Rightarrow> cancel_thread tid s"
  obtain st0 where "freeCurlRequest E (Some p) ?s = Some (st0, s')" "st' = st" using assms(1) by (auto simp: fail_start_def)
  with freeCurlRequest_Some [OF this(1) assms(2)] obtain w
    where "st' = st" "s' = ?s\<lparr>ca_requests := (ca_requests ?s)(p := None), ca_world := w\<rparr>" by blast
  then show ?thesis by (cases tid) (auto simp: cancel_thread_def)
qed

lemma fail_start_null: "fail_start E None 0 st s = Some (st, s)"
  by (simp add: fail_start_def freeCurlRequest_def)

lemma start_thread_spec:
  assumes run: "start_thread E handler p register s = Some (st, s')"
    and p: "p \<noteq> 0" "ca_requests s p = Some rq" "\<forall>tid x. ka_threadCreate E handler p x = (STATUS_SUCCESS, tid) \<longrightarrow>
      tid \<notin> fst ` set (ca_threads s) \<union> fst ` set (ca_cancelled s)"
    and reg: "\<And>ths rs st s'. register (s\<lparr>ca_threads := ths, ca_requests := rs\<rparr>) = (st, s') \<Longrightarrow> st \<noteq> STATUS_SUCCESS \<Longrightarrow>
      s' = s\<lparr>ca_threads := ths, ca_requests := rs\<rparr> \<and> refused st"
  obtains (failed) cs w where "st \<noteq> STATUS_SUCCESS" "failed_thread E handler (refused st) p st cs"
      "s' = s\<lparr>ca_cancelled := ca_cancelled s @ cs, ca_requests := (ca_requests s)(p := None), ca_world := w\<rparr>"
  | (started) tid where "st = STATUS_SUCCESS" "tid \<notin> fst ` set (ca_threads s) \<union> fst ` set (ca_cancelled s)"
      "register (s\<lparr>ca_threads := ca_threads s @ [(tid, handler, p)], ca_requests := (ca_requests s)(p \<mapsto> rq\<lparr>cq_threadId := Some tid\<rparr>)\<rparr>) =
        (STATUS_SUCCESS, s')"
proof -
  obtain st0 tid where t: "ka_threadCreate E handler p (cw_ext (ca_world s)) = (st0, tid)" by fastforce
  show ?thesis
  proof (cases "st0 = STATUS_SUCCESS")
    case False
    then have f: "fail_start E None p st0 s = Some (st, s')" using run t by (simp add: start_thread_def)
    have "failed_thread E handler (refused st0) p st0 []" using t unfolding failed_thread_def by blast
    then show ?thesis using fail_start_Some [OF f p(1)] False failed [of "[]"] by auto
  next
    case True
    have new: "tid \<notin> fst ` set (ca_threads s)" "tid \<notin> fst ` set (ca_cancelled s)" using p(3) t True by blast+
    have same: "filter (\<lambda>(t', _). t' \<noteq> tid) (ca_threads s @ [(tid, handler, p)]) = ca_threads s"
      using new(1) by (auto simp: filter_id_conv) (metis fst_conv imageI)
    have own: "filter (\<lambda>(t', _). t' = tid) (ca_threads s @ [(tid, handler, p)]) = [(tid, handler, p)]"
      using new(1) by (auto simp: filter_empty_conv) (metis fst_conv imageI)
    let ?s1 = "s\<lparr>ca_threads := ca_threads s @ [(tid, handler, p)]\<rparr>"
    define st1 where "st1 = ka_threadDetach E tid (cw_ext (ca_world s))"
    show ?thesis
    proof (cases "st1 = STATUS_SUCCESS")
      case False
      then have f: "fail_start E (Some tid) p st1 ?s1 = Some (st, s')" using run t True by (simp add: start_thread_def st1_def)
      have "failed_thread E handler (refused st1) p st1 [(tid, handler, p)]" using t \<open>st0 = STATUS_SUCCESS\<close> by (auto simp: failed_thread_def st1_def)
      then show ?thesis using fail_start_Some [OF f p(1)] False failed [of "[(tid, handler, p)]"] same own by auto
    next
      case True
      let ?s2 = "?s1\<lparr>ca_requests := (ca_requests s)(p \<mapsto> rq\<lparr>cq_threadId := Some tid\<rparr>)\<rparr>"
      obtain st2 s2 where r: "register ?s2 = (st2, s2)" by fastforce
      have e: "(if STATUS_FAILED st2 then fail_start E (Some tid) p st2 s2 else Some (STATUS_SUCCESS, s2)) = Some (st, s')"
        using run t \<open>st0 = STATUS_SUCCESS\<close> True p(2) r by (simp add: start_thread_def st1_def Let_def)
      show ?thesis
      proof (cases "st2 = STATUS_SUCCESS")
        case True
        then show ?thesis using e r started new by simp
      next
        case False
        then have s2: "s2 = ?s2" "refused st2" using reg [OF r] by simp_all
        have f: "fail_start E (Some tid) p st2 ?s2 = Some (st, s')" using e False s2 by simp
        have "(ca_requests ?s2)(p := None) = (ca_requests s)(p := None)" by auto
        moreover have "failed_thread E handler (refused st2) p st2 [(tid, handler, p)]"
          using t \<open>st0 = STATUS_SUCCESS\<close> s2(2) by (auto simp: failed_thread_def)
        ultimately show ?thesis using fail_start_Some [OF f p(1)] False failed [of "[(tid, handler, p)]"] same own by auto
      qed
    qed
  qed
qed

lemma check_not_shutting_down_iff:
  "check_not_shutting_down E k s = (if lookup (ca_pStreamsShuttingDown s) k = None then STATUS_SUCCESS else STATUS_STREAM_BEING_SHUTDOWN)"
  by (simp add: check_not_shutting_down_def tb.contains)

lemma put_active_request_cases:
  assumes "put_active_request E k p s = (st, s')"
  obtains (put) t where "st = STATUS_SUCCESS" "active lookup s k = None" "lookup t = (active lookup s)(k \<mapsto> p)" "s' = s\<lparr>ca_pActiveRequests := t\<rparr>"
  | (refused) "st \<noteq> STATUS_SUCCESS" "s' = s" "fst (hashTablePut (ka_table E) (ca_pActiveRequests s) k p) = st"
proof -
  obtain t where t: "hashTablePut (ka_table E) (ca_pActiveRequests s) k p = (st, t)" "s' = s\<lparr>ca_pActiveRequests := t\<rparr>"
    using assms by (auto simp: put_active_request_def split: prod.splits)
  from tb.put_Some [OF t(1)] show ?thesis
  proof
    assume "st \<noteq> STATUS_SUCCESS \<and> t = ca_pActiveRequests s"
    then show ?thesis by (intro refused) (use t in simp_all)
  qed (use t(2) put in auto)
qed

lemma start_call_spec:
  assumes run: "start_call E handler postfix body lockFirst ctx s = Some (st, s')"
    and ids: "thread_ids_fresh E s"
  obtains (failed) ch ls cs w where "st \<noteq> STATUS_SUCCESS"
      "left_behind E handler (lockFirst \<and> lookup (ca_pStreamsShuttingDown s) (sc_customData ctx) \<noteq> None)
         (\<lambda>p. fst (hashTablePut (ka_table E) (ca_pActiveRequests s) (sc_customData ctx) p) = st) s st ls cs"
      "s' = s\<lparr>ca_credentials := ch, ca_locks := ls, ca_cancelled := ca_cancelled s @ cs, ca_world := w\<rparr>"
  | (started) p rq tid t ch w where "st = STATUS_SUCCESS" "p \<noteq> 0" "ca_requests s p = None"
      "request_ok (ku_INVALID_STREAM (ka_curl E)) (sc_customData ctx) 0 rq" "cq_threadId rq = Some tid"
      "active lookup s (sc_customData ctx) = None" "lookup t = (active lookup s)(sc_customData ctx \<mapsto> p)"
      "lookup (ca_pStreamsShuttingDown s) (sc_customData ctx) = None" "tid \<notin> fst ` set (ca_threads s) \<union> fst ` set (ca_cancelled s)"
      "s' = s\<lparr>ca_credentials := ch, ca_pActiveRequests := t, ca_requests := (ca_requests s)(p \<mapsto> rq),
         ca_threads := ca_threads s @ [(tid, handler, p)], ca_world := w\<rparr>"
proof -
  let ?left = "left_behind E handler (lockFirst \<and> lookup (ca_pStreamsShuttingDown s) (sc_customData ctx) \<noteq> None)
     (\<lambda>p. fst (hashTablePut (ka_table E) (ca_pActiveRequests s) (sc_customData ctx) p) = st) s st"
  have unstarted: thesis if "st \<noteq> STATUS_SUCCESS" "s' = s\<lparr>ca_credentials := ch, ca_locks := ca_locks s, ca_world := w\<rparr>" for ch w
  proof (rule failed [OF that(1)])
    show "s' = s\<lparr>ca_credentials := ch, ca_locks := ca_locks s, ca_cancelled := ca_cancelled s @ [], ca_world := w\<rparr>" using that(2) by simp
  qed (simp add: left_behind_def)
  obtain st0 s0 where v: "validate_credentials ctx s = Some (st0, s0)"
    using run by (cases "validate_credentials ctx s") (auto simp: start_call_def)
  then obtain ch where s0: "s0 = s\<lparr>ca_credentials := ch\<rparr>" using validate_credentials_Some by blast
  show ?thesis
  proof (cases "st0 = STATUS_SUCCESS")
    case False
    have "s0 = s\<lparr>ca_credentials := ch, ca_locks := ca_locks s, ca_world := ca_world s\<rparr>" using s0 by simp
    moreover have "st = st0" "s' = s0" using False run v by (simp_all add: start_call_def)
    ultimately have st: "st = st0" and s': "s' = s\<lparr>ca_credentials := ch, ca_locks := ca_locks s, ca_world := ca_world s\<rparr>" by (simp_all only:)
    show ?thesis by (rule unstarted [OF _ s']) (simp add: st False)
  next
    case True
    obtain url st1 p s2 where pr: "prepare_request E ctx url (Some body) [(''user-agent'', Some (ca_userAgent s0), 0)] s0 = Some (st1, p, s2)"
      and e: "(if STATUS_FAILED st1 then fail_start E None p st1 s2
        else with_lock ActiveRequestsLock (\<lambda>s3.
       let st1 = check_not_shutting_down E (sc_customData ctx) s3 in
       if STATUS_FAILED st1 then fail_start E None p st1 (if lockFirst then lock (StartLock p) s3 else s3)
       else chk (start_thread E handler p (put_active_request E (sc_customData ctx) p) (lock (StartLock p) s3))
              (\<lambda>s4. Some (STATUS_SUCCESS, unlock (StartLock p) s4))) s2) = Some (st, s')"
      using run v True by (auto simp: start_call_def bind_eq_Some_conv)
    from pr show ?thesis
    proof (cases rule: prepare_request_spec)
      case (failed n w)
      then have st: "st = st1" "s' = s2" using e by (simp_all add: fail_start_null)
      have "n = ca_streamingRequestCount s" using failed(3) s0 by (auto simp: next_count_def)
      then have s': "s' = s\<lparr>ca_credentials := ch, ca_locks := ca_locks s, ca_world := w\<rparr>" using failed(4) st(2) s0 by simp
      show ?thesis by (rule unstarted [OF _ s']) (simp add: failed(2) st(1))
    next
      case (created rq w)
      have n: "next_count (Some body) (ca_streamingRequestCount s0) = ca_streamingRequestCount s" by (simp add: next_count_def s0)
      have s2: "s2 = s\<lparr>ca_credentials := ch, ca_requests := (ca_requests s)(p \<mapsto> rq), ca_world := w\<rparr>"
        using created(4) n by (simp add: s0)
      have new: "ca_requests s p = None" using created(2) s0 by simp
      have drop: "((ca_requests s)(p \<mapsto> x))(p := None) = ca_requests s" for x using new by auto
      show ?thesis
      proof (cases "st1 = STATUS_SUCCESS")
        case False
        then have f: "fail_start E None p st1 s2 = Some (st, s')" using e by simp
        from fail_start_Some [OF f created(1)] obtain w' where "st = st1" "s' = s2\<lparr>ca_requests := (ca_requests s2)(p := None), ca_world := w'\<rparr>"
          by auto
        then have "s' = s\<lparr>ca_credentials := ch, ca_locks := ca_locks s, ca_world := w'\<rparr>" using s2 drop by simp
        then show ?thesis using unstarted False \<open>st = st1\<close> by blast
      next
        case True
        let ?k = "sc_customData ctx"
        let ?s3 = "lock ActiveRequestsLock s2"
        show ?thesis
        proof (cases "lookup (ca_pStreamsShuttingDown s) ?k = None")
          case False
          then have "check_not_shutting_down E ?k ?s3 = STATUS_STREAM_BEING_SHUTDOWN" by (simp add: check_not_shutting_down_iff lock_def s2)
          then obtain s5 where f: "fail_start E None p STATUS_STREAM_BEING_SHUTDOWN (if lockFirst then lock (StartLock p) ?s3 else ?s3) = Some (st, s5)"
            and s': "s' = unlock ActiveRequestsLock s5" using e True by (auto simp: with_lock_Some)
          let ?s4 = "if lockFirst then lock (StartLock p) ?s3 else ?s3"
          from fail_start_Some [OF f created(1)] obtain w' where s5: "s5 = ?s4\<lparr>ca_requests := (ca_requests ?s4)(p := None), ca_world := w'\<rparr>"
            and st: "st = STATUS_STREAM_BEING_SHUTDOWN" by auto
          have "s' = s\<lparr>ca_credentials := ch, ca_locks := if lockFirst then StartLock p # ca_locks s else ca_locks s,
              ca_cancelled := ca_cancelled s @ [], ca_world := w'\<rparr>"
            using drop by (cases lockFirst) (simp_all add: s' s5 s2 lock_def unlock_def)
          note s'' = this
          have "?left (if lockFirst then StartLock p # ca_locks s else ca_locks s) []"
            using False new created(1) by (simp add: left_behind_def)
          then show ?thesis by (rule that(1) [OF _ _ s'', rotated]) (simp add: st)
        next
          case False: True
          let ?s4 = "lock (StartLock p) ?s3"
          obtain st2 s5 where th: "start_thread E handler p (put_active_request E ?k p) ?s4 = Some (st2, s5)"
            and e2: "(if st2 = STATUS_SUCCESS then st = STATUS_SUCCESS \<and> s' = unlock ActiveRequestsLock (unlock (StartLock p) s5)
               else st = st2 \<and> s' = unlock ActiveRequestsLock s5)"
            using e True False by (auto simp: with_lock_Some check_not_shutting_down_iff lock_def s2 chk_Some Let_def)
          have p4: "ca_requests ?s4 p = Some rq" "ca_threads ?s4 = ca_threads s" "ca_cancelled ?s4 = ca_cancelled s" by (simp_all add: lock_def s2)
          have fresh: "\<forall>tid x. ka_threadCreate E handler p x = (STATUS_SUCCESS, tid) \<longrightarrow>
              tid \<notin> fst ` set (ca_threads ?s4) \<union> fst ` set (ca_cancelled ?s4)"
            using ids new by (auto simp: thread_ids_fresh_def p4(2,3))
          have tab: "ca_pActiveRequests ?s4 = ca_pActiveRequests s" by (simp add: lock_def s2)
          have reg: "x' = ?s4\<lparr>ca_threads := ths, ca_requests := rs\<rparr> \<and> fst (hashTablePut (ka_table E) (ca_pActiveRequests s) ?k p) = stx"
            if "put_active_request E ?k p (?s4\<lparr>ca_threads := ths, ca_requests := rs\<rparr>) = (stx, x')" "stx \<noteq> STATUS_SUCCESS" for ths rs stx x'
            using that by (auto simp: tab elim: put_active_request_cases)
          show ?thesis
          proof (cases rule: start_thread_spec [OF th created(1) p4(1) fresh, where refused = "\<lambda>st. fst (hashTablePut (ka_table E) (ca_pActiveRequests s) ?k p) = st", OF reg])
            case t1: (3 cs w')
            have st: "s' = unlock ActiveRequestsLock s5" "st = st2" using e2 t1(1) by simp_all
            then have "s' = s\<lparr>ca_credentials := ch, ca_locks := StartLock p # ca_locks s, ca_cancelled := ca_cancelled s @ cs, ca_world := w'\<rparr>"
              unfolding t1(3) using drop by (simp add: s2 lock_def unlock_def)
            moreover have "?left (StartLock p # ca_locks s) cs" using t1(2) new created(1) st(2) by (auto simp: left_behind_def)
            ultimately show ?thesis using that(1) st(2) t1(1) by blast
          next
            case t2: (4 tid)
            note put = t2(3)
            show ?thesis
            proof (cases rule: put_active_request_cases [OF put])
              case (1 t)
              let ?rq = "rq\<lparr>cq_threadId := Some tid\<rparr>"
              have st: "st = STATUS_SUCCESS" "s' = unlock ActiveRequestsLock (unlock (StartLock p) s5)" using e2 t2(1) by simp_all
              have s': "s' = s\<lparr>ca_credentials := ch, ca_pActiveRequests := t, ca_requests := (ca_requests s)(p \<mapsto> ?rq),
                 ca_threads := ca_threads s @ [(tid, handler, p)], ca_world := w\<rparr>"
                unfolding st(2) 1(4) by (simp add: s2 lock_def unlock_def)
              have ok: "request_ok (ku_INVALID_STREAM (ka_curl E)) ?k 0 ?rq" using created(3) by (simp add: request_ok_def)
              have t: "active lookup s ?k = None" "lookup t = (active lookup s)(?k \<mapsto> p)" using 1(2,3) by (simp_all add: s2 lock_def)
              have tid: "tid \<notin> fst ` set (ca_threads s) \<union> fst ` set (ca_cancelled s)" using t2(2) by (simp add: p4)
              show ?thesis by (rule that(2) [OF st(1) created(1) new ok _ t False tid s']) simp
            next
              case 2
              then show ?thesis by simp
            qed
          qed
        qed
      qed
    qed
  qed
qed

lemma started_active_inv:
  assumes inv: "api_inv E lookup nodes s" and new: "p \<noteq> 0" "ca_requests s p = None" and ok: "request_ok (ku_INVALID_STREAM (ka_curl E)) k u rq"
    and act: "active lookup s k = None" "lookup t = (active lookup s)(k \<mapsto> p)" and tid: "tid \<notin> fst ` set (ca_threads s) \<union> fst ` set (ca_cancelled s)"
    and handler: "handler \<noteq> ''putStreamCurlHandler''"
  shows "api_inv E lookup nodes (s\<lparr>ca_credentials := ch, ca_pActiveRequests := t, ca_requests := (ca_requests s)(p \<mapsto> rq),
         ca_threads := ca_threads s @ [(tid, handler, p)], ca_world := w\<rparr>)"
proof -
  note i = inv [unfolded api_inv_def]
  have r: "requests_inv (ku_INVALID_STREAM (ka_curl E)) (active lookup s) (uploads nodes s) (ca_requests s)" using i by blast
  have p: "p \<notin> set (uploads nodes s)" using requests_inv_live [OF r] new(2) by auto
  have "requests_inv (ku_INVALID_STREAM (ka_curl E)) ((active lookup s)(k \<mapsto> p)) (uploads nodes s) ((ca_requests s)(p \<mapsto> rq))"
    using requests_inv_add_active [OF r act(1) new(2,1)] ok by (simp add: request_ok_def)
  moreover have "uploads_inv (ca_streamingRequestCount s) (uploads nodes s) ((ca_requests s)(p \<mapsto> rq))"
    by (rule uploads_inv_other [OF _ p]) (use i in blast)
  moreover have "threads_inv (uploads nodes s) ((ca_requests s)(p \<mapsto> rq)) (ca_threads s @ [(tid, handler, p)])"
    by (rule threads_inv_add [of "uploads nodes s" "ca_requests s" "ca_threads s" p tid "uploads nodes s" handler rq, OF _ new(2)]) (use i p handler tid in auto)
  ultimately show ?thesis using i act(2) cancelled_inv_add(1) [OF _ tid] by (simp add: api_inv_def)
qed

lemma put_active_upload_cases:
  assumes "put_active_upload E p s = (st, s')"
  obtains (put) d e where "st = STATUS_SUCCESS" "nodes d = nodes (ca_pActiveUploads s) @ [(e, p)]" "s' = s\<lparr>ca_pActiveUploads := d\<rparr>"
  | (refused) "st \<noteq> STATUS_SUCCESS" "s' = s"
proof -
  obtain d where d: "doubleListInsertItemTail (ka_list E) (ca_pActiveUploads s) p = (st, d)" "s' = s\<lparr>ca_pActiveUploads := d\<rparr>"
    using assms by (auto simp: put_active_upload_def split: prod.splits)
  show ?thesis
  proof (cases "st = STATUS_SUCCESS")
    case True
    then obtain e where "nodes d = nodes (ca_pActiveUploads s) @ [(e, p)]" using dl.insert_tail d(1) by blast
    then show ?thesis using put True d(2) by blast
  next
    case False
    then have "d = ca_pActiveUploads s" using dl.insert_failed [OF d(1)] by simp
    then show ?thesis using refused False d(2) by simp
  qed
qed

lemma putStreamCurl_spec:
  assumes run: "putStreamCurl E (Some s) streamName containerType start absolute acks endpoint (Some ctx) = Some (st, r)"
    and ids: "thread_ids_fresh E s"
  obtains (failed) ch ls cs n w where "st \<noteq> STATUS_SUCCESS" "left_behind E ''putStreamCurlHandler'' False (\<lambda>_. True) s st ls cs"
      "n = ca_streamingRequestCount s \<or> n = ca_streamingRequestCount s + 1"
      "r = Some (s\<lparr>ca_credentials := ch, ca_locks := ls, ca_cancelled := ca_cancelled s @ cs, ca_streamingRequestCount := n, ca_world := w\<rparr>)"
  | (started) p rq tid d e ch w where "st = STATUS_SUCCESS" "p \<noteq> 0" "ca_requests s p = None"
      "request_ok (ku_INVALID_STREAM (ka_curl E)) (sc_customData ctx) (ca_streamingRequestCount s) rq" "cq_threadId rq = Some tid"
      "nodes d = nodes (ca_pActiveUploads s) @ [(e, p)]"
      "lookup (ca_pStreamsShuttingDown s) (sc_customData ctx) = None" "tid \<notin> fst ` set (ca_threads s) \<union> fst ` set (ca_cancelled s)"
      "r = Some (s\<lparr>ca_credentials := ch, ca_pActiveUploads := d, ca_streamingRequestCount := ca_streamingRequestCount s + 1,
         ca_requests := (ca_requests s)(p \<mapsto> rq), ca_threads := ca_threads s @ [(tid, ''putStreamCurlHandler'', p)], ca_world := w\<rparr>)"
proof -
  have unstarted: thesis
    if "st \<noteq> STATUS_SUCCESS" "n = ca_streamingRequestCount s \<or> n = ca_streamingRequestCount s + 1"
      "r = Some (s\<lparr>ca_credentials := ch, ca_locks := ca_locks s, ca_streamingRequestCount := n, ca_world := w\<rparr>)" for ch n w
  proof (rule failed [OF that(1) _ that(2)])
    show "r = Some (s\<lparr>ca_credentials := ch, ca_locks := ca_locks s, ca_cancelled := ca_cancelled s @ [], ca_streamingRequestCount := n, ca_world := w\<rparr>)"
      using that(3) by simp
  qed (simp add: left_behind_def)
  obtain ep where ep: "endpoint = Some ep" using run by (cases endpoint) (auto simp: putStreamCurl_def)
  obtain s' where r: "r = Some s'" and run': "chk (validate_credentials ctx s) (\<lambda>s1. do {
       url \<leftarrow> api_url E ep PUT_MEDIA_API_POSTFIX;
       with_lock ActiveUploadsLock (\<lambda>s2.
         let st = check_not_shutting_down E (sc_customData ctx) s2 in
         if STATUS_FAILED st then Some (st, s2)
         else do {
           (st1, p, s3) \<leftarrow> prepare_request E ctx url None
              (put_stream_headers (ka_consts E) (ca_userAgent s2) streamName start absolute acks) s2;
           if STATUS_FAILED st1 then fail_start E None p st1 s3
           else chk (start_thread E ''putStreamCurlHandler'' p (put_active_upload E p) (lock (StartLock p) s3)) (\<lambda>s4. do {
             rq \<leftarrow> ca_requests s4 p;
             (case post_event E (PutStreamResultEvent (cq_streamHandle rq) (SERVICE_CALL_RESULT_OK (ku_consts (ka_curl E))) (cq_uploadHandle rq)) s4
                of (status, s5) \<Rightarrow> Some (STATUS_SUCCESS, unlock (StartLock p) (notify_result E status (sc_customData ctx) s5)))
           })
         }) s1
     }) = Some (st, s')"
    using run ep by (auto simp: putStreamCurl_def split: if_splits)
  obtain st0 s0 where v: "validate_credentials ctx s = Some (st0, s0)" using run' by (cases "validate_credentials ctx s") auto
  then obtain ch where s0: "s0 = s\<lparr>ca_credentials := ch\<rparr>" using validate_credentials_Some by blast
  show ?thesis
  proof (cases "st0 = STATUS_SUCCESS")
    case False
    have "s0 = s\<lparr>ca_credentials := ch, ca_locks := ca_locks s, ca_streamingRequestCount := ca_streamingRequestCount s, ca_world := ca_world s\<rparr>"
      using s0 by simp
    moreover have "st = st0" "s' = s0" using False run' v by simp_all
    ultimately have st: "st = st0" and r': "r = Some (s\<lparr>ca_credentials := ch, ca_locks := ca_locks s,
        ca_streamingRequestCount := ca_streamingRequestCount s, ca_world := ca_world s\<rparr>)" using r by (simp_all only:)
    show ?thesis by (rule unstarted [OF _ _ r']) (simp_all add: st False)
  next
    case True
    let ?k = "sc_customData ctx"
    let ?s2 = "lock ActiveUploadsLock s0"
    have s2: "?s2 = s\<lparr>ca_credentials := ch, ca_locks := ActiveUploadsLock # ca_locks s\<rparr>" by (simp add: s0 lock_def)
    show ?thesis
    proof (cases "lookup (ca_pStreamsShuttingDown s) ?k = None")
      case False
      then have st: "st = STATUS_STREAM_BEING_SHUTDOWN" "s' = s0"
        using run' v True by (auto simp: bind_eq_Some_conv with_lock_Some check_not_shutting_down_iff s2) (simp add: s0 unlock_def)
      have "r = Some (s\<lparr>ca_credentials := ch, ca_locks := ca_locks s, ca_streamingRequestCount := ca_streamingRequestCount s, ca_world := ca_world s\<rparr>)"
        unfolding r st(2) s0 by simp
      from unstarted [OF _ _ this] show ?thesis by (simp add: st(1))
    next
      case marks: True
      obtain url st1 p s3 s6 where pr: "prepare_request E ctx url None (put_stream_headers (ka_consts E) (ca_userAgent ?s2) streamName start absolute acks) ?s2 =
          Some (st1, p, s3)"
        and e: "(if STATUS_FAILED st1 then fail_start E None p st1 s3
           else chk (start_thread E ''putStreamCurlHandler'' p (put_active_upload E p) (lock (StartLock p) s3)) (\<lambda>s4. do {
             rq \<leftarrow> ca_requests s4 p;
             (case post_event E (PutStreamResultEvent (cq_streamHandle rq) (SERVICE_CALL_RESULT_OK (ku_consts (ka_curl E))) (cq_uploadHandle rq)) s4
                of (status, s5) \<Rightarrow> Some (STATUS_SUCCESS, unlock (StartLock p) (notify_result E status (sc_customData ctx) s5)))
           })) = Some (st, s6)" and s': "s' = unlock ActiveUploadsLock s6"
        using run' v True marks by (auto simp: bind_eq_Some_conv with_lock_Some check_not_shutting_down_iff s2)
      have count: "ca_streamingRequestCount ?s2 = ca_streamingRequestCount s" "ca_requests ?s2 = ca_requests s" by (simp_all add: s2)
      from pr show ?thesis
      proof (cases rule: prepare_request_spec)
        case (failed n w)
        then have st: "st = st1" "s6 = s3" using e by (simp_all add: fail_start_null)
        have n: "n = ca_streamingRequestCount s \<or> n = ca_streamingRequestCount s + 1" using failed(3) by (simp add: next_count_def s2)
        have "s' = s\<lparr>ca_credentials := ch, ca_locks := ca_locks s, ca_streamingRequestCount := n, ca_world := w\<rparr>"
          unfolding s' st(2) failed(4) by (simp add: s2 unlock_def)
        then show ?thesis using unstarted n st(1) failed(2) r by blast
      next
        case (created rq w)
        have s3: "s3 = s\<lparr>ca_credentials := ch, ca_locks := ActiveUploadsLock # ca_locks s, ca_streamingRequestCount := ca_streamingRequestCount s + 1,
            ca_requests := (ca_requests s)(p \<mapsto> rq), ca_world := w\<rparr>"
          using created(4) by (simp add: s2 next_count_def)
        have new: "ca_requests s p = None" using created(2) count by simp
        have drop: "((ca_requests s)(p \<mapsto> x))(p := None) = ca_requests s" for x using new by auto
        have n: "ca_streamingRequestCount s + 1 = ca_streamingRequestCount s \<or> ca_streamingRequestCount s + 1 = ca_streamingRequestCount s + 1" by simp
        show ?thesis
        proof (cases "st1 = STATUS_SUCCESS")
          case False
          then have f: "fail_start E None p st1 s3 = Some (st, s6)" using e by simp
          from fail_start_Some [OF f created(1)] obtain w' where st: "st = st1" and s6: "s6 = s3\<lparr>ca_requests := (ca_requests s3)(p := None), ca_world := w'\<rparr>"
            by auto
          have "s' = s\<lparr>ca_credentials := ch, ca_locks := ca_locks s, ca_streamingRequestCount := ca_streamingRequestCount s + 1, ca_world := w'\<rparr>"
            unfolding s' s6 using drop by (simp add: s3 unlock_def)
          then show ?thesis using unstarted False st n r by blast
        next
          case True
          let ?s4 = "lock (StartLock p) s3"
          have s4: "?s4 = s\<lparr>ca_credentials := ch, ca_locks := StartLock p # ActiveUploadsLock # ca_locks s,
              ca_streamingRequestCount := ca_streamingRequestCount s + 1, ca_requests := (ca_requests s)(p \<mapsto> rq), ca_world := w\<rparr>"
            by (simp add: s3 lock_def)
          obtain st2 s5 where th: "start_thread E ''putStreamCurlHandler'' p (put_active_upload E p) ?s4 = Some (st2, s5)"
            using e True by (cases "start_thread E ''putStreamCurlHandler'' p (put_active_upload E p) ?s4") auto
          have p4: "ca_requests ?s4 p = Some rq" by (simp add: s4)
          have fresh: "\<forall>tid x. ka_threadCreate E ''putStreamCurlHandler'' p x = (STATUS_SUCCESS, tid) \<longrightarrow>
              tid \<notin> fst ` set (ca_threads ?s4) \<union> fst ` set (ca_cancelled ?s4)"
            using ids new by (auto simp: thread_ids_fresh_def s4)
          have reg: "x' = ?s4\<lparr>ca_threads := ths, ca_requests := rs\<rparr> \<and> True"
            if "put_active_upload E p (?s4\<lparr>ca_threads := ths, ca_requests := rs\<rparr>) = (stx, x')" "stx \<noteq> STATUS_SUCCESS" for ths rs stx x'
            using that by (auto elim: put_active_upload_cases)
          show ?thesis
          proof (cases rule: start_thread_spec [OF th created(1) p4 fresh, where refused = "\<lambda>_. True", OF reg])
            case t1: (3 cs w')
            have st: "st = st2" "s6 = s5" using e True th t1(1) by simp_all
            have "s' = s\<lparr>ca_credentials := ch, ca_locks := StartLock p # ca_locks s, ca_cancelled := ca_cancelled s @ cs,
                ca_streamingRequestCount := ca_streamingRequestCount s + 1, ca_world := w'\<rparr>"
              unfolding s' st(2) t1(3) using drop by (simp add: s4 unlock_def)
            moreover have "left_behind E ''putStreamCurlHandler'' False (\<lambda>_. True) s st (StartLock p # ca_locks s) cs"
              using t1(2) new created(1) st(1) by (auto simp: left_behind_def)
            ultimately show ?thesis using that(1) st(1) t1(1) n r by blast
          next
            case t2: (4 tid)
            let ?rq = "rq\<lparr>cq_threadId := Some tid\<rparr>"
            show ?thesis
            proof (cases rule: put_active_upload_cases [OF t2(3)])
              case (1 d e')
              have s5: "s5 = s\<lparr>ca_credentials := ch, ca_locks := StartLock p # ActiveUploadsLock # ca_locks s, ca_pActiveUploads := d,
                  ca_streamingRequestCount := ca_streamingRequestCount s + 1, ca_requests := (ca_requests s)(p \<mapsto> ?rq),
                  ca_threads := ca_threads s @ [(tid, ''putStreamCurlHandler'', p)], ca_world := w\<rparr>"
                unfolding 1(3) by (simp add: s4)
              have live: "ca_requests s5 p = Some ?rq" by (simp add: s5)
              define ev where "ev = PutStreamResultEvent (cq_streamHandle ?rq) (SERVICE_CALL_RESULT_OK (ku_consts (ka_curl E))) (cq_uploadHandle ?rq)"
              obtain status x where ev: "ka_event E ev (cw_ext (ca_world s5)) = (status, x)" by fastforce
              obtain w' where "st = STATUS_SUCCESS" "s6 = unlock (StartLock p) (s5\<lparr>ca_world := w'\<rparr>)"
                using e True th t2(1) live ev by (auto simp: post_event_def notify_result_def ev_def)
              then have st: "st = STATUS_SUCCESS" and s'': "s' = s\<lparr>ca_credentials := ch, ca_pActiveUploads := d,
                  ca_streamingRequestCount := ca_streamingRequestCount s + 1, ca_requests := (ca_requests s)(p \<mapsto> ?rq),
                  ca_threads := ca_threads s @ [(tid, ''putStreamCurlHandler'', p)], ca_world := w'\<rparr>"
                unfolding s' by (simp_all add: s5 unlock_def)
              have ok: "request_ok (ku_INVALID_STREAM (ka_curl E)) ?k (ca_streamingRequestCount s) ?rq"
                using created(3) by (simp add: request_ok_def s2)
              have d: "nodes d = nodes (ca_pActiveUploads s) @ [(e', p)]" using 1(2) by (simp add: s4)
              have tid: "tid \<notin> fst ` set (ca_threads s) \<union> fst ` set (ca_cancelled s)" using t2(2) by (simp add: s4)
              show ?thesis by (rule that(2) [OF st created(1) new ok _ d marks tid]) (simp_all add: r s'')
            next
              case 2
              then show ?thesis by simp
            qed
          qed
        qed
      qed
    qed
  qed
qed

lemma started_upload_inv:
  assumes inv: "api_inv E lookup nodes s" and new: "p \<noteq> 0" "ca_requests s p = None"
    and ok: "request_ok (ku_INVALID_STREAM (ka_curl E)) k (ca_streamingRequestCount s) rq" and count: "ca_streamingRequestCount s \<noteq> - 1"
    and d: "nodes d = nodes (ca_pActiveUploads s) @ [(e, p)]" and tid: "tid \<notin> fst ` set (ca_threads s) \<union> fst ` set (ca_cancelled s)"
  shows "api_inv E lookup nodes (s\<lparr>ca_credentials := ch, ca_pActiveUploads := d, ca_streamingRequestCount := ca_streamingRequestCount s + 1,
         ca_requests := (ca_requests s)(p \<mapsto> rq), ca_threads := ca_threads s @ [(tid, ''putStreamCurlHandler'', p)], ca_world := w\<rparr>)"
proof -
  note i = inv [unfolded api_inv_def]
  have r: "requests_inv (ku_INVALID_STREAM (ka_curl E)) (active lookup s) (uploads nodes s) (ca_requests s)" using i by blast
  have p: "p \<notin> set (uploads nodes s)" using requests_inv_live [OF r] new(2) by auto
  have ups: "map snd (nodes d) = uploads nodes s @ [p]" using d by simp
  have "requests_inv (ku_INVALID_STREAM (ka_curl E)) (active lookup s) (uploads nodes s @ [p]) ((ca_requests s)(p \<mapsto> rq))"
    using requests_inv_add_upload [OF r new(2,1)] ok by (auto simp: request_ok_def)
  moreover have "uploads_inv (ca_streamingRequestCount s + 1) (uploads nodes s @ [p]) ((ca_requests s)(p \<mapsto> rq))"
    by (rule uploads_inv_add [OF _ p _ count]) (use i ok in \<open>auto simp: request_ok_def\<close>)
  moreover have "threads_inv (uploads nodes s @ [p]) ((ca_requests s)(p \<mapsto> rq)) (ca_threads s @ [(tid, ''putStreamCurlHandler'', p)])"
    by (rule threads_inv_add [of "uploads nodes s" "ca_requests s" "ca_threads s" p tid "uploads nodes s @ [p]" "''putStreamCurlHandler''" rq, OF _ new(2)])
      (use i tid in auto)
  ultimately show ?thesis using i ups cancelled_inv_add(1) [OF _ tid] by (simp add: api_inv_def)
qed

lemma failed_start_inv:
  assumes inv: "api_inv E lookup nodes s" and ids: "thread_ids_fresh E s" and ls: "left_behind E handler stopped refused s st ls cs"
    and n: "n = ca_streamingRequestCount s \<or> n = ca_streamingRequestCount s + 1" "ca_streamingRequestCount s \<noteq> - 1"
  shows "api_inv E lookup nodes (s\<lparr>ca_credentials := ch, ca_locks := ls, ca_cancelled := ca_cancelled s @ cs, ca_streamingRequestCount := n, ca_world := w\<rparr>)"
proof -
  have "1 + ca_streamingRequestCount s \<noteq> 0" using n(2) by (simp add: add_eq_0_iff)
  then have lt: "ca_streamingRequestCount s < ca_streamingRequestCount s + 1"
    using unatSuc [of "ca_streamingRequestCount s"] by (simp add: word_less_nat_alt add.commute)
  have "uploads_inv n ups rs" if "uploads_inv (ca_streamingRequestCount s) ups rs" for ups and rs :: "UINT64 \<Rightarrow> ('l, 'q) CurlRequest option"
    using that n(1) lt less_trans [OF _ lt] by (auto simp: uploads_inv_def)
  moreover have "cancelled_inv ls (ca_threads s) (ca_cancelled s @ cs)" using left_behind_cancelled [OF ls ids] inv by (simp add: api_inv_def)
  ultimately show ?thesis using inv left_behind_locks [OF ls] by (simp add: api_inv_def)
qed

lemma failed_call_inv:
  assumes "api_inv E lookup nodes s" "thread_ids_fresh E s" "left_behind E handler stopped refused s st ls cs"
  shows "api_inv E lookup nodes (s\<lparr>ca_credentials := ch, ca_locks := ls, ca_cancelled := ca_cancelled s @ cs, ca_world := w\<rparr>)"
proof -
  have "cancelled_inv ls (ca_threads s) (ca_cancelled s @ cs)" using left_behind_cancelled [OF assms(3,2)] assms(1) by (simp add: api_inv_def)
  then show ?thesis using assms(1) left_behind_locks [OF assms(3)] by (simp add: api_inv_def)
qed

end

end
