(* ===== verification/Curl_Create.thy ===== *)
theory Curl_Create
  imports Curl_Handlers
begin

text \<open>
  Creation and release of the curl API callbacks (\<open>CurlApiCallbacks.c\<close>), and the user agent string of
  the library (\<open>Common/Version.c\<close>).
\<close>

definition MAX_USER_AGENT_LEN :: nat where "MAX_USER_AGENT_LEN = 256"
definition MAX_CUSTOM_USER_AGENT_LEN :: nat where "MAX_CUSTOM_USER_AGENT_LEN = 128"
definition MAX_CUSTOM_USER_AGENT_NAME_POSTFIX_LEN :: nat where "MAX_CUSTOM_USER_AGENT_NAME_POSTFIX_LEN = 32"
definition HUNDREDS_OF_NANOS_IN_A_MINUTE :: UINT64 where "HUNDREDS_OF_NANOS_IN_A_MINUTE = 60 * HUNDREDS_OF_NANOS_IN_A_SECOND"
definition DEFAULT_ENDPOINT_CACHE_UPDATE_PERIOD :: UINT64 where "DEFAULT_ENDPOINT_CACHE_UPDATE_PERIOD = 40 * HUNDREDS_OF_NANOS_IN_A_MINUTE"
definition ENDPOINT_UPDATE_PERIOD_SENTINEL_VALUE :: UINT64 where "ENDPOINT_UPDATE_PERIOD_SENTINEL_VALUE = 0"
definition MAX_ENDPOINT_CACHE_UPDATE_PERIOD :: "api_consts \<Rightarrow> UINT64" where
  "MAX_ENDPOINT_CACHE_UPDATE_PERIOD C = 24 * kc_HUNDREDS_OF_NANOS_IN_AN_HOUR C"
definition DEFAULT_AWS_REGION :: string where "DEFAULT_AWS_REGION = ''us-west-2''"
definition CONTROL_PLANE_URI_PREFIX :: string where "CONTROL_PLANE_URI_PREFIX = ''https://''"
definition CONTROL_PLANE_URI_POSTFIX :: string where "CONTROL_PLANE_URI_POSTFIX = ''.amazonaws.com''"
definition USER_AGENT_NAME :: string where "USER_AGENT_NAME = ''AWS-PRODUCER-SDK-KVS''"

text \<open>
  What the creation asks of the platform: version strings, the objects of the platform independent
  code, memory, locks, and the initialisation of SSL and of curl.
\<close>

record ('h, 'd) create_env =
  cv_osVersion :: "STATUS \<times> string"
  cv_platformName :: "STATUS \<times> string"
  cv_compilerInfo :: "STATUS \<times> string"
  cv_version :: string
  cv_memory :: bool
  cv_hashTableCreate :: "nat \<Rightarrow> STATUS \<times> 'h"
  cv_doubleListCreate :: "STATUS \<times> 'd"
  cv_createMutex :: "nat \<Rightarrow> bool"
  cv_initializeSslCallbacks :: STATUS
  cv_curlGlobalInit :: bool

subsection \<open>The user agent\<close>

text \<open>The text as far as it fits, which stays when it is too long. \<open>None\<close> is a buffer that was not written.\<close>

definition getUserAgentString :: "('h, 'd) create_env \<Rightarrow> PCHAR \<Rightarrow> PCHAR \<Rightarrow> nat \<Rightarrow> bool \<Rightarrow> STATUS \<times> PCHAR" where
  "getUserAgentString V userAgentName customUserAgent len pUserAgent =
     (if \<not> pUserAgent then (STATUS_NULL_ARG, None)
      else if \<not> len \<le> MAX_USER_AGENT_LEN then (STATUS_INVALID_USER_AGENT_LENGTH, None)
      else (case (cv_osVersion V, cv_platformName V, cv_compilerInfo V) of ((st1, osVer), (st2, platformName), (st3, compilerInfo)) \<Rightarrow>
        if STATUS_FAILED st1 then (st1, None)
        else if STATUS_FAILED st2 then (st2, None)
        else if STATUS_FAILED st3 then (st3, None)
        else
          let name = (case userAgentName of None \<Rightarrow> USER_AGENT_NAME | Some n \<Rightarrow> if n = [] then USER_AGENT_NAME else n);
              agent = name @ ''/'' @ cv_version V @ '' '' @ compilerInfo @ '' '' @ osVer @ '' '' @ platformName @
                (case customUserAgent of None \<Rightarrow> [] | Some c \<Rightarrow> '' '' @ c)
          in (if 0 < length agent \<and> length agent \<le> len then STATUS_SUCCESS else STATUS_BUFFER_TOO_SMALL, Some (take len agent))))"

subsection \<open>Release\<close>

text \<open>
  The argument is the caller's variable; the last part of the result is the state behind the shutdown,
  with whatever of it is left. The status of the shutdown is ignored.
\<close>

definition freeCurlApiCallbacks ::
    "('h, 'd, 'e, 'l, 'n, 'q, 'x) api_env \<Rightarrow> ('h, 'd, 'l, 'q, 'x) others \<Rightarrow> ('h, 'd, 'l, 'q, 'x) CurlApiCallbacks option option
      \<Rightarrow> (STATUS \<times> ('h, 'd, 'l, 'q, 'x) CurlApiCallbacks option option \<times> ('h, 'd, 'l, 'q, 'x) CurlApiCallbacks option) option" where
  "freeCurlApiCallbacks E others ppCurlApiCallbacks = (case ppCurlApiCallbacks of
     None \<Rightarrow> Some (STATUS_NULL_ARG, None, None)
   | Some None \<Rightarrow> Some (STATUS_SUCCESS, Some None, None)
   | Some (Some s) \<Rightarrow>
       if ca_pCallbacksProvider s = None then Some (STATUS_INVALID_ARG, Some (Some s), None)
       else map_option (\<lambda>(_, s1). (STATUS_SUCCESS, Some None,
              Some (s1\<lparr>ca_pStreamsShuttingDown := snd (hashTableClear (ka_table E) (ca_pStreamsShuttingDown s1))\<rparr>)))
              (shutdown_all E others CURL_API_CALLBACKS_SHUTDOWN_TIMEOUT s))"

definition freeApiCallbacksCurl ::
    "('h, 'd, 'e, 'l, 'n, 'q, 'x) api_env \<Rightarrow> ('h, 'd, 'l, 'q, 'x) others \<Rightarrow> ('h, 'd, 'l, 'q, 'x) CurlApiCallbacks option option
      \<Rightarrow> (STATUS \<times> ('h, 'd, 'l, 'q, 'x) CurlApiCallbacks option) option" where
  "freeApiCallbacksCurl E others customData = (case customData of
     None \<Rightarrow> Some (STATUS_NULL_ARG, None)
   | Some pcb \<Rightarrow> map_option (\<lambda>(st, _, rest). (st, rest)) (freeCurlApiCallbacks E others (Some pcb)))"

subsection \<open>Creation\<close>

definition control_plane_url :: "nat \<Rightarrow> string \<Rightarrow> PCHAR \<Rightarrow> string" where
  "control_plane_url maxUri region controlPlaneUrl =
     (if controlPlaneUrl = None \<or> controlPlaneUrl = Some []
      then let url = take (maxUri - 1) (CONTROL_PLANE_URI_PREFIX @ KINESIS_VIDEO_SERVICE_NAME @ ''.'' @ region @ CONTROL_PLANE_URI_POSTFIX)
           in take maxUri (if STRSTR region ''cn-'' \<noteq> None then url @ ''.cn'' else url)
      else STRNCPY (the controlPlaneUrl) maxUri)"

definition curl_api_callbacks :: "UINT64 \<Rightarrow> ApiCallbacks" where
  "curl_api_callbacks self = \<lparr>ap_version = API_CALLBACKS_CURRENT_VERSION, ap_customData = self,
     ap_createStreamFn = Some (C_FUN ''createStreamCachingCurl''), ap_describeStreamFn = Some (C_FUN ''describeStreamCachingCurl''),
     ap_getStreamingEndpointFn = Some (C_FUN ''getStreamingEndpointCachingCurl''), ap_putStreamFn = Some (C_FUN ''putStreamCurl''),
     ap_tagResourceFn = Some (C_FUN ''tagResourceCachingCurl''), ap_createDeviceFn = Some (C_FUN ''createDeviceCurl''),
     ap_freeApiCallbacksFn = Some (C_FUN ''freeApiCallbacksCurl'')\<rparr>"

definition curl_stream_callbacks :: "UINT64 \<Rightarrow> StreamCallbacks" where
  "curl_stream_callbacks self = zero_StreamCallbacks\<lparr>st_version := STREAM_CALLBACKS_CURRENT_VERSION, st_customData := self,
     st_streamDataAvailableFn := Some (C_FUN ''dataAvailableCurl''), st_streamClosedFn := Some (C_FUN ''streamClosedCurl''),
     st_fragmentAckReceivedFn := Some (C_FUN ''fragmentAckReceivedCurl''), st_streamShutdownFn := Some (C_FUN ''shutdownStreamCurl'')\<rparr>"

definition curl_producer_callbacks :: "UINT64 \<Rightarrow> ProducerCallbacks" where
  "curl_producer_callbacks self = zero_ProducerCallbacks\<lparr>pr_version := PRODUCER_CALLBACKS_CURRENT_VERSION, pr_customData := self,
     pr_clientShutdownFn := Some (C_FUN ''clientShutdownCurl'')\<rparr>"

definition new_CurlApiCallbacks ::
    "nat \<Rightarrow> nat \<Rightarrow> ('h, 'd) create_env \<Rightarrow> CallbacksProvider \<Rightarrow> PCHAR \<Rightarrow> API_CALL_CACHE_TYPE \<Rightarrow> UINT64 \<Rightarrow> PCHAR \<Rightarrow> PCHAR \<Rightarrow> PCHAR \<Rightarrow> PCHAR
      \<Rightarrow> cheap \<Rightarrow> 'x curl_world \<Rightarrow> ('h, 'd, 'l, 'q, 'x) CurlApiCallbacks" where
  "new_CurlApiCallbacks maxUri maxPath V provider region cacheType period controlPlaneUrl certPath userAgentNamePostfix customUserAgent ch w =
     (let reg = (if region = None \<or> region = Some [] then DEFAULT_AWS_REGION else STRNCPY (the region) MAX_REGION_NAME_LEN) in
      \<lparr>ca_pCallbacksProvider = Some provider, ca_shutdown = False, ca_region = reg,
       ca_userAgent = (case getUserAgentString V userAgentNamePostfix customUserAgent MAX_USER_AGENT_LEN True of (_, a) \<Rightarrow>
          case a of None \<Rightarrow> [] | Some agent \<Rightarrow> agent),
       ca_controlPlaneUrl = control_plane_url maxUri reg controlPlaneUrl, ca_certPath = optional_path maxPath certPath,
       ca_shutdownTimeout = 0, ca_pActiveUploads = snd (cv_doubleListCreate V), ca_pActiveRequests = snd (cv_hashTableCreate V 0),
       ca_pCachedEndpoints = snd (cv_hashTableCreate V 1), ca_pStreamsShuttingDown = snd (cv_hashTableCreate V 2),
       ca_streamingRequestCount = 0, ca_cacheUpdatePeriod = period, ca_cacheType = cacheType, ca_requests = Map.empty,
       ca_trackers = Map.empty, ca_credentials = ch, ca_locks = [], ca_threads = [], ca_cancelled = [], ca_world = w\<rparr>)"

text \<open>
  The tables, the list and the four locks. A failure before the last lock is there makes the release
  lock a lock that does not exist.
\<close>

definition create_parts_ok :: "('h, 'd) create_env \<Rightarrow> bool" where
  "create_parts_ok V \<longleftrightarrow> fst (cv_hashTableCreate V 0) = STATUS_SUCCESS \<and> fst (cv_doubleListCreate V) = STATUS_SUCCESS \<and>
     fst (cv_hashTableCreate V 1) = STATUS_SUCCESS \<and> fst (cv_hashTableCreate V 2) = STATUS_SUCCESS \<and>
     cv_createMutex V 0 \<and> cv_createMutex V 1 \<and> cv_createMutex V 2 \<and> cv_createMutex V 3"

definition too_long :: "PCHAR \<Rightarrow> nat \<Rightarrow> bool" where
  "too_long s n \<longleftrightarrow> (case s of None \<Rightarrow> False | Some c \<Rightarrow> \<not> STRNLEN c (n + 1) \<le> n)"

text \<open>The entries of the three chains, one behind the other, until one is refused.\<close>

definition install_callbacks :: "UINT64 \<Rightarrow> CallbacksProvider \<Rightarrow> STATUS \<times> CallbacksProvider" where
  "install_callbacks self p =
     (case addApiCallbacks (Some p) (Some (curl_api_callbacks self)) of (st1, p1) \<Rightarrow>
      if STATUS_FAILED st1 then (st1, the p1)
      else (case addStreamCallbacks p1 (Some (curl_stream_callbacks self)) of (st2, p2) \<Rightarrow>
        if STATUS_FAILED st2 then (st2, the p2)
        else (case addProducerCallbacks p2 (Some (curl_producer_callbacks self)) of (st3, p3) \<Rightarrow> (st3, the p3))))"

text \<open>
  \<open>self\<close> is the address of the new object. The result has what \<open>*ppCurlApiCallbacks\<close> is set to and the
  provider, which keeps the entries that were installed when a later step fails.
\<close>

definition createCurlApiCallbacks ::
    "('h, 'd, 'e, 'l, 'n, 'q, 'x) api_env \<Rightarrow> ('h, 'd) create_env \<Rightarrow> UINT64 \<Rightarrow> CallbacksProvider option \<Rightarrow> PCHAR \<Rightarrow> API_CALL_CACHE_TYPE
      \<Rightarrow> UINT64 \<Rightarrow> PCHAR \<Rightarrow> PCHAR \<Rightarrow> PCHAR \<Rightarrow> PCHAR \<Rightarrow> bool \<Rightarrow> cheap \<Rightarrow> 'x curl_world
      \<Rightarrow> (STATUS \<times> ('h, 'd, 'l, 'q, 'x) CurlApiCallbacks option \<times> CallbacksProvider option) option" where
  "createCurlApiCallbacks E V self pCallbacksProvider region cacheType endpointCachingPeriod controlPlaneUrl certPath userAgentNamePostfix
      customUserAgent ppCurlApiCallbacks ch w = (case pCallbacksProvider of
     None \<Rightarrow> Some (STATUS_NULL_ARG, None, None)
   | Some p \<Rightarrow>
       let maxPath = re_maxPath (ku_request (ka_curl E)); maxUri = re_maxUri (ku_request (ka_curl E));
           period = (if endpointCachingPeriod = ENDPOINT_UPDATE_PERIOD_SENTINEL_VALUE then DEFAULT_ENDPOINT_CACHE_UPDATE_PERIOD
                     else endpointCachingPeriod)
       in
       if \<not> ppCurlApiCallbacks then Some (STATUS_NULL_ARG, None, Some p)
       else if too_long certPath maxPath then Some (STATUS_INVALID_CERT_PATH_LENGTH, None, Some p)
       else if too_long customUserAgent MAX_CUSTOM_USER_AGENT_LEN
       then Some (STATUS_MAX_CUSTOM_USER_AGENT_LEN_EXCEEDED, None, Some p)
       else if too_long userAgentNamePostfix MAX_CUSTOM_USER_AGENT_NAME_POSTFIX_LEN
       then Some (STATUS_MAX_USER_AGENT_NAME_POSTFIX_LEN_EXCEEDED, None, Some p)
       else if \<not> endpointCachingPeriod \<le> MAX_ENDPOINT_CACHE_UPDATE_PERIOD (ka_consts E)
       then Some (STATUS_INVALID_ENDPOINT_CACHING_PERIOD, None, Some p)
       else if \<not> cv_memory V then Some (STATUS_NOT_ENOUGH_MEMORY, None, Some p)
       else if \<not> create_parts_ok V then None
       else
         let s = new_CurlApiCallbacks maxUri maxPath V p region cacheType period controlPlaneUrl certPath userAgentNamePostfix customUserAgent ch w in
         (case (if STATUS_FAILED (cv_initializeSslCallbacks V) then (cv_initializeSslCallbacks V, p)
                else if \<not> cv_curlGlobalInit V then (STATUS_CURL_LIBRARY_INIT_FAILED, p) else install_callbacks self p) of (st, p1) \<Rightarrow>
           if STATUS_FAILED st
           then map_option (\<lambda>_. (st, None, Some p1)) (freeCurlApiCallbacks E (\<lambda>s. s) (Some (Some (s\<lparr>ca_pCallbacksProvider := Some p1\<rparr>))))
           else Some (STATUS_SUCCESS, Some (s\<lparr>ca_pCallbacksProvider := Some p1\<rparr>), Some p1)))"

end
