(* ===== verification/Curl_Steps.thy ===== *)
theory Curl_Steps
  imports Curl_Starts Curl_Create
begin

text \<open>
  The runs of the curl API callbacks: what the threads of the application, of the platform independent
  code and of the calls do to the object, one critical section after the other, and the invariant in
  every state that they reach.
\<close>

subsection \<open>The cache\<close>

lemma endpoints_inv_update: "endpoints_inv eps ts \<Longrightarrow> endpoints_inv eps (ts(a \<mapsto> t))"
  by (auto simp: endpoints_inv_def)

lemma endpoints_inv_add: "endpoints_inv eps ts \<Longrightarrow> ts a = None \<Longrightarrow> a \<noteq> 0 \<Longrightarrow> eps k = None \<Longrightarrow> endpoints_inv (eps(k \<mapsto> a)) (ts(a \<mapsto> t))"
  by (auto simp: endpoints_inv_def inj_on_def ran_def dom_def split: if_splits)

lemma endpoints_inv_remove:
  assumes "endpoints_inv eps ts" "eps k = Some a"
  shows "endpoints_inv (eps(k := None)) (ts(a := None))"
proof -
  have "ran (eps(k := None)) = ran eps - {a}" using assms by (intro ran_remove) (auto simp: endpoints_inv_def)
  then show ?thesis using assms by (auto simp: endpoints_inv_def inj_on_def)
qed

context api_tables
begin

lemma cache_endpoint_spec:
  assumes run: "cache_endpoint E k endpoint t s = Some (st, s')" and inv: "endpoints_inv (lookup (ca_pCachedEndpoints s)) (ca_trackers s)"
  shows "\<exists>tb ts. s' = s\<lparr>ca_pCachedEndpoints := tb, ca_trackers := ts\<rparr> \<and> endpoints_inv (lookup tb) ts \<and>
    (st = STATUS_SUCCESS \<longrightarrow> (\<exists>a. lookup tb = (lookup (ca_pCachedEndpoints s))(k \<mapsto> a) \<and>
       ts a = Some \<lparr>et_endpointLastUpdateTime = t, et_streamingEndpoint = STRNCPY endpoint (re_maxUri (ku_request (ka_curl E)))\<rparr>))"
proof -
  let ?s = "lock CachedEndpointsLock s"
  let ?t = "\<lparr>et_endpointLastUpdateTime = t, et_streamingEndpoint = STRNCPY endpoint (re_maxUri (ku_request (ka_curl E)))\<rparr>"
  obtain st0 a s1 where tr: "endpoint_tracker E k ?s = (st0, a, s1)" by (metis prod_cases3)
  have e: "(if a = 0 then st = st0 \<and> s' = unlock CachedEndpointsLock s1
      else ca_trackers s1 a \<noteq> None \<and> st = st0 \<and> s' = unlock CachedEndpointsLock (s1\<lparr>ca_trackers := (ca_trackers s1)(a \<mapsto> ?t)\<rparr>))"
    using run tr by (auto simp: cache_endpoint_def with_lock_Some split: if_splits)
  obtain st1 v where g: "hashTableGet (ka_table E) (ca_pCachedEndpoints s) k = (st1, v)" by fastforce
  from tb.get_Some [OF g] show ?thesis
  proof
    assume p: "st1 = STATUS_SUCCESS \<and> lookup (ca_pCachedEndpoints s) k = Some v"
    then have "v \<noteq> 0" using inv by (auto simp: endpoints_inv_def ran_def)
    then have "st0 = STATUS_SUCCESS" "a = v" "s1 = ?s" using tr g p by (auto simp: endpoint_tracker_def lock_def)
    then have "s' = s\<lparr>ca_pCachedEndpoints := ca_pCachedEndpoints s, ca_trackers := (ca_trackers s)(v \<mapsto> ?t)\<rparr>"
      using e \<open>v \<noteq> 0\<close> by (simp add: lock_def unlock_def)
    moreover have "lookup (ca_pCachedEndpoints s) = (lookup (ca_pCachedEndpoints s))(k \<mapsto> v)" using p by auto
    ultimately show ?thesis using endpoints_inv_update [OF inv] by (metis fun_upd_same)
  next
    assume p: "st1 = STATUS_HASH_KEY_NOT_PRESENT \<and> lookup (ca_pCachedEndpoints s) k = None"
    show ?thesis
    proof (cases "ka_malloc E (ca_trackers s)")
      case None
      then have "st0 = STATUS_HASH_KEY_NOT_PRESENT" "a = 0" "s1 = ?s" using tr g p by (auto simp: endpoint_tracker_def lock_def)
      then have "st = STATUS_HASH_KEY_NOT_PRESENT" "s' = s" using e by simp_all
      then show ?thesis using inv by (intro exI [of _ "ca_pCachedEndpoints s"] exI [of _ "ca_trackers s"]) simp
    next
      case (Some b)
      note fresh = malloc_fresh [OF Some]
      obtain st2 tb where put: "hashTablePut (ka_table E) (ca_pCachedEndpoints s) k b = (st2, tb)" by fastforce
      have s1: "st0 = st2" "a = b" "s1 = ?s\<lparr>ca_pCachedEndpoints := tb,
          ca_trackers := (ca_trackers s)(b \<mapsto> \<lparr>et_endpointLastUpdateTime = 0, et_streamingEndpoint = []\<rparr>)\<rparr>"
        using tr g p Some put by (auto simp: endpoint_tracker_def lock_def)
      then have s': "st = st2" "s' = s\<lparr>ca_pCachedEndpoints := tb, ca_trackers := (ca_trackers s)(b \<mapsto> ?t)\<rparr>"
        using e fresh by (auto simp: lock_def unlock_def)
      from tb.put_Some [OF put] show ?thesis
      proof
        assume "st2 = STATUS_SUCCESS \<and> lookup (ca_pCachedEndpoints s) k = None \<and> lookup tb = (lookup (ca_pCachedEndpoints s))(k \<mapsto> b)"
        then show ?thesis using s' endpoints_inv_add [OF inv] fresh by (metis fun_upd_same)
      next
        assume "st2 \<noteq> STATUS_SUCCESS \<and> tb = ca_pCachedEndpoints s"
        then show ?thesis using s' endpoints_inv_update [OF inv] by blast
      qed
    qed
  qed
qed

lemma cache_endpoint_inv:
  assumes "cache_endpoint E k endpoint t s = Some (st, s')" "api_inv E lookup nodes s"
  shows "api_inv E lookup nodes s' \<and> (\<exists>tb ts. s' = s\<lparr>ca_pCachedEndpoints := tb, ca_trackers := ts\<rparr>)"
proof -
  have "endpoints_inv (lookup (ca_pCachedEndpoints s)) (ca_trackers s)" using assms(2) by (simp add: api_inv_def)
  from cache_endpoint_spec [OF assms(1) this] obtain tb ts where "s' = s\<lparr>ca_pCachedEndpoints := tb, ca_trackers := ts\<rparr>" "endpoints_inv (lookup tb) ts"
    by blast
  then show ?thesis using assms(2) by (auto simp: api_inv_def)
qed

lemma shutdownCachedEndpoints_inv:
  assumes run: "shutdownCachedEndpoints E k True s = Some (st, s')" and inv: "api_inv E lookup nodes s"
  shows "api_inv E lookup nodes s' \<and> (\<exists>tb ts. s' = s\<lparr>ca_pCachedEndpoints := tb, ca_trackers := ts\<rparr> \<and> lookup tb = (lookup (ca_pCachedEndpoints s))(k := None))"
proof -
  have ep: "endpoints_inv (lookup (ca_pCachedEndpoints s)) (ca_trackers s)" using inv by (simp add: api_inv_def)
  obtain st1 v where g: "hashTableGet (ka_table E) (ca_pCachedEndpoints s) k = (st1, v)" by fastforce
  from tb.get_Some [OF g] show ?thesis
  proof
    assume p: "st1 = STATUS_SUCCESS \<and> lookup (ca_pCachedEndpoints s) k = Some v"
    then have "v \<noteq> 0" using ep by (auto simp: endpoints_inv_def ran_def)
    obtain t where t: "hashTableRemove (ka_table E) (ca_pCachedEndpoints s) k = (STATUS_SUCCESS, t)" "lookup t = (lookup (ca_pCachedEndpoints s))(k := None)"
      using tb.remove_present p by blast
    have "s' = s\<lparr>ca_pCachedEndpoints := t, ca_trackers := (ca_trackers s)(v := None)\<rparr>"
      using run g p t(1) \<open>v \<noteq> 0\<close> by (auto simp: shutdownCachedEndpoints_def with_lock_Some lock_def unlock_def split: if_splits)
    then show ?thesis using inv endpoints_inv_remove [OF ep] p t(2) by (auto simp: api_inv_def)
  next
    assume p: "st1 = STATUS_HASH_KEY_NOT_PRESENT \<and> lookup (ca_pCachedEndpoints s) k = None"
    then have "s' = s" using run g by (auto simp: shutdownCachedEndpoints_def with_lock_Some lock_def unlock_def)
    moreover have "s = s\<lparr>ca_pCachedEndpoints := ca_pCachedEndpoints s, ca_trackers := ca_trackers s\<rparr>" by simp
    moreover have "lookup (ca_pCachedEndpoints s) = (lookup (ca_pCachedEndpoints s))(k := None)" using p by auto
    ultimately show ?thesis using inv by metis
  qed
qed

text \<open>The whole cache is cleared: every tracker that it refers to is released, and the table is empty behind it.\<close>

lemma release_cached:
  assumes "lookup (ca_pCachedEndpoints s) k = Some a" "a \<noteq> 0" "ca_trackers s a \<noteq> None"
  shows "shutdownCachedEndpoints E k False s = Some (STATUS_SUCCESS, s\<lparr>ca_trackers := (ca_trackers s)(a := None)\<rparr>)"
  using assms tb.get_present [OF assms(1)] by (simp add: shutdownCachedEndpoints_def with_lock_def lock_def unlock_def Let_def)

lemma release_cached_entries:
  assumes "\<And>k a. (k, a) \<in> set es \<Longrightarrow> lookup (ca_pCachedEndpoints s) k = Some a \<and> a \<noteq> 0 \<and> ca_trackers s a \<noteq> None"
    and "distinct (map snd es)" "ca_pCallbacksProvider s \<noteq> None"
  shows "for_entries (\<lambda>e pcb. curlApiCallbacksCachedEndpointsTableShutdownCallback E pcb (Some e)) es (Some s) =
    Some (STATUS_SUCCESS, Some (s\<lparr>ca_trackers := ca_trackers s |` (- snd ` set es)\<rparr>))"
  using assms
proof (induction es arbitrary: s)
  case (Cons e es)
  obtain k a where e: "e = (k, a)" by fastforce
  let ?s = "s\<lparr>ca_trackers := (ca_trackers s)(a := None)\<rparr>"
  have r: "shutdownCachedEndpoints E k False s = Some (STATUS_SUCCESS, ?s)"
    by (rule release_cached) (use Cons.prems(1) [of k a] e in auto)
  have "for_entries (\<lambda>e pcb. curlApiCallbacksCachedEndpointsTableShutdownCallback E pcb (Some e)) es (Some ?s) =
    Some (STATUS_SUCCESS, Some (?s\<lparr>ca_trackers := ca_trackers ?s |` (- snd ` set es)\<rparr>))"
  proof (rule Cons.IH)
    fix j b assume "(j, b) \<in> set es"
    moreover from this have "b \<noteq> a" using Cons.prems(2) e by force
    ultimately show "lookup (ca_pCachedEndpoints ?s) j = Some b \<and> b \<noteq> 0 \<and> ca_trackers ?s b \<noteq> None" using Cons.prems(1) [of j b] by simp
  qed (use Cons.prems in simp_all)
  moreover have "(ca_trackers s)(a := None) |` (- snd ` set es) = ca_trackers s |` (- snd ` set (e # es))"
    by (auto simp: e restrict_map_def)
  moreover have "curlApiCallbacksCachedEndpointsTableShutdownCallback E (Some s) (Some e) = Some (STATUS_SUCCESS, Some ?s)"
    using Cons.prems(3) r e by (auto simp: curlApiCallbacksCachedEndpointsTableShutdownCallback_def with_callbacks_def)
  ultimately show ?case by (simp only: for_entries.simps chk_simps) simp
next
  case Nil
  show ?case by (simp add: restrict_map_def)
qed

lemma clear_endpoints_spec:
  assumes "endpoints_inv (lookup (ca_pCachedEndpoints s)) (ca_trackers s)" "ca_pCallbacksProvider s \<noteq> None"
  obtains t where "clear_endpoints E s = Some (STATUS_SUCCESS, s\<lparr>ca_pCachedEndpoints := t,
      ca_trackers := ca_trackers s |` (- ran (lookup (ca_pCachedEndpoints s)))\<rparr>)" "lookup t = Map.empty"
proof -
  let ?es = "hashTableEntries (ka_table E) (ca_pCachedEndpoints s)"
  have live: "lookup (ca_pCachedEndpoints s) k = Some a \<and> a \<noteq> 0 \<and> ca_trackers s a \<noteq> None" if "(k, a) \<in> set ?es" for k a
    using that assms(1) tb.entries [of "ca_pCachedEndpoints s"] by (auto simp: endpoints_inv_def ran_def)
  have "inj_on snd (set ?es)"
    using assms(1) tb.entries [of "ca_pCachedEndpoints s"] by (auto simp: endpoints_inv_def inj_on_def dom_def)
  then have "distinct (map snd ?es)" using tb.entries_distinct [of "ca_pCachedEndpoints s"] by (simp add: distinct_map)
  from release_cached_entries [OF live this assms(2)] have
    r: "iterate_table (curlApiCallbacksCachedEndpointsTableShutdownCallback E) ?es s =
      Some (STATUS_SUCCESS, s\<lparr>ca_trackers := ca_trackers s |` (- snd ` set ?es)\<rparr>)"
    by (simp add: iterate_table_def)
  have v: "snd ` set ?es = ran (lookup (ca_pCachedEndpoints s))"
    using tb.entries [of "ca_pCachedEndpoints s"] by (force simp: ran_def)
  obtain t where "hashTableClear (ka_table E) (ca_pCachedEndpoints s) = (STATUS_SUCCESS, t)" "lookup t = Map.empty" using tb.clear by blast
  then show ?thesis using that [of t] r v by (simp add: clear_endpoints_def)
qed

lemma clear_cache_returns:
  assumes "api_inv E lookup nodes s"
  shows "\<exists>s'. with_lock CachedEndpointsLock (clear_endpoints E) s = Some (STATUS_SUCCESS, s') \<and> ca_pActiveRequests s' = ca_pActiveRequests s"
proof -
  have "endpoints_inv (lookup (ca_pCachedEndpoints (lock CachedEndpointsLock s))) (ca_trackers (lock CachedEndpointsLock s))"
    "ca_pCallbacksProvider (lock CachedEndpointsLock s) \<noteq> None" using assms by (simp_all add: api_inv_def lock_def)
  from clear_endpoints_spec [OF this] obtain t where
    "clear_endpoints E (lock CachedEndpointsLock s) = Some (STATUS_SUCCESS, (lock CachedEndpointsLock s)\<lparr>ca_pCachedEndpoints := t,
      ca_trackers := ca_trackers (lock CachedEndpointsLock s) |` (- ran (lookup (ca_pCachedEndpoints (lock CachedEndpointsLock s))))\<rparr>)"
    by blast
  then show ?thesis by (simp add: with_lock_def unlock_def lock_def)
qed

lemma clear_cache_spec:
  assumes "api_inv E lookup nodes s" "with_lock CachedEndpointsLock (clear_endpoints E) s = Some (st, s')"
  shows "st = STATUS_SUCCESS \<and> (\<exists>t. s' = s\<lparr>ca_pCachedEndpoints := t, ca_trackers := ca_trackers s |` (- ran (lookup (ca_pCachedEndpoints s)))\<rparr> \<and>
    lookup t = Map.empty)"
proof -
  have "endpoints_inv (lookup (ca_pCachedEndpoints (lock CachedEndpointsLock s))) (ca_trackers (lock CachedEndpointsLock s))"
    "ca_pCallbacksProvider (lock CachedEndpointsLock s) \<noteq> None" using assms(1) by (simp_all add: api_inv_def lock_def)
  from clear_endpoints_spec [OF this] obtain t where
    c: "clear_endpoints E (lock CachedEndpointsLock s) = Some (STATUS_SUCCESS, (lock CachedEndpointsLock s)\<lparr>ca_pCachedEndpoints := t,
      ca_trackers := ca_trackers (lock CachedEndpointsLock s) |` (- ran (lookup (ca_pCachedEndpoints (lock CachedEndpointsLock s))))\<rparr>)"
    and t: "lookup t = Map.empty"
    by blast
  have "st = STATUS_SUCCESS" "s' = s\<lparr>ca_pCachedEndpoints := t, ca_trackers := ca_trackers s |` (- ran (lookup (ca_pCachedEndpoints s)))\<rparr>"
    using assms(2) c by (simp_all add: with_lock_def) (simp add: lock_def unlock_def)
  then show ?thesis using t by blast
qed

text \<open>The marks that the shutdown of everything sets.\<close>

lemma mark_entries:
  assumes "for_entries (\<lambda>e pcb. curlApiCallbacksMarkStreamShuttingdownCallback E pcb (Some e)) es (Some s) = Some (st, r)"
  shows "\<exists>t. r = Some (s\<lparr>ca_pStreamsShuttingDown := t\<rparr>) \<and> dom (lookup (ca_pStreamsShuttingDown s)) \<subseteq> dom (lookup t) \<and>
    (st = STATUS_SUCCESS \<and> ca_pCallbacksProvider s \<noteq> None \<longrightarrow> fst ` set es \<subseteq> dom (lookup t))"
  using assms
proof (induction es arbitrary: s)
  case Nil
  then show ?case by (intro exI [of _ "ca_pStreamsShuttingDown s"]) simp
next
  case (Cons e es)
  show ?case
  proof (cases "ca_pCallbacksProvider s = None")
    case True
    then have "r = Some s" using Cons.prems by (simp add: curlApiCallbacksMarkStreamShuttingdownCallback_def with_callbacks_def)
    then show ?thesis using True by (intro exI [of _ "ca_pStreamsShuttingDown s"]) simp
  next
    case False
    obtain st1 t where t: "hashTablePut (ka_table E) (ca_pStreamsShuttingDown s) (fst e) (fst e) = (st1, t)" by fastforce
    let ?s = "s\<lparr>ca_pStreamsShuttingDown := t\<rparr>"
    have c: "curlApiCallbacksMarkStreamShuttingdownCallback E (Some s) (Some e) = Some (st1, Some ?s)"
      using False t by (auto simp: curlApiCallbacksMarkStreamShuttingdownCallback_def with_callbacks_def)
    have d: "dom (lookup (ca_pStreamsShuttingDown s)) \<subseteq> dom (lookup t)" "st1 = STATUS_SUCCESS \<longrightarrow> fst e \<in> dom (lookup t)"
      using tb.put_Some [OF t] by auto
    show ?thesis
    proof (cases "st1 = STATUS_SUCCESS")
      case True
      then have run: "for_entries (\<lambda>e pcb. curlApiCallbacksMarkStreamShuttingdownCallback E pcb (Some e)) es (Some ?s) = Some (st, r)"
        using Cons.prems c by simp
      from Cons.IH [OF this] obtain t' where t': "r = Some (?s\<lparr>ca_pStreamsShuttingDown := t'\<rparr>)" "dom (lookup t) \<subseteq> dom (lookup t')"
        "st = STATUS_SUCCESS \<and> ca_pCallbacksProvider s \<noteq> None \<longrightarrow> fst ` set es \<subseteq> dom (lookup t')" by auto
      have "r = Some (s\<lparr>ca_pStreamsShuttingDown := t'\<rparr>)" using t'(1) by simp
      moreover have "dom (lookup (ca_pStreamsShuttingDown s)) \<subseteq> dom (lookup t')" using d(1) t'(2) by blast
      moreover have "st = STATUS_SUCCESS \<and> ca_pCallbacksProvider s \<noteq> None \<longrightarrow> fst ` set (e # es) \<subseteq> dom (lookup t')"
        using d(2) t'(2,3) True by fastforce
      ultimately show ?thesis by blast
    next
      case False
      then have "st = st1" "r = Some ?s" using Cons.prems c by simp_all
      then show ?thesis using d(1) False by (intro exI [of _ t]) simp
    qed
  qed
qed

lemma mark_all_spec:
  assumes "with_lock ShutdownLock (\<lambda>s. iterate_table (curlApiCallbacksMarkStreamShuttingdownCallback E)
      (hashTableEntries (ka_table E) (ca_pActiveRequests s)) s) s = Some (st, s')"
  shows "\<exists>t. s' = s\<lparr>ca_pStreamsShuttingDown := t\<rparr> \<and> dom (lookup (ca_pStreamsShuttingDown s)) \<subseteq> dom (lookup t) \<and>
    (st = STATUS_SUCCESS \<and> ca_pCallbacksProvider s \<noteq> None \<longrightarrow> dom (active lookup s) \<subseteq> dom (lookup t))"
proof -
  let ?s = "lock ShutdownLock s"
  let ?es = "hashTableEntries (ka_table E) (ca_pActiveRequests s)"
  obtain r where r: "for_entries (\<lambda>e pcb. curlApiCallbacksMarkStreamShuttingdownCallback E pcb (Some e)) ?es (Some ?s) = Some (st, r)"
    "s' = unlock ShutdownLock (the r)"
    using assms by (auto simp: with_lock_Some iterate_table_def lock_def)
  have "fst ` set ?es = dom (active lookup s)" using tb.entries [of "ca_pActiveRequests s"] by force
  then show ?thesis using mark_entries [OF r(1)] r(2) by (auto simp: lock_def unlock_def)
qed

end

subsection \<open>Steps\<close>

text \<open>
  One critical section of one thread: a call of the platform independent code, a part of the shutdown of
  a stream or of the whole object, the call of the service by a handler thread, its end, or something
  elsewhere. The counter of the uploads is not used up. A cancelled thread may end; what it does when it
  goes on with a request that was released is undefined, so there is no step for that.
\<close>

inductive api_step :: "('h, 'd, 'e, 'l, 'n, 'q, 'x) api_env \<Rightarrow> ('h, 'd, 'l, 'q, 'x) CurlApiCallbacks \<Rightarrow> ('h, 'd, 'l, 'q, 'x) CurlApiCallbacks \<Rightarrow> bool"
  for E where
  create_stream: "\<lbrakk>createStreamCachingCurl E (Some s) deviceName streamName contentType kmsKeyId retentionPeriod ctx = Some (st, Some s');
    thread_ids_fresh E s\<rbrakk> \<Longrightarrow> api_step E s s'"
| describe_stream: "\<lbrakk>describeStreamCachingCurl E (Some s) streamName ctx = Some (st, Some s'); thread_ids_fresh E s\<rbrakk> \<Longrightarrow> api_step E s s'"
| get_endpoint: "\<lbrakk>getStreamingEndpointCachingCurl E (Some s) streamName apiName ctx = Some (st, Some s'); thread_ids_fresh E s\<rbrakk> \<Longrightarrow> api_step E s s'"
| tag_resource: "\<lbrakk>tagResourceCachingCurl E memory (Some s) streamArn tags ctx = Some (st, Some s'); thread_ids_fresh E s\<rbrakk> \<Longrightarrow> api_step E s s'"
| put_stream: "\<lbrakk>putStreamCurl E (Some s) streamName containerType start absolute acks endpoint ctx = Some (st, Some s'); thread_ids_fresh E s;
    ca_streamingRequestCount s \<noteq> - 1\<rbrakk> \<Longrightarrow> api_step E s s'"
| create_device: "createDeviceCurl E (Some s) deviceName ctx = Some (st, Some s') \<Longrightarrow> api_step E s s'"
| stop_requests: "shutdownActiveRequests E streamHandle timeout False False s = Some (st, s') \<Longrightarrow> api_step E s s'"
| stop_uploads: "shutdownActiveUploads E streamHandle uploadHandle timeout False False s = Some (st, s') \<Longrightarrow> api_step E s s'"
| drop_endpoint: "shutdownCachedEndpoints E streamHandle True s = Some (st, s') \<Longrightarrow> api_step E s s'"
| mark: "with_lock ShutdownLock (\<lambda>s. Some (mark_stream E streamHandle s)) s = Some (st, s') \<Longrightarrow> api_step E s s'"
| unmark: "with_lock ShutdownLock (\<lambda>s. Some (unmark_stream E streamHandle s)) s = Some (st, s') \<Longrightarrow> api_step E s s'"
| shut_down: "api_step E s (s\<lparr>ca_shutdown := True, ca_shutdownTimeout := timeout\<rparr>)"
| mark_all: "with_lock ShutdownLock (\<lambda>s. iterate_table (curlApiCallbacksMarkStreamShuttingdownCallback E)
      (hashTableEntries (ka_table E) (ca_pActiveRequests s)) s) s = Some (st, s') \<Longrightarrow> api_step E s s'"
| clear_cache: "with_lock CachedEndpointsLock (clear_endpoints E) s = Some (st, s') \<Longrightarrow> api_step E s s'"
| cancelled_ends: "api_step E s (s\<lparr>ca_cancelled := remove1 c (ca_cancelled s)\<rparr>)"
| data_available: "dataAvailableCurl E (Some s) streamHandle streamName uploadHandle duration bytes = Some (st, Some s') \<Longrightarrow> api_step E s s'"
| fragment_ack: "fragmentAckReceivedCurl E (Some s) streamHandle uploadHandle persisted = Some (st, Some s') \<Longrightarrow> api_step E s s'"
| call: "\<lbrakk>(tid, handler, p) \<in> set (ca_threads s); curl_keeps perform hook; call_service E perform hook p s = Some (st, s')\<rbrakk> \<Longrightarrow> api_step E s s'"
| end_create: "\<lbrakk>(tid, ''createStreamCurlHandler'', p) \<in> set (ca_threads s); createStreamCurlHandler_end E p st arn s = Some (st', s')\<rbrakk>
    \<Longrightarrow> api_step E s (exit_thread tid s')"
| end_describe: "\<lbrakk>(tid, ''describeStreamCurlHandler'', p) \<in> set (ca_threads s); describeStreamCurlHandler_end E p st described s = Some (st', s')\<rbrakk>
    \<Longrightarrow> api_step E s (exit_thread tid s')"
| end_endpoint: "\<lbrakk>(tid, ''getStreamingEndpointCurlHandler'', p) \<in> set (ca_threads s);
    getStreamingEndpointCurlHandler_end E p st endpoint s = Some (st', s')\<rbrakk> \<Longrightarrow> api_step E s (exit_thread tid s')"
| end_tag: "\<lbrakk>(tid, ''tagResourceCurlHandler'', p) \<in> set (ca_threads s); tagResourceCurlHandler_end E p st s = Some (st', s')\<rbrakk>
    \<Longrightarrow> api_step E s (exit_thread tid s')"
| end_put: "\<lbrakk>(tid, ''putStreamCurlHandler'', p) \<in> set (ca_threads s); putStreamCurlHandler_end E p st s = Some (st', s')\<rbrakk>
    \<Longrightarrow> api_step E s (exit_thread tid s')"
| elsewhere: "api_step E s (s\<lparr>ca_world := w\<rparr>)"

lemma with_callbacks_Some:
  "with_callbacks st0 f (Some s) = Some (st, Some s') \<longleftrightarrow>
    (if ca_pCallbacksProvider s = None then st = st0 \<and> s' = s else f s = Some (st, s'))"
  by (auto simp: with_callbacks_def)

lemma post_event_world: "\<exists>w. snd (post_event E ev s) = s\<lparr>ca_world := w\<rparr>"
  by (auto simp: post_event_def split_beta)

lemma post_result_world: "\<exists>w. snd (post_result E ev k s) = s\<lparr>ca_world := w\<rparr>"
  by (auto simp: post_result_def post_event_def notify_result_def split_beta)

lemma post_result_Some:
  assumes "post_result E ev k s = (st, s')"
  shows "\<exists>w. s' = s\<lparr>ca_world := w\<rparr>"
  using assms post_result_world [of E ev k s] by simp

text \<open>Each of the four handlers of a request ends with \<open>end_request\<close> and what it posts outside of the object.\<close>

lemma world_refl: "\<exists>w. s = s\<lparr>ca_world := w\<rparr>"
  by (rule exI [of _ "ca_world s"]) simp

lemma post_event_Some: "post_event E ev s = (st, s') \<Longrightarrow> \<exists>w. s' = s\<lparr>ca_world := w\<rparr>"
  by (auto simp: post_event_def split_beta)

lemma notify_result_world: "\<exists>w. s' = s\<lparr>ca_world := w\<rparr> \<Longrightarrow> \<exists>w. notify_result E st k s' = s\<lparr>ca_world := w\<rparr>"
  by (auto simp: notify_result_def)

lemma createStreamCurlHandler_end_cases:
  assumes "createStreamCurlHandler_end E p st arn s = Some (st', s')"
  shows "\<exists>c k t s1. end_request E p s = Some (c, k, t, s1) \<and> (\<exists>w. s' = s1\<lparr>ca_world := w\<rparr>)"
  using assms world_refl
  by (cases "end_request E p s") (auto simp: createStreamCurlHandler_end_def dest!: post_result_Some split: if_splits)

lemma describeStreamCurlHandler_end_cases:
  assumes "describeStreamCurlHandler_end E p st described s = Some (st', s')"
  shows "\<exists>c k t s1. end_request E p s = Some (c, k, t, s1) \<and> (\<exists>w. s' = s1\<lparr>ca_world := w\<rparr>)"
proof (cases "end_request E p s")
  case None
  then show ?thesis using assms by (simp add: describeStreamCurlHandler_end_def)
next
  case (Some r)
  obtain c k t s1 where r: "r = (c, k, t, s1)" by (cases r) auto
  have "\<exists>w. s' = s1\<lparr>ca_world := w\<rparr>"
    using assms world_refl [of s1] post_event_world [of E _ s1]
    by (auto simp: describeStreamCurlHandler_end_def Some r split_beta split: if_splits intro!: notify_result_world)
  then show ?thesis using Some r by blast
qed

lemma tagResourceCurlHandler_end_cases:
  assumes "tagResourceCurlHandler_end E p st s = Some (st', s')"
  shows "\<exists>c k t s1. end_request E p s = Some (c, k, t, s1) \<and> (\<exists>w. s' = s1\<lparr>ca_world := w\<rparr>)"
  using assms world_refl post_result_world
  by (cases "end_request E p s") (auto simp: tagResourceCurlHandler_end_def split: if_splits)

lemma getStreamingEndpointCurlHandler_end_cases:
  assumes "getStreamingEndpointCurlHandler_end E p st endpoint s = Some (st', s')"
  shows "\<exists>s0. (s0 = s \<or> (\<exists>h ep tm st1. cache_endpoint E h ep tm s = Some (st1, s0)))
    \<and> (\<exists>c k t s1. end_request E p s0 = Some (c, k, t, s1) \<and> (\<exists>w. s' = s1\<lparr>ca_world := w\<rparr>))"
proof -
  let ?ep = "case endpoint of None \<Rightarrow> ka_stack E | Some e \<Rightarrow> e"
  obtain rq where rq: "ca_requests s p = Some rq"
    using assms by (cases "ca_requests s p") (auto simp: getStreamingEndpointCurlHandler_end_def)
  obtain st0 s0 where c: "(if STATUS_FAILED st then Some (st, s)
      else cache_endpoint E (cq_streamHandle rq) ?ep (ri_currentTime (cq_requestInfo rq)) s) = Some (st0, s0)"
    using assms rq by (auto simp: getStreamingEndpointCurlHandler_end_def Let_def bind_eq_Some_conv)
  have s0: "s0 = s \<or> (\<exists>h ep tm st1. cache_endpoint E h ep tm s = Some (st1, s0))" using c by (auto split: if_splits)
  obtain c k t s1 where e: "end_request E p s0 = Some (c, k, t, s1)"
    using assms rq c by (cases "end_request E p s0") (auto simp: getStreamingEndpointCurlHandler_end_def Let_def)
  have "\<exists>w. s' = s1\<lparr>ca_world := w\<rparr>"
    using assms rq c e world_refl [of s1]
    by (auto simp: getStreamingEndpointCurlHandler_end_def Let_def dest!: post_result_Some split: if_splits)
  then show ?thesis using s0 e by blast
qed

lemma call_or_emulate_cases:
  assumes "call_or_emulate E (Some s) pctx call emulate = Some (st, Some s')"
  shows "s' = s \<or> call = Some (st, Some s') \<or> (\<exists>ctx. pctx = Some ctx \<and> emulate ctx s = Some (st, s'))"
  using assms by (auto simp: call_or_emulate_def bind_eq_Some_conv split: option.splits if_splits)

text \<open>Each of the four starters is \<open>start_call\<close> on the thread of its own handler, or refuses its arguments.\<close>

lemma createStreamCurl_start:
  "createStreamCurl E (Some s) deviceName streamName contentType kmsKeyId retentionPeriod ctx = Some (st, Some s') \<Longrightarrow>
    s' = s \<or> (\<exists>c postfix body lockFirst. ctx = Some c \<and> start_call E ''createStreamCurlHandler'' postfix body lockFirst c s = Some (st, s'))"
  by (auto simp: createStreamCurl_def with_callbacks_Some bind_eq_Some_conv Let_def split: option.splits if_splits)

lemma describeStreamCurl_start:
  "describeStreamCurl E (Some s) streamName ctx = Some (st, Some s') \<Longrightarrow>
    s' = s \<or> (\<exists>c postfix body lockFirst. ctx = Some c \<and> start_call E ''describeStreamCurlHandler'' postfix body lockFirst c s = Some (st, s'))"
  by (auto simp: describeStreamCurl_def with_callbacks_Some bind_eq_Some_conv split: option.splits if_splits)

lemma getStreamingEndpointCurl_start:
  "getStreamingEndpointCurl E (Some s) streamName apiName ctx = Some (st, Some s') \<Longrightarrow>
    s' = s \<or> (\<exists>c postfix body lockFirst. ctx = Some c \<and> start_call E ''getStreamingEndpointCurlHandler'' postfix body lockFirst c s = Some (st, s'))"
  by (auto simp: getStreamingEndpointCurl_def with_callbacks_Some bind_eq_Some_conv split: option.splits if_splits)

lemma tagResourceCurl_start:
  "tagResourceCurl E memory (Some s) streamArn tags ctx = Some (st, Some s') \<Longrightarrow>
    s' = s \<or> (\<exists>c postfix body lockFirst. ctx = Some c \<and> start_call E ''tagResourceCurlHandler'' postfix body lockFirst c s = Some (st, s'))"
  by (auto simp: tagResourceCurl_def with_callbacks_Some bind_eq_Some_conv split: option.splits if_splits)

text \<open>
  What is kept by a step: the invariant, and that a stream that is being shut down gets no new request
  and no new entry.
\<close>

definition stream_requests :: "STREAM_HANDLE \<Rightarrow> ('h, 'd, 'l, 'q, 'x) CurlApiCallbacks \<Rightarrow> UINT64 set" where
  "stream_requests k s = {p. \<exists>rq. ca_requests s p = Some rq \<and> cq_streamHandle rq = k}"

definition no_new_request :: "('h \<Rightarrow> UINT64 \<rightharpoonup> UINT64) \<Rightarrow> STREAM_HANDLE \<Rightarrow> ('h, 'd, 'l, 'q, 'x) CurlApiCallbacks
    \<Rightarrow> ('h, 'd, 'l, 'q, 'x) CurlApiCallbacks \<Rightarrow> bool" where
  "no_new_request lookup k s s' \<longleftrightarrow> stream_requests k s' \<subseteq> stream_requests k s \<and> (active lookup s k = None \<longrightarrow> active lookup s' k = None)"

abbreviation shutting_down :: "('h \<Rightarrow> UINT64 \<rightharpoonup> UINT64) \<Rightarrow> ('h, 'd, 'l, 'q, 'x) CurlApiCallbacks \<Rightarrow> STREAM_HANDLE \<Rightarrow> bool" where
  "shutting_down lookup s k \<equiv> lookup (ca_pStreamsShuttingDown s) k \<noteq> None"

definition sound_step ::
    "('h, 'd, 'e, 'l, 'n, 'q, 'x) api_env \<Rightarrow> ('h \<Rightarrow> UINT64 \<rightharpoonup> UINT64) \<Rightarrow> ('d \<Rightarrow> ('e \<times> UINT64) list) \<Rightarrow> ('h, 'd, 'l, 'q, 'x) CurlApiCallbacks
      \<Rightarrow> ('h, 'd, 'l, 'q, 'x) CurlApiCallbacks \<Rightarrow> bool" where
  "sound_step E lookup nodes s s' \<longleftrightarrow> api_inv E lookup nodes s' \<and> (\<forall>k. shutting_down lookup s k \<longrightarrow> no_new_request lookup k s s')"

lemma no_new_request_refl [simp]: "no_new_request lookup k s s"
  by (simp add: no_new_request_def)

lemma no_new_request_trans: "no_new_request lookup k a b \<Longrightarrow> no_new_request lookup k b c \<Longrightarrow> no_new_request lookup k a c"
  by (auto simp: no_new_request_def)

lemma no_new_request_same:
  "ca_requests s' = ca_requests s \<Longrightarrow> ca_pActiveRequests s' = ca_pActiveRequests s \<Longrightarrow> no_new_request lookup k s s'"
  by (simp add: no_new_request_def stream_requests_def)

lemma no_new_request_removed:
  "ca_requests s' = (ca_requests s)(p := None) \<Longrightarrow> active lookup s' = (active lookup s) \<or> active lookup s' = (active lookup s)(j := None)
    \<Longrightarrow> no_new_request lookup k s s'"
  by (auto simp: no_new_request_def stream_requests_def split: if_splits)

lemma sound_step_world [simp]:
  "sound_step E lookup nodes s (s'\<lparr>ca_world := w\<rparr>) = sound_step E lookup nodes s s'"
  by (simp add: sound_step_def no_new_request_def stream_requests_def)

lemma sound_step_refl: "api_inv E lookup nodes s \<Longrightarrow> sound_step E lookup nodes s s"
  by (simp add: sound_step_def)

lemma only_requests_sound:
  assumes "only_requests s s'" "api_inv E lookup nodes s"
  shows "sound_step E lookup nodes s s'"
proof -
  have "stream_requests k s' \<subseteq> stream_requests k s" for k
    using all_keep_back [OF only_requests_frame(10) [OF assms(1)]] by (auto simp: stream_requests_def keeps_def) fastforce
  then show ?thesis
    using only_requests_inv [OF assms] only_requests_frame(2) [OF assms(1)] by (simp add: sound_step_def no_new_request_def)
qed

context api_tables
begin

lemma start_call_sound:
  assumes "start_call E handler postfix body lockFirst ctx s = Some (st, s')" "thread_ids_fresh E s" "api_inv E lookup nodes s"
    and "handler \<noteq> ''putStreamCurlHandler''"
  shows "sound_step E lookup nodes s s'"
proof (cases rule: start_call_spec [OF assms(1,2)])
  case (1 ch ls cs w)
  then show ?thesis using failed_call_inv [OF assms(3,2) 1(2)] by (simp add: sound_step_def no_new_request_same)
next
  case (2 p rq tid t ch w)
  have "no_new_request lookup k s s'" if "shutting_down lookup s k" for k
  proof -
    have "k \<noteq> sc_customData ctx" using that 2(8) by auto
    then show ?thesis using 2(3,4,7) unfolding 2(10) by (auto simp: no_new_request_def stream_requests_def request_ok_def split: if_splits)
  qed
  moreover have "api_inv E lookup nodes s'" unfolding 2(10) by (rule started_active_inv [OF assms(3) 2(2,3,4,6,7,9) assms(4)])
  ultimately show ?thesis by (simp add: sound_step_def)
qed

lemma putStreamCurl_sound:
  assumes run: "putStreamCurl E (Some s) streamName containerType start absolute acks endpoint ctx = Some (st, Some s')"
    and ids: "thread_ids_fresh E s" and inv: "api_inv E lookup nodes s" and count: "ca_streamingRequestCount s \<noteq> - 1"
  shows "sound_step E lookup nodes s s'"
proof -
  obtain c where c: "ctx = Some c" using run by (cases ctx) (auto simp: putStreamCurl_def)
  show ?thesis
  proof (cases rule: putStreamCurl_spec [OF run [unfolded c] ids])
    case (1 ch ls cs n w)
    then show ?thesis using failed_start_inv [OF inv ids 1(2) _ count] by (simp add: sound_step_def no_new_request_same)
  next
    case (2 p rq tid d e ch w)
    have "no_new_request lookup k s s'" if "shutting_down lookup s k" for k
    proof -
      have "k \<noteq> sc_customData c" using that 2(7) by auto
      then show ?thesis using 2(3,4,9) by (auto simp: no_new_request_def stream_requests_def request_ok_def split: if_splits)
    qed
    moreover have "api_inv E lookup nodes s'" using started_upload_inv [OF inv 2(2,3,4) count 2(6,8)] 2(9) by simp
    ultimately show ?thesis by (simp add: sound_step_def)
  qed
qed

lemma active_thread:
  assumes "api_inv E lookup nodes s" "(tid, handler, p) \<in> set (ca_threads s)" "handler \<noteq> ''putStreamCurlHandler''"
  obtains k where "active lookup s k = Some p"
proof -
  have "p \<in> dom (ca_requests s)" "p \<notin> set (uploads nodes s)"
    using assms unfolding api_inv_def threads_inv_def by (force, fastforce)
  then have "p \<in> ran (active lookup s)" using assms(1) unfolding api_inv_def requests_inv_def by blast
  then show ?thesis using that by (auto simp: ran_def)
qed

lemma end_active_sound:
  assumes inv: "api_inv E lookup nodes s" and th: "(tid, handler, p) \<in> set (ca_threads s)" "handler \<noteq> ''putStreamCurlHandler''"
    and run: "end_request E p s = Some (callResult, streamHandle, requestTerminating, s1)"
  shows "sound_step E lookup nodes s (exit_thread tid s1)"
proof -
  obtain k where k: "active lookup s k = Some p" by (rule active_thread [OF inv th])
  from end_request_spec [OF run inv k] obtain t w where t: "lookup t = (active lookup s)(k := None)"
    and s1: "s1 = s\<lparr>ca_pActiveRequests := t, ca_requests := (ca_requests s)(p := None), ca_world := w\<rparr>" by blast
  have "no_new_request lookup j s (exit_thread tid s1)" for j
    by (rule no_new_request_removed [where p = p and j = k]) (use t in \<open>simp_all add: s1 exit_thread_def\<close>)
  moreover have "api_inv E lookup nodes (exit_thread tid s1)" unfolding s1 by (rule release_active_inv [OF inv th(1) k t])
  ultimately show ?thesis by (simp add: sound_step_def)
qed

lemma exit_thread_world: "exit_thread tid (s\<lparr>ca_world := w\<rparr>) = (exit_thread tid s)\<lparr>ca_world := w\<rparr>"
  by (simp add: exit_thread_def)

lemma end_put_sound:
  assumes inv: "api_inv E lookup nodes s" and th: "(tid, ''putStreamCurlHandler'', p) \<in> set (ca_threads s)"
    and run: "putStreamCurlHandler_end E p st s = Some (st', s')"
  shows "sound_step E lookup nodes s (exit_thread tid s')"
proof -
  have up: "p \<in> set (uploads nodes s)" using inv th unfolding api_inv_def threads_inv_def by force
  obtain rq where rq: "ca_requests s p = Some rq" using run by (cases "ca_requests s p") (auto simp: putStreamCurlHandler_end_def)
  let ?s1 = "s\<lparr>ca_requests := (ca_requests s)(p \<mapsto> rq\<lparr>cq_threadId := None\<rparr>)\<rparr>"
  have "only_requests s ?s1" by (rule only_requests_update(2) [OF rq]) (simp add: keeps_simps)
  then have inv1: "api_inv E lookup nodes ?s1" using inv by (rule only_requests_inv)
  obtain st2 s2 where sh: "shutdownActiveUploads E (cq_streamHandle rq) (cq_uploadHandle rq) CURL_API_CALLBACKS_SHUTDOWN_TIMEOUT True False ?s1 = Some (st2, s2)"
    using run rq by (cases "shutdownActiveUploads E (cq_streamHandle rq) (cq_uploadHandle rq) CURL_API_CALLBACKS_SHUTDOWN_TIMEOUT True False ?s1")
      (auto simp: putStreamCurlHandler_end_def)
  obtain w where w: "s' = s2\<lparr>ca_world := w\<rparr>"
  proof -
    have s2: "\<exists>w. s2 = s2\<lparr>ca_world := w\<rparr>" by (rule exI [of _ "ca_world s2"]) simp
    have post: "\<exists>w. snd (post_event E ev s2) = s2\<lparr>ca_world := w\<rparr>" for ev by (auto simp: post_event_def split_beta)
    have notify: "\<exists>w. notify_result E retStatus k x = s2\<lparr>ca_world := w\<rparr>" if "\<exists>w. x = s2\<lparr>ca_world := w\<rparr>" for retStatus k x
      using that by (auto simp: notify_result_def)
    define x where "x = (if (case cq_pCurlResponse rq of None \<Rightarrow> False | Some r \<Rightarrow> cs_endOfStream r) then s2
      else snd (post_event E (StreamTerminated (cq_streamHandle rq) (cq_uploadHandle rq)
        (case cq_pCurlResponse rq of None \<Rightarrow> ku_RESULT_NOT_SET (ka_curl E) | Some r \<Rightarrow> ci_callResult (cs_callInfo r))) s2))"
    have "\<exists>w. x = s2\<lparr>ca_world := w\<rparr>" using s2 post by (simp add: x_def)
    then have "\<exists>w. notify_result E st (cq_streamHandle rq) x = s2\<lparr>ca_world := w\<rparr>" by (rule notify)
    moreover have "s' = s2 \<or> s' = notify_result E st (cq_streamHandle rq) x"
      using run rq sh by (auto simp: putStreamCurlHandler_end_def Let_def x_def split: if_splits)
    ultimately show ?thesis using that s2 by blast
  qed
  have "p \<in> set (uploads nodes ?s1)" "ca_requests ?s1 p = Some (rq\<lparr>cq_threadId := None\<rparr>)" using up by simp_all
  moreover have "shutdownActiveUploads E (cq_streamHandle (rq\<lparr>cq_threadId := None\<rparr>)) (cq_uploadHandle (rq\<lparr>cq_threadId := None\<rparr>))
      CURL_API_CALLBACKS_SHUTDOWN_TIMEOUT True False ?s1 = Some (st2, s2)" using sh by simp
  ultimately obtain xs e ys d w2
    where n: "nodes (ca_pActiveUploads ?s1) = xs @ (e, p) # ys" "nodes d = xs @ ys"
      and s2: "s2 = ?s1\<lparr>ca_pActiveUploads := d, ca_requests := (ca_requests ?s1)(p := None), ca_world := w2\<rparr>"
    using shutdownActiveUploads_own [OF inv1] by blast
  have "(tid, ''putStreamCurlHandler'', p) \<in> set (ca_threads ?s1)" using th by simp
  from release_upload_inv [OF inv1 this n] have "api_inv E lookup nodes (exit_thread tid s')" unfolding w s2 exit_thread_world by simp
  moreover have "no_new_request lookup k s (exit_thread tid s')" for k
    by (rule no_new_request_removed [where p = p]) (simp_all add: w s2 exit_thread_def)
  ultimately show ?thesis by (simp add: sound_step_def)
qed

text \<open>Every step is sound.\<close>

lemma api_step_sound:
  assumes "api_step E s s'" "api_inv E lookup nodes s"
  shows "sound_step E lookup nodes s s'"
  using assms
proof (induction rule: api_step.induct)
  case (create_stream s deviceName streamName contentType kmsKeyId retentionPeriod ctx st s')
  from call_or_emulate_cases [OF create_stream(1) [unfolded createStreamCachingCurl_def]] show ?case
    using create_stream(2,3) start_call_sound sound_step_refl
    by (auto dest!: createStreamCurl_start post_result_Some simp: bind_eq_Some_conv)
next
  case (describe_stream s streamName ctx st s')
  from call_or_emulate_cases [OF describe_stream(1) [unfolded describeStreamCachingCurl_def]] show ?case
    using describe_stream(2,3) start_call_sound sound_step_refl
    by (auto dest!: describeStreamCurl_start post_result_Some simp: bind_eq_Some_conv split_beta split: if_splits)
next
  case (tag_resource memory s streamArn tags ctx st s')
  from call_or_emulate_cases [OF tag_resource(1) [unfolded tagResourceCachingCurl_def]] show ?case
    using tag_resource(2,3) start_call_sound sound_step_refl
    by (auto dest!: tagResourceCurl_start post_result_Some)
next
  case (get_endpoint s streamName apiName ctx st s')
  have "s' = s \<or> getStreamingEndpointCurl E (Some s) streamName apiName ctx = Some (st, Some s') \<or> (\<exists>w. s' = s\<lparr>ca_world := w\<rparr>)"
    using get_endpoint(1)
    by (auto simp: getStreamingEndpointCachingCurl_def bind_eq_Some_conv with_lock_Some lock_def unlock_def dest!: post_result_Some
        split: option.splits if_splits) blast
  then show ?case
    using get_endpoint(2,3) start_call_sound sound_step_refl by (auto dest!: getStreamingEndpointCurl_start)
next
  case (put_stream s streamName containerType start absolute acks endpoint ctx st s')
  then show ?case using putStreamCurl_sound by blast
next
  case (create_device s deviceName ctx st s')
  then show ?case using sound_step_refl by (auto simp: createDeviceCurl_def with_callbacks_Some bind_eq_Some_conv post_event_def split_beta split: if_splits)
next
  case (stop_requests streamHandle timeout s st s')
  then show ?case using shutdownActiveRequests_only only_requests_sound sound_step_refl by blast
next
  case (stop_uploads streamHandle uploadHandle timeout s st s')
  then show ?case using shutdownActiveUploads_only only_requests_sound sound_step_refl by blast
next
  case (drop_endpoint streamHandle s st s')
  then show ?case using shutdownCachedEndpoints_inv by (fastforce simp: sound_step_def intro!: no_new_request_same)
next
  case (mark streamHandle s st s')
  then show ?case
    by (auto simp: with_lock_Some mark_stream_def lock_def unlock_def api_inv_def sound_step_def split: prod.splits intro!: no_new_request_same)
next
  case (unmark streamHandle s st s')
  then show ?case
    by (auto simp: with_lock_Some unmark_stream_def lock_def unlock_def api_inv_def sound_step_def split: prod.splits intro!: no_new_request_same)
next
  case (shut_down s timeout)
  then show ?case by (simp add: api_inv_def sound_step_def no_new_request_same)
next
  case (mark_all s st s')
  from mark_all_spec [OF mark_all(1)] mark_all(2) show ?case
    by (auto simp: api_inv_def sound_step_def intro!: no_new_request_same)
next
  case (clear_cache s st s')
  from clear_cache_spec [OF clear_cache(2,1)] clear_cache(2) show ?case
    by (auto simp: api_inv_def sound_step_def endpoints_inv_def intro!: no_new_request_same)
next
  case (cancelled_ends s c)
  then show ?case by (simp add: api_inv_def sound_step_def no_new_request_same cancelled_inv_remove)
next
  case (data_available s streamHandle streamName uploadHandle duration bytes st s')
  then have "s' = s \<or> only_requests s s'"
    by (auto simp: dataAvailableCurl_def with_callbacks_Some split: if_splits dest: wake_upload_only)
  then show ?case using data_available(2) only_requests_sound sound_step_refl by blast
next
  case (fragment_ack s streamHandle uploadHandle persisted st s')
  then have "s' = s \<or> only_requests s s'"
    by (auto simp: fragmentAckReceivedCurl_def with_callbacks_Some split: if_splits dest: wake_upload_only)
  then show ?case using fragment_ack(2) only_requests_sound sound_step_refl by blast
next
  case (call tid handler p s perform hook st s')
  then show ?case using call_service_only only_requests_sound sound_step_refl by blast
next
  case (end_create tid p s st arn st' s')
  from createStreamCurlHandler_end_cases [OF end_create(2)] show ?case
    using end_active_sound [OF end_create(3,1)] by (auto simp: exit_thread_world)
next
  case (end_describe tid p s st described st' s')
  from describeStreamCurlHandler_end_cases [OF end_describe(2)] show ?case
    using end_active_sound [OF end_describe(3,1)] by (auto simp: exit_thread_world)
next
  case (end_endpoint tid p s st endpoint st' s')
  from getStreamingEndpointCurlHandler_end_cases [OF end_endpoint(2)] obtain s0
    where s0: "s0 = s \<or> (\<exists>h ep tm st1. cache_endpoint E h ep tm s = Some (st1, s0))"
      and e: "\<exists>c k t s1. end_request E p s0 = Some (c, k, t, s1) \<and> (\<exists>w. s' = s1\<lparr>ca_world := w\<rparr>)" by blast
  have s0': "api_inv E lookup nodes s0" "ca_threads s0 = ca_threads s" "ca_requests s0 = ca_requests s" "ca_pActiveRequests s0 = ca_pActiveRequests s"
    "ca_pStreamsShuttingDown s0 = ca_pStreamsShuttingDown s"
    using s0 cache_endpoint_inv [OF _ end_endpoint(3)] end_endpoint(3) by fastforce+
  then have "(tid, ''getStreamingEndpointCurlHandler'', p) \<in> set (ca_threads s0)" using end_endpoint(1) by simp
  with e end_active_sound [OF s0'(1) this] have "sound_step E lookup nodes s0 (exit_thread tid s')" by (auto simp: exit_thread_world)
  moreover have "no_new_request lookup k s s0" for k by (rule no_new_request_same) (use s0' in simp_all)
  ultimately show ?case using s0'(5) no_new_request_trans unfolding sound_step_def by metis
next
  case (end_tag tid p s st st' s')
  from tagResourceCurlHandler_end_cases [OF end_tag(2)] show ?case
    using end_active_sound [OF end_tag(3,1)] by (auto simp: exit_thread_world)
next
  case (end_put tid p s st st' s')
  then show ?case using end_put_sound by blast
next
  case (elsewhere s w)
  then show ?case by (simp add: sound_step_refl)
qed

end

end
