(* ===== verification/Curl_Stops.thy ===== *)
theory Curl_Stops
  imports Curl_Steps
begin

text \<open>
  The shutdown of a stream (\<open>shutdownStreamCurl\<close>) among the other threads: what it leaves, and that it
  returns.
\<close>

subsection \<open>The other threads\<close>

text \<open>Runs of the other threads while the stream stays marked.\<close>

abbreviation shutting_run ::
    "('h, 'd, 'e, 'l, 'n, 'q, 'x) api_env \<Rightarrow> ('h \<Rightarrow> UINT64 \<rightharpoonup> UINT64) \<Rightarrow> STREAM_HANDLE \<Rightarrow> ('h, 'd, 'l, 'q, 'x) CurlApiCallbacks
      \<Rightarrow> ('h, 'd, 'l, 'q, 'x) CurlApiCallbacks \<Rightarrow> bool" where
  "shutting_run E lookup k \<equiv> (\<lambda>s s'. api_step E s s' \<and> shutting_down lookup s' k)\<^sup>*\<^sup>*"

definition round :: "('h, 'd, 'l, 'q, 'x) others \<Rightarrow> ('h, 'd, 'l, 'q, 'x) CurlApiCallbacks \<Rightarrow> ('h, 'd, 'l, 'q, 'x) CurlApiCallbacks" where
  "round others s = sleep CURL_API_DEFAULT_SHUTDOWN_POLLING_INTERVAL (others s)"

context api_tables
begin

lemma shutting_run_sound:
  assumes "shutting_run E lookup k s s'" "api_inv E lookup nodes s" "shutting_down lookup s k"
  shows "api_inv E lookup nodes s' \<and> shutting_down lookup s' k \<and> no_new_request lookup k s s'"
  using assms(1)
proof (induction rule: rtranclp_induct)
  case base
  then show ?case using assms by simp
next
  case (step s1 s2)
  have i: "api_inv E lookup nodes s1" "shutting_down lookup s1 k" "no_new_request lookup k s s1" using step.IH by blast+
  have h: "api_step E s1 s2" "shutting_down lookup s2 k" using step.hyps(2) by blast+
  have "sound_step E lookup nodes s1 s2" by (rule api_step_sound [OF h(1) i(1)])
  then have "api_inv E lookup nodes s2" "no_new_request lookup k s1 s2" using i(2) unfolding sound_step_def by blast+
  then show ?case using h(2) no_new_request_trans [OF i(3)] by blast
qed

lemma round_sound:
  assumes "shutting_run E lookup k s (others s)" "api_inv E lookup nodes s" "shutting_down lookup s k"
  shows "api_inv E lookup nodes (round others s) \<and> shutting_down lookup (round others s) k \<and> no_new_request lookup k s (round others s)"
    and "shutting_run E lookup k s (round others s)"
proof -
  have r: "round others s = (others s)\<lparr>ca_world := cw_sleeps_update (\<lambda>_. cw_sleeps (ca_world (others s)) @ [CURL_API_DEFAULT_SHUTDOWN_POLLING_INTERVAL]) (ca_world (others s))\<rparr>"
    by (simp add: round_def sleep_def)
  have m: "shutting_down lookup (others s) k" using shutting_run_sound [OF assms] by blast
  have "api_step E (others s) (round others s)" unfolding r by (rule elsewhere)
  moreover have "shutting_down lookup (round others s) k" using m by (simp add: r)
  ultimately show run: "shutting_run E lookup k s (round others s)" using assms(1) by (simp add: rtranclp.rtrancl_into_rtrancl)
  show "api_inv E lookup nodes (round others s) \<and> shutting_down lookup (round others s) k \<and> no_new_request lookup k s (round others s)"
    by (rule shutting_run_sound [OF run assms(2,3)])
qed

text \<open>The requests of a stream are those that its entry in the table and the list of uploads refer to.\<close>

lemma stream_requests_none:
  assumes inv: "api_inv E lookup nodes s" and act: "active lookup s k = None"
    and ups: "\<And>p. p \<in> set (uploads nodes s) \<Longrightarrow> \<exists>rq. ca_requests s p = Some rq \<and> cq_streamHandle rq \<noteq> k"
  shows "stream_requests k s = {}"
proof (rule equals0I)
  fix p assume "p \<in> stream_requests k s"
  then obtain rq where rq: "ca_requests s p = Some rq" "cq_streamHandle rq = k" by (auto simp: stream_requests_def)
  then have "p \<in> ran (active lookup s) \<or> p \<in> set (uploads nodes s)" using inv unfolding api_inv_def requests_inv_def by blast
  then show False
  proof
    assume "p \<in> ran (active lookup s)"
    then obtain j where j: "active lookup s j = Some p" by (auto simp: ran_def)
    then have "cq_streamHandle rq = j" using inv rq(1) unfolding api_inv_def requests_inv_def by fastforce
    then show False using j rq(2) act by simp
  next
    assume "p \<in> set (uploads nodes s)"
    then show False using ups rq by fastforce
  qed
qed

lemma stream_requests_active: "api_inv E lookup nodes s \<Longrightarrow> active lookup s k = Some p \<Longrightarrow> p \<in> stream_requests k s"
  unfolding api_inv_def requests_inv_def stream_requests_def by blast

lemma count_uploads_spec:
  assumes "nodes (ca_pActiveUploads s) = xs @ ys" "set (map snd ys) \<subseteq> dom (ca_requests s)"
  shows "count_uploads E k s (first_node ys) n =
    Some (STATUS_SUCCESS, n + length (filter (\<lambda>p. \<exists>rq. ca_requests s p = Some rq \<and> cq_streamHandle rq = k) (map snd ys)))"
  using assms
proof (induction ys arbitrary: xs n)
  case Nil
  then show ?case by (simp add: count_uploads.simps)
next
  case (Cons y ys)
  obtain e p where y: "y = (e, p)" by fastforce
  obtain rq where rq: "ca_requests s p = Some rq" using Cons.prems(2) y by auto
  have nd: "nodes (ca_pActiveUploads s) = xs @ (e, p) # ys" "nodes (ca_pActiveUploads s) = (xs @ [y]) @ ys" using Cons.prems(1) y by simp_all
  have "count_uploads E k s (first_node ys) m =
    Some (STATUS_SUCCESS, m + length (filter (\<lambda>p. \<exists>rq. ca_requests s p = Some rq \<and> cq_streamHandle rq = k) (map snd ys)))" for m
    by (rule Cons.IH [OF nd(2)]) (use Cons.prems(2) in simp)
  then show ?case using dl.node_data [OF nd(1)] dl.next_node [OF nd(1)] rq y by (simp add: count_uploads.simps [of E k s "Some e"])
qed
end

subsection \<open>Waiting\<close>

text \<open>The other threads go on from every state of the shutdown, and keep the mark of the stream.\<close>

definition others_run ::
    "('h, 'd, 'e, 'l, 'n, 'q, 'x) api_env \<Rightarrow> ('h \<Rightarrow> UINT64 \<rightharpoonup> UINT64) \<Rightarrow> STREAM_HANDLE \<Rightarrow> ('h, 'd, 'l, 'q, 'x) others
      \<Rightarrow> ('h, 'd, 'l, 'q, 'x) CurlApiCallbacks \<Rightarrow> bool" where
  "others_run E lookup k others s \<longleftrightarrow>
     (\<forall>x. shutting_run E lookup k s x \<longrightarrow> shutting_run E lookup k x (others x))"

text \<open>
  The same of the states that the waiting really comes to: after each number of its rounds.
\<close>

definition others_along ::
    "('h, 'd, 'e, 'l, 'n, 'q, 'x) api_env \<Rightarrow> ('h \<Rightarrow> UINT64 \<rightharpoonup> UINT64) \<Rightarrow> STREAM_HANDLE \<Rightarrow> ('h, 'd, 'l, 'q, 'x) others
      \<Rightarrow> ('h, 'd, 'l, 'q, 'x) CurlApiCallbacks \<Rightarrow> bool" where
  "others_along E lookup k others s \<longleftrightarrow>
     (\<forall>n. shutting_run E lookup k ((round others ^^ n) s) (others ((round others ^^ n) s)))"

lemma others_along_next: "others_along E lookup k others s \<Longrightarrow> others_along E lookup k others ((round others ^^ m) s)"
  unfolding others_along_def
proof
  fix n
  assume a: "\<forall>n. shutting_run E lookup k ((round others ^^ n) s) (others ((round others ^^ n) s))"
  have "(round others ^^ n) ((round others ^^ m) s) = (round others ^^ (n + m)) s" by (simp add: funpow_add)
  then show "shutting_run E lookup k ((round others ^^ n) ((round others ^^ m) s)) (others ((round others ^^ n) ((round others ^^ m) s)))"
    using a [THEN spec, of "n + m"] by (simp only:)
qed

lemma others_run_from:
  assumes "others_run E lookup k others s" "shutting_run E lookup k s x"
  shows "others_run E lookup k others x"
  unfolding others_run_def
proof (intro allI impI)
  fix y assume "shutting_run E lookup k x y"
  moreover from rtranclp_trans [OF assms(2) this(1)] have "shutting_run E lookup k s y" .
  ultimately show "shutting_run E lookup k y (others y)" using assms(1) unfolding others_run_def by blast
qed

context api_tables
begin

lemma round_run:
  assumes "others_along E lookup k others s" "api_inv E lookup nodes s" "shutting_down lookup s k"
  shows "api_inv E lookup nodes (round others s)" "shutting_down lookup (round others s) k" "no_new_request lookup k s (round others s)"
    "shutting_run E lookup k s (round others s)" "others_along E lookup k others (round others s)"
proof -
  have "shutting_run E lookup k ((round others ^^ 0) s) (others ((round others ^^ 0) s))" using assms(1) unfolding others_along_def by blast
  then have r: "shutting_run E lookup k s (others s)" by simp
  show "api_inv E lookup nodes (round others s)" "shutting_down lookup (round others s) k" "no_new_request lookup k s (round others s)"
    using round_sound(1) [of k s others, OF r assms(2,3)] by blast+
  show "shutting_run E lookup k s (round others s)" by (rule round_sound(2) [of k s others, OF r assms(2,3)])
  show "others_along E lookup k others (round others s)" using others_along_next [OF assms(1), of 1] by simp
qed

lemma others_run_along:
  assumes "others_run E lookup k others s" "api_inv E lookup nodes s" "shutting_down lookup s k"
  shows "others_along E lookup k others s"
proof -
  have "shutting_run E lookup k s ((round others ^^ n) s)" for n
  proof (induction n)
    case (Suc n)
    let ?x = "(round others ^^ n) s"
    have r: "shutting_run E lookup k ?x (others ?x)" using assms(1) Suc unfolding others_run_def by blast
    have "api_inv E lookup nodes ?x" "shutting_down lookup ?x k" using shutting_run_sound [OF Suc assms(2,3)] by blast+
    from round_sound(2) [of k ?x others, OF r this] Suc show ?case by (simp add: rtranclp_trans [OF Suc])
  qed simp
  then show ?thesis using assms(1) unfolding others_run_def others_along_def by blast
qed

lemma wait_requests_step:
  "wait_requests E others k s = (if active lookup (round others s) k \<noteq> None then wait_requests E others k (round others s)
     else Some (STATUS_SUCCESS, round others s))"
  by (subst wait_requests.simps) (simp add: round_def Let_def tb.contains)

lemma wait_requests_end:
  assumes "wait_requests E others k s = Some (st, s')" "others_along E lookup k others s" "api_inv E lookup nodes s" "shutting_down lookup s k"
  shows "st = STATUS_SUCCESS \<and> shutting_run E lookup k s s' \<and> active lookup s' k = None \<and> (\<exists>m. s' = (round others ^^ m) s)"
proof -
  have "\<forall>x. s = x \<longrightarrow> E' = E \<longrightarrow> k' = k \<longrightarrow> o' = others \<longrightarrow> others_along E lookup k others x \<longrightarrow> api_inv E lookup nodes x \<longrightarrow> shutting_down lookup x k \<longrightarrow>
      fst r = STATUS_SUCCESS \<and> shutting_run E lookup k x (snd r) \<and> active lookup (snd r) k = None \<and> (\<exists>m. snd r = (round others ^^ m) x)"
    if "wait_requests E' o' k' s = Some r" for E' o' k' s r
  proof (rule wait_requests.raw_induct [OF _ that], goal_cases)
    case (1 wait E' o' k' s r)
    show ?case
    proof (intro allI impI)
      fix x assume eq: "s = x" "E' = E" "k' = k" "o' = others" and o: "others_along E lookup k others x" and i: "api_inv E lookup nodes x" "shutting_down lookup x k"
      note rr = round_run [OF o i]
      show "fst r = STATUS_SUCCESS \<and> shutting_run E lookup k x (snd r) \<and> active lookup (snd r) k = None \<and> (\<exists>m. snd r = (round others ^^ m) x)"
      proof (cases "active lookup (round others x) k")
        case None
        then have "r = (STATUS_SUCCESS, round others x)" using 1(2) eq by (simp add: round_def Let_def tb.contains)
        then show ?thesis using None rr(4) by (auto intro: exI [of _ "1 :: nat"])
      next
        case (Some p)
        then have "wait E' o' k' (round others x) = Some r" using 1(2) eq by (simp add: round_def Let_def tb.contains)
        from 1(1) [OF this] eq rr have g: "fst r = STATUS_SUCCESS" "shutting_run E lookup k (round others x) (snd r)" "active lookup (snd r) k = None"
          "\<exists>m. snd r = (round others ^^ m) (round others x)" by blast+
        then obtain m where "snd r = (round others ^^ Suc m) x" by (auto simp: funpow_swap1)
        then show ?thesis using g rtranclp_trans [OF rr(4)] by blast
      qed
    qed
  qed
  from this [OF assms(1)] assms(2-4) show ?thesis by auto
qed

lemma wait_requests_returns:
  assumes "stream_requests k ((round others ^^ n) s) = {}" "others_along E lookup k others s" "api_inv E lookup nodes s" "shutting_down lookup s k"
  shows "\<exists>s'. wait_requests E others k s = Some (STATUS_SUCCESS, s')"
  using assms
proof (induction n arbitrary: s)
  case 0
  note rr = round_run [OF 0(2,3,4)]
  have "stream_requests k (round others s) = {}" using rr(3) 0(1) by (auto simp: no_new_request_def)
  then have "active lookup (round others s) k = None"
    using stream_requests_active [OF rr(1)] by (cases "active lookup (round others s) k") auto
  then show ?case using wait_requests_step [of others k s] by simp
next
  case (Suc n)
  note rr = round_run [OF Suc.prems(2,3,4)]
  have "stream_requests k ((round others ^^ n) (round others s)) = {}" using Suc.prems(1) by (simp add: funpow_swap1)
  from Suc.IH [OF this rr(5,1,2)] show ?case using wait_requests_step [of others k s] by auto
qed

lemma uploads_live: "api_inv E lookup nodes s \<Longrightarrow> set (uploads nodes s) \<subseteq> dom (ca_requests s)"
  unfolding api_inv_def using requests_inv_live by blast

lemma count_stream_uploads:
  assumes "api_inv E lookup nodes s"
  shows "count_uploads E k s (first_node (nodes (ca_pActiveUploads s))) 0 = Some (STATUS_SUCCESS, length (filter (\<lambda>p. p \<in> stream_requests k s) (uploads nodes s)))"
  using count_uploads_spec [of s "[]" "nodes (ca_pActiveUploads s)" k 0] uploads_live [OF assms] by (simp add: stream_requests_def)

lemma stream_requests_uploads:
  assumes inv: "api_inv E lookup nodes s" "active lookup s k = None" "\<forall>p\<in>set (uploads nodes s). p \<notin> stream_requests k s"
  shows "stream_requests k s = {}"
proof (rule stream_requests_none [OF inv(1,2)])
  fix p assume p: "p \<in> set (uploads nodes s)"
  then obtain rq where "ca_requests s p = Some rq" using uploads_live [OF inv(1)] by auto
  then show "\<exists>rq. ca_requests s p = Some rq \<and> cq_streamHandle rq \<noteq> k" using inv(3) p by (auto simp: stream_requests_def)
qed

lemma wait_uploads_step:
  assumes "api_inv E lookup nodes (round others s)"
  shows "wait_uploads E others k s =
    (if \<exists>p\<in>set (uploads nodes (round others s)). p \<in> stream_requests k (round others s) then wait_uploads E others k (round others s)
     else Some (STATUS_SUCCESS, round others s))"
  using count_stream_uploads [OF assms, of k]
  by (subst wait_uploads.simps) (auto simp: round_def [symmetric] Let_def dl.head_node filter_empty_conv)

lemma wait_uploads_end:
  assumes "wait_uploads E others k s = Some (st, s')" "others_along E lookup k others s" "api_inv E lookup nodes s" "shutting_down lookup s k"
    and "active lookup s k = None"
  shows "st = STATUS_SUCCESS \<and> shutting_run E lookup k s s' \<and> stream_requests k s' = {}"
proof -
  have "\<forall>x. s = x \<longrightarrow> E' = E \<longrightarrow> k' = k \<longrightarrow> o' = others \<longrightarrow> others_along E lookup k others x \<longrightarrow> api_inv E lookup nodes x \<longrightarrow> shutting_down lookup x k \<longrightarrow>
      active lookup x k = None \<longrightarrow> fst r = STATUS_SUCCESS \<and> shutting_run E lookup k x (snd r) \<and> stream_requests k (snd r) = {}"
    if "wait_uploads E' o' k' s = Some r" for E' o' k' s r
  proof (rule wait_uploads.raw_induct [OF _ that], goal_cases)
    case (1 wait E' o' k' s r)
    show ?case
    proof (intro allI impI)
      fix x assume eq: "s = x" "E' = E" "k' = k" "o' = others" and o: "others_along E lookup k others x"
        and i: "api_inv E lookup nodes x" "shutting_down lookup x k" and a: "active lookup x k = None"
      note rr = round_run [OF o i]
      have a': "active lookup (round others x) k = None" using rr(3) a by (simp add: no_new_request_def)
      note count = count_stream_uploads [OF rr(1), of k]
      show "fst r = STATUS_SUCCESS \<and> shutting_run E lookup k x (snd r) \<and> stream_requests k (snd r) = {}"
      proof (cases "\<forall>p\<in>set (uploads nodes (round others x)). p \<notin> stream_requests k (round others x)")
        case True
        then have "filter (\<lambda>p. p \<in> stream_requests k (round others x)) (uploads nodes (round others x)) = []" by (simp add: filter_empty_conv)
        then have "r = (STATUS_SUCCESS, round others x)" using 1(2) eq count by (simp add: round_def [symmetric] Let_def dl.head_node del: length_filter_map)
        then show ?thesis using rr(4) stream_requests_uploads [OF rr(1) a' True] by simp
      next
        case False
        then have "filter (\<lambda>p. p \<in> stream_requests k (round others x)) (uploads nodes (round others x)) \<noteq> []" by (simp add: filter_empty_conv)
        then have "wait E' o' k' (round others x) = Some r" using 1(2) eq count by (simp add: round_def [symmetric] Let_def dl.head_node del: length_filter_map)
        from 1(1) [OF this] eq rr a' show ?thesis using rtranclp_trans [OF rr(4)] by blast
      qed
    qed
  qed
  from this [OF assms(1)] assms(2-5) show ?thesis by auto
qed

lemma wait_uploads_returns:
  assumes "stream_requests k ((round others ^^ n) s) = {}" "others_along E lookup k others s" "api_inv E lookup nodes s" "shutting_down lookup s k"
  shows "\<exists>s'. wait_uploads E others k s = Some (STATUS_SUCCESS, s')"
  using assms
proof (induction n arbitrary: s)
  case 0
  note rr = round_run [OF 0(2,3,4)]
  have "stream_requests k (round others s) = {}" using rr(3) 0(1) by (auto simp: no_new_request_def)
  then show ?case using wait_uploads_step [OF rr(1)] by simp
next
  case (Suc n)
  note rr = round_run [OF Suc.prems(2,3,4)]
  have "stream_requests k ((round others ^^ n) (round others s)) = {}" using Suc.prems(1) by (simp add: funpow_swap1)
  from Suc.IH [OF this rr(5,1,2)] show ?case using wait_uploads_step [OF rr(1)] by auto
qed

text \<open>The requests of a stream that is marked do not come back.\<close>

lemma rounds_no_new:
  assumes "others_along E lookup k others s" "api_inv E lookup nodes s" "shutting_down lookup s k" "stream_requests k ((round others ^^ n) s) = {}"
  shows "stream_requests k ((round others ^^ (m + n)) s) = {}"
proof -
  have r: "shutting_run E lookup k s ((round others ^^ i) s)" for i
  proof (induction i)
    case (Suc i)
    let ?x = "(round others ^^ i) s"
    have "api_inv E lookup nodes ?x" "shutting_down lookup ?x k" using shutting_run_sound [OF Suc assms(2,3)] by blast+
    from round_run(4) [OF others_along_next [OF assms(1)] this] Suc show ?case by (simp add: rtranclp_trans [OF Suc])
  qed simp
  have i: "api_inv E lookup nodes ((round others ^^ n) s)" "shutting_down lookup ((round others ^^ n) s) k"
    using shutting_run_sound [OF r assms(2,3)] by blast+
  show ?thesis
  proof (induction m)
    case (Suc m)
    let ?x = "(round others ^^ (m + n)) s"
    have "api_inv E lookup nodes ?x" "shutting_down lookup ?x k" using shutting_run_sound [OF r assms(2,3)] by blast+
    from round_run(3) [OF others_along_next [OF assms(1)] this] Suc show ?case by (auto simp: no_new_request_def)
  qed (use assms(4) in simp)
qed

subsection \<open>The steps before\<close>

lemma stop_request_returns:
  assumes "ca_requests s p = Some rq"
  shows "\<exists>s'. stop_request timeout False False p s = Some s' \<and> only_requests s s' \<and> to_release False False p s' = Some False"
proof -
  obtain s' where s': "stop_request timeout False False p s = Some s'"
    using assms by (cases "stop_request timeout False False p s") (auto simp: stop_request_def Let_def split: if_splits prod.splits)
  have o: "only_requests s s'" using stop_request_only [OF s'] by simp
  then obtain rq' where "ca_requests s' p = Some rq'" using all_keepD [OF only_requests_frame(10) assms] by blast
  then show ?thesis using s' o by (simp add: to_release_def)
qed

lemma shutdownActiveRequests_returns:
  assumes "api_inv E lookup nodes s" "k \<noteq> ku_INVALID_STREAM (ka_curl E)"
  shows "\<exists>s'. shutdownActiveRequests E k timeout False False s = Some (STATUS_SUCCESS, s')"
proof (cases "active lookup s k")
  case None
  obtain st v where g: "hashTableGet (ka_table E) (ca_pActiveRequests s) k = (st, v)" by fastforce
  then have "st = STATUS_HASH_KEY_NOT_PRESENT" using tb.get_Some [OF g] None by auto
  then show ?thesis
    using g assms(2) by (auto simp: shutdownActiveRequests_def with_lock_Some active_entries_def IS_VALID_STREAM_HANDLE_def lock_def tb.is_empty)
next
  case (Some p)
  let ?s = "lock ActiveRequestsLock s"
  obtain rq where "ca_requests s p = Some rq" using assms(1) Some unfolding api_inv_def requests_inv_def by blast
  then obtain s1 where s1: "stop_request timeout False False p ?s = Some s1" "to_release False False p s1 = Some False"
    using stop_request_returns [of ?s p rq timeout] by (auto simp: lock_def)
  have "lookup (ca_pActiveRequests s) \<noteq> Map.empty" using Some by auto
  then show ?thesis
    using s1 assms(2) tb.get_present [OF Some] tb.is_empty [of "ca_pActiveRequests s"]
    by (auto simp: shutdownActiveRequests_def with_lock_Some active_entries_def IS_VALID_STREAM_HANDLE_def lock_def stop_entry_def chk_Some)
qed

lemma uploads_loop_returns:
  assumes "nodes (ca_pActiveUploads s) = xs @ ys" "set (map snd ys) \<subseteq> dom (ca_requests s)"
  shows "\<exists>s'. uploads_loop E k u timeout False False (first_node ys) s = Some (STATUS_SUCCESS, s')"
  using assms
proof (induction ys arbitrary: xs s)
  case Nil
  then show ?case by (simp add: uploads_loop.simps)
next
  case (Cons y ys)
  obtain e p where y: "y = (e, p)" by fastforce
  obtain rq where rq: "ca_requests s p = Some rq" using Cons.prems(2) y by auto
  obtain s1 where s1: "stop_upload E k u timeout False False e p s = Some (STATUS_SUCCESS, s1)"
  proof (cases "upload_matches E k u rq")
    case True
    then show ?thesis using stop_request_returns [OF rq, of timeout] rq that by (auto simp: stop_upload_def)
  next
    case False
    then show ?thesis using rq that by (simp add: stop_upload_def)
  qed
  have o: "only_requests s s1" using stop_upload_only [OF s1] by simp
  have "nodes (ca_pActiveUploads s1) = (xs @ [y]) @ ys" "set (map snd ys) \<subseteq> dom (ca_requests s1)"
    using Cons.prems only_requests_frame(1) [OF o] only_requests_frame(10) [OF o] by (simp_all add: all_keep_def)
  from Cons.IH [OF this] show ?case using s1 uploads_loop_node [of s xs e p ys] Cons.prems(1) y by simp
qed

lemma shutdownActiveUploads_returns:
  assumes "api_inv E lookup nodes s"
  shows "\<exists>s'. shutdownActiveUploads E k u timeout False False s = Some (STATUS_SUCCESS, s')"
  using uploads_loop_returns [of "lock ActiveUploadsLock s" "[]" "nodes (ca_pActiveUploads s)" k u timeout] uploads_live [OF assms]
  by (auto simp: shutdownActiveUploads_def with_lock_Some lock_def dl.head_node)

lemma shutdownCachedEndpoints_returns:
  assumes "api_inv E lookup nodes s"
  shows "\<exists>s'. shutdownCachedEndpoints E k True s = Some (STATUS_SUCCESS, s')"
proof -
  have ep: "endpoints_inv (lookup (ca_pCachedEndpoints s)) (ca_trackers s)" using assms by (simp add: api_inv_def)
  obtain st v where g: "hashTableGet (ka_table E) (ca_pCachedEndpoints s) k = (st, v)" by fastforce
  from tb.get_Some [OF g] show ?thesis
  proof
    assume p: "st = STATUS_SUCCESS \<and> lookup (ca_pCachedEndpoints s) k = Some v"
    obtain t where "hashTableRemove (ka_table E) (ca_pCachedEndpoints s) k = (STATUS_SUCCESS, t)" using tb.remove_present p by blast
    moreover have "ca_trackers s v \<noteq> None" using ep p by (auto simp: endpoints_inv_def ran_def)
    ultimately show ?thesis using g p by (auto simp: shutdownCachedEndpoints_def with_lock_Some lock_def Let_def)
  next
    assume "st = STATUS_HASH_KEY_NOT_PRESENT \<and> lookup (ca_pCachedEndpoints s) k = None"
    then show ?thesis using g by (auto simp: shutdownCachedEndpoints_def with_lock_Some lock_def)
  qed
qed

subsection \<open>The whole shutdown\<close>

lemma shutting_run_step: "shutting_run E lookup k s x \<Longrightarrow> api_step E x y \<Longrightarrow> shutting_down lookup y k \<Longrightarrow> shutting_run E lookup k s y"
  by (simp add: rtranclp.rtrancl_into_rtrancl)

lemma mark_run:
  assumes "with_lock ShutdownLock (\<lambda>s. Some (mark_stream E k s)) s = Some (STATUS_SUCCESS, s1)" "api_inv E lookup nodes s"
  shows "shutting_run E lookup k s s1 \<and> api_inv E lookup nodes s1 \<and> shutting_down lookup s1 k"
proof -
  have m: "api_step E s s1" by (rule api_step.mark [OF assms(1)])
  obtain st t where t: "hashTablePut (ka_table E) (ca_pStreamsShuttingDown s) k k = (st, t)" by fastforce
  then have "shutting_down lookup s1 k"
    using assms(1) tb.put_Some [OF t] by (auto simp: with_lock_Some mark_stream_def lock_def unlock_def)
  moreover have "api_inv E lookup nodes s1" using api_step_sound [OF m assms(2)] by (simp add: sound_step_def)
  ultimately show ?thesis using m by blast
qed

text \<open>The steps between the mark and the waiting keep the mark.\<close>

lemma stop_run:
  assumes "shutdownActiveRequests E k timeout False False s = Some (st1, s1)" "shutdownActiveUploads E k u timeout False False s1 = Some (st2, s2)"
    and "(if resetStream then Some (STATUS_SUCCESS, s2) else shutdownCachedEndpoints E k True s2) = Some (st3, s3)"
    and "api_inv E lookup nodes s" "shutting_down lookup s k"
  shows "shutting_run E lookup k s s3"
proof -
  have a1: "api_step E s s1" by (rule api_step.stop_requests [OF assms(1)])
  have a2: "api_step E s1 s2" by (rule api_step.stop_uploads [OF assms(2)])
  have m: "ca_pStreamsShuttingDown s2 = ca_pStreamsShuttingDown s" "ca_pStreamsShuttingDown s1 = ca_pStreamsShuttingDown s"
    using only_requests_frame(7) [OF shutdownActiveRequests_only [OF assms(1)]] only_requests_frame(7) [OF shutdownActiveUploads_only [OF assms(2)]] by simp_all
  have r2: "shutting_run E lookup k s s2"
    by (rule shutting_run_step [OF shutting_run_step [OF rtranclp.rtrancl_refl a1] a2]) (use m assms(5) in simp_all)
  have i2: "api_inv E lookup nodes s2" using shutting_run_sound [OF r2 assms(4,5)] by blast
  show ?thesis
  proof (cases resetStream)
    case True
    then show ?thesis using assms(3) r2 by simp
  next
    case False
    then have d: "shutdownCachedEndpoints E k True s2 = Some (st3, s3)" using assms(3) by simp
    obtain tb ts where "s3 = s2\<lparr>ca_pCachedEndpoints := tb, ca_trackers := ts\<rparr>" using shutdownCachedEndpoints_inv [OF d i2] by blast
    then have "shutting_down lookup s3 k" using m assms(5) by simp
    then show ?thesis by (rule shutting_run_step [OF r2 api_step.drop_endpoint [OF d]])
  qed
qed

lemma unmark_run:
  assumes "api_inv E lookup nodes s" "shutting_down lookup s k"
  shows "\<exists>s'. with_lock ShutdownLock (\<lambda>s. Some (unmark_stream E k s)) s = Some (STATUS_SUCCESS, s') \<and> api_inv E lookup nodes s' \<and>
    \<not> shutting_down lookup s' k \<and> stream_requests k s' = stream_requests k s"
proof -
  obtain v where "lookup (ca_pStreamsShuttingDown s) k = Some v" using assms(2) by blast
  then obtain t where t: "hashTableRemove (ka_table E) (ca_pStreamsShuttingDown s) k = (STATUS_SUCCESS, t)"
    "lookup t = (lookup (ca_pStreamsShuttingDown s))(k := None)" using tb.remove_present by blast
  then have "with_lock ShutdownLock (\<lambda>s. Some (unmark_stream E k s)) s = Some (STATUS_SUCCESS, s\<lparr>ca_pStreamsShuttingDown := t\<rparr>)"
    by (simp add: with_lock_Some unmark_stream_def lock_def unlock_def)
  moreover have "api_inv E lookup nodes (s\<lparr>ca_pStreamsShuttingDown := t\<rparr>)" using assms(1) by (simp add: api_inv_def)
  ultimately show ?thesis using t(2) by (auto simp: stream_requests_def)
qed

lemma stop_stream_parts:
  assumes "stop_stream E k resetStream s = Some (STATUS_SUCCESS, s4)"
  obtains s1 s2 s3 where "with_lock ShutdownLock (\<lambda>s. Some (mark_stream E k s)) s = Some (STATUS_SUCCESS, s1)"
    "shutdownActiveRequests E k CURL_API_CALLBACKS_SHUTDOWN_TIMEOUT False False s1 = Some (STATUS_SUCCESS, s2)"
    "shutdownActiveUploads E k (kc_INVALID_UPLOAD_HANDLE_VALUE (ka_consts E)) CURL_API_CALLBACKS_SHUTDOWN_TIMEOUT False False s2 = Some (STATUS_SUCCESS, s3)"
    "(if resetStream then Some (STATUS_SUCCESS, s3) else shutdownCachedEndpoints E k True s3) = Some (STATUS_SUCCESS, s4)"
  using assms unfolding stop_stream_def by (auto simp only: chk_Some)

lemma stop_stream_run:
  assumes "stop_stream E k resetStream s = Some (STATUS_SUCCESS, s4)" "with_lock ShutdownLock (\<lambda>s. Some (mark_stream E k s)) s = Some (STATUS_SUCCESS, s1)"
    and "api_inv E lookup nodes s"
  shows "shutting_run E lookup k s1 s4 \<and> api_inv E lookup nodes s4 \<and> shutting_down lookup s4 k"
proof -
  have m: "api_inv E lookup nodes s1" "shutting_down lookup s1 k" using mark_run [OF assms(2,3)] by blast+
  from assms(1) have "shutting_run E lookup k s1 s4"
  proof (cases rule: stop_stream_parts)
    case (1 s1' s2 s3)
    from this(1) assms(2) have "s1' = s1" by simp
    then show ?thesis using stop_run [OF 1(2,3,4)] m by simp
  qed
  then show ?thesis using shutting_run_sound [OF _ m] by blast
qed

lemma stop_stream_returns:
  assumes "with_lock ShutdownLock (\<lambda>s. Some (mark_stream E k s)) s = Some (STATUS_SUCCESS, s1)" "api_inv E lookup nodes s"
    and "k \<noteq> ku_INVALID_STREAM (ka_curl E)"
  shows "\<exists>s4. stop_stream E k resetStream s = Some (STATUS_SUCCESS, s4)"
proof -
  have i1: "api_inv E lookup nodes s1" using mark_run [OF assms(1,2)] by blast
  obtain s2 where c2: "shutdownActiveRequests E k CURL_API_CALLBACKS_SHUTDOWN_TIMEOUT False False s1 = Some (STATUS_SUCCESS, s2)"
    using shutdownActiveRequests_returns [OF i1 assms(3)] by blast
  have i2: "api_inv E lookup nodes s2" by (rule only_requests_inv [OF shutdownActiveRequests_only [OF c2] i1])
  obtain s3 where c3: "shutdownActiveUploads E k (kc_INVALID_UPLOAD_HANDLE_VALUE (ka_consts E)) CURL_API_CALLBACKS_SHUTDOWN_TIMEOUT False False s2 = Some (STATUS_SUCCESS, s3)"
    using shutdownActiveUploads_returns [OF i2] by blast
  have i3: "api_inv E lookup nodes s3" by (rule only_requests_inv [OF shutdownActiveUploads_only [OF c3] i2])
  obtain s4 where "(if resetStream then Some (STATUS_SUCCESS, s3) else shutdownCachedEndpoints E k True s3) = Some (STATUS_SUCCESS, s4)"
    using shutdownCachedEndpoints_returns [OF i3] by (cases resetStream) auto
  then show ?thesis using assms(1) c2 c3 by (simp add: stop_stream_def)
qed

lemma shutdown_stream_end:
  assumes run: "shutdown_stream E others k resetStream s = Some (STATUS_SUCCESS, s')"
    and stop: "stop_stream E k resetStream s = Some (STATUS_SUCCESS, s4)" and others: "others_along E lookup k others s4"
    and inv: "api_inv E lookup nodes s" and unmarked: "\<not> shutting_down lookup s k"
  shows "api_inv E lookup nodes s' \<and> stream_requests k s' = {} \<and> \<not> shutting_down lookup s' k"
proof -
  obtain s5 s6 where c: "wait_requests E others k s4 = Some (STATUS_SUCCESS, s5)" "wait_uploads E others k s5 = Some (STATUS_SUCCESS, s6)"
      "with_lock ShutdownLock (\<lambda>s. Some (unmark_stream E k s)) s6 = Some (STATUS_SUCCESS, s')"
    using run unmarked stop unfolding shutdown_stream_def by (simp add: tb.contains chk_Some) blast
  obtain s1 where "with_lock ShutdownLock (\<lambda>s. Some (mark_stream E k s)) s = Some (STATUS_SUCCESS, s1)" using stop by (rule stop_stream_parts)
  from stop_stream_run [OF stop this inv] have i4: "api_inv E lookup nodes s4" "shutting_down lookup s4 k" by blast+
  obtain m where w5: "shutting_run E lookup k s4 s5" "active lookup s5 k = None" and m: "s5 = (round others ^^ m) s4"
    using wait_requests_end [OF c(1) others i4] by blast
  have i5: "api_inv E lookup nodes s5" "shutting_down lookup s5 k" using shutting_run_sound [OF w5(1) i4] by blast+
  have o5: "others_along E lookup k others s5" unfolding m by (rule others_along_next [OF others])
  have w6: "shutting_run E lookup k s5 s6" "stream_requests k s6 = {}" using wait_uploads_end [OF c(2) o5 i5 w5(2)] by blast+
  have i6: "api_inv E lookup nodes s6" "shutting_down lookup s6 k" using shutting_run_sound [OF w6(1) i5] by blast+
  show ?thesis using unmark_run [OF i6] c(3) w6(2) by auto
qed

lemma shutdown_stream_returns:
  assumes stop: "stop_stream E k resetStream s = Some (STATUS_SUCCESS, s4)" and others: "others_along E lookup k others s4"
    and finish: "stream_requests k ((round others ^^ n) s4) = {}" and inv: "api_inv E lookup nodes s" and unmarked: "\<not> shutting_down lookup s k"
  shows "\<exists>s'. shutdown_stream E others k resetStream s = Some (STATUS_SUCCESS, s')"
proof -
  obtain s1 where "with_lock ShutdownLock (\<lambda>s. Some (mark_stream E k s)) s = Some (STATUS_SUCCESS, s1)" using stop by (rule stop_stream_parts)
  from stop_stream_run [OF stop this inv] have i4: "api_inv E lookup nodes s4" "shutting_down lookup s4 k" by blast+
  obtain s5 where c5: "wait_requests E others k s4 = Some (STATUS_SUCCESS, s5)" using wait_requests_returns [OF finish others i4] by blast
  then obtain m where w5: "shutting_run E lookup k s4 s5" "active lookup s5 k = None" and m: "s5 = (round others ^^ m) s4"
    using wait_requests_end [OF c5 others i4] by blast
  have i5: "api_inv E lookup nodes s5" "shutting_down lookup s5 k" using shutting_run_sound [OF w5(1) i4] by blast+
  have o5: "others_along E lookup k others s5" unfolding m by (rule others_along_next [OF others])
  have "(round others ^^ n) s5 = (round others ^^ (m + n)) s4" unfolding m by (simp add: funpow_add add.commute [of m])
  then have "stream_requests k ((round others ^^ n) s5) = {}" using rounds_no_new [OF others i4 finish] by simp
  from wait_uploads_returns [OF this o5 i5] obtain s6 where c6: "wait_uploads E others k s5 = Some (STATUS_SUCCESS, s6)" by blast
  have "shutting_run E lookup k s5 s6" using wait_uploads_end [OF c6 o5 i5 w5(2)] by blast
  then have i6: "api_inv E lookup nodes s6" "shutting_down lookup s6 k" using shutting_run_sound [OF _ i5] by blast+
  obtain s7 where "with_lock ShutdownLock (\<lambda>s. Some (unmark_stream E k s)) s6 = Some (STATUS_SUCCESS, s7)" using unmark_run [OF i6] by blast
  then show ?thesis using unmarked stop c5 c6 by (simp add: shutdown_stream_def tb.contains)
qed

end

subsection \<open>The shutdown of everything\<close>

text \<open>Here the other threads may do anything.\<close>

definition others_any ::
    "('h, 'd, 'e, 'l, 'n, 'q, 'x) api_env \<Rightarrow> ('h, 'd, 'l, 'q, 'x) others \<Rightarrow> ('h, 'd, 'l, 'q, 'x) CurlApiCallbacks \<Rightarrow> bool" where
  "others_any E others s \<longleftrightarrow> (\<forall>x. (api_step E)\<^sup>*\<^sup>* s x \<longrightarrow> (api_step E)\<^sup>*\<^sup>* x (others x))"

lemma others_any_from: "others_any E others s \<Longrightarrow> (api_step E)\<^sup>*\<^sup>* s x \<Longrightarrow> others_any E others x"
  unfolding others_any_def using rtranclp_trans [of "api_step E"] by blast

lemma others_any_round: "others_any E others s \<Longrightarrow> (api_step E)\<^sup>*\<^sup>* s (round others s)"
proof -
  assume "others_any E others s"
  then have "(api_step E)\<^sup>*\<^sup>* s (others s)" unfolding others_any_def by blast
  moreover have "api_step E (others s) (round others s)" unfolding round_def sleep_def by (rule elsewhere)
  ultimately show ?thesis by (rule rtranclp.rtrancl_into_rtrancl)
qed

context api_tables
begin

lemma api_run_inv: "(api_step E)\<^sup>*\<^sup>* s s' \<Longrightarrow> api_inv E lookup nodes s \<Longrightarrow> api_inv E lookup nodes s'"
proof (induction rule: rtranclp_induct)
  case (step x y)
  then show ?case using api_step_sound by (simp add: sound_step_def)
qed

lemma wait_no_requests_end:
  assumes "wait_no_requests E others s = Some (st, s')" "others_any E others s"
  shows "st = STATUS_SUCCESS \<and> (api_step E)\<^sup>*\<^sup>* s s' \<and> active lookup s' = Map.empty"
proof -
  have "\<forall>x. s = x \<longrightarrow> E' = E \<longrightarrow> o' = others \<longrightarrow> others_any E others x \<longrightarrow>
      fst r = STATUS_SUCCESS \<and> (api_step E)\<^sup>*\<^sup>* x (snd r) \<and> active lookup (snd r) = Map.empty"
    if "wait_no_requests E' o' s = Some r" for E' o' s r
  proof (rule wait_no_requests.raw_induct [OF _ that], goal_cases)
    case (1 wait E' o' s r)
    show ?case
    proof (intro allI impI)
      fix x assume eq: "s = x" "E' = E" "o' = others" and o: "others_any E others x"
      note step = others_any_round [OF o]
      show "fst r = STATUS_SUCCESS \<and> (api_step E)\<^sup>*\<^sup>* x (snd r) \<and> active lookup (snd r) = Map.empty"
      proof (cases "active lookup (round others x) = Map.empty")
        case True
        then have "r = (STATUS_SUCCESS, round others x)" using 1(2) eq by (simp add: round_def Let_def tb.is_empty)
        then show ?thesis using True step by simp
      next
        case False
        then have "wait E' o' (round others x) = Some r" using 1(2) eq by (simp add: round_def Let_def tb.is_empty)
        from 1(1) [OF this] eq others_any_from [OF o step] show ?thesis using rtranclp_trans [OF step] by blast
      qed
    qed
  qed
  from this [OF assms(1)] assms(2) show ?thesis by auto
qed

lemma wait_no_uploads_end:
  assumes "wait_no_uploads E others s = Some (st, s')" "others_any E others s"
  shows "st = STATUS_SUCCESS \<and> (api_step E)\<^sup>*\<^sup>* s s' \<and> nodes (ca_pActiveUploads s') = []"
proof -
  have "\<forall>x. s = x \<longrightarrow> E' = E \<longrightarrow> o' = others \<longrightarrow> others_any E others x \<longrightarrow>
      fst r = STATUS_SUCCESS \<and> (api_step E)\<^sup>*\<^sup>* x (snd r) \<and> nodes (ca_pActiveUploads (snd r)) = []"
    if "wait_no_uploads E' o' s = Some r" for E' o' s r
  proof (rule wait_no_uploads.raw_induct [OF _ that], goal_cases)
    case (1 wait E' o' s r)
    show ?case
    proof (intro allI impI)
      fix x assume eq: "s = x" "E' = E" "o' = others" and o: "others_any E others x"
      note step = others_any_round [OF o]
      show "fst r = STATUS_SUCCESS \<and> (api_step E)\<^sup>*\<^sup>* x (snd r) \<and> nodes (ca_pActiveUploads (snd r)) = []"
      proof (cases "nodes (ca_pActiveUploads (round others x)) = []")
        case True
        then have "r = (STATUS_SUCCESS, round others x)" using 1(2) eq by (simp add: round_def Let_def dl.node_count)
        then show ?thesis using True step by simp
      next
        case False
        then have "wait E' o' (round others x) = Some r" using 1(2) eq by (simp add: round_def Let_def dl.node_count)
        from 1(1) [OF this] eq others_any_from [OF o step] show ?thesis using rtranclp_trans [OF step] by blast
      qed
    qed
  qed
  from this [OF assms(1)] assms(2) show ?thesis by auto
qed

lemma wait_no_requests_now:
  "active lookup (round others s) = Map.empty \<Longrightarrow> wait_no_requests E others s = Some (STATUS_SUCCESS, round others s)"
  by (subst wait_no_requests.simps) (simp add: round_def Let_def tb.is_empty)

lemma wait_no_uploads_now:
  "nodes (ca_pActiveUploads (round others s)) = [] \<Longrightarrow> wait_no_uploads E others s = Some (STATUS_SUCCESS, round others s)"
  by (subst wait_no_uploads.simps) (simp add: round_def Let_def dl.node_count)

lemma stop_all_run:
  assumes "stop_all E timeout s = Some (STATUS_SUCCESS, s3)"
  shows "(api_step E)\<^sup>*\<^sup>* s s3"
proof -
  let ?s = "s\<lparr>ca_shutdown := True, ca_shutdownTimeout := timeout\<rparr>"
  obtain s1 s2 where
    c: "with_lock ShutdownLock (\<lambda>s. iterate_table (curlApiCallbacksMarkStreamShuttingdownCallback E)
               (hashTableEntries (ka_table E) (ca_pActiveRequests s)) s) ?s = Some (STATUS_SUCCESS, s1)"
      "shutdownActiveRequests E (ku_INVALID_STREAM (ka_curl E)) (ca_shutdownTimeout s1) False False s1 = Some (STATUS_SUCCESS, s2)"
      "shutdownActiveUploads E (ku_INVALID_STREAM (ka_curl E)) (kc_INVALID_UPLOAD_HANDLE_VALUE (ka_consts E)) timeout False False s2 = Some (STATUS_SUCCESS, s3)"
    using assms unfolding stop_all_def by (auto simp only: chk_Some)
  have "api_step E s ?s" by (rule shut_down)
  moreover have "api_step E ?s s1" by (rule mark_all [OF c(1)])
  moreover have "api_step E s1 s2" by (rule stop_requests [OF c(2)])
  moreover have "api_step E s2 s3" by (rule stop_uploads [OF c(3)])
  ultimately show ?thesis by (meson rtranclp.rtrancl_into_rtrancl rtranclp.rtrancl_refl)
qed

lemma shutdown_all_end:
  assumes run: "shutdown_all E others timeout s = Some (STATUS_SUCCESS, s')" and "\<not> ca_shutdown s" "others_any E others s" "api_inv E lookup nodes s"
  obtains x where "(api_step E)\<^sup>*\<^sup>* s x" "active lookup x = Map.empty" "(api_step E)\<^sup>*\<^sup>* x s'" "nodes (ca_pActiveUploads s') = []"
    "lookup (ca_pCachedEndpoints s') = Map.empty"
proof -
  obtain s3 s4 s5 where
    c: "stop_all E timeout s = Some (STATUS_SUCCESS, s3)"
      "wait_no_requests E others s3 = Some (STATUS_SUCCESS, s4)" "wait_no_uploads E others s4 = Some (STATUS_SUCCESS, s5)"
      "with_lock CachedEndpointsLock (clear_endpoints E) s5 = Some (STATUS_SUCCESS, s')"
    using run assms(2) unfolding shutdown_all_def by (auto simp: chk_Some)
  have r3: "(api_step E)\<^sup>*\<^sup>* s s3" by (rule stop_all_run [OF c(1)])
  have w4: "(api_step E)\<^sup>*\<^sup>* s3 s4" "active lookup s4 = Map.empty"
    using wait_no_requests_end [OF c(2) others_any_from [OF assms(3) r3]] by blast+
  have r4: "(api_step E)\<^sup>*\<^sup>* s s4" using r3 w4(1) by (rule rtranclp_trans)
  have w5: "(api_step E)\<^sup>*\<^sup>* s4 s5" "nodes (ca_pActiveUploads s5) = []"
    using wait_no_uploads_end [OF c(3) others_any_from [OF assms(3) r4]] by blast+
  have i5: "api_inv E lookup nodes s5" by (rule api_run_inv [OF rtranclp_trans [OF r4 w5(1)] assms(4)])
  from clear_cache_spec [OF i5 c(4)] have "nodes (ca_pActiveUploads s') = []" "lookup (ca_pCachedEndpoints s') = Map.empty"
    using w5(2) by auto
  moreover have "(api_step E)\<^sup>*\<^sup>* s4 s'" using w5(1) clear_cache [OF c(4)] by (rule rtranclp.rtrancl_into_rtrancl)
  ultimately show ?thesis using that r4 w4(2) by blast
qed

text \<open>A mark that is there already ends the shutdown of everything.\<close>

lemma mark_entries_present:
  assumes "for_entries (\<lambda>e pcb. curlApiCallbacksMarkStreamShuttingdownCallback E pcb (Some e)) es (Some s) = Some (st, r)"
    and "(k, v) \<in> set es" "lookup (ca_pStreamsShuttingDown s) k \<noteq> None"
  shows "st \<noteq> STATUS_SUCCESS"
  using assms
proof (induction es arbitrary: s)
  case (Cons e es)
  show ?case
  proof (cases "ca_pCallbacksProvider s")
    case None
    then show ?thesis using Cons.prems(1) by (simp add: curlApiCallbacksMarkStreamShuttingdownCallback_def with_callbacks_def)
  next
    case (Some pr)
    obtain st1 t where t: "hashTablePut (ka_table E) (ca_pStreamsShuttingDown s) (fst e) (fst e) = (st1, t)" by fastforce
    let ?s = "s\<lparr>ca_pStreamsShuttingDown := t\<rparr>"
    have c: "curlApiCallbacksMarkStreamShuttingdownCallback E (Some s) (Some e) = Some (st1, Some ?s)"
      using Some t by (simp add: curlApiCallbacksMarkStreamShuttingdownCallback_def with_callbacks_def)
    show ?thesis
    proof (cases "st1 = STATUS_SUCCESS")
      case True
      then have p: "lookup (ca_pStreamsShuttingDown s) (fst e) = None" "lookup t = (lookup (ca_pStreamsShuttingDown s))(fst e \<mapsto> fst e)"
        using tb.put_Some [OF t] by blast+
      have "fst e \<noteq> k" using p(1) Cons.prems(3) by blast
      then have "(k, v) \<in> set es" using Cons.prems(2) by auto
      moreover have "lookup (ca_pStreamsShuttingDown ?s) k \<noteq> None" using p(2) Cons.prems(3) by simp
      moreover have "for_entries (\<lambda>e pcb. curlApiCallbacksMarkStreamShuttingdownCallback E pcb (Some e)) es (Some ?s) = Some (st, r)"
        using Cons.prems(1) c True by simp
      ultimately show ?thesis using Cons.IH by blast
    next
      case False
      then show ?thesis using Cons.prems(1) c by simp
    qed
  qed
qed simp

lemma mark_entries_returns:
  "ca_pCallbacksProvider s \<noteq> None \<Longrightarrow>
    \<exists>r. for_entries (\<lambda>e pcb. curlApiCallbacksMarkStreamShuttingdownCallback E pcb (Some e)) es (Some s) = Some r"
proof (induction es arbitrary: s)
  case (Cons e es)
  then show ?case
    by (auto simp: curlApiCallbacksMarkStreamShuttingdownCallback_def with_callbacks_def chk_def split: prod.splits)
qed simp

lemma shutdown_all_marked:
  assumes "ca_pCallbacksProvider s \<noteq> None" "\<not> ca_shutdown s" "active lookup s k \<noteq> None" "lookup (ca_pStreamsShuttingDown s) k \<noteq> None"
  obtains st t where "shutdown_all E others timeout s =
      Some (st, s\<lparr>ca_shutdown := True, ca_shutdownTimeout := timeout, ca_pStreamsShuttingDown := t\<rparr>)" "st \<noteq> STATUS_SUCCESS"
proof -
  let ?s = "lock ShutdownLock (s\<lparr>ca_shutdown := True, ca_shutdownTimeout := timeout\<rparr>)"
  let ?es = "hashTableEntries (ka_table E) (ca_pActiveRequests s)"
  have "ca_pCallbacksProvider ?s \<noteq> None" using assms(1) by (simp add: lock_def)
  from mark_entries_returns [OF this] obtain st r where
    r: "for_entries (\<lambda>e pcb. curlApiCallbacksMarkStreamShuttingdownCallback E pcb (Some e)) ?es (Some ?s) = Some (st, r)" by fastforce
  obtain v where "(k, v) \<in> set ?es" using assms(3) tb.entries [of "ca_pActiveRequests s"] by auto
  then have st: "st \<noteq> STATUS_SUCCESS" by (rule mark_entries_present [OF r]) (simp add: lock_def assms(4))
  obtain t where "r = Some (?s\<lparr>ca_pStreamsShuttingDown := t\<rparr>)" using mark_entries [OF r] by blast
  then have "with_lock ShutdownLock (\<lambda>s. iterate_table (curlApiCallbacksMarkStreamShuttingdownCallback E)
               (hashTableEntries (ka_table E) (ca_pActiveRequests s)) s) (s\<lparr>ca_shutdown := True, ca_shutdownTimeout := timeout\<rparr>) =
      Some (st, s\<lparr>ca_shutdown := True, ca_shutdownTimeout := timeout, ca_pStreamsShuttingDown := t\<rparr>)"
    using r by (simp add: with_lock_def iterate_table_def lock_def unlock_def)
  then show ?thesis using that st assms(2) by (simp add: shutdown_all_def stop_all_def)
qed

end

end
