(* ===== verification/Curl_Answers.thy ===== *)
theory Curl_Answers
  imports Curl_Handlers Json_Tokens
begin

text \<open>
  What the handlers find in the answers of the service: the tokenizer finds the tokens of a JSON text,
  and the loops over the tokens find the members of the object.
\<close>

subsection \<open>Tokens of a printed object\<close>

lemma token_text_at: "at js len a s \<Longrightarrow> token_text js \<lparr>tok_type = ty, tok_start = int a, tok_end = int (a + length s), tok_size = n\<rparr> = s"
  by (simp add: at_def token_text_def substring_def nat_add_distrib)

lemma compare_at:
  "at js len a s \<Longrightarrow> compareJsonString js \<lparr>tok_type = ty, tok_start = int a, tok_end = int (a + length s), tok_size = n\<rparr> ty' k \<longleftrightarrow> ty = ty' \<and> s = k"
  by (subst compareJsonString_iff) (auto simp: token_text_at at_def simp del: of_nat_add simp flip: of_nat_add)

lemma at_quote: "at js len a (quote k) \<Longrightarrow> at js len (a + 1) k"
  by (simp add: quote_def at_Cons at_append)

lemma string_token_text: "at js len a (quote k) \<Longrightarrow> token_text js (string_token a k n) = k"
  using token_text_at [OF at_quote, of js len a k JSMN_STRING "int n"] by (simp add: string_token_def add.commute)

lemma string_token_compare: "at js len a (quote k) \<Longrightarrow> compareJsonString js (string_token a k n) JSMN_STRING s \<longleftrightarrow> k = s"
  using compare_at [OF at_quote, of js len a k JSMN_STRING "int n" JSMN_STRING s] by (simp add: string_token_def add.commute)

text \<open>A value without parts, and its text.\<close>

fun scalar :: "json \<Rightarrow> bool" where
  "scalar (JPrim s) \<longleftrightarrow> True"
| "scalar (JStr s) \<longleftrightarrow> True"
| "scalar _ \<longleftrightarrow> False"

fun scalar_text :: "json \<Rightarrow> string" where
  "scalar_text (JPrim s) = s"
| "scalar_text (JStr s) = s"
| "scalar_text _ = []"

lemma scalar_token:
  assumes "scalar v" "at js len a (print_json v)"
  shows "\<exists>t. json_tokens a v = [t] \<and> token_text js t = scalar_text v \<and> (\<forall>s. compareJsonString js t JSMN_STRING s \<longleftrightarrow> v = JStr s)"
proof (cases v)
  case (JPrim s)
  then show ?thesis
    using assms(2) token_text_at [of js len a s] compare_at [of js len a s] by (simp add: container_token_def)
next
  case (JStr s)
  then show ?thesis using assms(2) by (simp add: string_token_text string_token_compare)
qed (use assms(1) in auto)

text \<open>
  The strings of a value: of a value with parts also those of the parts and the names of the members.
  The loops of the handlers take each token by itself, so that any of these strings could be taken for
  a name that they look for.
\<close>

fun json_strings :: "json \<Rightarrow> string list"
  and elem_strings :: "json list \<Rightarrow> string list"
  and member_strings :: "(string \<times> json) list \<Rightarrow> string list" where
  "json_strings (JPrim s) = []"
| "json_strings (JStr s) = [s]"
| "json_strings (JArr vs) = elem_strings vs"
| "json_strings (JObj ms) = member_strings ms"
| "elem_strings [] = []"
| "elem_strings (v # vs) = json_strings v @ elem_strings vs"
| "member_strings [] = []"
| "member_strings ((k, v) # ms) = k # json_strings v @ member_strings ms"

lemma container_no_string: "ty \<noteq> JSMN_STRING \<Longrightarrow> \<not> compareJsonString js (container_token ty a s n) JSMN_STRING k"
  by (auto simp: compareJsonString_def container_token_def)

lemma string_tokens:
  "\<lbrakk>at js len a (print_json v); s \<notin> set (json_strings v); t \<in> set (json_tokens a v)\<rbrakk> \<Longrightarrow> \<not> compareJsonString js t JSMN_STRING s"
  "\<lbrakk>vs \<noteq> [] \<Longrightarrow> at js len a (print_elems vs); s \<notin> set (elem_strings vs); t \<in> set (elem_tokens a vs)\<rbrakk> \<Longrightarrow>
    \<not> compareJsonString js t JSMN_STRING s"
  "\<lbrakk>ms \<noteq> [] \<Longrightarrow> at js len a (print_members ms); s \<notin> set (member_strings ms); t \<in> set (member_tokens a ms)\<rbrakk> \<Longrightarrow>
    \<not> compareJsonString js t JSMN_STRING s"
proof (induction a v and a vs and a ms rule: json_tokens_elem_tokens_member_tokens.induct)
  case (2 a s')
  then show ?case by (auto simp: string_token_compare)
next
  case (6 a v vs)
  then show ?case by (auto simp: at_append at_Cons split: if_splits)
next
  case (8 a k v ms)
  have "at js len a (quote k)" "at js len (a + length k + 3) (print_json v)"
      "ms \<noteq> [] \<Longrightarrow> at js len (a + length k + 3 + length (print_json v) + 1) (print_members ms)"
    using "8.prems"(1) by (auto simp: at_append at_Cons quote_def numeral_3_eq_3 split: if_splits)
  then show ?case using "8.IH" "8.prems"(2,3) by (auto simp: string_token_compare)
qed (auto simp: container_no_string at_Cons at_append)

lemma answer_tokens_json:
  assumes "json_ok (JObj ms)" "ms \<noteq> []" "length (json_tokens 0 (JObj ms)) \<le> MAX_JSON_TOKEN_COUNT" "length (print_json (JObj ms)) < 2 ^ 31"
  shows "answer_tokens (print_json (JObj ms) @ rest) (length (print_json (JObj ms))) = Some (STATUS_SUCCESS, json_tokens 0 (JObj ms))"
proof -
  have "1 < length (json_tokens 0 (JObj ms))" using assms(2) by (cases ms) auto
  moreover have "tok_type (json_tokens 0 (JObj ms) ! 0) = JSMN_OBJECT" by (simp add: container_token_def)
  ultimately show ?thesis
    unfolding answer_tokens_def using jsmn_tokens_of_json [OF assms(1,3,4), of rest] by (simp del: json_tokens.simps print_json.simps)
qed

subsection \<open>One value of a flat object\<close>

text \<open>The members in front of the one that is looked for are neither keys nor texts that are the key.\<close>

definition other_member :: "string \<Rightarrow> string \<times> json \<Rightarrow> bool" where
  "other_member key m \<longleftrightarrow> scalar (snd m) \<and> fst m \<noteq> key \<and> snd m \<noteq> JStr key"

lemma find_value_members:
  assumes "at js len a (print_members (ms @ (key, v) # rest))" "\<forall>m\<in>set ms. other_member key m" "scalar v"
    and "tokens = pre @ member_tokens a (ms @ (key, v) # rest)"
  shows "find_value js tokens key maxLen (length pre) =
    Some (if length (scalar_text v) \<le> maxLen then (STATUS_SUCCESS, Some (scalar_text v)) else (STATUS_INVALID_API_CALL_RETURN_JSON, None))"
  using assms
proof (induction ms arbitrary: a pre)
  case Nil
  have at: "at js len a (quote key)" "at js len (a + length key + 3) (print_json v)"
    using Nil.prems(1) by (auto simp: at_append at_Cons quote_def numeral_3_eq_3)
  obtain t where t: "json_tokens (a + length key + 3) v = [t]" "token_text js t = scalar_text v"
    using scalar_token [OF Nil.prems(3) at(2)] by blast
  show ?case
    by (subst find_value.simps) (simp add: Nil.prems(4) t string_token_compare [OF at(1)] value_at_def nth_append)
next
  case (Cons m ms)
  obtain k w where m: "m = (k, w)" "scalar w" "k \<noteq> key" "w \<noteq> JStr key"
    using Cons.prems(2) by (cases m) (auto simp: other_member_def)
  define b where "b = a + length k + 3"
  have at: "at js len a (quote k)" "at js len b (print_json w)"
      "at js len (b + length (print_json w) + 1) (print_members (ms @ (key, v) # rest))"
    using Cons.prems(1) by (auto simp: m b_def at_append at_Cons quote_def numeral_3_eq_3 split: if_splits)
  obtain t where t: "json_tokens b w = [t]" "\<not> compareJsonString js t JSMN_STRING key"
    using scalar_token [OF m(2) at(2)] m(4) by blast
  have tokens: "tokens = (pre @ [string_token a k 1, t]) @ member_tokens (b + length (print_json w) + 1) (ms @ (key, v) # rest)"
    using Cons.prems(4) t(1) by (simp add: m b_def)
  have "find_value js tokens key maxLen (length pre) = find_value js tokens key maxLen (length (pre @ [string_token a k 1, t]))"
    by (subst find_value.simps, subst find_value.simps)
      (simp add: tokens nth_append string_token_compare [OF at(1)] t(2) m(3))
  also have "\<dots> = Some (if length (scalar_text v) \<le> maxLen then (STATUS_SUCCESS, Some (scalar_text v)) else (STATUS_INVALID_API_CALL_RETURN_JSON, None))"
    by (rule Cons.IH [OF at(3) _ Cons.prems(3) tokens]) (use Cons.prems(2) in simp)
  finally show ?case .
qed

theorem answer_value_found:
  assumes "json_ok (JObj (ms @ (key, v) # rest))" "\<forall>m\<in>set ms. other_member key m" "scalar v" "length (scalar_text v) \<le> maxLen"
    and "length (json_tokens 0 (JObj (ms @ (key, v) # rest))) \<le> MAX_JSON_TOKEN_COUNT"
    and "length (print_json (JObj (ms @ (key, v) # rest))) < 2 ^ 31"
  shows "answer_value (Some (print_json (JObj (ms @ (key, v) # rest)) @ tail)) (length (print_json (JObj (ms @ (key, v) # rest)))) key maxLen =
    Some (STATUS_SUCCESS, Some (scalar_text v))"
proof -
  define js len where "js = print_json (JObj (ms @ (key, v) # rest)) @ tail" and "len = length (print_json (JObj (ms @ (key, v) # rest)))"
  have "at js len 0 (print_json (JObj (ms @ (key, v) # rest)))" by (simp add: at_def js_def len_def)
  then have at: "at js len 1 (print_members (ms @ (key, v) # rest))" by (simp add: at_Cons at_append)
  have "find_value js (json_tokens 0 (JObj (ms @ (key, v) # rest))) key maxLen (length [json_tokens 0 (JObj (ms @ (key, v) # rest)) ! 0]) =
      Some (STATUS_SUCCESS, Some (scalar_text v))"
    by (subst find_value_members [OF at assms(2,3)]) (use assms(4) in auto)
  then show ?thesis
    using answer_tokens_json [OF assms(1) _ assms(5,6), of tail]
    by (simp add: answer_value_def js_def len_def del: json_tokens.simps print_json.simps)
qed

subsection \<open>The description of a stream\<close>

text \<open>What the loop makes of the members, one after the other.\<close>

fun store_members ::
    "api_consts \<Rightarrow> (string \<Rightarrow> STATUS \<times> UINT64) \<Rightarrow> (string \<times> json) list \<Rightarrow> StreamDescription \<Rightarrow> STATUS \<times> StreamDescription" where
  "store_members C strtoui64 [] sd = (STATUS_SUCCESS, sd)"
| "store_members C strtoui64 ((k, v) # ms) sd =
     (if k \<notin> set description_keys then store_members C strtoui64 ms sd
      else (case store_member C strtoui64 k (scalar_text v) sd of (st, sd') \<Rightarrow>
        if STATUS_FAILED st then (st, sd') else store_members C strtoui64 ms sd'))"

text \<open>
  A member that the loop takes for what it is: the value of a known name has no parts, and in the value
  of another name, which may be any value, no string is a known name.
\<close>

definition plain_member :: "string \<times> json \<Rightarrow> bool" where
  "plain_member m \<longleftrightarrow>
     (if fst m \<in> set description_keys then scalar (snd m) else set (json_strings (snd m)) \<inter> set description_keys = {})"

lemma find_key: "\<forall>s. P s \<longleftrightarrow> s = k \<Longrightarrow> find P ks = (if k \<in> set ks then Some k else None)"
  by (induction ks) auto

lemma creation_time: "store_member C f ''CreationTime'' v sd = (STATUS_SUCCESS, sd)"
  by (simp add: store_member_def)

lemma describe_skips:
  "\<forall>t\<in>set ts. find (compareJsonString js t JSMN_STRING) description_keys = None \<Longrightarrow>
    describe_loop C f js (pre @ ts @ post) (length pre) True sd = describe_loop C f js (pre @ ts @ post) (length (pre @ ts)) True sd"
proof (induction ts arbitrary: pre)
  case (Cons t ts)
  then show ?case using Cons.IH [of "pre @ [t]"] by (subst describe_loop.simps) (simp add: nth_append)
qed simp

lemma describe_members:
  assumes "ms \<noteq> [] \<Longrightarrow> at js len a (print_members ms)" "\<forall>m\<in>set ms. plain_member m" "tokens = pre @ member_tokens a ms"
  shows "describe_loop C f js tokens (length pre) True sd = Some (case store_members C f ms sd of (st, sd') \<Rightarrow> (st, True, sd'))"
  using assms
proof (induction ms arbitrary: a pre sd)
  case Nil
  then show ?case by (subst describe_loop.simps) simp
next
  case (Cons m ms)
  obtain k w where m: "m = (k, w)" "k \<in> set description_keys \<Longrightarrow> scalar w"
      "k \<notin> set description_keys \<Longrightarrow> set (json_strings w) \<inter> set description_keys = {}"
    using Cons.prems(2) by (cases m) (simp add: plain_member_def split: if_splits)
  define b where "b = a + length k + 3"
  have at: "at js len a (quote k)" "at js len b (print_json w)"
      "ms \<noteq> [] \<Longrightarrow> at js len (b + length (print_json w) + 1) (print_members ms)"
    using Cons.prems(1) by (auto simp: m b_def at_append at_Cons quote_def numeral_3_eq_3 split: if_splits)
  define post where "post = member_tokens (b + length (print_json w) + 1) ms"
  have tokens: "tokens = (pre @ string_token a k 1 # json_tokens b w) @ post"
    using Cons.prems(3) by (simp add: m b_def post_def)
  have IH: "describe_loop C f js tokens (length (pre @ string_token a k 1 # json_tokens b w)) True sd' =
      Some (case store_members C f ms sd' of (st, sd') \<Rightarrow> (st, True, sd'))" for sd'
  proof (rule Cons.IH)
    show "\<forall>m\<in>set ms. plain_member m" using Cons.prems(2) by simp
    qed (use at(3) tokens in \<open>simp_all add: post_def\<close>)
  have key: "find (compareJsonString js (string_token a k (Suc 0)) JSMN_STRING) description_keys = (if k \<in> set description_keys then Some k else None)"
    by (rule find_key) (auto simp: string_token_compare [OF at(1)])
  show ?case
  proof (cases "k \<in> set description_keys")
    case True
    obtain t where t: "json_tokens b w = [t]" "token_text js t = scalar_text w"
      using scalar_token [OF m(2) [OF True] at(2)] by blast
    show ?thesis
      using IH True by (subst describe_loop.simps)
        (auto simp: tokens t nth_append key value_at_def m(1) creation_time split: prod.splits)
  next
    case False
    have "\<forall>t\<in>set (string_token a k 1 # json_tokens b w). find (compareJsonString js t JSMN_STRING) description_keys = None"
      using m(3) [OF False] string_tokens(1) [OF at(2)] False key by (auto simp: find_None_iff)
    then have "describe_loop C f js tokens (length pre) True sd =
        describe_loop C f js tokens (length (pre @ string_token a k 1 # json_tokens b w)) True sd"
      unfolding tokens append_assoc by (rule describe_skips)
    then show ?thesis using IH [of sd] False by (simp add: m(1))
  qed
qed

text \<open>
  The description that the members stand for: each field has the text of its member, or is empty
  without one.
\<close>

definition text_of :: "(string \<times> json) list \<Rightarrow> string \<Rightarrow> string" where
  "text_of ms k = (case map_of ms k of None \<Rightarrow> [] | Some v \<Rightarrow> scalar_text v)"

definition description_of :: "api_consts \<Rightarrow> (string \<Rightarrow> STATUS \<times> UINT64) \<Rightarrow> (string \<times> json) list \<Rightarrow> StreamDescription" where
  "description_of C strtoui64 ms =
     \<lparr>sd_version = kc_STREAM_DESCRIPTION_CURRENT_VERSION C, sd_deviceName = text_of ms ''DeviceName'',
      sd_streamName = text_of ms ''StreamName'', sd_contentType = text_of ms ''MediaType'', sd_updateVersion = text_of ms ''Version'',
      sd_streamArn = text_of ms ''StreamARN'', sd_kmsKeyId = text_of ms ''KmsKeyId'',
      sd_streamStatus = (case map_of ms ''Status'' of None \<Rightarrow> 0
        | Some v \<Rightarrow> getStreamStatusFromString C (scalar_text v) (length (scalar_text v))),
      sd_creationTime = 0,
      sd_retention = (case map_of ms ''DataRetentionInHours'' of None \<Rightarrow> 0
        | Some v \<Rightarrow> snd (strtoui64 (scalar_text v)) * kc_HUNDREDS_OF_NANOS_IN_AN_HOUR C)\<rparr>"

text \<open>The limits of the fields.\<close>

definition field_limit :: "api_consts \<Rightarrow> string \<Rightarrow> nat option" where
  "field_limit C = map_of [(''DeviceName'', kc_MAX_DEVICE_NAME_LEN C), (''MediaType'', kc_MAX_CONTENT_TYPE_LEN C),
     (''KmsKeyId'', kc_MAX_ARN_LEN C), (''StreamARN'', kc_MAX_ARN_LEN C), (''StreamName'', kc_MAX_STREAM_NAME_LEN C),
     (''Version'', kc_MAX_UPDATE_VERSION_LEN C), (''Status'', MAX_DESCRIBE_STREAM_STATUS_LEN)]"

definition member_fits :: "api_consts \<Rightarrow> (string \<Rightarrow> STATUS \<times> UINT64) \<Rightarrow> string \<times> json \<Rightarrow> bool" where
  "member_fits C strtoui64 m \<longleftrightarrow>
     (case field_limit C (fst m) of None \<Rightarrow> True | Some n \<Rightarrow> length (scalar_text (snd m)) \<le> n) \<and>
     (fst m = ''DataRetentionInHours'' \<longrightarrow> fst (strtoui64 (scalar_text (snd m))) = STATUS_SUCCESS)"

lemma description_key_cases:
  assumes "k \<in> set description_keys"
  obtains "k = ''DeviceName''" | "k = ''MediaType''" | "k = ''KmsKeyId''" | "k = ''StreamARN''" | "k = ''StreamName''" | "k = ''Version''" | "k = ''Status''"
    | "k = ''DataRetentionInHours''" | "k = ''CreationTime''"
proof -
  have "k = ''DeviceName'' \<or> k = ''MediaType'' \<or> k = ''KmsKeyId'' \<or> k = ''StreamARN'' \<or> k = ''StreamName'' \<or> k = ''Version'' \<or> k = ''Status'' \<or>
      k = ''DataRetentionInHours'' \<or> k = ''CreationTime''"
    using assms by (simp add: description_keys_def)
  then show thesis by (elim disjE) (rule that, assumption)+
qed

lemma store_member_ok:
  assumes "member_fits C f (k, v)" "k \<in> set description_keys"
  shows "store_member C f k (scalar_text v) sd = (STATUS_SUCCESS,
    if k = ''DeviceName'' then sd\<lparr>sd_deviceName := overwrite (scalar_text v) (sd_deviceName sd)\<rparr>
    else if k = ''MediaType'' then sd\<lparr>sd_contentType := overwrite (scalar_text v) (sd_contentType sd)\<rparr>
    else if k = ''KmsKeyId'' then sd\<lparr>sd_kmsKeyId := overwrite (scalar_text v) (sd_kmsKeyId sd)\<rparr>
    else if k = ''StreamARN'' then sd\<lparr>sd_streamArn := overwrite (scalar_text v) (sd_streamArn sd)\<rparr>
    else if k = ''StreamName'' then sd\<lparr>sd_streamName := overwrite (scalar_text v) (sd_streamName sd)\<rparr>
    else if k = ''Version'' then sd\<lparr>sd_updateVersion := overwrite (scalar_text v) (sd_updateVersion sd)\<rparr>
    else if k = ''Status'' then sd\<lparr>sd_streamStatus := getStreamStatusFromString C (scalar_text v) (length (scalar_text v))\<rparr>
    else if k = ''DataRetentionInHours'' then sd\<lparr>sd_retention := snd (f (scalar_text v)) * kc_HUNDREDS_OF_NANOS_IN_AN_HOUR C\<rparr>
    else sd)"
  using assms(2)
  by (rule description_key_cases) (use assms(1) in \<open>simp_all add: member_fits_def field_limit_def store_member_def store_text_def split_beta\<close>)

lemma map_of_snoc: "map_of ms k = None \<Longrightarrow> map_of (ms @ [(k, v)]) x = (if x = k then Some v else map_of ms x)"
  by (auto simp: map_add_def split: option.split)

lemma description_of_snoc:
  assumes "member_fits C f (k, v)" "map_of ms k = None"
  shows "description_of C f (ms @ [(k, v)]) =
    (if k \<in> set description_keys then snd (store_member C f k (scalar_text v) (description_of C f ms)) else description_of C f ms)"
proof (cases "k \<in> set description_keys")
  case True
  show ?thesis
    unfolding store_member_ok [OF assms(1) True]
    by (rule description_key_cases [OF True])
      (use assms(2) True in \<open>simp_all add: description_of_def text_of_def overwrite_def map_of_snoc del: map_of_append\<close>)
next
  case False
  then have "k \<noteq> ''DeviceName''" "k \<noteq> ''MediaType''" "k \<noteq> ''KmsKeyId''" "k \<noteq> ''StreamARN''" "k \<noteq> ''StreamName''" "k \<noteq> ''Version''" "k \<noteq> ''Status''"
      "k \<noteq> ''DataRetentionInHours''"
    by (simp_all add: description_keys_def)
  note ne = this this [symmetric]
  show ?thesis
    using False by (simp add: description_of_def text_of_def map_of_snoc [OF assms(2)] ne del: map_of_append)
qed

lemma store_members_ok:
  assumes "distinct (map fst (ms0 @ ms))" "\<forall>m\<in>set ms. member_fits C f m"
  shows "store_members C f ms (description_of C f ms0) = (STATUS_SUCCESS, description_of C f (ms0 @ ms))"
  using assms
proof (induction ms arbitrary: ms0)
  case (Cons m ms)
  obtain k v where m: "m = (k, v)" by (cases m)
  have new: "map_of ms0 k = None" using Cons.prems(1) by (auto simp: m map_of_eq_None_iff)
  have fits: "member_fits C f (k, v)" using Cons.prems(2) by (simp add: m)
  have "store_members C f (m # ms) (description_of C f ms0) = store_members C f ms (description_of C f (ms0 @ [(k, v)]))"
    using store_member_ok [OF fits, of "description_of C f ms0"] description_of_snoc [OF fits new]
    by (cases "k \<in> set description_keys") (simp_all add: m split: prod.splits)
  then show ?case using Cons.IH [of "ms0 @ [(k, v)]"] Cons.prems by (simp add: m)
qed simp

lemma empty_description: "zero_StreamDescription\<lparr>sd_version := kc_STREAM_DESCRIPTION_CURRENT_VERSION C\<rparr> = description_of C f []"
  by (simp add: zero_StreamDescription_def description_of_def text_of_def)

definition describe_json :: "(string \<times> json) list \<Rightarrow> json" where
  "describe_json ms = JObj [(''StreamInfo'', JObj ms)]"

text \<open>
  C10: the answer to a describe call. Let the answer, a text of less than 2 GB and at most 100 tokens, hold
  a stream description whose members have different names and stand in any order. The members that the
  library knows have no parts, and texts within the limits; the values of the others may be of any form,
  but hold no string that is a name the library knows. Then the handler finds the description, with the
  text of each known member in the field for it, the status for its name and the retention in hours. The
  condition on the strings is needed, as the lemma \<open>name_in_value_loses_member\<close> shows.
\<close>

theorem describe_answer_complete:
  assumes "json_ok (describe_json ms)" "distinct (map fst ms)" "\<forall>m\<in>set ms. plain_member m \<and> member_fits C f m"
    and "length (json_tokens 0 (describe_json ms)) \<le> MAX_JSON_TOKEN_COUNT" "length (print_json (describe_json ms)) < 2 ^ 31"
  shows "describe_answer C f (Some (print_json (describe_json ms) @ rest)) (length (print_json (describe_json ms))) =
    Some (STATUS_SUCCESS, True, Some (description_of C f ms))"
proof -
  define js len a where "js = print_json (describe_json ms) @ rest" and "len = length (print_json (describe_json ms))"
    and "a = length (quote ''StreamInfo'') + 2"
  have "at js len 0 (print_json (describe_json ms))" by (simp add: at_def js_def len_def)
  then have at: "at js len 1 (quote ''StreamInfo'')" "at js len (a + 1) (print_members ms)"
    by (simp_all add: describe_json_def at_Cons at_append quote_def a_def)
  define t0 t1 where "t0 = json_tokens 0 (describe_json ms) ! 0" and "t1 = json_tokens a (JObj ms) ! 0"
  have tokens: "json_tokens 0 (describe_json ms) = [t0, string_token 1 ''StreamInfo'' 1, t1] @ member_tokens (a + 1) ms"
    by (simp add: t0_def t1_def describe_json_def a_def quote_def eval_nat_numeral)
  define tokens' where "tokens' = [t0, string_token 1 ''StreamInfo'' 1, t1] @ member_tokens (a + 1) ms"
  have "describe_loop C f js tokens' 1 False zero_StreamDescription = describe_loop C f js tokens' (length [t0, string_token 1 ''StreamInfo'' 1, t1])
      True (description_of C f [])"
    unfolding empty_description [symmetric]
    by (subst describe_loop.simps) (simp add: string_token_compare [OF at(1), simplified] numeral_3_eq_3 tokens'_def)
  also have "\<dots> = Some (case store_members C f ms (description_of C f []) of (st, sd) \<Rightarrow> (st, True, sd))"
    by (rule describe_members [OF at(2) _ tokens'_def]) (use assms(3) in auto)
  also have "\<dots> = Some (STATUS_SUCCESS, True, description_of C f ms)"
    using store_members_ok [of "[]" ms C f] assms(2,3) by simp
  finally have loop: "describe_loop C f js (json_tokens 0 (describe_json ms)) 1 False zero_StreamDescription =
      Some (STATUS_SUCCESS, True, description_of C f ms)"
    by (simp add: tokens tokens'_def)
  have "answer_tokens js len = Some (STATUS_SUCCESS, json_tokens 0 (describe_json ms))"
    using answer_tokens_json [of "[(''StreamInfo'', JObj ms)]" rest] assms(1,4,5)
    by (simp add: describe_json_def js_def len_def del: json_tokens.simps print_json.simps)
  moreover have "len \<noteq> 0" by (simp add: len_def describe_json_def)
  ultimately show ?thesis using loop by (simp add: describe_answer_def js_def [symmetric] len_def [symmetric])
qed

definition sample_api_consts :: api_consts where
  "sample_api_consts = \<lparr>kc_MAX_ARN_LEN = 1024, kc_MAX_DEVICE_NAME_LEN = 128, kc_MAX_CONTENT_TYPE_LEN = 128, kc_MAX_STREAM_NAME_LEN = 256,
     kc_MAX_UPDATE_VERSION_LEN = 128, kc_MAX_TAG_COUNT = 50, kc_MAX_TAG_NAME_LEN = 128, kc_MAX_TAG_VALUE_LEN = 256,
     kc_STREAM_DESCRIPTION_CURRENT_VERSION = 1, kc_STREAM_STATUS_CREATING = 0, kc_STREAM_STATUS_ACTIVE = 1,
     kc_STREAM_STATUS_UPDATING = 2, kc_STREAM_STATUS_DELETING = 3, kc_INVALID_UPLOAD_HANDLE_VALUE = - 1,
     kc_HUNDREDS_OF_NANOS_IN_AN_HOUR = 36000000000, kc_MAX_TIMESTAMP_STR_LEN = 17\<rparr>"

definition sample_members :: "(string \<times> json) list" where
  "sample_members = [(''CreationTime'', JPrim ''1.5E9''), (''Status'', JStr ''UPDATING''), (''Region'', JStr ''x''),
     (''Owner'', JObj [(''ids'', JArr [JPrim ''1'', JStr ''y'']), (''Name'', JStr ''z'')]), (''StreamName'', JStr ''cam''),
     (''DataRetentionInHours'', JPrim ''2'')]"

definition sample_strtoui64 :: "string \<Rightarrow> STATUS \<times> UINT64" where
  "sample_strtoui64 s = (if s = ''2'' then (STATUS_SUCCESS, 2) else (STATUS_INVALID_ARG, 0))"

lemma sample_members_ok:
  "json_ok (describe_json sample_members)" "distinct (map fst sample_members)"
  "\<forall>m\<in>set sample_members. plain_member m \<and> member_fits sample_api_consts sample_strtoui64 m"
  "length (json_tokens 0 (describe_json sample_members)) \<le> MAX_JSON_TOKEN_COUNT"
  "length (print_json (describe_json sample_members)) < 2 ^ 31"
proof -
  show "\<forall>m\<in>set sample_members. plain_member m \<and> member_fits sample_api_consts sample_strtoui64 m"
    by (auto simp: sample_members_def plain_member_def description_keys_def member_fits_def field_limit_def sample_api_consts_def
        sample_strtoui64_def MAX_DESCRIBE_STREAM_STATUS_LEN_def)
qed code_simp+

lemma describe_answer_complete_witness:
  "describe_answer sample_api_consts sample_strtoui64 (Some (print_json (describe_json sample_members) @ [NUL]))
     (length (print_json (describe_json sample_members))) =
   Some (STATUS_SUCCESS, True, Some \<lparr>sd_version = 1, sd_deviceName = [], sd_streamName = ''cam'', sd_contentType = [], sd_updateVersion = [],
     sd_streamArn = [], sd_kmsKeyId = [], sd_streamStatus = 2, sd_creationTime = 0, sd_retention = 72000000000\<rparr>)"
proof -
  have "description_of sample_api_consts sample_strtoui64 sample_members = \<lparr>sd_version = 1, sd_deviceName = [], sd_streamName = ''cam'',
      sd_contentType = [], sd_updateVersion = [], sd_streamArn = [], sd_kmsKeyId = [], sd_streamStatus = 2, sd_creationTime = 0,
      sd_retention = 72000000000\<rparr>"
    by code_simp
  then show ?thesis using describe_answer_complete [OF sample_members_ok] by simp
qed

text \<open>
  The loop does not tell a value from a name: behind an unknown member whose value is the text of a known
  name the next token, here the name of the stream's name, is taken for its value, and the stream's name
  is lost without an error.
\<close>

lemma name_in_value_loses_member:
  "let js = print_json (describe_json [(''X'', JStr ''Status''), (''StreamName'', JStr ''cam'')]) in
   map_option (map_prod id (map_prod id (map_option sd_streamName))) (describe_answer sample_api_consts sample_strtoui64 (Some (js @ [NUL])) (length js)) =
     Some (STATUS_SUCCESS, True, Some [])"
  by code_simp

end
