(* ===== verification/Curl_Tables.thy ===== *)
theory Curl_Tables
  imports Curl_Steps Curl_Answers Curl_Session "HOL-Library.AList"
begin

text \<open>
  Tables and lists of pairs that keep the contracts of the hash table and of the doubly linked list, and
  a small instance of the whole environment on which the properties are applied.
\<close>

subsection \<open>A table\<close>

definition pair_table :: "(UINT64 \<times> UINT64) list table_ops" where
  "pair_table = \<lparr>hashTableGet = (\<lambda>t k. case map_of t k of None \<Rightarrow> (STATUS_HASH_KEY_NOT_PRESENT, 0) | Some v \<Rightarrow> (STATUS_SUCCESS, v)),
     hashTablePut = (\<lambda>t k v. if map_of t k = None then (STATUS_SUCCESS, (k, v) # t) else (STATUS_INVALID_OPERATION, t)),
     hashTableRemove = (\<lambda>t k. if map_of t k = None then (STATUS_HASH_KEY_NOT_PRESENT, t) else (STATUS_SUCCESS, AList.delete k t)),
     hashTableEntries = AList.clearjunk, hashTableContains = (\<lambda>t k. (STATUS_SUCCESS, map_of t k \<noteq> None)),
     hashTableIsEmpty = (\<lambda>t. (STATUS_SUCCESS, t = [])), hashTableClear = (\<lambda>_. (STATUS_SUCCESS, [])),
     hashTableGetAllEntries = (\<lambda>t n. (STATUS_SUCCESS, AList.clearjunk t))\<rparr>"

lemma set_clearjunk: "set (AList.clearjunk t) = {(k, v). map_of t k = Some v}"
proof -
  have "(k, v) \<in> set (AList.clearjunk t) \<longleftrightarrow> map_of t k = Some v" for k v
    using map_of_eq_Some_iff [OF distinct_clearjunk [of t]] by (metis clearjunk_restrict map_of_clearjunk)
  then show ?thesis by auto
qed

interpretation pair_table: hash_map pair_table map_of
  by unfold_locales
    (auto simp: pair_table_def set_clearjunk delete_conv distinct_clearjunk fun_upd_def split: option.splits if_splits)

subsection \<open>A doubly linked list\<close>

text \<open>The nodes are numbers; a node that occurs again further on is not seen.\<close>

definition node_at :: "(nat \<times> UINT64) list \<Rightarrow> nat \<Rightarrow> (nat \<times> UINT64) list" where
  "node_at d e = dropWhile (\<lambda>(e', _). e' \<noteq> e) (AList.clearjunk d)"

definition new_node :: "(nat \<times> UINT64) list \<Rightarrow> nat" where
  "new_node d = Suc (foldr max (map fst d) 0)"

definition pair_list :: "((nat \<times> UINT64) list, nat) double_list_ops" where
  "pair_list = \<lparr>doubleListGetHeadNode = (\<lambda>d. (STATUS_SUCCESS, first_node (AList.clearjunk d))),
     doubleListGetNextNode = (\<lambda>d e. case node_at d e of [] \<Rightarrow> (STATUS_INVALID_OPERATION, None) | _ # ys \<Rightarrow> (STATUS_SUCCESS, first_node ys)),
     doubleListGetNodeData = (\<lambda>d e. case node_at d e of [] \<Rightarrow> (STATUS_INVALID_OPERATION, 0) | (_, v) # _ \<Rightarrow> (STATUS_SUCCESS, v)),
     doubleListGetNodeCount = (\<lambda>d. (STATUS_SUCCESS, length (AList.clearjunk d))),
     doubleListInsertItemTail = (\<lambda>d v. (STATUS_SUCCESS, AList.clearjunk d @ [(new_node d, v)])),
     doubleListDeleteNode = (\<lambda>d e. (STATUS_SUCCESS, AList.delete e (AList.clearjunk d)))\<rparr>"

lemma node_at_split:
  assumes "AList.clearjunk d = xs @ (e, v) # ys"
  shows "node_at d e = (e, v) # ys" "AList.delete e (AList.clearjunk d) = xs @ ys"
proof -
  have "distinct (map fst (xs @ (e, v) # ys))" using distinct_clearjunk [of d] assms by simp
  then have e: "e \<notin> fst ` set xs" "e \<notin> fst ` set ys" by auto
  then have "\<forall>x\<in>set xs. (\<lambda>(e', _). e' \<noteq> e) x" by force
  then show "node_at d e = (e, v) # ys" unfolding node_at_def assms by (simp add: dropWhile_append2)
  have "AList.delete e (zs @ ws) = AList.delete e zs @ AList.delete e ws" for zs ws :: "(nat \<times> UINT64) list" by (induction zs) auto
  then show "AList.delete e (AList.clearjunk d) = xs @ ys" using e unfolding assms by simp
qed

lemma new_node_fresh: "new_node d \<notin> fst ` set d"
proof -
  have "x \<le> foldr max xs 0" if "x \<in> set xs" for x and xs :: "nat list" using that by (induction xs) auto
  then have "x \<le> foldr max (map fst d) 0" if "x \<in> fst ` set d" for x using that by simp
  then show ?thesis unfolding new_node_def by force
qed

lemma clearjunk_insert: "AList.clearjunk (AList.clearjunk d @ [(new_node d, v)]) = AList.clearjunk d @ [(new_node d, v)]"
proof -
  have "distinct (map fst (AList.clearjunk d @ [(new_node d, v)]))"
    using new_node_fresh [of d] dom_clearjunk [of d] distinct_clearjunk [of d] by simp
  then show ?thesis by (rule distinct_clearjunk_id)
qed

lemma clearjunk_node:
  fixes d :: "(nat \<times> UINT64) list"
  assumes "AList.clearjunk d = xs @ (e, v) # ys"
  shows "AList.clearjunk (AList.delete e (xs @ (e, v) # ys)) = xs @ ys"
  using distinct_delete [OF distinct_clearjunk [of d], of e] node_at_split(2) [OF assms] unfolding assms
  by (simp add: distinct_clearjunk_id)

interpretation pair_list: double_list pair_list AList.clearjunk
  by unfold_locales
    (auto simp: pair_list_def node_at_split clearjunk_insert clearjunk_node)

subsection \<open>An environment\<close>

definition sample_auth_env :: "string list auth_env" where
  "sample_auth_env = \<lparr>ae_cred = sample_env, ae_calloc = (\<lambda>h. small_calloc h [8, 16]), ae_getCredentials = (\<lambda>_ _ _ _. None),
     ae_results = sample_results, ae_resultEvent = (\<lambda>ctx r q size e w. (STATUS_SUCCESS, w)),
     ae_streamErrorReport = (\<lambda>f cd h u t st w. (STATUS_SUCCESS, w)), ae_invalidUploadHandle = -1\<rparr>"

definition sample_api_env :: "((UINT64 \<times> UINT64) list, (nat \<times> UINT64) list, nat, UINT64 list, nat, UINT64 list, string list) api_env" where
  "sample_api_env = \<lparr>ka_curl = sample_curl_env, ka_signer = sample_signer_env\<lparr>se_request := sample_request_env\<lparr>re_malloc := (\<lambda>h. small_calloc h [8, 16, 24, 32, 40, 48, 56, 64])\<rparr>\<rparr>,
     ka_auth = sample_auth_env, ka_consts = sample_api_consts,
     ka_table = pair_table, ka_list = pair_list, ka_calloc = (\<lambda>rs. small_calloc rs [8, 16, 24]), ka_malloc = (\<lambda>ts. small_calloc ts [8, 16, 24]),
     ka_streamInfo = (\<lambda>h. (STATUS_SUCCESS, \<lparr>ks_name = ''cam'', ks_contentType = ''video/h264'', ks_kmsKeyId = [], ks_retention = 2\<rparr>)),
     ka_getCurrentTime = (\<lambda>_. 100), ka_strtoui64 = sample_strtoui64, ka_threadCreate = (\<lambda>f p x. (STATUS_SUCCESS, unat p)),
     ka_threadDetach = (\<lambda>_ _. STATUS_SUCCESS), ka_event = (\<lambda>_ x. (STATUS_SUCCESS, x)), ka_stack = ''?''\<rparr>"

lemma small_calloc_fresh: "small_calloc h [8, 16, 24] = Some (p :: UINT64) \<Longrightarrow> h p = None \<and> p \<noteq> 0"
  by (auto simp: small_calloc_def split: if_splits)

interpretation sample_api: api_tables sample_api_env map_of AList.clearjunk
proof -
  have e: "ka_table sample_api_env = pair_table" "ka_list sample_api_env = pair_list" "ka_consts sample_api_env = sample_api_consts"
    "ka_calloc sample_api_env = (\<lambda>rs. small_calloc rs [8, 16, 24])" "ka_malloc sample_api_env = (\<lambda>ts. small_calloc ts [8, 16, 24])"
    by (simp_all add: sample_api_env_def)
  show "api_tables sample_api_env map_of AList.clearjunk"
    unfolding api_tables_def api_tables_axioms_def e
    using pair_table.hash_map_axioms pair_list.double_list_axioms by (auto simp: sample_api_consts_def dest: small_calloc_fresh)
qed

definition sample_create_env :: "((UINT64 \<times> UINT64) list, (nat \<times> UINT64) list) create_env" where
  "sample_create_env = \<lparr>cv_osVersion = (STATUS_SUCCESS, ''1''), cv_platformName = (STATUS_SUCCESS, ''os''), cv_compilerInfo = (STATUS_SUCCESS, ''c''),
     cv_version = ''1'', cv_memory = True, cv_hashTableCreate = (\<lambda>_. (STATUS_SUCCESS, [])), cv_doubleListCreate = (STATUS_SUCCESS, []),
     cv_createMutex = (\<lambda>_. True), cv_initializeSslCallbacks = STATUS_SUCCESS, cv_curlGlobalInit = True\<rparr>"

definition sample_context :: "UINT64 \<Rightarrow> ServiceCallContext" where
  "sample_context k = \<lparr>sc_customData = k, sc_connectionTimeout = 1, sc_timeout = 2, sc_callAfter = 0, sc_authData = 96, sc_authSize = 74\<rparr>"

abbreviation sample_created where
  "sample_created \<equiv> createCurlApiCallbacks sample_api_env sample_create_env 4096 (Some sample_callbacks_provider) None API_CALL_CACHE_TYPE_ALL 0
     None None None None True sample_credentials_heap (sample_world [])"

lemma sample_created_ok: "(case sample_created of Some (st, Some s, _) \<Rightarrow> st = STATUS_SUCCESS \<and> ca_threads s = [] | _ \<Rightarrow> False)"
  by code_simp

definition sample_api :: "((UINT64 \<times> UINT64) list, (nat \<times> UINT64) list, UINT64 list, UINT64 list, string list) CurlApiCallbacks" where
  "sample_api = the (fst (snd (the sample_created)))"

lemma sample_describe: "(case describeStreamCachingCurl sample_api_env (Some sample_api) (Some ''cam'') (Some (sample_context 5)) of
    Some (st, Some s) \<Rightarrow> st = STATUS_SUCCESS \<and> map fst (ca_threads s) = [8] \<and> ca_pActiveRequests s = [(5, 8)] | _ \<Rightarrow> False)"
  by code_simp

text \<open>The object with a request that runs, and other threads that end it.\<close>

definition sample_busy :: "((UINT64 \<times> UINT64) list, (nat \<times> UINT64) list, UINT64 list, UINT64 list, string list) CurlApiCallbacks" where
  "sample_busy = the (snd (the (describeStreamCachingCurl sample_api_env (Some sample_api) (Some ''cam'') (Some (sample_context 5)))))"

definition sample_end ::
    "((UINT64 \<times> UINT64) list, (nat \<times> UINT64) list, UINT64 list, UINT64 list, string list) CurlApiCallbacks
      \<Rightarrow> ((UINT64 \<times> UINT64) list, (nat \<times> UINT64) list, UINT64 list, UINT64 list, string list) CurlApiCallbacks" where
  "sample_end s = (if (8, ''describeStreamCurlHandler'', 8) \<in> set (ca_threads s)
     then (case describeStreamCurlHandler_end sample_api_env 8 STATUS_SUCCESS (False, None) s of None \<Rightarrow> s | Some (_, s') \<Rightarrow> exit_thread 8 s')
     else s)"

lemma sample_unmarked: "ca_pStreamsShuttingDown sample_busy = []"
  by code_simp

lemma sample_not_shut: "\<not> ca_shutdown sample_busy"
  by code_simp

lemma sample_stop: "(case stop_stream sample_api_env 5 False sample_busy of
    Some (st, s4) \<Rightarrow> st = STATUS_SUCCESS \<and> ca_pActiveRequests s4 = [(5, 8)] \<and>
      ca_pActiveRequests (sample_end s4) = [] \<and> ca_pActiveUploads (sample_end s4) = [] | _ \<Rightarrow> False)"
  by code_simp

lemma sample_stop_all: "(case stop_all sample_api_env CURL_API_CALLBACKS_SHUTDOWN_TIMEOUT sample_busy of
    Some (st, s3) \<Rightarrow> st = STATUS_SUCCESS \<and> ca_pActiveRequests s3 = [(5, 8)] \<and> ca_pActiveRequests (sample_end s3) = [] \<and>
      ca_pActiveUploads (sample_end s3) = [] \<and> ca_threads (sample_end s3) = [] | _ \<Rightarrow> False)"
  by code_simp

text \<open>A second start for a stream that has a request: its thread is cancelled and keeps the released request.\<close>

lemma second_start_leaves_cancelled_thread:
  "(case start_call sample_api_env ''describeStreamCurlHandler'' ''/d'' ''b'' False (sample_context 5) sample_busy of
    Some (st, s) \<Rightarrow> st \<noteq> STATUS_SUCCESS \<and> map fst (ca_threads s) = [8] \<and>
      ca_cancelled s = [(16, ''describeStreamCurlHandler'', 16)] \<and> ca_requests s 16 = None \<and> ca_locks s = [StartLock 16] | _ \<Rightarrow> False)"
  by code_simp

end
