(* ===== verification/Curl_Reachable.thy ===== *)
theory Curl_Reachable
  imports Curl_Stops Curl_Tables
begin

text \<open>
  What holds of the curl API callbacks in every state that they reach, and what one start, one shutdown
  and one cached endpoint come to. The contracts are met by tables and lists of pairs, on which the
  properties are applied.
\<close>

subsection \<open>The empty object\<close>

lemma api_inv_new:
  assumes "ca_pCallbacksProvider s \<noteq> None" "ca_locks s = []" "active lookup s = Map.empty" "lookup (ca_pCachedEndpoints s) = Map.empty"
    "nodes (ca_pActiveUploads s) = []" "ca_requests s = Map.empty" "ca_trackers s = Map.empty" "ca_threads s = []" "ca_cancelled s = []"
  shows "api_inv E lookup nodes s"
  using assms by (simp add: api_inv_def requests_inv_def uploads_inv_def threads_inv_def cancelled_inv_def endpoints_inv_def shared_locks_free_def)

lemma createCurlApiCallbacks_Some:
  assumes "createCurlApiCallbacks E V self provider region cacheType period url cert postfix agent out ch w = Some (STATUS_SUCCESS, Some s, p)"
  shows "\<exists>q maxUri maxPath pr. provider = Some pr \<and>
    s = (new_CurlApiCallbacks maxUri maxPath V pr region cacheType
      (if period = ENDPOINT_UPDATE_PERIOD_SENTINEL_VALUE then DEFAULT_ENDPOINT_CACHE_UPDATE_PERIOD else period) url cert postfix agent ch w)\<lparr>ca_pCallbacksProvider := Some q\<rparr>"
  using assms by (auto simp: createCurlApiCallbacks_def Let_def split: option.splits if_splits prod.splits)

text \<open>
  C1: In every state that a freshly created object reaches, by calls of the platform independent code, by
  the shutdown of streams and of the client and by the threads of the calls, one critical section after
  the other in any order, every live request is referred to from exactly one place (the table of active
  requests under its own stream, or the list of uploads under a handle of its own) and has exactly one
  running thread, and no running thread, table or list refers to a request or a tracker that was
  released. Only a thread that was cancelled may still have a released request: such a thread is none of
  the running ones, and it was cancelled while the start lock of its request was held, which nobody
  releases any more. What a cancelled thread does with a released request is undefined and no step.
\<close>

theorem reachable_objects_consistent:
  assumes "api_tables E lookup nodes"
    and "createCurlApiCallbacks E V self provider region cacheType period url cert postfix agent out ch w = Some (STATUS_SUCCESS, Some s0, p)"
    and "lookup (snd (cv_hashTableCreate V 0)) = Map.empty" "lookup (snd (cv_hashTableCreate V 1)) = Map.empty"
    and "nodes (snd (cv_doubleListCreate V)) = []"
    and "(api_step E)\<^sup>*\<^sup>* s0 s"
  shows "api_inv E lookup nodes s"
  using assms(6)
proof (induction rule: rtranclp_induct)
  case base
  show ?case using createCurlApiCallbacks_Some [OF assms(2)] assms(3-5)
    by (auto simp: new_CurlApiCallbacks_def Let_def intro!: api_inv_new)
next
  case (step s s')
  from api_tables.api_step_sound [OF assms(1) step(2,3)] show ?case by (simp add: sound_step_def)
qed

subsection \<open>A start\<close>


subsection \<open>The shutdown of a stream\<close>

text \<open>
  C2: A shutdown of a stream that reports success leaves no request of that stream: not in the table, not
  in the list of uploads, not in memory. The stream may be used again, and the object is consistent. The
  other threads may do anything meanwhile but unmark the stream.
\<close>

theorem stream_shutdown_leaves_nothing:
  assumes "api_tables E lookup nodes" "api_inv E lookup nodes s" "lookup (ca_pStreamsShuttingDown s) k = None"
    and "with_lock ShutdownLock (\<lambda>s. Some (mark_stream E k s)) s = Some (STATUS_SUCCESS, s1)" "others_run E lookup k others s1"
    and "shutdownStreamCurl E others (Some s) k resetStream = Some (STATUS_SUCCESS, Some s')"
  shows "stream_requests k s' = {} \<and> active lookup s' k = None \<and> lookup (ca_pStreamsShuttingDown s') k = None \<and> api_inv E lookup nodes s'"
proof -
  have "ca_pCallbacksProvider s \<noteq> None" using assms(2) by (simp add: api_inv_def)
  then have "shutdown_stream E others k resetStream s = Some (STATUS_SUCCESS, s')"
    using assms(6) by (simp add: shutdownStreamCurl_def with_callbacks_Some)
  note run = this
  obtain s4 where stop: "stop_stream E k resetStream s = Some (STATUS_SUCCESS, s4)"
    using run assms(3) hash_map.contains [of "ka_table E" lookup "ca_pStreamsShuttingDown s" k] assms(1)
    by (auto simp: shutdown_stream_def api_tables_def chk_Some)
  have r: "shutting_run E lookup k s1 s4" "api_inv E lookup nodes s4" "shutting_down lookup s4 k"
    using api_tables.stop_stream_run [OF assms(1) stop assms(4,2)] by blast+
  have "others_along E lookup k others s4"
    by (rule api_tables.others_run_along [OF assms(1) others_run_from [OF assms(5) r(1)] r(2,3)])
  from api_tables.shutdown_stream_end [OF assms(1) run stop this assms(2)] assms(3) have
    e: "api_inv E lookup nodes s'" "stream_requests k s' = {}" "lookup (ca_pStreamsShuttingDown s') k = None" by auto
  moreover have "active lookup s' k = None"
    using api_tables.stream_requests_active [OF assms(1) e(1)] e(2) by (cases "active lookup s' k") auto
  ultimately show ?thesis by blast
qed

text \<open>
  C7: The shutdown of a stream returns, with success and with no request of the stream left, when the
  other threads, which go on with any steps that keep the mark in every round of its waiting, have ended
  the requests of the stream after some number of rounds. That it gets to the waiting is not assumed.
\<close>

theorem stream_shutdown_returns:
  assumes "api_tables E lookup nodes" "api_inv E lookup nodes s" "lookup (ca_pStreamsShuttingDown s) k = None"
    and "with_lock ShutdownLock (\<lambda>s. Some (mark_stream E k s)) s = Some (STATUS_SUCCESS, s1)"
    and "k \<noteq> ku_INVALID_STREAM (ka_curl E)"
    and "\<And>s4. stop_stream E k resetStream s = Some (STATUS_SUCCESS, s4) \<Longrightarrow>
      others_along E lookup k others s4 \<and> (\<exists>n. stream_requests k ((round others ^^ n) s4) = {})"
  shows "\<exists>s'. shutdownStreamCurl E others (Some s) k resetStream = Some (STATUS_SUCCESS, Some s') \<and> stream_requests k s' = {}"
proof -
  have p: "ca_pCallbacksProvider s \<noteq> None" using assms(2) by (simp add: api_inv_def)
  obtain s4 where stop: "stop_stream E k resetStream s = Some (STATUS_SUCCESS, s4)"
    using api_tables.stop_stream_returns [OF assms(1,4,2,5)] by blast
  then obtain n where o: "others_along E lookup k others s4" "stream_requests k ((round others ^^ n) s4) = {}" using assms(6) by blast
  have u: "\<not> shutting_down lookup s k" using assms(3) by simp
  obtain s' where s': "shutdown_stream E others k resetStream s = Some (STATUS_SUCCESS, s')"
    using api_tables.shutdown_stream_returns [OF assms(1) stop o assms(2) u] by blast
  have "stream_requests k s' = {}" using api_tables.shutdown_stream_end [OF assms(1) s' stop o(1) assms(2) u] by blast
  with p s' show ?thesis by (simp add: shutdownStreamCurl_def with_callbacks_Some)
qed

subsection \<open>The shutdown of everything\<close>


text \<open>
  When a stream with an active request is being shut down, the shutdown of the client fails at the mark
  that is there, before it has ended anything; the next one reports success and does nothing.
\<close>

theorem client_shutdown_gives_up:
  assumes "api_tables E lookup nodes" "ca_pCallbacksProvider s \<noteq> None" "\<not> ca_shutdown s"
    and "active lookup s k \<noteq> None" "lookup (ca_pStreamsShuttingDown s) k \<noteq> None"
  shows "\<exists>st s'. clientShutdownCurl E others (Some s) c = Some (st, Some s') \<and> st \<noteq> STATUS_SUCCESS \<and>
    ca_requests s' = ca_requests s \<and> ca_threads s' = ca_threads s \<and> ca_pCachedEndpoints s' = ca_pCachedEndpoints s \<and>
    clientShutdownCurl E others (Some s') c = Some (STATUS_SUCCESS, Some s')"
proof -
  obtain st t where "shutdown_all E others CURL_API_CALLBACKS_SHUTDOWN_TIMEOUT s =
      Some (st, s\<lparr>ca_shutdown := True, ca_shutdownTimeout := CURL_API_CALLBACKS_SHUTDOWN_TIMEOUT, ca_pStreamsShuttingDown := t\<rparr>)"
    and st: "st \<noteq> STATUS_SUCCESS"
    by (rule api_tables.shutdown_all_marked [OF assms])
  then have "clientShutdownCurl E others (Some s) c =
      Some (st, Some (s\<lparr>ca_shutdown := True, ca_shutdownTimeout := CURL_API_CALLBACKS_SHUTDOWN_TIMEOUT, ca_pStreamsShuttingDown := t\<rparr>))"
    using assms(2) by (auto simp: clientShutdownCurl_def with_callbacks_def)
  moreover have "clientShutdownCurl E others (Some (s\<lparr>ca_shutdown := True, ca_shutdownTimeout := CURL_API_CALLBACKS_SHUTDOWN_TIMEOUT,
        ca_pStreamsShuttingDown := t\<rparr>)) c =
      Some (STATUS_SUCCESS, Some (s\<lparr>ca_shutdown := True, ca_shutdownTimeout := CURL_API_CALLBACKS_SHUTDOWN_TIMEOUT, ca_pStreamsShuttingDown := t\<rparr>))"
    using assms(2) by (auto simp: clientShutdownCurl_def with_callbacks_def shutdown_all_def)
  ultimately show ?thesis
    by (intro exI [of _ st] exI [of _ "s\<lparr>ca_shutdown := True, ca_shutdownTimeout := CURL_API_CALLBACKS_SHUTDOWN_TIMEOUT, ca_pStreamsShuttingDown := t\<rparr>"])
      (simp add: st)
qed

subsection \<open>The cache\<close>

lemma post_result_unlocked: "unlock l (snd (post_result E ev k (lock l s))) = snd (post_result E ev k s)" "fst (post_result E ev k (lock l s)) = fst (post_result E ev k s)"
  by (simp_all add: post_result_def post_event_def notify_result_def lock_def unlock_def split_beta)

context api_tables
begin

lemma cached_endpoint_found:
  assumes inv: "endpoints_inv (lookup (ca_pCachedEndpoints s)) (ca_trackers s)"
    and run: "cache_endpoint E k endpoint t s = Some (STATUS_SUCCESS, s1)"
    and same: "ca_pCachedEndpoints s2 = ca_pCachedEndpoints s1" "ca_trackers s2 = ca_trackers s1"
  shows "cached_endpoint E k s2 = Some (STATUS_SUCCESS,
    let tr = \<lparr>et_endpointLastUpdateTime = t, et_streamingEndpoint = STRNCPY endpoint (re_maxUri (ku_request (ka_curl E)))\<rparr> in
    if endpoint_fresh (ca_cacheUpdatePeriod s2) (ka_getCurrentTime E (cw_ext (ca_world s2))) tr then Some tr else None)"
proof -
  from cache_endpoint_spec [OF run inv] obtain tb ts a where s1: "s1 = s\<lparr>ca_pCachedEndpoints := tb, ca_trackers := ts\<rparr>" "endpoints_inv (lookup tb) ts"
    and a: "lookup tb k = Some a" "ts a = Some \<lparr>et_endpointLastUpdateTime = t, et_streamingEndpoint = STRNCPY endpoint (re_maxUri (ku_request (ka_curl E)))\<rparr>"
    by auto
  then have "a \<noteq> 0" by (auto simp: endpoints_inv_def ran_def)
  then show ?thesis using a same s1(1) tb.get_present [OF a(1)] by (simp add: cached_endpoint_def Let_def)
qed

end

text \<open>
  C9: An endpoint that was cached is what a later call is answered from, as long as it is not older than
  the update period: the event carries the endpoint that was stored and no call of the service is started.
  When it is older (or empty) the service is called. Other parts of the state may change meanwhile.
\<close>

theorem cached_endpoint_answers:
  assumes "api_tables E lookup nodes" "endpoints_inv (lookup (ca_pCachedEndpoints s)) (ca_trackers s)"
    and "cache_endpoint E (sc_customData ctx) endpoint t s = Some (STATUS_SUCCESS, s1)"
    and "ca_pCachedEndpoints s2 = ca_pCachedEndpoints s1" "ca_trackers s2 = ca_trackers s1"
    and "ca_pCallbacksProvider s2 \<noteq> None" "ca_cacheType s2 \<noteq> API_CALL_CACHE_TYPE_NONE"
    and "e = STRNCPY endpoint (re_maxUri (ku_request (ka_curl E)))"
  shows "getStreamingEndpointCachingCurl E (Some s2) streamName apiName (Some ctx) =
    (if e \<noteq> [] \<and> ka_getCurrentTime E (cw_ext (ca_world s2)) < t + ca_cacheUpdatePeriod s2
     then map_option (apsnd Some) (Some (post_result E (GetStreamingEndpointResultEvent (sc_customData ctx)
            (SERVICE_CALL_RESULT_OK (ku_consts (ka_curl E))) e) (sc_customData ctx) s2))
     else getStreamingEndpointCurl E (Some s2) streamName apiName (Some ctx))"
proof -
  note found = api_tables.cached_endpoint_found [OF assms(1-5)]
  obtain provider where "ca_pCallbacksProvider s2 = Some provider" using assms(6) by blast
  then show ?thesis
    using assms(7,8) by (simp add: getStreamingEndpointCachingCurl_def found Let_def endpoint_fresh_def with_lock_def not_le
        post_result_unlocked apsnd_def map_prod_def split_beta prod_eq_iff)
qed

subsection \<open>Witnesses\<close>

lemma sample_created_api: "\<exists>p. sample_created = Some (STATUS_SUCCESS, Some sample_api, p)"
  using sample_created_ok by (auto simp: sample_api_def split: option.splits prod.splits)

lemma sample_api_new: "\<exists>q maxUri maxPath pr. sample_api =
  (new_CurlApiCallbacks maxUri maxPath sample_create_env pr None API_CALL_CACHE_TYPE_ALL DEFAULT_ENDPOINT_CACHE_UPDATE_PERIOD None None None None sample_credentials_heap
    (sample_world []))\<lparr>ca_pCallbacksProvider := Some q\<rparr>"
proof -
  obtain p where "sample_created = Some (STATUS_SUCCESS, Some sample_api, p)" using sample_created_api by blast
  from createCurlApiCallbacks_Some [OF this] show ?thesis by (auto simp: ENDPOINT_UPDATE_PERIOD_SENTINEL_VALUE_def)
qed

lemma sample_api_parts:
  "ca_requests sample_api = Map.empty" "ca_pStreamsShuttingDown sample_api = []" "ca_threads sample_api = []" "ca_pActiveRequests sample_api = []"
  "ca_pCachedEndpoints sample_api = []" "ca_trackers sample_api = Map.empty" "ca_pActiveUploads sample_api = []" "ca_locks sample_api = []"
  "ca_cancelled sample_api = []" "ca_pCallbacksProvider sample_api \<noteq> None" "ca_cacheType sample_api = API_CALL_CACHE_TYPE_ALL"
    "ca_cacheUpdatePeriod sample_api = DEFAULT_ENDPOINT_CACHE_UPDATE_PERIOD"
proof -
  obtain q maxUri maxPath pr where e: "sample_api =
    (new_CurlApiCallbacks maxUri maxPath sample_create_env pr None API_CALL_CACHE_TYPE_ALL DEFAULT_ENDPOINT_CACHE_UPDATE_PERIOD None None None None sample_credentials_heap
      (sample_world []))\<lparr>ca_pCallbacksProvider := Some q\<rparr>"
    using sample_api_new by blast
  show "ca_requests sample_api = Map.empty" "ca_pStreamsShuttingDown sample_api = []" "ca_threads sample_api = []" "ca_pActiveRequests sample_api = []"
    "ca_pCachedEndpoints sample_api = []" "ca_trackers sample_api = Map.empty" "ca_pActiveUploads sample_api = []" "ca_locks sample_api = []"
    "ca_cancelled sample_api = []" "ca_pCallbacksProvider sample_api \<noteq> None" "ca_cacheType sample_api = API_CALL_CACHE_TYPE_ALL"
    "ca_cacheUpdatePeriod sample_api = DEFAULT_ENDPOINT_CACHE_UPDATE_PERIOD"
    unfolding e by (simp_all add: new_CurlApiCallbacks_def Let_def sample_create_env_def)
qed

lemma sample_api_inv: "api_inv sample_api_env map_of AList.clearjunk sample_api"
  by (rule api_inv_new) (simp_all add: sample_api_parts)

lemma sample_ids: "thread_ids_fresh sample_api_env sample_api"
  by (simp add: thread_ids_fresh_def sample_api_parts)

lemma sample_described:
  obtains st s where "describeStreamCachingCurl sample_api_env (Some sample_api) (Some ''cam'') (Some (sample_context 5)) = Some (st, Some s)"
    "map fst (ca_threads s) = [8]"
proof (cases "describeStreamCachingCurl sample_api_env (Some sample_api) (Some ''cam'') (Some (sample_context 5))")
  case (Some r)
  obtain st x where r: "r = (st, x)" by fastforce
  then show ?thesis using sample_describe Some that by (cases x) auto
qed (use sample_describe in simp)

theorem reachable_objects_consistent_witness:
  "\<exists>s. (api_step sample_api_env)\<^sup>*\<^sup>* sample_api s \<and> map fst (ca_threads s) = [8] \<and> api_inv sample_api_env map_of AList.clearjunk s"
proof -
  obtain st s where d: "describeStreamCachingCurl sample_api_env (Some sample_api) (Some ''cam'') (Some (sample_context 5)) = Some (st, Some s)"
    and t: "map fst (ca_threads s) = [8]"
    by (rule sample_described)
  have r: "(api_step sample_api_env)\<^sup>*\<^sup>* sample_api s" by (rule r_into_rtranclp, rule api_step.describe_stream [OF d sample_ids])
  obtain p where c: "sample_created = Some (STATUS_SUCCESS, Some sample_api, p)" using sample_created_api by blast
  have "api_inv sample_api_env map_of AList.clearjunk s"
    by (rule reachable_objects_consistent [OF sample_api.api_tables_axioms c _ _ _ r]) (simp_all add: sample_create_env_def)
  with r t show ?thesis by (intro exI conjI)
qed


lemma sample_busy_reached: "\<exists>st. describeStreamCachingCurl sample_api_env (Some sample_api) (Some ''cam'') (Some (sample_context 5)) = Some (st, Some sample_busy)"
proof -
  obtain st s where "describeStreamCachingCurl sample_api_env (Some sample_api) (Some ''cam'') (Some (sample_context 5)) = Some (st, Some s)"
    by (rule sample_described)
  then show ?thesis by (simp add: sample_busy_def)
qed

lemma sample_busy_parts: "ca_pActiveRequests sample_busy = [(5, 8)]" "map fst (ca_threads sample_busy) = [8]"
  using sample_describe sample_busy_reached by auto

lemma sample_busy_inv: "api_inv sample_api_env map_of AList.clearjunk sample_busy" "map_of (ca_pStreamsShuttingDown sample_busy) 5 = None"
  "5 \<noteq> ku_INVALID_STREAM (ka_curl sample_api_env)"
proof -
  obtain st where d: "describeStreamCachingCurl sample_api_env (Some sample_api) (Some ''cam'') (Some (sample_context 5)) = Some (st, Some sample_busy)"
    using sample_busy_reached by blast
  have step: "api_step sample_api_env sample_api sample_busy" by (rule api_step.describe_stream [OF d sample_ids])
  then show "api_inv sample_api_env map_of AList.clearjunk sample_busy"
    using api_tables.api_step_sound [OF sample_api.api_tables_axioms step sample_api_inv] by (simp add: sound_step_def)
  show "map_of (ca_pStreamsShuttingDown sample_busy) 5 = None"
    by (simp add: sample_unmarked)
qed (simp add: sample_api_env_def sample_curl_env_def)

lemma sample_end_run:
  assumes "api_inv sample_api_env map_of AList.clearjunk s" "shutting_down map_of s k"
  shows "shutting_run sample_api_env map_of k s (sample_end s)"
proof (cases "(8, ''describeStreamCurlHandler'', 8) \<in> set (ca_threads s)")
  case th: True
  show ?thesis
  proof (cases "describeStreamCurlHandler_end sample_api_env 8 STATUS_SUCCESS (False, None) s")
    case None
    then show ?thesis by (simp add: sample_end_def)
  next
    case (Some r)
    obtain st s' where r: "describeStreamCurlHandler_end sample_api_env 8 STATUS_SUCCESS (False, None) s = Some (st, s')"
      using Some by (cases r) auto
    obtain c j t s1 w where e: "end_request sample_api_env 8 s = Some (c, j, t, s1)" "s' = s1\<lparr>ca_world := w\<rparr>"
      using describeStreamCurlHandler_end_cases [OF r] by blast
    obtain i where i: "active map_of s i = Some 8" by (rule api_tables.active_thread [OF sample_api.api_tables_axioms assms(1) th]) simp
    have "shutting_down map_of (exit_thread 8 s') k"
      using api_tables.end_request_spec [OF sample_api.api_tables_axioms e(1) assms(1) i] assms(2) e(2) by (auto simp: exit_thread_def)
    moreover have "api_step sample_api_env s (exit_thread 8 s')" by (rule api_step.end_describe [OF th r])
    ultimately show ?thesis using th r by (simp add: sample_end_def r_into_rtranclp)
  qed
qed (simp add: sample_end_def)

lemma sample_others:
  assumes "api_inv sample_api_env map_of AList.clearjunk s" "shutting_down map_of s k"
  shows "others_run sample_api_env map_of k sample_end s"
  unfolding others_run_def
proof (intro allI impI)
  fix x assume "shutting_run sample_api_env map_of k s x"
  then have "api_inv sample_api_env map_of AList.clearjunk x" "shutting_down map_of x k"
    using api_tables.shutting_run_sound [OF sample_api.api_tables_axioms _ assms] by blast+
  then show "shutting_run sample_api_env map_of k x (sample_end x)" by (rule sample_end_run)
qed

lemma sample_stopped:
  obtains s1 s4 where "stop_stream sample_api_env 5 False sample_busy = Some (STATUS_SUCCESS, s4)"
    "with_lock ShutdownLock (\<lambda>s. Some (mark_stream sample_api_env 5 s)) sample_busy = Some (STATUS_SUCCESS, s1)"
    "others_run sample_api_env map_of 5 sample_end s1" "others_along sample_api_env map_of 5 sample_end s4"
    "stream_requests 5 (round sample_end s4) = {}"
proof -
  obtain s4 where s4: "stop_stream sample_api_env 5 False sample_busy = Some (STATUS_SUCCESS, s4)"
    "ca_pActiveRequests (sample_end s4) = []" "ca_pActiveUploads (sample_end s4) = []"
    using sample_stop by (auto split: option.splits prod.splits)
  obtain s1 where s1: "with_lock ShutdownLock (\<lambda>s. Some (mark_stream sample_api_env 5 s)) sample_busy = Some (STATUS_SUCCESS, s1)"
    by (rule api_tables.stop_stream_parts [OF sample_api.api_tables_axioms s4(1)])
  have "api_inv sample_api_env map_of AList.clearjunk s1" "shutting_down map_of s1 5"
    using api_tables.mark_run [OF sample_api.api_tables_axioms s1 sample_busy_inv(1)] by blast+
  then have o1: "others_run sample_api_env map_of 5 sample_end s1" by (rule sample_others)
  have i4: "api_inv sample_api_env map_of AList.clearjunk s4" "shutting_down map_of s4 5"
    using api_tables.stop_stream_run [OF sample_api.api_tables_axioms s4(1) s1 sample_busy_inv(1)] by blast+
  have o4: "others_along sample_api_env map_of 5 sample_end s4"
    by (rule api_tables.others_run_along [OF sample_api.api_tables_axioms sample_others [OF i4] i4])
  have "api_inv sample_api_env map_of AList.clearjunk (round sample_end s4)"
    by (rule api_tables.round_run(1) [OF sample_api.api_tables_axioms o4 i4])
  moreover have "ca_pActiveRequests (round sample_end s4) = []" "ca_pActiveUploads (round sample_end s4) = []"
    using s4(2,3) by (simp_all add: round_def sleep_def)
  ultimately have "stream_requests 5 (round sample_end s4) = {}"
    using api_tables.stream_requests_none [OF sample_api.api_tables_axioms, of "round sample_end s4" 5] by simp
  with s4(1) s1 o1 o4 show ?thesis using that by blast
qed

lemma sample_any: "others_any sample_api_env sample_end s"
  unfolding others_any_def
proof (intro allI impI)
  fix x
  show "(api_step sample_api_env)\<^sup>*\<^sup>* x (sample_end x)"
  proof (cases "(8, ''describeStreamCurlHandler'', 8) \<in> set (ca_threads x)")
    case th: True
    show ?thesis
    proof (cases "describeStreamCurlHandler_end sample_api_env 8 STATUS_SUCCESS (False, None) x")
      case (Some r)
      obtain st s' where r: "r = (st, s')" by fastforce
      have "api_step sample_api_env x (exit_thread 8 s')" by (rule api_step.end_describe [OF th Some [unfolded r]])
      then show ?thesis using th Some r by (simp add: sample_end_def)
    qed (simp add: sample_end_def)
  qed (simp add: sample_end_def)
qed


theorem stream_shutdown_returns_witness:
  "active map_of sample_busy 5 = Some 8 \<and>
    (\<exists>s'. shutdownStreamCurl sample_api_env sample_end (Some sample_busy) 5 False = Some (STATUS_SUCCESS, Some s') \<and> stream_requests 5 s' = {})"
proof -
  obtain s1 s4 where s4: "stop_stream sample_api_env 5 False sample_busy = Some (STATUS_SUCCESS, s4)"
    "with_lock ShutdownLock (\<lambda>s. Some (mark_stream sample_api_env 5 s)) sample_busy = Some (STATUS_SUCCESS, s1)"
    "others_along sample_api_env map_of 5 sample_end s4" "stream_requests 5 (round sample_end s4) = {}"
    by (rule sample_stopped)
  have fin: "others_along sample_api_env map_of 5 sample_end x \<and> (\<exists>n. stream_requests 5 ((round sample_end ^^ n) x) = {})"
    if "stop_stream sample_api_env 5 False sample_busy = Some (STATUS_SUCCESS, x)" for x
  proof -
    have "x = s4" using that s4(1) by simp
    moreover have "stream_requests 5 ((round sample_end ^^ 1) s4) = {}" using s4(4) by simp
    ultimately show ?thesis using s4(3) by blast
  qed
  show ?thesis
    using stream_shutdown_returns [OF sample_api.api_tables_axioms sample_busy_inv(1,2) s4(2) sample_busy_inv(3) fin] sample_busy_parts(1) by simp
qed

theorem stream_shutdown_leaves_nothing_witness:
  "active map_of sample_busy 5 = Some 8 \<and>
    (\<exists>s'. shutdownStreamCurl sample_api_env sample_end (Some sample_busy) 5 False = Some (STATUS_SUCCESS, Some s') \<and> stream_requests 5 s' = {})"
proof -
  obtain s1 s4 where s4: "stop_stream sample_api_env 5 False sample_busy = Some (STATUS_SUCCESS, s4)"
    "with_lock ShutdownLock (\<lambda>s. Some (mark_stream sample_api_env 5 s)) sample_busy = Some (STATUS_SUCCESS, s1)"
    "others_run sample_api_env map_of 5 sample_end s1" "others_along sample_api_env map_of 5 sample_end s4"
    "stream_requests 5 (round sample_end s4) = {}"
    by (rule sample_stopped)
  have fin: "stream_requests 5 ((round sample_end ^^ 1) s4) = {}" using s4(5) by simp
  have u: "\<not> shutting_down map_of sample_busy 5" using sample_busy_inv(2) by simp
  obtain s' where "shutdown_stream sample_api_env sample_end 5 False sample_busy = Some (STATUS_SUCCESS, s')"
    using api_tables.shutdown_stream_returns [OF sample_api.api_tables_axioms s4(1,4) fin sample_busy_inv(1) u] by blast
  moreover have "ca_pCallbacksProvider sample_busy \<noteq> None" using sample_busy_inv(1) by (simp add: api_inv_def)
  ultimately have run: "shutdownStreamCurl sample_api_env sample_end (Some sample_busy) 5 False = Some (STATUS_SUCCESS, Some s')"
    by (simp add: shutdownStreamCurl_def with_callbacks_Some)
  show ?thesis
    using stream_shutdown_leaves_nothing [OF sample_api.api_tables_axioms sample_busy_inv(1,2) s4(2,3) run] run sample_busy_parts(1) by simp
qed

lemma sample_cached:
  obtains s1 where "cache_endpoint sample_api_env 5 ''e'' 90 sample_api = Some (STATUS_SUCCESS, s1)" "ca_threads s1 = []" "ca_pCallbacksProvider s1 \<noteq> None"
    "ca_cacheType s1 = API_CALL_CACHE_TYPE_ALL" "ca_cacheUpdatePeriod s1 = DEFAULT_ENDPOINT_CACHE_UPDATE_PERIOD"
proof -
  have e: "ka_table sample_api_env = pair_table" "ka_malloc sample_api_env = (\<lambda>ts. small_calloc ts [8, 16, 24])" by (simp_all add: sample_api_env_def)
  obtain provider where pr: "ca_pCallbacksProvider sample_api = Some provider" using sample_api_parts(10) by blast
  obtain s1 where "cache_endpoint sample_api_env 5 ''e'' 90 sample_api = Some (STATUS_SUCCESS, s1) \<and> ca_threads s1 = [] \<and> ca_pCallbacksProvider s1 \<noteq> None \<and>
    ca_cacheType s1 = API_CALL_CACHE_TYPE_ALL \<and> ca_cacheUpdatePeriod s1 = DEFAULT_ENDPOINT_CACHE_UPDATE_PERIOD"
    by (simp add: cache_endpoint_def endpoint_tracker_def with_lock_def lock_def unlock_def e pair_table_def sample_api_parts pr small_calloc_def)
  then show ?thesis using that by blast
qed

theorem cached_endpoint_answers_witness:
  "\<exists>s1 s2. cache_endpoint sample_api_env 5 ''e'' 90 sample_api = Some (STATUS_SUCCESS, s1) \<and>
    getStreamingEndpointCachingCurl sample_api_env (Some s1) (Some ''cam'') (Some ''PUT_MEDIA'') (Some (sample_context 5)) = Some (STATUS_SUCCESS, Some s2) \<and>
    ca_threads s2 = []"
proof -
  obtain s1 where c: "cache_endpoint sample_api_env 5 ''e'' 90 sample_api = Some (STATUS_SUCCESS, s1)" and e: "ca_threads s1 = []"
    "ca_pCallbacksProvider s1 \<noteq> None" "ca_cacheType s1 = API_CALL_CACHE_TYPE_ALL" "ca_cacheUpdatePeriod s1 = DEFAULT_ENDPOINT_CACHE_UPDATE_PERIOD"
    by (rule sample_cached)
  have inv: "endpoints_inv (map_of (ca_pCachedEndpoints sample_api)) (ca_trackers sample_api)" by (simp add: sample_api_parts endpoints_inv_def)
  have c': "cache_endpoint sample_api_env (sc_customData (sample_context 5)) ''e'' 90 sample_api = Some (STATUS_SUCCESS, s1)"
    using c by (simp add: sample_context_def)
  have n: "STRNCPY ''e'' (re_maxUri (ku_request (ka_curl sample_api_env))) = ''e''" by code_simp
  have now: "ka_getCurrentTime sample_api_env x = 100" "ka_event sample_api_env ev x = (STATUS_SUCCESS, x)" for ev x
    by (simp_all add: sample_api_env_def)
  have young: "(100 :: UINT64) < 90 + DEFAULT_ENDPOINT_CACHE_UPDATE_PERIOD" by code_simp
  have "ca_cacheType s1 \<noteq> API_CALL_CACHE_TYPE_NONE" using e(3) by simp
  from cached_endpoint_answers [OF sample_api.api_tables_axioms inv c' refl refl e(2) this refl, of "Some ''cam''" "Some ''PUT_MEDIA''"]
  have "getStreamingEndpointCachingCurl sample_api_env (Some s1) (Some ''cam'') (Some ''PUT_MEDIA'') (Some (sample_context 5)) =
      map_option (apsnd Some) (Some (post_result sample_api_env (GetStreamingEndpointResultEvent (sc_customData (sample_context 5))
            (SERVICE_CALL_RESULT_OK (ku_consts (ka_curl sample_api_env))) ''e'') (sc_customData (sample_context 5)) s1))"
    using young by (simp add: e(4) n now)
  then show ?thesis using c e(1) by (simp add: post_result_def post_event_def notify_result_def now)
qed

end
