(* ===== verification/Iot_Credentials.thy ===== *)
theory Iot_Credentials
  imports Curl_Answers Curl_Create Curl_Session
begin

text \<open>
  The IoT credential provider (\<open>Common/IotCredentialProvider.c\<close>) and the functions that create one which
  calls the service by curl (\<open>Common/Curl/CurlIotCredentialProvider.c\<close>) or by libwebsockets
  (\<open>Common/Lws/LwsIotCredentialProvider.c\<close>).

  \<^item> The provider is an object of the heap of credentials and providers; the headers of its requests are
    in the world, which also counts the blocking calls that were made. What the network does is a
    parameter for each call by its number: what curl delivers to \<open>blockingCurlCall\<close>, or what another
    blocking call does to the request, the answer and the headers.
  \<^item> The local variables for the values of an answer are a map from the name of the value to the C string
    at its place in the answer and its length.
  \<^item> \<open>None\<close> as a result is undefined behaviour: the value behind a key that is the last token, the
    expiration time that was never copied.
\<close>

definition IOT_REQUEST_CONNECTION_TIMEOUT :: UINT64 where "IOT_REQUEST_CONNECTION_TIMEOUT = 3 * HUNDREDS_OF_NANOS_IN_A_SECOND"
definition IOT_REQUEST_COMPLETION_TIMEOUT :: UINT64 where "IOT_REQUEST_COMPLETION_TIMEOUT = 5 * HUNDREDS_OF_NANOS_IN_A_SECOND"
definition ROLE_ALIASES_PATH :: string where "ROLE_ALIASES_PATH = ''/role-aliases''"
definition CREDENTIAL_SERVICE :: string where "CREDENTIAL_SERVICE = ''/credentials''"
definition IOT_THING_NAME_HEADER :: string where "IOT_THING_NAME_HEADER = ''x-amzn-iot-thingname''"
definition MAX_ROLE_ALIAS_LEN :: nat where "MAX_ROLE_ALIAS_LEN = 128"
definition DEFAULT_USER_AGENT_NAME :: string where "DEFAULT_USER_AGENT_NAME = ''AWS-SDK-KVS''"

definition IOT_CREDENTIAL_FETCH_GRACE_PERIOD :: "auth_consts \<Rightarrow> UINT64" where
  "IOT_CREDENTIAL_FETCH_GRACE_PERIOD K = 5 * HUNDREDS_OF_NANOS_IN_A_SECOND + MIN_STREAMING_TOKEN_EXPIRATION_DURATION K
     + STREAMING_TOKEN_EXPIRATION_GRACE_PERIOD K"

record ('l, 'n, 'q, 'x) iot_env =
  ie_cred :: cred_env
  ie_curl :: "('l, 'n, 'q, 'x) curl_env"
  ie_globalInit :: bool
  ie_MAX_IOT_THING_NAME_LEN :: nat
  ie_perform :: "nat \<Rightarrow> CURL \<Rightarrow> 'q CallInfo \<Rightarrow> (CURLcode \<times> UINT32 \<times> 'q CallInfo) option"
  ie_serviceCall :: "nat \<Rightarrow> cfun \<Rightarrow> 'l RequestInfo \<Rightarrow> 'q CallInfo \<Rightarrow> hheap \<Rightarrow> (STATUS \<times> 'l RequestInfo \<times> 'q CallInfo \<times> hheap) option"

record 'y iot_world =
  iw_headers :: hheap
  iw_calls :: nat
  iw_rest :: 'y

subsection \<open>The answer\<close>

definition iot_keys :: "string list" where
  "iot_keys = [''accessKeyId'', ''secretAccessKey'', ''sessionToken'', ''expiration'']"

definition iot_limit :: "string \<Rightarrow> nat" where
  "iot_limit key = (if key = ''accessKeyId'' then MAX_ACCESS_KEY_LEN
     else if key = ''secretAccessKey'' then MAX_SECRET_KEY_LEN
     else if key = ''sessionToken'' then MAX_SESSION_TOKEN_LEN
     else MAX_EXPIRATION_LEN)"

definition token_len :: "jsmntok_t \<Rightarrow> UINT32" where
  "token_len t = of_int (tok_end t - tok_start t)"

definition cstring_from :: "string \<Rightarrow> nat \<Rightarrow> string" where
  "cstring_from s n = takeWhile (\<lambda>x. x \<noteq> NUL) (drop n s)"

type_synonym iot_values = "string \<Rightarrow> (string \<times> UINT32) option"

function iot_loop :: "string \<Rightarrow> jsmntok_t list \<Rightarrow> nat \<Rightarrow> iot_values \<Rightarrow> (STATUS \<times> iot_values) option" where
  "iot_loop js tokens i vals =
     (if i < length tokens
      then (case find (compareJsonString js (tokens ! i) JSMN_STRING) iot_keys of
          None \<Rightarrow> iot_loop js tokens (i + 1) vals
        | Some key \<Rightarrow>
            if \<not> i + 1 < length tokens then None
            else if \<not> unat (token_len (tokens ! (i + 1))) \<le> iot_limit key then Some (STATUS_INVALID_API_CALL_RETURN_JSON, vals)
            else iot_loop js tokens (i + 2)
              (vals(key \<mapsto> (cstring_from js (nat (tok_start (tokens ! (i + 1)))), token_len (tokens ! (i + 1))))))
      else Some (STATUS_SUCCESS, vals))"
  by pat_completeness auto

termination by (relation "measure (\<lambda>(js, tokens, i, vals). length tokens - i)") auto

declare iot_loop.simps [simp del]

lemma iot_loop_skip:
  "\<lbrakk>i < length tokens; find (compareJsonString js (tokens ! i) JSMN_STRING) iot_keys = None\<rbrakk> \<Longrightarrow>
   iot_loop js tokens i vals = iot_loop js tokens (Suc i) vals"
  by (subst iot_loop.simps) simp

text \<open>The credentials of the provider are replaced; the expiration is cut to the maximum.\<close>

definition replace_iot_credentials ::
    "('l, 'n, 'q, 'x) iot_env \<Rightarrow> cheap \<Rightarrow> UINT64 \<Rightarrow> IotCredentialProvider \<Rightarrow> string \<times> UINT32 \<Rightarrow> string \<times> UINT32 \<Rightarrow> string \<times> UINT32
      \<Rightarrow> UINT64 \<Rightarrow> (STATUS \<times> cheap) option" where
  "replace_iot_credentials I h p f accessKeyId secretKey sessionToken expiration = do {
     h1 \<leftarrow> (if ip_pAwsCredentials f \<noteq> 0
           then map_option (\<lambda>(_, _, h'). h') (freeAwsCredentials h (Some (ip_pAwsCredentials f)))
           else Some h);
     let h2 = h1(p \<mapsto> OIot (f\<lparr>ip_pAwsCredentials := 0\<rparr>));
     (st, q, h3) \<leftarrow> createAwsCredentials (pe_consts (ie_cred I)) (pe_calloc (ie_cred I)) h2 (Some (fst accessKeyId)) (snd accessKeyId)
       (Some (fst secretKey)) (snd secretKey) (Some (fst sessionToken)) (snd sessionToken) expiration True;
     Some (st, h3(p \<mapsto> OIot (f\<lparr>ip_pAwsCredentials := q\<rparr>)))
   }"

definition use_iot_values ::
    "('l, 'n, 'q, 'x) iot_env \<Rightarrow> cheap \<Rightarrow> UINT64 \<Rightarrow> IotCredentialProvider \<Rightarrow> iot_values \<Rightarrow> (STATUS \<times> cheap) option" where
  "use_iot_values I h p f vals = (case (vals ''accessKeyId'', vals ''secretAccessKey'', vals ''sessionToken'') of
     (Some a, Some k, Some t) \<Rightarrow> do {
       timeFn \<leftarrow> ip_getCurrentTimeFn f;
       let currentTime = pe_time (ie_cred I) timeFn (ip_customData f);
       (s, n) \<leftarrow> vals ''expiration'';
       (st, x) \<leftarrow> convertTimestampToEpoch (pe_strtoui32 (ie_cred I)) (pe_tz (ie_cred I)) (Some (take (unat n) s))
         (currentTime div HUNDREDS_OF_NANOS_IN_A_SECOND) True;
       if STATUS_FAILED st then Some (st, h)
       else do {
         expiration \<leftarrow> x;
         replace_iot_credentials I h p f a k t (min expiration (currentTime + MAX_ENFORCED_TOKEN_EXPIRATION_DURATION (pe_consts (ie_cred I))))
       }
     }
   | _ \<Rightarrow> Some (STATUS_IOT_NULL_AWS_CREDS, h))"

definition parseIotResponse ::
    "('l, 'n, 'q, 'x) iot_env \<Rightarrow> cheap \<Rightarrow> UINT64 \<Rightarrow> 'q CallInfo option \<Rightarrow> (STATUS \<times> cheap) option" where
  "parseIotResponse I h pIotCredentialProvider pCallInfo = (case pCallInfo of
     None \<Rightarrow> Some (STATUS_NULL_ARG, h)
   | Some ci \<Rightarrow>
       if pIotCredentialProvider = 0 then Some (STATUS_NULL_ARG, h)
       else if \<not> ci_responseDataLen ci > 0 then Some (STATUS_IOT_INVALID_RESPONSE_LENGTH, h)
       else do {
         f \<leftarrow> get_iot h pIotCredentialProvider;
         js \<leftarrow> ci_responseData ci;
         (st, tokens) \<leftarrow> answer_tokens js (unat (ci_responseDataLen ci));
         if STATUS_FAILED st then Some (st, h)
         else do {
           (st1, vals) \<leftarrow> iot_loop js tokens 1 (\<lambda>_. None);
           if STATUS_FAILED st1 then Some (st1, h) else use_iot_values I h pIotCredentialProvider f vals
         }
       })"

subsection \<open>The call\<close>

definition zero_CallInfo :: "'q CallInfo" where
  "zero_CallInfo = \<lparr>ci_httpStatus = 0, ci_callResult = 0, ci_pResponseHeaders = None, ci_pRequestId = 0, ci_responseData = None,
     ci_responseDataLen = 0\<rparr>"

text \<open>The call through the function pointer of the provider.\<close>

definition blocking_service_call ::
    "('l, 'n, 'q, 'x) iot_env \<Rightarrow> fnptr \<Rightarrow> 'l RequestInfo \<Rightarrow> 'q CallInfo \<Rightarrow> 'y iot_world
      \<Rightarrow> (STATUS \<times> 'l RequestInfo \<times> 'q CallInfo \<times> 'y iot_world) option" where
  "blocking_service_call I serviceCallFn r ci w = (case serviceCallFn of
     None \<Rightarrow> None
   | Some f \<Rightarrow>
       if f = C_FUN ''blockingCurlCall'' then do {
         (st, pCallInfo) \<leftarrow> blockingCurlCall (ie_curl I) (ie_globalInit I) (ie_perform I (iw_calls w)) (Some r) (Some ci) (iw_headers w);
         ci' \<leftarrow> pCallInfo;
         Some (st, r, ci', w\<lparr>iw_calls := iw_calls w + 1\<rparr>)
       }
       else map_option (\<lambda>(st, r', ci', hh). (st, r', ci', w\<lparr>iw_headers := hh, iw_calls := iw_calls w + 1\<rparr>))
              (ie_serviceCall I (iw_calls w) f r ci (iw_headers w)))"

definition iot_url :: "IotCredentialProvider \<Rightarrow> string" where
  "iot_url f = CONTROL_PLANE_URI_PREFIX @ ip_iotGetCredentialEndpoint f @ ROLE_ALIASES_PATH @ ''/'' @ ip_roleAlias f @ CREDENTIAL_SERVICE"

text \<open>The request is made, used and released; whatever fails behind its creation releases it too.\<close>

definition iot_request ::
    "('l, 'n, 'q, 'x) iot_env \<Rightarrow> cheap \<Rightarrow> UINT64 \<Rightarrow> IotCredentialProvider \<Rightarrow> 'y iot_world \<Rightarrow> (STATUS \<times> cheap \<times> 'y iot_world) option" where
  "iot_request I h p f w = do {
     let R = ku_request (ie_curl I);
     (st0, pr, hh1) \<leftarrow> createRequestInfo R (Some (iot_url f)) None (Some DEFAULT_AWS_REGION) (Some (ip_caCertPath f)) (Some (ip_certPath f))
       (Some (ip_privateKeyPath f)) SSL_CERTIFICATE_TYPE_PEM (Some DEFAULT_USER_AGENT_NAME) (ip_connectionTimeout f) (ip_completionTimeout f)
       DEFAULT_LOW_SPEED_LIMIT DEFAULT_LOW_SPEED_TIME_LIMIT (ip_pAwsCredentials f) True (iw_headers w);
     if STATUS_FAILED st0 then Some (st0, h, w\<lparr>iw_headers := hh1\<rparr>)
     else do {
       (st1, pr1, hh2) \<leftarrow> setRequestHeader R pr (Some IOT_THING_NAME_HEADER) 0 (Some (ip_thingName f)) 0 hh1;
       r1 \<leftarrow> pr1;
       (st2, r2, ci, w2) \<leftarrow> (if STATUS_FAILED st1 then Some (st1, r1, zero_CallInfo, w\<lparr>iw_headers := hh2\<rparr>)
                             else blocking_service_call I (ip_serviceCallFn f) r1 zero_CallInfo (w\<lparr>iw_headers := hh2\<rparr>));
       (st3, h1) \<leftarrow> (if STATUS_FAILED st2 then Some (st2, h) else parseIotResponse I h p (Some ci));
       (_, _, hh3) \<leftarrow> freeRequestInfo R (Some (Some r2)) (iw_headers w2);
       (_, _, hh4) \<leftarrow> releaseCallInfo (ku_queue (ie_curl I)) (Some ci) hh3;
       Some (st3, h1, w2\<lparr>iw_headers := hh4\<rparr>)
     }
   }"

definition iotCurlHandler ::
    "('l, 'n, 'q, 'x) iot_env \<Rightarrow> cheap \<Rightarrow> UINT64 \<Rightarrow> 'y iot_world \<Rightarrow> (STATUS \<times> cheap \<times> 'y iot_world) option" where
  "iotCurlHandler I h pIotCredentialProvider w = do {
     f \<leftarrow> get_iot h pIotCredentialProvider;
     timeFn \<leftarrow> ip_getCurrentTimeFn f;
     let currentTime = pe_time (ie_cred I) timeFn (ip_customData f);
     refresh \<leftarrow> (if ip_pAwsCredentials f = 0 then Some True
                else map_option (\<lambda>c. currentTime + IOT_CREDENTIAL_FETCH_GRACE_PERIOD (pe_consts (ie_cred I)) > ac_expiration c)
                       (get_credentials h (ip_pAwsCredentials f)));
     if \<not> refresh then Some (STATUS_SUCCESS, h, w)
     else
       let formatLen = length (iot_url f) in
       if \<not> (formatLen > 0 \<and> formatLen < re_maxUri (ku_request (ie_curl I))) then Some (STATUS_IOT_INVALID_URI_LEN, h, w)
       else iot_request I h pIotCredentialProvider f w
   }"

subsection \<open>The provider\<close>

definition freeIotCredentialProvider :: "cheap \<Rightarrow> UINT64 option \<Rightarrow> (STATUS \<times> UINT64 option \<times> cheap) option" where
  "freeIotCredentialProvider h ppCredentialProvider = (case ppCredentialProvider of
     None \<Rightarrow> Some (STATUS_NULL_ARG, None, h)
   | Some p \<Rightarrow>
       if p = 0 then Some (STATUS_SUCCESS, Some p, h)
       else do {
         f \<leftarrow> get_iot h p;
         (_, _, h1) \<leftarrow> freeAwsCredentials h (Some (ip_pAwsCredentials f));
         Some (STATUS_SUCCESS, Some 0, h1(p := None))
       })"

definition getIotCredentials ::
    "('l, 'n, 'q, 'x) iot_env \<Rightarrow> cheap \<Rightarrow> UINT64 \<Rightarrow> bool \<Rightarrow> 'y iot_world \<Rightarrow> (STATUS \<times> UINT64 option \<times> cheap \<times> 'y iot_world) option" where
  "getIotCredentials I h pCredentialProvider ppAwsCredentials w =
     (if \<not> (pCredentialProvider \<noteq> 0 \<and> ppAwsCredentials) then Some (STATUS_NULL_ARG, None, h, w)
      else do {
        (st, h1, w1) \<leftarrow> iotCurlHandler I h pCredentialProvider w;
        if STATUS_FAILED st then Some (st, None, h1, w1)
        else do {
          f \<leftarrow> get_iot h1 pCredentialProvider;
          Some (STATUS_SUCCESS, Some (ip_pAwsCredentials f), h1, w1)
        }
      })"

definition iot_timeouts :: "UINT64 \<Rightarrow> UINT64 \<Rightarrow> UINT64 \<times> UINT64" where
  "iot_timeouts connectionTimeout completionTimeout =
     (let (c, d) = (if completionTimeout < connectionTimeout then (IOT_REQUEST_CONNECTION_TIMEOUT, IOT_REQUEST_COMPLETION_TIMEOUT)
                    else (connectionTimeout, completionTimeout))
      in (if c = 0 then IOT_REQUEST_CONNECTION_TIMEOUT else c, if d = 0 then IOT_REQUEST_COMPLETION_TIMEOUT else d))"

text \<open>
  The checks of the strings, in the order of the code. The first one returns the limit itself as the
  status.
\<close>

definition iot_strings_status ::
    "('l, 'n, 'q, 'x) iot_env \<Rightarrow> string \<Rightarrow> string \<Rightarrow> string \<Rightarrow> PCHAR \<Rightarrow> string \<Rightarrow> string \<Rightarrow> STATUS" where
  "iot_strings_status I endpoint certPath privateKeyPath caCertPath roleAlias thingName =
     (let maxUri = re_maxUri (ku_request (ie_curl I)); maxPath = MAX_PATH_LEN (pe_consts (ie_cred I)) in
      if \<not> STRNLEN endpoint (maxUri + 1) \<le> maxUri then STATUS_OTHER (of_nat maxUri)
      else if \<not> STRNLEN roleAlias (MAX_ROLE_ALIAS_LEN + 1) \<le> MAX_ROLE_ALIAS_LEN then STATUS_MAX_ROLE_ALIAS_LEN_EXCEEDED
      else if \<not> STRNLEN privateKeyPath (maxPath + 1) \<le> maxPath then STATUS_PATH_TOO_LONG
      else if (case caCertPath of None \<Rightarrow> False | Some ca \<Rightarrow> \<not> STRNLEN ca (maxPath + 1) \<le> maxPath) then STATUS_PATH_TOO_LONG
      else if \<not> STRNLEN certPath (maxPath + 1) \<le> maxPath then STATUS_PATH_TOO_LONG
      else if \<not> STRNLEN thingName (ie_MAX_IOT_THING_NAME_LEN I + 1) \<le> ie_MAX_IOT_THING_NAME_LEN I then STATUS_MAX_IOT_THING_NAME_LENGTH
      else STATUS_SUCCESS)"

text \<open>The filled structure of a new provider.\<close>

definition new_iot_provider ::
    "('l, 'n, 'q, 'x) iot_env \<Rightarrow> string \<Rightarrow> string \<Rightarrow> string \<Rightarrow> PCHAR \<Rightarrow> string \<Rightarrow> string \<Rightarrow> UINT64 \<Rightarrow> UINT64 \<Rightarrow> fnptr \<Rightarrow> UINT64 \<Rightarrow> cfun
      \<Rightarrow> IotCredentialProvider" where
  "new_iot_provider I endpoint certPath privateKeyPath caCertPath roleAlias thingName connectionTimeout completionTimeout getCurrentTimeFn
      customData serviceCallFn =
     (let maxPath = MAX_PATH_LEN (pe_consts (ie_cred I)) in
      \<lparr>ip_getCredentialsFn = Some (C_FUN ''getIotCredentials''),
       ip_getCurrentTimeFn = (if getCurrentTimeFn = None then Some (C_FUN ''commonDefaultGetCurrentTimeFunc'') else getCurrentTimeFn),
       ip_customData = customData, ip_iotGetCredentialEndpoint = STRNCPY endpoint (re_maxUri (ku_request (ie_curl I))),
       ip_certPath = STRNCPY certPath maxPath, ip_privateKeyPath = STRNCPY privateKeyPath maxPath, ip_caCertPath = optional_path maxPath caCertPath,
       ip_roleAlias = STRNCPY roleAlias MAX_ROLE_ALIAS_LEN, ip_thingName = STRNCPY thingName (ie_MAX_IOT_THING_NAME_LEN I),
       ip_connectionTimeout = fst (iot_timeouts connectionTimeout completionTimeout),
       ip_completionTimeout = snd (iot_timeouts connectionTimeout completionTimeout), ip_pAwsCredentials = 0, ip_serviceCallFn = Some serviceCallFn\<rparr>)"

definition createIotCredentialProviderWithTime ::
    "('l, 'n, 'q, 'x) iot_env \<Rightarrow> cheap \<Rightarrow> PCHAR \<Rightarrow> PCHAR \<Rightarrow> PCHAR \<Rightarrow> PCHAR \<Rightarrow> PCHAR \<Rightarrow> PCHAR \<Rightarrow> UINT64 \<Rightarrow> UINT64 \<Rightarrow> fnptr \<Rightarrow> UINT64
      \<Rightarrow> fnptr \<Rightarrow> bool \<Rightarrow> 'y iot_world \<Rightarrow> (STATUS \<times> UINT64 \<times> cheap \<times> 'y iot_world) option" where
  "createIotCredentialProviderWithTime I h iotGetCredentialEndpoint certPath privateKeyPath caCertPath roleAlias thingName
      connectionTimeout completionTimeout getCurrentTimeFn customData serviceCallFn ppCredentialProvider w =
     (case (iotGetCredentialEndpoint, certPath, privateKeyPath, roleAlias, thingName, serviceCallFn) of
        (Some endpoint, Some cert, Some key, Some alias, Some thing, Some serviceCall) \<Rightarrow>
          if \<not> ppCredentialProvider then Some (STATUS_NULL_ARG, 0, h, w)
          else (case pe_calloc (ie_cred I) h of
              None \<Rightarrow> Some (STATUS_NOT_ENOUGH_MEMORY, 0, h, w)
            | Some p \<Rightarrow>
                let st = iot_strings_status I endpoint cert key caCertPath alias thing;
                    h1 = h(p \<mapsto> OIot (new_iot_provider I endpoint cert key caCertPath alias thing connectionTimeout completionTimeout
                      getCurrentTimeFn customData serviceCall))
                in if STATUS_FAILED st then map_option (\<lambda>(_, _, h'). (st, 0, h', w)) (freeIotCredentialProvider h1 (Some p))
                   else do {
                     (st1, h2, w1) \<leftarrow> iotCurlHandler I h1 p w;
                     if STATUS_FAILED st1 then map_option (\<lambda>(_, _, h'). (st1, 0, h', w1)) (freeIotCredentialProvider h2 (Some p))
                     else Some (STATUS_SUCCESS, p, h2, w1)
                   })
      | _ \<Rightarrow> Some (STATUS_NULL_ARG, 0, h, w))"

definition createCurlIotCredentialProviderWithTimeAndTimeout ::
    "('l, 'n, 'q, 'x) iot_env \<Rightarrow> cheap \<Rightarrow> PCHAR \<Rightarrow> PCHAR \<Rightarrow> PCHAR \<Rightarrow> PCHAR \<Rightarrow> PCHAR \<Rightarrow> PCHAR \<Rightarrow> UINT64 \<Rightarrow> UINT64 \<Rightarrow> fnptr \<Rightarrow> UINT64
      \<Rightarrow> bool \<Rightarrow> 'y iot_world \<Rightarrow> (STATUS \<times> UINT64 \<times> cheap \<times> 'y iot_world) option" where
  "createCurlIotCredentialProviderWithTimeAndTimeout I h iotGetCredentialEndpoint certPath privateKeyPath caCertPath roleAlias thingName
      connectionTimeout completionTimeout getCurrentTimeFn customData ppCredentialProvider w =
     createIotCredentialProviderWithTime I h iotGetCredentialEndpoint certPath privateKeyPath caCertPath roleAlias thingName
       connectionTimeout completionTimeout getCurrentTimeFn customData (Some (C_FUN ''blockingCurlCall'')) ppCredentialProvider w"

definition createCurlIotCredentialProviderWithTime ::
    "('l, 'n, 'q, 'x) iot_env \<Rightarrow> cheap \<Rightarrow> PCHAR \<Rightarrow> PCHAR \<Rightarrow> PCHAR \<Rightarrow> PCHAR \<Rightarrow> PCHAR \<Rightarrow> PCHAR \<Rightarrow> fnptr \<Rightarrow> UINT64
      \<Rightarrow> bool \<Rightarrow> 'y iot_world \<Rightarrow> (STATUS \<times> UINT64 \<times> cheap \<times> 'y iot_world) option" where
  "createCurlIotCredentialProviderWithTime I h iotGetCredentialEndpoint certPath privateKeyPath caCertPath roleAlias thingName
      getCurrentTimeFn customData ppCredentialProvider w =
     createIotCredentialProviderWithTime I h iotGetCredentialEndpoint certPath privateKeyPath caCertPath roleAlias thingName
       IOT_REQUEST_CONNECTION_TIMEOUT IOT_REQUEST_COMPLETION_TIMEOUT getCurrentTimeFn customData (Some (C_FUN ''blockingCurlCall''))
       ppCredentialProvider w"

definition createCurlIotCredentialProvider ::
    "('l, 'n, 'q, 'x) iot_env \<Rightarrow> cheap \<Rightarrow> PCHAR \<Rightarrow> PCHAR \<Rightarrow> PCHAR \<Rightarrow> PCHAR \<Rightarrow> PCHAR \<Rightarrow> PCHAR \<Rightarrow> bool \<Rightarrow> 'y iot_world
      \<Rightarrow> (STATUS \<times> UINT64 \<times> cheap \<times> 'y iot_world) option" where
  "createCurlIotCredentialProvider I h iotGetCredentialEndpoint certPath privateKeyPath caCertPath roleAlias thingName ppCredentialProvider w =
     createCurlIotCredentialProviderWithTime I h iotGetCredentialEndpoint certPath privateKeyPath caCertPath roleAlias thingName
       (Some (C_FUN ''commonDefaultGetCurrentTimeFunc'')) 0 ppCredentialProvider w"

definition createLwsIotCredentialProviderWithTime ::
    "('l, 'n, 'q, 'x) iot_env \<Rightarrow> cheap \<Rightarrow> PCHAR \<Rightarrow> PCHAR \<Rightarrow> PCHAR \<Rightarrow> PCHAR \<Rightarrow> PCHAR \<Rightarrow> PCHAR \<Rightarrow> fnptr \<Rightarrow> UINT64
      \<Rightarrow> bool \<Rightarrow> 'y iot_world \<Rightarrow> (STATUS \<times> UINT64 \<times> cheap \<times> 'y iot_world) option" where
  "createLwsIotCredentialProviderWithTime I h iotGetCredentialEndpoint certPath privateKeyPath caCertPath roleAlias thingName
      getCurrentTimeFn customData ppCredentialProvider w =
     createIotCredentialProviderWithTime I h iotGetCredentialEndpoint certPath privateKeyPath caCertPath roleAlias thingName
       0 0 getCurrentTimeFn customData (Some (C_FUN ''blockingLwsCall'')) ppCredentialProvider w"

definition createLwsIotCredentialProvider ::
    "('l, 'n, 'q, 'x) iot_env \<Rightarrow> cheap \<Rightarrow> PCHAR \<Rightarrow> PCHAR \<Rightarrow> PCHAR \<Rightarrow> PCHAR \<Rightarrow> PCHAR \<Rightarrow> PCHAR \<Rightarrow> bool \<Rightarrow> 'y iot_world
      \<Rightarrow> (STATUS \<times> UINT64 \<times> cheap \<times> 'y iot_world) option" where
  "createLwsIotCredentialProvider I h iotGetCredentialEndpoint certPath privateKeyPath caCertPath roleAlias thingName ppCredentialProvider w =
     createLwsIotCredentialProviderWithTime I h iotGetCredentialEndpoint certPath privateKeyPath caCertPath roleAlias thingName
       (Some (C_FUN ''commonDefaultGetCurrentTimeFunc'')) 0 ppCredentialProvider w"

subsection \<open>The values of an answer\<close>

lemma string_ok_NUL: "string_ok s \<Longrightarrow> NUL \<notin> set s"
proof (induction s rule: string_ok.induct)
  case (3 c d cs)
  have drop4: "NUL \<in> set (drop 4 cs)" if "NUL \<in> set cs" "\<forall>c\<in>set (take 4 cs). is_hex c"
  proof -
    have "set cs = set (take 4 cs) \<union> set (drop 4 cs)" by (simp flip: set_append)
    moreover have "\<not> is_hex NUL" by (simp add: is_hex_def code_def)
    ultimately show ?thesis using that by auto
  qed
  from 3 show ?case by (auto simp: NUL_char split: if_splits dest: drop4 [unfolded NUL_char])
qed (auto simp: NUL_char)

lemma scalar_NUL: "\<lbrakk>json_ok v; scalar v\<rbrakk> \<Longrightarrow> NUL \<notin> set (scalar_text v)"
  by (cases v) (auto simp: string_ok_NUL prim_ok_def code_def)

lemma scalar_token_place:
  assumes "scalar v" "at js len a (print_json v)"
  shows "\<exists>t b. json_tokens a v = [t] \<and> tok_start t = int b \<and> tok_end t = int (b + length (scalar_text v)) \<and> at js len b (scalar_text v) \<and>
    (\<forall>s. compareJsonString js t JSMN_STRING s \<longleftrightarrow> v = JStr s)"
proof (cases v)
  case (JPrim s)
  then show ?thesis
    using assms(2) compare_at [of js len a s] by (simp add: container_token_def)
next
  case (JStr s)
  then have "at js len (a + 1) s" "\<forall>k. compareJsonString js (string_token a s 0) JSMN_STRING k \<longleftrightarrow> s = k"
    using assms(2) at_quote [of js len a s] by (simp_all add: string_token_compare)
  then show ?thesis using JStr by (intro exI [of _ "string_token a s 0"] exI [of _ "a + 1"]) (simp add: string_token_def)
qed (use assms(1) in auto)

text \<open>A C string with a length that starts with a text.\<close>

definition text_at :: "string \<times> UINT32 \<Rightarrow> string \<Rightarrow> bool" where
  "text_at v t \<longleftrightarrow> snd v = of_nat (length t) \<and> NUL \<notin> set t \<and> length (fst v) < 2 ^ 32 \<and> (\<exists>r. fst v = t @ r \<and> NUL \<notin> set r)"

lemma cstring_from_at:
  assumes "at js len a s" "NUL \<notin> set s"
  shows "\<exists>r. cstring_from js a = s @ r \<and> NUL \<notin> set r"
proof -
  have "take (length s) (drop a js) = s" using assms(1) by (simp add: at_def substring_def)
  then obtain r where "drop a js = s @ r" by (metis append_take_drop_id)
  moreover have "takeWhile (\<lambda>x. x \<noteq> NUL) (t @ r) = t @ takeWhile (\<lambda>x. x \<noteq> NUL) r" if "NUL \<notin> set t" for t
    using that by (induction t) auto
  ultimately have "cstring_from js a = s @ takeWhile (\<lambda>x. x \<noteq> NUL) r" using assms(2) by (simp add: cstring_from_def)
  then show ?thesis using set_takeWhileD by fastforce
qed

definition iot_member :: "string \<times> json \<Rightarrow> bool" where
  "iot_member m \<longleftrightarrow> scalar (snd m) \<and>
     (if fst m \<in> set iot_keys then length (scalar_text (snd m)) \<le> iot_limit (fst m) else snd m \<notin> JStr ` set iot_keys)"

text \<open>What the loop finds of members with different names.\<close>

definition iot_found :: "(string \<times> json) list \<Rightarrow> iot_values \<Rightarrow> iot_values \<Rightarrow> bool" where
  "iot_found ms vals vals' \<longleftrightarrow> (\<forall>k. case map_of ms k of
     Some v \<Rightarrow> if k \<in> set iot_keys then \<exists>x. vals' k = Some x \<and> text_at x (scalar_text v) else vals' k = vals k
   | None \<Rightarrow> vals' k = vals k)"

lemma iot_limit_le: "iot_limit k \<le> 2048"
  by (simp add: iot_limit_def MAX_ACCESS_KEY_LEN_def MAX_SECRET_KEY_LEN_def MAX_SESSION_TOKEN_LEN_def MAX_EXPIRATION_LEN_def)

lemma iot_members:
  assumes "ms \<noteq> [] \<Longrightarrow> at js len a (print_members ms)" "\<forall>m\<in>set ms. iot_member m \<and> json_ok (snd m)" "distinct (map fst ms)" "length js < 2 ^ 32" "tokens = pre @ member_tokens a ms"
  shows "\<exists>vals'. iot_loop js tokens (length pre) vals = Some (STATUS_SUCCESS, vals') \<and> iot_found ms vals vals'"
  using assms
proof (induction ms arbitrary: a pre vals)
  case Nil
  then show ?case by (subst iot_loop.simps) (simp add: iot_found_def)
next
  case (Cons m ms)
  obtain k v where m: "m = (k, v)" "scalar v" "NUL \<notin> set (scalar_text v)"
      "k \<in> set iot_keys \<Longrightarrow> length (scalar_text v) \<le> iot_limit k" "k \<notin> set iot_keys \<Longrightarrow> v \<notin> JStr ` set iot_keys"
    using Cons.prems(2) by (cases m) (fastforce simp: iot_member_def scalar_NUL split: if_splits)
  define b where "b = a + length k + 3"
  have at: "at js len a (quote k)" "at js len b (print_json v)"
      "ms \<noteq> [] \<Longrightarrow> at js len (b + length (print_json v) + 1) (print_members ms)"
    using Cons.prems(1) by (auto simp: m b_def at_append at_Cons quote_def numeral_3_eq_3 split: if_splits)
  obtain t c where t: "json_tokens b v = [t]" "tok_start t = int c" "tok_end t = int (c + length (scalar_text v))"
      "at js len c (scalar_text v)" "\<forall>s. compareJsonString js t JSMN_STRING s \<longleftrightarrow> v = JStr s"
    using scalar_token_place [OF m(2) at(2)] by blast
  define pre' where "pre' = pre @ [string_token a k 1, t]"
  have tokens: "tokens = pre' @ member_tokens (b + length (print_json v) + 1) ms"
    using Cons.prems(5) t(1) by (simp add: m b_def pre'_def)
  have rest: "\<forall>m\<in>set ms. iot_member m \<and> json_ok (snd m)" "distinct (map fst ms)" "map_of ms k = None"
    using Cons.prems(2,3) by (auto simp: m map_of_eq_None_iff)
  note IH = Cons.IH [OF at(3) rest(1,2) Cons.prems(4) tokens]
  have k: "find (compareJsonString js (tokens ! length pre) JSMN_STRING) iot_keys = (if k \<in> set iot_keys then Some k else None)"
    by (rule find_key) (simp add: tokens pre'_def nth_append string_token_compare [OF at(1)] eq_commute)
  show ?case
  proof (cases "k \<in> set iot_keys")
    case True
    have n: "token_len t = of_nat (length (scalar_text v))" by (simp add: token_len_def t(2,3))
    have "length (scalar_text v) < 2 ^ 32" using m(4) [OF True] iot_limit_le [of k] by simp
    then have le: "unat (token_len t) \<le> iot_limit k" using m(4) [OF True] by (simp add: n unat_of_nat take_bit_nat_eq_self)
    define x where "x = (cstring_from js c, token_len t)"
    have x: "text_at x (scalar_text v)" 
      using cstring_from_at [OF t(4) m(3)] Cons.prems(4) m(3) length_takeWhile_le [of "\<lambda>x. x \<noteq> NUL" "drop c js"]
      by (auto simp: text_at_def x_def n) (simp add: cstring_from_def)
    obtain vals' where v: "iot_loop js tokens (length pre') (vals(k \<mapsto> x)) = Some (STATUS_SUCCESS, vals')" "iot_found ms (vals(k \<mapsto> x)) vals'"
      using IH by blast
    have "iot_loop js tokens (length pre) vals = iot_loop js tokens (length pre') (vals(k \<mapsto> x))"
      by (subst iot_loop.simps) (simp add: k True, simp add: tokens pre'_def nth_append le x_def t(2))
    moreover have "iot_found (m # ms) vals vals'"
      using v(2) x rest(3) True by (cases x) (auto simp: iot_found_def m split: option.splits if_splits)
    ultimately show ?thesis using v(1) by auto
  next
    case False
    then have "find (compareJsonString js t JSMN_STRING) iot_keys = None" using t(5) m(5) by (auto simp: find_None_iff)
    then have "iot_loop js tokens (length pre) vals = iot_loop js tokens (length pre') vals"
      by (subst iot_loop.simps, simp add: k False) (subst iot_loop.simps, simp add: tokens pre'_def nth_append)
    moreover obtain vals' where v: "iot_loop js tokens (length pre') vals = Some (STATUS_SUCCESS, vals')" "iot_found ms vals vals'"
      using IH by blast
    moreover have "iot_found (m # ms) vals vals'"
      using v(2) rest(3) False by (auto simp: iot_found_def m split: option.splits if_splits)
    ultimately show ?thesis by auto
  qed
qed

subsection \<open>What becomes of the provider\<close>

text \<open>The provider's invariant: its functions are set and its credentials are live.\<close>

definition iot_inv :: "cheap \<Rightarrow> UINT64 \<Rightarrow> bool" where
  "iot_inv h p \<longleftrightarrow> p \<noteq> 0 \<and> (\<exists>f. h p = Some (OIot f) \<and> ip_getCurrentTimeFn f \<noteq> None \<and>
     (ip_pAwsCredentials f \<noteq> 0 \<longrightarrow> (\<exists>c. h (ip_pAwsCredentials f) = Some (OCredentials c))))"

text \<open>The heap without the old credentials, and with new ones.\<close>

definition iot_dropped :: "cheap \<Rightarrow> UINT64 \<Rightarrow> IotCredentialProvider \<Rightarrow> cheap" where
  "iot_dropped h p f = (if ip_pAwsCredentials f = 0 then h else h(ip_pAwsCredentials f := None))(p \<mapsto> OIot (f\<lparr>ip_pAwsCredentials := 0\<rparr>))"

definition iot_filled :: "cheap \<Rightarrow> UINT64 \<Rightarrow> IotCredentialProvider \<Rightarrow> UINT64 \<Rightarrow> AwsCredentials \<Rightarrow> cheap" where
  "iot_filled h p f q c = (iot_dropped h p f)(q \<mapsto> OCredentials c, p \<mapsto> OIot (f\<lparr>ip_pAwsCredentials := q\<rparr>))"

lemma fits_text:
  assumes "consts_ok K" "text_at v t" "t \<noteq> []" "length t \<le> 2048"
  shows "fits K (fst v) (snd v)" "arg_string K (fst v) (snd v) = t"
proof -
  have n: "unat (snd v) = length t" using assms(2,4) by (simp add: text_at_def unat_of_nat take_bit_nat_eq_self)
  then have "snd v \<noteq> 0" using assms(3) by auto
  then show "arg_string K (fst v) (snd v) = t" using assms(2) n by (auto simp: arg_string_def given_len_def text_at_def)
  show "fits K (fst v) (snd v)" using assms n by (auto simp: fits_def text_at_def consts_ok_def)
qed

lemma replace_iot_result:
  fixes e :: UINT64
  assumes "consts_ok (pe_consts (ie_cred I))" "iot_inv h p" "h p = Some (OIot f)"
    and "text_at a A" "A \<noteq> []" "length A \<le> 2048" and "text_at k S" "S \<noteq> []" "length S \<le> 2048" and "text_at t T" "T \<noteq> []" "length T \<le> 2048"
  defines "c \<equiv> credentials_of (pe_consts (ie_cred I)) A S (Some T) e"
  shows "replace_iot_credentials I h p f a k t e = Some (
    if \<not> SIZEOF_AwsCredentials (pe_consts (ie_cred I)) + length (ac_data c) < MAX_AUTH_LEN (pe_consts (ie_cred I))
    then (STATUS_INVALID_AUTH_LEN, iot_dropped h p f)
    else case pe_calloc (ie_cred I) (iot_dropped h p f) of
        None \<Rightarrow> (STATUS_NOT_ENOUGH_MEMORY, iot_dropped h p f)
      | Some q \<Rightarrow> (STATUS_SUCCESS, iot_filled h p f q c))"
proof -
  let ?K = "pe_consts (ie_cred I)"
  have ac: "MAX_AUTH_LEN ?K < 2 ^ 29" "SIZEOF_AwsCredentials ?K < 2 ^ 29" using assms(1) by (simp_all add: consts_ok_def)
  have fr: "(if ip_pAwsCredentials f \<noteq> 0 then map_option (\<lambda>(_, _, h'). h') (freeAwsCredentials h (Some (ip_pAwsCredentials f))) else Some h) =
      Some (if ip_pAwsCredentials f = 0 then h else h(ip_pAwsCredentials f := None))"
    using assms(2,3) by (auto simp: iot_inv_def freeAwsCredentials_def)
  have pd: "(iot_dropped h p f)(p \<mapsto> OIot (f\<lparr>ip_pAwsCredentials := 0\<rparr>)) = iot_dropped h p f" by (simp add: iot_dropped_def)
  note A = fits_text [OF assms(1,4-6)] and S = fits_text [OF assms(1,7-9)] and T = fits_text [OF assms(1,10-12)]
  have "case Some (fst t) of None \<Rightarrow> snd t = 0 | Some s \<Rightarrow> fits ?K s (snd t)" using T(1) by simp
  note create = createAwsCredentials_fits [OF ac A(1) S(1) this]
  have "replace_iot_credentials I h p f a k t e = map_option (\<lambda>(st, q, h3). (st, h3(p \<mapsto> OIot (f\<lparr>ip_pAwsCredentials := q\<rparr>))))
      (createAwsCredentials ?K (pe_calloc (ie_cred I)) (iot_dropped h p f) (Some (fst a)) (snd a) (Some (fst k)) (snd k) (Some (fst t)) (snd t) e True)"
    unfolding replace_iot_credentials_def fr Let_def iot_dropped_def
    by (simp split: option.splits bind_splits)
  then show ?thesis
    unfolding create by (simp add: A(2) S(2) T(2) c_def pd iot_filled_def split: option.splits)
qed

text \<open>The service's answer: an object with one member, the credentials.\<close>

definition iot_answer :: "(string \<times> json) list \<Rightarrow> json" where
  "iot_answer ms = JObj [(''credentials'', JObj ms)]"

lemma iot_answer_values:
  fixes rest :: string
  assumes "json_ok (iot_answer ms)" "distinct (map fst ms)" "\<forall>m\<in>set ms. iot_member m"
  defines "js \<equiv> print_json (iot_answer ms) @ rest"
  assumes "length js < 2 ^ 32"
  shows "\<exists>vals. iot_loop js (json_tokens 0 (iot_answer ms)) 1 (\<lambda>_. None) = Some (STATUS_SUCCESS, vals) \<and> iot_found ms (\<lambda>_. None) vals"
proof -
  define len a where "len = length (print_json (iot_answer ms))" and "a = length (quote ''credentials'') + 2"
  have "at js len 0 (print_json (iot_answer ms))" by (simp add: at_def js_def len_def)
  then have at: "at js len 1 (quote ''credentials'')" "at js len (a + 1) (print_members ms)"
    by (simp_all add: iot_answer_def at_Cons at_append quote_def a_def)
  define t0 t1 where "t0 = json_tokens 0 (iot_answer ms) ! 0" and "t1 = json_tokens a (JObj ms) ! 0"
  define pre where "pre = [t0, string_token 1 ''credentials'' 1, t1]"
  have tokens: "json_tokens 0 (iot_answer ms) = pre @ member_tokens (a + 1) ms"
    by (simp add: pre_def t0_def t1_def iot_answer_def a_def quote_def eval_nat_numeral)
  define tokens' where "tokens' = pre @ member_tokens (a + 1) ms"
  have n: "tokens' ! 1 = string_token 1 ''credentials'' 1" "tokens' ! 2 = t1" "1 < length tokens'" "2 < length tokens'" "length pre = 3"
    by (simp_all add: tokens'_def pre_def numeral_2_eq_2 numeral_3_eq_3)
  have k1: "find (compareJsonString js (tokens' ! 1) JSMN_STRING) iot_keys = None"
    unfolding n(1) by (simp add: find_None_iff string_token_compare [OF at(1), simplified] iot_keys_def)
  have k2: "find (compareJsonString js (tokens' ! 2) JSMN_STRING) iot_keys = None"
    unfolding n(2) by (simp add: find_None_iff t1_def container_token_def compareJsonString_def)
  have "iot_loop js tokens' 1 (\<lambda>_. None) = iot_loop js tokens' (length pre) (\<lambda>_. None)"
    using iot_loop_skip [OF n(3) k1] iot_loop_skip [OF n(4) k2] by (simp add: n(5) numeral_2_eq_2 numeral_3_eq_3)
  moreover have "\<exists>vals. iot_loop js tokens' (length pre) (\<lambda>_. None) = Some (STATUS_SUCCESS, vals) \<and> iot_found ms (\<lambda>_. None) vals"
    by (rule iot_members [OF at(2)]) (use assms(1-3,5) in \<open>auto simp: tokens'_def iot_answer_def\<close>)
  ultimately show ?thesis by (simp add: tokens tokens'_def)
qed

subsection \<open>The request\<close>

lemma createRequestInfo_fields:
  assumes "request_list ops items node_at E"
    and "createRequestInfo E (Some url) body (Some region) (Some certPath) (Some sslCertPath) (Some sslPrivateKeyPath) certType userAgent
      connectionTimeout completionTimeout lowSpeedLimit lowSpeedTimeLimit pAwsCredentials True hh = Some (STATUS_SUCCESS, Some r, hh')"
  shows "ri_url r = take (re_maxUri E) url \<and> ri_certPath r = take (re_maxPath E) certPath \<and> ri_sslCertPath r = take (re_maxPath E) sslCertPath \<and>
    ri_sslPrivateKeyPath r = take (re_maxPath E) sslPrivateKeyPath \<and> ri_certType r = certType \<and> ri_connectionTimeout r = connectionTimeout \<and>
    ri_completionTimeout r = completionTimeout \<and> ri_lowSpeedLimit r = lowSpeedLimit \<and> ri_lowSpeedTimeLimit r = lowSpeedTimeLimit"
proof -
  define r0 :: "'a RequestInfo" where "r0 = \<lparr>ri_terminating = False, ri_verb = HTTP_REQUEST_VERB_POST, ri_body = body,
     ri_bodySize = (case body of None \<Rightarrow> 0 | Some b \<Rightarrow> of_nat (length b)),
     ri_url = STRNCPY url (re_maxUri E), ri_certPath = optional_path (re_maxPath E) (Some certPath),
     ri_sslCertPath = optional_path (re_maxPath E) (Some sslCertPath), ri_sslPrivateKeyPath = optional_path (re_maxPath E) (Some sslPrivateKeyPath),
     ri_certType = certType, ri_region = STRNCPY region MAX_REGION_NAME_LEN, ri_currentTime = re_time E,
     ri_completionTimeout = completionTimeout, ri_connectionTimeout = connectionTimeout, ri_callAfter = re_time E,
     ri_lowSpeedLimit = lowSpeedLimit, ri_lowSpeedTimeLimit = lowSpeedTimeLimit, ri_pAwsCredentials = pAwsCredentials,
     ri_pRequestHeaders = snd (re_listCreate E)\<rparr>"
  have "setRequestHeader E (Some r0) (Some ''user-agent'') 0 userAgent 0 hh = Some (STATUS_SUCCESS, Some r, hh')"
    using assms(2) unfolding createRequestInfo_def r0_def Let_def by (auto split: if_splits bind_splits option.splits)
  then obtain l where "r = r0\<lparr>ri_pRequestHeaders := l\<rparr>" using request_list.setRequestHeader_keeps [OF assms(1)] by blast
  then show ?thesis by (simp add: r0_def optional_path_def STRNCPY_def)
qed

text \<open>A thing name that can be the value of a header.\<close>

definition thing_ok :: "string \<Rightarrow> bool" where
  "thing_ok s \<longleftrightarrow> s \<noteq> [] \<and> NUL \<notin> set s \<and> length s < MAX_REQUEST_HEADER_VALUE_LEN"

definition iot_header_pairs :: "IotCredentialProvider \<Rightarrow> header list" where
  "iot_header_pairs f = [(''user-agent'', DEFAULT_USER_AGENT_NAME), (IOT_THING_NAME_HEADER, ip_thingName f)]"

lemma thing_header_behind: "fold_key ''user-agent'' \<le> fold_key IOT_THING_NAME_HEADER"
  by code_simp

lemma iot_args_ok:
  assumes "thing_ok s"
  shows "arg_ok IOT_THING_NAME_HEADER 0" "arg_ok s 0" "arg_ok ''user-agent'' 0" "arg_ok DEFAULT_USER_AGENT_NAME 0"
    "header_ok (header_of IOT_THING_NAME_HEADER 0 s 0)" "header_ok (header_of ''user-agent'' 0 DEFAULT_USER_AGENT_NAME 0)"
proof -
  show ok: "arg_ok IOT_THING_NAME_HEADER 0" "arg_ok s 0" "arg_ok ''user-agent'' 0" "arg_ok DEFAULT_USER_AGENT_NAME 0"
    using assms by (simp_all add: arg_ok_def thing_ok_def IOT_THING_NAME_HEADER_def DEFAULT_USER_AGENT_NAME_def NUL_char MAX_REQUEST_HEADER_VALUE_LEN_def)
  show "header_ok (header_of IOT_THING_NAME_HEADER 0 s 0)"
    by (rule header_of_ok [OF ok(1,2)]) (use assms in \<open>simp add: header_args_status_def header_arg_def thing_ok_def IOT_THING_NAME_HEADER_def MAX_REQUEST_HEADER_NAME_LEN_def\<close>)
  show "header_ok (header_of ''user-agent'' 0 DEFAULT_USER_AGENT_NAME 0)"
    by (rule header_of_ok [OF ok(3,4)])
      (simp add: header_args_status_def header_arg_def DEFAULT_USER_AGENT_NAME_def MAX_REQUEST_HEADER_NAME_LEN_def MAX_REQUEST_HEADER_VALUE_LEN_def)
qed

text \<open>
  Making the request fails and leaves the headers as they were, or gives a request of the provider's
  fields whose release leaves the headers as they were; when the thing name could be set, the request
  has exactly the two headers.
\<close>

lemma iot_request_made:
  fixes R :: "('l, 'n) request_env" and hh :: hheap
  assumes "request_list ops items node_at R" "re_listCreate R = (STATUS_SUCCESS, pl)" "thing_ok (ip_thingName f)"
  defines "c \<equiv> createRequestInfo R (Some (iot_url f)) None (Some DEFAULT_AWS_REGION) (Some (ip_caCertPath f)) (Some (ip_certPath f))
       (Some (ip_privateKeyPath f)) SSL_CERTIFICATE_TYPE_PEM (Some DEFAULT_USER_AGENT_NAME) (ip_connectionTimeout f) (ip_completionTimeout f)
       DEFAULT_LOW_SPEED_LIMIT DEFAULT_LOW_SPEED_TIME_LIMIT (ip_pAwsCredentials f) True hh"
  shows "(\<exists>st. st \<noteq> STATUS_SUCCESS \<and> c = Some (st, None, hh)) \<or>
    (\<exists>r hh1 st1 r1 hh2. c = Some (STATUS_SUCCESS, Some r, hh1) \<and>
      setRequestHeader R (Some r) (Some IOT_THING_NAME_HEADER) 0 (Some (ip_thingName f)) 0 hh1 = Some (st1, Some r1, hh2) \<and>
      freeRequestInfo R (Some (Some r1)) hh2 = Some (STATUS_SUCCESS, Some None, hh) \<and>
      (st1 = STATUS_SUCCESS \<longrightarrow> request_inv items r1 hh2 \<and> headers_ok hh2 (header_list items r1) \<and> header_pairs items r1 hh2 = iot_header_pairs f \<and>
        ri_url r1 = take (re_maxUri R) (iot_url f) \<and> ri_certPath r1 = take (re_maxPath R) (ip_caCertPath f) \<and>
        ri_sslCertPath r1 = take (re_maxPath R) (ip_certPath f) \<and> ri_sslPrivateKeyPath r1 = take (re_maxPath R) (ip_privateKeyPath f) \<and>
        ri_certType r1 = SSL_CERTIFICATE_TYPE_PEM \<and> ri_connectionTimeout r1 = ip_connectionTimeout f \<and> ri_completionTimeout r1 = ip_completionTimeout f \<and>
        ri_lowSpeedLimit r1 = DEFAULT_LOW_SPEED_LIMIT \<and> ri_lowSpeedTimeLimit r1 = DEFAULT_LOW_SPEED_TIME_LIMIT))"
proof -
  note ok = iot_args_ok [OF assms(3)]
  obtain st pr hh1 where c: "c = Some (st, pr, hh1)" "st \<noteq> STATUS_SUCCESS \<Longrightarrow> pr = None \<and> hh1 = hh"
      "st = STATUS_SUCCESS \<Longrightarrow> \<exists>r p. pr = Some r \<and> request_inv items r hh1 \<and> hh p = None \<and>
         hh1 = hh(p \<mapsto> header_of ''user-agent'' 0 DEFAULT_USER_AGENT_NAME 0) \<and> header_list items r = [p]"
  proof -
    have "Some DEFAULT_USER_AGENT_NAME \<noteq> None \<longrightarrow> arg_ok (the (Some DEFAULT_USER_AGENT_NAME)) 0" using ok(4) by simp
    from request_list.createRequestInfo_outcome [OF assms(1,2) this, of "iot_url f" None DEFAULT_AWS_REGION "Some (ip_caCertPath f)" "Some (ip_certPath f)"
        "Some (ip_privateKeyPath f)" SSL_CERTIFICATE_TYPE_PEM "ip_connectionTimeout f" "ip_completionTimeout f" DEFAULT_LOW_SPEED_LIMIT
        DEFAULT_LOW_SPEED_TIME_LIMIT "ip_pAwsCredentials f" hh, folded c_def]
    show thesis by (elim exE conjE, intro that) (assumption | blast)+
  qed
  show ?thesis
  proof (cases "st = STATUS_SUCCESS")
    case False
    then show ?thesis using c(1,2) by simp
  next
    case True
    then obtain r p where r: "pr = Some r" "request_inv items r hh1" "hh p = None"
        "hh1 = hh(p \<mapsto> header_of ''user-agent'' 0 DEFAULT_USER_AGENT_NAME 0)" "header_list items r = [p]"
      using c(3) by blast
    have pos: "header_pos hh1 (fold_key (header_arg IOT_THING_NAME_HEADER 0)) [p] = 1"
      using thing_header_behind by (simp add: header_pos_def header_key_def header_arg_def r(4) header_of_def)
    obtain st1 r1 hh2 where s: "setRequestHeader R (Some r) (Some IOT_THING_NAME_HEADER) 0 (Some (ip_thingName f)) 0 hh1 = Some (st1, Some r1, hh2)"
        "request_inv items r1 hh2" "st1 \<noteq> STATUS_SUCCESS \<Longrightarrow> hh2 = hh1 \<and> header_list items r1 = [p]"
        "st1 = STATUS_SUCCESS \<Longrightarrow> \<exists>q. hh1 q = None \<and> hh2 = hh1(q \<mapsto> header_of IOT_THING_NAME_HEADER 0 (ip_thingName f) 0) \<and> header_list items r1 = [p, q]"
      using request_list.set_header_args [OF assms(1) r(2) ok(1,2)] unfolding r(5) pos by auto
    have "released (set (header_list items r1)) hh2 = hh"
    proof (cases "st1 = STATUS_SUCCESS")
      case True
      then obtain q where q: "hh1 q = None" "hh2 = hh1(q \<mapsto> header_of IOT_THING_NAME_HEADER 0 (ip_thingName f) 0)" "header_list items r1 = [p, q]"
        using s(4) by blast
      then show ?thesis using r(3,4) by (auto simp: released_def split: if_splits)
    next
      case False
      then show ?thesis using s(3) r(3,4) by (auto simp: released_def)
    qed
    then have free: "freeRequestInfo R (Some (Some r1)) hh2 = Some (STATUS_SUCCESS, Some None, hh)"
      using request_list.freeRequestInfo_outcome [OF assms(1) s(2)] by simp
    obtain l where keep: "r1 = r\<lparr>ri_pRequestHeaders := l\<rparr>" using request_list.setRequestHeader_keeps [OF assms(1) s(1)] by blast
    have cs: "c = Some (STATUS_SUCCESS, Some r, hh1)" using c(1) True r(1) by simp
    note fields = createRequestInfo_fields [OF assms(1) cs [unfolded c_def]]
    have two: "headers_ok hh2 (header_list items r1) \<and> header_pairs items r1 hh2 = iot_header_pairs f" if set: "st1 = STATUS_SUCCESS"
    proof -
      obtain q where q: "hh1 q = None" "hh2 = hh1(q \<mapsto> header_of IOT_THING_NAME_HEADER 0 (ip_thingName f) 0)" "header_list items r1 = [p, q]"
        using s(4) set by blast
      have qp: "q \<noteq> p" using q(1) r(4) by auto
      then have "hh2 p = Some (header_of ''user-agent'' 0 DEFAULT_USER_AGENT_NAME 0)" "hh2 q = Some (header_of IOT_THING_NAME_HEADER 0 (ip_thingName f) 0)"
        by (simp_all add: q(2) r(4))
      then show ?thesis using ok(5,6) q(3)
        by (simp add: headers_ok_def header_pairs_def header_pair_def iot_header_pairs_def header_of_def header_arg_def)
    qed
    have kept: "ri_url r1 = ri_url r" "ri_certPath r1 = ri_certPath r" "ri_sslCertPath r1 = ri_sslCertPath r" "ri_sslPrivateKeyPath r1 = ri_sslPrivateKeyPath r"
        "ri_certType r1 = ri_certType r" "ri_connectionTimeout r1 = ri_connectionTimeout r" "ri_completionTimeout r1 = ri_completionTimeout r"
        "ri_lowSpeedLimit r1 = ri_lowSpeedLimit r" "ri_lowSpeedTimeLimit r1 = ri_lowSpeedTimeLimit r"
      by (simp_all add: keep)
    show ?thesis
      by (rule disjI2, rule exI [of _ r], rule exI [of _ hh1], rule exI [of _ st1], rule exI [of _ r1], rule exI [of _ hh2])
        (intro conjI impI; (rule cs s(1,2) free)?; (simp only: two kept fields)?)
  qed
qed

subsection \<open>The call\<close>

text \<open>The options of the call: the provider's certificate and key, its two headers and its timeouts.\<close>

definition iot_options :: "('l, 'n, 'q, 'x) iot_env \<Rightarrow> IotCredentialProvider \<Rightarrow> CURL" where
  "iot_options I f = snd (secure_options (ku_stat (ie_curl I)) (re_maxPath (ku_request (ie_curl I))) (iot_url f) (ip_caCertPath f)) @
     [CURLOPT_HTTPHEADER (map header_text (iot_header_pairs f)), CURLOPT_ERRORBUFFER, CURLOPT_URL (iot_url f), CURLOPT_SSLCERTTYPE ''PEM'',
      CURLOPT_SSLCERT (ip_certPath f), CURLOPT_SSLKEY (ip_privateKeyPath f), CURLOPT_WRITEFUNCTION ''writeCurlResponseCallback'',
      CURLOPT_CONNECTTIMEOUT_MS (ip_connectionTimeout f div HUNDREDS_OF_NANOS_IN_A_MILLISECOND)] @
     (if ip_completionTimeout f \<noteq> ku_INFINITE_TIMEOUT (ie_curl I)
      then [CURLOPT_TIMEOUT_MS (ip_completionTimeout f div HUNDREDS_OF_NANOS_IN_A_MILLISECOND)] else []) @
     [CURLOPT_LOW_SPEED_TIME (DEFAULT_LOW_SPEED_TIME_LIMIT div HUNDREDS_OF_NANOS_IN_A_SECOND), CURLOPT_LOW_SPEED_LIMIT DEFAULT_LOW_SPEED_LIMIT]"

text \<open>A provider whose call is the one by curl, with a thing name and paths that fit.\<close>

definition iot_fits :: "('l, 'n, 'q, 'x) iot_env \<Rightarrow> IotCredentialProvider \<Rightarrow> bool" where
  "iot_fits I f \<longleftrightarrow> ip_serviceCallFn f = Some (C_FUN ''blockingCurlCall'') \<and> thing_ok (ip_thingName f) \<and>
     length (iot_url f) < re_maxUri (ku_request (ie_curl I)) \<and>
     (\<forall>s\<in>{ip_caCertPath f, ip_certPath f, ip_privateKeyPath f}. length s \<le> re_maxPath (ku_request (ie_curl I)))"

text \<open>What the call needs of curl and of the list of headers.\<close>

definition iot_curl_ok :: "('l, 'n, 'q, 'x) iot_env \<Rightarrow> bool" where
  "iot_curl_ok I \<longleftrightarrow> fst (re_listCreate (ku_request (ie_curl I))) = STATUS_SUCCESS \<and> (\<forall>hs t. ku_slistAppend (ie_curl I) hs t)"

text \<open>
  The call is made: the request and its header can be allocated, and curl takes the settings.
\<close>

definition iot_call_made :: "('l, 'n, 'q, 'x) iot_env \<Rightarrow> IotCredentialProvider \<Rightarrow> hheap \<Rightarrow> bool" where
  "iot_call_made I f hh = (let R = ku_request (ie_curl I) in
     case createRequestInfo R (Some (iot_url f)) None (Some DEFAULT_AWS_REGION) (Some (ip_caCertPath f)) (Some (ip_certPath f))
       (Some (ip_privateKeyPath f)) SSL_CERTIFICATE_TYPE_PEM (Some DEFAULT_USER_AGENT_NAME) (ip_connectionTimeout f) (ip_completionTimeout f)
       DEFAULT_LOW_SPEED_LIMIT DEFAULT_LOW_SPEED_TIME_LIMIT (ip_pAwsCredentials f) True hh of
       Some (st, Some r, hh1) \<Rightarrow> st = STATUS_SUCCESS \<and>
         (case setRequestHeader R (Some r) (Some IOT_THING_NAME_HEADER) 0 (Some (ip_thingName f)) 0 hh1 of
            Some (st1, Some r1, hh2) \<Rightarrow> st1 = STATUS_SUCCESS \<and> ie_globalInit I \<and> ku_easyInit (ie_curl I) \<and>
              fst (blocking_options (ie_curl I) r1 (map header_text (iot_header_pairs f))) = STATUS_SUCCESS
          | _ \<Rightarrow> False)
     | _ \<Rightarrow> False)"

text \<open>
  One request: it fails without a call that is answered, or the blocking call ends in a status and
  an answer that depends on nothing but what curl does with the options of the provider; the headers
  are released in each case.
\<close>

lemma iot_request_outcome:
  fixes I :: "('l, 'n, 'q, 'x) iot_env" and w :: "'y iot_world"
  assumes "curl_call ops items node_at (ie_curl I) space queued" "iot_curl_ok I" "iot_fits I f"
  shows "\<not> iot_call_made I f (iw_headers w) \<and>
      (\<exists>st w'. st \<noteq> STATUS_SUCCESS \<and> iot_request I h p f w = Some (st, h, w') \<and> iw_headers w' = iw_headers w \<and> iw_rest w' = iw_rest w) \<or>
    iot_call_made I f (iw_headers w) \<and> iot_request I h p f w = do {
      (res, httpStatusCode, ci) \<leftarrow> ie_perform I (iw_calls w) (iot_options I f) zero_CallInfo;
      (st, h1) \<leftarrow> (if res = CURLE_OK \<and> httpStatusCode = HTTP_STATUS_CODE_OK then parseIotResponse I h p (Some ci) else Some (STATUS_CURL_PERFORM_FAILED, h));
      (_, _, hh) \<leftarrow> releaseCallInfo (ku_queue (ie_curl I)) (Some ci) (iw_headers w);
      Some (st, h1, w\<lparr>iw_calls := iw_calls w + 1, iw_headers := hh\<rparr>)
    }"
proof -
  let ?R = "ku_request (ie_curl I)" and ?E = "ie_curl I"
  have R: "request_list ops items node_at ?R" using assms(1) by (simp add: curl_call_def)
  obtain pl where pl: "re_listCreate ?R = (STATUS_SUCCESS, pl)" using assms(2) by (metis iot_curl_ok_def prod.collapse)
  have fit: "ip_serviceCallFn f = Some (C_FUN ''blockingCurlCall'')" "thing_ok (ip_thingName f)"
      "take (re_maxUri ?R) (iot_url f) = iot_url f" "take (re_maxPath ?R) (ip_caCertPath f) = ip_caCertPath f"
      "take (re_maxPath ?R) (ip_certPath f) = ip_certPath f" "take (re_maxPath ?R) (ip_privateKeyPath f) = ip_privateKeyPath f"
    using assms(3) by (simp_all add: iot_fits_def)
  have zr: "releaseCallInfo ops' (Some zero_CallInfo) hh = Some (STATUS_SUCCESS, Some zero_CallInfo, hh)" for ops' :: "'q stack_queue_ops" and hh
    by (simp add: releaseCallInfo_def zero_CallInfo_def)
  let ?c = "createRequestInfo ?R (Some (iot_url f)) None (Some DEFAULT_AWS_REGION) (Some (ip_caCertPath f)) (Some (ip_certPath f))
       (Some (ip_privateKeyPath f)) SSL_CERTIFICATE_TYPE_PEM (Some DEFAULT_USER_AGENT_NAME) (ip_connectionTimeout f) (ip_completionTimeout f)
       DEFAULT_LOW_SPEED_LIMIT DEFAULT_LOW_SPEED_TIME_LIMIT (ip_pAwsCredentials f) True (iw_headers w)"
  from iot_request_made [OF R pl fit(2), of "iw_headers w"] show ?thesis
  proof (elim disjE exE conjE)
    fix st
    assume "st \<noteq> STATUS_SUCCESS" "?c = Some (st, None, iw_headers w)"
    then show ?thesis by (simp add: iot_request_def iot_call_made_def Let_def)
  next
    fix r hh1 st1 r1 hh2
    assume c: "?c = Some (STATUS_SUCCESS, Some r, hh1)"
      and s: "setRequestHeader ?R (Some r) (Some IOT_THING_NAME_HEADER) 0 (Some (ip_thingName f)) 0 hh1 = Some (st1, Some r1, hh2)"
      and free: "freeRequestInfo ?R (Some (Some r1)) hh2 = Some (STATUS_SUCCESS, Some None, iw_headers w)"
      and made: "st1 = STATUS_SUCCESS \<longrightarrow> request_inv items r1 hh2 \<and> headers_ok hh2 (header_list items r1) \<and> header_pairs items r1 hh2 = iot_header_pairs f \<and>
        ri_url r1 = take (re_maxUri ?R) (iot_url f) \<and> ri_certPath r1 = take (re_maxPath ?R) (ip_caCertPath f) \<and>
        ri_sslCertPath r1 = take (re_maxPath ?R) (ip_certPath f) \<and> ri_sslPrivateKeyPath r1 = take (re_maxPath ?R) (ip_privateKeyPath f) \<and>
        ri_certType r1 = SSL_CERTIFICATE_TYPE_PEM \<and> ri_connectionTimeout r1 = ip_connectionTimeout f \<and> ri_completionTimeout r1 = ip_completionTimeout f \<and>
        ri_lowSpeedLimit r1 = DEFAULT_LOW_SPEED_LIMIT \<and> ri_lowSpeedTimeLimit r1 = DEFAULT_LOW_SPEED_TIME_LIMIT"
    show ?thesis
    proof (cases "st1 = STATUS_SUCCESS")
      case False
      then show ?thesis using c s free zr by (simp add: iot_request_def iot_call_made_def Let_def)
    next
      case True
      note m = made [rule_format, OF True, unfolded fit]
      obtain hs where hs: "createCurlHeaderList ?E (Some r1) True hh2 = Some (STATUS_SUCCESS, hs)" "slist_items hs = map header_text (iot_header_pairs f)"
        using curl_call.header_list_lines [OF assms(1), of r1 hh2] m assms(2) by (auto simp: iot_curl_ok_def)
      obtain st2 opts where b: "blocking_options ?E r1 (map header_text (iot_header_pairs f)) = (st2, opts)" by fastforce
      have opts: "opts = iot_options I f" if "st2 = STATUS_SUCCESS"
        using b that unfolding blocking_options_def
        by (auto simp: m iot_options_def getSslCertNameFromType_def split: prod.splits if_splits)
      have call: "blocking_service_call I (ip_serviceCallFn f) r1 zero_CallInfo (w\<lparr>iw_headers := hh2\<rparr>) =
          (if \<not> ie_globalInit I then Some (STATUS_CURL_LIBRARY_INIT_FAILED, r1, zero_CallInfo, w\<lparr>iw_headers := hh2, iw_calls := iw_calls w + 1\<rparr>)
           else if \<not> ku_easyInit ?E then Some (STATUS_CURL_INIT_FAILED, r1, zero_CallInfo, w\<lparr>iw_headers := hh2, iw_calls := iw_calls w + 1\<rparr>)
           else if st2 \<noteq> STATUS_SUCCESS then Some (st2, r1, zero_CallInfo, w\<lparr>iw_headers := hh2, iw_calls := iw_calls w + 1\<rparr>)
           else do {
             (res, httpStatusCode, ci) \<leftarrow> ie_perform I (iw_calls w) opts zero_CallInfo;
             Some (if res = CURLE_OK \<and> httpStatusCode = HTTP_STATUS_CODE_OK then STATUS_SUCCESS else STATUS_CURL_PERFORM_FAILED, r1, ci,
               w\<lparr>iw_headers := hh2, iw_calls := iw_calls w + 1\<rparr>)
           })"
        by (cases "ie_perform I (iw_calls w) opts zero_CallInfo") (simp_all add: blocking_service_call_def fit(1) blockingCurlCall_def hs b split_beta)
      have reached: "iot_call_made I f (iw_headers w) \<longleftrightarrow> ie_globalInit I \<and> ku_easyInit ?E \<and> st2 = STATUS_SUCCESS"
        using c s True b by (simp add: iot_call_made_def Let_def)
      have run: "iot_request I h p f w = do {
          (st2, r2, ci, w2) \<leftarrow> blocking_service_call I (ip_serviceCallFn f) r1 zero_CallInfo (w\<lparr>iw_headers := hh2\<rparr>);
          (st3, h1) \<leftarrow> (if STATUS_FAILED st2 then Some (st2, h) else parseIotResponse I h p (Some ci));
          (_, _, hh3) \<leftarrow> freeRequestInfo ?R (Some (Some r2)) (iw_headers w2);
          (_, _, hh4) \<leftarrow> releaseCallInfo (ku_queue ?E) (Some ci) hh3;
          Some (st3, h1, w2\<lparr>iw_headers := hh4\<rparr>)
        }"
        using c s True by (simp add: iot_request_def Let_def)
      show ?thesis
      proof (cases "ie_globalInit I \<and> ku_easyInit ?E \<and> st2 = STATUS_SUCCESS")
        case False
        then show ?thesis unfolding run call reached using free zr by (simp split: if_splits)
      next
        case True
        have "iot_request I h p f w = do {
            (res, httpStatusCode, ci) \<leftarrow> ie_perform I (iw_calls w) (iot_options I f) zero_CallInfo;
            (st, h1) \<leftarrow> (if res = CURLE_OK \<and> httpStatusCode = HTTP_STATUS_CODE_OK then parseIotResponse I h p (Some ci) else Some (STATUS_CURL_PERFORM_FAILED, h));
            (_, _, hh) \<leftarrow> releaseCallInfo (ku_queue (ie_curl I)) (Some ci) (iw_headers w);
            Some (st, h1, w\<lparr>iw_calls := iw_calls w + 1, iw_headers := hh\<rparr>)
          }"
          unfolding run call using True free opts
          by (cases "ie_perform I (iw_calls w) (iot_options I f) zero_CallInfo") (simp_all add: split_beta)
        then show ?thesis using reached True by (intro disjI2 conjI) simp_all
      qed
    qed
  qed
qed

subsection \<open>From the answer to the credentials\<close>

definition iot_time :: "('l, 'n, 'q, 'x) iot_env \<Rightarrow> IotCredentialProvider \<Rightarrow> UINT64" where
  "iot_time I f = (case ip_getCurrentTimeFn f of None \<Rightarrow> 0 | Some g \<Rightarrow> pe_time (ie_cred I) g (ip_customData f))"

text \<open>The provider has no credentials, or they end within the grace period.\<close>

definition iot_stale :: "('l, 'n, 'q, 'x) iot_env \<Rightarrow> cheap \<Rightarrow> IotCredentialProvider \<Rightarrow> bool" where
  "iot_stale I h f \<longleftrightarrow> ip_pAwsCredentials f = 0 \<or> (case get_credentials h (ip_pAwsCredentials f) of
     None \<Rightarrow> False | Some c \<Rightarrow> ac_expiration c < iot_time I f + IOT_CREDENTIAL_FETCH_GRACE_PERIOD (pe_consts (ie_cred I)))"

text \<open>The texts of the four values of an answer, in the order of the keys.\<close>

definition iot_texts :: "(string \<times> json) list \<Rightarrow> string option list" where
  "iot_texts ms = map (\<lambda>k. map_option scalar_text (map_of ms k)) iot_keys"

definition iot_answer_ok :: "(string \<times> json) list \<Rightarrow> string \<Rightarrow> bool" where
  "iot_answer_ok ms rest \<longleftrightarrow> json_ok (iot_answer ms) \<and> distinct (map fst ms) \<and> (\<forall>m\<in>set ms. iot_member m) \<and>
     length (json_tokens 0 (iot_answer ms)) \<le> MAX_JSON_TOKEN_COUNT \<and> length (print_json (iot_answer ms) @ rest) < 2 ^ 31"

text \<open>The call information that holds the printed answer; what follows it in the buffer is not part of it.\<close>

definition holds_iot_answer :: "'q CallInfo \<Rightarrow> (string \<times> json) list \<Rightarrow> string \<Rightarrow> bool" where
  "holds_iot_answer ci ms rest \<longleftrightarrow> ci_responseData ci = Some (print_json (iot_answer ms) @ rest) \<and>
     ci_responseDataLen ci = of_nat (length (print_json (iot_answer ms)))"

lemma parse_iot_answer:
  fixes I :: "('l, 'n, 'q, 'x) iot_env"
  assumes "consts_ok (pe_consts (ie_cred I))" "iot_inv h p" "h p = Some (OIot f)"
    and "iot_answer_ok ms rest" "holds_iot_answer ci ms rest" "iot_texts ms = [Some A, Some S, Some T, Some e]" "A \<noteq> []" "S \<noteq> []" "T \<noteq> []"
    and "convertTimestampToEpoch (pe_strtoui32 (ie_cred I)) (pe_tz (ie_cred I)) (Some e) (iot_time I f div HUNDREDS_OF_NANOS_IN_A_SECOND) True =
      Some (stx, if stx = STATUS_SUCCESS then Some x else y)"
  defines "c \<equiv> credentials_of (pe_consts (ie_cred I)) A S (Some T)
      (min x (iot_time I f + MAX_ENFORCED_TOKEN_EXPIRATION_DURATION (pe_consts (ie_cred I))))"
  shows "parseIotResponse I h p (Some ci) = Some (
    if stx \<noteq> STATUS_SUCCESS then (stx, h)
    else if \<not> SIZEOF_AwsCredentials (pe_consts (ie_cred I)) + length (ac_data c) < MAX_AUTH_LEN (pe_consts (ie_cred I))
    then (STATUS_INVALID_AUTH_LEN, iot_dropped h p f)
    else case pe_calloc (ie_cred I) (iot_dropped h p f) of
        None \<Rightarrow> (STATUS_NOT_ENOUGH_MEMORY, iot_dropped h p f)
      | Some q \<Rightarrow> (STATUS_SUCCESS, iot_filled h p f q c))"
proof -
  have ok: "json_ok (iot_answer ms)" "distinct (map fst ms)" "\<forall>m\<in>set ms. iot_member m"
      "length (json_tokens 0 (iot_answer ms)) \<le> MAX_JSON_TOKEN_COUNT" "length (print_json (iot_answer ms) @ rest) < 2 ^ 31"
    using assms(4) by (simp_all add: iot_answer_ok_def)
  define n where "n = length (print_json (iot_answer ms))"
  have n: "n < 2 ^ 31" "0 < n" using ok(5) by (simp_all add: n_def iot_answer_def)
  then have u: "unat (of_nat n :: UINT32) = n" by (simp add: unat_of_nat take_bit_nat_eq_self)
  then have len: "unat (ci_responseDataLen ci) = n" "0 < ci_responseDataLen ci"
    using assms(5) n(2) by (simp_all add: holds_iot_answer_def n_def [symmetric] word_less_nat_alt)
  have tokens: "answer_tokens (print_json (iot_answer ms) @ rest) n = Some (STATUS_SUCCESS, json_tokens 0 (iot_answer ms))"
    using answer_tokens_json [of "[(''credentials'', JObj ms)]" rest] ok(1,4,5)
    by (simp add: iot_answer_def n_def del: json_tokens.simps print_json.simps)
  obtain vals where loop: "iot_loop (print_json (iot_answer ms) @ rest) (json_tokens 0 (iot_answer ms)) 1 (\<lambda>_. None) = Some (STATUS_SUCCESS, vals)"
      "iot_found ms (\<lambda>_. None) vals"
    using iot_answer_values [OF ok(1-3), of rest] ok(5) by auto
  have val: "\<exists>v. vals k = Some v \<and> text_at v t \<and> length t \<le> iot_limit k" if k: "k \<in> set iot_keys" "map_option scalar_text (map_of ms k) = Some t" for k t
  proof -
    obtain j where j: "map_of ms k = Some j" "scalar_text j = t" using k(2) by auto
    from j(1) have "(k, j) \<in> set ms" by (rule map_of_SomeD)
    then have "length t \<le> iot_limit k" using ok(3) k(1) j(2) by (auto simp: iot_member_def)
    moreover have "\<exists>v. vals k = Some v \<and> text_at v (scalar_text j)"
      using loop(2) [unfolded iot_found_def, rule_format, of k] j(1) k(1) by simp
    ultimately show ?thesis using j(2) by blast
  qed
  have keys: "map_option scalar_text (map_of ms ''accessKeyId'') = Some A" "map_option scalar_text (map_of ms ''secretAccessKey'') = Some S"
      "map_option scalar_text (map_of ms ''sessionToken'') = Some T" "map_option scalar_text (map_of ms ''expiration'') = Some e"
    using assms(6) by (simp_all add: iot_texts_def iot_keys_def)
  have mem: "''accessKeyId'' \<in> set iot_keys" "''secretAccessKey'' \<in> set iot_keys" "''sessionToken'' \<in> set iot_keys" "''expiration'' \<in> set iot_keys"
    by (simp_all add: iot_keys_def)
  obtain a where a: "vals ''accessKeyId'' = Some a" "text_at a A" "length A \<le> iot_limit ''accessKeyId''" using val [OF mem(1) keys(1)] by blast
  obtain k where k: "vals ''secretAccessKey'' = Some k" "text_at k S" "length S \<le> iot_limit ''secretAccessKey''" using val [OF mem(2) keys(2)] by blast
  obtain t where t: "vals ''sessionToken'' = Some t" "text_at t T" "length T \<le> iot_limit ''sessionToken''" using val [OF mem(3) keys(3)] by blast
  obtain b where b: "vals ''expiration'' = Some b" "text_at b e" "length e \<le> iot_limit ''expiration''" using val [OF mem(4) keys(4)] by blast
  have l: "length A \<le> 2048" "length S \<le> 2048" "length T \<le> 2048" "length e \<le> 2048"
    using a(3) k(3) t(3) b(3) iot_limit_le order_trans by blast+
  have e: "take (unat (snd b)) (fst b) = e" using b(2) l(4) by (auto simp: text_at_def unat_of_nat take_bit_nat_eq_self)
  obtain g where g: "ip_getCurrentTimeFn f = Some g" using assms(2,3) by (auto simp: iot_inv_def)
  then have now: "pe_time (ie_cred I) g (ip_customData f) = iot_time I f" by (simp add: iot_time_def)
  have "use_iot_values I h p f vals = (if stx \<noteq> STATUS_SUCCESS then Some (stx, h)
      else replace_iot_credentials I h p f a k t (min x (iot_time I f + MAX_ENFORCED_TOKEN_EXPIRATION_DURATION (pe_consts (ie_cred I)))))"
    using assms(10) by (simp add: use_iot_values_def a(1) k(1) t(1) b(1) g now e split_beta)
  moreover have "parseIotResponse I h p (Some ci) = use_iot_values I h p f vals"
    using assms(2,3,5) len loop(1) tokens by (auto simp: parseIotResponse_def holds_iot_answer_def iot_inv_def)
  ultimately show ?thesis
    by (cases "stx = STATUS_SUCCESS")
      (simp_all only: c_def replace_iot_result [OF assms(1-3) a(2) assms(7) l(1) k(2) assms(8) l(2) t(2) assms(9) l(3)] if_True if_False not_True_eq_False
        not_False_eq_True simp_thms)
qed

text \<open>One look at the credentials, in terms of whether they are stale.\<close>

text \<open>An answer that is refused before anything is looked for in it: it is empty, or no object with a member.\<close>

definition iot_rejected :: "'q CallInfo \<Rightarrow> bool" where
  "iot_rejected ci \<longleftrightarrow> ci_responseDataLen ci = 0 \<or> (\<exists>js st toks. ci_responseData ci = Some js \<and>
     answer_tokens js (unat (ci_responseDataLen ci)) = Some (st, toks) \<and> st \<noteq> STATUS_SUCCESS)"

lemma parse_iot_rejected:
  assumes "iot_rejected ci" "iot_inv h p" "h p = Some (OIot f)"
  shows "\<exists>st. parseIotResponse I h p (Some ci) = Some (st, h) \<and> st \<noteq> STATUS_SUCCESS"
proof -
  have p: "p \<noteq> 0" using assms(2) by (simp add: iot_inv_def)
  show ?thesis
  proof (cases "ci_responseDataLen ci = 0")
    case True
    then show ?thesis using p by (simp add: parseIotResponse_def)
  next
    case False
    then obtain js st toks where "ci_responseData ci = Some js" "answer_tokens js (unat (ci_responseDataLen ci)) = Some (st, toks)" "st \<noteq> STATUS_SUCCESS"
      using assms(1) by (auto simp: iot_rejected_def)
    then show ?thesis using False p assms(3) by (simp add: parseIotResponse_def word_neq_0_conv)
  qed
qed

lemma iot_answer_held:
  assumes "iot_answer_ok ms rest" "holds_iot_answer ci ms rest"
  shows "ci_responseData ci = Some (print_json (iot_answer ms) @ rest)" "0 < ci_responseDataLen ci"
    "answer_tokens (print_json (iot_answer ms) @ rest) (unat (ci_responseDataLen ci)) = Some (STATUS_SUCCESS, json_tokens 0 (iot_answer ms))"
    "\<not> iot_rejected ci"
proof -
  have ok: "json_ok (iot_answer ms)" "length (json_tokens 0 (iot_answer ms)) \<le> MAX_JSON_TOKEN_COUNT"
      "length (print_json (iot_answer ms) @ rest) < 2 ^ 31"
    using assms(1) by (simp_all add: iot_answer_ok_def)
  define n where "n = length (print_json (iot_answer ms))"
  have n: "n < 2 ^ 31" "0 < n" using ok(3) by (simp_all add: n_def iot_answer_def)
  then have u: "unat (of_nat n :: UINT32) = n" by (simp add: unat_of_nat take_bit_nat_eq_self)
  then have len: "unat (ci_responseDataLen ci) = n" using assms(2) by (simp add: holds_iot_answer_def n_def [symmetric])
  show data: "ci_responseData ci = Some (print_json (iot_answer ms) @ rest)" and pos: "0 < ci_responseDataLen ci"
    using assms(2) len n(2) by (simp_all add: holds_iot_answer_def word_less_nat_alt)
  have "answer_tokens (print_json (iot_answer ms) @ rest) n = Some (STATUS_SUCCESS, json_tokens 0 (iot_answer ms))"
    using answer_tokens_json [of "[(''credentials'', JObj ms)]" rest] ok
    by (simp add: iot_answer_def n_def del: json_tokens.simps print_json.simps)
  then show toks: "answer_tokens (print_json (iot_answer ms) @ rest) (unat (ci_responseDataLen ci)) = Some (STATUS_SUCCESS, json_tokens 0 (iot_answer ms))"
    by (simp only: len)
  show "\<not> iot_rejected ci" using data pos toks by (auto simp: iot_rejected_def)
qed

text \<open>An answer without one of the three strings gives nothing.\<close>

lemma parse_iot_incomplete:
  assumes "iot_answer_ok ms rest" "holds_iot_answer ci ms rest" "iot_texts ms = [a, s, t, e]" "a = None \<or> s = None \<or> t = None"
    and "iot_inv h p" "h p = Some (OIot f)"
  shows "parseIotResponse I h p (Some ci) = Some (STATUS_IOT_NULL_AWS_CREDS, h)"
proof -
  have ok: "json_ok (iot_answer ms)" "distinct (map fst ms)" "\<forall>m\<in>set ms. iot_member m"
      "length (print_json (iot_answer ms) @ rest) < 2 ^ 31"
    using assms(1) by (simp_all add: iot_answer_ok_def)
  obtain vals where loop: "iot_loop (print_json (iot_answer ms) @ rest) (json_tokens 0 (iot_answer ms)) 1 (\<lambda>_. None) = Some (STATUS_SUCCESS, vals)"
      "iot_found ms (\<lambda>_. None) vals"
    using iot_answer_values [OF ok(1-3), of rest] ok(4) by auto
  have none: "vals k = None" if "map_of ms k = None" for k using loop(2) [unfolded iot_found_def, rule_format, of k] that by simp
  have "vals ''accessKeyId'' = None \<or> vals ''secretAccessKey'' = None \<or> vals ''sessionToken'' = None"
    using assms(3,4) none by (auto simp: iot_texts_def iot_keys_def)
  then have "use_iot_values I h p f vals = Some (STATUS_IOT_NULL_AWS_CREDS, h)" by (auto simp: use_iot_values_def split: option.splits)
  then show ?thesis
    using assms(5,6) iot_answer_held(1-3) [OF assms(1,2)] loop(1) by (simp add: parseIotResponse_def iot_inv_def)
qed

lemma iot_handler:
  assumes "iot_inv h p" "h p = Some (OIot f)" "iot_fits I f"
  shows "iotCurlHandler I h p w = (if iot_stale I h f then iot_request I h p f w else Some (STATUS_SUCCESS, h, w))"
proof -
  obtain g where g: "ip_getCurrentTimeFn f = Some g" using assms(1,2) by (auto simp: iot_inv_def)
  have now: "pe_time (ie_cred I) g (ip_customData f) = iot_time I f" using g by (simp add: iot_time_def)
  have stale: "(if ip_pAwsCredentials f = 0 then Some True
      else map_option (\<lambda>c. iot_time I f + IOT_CREDENTIAL_FETCH_GRACE_PERIOD (pe_consts (ie_cred I)) > ac_expiration c) (get_credentials h (ip_pAwsCredentials f))) =
      Some (iot_stale I h f)"
    using assms(1,2) by (auto simp: iot_inv_def iot_stale_def)
  have "get_iot h p = Some f" "iot_url f \<noteq> []" using assms(2) by (simp_all add: iot_url_def CONTROL_PLANE_URI_PREFIX_def)
  then show ?thesis
    using assms(3) by (simp add: iotCurlHandler_def [of I h p w, unfolded \<open>get_iot h p = Some f\<close> g Option.bind.simps Let_def now stale] iot_fits_def)
qed

text \<open>The request on an answer of the network for which the parsing of an answer is defined.\<close>

lemma iot_request_parsed:
  fixes I :: "('l, 'n, 'q, 'x) iot_env" and w :: "'y iot_world"
  assumes "curl_call ops items node_at (ie_curl I) space queued" "iot_curl_ok I" "iot_fits I f"
    and "ie_perform I (iw_calls w) (iot_options I f) zero_CallInfo = Some (res, httpStatus, ci)" "ci_pResponseHeaders ci = None"
    and "res = CURLE_OK \<and> httpStatus = HTTP_STATUS_CODE_OK \<Longrightarrow> parseIotResponse I h p (Some ci) = Some r"
  shows "\<exists>st h' w'. iot_request I h p f w = Some (st, h', w') \<and> iw_headers w' = iw_headers w \<and> iw_rest w' = iw_rest w \<and>
    (if iot_call_made I f (iw_headers w) \<and> res = CURLE_OK \<and> httpStatus = HTTP_STATUS_CODE_OK then (st, h') = r else st \<noteq> STATUS_SUCCESS \<and> h' = h)"
proof -
  have rel: "releaseCallInfo (ku_queue (ie_curl I)) (Some ci) (iw_headers w) =
      Some (STATUS_SUCCESS, Some (if ci_responseData ci \<noteq> None then ci\<lparr>ci_responseData := None, ci_responseDataLen := 0\<rparr> else ci), iw_headers w)"
    using assms(5) by (simp add: releaseCallInfo_def)
  from iot_request_outcome [OF assms(1-3), where h = h and p = p and w = w] show ?thesis
  proof (elim disjE exE conjE)
    fix st w'
    assume "\<not> iot_call_made I f (iw_headers w)" "st \<noteq> STATUS_SUCCESS" "iot_request I h p f w = Some (st, h, w')" "iw_headers w' = iw_headers w"
      "iw_rest w' = iw_rest w"
    then show ?thesis by auto
  next
    assume made: "iot_call_made I f (iw_headers w)" and run: "iot_request I h p f w = do {
        (res, httpStatusCode, ci) \<leftarrow> ie_perform I (iw_calls w) (iot_options I f) zero_CallInfo;
        (st, h1) \<leftarrow> (if res = CURLE_OK \<and> httpStatusCode = HTTP_STATUS_CODE_OK then parseIotResponse I h p (Some ci) else Some (STATUS_CURL_PERFORM_FAILED, h));
        (_, _, hh) \<leftarrow> releaseCallInfo (ku_queue (ie_curl I)) (Some ci) (iw_headers w);
        Some (st, h1, w\<lparr>iw_calls := iw_calls w + 1, iw_headers := hh\<rparr>)
      }"
    show ?thesis
    proof (cases "res = CURLE_OK \<and> httpStatus = HTTP_STATUS_CODE_OK")
      case True
      then show ?thesis unfolding run using assms(4,6) rel made by (cases r) simp
    next
      case False
      then show ?thesis unfolding run using assms(4) rel made by auto
    qed
  qed
qed

text \<open>What an answer comes to, whatever is in it.\<close>

lemma parse_iot:
  fixes I :: "('l, 'n, 'q, 'x) iot_env"
  assumes "consts_ok (pe_consts (ie_cred I))" "iot_inv h p" "h p = Some (OIot f)" "iot_answer_ok ms rest" "iot_texts ms = [a, s, t, e]"
    and "a \<noteq> None \<and> s \<noteq> None \<and> t \<noteq> None \<longrightarrow> e \<noteq> None \<and> a \<noteq> Some [] \<and> s \<noteq> Some [] \<and> t \<noteq> Some []"
    and "convertTimestampToEpoch (pe_strtoui32 (ie_cred I)) (pe_tz (ie_cred I)) e (iot_time I f div HUNDREDS_OF_NANOS_IN_A_SECOND) True =
      Some (stx, if stx = STATUS_SUCCESS then Some x else y)"
    and "iot_rejected ci \<or> holds_iot_answer ci ms rest"
  shows "\<exists>st h'. parseIotResponse I h p (Some ci) = Some (st, h') \<and>
    (if \<not> iot_rejected ci \<and> a \<noteq> None \<and> s \<noteq> None \<and> t \<noteq> None \<and> stx = STATUS_SUCCESS
     then (if st = STATUS_SUCCESS
       then \<exists>q. pe_calloc (ie_cred I) (iot_dropped h p f) = Some q \<and> h' = iot_filled h p f q (credentials_of (pe_consts (ie_cred I)) (the a) (the s) t
          (min x (iot_time I f + MAX_ENFORCED_TOKEN_EXPIRATION_DURATION (pe_consts (ie_cred I)))))
       else h' = iot_dropped h p f \<and> (st = STATUS_NOT_ENOUGH_MEMORY \<and> pe_calloc (ie_cred I) (iot_dropped h p f) = None \<or> st = STATUS_INVALID_AUTH_LEN \<and>
         MAX_AUTH_LEN (pe_consts (ie_cred I)) \<le> SIZEOF_AwsCredentials (pe_consts (ie_cred I)) + length (the a) + length (the s) + length (the t) + 3))
     else st \<noteq> STATUS_SUCCESS \<and> h' = h)"
proof (cases "iot_rejected ci")
  case True
  then show ?thesis using parse_iot_rejected [OF True assms(2,3)] by auto
next
  case False
  then have held: "holds_iot_answer ci ms rest" using assms(8) by blast
  show ?thesis
  proof (cases "a = None \<or> s = None \<or> t = None")
    case True
    have "parseIotResponse I h p (Some ci) = Some (STATUS_IOT_NULL_AWS_CREDS, h)"
      by (rule parse_iot_incomplete [OF assms(4) held assms(5) True assms(2,3)])
    then show ?thesis using True by (intro exI [of _ STATUS_IOT_NULL_AWS_CREDS] exI [of _ h]) auto
  next
    case some: False
    then obtain A S T e' where v: "a = Some A" "s = Some S" "t = Some T" "e = Some e'" "A \<noteq> []" "S \<noteq> []" "T \<noteq> []" using assms(6) by auto
    have data: "length (ac_data (credentials_of K A S (Some T) u)) = length A + length S + length T + 3" for K u by (simp add: credentials_of_def)
    from parse_iot_answer [OF assms(1-4) held assms(5) [unfolded v] v(5-7) assms(7) [unfolded v]] show ?thesis
      using False by (auto simp: v data split: option.splits if_splits)
  qed
qed


subsection \<open>Witness\<close>

text \<open>A provider at 56 that has no credentials, and an answer with a member that is not used.\<close>

definition sample_iot :: IotCredentialProvider where
  "sample_iot = \<lparr>ip_getCredentialsFn = Some (C_FUN ''getIotCredentials''), ip_getCurrentTimeFn = Some (C_FUN ''commonDefaultGetCurrentTimeFunc''),
     ip_customData = 0, ip_iotGetCredentialEndpoint = ''e.iot'', ip_certPath = ''/c/t.crt'', ip_privateKeyPath = ''/c/t.key'', ip_caCertPath = ''/ca/cert.PEM'',
     ip_roleAlias = ''r'', ip_thingName = ''cam'', ip_connectionTimeout = IOT_REQUEST_CONNECTION_TIMEOUT,
     ip_completionTimeout = IOT_REQUEST_COMPLETION_TIMEOUT, ip_pAwsCredentials = 0, ip_serviceCallFn = Some (C_FUN ''blockingCurlCall'')\<rparr>"

definition sample_iot_heap :: cheap where
  "sample_iot_heap = [56 \<mapsto> OIot sample_iot]"

definition sample_iot_members :: "(string \<times> json) list" where
  "sample_iot_members = [(''accessKeyId'', JStr ''AK''), (''kind'', JPrim ''1''), (''secretAccessKey'', JStr ''sk''), (''sessionToken'', JStr ''tok''),
     (''expiration'', JStr ''2020-09-13T13:26:40Z'')]"

definition sample_iot_answer :: "UINT64 list CallInfo" where
  "sample_iot_answer = zero_CallInfo\<lparr>ci_responseData := Some (print_json (iot_answer sample_iot_members)),
     ci_responseDataLen := of_nat (length (print_json (iot_answer sample_iot_members)))\<rparr>"

definition silent_iot_env :: "(UINT64 list, nat, UINT64 list, string list) iot_env" where
  "silent_iot_env = \<lparr>ie_cred = sample_env, ie_curl = sample_curl_env, ie_globalInit = True, ie_MAX_IOT_THING_NAME_LEN = 128,
     ie_perform = (\<lambda>_ _ _. None), ie_serviceCall = (\<lambda>_ _ _ _ _. None)\<rparr>"

definition sample_iot_env :: "(UINT64 list, nat, UINT64 list, string list) iot_env" where
  "sample_iot_env = silent_iot_env\<lparr>ie_perform := (\<lambda>_ opts ci. if opts = iot_options silent_iot_env sample_iot \<and> ci = zero_CallInfo
     then Some (CURLE_OK, HTTP_STATUS_CODE_OK, sample_iot_answer) else None)\<rparr>"

definition sample_iot_world :: "unit iot_world" where
  "sample_iot_world = \<lparr>iw_headers = (\<lambda>_. None), iw_calls = 0, iw_rest = ()\<rparr>"



end
