(* ===== verification/Iot_Auth.thy ===== *)
theory Iot_Auth
  imports Iot_Credentials
begin

text \<open>
  The authentication callbacks of \<open>IotAuthCallback.c\<close>: an object like those of \<open>Auth_Callbacks\<close> whose
  credential provider is an IoT provider that it owns. Creating one, and a token callback, may call
  the service; the world of the platform independent code therefore has the headers of the requests and
  the number of the calls.
\<close>

subsection \<open>Releasing and creating the objects\<close>

definition freeIotAuthCallbacks :: "'w auth_state \<Rightarrow> UINT64 option \<Rightarrow> (STATUS \<times> UINT64 option \<times> 'w auth_state) option" where
  "freeIotAuthCallbacks = free_auth_object IotAuth freeIotCredentialProvider"

definition freeIotAuthCallbacksFunc :: "'w auth_state \<Rightarrow> UINT64 option \<Rightarrow> (STATUS \<times> 'w auth_state) option" where
  "freeIotAuthCallbacksFunc = free_auth_func freeIotAuthCallbacks"

text \<open>What the two functions share: the creation of the provider, with the callbacks of the client, is a parameter.\<close>

definition create_iot_auth ::
    "'y iot_world auth_env \<Rightarrow> 'y iot_world auth_state \<Rightarrow>
      (ClientCallbacks \<Rightarrow> cheap \<Rightarrow> 'y iot_world \<Rightarrow> (STATUS \<times> UINT64 \<times> cheap \<times> 'y iot_world) option) \<Rightarrow> bool
      \<Rightarrow> (STATUS \<times> UINT64 \<times> 'y iot_world auth_state) option" where
  "create_iot_auth E s create ppIotAuthCallbacks =
     (case as_provider s of
        None \<Rightarrow> Some (STATUS_NULL_ARG, 0, s)
      | Some provider \<Rightarrow>
          if \<not> ppIotAuthCallbacks then Some (STATUS_NULL_ARG, 0, s)
          else (case ae_calloc E (as_objects s) of
              None \<Rightarrow> Some (STATUS_NOT_ENOUGH_MEMORY, 0, s)
            | Some p \<Rightarrow> do {
                let obj = \<lparr>ao_kind = IotAuth,
                  ao_authCallbacks = auth_callbacks ''getStreamingTokenIotFunc'' ''getSecurityTokenIotFunc'' ''freeIotAuthCallbacksFunc'' p,
                  ao_pCredentialProvider = 0, ao_pCallbacksProvider = cc_customData (clientCallbacks provider)\<rparr>;
                (st, cp, h1, w1) \<leftarrow> create (clientCallbacks provider) (as_heap s) (as_world s);
                let s1 = s\<lparr>as_heap := h1, as_world := w1\<rparr>;
                if STATUS_FAILED st
                then map_option (\<lambda>(_, _, s2). (st, 0, s2))
                       (freeIotAuthCallbacks (s1\<lparr>as_objects := (as_objects s)(p \<mapsto> obj\<lparr>ao_pCredentialProvider := cp\<rparr>)\<rparr>) (Some p))
                else install_auth_object freeIotAuthCallbacks s1 p (obj\<lparr>ao_pCredentialProvider := cp\<rparr>)
              }))"

definition createIotAuthCallbacks ::
    "('l, 'n, 'q, 'x) iot_env \<Rightarrow> 'y iot_world auth_env \<Rightarrow> 'y iot_world auth_state \<Rightarrow> PCHAR \<Rightarrow> PCHAR \<Rightarrow> PCHAR \<Rightarrow> PCHAR \<Rightarrow> PCHAR \<Rightarrow> PCHAR
      \<Rightarrow> bool \<Rightarrow> (STATUS \<times> UINT64 \<times> 'y iot_world auth_state) option" where
  "createIotAuthCallbacks I E s iotGetCredentialEndpoint certPath privateKeyPath caCertPath roleAlias streamName ppIotAuthCallbacks =
     create_iot_auth E s (\<lambda>client h w. createCurlIotCredentialProviderWithTime I h iotGetCredentialEndpoint certPath privateKeyPath caCertPath
       roleAlias streamName (cc_getCurrentTimeFn client) (cc_customData client) True w) ppIotAuthCallbacks"

definition createIotAuthCallbacksWithTimeouts ::
    "('l, 'n, 'q, 'x) iot_env \<Rightarrow> 'y iot_world auth_env \<Rightarrow> 'y iot_world auth_state \<Rightarrow> PCHAR \<Rightarrow> PCHAR \<Rightarrow> PCHAR \<Rightarrow> PCHAR \<Rightarrow> PCHAR \<Rightarrow> PCHAR
      \<Rightarrow> UINT64 \<Rightarrow> UINT64 \<Rightarrow> bool \<Rightarrow> (STATUS \<times> UINT64 \<times> 'y iot_world auth_state) option" where
  "createIotAuthCallbacksWithTimeouts I E s iotGetCredentialEndpoint certPath privateKeyPath caCertPath roleAlias streamName
      connectionTimeout completionTimeout ppIotAuthCallbacks =
     create_iot_auth E s (\<lambda>client h w. createCurlIotCredentialProviderWithTimeAndTimeout I h iotGetCredentialEndpoint certPath privateKeyPath
       caCertPath roleAlias streamName connectionTimeout completionTimeout (cc_getCurrentTimeFn client) (cc_customData client) True w)
       ppIotAuthCallbacks"

subsection \<open>The token callbacks\<close>

definition getStreamingTokenIotFunc :: "'w auth_env \<Rightarrow> UINT64 \<Rightarrow> UINT64 option \<Rightarrow> 'w auth_state \<Rightarrow> (STATUS \<times> 'w auth_state) option" where
  "getStreamingTokenIotFunc = streaming_token_checked IotAuth"

definition getSecurityTokenIotFunc ::
    "'w auth_env \<Rightarrow> UINT64 \<Rightarrow> bool \<Rightarrow> 'w auth_state \<Rightarrow> (STATUS \<times> (UINT64 \<times> UINT32 \<times> UINT64) option \<times> 'w auth_state) option" where
  "getSecurityTokenIotFunc = security_token IotAuth"

subsection \<open>A provider on a network whose answers are defined\<close>

text \<open>
  Every call that is made ends, and when it succeeds, the answer has the four values. The answers may
  differ from call to call, and nothing is said about the calls that fail.
\<close>

definition complete_answer :: "('l, 'n, 'q, 'x) iot_env \<Rightarrow> IotCredentialProvider \<Rightarrow> 'q CallInfo \<Rightarrow> bool" where
  "complete_answer I f ci \<longleftrightarrow> (\<exists>ms rest A S T e stx x y. iot_answer_ok ms rest \<and> holds_iot_answer ci ms rest \<and>
     iot_texts ms = [Some A, Some S, Some T, Some e] \<and> A \<noteq> [] \<and> S \<noteq> [] \<and> T \<noteq> [] \<and>
     convertTimestampToEpoch (pe_strtoui32 (ie_cred I)) (pe_tz (ie_cred I)) (Some e) (iot_time I f div HUNDREDS_OF_NANOS_IN_A_SECOND) True =
       Some (stx, if stx = STATUS_SUCCESS then Some x else y))"

definition iot_answers_ok :: "('l, 'n, 'q, 'x) iot_env \<Rightarrow> IotCredentialProvider \<Rightarrow> bool" where
  "iot_answers_ok I f \<longleftrightarrow> (\<forall>n. \<exists>res httpStatus ci. ie_perform I n (iot_options I f) zero_CallInfo = Some (res, httpStatus, ci) \<and>
     ci_pResponseHeaders ci = None \<and> (res = CURLE_OK \<and> httpStatus = HTTP_STATUS_CODE_OK \<longrightarrow> complete_answer I f ci))"

text \<open>The environment of the calls, and a provider in it that is ready.\<close>

definition iot_env_ok where
  "iot_env_ok ops items node_at space queued I \<longleftrightarrow> curl_call ops items node_at (ie_curl I) space queued \<and> iot_curl_ok I \<and>
     consts_ok (pe_consts (ie_cred I)) \<and> fresh_calloc (pe_calloc (ie_cred I))"

definition iot_ready :: "('l, 'n, 'q, 'x) iot_env \<Rightarrow> UINT64 \<Rightarrow> cheap \<Rightarrow> bool" where
  "iot_ready I p h \<longleftrightarrow> iot_inv h p \<and> (\<exists>f. h p = Some (OIot f) \<and> iot_fits I f \<and> iot_answers_ok I f \<and>
     ip_getCredentialsFn f = Some (C_FUN ''getIotCredentials''))"

lemma iot_time_keeps [simp]: "iot_time I (f\<lparr>ip_pAwsCredentials := q\<rparr>) = iot_time I f"
  by (cases "ip_getCurrentTimeFn f") (simp_all add: iot_time_def)

lemma iot_keeps [simp]:
  "iot_options I (f\<lparr>ip_pAwsCredentials := q\<rparr>) = iot_options I f" "iot_fits I (f\<lparr>ip_pAwsCredentials := q\<rparr>) = iot_fits I f"
  "complete_answer I (f\<lparr>ip_pAwsCredentials := q\<rparr>) = complete_answer I f"
  "iot_answers_ok I (f\<lparr>ip_pAwsCredentials := q\<rparr>) = iot_answers_ok I f"
  by (simp_all add: iot_options_def iot_url_def iot_header_pairs_def iot_fits_def complete_answer_def fun_eq_iff iot_answers_ok_def)

lemma iot_dropped_inv:
  assumes "iot_inv h p" "h p = Some (OIot f)"
  shows "iot_inv (iot_dropped h p f) p"
  using assms by (auto simp: iot_inv_def iot_dropped_def)

lemma iot_filled_inv:
  assumes "iot_inv h p" "h p = Some (OIot f)" "iot_dropped h p f q = None" "q \<noteq> 0"
  shows "iot_inv (iot_filled h p f q c) p"
  using assms by (auto simp: iot_inv_def iot_filled_def iot_dropped_def)

lemma iot_ready_dropped:
  assumes "iot_ready I p h" "h p = Some (OIot f)"
  shows "iot_ready I p (iot_dropped h p f)"
  using assms iot_dropped_inv [of h p f] by (auto simp: iot_ready_def) (simp add: iot_dropped_def)

lemma iot_ready_filled:
  assumes "iot_ready I p h" "h p = Some (OIot f)" "iot_dropped h p f q = None" "q \<noteq> 0"
  shows "iot_ready I p (iot_filled h p f q c)"
  using assms iot_filled_inv [of h p f q c] by (auto simp: iot_ready_def) (simp add: iot_filled_def)

text \<open>What a look at the credentials does: the heap is as before, or without the credentials, or with new ones.\<close>

lemma iot_handler_outcome:
  fixes I :: "('l, 'n, 'q, 'x) iot_env" and w :: "'y iot_world"
  assumes "iot_env_ok ops items node_at space queued I" "iot_ready I p h" "h p = Some (OIot f)"
  shows "\<exists>st h' w'. iotCurlHandler I h p w = Some (st, h', w') \<and> iw_headers w' = iw_headers w \<and> iw_rest w' = iw_rest w \<and>
    (if st = STATUS_SUCCESS
     then h' = h \<and> \<not> iot_stale I h f \<or> (\<exists>q c. iot_dropped h p f q = None \<and> q \<noteq> 0 \<and> h' = iot_filled h p f q c)
     else h' = h \<or> h' = iot_dropped h p f)"
proof -
  have env: "curl_call ops items node_at (ie_curl I) space queued" "iot_curl_ok I" "consts_ok (pe_consts (ie_cred I))"
      "\<And>h q. pe_calloc (ie_cred I) h = Some q \<Longrightarrow> h q = None \<and> q \<noteq> 0"
    using assms(1) by (simp_all add: iot_env_ok_def fresh_calloc_def)
  have ready: "iot_inv h p" "iot_fits I f" "iot_answers_ok I f" using assms(2,3) by (auto simp: iot_ready_def)
  show ?thesis
  proof (cases "iot_stale I h f")
    case False
    then show ?thesis using iot_handler [OF ready(1) assms(3) ready(2), of w] by simp
  next
    case True
    obtain res httpStatus ci where p: "ie_perform I (iw_calls w) (iot_options I f) zero_CallInfo = Some (res, httpStatus, ci)"
        "ci_pResponseHeaders ci = None" "res = CURLE_OK \<and> httpStatus = HTTP_STATUS_CODE_OK \<Longrightarrow> complete_answer I f ci"
      using ready(3) unfolding iot_answers_ok_def by blast
    obtain st1 h1 where r: "res = CURLE_OK \<and> httpStatus = HTTP_STATUS_CODE_OK \<Longrightarrow> parseIotResponse I h p (Some ci) = Some (st1, h1)"
        "if st1 = STATUS_SUCCESS then \<exists>q c. iot_dropped h p f q = None \<and> q \<noteq> 0 \<and> h1 = iot_filled h p f q c else h1 = h \<or> h1 = iot_dropped h p f"
    proof (cases "res = CURLE_OK \<and> httpStatus = HTTP_STATUS_CODE_OK")
      case False
      then show ?thesis by (intro that [of STATUS_NULL_ARG h]) auto
    next
      case True
      obtain ms rest A S T e stx x y where c: "iot_answer_ok ms rest" "holds_iot_answer ci ms rest" "iot_texts ms = [Some A, Some S, Some T, Some e]"
          "A \<noteq> []" "S \<noteq> []" "T \<noteq> []"
          "convertTimestampToEpoch (pe_strtoui32 (ie_cred I)) (pe_tz (ie_cred I)) (Some e) (iot_time I f div HUNDREDS_OF_NANOS_IN_A_SECOND) True =
            Some (stx, if stx = STATUS_SUCCESS then Some x else y)"
        using p(3) [OF True] unfolding complete_answer_def by blast
      obtain st1 h1 where "parseIotResponse I h p (Some ci) = Some (st1, h1)"
          "if st1 = STATUS_SUCCESS then \<exists>q c. pe_calloc (ie_cred I) (iot_dropped h p f) = Some q \<and> h1 = iot_filled h p f q c else h1 = h \<or> h1 = iot_dropped h p f"
        using parse_iot_answer [OF env(3) ready(1) assms(3) c] by (auto split: if_splits option.splits)
      then show ?thesis using env(4) by (intro that [of st1 h1]) (auto split: if_splits)
    qed
    show ?thesis
      using iot_request_parsed [OF env(1,2) ready(2) p(1,2) r(1)] iot_handler [OF ready(1) assms(3) ready(2), of w] True r(2)
      by (auto split: if_splits) blast+
  qed
qed


subsection \<open>The provider behind the function pointer\<close>

text \<open>
  The callbacks reach the IoT provider through the function pointer; the calls change nothing of the
  world but the number of the calls.
\<close>

definition iot_linked :: "('l, 'n, 'q, 'x) iot_env \<Rightarrow> 'y iot_world auth_env \<Rightarrow> bool" where
  "iot_linked I E \<longleftrightarrow> (\<forall>h p w. ae_getCredentials E (C_FUN ''getIotCredentials'') h p w = getIotCredentials I h p True w)"

definition only_calls :: "'y iot_world \<Rightarrow> 'y iot_world \<Rightarrow> bool" where
  "only_calls w w' \<longleftrightarrow> iw_headers w' = iw_headers w \<and> iw_rest w' = iw_rest w"

lemma getIotCredentials_ok:
  fixes I :: "('l, 'n, 'q, 'x) iot_env" and w :: "'y iot_world"
  assumes "iot_env_ok ops items node_at space queued I" "iot_ready I p h"
  shows "\<exists>st r h' w'. getIotCredentials I h p True w = Some (st, r, h', w') \<and> iot_ready I p h' \<and> only_calls w w' \<and>
    (st = STATUS_SUCCESS \<longrightarrow> (\<exists>q c. r = Some q \<and> h' q = Some (OCredentials c)))"
proof -
  obtain f where f: "h p = Some (OIot f)" "p \<noteq> 0" "ip_pAwsCredentials f \<noteq> 0 \<longrightarrow> (\<exists>c. h (ip_pAwsCredentials f) = Some (OCredentials c))"
    using assms(2) by (auto simp: iot_ready_def iot_inv_def)
  obtain st h' w' where o: "iotCurlHandler I h p w = Some (st, h', w')" "only_calls w w'"
      "if st = STATUS_SUCCESS then h' = h \<and> \<not> iot_stale I h f \<or> (\<exists>q c. iot_dropped h p f q = None \<and> q \<noteq> 0 \<and> h' = iot_filled h p f q c)
       else h' = h \<or> h' = iot_dropped h p f"
    using iot_handler_outcome [OF assms f(1), of w] unfolding only_calls_def by blast
  have ready: "iot_ready I p h'"
    using o(3) assms(2) iot_ready_dropped [OF assms(2) f(1)] iot_ready_filled [OF assms(2) f(1)] by (auto split: if_splits)
  show ?thesis
  proof (cases "st = STATUS_SUCCESS")
    case False
    then show ?thesis using f(2) o(1,2) ready by (simp add: getIotCredentials_def)
  next
    case True
    then consider "h' = h" "\<not> iot_stale I h f" | q c where "iot_dropped h p f q = None" "h' = iot_filled h p f q c" using o(3) by auto
    then have "\<exists>g c. h' p = Some (OIot g) \<and> h' (ip_pAwsCredentials g) = Some (OCredentials c)"
    proof cases
      case 1
      then show ?thesis using f by (auto simp: iot_stale_def)
    next
      case 2
      then have "q \<noteq> p" by (auto simp: iot_dropped_def)
      then show ?thesis using 2 by (simp add: iot_filled_def)
    qed
    then show ?thesis using True f(2) o(1,2) ready by (auto simp: getIotCredentials_def)
  qed
qed

definition iot_called_ready where
  "iot_called_ready ops items node_at space queued I E p h \<longleftrightarrow> iot_env_ok ops items node_at space queued I \<and> iot_linked I E \<and> iot_ready I p h"

interpretation iot_called: called_provider "iot_called_ready ops items node_at space queued I E p" only_calls E p
proof
  fix h w
  assume ready: "iot_called_ready ops items node_at space queued I E p h"
  then have "provider_function h p = Some (C_FUN ''getIotCredentials'')"
    by (auto simp: iot_called_ready_def iot_ready_def provider_function_def)
  then have "getCredentialsFn E h p w = getIotCredentials I h p True w"
    using ready by (simp add: getCredentialsFn_def iot_called_ready_def iot_linked_def)
  then show "\<exists>st r h' w'. getCredentialsFn E h p w = Some (st, r, h', w') \<and> iot_called_ready ops items node_at space queued I E p h' \<and> only_calls w w' \<and>
      (st = STATUS_SUCCESS \<longrightarrow> (\<exists>q c. r = Some q \<and> h' q = Some (OCredentials c)))"
    using getIotCredentials_ok [of ops items node_at space queued I p h w] ready by (auto simp: iot_called_ready_def)
qed

subsection \<open>The life of the objects\<close>

lemma iot_free:
  assumes "h p = Some (OIot f)" "p \<noteq> 0" "ip_pAwsCredentials f \<noteq> 0 \<longrightarrow> (\<exists>c. h (ip_pAwsCredentials f) = Some (OCredentials c))"
  shows "freeIotCredentialProvider h (Some p) =
    Some (STATUS_SUCCESS, Some 0, (if ip_pAwsCredentials f = 0 then h else h(ip_pAwsCredentials f := None))(p := None))"
  using assms by (auto simp: freeIotCredentialProvider_def freeAwsCredentials_def)

text \<open>Creating a provider: it fails and leaves nothing, or the provider is ready and its release leaves nothing.\<close>

lemma create_iot_outcome:
  fixes I :: "('l, 'n, 'q, 'x) iot_env" and w :: "'y iot_world"
  assumes "iot_env_ok ops items node_at space queued I"
    and "f = new_iot_provider I endpoint cert key ca alias thing connectionTimeout completionTimeout timeFn customData (C_FUN ''blockingCurlCall'')"
    and "iot_fits I f" "iot_answers_ok I f"
  shows "\<exists>st q h' w'. createIotCredentialProviderWithTime I h (Some endpoint) (Some cert) (Some key) ca (Some alias) (Some thing)
      connectionTimeout completionTimeout timeFn customData (Some (C_FUN ''blockingCurlCall'')) True w = Some (st, q, h', w') \<and> only_calls w w' \<and>
    (st \<noteq> STATUS_SUCCESS \<longrightarrow> q = 0 \<and> h' = h) \<and>
    (st = STATUS_SUCCESS \<longrightarrow> h q = None \<and> iot_ready I q h' \<and> freeIotCredentialProvider h' (Some q) = Some (STATUS_SUCCESS, Some 0, h))"
proof (cases "pe_calloc (ie_cred I) h")
  case None
  then show ?thesis by (simp add: createIotCredentialProviderWithTime_def only_calls_def)
next
  case (Some q)
  then have q: "h q = None" "q \<noteq> 0" using assms(1) by (auto simp: iot_env_ok_def fresh_calloc_def)
  have f: "ip_pAwsCredentials f = 0" "ip_getCurrentTimeFn f \<noteq> None" "ip_getCredentialsFn f = Some (C_FUN ''getIotCredentials'')"
    by (simp_all add: assms(2) new_iot_provider_def Let_def)
  let ?h1 = "h(q \<mapsto> OIot f)" and ?st = "iot_strings_status I endpoint cert key ca alias thing"
  have restored: "h(q := None) = h" using q(1) by (simp add: fun_upd_idem)
  have ready: "iot_ready I q ?h1" using f q(2) assms(3,4) by (simp add: iot_ready_def iot_inv_def)
  have free: "freeIotCredentialProvider ?h1 (Some q) = Some (STATUS_SUCCESS, Some 0, h)" using iot_free [of ?h1 q f] f(1) q(2) restored by simp
  have here: "?h1 q = Some (OIot f)" by simp
  have keep: "f\<lparr>ip_pAwsCredentials := 0\<rparr> = f" using f(1) by simp
  have dropped: "iot_dropped ?h1 q f = ?h1" by (simp add: iot_dropped_def f(1) keep)
  have filled: "freeIotCredentialProvider (iot_filled ?h1 q f x c) (Some q) = Some (STATUS_SUCCESS, Some 0, h)"
    if x: "?h1 x = None" "x \<noteq> 0" for x c
  proof -
    let ?h2 = "iot_filled ?h1 q f x c"
    have xq: "x \<noteq> q" "h x = None" using x(1) by (auto split: if_splits)
    have "freeIotCredentialProvider ?h2 (Some q) = Some (STATUS_SUCCESS, Some 0, ?h2(x := None, q := None))"
      using iot_free [of ?h2 q "f\<lparr>ip_pAwsCredentials := x\<rparr>"] q(2) x(2) xq(1) by (simp add: iot_filled_def)
    moreover have "?h2(x := None, q := None) = h" using xq q(1) by (auto simp: iot_filled_def dropped)
    ultimately show ?thesis by simp
  qed
  have run: "createIotCredentialProviderWithTime I h (Some endpoint) (Some cert) (Some key) ca (Some alias) (Some thing)
      connectionTimeout completionTimeout timeFn customData (Some (C_FUN ''blockingCurlCall'')) True w =
      (if STATUS_FAILED ?st then map_option (\<lambda>(_, _, h'). (?st, 0, h', w)) (freeIotCredentialProvider ?h1 (Some q))
       else do {
         (st1, h2, w1) \<leftarrow> iotCurlHandler I ?h1 q w;
         if STATUS_FAILED st1 then map_option (\<lambda>(_, _, h'). (st1, 0, h', w1)) (freeIotCredentialProvider h2 (Some q))
         else Some (STATUS_SUCCESS, q, h2, w1)
       })"
    by (simp add: createIotCredentialProviderWithTime_def Some assms(2) Let_def)
  obtain st1 h2 w1 where look: "iotCurlHandler I ?h1 q w = Some (st1, h2, w1)" "only_calls w w1"
      "if st1 = STATUS_SUCCESS then h2 = ?h1 \<and> \<not> iot_stale I ?h1 f \<or> (\<exists>x c. ?h1 x = None \<and> x \<noteq> 0 \<and> h2 = iot_filled ?h1 q f x c) else h2 = ?h1"
    using iot_handler_outcome [OF assms(1) ready here, of w, unfolded dropped disj_absorb] unfolding only_calls_def by blast
  show ?thesis
  proof (cases "?st = STATUS_SUCCESS \<and> st1 = STATUS_SUCCESS")
    case False
    then show ?thesis unfolding run using free look by (auto simp: only_calls_def split: if_splits)
  next
    case True
    then obtain x c where x: "?h1 x = None" "x \<noteq> 0" "h2 = iot_filled ?h1 q f x c"
      using look(3) f(1) by (auto simp: iot_stale_def)
    have "iot_ready I q h2" unfolding x(3) using iot_ready_filled [OF ready, of f x c] x(1,2) dropped by simp
    then show ?thesis unfolding run using True look(1,2) q(1) filled [OF x(1,2)] x(3) by simp
  qed
qed

text \<open>
  The life of the callbacks, for either of the two functions: when creating them fails, the chain, the
  heap and the objects are as before; otherwise the chain has a new entry, whose release function
  with its custom data gives the heap and the objects back.
\<close>

lemma create_iot_auth_outcome:
  assumes "fresh_auth_calloc (ae_calloc E)"
    and "\<And>provider. as_provider s = Some provider \<Longrightarrow>
      \<exists>st q h' w'. create (clientCallbacks provider) (as_heap s) (as_world s) = Some (st, q, h', w') \<and> only_calls (as_world s) w' \<and>
        (st \<noteq> STATUS_SUCCESS \<longrightarrow> q = 0 \<and> h' = as_heap s) \<and>
        (st = STATUS_SUCCESS \<longrightarrow> as_heap s q = None \<and> iot_ready I q h' \<and>
          freeIotCredentialProvider h' (Some q) = Some (STATUS_SUCCESS, Some 0, as_heap s))"
  shows "\<exists>st p s' w'. create_iot_auth E s create True = Some (st, p, s') \<and> only_calls (as_world s) w' \<and> as_world s' = w' \<and>
    (st \<noteq> STATUS_SUCCESS \<longrightarrow> p = 0 \<and> s' = s\<lparr>as_world := w'\<rparr>) \<and>
    (st = STATUS_SUCCESS \<longrightarrow> (\<exists>provider obj. as_provider s = Some provider \<and> as_objects s' p = Some obj \<and> ao_kind obj = IotAuth \<and>
       au_customData (ao_authCallbacks obj) = p \<and> au_freeAuthCallbacksFn (ao_authCallbacks obj) = Some (C_FUN ''freeIotAuthCallbacksFunc'') \<and>
       addAuthCallbacks (Some provider) (Some (ao_authCallbacks obj)) = (STATUS_SUCCESS, as_provider s') \<and>
       iot_ready I (ao_pCredentialProvider obj) (as_heap s') \<and>
       freeIotAuthCallbacksFunc s' (Some p) = Some (STATUS_SUCCESS, s'\<lparr>as_heap := as_heap s, as_objects := as_objects s\<rparr>)))"
proof (cases "as_provider s = None \<or> ae_calloc E (as_objects s) = None")
  case True
  then show ?thesis unfolding create_iot_auth_def only_calls_def by (cases "as_provider s") auto
next
  case False
  then obtain provider p where pr: "as_provider s = Some provider" and p: "ae_calloc E (as_objects s) = Some p" by auto
  have fp: "as_objects s p = None" "p \<noteq> 0" using assms(1) p by (auto simp: fresh_auth_calloc_def)
  define obj where "obj = \<lparr>ao_kind = IotAuth,
     ao_authCallbacks = auth_callbacks ''getStreamingTokenIotFunc'' ''getSecurityTokenIotFunc'' ''freeIotAuthCallbacksFunc'' p,
     ao_pCredentialProvider = 0, ao_pCallbacksProvider = cc_customData (clientCallbacks provider)\<rparr>"
  obtain st cp h1 w1 where c: "create (clientCallbacks provider) (as_heap s) (as_world s) = Some (st, cp, h1, w1)" "only_calls (as_world s) w1"
    and bad: "st \<noteq> STATUS_SUCCESS \<Longrightarrow> cp = 0 \<and> h1 = as_heap s"
    and good: "st = STATUS_SUCCESS \<Longrightarrow> iot_ready I cp h1 \<and> freeIotCredentialProvider h1 (Some cp) = Some (STATUS_SUCCESS, Some 0, as_heap s)"
    using assms(2) [OF pr] by blast
  let ?s1 = "s\<lparr>as_heap := h1, as_world := w1\<rparr>" and ?o = "obj\<lparr>ao_pCredentialProvider := cp\<rparr>"
  have r: "create_iot_auth E s create True = (if STATUS_FAILED st
     then map_option (\<lambda>(_, _, s2). (st, 0, s2)) (freeIotAuthCallbacks (?s1\<lparr>as_objects := (as_objects s)(p \<mapsto> ?o)\<rparr>) (Some p))
     else install_auth_object freeIotAuthCallbacks ?s1 p ?o)"
    unfolding create_iot_auth_def obj_def Let_def using pr p c by simp
  show ?thesis
  proof (cases "st = STATUS_SUCCESS")
    case False
    then have "create_iot_auth E s create True = Some (st, 0, ?s1\<lparr>as_objects := (as_objects s)(p := None)\<rparr>)"
      using r bad fp by (simp add: freeIotAuthCallbacks_def free_auth_object_def obj_def freeIotCredentialProvider_def Let_def)
    moreover have "(as_objects s)(p := None) = as_objects s" using fp(1) by (simp add: fun_upd_idem)
    ultimately show ?thesis using False bad c(2) by auto
  next
    case True
    have "\<exists>st' q s'. install_auth_object freeIotAuthCallbacks ?s1 p ?o = Some (st', q, s') \<and>
        (st' \<noteq> STATUS_SUCCESS \<longrightarrow> q = 0 \<and> s' = ?s1\<lparr>as_heap := as_heap s\<rparr>) \<and>
        (st' = STATUS_SUCCESS \<longrightarrow> q = p \<and> addAuthCallbacks (Some provider) (Some (ao_authCallbacks ?o)) = (STATUS_SUCCESS, as_provider s') \<and>
           as_objects s' p = Some ?o \<and> as_heap s' = as_heap ?s1 \<and>
           freeIotAuthCallbacks s' (Some p) = Some (STATUS_SUCCESS, Some 0, s'\<lparr>as_heap := as_heap s, as_objects := as_objects ?s1\<rparr>))"
      by (rule install_auth_object_outcome [where k = IotAuth and freeProvider = freeIotCredentialProvider])
        (use pr fp good [OF True] in \<open>simp_all add: freeIotAuthCallbacks_def obj_def\<close>)
    moreover have "as_world s' = w1" if "install_auth_object freeIotAuthCallbacks ?s1 p ?o = Some (st', q, s')" for st' q s'
      using that by (auto simp: install_auth_object_def freeIotAuthCallbacks_def free_auth_object_def Let_def split: prod.splits bind_splits if_splits)
    moreover have "au_customData (ao_authCallbacks ?o) = p" "au_freeAuthCallbacksFn (ao_authCallbacks ?o) = Some (C_FUN ''freeIotAuthCallbacksFunc'')"
      "ao_pCredentialProvider ?o = cp" "ao_kind ?o = IotAuth" by (simp_all add: obj_def auth_callbacks_def)
    ultimately show ?thesis
      using r True good [OF True] pr c(2) by (auto simp: freeIotAuthCallbacksFunc_def free_auth_func_def)
  qed
qed

subsection \<open>The token callbacks on a provider that is ready\<close>

text \<open>
  The streaming token of the IoT callbacks: with a live object whose provider is ready, it is defined and
  leaves the provider ready; the credentials that are given out are live.
\<close>

lemma streaming_token_iot:
  assumes "iot_called_ready ops items node_at space queued I E p (as_heap s)"
    and "as_objects s a = Some obj" "ao_kind obj = IotAuth" "ao_pCredentialProvider obj = p" "a \<noteq> 0"
  shows "\<exists>st s' w0. getStreamingTokenIotFunc E a (Some ctx) s = Some (st, s') \<and>
    iot_called_ready ops items node_at space queued I E p (as_heap s') \<and> only_calls (as_world s) w0 \<and>
    (if st = STATUS_SUCCESS
     then \<exists>q c. as_heap s' q = Some (OCredentials c) \<and>
       ae_resultEvent E ctx (SERVICE_CALL_RESULT_OK (ae_results E)) q (ac_size c) (ac_expiration c) w0 = (STATUS_SUCCESS, as_world s')
     else \<exists>w. as_world s' = streaming_token_failed E (as_provider s) st (Some ctx) w \<and>
       (w = w0 \<or> (\<exists>q c. as_heap s' q = Some (OCredentials c) \<and>
          ae_resultEvent E ctx (SERVICE_CALL_RESULT_OK (ae_results E)) q (ac_size c) (ac_expiration c) w0 = (st, w))))"
  unfolding getStreamingTokenIotFunc_def by (rule iot_called.streaming_token_checked_ok [OF assms])

lemma security_token_iot:
  assumes "iot_called_ready ops items node_at space queued I E p (as_heap s)"
    and "as_objects s a = Some obj" "ao_kind obj = IotAuth" "ao_pCredentialProvider obj = p" "a \<noteq> 0"
  shows "\<exists>st out s'. getSecurityTokenIotFunc E a True s = Some (st, out, s') \<and>
    iot_called_ready ops items node_at space queued I E p (as_heap s') \<and> as_objects s' = as_objects s \<and> only_calls (as_world s) (as_world s') \<and>
    (st \<noteq> STATUS_SUCCESS \<longrightarrow> out = None) \<and>
    (st = STATUS_SUCCESS \<longrightarrow> (\<exists>q c. as_heap s' q = Some (OCredentials c) \<and> out = Some (q, ac_size c, ac_expiration c)))"
  unfolding getSecurityTokenIotFunc_def by (rule iot_called.security_token_ok [OF assms])

end
