(* ===== verification/Spec2Isabelle.thy ===== *)
theory Spec2Isabelle
  imports Continuous_Retry Auth_Callbacks Request_Signing Device_Info Curl_Session Json_Tokens Default_Callbacks Curl_Reachable Iot_Auth
begin

text \<open>
  \<^bold>\<open>A model of the Amazon Kinesis Video Streams producer library in C\<close> (\<open>src/source\<close>).

  \<^bold>\<open>The program.\<close> An application creates a \<^emph>\<open>callbacks provider\<close> and hands it to the platform independent
  code, which calls back through its table. Behind the table are chains of callbacks that the providers
  of this library add: authentication, device and stream descriptions, the retry logic, and the calls of
  the service over HTTP by curl. The chains are run by aggregates, one for each callback. A call of the
  service runs on a thread of its own: its request is signed with the AWS signature of version 4, curl
  performs it, the JSON answer is tokenised and taken apart, and an event reports the result to the
  platform independent code. A streaming upload is a request whose body curl asks for with a callback
  that reads from the stream's buffer.

  \<^bold>\<open>Theories and sources.\<close> Paths are relative to \<open>src/source\<close>.

  \<^item> \<open>KVS_Prelude\<close>: integer types, status codes, \<open>retStatus\<close> chains, function pointers, generic lemmas.
    \<open>C_Strings\<close>: the C string functions. \<open>Doubles\<close>: double precision rounding as far as it is used.
    \<open>Platform_Utils\<close>, \<open>Single_List\<close>: contracts of the platform independent utilities, with instances.
  \<^item> \<open>Callbacks\<close>: \<open>CallbacksProvider.c\<close> and the structures of \<open>cproducer/Include.h\<close>.
  \<^item> \<open>Retry_StateMachines\<close>: \<open>StreamLatencyStateMachine.c\<close> and \<open>ConnectionStaleStateMachine.c\<close>.
    \<open>Continuous_Retry\<close>: \<open>ContinuousRetryStreamCallbacks.c\<close>, a table of state machines, one for each stream.
  \<^item> \<open>Timestamps\<close>: \<open>Common/Util.c\<close>. \<open>Aws_Credentials\<close>: \<open>Common/Auth.c\<close>. \<open>Credential_Providers\<close>:
    \<open>Common/StaticCredentialProvider.c\<close> and \<open>Common/FileCredentialProvider.c\<close>. \<open>Auth_Callbacks\<close>:
    \<open>StaticAuthCallbacks.c\<close>, \<open>FileAuthCallbacks.c\<close> and \<open>CredentialProviderAuthCallbacks.c\<close>.
  \<^item> \<open>Service_Calls\<close>, \<open>Request_Info\<close>: \<open>Common/RequestInfo.c\<close>. \<open>Uri_Encoding\<close>, \<open>Request_Urls\<close>, \<open>Aws_V4_Signer\<close>,
    \<open>Signature_V4\<close>, \<open>Request_Signing\<close>: \<open>Common/AwsV4Signer.c\<close>.
  \<^item> \<open>Stream_Info\<close>: \<open>StreamInfoProvider.c\<close>. \<open>Device_Info\<close>: \<open>DeviceInfoProvider.c\<close>.
  \<^item> \<open>Curl_Response\<close>, \<open>Curl_Session\<close>: \<open>Response.c\<close> and \<open>Common/Curl/CurlCall.c\<close>. \<open>Jsmn\<close>, \<open>Json_Tokens\<close>:
    the tokenizer of \<open>common/jsmn.h\<close>.
  \<^item> \<open>Curl_Requests\<close>, \<open>Curl_Shutdown\<close>, \<open>Curl_Api\<close>, \<open>Curl_Handlers\<close>, \<open>Curl_Create\<close>, \<open>Curl_Answers\<close>:
    \<open>CurlApiCallbacks.c\<close>, \<open>Request.c\<close> and \<open>Common/Version.c\<close>: the state and its requests, the end of requests
    and the shutdowns, the functions that start a call, the functions that run on its thread, creation and
    release, and what the handlers find in an answer.
  \<^item> \<open>Curl_Contract\<close>, \<open>Curl_Invariant\<close>, \<open>Curl_Ends\<close>, \<open>Curl_Starts\<close>, \<open>Curl_Steps\<close>, \<open>Curl_Stops\<close>,
    \<open>Curl_Tables\<close>, \<open>Curl_Reachable\<close>: the curl API callbacks as a whole, below.
  \<^item> \<open>Iot_Credentials\<close>: \<open>Common/IotCredentialProvider.c\<close>, \<open>Common/Curl/CurlIotCredentialProvider.c\<close> and
    \<open>Common/Lws/LwsIotCredentialProvider.c\<close>. \<open>Iot_Auth\<close>: \<open>IotAuthCallback.c\<close>.
  \<^item> \<open>Default_Callbacks\<close>: \<open>StreamCallbacksProvider.c\<close> and \<open>FileLoggerPlatformCallbackProvider.c\<close>.

  \<^bold>\<open>State and effects.\<close> Every object that the code mutates is a record, an enumeration a datatype, and an
  operation is a function from the state to a status and the new state. Objects that are shared by
  address are in heaps: credentials and their providers (\<open>cheap\<close>), headers of requests (\<open>hheap\<close>), the
  objects of the authentication callbacks, the requests and endpoint trackers of the curl API callbacks.
  An access to an address that is not live, a copy beyond a buffer, the use of a variable that was never
  set and an abort of the process (\<open>CHECK_EXT\<close>) are the value \<open>None\<close>, so that a lemma with a result of
  the form \<open>Some\<close> also says that none of them happens. Lengths, times and sizes are words of the width
  of the source, and wrap.

  \<^bold>\<open>Parameters.\<close> Allocation, clock, files, mutexes, threads, curl, the digests, and the lists, tables and
  queues of the platform independent code are not under \<open>src\<close>. They are fields of environment records
  (\<open>cred_env\<close>, \<open>auth_env\<close>, \<open>request_env\<close>, \<open>curl_env\<close>, \<open>api_env\<close>, \<open>iot_env\<close>) or arguments. What the code relies on is
  stated as locales: \<open>single_list\<close> and \<open>request_list\<close> for the list of headers, \<open>hash_map\<close> and
  \<open>double_list\<close> for the tables and the list of uploads, \<open>credential_provider\<close> and \<open>called_provider\<close> for a
  credential provider behind its function pointer, \<open>curl_call\<close> for what a call needs. Each is interpreted
  on the definitions of its provider in the model, or, where the provider is not under \<open>src\<close>, on an
  executable instance that the witnesses run.

  \<^bold>\<open>Callbacks.\<close> The provider's invariant holds behind every sequence of installing operations, failed
  ones included; each of the 26 aggregates runs its own function of the entries of its own chain in order
  and stops at the first that does not succeed (\<open>chain_outcome\<close>); the release calls every release function once; platform callbacks set once are never missing,
  set twice they may be. The default stream callbacks change nothing, and adding a file logger changes
  only the print function of the client callbacks, or fails and leaves the provider as it was.

  \<^bold>\<open>Retry.\<close> The two state machines are steps of a transition function; resets of the latency machine are
  more than the grace period apart and persistent latency escalates to infinite retry. The table of
  machines is an inductive set of reachable states in which the live machines are those of the table.

  \<^bold>\<open>Credentials.\<close> Timestamps, the credentials object and the providers compose: what a file holds is
  what the token callbacks hand out, unexpired or freshly read. The contract \<open>called_provider\<close> gives the
  token callbacks of every kind from what a call through the provider's function pointer keeps. The IoT
  provider asks the service by a blocking call; what curl delivers for each call is a parameter. For
  every result of curl and of the service, and an answer that is refused or has plain members in any
  order, it is stated when new credentials take the place of the old ones, which they are, and what a
  failure leaves.

  \<^bold>\<open>Requests and signing.\<close> Headers stay sorted without case. The URL encoder, the canonical query, the
  canonical request and the signature are each proved equal to a reference definition that is a few
  lines of list functions; two passes compute the size and fill the buffer, and the size is enough.

  \<^bold>\<open>Calls and answers.\<close> The options of a secure session verify the peer; the read callback returns behind
  at most five sleeps (its recursion is bounded by \<open>MAX_GET_DATA_ITER\<close>); the answer that is kept is the
  one that curl delivers. The tokenizer finds exactly the tokens of a printed JSON value, and the
  handlers find the members of the answer, as long as no string in a member they do not know is one of
  the names they look for.

  \<^bold>\<open>The curl API callbacks as a whole.\<close> \<open>api_inv\<close> says that the live requests are exactly those that the
  table of active requests and the list of uploads refer to, each from one place, with one running
  thread, and that the cached endpoints are live. A thread that \<open>THREAD_CANCEL\<close> asked to end is not gone:
  it moves to \<open>ca_cancelled\<close> with the request it has, which the failed start releases; the invariant
  says that it never gets the start lock of its request. What it would do with a released request is
  undefined and no step. \<open>Curl_Ends\<close> and \<open>Curl_Starts\<close> prove it for the end and
  the start of a call, \<open>Curl_Steps\<close> for the inductive relation \<open>api_step\<close>, which has a rule for each
  operation of the client and each step of a handler thread, in any order; a shutdown of a stream or of
  the client is several of these steps. \<open>Curl_Stops\<close> has the shutdowns: \<open>stop_stream\<close> and \<open>stop_all\<close> are
  what they do before they wait, and the waiting loops are \<open>partial_function (option)\<close>, so that not
  returning is \<open>None\<close>. What the other threads do in each round is a parameter, restricted along the
  rounds only (\<open>others_along\<close>, \<open>others_any\<close>), and the shutdown of a stream is proved to return when the
  requests of the stream have ended after some number of rounds.
  \<open>Curl_Tables\<close> has the executable tables and a sample object, \<open>Curl_Reachable\<close> the properties.

  \<^bold>\<open>Loops and fuel.\<close> Loops over lists and strings are structural or have a measure. The walk over the list
  of headers, whose nodes are those of a parameter, is a \<open>partial_function (option)\<close> and proved to end
  under the contract of the list. No definition takes fuel.

  \<^bold>\<open>Not modelled.\<close>
  \<^item> The functions of \<open>CallbacksProvider.c\<close> that create a provider with all its callbacks: they compose the
    creation functions of the other components, which are modelled one by one.
  \<^item> \<open>Common/Lws/LwsCall.c\<close> and \<open>Common/SslInit.c\<close>: compiled only without curl or for old versions of
    OpenSSL, and calls of those libraries throughout.
  \<^item> Logging, and the debug dump of a stream to a file beyond its options.
  \<^item> \<open>samples\<close>, \<open>tst\<close>, and the device services in \<open>MediaStreamProvider_cpp\<close> and \<open>kvsservice\<close>: clients of the
    library, sockets and message queues, most of it in C++.
\<close>

end
